(* ===== verification/Go_Prelude.thy ===== *)
theory Go_Prelude
  imports Main "HOL-Library.Sublist"
begin

section \<open>The fragment of Go the program uses\<close>

text \<open>
  Shared by every component: Go's machine integers, \<open>time.Time\<close> and \<open>time.Duration\<close>,
  the byte-string functions of package \<open>strings\<close>, decimal formatting and parsing of
  \<open>strconv\<close> and \<open>fmt\<close>, error values with wrapping (\<open>errors.Is\<close>, \<open>errors.As\<close>) and
  the result-with-state combinators the models of the handlers are written with.

  Conventions.
  \<^item> A Go string is its list of bytes, the type \<^typ>\<open>string\<close>; \<open>len\<close> is \<^const>\<open>length\<close>.
  \<^item> \<open>int\<close> and \<open>int64\<close> are 64 bits wide: values are of type \<^typ>\<open>int\<close>, and every
    operation that can overflow is followed by \<open>wrap64\<close>.
  \<^item> A \<open>time.Time\<close> is the number of nanoseconds since the zero time (1 January of year 1,
    UTC), so \<open>IsZero\<close> is equality with 0; a nil-able time is a \<^typ>\<open>int option\<close>.
  \<^item> A call that changes state and may fail returns the new state and a value of a sum
    type, \<^const>\<open>Inl\<close> for the error.
\<close>

named_theorems go_defs \<open>small Go library functions, unfolded together\<close>
named_theorems bind_iff \<open>inversion of composed fallible calls\<close>


subsection \<open>Integers of 64 bits\<close>

definition in_int64 :: "int \<Rightarrow> bool" where
  "in_int64 x \<longleftrightarrow> - (2 ^ 63) \<le> x \<and> x < 2 ^ 63"

definition wrap64 :: "int \<Rightarrow> int" where
  "wrap64 x = (x + 2 ^ 63) mod 2 ^ 64 - 2 ^ 63"

lemma wrap64_id [simp]: "in_int64 x \<Longrightarrow> wrap64 x = x"
  by (simp add: in_int64_def wrap64_def)

lemma wrap64_in_int64 [simp]: "in_int64 (wrap64 x)"
proof -
  have "0 \<le> (x + 2 ^ 63) mod 2 ^ 64" "(x + 2 ^ 63) mod 2 ^ 64 < (2 ^ 64 :: int)"
    by (rule pos_mod_sign pos_mod_bound, simp)+
  then show ?thesis by (simp add: in_int64_def wrap64_def)
qed

lemma wrap64_mod: "wrap64 x mod 2 ^ 64 = x mod 2 ^ 64"
  by (simp add: wrap64_def mod_diff_left_eq)

lemma wrap64_cong: "x mod 2 ^ 64 = y mod 2 ^ 64 \<Longrightarrow> wrap64 x = wrap64 y"
  unfolding wrap64_def by (metis mod_add_left_eq)

lemma wrap64_mult_wrap64: "wrap64 (a * wrap64 b) = wrap64 (a * b)"
  by (rule wrap64_cong) (metis mod_mult_right_eq wrap64_mod)


subsection \<open>Time and durations\<close>

type_synonym time = int
type_synonym duration = int

abbreviation (input) zero_time :: time where "zero_time \<equiv> 0"

definition is_zero_time :: "time \<Rightarrow> bool" where
  [go_defs]: "is_zero_time t \<longleftrightarrow> t = zero_time"

definition time_add :: "time \<Rightarrow> duration \<Rightarrow> time" where
  [go_defs]: "time_add t d = t + d"

text \<open>\<open>Time.Sub\<close> saturates at the largest and smallest duration.\<close>

definition time_sub :: "time \<Rightarrow> time \<Rightarrow> duration" where
  [go_defs]: "time_sub t u = max (- (2 ^ 63)) (min (2 ^ 63 - 1) (t - u))"

definition time_after :: "time \<Rightarrow> time \<Rightarrow> bool" where
  [go_defs]: "time_after t u \<longleftrightarrow> u < t"

abbreviation (input) nanosecond :: duration where "nanosecond \<equiv> 1"
abbreviation (input) millisecond :: duration where "millisecond \<equiv> 1000000"
abbreviation (input) second :: duration where "second \<equiv> 1000000000"
abbreviation (input) minute :: duration where "minute \<equiv> 60000000000"

text \<open>The marshaller of a time refuses years outside 0 to 9999.\<close>

definition time_marshalable :: "time \<Rightarrow> bool" where
  "time_marshalable t \<longleftrightarrow> - (366 * 86400 * second) \<le> t \<and> t < 3652059 * 86400 * second"


subsection \<open>Byte strings: package strings\<close>

text \<open>
  \<open>strings.TrimSpace\<close> removes Unicode white space at both ends. On the bytes of a string
  this is removal of the UTF-8 encodings of the white-space characters: a leading encoding
  is decoded as that character, and a trailing one too, whatever stands before it.
\<close>

definition space_encodings :: "string list" where
  "space_encodings =
     [[CHR 0x20], [CHR 0x09], [CHR 0x0A], [CHR 0x0B], [CHR 0x0C], [CHR 0x0D],
      [CHR 0xC2, CHR 0x85], [CHR 0xC2, CHR 0xA0],
      [CHR 0xE1, CHR 0x9A, CHR 0x80],
      [CHR 0xE2, CHR 0x80, CHR 0x80], [CHR 0xE2, CHR 0x80, CHR 0x81],
      [CHR 0xE2, CHR 0x80, CHR 0x82], [CHR 0xE2, CHR 0x80, CHR 0x83],
      [CHR 0xE2, CHR 0x80, CHR 0x84], [CHR 0xE2, CHR 0x80, CHR 0x85],
      [CHR 0xE2, CHR 0x80, CHR 0x86], [CHR 0xE2, CHR 0x80, CHR 0x87],
      [CHR 0xE2, CHR 0x80, CHR 0x88], [CHR 0xE2, CHR 0x80, CHR 0x89],
      [CHR 0xE2, CHR 0x80, CHR 0x8A], [CHR 0xE2, CHR 0x80, CHR 0xA8],
      [CHR 0xE2, CHR 0x80, CHR 0xA9], [CHR 0xE2, CHR 0x80, CHR 0xAF],
      [CHR 0xE2, CHR 0x81, CHR 0x9F], [CHR 0xE3, CHR 0x80, CHR 0x80]]"

definition leading_space :: "string list \<Rightarrow> string \<Rightarrow> string option" where
  "leading_space ws s = find (\<lambda>w. w \<noteq> [] \<and> take (length w) s = w) ws"

fun strip_prefixes :: "string list \<Rightarrow> string \<Rightarrow> string" where
  "strip_prefixes ws [] = []"
| "strip_prefixes ws (c # s) =
     (case leading_space ws (c # s) of
        None \<Rightarrow> c # s
      | Some w \<Rightarrow> strip_prefixes ws (drop (length w - 1) s))"

definition trim_space :: "string \<Rightarrow> string" where
  "trim_space s =
     rev (strip_prefixes (map rev space_encodings) (rev (strip_prefixes space_encodings s)))"

definition has_prefix :: "string \<Rightarrow> string \<Rightarrow> bool" where
  [go_defs]: "has_prefix s p \<longleftrightarrow> take (length p) s = p"

definition has_suffix :: "string \<Rightarrow> string \<Rightarrow> bool" where
  [go_defs]: "has_suffix s p \<longleftrightarrow> has_prefix (rev s) (rev p)"

definition lower_byte :: "char \<Rightarrow> char" where
  "lower_byte c =
     (if (65::nat) \<le> of_char c \<and> (of_char c :: nat) \<le> 90
      then (case c of Char b0 b1 b2 b3 b4 b5 b6 b7 \<Rightarrow> Char b0 b1 b2 b3 b4 True b6 b7)
      else c)"

definition ascii_only :: "string \<Rightarrow> bool" where
  "ascii_only s \<longleftrightarrow> list_all (\<lambda>c. (of_char c :: nat) < 128) s"

text \<open>
  \<open>strings.ToLower\<close> works bytewise on ASCII strings and through the Unicode case tables
  otherwise; those tables are the parameter \<open>uni\<close>.
\<close>

definition to_lower :: "(string \<Rightarrow> string) \<Rightarrow> string \<Rightarrow> string" where
  "to_lower uni s = (if ascii_only s then map lower_byte s else uni s)"


text \<open>
  \<open>strings.Fields\<close> cuts a string at the maximal runs of white space: \<open>strings_fields_from\<close> carries the word under
  construction, reversed, and \<open>skip\<close> counts the bytes of an encoding still to be passed.
\<close>

fun strings_fields_from :: "nat \<Rightarrow> string \<Rightarrow> string \<Rightarrow> string list" where
  "strings_fields_from skip acc [] = (if acc = [] then [] else [rev acc])"
| "strings_fields_from (Suc n) acc (c # s) = strings_fields_from n acc s"
| "strings_fields_from 0 acc (c # s) =
     (case leading_space space_encodings (c # s) of
        None \<Rightarrow> strings_fields_from 0 (c # acc) s
      | Some w \<Rightarrow> (if acc = [] then [] else [rev acc]) @ strings_fields_from (length w - 1) [] s)"

definition strings_fields :: "string \<Rightarrow> string list" where
  "strings_fields s = strings_fields_from 0 [] s"


subsection \<open>Decimal numerals: packages fmt and strconv\<close>

definition digit_char :: "nat \<Rightarrow> char" where
  "digit_char d = char_of (48 + d)"

fun fmt_nat :: "nat \<Rightarrow> string" where
  "fmt_nat n = (if n < 10 then [digit_char n] else fmt_nat (n div 10) @ [digit_char (n mod 10)])"

declare fmt_nat.simps [simp del]

definition fmt_int :: "int \<Rightarrow> string" where
  "fmt_int x = (if x < 0 then CHR ''-'' # fmt_nat (nat (- x)) else fmt_nat (nat x))"

definition is_digit :: "char \<Rightarrow> bool" where
  "is_digit c \<longleftrightarrow> (48::nat) \<le> of_char c \<and> (of_char c :: nat) \<le> 57"

definition digit_val :: "char \<Rightarrow> nat" where
  "digit_val c = of_char c - 48"

definition read_nat :: "string \<Rightarrow> nat" where
  "read_nat s = foldl (\<lambda>n c. 10 * n + digit_val c) 0 s"

text \<open>
  \<open>strconv.ParseInt(s, 10, 64)\<close> and \<open>strconv.Atoi\<close>: an optional sign, at least one
  digit, nothing else, and a value in range; the error kinds are \<open>ErrSyntax\<close> and
  \<open>ErrRange\<close>.
\<close>

datatype num_error = ErrSyntax | ErrRange

definition parse_int64 :: "string \<Rightarrow> num_error + int" where
  "parse_int64 s =
     (let neg = (s \<noteq> [] \<and> hd s = CHR ''-'');
          ds = (if s \<noteq> [] \<and> (hd s = CHR ''-'' \<or> hd s = CHR ''+'') then tl s else s);
          v = (if neg then - int (read_nat ds) else int (read_nat ds))
      in if ds = [] \<or> \<not> list_all is_digit ds then Inl ErrSyntax
         else if in_int64 v then Inr v else Inl ErrRange)"


subsection \<open>Results that carry a state\<close>

text \<open>
  \<open>bind_st r f\<close> is the Go idiom \<open>x, err := call(); if err != nil { return err }; ...\<close>;
  \<open>wrap_err\<close> is \<open>fmt.Errorf\<close> applied on that error path.
\<close>

fun bind_st :: "'s \<times> ('e + 'a) \<Rightarrow> ('s \<Rightarrow> 'a \<Rightarrow> 's \<times> ('e + 'b)) \<Rightarrow> 's \<times> ('e + 'b)" where
  "bind_st (s, Inl e) f = (s, Inl e)"
| "bind_st (s, Inr a) f = f s a"

fun map_err :: "('e \<Rightarrow> 'f) \<Rightarrow> 's \<times> ('e + 'a) \<Rightarrow> 's \<times> ('f + 'a)" where
  "map_err g (s, Inl e) = (s, Inl (g e))"
| "map_err g (s, Inr a) = (s, Inr a)"

lemma bind_st_Inr [bind_iff]:
  "bind_st r f = (s', Inr b) \<longleftrightarrow> (\<exists>s a. r = (s, Inr a) \<and> f s a = (s', Inr b))"
  by (cases r; cases "snd r") auto

lemma map_err_Inr [bind_iff]: "map_err g r = (s', Inr b) \<longleftrightarrow> r = (s', Inr b)"
  by (cases r; cases "snd r") auto

lemma map_err_Inl [bind_iff]: "map_err g r = (s', Inl e) \<longleftrightarrow> (\<exists>e0. r = (s', Inl e0) \<and> e = g e0)"
  by (cases r; cases "snd r") auto

lemma bind_st_Inl [bind_iff]:
  "bind_st r f = (s', Inl e) \<longleftrightarrow>
     r = (s', Inl e) \<or> (\<exists>s a. r = (s, Inr a) \<and> f s a = (s', Inl e))"
  by (cases r; cases "snd r") auto



subsection \<open>Facts about the string functions\<close>

lemma leading_space_nonempty: "leading_space ws s = Some w \<Longrightarrow> w \<noteq> [] \<and> take (length w) s = w"
  by (auto simp: leading_space_def find_Some_iff)

lemma leading_space_None:
  "leading_space ws s = None \<longleftrightarrow> (\<forall>w \<in> set ws. w \<noteq> [] \<longrightarrow> take (length w) s \<noteq> w)"
  by (auto simp: leading_space_def find_None_iff)

lemma strip_prefixes_leading: "leading_space ws (strip_prefixes ws s) = None"
proof (induction ws s rule: strip_prefixes.induct)
  case (1 ws)
  then show ?case by (auto simp: leading_space_None)
next
  case (2 ws c s)
  then show ?case by (cases "leading_space ws (c # s)") auto
qed

lemma strip_prefixes_id: "leading_space ws s = None \<Longrightarrow> strip_prefixes ws s = s"
  by (cases s) auto

lemma strip_prefixes_idem [simp]: "strip_prefixes ws (strip_prefixes ws s) = strip_prefixes ws s"
  by (simp add: strip_prefixes_id strip_prefixes_leading)

lemma suffix_strip_prefixes: "suffix (strip_prefixes ws s) s"
proof (induction ws s rule: strip_prefixes.induct)
  case (2 ws c s)
  show ?case
  proof (cases "leading_space ws (c # s)")
    case (Some w)
    then have "suffix (strip_prefixes ws (c # s)) (drop (length w - 1) s)" using 2 by simp
    then show ?thesis
      by (meson suffix_ConsI suffix_drop suffix_order.trans)
  qed simp
qed simp

lemma leading_space_prefix: "leading_space ws s = None \<Longrightarrow> prefix t s \<Longrightarrow> leading_space ws t = None"
  unfolding leading_space_None
proof (intro ballI impI)
  fix w assume h: "\<forall>w\<in>set ws. w \<noteq> [] \<longrightarrow> take (length w) s \<noteq> w" "prefix t s" "w \<in> set ws" "w \<noteq> []"
  show "take (length w) t \<noteq> w"
  proof
    assume e: "take (length w) t = w"
    then have "length w \<le> length t" by (metis nat_le_linear take_all)
    with e h(2) have "take (length w) s = w" by (auto simp: prefix_def)
    with h show False by blast
  qed
qed

lemma trim_space_idem [simp]: "trim_space (trim_space s) = trim_space s"
proof -
  let ?l = "strip_prefixes space_encodings s"
  let ?R = "strip_prefixes (map rev space_encodings) (rev ?l)"
  have "prefix (rev ?R) ?l"
    using suffix_strip_prefixes [of "map rev space_encodings" "rev ?l"] by (simp add: suffix_to_prefix)
  then have "leading_space space_encodings (rev ?R) = None"
    by (rule leading_space_prefix [OF strip_prefixes_leading])
  then show ?thesis by (simp add: trim_space_def strip_prefixes_id [of space_encodings])
qed

lemma trim_space_Nil [simp]: "trim_space [] = []"
  by (simp add: trim_space_def)

lemma length_trim_space: "length (trim_space s) \<le> length s"
  unfolding trim_space_def
  by (metis length_rev suffix_length_le suffix_strip_prefixes le_trans)

text \<open>A string that begins and ends with visible ASCII characters is left alone.\<close>

definition visible :: "char \<Rightarrow> bool" where
  "visible c \<longleftrightarrow> (33::nat) \<le> of_char c \<and> (of_char c :: nat) < 128"

lemma leading_space_visible:
  assumes "visible c"
  shows "leading_space space_encodings (c # s) = None"
    and "leading_space (map rev space_encodings) (c # s) = None"
  using assms by (auto simp: leading_space_None space_encodings_def visible_def)

lemma trim_space_visible:
  assumes "s \<noteq> []" "visible (hd s)" "visible (last s)"
  shows "trim_space s = s"
proof -
  obtain c t where c: "s = c # t" using assms by (cases s) auto
  obtain d u where d: "rev s = d # u" using assms by (cases "rev s") auto
  have "d = hd (rev s)" using d by simp
  also have "\<dots> = last s" using assms(1) by (simp add: hd_rev)
  finally have "visible d" using assms(3) by simp
  then have "strip_prefixes (map rev space_encodings) (rev s) = rev s"
    unfolding d by (simp add: leading_space_visible strip_prefixes_id)
  moreover have "strip_prefixes space_encodings s = s"
    using c assms by (simp add: leading_space_visible strip_prefixes_id)
  ultimately show ?thesis by (simp add: trim_space_def)
qed

lemma fields_from_visible:
  "list_all visible w \<Longrightarrow> strings_fields_from 0 acc (w @ s) = strings_fields_from 0 (rev w @ acc) s"
  by (induction w arbitrary: acc) (simp_all add: leading_space_visible)

lemma fields_from_space:
  "acc \<noteq> [] \<Longrightarrow> strings_fields_from 0 acc (CHR '' '' # s) = rev acc # strings_fields_from 0 [] s"
  by (simp add: leading_space_def space_encodings_def)


subsection \<open>Facts about numerals\<close>

lemma digit_char_facts [simp]:
  assumes "d < 10"
  shows "digit_val (digit_char d) = d" "is_digit (digit_char d)" "visible (digit_char d)"
  using assms by (simp_all add: digit_val_def digit_char_def is_digit_def visible_def)

lemma read_nat_snoc [simp]: "read_nat (s @ [c]) = 10 * read_nat s + digit_val c"
  by (simp add: read_nat_def)

lemma fmt_nat_facts: "read_nat (fmt_nat n) = n \<and> list_all is_digit (fmt_nat n) \<and> fmt_nat n \<noteq> []"
proof (induction n rule: fmt_nat.induct)
  case (1 n)
  show ?case
  proof (cases "n < 10")
    case True
    then show ?thesis by (subst (1 2 3) fmt_nat.simps) (simp add: read_nat_def)
  next
    case False
    with 1 show ?thesis by (subst (1 2 3) fmt_nat.simps) simp
  qed
qed

lemma not_digit_sign [simp]: "\<not> is_digit (CHR ''-'')" "\<not> is_digit (CHR ''+'')"
  by (simp_all add: is_digit_def)

text \<open>Formatting an \<open>int64\<close> and parsing it gives the number back.\<close>

lemma parse_fmt_int: "in_int64 x \<Longrightarrow> parse_int64 (fmt_int x) = Inr x"
proof -
  assume x: "in_int64 x"
  show ?thesis
  proof (cases "x < 0")
    case True
    then show ?thesis using x fmt_nat_facts [of "nat (- x)"]
      by (simp add: parse_int64_def fmt_int_def)
  next
    case False
    obtain c s where cs: "fmt_nat (nat x) = c # s"
      using fmt_nat_facts [of "nat x"] by (cases "fmt_nat (nat x)") auto
    then have "c \<noteq> CHR ''-''" "c \<noteq> CHR ''+''" using fmt_nat_facts [of "nat x"] by auto
    then show ?thesis using x False cs fmt_nat_facts [of "nat x"]
      by (simp add: parse_int64_def fmt_int_def)
  qed
qed

lemma fmt_nat_inject [simp]: "fmt_nat m = fmt_nat n \<longleftrightarrow> m = n"
  by (metis fmt_nat_facts)

lemma fmt_nat_no_sign [simp]: "fmt_nat m \<noteq> CHR ''-'' # s" "CHR ''-'' # s \<noteq> fmt_nat m"
proof -
  show "fmt_nat m \<noteq> CHR ''-'' # s"
    using fmt_nat_facts [of m] by (cases "fmt_nat m") auto
  then show "CHR ''-'' # s \<noteq> fmt_nat m" by metis
qed

lemma fmt_int_inject [simp]: "fmt_int x = fmt_int y \<longleftrightarrow> x = y"
  by (auto simp: fmt_int_def simp del: fmt_nat.simps)

lemma parse_int64_in_int64: "parse_int64 s = Inr v \<Longrightarrow> in_int64 v"
  by (auto simp: parse_int64_def Let_def split: if_splits)


subsection \<open>Hexadecimal\<close>

definition hex_digit :: "nat \<Rightarrow> char" where
  "hex_digit d = char_of (if d < 10 then 48 + d else 87 + d)"

definition hex_encode :: "string \<Rightarrow> string" where
  "hex_encode s = concat (map (\<lambda>c. [hex_digit (of_char c div 16), hex_digit (of_char c mod 16)]) s)"

lemma of_char_hex_digit: "d < 16 \<Longrightarrow> (of_char (hex_digit d) :: nat) = (if d < 10 then 48 + d else 87 + d)"
  by (simp add: hex_digit_def)

lemma hex_digit_inject:
  assumes "d < 16" "e < 16"
  shows "hex_digit d = hex_digit e \<longleftrightarrow> d = e"
proof
  assume "hex_digit d = hex_digit e"
  then have "(if d < 10 then 48 + d else 87 + d) = (if e < 10 then 48 + e else 87 + e)"
    using of_char_hex_digit [OF assms(1)] of_char_hex_digit [OF assms(2)] by metis
  then show "d = e" by (simp split: if_splits)
qed simp

lemma length_hex_encode [simp]: "length (hex_encode s) = 2 * length s"
  by (induction s) (simp_all add: hex_encode_def)

lemma hex_byte_inject:
  "hex_digit (of_char c div 16) = hex_digit (of_char d div 16) \<Longrightarrow>
   hex_digit (of_char c mod 16) = hex_digit (of_char d mod 16) \<Longrightarrow> c = d"
proof -
  assume h: "hex_digit (of_char c div 16) = hex_digit (of_char d div 16)"
    "hex_digit (of_char c mod 16) = hex_digit (of_char d mod 16)"
  have "(of_char x :: nat) div 16 < 16" for x :: char
    by (rule less_mult_imp_div_less) (use nat_of_char_less_256 [of x] in linarith)
  with h have "(of_char c :: nat) div 16 = of_char d div 16" "(of_char c :: nat) mod 16 = of_char d mod 16"
    by (simp_all add: hex_digit_inject)
  then have "(of_char c :: nat) = of_char d" by (metis mult_div_mod_eq)
  then show "c = d" by simp
qed

lemma hex_encode_inject [simp]: "hex_encode s = hex_encode t \<longleftrightarrow> s = t"
proof
  show "hex_encode s = hex_encode t \<Longrightarrow> s = t"
  proof (induction s arbitrary: t)
    case Nil
    then show ?case using length_hex_encode [of t] by (simp add: hex_encode_def)
  next
    case (Cons c s)
    then obtain d t' where "t = d # t'"
      using length_hex_encode [of "c # s"] length_hex_encode [of t] by (cases t) auto
    with Cons show ?case by (auto simp: hex_encode_def dest: hex_byte_inject)
  qed
qed simp

lemma trim_all_visible: "list_all visible s \<Longrightarrow> trim_space s = s"
  using trim_space_visible [of s] by (cases "s = []") (auto simp: list_all_iff)

lemma visible_hex_digit: "d < 16 \<Longrightarrow> visible (hex_digit d)"
  by (auto simp: visible_def of_char_hex_digit)

lemma hex_encode_visible: "list_all visible (hex_encode s)"
proof (induction s)
  case (Cons c s)
  have "(of_char c :: nat) div 16 < 16"
    by (rule less_mult_imp_div_less) (use nat_of_char_less_256 [of c] in linarith)
  then show ?case using Cons by (simp add: hex_encode_def visible_hex_digit)
qed (simp add: hex_encode_def)

lemma trim_hex_encode: "s \<noteq> '''' \<Longrightarrow> trim_space (hex_encode s) = hex_encode s \<and> hex_encode s \<noteq> ''''"
  using trim_all_visible [OF hex_encode_visible] length_hex_encode [of s] by fastforce

end
