(* ===== verification/Go_Errors.thy ===== *)
theory Go_Errors
  imports Go_Prelude
begin

section \<open>Error values and JSON texts\<close>

text \<open>
  The program's errors are sentinel variables (\<open>errors.New\<close>), texts, and wrappings with
  \<open>fmt.Errorf("... %w ...")\<close>; code branches on them with \<open>errors.Is\<close>. A sentinel is
  compared by identity, so two sentinels with one text (\<open>user.ErrUserNotFound\<close> and
  \<open>auth.ErrUserNotFound\<close>) are two constructors here.

  JSON texts are kept as their values: the program never looks at the bytes of a payload
  other than through \<open>encoding/json\<close>.
\<close>

datatype sentinel =
    ErrSourceNotFound | ErrSourceURLDuplicated
  | ErrInvalidSourceName | ErrInvalidSourceType | ErrInvalidSourceURL
  | ErrInvalidSourceConfig | ErrSourceAlreadyExists | ErrSourceNotAccessible
  | ErrCollectorNotFound | ErrCollectionFailed | ErrCollectionInProgress
  | ErrCollectionRunNotFound
  | ErrInvalidMessage | ErrJobExecutionClaimLost
  | ErrOutboxEventNotFound | ErrOutboxClaimLost | ErrDLQItemNotFound
  | ErrArticleNotFound | ErrInvalidCollectedItem
  | UserErrUserNotFound | UserErrEmailAlreadyExists
  | ErrEmailAlreadyExists | ErrInvalidCredentials | ErrInvalidEmail | ErrWeakPassword
  | ErrInvalidRefreshToken | ErrUserNotFound | ErrRefreshTokenNotFound
  | ErrSummaryNotFound | ErrNoSummaryJob | ErrEmbeddingNotFound | ErrDigestNotFound
  | ErrAISettingsNotFound | ErrAISettingsEncryptionKeyRequired
  | ErrInvalidAIProvider | ErrInvalidAIBaseURL | ErrInvalidAIModel | ErrEmptyQuery
  | ErrUnsafeAddress
  | ErrInvalidEmailConfig | ErrMailboxReadFailed
  | ErrSourceURLRequired | ErrFeedParseFailed | ErrFeedFetchFailed
  | ContextCanceled | ContextDeadlineExceeded
  | GormErrRecordNotFound | GormErrDuplicatedKey

fun sentinel_text :: "sentinel \<Rightarrow> string" where
  "sentinel_text ErrSourceNotFound = ''source not found''"
| "sentinel_text ErrSourceURLDuplicated = ''source URL duplicated''"
| "sentinel_text ErrInvalidSourceName = ''invalid source name''"
| "sentinel_text ErrInvalidSourceType = ''invalid source type''"
| "sentinel_text ErrInvalidSourceURL = ''invalid source url''"
| "sentinel_text ErrInvalidSourceConfig = ''invalid source config''"
| "sentinel_text ErrSourceAlreadyExists = ''source already exists''"
| "sentinel_text ErrSourceNotAccessible = ''source not accessible''"
| "sentinel_text ErrCollectorNotFound = ''collector not found''"
| "sentinel_text ErrCollectionFailed = ''collection failed''"
| "sentinel_text ErrCollectionInProgress = ''collection in progress''"
| "sentinel_text ErrCollectionRunNotFound = ''collection run not found''"
| "sentinel_text ErrInvalidMessage = ''invalid message''"
| "sentinel_text ErrJobExecutionClaimLost = ''job execution claim lost''"
| "sentinel_text ErrOutboxEventNotFound = ''outbox event not found''"
| "sentinel_text ErrOutboxClaimLost = ''outbox event claim lost''"
| "sentinel_text ErrDLQItemNotFound = ''dlq item not found''"
| "sentinel_text ErrArticleNotFound = ''article not found''"
| "sentinel_text ErrInvalidCollectedItem = ''invalid collected item''"
| "sentinel_text UserErrUserNotFound = ''user not found''"
| "sentinel_text UserErrEmailAlreadyExists = ''email already exists''"
| "sentinel_text ErrEmailAlreadyExists = ''email already exists''"
| "sentinel_text ErrInvalidCredentials = ''invalid credentials''"
| "sentinel_text ErrInvalidEmail = ''invalid email''"
| "sentinel_text ErrWeakPassword = ''weak password''"
| "sentinel_text ErrInvalidRefreshToken = ''invalid refresh token''"
| "sentinel_text ErrUserNotFound = ''user not found''"
| "sentinel_text ErrRefreshTokenNotFound = ''refresh tokrn not found''"
| "sentinel_text ErrSummaryNotFound = ''summary not found''"
| "sentinel_text ErrNoSummaryJob = ''no summary job''"
| "sentinel_text ErrEmbeddingNotFound = ''embedding not found''"
| "sentinel_text ErrDigestNotFound = ''digest not found''"
| "sentinel_text ErrAISettingsNotFound = ''ai settings not found''"
| "sentinel_text ErrAISettingsEncryptionKeyRequired = ''ai settings encryption key required''"
| "sentinel_text ErrInvalidAIProvider = ''invalid ai provider''"
| "sentinel_text ErrInvalidAIBaseURL = ''invalid ai base url''"
| "sentinel_text ErrInvalidAIModel = ''invalid ai model''"
| "sentinel_text ErrEmptyQuery = ''empty query''"
| "sentinel_text ErrUnsafeAddress = ''unsafe outbound address''"
| "sentinel_text ErrInvalidEmailConfig = ''invalid email config''"
| "sentinel_text ErrMailboxReadFailed = ''mailbox read failed''"
| "sentinel_text ErrSourceURLRequired = ''source url required''"
| "sentinel_text ErrFeedParseFailed = ''feed parse failed''"
| "sentinel_text ErrFeedFetchFailed = ''feed fetch failed''"
| "sentinel_text ContextCanceled = ''context canceled''"
| "sentinel_text ContextDeadlineExceeded = ''context deadline exceeded''"
| "sentinel_text GormErrRecordNotFound = ''record not found''"
| "sentinel_text GormErrDuplicatedKey = ''duplicated key not allowed''"

text \<open>
  \<open>Wrapf pre e post\<close> is \<open>fmt.Errorf(pre + "%w" + post, e)\<close>; \<open>Permanent e\<close> is the
  program's own \<open>permanentError\<close> struct.
\<close>

datatype go_error =
    Sentinel sentinel
  | Plain string
  | Wrapf string go_error string
  | Permanent go_error

fun error_text :: "go_error \<Rightarrow> string" where
  "error_text (Sentinel s) = sentinel_text s"
| "error_text (Plain s) = s"
| "error_text (Wrapf pre e post) = pre @ error_text e @ post"
| "error_text (Permanent e) = error_text e"

fun errors_is :: "go_error \<Rightarrow> sentinel \<Rightarrow> bool" where
  "errors_is (Sentinel s) t \<longleftrightarrow> s = t"
| "errors_is (Plain _) t \<longleftrightarrow> False"
| "errors_is (Wrapf _ e _) t \<longleftrightarrow> errors_is e t"
| "errors_is (Permanent e) t \<longleftrightarrow> errors_is e t"

type_synonym 'a result = "go_error + 'a"

text \<open>\<open>fmt.Errorf("%w: %s", sentinel, text)\<close>.\<close>

abbreviation sentinel_with :: "sentinel \<Rightarrow> string \<Rightarrow> go_error" where
  "sentinel_with s msg \<equiv> Wrapf '''' (Sentinel s) ('': '' @ msg)"


subsection \<open>Timestamps in RFC 3339\<close>

text \<open>
  The layout \<open>time.RFC3339Nano\<close> of a UTC time: the civil date of a day count (day 0 is
  1 January of year 1), then the clock, then the fraction without trailing zeros.
\<close>

definition civil_from_days :: "int \<Rightarrow> int \<times> int \<times> int" where
  "civil_from_days d =
     (let z = d + 306; era = z div 146097; doe = z mod 146097;
          yoe = (doe - doe div 1460 + doe div 36524 - doe div 146096) div 365;
          doy = doe - (365 * yoe + yoe div 4 - yoe div 100);
          mp = (5 * doy + 2) div 153;
          day = doy - (153 * mp + 2) div 5 + 1;
          month = (if mp < 10 then mp + 3 else mp - 9);
          year = yoe + era * 400 + (if month \<le> 2 then 1 else 0)
      in (year, month, day))"

definition pad_left :: "nat \<Rightarrow> string \<Rightarrow> string" where
  "pad_left w s = replicate (w - length s) (CHR ''0'') @ s"

definition fmt_width :: "nat \<Rightarrow> int \<Rightarrow> string" where
  "fmt_width w x = (if x < 0 then CHR ''-'' # pad_left w (fmt_nat (nat (- x)))
                    else pad_left w (fmt_nat (nat x)))"

definition fraction_text :: "int \<Rightarrow> string" where
  "fraction_text ns =
     (if ns = 0 then '''' else CHR ''.'' # rev (dropWhile (\<lambda>c. c = CHR ''0'') (rev (fmt_width 9 ns))))"

definition rfc3339_nano :: "time \<Rightarrow> string" where
  "rfc3339_nano t =
     (let secs = t div second; (y, m, d) = civil_from_days (secs div 86400); c = secs mod 86400
      in fmt_width 4 y @ ''-'' @ fmt_width 2 m @ ''-'' @ fmt_width 2 d @ ''T'' @
         fmt_width 2 (c div 3600) @ '':'' @ fmt_width 2 (c div 60 mod 60) @ '':'' @
         fmt_width 2 (c mod 60) @ fraction_text (t mod second) @ ''Z'')"


subsection \<open>JSON\<close>

text \<open>
  \<open>JTime t\<close> is the string that \<open>time.Time.MarshalJSON\<close> writes for \<open>t\<close>: every string of a
  text that is such a timestamp is kept as its instant. \<open>JFrac\<close> is a number that is not an
  integer literal.
\<close>

datatype json =
    JNull
  | JBool bool
  | JNum int
  | JFrac string
  | JStr string
  | JTime time
  | JArr "json list"
  | JObj "(string \<times> json) list"

text \<open>The bytes of a payload: a JSON text, or bytes that are no JSON text.\<close>

datatype payload = JsonText json | NotJson string

text \<open>
  Decoding a value into a struct field: \<open>null\<close> leaves the field as it is, a value of
  another kind is an error.
\<close>

fun dec_str :: "json \<Rightarrow> string \<Rightarrow> string option" where
  "dec_str JNull old = Some old"
| "dec_str (JStr s) old = Some s"
| "dec_str (JTime t) old = Some (rfc3339_nano t)"
| "dec_str _ old = None"

fun dec_int :: "json \<Rightarrow> int \<Rightarrow> int option" where
  "dec_int JNull old = Some old"
| "dec_int (JNum n) old = (if in_int64 n then Some n else None)"
| "dec_int _ old = None"

fun dec_time :: "json \<Rightarrow> time \<Rightarrow> time option" where
  "dec_time JNull old = Some old"
| "dec_time (JTime t) old = Some t"
| "dec_time _ old = None"

text \<open>
  Keys are matched to the (ASCII) field names up to case: \<open>encoding/json\<close> folds the
  Latin long s and the Kelvin sign to \<open>s\<close> and \<open>k\<close> too.
\<close>

fun fold_key :: "string \<Rightarrow> string" where
  "fold_key [] = []"
| "fold_key (c # s) =
     (if c = CHR 0xC5 \<and> s \<noteq> [] \<and> hd s = CHR 0xBF then CHR ''s'' # fold_key (tl s)
      else if c = CHR 0xE2 \<and> take 2 s = [CHR 0x84, CHR 0xAA] then CHR ''k'' # fold_key (drop 2 s)
      else lower_byte c # fold_key s)"

text \<open>
  A struct is decoded key by key, later keys over earlier ones, unknown keys ignored;
  \<open>setf k v r\<close> sets the field of \<open>r\<close> with the folded name \<open>k\<close>.
\<close>

fun dec_fields :: "(string \<Rightarrow> json \<Rightarrow> 'r \<Rightarrow> 'r option) \<Rightarrow> (string \<times> json) list \<Rightarrow> 'r \<Rightarrow> 'r option" where
  "dec_fields setf [] r = Some r"
| "dec_fields setf ((k, v) # kvs) r =
     (case setf (fold_key k) v r of None \<Rightarrow> None | Some r' \<Rightarrow> dec_fields setf kvs r')"

fun unmarshal_struct :: "(string \<Rightarrow> json \<Rightarrow> 'r \<Rightarrow> 'r option) \<Rightarrow> 'r \<Rightarrow> payload \<Rightarrow> 'r option" where
  "unmarshal_struct setf zero (JsonText (JObj kvs)) = dec_fields setf kvs zero"
| "unmarshal_struct setf zero (JsonText JNull) = Some zero"
| "unmarshal_struct setf zero _ = None"

text \<open>
  \<open>json.Marshal\<close> of the program's structs fails only on a time it cannot write.
\<close>

definition marshal_fields :: "(string \<times> json) list \<Rightarrow> payload option" where
  "marshal_fields kvs =
     (if \<forall>(k, v) \<in> set kvs. (case v of JTime t \<Rightarrow> time_marshalable t | _ \<Rightarrow> True)
      then Some (JsonText (JObj kvs)) else None)"

definition marshal_time_error :: go_error where
  "marshal_time_error = Plain ''json: error calling MarshalJSON for type time.Time''"

end
