(* ===== verification/Sql_Table.thy ===== *)
theory Sql_Table
  imports Go_Errors
begin

section \<open>Database tables\<close>

text \<open>
  A PostgreSQL table with a serial primary key, as the repositories use it through GORM:
  the rows in the order of their keys and the last value of the sequence. \<open>First\<close> orders
  by primary key and takes one row; \<open>Updates\<close> changes the rows its conditions select and
  reports how many they are; an insert takes the next value of the sequence, and one that
  does nothing on a conflict consumes a value all the same.
\<close>

record 'r table =
  rows :: "'r list"
  seq :: int

definition empty_table :: "'r table" where
  "empty_table = \<lparr>rows = [], seq = 0\<rparr>"

definition insert_row :: "(int \<Rightarrow> 'r) \<Rightarrow> 'r table \<Rightarrow> 'r table" where
  "insert_row mk t = \<lparr>rows = rows t @ [mk (seq t + 1)], seq = seq t + 1\<rparr>"

definition burn_seq :: "'r table \<Rightarrow> 'r table" where
  "burn_seq t = t\<lparr>seq := seq t + 1\<rparr>"

definition find_row :: "('r \<Rightarrow> bool) \<Rightarrow> 'r table \<Rightarrow> 'r option" where
  "find_row P t = find P (rows t)"

definition select_rows :: "('r \<Rightarrow> bool) \<Rightarrow> 'r table \<Rightarrow> 'r list" where
  "select_rows P t = filter P (rows t)"

definition count_rows :: "('r \<Rightarrow> bool) \<Rightarrow> 'r table \<Rightarrow> int" where
  "count_rows P t = int (length (select_rows P t))"

definition update_rows :: "('r \<Rightarrow> bool) \<Rightarrow> ('r \<Rightarrow> 'r) \<Rightarrow> 'r table \<Rightarrow> 'r table" where
  "update_rows P f t = t\<lparr>rows := map (\<lambda>r. if P r then f r else r) (rows t)\<rparr>"

definition page :: "int \<Rightarrow> int \<Rightarrow> 'r list \<Rightarrow> 'r list" where
  "page limit offset rs = take (nat limit) (drop (nat offset) rs)"


subsection \<open>Well-formed tables\<close>

definition wf_table :: "('r \<Rightarrow> int) \<Rightarrow> 'r table \<Rightarrow> bool" where
  "wf_table ident t \<longleftrightarrow>
     sorted_wrt (<) (map ident (rows t)) \<and> (\<forall>r \<in> set (rows t). 0 < ident r \<and> ident r \<le> seq t) \<and>
     0 \<le> seq t"

lemma wf_empty_table [simp]: "wf_table ident empty_table"
  by (simp add: wf_table_def empty_table_def)

lemma wf_insert_row:
  "wf_table ident t \<Longrightarrow> ident (mk (seq t + 1)) = seq t + 1 \<Longrightarrow> wf_table ident (insert_row mk t)"
  by (fastforce simp: wf_table_def insert_row_def sorted_wrt_append)

lemma wf_burn_seq [simp]: "wf_table ident t \<Longrightarrow> wf_table ident (burn_seq t)"
  by (fastforce simp: wf_table_def burn_seq_def)

lemma set_rows_update: "set (rows (update_rows P f t)) = {if P r then f r else r | r. r \<in> set (rows t)}"
  by (auto simp: update_rows_def)

lemma seq_update_rows [simp]: "seq (update_rows P f t) = seq t"
  by (simp add: update_rows_def)

lemma update_rows_none:
  assumes "\<And>r. r \<in> set (rows t) \<Longrightarrow> \<not> P r"
  shows "update_rows P f t = t"
proof -
  have "map (\<lambda>r. if P r then f r else r) (rows t) = rows t" by (rule map_idI) (simp add: assms)
  then show ?thesis by (cases t) (simp add: update_rows_def)
qed

lemma map_ident_update_rows:
  "(\<And>r. P r \<Longrightarrow> ident (f r) = ident r) \<Longrightarrow> map ident (rows (update_rows P f t)) = map ident (rows t)"
  by (simp add: update_rows_def)

lemma wf_update_rows:
  assumes "wf_table ident t" "\<And>r. P r \<Longrightarrow> ident (f r) = ident r"
  shows "wf_table ident (update_rows P f t)"
proof -
  have "map ident (rows (update_rows P f t)) = map ident (rows t)"
    using assms(2) by (rule map_ident_update_rows)
  moreover have "\<forall>r \<in> set (rows (update_rows P f t)). 0 < ident r \<and> ident r \<le> seq t"
    using assms by (auto simp: wf_table_def set_rows_update)
  ultimately show ?thesis using assms(1) by (simp add: wf_table_def)
qed

lemma rows_insert_row [simp]: "rows (insert_row mk t) = rows t @ [mk (seq t + 1)]"
  by (simp add: insert_row_def)

lemma rows_burn_seq [simp]: "rows (burn_seq t) = rows t"
  by (simp add: burn_seq_def)

lemma rows_empty_table [simp]: "rows empty_table = []"
  by (simp add: empty_table_def)

lemma find_row_SomeD: "find_row P t = Some r \<Longrightarrow> r \<in> set (rows t) \<and> P r"
  by (auto simp: find_row_def find_Some_iff)

lemma find_row_burn [simp]: "find_row P (burn_seq t) = find_row P t"
  by (simp add: find_row_def)

lemma find_row_None: "find_row P t = None \<longleftrightarrow> (\<forall>r \<in> set (rows t). \<not> P r)"
  by (auto simp: find_row_def find_None_iff)

lemma count_rows_0: "count_rows P t = 0 \<longleftrightarrow> find_row P t = None"
  by (auto simp: count_rows_def select_rows_def find_row_None filter_empty_conv)

lemma count_rows_nonneg [simp]: "0 \<le> count_rows P t"
  by (simp add: count_rows_def)

lemma distinct_keys_unique:
  "distinct (map key rs) \<Longrightarrow> r \<in> set rs \<Longrightarrow> r' \<in> set rs \<Longrightarrow> key r = key r' \<Longrightarrow> r = r'"
  by (metis distinct_map inj_on_eq_iff)

lemma wf_distinct: "wf_table ident t \<Longrightarrow> distinct (map ident (rows t))"
  unfolding wf_table_def by (meson strict_sorted_iff)

lemma wf_unique: "wf_table ident t \<Longrightarrow> r \<in> set (rows t) \<Longrightarrow> r' \<in> set (rows t) \<Longrightarrow> ident r = ident r' \<Longrightarrow> r = r'"
  using wf_distinct distinct_keys_unique by metis

text \<open>Looking a row up by a key no two rows share.\<close>

lemma find_row_key:
  assumes "distinct (map key (rows t))" "r \<in> set (rows t)" "key r = k"
  shows "find_row (\<lambda>r. key r = k) t = Some r"
proof -
  obtain r' where r': "find_row (\<lambda>r. key r = k) t = Some r'"
    using assms find_row_None [of "\<lambda>r. key r = k" t] by (cases "find_row (\<lambda>r. key r = k) t") auto
  from find_row_SomeD [OF r'] assms have "r' = r" by (metis distinct_keys_unique)
  with r' show ?thesis by simp
qed

text \<open>The same row after an update that keeps keys: changed if selected, else as it was.\<close>

lemma find_row_update_key:
  assumes "\<And>r. P r \<Longrightarrow> key (f r) = key r"
  shows "find_row (\<lambda>r. key r = k) (update_rows P f t) =
         map_option (\<lambda>r. if P r then f r else r) (find_row (\<lambda>r. key r = k) t)"
proof -
  have "find (\<lambda>r. key r = k) (map (\<lambda>r. if P r then f r else r) rs) =
        map_option (\<lambda>r. if P r then f r else r) (find (\<lambda>r. key r = k) rs)" for rs
    by (induction rs) (auto simp: assms)
  then show ?thesis by (simp add: find_row_def update_rows_def)
qed

lemma find_row_insert:
  "find_row P (insert_row mk t) =
     (case find_row P t of Some r \<Rightarrow> Some r
      | None \<Rightarrow> if P (mk (seq t + 1)) then Some (mk (seq t + 1)) else None)"
proof -
  have "find P (rs @ [x]) = (case find P rs of Some r \<Rightarrow> Some r | None \<Rightarrow> if P x then Some x else None)"
    for rs x by (induction rs) auto
  then show ?thesis by (simp add: find_row_def)
qed


text \<open>
  A transaction that fails puts the rows back; the sequence keeps the values it gave out.
\<close>

definition rollback :: "'r table \<Rightarrow> 'r table \<Rightarrow> 'r table" where
  "rollback old cur = old\<lparr>seq := seq cur\<rparr>"

lemma rows_rollback [simp]: "rows (rollback old cur) = rows old"
  by (simp add: rollback_def)

lemma wf_rollback: "wf_table ident old \<Longrightarrow> seq old \<le> seq cur \<Longrightarrow> wf_table ident (rollback old cur)"
  by (fastforce simp: wf_table_def rollback_def)

text \<open>
  Which statements of an operation the database refuses, and with which error, is up to the
  environment: a \<open>faults\<close> argument gives the outcome of every statement.
\<close>

type_synonym 'stmt faults = "'stmt \<Rightarrow> go_error option"

abbreviation no_faults :: "'stmt faults" where
  "no_faults \<equiv> \<lambda>_. None"

text \<open>What other processes do between two statements of an operation, if anything.\<close>

abbreviation (input) no_env :: "'stmt \<Rightarrow> 'd \<Rightarrow> 'd" where
  "no_env \<equiv> \<lambda>_ d. d"


subsection \<open>Upserts\<close>

text \<open>
  \<open>INSERT ... ON CONFLICT (key) DO UPDATE\<close>, as four tables use it: \<open>ups p\<close> inserts the row \<open>mk p\<close>
  or, when a row with the key of \<open>p\<close> is there, assigns \<open>upd p\<close> to it. Such a table has one row
  for each key.
\<close>

definition keyed_table :: "('r \<Rightarrow> int) \<Rightarrow> ('r \<Rightarrow> 'k) \<Rightarrow> 'r table \<Rightarrow> bool" where
  "keyed_table ident key t \<longleftrightarrow> wf_table ident t \<and> distinct (map key (rows t))"

lemma keyed_table_empty [simp]: "keyed_table ident key empty_table"
  by (simp add: keyed_table_def)

lemma keyed_table_burn [simp]: "keyed_table ident key t \<Longrightarrow> keyed_table ident key (burn_seq t)"
  by (simp add: keyed_table_def)

lemma keyed_table_insert:
  "keyed_table ident key t \<Longrightarrow> ident (mk (seq t + 1)) = seq t + 1 \<Longrightarrow>
     find_row (\<lambda>r. key r = key (mk (seq t + 1))) t = None \<Longrightarrow> keyed_table ident key (insert_row mk t)"
  by (auto simp: keyed_table_def find_row_None intro!: wf_insert_row)

lemma keyed_table_update:
  "keyed_table ident key t \<Longrightarrow> (\<And>r. P r \<Longrightarrow> ident (f r) = ident r \<and> key (f r) = key r) \<Longrightarrow>
     keyed_table ident key (update_rows P f t)"
  by (simp add: keyed_table_def wf_update_rows map_ident_update_rows)

lemma keyed_table_unique:
  "keyed_table ident key t \<Longrightarrow> r \<in> set (rows t) \<Longrightarrow> r' \<in> set (rows t) \<Longrightarrow> key r = key r' \<Longrightarrow> r = r'"
  unfolding keyed_table_def using distinct_keys_unique by metis

lemma keyed_table_ident:
  "keyed_table ident key t \<Longrightarrow> r \<in> set (rows t) \<Longrightarrow> r' \<in> set (rows t) \<Longrightarrow> ident r = ident r' \<Longrightarrow> r = r'"
  unfolding keyed_table_def using wf_unique by metis

locale upserts =
  fixes ident :: "'r \<Rightarrow> int" and key :: "'r \<Rightarrow> 'k" and param_key :: "'p \<Rightarrow> 'k"
    and mk :: "'p \<Rightarrow> int \<Rightarrow> 'r" and upd :: "'p \<Rightarrow> 'r \<Rightarrow> 'r" and ups :: "'p \<Rightarrow> 'r table \<Rightarrow> 'r table"
  assumes ups_eq:
      "ups p t = (if find_row (\<lambda>r. key r = param_key p) t = None then insert_row (mk p) t
                  else burn_seq (update_rows (\<lambda>r. key r = param_key p) (upd p) t))"
    and mk_row: "ident (mk p i) = i" "key (mk p i) = param_key p"
    and upd_row: "ident (upd p r) = ident r" "key (upd p r) = key r"
begin

lemma ups_keyed: "keyed_table ident key t \<Longrightarrow> keyed_table ident key (ups p t)"
proof (cases "find_row (\<lambda>r. key r = param_key p) t = None")
  case True
  assume "keyed_table ident key t"
  with True show ?thesis
    by (auto simp: ups_eq keyed_table_def mk_row find_row_None intro!: wf_insert_row)
next
  case False
  assume "keyed_table ident key t"
  with False show ?thesis by (auto simp: ups_eq upd_row intro!: keyed_table_burn keyed_table_update)
qed

text \<open>The row with the key afterwards.\<close>

lemma ups_finds:
  "find_row (\<lambda>r. key r = param_key p) (ups p t) =
     Some (case find_row (\<lambda>r. key r = param_key p) t of None \<Rightarrow> mk p (seq t + 1) | Some r \<Rightarrow> upd p r)"
proof (cases "find_row (\<lambda>r. key r = param_key p) t")
  case None
  then show ?thesis by (simp add: ups_eq find_row_insert mk_row)
next
  case (Some r)
  then show ?thesis
    using find_row_SomeD [OF Some]
    by (simp add: ups_eq find_row_update_key [where P = "\<lambda>r. key r = param_key p" and key = key] upd_row)
qed

lemma ups_other: "k \<noteq> param_key p \<Longrightarrow> find_row (\<lambda>r. key r = k) (ups p t) = find_row (\<lambda>r. key r = k) t"
proof (cases "find_row (\<lambda>r. key r = k) t")
  case None
  then show "k \<noteq> param_key p \<Longrightarrow> ?thesis"
    by (simp add: ups_eq find_row_insert mk_row find_row_update_key [where key = key] upd_row)
next
  case (Some r)
  then show "k \<noteq> param_key p \<Longrightarrow> ?thesis"
    using find_row_SomeD [OF Some]
    by (simp add: ups_eq find_row_insert mk_row find_row_update_key [where key = key] upd_row)
qed

text \<open>What holds of the new rows and is kept by the assignments holds of all rows.\<close>

lemma ups_all:
  assumes "\<forall>r \<in> set (rows t). ok r" "\<And>i. ok (mk p i)" "\<And>r. ok r \<Longrightarrow> key r = param_key p \<Longrightarrow> ok (upd p r)"
  shows "\<forall>r \<in> set (rows (ups p t)). ok r"
  using assms by (auto simp: ups_eq set_rows_update)

lemma ups_rows:
  "r \<in> set (rows (ups p t)) \<Longrightarrow> key r \<noteq> param_key p \<Longrightarrow> r \<in> set (rows t)"
  by (auto simp: ups_eq set_rows_update mk_row upd_row split: if_splits)

end


subsection \<open>Claims on rows\<close>

text \<open>
  Two repositories hand rows out under a claim, a random id that is stored in the row
  until it is given back: the outbox and the job executions. \<open>claim_store\<close> is the contract
  of their finishing operations: \<open>finish db k c\<close> ends the work on the row with key \<open>k\<close> for
  the holder of claim \<open>c\<close>.
\<close>

locale claim_store =
  fixes inv :: "'db \<Rightarrow> bool"
    and lookup :: "'db \<Rightarrow> 'k \<Rightarrow> 'r option"
    and held :: "'r \<Rightarrow> string \<Rightarrow> bool"
    and finish :: "'db \<Rightarrow> 'k \<Rightarrow> string \<Rightarrow> 'db \<times> 'a result"
    and lost :: sentinel
  assumes finish_held:
      "inv db \<Longrightarrow> lookup db k = Some r \<Longrightarrow> held r c \<Longrightarrow>
         \<exists>db' a r'. finish db k c = (db', Inr a) \<and> lookup db' k = Some r' \<and> (\<forall>c'. \<not> held r' c')"
    and finish_not_held:
      "inv db \<Longrightarrow> (\<And>r. lookup db k = Some r \<Longrightarrow> \<not> held r c) \<Longrightarrow>
         finish db k c = (db, Inl (Sentinel lost))"
    and finish_frame:
      "inv db \<Longrightarrow> k' \<noteq> k \<Longrightarrow> lookup (fst (finish db k c)) k' = lookup db k'"
    and finish_inv: "inv db \<Longrightarrow> inv (fst (finish db k c))"
begin

lemma finish_succeeds_iff:
  assumes "inv db"
  shows "(\<exists>a. snd (finish db k c) = Inr a) \<longleftrightarrow> (\<exists>r. lookup db k = Some r \<and> held r c)"
proof (cases "\<exists>r. lookup db k = Some r \<and> held r c")
  case True
  then show ?thesis using finish_held [OF assms] by fastforce
next
  case False
  then have "finish db k c = (db, Inl (Sentinel lost))" by (intro finish_not_held assms) auto
  with False show ?thesis by simp
qed

text \<open>A claim can be used once: whoever tries again, with any claim, has lost it.\<close>

lemma finish_once:
  assumes "inv db" "finish db k c = (db', Inr a)"
  shows "finish db' k c' = (db', Inl (Sentinel lost))"
proof -
  obtain r where r: "lookup db k = Some r" "held r c"
    using assms finish_succeeds_iff [of db k c] by auto
  then obtain r' where "lookup db' k = Some r'" "\<forall>c'. \<not> held r' c'"
    using finish_held [of db k r c] assms by auto
  moreover have "inv db'" using finish_inv [of db k c] assms by simp
  ultimately show ?thesis by (intro finish_not_held) auto
qed

text \<open>A holder whose row another claim has taken over changes nothing.\<close>

lemma finish_taken_over:
  assumes "inv db" "lookup db k = Some r" "held r c" "\<And>c'. held r c' \<Longrightarrow> c' = c" "c' \<noteq> c"
  shows "finish db k c' = (db, Inl (Sentinel lost))"
proof (rule finish_not_held [OF assms(1)])
  fix r' assume "lookup db k = Some r'"
  then have "r' = r" using assms(2) by simp
  then show "\<not> held r' c'" using assms(4) [of c'] assms(5) by blast
qed

text \<open>Failed or not, finishing one row leaves the claims on the others as they are.\<close>

lemma finish_keeps_others:
  assumes "inv db" "k' \<noteq> k"
  shows "(\<exists>a. snd (finish (fst (finish db k c)) k' c') = Inr a) \<longleftrightarrow> (\<exists>a. snd (finish db k' c') = Inr a)"
  using assms by (simp add: finish_succeeds_iff finish_inv finish_frame)

end

end
