(* ===== verification/Collector_Types.thy ===== *)
theory Collector_Types
  imports Sql_Table
begin

section \<open>The data types of package collector\<close>

text \<open>
  The requests, responses and rows that the collection pipeline exchanges
  (\<open>internal/module/collector\<close>: \<open>dto.go\<close>, \<open>model.go\<close>, \<open>item.go\<close>, \<open>status.go\<close>).
\<close>

definition RunStatusRunning :: string where [simp]: "RunStatusRunning = ''running''"
definition RunStatusQueued :: string where [simp]: "RunStatusQueued = ''queued''"
definition RunStatusSuccess :: string where [simp]: "RunStatusSuccess = ''success''"
definition RunStatusFailed :: string where [simp]: "RunStatusFailed = ''failed''"

record collect_source_request =
  req_user_id :: int
  req_source_id :: int

record collect_source_response =
  resp_run_id :: int
  resp_source_id :: int
  resp_status :: string
  resp_fetched_count :: int
  resp_inserted_count :: int
  resp_duplicated_count :: int
  resp_error_message :: string

record request_collection_response =
  rcr_task_id :: string
  rcr_source_id :: int
  rcr_status :: string

record article_write_result =
  inserted_count :: int
  duplicated_count :: int

record collection_run =
  run_id :: int
  run_source_id :: int
  run_status :: string
  run_started_at :: time
  run_finished_at :: "time option"
  run_fetched_count :: int
  run_inserted_count :: int
  run_duplicated_count :: int
  run_error_message :: string
  run_created_at :: time

record collected_item =
  item_user_id :: int
  item_source_id :: int
  item_source_type :: string
  item_external_id :: "string option"
  item_title :: string
  item_url :: "string option"
  item_original_url :: "string option"
  item_author :: string
  item_summary :: string
  item_content :: string
  item_content_hash :: string
  item_published_at :: "time option"


subsection \<open>Pagination\<close>

text \<open>
  Four packages carry the same two helpers for the page of a listing. The contract their
  callers use is \<open>page_params\<close>: a page is never empty by its bounds, never longer than the
  maximum, and the helpers leave normalised parameters alone.
\<close>

locale page_params =
  fixes limit_of :: "int \<Rightarrow> int"
    and offset_of :: "int \<Rightarrow> int"
    and default_limit max_limit :: int
  assumes limit_bounds: "0 < limit_of l \<and> limit_of l \<le> max_limit"
    and limit_keep: "0 < l \<Longrightarrow> l \<le> max_limit \<Longrightarrow> limit_of l = l"
    and limit_default: "l \<le> 0 \<Longrightarrow> limit_of l = default_limit"
    and offset_nonneg: "0 \<le> offset_of n"
    and offset_keep: "0 \<le> n \<Longrightarrow> offset_of n = n"
begin

lemma limit_idem [simp]: "limit_of (limit_of l) = limit_of l"
  using limit_bounds limit_keep by blast

lemma offset_idem [simp]: "offset_of (offset_of n) = offset_of n"
  by (simp add: offset_nonneg offset_keep)

lemma length_page: "int (length (page (limit_of l) (offset_of n) rs)) \<le> max_limit"
  using limit_bounds [of l] by (simp add: page_def min_def) linarith

lemma page_subset: "set (page (limit_of l) (offset_of n) rs) \<subseteq> set rs"
  unfolding page_def by (meson set_drop_subset set_take_subset subset_trans)

text \<open>Walking the pages of a listing one limit apart visits every row once, in order.\<close>

lemma pages_concat:
  "concat (map (\<lambda>i. page (limit_of l) (offset_of (int i * limit_of l)) rs) [0..<k]) =
   take (k * nat (limit_of l)) rs"
proof (induction k)
  case (Suc k)
  have "0 < limit_of l" using limit_bounds by blast
  then have "nat (offset_of (int k * limit_of l)) = k * nat (limit_of l)"
    by (simp add: offset_keep nat_mult_distrib)
  moreover have "take (Suc k * nat (limit_of l)) rs =
      take (k * nat (limit_of l)) rs @ take (nat (limit_of l)) (drop (k * nat (limit_of l)) rs)"
    by (metis add.commute mult_Suc take_add)
  ultimately show ?case using Suc by (simp add: page_def del: mult_Suc)
qed simp

end

end
