(* ===== verification/Job_Events.thy ===== *)
theory Job_Events
  imports Collector_Types
begin

section \<open>Collection job events\<close>

text \<open>
  The messages of the asynchronous collection pipeline and the errors that decide between
  retry and dead letter (\<open>internal/module/collectionjob\<close>: \<open>event.go\<close>, \<open>errors.go\<close>,
  \<open>producer.go\<close>). Payloads are written and read through \<open>encoding/json\<close>.
\<close>

definition TopicCollectionRequested :: string where
  [simp]: "TopicCollectionRequested = ''collection.requested''"
definition TopicCollectionCompleted :: string where
  [simp]: "TopicCollectionCompleted = ''collection.completed''"
definition TopicCollectionFailed :: string where
  [simp]: "TopicCollectionFailed = ''collection.failed''"
definition TopicCollectionDLQ :: string where
  [simp]: "TopicCollectionDLQ = ''collection.dlq''"

record event =
  ev_topic :: string
  ev_key :: string
  ev_value :: payload

record message =
  msg_topic :: string
  msg_key :: string
  msg_value :: payload

record collection_requested =
  cr_task_id :: string
  cr_user_id :: int
  cr_source_id :: int
  cr_idempotency_key :: string
  cr_attempt :: int
  cr_requested_at :: time
  cr_next_attempt_at :: time

record collection_completed =
  cc_task_id :: string
  cc_source_id :: int
  cc_run_id :: int
  cc_fetched_count :: int
  cc_inserted_count :: int
  cc_duplicated_count :: int
  cc_completed_at :: time
  cc_idempotency_key :: string
  cc_original_requested :: time

record collection_failed =
  cf_task_id :: string
  cf_source_id :: int
  cf_attempt :: int
  cf_error_message :: string
  cf_failed_at :: time
  cf_idempotency_key :: string
  cf_original_requested :: time


subsection \<open>Payloads\<close>

definition zero_requested :: collection_requested where
  "zero_requested = \<lparr>cr_task_id = '''', cr_user_id = 0, cr_source_id = 0, cr_idempotency_key = '''',
     cr_attempt = 0, cr_requested_at = zero_time, cr_next_attempt_at = zero_time\<rparr>"

text \<open>
  \<open>omitempty\<close> does not drop a struct-valued field, so the zero \<open>next_attempt_at\<close> is written.
  The texts are written as they are: \<open>json.Marshal\<close> would put U+FFFD for bytes that are no UTF-8,
  but task ids and keys are made of hexadecimal digits and punctuation by the producer, or were
  decoded from JSON, whose decoder yields valid UTF-8 only.
\<close>

definition marshal_requested :: "collection_requested \<Rightarrow> payload option" where
  "marshal_requested e = marshal_fields
     [(''task_id'', JStr (cr_task_id e)), (''user_id'', JNum (cr_user_id e)),
      (''source_id'', JNum (cr_source_id e)), (''idempotency_key'', JStr (cr_idempotency_key e)),
      (''attempt'', JNum (cr_attempt e)), (''requested_at'', JTime (cr_requested_at e)),
      (''next_attempt_at'', JTime (cr_next_attempt_at e))]"

definition set_requested :: "string \<Rightarrow> json \<Rightarrow> collection_requested \<Rightarrow> collection_requested option" where
  "set_requested k v e =
     (if k = ''task_id'' then map_option (\<lambda>x. e\<lparr>cr_task_id := x\<rparr>) (dec_str v (cr_task_id e))
      else if k = ''user_id'' then map_option (\<lambda>x. e\<lparr>cr_user_id := x\<rparr>) (dec_int v (cr_user_id e))
      else if k = ''source_id'' then map_option (\<lambda>x. e\<lparr>cr_source_id := x\<rparr>) (dec_int v (cr_source_id e))
      else if k = ''idempotency_key''
        then map_option (\<lambda>x. e\<lparr>cr_idempotency_key := x\<rparr>) (dec_str v (cr_idempotency_key e))
      else if k = ''attempt'' then map_option (\<lambda>x. e\<lparr>cr_attempt := x\<rparr>) (dec_int v (cr_attempt e))
      else if k = ''requested_at''
        then map_option (\<lambda>x. e\<lparr>cr_requested_at := x\<rparr>) (dec_time v (cr_requested_at e))
      else if k = ''next_attempt_at''
        then map_option (\<lambda>x. e\<lparr>cr_next_attempt_at := x\<rparr>) (dec_time v (cr_next_attempt_at e))
      else Some e)"

definition unmarshal_requested :: "payload \<Rightarrow> collection_requested option" where
  "unmarshal_requested p = unmarshal_struct set_requested zero_requested p"

definition marshal_completed :: "collection_completed \<Rightarrow> payload option" where
  "marshal_completed e = marshal_fields
     [(''task_id'', JStr (cc_task_id e)), (''source_id'', JNum (cc_source_id e)),
      (''run_id'', JNum (cc_run_id e)), (''fetched_count'', JNum (cc_fetched_count e)),
      (''inserted_count'', JNum (cc_inserted_count e)),
      (''duplicated_count'', JNum (cc_duplicated_count e)),
      (''completed_at'', JTime (cc_completed_at e)),
      (''idempotency_key'', JStr (cc_idempotency_key e)),
      (''original_requested_at'', JTime (cc_original_requested e))]"

definition marshal_failed :: "collection_failed \<Rightarrow> payload option" where
  "marshal_failed e = marshal_fields
     [(''task_id'', JStr (cf_task_id e)), (''source_id'', JNum (cf_source_id e)),
      (''attempt'', JNum (cf_attempt e)), (''error_message'', JStr (cf_error_message e)),
      (''failed_at'', JTime (cf_failed_at e)),
      (''idempotency_key'', JStr (cf_idempotency_key e)),
      (''original_requested_at'', JTime (cf_original_requested e))]"

definition requested_wf :: "collection_requested \<Rightarrow> bool" where
  "requested_wf e \<longleftrightarrow>
     in_int64 (cr_user_id e) \<and> in_int64 (cr_source_id e) \<and> in_int64 (cr_attempt e) \<and>
     time_marshalable (cr_requested_at e) \<and> time_marshalable (cr_next_attempt_at e)"

lemma marshal_requested_Some:
  "requested_wf e \<Longrightarrow> \<exists>p. marshal_requested e = Some p"
  by (simp add: requested_wf_def marshal_requested_def marshal_fields_def)

lemma fold_key_names [simp]:
  "fold_key ''task_id'' = ''task_id''" "fold_key ''user_id'' = ''user_id''"
  "fold_key ''source_id'' = ''source_id''" "fold_key ''idempotency_key'' = ''idempotency_key''"
  "fold_key ''attempt'' = ''attempt''" "fold_key ''requested_at'' = ''requested_at''"
  "fold_key ''next_attempt_at'' = ''next_attempt_at''"
  by (simp_all add: lower_byte_def)

lemma unmarshal_marshal_requested:
  assumes "requested_wf e" "marshal_requested e = Some p"
  shows "unmarshal_requested p = Some e"
  using assms
  by (auto simp: requested_wf_def marshal_requested_def marshal_fields_def unmarshal_requested_def
      set_requested_def zero_requested_def simp del: fold_key.simps)


subsection \<open>Permanent and retryable errors\<close>

fun PermanentError :: "go_error option \<Rightarrow> go_error option" where
  "PermanentError None = None"
| "PermanentError (Some e) = Some (Permanent e)"

fun as_permanent :: "go_error \<Rightarrow> bool" where
  "as_permanent (Sentinel _) \<longleftrightarrow> False"
| "as_permanent (Plain _) \<longleftrightarrow> False"
| "as_permanent (Wrapf _ e _) \<longleftrightarrow> as_permanent e"
| "as_permanent (Permanent _) \<longleftrightarrow> True"

definition IsPermanentError :: "go_error \<Rightarrow> bool" where
  "IsPermanentError e \<longleftrightarrow>
     as_permanent e \<or> errors_is e ErrSourceNotAccessible \<or> errors_is e ErrCollectorNotFound"

fun RetryableError :: "go_error option \<Rightarrow> go_error option" where
  "RetryableError None = None"
| "RetryableError (Some e) = Some (Wrapf ''retryable collection job error: '' e '''')"

text \<open>Wrapping never hides that an error is permanent, nor makes one permanent.\<close>

lemma IsPermanentError_Wrapf [simp]: "IsPermanentError (Wrapf pre e post) = IsPermanentError e"
  by (simp add: IsPermanentError_def)

lemma IsPermanentError_Permanent [simp]: "IsPermanentError (Permanent e)"
  by (simp add: IsPermanentError_def)

lemma IsPermanentError_Plain [simp]: "\<not> IsPermanentError (Plain s)"
  by (simp add: IsPermanentError_def)

lemma IsPermanentError_Sentinel [simp]:
  "IsPermanentError (Sentinel s) \<longleftrightarrow> s = ErrSourceNotAccessible \<or> s = ErrCollectorNotFound"
  by (auto simp: IsPermanentError_def)


subsection \<open>The event writer\<close>

text \<open>
  Kafka is outside the program: the log of the events it has stored, in order. A
  synchronous write is acknowledged, or it returns an error, and then the broker may or may
  not have stored the event.
\<close>

datatype write_outcome = Acked | WriteFailed go_error bool

type_synonym event_log = "event list"

fun event_write :: "write_outcome \<Rightarrow> event \<Rightarrow> event_log \<Rightarrow> event_log \<times> unit result" where
  "event_write Acked e log = (log @ [e], Inr ())"
| "event_write (WriteFailed err stored) e log = (if stored then log @ [e] else log, Inl err)"

lemma event_write_extends: "\<exists>new. fst (event_write w e log) = log @ new \<and> set new \<subseteq> {e}"
  by (cases w) auto

lemma event_write_Inr [bind_iff]:
  "event_write w e log = (log', Inr ()) \<longleftrightarrow> w = Acked \<and> log' = log @ [e]"
  by (cases w) auto


subsection \<open>Task ids and keys\<close>

definition idempotencyKey :: "int \<Rightarrow> string" where
  "idempotencyKey source_id = ''collection:source:'' @ fmt_int source_id"

lemma idempotencyKey_inject [simp]: "idempotencyKey a = idempotencyKey b \<longleftrightarrow> a = b"
  by (simp add: idempotencyKey_def)

text \<open>
  \<open>randomTaskID\<close>: the 16 bytes the system's random source returned, in hexadecimal, or a
  name from the clock if it returned an error.
\<close>

definition randomTaskID :: "string option \<Rightarrow> int \<Rightarrow> string" where
  "randomTaskID bytes nanos =
     (case bytes of Some b \<Rightarrow> hex_encode b | None \<Rightarrow> ''task-'' @ fmt_int nanos)"

lemma randomTaskID_inject: "randomTaskID (Some a) n = randomTaskID (Some b) m \<longleftrightarrow> a = b"
  by (simp add: randomTaskID_def)


subsection \<open>The direct producer\<close>

definition new_requested :: "string \<Rightarrow> collect_source_request \<Rightarrow> time \<Rightarrow> collection_requested" where
  "new_requested task_id req now =
     \<lparr>cr_task_id = task_id, cr_user_id = req_user_id req, cr_source_id = req_source_id req,
      cr_idempotency_key = idempotencyKey (req_source_id req), cr_attempt = 0,
      cr_requested_at = now, cr_next_attempt_at = zero_time\<rparr>"

definition Producer_RequestCollection ::
  "write_outcome \<Rightarrow> string \<Rightarrow> time \<Rightarrow> collect_source_request \<Rightarrow> event_log \<Rightarrow>
     event_log \<times> request_collection_response result" where
  "Producer_RequestCollection w task_id now req log =
     (let payload = new_requested task_id req now in
      case marshal_requested payload of
        None \<Rightarrow> (log, Inl (Wrapf ''marshal collection requested event: '' marshal_time_error ''''))
      | Some data \<Rightarrow>
          bind_st (map_err (\<lambda>e. Wrapf ''write collection requested event: '' e '''')
             (event_write w \<lparr>ev_topic = TopicCollectionRequested,
                ev_key = idempotencyKey (req_source_id req), ev_value = data\<rparr> log))
            (\<lambda>log _. (log, Inr \<lparr>rcr_task_id = task_id, rcr_source_id = req_source_id req,
                                 rcr_status = RunStatusQueued\<rparr>)))"

definition queued_response :: "request_collection_response \<Rightarrow> collect_source_response" where
  "queued_response r = \<lparr>resp_run_id = 0, resp_source_id = rcr_source_id r,
     resp_status = rcr_status r, resp_fetched_count = 0, resp_inserted_count = 0,
     resp_duplicated_count = 0, resp_error_message = ''''\<rparr>"

definition Producer_CollectSource ::
  "write_outcome \<Rightarrow> string \<Rightarrow> time \<Rightarrow> collect_source_request \<Rightarrow> event_log \<Rightarrow>
     event_log \<times> collect_source_response result" where
  "Producer_CollectSource w task_id now req log =
     bind_st (Producer_RequestCollection w task_id now req log)
       (\<lambda>log r. (log, Inr (queued_response r)))"

subsection \<open>Exponential backoff\<close>

text \<open>
  The loop that the worker and the outbox dispatcher share: a 64-bit duration doubled once
  per attempt after the first, with the overflow of the machine.
\<close>

primrec backoff_loop :: "duration \<Rightarrow> nat \<Rightarrow> duration" where
  "backoff_loop b 0 = b"
| "backoff_loop b (Suc n) = backoff_loop (wrap64 (b * 2)) n"

definition retryBackoff :: "duration \<Rightarrow> int \<Rightarrow> duration" where
  "retryBackoff base attempt = (if attempt \<le> 1 then base else backoff_loop base (nat (attempt - 1)))"

lemma wrap64_double: "wrap64 (wrap64 a * 2 ^ n) = wrap64 (a * 2 ^ n)"
  by (rule wrap64_cong) (metis mod_mult_left_eq wrap64_mod)

lemma backoff_loop_wrap: "in_int64 b \<Longrightarrow> backoff_loop b n = wrap64 (b * 2 ^ n)"
proof (induction n arbitrary: b)
  case (Suc n)
  then show ?case by (simp add: wrap64_double mult.assoc)
qed simp

lemma backoff_loop_exact:
  assumes "0 \<le> b" "b * 2 ^ n < 2 ^ 63"
  shows "backoff_loop b n = b * 2 ^ n"
proof -
  have "b * 1 \<le> b * 2 ^ n" using assms(1) by (intro mult_left_mono) simp_all
  then have "in_int64 b" "in_int64 (b * 2 ^ n)" using assms by (simp_all add: in_int64_def)
  then show ?thesis by (simp add: backoff_loop_wrap)
qed

text \<open>The delay of attempt \<open>a + 1\<close> is the base times two to the \<open>a\<close>, in 64 bits.\<close>

lemma retryBackoff_explicit:
  assumes "in_int64 b" "0 \<le> a"
  shows "retryBackoff b (a + 1) = wrap64 (b * 2 ^ nat a)"
proof (cases "a = 0")
  case True
  then show ?thesis using assms(1) backoff_loop_wrap [of b 0] by (simp add: retryBackoff_def)
next
  case False
  then show ?thesis using assms backoff_loop_wrap [of b "nat a"] by (simp add: retryBackoff_def)
qed

text \<open>Once the doublings push every set bit out, the delay is zero.\<close>

lemma backoff_loop_zero:
  assumes "in_int64 b" "b = 2 ^ k * q" "64 \<le> k + n"
  shows "backoff_loop b n = 0"
proof -
  obtain r where r: "k + n = 64 + r" using assms(3) by (metis le_Suc_ex)
  have "b * 2 ^ n = 2 ^ 64 * (2 ^ r * q)" unfolding assms(2)
    by (metis (no_types, opaque_lifting) mult.assoc mult.commute power_add r)
  then have "(b * 2 ^ n) mod 2 ^ 64 = 0 mod 2 ^ 64" by simp
  then have "wrap64 (b * 2 ^ n) = wrap64 0" by (rule wrap64_cong)
  then show ?thesis using assms(1) by (simp add: backoff_loop_wrap wrap64_def)
qed

end
