(* ===== verification/Job_Execution.thy ===== *)
theory Job_Execution
  imports Job_Events
begin

section \<open>Job executions: leases on collection tasks\<close>

text \<open>
  The table \<open>collection_job_executions\<close> and its repository
  (\<open>internal/module/collectionjob/job_execution.go\<close>): a worker claims a task for a lease
  before it collects, and records the outcome only while it still holds the claim. Several
  workers run against one table; each repository call is one transaction (or one
  statement), so the interleavings are sequences of the operations below.
\<close>

definition JobExecutionStatusProcessing :: string where
  [simp]: "JobExecutionStatusProcessing = ''processing''"
definition JobExecutionStatusSucceeded :: string where
  [simp]: "JobExecutionStatusSucceeded = ''succeeded''"
definition JobExecutionStatusFailed :: string where
  [simp]: "JobExecutionStatusFailed = ''failed''"
definition JobExecutionStatusDLQ :: string where
  [simp]: "JobExecutionStatusDLQ = ''dlq''"

record job_execution_model =
  je_id :: int
  je_task_id :: string
  je_idempotency_key :: string
  je_source_id :: int
  je_status :: string
  je_attempt :: int
  je_run_id :: "int option"
  je_last_error :: string
  je_claim_id :: string
  je_locked_until :: "time option"
  je_created_at :: time
  je_updated_at :: time

record job_execution =
  jx_id :: int
  jx_task_id :: string
  jx_idempotency_key :: string
  jx_source_id :: int
  jx_status :: string
  jx_attempt :: int
  jx_run_id :: int
  jx_last_error :: string
  jx_claim_id :: string
  jx_locked_until :: time
  jx_created_at :: time
  jx_updated_at :: time

type_synonym exec_table = "job_execution_model table"

definition jobExecutionRunID :: "int option \<Rightarrow> int" where
  "jobExecutionRunID r = (case r of None \<Rightarrow> 0 | Some i \<Rightarrow> i)"

definition outboxLockedUntil :: "time option \<Rightarrow> time" where
  "outboxLockedUntil l = (case l of None \<Rightarrow> zero_time | Some t \<Rightarrow> t)"

definition jobExecutionModelToExecution :: "job_execution_model \<Rightarrow> job_execution" where
  "jobExecutionModelToExecution m =
     \<lparr>jx_id = je_id m, jx_task_id = je_task_id m, jx_idempotency_key = je_idempotency_key m,
      jx_source_id = je_source_id m, jx_status = je_status m, jx_attempt = je_attempt m,
      jx_run_id = jobExecutionRunID (je_run_id m), jx_last_error = je_last_error m,
      jx_claim_id = je_claim_id m, jx_locked_until = outboxLockedUntil (je_locked_until m),
      jx_created_at = je_created_at m, jx_updated_at = je_updated_at m\<rparr>"


subsection \<open>Claiming\<close>

definition jobExecutionShouldProcess ::
  "job_execution_model \<Rightarrow> collection_requested \<Rightarrow> time \<Rightarrow> bool" where
  "jobExecutionShouldProcess m ev now =
     (if je_status m = JobExecutionStatusSucceeded \<or> je_status m = JobExecutionStatusDLQ then False
      else if je_status m = JobExecutionStatusProcessing then
        je_attempt m < cr_attempt ev \<or>
        (case je_locked_until m of None \<Rightarrow> True | Some l \<Rightarrow> \<not> time_after l now)
      else if je_status m = JobExecutionStatusFailed then je_attempt m < cr_attempt ev
      else True)"

definition new_execution ::
  "collection_requested \<Rightarrow> string \<Rightarrow> time \<Rightarrow> time \<Rightarrow> int \<Rightarrow> job_execution_model" where
  "new_execution ev claim_id now locked_until i =
     \<lparr>je_id = i, je_task_id = cr_task_id ev, je_idempotency_key = cr_idempotency_key ev,
      je_source_id = cr_source_id ev, je_status = JobExecutionStatusProcessing,
      je_attempt = cr_attempt ev, je_run_id = None, je_last_error = '''',
      je_claim_id = claim_id, je_locked_until = Some locked_until,
      je_created_at = now, je_updated_at = now\<rparr>"

definition reclaim ::
  "collection_requested \<Rightarrow> string \<Rightarrow> time \<Rightarrow> time \<Rightarrow> job_execution_model \<Rightarrow> job_execution_model" where
  "reclaim ev claim_id now locked_until m =
     m\<lparr>je_idempotency_key := cr_idempotency_key ev, je_source_id := cr_source_id ev,
       je_status := JobExecutionStatusProcessing, je_attempt := cr_attempt ev,
       je_last_error := '''', je_claim_id := claim_id, je_locked_until := Some locked_until,
       je_updated_at := now\<rparr>"

text \<open>The statements of the claiming transaction, each of which the database may refuse.\<close>

datatype claim_stmt = ClaimInsert | ClaimSelect | ClaimUpdate | ClaimReload | ClaimCommit

definition JobExecution_Claim ::
  "claim_stmt faults \<Rightarrow> collection_requested \<Rightarrow> string \<Rightarrow> time \<Rightarrow> time \<Rightarrow> exec_table \<Rightarrow>
     exec_table \<times> (job_execution \<times> bool) result" where
  "JobExecution_Claim fault ev claim_id now locked_until t =
     (if cr_task_id ev = '''' then (t, Inl (Plain ''claim job execution: empty task id''))
      else if claim_id = '''' then (t, Inl (Plain ''claim job execution: empty claim id''))
      else case fault ClaimInsert of
        Some e \<Rightarrow> (t, Inl (Wrapf ''create job execution claim: '' e ''''))
      | None \<Rightarrow>
        (case find_row (\<lambda>m. je_task_id m = cr_task_id ev) t of
           None \<Rightarrow>
             (let t1 = insert_row (new_execution ev claim_id now locked_until) t in
              case fault ClaimCommit of
                Some e \<Rightarrow> (rollback t t1, Inl e)
              | None \<Rightarrow>
                  (t1, Inr (jobExecutionModelToExecution
                              (new_execution ev claim_id now locked_until (seq t + 1)), True)))
         | Some claimed \<Rightarrow>
             (let t1 = burn_seq t in
              case fault ClaimSelect of
                Some e \<Rightarrow> (t1, Inl (Wrapf ''find job execution claim: '' e ''''))
              | None \<Rightarrow>
                if \<not> jobExecutionShouldProcess claimed ev now then
                  (case fault ClaimCommit of
                     Some e \<Rightarrow> (t1, Inl e)
                   | None \<Rightarrow> (t1, Inr (jobExecutionModelToExecution claimed, False)))
                else
                  (case fault ClaimUpdate of
                     Some e \<Rightarrow> (t1, Inl (Wrapf ''update job execution claim: '' e ''''))
                   | None \<Rightarrow>
                     (let t2 = update_rows (\<lambda>m. je_task_id m = cr_task_id ev)
                                 (reclaim ev claim_id now locked_until) t1 in
                      case fault ClaimReload of
                        Some e \<Rightarrow> (t1, Inl e)
                      | None \<Rightarrow>
                        (case fault ClaimCommit of
                           Some e \<Rightarrow> (t1, Inl e)
                         | None \<Rightarrow>
                             (t2, Inr (jobExecutionModelToExecution
                                         (reclaim ev claim_id now locked_until claimed), True))))))))"


subsection \<open>Recording the outcome\<close>

datatype mark_stmt = MarkUpdate | MarkReload

definition exec_updateClaimed ::
  "mark_stmt faults \<Rightarrow> string \<Rightarrow> string \<Rightarrow> (job_execution_model \<Rightarrow> job_execution_model) \<Rightarrow>
     exec_table \<Rightarrow> exec_table \<times> job_execution result" where
  "exec_updateClaimed fault task_id claim_id updates t =
     (case fault MarkUpdate of
        Some e \<Rightarrow> (t, Inl (Wrapf ''update job execution: '' e ''''))
      | None \<Rightarrow>
        (let P = (\<lambda>m. je_task_id m = task_id \<and> je_status m = JobExecutionStatusProcessing \<and>
                      je_claim_id m = claim_id) in
         if count_rows P t = 0 then (t, Inl (Sentinel ErrJobExecutionClaimLost))
         else
           (let t' = update_rows P updates t in
            case fault MarkReload of
              Some e \<Rightarrow> (t', Inl (Wrapf ''find job execution: '' e ''''))
            | None \<Rightarrow>
              (case find_row (\<lambda>m. je_task_id m = task_id) t' of
                 None \<Rightarrow> (t', Inl (Wrapf ''find job execution: '' (Sentinel GormErrRecordNotFound) ''''))
               | Some m \<Rightarrow> (t', Inr (jobExecutionModelToExecution m))))))"

definition succeeded_updates :: "int \<Rightarrow> time \<Rightarrow> job_execution_model \<Rightarrow> job_execution_model" where
  "succeeded_updates rid now m =
     m\<lparr>je_status := JobExecutionStatusSucceeded,
       je_run_id := (if 0 < rid then Some rid else None),
       je_last_error := '''', je_claim_id := '''', je_locked_until := None, je_updated_at := now\<rparr>"

definition failed_updates :: "int \<Rightarrow> string \<Rightarrow> time \<Rightarrow> job_execution_model \<Rightarrow> job_execution_model" where
  "failed_updates attempt err_message now m =
     m\<lparr>je_status := JobExecutionStatusFailed, je_attempt := attempt, je_last_error := err_message,
       je_claim_id := '''', je_locked_until := None, je_updated_at := now\<rparr>"

definition dlq_updates :: "string \<Rightarrow> time \<Rightarrow> job_execution_model \<Rightarrow> job_execution_model" where
  "dlq_updates err_message now m =
     m\<lparr>je_status := JobExecutionStatusDLQ, je_last_error := err_message,
       je_claim_id := '''', je_locked_until := None, je_updated_at := now\<rparr>"

definition JobExecution_MarkSucceeded ::
  "mark_stmt faults \<Rightarrow> string \<Rightarrow> string \<Rightarrow> int \<Rightarrow> time \<Rightarrow> exec_table \<Rightarrow> exec_table \<times> job_execution result" where
  "JobExecution_MarkSucceeded fault task_id claim_id rid now t =
     exec_updateClaimed fault task_id claim_id (succeeded_updates rid now) t"

definition JobExecution_MarkFailed ::
  "mark_stmt faults \<Rightarrow> string \<Rightarrow> string \<Rightarrow> int \<Rightarrow> string \<Rightarrow> time \<Rightarrow> exec_table \<Rightarrow>
     exec_table \<times> job_execution result" where
  "JobExecution_MarkFailed fault task_id claim_id attempt err_message now t =
     exec_updateClaimed fault task_id claim_id (failed_updates attempt err_message now) t"

definition JobExecution_MarkDLQ ::
  "mark_stmt faults \<Rightarrow> string \<Rightarrow> string \<Rightarrow> string \<Rightarrow> time \<Rightarrow> exec_table \<Rightarrow> exec_table \<times> job_execution result" where
  "JobExecution_MarkDLQ fault task_id claim_id err_message now t =
     exec_updateClaimed fault task_id claim_id (dlq_updates err_message now) t"


subsection \<open>The invariant of the table\<close>

text \<open>
  Task ids are unique (the index of the migration), and a row is under a claim, with a
  lease, exactly while it is being processed; a run id is recorded only on success.
\<close>

definition exec_row_ok :: "job_execution_model \<Rightarrow> bool" where
  "exec_row_ok m \<longleftrightarrow>
     je_task_id m \<noteq> '''' \<and>
     je_status m \<in> {JobExecutionStatusProcessing, JobExecutionStatusSucceeded,
                    JobExecutionStatusFailed, JobExecutionStatusDLQ} \<and>
     (je_status m = JobExecutionStatusProcessing \<longleftrightarrow> je_claim_id m \<noteq> '''') \<and>
     (je_status m = JobExecutionStatusProcessing \<longleftrightarrow> je_locked_until m \<noteq> None) \<and>
     (je_run_id m \<noteq> None \<longrightarrow> je_status m = JobExecutionStatusSucceeded)"

definition exec_inv :: "exec_table \<Rightarrow> bool" where
  "exec_inv t \<longleftrightarrow> wf_table je_id t \<and> distinct (map je_task_id (rows t)) \<and> list_all exec_row_ok (rows t)"

definition exec_terminal :: "job_execution_model \<Rightarrow> bool" where
  "exec_terminal m \<longleftrightarrow> je_status m = JobExecutionStatusSucceeded \<or> je_status m = JobExecutionStatusDLQ"

definition exec_held :: "job_execution_model \<Rightarrow> string \<Rightarrow> bool" where
  "exec_held m c \<longleftrightarrow> je_status m = JobExecutionStatusProcessing \<and> je_claim_id m = c"

definition exec_lookup :: "exec_table \<Rightarrow> string \<Rightarrow> job_execution_model option" where
  "exec_lookup t task_id = find_row (\<lambda>m. je_task_id m = task_id) t"

lemma exec_inv_empty [simp]: "exec_inv empty_table"
  by (simp add: exec_inv_def)

lemma exec_inv_burn [simp]: "exec_inv t \<Longrightarrow> exec_inv (burn_seq t)"
  by (simp add: exec_inv_def)

lemma exec_lookup_burn [simp]: "exec_lookup (burn_seq t) k = exec_lookup t k"
  by (simp add: exec_lookup_def find_row_def)

lemma exec_lookup_rollback [simp]: "exec_lookup (rollback t u) k = exec_lookup t k"
  by (simp add: exec_lookup_def find_row_def)

lemma exec_inv_rollback_insert [simp]:
  "exec_inv t \<Longrightarrow> exec_inv (rollback t (insert_row mk t))"
  by (simp add: exec_inv_def wf_rollback insert_row_def)

lemma exec_lookup_in: "exec_lookup t k = Some m \<Longrightarrow> m \<in> set (rows t) \<and> je_task_id m = k"
  unfolding exec_lookup_def by (rule find_row_SomeD)

lemma exec_lookup_row:
  "exec_inv t \<Longrightarrow> m \<in> set (rows t) \<Longrightarrow> exec_lookup t (je_task_id m) = Some m"
  unfolding exec_lookup_def exec_inv_def by (rule find_row_key) auto

lemma exec_row_okD: "exec_inv t \<Longrightarrow> m \<in> set (rows t) \<Longrightarrow> exec_row_ok m"
  by (simp add: exec_inv_def list_all_iff)

lemma exec_inv_update:
  assumes "exec_inv t" "\<And>m. je_id (f m) = je_id m \<and> je_task_id (f m) = je_task_id m"
    and "\<And>m. m \<in> set (rows t) \<Longrightarrow> P m \<Longrightarrow> exec_row_ok m \<Longrightarrow> exec_row_ok (f m)"
  shows "exec_inv (update_rows P f t)"
proof -
  have "map je_task_id (rows (update_rows P f t)) = map je_task_id (rows t)"
    by (rule map_ident_update_rows) (simp add: assms(2))
  then show ?thesis using assms by (auto simp: exec_inv_def wf_update_rows list_all_iff set_rows_update)
qed

lemma exec_lookup_update:
  assumes "\<And>m. je_task_id (f m) = je_task_id m"
  shows "exec_lookup (update_rows P f t) k = map_option (\<lambda>m. if P m then f m else m) (exec_lookup t k)"
  unfolding exec_lookup_def by (rule find_row_update_key) (rule assms)

lemma exec_inv_insert:
  assumes "exec_inv t" "exec_lookup t (cr_task_id ev) = None" "cr_task_id ev \<noteq> ''''" "c \<noteq> ''''"
  shows "exec_inv (insert_row (new_execution ev c now l) t)"
proof -
  have "cr_task_id ev \<notin> je_task_id ` set (rows t)"
    using assms(2) by (auto simp: exec_lookup_def find_row_None)
  with assms show ?thesis
    by (auto simp: exec_inv_def new_execution_def exec_row_ok_def intro: wf_insert_row)
qed

lemma exec_lookup_insert:
  "exec_lookup (insert_row (new_execution ev c now l) t) k =
     (case exec_lookup t k of Some m \<Rightarrow> Some m
      | None \<Rightarrow> if k = cr_task_id ev then Some (new_execution ev c now l (seq t + 1)) else None)"
  by (auto simp: exec_lookup_def find_row_insert new_execution_def split: option.split)

lemma reclaim_fields [simp]:
  "je_id (reclaim ev c now l m) = je_id m"
  "je_status (reclaim ev c now l m) = ''processing''"
  "je_claim_id (reclaim ev c now l m) = c"
  "je_locked_until (reclaim ev c now l m) = Some l"
  "je_attempt (reclaim ev c now l m) = cr_attempt ev"
  "je_run_id (reclaim ev c now l m) = je_run_id m"
  "je_task_id (reclaim ev c now l m) = je_task_id m"
  by (simp_all add: reclaim_def)

lemma should_process_not_terminal: "jobExecutionShouldProcess m ev now \<Longrightarrow> \<not> exec_terminal m"
  by (auto simp: jobExecutionShouldProcess_def exec_terminal_def split: if_splits)

text \<open>What a claim can do to the table: nothing to the rows, a new row, or a row taken over.\<close>

lemma JobExecution_Claim_cases:
  obtains (kept) "rows (fst (JobExecution_Claim fault ev c now l t)) = rows t"
      "seq t \<le> seq (fst (JobExecution_Claim fault ev c now l t))"
    | (created) "exec_lookup t (cr_task_id ev) = None" "cr_task_id ev \<noteq> ''''" "c \<noteq> ''''"
      "fst (JobExecution_Claim fault ev c now l t) = insert_row (new_execution ev c now l) t"
    | (taken) m where "exec_lookup t (cr_task_id ev) = Some m" "jobExecutionShouldProcess m ev now"
      "c \<noteq> ''''"
      "fst (JobExecution_Claim fault ev c now l t) =
         update_rows (\<lambda>m. je_task_id m = cr_task_id ev) (reclaim ev c now l) (burn_seq t)"
proof (cases "cr_task_id ev = [] \<or> c = [] \<or> fault ClaimInsert \<noteq> None")
  case True
  then have "fst (JobExecution_Claim fault ev c now l t) = t"
    by (auto simp: JobExecution_Claim_def)
  then show thesis using kept by simp
next
  case False
  then have ok: "cr_task_id ev \<noteq> []" "c \<noteq> []" "fault ClaimInsert = None" by auto
  show thesis
  proof (cases "exec_lookup t (cr_task_id ev)")
    case None
    show thesis
    proof (cases "fault ClaimCommit")
      case None
      with ok \<open>exec_lookup t (cr_task_id ev) = None\<close> show thesis
        by (intro created) (simp_all add: JobExecution_Claim_def exec_lookup_def Let_def)
    next
      case (Some e)
      with ok \<open>exec_lookup t (cr_task_id ev) = None\<close> show thesis
        by (intro kept) (simp_all add: JobExecution_Claim_def exec_lookup_def Let_def rollback_def insert_row_def)
    qed
  next
    case (Some m)
    show thesis
    proof (cases "fault ClaimSelect = None \<and> jobExecutionShouldProcess m ev now \<and>
        fault ClaimUpdate = None \<and> fault ClaimReload = None \<and> fault ClaimCommit = None")
      case True
      with ok Some show thesis
        by (intro taken [of m]) (simp_all add: JobExecution_Claim_def exec_lookup_def Let_def)
    next
      case False
      with ok Some have "fst (JobExecution_Claim fault ev c now l t) = burn_seq t"
        by (auto simp: JobExecution_Claim_def exec_lookup_def Let_def split: option.split)
      then show thesis by (intro kept) (simp_all add: burn_seq_def)
    qed
  qed
qed

lemma exec_inv_same_rows:
  "exec_inv t \<Longrightarrow> rows u = rows t \<Longrightarrow> seq t \<le> seq u \<Longrightarrow> exec_inv u"
  by (fastforce simp: exec_inv_def wf_table_def)

lemma JobExecution_Claim_inv:
  assumes "exec_inv t"
  shows "exec_inv (fst (JobExecution_Claim fault ev c now l t))"
proof (cases rule: JobExecution_Claim_cases [of fault ev c now l t])
  case kept
  with assms show ?thesis by (rule exec_inv_same_rows)
next
  case created
  with assms show ?thesis by (simp add: exec_inv_insert)
next
  case (taken m)
  from assms have "exec_inv (burn_seq t)" by simp
  then show ?thesis unfolding taken(4)
  proof (rule exec_inv_update)
    fix r assume r: "r \<in> set (rows (burn_seq t))" "je_task_id r = cr_task_id ev" "exec_row_ok r"
    then have "r = m" using taken(1) assms exec_lookup_row [of t r] by simp
    with taken r should_process_not_terminal [OF taken(2)]
    show "exec_row_ok (reclaim ev c now l r)"
      by (auto simp: exec_row_ok_def exec_terminal_def)
  qed simp
qed

text \<open>Rows of other tasks, and finished rows, are out of a claim's reach.\<close>

lemma JobExecution_Claim_frame:
  assumes "exec_lookup t k = Some m" "k \<noteq> cr_task_id ev \<or> exec_terminal m"
  shows "exec_lookup (fst (JobExecution_Claim fault ev c now l t)) k = Some m"
proof (cases rule: JobExecution_Claim_cases [of fault ev c now l t])
  case kept
  then show ?thesis using assms by (simp add: exec_lookup_def find_row_def)
next
  case created
  then show ?thesis using assms by (simp add: exec_lookup_insert)
next
  case (taken m')
  then have "k = cr_task_id ev \<Longrightarrow> \<not> exec_terminal m"
    using assms should_process_not_terminal by auto
  with assms have "k \<noteq> cr_task_id ev" by blast
  with taken assms exec_lookup_in [of t k m] show ?thesis by (simp add: exec_lookup_update)
qed


subsection \<open>The outcome operations keep the contract of a claim store\<close>

definition finishing :: "(job_execution_model \<Rightarrow> job_execution_model) \<Rightarrow> bool" where
  "finishing f \<longleftrightarrow>
     (\<forall>m. je_id (f m) = je_id m \<and> je_task_id (f m) = je_task_id m \<and>
          je_status (f m) \<noteq> JobExecutionStatusProcessing \<and>
          (je_run_id m = None \<and> exec_row_ok m \<longrightarrow> exec_row_ok (f m)))"

lemma finishing_updates [simp]:
  "finishing (succeeded_updates rid now)" "finishing (failed_updates a e now)"
  "finishing (dlq_updates e now)"
  by (auto simp: finishing_def succeeded_updates_def failed_updates_def dlq_updates_def exec_row_ok_def)

lemma count_held_0:
  assumes "exec_inv t"
  shows "count_rows (\<lambda>m. je_task_id m = k \<and> je_status m = ''processing'' \<and> je_claim_id m = c) t = 0 \<longleftrightarrow>
         \<not> (\<exists>m. exec_lookup t k = Some m \<and> exec_held m c)"
  using assms exec_lookup_row [OF assms] exec_lookup_in [of t k]
  by (fastforce simp: count_rows_0 find_row_None exec_held_def)

lemma exec_updateClaimed_inv:
  assumes "exec_inv t" "finishing f"
  shows "exec_inv (fst (exec_updateClaimed fault k c f t))"
proof -
  let ?P = "\<lambda>m. je_task_id m = k \<and> je_status m = ''processing'' \<and> je_claim_id m = c"
  have "exec_inv (update_rows ?P f t)"
    using assms(1)
    by (rule exec_inv_update) (use assms(2) in \<open>auto simp: finishing_def exec_row_ok_def\<close>)
  with assms(1) show ?thesis by (auto simp: exec_updateClaimed_def Let_def split: option.split)
qed

lemma exec_updateClaimed_frame:
  assumes "finishing f" "exec_lookup t k' = Some m" "k' \<noteq> k \<or> \<not> exec_held m c"
  shows "exec_lookup (fst (exec_updateClaimed fault k c f t)) k' = Some m"
  using assms exec_lookup_in [OF assms(2)]
  by (auto simp: exec_updateClaimed_def Let_def finishing_def exec_lookup_update exec_held_def split: option.split)

lemma exec_updateClaimed_frame_None:
  assumes "finishing f" "exec_lookup t k' = None"
  shows "exec_lookup (fst (exec_updateClaimed fault k c f t)) k' = None"
  using assms
  by (auto simp: exec_updateClaimed_def Let_def finishing_def exec_lookup_update split: option.split)

lemma exec_updateClaimed_held:
  assumes "exec_inv t" "finishing f" "exec_lookup t k = Some m" "exec_held m c"
  shows "exec_updateClaimed no_faults k c f t =
           (update_rows (\<lambda>m. je_task_id m = k \<and> je_status m = ''processing'' \<and> je_claim_id m = c) f t,
            Inr (jobExecutionModelToExecution (f m)))"
    and "exec_lookup (fst (exec_updateClaimed no_faults k c f t)) k = Some (f m)"
proof -
  let ?P = "\<lambda>m. je_task_id m = k \<and> je_status m = ''processing'' \<and> je_claim_id m = c"
  have n: "count_rows ?P t \<noteq> 0" using assms count_held_0 by blast
  have l: "exec_lookup (update_rows ?P f t) k = Some (f m)"
    using assms exec_lookup_in [OF assms(3)]
    by (simp add: exec_lookup_update finishing_def exec_held_def)
  then show "exec_updateClaimed no_faults k c f t =
      (update_rows ?P f t, Inr (jobExecutionModelToExecution (f m)))"
    using n by (simp add: exec_updateClaimed_def Let_def exec_lookup_def)
  with l show "exec_lookup (fst (exec_updateClaimed no_faults k c f t)) k = Some (f m)" by simp
qed

lemma exec_updateClaimed_lost:
  assumes "exec_inv t" "\<And>m. exec_lookup t k = Some m \<Longrightarrow> \<not> exec_held m c" "fault MarkUpdate = None"
  shows "exec_updateClaimed fault k c f t = (t, Inl (Sentinel ErrJobExecutionClaimLost))"
proof -
  have "count_rows (\<lambda>m. je_task_id m = k \<and> je_status m = ''processing'' \<and> je_claim_id m = c) t = 0"
    using assms(1,2) count_held_0 by blast
  then show ?thesis using assms(3) by (simp add: exec_updateClaimed_def Let_def)
qed

lemma exec_claim_store:
  assumes "finishing f"
  shows "claim_store exec_inv exec_lookup exec_held (\<lambda>t k c. exec_updateClaimed no_faults k c f t)
           ErrJobExecutionClaimLost"
proof
  fix t k m c assume h: "exec_inv t" "exec_lookup t k = Some m" "exec_held m c"
  have "\<forall>c'. \<not> exec_held (f m) c'" using assms by (simp add: finishing_def exec_held_def)
  then show "\<exists>t' a m'. exec_updateClaimed no_faults k c f t = (t', Inr a) \<and>
      exec_lookup t' k = Some m' \<and> (\<forall>c'. \<not> exec_held m' c')"
    using exec_updateClaimed_held [OF h(1) assms h(2,3)] by fastforce
next
  fix t k c assume "exec_inv t" "\<And>m. exec_lookup t k = Some m \<Longrightarrow> \<not> exec_held m c"
  then show "exec_updateClaimed no_faults k c f t = (t, Inl (Sentinel ErrJobExecutionClaimLost))"
    by (intro exec_updateClaimed_lost) auto
next
  fix t :: exec_table and k' k :: string and c assume "k' \<noteq> k"
  then show "exec_lookup (fst (exec_updateClaimed no_faults k c f t)) k' = exec_lookup t k'"
    using exec_updateClaimed_frame [OF assms] exec_updateClaimed_frame_None [OF assms]
    by (cases "exec_lookup t k'") auto
next
  fix t k c assume "exec_inv t"
  then show "exec_inv (fst (exec_updateClaimed no_faults k c f t))"
    by (rule exec_updateClaimed_inv) (rule assms)
qed

interpretation succeeded: claim_store exec_inv exec_lookup exec_held
  "\<lambda>t k c. JobExecution_MarkSucceeded no_faults k c rid now t" ErrJobExecutionClaimLost for rid now
  unfolding JobExecution_MarkSucceeded_def by (rule exec_claim_store) simp

interpretation failed: claim_store exec_inv exec_lookup exec_held
  "\<lambda>t k c. JobExecution_MarkFailed no_faults k c a e now t" ErrJobExecutionClaimLost for a e now
  unfolding JobExecution_MarkFailed_def by (rule exec_claim_store) simp

interpretation dead: claim_store exec_inv exec_lookup exec_held
  "\<lambda>t k c. JobExecution_MarkDLQ no_faults k c e now t" ErrJobExecutionClaimLost for e now
  unfolding JobExecution_MarkDLQ_def by (rule exec_claim_store) simp


subsection \<open>Runs of the table\<close>

text \<open>
  The workers' transactions on the table, in whatever order they commit and whatever the
  database refuses.
\<close>

inductive exec_step :: "exec_table \<Rightarrow> exec_table \<Rightarrow> bool" where
  claim: "exec_step t (fst (JobExecution_Claim fault ev c now l t))"
| succeed: "exec_step t (fst (JobExecution_MarkSucceeded fault' k c rid now t))"
| fail: "exec_step t (fst (JobExecution_MarkFailed fault' k c a e now t))"
| dead: "exec_step t (fst (JobExecution_MarkDLQ fault' k c e now t))"

inductive_cases exec_stepE: "exec_step t u"

lemmas mark_defs = JobExecution_MarkSucceeded_def JobExecution_MarkFailed_def JobExecution_MarkDLQ_def

lemma exec_step_inv: "exec_step t u \<Longrightarrow> exec_inv t \<Longrightarrow> exec_inv u"
  by (induction rule: exec_step.induct)
    (simp_all add: JobExecution_Claim_inv mark_defs exec_updateClaimed_inv)

lemma exec_steps_inv: "exec_step\<^sup>*\<^sup>* t u \<Longrightarrow> exec_inv t \<Longrightarrow> exec_inv u"
  by (induction rule: rtranclp_induct) (auto intro: exec_step_inv)

lemma terminal_not_held: "exec_terminal m \<Longrightarrow> \<not> exec_held m c"
  by (auto simp: exec_terminal_def exec_held_def)

lemma exec_step_terminal:
  "exec_step t u \<Longrightarrow> exec_lookup t k = Some m \<Longrightarrow> exec_terminal m \<Longrightarrow> exec_lookup u k = Some m"
  by (induction rule: exec_step.induct)
    (simp_all add: JobExecution_Claim_frame mark_defs exec_updateClaimed_frame terminal_not_held)

lemma exec_steps_terminal:
  "exec_step\<^sup>*\<^sup>* t u \<Longrightarrow> exec_lookup t k = Some m \<Longrightarrow> exec_terminal m \<Longrightarrow> exec_lookup u k = Some m"
  by (induction rule: rtranclp_induct) (auto intro: exec_step_terminal)

lemma claim_existing:
  assumes "exec_lookup t (cr_task_id ev) = Some m" "cr_task_id ev \<noteq> []" "c \<noteq> []"
  shows "JobExecution_Claim no_faults ev c now l t =
    (if jobExecutionShouldProcess m ev now
     then (update_rows (\<lambda>m. je_task_id m = cr_task_id ev) (reclaim ev c now l) (burn_seq t),
           Inr (jobExecutionModelToExecution (reclaim ev c now l m), True))
     else (burn_seq t, Inr (jobExecutionModelToExecution m, False)))"
  using assms by (simp add: JobExecution_Claim_def exec_lookup_def Let_def)

lemma claim_fresh:
  assumes "exec_lookup t (cr_task_id ev) = None" "cr_task_id ev \<noteq> []" "c \<noteq> []"
  shows "JobExecution_Claim no_faults ev c now l t =
    (insert_row (new_execution ev c now l) t,
     Inr (jobExecutionModelToExecution (new_execution ev c now l (seq t + 1)), True))"
  using assms by (simp add: JobExecution_Claim_def exec_lookup_def Let_def)

text \<open>A granted claim leaves the task's row held by it until the lease's end.\<close>

lemma claim_granted:
  assumes "JobExecution_Claim fault ev c now l t = (t', Inr (x, True))"
  obtains m where "exec_lookup t' (cr_task_id ev) = Some m" "exec_held m c"
    "je_attempt m = cr_attempt ev" "je_locked_until m = Some l" "cr_task_id ev \<noteq> []" "c \<noteq> []"
proof -
  have ok: "cr_task_id ev \<noteq> []" "c \<noteq> []"
    using assms by (auto simp: JobExecution_Claim_def split: if_splits)
  show thesis
  proof (cases "exec_lookup t (cr_task_id ev)")
    case None
    then have "t' = insert_row (new_execution ev c now l) t"
      using assms by (auto simp: JobExecution_Claim_def exec_lookup_def Let_def split: if_splits option.splits)
    with None ok show thesis
      by (intro that) (auto simp: exec_lookup_insert new_execution_def exec_held_def)
  next
    case (Some m)
    then have "t' = update_rows (\<lambda>m. je_task_id m = cr_task_id ev) (reclaim ev c now l) (burn_seq t)"
      using assms by (auto simp: JobExecution_Claim_def exec_lookup_def Let_def split: if_splits option.splits)
    with Some ok exec_lookup_in [OF Some] show thesis
      by (intro that [of "reclaim ev c now l m"]) (auto simp: exec_lookup_update exec_held_def)
  qed
qed

lemma claim_refused_under_lease:
  assumes "exec_lookup t (cr_task_id ev) = Some m" "je_status m = ''processing''"
    "je_locked_until m = Some l0" "now < l0" "cr_attempt ev \<le> je_attempt m"
  shows "rows (fst (JobExecution_Claim fault ev c now l t)) = rows t"
    and "snd (JobExecution_Claim fault ev c now l t) \<noteq> Inr (x, True)"
proof -
  have no: "\<not> jobExecutionShouldProcess m ev now"
    using assms by (simp add: jobExecutionShouldProcess_def time_after_def)
  with assms(1) show "snd (JobExecution_Claim fault ev c now l t) \<noteq> Inr (x, True)"
    by (auto simp: JobExecution_Claim_def exec_lookup_def Let_def split: option.split)
  show "rows (fst (JobExecution_Claim fault ev c now l t)) = rows t"
    using no assms(1) by (cases rule: JobExecution_Claim_cases [of fault ev c now l t]) auto
qed


subsection \<open>The abstract job\<close>

text \<open>
  What the table promises about a task, without rows: no record, work under a claim up to
  a time, waiting for a later attempt, done with a run, or dead-lettered.
\<close>

datatype job_state =
    Absent
  | Working int string time
  | Waiting int
  | Done "int option"
  | Dead

definition abs_job :: "job_execution_model \<Rightarrow> job_state" where
  "abs_job m =
     (if je_status m = JobExecutionStatusSucceeded then Done (je_run_id m)
      else if je_status m = JobExecutionStatusDLQ then Dead
      else if je_status m = JobExecutionStatusFailed then Waiting (je_attempt m)
      else Working (je_attempt m) (je_claim_id m) (outboxLockedUntil (je_locked_until m)))"

definition abs_jobs :: "exec_table \<Rightarrow> string \<Rightarrow> job_state" where
  "abs_jobs t k = (case exec_lookup t k of None \<Rightarrow> Absent | Some m \<Rightarrow> abs_job m)"

definition job_free :: "int \<Rightarrow> time \<Rightarrow> job_state \<Rightarrow> bool" where
  "job_free a now j =
     (case j of Absent \<Rightarrow> True | Working a0 c l \<Rightarrow> a0 < a \<or> l \<le> now
      | Waiting a0 \<Rightarrow> a0 < a | Done r \<Rightarrow> False | Dead \<Rightarrow> False)"

definition job_held :: "string \<Rightarrow> job_state \<Rightarrow> bool" where
  "job_held c j = (case j of Working a c' l \<Rightarrow> c' = c | _ \<Rightarrow> False)"

lemma should_process_abs:
  "exec_row_ok m \<Longrightarrow> jobExecutionShouldProcess m ev now \<longleftrightarrow> job_free (cr_attempt ev) now (abs_job m)"
  by (auto simp: exec_row_ok_def jobExecutionShouldProcess_def job_free_def abs_job_def
      outboxLockedUntil_def time_after_def split: option.splits)

lemma exec_held_abs: "exec_row_ok m \<Longrightarrow> exec_held m c \<longleftrightarrow> job_held c (abs_job m)"
  by (auto simp: exec_row_ok_def exec_held_def job_held_def abs_job_def)

lemma claim_refines:
  fixes now l :: time
  assumes "exec_inv t" "cr_task_id ev \<noteq> []" "c \<noteq> []"
  defines "k \<equiv> cr_task_id ev" and "r \<equiv> JobExecution_Claim no_faults ev c now l t"
  shows "abs_jobs (fst r) =
           (if job_free (cr_attempt ev) now (abs_jobs t k)
            then (abs_jobs t)(k := Working (cr_attempt ev) c l) else abs_jobs t)"
    and "(\<exists>x. snd r = Inr (x, True)) \<longleftrightarrow> job_free (cr_attempt ev) now (abs_jobs t k)"
proof -
  have both: "abs_jobs (fst r) =
           (if job_free (cr_attempt ev) now (abs_jobs t k)
            then (abs_jobs t)(k := Working (cr_attempt ev) c l) else abs_jobs t) \<and>
        ((\<exists>x. snd r = Inr (x, True)) \<longleftrightarrow> job_free (cr_attempt ev) now (abs_jobs t k))"
  proof (cases "exec_lookup t k")
    case None
    with assms show ?thesis
      by (auto simp: claim_fresh abs_jobs_def fun_eq_iff exec_lookup_insert job_free_def
          new_execution_def abs_job_def outboxLockedUntil_def split: option.split)
  next
    case (Some m)
    with assms have ok: "exec_row_ok m" "je_task_id m = k"
      using exec_lookup_in exec_row_okD by blast+
    with Some assms show ?thesis
      by (auto simp: claim_existing abs_jobs_def fun_eq_iff exec_lookup_update should_process_abs
          abs_job_def [of "reclaim ev c now l m"] outboxLockedUntil_def dest: exec_lookup_in
          split: option.split)
  qed
  then show "abs_jobs (fst r) =
           (if job_free (cr_attempt ev) now (abs_jobs t k)
            then (abs_jobs t)(k := Working (cr_attempt ev) c l) else abs_jobs t)"
    and "(\<exists>x. snd r = Inr (x, True)) \<longleftrightarrow> job_free (cr_attempt ev) now (abs_jobs t k)"
    by blast+
qed

lemma updateClaimed_refines:
  assumes "exec_inv t" "finishing f" "\<And>m. abs_job (f m) = j m"
    and "\<And>m. exec_lookup t k = Some m \<Longrightarrow> j m = j0"
  shows "abs_jobs (fst (exec_updateClaimed no_faults k c f t)) =
           (if job_held c (abs_jobs t k) then (abs_jobs t)(k := j0) else abs_jobs t)"
proof (cases "\<exists>m. exec_lookup t k = Some m \<and> exec_held m c")
  case True
  then obtain m where m: "exec_lookup t k = Some m" "exec_held m c" by blast
  then have "job_held c (abs_jobs t k)"
    using assms(1) exec_held_abs exec_lookup_in exec_row_okD by (fastforce simp: abs_jobs_def)
  moreover have "abs_jobs (fst (exec_updateClaimed no_faults k c f t)) k = j0"
    using exec_updateClaimed_held(2) [OF assms(1,2) m] assms(3,4) m by (simp add: abs_jobs_def)
  moreover have "abs_jobs (fst (exec_updateClaimed no_faults k c f t)) k' = abs_jobs t k'" if "k' \<noteq> k" for k'
    using claim_store.finish_frame [OF exec_claim_store [OF assms(2)] assms(1) that]
    by (simp add: abs_jobs_def)
  ultimately show ?thesis by (auto simp: fun_eq_iff)
next
  case False
  then have "\<not> job_held c (abs_jobs t k)"
    using assms(1) exec_held_abs exec_lookup_in exec_row_okD
    by (fastforce simp: abs_jobs_def job_held_def split: option.splits)
  moreover have "exec_updateClaimed no_faults k c f t = (t, Inl (Sentinel ErrJobExecutionClaimLost))"
    using False assms(1) by (intro exec_updateClaimed_lost) auto
  ultimately show ?thesis by simp
qed


subsection \<open>Properties of the job executions\<close>

definition sample_request :: collection_requested where
  "sample_request = \<lparr>cr_task_id = ''t1'', cr_user_id = 7, cr_source_id = 3,
     cr_idempotency_key = ''collection:source:3'', cr_attempt = 0, cr_requested_at = 1000,
     cr_next_attempt_at = 0\<rparr>"

text \<open>
  Every table that workers can reach from the empty one, however their transactions
  interleave and fail, has one row per task, and a row carries a claim and a lease exactly
  while it is being processed.
\<close>

theorem exec_reachable_inv: "exec_step\<^sup>*\<^sup>* empty_table t \<Longrightarrow> exec_inv t"
  by (erule exec_steps_inv) (rule exec_inv_empty)

theorem exec_reachable_inv_witness:
  "exec_inv (fst (JobExecution_Claim no_faults sample_request ''c1'' 5 10 empty_table))"
  by (rule exec_reachable_inv [OF r_into_rtranclp [of exec_step, OF exec_step.claim]])

text \<open>
  C3. A task that has succeeded or gone to the dead-letter queue stays so: its row survives
  every later operation unchanged, and every later claim of it is answered "do not process".
\<close>

theorem job_terminal_forever:
  assumes "exec_lookup t k = Some m" "exec_terminal m" "exec_step\<^sup>*\<^sup>* t u"
    and "cr_task_id ev = k" "k \<noteq> []" "c \<noteq> []"
  shows "exec_lookup u k = Some m \<and>
         JobExecution_Claim no_faults ev c now l u =
           (burn_seq u, Inr (jobExecutionModelToExecution m, False))"
proof -
  have u: "exec_lookup u k = Some m"
    using assms(3,1,2) by (rule exec_steps_terminal)
  moreover have "\<not> jobExecutionShouldProcess m ev now"
    using assms(2) should_process_not_terminal by blast
  ultimately show ?thesis using assms(4-6) claim_existing [of u ev m c now l] by simp
qed

definition done_table :: exec_table where
  "done_table = fst (JobExecution_MarkSucceeded no_faults ''t1'' ''c1'' 9 20
     (fst (JobExecution_Claim no_faults sample_request ''c1'' 5 10 empty_table)))"

lemma done_table_lookup:
  "\<exists>m. exec_lookup done_table ''t1'' = Some m \<and> exec_terminal m"
  by (simp add: done_table_def JobExecution_Claim_def JobExecution_MarkSucceeded_def
      exec_updateClaimed_def exec_lookup_def find_row_def sample_request_def insert_row_def
      empty_table_def new_execution_def count_rows_def select_rows_def update_rows_def Let_def
      exec_terminal_def succeeded_updates_def)

theorem job_terminal_forever_witness:
  "\<exists>m. JobExecution_Claim no_faults sample_request ''c2'' 100 200 done_table =
      (burn_seq done_table, Inr (jobExecutionModelToExecution m, False))"
proof -
  obtain m where m: "exec_lookup done_table ''t1'' = Some m" "exec_terminal m"
    using done_table_lookup by blast
  have "JobExecution_Claim no_faults sample_request ''c2'' 100 200 done_table =
      (burn_seq done_table, Inr (jobExecutionModelToExecution m, False))"
    using job_terminal_forever [OF m rtranclp.rtrancl_refl, of sample_request "''c2''" 100 200]
    by (simp add: sample_request_def)
  then show ?thesis by blast
qed

text \<open>
  A lease excludes: once a claim of a task is granted, no delivery of the same or an
  earlier attempt is granted before the lease ends, whatever its claim id and whatever the
  database does, and the row is not touched by the refusal.
\<close>

theorem job_lease_exclusive:
  assumes "JobExecution_Claim fault ev c now l t = (t1, Inr (x, True))"
    and "exec_lookup t2 (cr_task_id ev) = exec_lookup t1 (cr_task_id ev)"
    and "cr_task_id ev' = cr_task_id ev" "cr_attempt ev' \<le> cr_attempt ev" "now' < l"
  shows "(\<nexists>y. snd (JobExecution_Claim fault' ev' c' now' l' t2) = Inr (y, True)) \<and>
         rows (fst (JobExecution_Claim fault' ev' c' now' l' t2)) = rows t2"
proof -
  obtain m where m: "exec_lookup t1 (cr_task_id ev) = Some m" "exec_held m c"
    "je_attempt m = cr_attempt ev" "je_locked_until m = Some l"
    by (rule claim_granted [OF assms(1)])
  then have "exec_lookup t2 (cr_task_id ev') = Some m" "je_status m = ''processing''"
    using assms(2,3) by (simp_all add: exec_held_def)
  then show ?thesis
    using claim_refused_under_lease [of t2 ev' m l now' fault' c' l'] m assms(4,5) by auto
qed

definition claimed_table :: exec_table where
  "claimed_table = fst (JobExecution_Claim no_faults sample_request ''c1'' 5 10 empty_table)"

lemma claimed_table_granted:
  "\<exists>x. JobExecution_Claim no_faults sample_request ''c1'' 5 10 empty_table = (claimed_table, Inr (x, True))"
  by (simp add: claimed_table_def claim_fresh exec_lookup_def find_row_def empty_table_def sample_request_def)

theorem job_lease_exclusive_witness:
  "(\<nexists>y. snd (JobExecution_Claim no_faults sample_request ''c2'' 9 19 claimed_table) = Inr (y, True)) \<and>
   rows (fst (JobExecution_Claim no_faults sample_request ''c2'' 9 19 claimed_table)) = rows claimed_table"
proof -
  obtain x where "JobExecution_Claim no_faults sample_request ''c1'' 5 10 empty_table =
      (claimed_table, Inr (x, True))"
    using claimed_table_granted by blast
  from job_lease_exclusive [OF this refl refl, of 9] show ?thesis by simp
qed

text \<open>
  C39. A worker whose lease another worker has taken over can no longer record an outcome:
  each of the three outcome operations answers \<open>ErrJobExecutionClaimLost\<close> and leaves the
  table as it is.
\<close>

theorem job_takeover_loses:
  assumes "exec_inv t" "JobExecution_Claim fault ev c now l t = (t', Inr (x, True))" "c' \<noteq> c"
  defines "k \<equiv> cr_task_id ev" and "lost \<equiv> (t', Inl (Sentinel ErrJobExecutionClaimLost))"
  shows "JobExecution_MarkSucceeded no_faults k c' rid n t' = lost \<and>
         JobExecution_MarkFailed no_faults k c' a e n t' = lost \<and>
         JobExecution_MarkDLQ no_faults k c' e n t' = lost"
proof -
  have inv: "exec_inv t'" using JobExecution_Claim_inv [OF assms(1), of fault ev c now l] assms(2) by simp
  obtain m where m: "exec_lookup t' k = Some m" "exec_held m c"
    unfolding k_def by (rule claim_granted [OF assms(2)])
  have "d = c" if "exec_held m d" for d using m(2) that by (simp add: exec_held_def)
  note held = inv m this assms(3)
  show ?thesis unfolding lost_def
    by (intro conjI succeeded.finish_taken_over [OF held] failed.finish_taken_over [OF held]
        dead.finish_taken_over [OF held])
qed

theorem job_takeover_loses_witness:
  "JobExecution_MarkSucceeded no_faults ''t1'' ''c0'' 4 30 claimed_table =
     (claimed_table, Inl (Sentinel ErrJobExecutionClaimLost))"
proof -
  obtain x where "JobExecution_Claim no_faults sample_request ''c1'' 5 10 empty_table =
      (claimed_table, Inr (x, True))"
    using claimed_table_granted by blast
  from job_takeover_loses [OF exec_inv_empty this, of "''c0''"] show ?thesis
    by (simp add: sample_request_def)
qed

text \<open>
  An outcome is recorded at most once per claim: after any of the three outcome
  operations has succeeded, each of them fails with \<open>ErrJobExecutionClaimLost\<close> for every
  claim id until the task is claimed again.
\<close>

theorem job_outcome_once:
  assumes "exec_inv t"
    and "op \<in> {\<lambda>t. JobExecution_MarkSucceeded no_faults k c rid n t,
               \<lambda>t. JobExecution_MarkFailed no_faults k c a e n t,
               \<lambda>t. JobExecution_MarkDLQ no_faults k c e n t}"
    and "op t = (t', Inr x)"
  defines "lost \<equiv> (t', Inl (Sentinel ErrJobExecutionClaimLost))"
  shows "JobExecution_MarkSucceeded no_faults k c' rid' n' t' = lost \<and>
         JobExecution_MarkFailed no_faults k c' a' e' n' t' = lost \<and>
         JobExecution_MarkDLQ no_faults k c' e' n' t' = lost"
proof -
  have "\<exists>f. finishing f \<and> exec_updateClaimed no_faults k c f t = (t', Inr x)"
    using assms(2,3) by (auto simp: mark_defs) (blast intro: finishing_updates)+
  then obtain f where f: "finishing f" "exec_updateClaimed no_faults k c f t = (t', Inr x)" by blast
  then have "claim_store exec_inv exec_lookup exec_held
      (\<lambda>t k c. exec_updateClaimed no_faults k c f t) ErrJobExecutionClaimLost"
    by (intro exec_claim_store)
  then have "exec_inv t'" and "\<And>m. exec_lookup t' k = Some m \<Longrightarrow> \<not> exec_held m c'"
    using exec_updateClaimed_inv [OF assms(1) f(1), of no_faults k c]
      claim_store.finish_succeeds_iff [of exec_inv exec_lookup exec_held _ _ t' k c']
      claim_store.finish_once [of exec_inv exec_lookup exec_held _ _ t k c t' x c'] assms(1) f
    by fastforce+
  then show ?thesis unfolding lost_def mark_defs
    by (intro conjI exec_updateClaimed_lost) auto
qed

theorem job_outcome_once_witness:
  "JobExecution_MarkFailed no_faults ''t1'' ''c1'' 0 ''boom'' 30 done_table =
     (done_table, Inl (Sentinel ErrJobExecutionClaimLost))"
proof -
  have inv: "exec_inv claimed_table"
    unfolding claimed_table_def by (rule JobExecution_Claim_inv) simp
  obtain x where "JobExecution_MarkSucceeded no_faults ''t1'' ''c1'' 9 20 claimed_table = (done_table, Inr x)"
    by (simp add: done_table_def claimed_table_def JobExecution_Claim_def JobExecution_MarkSucceeded_def
      exec_updateClaimed_def exec_lookup_def find_row_def sample_request_def insert_row_def
      empty_table_def new_execution_def count_rows_def select_rows_def update_rows_def Let_def
      succeeded_updates_def)
  with job_outcome_once [OF inv, of "\<lambda>t. JobExecution_MarkSucceeded no_faults ''t1'' ''c1'' 9 20 t"
      "''t1''" "''c1''" 9 20 0 "''''" done_table x "''c1''" 0 30 0 "''boom''"]
  show ?thesis by blast
qed

text \<open>
  C40. The table implements the abstract job store: claiming a task starts work exactly when
  the job is free for the attempt (absent, its lease over, an earlier attempt under way or
  failed) and changes that job only, and recording an outcome moves exactly the job held
  under the claim, with the recorded run, attempt or dead letter.
\<close>

theorem job_table_refines:
  assumes "exec_inv t" "cr_task_id ev \<noteq> []" "c \<noteq> []"
  defines "k \<equiv> cr_task_id ev"
  shows "abs_jobs (fst (JobExecution_Claim no_faults ev c now l t)) =
           (if job_free (cr_attempt ev) now (abs_jobs t k)
            then (abs_jobs t)(k := Working (cr_attempt ev) c l) else abs_jobs t) \<and>
         ((\<exists>x. snd (JobExecution_Claim no_faults ev c now l t) = Inr (x, True)) \<longleftrightarrow>
            job_free (cr_attempt ev) now (abs_jobs t k)) \<and>
         abs_jobs (fst (JobExecution_MarkSucceeded no_faults k c rid n t)) =
           (if job_held c (abs_jobs t k)
            then (abs_jobs t)(k := Done (if 0 < rid then Some rid else None)) else abs_jobs t) \<and>
         abs_jobs (fst (JobExecution_MarkFailed no_faults k c a e n t)) =
           (if job_held c (abs_jobs t k) then (abs_jobs t)(k := Waiting a) else abs_jobs t) \<and>
         abs_jobs (fst (JobExecution_MarkDLQ no_faults k c e n t)) =
           (if job_held c (abs_jobs t k) then (abs_jobs t)(k := Dead) else abs_jobs t)"
  using claim_refines [OF assms(1-3), of now l] assms(1)
  unfolding k_def mark_defs
  by (intro conjI updateClaimed_refines)
    (simp_all add: succeeded_updates_def failed_updates_def dlq_updates_def abs_job_def)

theorem job_table_refines_witness:
  "abs_jobs (fst (JobExecution_Claim no_faults sample_request ''c1'' 5 10 empty_table)) =
     (abs_jobs empty_table)(''t1'' := Working 0 ''c1'' 10)"
  using job_table_refines [OF exec_inv_empty, of sample_request "''c1''" 5 10]
  by (simp add: sample_request_def abs_jobs_def exec_lookup_def find_row_def job_free_def)

end
