(* ===== verification/Http_Layer.thy ===== *)
theory Http_Layer
  imports Collector_Types
begin

section \<open>The HTTP layer\<close>

text \<open>
  Requests, responses and the middleware of \<open>internal/http\<close>, and the parameter parsing that
  the handlers of all modules share. Gin's routing is outside the model: a handler gets a
  request with its header, path parameter and query values (the empty string when absent)
  and the values the middleware has put into its context.
\<close>

record http_request =
  hr_method :: string
  hr_header :: "string \<Rightarrow> string"
  hr_param :: "string \<Rightarrow> string"
  hr_query :: "string \<Rightarrow> string"
  hr_user_id :: "int option"
  hr_request_id :: "string option"

datatype 'a http_body = JsonData 'a | JsonError string string | NoBody

record 'a http_response =
  rs_status :: int
  rs_headers :: "(string \<times> string) list"
  rs_body :: "'a http_body"

type_synonym ('s, 'a) handler = "http_request \<Rightarrow> 's \<Rightarrow> 's \<times> 'a http_response"

definition response_OK :: "'a \<Rightarrow> 'a http_response" where
  "response_OK d = \<lparr>rs_status = 200, rs_headers = [], rs_body = JsonData d\<rparr>"

definition response_Error :: "int \<Rightarrow> string \<Rightarrow> string \<Rightarrow> 'a http_response" where
  "response_Error status code msg = \<lparr>rs_status = status, rs_headers = [], rs_body = JsonError code msg\<rparr>"


subsection \<open>Request context\<close>

definition requestctx_WithUserID :: "int \<Rightarrow> http_request \<Rightarrow> http_request" where
  "requestctx_WithUserID uid r = r\<lparr>hr_user_id := Some uid\<rparr>"

definition requestctx_UserID :: "http_request \<Rightarrow> int \<times> bool" where
  "requestctx_UserID r = (case hr_user_id r of None \<Rightarrow> (0, False) | Some u \<Rightarrow> (u, True))"

definition requestctx_WithRequestID :: "string \<Rightarrow> http_request \<Rightarrow> http_request" where
  "requestctx_WithRequestID i r = r\<lparr>hr_request_id := Some i\<rparr>"

definition requestctx_RequestID :: "http_request \<Rightarrow> string \<times> bool" where
  "requestctx_RequestID r = (case hr_request_id r of None \<Rightarrow> ('''', False) | Some i \<Rightarrow> (i, i \<noteq> ''''))"


subsection \<open>Middleware\<close>

definition add_headers :: "(string \<times> string) list \<Rightarrow> 's \<times> 'a http_response \<Rightarrow> 's \<times> 'a http_response" where
  "add_headers hs = (\<lambda>(s, r). (s, r\<lparr>rs_headers := hs @ rs_headers r\<rparr>))"

text \<open>
  \<open>strings.EqualFold(s, "Bearer")\<close>: no letter of the word has a case variant outside ASCII,
  so folding is bytewise.
\<close>

definition equal_fold_bearer :: "string \<Rightarrow> bool" where
  "equal_fold_bearer s \<longleftrightarrow> map lower_byte s = ''bearer''"

definition AuthRequired :: "(string \<Rightarrow> int result) \<Rightarrow> ('s, 'a) handler \<Rightarrow> ('s, 'a) handler" where
  "AuthRequired parseAccessToken nxt req s =
     (let authHeader = hr_header req ''Authorization'' in
      if authHeader = '''' then
        (s, response_Error 401 ''unauthorized'' ''missing authentication header'')
      else let parts = strings_fields authHeader in
        if length parts \<noteq> 2 \<or> \<not> equal_fold_bearer (parts ! 0) then
          (s, response_Error 401 ''unauthorized'' ''invalid authentication header'')
        else case parseAccessToken (parts ! 1) of
          Inl e \<Rightarrow> (s, response_Error 401 ''unauthorized'' ''invalid access token'')
        | Inr uid \<Rightarrow>
            if uid \<le> 0 then (s, response_Error 401 ''unauthorized'' ''invalid access token'')
            else nxt (requestctx_WithUserID uid req) s)"

definition CORS :: "string list \<Rightarrow> ('s, 'a) handler \<Rightarrow> ('s, 'a) handler" where
  "CORS allowedOrigins nxt req s =
     (let allowed = filter (\<lambda>x. x \<noteq> '''') (map trim_space allowedOrigins);
          origin = hr_header req ''Origin'';
          hs = (if origin \<in> set allowed then
                  [(''Access-Control-Allow-Origin'', origin),
                   (''Access-Control-Allow-Credentials'', ''true''),
                   (''Access-Control-Allow-Methods'', ''GET, POST, PUT, PATCH, DELETE, OPTIONS''),
                   (''Access-Control-Allow-Headers'', ''Authorization, Content-Type''),
                   (''Vary'', ''Origin''), (''Vary'', ''Access-Control-Request-Method''),
                   (''Vary'', ''Access-Control-Request-Headers'')]
                else [])
      in if hr_method req = ''OPTIONS''
         then (s, \<lparr>rs_status = 204, rs_headers = hs, rs_body = NoBody\<rparr>)
         else add_headers hs (nxt req s))"

text \<open>
  \<open>newRequestID\<close>: 16 random bytes in hexadecimal, or the encoded time if the random source
  fails.
\<close>

definition newRequestID :: "string option \<Rightarrow> time \<Rightarrow> string" where
  "newRequestID bytes now = (case bytes of Some b \<Rightarrow> hex_encode b | None \<Rightarrow> hex_encode (rfc3339_nano now))"

definition RequestID :: "string option \<Rightarrow> time \<Rightarrow> ('s, 'a) handler \<Rightarrow> ('s, 'a) handler" where
  "RequestID bytes now nxt req s =
     (let h = hr_header req ''X-Request-ID'';
          requestID = (if h = '''' then newRequestID bytes now else h)
      in add_headers [(''X-Request-ID'', requestID)] (nxt (requestctx_WithRequestID requestID req) s))"

definition SecurityHeaders :: "('s, 'a) handler \<Rightarrow> ('s, 'a) handler" where
  "SecurityHeaders nxt req s =
     add_headers
       [(''X-Content-Type-Options'', ''nosniff''), (''X-Frame-Options'', ''DENY''),
        (''Referrer-Policy'', ''strict-origin-when-cross-origin''),
        (''Content-Security-Policy'',
         ''default-src '' @ [CHR 0x27] @ ''self'' @ [CHR 0x27] @ ''; frame-ancestors '' @
         [CHR 0x27] @ ''none'' @ [CHR 0x27]),
        (''Permissions-Policy'', ''camera=(), microphone=(), geolocation=()'')] (nxt req s)"


subsection \<open>Parameters\<close>

text \<open>
  The handlers of five packages parse an id parameter with the same helper. It returns the
  value and an error that is nil for a well-formed number, also when the number is not
  positive.
\<close>

definition parseIDParam :: "string \<Rightarrow> int \<times> num_error option" where
  "parseIDParam raw =
     (case parse_int64 raw of
        Inl e \<Rightarrow> (0, Some e)
      | Inr i \<Rightarrow> if i \<le> 0 then (0, None) else (i, None))"

definition parseIntQuery :: "string \<Rightarrow> int \<Rightarrow> num_error + int" where
  "parseIntQuery raw def_value = (if raw = [] then Inr def_value else parse_int64 raw)"

definition parseOptionalInt64Query :: "string \<Rightarrow> int \<times> num_error option" where
  "parseOptionalInt64Query raw = (if raw = '''' then (0, None) else parseIDParam raw)"

definition parseOptionalBoolQuery :: "string \<Rightarrow> num_error + bool option" where
  "parseOptionalBoolQuery raw =
     (if raw = '''' then Inr None
      else if raw \<in> {''1'', ''t'', ''T'', ''true'', ''TRUE'', ''True''} then Inr (Some True)
      else if raw \<in> {''0'', ''f'', ''F'', ''false'', ''FALSE'', ''False''} then Inr (Some False)
      else Inl ErrSyntax)"

lemma parseIDParam_fmt: "in_int64 i \<Longrightarrow> parseIDParam (fmt_int i) = (if i \<le> 0 then 0 else i, None)"
  by (simp add: parseIDParam_def parse_fmt_int)

lemma parseIDParam_nonneg: "0 \<le> fst (parseIDParam raw)"
  by (simp add: parseIDParam_def split: sum.split)


subsection \<open>Properties of the HTTP layer\<close>

text \<open>
  A protected handler runs only for an authenticated request: if the middleware calls
  it, the request carries exactly "Bearer" and a token, the token's parser returned a
  positive user id, and the handler sees that id; otherwise the state is untouched and the
  answer is 401.
\<close>

theorem auth_required_gate:
  "(\<exists>uid b t. strings_fields (hr_header req ''Authorization'') = [b, t] \<and> map lower_byte b = ''bearer'' \<and>
       parse t = Inr uid \<and> 0 < uid \<and>
       AuthRequired parse nxt req s = nxt (requestctx_WithUserID uid req) s) \<or>
   (fst (AuthRequired parse nxt req s) = s \<and> rs_status (snd (AuthRequired parse nxt req s)) = 401)"
proof -
  let ?h = "hr_header req ''Authorization''"
  show ?thesis
  proof (cases "strings_fields ?h")
    case Nil
    then show ?thesis by (simp add: AuthRequired_def response_Error_def Let_def)
  next
    case (Cons b bs)
    then have "?h \<noteq> []" by (auto simp: strings_fields_def)
    show ?thesis
    proof (cases "\<exists>t. bs = [t]")
      case True
      with Cons \<open>?h \<noteq> []\<close> show ?thesis
        by (cases "parse (bs ! 0)")
          (auto simp: AuthRequired_def response_Error_def Let_def equal_fold_bearer_def)
    next
      case False
      then have "length bs \<noteq> 1" by (auto simp: length_Suc_conv)
      with Cons \<open>?h \<noteq> []\<close> show ?thesis by (simp add: AuthRequired_def response_Error_def Let_def)
    qed
  qed
qed

text \<open>
  The CORS middleware names an origin in its answer only if that origin, trimmed and
  non-empty, is configured, and answers every OPTIONS request itself without running the
  handler.
\<close>

theorem cors_allows_configured_only:
  assumes "\<And>h v. (h, v) \<in> set (rs_headers (snd (nxt req s))) \<Longrightarrow> h \<noteq> ACAO"
    and "ACAO = ''Access-Control-Allow-Origin''"
  shows "((ACAO, v) \<in> set (rs_headers (snd (CORS origins nxt req s))) \<longleftrightarrow>
            v = hr_header req ''Origin'' \<and> v \<noteq> [] \<and> v \<in> trim_space ` set origins) \<and>
         (hr_method req \<noteq> ''OPTIONS'' \<or>
            (fst (CORS origins nxt req s) = s \<and> rs_status (snd (CORS origins nxt req s)) = 204))"
proof -
  have "(ACAO, v) \<notin> set (rs_headers (snd (nxt req s)))" using assms(1) by blast
  then show ?thesis
    by (auto simp: CORS_def Let_def add_headers_def assms(2) split: prod.split)
qed

definition sample_http_request :: "string \<Rightarrow> http_request" where
  "sample_http_request origin =
     \<lparr>hr_method = ''GET'', hr_header = (\<lambda>h. if h = ''Origin'' then origin else []),
      hr_param = (\<lambda>_. []), hr_query = (\<lambda>_. []), hr_user_id = None, hr_request_id = None\<rparr>"

theorem cors_allows_configured_only_witness:
  "(''Access-Control-Allow-Origin'', ''http://a'') \<notin>
     set (rs_headers (snd (CORS [''http://b''] (\<lambda>r st. (st, response_OK ())) (sample_http_request ''http://a'') ())))"
proof -
  have "''http://a'' \<notin> trim_space ` set [''http://b'']" by (simp add: trim_space_visible visible_def)
  moreover have "\<And>h v. (h, v) \<in> set (rs_headers (snd ((\<lambda>r st. (st, response_OK ()))
      (sample_http_request ''http://a'') ()))) \<Longrightarrow> h \<noteq> ''Access-Control-Allow-Origin''"
    by (simp add: response_OK_def)
  ultimately show ?thesis
    using cors_allows_configured_only
      [of "\<lambda>r st. (st, response_OK ())" "sample_http_request ''http://a''" "()"
          "''Access-Control-Allow-Origin''" "''http://a''" "[''http://b'']"]
    by blast
qed

end
