(* ===== verification/Dead_Letters.thy ===== *)
theory Dead_Letters
  imports Job_Execution Http_Layer "HOL-Library.Product_Lexorder"
begin

section \<open>The dead-letter queue\<close>

text \<open>
  Tasks that were given up, and their replay: the repository, the service and the handlers
  of \<open>internal/module/collectionjob\<close> (\<open>dlq.go\<close>, \<open>dlq_repository.go\<close>, \<open>dlq_handler.go\<close>).
\<close>

definition DLQStatusPending :: string where [simp]: "DLQStatusPending = ''pending''"
definition DLQStatusReplayed :: string where [simp]: "DLQStatusReplayed = ''replayed''"
definition DLQStatusHandled :: string where [simp]: "DLQStatusHandled = ''handled''"

record dlq_item_model =
  dm_id :: int
  dm_task_id :: string
  dm_user_id :: int
  dm_source_id :: int
  dm_idempotency_key :: string
  dm_attempt :: int
  dm_error_message :: string
  dm_payload_json :: payload
  dm_status :: string
  dm_created_at :: time
  dm_updated_at :: time
  dm_replayed_at :: "time option"
  dm_handled_at :: "time option"

record dlq_item =
  di_id :: int
  di_task_id :: string
  di_user_id :: int
  di_source_id :: int
  di_idempotency_key :: string
  di_attempt :: int
  di_error_message :: string
  di_payload :: collection_requested
  di_status :: string
  di_created_at :: time
  di_updated_at :: time
  di_replayed_at :: "time option"
  di_handled_at :: "time option"

record create_dlq_item_params =
  cd_event :: collection_requested
  cd_error_message :: string
  cd_created_at :: time

record list_dlq_items_params =
  ld_user_id :: int
  ld_status :: string
  ld_limit :: int
  ld_offset :: int

record dlq_item_dto =
  dd_id :: int
  dd_task_id :: string
  dd_user_id :: int
  dd_source_id :: int
  dd_idempotency_key :: string
  dd_attempt :: int
  dd_error_message :: string
  dd_status :: string
  dd_created_at :: string
  dd_updated_at :: string
  dd_replayed_at :: "string option"
  dd_handled_at :: "string option"

record list_dlq_items_response =
  lr_items :: "dlq_item_dto list"
  lr_total :: int
  lr_limit :: int
  lr_offset :: int

type_synonym dlq_table = "dlq_item_model table"

datatype dlq_stmt = DlqInsert | DlqCount | DlqSelect | DlqFind | DlqUpdate | DlqReload


subsection \<open>The repository\<close>

definition dlq_normalizeLimit :: "int \<Rightarrow> int" where
  "dlq_normalizeLimit limit = (if limit \<le> 0 then 20 else if limit > 100 then 100 else limit)"

definition dlq_normalizeOffset :: "int \<Rightarrow> int" where
  "dlq_normalizeOffset offset = (if offset < 0 then 0 else offset)"

interpretation dlq_page: page_params dlq_normalizeLimit dlq_normalizeOffset 20 100
  by unfold_locales (auto simp: dlq_normalizeLimit_def dlq_normalizeOffset_def)

definition dlqModelToItem :: "dlq_item_model \<Rightarrow> dlq_item result" where
  "dlqModelToItem m =
     (case unmarshal_requested (dm_payload_json m) of
        None \<Rightarrow> Inl (Wrapf ''unmarshal dlq payload: '' (Plain ''json'') '''')
      | Some payload \<Rightarrow>
          Inr \<lparr>di_id = dm_id m, di_task_id = dm_task_id m, di_user_id = dm_user_id m,
               di_source_id = dm_source_id m, di_idempotency_key = dm_idempotency_key m,
               di_attempt = dm_attempt m, di_error_message = dm_error_message m,
               di_payload = payload, di_status = dm_status m, di_created_at = dm_created_at m,
               di_updated_at = dm_updated_at m, di_replayed_at = dm_replayed_at m,
               di_handled_at = dm_handled_at m\<rparr>)"

definition new_dlq_item :: "create_dlq_item_params \<Rightarrow> payload \<Rightarrow> time \<Rightarrow> int \<Rightarrow> dlq_item_model" where
  "new_dlq_item params payload now i =
     \<lparr>dm_id = i, dm_task_id = cr_task_id (cd_event params),
      dm_user_id = cr_user_id (cd_event params), dm_source_id = cr_source_id (cd_event params),
      dm_idempotency_key = cr_idempotency_key (cd_event params),
      dm_attempt = cr_attempt (cd_event params), dm_error_message = cd_error_message params,
      dm_payload_json = payload, dm_status = DLQStatusPending,
      dm_created_at = now, dm_updated_at = now, dm_replayed_at = None, dm_handled_at = None\<rparr>"

text \<open>\<open>clock\<close> is what \<open>time.Now()\<close> returns, used when the caller gave no creation time.\<close>

definition DLQ_Create ::
  "dlq_stmt faults \<Rightarrow> time \<Rightarrow> create_dlq_item_params \<Rightarrow> dlq_table \<Rightarrow> dlq_table \<times> dlq_item result" where
  "DLQ_Create fault clock params t =
     (case marshal_requested (cd_event params) of
        None \<Rightarrow> (t, Inl (Wrapf ''marshal dlq payload: '' marshal_time_error ''''))
      | Some payload \<Rightarrow>
          (let now = (if is_zero_time (cd_created_at params) then clock else cd_created_at params) in
           case fault DlqInsert of
             Some e \<Rightarrow> (t, Inl (Wrapf ''create dlq item: '' e ''''))
           | None \<Rightarrow> (insert_row (new_dlq_item params payload now) t,
                      dlqModelToItem (new_dlq_item params payload now (seq t + 1)))))"

text \<open>The loop over the rows of a listing stops at the first row that cannot be decoded.\<close>

fun dlq_items :: "dlq_item_model list \<Rightarrow> dlq_item list result" where
  "dlq_items [] = Inr []"
| "dlq_items (m # ms) =
     (case dlqModelToItem m of
        Inl e \<Rightarrow> Inl e
      | Inr item \<Rightarrow> (case dlq_items ms of Inl e \<Rightarrow> Inl e | Inr items \<Rightarrow> Inr (item # items)))"

definition dlq_selected :: "list_dlq_items_params \<Rightarrow> dlq_item_model \<Rightarrow> bool" where
  "dlq_selected params m \<longleftrightarrow>
     (ld_user_id params > 0 \<longrightarrow> dm_user_id m = ld_user_id params) \<and>
     (ld_status params \<noteq> '''' \<longrightarrow> dm_status m = ld_status params)"

definition dlq_newest_first :: "dlq_item_model list \<Rightarrow> dlq_item_model list" where
  "dlq_newest_first ms = sort_key (\<lambda>m. (- dm_created_at m, - dm_id m)) ms"

definition DLQ_List ::
  "dlq_stmt faults \<Rightarrow> list_dlq_items_params \<Rightarrow> dlq_table \<Rightarrow> (dlq_item list \<times> int) result" where
  "DLQ_List fault params t =
     (let limit = dlq_normalizeLimit (ld_limit params);
          offset = dlq_normalizeOffset (ld_offset params) in
      case fault DlqCount of
        Some e \<Rightarrow> Inl (Wrapf ''count dlq items: '' e '''')
      | None \<Rightarrow>
        (case fault DlqSelect of
           Some e \<Rightarrow> Inl (Wrapf ''list dlq items: '' e '''')
         | None \<Rightarrow>
             (case dlq_items (page limit offset (dlq_newest_first (select_rows (dlq_selected params) t))) of
                Inl e \<Rightarrow> Inl e
              | Inr items \<Rightarrow> Inr (items, count_rows (dlq_selected params) t))))"

definition DLQ_FindByUserIDAndID ::
  "go_error option \<Rightarrow> int \<Rightarrow> int \<Rightarrow> dlq_table \<Rightarrow> dlq_item result" where
  "DLQ_FindByUserIDAndID fault uid i t =
     (case fault of
        Some e \<Rightarrow> Inl (Wrapf ''find dlq item: '' e '''')
      | None \<Rightarrow>
        (case find_row (\<lambda>m. dm_id m = i \<and> (uid > 0 \<longrightarrow> dm_user_id m = uid)) t of
           None \<Rightarrow> Inl (Sentinel ErrDLQItemNotFound)
         | Some m \<Rightarrow> dlqModelToItem m))"

definition DLQ_FindByID :: "go_error option \<Rightarrow> int \<Rightarrow> dlq_table \<Rightarrow> dlq_item result" where
  "DLQ_FindByID fault i t = DLQ_FindByUserIDAndID fault 0 i t"

definition DLQ_updateStatus ::
  "dlq_stmt faults \<Rightarrow> int \<Rightarrow> (dlq_item_model \<Rightarrow> dlq_item_model) \<Rightarrow> dlq_table \<Rightarrow>
     dlq_table \<times> dlq_item result" where
  "DLQ_updateStatus fault i updates t =
     (case fault DlqUpdate of
        Some e \<Rightarrow> (t, Inl (Wrapf ''update dlq item: '' e ''''))
      | None \<Rightarrow>
          if count_rows (\<lambda>m. dm_id m = i) t = 0 then (t, Inl (Sentinel ErrDLQItemNotFound))
          else (let t' = update_rows (\<lambda>m. dm_id m = i) updates t
                in (t', DLQ_FindByID (fault DlqReload) i t')))"

definition DLQ_MarkReplayed ::
  "dlq_stmt faults \<Rightarrow> int \<Rightarrow> time \<Rightarrow> dlq_table \<Rightarrow> dlq_table \<times> dlq_item result" where
  "DLQ_MarkReplayed fault i at t =
     DLQ_updateStatus fault i
       (\<lambda>m. m\<lparr>dm_status := DLQStatusReplayed, dm_updated_at := at, dm_replayed_at := Some at\<rparr>) t"

definition DLQ_MarkHandled ::
  "dlq_stmt faults \<Rightarrow> int \<Rightarrow> time \<Rightarrow> dlq_table \<Rightarrow> dlq_table \<times> dlq_item result" where
  "DLQ_MarkHandled fault i at t =
     DLQ_updateStatus fault i
       (\<lambda>m. m\<lparr>dm_status := DLQStatusHandled, dm_updated_at := at, dm_handled_at := Some at\<rparr>) t"


subsection \<open>The service\<close>

definition formatOptionalTime :: "time option \<Rightarrow> string option" where
  "formatOptionalTime v = (case v of None \<Rightarrow> None | Some t \<Rightarrow> Some (rfc3339_nano t))"

definition toDLQItemDTO :: "dlq_item \<Rightarrow> dlq_item_dto" where
  "toDLQItemDTO item =
     \<lparr>dd_id = di_id item, dd_task_id = di_task_id item, dd_user_id = di_user_id item,
      dd_source_id = di_source_id item, dd_idempotency_key = di_idempotency_key item,
      dd_attempt = di_attempt item, dd_error_message = di_error_message item,
      dd_status = di_status item, dd_created_at = rfc3339_nano (di_created_at item),
      dd_updated_at = rfc3339_nano (di_updated_at item),
      dd_replayed_at = formatOptionalTime (di_replayed_at item),
      dd_handled_at = formatOptionalTime (di_handled_at item)\<rparr>"

definition DLQService_List ::
  "dlq_stmt faults \<Rightarrow> list_dlq_items_params \<Rightarrow> dlq_table \<Rightarrow> list_dlq_items_response result" where
  "DLQService_List fault req t =
     (let limit = dlq_normalizeLimit (ld_limit req); offset = dlq_normalizeOffset (ld_offset req) in
      case DLQ_List fault (req\<lparr>ld_limit := limit, ld_offset := offset\<rparr>) t of
        Inl e \<Rightarrow> Inl (Wrapf ''list dlq items: '' e '''')
      | Inr (items, cnt) \<Rightarrow>
          Inr \<lparr>lr_items = map toDLQItemDTO items, lr_total = cnt, lr_limit = limit, lr_offset = offset\<rparr>)"

record dlq_world =
  dw_items :: dlq_table
  dw_log :: event_log

definition replay_event :: "collection_requested \<Rightarrow> string \<Rightarrow> collection_requested" where
  "replay_event ev task_id = ev\<lparr>cr_task_id := task_id, cr_attempt := 0, cr_next_attempt_at := zero_time\<rparr>"

definition DLQService_Replay ::
  "dlq_stmt faults \<Rightarrow> write_outcome \<Rightarrow> string \<Rightarrow> time \<Rightarrow> int \<Rightarrow> int \<Rightarrow> dlq_world \<Rightarrow>
     dlq_world \<times> dlq_item_dto result" where
  "DLQService_Replay fault w task_id now uid i s =
     (case DLQ_FindByUserIDAndID (fault DlqFind) uid i (dw_items s) of
        Inl e \<Rightarrow> (s, Inl (Wrapf ''find dlq item: '' e ''''))
      | Inr item \<Rightarrow>
        (let event = replay_event (di_payload item) task_id in
         case marshal_requested event of
           None \<Rightarrow> (s, Inl (Wrapf ''marshal replay event: '' marshal_time_error ''''))
         | Some data \<Rightarrow>
           (case event_write w \<lparr>ev_topic = TopicCollectionRequested,
                   ev_key = cr_idempotency_key event, ev_value = data\<rparr> (dw_log s) of
              (log, Inl e) \<Rightarrow> (s\<lparr>dw_log := log\<rparr>, Inl (Wrapf ''write replay event: '' e ''''))
            | (log, Inr _) \<Rightarrow>
                (case DLQ_MarkReplayed fault (di_id item) now (dw_items s) of
                   (t, Inl e) \<Rightarrow> (s\<lparr>dw_log := log, dw_items := t\<rparr>, Inl (Wrapf ''mark dlq replayed: '' e ''''))
                 | (t, Inr updated) \<Rightarrow> (s\<lparr>dw_log := log, dw_items := t\<rparr>, Inr (toDLQItemDTO updated))))))"

definition DLQService_MarkHandled ::
  "dlq_stmt faults \<Rightarrow> time \<Rightarrow> int \<Rightarrow> int \<Rightarrow> dlq_world \<Rightarrow> dlq_world \<times> dlq_item_dto result" where
  "DLQService_MarkHandled fault now uid i s =
     (case DLQ_FindByUserIDAndID (fault DlqFind) uid i (dw_items s) of
        Inl e \<Rightarrow> (s, Inl (Wrapf ''find dlq item: '' e ''''))
      | Inr _ \<Rightarrow>
        (case DLQ_MarkHandled fault i now (dw_items s) of
           (t, Inl e) \<Rightarrow> (s\<lparr>dw_items := t\<rparr>, Inl (Wrapf ''mark dlq handled: '' e ''''))
         | (t, Inr updated) \<Rightarrow> (s\<lparr>dw_items := t\<rparr>, Inr (toDLQItemDTO updated))))"


subsection \<open>The handlers\<close>

definition dlq_handleError :: "go_error \<Rightarrow> 'a http_response" where
  "dlq_handleError e =
     (if errors_is e ErrDLQItemNotFound then response_Error 404 ''dlq_item_not_found'' ''dlq item not found''
      else response_Error 500 ''internal_error'' ''internal server error'')"

definition unauthorized :: "'a http_response" where
  "unauthorized = response_Error 401 ''unauthorized'' ''missing user context''"

definition DLQHandler_List ::
  "dlq_stmt faults \<Rightarrow> http_request \<Rightarrow> dlq_world \<Rightarrow> dlq_world \<times> list_dlq_items_response http_response" where
  "DLQHandler_List fault req s =
     (s, case requestctx_UserID req of
           (uid, False) \<Rightarrow> unauthorized
         | (uid, True) \<Rightarrow>
           (case parseIntQuery (hr_query req ''limit'') 20 of
              Inl e \<Rightarrow> response_Error 400 ''invalid_limit'' ''invalid limit''
            | Inr limit \<Rightarrow>
              (case parseIntQuery (hr_query req ''offset'') 0 of
                 Inl e \<Rightarrow> response_Error 400 ''invalid_offset'' ''invalid offset''
               | Inr offset \<Rightarrow>
                 (case DLQService_List fault \<lparr>ld_user_id = uid, ld_status = hr_query req ''status'',
                          ld_limit = limit, ld_offset = offset\<rparr> (dw_items s) of
                    Inl e \<Rightarrow> dlq_handleError e
                  | Inr result \<Rightarrow> response_OK result))))"

definition DLQHandler_Replay ::
  "dlq_stmt faults \<Rightarrow> write_outcome \<Rightarrow> string \<Rightarrow> time \<Rightarrow> (dlq_world, dlq_item_dto) handler" where
  "DLQHandler_Replay fault w task_id now req s =
     (case requestctx_UserID req of
        (uid, False) \<Rightarrow> (s, unauthorized)
      | (uid, True) \<Rightarrow>
        (case parseIDParam (hr_param req ''id'') of
           (_, Some e) \<Rightarrow> (s, response_Error 400 ''invalid_dlq_id'' ''invalid dlq id'')
         | (i, None) \<Rightarrow>
           (case DLQService_Replay fault w task_id now uid i s of
              (s', Inl e) \<Rightarrow> (s', dlq_handleError e)
            | (s', Inr item) \<Rightarrow> (s', response_OK item))))"

definition DLQHandler_MarkHandled ::
  "dlq_stmt faults \<Rightarrow> time \<Rightarrow> (dlq_world, dlq_item_dto) handler" where
  "DLQHandler_MarkHandled fault now req s =
     (case requestctx_UserID req of
        (uid, False) \<Rightarrow> (s, unauthorized)
      | (uid, True) \<Rightarrow>
        (case parseIDParam (hr_param req ''id'') of
           (_, Some e) \<Rightarrow> (s, response_Error 400 ''invalid_dlq_id'' ''invalid dlq id'')
         | (i, None) \<Rightarrow>
           (case DLQService_MarkHandled fault now uid i s of
              (s', Inl e) \<Rightarrow> (s', dlq_handleError e)
            | (s', Inr item) \<Rightarrow> (s', response_OK item))))"

subsection \<open>The invariant of the table\<close>

text \<open>
  Every row holds a payload that can be read back, whose identity the columns repeat, and
  the marks that go with its status.
\<close>

definition dlq_row_ok :: "dlq_item_model \<Rightarrow> bool" where
  "dlq_row_ok m \<longleftrightarrow>
     (case unmarshal_requested (dm_payload_json m) of
        None \<Rightarrow> False
      | Some ev \<Rightarrow> requested_wf ev \<and> dm_task_id m = cr_task_id ev \<and> dm_user_id m = cr_user_id ev \<and>
                   dm_source_id m = cr_source_id ev \<and> dm_attempt m = cr_attempt ev \<and>
                   dm_idempotency_key m = cr_idempotency_key ev) \<and>
     (dm_status m = DLQStatusPending \<and> dm_replayed_at m = None \<and> dm_handled_at m = None \<or>
      dm_status m = DLQStatusReplayed \<and> dm_replayed_at m \<noteq> None \<or>
      dm_status m = DLQStatusHandled \<and> dm_handled_at m \<noteq> None)"

definition dlq_inv :: "dlq_table \<Rightarrow> bool" where
  "dlq_inv t \<longleftrightarrow> wf_table dm_id t \<and> list_all dlq_row_ok (rows t)"

definition dlq_lookup :: "dlq_table \<Rightarrow> int \<Rightarrow> dlq_item_model option" where
  "dlq_lookup t i = find_row (\<lambda>m. dm_id m = i) t"

lemma dlq_inv_empty [simp]: "dlq_inv empty_table"
  by (simp add: dlq_inv_def)

lemma dlq_row_okD: "dlq_inv t \<Longrightarrow> m \<in> set (rows t) \<Longrightarrow> dlq_row_ok m"
  by (simp add: dlq_inv_def list_all_iff)

lemma dlq_lookup_in: "dlq_lookup t i = Some m \<Longrightarrow> m \<in> set (rows t) \<and> dm_id m = i"
  unfolding dlq_lookup_def by (rule find_row_SomeD)

lemma dlq_row_ok_payload:
  assumes "dlq_row_ok m"
  obtains ev where "unmarshal_requested (dm_payload_json m) = Some ev" "requested_wf ev"
    "dm_user_id m = cr_user_id ev" "dm_idempotency_key m = cr_idempotency_key ev"
  using assms by (auto simp: dlq_row_ok_def split: option.splits)

lemma new_dlq_item_ok:
  assumes "marshal_requested (cd_event params) = Some p" "requested_wf (cd_event params)"
  shows "dlq_row_ok (new_dlq_item params p now i)" "dm_id (new_dlq_item params p now i) = i"
  using assms by (simp_all add: dlq_row_ok_def new_dlq_item_def unmarshal_marshal_requested)

lemma DLQ_Create_inv:
  assumes "dlq_inv t" "requested_wf (cd_event params)"
  shows "dlq_inv (fst (DLQ_Create fault clock params t))"
proof (cases "fault DlqInsert")
  case None
  obtain p where p: "marshal_requested (cd_event params) = Some p"
    using marshal_requested_Some [OF assms(2)] by blast
  define now where "now = (if is_zero_time (cd_created_at params) then clock else cd_created_at params)"
  have "dlq_inv (insert_row (new_dlq_item params p now) t)"
    using assms new_dlq_item_ok [OF p assms(2), of now] by (simp add: dlq_inv_def wf_insert_row)
  then show ?thesis by (simp add: DLQ_Create_def p None Let_def now_def)
next
  case (Some e)
  then show ?thesis using assms by (simp add: DLQ_Create_def Let_def split: option.split)
qed

lemma dlq_inv_update:
  assumes "dlq_inv t" "\<And>m. dm_id (f m) = dm_id m" "\<And>m. dlq_row_ok m \<Longrightarrow> dlq_row_ok (f m)"
  shows "dlq_inv (update_rows P f t)"
  using assms by (auto simp: dlq_inv_def wf_update_rows list_all_iff set_rows_update)

lemma DLQ_updateStatus_fst:
  "fst (DLQ_updateStatus fault i f t) =
     (if fault DlqUpdate = None then update_rows (\<lambda>m. dm_id m = i) f t else t)"
proof -
  have "update_rows (\<lambda>m. dm_id m = i) f t = t" if "count_rows (\<lambda>m. dm_id m = i) t = 0"
    using that by (intro update_rows_none) (simp add: count_rows_0 find_row_None)
  then show ?thesis by (simp add: DLQ_updateStatus_def Let_def split: option.split)
qed

lemma DLQ_Mark_inv:
  assumes "dlq_inv t"
  shows "dlq_inv (fst (DLQ_MarkReplayed fault i at t))" "dlq_inv (fst (DLQ_MarkHandled fault i at t))"
proof -
  have "dlq_row_ok (m\<lparr>dm_status := DLQStatusReplayed, dm_updated_at := at, dm_replayed_at := Some at\<rparr>)"
    "dlq_row_ok (m\<lparr>dm_status := DLQStatusHandled, dm_updated_at := at, dm_handled_at := Some at\<rparr>)"
    if "dlq_row_ok m" for m
    using that by (auto simp: dlq_row_ok_def split: option.splits)
  then show "dlq_inv (fst (DLQ_MarkReplayed fault i at t))" "dlq_inv (fst (DLQ_MarkHandled fault i at t))"
    using assms unfolding DLQ_MarkReplayed_def DLQ_MarkHandled_def DLQ_updateStatus_fst
    by (auto intro!: dlq_inv_update)
qed

lemma DLQService_Replay_items:
  "dw_items (fst (DLQService_Replay fault w task_id now uid i s)) = dw_items s \<or>
   (\<exists>j. dw_items (fst (DLQService_Replay fault w task_id now uid i s)) =
        fst (DLQ_MarkReplayed fault j now (dw_items s)))"
proof (cases "\<exists>item data. DLQ_FindByUserIDAndID (fault DlqFind) uid i (dw_items s) = Inr item \<and>
    marshal_requested (replay_event (di_payload item) task_id) = Some data \<and> w = Acked")
  case True
  then obtain item data where "DLQ_FindByUserIDAndID (fault DlqFind) uid i (dw_items s) = Inr item"
    "marshal_requested (replay_event (di_payload item) task_id) = Some data" "w = Acked" by blast
  then have "dw_items (fst (DLQService_Replay fault w task_id now uid i s)) =
        fst (DLQ_MarkReplayed fault (di_id item) now (dw_items s))"
    by (simp add: DLQService_Replay_def Let_def split: prod.split sum.split)
  then show ?thesis by blast
next
  case False
  then have "dw_items (fst (DLQService_Replay fault w task_id now uid i s)) = dw_items s"
    by (cases w) (auto simp: DLQService_Replay_def Let_def split: sum.split option.split)
  then show ?thesis by blast
qed

lemma DLQService_MarkHandled_items:
  "dw_items (fst (DLQService_MarkHandled fault now uid i s)) = dw_items s \<or>
   dw_items (fst (DLQService_MarkHandled fault now uid i s)) =
        fst (DLQ_MarkHandled fault i now (dw_items s))"
  by (auto simp: DLQService_MarkHandled_def split: sum.split prod.split)

text \<open>What the program does to the table, with any inputs and database errors.\<close>

inductive dlq_step :: "dlq_table \<Rightarrow> dlq_table \<Rightarrow> bool" where
  create: "requested_wf (cd_event params) \<Longrightarrow> dlq_step t (fst (DLQ_Create fault clock params t))"
| replay: "dlq_step (dw_items s) (dw_items (fst (DLQService_Replay fault w task_id now uid i s)))"
| handled: "dlq_step (dw_items s) (dw_items (fst (DLQService_MarkHandled fault now uid i s)))"

lemma dlq_step_inv: "dlq_step t u \<Longrightarrow> dlq_inv t \<Longrightarrow> dlq_inv u"
proof (induction rule: dlq_step.induct)
  case (create params t fault clock)
  then show ?case by (intro DLQ_Create_inv)
next
  case (replay s fault w task_id now uid i)
  then show ?case using DLQService_Replay_items [of fault w task_id now uid i s] DLQ_Mark_inv(1) by metis
next
  case (handled s fault now uid i)
  then show ?case using DLQService_MarkHandled_items [of fault now uid i s] DLQ_Mark_inv(2) by metis
qed

lemma dlq_steps_inv: "dlq_step\<^sup>*\<^sup>* t u \<Longrightarrow> dlq_inv t \<Longrightarrow> dlq_inv u"
  by (induction rule: rtranclp_induct) (auto intro: dlq_step_inv)


subsection \<open>Looking up and listing\<close>

lemma dlqModelToItem_ok:
  assumes "dlq_row_ok m"
  shows "\<exists>item. dlqModelToItem m = Inr item \<and> di_id item = dm_id m \<and> di_user_id item = dm_user_id m \<and>
           di_status item = dm_status m \<and> di_created_at item = dm_created_at m \<and>
           unmarshal_requested (dm_payload_json m) = Some (di_payload item) \<and>
           di_idempotency_key item = cr_idempotency_key (di_payload item)"
  using assms by (auto simp: dlqModelToItem_def dlq_row_ok_def split: option.splits)

lemma DLQ_Find_visible:
  assumes "dlq_inv t" "dlq_lookup t i = Some m" "dm_user_id m = uid \<or> uid \<le> 0"
  shows "DLQ_FindByUserIDAndID None uid i t = dlqModelToItem m"
proof -
  have "find_row (\<lambda>r. dm_id r = i \<and> (0 < uid \<longrightarrow> dm_user_id r = uid)) t = Some m"
  proof (cases "find_row (\<lambda>r. dm_id r = i \<and> (0 < uid \<longrightarrow> dm_user_id r = uid)) t")
    case None
    with assms dlq_lookup_in show ?thesis by (fastforce simp: find_row_None)
  next
    case (Some r)
    then have "r = m" using assms(1) find_row_SomeD [OF Some] dlq_lookup_in [OF assms(2)]
      by (metis dlq_inv_def wf_unique)
    with Some show ?thesis by simp
  qed
  then show ?thesis by (simp add: DLQ_FindByUserIDAndID_def)
qed

lemma DLQ_Find_foreign:
  assumes "dlq_inv t" "0 < uid" "\<And>m. dlq_lookup t i = Some m \<Longrightarrow> dm_user_id m \<noteq> uid"
  shows "DLQ_FindByUserIDAndID None uid i t = Inl (Sentinel ErrDLQItemNotFound)"
proof -
  have "\<not> (dm_id m = i \<and> dm_user_id m = uid)" if "m \<in> set (rows t)" for m
    using that assms(1,3) find_row_key [of dm_id t m i] by (auto simp: dlq_lookup_def dlq_inv_def wf_distinct)
  then have "find_row (\<lambda>r. dm_id r = i \<and> (0 < uid \<longrightarrow> dm_user_id r = uid)) t = None"
    using assms(2) by (auto simp: find_row_None)
  then show ?thesis by (simp add: DLQ_FindByUserIDAndID_def)
qed

lemma dlq_items_ok:
  "list_all dlq_row_ok ms \<Longrightarrow>
     \<exists>items. dlq_items ms = Inr items \<and> map di_id items = map dm_id ms \<and>
             map di_user_id items = map dm_user_id ms \<and> map di_status items = map dm_status ms \<and>
             map di_created_at items = map dm_created_at ms"
proof (induction ms)
  case (Cons m ms)
  then obtain items item where "dlq_items ms = Inr items" "dlqModelToItem m = Inr item"
    "map di_id items = map dm_id ms" "map di_user_id items = map dm_user_id ms"
    "map di_status items = map dm_status ms" "map di_created_at items = map dm_created_at ms"
    "di_id item = dm_id m" "di_user_id item = dm_user_id m" "di_status item = dm_status m"
    "di_created_at item = dm_created_at m"
    using dlqModelToItem_ok [of m] by auto
  then show ?case by simp
qed simp

lemma dlq_items_length: "dlq_items ms = Inr items \<Longrightarrow> length items = length ms"
  by (induction ms arbitrary: items) (auto split: sum.splits)

lemma DLQ_updateStatus_present:
  assumes "dlq_inv t" "dlq_lookup t i = Some m" "\<And>m. dm_id (f m) = dm_id m"
    and "\<And>m. dlq_row_ok m \<Longrightarrow> dlq_row_ok (f m)"
  defines "u \<equiv> update_rows (\<lambda>m. dm_id m = i) f t"
  shows "DLQ_updateStatus no_faults i f t = (u, dlqModelToItem (f m))"
    and "dlq_lookup u i = Some (f m)"
    and "j \<noteq> i \<Longrightarrow> dlq_lookup u j = dlq_lookup t j"
proof -
  have upd: "dlq_lookup u j = map_option (\<lambda>m. if dm_id m = i then f m else m) (dlq_lookup t j)" for j
    unfolding dlq_lookup_def u_def by (rule find_row_update_key) (rule assms(3))
  show 2: "dlq_lookup u i = Some (f m)"
    using upd [of i] assms(2) dlq_lookup_in [OF assms(2)] by simp
  show "dlq_lookup u j = dlq_lookup t j" if "j \<noteq> i"
    using upd [of j] that dlq_lookup_in [of t j] by (cases "dlq_lookup t j") auto
  have "dlq_inv u" unfolding u_def using assms(1,3,4) by (rule dlq_inv_update)
  from DLQ_Find_visible [OF this 2, of 0] assms(2)
  show "DLQ_updateStatus no_faults i f t = (u, dlqModelToItem (f m))"
    by (simp add: DLQ_updateStatus_def count_rows_0 DLQ_FindByID_def u_def dlq_lookup_def)
qed

lemma DLQ_Mark_present:
  assumes "dlq_inv t" "dlq_lookup t i = Some m"
  obtains t1 item1 t2 item2 m1 m2 where
    "DLQ_MarkReplayed no_faults i at t = (t1, Inr item1)" "dlq_lookup t1 i = Some m1"
    "m1 = m\<lparr>dm_status := DLQStatusReplayed, dm_updated_at := at, dm_replayed_at := Some at\<rparr>"
    "di_status item1 = DLQStatusReplayed"
    "DLQ_MarkHandled no_faults i at t = (t2, Inr item2)" "dlq_lookup t2 i = Some m2"
    "m2 = m\<lparr>dm_status := DLQStatusHandled, dm_updated_at := at, dm_handled_at := Some at\<rparr>"
    "di_status item2 = DLQStatusHandled"
    "\<And>j. j \<noteq> i \<Longrightarrow> dlq_lookup t1 j = dlq_lookup t j \<and> dlq_lookup t2 j = dlq_lookup t j"
proof -
  let ?f1 = "\<lambda>m. m\<lparr>dm_status := DLQStatusReplayed, dm_updated_at := at, dm_replayed_at := Some at\<rparr>"
  let ?f2 = "\<lambda>m. m\<lparr>dm_status := DLQStatusHandled, dm_updated_at := at, dm_handled_at := Some at\<rparr>"
  have ok: "dlq_row_ok (?f1 r)" "dlq_row_ok (?f2 r)" if "dlq_row_ok r" for r
    using that by (auto simp: dlq_row_ok_def split: option.splits)
  have m: "dlq_row_ok m" using assms dlq_lookup_in dlq_row_okD by blast
  note 1 = DLQ_updateStatus_present [OF assms, of ?f1] and 2 = DLQ_updateStatus_present [OF assms, of ?f2]
  obtain i1 i2 where "dlqModelToItem (?f1 m) = Inr i1" "di_status i1 = DLQStatusReplayed"
    "dlqModelToItem (?f2 m) = Inr i2" "di_status i2 = DLQStatusHandled"
    using dlqModelToItem_ok [OF ok(1) [OF m]] dlqModelToItem_ok [OF ok(2) [OF m]] by auto
  with 1 2 ok that show thesis by (simp add: DLQ_MarkReplayed_def DLQ_MarkHandled_def)
qed

lemma DLQService_Replay_foreign:
  assumes "dlq_inv (dw_items s)" "0 < uid"
    and "\<And>m. dlq_lookup (dw_items s) i = Some m \<Longrightarrow> dm_user_id m \<noteq> uid"
  shows "DLQService_Replay no_faults w task_id now uid i s =
           (s, Inl (Wrapf ''find dlq item: '' (Sentinel ErrDLQItemNotFound) ''''))"
    and "DLQService_MarkHandled no_faults now uid i s =
           (s, Inl (Wrapf ''find dlq item: '' (Sentinel ErrDLQItemNotFound) ''''))"
  using DLQ_Find_foreign [OF assms]
  by (simp_all add: DLQService_Replay_def DLQService_MarkHandled_def)


subsection \<open>Properties of the dead-letter queue\<close>

text \<open>
  Whatever is parked, replayed and closed, with any database errors, every row of the
  dead-letter table holds a payload that can be decoded, whose ids and attempt its columns
  repeat, and has the time marks of its status.
\<close>

theorem dlq_reachable_inv: "dlq_step\<^sup>*\<^sup>* empty_table t \<Longrightarrow> dlq_inv t"
  by (erule dlq_steps_inv) (rule dlq_inv_empty)

definition sample_dlq_params :: create_dlq_item_params where
  "sample_dlq_params = \<lparr>cd_event = sample_request\<lparr>cr_attempt := 3\<rparr>, cd_error_message = ''boom'', cd_created_at = 50\<rparr>"

definition sample_dlq_table :: dlq_table where
  "sample_dlq_table = fst (DLQ_Create no_faults 0 sample_dlq_params empty_table)"

lemma sample_dlq_wf: "requested_wf (cd_event sample_dlq_params)"
  by (simp add: sample_dlq_params_def sample_request_def requested_wf_def in_int64_def time_marshalable_def)

lemma sample_dlq_inv: "dlq_inv sample_dlq_table"
  unfolding sample_dlq_table_def by (rule DLQ_Create_inv [OF dlq_inv_empty sample_dlq_wf])

lemma sample_dlq_lookup:
  obtains m where "dlq_lookup sample_dlq_table 1 = Some m" "dm_user_id m = 7"
proof -
  obtain p where p: "marshal_requested (cd_event sample_dlq_params) = Some p"
    using marshal_requested_Some [OF sample_dlq_wf] by blast
  have "cd_created_at sample_dlq_params = 50" by (simp add: sample_dlq_params_def)
  then have t: "sample_dlq_table = insert_row (new_dlq_item sample_dlq_params p 50) empty_table"
    by (simp add: sample_dlq_table_def DLQ_Create_def p Let_def is_zero_time_def)
  show thesis
    by (rule that [of "new_dlq_item sample_dlq_params p 50 1"])
      (simp_all add: t dlq_lookup_def find_row_def empty_table_def insert_row_def new_dlq_item_def
        sample_dlq_params_def sample_request_def)
qed

theorem dlq_reachable_inv_witness: "dlq_inv sample_dlq_table"
proof -
  have "dlq_step empty_table sample_dlq_table"
    unfolding sample_dlq_table_def by (rule dlq_step.create [OF sample_dlq_wf])
  then show ?thesis by (intro dlq_reachable_inv r_into_rtranclp)
qed

text \<open>
  Replaying an item of the user publishes exactly one request: the parked request under
  the fresh task id, as a first attempt without delay, keyed by its idempotency key. The row
  becomes replayed and keeps its payload, and no other row changes.
\<close>

theorem dlq_replay_effect:
  assumes "dlq_inv (dw_items s)" "dlq_lookup (dw_items s) i = Some m" "dm_user_id m = uid"
  shows "\<exists>s' item ev p.
           DLQService_Replay no_faults Acked task_id now uid i s = (s', Inr item) \<and>
           dd_status item = DLQStatusReplayed \<and>
           unmarshal_requested (dm_payload_json m) = Some ev \<and>
           dw_log s' = dw_log s @ [\<lparr>ev_topic = TopicCollectionRequested,
                                    ev_key = dm_idempotency_key m, ev_value = p\<rparr>] \<and>
           unmarshal_requested p =
             Some (ev\<lparr>cr_task_id := task_id, cr_attempt := 0, cr_next_attempt_at := zero_time\<rparr>) \<and>
           dlq_lookup (dw_items s') i =
             Some (m\<lparr>dm_status := DLQStatusReplayed, dm_updated_at := now, dm_replayed_at := Some now\<rparr>) \<and>
           (\<forall>j. j = i \<or> dlq_lookup (dw_items s') j = dlq_lookup (dw_items s) j)"
proof -
  have ok: "dlq_row_ok m" "dm_id m = i" using assms dlq_lookup_in dlq_row_okD by blast+
  obtain ev where ev: "unmarshal_requested (dm_payload_json m) = Some ev" "requested_wf ev"
    "dm_idempotency_key m = cr_idempotency_key ev"
    using ok(1) by (rule dlq_row_ok_payload)
  obtain item where item: "dlqModelToItem m = Inr item" "di_id item = i" "di_payload item = ev"
    using dlqModelToItem_ok [OF ok(1)] ok(2) ev(1) by auto
  have find: "DLQ_FindByUserIDAndID None uid i (dw_items s) = Inr item"
    using DLQ_Find_visible [OF assms(1,2)] assms(3) item(1) by simp
  let ?e = "replay_event ev task_id"
  have wf: "requested_wf ?e"
    using ev(2) by (simp add: requested_wf_def replay_event_def in_int64_def time_marshalable_def)
  then obtain p where p: "marshal_requested ?e = Some p" using marshal_requested_Some by blast
  have readback: "unmarshal_requested p = Some ?e" by (rule unmarshal_marshal_requested [OF wf p])
  obtain t' item' m' where mark: "DLQ_MarkReplayed no_faults i now (dw_items s) = (t', Inr item')"
    "dlq_lookup t' i = Some m'"
    "m' = m\<lparr>dm_status := DLQStatusReplayed, dm_updated_at := now, dm_replayed_at := Some now\<rparr>"
    "di_status item' = DLQStatusReplayed" "\<And>j. j \<noteq> i \<Longrightarrow> dlq_lookup t' j = dlq_lookup (dw_items s) j"
    by (rule DLQ_Mark_present [OF assms(1,2), of now]) blast
  have "DLQService_Replay no_faults Acked task_id now uid i s =
      (s\<lparr>dw_log := dw_log s @ [\<lparr>ev_topic = TopicCollectionRequested,
           ev_key = dm_idempotency_key m, ev_value = p\<rparr>], dw_items := t'\<rparr>, Inr (toDLQItemDTO item'))"
    using find item(2,3) p mark(1) ev(3) by (simp add: DLQService_Replay_def Let_def) (simp add: replay_event_def)
  with mark ev(1) readback show ?thesis by (auto simp: toDLQItemDTO_def replay_event_def)
qed

theorem dlq_replay_effect_witness:
  "\<exists>s' item. DLQService_Replay no_faults Acked ''t2'' 90 7 1 \<lparr>dw_items = sample_dlq_table, dw_log = []\<rparr> =
      (s', Inr item) \<and> dd_status item = ''replayed'' \<and> length (dw_log s') = 1"
proof -
  obtain m where "dlq_lookup sample_dlq_table 1 = Some m" "dm_user_id m = 7" by (rule sample_dlq_lookup)
  with dlq_replay_effect [of "\<lparr>dw_items = sample_dlq_table, dw_log = []\<rparr>" 1 m 7 "''t2''" 90] sample_dlq_inv
  show ?thesis by fastforce
qed

text \<open>
  Users do not reach each other's dead letters: for an item that is missing or another
  user's, replaying and closing answer 404 and change neither the table nor the log, and a
  listing holds only the caller's own items, at most 100 of them, with the status asked for.
\<close>

theorem dlq_user_isolation:
  assumes "dlq_inv (dw_items s)" "0 < uid" "hr_user_id req = Some uid"
    and "hr_param req ''id'' = fmt_int i" "in_int64 i"
    and "\<And>m. dlq_lookup (dw_items s) i = Some m \<Longrightarrow> dm_user_id m \<noteq> uid"
  shows "DLQHandler_Replay no_faults w task_id now req s =
           (s, response_Error 404 ''dlq_item_not_found'' ''dlq item not found'') \<and>
         DLQHandler_MarkHandled no_faults now req s =
           (s, response_Error 404 ''dlq_item_not_found'' ''dlq item not found'') \<and>
         (\<exists>items cnt. DLQ_List no_faults \<lparr>ld_user_id = uid, ld_status = st, ld_limit = l, ld_offset = n\<rparr>
              (dw_items s) = Inr (items, cnt) \<and> length items \<le> 100 \<and>
            (\<forall>item. item \<notin> set items \<or> (di_user_id item = uid \<and> (st = '''' \<or> di_status item = st))))"
proof (intro conjI)
  let ?j = "if i \<le> 0 then 0 else i"
  have "dlq_lookup (dw_items s) ?j = None" if "i \<le> 0"
    using assms(1) that by (fastforce simp: dlq_lookup_def find_row_None dlq_inv_def wf_table_def)
  then have "\<And>m. dlq_lookup (dw_items s) ?j = Some m \<Longrightarrow> dm_user_id m \<noteq> uid"
    using assms(6) by (cases "i \<le> 0") auto
  note foreign = DLQService_Replay_foreign [OF assms(1,2) this]
  have p: "parseIDParam (hr_param req ''id'') = (?j, None)" "requestctx_UserID req = (uid, True)"
    using assms(3-5) by (simp_all add: parseIDParam_fmt requestctx_UserID_def)
  show "DLQHandler_Replay no_faults w task_id now req s =
           (s, response_Error 404 ''dlq_item_not_found'' ''dlq item not found'')"
    using foreign(1) p by (simp add: DLQHandler_Replay_def dlq_handleError_def)
  show "DLQHandler_MarkHandled no_faults now req s =
           (s, response_Error 404 ''dlq_item_not_found'' ''dlq item not found'')"
    using foreign(2) p by (simp add: DLQHandler_MarkHandled_def dlq_handleError_def)
next
  let ?params = "\<lparr>ld_user_id = uid, ld_status = st, ld_limit = l, ld_offset = n\<rparr>"
  let ?sel = "dlq_newest_first (select_rows (dlq_selected ?params) (dw_items s))"
  let ?ms = "page (dlq_normalizeLimit l) (dlq_normalizeOffset n) ?sel"
  have sub: "set ?ms \<subseteq> {m \<in> set (rows (dw_items s)). dlq_selected ?params m}"
    using dlq_page.page_subset [of l n ?sel] by (auto simp: dlq_newest_first_def select_rows_def)
  then have "list_all dlq_row_ok ?ms" using assms(1) by (auto simp: list_all_iff dlq_row_okD)
  then obtain items where items: "dlq_items ?ms = Inr items" "map di_user_id items = map dm_user_id ?ms"
    "map di_status items = map dm_status ?ms"
    using dlq_items_ok by blast
  have "di_user_id item = uid \<and> (st = '''' \<or> di_status item = st)" if "item \<in> set items" for item
  proof -
    obtain k where k: "k < length items" "item = items ! k" using \<open>item \<in> set items\<close> by (metis in_set_conv_nth)
    moreover have "length items = length ?ms" using dlq_items_length [OF items(1)] .
    ultimately have "di_user_id item = dm_user_id (?ms ! k)" "di_status item = dm_status (?ms ! k)"
      "?ms ! k \<in> set ?ms"
      using items(2,3) by (metis nth_map nth_mem)+
    with sub assms(2) show ?thesis by (auto simp: dlq_selected_def)
  qed
  moreover have "length items \<le> 100"
    using dlq_page.length_page [of l n ?sel] dlq_items_length [OF items(1)] by simp
  ultimately show "\<exists>items cnt. DLQ_List no_faults ?params (dw_items s) = Inr (items, cnt) \<and> length items \<le> 100 \<and>
      (\<forall>item. item \<notin> set items \<or> (di_user_id item = uid \<and> (st = '''' \<or> di_status item = st)))"
    using items(1) by (intro exI [of _ items]) (auto simp: DLQ_List_def Let_def)
qed

definition sample_dlq_http :: "int \<Rightarrow> string \<Rightarrow> http_request" where
  "sample_dlq_http uid ident =
     \<lparr>hr_method = ''POST'', hr_header = (\<lambda>_. []), hr_param = (\<lambda>_. ident), hr_query = (\<lambda>_. []),
      hr_user_id = Some uid, hr_request_id = None\<rparr>"

theorem dlq_user_isolation_witness:
  "DLQHandler_Replay no_faults Acked ''t2'' 90 (sample_dlq_http 8 (fmt_int 1))
      \<lparr>dw_items = sample_dlq_table, dw_log = []\<rparr> =
    (\<lparr>dw_items = sample_dlq_table, dw_log = []\<rparr>,
     response_Error 404 ''dlq_item_not_found'' ''dlq item not found'')"
proof -
  obtain m where "dlq_lookup sample_dlq_table 1 = Some m" "dm_user_id m = 7" by (rule sample_dlq_lookup)
  then show ?thesis
    using dlq_user_isolation [of "\<lparr>dw_items = sample_dlq_table, dw_log = []\<rparr>" 8
        "sample_dlq_http 8 (fmt_int 1)" 1 Acked "''t2''" 90] sample_dlq_inv
    by (simp add: sample_dlq_http_def in_int64_def)
qed

text \<open>
  An id that is not positive is not answered with 400: \<open>parseDLQIDParam\<close> returns the nil
  error of the successful parse together with 0, so the request goes on to the lookup of
  item 0 and is answered 404; only ids that are no numbers or out of range get 400.
\<close>

theorem dlq_nonpositive_id_not_rejected:
  assumes "in_int64 i" "i \<le> 0" "dlq_inv (dw_items s)" "hr_user_id req = Some uid" "0 < uid"
    and "hr_param req ''id'' = fmt_int i"
  shows "rs_status (snd (DLQHandler_Replay no_faults w task_id now req s)) = 404"
proof -
  have "dlq_lookup (dw_items s) 0 = None"
    using assms(3) by (fastforce simp: dlq_lookup_def find_row_None dlq_inv_def wf_table_def)
  then have "DLQService_Replay no_faults w task_id now uid 0 s =
      (s, Inl (Wrapf ''find dlq item: '' (Sentinel ErrDLQItemNotFound) ''''))"
    using assms by (intro DLQService_Replay_foreign) auto
  then show ?thesis
    using assms by (simp add: DLQHandler_Replay_def parseIDParam_fmt requestctx_UserID_def
        dlq_handleError_def response_Error_def)
qed

theorem dlq_nonpositive_id_not_rejected_witness:
  "rs_status (snd (DLQHandler_Replay no_faults Acked ''t2'' 90 (sample_dlq_http 7 (fmt_int (- 5)))
      \<lparr>dw_items = sample_dlq_table, dw_log = []\<rparr>)) = 404"
  by (rule dlq_nonpositive_id_not_rejected [of "- 5" _ _ 7])
    (simp_all add: in_int64_def sample_dlq_inv sample_dlq_http_def)

end
