(* ===== verification/Outbox.thy ===== *)
theory Outbox
  imports Job_Events Job_Execution "HOL-Library.Product_Lexorder" "HOL-Library.Multiset"
begin

section \<open>The transactional outbox\<close>

text \<open>
  Requests for collection are first stored in the table \<open>outbox_events\<close> and published by a
  dispatcher, so that a request survives a broker that is down: the repository
  (\<open>outbox_repository.go\<close>), the dispatcher and the producer (\<open>outbox.go\<close>) of
  \<open>internal/module/collectionjob\<close>. Several dispatchers run against one table.
\<close>

definition OutboxStatusPending :: string where [simp]: "OutboxStatusPending = ''pending''"
definition OutboxStatusProcessing :: string where [simp]: "OutboxStatusProcessing = ''processing''"
definition OutboxStatusSent :: string where [simp]: "OutboxStatusSent = ''sent''"
definition OutboxStatusFailed :: string where [simp]: "OutboxStatusFailed = ''failed''"

record outbox_event_model =
  om_id :: int
  om_topic :: string
  om_event_key :: string
  om_payload_json :: payload
  om_status :: string
  om_attempts :: int
  om_next_attempt_at :: time
  om_last_error :: string
  om_claim_id :: string
  om_locked_until :: "time option"
  om_created_at :: time
  om_updated_at :: time
  om_sent_at :: "time option"

record outbox_event =
  ox_id :: int
  ox_topic :: string
  ox_key :: string
  ox_value :: payload
  ox_status :: string
  ox_attempts :: int
  ox_next_attempt_at :: time
  ox_last_error :: string
  ox_claim_id :: string
  ox_locked_until :: time
  ox_created_at :: time
  ox_updated_at :: time
  ox_sent_at :: "time option"

text \<open>The payload of a new event is bytes already, or a value still to be marshalled.\<close>

datatype outbox_payload = RawPayload payload | RequestPayload collection_requested

record create_outbox_event_params =
  co_topic :: string
  co_key :: string
  co_payload :: outbox_payload
  co_created_at :: time

type_synonym outbox_table = "outbox_event_model table"


subsection \<open>The repository\<close>

definition outboxModelToEvent :: "outbox_event_model \<Rightarrow> outbox_event" where
  "outboxModelToEvent m =
     \<lparr>ox_id = om_id m, ox_topic = om_topic m, ox_key = om_event_key m, ox_value = om_payload_json m,
      ox_status = om_status m, ox_attempts = om_attempts m,
      ox_next_attempt_at = om_next_attempt_at m, ox_last_error = om_last_error m,
      ox_claim_id = om_claim_id m, ox_locked_until = outboxLockedUntil (om_locked_until m),
      ox_created_at = om_created_at m, ox_updated_at = om_updated_at m, ox_sent_at = om_sent_at m\<rparr>"

definition activeOutboxStatuses :: "string list" where
  "activeOutboxStatuses = [OutboxStatusPending, OutboxStatusFailed, OutboxStatusProcessing]"

fun isActiveOutboxStatus_in :: "string \<Rightarrow> string list \<Rightarrow> bool" where
  "isActiveOutboxStatus_in status [] \<longleftrightarrow> False"
| "isActiveOutboxStatus_in status (activeStatus # rest) \<longleftrightarrow>
     (if status = activeStatus then True else isActiveOutboxStatus_in status rest)"

definition isActiveOutboxStatus :: "string \<Rightarrow> bool" where
  "isActiveOutboxStatus status \<longleftrightarrow> isActiveOutboxStatus_in status activeOutboxStatuses"

definition marshalOutboxPayload :: "outbox_payload \<Rightarrow> payload result" where
  "marshalOutboxPayload p =
     (case p of
        RawPayload bytes \<Rightarrow> Inr bytes
      | RequestPayload ev \<Rightarrow>
          (case marshal_requested ev of
             None \<Rightarrow> Inl (Wrapf ''marshal outbox payload: '' marshal_time_error '''')
           | Some data \<Rightarrow> Inr data))"

definition active_with :: "string \<Rightarrow> string \<Rightarrow> outbox_event_model \<Rightarrow> bool" where
  "active_with topic key m \<longleftrightarrow>
     om_topic m = topic \<and> om_event_key m = key \<and> isActiveOutboxStatus (om_status m)"

definition findActiveByTopicKey ::
  "go_error option \<Rightarrow> string \<Rightarrow> string \<Rightarrow> outbox_table \<Rightarrow> (outbox_event \<times> bool) option result" where
  "findActiveByTopicKey fault topic key t =
     (case fault of
        Some e \<Rightarrow> Inl (Wrapf ''find active outbox event: '' e '''')
      | None \<Rightarrow> Inr (map_option (\<lambda>m. (outboxModelToEvent m, True)) (find_row (active_with topic key) t)))"

definition new_outbox_event ::
  "create_outbox_event_params \<Rightarrow> payload \<Rightarrow> time \<Rightarrow> int \<Rightarrow> outbox_event_model" where
  "new_outbox_event params payload now i =
     \<lparr>om_id = i, om_topic = co_topic params, om_event_key = co_key params,
      om_payload_json = payload, om_status = OutboxStatusPending, om_attempts = 0,
      om_next_attempt_at = now, om_last_error = '''', om_claim_id = '''', om_locked_until = None,
      om_created_at = now, om_updated_at = now, om_sent_at = None\<rparr>"

text \<open>
  The insert statement meets the partial unique index on topic and key of the active rows.
\<close>

definition outbox_insert ::
  "go_error option \<Rightarrow> create_outbox_event_params \<Rightarrow> payload \<Rightarrow> time \<Rightarrow> outbox_table \<Rightarrow>
     outbox_table \<times> outbox_event_model result" where
  "outbox_insert fault params payload now t =
     (case fault of
        Some e \<Rightarrow> (t, Inl e)
      | None \<Rightarrow>
          if find_row (active_with (co_topic params) (co_key params)) t \<noteq> None
          then (burn_seq t, Inl (Sentinel GormErrDuplicatedKey))
          else (insert_row (new_outbox_event params payload now) t,
                Inr (new_outbox_event params payload now (seq t + 1))))"

text \<open>
  \<open>Create\<close> is several statements and no transaction: \<open>env1\<close> is what other processes commit
  between its first lookup and the insert, \<open>env2\<close> between a refused insert and the second
  lookup. \<open>clock\<close> is \<open>time.Now()\<close>, used when the caller gave no creation time.
\<close>

datatype create_stmt = OutboxFind | OutboxInsert | OutboxRefind

definition Outbox_Create ::
  "create_stmt faults \<Rightarrow> (outbox_table \<Rightarrow> outbox_table) \<Rightarrow> (outbox_table \<Rightarrow> outbox_table) \<Rightarrow> time \<Rightarrow>
     create_outbox_event_params \<Rightarrow> outbox_table \<Rightarrow> outbox_table \<times> outbox_event result" where
  "Outbox_Create fault env1 env2 clock params t =
     (case findActiveByTopicKey (fault OutboxFind) (co_topic params) (co_key params) t of
        Inl e \<Rightarrow> (t, Inl e)
      | Inr (Some (existing, _)) \<Rightarrow> (t, Inr existing)
      | Inr None \<Rightarrow>
        (case marshalOutboxPayload (co_payload params) of
           Inl e \<Rightarrow> (t, Inl e)
         | Inr payload \<Rightarrow>
           (let now = (if is_zero_time (co_created_at params) then clock else co_created_at params) in
            case outbox_insert (fault OutboxInsert) params payload now (env1 t) of
              (t1, Inr model) \<Rightarrow> (t1, Inr (outboxModelToEvent model))
            | (t1, Inl err) \<Rightarrow>
                if errors_is err GormErrDuplicatedKey then
                  (let t2 = env2 t1 in
                   case findActiveByTopicKey (fault OutboxRefind) (co_topic params) (co_key params) t2 of
                     Inl findErr \<Rightarrow> (t2, Inl findErr)
                   | Inr (Some (existing, _)) \<Rightarrow> (t2, Inr existing)
                   | Inr None \<Rightarrow> (t2, Inl (Wrapf ''create outbox event: '' err '''')))
                else (t1, Inl (Wrapf ''create outbox event: '' err '''')))))"

definition outbox_order :: "outbox_event_model list \<Rightarrow> outbox_event_model list" where
  "outbox_order ms = sort_key (\<lambda>m. (om_next_attempt_at m, om_id m)) ms"

definition outbox_limit :: "int \<Rightarrow> int" where
  "outbox_limit limit = (if limit \<le> 0 then 100 else limit)"

datatype list_stmt = OutboxCount | OutboxSelect

definition outbox_due :: "time \<Rightarrow> outbox_event_model \<Rightarrow> bool" where
  "outbox_due now m \<longleftrightarrow>
     om_status m \<in> {OutboxStatusPending, OutboxStatusFailed} \<and> om_next_attempt_at m \<le> now"

definition Outbox_ListReady ::
  "list_stmt faults \<Rightarrow> time \<Rightarrow> int \<Rightarrow> outbox_table \<Rightarrow> (outbox_event list \<times> int) result" where
  "Outbox_ListReady fault now limit t =
     (case fault OutboxCount of
        Some e \<Rightarrow> Inl (Wrapf ''count ready outbox events: '' e '''')
      | None \<Rightarrow>
        (case fault OutboxSelect of
           Some e \<Rightarrow> Inl (Wrapf ''list ready outbox events: '' e '''')
         | None \<Rightarrow>
             Inr (map outboxModelToEvent
                    (take (nat (outbox_limit limit)) (outbox_order (select_rows (outbox_due now) t))),
                  count_rows (outbox_due now) t)))"

definition outboxReadyForClaimFilter :: "time \<Rightarrow> outbox_event_model \<Rightarrow> bool" where
  "outboxReadyForClaimFilter now m \<longleftrightarrow>
     outbox_due now m \<or>
     om_status m = OutboxStatusProcessing \<and>
       (case om_locked_until m of None \<Rightarrow> False | Some l \<Rightarrow> l \<le> now)"

definition outbox_claimed ::
  "string \<Rightarrow> time \<Rightarrow> time \<Rightarrow> outbox_event_model \<Rightarrow> outbox_event_model" where
  "outbox_claimed claim_id lockedUntil now m =
     m\<lparr>om_status := OutboxStatusProcessing, om_claim_id := claim_id,
       om_locked_until := Some lockedUntil, om_updated_at := now\<rparr>"

text \<open>\<open>busy\<close> are the ids of the rows that other transactions hold locks on: they are skipped.\<close>

datatype claim_ready_stmt = ReadyCount | ReadySelect | ReadyUpdate | ReadyReload | ReadyCommit

definition ready_models :: "(int \<Rightarrow> bool) \<Rightarrow> time \<Rightarrow> int \<Rightarrow> outbox_table \<Rightarrow> outbox_event_model list" where
  "ready_models busy now limit t =
     take (nat (outbox_limit limit))
       (outbox_order (select_rows (\<lambda>m. outboxReadyForClaimFilter now m \<and> \<not> busy (om_id m)) t))"

definition Outbox_ClaimReady ::
  "claim_ready_stmt faults \<Rightarrow> (int \<Rightarrow> bool) \<Rightarrow> time \<Rightarrow> int \<Rightarrow> string \<Rightarrow> time \<Rightarrow> outbox_table \<Rightarrow>
     outbox_table \<times> (outbox_event list \<times> int) result" where
  "Outbox_ClaimReady fault busy now limit claim_id lockedUntil t =
     (if claim_id = '''' then (t, Inl (Plain ''claim ready outbox events: empty claim id''))
      else case fault ReadyCount of
        Some e \<Rightarrow> (t, Inl (Wrapf ''count claimable outbox events: '' e ''''))
      | None \<Rightarrow>
        (case fault ReadySelect of
           Some e \<Rightarrow> (t, Inl (Wrapf ''claim ready outbox events: '' e ''''))
         | None \<Rightarrow>
           (let cnt = count_rows (outboxReadyForClaimFilter now) t;
                models = ready_models busy now limit t in
            if models = [] then
              (case fault ReadyCommit of Some e \<Rightarrow> (t, Inl e) | None \<Rightarrow> (t, Inr ([], cnt)))
            else
              (let ids = map om_id models in
               case fault ReadyUpdate of
                 Some e \<Rightarrow> (t, Inl (Wrapf ''mark outbox events processing: '' e ''''))
               | None \<Rightarrow>
                 (let t' = update_rows (\<lambda>m. om_id m \<in> set ids) (outbox_claimed claim_id lockedUntil now) t in
                  case fault ReadyReload of
                    Some e \<Rightarrow> (t, Inl e)
                  | None \<Rightarrow>
                    (case fault ReadyCommit of
                       Some e \<Rightarrow> (t, Inl e)
                     | None \<Rightarrow>
                         (t', Inr (map outboxModelToEvent
                                     (outbox_order (select_rows (\<lambda>m. om_id m \<in> set ids) t')), cnt))))))))"

definition Outbox_FindByID :: "go_error option \<Rightarrow> int \<Rightarrow> outbox_table \<Rightarrow> outbox_event result" where
  "Outbox_FindByID fault i t =
     (case fault of
        Some e \<Rightarrow> Inl (Wrapf ''find outbox event: '' e '''')
      | None \<Rightarrow>
        (case find_row (\<lambda>m. om_id m = i) t of
           None \<Rightarrow> Inl (Sentinel ErrOutboxEventNotFound)
         | Some m \<Rightarrow> Inr (outboxModelToEvent m)))"

definition outbox_updateClaimed ::
  "mark_stmt faults \<Rightarrow> int \<Rightarrow> string \<Rightarrow> (outbox_event_model \<Rightarrow> outbox_event_model) \<Rightarrow> outbox_table \<Rightarrow>
     outbox_table \<times> outbox_event result" where
  "outbox_updateClaimed fault i claim_id updates t =
     (case fault MarkUpdate of
        Some e \<Rightarrow> (t, Inl (Wrapf ''update outbox event: '' e ''''))
      | None \<Rightarrow>
        (let P = (\<lambda>m. om_id m = i \<and> om_status m = OutboxStatusProcessing \<and> om_claim_id m = claim_id) in
         if count_rows P t = 0 then (t, Inl (Sentinel ErrOutboxClaimLost))
         else (let t' = update_rows P updates t in (t', Outbox_FindByID (fault MarkReload) i t'))))"

definition sent_updates :: "time \<Rightarrow> outbox_event_model \<Rightarrow> outbox_event_model" where
  "sent_updates sentAt m =
     m\<lparr>om_status := OutboxStatusSent, om_sent_at := Some sentAt, om_updated_at := sentAt,
       om_last_error := '''', om_claim_id := '''', om_locked_until := None\<rparr>"

definition outbox_failed_updates ::
  "int \<Rightarrow> time \<Rightarrow> string \<Rightarrow> outbox_event_model \<Rightarrow> outbox_event_model" where
  "outbox_failed_updates attempts nextAttemptAt lastError m =
     m\<lparr>om_status := OutboxStatusFailed, om_attempts := attempts, om_next_attempt_at := nextAttemptAt,
       om_last_error := lastError, om_updated_at := nextAttemptAt, om_claim_id := '''',
       om_locked_until := None\<rparr>"

definition Outbox_MarkSent ::
  "mark_stmt faults \<Rightarrow> int \<Rightarrow> string \<Rightarrow> time \<Rightarrow> outbox_table \<Rightarrow> outbox_table \<times> outbox_event result" where
  "Outbox_MarkSent fault i claim_id sentAt t = outbox_updateClaimed fault i claim_id (sent_updates sentAt) t"

definition Outbox_MarkFailed ::
  "mark_stmt faults \<Rightarrow> int \<Rightarrow> string \<Rightarrow> int \<Rightarrow> time \<Rightarrow> string \<Rightarrow> outbox_table \<Rightarrow>
     outbox_table \<times> outbox_event result" where
  "Outbox_MarkFailed fault i claim_id attempts nextAttemptAt lastError t =
     outbox_updateClaimed fault i claim_id (outbox_failed_updates attempts nextAttemptAt lastError) t"


subsection \<open>The dispatcher\<close>

record outbox_dispatcher =
  od_batch_size :: int
  od_backoff :: duration
  od_interval :: duration
  od_claim_ttl :: duration
  od_observed :: bool

definition WithOutboxBatchSize :: "int \<Rightarrow> outbox_dispatcher \<Rightarrow> outbox_dispatcher" where
  "WithOutboxBatchSize n d = (if n > 0 then d\<lparr>od_batch_size := n\<rparr> else d)"

definition WithOutboxBackoff :: "duration \<Rightarrow> outbox_dispatcher \<Rightarrow> outbox_dispatcher" where
  "WithOutboxBackoff b d = (if b > 0 then d\<lparr>od_backoff := b\<rparr> else d)"

definition WithOutboxInterval :: "duration \<Rightarrow> outbox_dispatcher \<Rightarrow> outbox_dispatcher" where
  "WithOutboxInterval i d = (if i > 0 then d\<lparr>od_interval := i\<rparr> else d)"

definition WithOutboxClaimTTL :: "duration \<Rightarrow> outbox_dispatcher \<Rightarrow> outbox_dispatcher" where
  "WithOutboxClaimTTL ttl d = (if ttl > 0 then d\<lparr>od_claim_ttl := ttl\<rparr> else d)"

definition WithOutboxObserver :: "bool \<Rightarrow> outbox_dispatcher \<Rightarrow> outbox_dispatcher" where
  "WithOutboxObserver given d = d\<lparr>od_observed := given\<rparr>"

definition NewOutboxDispatcher :: "(outbox_dispatcher \<Rightarrow> outbox_dispatcher) list \<Rightarrow> outbox_dispatcher" where
  "NewOutboxDispatcher opts =
     fold (\<lambda>opt d. opt d) opts
       \<lparr>od_batch_size = 100, od_backoff = minute, od_interval = second, od_claim_ttl = 5 * minute,
        od_observed = False\<rparr>"

type_synonym observations = "(string \<times> string) list"

record outbox_world =
  ow_table :: outbox_table
  ow_log :: event_log
  ow_seen :: observations

definition outbox_observeJob :: "outbox_dispatcher \<Rightarrow> string \<Rightarrow> string \<Rightarrow> outbox_world \<Rightarrow> outbox_world" where
  "outbox_observeJob d topic status s =
     (if od_observed d then s\<lparr>ow_seen := ow_seen s @ [(topic, status)]\<rparr> else s)"

text \<open>
  What happens around a dispatcher's round, for the event with a given id: the outcome of
  the write, the database's answers to the mark, and what other processes do in between.
\<close>

record dispatch_env =
  de_write :: "int \<Rightarrow> write_outcome"
  de_mark :: "int \<Rightarrow> mark_stmt faults"
  de_other :: "int \<Rightarrow> outbox_world \<Rightarrow> outbox_world"

fun dispatch_events ::
  "outbox_dispatcher \<Rightarrow> dispatch_env \<Rightarrow> string \<Rightarrow> time \<Rightarrow> outbox_event list \<Rightarrow> outbox_world \<Rightarrow>
     outbox_world \<times> unit result" where
  "dispatch_events d env claim_id now [] s = (s, Inr ())"
| "dispatch_events d env claim_id now (x # xs) s =
     (case event_write (de_write env (ox_id x))
             \<lparr>ev_topic = ox_topic x, ev_key = ox_key x, ev_value = ox_value x\<rparr> (ow_log s) of
        (log, Inl err) \<Rightarrow>
          (let s1 = de_other env (ox_id x) (outbox_observeJob d (ox_topic x) ''failed'' (s\<lparr>ow_log := log\<rparr>));
               nextAttempts = wrap64 (ox_attempts x + 1);
               nextAttemptAt = time_add now (retryBackoff (od_backoff d) nextAttempts) in
           case Outbox_MarkFailed (de_mark env (ox_id x)) (ox_id x) claim_id nextAttempts nextAttemptAt
                  (error_text err) (ow_table s1) of
             (t, Inl e) \<Rightarrow> (s1\<lparr>ow_table := t\<rparr>, Inl (Wrapf ''mark outbox failed: '' e ''''))
           | (t, Inr _) \<Rightarrow> dispatch_events d env claim_id now xs (s1\<lparr>ow_table := t\<rparr>))
      | (log, Inr _) \<Rightarrow>
          (let s1 = de_other env (ox_id x) (outbox_observeJob d (ox_topic x) ''success'' (s\<lparr>ow_log := log\<rparr>)) in
           case Outbox_MarkSent (de_mark env (ox_id x)) (ox_id x) claim_id now (ow_table s1) of
             (t, Inl e) \<Rightarrow> (s1\<lparr>ow_table := t\<rparr>, Inl (Wrapf ''mark outbox sent: '' e ''''))
           | (t, Inr _) \<Rightarrow> dispatch_events d env claim_id now xs (s1\<lparr>ow_table := t\<rparr>)))"

definition DispatchReady ::
  "outbox_dispatcher \<Rightarrow> claim_ready_stmt faults \<Rightarrow> (int \<Rightarrow> bool) \<Rightarrow> dispatch_env \<Rightarrow> string \<Rightarrow> time \<Rightarrow>
     outbox_world \<Rightarrow> outbox_world \<times> unit result" where
  "DispatchReady d fault busy env claim_id now s =
     (case Outbox_ClaimReady fault busy now (od_batch_size d) claim_id
             (time_add now (od_claim_ttl d)) (ow_table s) of
        (t, Inl e) \<Rightarrow> (s\<lparr>ow_table := t\<rparr>, Inl (Wrapf ''claim ready outbox events: '' e ''''))
      | (t, Inr (events, _)) \<Rightarrow> dispatch_events d env claim_id now events (s\<lparr>ow_table := t\<rparr>))"

text \<open>
  \<open>Run\<close> dispatches once per tick until its context ends; the errors of a round are logged.
  A list of rounds stands for the ticks.
\<close>

record dispatch_round =
  dr_fault :: "claim_ready_stmt faults"
  dr_busy :: "int \<Rightarrow> bool"
  dr_env :: dispatch_env
  dr_claim_id :: string
  dr_now :: time

fun OutboxDispatcher_Run ::
  "outbox_dispatcher \<Rightarrow> dispatch_round list \<Rightarrow> outbox_world \<Rightarrow> outbox_world" where
  "OutboxDispatcher_Run d [] s = s"
| "OutboxDispatcher_Run d (r # rs) s =
     OutboxDispatcher_Run d rs
       (fst (DispatchReady d (dr_fault r) (dr_busy r) (dr_env r) (dr_claim_id r) (dr_now r) s))"


subsection \<open>The producer\<close>

text \<open>\<open>now1\<close> and \<open>now2\<close> are the two readings of the clock.\<close>

definition OutboxProducer_RequestCollection ::
  "create_stmt faults \<Rightarrow> (outbox_table \<Rightarrow> outbox_table) \<Rightarrow> (outbox_table \<Rightarrow> outbox_table) \<Rightarrow> time \<Rightarrow>
     string \<Rightarrow> time \<Rightarrow> time \<Rightarrow> collect_source_request \<Rightarrow> outbox_table \<Rightarrow>
     outbox_table \<times> request_collection_response result" where
  "OutboxProducer_RequestCollection fault env1 env2 clock task_id now1 now2 req t =
     (let key = idempotencyKey (req_source_id req);
          payload = new_requested task_id req now1 in
      case Outbox_Create fault env1 env2 clock
             \<lparr>co_topic = TopicCollectionRequested, co_key = key, co_payload = RequestPayload payload,
              co_created_at = now2\<rparr> t of
        (t', Inl e) \<Rightarrow> (t', Inl (Wrapf ''create collection requested outbox event: '' e ''''))
      | (t', Inr outboxEvent) \<Rightarrow>
        (case unmarshal_requested (ox_value outboxEvent) of
           None \<Rightarrow> (t', Inl (Wrapf ''decode collection requested outbox event: '' (Plain ''json'') ''''))
         | Some queued \<Rightarrow>
             (t', Inr \<lparr>rcr_task_id = (if cr_task_id queued \<noteq> '''' then cr_task_id queued else task_id),
                       rcr_source_id = req_source_id req, rcr_status = RunStatusQueued\<rparr>)))"

definition OutboxProducer_CollectSource ::
  "create_stmt faults \<Rightarrow> (outbox_table \<Rightarrow> outbox_table) \<Rightarrow> (outbox_table \<Rightarrow> outbox_table) \<Rightarrow> time \<Rightarrow>
     string \<Rightarrow> time \<Rightarrow> time \<Rightarrow> collect_source_request \<Rightarrow> outbox_table \<Rightarrow>
     outbox_table \<times> collect_source_response result" where
  "OutboxProducer_CollectSource fault env1 env2 clock task_id now1 now2 req t =
     bind_st (OutboxProducer_RequestCollection fault env1 env2 clock task_id now1 now2 req t)
       (\<lambda>t r. (t, Inr (queued_response r)))"

subsection \<open>The invariant of the table\<close>

definition outbox_active :: "outbox_event_model \<Rightarrow> bool" where
  "outbox_active m \<longleftrightarrow> isActiveOutboxStatus (om_status m)"

definition outbox_address :: "outbox_event_model \<Rightarrow> string \<times> string" where
  "outbox_address m = (om_topic m, om_event_key m)"

definition outbox_row_ok :: "outbox_event_model \<Rightarrow> bool" where
  "outbox_row_ok m \<longleftrightarrow>
     om_status m \<in> {OutboxStatusPending, OutboxStatusProcessing, OutboxStatusSent, OutboxStatusFailed} \<and>
     (om_status m = OutboxStatusProcessing \<longleftrightarrow> om_claim_id m \<noteq> '''') \<and>
     (om_status m = OutboxStatusProcessing \<longleftrightarrow> om_locked_until m \<noteq> None) \<and>
     (om_status m = OutboxStatusSent \<longleftrightarrow> om_sent_at m \<noteq> None)"

definition outbox_inv :: "outbox_table \<Rightarrow> bool" where
  "outbox_inv t \<longleftrightarrow>
     wf_table om_id t \<and> list_all outbox_row_ok (rows t) \<and>
     distinct (map outbox_address (filter outbox_active (rows t)))"

definition outbox_lookup :: "outbox_table \<Rightarrow> int \<Rightarrow> outbox_event_model option" where
  "outbox_lookup t i = find_row (\<lambda>m. om_id m = i) t"

definition outbox_held :: "outbox_event_model \<Rightarrow> string \<Rightarrow> bool" where
  "outbox_held m c \<longleftrightarrow> om_status m = OutboxStatusProcessing \<and> om_claim_id m = c"

lemma isActiveOutboxStatus_iff:
  "isActiveOutboxStatus st \<longleftrightarrow> st = ''pending'' \<or> st = ''failed'' \<or> st = ''processing''"
  by (simp add: isActiveOutboxStatus_def activeOutboxStatuses_def)

lemma active_with_iff: "active_with topic key m \<longleftrightarrow> outbox_active m \<and> outbox_address m = (topic, key)"
  by (auto simp: active_with_def outbox_active_def outbox_address_def)

lemma outbox_inv_empty [simp]: "outbox_inv empty_table"
  by (simp add: outbox_inv_def)

lemma outbox_row_okD: "outbox_inv t \<Longrightarrow> m \<in> set (rows t) \<Longrightarrow> outbox_row_ok m"
  by (simp add: outbox_inv_def list_all_iff)

lemma outbox_lookup_in: "outbox_lookup t i = Some m \<Longrightarrow> m \<in> set (rows t) \<and> om_id m = i"
  unfolding outbox_lookup_def by (rule find_row_SomeD)

lemma outbox_lookup_row: "outbox_inv t \<Longrightarrow> m \<in> set (rows t) \<Longrightarrow> outbox_lookup t (om_id m) = Some m"
  unfolding outbox_lookup_def outbox_inv_def by (rule find_row_key) (auto simp: wf_distinct)

lemma outbox_active_unique:
  assumes "outbox_inv t" "m \<in> set (rows t)" "m' \<in> set (rows t)" "outbox_active m" "outbox_active m'"
    and "outbox_address m = outbox_address m'"
  shows "m = m'"
proof (rule distinct_keys_unique [of outbox_address "filter outbox_active (rows t)"])
  show "distinct (map outbox_address (filter outbox_active (rows t)))"
    using assms(1) by (simp only: outbox_inv_def)
qed (use assms in simp_all)

lemma outbox_find_active:
  assumes "outbox_inv t" "m \<in> set (rows t)" "active_with topic key m"
  shows "find_row (active_with topic key) t = Some m"
proof (cases "find_row (active_with topic key) t")
  case None
  with assms show ?thesis by (simp add: find_row_None)
next
  case (Some r)
  have "r \<in> set (rows t)" "active_with topic key r" using find_row_SomeD [OF Some] by simp_all
  then have "r = m"
    using assms(2,3) outbox_active_unique [OF assms(1), of r m] unfolding active_with_iff by metis
  then show ?thesis using Some by (rule subst)
qed

lemma filter_map_address:
  assumes "\<And>m. outbox_address (g m) = outbox_address m"
    and "\<And>m. m \<in> set ms \<Longrightarrow> outbox_active (g m) \<Longrightarrow> outbox_active m"
    and "distinct (map outbox_address (filter outbox_active ms))"
  shows "distinct (map outbox_address (filter outbox_active (map g ms)))"
  using assms(2,3)
proof (induction ms)
  case (Cons x xs)
  have ih: "distinct (map outbox_address (filter outbox_active (map g xs)))"
    using Cons by (auto split: if_splits)
  have "outbox_address y \<noteq> outbox_address x"
    if y: "outbox_active (g x)" "y \<in> g ` set xs" "outbox_active y" for y
  proof -
    obtain z where z: "z \<in> set xs" "y = g z" using y(2) by blast
    then have "outbox_active z" "outbox_active x" using Cons.prems(1) y by auto
    then have "outbox_address z \<in> outbox_address ` {x \<in> set xs. outbox_active x}" using z(1) by blast
    moreover have "outbox_address x \<notin> outbox_address ` {x \<in> set xs. outbox_active x}"
      using Cons.prems(2) \<open>outbox_active x\<close> by simp
    ultimately show ?thesis using z(2) assms(1) by metis
  qed
  then have "outbox_address x \<notin> outbox_address ` {y \<in> g ` set xs. outbox_active y}" if "outbox_active (g x)"
    using that by fastforce
  with ih assms(1) show ?case by simp
qed simp

lemma outbox_inv_update:
  assumes "outbox_inv t"
    and "\<And>m. om_id (f m) = om_id m \<and> outbox_address (f m) = outbox_address m"
    and "\<And>m. m \<in> set (rows t) \<Longrightarrow> P m \<Longrightarrow> outbox_row_ok m \<Longrightarrow> outbox_row_ok (f m)"
    and "\<And>m. m \<in> set (rows t) \<Longrightarrow> P m \<Longrightarrow> outbox_active (f m) \<Longrightarrow> outbox_active m"
  shows "outbox_inv (update_rows P f t)"
proof -
  have "distinct (map outbox_address (filter outbox_active (rows (update_rows P f t))))"
    unfolding update_rows_def using assms(1,2,4)
    by (simp add: outbox_inv_def) (rule filter_map_address; simp split: if_splits)
  moreover have "wf_table om_id (update_rows P f t)"
    using assms(1,2) by (simp add: outbox_inv_def wf_update_rows)
  moreover have "list_all outbox_row_ok (rows (update_rows P f t))"
    using assms(1,3) by (auto simp: outbox_inv_def list_all_iff set_rows_update)
  ultimately show ?thesis by (simp add: outbox_inv_def)
qed

lemma outbox_lookup_update:
  assumes "\<And>m. om_id (f m) = om_id m"
  shows "outbox_lookup (update_rows P f t) i = map_option (\<lambda>m. if P m then f m else m) (outbox_lookup t i)"
  unfolding outbox_lookup_def by (rule find_row_update_key) (rule assms)

lemma new_outbox_event_fields [simp]:
  "om_id (new_outbox_event params p now i) = i"
  "outbox_address (new_outbox_event params p now i) = (co_topic params, co_key params)"
  "outbox_active (new_outbox_event params p now i)"
  "outbox_row_ok (new_outbox_event params p now i)"
  by (simp_all add: new_outbox_event_def outbox_address_def outbox_active_def
      isActiveOutboxStatus_iff outbox_row_ok_def)

lemma outbox_insert_inv:
  assumes "outbox_inv t"
  shows "outbox_inv (fst (outbox_insert fault params p now t))"
proof (cases "fault = None \<and> find_row (active_with (co_topic params) (co_key params)) t = None")
  case True
  then have "\<forall>m \<in> set (rows t). outbox_active m \<longrightarrow> outbox_address m \<noteq> (co_topic params, co_key params)"
    by (simp add: find_row_None active_with_iff)
  then have "outbox_inv (insert_row (new_outbox_event params p now) t)"
    using assms by (auto simp: outbox_inv_def wf_insert_row)
  with True show ?thesis by (simp add: outbox_insert_def)
next
  case False
  then show ?thesis using assms
    by (auto simp: outbox_insert_def outbox_inv_def split: option.split)
qed

text \<open>What finishing updates have in common.\<close>

definition outbox_finishing :: "(outbox_event_model \<Rightarrow> outbox_event_model) \<Rightarrow> bool" where
  "outbox_finishing f \<longleftrightarrow>
     (\<forall>m. om_id (f m) = om_id m \<and> outbox_address (f m) = outbox_address m \<and>
          om_status (f m) \<noteq> OutboxStatusProcessing \<and>
          (outbox_row_ok m \<and> om_status m = OutboxStatusProcessing \<longrightarrow> outbox_row_ok (f m)))"

lemma outbox_finishing_updates [simp]:
  "outbox_finishing (sent_updates at)" "outbox_finishing (outbox_failed_updates n at e)"
  by (auto simp: outbox_finishing_def sent_updates_def outbox_failed_updates_def outbox_row_ok_def
      outbox_address_def)

lemma outbox_updateClaimed_inv:
  assumes "outbox_inv t" "outbox_finishing f"
  shows "outbox_inv (fst (outbox_updateClaimed fault i c f t))"
proof -
  have "outbox_inv (update_rows (\<lambda>m. om_id m = i \<and> om_status m = ''processing'' \<and> om_claim_id m = c) f t)"
    using assms(1)
    by (rule outbox_inv_update)
      (use assms(2) in \<open>auto simp: outbox_finishing_def outbox_active_def isActiveOutboxStatus_iff\<close>)
  with assms(1) show ?thesis by (auto simp: outbox_updateClaimed_def Let_def split: option.split)
qed

lemma outbox_updateClaimed_frame:
  assumes "outbox_finishing f" "k' \<noteq> k \<or> (\<forall>m. outbox_lookup t k' = Some m \<longrightarrow> \<not> outbox_held m c)"
  shows "outbox_lookup (fst (outbox_updateClaimed fault k c f t)) k' = outbox_lookup t k'"
proof -
  have "outbox_lookup (update_rows (\<lambda>m. om_id m = k \<and> om_status m = ''processing'' \<and> om_claim_id m = c) f t) k' =
      outbox_lookup t k'"
    using assms outbox_lookup_in [of t k']
    by (cases "outbox_lookup t k'") (auto simp: outbox_finishing_def outbox_lookup_update outbox_held_def)
  then show ?thesis by (auto simp: outbox_updateClaimed_def Let_def split: option.split)
qed

lemma outbox_count_held_0:
  assumes "outbox_inv t"
  shows "count_rows (\<lambda>m. om_id m = k \<and> om_status m = ''processing'' \<and> om_claim_id m = c) t = 0 \<longleftrightarrow>
         \<not> (\<exists>m. outbox_lookup t k = Some m \<and> outbox_held m c)"
  using assms outbox_lookup_row [OF assms] outbox_lookup_in [of t k]
  by (fastforce simp: count_rows_0 find_row_None outbox_held_def)

lemma outbox_updateClaimed_held:
  assumes "outbox_inv t" "outbox_finishing f" "outbox_lookup t k = Some m" "outbox_held m c"
    and "fault MarkUpdate = None"
  shows "outbox_lookup (fst (outbox_updateClaimed fault k c f t)) k = Some (f m)"
    and "fault MarkReload = None \<Longrightarrow> snd (outbox_updateClaimed fault k c f t) = Inr (outboxModelToEvent (f m))"
proof -
  let ?P = "\<lambda>m. om_id m = k \<and> om_status m = ''processing'' \<and> om_claim_id m = c"
  have n: "count_rows ?P t \<noteq> 0" using assms outbox_count_held_0 by blast
  have l: "outbox_lookup (update_rows ?P f t) k = Some (f m)"
    using assms(2-4) outbox_lookup_in [OF assms(3)]
    by (simp add: outbox_lookup_update outbox_finishing_def outbox_held_def)
  then show "outbox_lookup (fst (outbox_updateClaimed fault k c f t)) k = Some (f m)"
    "fault MarkReload = None \<Longrightarrow> snd (outbox_updateClaimed fault k c f t) = Inr (outboxModelToEvent (f m))"
    using n assms(5) by (simp_all add: outbox_updateClaimed_def Let_def Outbox_FindByID_def outbox_lookup_def)
qed

lemma outbox_updateClaimed_lost:
  assumes "outbox_inv t" "\<And>m. outbox_lookup t k = Some m \<Longrightarrow> \<not> outbox_held m c" "fault MarkUpdate = None"
  shows "outbox_updateClaimed fault k c f t = (t, Inl (Sentinel ErrOutboxClaimLost))"
proof -
  have "count_rows (\<lambda>m. om_id m = k \<and> om_status m = ''processing'' \<and> om_claim_id m = c) t = 0"
    using assms(1,2) outbox_count_held_0 by blast
  then show ?thesis using assms(3) by (simp add: outbox_updateClaimed_def Let_def)
qed

lemma outbox_claim_store:
  assumes "outbox_finishing f"
  shows "claim_store outbox_inv outbox_lookup outbox_held
           (\<lambda>t k c. outbox_updateClaimed no_faults k c f t) ErrOutboxClaimLost"
proof
  fix t k m c assume h: "outbox_inv t" "outbox_lookup t k = Some m" "outbox_held m c"
  have "\<forall>c'. \<not> outbox_held (f m) c'" using assms by (simp add: outbox_finishing_def outbox_held_def)
  moreover have "outbox_updateClaimed no_faults k c f t =
      (fst (outbox_updateClaimed no_faults k c f t), Inr (outboxModelToEvent (f m)))"
    by (rule prod_eqI) (simp_all add: outbox_updateClaimed_held [OF h(1) assms h(2,3)])
  ultimately show "\<exists>t' a m'. outbox_updateClaimed no_faults k c f t = (t', Inr a) \<and>
      outbox_lookup t' k = Some m' \<and> (\<forall>c'. \<not> outbox_held m' c')"
    using outbox_updateClaimed_held(1) [OF h(1) assms h(2,3) refl] by blast
next
  fix t k c assume "outbox_inv t" "\<And>m. outbox_lookup t k = Some m \<Longrightarrow> \<not> outbox_held m c"
  then show "outbox_updateClaimed no_faults k c f t = (t, Inl (Sentinel ErrOutboxClaimLost))"
    by (intro outbox_updateClaimed_lost) auto
next
  fix t :: outbox_table and k' k :: int and c assume "k' \<noteq> k"
  then show "outbox_lookup (fst (outbox_updateClaimed no_faults k c f t)) k' = outbox_lookup t k'"
    by (intro outbox_updateClaimed_frame assms) simp
next
  fix t k c assume "outbox_inv t"
  then show "outbox_inv (fst (outbox_updateClaimed no_faults k c f t))"
    by (rule outbox_updateClaimed_inv) (rule assms)
qed

interpretation outbox_sent: claim_store outbox_inv outbox_lookup outbox_held
  "\<lambda>t k c. Outbox_MarkSent no_faults k c at t" ErrOutboxClaimLost for at
  unfolding Outbox_MarkSent_def by (rule outbox_claim_store) simp

interpretation outbox_failed: claim_store outbox_inv outbox_lookup outbox_held
  "\<lambda>t k c. Outbox_MarkFailed no_faults k c n at e t" ErrOutboxClaimLost for n at e
  unfolding Outbox_MarkFailed_def by (rule outbox_claim_store) simp

subsection \<open>Claiming batches\<close>

lemma outbox_claimed_fields [simp]:
  "om_id (outbox_claimed c l now m) = om_id m"
  "outbox_address (outbox_claimed c l now m) = outbox_address m"
  "om_topic (outbox_claimed c l now m) = om_topic m"
  "om_event_key (outbox_claimed c l now m) = om_event_key m"
  "om_payload_json (outbox_claimed c l now m) = om_payload_json m"
  "om_attempts (outbox_claimed c l now m) = om_attempts m"
  "om_next_attempt_at (outbox_claimed c l now m) = om_next_attempt_at m"
  "om_status (outbox_claimed c l now m) = ''processing''"
  "om_locked_until (outbox_claimed c l now m) = Some l"
  "om_claim_id (outbox_claimed c l now m) = c"
  by (simp_all add: outbox_claimed_def outbox_address_def)

lemma outbox_order_props [simp]:
  "set (outbox_order ms) = set ms" "length (outbox_order ms) = length ms"
  "distinct (map om_id (outbox_order ms)) = distinct (map om_id ms)"
proof -
  show "set (outbox_order ms) = set ms" "length (outbox_order ms) = length ms"
    by (simp_all add: outbox_order_def)
  have "mset (map om_id (outbox_order ms)) = mset (map om_id ms)"
    unfolding outbox_order_def by (simp only: mset_map mset_sort)
  then show "distinct (map om_id (outbox_order ms)) = distinct (map om_id ms)"
    by (rule mset_eq_imp_distinct_iff)
qed

lemma outbox_order_unique:
  assumes "mset ms = mset ns" "distinct (map om_id ns)"
    and "sorted (map (\<lambda>m. (om_next_attempt_at m, om_id m)) ns)"
  shows "outbox_order ms = ns"
  unfolding outbox_order_def
proof (rule sort_key_inj_key_eq)
  show "inj_on (\<lambda>m. (om_next_attempt_at m, om_id m)) (set ms)"
    using assms(1,2) mset_eq_setD [OF assms(1)] by (auto simp: distinct_map inj_on_def)
qed (use assms in auto)

lemma ready_models_props:
  assumes "outbox_inv t"
  shows "distinct (map om_id (ready_models busy now limit t))"
    and "set (ready_models busy now limit t) \<subseteq>
           {m \<in> set (rows t). outboxReadyForClaimFilter now m \<and> \<not> busy (om_id m)}"
    and "int (length (ready_models busy now limit t)) \<le> outbox_limit limit"
    and "sorted (map (\<lambda>m. (om_next_attempt_at m, om_id m)) (ready_models busy now limit t))"
    and "length (ready_models busy now limit t) < nat (outbox_limit limit) \<Longrightarrow>
           set (ready_models busy now limit t) =
           {m \<in> set (rows t). outboxReadyForClaimFilter now m \<and> \<not> busy (om_id m)}"
proof -
  let ?s = "select_rows (\<lambda>m. outboxReadyForClaimFilter now m \<and> \<not> busy (om_id m)) t"
  have d: "distinct (map om_id ?s)"
    using assms wf_distinct [of om_id t] by (auto simp: outbox_inv_def select_rows_def distinct_map_filter)
  then show "distinct (map om_id (ready_models busy now limit t))"
    using outbox_order_props(3) [of ?s] unfolding ready_models_def take_map [symmetric] by simp
  show "set (ready_models busy now limit t) \<subseteq>
           {m \<in> set (rows t). outboxReadyForClaimFilter now m \<and> \<not> busy (om_id m)}"
    unfolding ready_models_def using set_take_subset [of _ "outbox_order ?s"]
    by (fastforce simp: select_rows_def)
  show "int (length (ready_models busy now limit t)) \<le> outbox_limit limit"
    by (simp add: ready_models_def outbox_limit_def min_def) linarith
  have "sorted (map (\<lambda>m. (om_next_attempt_at m, om_id m)) (outbox_order ?s))"
    by (simp add: outbox_order_def)
  then show "sorted (map (\<lambda>m. (om_next_attempt_at m, om_id m)) (ready_models busy now limit t))"
    unfolding ready_models_def take_map [symmetric] by (rule sorted_wrt_take)
  show "set (ready_models busy now limit t) =
      {m \<in> set (rows t). outboxReadyForClaimFilter now m \<and> \<not> busy (om_id m)}"
    if "length (ready_models busy now limit t) < nat (outbox_limit limit)"
  proof -
    have "ready_models busy now limit t = outbox_order ?s"
      using that by (simp add: ready_models_def min_def split: if_splits)
    then show ?thesis by (auto simp: select_rows_def)
  qed
qed

lemma ready_models_id:
  assumes "outbox_inv t" "m \<in> set (rows t)"
  shows "om_id m \<in> om_id ` set (ready_models busy now limit t) \<longleftrightarrow> m \<in> set (ready_models busy now limit t)"
proof
  assume "om_id m \<in> om_id ` set (ready_models busy now limit t)"
  then obtain r where r: "r \<in> set (ready_models busy now limit t)" "om_id r = om_id m" by force
  then have "r \<in> set (rows t)" using ready_models_props(2) [OF assms(1)] by blast
  then have "r = m" using wf_unique [of om_id t r m] assms r(2) unfolding outbox_inv_def by blast
  with r(1) show "m \<in> set (ready_models busy now limit t)" by simp
qed simp

lemma ready_modelsD:
  assumes "outbox_inv t" "m \<in> set (ready_models busy now limit t)"
  shows "m \<in> set (rows t)" "outboxReadyForClaimFilter now m" "\<not> busy (om_id m)"
  using ready_models_props(2) [OF assms(1)] assms(2) by blast+

definition claim_batch ::
  "(int \<Rightarrow> bool) \<Rightarrow> time \<Rightarrow> int \<Rightarrow> string \<Rightarrow> time \<Rightarrow> outbox_table \<Rightarrow> outbox_table" where
  "claim_batch busy now limit c l t =
     update_rows (\<lambda>m. om_id m \<in> om_id ` set (ready_models busy now limit t)) (outbox_claimed c l now) t"

lemma outbox_reload:
  fixes busy :: "int \<Rightarrow> bool" and now :: time and limit :: int
  assumes "outbox_inv t"
  defines "ms \<equiv> ready_models busy now limit t"
  shows "outbox_order (select_rows (\<lambda>m. om_id m \<in> om_id ` set ms) (claim_batch busy now limit c l t)) =
         map (outbox_claimed c l now) ms"
proof (rule outbox_order_unique)
  let ?P = "\<lambda>m. om_id m \<in> om_id ` set ms"
  note props = ready_models_props [OF assms(1), of busy now limit, folded ms_def]
  have ms: "set (filter ?P (rows t)) = set ms"
    using props(2) ready_models_id [OF assms(1), of _ busy now limit, folded ms_def] by auto
  have "distinct ms" using props(1) by (simp add: distinct_map)
  moreover have "distinct (filter ?P (rows t))"
    using assms(1) wf_distinct [of om_id t] by (auto simp: outbox_inv_def distinct_map)
  ultimately have m: "mset (filter ?P (rows t)) = mset ms"
    using ms set_eq_iff_mset_eq_distinct by blast
  have "filter ?P (map (\<lambda>r. if ?P r then outbox_claimed c l now r else r) xs) =
      map (outbox_claimed c l now) (filter ?P xs)" for xs
    by (induction xs) auto
  then show "mset (select_rows ?P (claim_batch busy now limit c l t)) = mset (map (outbox_claimed c l now) ms)"
    using m by (simp add: select_rows_def claim_batch_def update_rows_def ms_def [symmetric])
  show "distinct (map om_id (map (outbox_claimed c l now) ms))" using props(1) by (simp add: comp_def)
  show "sorted (map (\<lambda>m. (om_next_attempt_at m, om_id m)) (map (outbox_claimed c l now) ms))"
    using props(4) by (simp add: comp_def)
qed

lemma Outbox_ClaimReady_ok:
  assumes "outbox_inv t"
  shows "c \<noteq> [] \<Longrightarrow> Outbox_ClaimReady no_faults busy now limit c l t =
           (claim_batch busy now limit c l t,
            Inr (map (outboxModelToEvent \<circ> outbox_claimed c l now) (ready_models busy now limit t),
                 count_rows (outboxReadyForClaimFilter now) t))"
    and "Outbox_ClaimReady fault busy now limit c l t = (t', Inr r) \<Longrightarrow>
           c \<noteq> [] \<and> Outbox_ClaimReady fault busy now limit c l t = Outbox_ClaimReady no_faults busy now limit c l t"
    and "Outbox_ClaimReady fault busy now limit c l t = (t', Inl e) \<Longrightarrow> t' = t"
proof -
  have "claim_batch busy now limit c l t = t" if "ready_models busy now limit t = []"
    unfolding claim_batch_def that by (rule update_rows_none) simp
  then show "c \<noteq> [] \<Longrightarrow> Outbox_ClaimReady no_faults busy now limit c l t =
           (claim_batch busy now limit c l t,
            Inr (map (outboxModelToEvent \<circ> outbox_claimed c l now) (ready_models busy now limit t),
                 count_rows (outboxReadyForClaimFilter now) t))"
    using outbox_reload [OF assms, of busy now limit c l]
    by (auto simp: Outbox_ClaimReady_def Let_def claim_batch_def [symmetric])
  show "Outbox_ClaimReady fault busy now limit c l t = (t', Inr r) \<Longrightarrow>
           c \<noteq> [] \<and> Outbox_ClaimReady fault busy now limit c l t = Outbox_ClaimReady no_faults busy now limit c l t"
    by (auto simp: Outbox_ClaimReady_def Let_def split: if_splits option.splits)
  show "Outbox_ClaimReady fault busy now limit c l t = (t', Inl e) \<Longrightarrow> t' = t"
    by (auto simp: Outbox_ClaimReady_def Let_def split: if_splits option.splits)
qed

lemma claim_batch_lookup:
  assumes "outbox_inv t"
  shows "outbox_lookup (claim_batch busy now limit c l t) i =
         map_option (\<lambda>m. if m \<in> set (ready_models busy now limit t) then outbox_claimed c l now m else m)
           (outbox_lookup t i)"
proof (cases "outbox_lookup t i")
  case (Some m)
  then have m: "m \<in> set (rows t)" "om_id m = i" using outbox_lookup_in by blast+
  then show ?thesis using Some ready_models_id [OF assms m(1), of busy now limit] by (simp add: claim_batch_def outbox_lookup_update)
qed (simp add: claim_batch_def outbox_lookup_update)

lemma claim_batch_inv:
  assumes "outbox_inv t" "c \<noteq> []"
  shows "outbox_inv (claim_batch busy now limit c l t)"
  unfolding claim_batch_def using assms(1)
proof (rule outbox_inv_update)
  let ?ms = "ready_models busy now limit t"
  fix m assume m: "m \<in> set (rows t)" "om_id m \<in> om_id ` set ?ms" "outbox_row_ok m"
  then have "outboxReadyForClaimFilter now m"
    using ready_models_id [OF assms(1)] ready_modelsD(2) [OF assms(1)] by blast
  then show "outbox_row_ok (outbox_claimed c l now m)"
    using m(3) assms(2) by (auto simp: outbox_row_ok_def outboxReadyForClaimFilter_def outbox_due_def
        outbox_claimed_def)
next
  let ?ms = "ready_models busy now limit t"
  fix m assume m: "m \<in> set (rows t)" "om_id m \<in> om_id ` set ?ms"
  then have "outboxReadyForClaimFilter now m"
    using ready_models_id [OF assms(1)] ready_modelsD(2) [OF assms(1)] by blast
  then show "outbox_active m"
    by (auto simp: outbox_active_def isActiveOutboxStatus_iff outboxReadyForClaimFilter_def outbox_due_def)
qed simp

lemma Outbox_ClaimReady_inv:
  assumes "outbox_inv t"
  shows "outbox_inv (fst (Outbox_ClaimReady fault busy now limit c l t))"
proof (cases "Outbox_ClaimReady fault busy now limit c l t")
  case (Pair t' r)
  show ?thesis
  proof (cases r)
    case (Inl e)
    with Pair Outbox_ClaimReady_ok(3) [OF assms] assms show ?thesis by fastforce
  next
    case (Inr x)
    with Pair Outbox_ClaimReady_ok(2) [OF assms] have "c \<noteq> []"
      "Outbox_ClaimReady fault busy now limit c l t = Outbox_ClaimReady no_faults busy now limit c l t"
      by blast+
    then show ?thesis using claim_batch_inv [OF assms] Outbox_ClaimReady_ok(1) [OF assms] by simp
  qed
qed

text \<open>A lease that has not ended keeps its row out of every batch.\<close>

lemma leased_not_ready:
  assumes "om_status m = ''processing''" "om_locked_until m = Some l" "now < l"
  shows "\<not> outboxReadyForClaimFilter now m"
  using assms by (simp add: outboxReadyForClaimFilter_def outbox_due_def)

subsection \<open>What dispatching guarantees\<close>

definition outbox_content :: "outbox_event_model \<Rightarrow> event" where
  "outbox_content m = \<lparr>ev_topic = om_topic m, ev_key = om_event_key m, ev_value = om_payload_json m\<rparr>"

definition event_of :: "outbox_event \<Rightarrow> event" where
  "event_of x = \<lparr>ev_topic = ox_topic x, ev_key = ox_key x, ev_value = ox_value x\<rparr>"

text \<open>Every event marked as sent has been stored by the broker.\<close>

definition outbox_published :: "outbox_world \<Rightarrow> bool" where
  "outbox_published s \<longleftrightarrow>
     (\<forall>m \<in> set (rows (ow_table s)). om_status m = OutboxStatusSent \<longrightarrow> outbox_content m \<in> set (ow_log s))"

definition outbox_good :: "outbox_world \<Rightarrow> bool" where
  "outbox_good s \<longleftrightarrow> outbox_inv (ow_table s) \<and> outbox_published s"

text \<open>Rows never disappear or change what they are to publish, and the log only grows.\<close>

definition outbox_grows :: "outbox_world \<Rightarrow> outbox_world \<Rightarrow> bool" where
  "outbox_grows s s' \<longleftrightarrow>
     (\<forall>i m. outbox_lookup (ow_table s) i = Some m \<longrightarrow>
        (\<exists>m'. outbox_lookup (ow_table s') i = Some m' \<and> outbox_content m' = outbox_content m)) \<and>
     set (ow_log s) \<subseteq> set (ow_log s')"

definition outbox_knows :: "outbox_world \<Rightarrow> outbox_event \<Rightarrow> bool" where
  "outbox_knows s x \<longleftrightarrow> (\<exists>m. outbox_lookup (ow_table s) (ox_id x) = Some m \<and> outbox_content m = event_of x)"

lemma outbox_grows_refl [simp]: "outbox_grows s s"
  by (simp add: outbox_grows_def)

lemma outbox_grows_trans: "outbox_grows s t \<Longrightarrow> outbox_grows t u \<Longrightarrow> outbox_grows s u"
  unfolding outbox_grows_def by (metis subset_trans)

lemma outbox_knows_grows: "outbox_knows s x \<Longrightarrow> outbox_grows s t \<Longrightarrow> outbox_knows t x"
  unfolding outbox_grows_def outbox_knows_def by metis

lemma content_updates [simp]:
  "outbox_content (sent_updates at m) = outbox_content m"
  "outbox_content (outbox_failed_updates n at e m) = outbox_content m"
  "outbox_content (outbox_claimed c l at m) = outbox_content m"
  by (simp_all add: outbox_content_def sent_updates_def outbox_failed_updates_def outbox_claimed_def)

lemma observeJob_parts [simp]:
  "ow_table (outbox_observeJob d topic st s) = ow_table s"
  "ow_log (outbox_observeJob d topic st s) = ow_log s"
  by (simp_all add: outbox_observeJob_def)

lemma outbox_good_log:
  assumes "outbox_good s" "ow_table s' = ow_table s" "set (ow_log s) \<subseteq> set (ow_log s')"
  shows "outbox_good s'" "outbox_grows s s'"
  using assms by (auto simp: outbox_good_def outbox_published_def outbox_grows_def)

text \<open>Changing rows: an update that keeps contents, and sends only what the log has.\<close>

lemma outbox_good_update:
  assumes "outbox_good s" "outbox_inv (update_rows P f (ow_table s))"
    and "\<And>m. om_id (f m) = om_id m" "\<And>m. outbox_content (f m) = outbox_content m"
    and "\<And>m. m \<in> set (rows (ow_table s)) \<Longrightarrow> P m \<Longrightarrow> om_status (f m) = ''sent'' \<Longrightarrow>
           outbox_content m \<in> set (ow_log s)"
  defines "s' \<equiv> s\<lparr>ow_table := update_rows P f (ow_table s)\<rparr>"
  shows "outbox_good s'" "outbox_grows s s'"
proof -
  have "outbox_published s'"
    using assms(1,4,5) by (auto simp: outbox_good_def outbox_published_def s'_def set_rows_update)
  with assms(2) show "outbox_good s'" by (simp add: outbox_good_def s'_def)
  show "outbox_grows s s'"
    using assms(4) by (auto simp: outbox_grows_def s'_def outbox_lookup_update [OF assms(3)])
qed

lemma outbox_updateClaimed_fst:
  "fst (outbox_updateClaimed fault i c f t) = t \<or>
   fst (outbox_updateClaimed fault i c f t) =
     update_rows (\<lambda>m. om_id m = i \<and> om_status m = ''processing'' \<and> om_claim_id m = c) f t"
  by (simp add: outbox_updateClaimed_def Let_def split: option.split)

lemma updateClaimed_good:
  fixes fault :: "mark_stmt faults" and c :: string
  assumes "outbox_good s" "outbox_finishing f" "\<And>m. outbox_content (f m) = outbox_content m"
    and "\<And>m. om_status (f m) = ''sent'' \<Longrightarrow> outbox_lookup (ow_table s) i = Some m \<Longrightarrow>
           outbox_content m \<in> set (ow_log s)"
  defines "s' \<equiv> s\<lparr>ow_table := fst (outbox_updateClaimed fault i c f (ow_table s))\<rparr>"
  shows "outbox_good s'" "outbox_grows s s'"
proof -
  let ?P = "\<lambda>m. om_id m = i \<and> om_status m = ''processing'' \<and> om_claim_id m = c"
  have inv: "outbox_inv (ow_table s)" using assms(1) by (simp add: outbox_good_def)
  consider "fst (outbox_updateClaimed fault i c f (ow_table s)) = ow_table s"
    | "fst (outbox_updateClaimed fault i c f (ow_table s)) = update_rows ?P f (ow_table s)"
    using outbox_updateClaimed_fst [of fault i c f "ow_table s"] by blast
  then have "outbox_good s' \<and> outbox_grows s s'"
  proof cases
    case 1
    then show ?thesis using assms(1) by (simp add: s'_def)
  next
    case 2
    have "outbox_inv (update_rows ?P f (ow_table s))"
      using outbox_updateClaimed_inv [OF inv assms(2), of fault i c] 2 by simp
    note upd = outbox_good_update [OF assms(1) this]
    have "outbox_content m \<in> set (ow_log s)"
      if "m \<in> set (rows (ow_table s))" "?P m" "om_status (f m) = ''sent''" for m
      using assms(4) [of m] that outbox_lookup_row [OF inv that(1)] by simp
    then show ?thesis unfolding s'_def 2
      using upd assms(2,3) by (simp add: outbox_finishing_def)
  qed
  then show "outbox_good s'" "outbox_grows s s'" by blast+
qed

lemma Mark_good:
  assumes "outbox_good s"
  shows "outbox_good (s\<lparr>ow_table := fst (Outbox_MarkFailed fault i c n at e (ow_table s))\<rparr>)"
    and "outbox_grows s (s\<lparr>ow_table := fst (Outbox_MarkFailed fault i c n at e (ow_table s))\<rparr>)"
    and "outbox_knows s x \<Longrightarrow> event_of x \<in> set (ow_log s) \<Longrightarrow>
           outbox_good (s\<lparr>ow_table := fst (Outbox_MarkSent fault (ox_id x) c at (ow_table s))\<rparr>) \<and>
           outbox_grows s (s\<lparr>ow_table := fst (Outbox_MarkSent fault (ox_id x) c at (ow_table s))\<rparr>)"
proof -
  have ns: "om_status (outbox_failed_updates n at e m) \<noteq> ''sent''" for m
    by (simp add: outbox_failed_updates_def)
  show "outbox_good (s\<lparr>ow_table := fst (Outbox_MarkFailed fault i c n at e (ow_table s))\<rparr>)"
    "outbox_grows s (s\<lparr>ow_table := fst (Outbox_MarkFailed fault i c n at e (ow_table s))\<rparr>)"
    unfolding Outbox_MarkFailed_def using assms ns by (auto intro!: updateClaimed_good)
  show "outbox_good (s\<lparr>ow_table := fst (Outbox_MarkSent fault (ox_id x) c at (ow_table s))\<rparr>) \<and>
        outbox_grows s (s\<lparr>ow_table := fst (Outbox_MarkSent fault (ox_id x) c at (ow_table s))\<rparr>)"
    if "outbox_knows s x" "event_of x \<in> set (ow_log s)"
    unfolding Outbox_MarkSent_def using assms that
    by (intro conjI updateClaimed_good) (auto simp: outbox_knows_def)
qed

lemma dispatch_events_good:
  assumes rely: "\<And>i s. outbox_good s \<Longrightarrow> outbox_good (de_other env i s) \<and> outbox_grows s (de_other env i s)"
    and "outbox_good s" "\<And>x. x \<in> set xs \<Longrightarrow> outbox_knows s x"
  shows "outbox_good (fst (dispatch_events d env c now xs s)) \<and>
         outbox_grows s (fst (dispatch_events d env c now xs s))"
  using assms(2,3)
proof (induction xs arbitrary: s)
  case Nil
  then show ?case by simp
next
  case (Cons x xs)
  obtain log r where w: "event_write (de_write env (ox_id x)) (event_of x) (ow_log s) = (log, r)"
    by (cases "event_write (de_write env (ox_id x)) (event_of x) (ow_log s)")
  have log: "set (ow_log s) \<subseteq> set log" "\<And>u. r = Inr u \<Longrightarrow> event_of x \<in> set log"
    using w by (cases "de_write env (ox_id x)"; auto split: if_splits)+
  define st where "st = (if isl r then ''failed'' else ''success'')"
  define s0 where "s0 = outbox_observeJob d (ox_topic x) st (s\<lparr>ow_log := log\<rparr>)"
  define s1 where "s1 = de_other env (ox_id x) s0"
  have "outbox_good s0" "outbox_grows s s0"
    using outbox_good_log [OF Cons.prems(1), of s0] log(1) by (simp_all add: s0_def)
  moreover from this rely have "outbox_good s1" "outbox_grows s0 s1" by (simp_all add: s1_def)
  ultimately have s1: "outbox_good s1" "outbox_grows s s1" by (auto intro: outbox_grows_trans)
  have known: "outbox_knows u y" if "outbox_grows s1 u" "y \<in> set (x # xs)" for u y
    using Cons.prems(2) [OF that(2)] s1(2) that(1) outbox_knows_grows by blast
  show ?case
  proof (cases r)
    case (Inl err)
    define n where "n = wrap64 (ox_attempts x + 1)"
    define mk where "mk = Outbox_MarkFailed (de_mark env (ox_id x)) (ox_id x) c n
      (time_add now (retryBackoff (od_backoff d) n)) (error_text err) (ow_table s1)"
    define s2 where "s2 = s1\<lparr>ow_table := fst mk\<rparr>"
    have s2: "outbox_good s2" "outbox_grows s1 s2"
      unfolding s2_def mk_def by (rule Mark_good [OF s1(1)])+
    have "fst (dispatch_events d env c now (x # xs) s) =
        (if isl (snd mk) then s2 else fst (dispatch_events d env c now xs s2))"
      using w Inl by (simp add: event_of_def Let_def st_def s0_def s1_def s2_def mk_def n_def
          split: prod.split sum.split)
    moreover have "outbox_good (fst (dispatch_events d env c now xs s2)) \<and>
        outbox_grows s2 (fst (dispatch_events d env c now xs s2))"
      using s2 known by (intro Cons.IH) auto
    ultimately show ?thesis using s1 s2 by (auto intro: outbox_grows_trans split: if_splits)
  next
    case (Inr u)
    define mk where "mk = Outbox_MarkSent (de_mark env (ox_id x)) (ox_id x) c now (ow_table s1)"
    define s2 where "s2 = s1\<lparr>ow_table := fst mk\<rparr>"
    have "event_of x \<in> set (ow_log s1)"
      using \<open>outbox_grows s0 s1\<close> log(2) [OF Inr] by (auto simp: outbox_grows_def s0_def)
    then have s2: "outbox_good s2" "outbox_grows s1 s2"
      unfolding s2_def mk_def using Mark_good(3) [OF s1(1)] known by auto
    have "fst (dispatch_events d env c now (x # xs) s) =
        (if isl (snd mk) then s2 else fst (dispatch_events d env c now xs s2))"
      using w Inr by (simp add: event_of_def Let_def st_def s0_def s1_def s2_def mk_def
          split: prod.split sum.split)
    moreover have "outbox_good (fst (dispatch_events d env c now xs s2)) \<and>
        outbox_grows s2 (fst (dispatch_events d env c now xs s2))"
      using s2 known by (intro Cons.IH) auto
    ultimately show ?thesis using s1 s2 by (auto intro: outbox_grows_trans split: if_splits)
  qed
qed

lemma claimed_known:
  assumes "outbox_inv (ow_table s)" "Outbox_ClaimReady fault busy now limit c l (ow_table s) = (t', Inr (xs, n))"
    and "x \<in> set xs"
  shows "outbox_knows (s\<lparr>ow_table := t'\<rparr>) x"
proof -
  note ok = Outbox_ClaimReady_ok(2) [OF assms(1,2)]
  with assms(2) Outbox_ClaimReady_ok(1) [OF assms(1)]
  have t': "t' = claim_batch busy now limit c l (ow_table s)"
    "xs = map (outboxModelToEvent \<circ> outbox_claimed c l now) (ready_models busy now limit (ow_table s))"
    by auto
  then obtain m where m: "m \<in> set (ready_models busy now limit (ow_table s))"
    "x = outboxModelToEvent (outbox_claimed c l now m)"
    using assms(3) by auto
  have "outbox_lookup (ow_table s) (om_id m) = Some m"
    using outbox_lookup_row [OF assms(1) ready_modelsD(1) [OF assms(1) m(1)]] .
  then have "outbox_lookup t' (ox_id x) = Some (outbox_claimed c l now m)"
    using m claim_batch_lookup [OF assms(1)] t'(1) by (simp add: outboxModelToEvent_def)
  then show ?thesis
    using m(2) by (simp add: outbox_knows_def outbox_content_def event_of_def outboxModelToEvent_def)
qed

lemma claim_good:
  assumes "outbox_good s"
  shows "outbox_good (s\<lparr>ow_table := fst (Outbox_ClaimReady fault busy now limit c l (ow_table s))\<rparr>) \<and>
         outbox_grows s (s\<lparr>ow_table := fst (Outbox_ClaimReady fault busy now limit c l (ow_table s))\<rparr>)"
proof -
  have inv: "outbox_inv (ow_table s)" using assms by (simp add: outbox_good_def)
  obtain t r where tr: "Outbox_ClaimReady fault busy now limit c l (ow_table s) = (t, r)" by fastforce
  show ?thesis
  proof (cases r)
    case (Inl e)
    then show ?thesis using Outbox_ClaimReady_ok(3) [OF inv, of fault busy now limit c l t e] tr assms by simp
  next
    case (Inr x)
    with tr have ok: "c \<noteq> [] \<and> Outbox_ClaimReady fault busy now limit c l (ow_table s) =
        Outbox_ClaimReady no_faults busy now limit c l (ow_table s)"
      by (intro Outbox_ClaimReady_ok(2) [OF inv, of fault busy now limit c l t x]) simp
    then have "c \<noteq> []" "t = claim_batch busy now limit c l (ow_table s)"
      using Outbox_ClaimReady_ok(1) [OF inv, of c busy now limit l] tr by simp_all
    moreover from this have "outbox_inv t" using claim_batch_inv [OF inv] by simp
    ultimately show ?thesis unfolding tr fst_conv claim_batch_def
      using outbox_good_update [OF assms, of "\<lambda>m. om_id m \<in> om_id ` set (ready_models busy now limit (ow_table s))"
          "outbox_claimed c l now"] by simp
  qed
qed

lemma DispatchReady_good:
  assumes "\<And>i s. outbox_good s \<Longrightarrow> outbox_good (de_other env i s) \<and> outbox_grows s (de_other env i s)"
    and "outbox_good s"
  shows "outbox_good (fst (DispatchReady d fault busy env c now s)) \<and>
         outbox_grows s (fst (DispatchReady d fault busy env c now s))"
proof -
  obtain t r where tr: "Outbox_ClaimReady fault busy now (od_batch_size d) c
      (time_add now (od_claim_ttl d)) (ow_table s) = (t, r)" by fastforce
  have s1: "outbox_good (s\<lparr>ow_table := t\<rparr>)" "outbox_grows s (s\<lparr>ow_table := t\<rparr>)"
    using claim_good [OF assms(2), of fault busy now "od_batch_size d" c "time_add now (od_claim_ttl d)"] tr
    by simp_all
  show ?thesis
  proof (cases r)
    case (Inl e)
    with tr s1 show ?thesis by (simp add: DispatchReady_def)
  next
    case (Inr p)
    then obtain xs n where r: "r = Inr (xs, n)" by (cases p) auto
    have "\<And>x. x \<in> set xs \<Longrightarrow> outbox_knows (s\<lparr>ow_table := t\<rparr>) x"
      using claimed_known [of s fault busy now "od_batch_size d" c "time_add now (od_claim_ttl d)" t xs n]
        tr r assms(2) by (simp add: outbox_good_def)
    from dispatch_events_good [OF assms(1) s1(1) this] s1(2)
    have "outbox_good (fst (dispatch_events d env c now xs (s\<lparr>ow_table := t\<rparr>))) \<and>
        outbox_grows s (fst (dispatch_events d env c now xs (s\<lparr>ow_table := t\<rparr>)))"
      by (meson outbox_grows_trans)
    then show ?thesis using tr r by (simp add: DispatchReady_def)
  qed
qed

text \<open>
  The system: producers that insert events and any number of dispatchers. What the others
  do between a dispatcher's write and its mark is itself a run of the system.
\<close>

inductive outbox_step :: "outbox_world \<Rightarrow> outbox_world \<Rightarrow> bool" where
  produce: "outbox_step s (s\<lparr>ow_table := fst (outbox_insert fault params payload now (ow_table s))\<rparr>)"
| dispatch: "(\<And>i s. outbox_step\<^sup>*\<^sup>* s (de_other env i s)) \<Longrightarrow>
     outbox_step s (fst (DispatchReady d fault' busy env c now s))"

lemma outbox_insert_good:
  assumes "outbox_good s"
  shows "outbox_good (s\<lparr>ow_table := fst (outbox_insert fault params p now (ow_table s))\<rparr>) \<and>
         outbox_grows s (s\<lparr>ow_table := fst (outbox_insert fault params p now (ow_table s))\<rparr>)"
proof -
  have "outbox_inv (fst (outbox_insert fault params p now (ow_table s)))"
    using assms by (simp add: outbox_good_def outbox_insert_inv)
  moreover have "set (rows (fst (outbox_insert fault params p now (ow_table s)))) \<subseteq>
      set (rows (ow_table s)) \<union> {m. om_status m = ''pending''}"
    by (auto simp: outbox_insert_def new_outbox_event_def split: option.splits)
  moreover have "outbox_lookup (fst (outbox_insert fault params p now (ow_table s))) i = Some m"
    if "outbox_lookup (ow_table s) i = Some m" for i m
    using that by (auto simp: outbox_insert_def outbox_lookup_def find_row_insert find_row_burn split: option.splits)
  ultimately show ?thesis
    using assms by (auto simp: outbox_good_def outbox_published_def outbox_grows_def)
qed

lemma outbox_step_good: "outbox_step s s' \<Longrightarrow> outbox_good s \<longrightarrow> outbox_good s' \<and> outbox_grows s s'"
proof (induction rule: outbox_step.induct)
  case (produce s fault params p now)
  then show ?case using outbox_insert_good by blast
next
  case (dispatch env d fault busy c now s)
  have "outbox_good (de_other env i u) \<and> outbox_grows u (de_other env i u)" if "outbox_good u" for i u
    using dispatch.IH [of u i] that
    by (induction rule: rtranclp_induct) (auto intro: outbox_grows_trans)
  then show ?case using DispatchReady_good by blast
qed

lemma outbox_steps_good: "outbox_step\<^sup>*\<^sup>* s s' \<Longrightarrow> outbox_good s \<Longrightarrow> outbox_good s' \<and> outbox_grows s s'"
  by (induction rule: rtranclp_induct) (auto dest: outbox_step_good intro: outbox_grows_trans)

definition outbox_init :: outbox_world where
  "outbox_init = \<lparr>ow_table = empty_table, ow_log = [], ow_seen = []\<rparr>"

lemma outbox_init_good: "outbox_good outbox_init"
  by (simp add: outbox_init_def outbox_good_def outbox_published_def)

subsection \<open>A round without interference\<close>

definition stored_by :: "write_outcome \<Rightarrow> event \<Rightarrow> event_log" where
  "stored_by w e = (case w of Acked \<Rightarrow> [e] | WriteFailed _ stored \<Rightarrow> if stored then [e] else [])"

definition dispatched ::
  "outbox_dispatcher \<Rightarrow> dispatch_env \<Rightarrow> time \<Rightarrow> outbox_event_model \<Rightarrow> outbox_event_model" where
  "dispatched d env now m =
     (case de_write env (om_id m) of
        Acked \<Rightarrow> sent_updates now m
      | WriteFailed err _ \<Rightarrow>
          outbox_failed_updates (wrap64 (om_attempts m + 1))
            (now + retryBackoff (od_backoff d) (wrap64 (om_attempts m + 1))) (error_text err) m)"

definition quiet :: "dispatch_env \<Rightarrow> bool" where
  "quiet env \<longleftrightarrow> de_other env = (\<lambda>_ s. s) \<and> de_mark env = (\<lambda>_. no_faults)"

lemma event_write_stored: "fst (event_write w e log) = log @ stored_by w e"
  by (cases w) (simp_all add: stored_by_def)

lemma dispatched_claimed [simp]: "dispatched d env now (outbox_claimed c l at m) = dispatched d env now m"
  by (simp add: dispatched_def sent_updates_def outbox_failed_updates_def outbox_claimed_def
      split: write_outcome.split)

lemma content_event_of [simp]: "event_of (outboxModelToEvent m) = outbox_content m"
  by (simp add: event_of_def outboxModelToEvent_def outbox_content_def)

lemma outboxModelToEvent_parts [simp]:
  "ox_id (outboxModelToEvent m) = om_id m" "ox_attempts (outboxModelToEvent m) = om_attempts m"
  by (simp_all add: outboxModelToEvent_def)

text \<open>One event of the batch, written and marked.\<close>

lemma dispatch_one:
  assumes "quiet env" "outbox_inv (ow_table s)" "outbox_lookup (ow_table s) (om_id m) = Some m" "outbox_held m c"
  obtains s1 where
    "dispatch_events d env c now (outboxModelToEvent m # xs) s = dispatch_events d env c now xs s1"
    "ow_log s1 = ow_log s @ stored_by (de_write env (om_id m)) (outbox_content m)"
    "outbox_inv (ow_table s1)"
    "outbox_lookup (ow_table s1) (om_id m) = Some (dispatched d env now m)"
    "\<And>i. i \<noteq> om_id m \<Longrightarrow> outbox_lookup (ow_table s1) i = outbox_lookup (ow_table s) i"
proof -
  let ?k = "om_id m" and ?w = "de_write env (om_id m)"
  let ?log = "ow_log s @ stored_by ?w (outbox_content m)"
  let ?st = "case ?w of Acked \<Rightarrow> ''success'' | WriteFailed _ _ \<Rightarrow> ''failed''"
  define f where "f = dispatched d env now"
  define g where "g = (\<lambda>r. case ?w of Acked \<Rightarrow> sent_updates now r
      | WriteFailed err _ \<Rightarrow> outbox_failed_updates (wrap64 (om_attempts m + 1))
            (now + retryBackoff (od_backoff d) (wrap64 (om_attempts m + 1))) (error_text err) r)"
  have g: "outbox_finishing g" "g m = dispatched d env now m"
    by (cases ?w; simp add: g_def dispatched_def)+
  obtain t1 where u: "outbox_updateClaimed no_faults ?k c g (ow_table s) = (t1, Inr (outboxModelToEvent (g m)))"
    using outbox_updateClaimed_held(2) [OF assms(2) g(1) assms(3,4), of no_faults]
    by (cases "outbox_updateClaimed no_faults ?k c g (ow_table s)") simp
  define s1 where "s1 = outbox_observeJob d (om_topic m) ?st (s\<lparr>ow_log := ?log\<rparr>)\<lparr>ow_table := t1\<rparr>"
  have ev: "\<lparr>ev_topic = ox_topic (outboxModelToEvent m), ev_key = ox_key (outboxModelToEvent m),
      ev_value = ox_value (outboxModelToEvent m)\<rparr> = outbox_content m"
    by (simp add: outboxModelToEvent_def outbox_content_def)
  have "ox_topic (outboxModelToEvent m) = om_topic m" by (simp add: outboxModelToEvent_def)
  then have "dispatch_events d env c now (outboxModelToEvent m # xs) s = dispatch_events d env c now xs s1"
    using assms(1) u unfolding dispatch_events.simps(2) ev
    by (cases ?w) (simp_all add: quiet_def g_def s1_def stored_by_def Let_def time_add_def
        Outbox_MarkSent_def Outbox_MarkFailed_def)
  moreover have "outbox_inv (ow_table s1)"
    using outbox_updateClaimed_inv [OF assms(2) g(1), of no_faults ?k c] u by (simp add: s1_def)
  moreover have "outbox_lookup (ow_table s1) ?k = Some (dispatched d env now m)"
    using outbox_updateClaimed_held(1) [OF assms(2) g(1) assms(3,4), of no_faults] g(2) u by (simp add: s1_def)
  moreover have "outbox_lookup (ow_table s1) i = outbox_lookup (ow_table s) i" if "i \<noteq> ?k" for i
    using outbox_updateClaimed_frame [OF g(1), of i ?k "ow_table s" c no_faults] that u by (simp add: s1_def)
  ultimately show thesis by (intro that [of s1]) (simp_all add: s1_def)
qed

lemma dispatch_events_quiet:
  assumes "quiet env" "outbox_inv (ow_table s)" "distinct (map om_id ms)"
    and "\<And>m. m \<in> set ms \<Longrightarrow> outbox_lookup (ow_table s) (om_id m) = Some m \<and> outbox_held m c"
  shows "\<exists>s'. dispatch_events d env c now (map outboxModelToEvent ms) s = (s', Inr ()) \<and>
           ow_log s' = ow_log s @ concat (map (\<lambda>m. stored_by (de_write env (om_id m)) (outbox_content m)) ms) \<and>
           outbox_inv (ow_table s') \<and>
           (\<forall>m \<in> set ms. outbox_lookup (ow_table s') (om_id m) = Some (dispatched d env now m)) \<and>
           (\<forall>i. i \<notin> om_id ` set ms \<longrightarrow> outbox_lookup (ow_table s') i = outbox_lookup (ow_table s) i)"
  using assms(2-4)
proof (induction ms arbitrary: s)
  case Nil
  then show ?case by simp
next
  case (Cons m ms)
  obtain s1 where s1:
    "dispatch_events d env c now (outboxModelToEvent m # map outboxModelToEvent ms) s =
     dispatch_events d env c now (map outboxModelToEvent ms) s1"
    "ow_log s1 = ow_log s @ stored_by (de_write env (om_id m)) (outbox_content m)"
    "outbox_inv (ow_table s1)"
    "outbox_lookup (ow_table s1) (om_id m) = Some (dispatched d env now m)"
    "\<And>i. i \<noteq> om_id m \<Longrightarrow> outbox_lookup (ow_table s1) i = outbox_lookup (ow_table s) i"
    using Cons.prems(3) [of m] dispatch_one [OF assms(1) Cons.prems(1), of m c d now "map outboxModelToEvent ms"]
    by auto
  have "outbox_lookup (ow_table s1) (om_id r) = Some r \<and> outbox_held r c" if "r \<in> set ms" for r
  proof -
    have "om_id r \<noteq> om_id m" using Cons.prems(2) imageI [OF that, of om_id] by force
    then show ?thesis using s1(5) Cons.prems(3) [of r] that by simp
  qed
  then obtain s' where s': "dispatch_events d env c now (map outboxModelToEvent ms) s1 = (s', Inr ())"
    "ow_log s' = ow_log s1 @ concat (map (\<lambda>m. stored_by (de_write env (om_id m)) (outbox_content m)) ms)"
    "outbox_inv (ow_table s')"
    "\<forall>m \<in> set ms. outbox_lookup (ow_table s') (om_id m) = Some (dispatched d env now m)"
    "\<forall>i. i \<notin> om_id ` set ms \<longrightarrow> outbox_lookup (ow_table s') i = outbox_lookup (ow_table s1) i"
    using Cons.IH [OF s1(3)] Cons.prems(2) by auto
  have "om_id m \<notin> om_id ` set ms" using Cons.prems(2) by simp
  then have "outbox_lookup (ow_table s') (om_id m) = Some (dispatched d env now m)"
    using s'(5) s1(4) by simp
  with s' s1(1,2,5) show ?case by (intro exI [of _ s']) simp
qed


subsection \<open>Creating events\<close>

text \<open>
  Whatever other processes commit in between, \<open>Create\<close> returns an active event with the
  wanted topic and key that is in the table, and it is the only one.
\<close>

lemma find_active_result:
  assumes "find_row (active_with topic key) t = Some m"
  shows "m \<in> set (rows t)" "active_with topic key m"
  using find_row_SomeD [OF assms] by simp_all

lemma Outbox_Create_result:
  assumes "outbox_inv t" "\<And>t. outbox_inv t \<Longrightarrow> outbox_inv (env1 t)" "\<And>t. outbox_inv t \<Longrightarrow> outbox_inv (env2 t)"
    and "Outbox_Create fault env1 env2 clock params t = (t', Inr x)"
  shows "outbox_inv t' \<and>
         (\<exists>m. find_row (active_with (co_topic params) (co_key params)) t' = Some m \<and> x = outboxModelToEvent m)"
proof -
  let ?act = "active_with (co_topic params) (co_key params)"
  show ?thesis
  proof (cases "find_row ?act t")
    case (Some m)
    then show ?thesis using assms(1,4)
      by (auto simp: Outbox_Create_def findActiveByTopicKey_def split: option.splits)
  next
    case None
    obtain p where p: "marshalOutboxPayload (co_payload params) = Inr p"
      using assms(4) None
      by (cases "marshalOutboxPayload (co_payload params)")
        (auto simp: Outbox_Create_def findActiveByTopicKey_def split: option.splits)
    define now where "now = (if is_zero_time (co_created_at params) then clock else co_created_at params)"
    obtain t1 r where ins: "outbox_insert (fault OutboxInsert) params p now (env1 t) = (t1, r)" by fastforce
    have inv1: "outbox_inv t1"
      using outbox_insert_inv [OF assms(2) [OF assms(1)], of "fault OutboxInsert" params p now] ins by simp
    show ?thesis
    proof (cases r)
      case (Inr m)
      have "t' = t1" "x = outboxModelToEvent m"
        using assms(4) None p ins Inr
        by (auto simp: Outbox_Create_def findActiveByTopicKey_def Let_def now_def [symmetric] split: option.splits)
      moreover have "m \<in> set (rows t1)" "?act m"
        using ins Inr by (auto simp: outbox_insert_def active_with_iff split: option.splits if_splits)
      ultimately show ?thesis using outbox_find_active [OF inv1] inv1 by blast
    next
      case (Inl err)
      have "t' = env2 t1 \<and> (\<exists>m. find_row ?act t' = Some m \<and> x = outboxModelToEvent m)"
        using assms(4) None p ins Inl
        by (auto simp: Outbox_Create_def findActiveByTopicKey_def Let_def now_def [symmetric]
            split: option.splits if_splits)
      then show ?thesis using assms(3) [OF inv1] by blast
    qed
  qed
qed

lemma dispatch_round:
  fixes env :: dispatch_env and s :: outbox_world and c :: string and d :: outbox_dispatcher
    and busy :: "int \<Rightarrow> bool" and now :: time
  assumes "quiet env" "outbox_inv (ow_table s)" "c \<noteq> []"
  defines "ms \<equiv> ready_models busy now (od_batch_size d) (ow_table s)"
  shows "\<exists>s'. DispatchReady d no_faults busy env c now s = (s', Inr ()) \<and>
           ow_log s' = ow_log s @ concat (map (\<lambda>m. stored_by (de_write env (om_id m)) (outbox_content m)) ms) \<and>
           (\<forall>i. outbox_lookup (ow_table s') i =
                map_option (\<lambda>m. if m \<in> set ms then dispatched d env now m else m) (outbox_lookup (ow_table s) i))"
proof -
  let ?l = "time_add now (od_claim_ttl d)" and ?g = "outbox_claimed c (time_add now (od_claim_ttl d)) now"
  let ?t = "claim_batch busy now (od_batch_size d) c ?l (ow_table s)"
  have inv: "outbox_inv ?t" by (rule claim_batch_inv [OF assms(2,3)])
  have look: "outbox_lookup ?t i = map_option (\<lambda>m. if m \<in> set ms then ?g m else m) (outbox_lookup (ow_table s) i)" for i
    unfolding ms_def by (rule claim_batch_lookup [OF assms(2)])
  have row: "outbox_lookup (ow_table s) (om_id m) = Some m" if "m \<in> set ms" for m
    using outbox_lookup_row [OF assms(2)] ready_modelsD(1) [OF assms(2)] that unfolding ms_def by blast
  have ids: "om_id ` set (map ?g ms) = om_id ` set ms" by (simp add: image_image)
  have "distinct (map om_id (map ?g ms))"
    using ready_models_props(1) [OF assms(2)] by (simp add: comp_def ms_def)
  moreover have "outbox_lookup ?t (om_id m) = Some m \<and> outbox_held m c" if "m \<in> set (map ?g ms)" for m
    using that look row by (auto simp: outbox_held_def)
  ultimately obtain s' where s': "dispatch_events d env c now (map outboxModelToEvent (map ?g ms)) (s\<lparr>ow_table := ?t\<rparr>) = (s', Inr ())"
    "ow_log s' = ow_log s @ concat (map (\<lambda>m. stored_by (de_write env (om_id m)) (outbox_content m)) (map ?g ms))"
    "\<forall>m \<in> set (map ?g ms). outbox_lookup (ow_table s') (om_id m) = Some (dispatched d env now m)"
    "\<forall>i. i \<notin> om_id ` set ms \<longrightarrow> outbox_lookup (ow_table s') i = outbox_lookup ?t i"
    using dispatch_events_quiet [OF assms(1), of "s\<lparr>ow_table := ?t\<rparr>" "map ?g ms" c d now] inv ids by auto
  have "outbox_lookup (ow_table s') i =
      map_option (\<lambda>m. if m \<in> set ms then dispatched d env now m else m) (outbox_lookup (ow_table s) i)" for i
  proof (cases "i \<in> om_id ` set ms")
    case True
    then obtain m where "m \<in> set ms" "i = om_id m" by blast
    then show ?thesis using s'(3) row by auto
  next
    case False
    then show ?thesis using s'(4) look [of i] outbox_lookup_in [of "ow_table s" i]
      by (cases "outbox_lookup (ow_table s) i") auto
  qed
  moreover have "ow_log s' = ow_log s @ concat (map (\<lambda>m. stored_by (de_write env (om_id m)) (outbox_content m)) ms)"
    using s'(2) by (simp add: comp_def)
  moreover have "DispatchReady d no_faults busy env c now s = (s', Inr ())"
    using Outbox_ClaimReady_ok(1) [OF assms(2,3), of busy now "od_batch_size d" ?l] s'(1)
    by (simp add: DispatchReady_def ms_def)
  ultimately show ?thesis by blast
qed

subsection \<open>Properties of the outbox\<close>

definition sample_outbox_params :: "string \<Rightarrow> create_outbox_event_params" where
  "sample_outbox_params key =
     \<lparr>co_topic = ''collection.requested'', co_key = key, co_payload = RawPayload (NotJson key), co_created_at = 10\<rparr>"

definition sample_outbox_table :: outbox_table where
  "sample_outbox_table = fst (outbox_insert None (sample_outbox_params ''k1'') (NotJson ''k1'') 10 empty_table)"

definition sample_outbox_row :: outbox_event_model where
  "sample_outbox_row = new_outbox_event (sample_outbox_params ''k1'') (NotJson ''k1'') 10 1"

definition sample_outbox_world :: outbox_world where
  "sample_outbox_world = \<lparr>ow_table = sample_outbox_table, ow_log = [], ow_seen = []\<rparr>"

definition sample_env :: "write_outcome \<Rightarrow> dispatch_env" where
  "sample_env w = \<lparr>de_write = (\<lambda>_. w), de_mark = (\<lambda>_. no_faults), de_other = (\<lambda>_ s. s)\<rparr>"

lemma sample_outbox_table_rows: "sample_outbox_table = \<lparr>rows = [sample_outbox_row], seq = 1\<rparr>"
  by (simp add: sample_outbox_table_def sample_outbox_row_def outbox_insert_def empty_table_def
      find_row_def insert_row_def)

lemma sample_outbox_inv: "outbox_inv sample_outbox_table"
  unfolding sample_outbox_table_def by (rule outbox_insert_inv) simp

lemma sample_outbox_ready: "0 < n \<Longrightarrow> ready_models (\<lambda>_. False) 20 n sample_outbox_table = [sample_outbox_row]"
  by (simp add: ready_models_def outbox_order_def select_rows_def sample_outbox_table_rows outbox_limit_def
      outboxReadyForClaimFilter_def outbox_due_def)
    (simp add: sample_outbox_row_def new_outbox_event_def)

lemma sample_env_quiet: "quiet (sample_env w)"
  by (simp add: quiet_def sample_env_def)

lemma sample_outbox_step: "outbox_step outbox_init sample_outbox_world"
  using outbox_step.produce [of outbox_init None "sample_outbox_params ''k1''" "NotJson ''k1''" 10]
  by (simp add: outbox_init_def sample_outbox_world_def sample_outbox_table_def)

lemma sample_dispatch_step:
  "outbox_step s (fst (DispatchReady (NewOutboxDispatcher []) no_faults (\<lambda>_. False) (sample_env w) ''c1'' 20 s))"
  by (rule outbox_step.dispatch) (simp add: sample_env_def)

text \<open>
  C4. However producers and dispatchers interleave, whatever the broker and the database
  answer and wherever a dispatcher stops: an event that the table says was sent is in the
  broker's log, with its topic, key and payload.
\<close>

theorem outbox_sent_was_published:
  assumes "outbox_step\<^sup>*\<^sup>* outbox_init s" "m \<in> set (rows (ow_table s))" "om_status m = ''sent''"
  shows "\<lparr>ev_topic = om_topic m, ev_key = om_event_key m, ev_value = om_payload_json m\<rparr> \<in> set (ow_log s)"
  using outbox_steps_good [OF assms(1) outbox_init_good] assms(2,3)
  by (simp add: outbox_good_def outbox_published_def outbox_content_def)

theorem outbox_sent_was_published_witness:
  "\<exists>(s :: outbox_world) m. m \<in> set (rows (ow_table s)) \<and> om_status m = ''sent'' \<and>
     \<lparr>ev_topic = om_topic m, ev_key = om_event_key m, ev_value = om_payload_json m\<rparr> \<in> set (ow_log s)"
proof -
  let ?s = "fst (DispatchReady (NewOutboxDispatcher []) no_faults (\<lambda>_. False) (sample_env Acked) ''c1'' 20 sample_outbox_world)"
  have steps: "outbox_step\<^sup>*\<^sup>* outbox_init ?s"
    by (rule rtranclp.rtrancl_into_rtrancl [of outbox_step, OF r_into_rtranclp, OF sample_outbox_step sample_dispatch_step])
  let ?d = "NewOutboxDispatcher []"
  have d: "od_batch_size ?d = 100" by (simp add: NewOutboxDispatcher_def)
  have "outbox_lookup sample_outbox_table 1 = Some sample_outbox_row"
    by (simp add: outbox_lookup_def sample_outbox_table_rows find_row_def sample_outbox_row_def)
  moreover have "dispatched ?d (sample_env Acked) 20 sample_outbox_row = sent_updates 20 sample_outbox_row"
    by (simp add: dispatched_def sample_env_def)
  moreover obtain s' where "DispatchReady ?d no_faults (\<lambda>_. False) (sample_env Acked) ''c1'' 20 sample_outbox_world = (s', Inr ())"
    "\<And>i. outbox_lookup (ow_table s') i =
        map_option (\<lambda>m. if m \<in> set (ready_models (\<lambda>_. False) 20 (od_batch_size ?d) sample_outbox_table)
          then dispatched ?d (sample_env Acked) 20 m else m) (outbox_lookup sample_outbox_table i)"
    using dispatch_round [of "sample_env Acked" sample_outbox_world "''c1''" ?d "\<lambda>_. False" 20]
      sample_env_quiet sample_outbox_inv by (force simp: sample_outbox_world_def)
  ultimately have "outbox_lookup (ow_table ?s) 1 = Some (sent_updates 20 sample_outbox_row)"
    using d by (simp add: sample_outbox_ready)
  then have m: "sent_updates 20 sample_outbox_row \<in> set (rows (ow_table ?s))"
    using outbox_lookup_in by blast
  have st: "om_status (sent_updates 20 sample_outbox_row) = ''sent''" by (simp add: sent_updates_def)
  show ?thesis by (intro exI conjI) (rule m st outbox_sent_was_published [OF steps m st])+
qed

text \<open>
  However producers and dispatchers interleave, the outbox never holds two active events
  with one topic and key, an event under way has a claim and a lease and no other has, and
  exactly the sent events carry the time of sending.
\<close>

theorem outbox_one_active_per_key:
  assumes "outbox_step\<^sup>*\<^sup>* outbox_init s"
  shows "distinct (map outbox_address (filter (\<lambda>m. isActiveOutboxStatus (om_status m)) (rows (ow_table s)))) \<and>
         list_all outbox_row_ok (rows (ow_table s)) \<and> distinct (map om_id (rows (ow_table s)))"
proof -
  have "outbox_active = (\<lambda>m. isActiveOutboxStatus (om_status m))" by (simp add: fun_eq_iff outbox_active_def)
  then show ?thesis
    using outbox_steps_good [OF assms outbox_init_good]
    by (auto simp: outbox_good_def outbox_inv_def intro: wf_distinct)
qed

theorem outbox_one_active_per_key_witness:
  "distinct (map outbox_address (filter (\<lambda>m. isActiveOutboxStatus (om_status m)) (rows (ow_table sample_outbox_world))))"
  using outbox_one_active_per_key [OF r_into_rtranclp [of outbox_step, OF sample_outbox_step]] by blast

text \<open>
  A round that nothing interferes with handles exactly the ready events, first due first
  and at most a batch of them: each is written once, becomes sent if the broker
  acknowledges, and otherwise failed with one more attempt, the error's text and a next
  attempt after the backoff; no other row changes and the round succeeds.
\<close>

theorem dispatch_round_effect:
  fixes env :: dispatch_env and s :: outbox_world and c :: string and d :: outbox_dispatcher
    and busy :: "int \<Rightarrow> bool" and now :: time
  assumes "quiet env" "outbox_inv (ow_table s)" "c \<noteq> []"
  defines "ms \<equiv> ready_models busy now (od_batch_size d) (ow_table s)"
  shows "\<exists>s'. DispatchReady d no_faults busy env c now s = (s', Inr ()) \<and>
           ow_log s' = ow_log s @ concat (map (\<lambda>m. stored_by (de_write env (om_id m)) (outbox_content m)) ms) \<and>
           (\<forall>i. outbox_lookup (ow_table s') i =
                map_option (\<lambda>m. if m \<in> set ms then dispatched d env now m else m) (outbox_lookup (ow_table s) i))"
  unfolding ms_def by (rule dispatch_round [OF assms(1-3)])

theorem dispatch_round_effect_witness:
  "\<exists>s'. DispatchReady (NewOutboxDispatcher [WithOutboxBatchSize 5]) no_faults (\<lambda>_. False)
       (sample_env (WriteFailed (Plain ''down'') False)) ''c1'' 20 sample_outbox_world = (s', Inr ()) \<and>
     ow_log s' = [] \<and>
     map_option om_next_attempt_at (outbox_lookup (ow_table s') 1) = Some (20 + minute)"
proof -
  let ?d = "NewOutboxDispatcher [WithOutboxBatchSize 5]"
  have d: "od_batch_size ?d = 5" "od_backoff ?d = minute"
    by (simp_all add: NewOutboxDispatcher_def WithOutboxBatchSize_def)
  have i: "outbox_lookup sample_outbox_table 1 = Some sample_outbox_row"
    by (simp add: outbox_lookup_def sample_outbox_table_rows find_row_def sample_outbox_row_def)
  have "om_attempts sample_outbox_row = 0" by (simp add: sample_outbox_row_def new_outbox_event_def)
  then show ?thesis
    using dispatch_round_effect [of "sample_env (WriteFailed (Plain ''down'') False)" sample_outbox_world "''c1''"
        ?d "\<lambda>_. False" 20] sample_env_quiet sample_outbox_inv i d sample_outbox_ready
    by (auto simp: sample_outbox_world_def sample_env_def stored_by_def dispatched_def
        outbox_failed_updates_def retryBackoff_def wrap64_def)
qed

text \<open>
  A batch that a dispatcher has claimed is never handed out a second time while its lease
  lasts, to no dispatcher, as long as the rows stay as the claim left them; and a batch
  holds each row once and at most the limit, which is 100 when none was given.
\<close>

theorem outbox_lease_exclusive:
  assumes "outbox_inv t" "Outbox_ClaimReady fault busy now limit c l t = (t1, Inr (xs, n))"
    and "\<And>x. x \<in> set xs \<Longrightarrow> outbox_lookup t2 (ox_id x) = outbox_lookup t1 (ox_id x)"
    and "outbox_inv t2" "Outbox_ClaimReady fault' busy' now' limit' c' l' t2 = (t3, Inr (ys, n'))" "now' < l"
  shows "set (map ox_id xs) \<inter> set (map ox_id ys) = {} \<and> distinct (map ox_id xs) \<and>
         int (length xs) \<le> (if limit \<le> 0 then 100 else limit)"
proof -
  have 1: "t1 = claim_batch busy now limit c l t"
    "xs = map (outboxModelToEvent \<circ> outbox_claimed c l now) (ready_models busy now limit t)"
    using Outbox_ClaimReady_ok(1) [OF assms(1), of c busy now limit l] Outbox_ClaimReady_ok(2) [OF assms(1,2)]
      assms(2) by simp_all
  have 2: "ys = map (outboxModelToEvent \<circ> outbox_claimed c' l' now') (ready_models busy' now' limit' t2)"
    using Outbox_ClaimReady_ok(1) [OF assms(4), of c' busy' now' limit' l'] Outbox_ClaimReady_ok(2) [OF assms(4,5)]
      assms(5) by simp
  have "ox_id x \<noteq> ox_id y" if xy: "x \<in> set xs" "y \<in> set ys" for x y
  proof
    assume same: "ox_id x = ox_id y"
    obtain m where m: "m \<in> set (ready_models busy now limit t)" "om_id m = ox_id x"
      using xy(1) 1(2) by auto
    have "outbox_lookup t (om_id m) = Some m"
      by (rule outbox_lookup_row [OF assms(1) ready_modelsD(1) [OF assms(1) m(1)]])
    then have "outbox_lookup t2 (ox_id x) = Some (outbox_claimed c l now m)"
      using claim_batch_lookup [OF assms(1), of busy now limit c l "om_id m"] m 1(1) assms(3) [OF xy(1)] by simp
    moreover obtain m' where m': "m' \<in> set (ready_models busy' now' limit' t2)" "om_id m' = ox_id y"
      using xy(2) 2 by auto
    moreover have "outbox_lookup t2 (om_id m') = Some m'"
      by (rule outbox_lookup_row [OF assms(4) ready_modelsD(1) [OF assms(4) m'(1)]])
    ultimately have "m' = outbox_claimed c l now m" using same by simp
    then show False
      using ready_modelsD(2) [OF assms(4) m'(1)] leased_not_ready [of m' l now'] assms(6) by simp
  qed
  then have "set (map ox_id xs) \<inter> set (map ox_id ys) = {}" by auto
  moreover have "distinct (map ox_id xs)"
    using ready_models_props(1) [OF assms(1), of busy now limit] 1(2) by (simp add: comp_def)
  moreover have "int (length xs) \<le> (if limit \<le> 0 then 100 else limit)"
    using ready_models_props(3) [OF assms(1), of busy now limit] 1(2) by (simp add: outbox_limit_def)
  ultimately show ?thesis by blast
qed

theorem outbox_lease_exclusive_witness:
  "\<exists>t1 xs n. Outbox_ClaimReady no_faults (\<lambda>_. False) 20 5 ''c1'' 50 sample_outbox_table = (t1, Inr (xs, n)) \<and>
     map ox_id xs = [1] \<and>
     (\<exists>t3 ys n'. Outbox_ClaimReady no_faults (\<lambda>_. False) 30 5 ''c2'' 60 t1 = (t3, Inr (ys, n')) \<and>
        1 \<notin> set (map ox_id ys))"
proof -
  have i: "om_id sample_outbox_row = 1" by (simp add: sample_outbox_row_def new_outbox_event_def)
  note 1 = Outbox_ClaimReady_ok(1) [OF sample_outbox_inv, of "''c1''" "\<lambda>_. False" 20 5 50]
  define t1 where "t1 = claim_batch (\<lambda>_. False) 20 5 ''c1'' 50 sample_outbox_table"
  have inv: "outbox_inv t1" unfolding t1_def by (rule claim_batch_inv [OF sample_outbox_inv]) simp
  note 2 = Outbox_ClaimReady_ok(1) [OF inv, of "''c2''" "\<lambda>_. False" 30 5 60]
  obtain xs n where xs: "Outbox_ClaimReady no_faults (\<lambda>_. False) 20 5 ''c1'' 50 sample_outbox_table = (t1, Inr (xs, n))"
    "map ox_id xs = [1]"
    using 1 i by (simp add: t1_def sample_outbox_ready)
  obtain t3 ys n' where ys: "Outbox_ClaimReady no_faults (\<lambda>_. False) 30 5 ''c2'' 60 t1 = (t3, Inr (ys, n'))"
    using 2 by simp
  have "set (map ox_id xs) \<inter> set (map ox_id ys) = {}"
    using outbox_lease_exclusive [OF sample_outbox_inv xs(1) refl inv ys] by simp
  with xs ys show ?thesis by auto
qed

text \<open>
  The backoff after a failed attempt doubles exactly as long as it fits 64 bits; with
  the default base of a minute that is for 28 attempts. The 29th delay is negative and from
  the 54th on it is zero, so an event that keeps failing is then ready again at once, and
  since the dispatcher has no limit of attempts it is retried in every round.
\<close>

theorem outbox_backoff_overflows:
  defines "b \<equiv> od_backoff (NewOutboxDispatcher [])"
  shows "(\<forall>n. n \<in> {1..28} \<longrightarrow> retryBackoff b n = minute * 2 ^ nat (n - 1)) \<and>
         retryBackoff b 29 < 0 \<and>
         (\<forall>n. n < 54 \<or> retryBackoff b n = 0)"
proof (intro conjI allI)
  have b: "b = 60000000000" by (simp add: b_def NewOutboxDispatcher_def)
  have "retryBackoff b n = minute * 2 ^ nat (n - 1)" if "n \<in> {1..28}" for n
  proof (cases "n = 1")
    case False
    have "nat (n - 1) \<le> 27" using that by (simp add: nat_le_iff)
    then have "(2::int) ^ nat (n - 1) \<le> 2 ^ 27" by (rule power_increasing) simp
    then show ?thesis using that False b backoff_loop_exact [of b "nat (n - 1)"] by (simp add: retryBackoff_def)
  qed (use b in \<open>simp add: retryBackoff_def\<close>)
  then show "n \<in> {1..28} \<longrightarrow> retryBackoff b n = minute * 2 ^ nat (n - 1)" for n by blast
  show "retryBackoff b 29 < 0"
    using b backoff_loop_wrap [of b 28] by (simp add: retryBackoff_def in_int64_def wrap64_def)
  show "n < 54 \<or> retryBackoff b n = 0" for n
    using b backoff_loop_zero [of b 11 29296875 "nat (n - 1)"]
    by (cases "n < 54") (simp_all add: retryBackoff_def in_int64_def nat_le_eq_zle)
qed

theorem outbox_backoff_overflows_witness:
  "retryBackoff (od_backoff (NewOutboxDispatcher [])) 3 = 4 * minute"
  using outbox_backoff_overflows by (simp add: spec [of _ 3])

lemma producer_inserts:
  fixes clock now2 :: time
  assumes "find_row (active_with TopicCollectionRequested (idempotencyKey (req_source_id req))) t = None" "task_id \<noteq> ''''"
    and "marshal_requested (new_requested task_id req now1) = Some p"
    and "unmarshal_requested p = Some (new_requested task_id req now1)"
  shows "OutboxProducer_RequestCollection no_faults (\<lambda>t. t) (\<lambda>t. t) clock task_id now1 now2 req t =
    (insert_row (new_outbox_event \<lparr>co_topic = TopicCollectionRequested, co_key = idempotencyKey (req_source_id req),
       co_payload = RequestPayload (new_requested task_id req now1), co_created_at = now2\<rparr> p
       (if is_zero_time now2 then clock else now2)) t,
     Inr \<lparr>rcr_task_id = task_id, rcr_source_id = req_source_id req, rcr_status = RunStatusQueued\<rparr>)"
proof -
  have v: "ox_value (outboxModelToEvent (new_outbox_event params p n i)) = p" for params n i
    by (simp add: outboxModelToEvent_def new_outbox_event_def)
  have "cr_task_id (new_requested task_id req now1) = task_id" by (simp add: new_requested_def)
  then show ?thesis
    using assms v
    by (simp add: OutboxProducer_RequestCollection_def Outbox_Create_def findActiveByTopicKey_def marshalOutboxPayload_def
        outbox_insert_def Let_def)
qed

text \<open>
  Requests for a source are merged while one is under way: with nothing else going on, a
  request stores one event with a decodable payload for it and answers "queued" with that
  event's task id, and a second request finds the event, stores nothing and answers the
  same task id.
\<close>

theorem outbox_request_merged:
  fixes clock now2 :: time
  assumes "outbox_inv t" "find_row (active_with TopicCollectionRequested (idempotencyKey (req_source_id req))) t = None"
    and "requested_wf (new_requested task_id req now1)" "task_id \<noteq> []" "req_source_id req' = req_source_id req"
  defines "r1 \<equiv> OutboxProducer_RequestCollection no_faults (\<lambda>t. t) (\<lambda>t. t) clock task_id now1 now2 req t"
    and "resp \<equiv> \<lparr>rcr_task_id = task_id, rcr_source_id = req_source_id req, rcr_status = ''queued''\<rparr>"
  shows "\<exists>p now. unmarshal_requested p = Some (new_requested task_id req now1) \<and>
           r1 = (insert_row (new_outbox_event \<lparr>co_topic = TopicCollectionRequested,
                   co_key = idempotencyKey (req_source_id req), co_payload = RequestPayload (new_requested task_id req now1),
                   co_created_at = now2\<rparr> p now) t, Inr resp) \<and>
           OutboxProducer_RequestCollection no_faults (\<lambda>t. t) (\<lambda>t. t) clock' task_id' now1' now2' req' (fst r1) =
             (fst r1, Inr resp)"
proof -
  let ?key = "idempotencyKey (req_source_id req)"
  let ?params = "\<lparr>co_topic = TopicCollectionRequested, co_key = ?key,
      co_payload = RequestPayload (new_requested task_id req now1), co_created_at = now2\<rparr>"
  define now where "now = (if is_zero_time now2 then clock else now2)"
  obtain p where p: "marshal_requested (new_requested task_id req now1) = Some p"
    using marshal_requested_Some [OF assms(3)] by blast
  have q: "unmarshal_requested p = Some (new_requested task_id req now1)"
    by (rule unmarshal_marshal_requested [OF assms(3) p])
  let ?m = "new_outbox_event ?params p now (seq t + 1)"
  have v: "ox_value (outboxModelToEvent (new_outbox_event params p n i)) = p" for params n i
    by (simp add: outboxModelToEvent_def new_outbox_event_def)
  have tid: "cr_task_id (new_requested task_id req now1) = task_id" by (simp add: new_requested_def)
  have r1: "r1 = (insert_row (new_outbox_event ?params p now) t, Inr resp)"
    using producer_inserts [OF assms(2,4) p q, of clock now2] by (simp add: r1_def resp_def now_def)
  have "outbox_inv (fst r1)"
    using outbox_insert_inv [OF assms(1), of None ?params p now] assms(2) r1 by (simp add: outbox_insert_def)
  moreover have "?m \<in> set (rows (fst r1))" by (simp add: r1)
  moreover have "active_with TopicCollectionRequested ?key ?m" by (simp add: active_with_iff)
  ultimately have "find_row (active_with TopicCollectionRequested ?key) (fst r1) = Some ?m"
    by (rule outbox_find_active)
  then have "OutboxProducer_RequestCollection no_faults (\<lambda>t. t) (\<lambda>t. t) clock' task_id' now1' now2' req' (fst r1) =
      (fst r1, Inr resp)"
    using assms(4,5) v q tid
    by (simp add: OutboxProducer_RequestCollection_def Outbox_Create_def findActiveByTopicKey_def resp_def Let_def)
  with q r1 show ?thesis by blast
qed

theorem outbox_request_merged_witness:
  "\<exists>t'. OutboxProducer_RequestCollection no_faults (\<lambda>t. t) (\<lambda>t. t) 5 ''t9'' 70 80
      \<lparr>req_user_id = 7, req_source_id = 3\<rparr> t' =
      (t', Inr \<lparr>rcr_task_id = ''t1'', rcr_source_id = 3, rcr_status = ''queued''\<rparr>)"
proof -
  have "requested_wf (new_requested ''t1'' \<lparr>req_user_id = 7, req_source_id = 3\<rparr> 50)"
    by (simp add: requested_wf_def new_requested_def in_int64_def time_marshalable_def)
  with outbox_request_merged [OF outbox_inv_empty, of "\<lparr>req_user_id = 7, req_source_id = 3\<rparr>" "''t1''" 50
      "\<lparr>req_user_id = 7, req_source_id = 3\<rparr>" 5 60 5 "''t9''" 70 80]
  show ?thesis by (auto simp: find_row_def)
qed

text \<open>
  Whatever other processes do to the table while \<open>Create\<close> runs, as long as they keep its
  invariant: if it succeeds, it returns the one active event of the topic and key, and that
  event is in the table.
\<close>

theorem outbox_create_returns_active:
  assumes "outbox_inv t" "\<And>t. outbox_inv t \<Longrightarrow> outbox_inv (env1 t)" "\<And>t. outbox_inv t \<Longrightarrow> outbox_inv (env2 t)"
    and "Outbox_Create fault env1 env2 clock params t = (t', Inr x)"
  shows "outbox_inv t' \<and>
         (\<exists>m. find_row (active_with (co_topic params) (co_key params)) t' = Some m \<and> x = outboxModelToEvent m)"
  by (rule Outbox_Create_result [OF assms])

theorem outbox_create_returns_active_witness:
  "\<exists>t' x. Outbox_Create no_faults (\<lambda>_. sample_outbox_table) (\<lambda>t. t) 5 (sample_outbox_params ''k1'') empty_table =
       (t', Inr x) \<and> x = outboxModelToEvent sample_outbox_row \<and> outbox_inv t'"
proof -
  have a: "active_with (co_topic (sample_outbox_params ''k1'')) (co_key (sample_outbox_params ''k1'')) sample_outbox_row"
    by (simp add: active_with_iff sample_outbox_row_def)
  have pay: "co_payload (sample_outbox_params ''k1'') = RawPayload (NotJson ''k1'')"
    by (simp add: sample_outbox_params_def)
  from a have "Outbox_Create no_faults (\<lambda>_. sample_outbox_table) (\<lambda>t. t) 5 (sample_outbox_params ''k1'') empty_table =
      (burn_seq sample_outbox_table, Inr (outboxModelToEvent sample_outbox_row))"
    by (simp add: Outbox_Create_def findActiveByTopicKey_def marshalOutboxPayload_def outbox_insert_def find_row_def
        sample_outbox_table_rows Let_def pay)
  then show ?thesis
    using outbox_create_returns_active [of empty_table "\<lambda>_. sample_outbox_table" "\<lambda>t. t" no_faults 5
        "sample_outbox_params ''k1''"] sample_outbox_inv by auto
qed

end
