(* ===== verification/Worker.thy ===== *)
theory Worker
  imports Dead_Letters Outbox
begin

section \<open>The collection worker\<close>

text \<open>
  The consumer of \<open>collection.requested\<close> (\<open>internal/module/collectionjob/worker.go\<close>): it
  validates a message, claims the task, calls the collection service and records the outcome
  as events and in the tables. The collection service is a parameter \<open>collect\<close> with a state
  of its own; clock readings, random ids, broker and database answers are the \<open>worker_env\<close>
  of a message.
\<close>

record worker =
  wk_max_attempts :: int
  wk_backoff :: duration
  wk_claim_ttl :: duration
  wk_has_dlq :: bool
  wk_has_execs :: bool
  wk_observed :: bool

definition WithMaxAttempts :: "int \<Rightarrow> worker \<Rightarrow> worker" where
  "WithMaxAttempts n w = (if n > 0 then w\<lparr>wk_max_attempts := n\<rparr> else w)"

definition WithRetryBackoff :: "duration \<Rightarrow> worker \<Rightarrow> worker" where
  "WithRetryBackoff base w = (if base > 0 then w\<lparr>wk_backoff := base\<rparr> else w)"

definition WithJobObserver :: "bool \<Rightarrow> worker \<Rightarrow> worker" where
  "WithJobObserver given w = w\<lparr>wk_observed := given\<rparr>"

definition WithDLQRepository :: "bool \<Rightarrow> worker \<Rightarrow> worker" where
  "WithDLQRepository given w = w\<lparr>wk_has_dlq := given\<rparr>"

definition WithJobExecutionRepository :: "bool \<Rightarrow> worker \<Rightarrow> worker" where
  "WithJobExecutionRepository given w = w\<lparr>wk_has_execs := given\<rparr>"

definition NewWorker :: "(worker \<Rightarrow> worker) list \<Rightarrow> worker" where
  "NewWorker opts =
     fold (\<lambda>opt w. opt w) opts
       \<lparr>wk_max_attempts = 3, wk_backoff = minute, wk_claim_ttl = 10 * minute,
        wk_has_dlq = False, wk_has_execs = False, wk_observed = False\<rparr>"

record 'svc worker_world =
  ww_execs :: exec_table
  ww_dlq :: dlq_table
  ww_log :: event_log
  ww_seen :: observations
  ww_svc :: 'svc

type_synonym 'svc collect_fn =
  "collect_source_request \<Rightarrow> 'svc \<Rightarrow> 'svc \<times> collect_source_response option result"

datatype now_site = AtWait | AtClaim | AtCompleted | AtFailed | AtRetry | AtDLQ | AtMark

record worker_env =
  we_now :: "now_site \<Rightarrow> time"
  we_sleep :: "duration \<Rightarrow> go_error option"
  we_claim_id :: string
  we_claim :: "claim_stmt faults"
  we_mark :: "mark_stmt faults"
  we_dlq :: "dlq_stmt faults"
  we_write :: "string \<Rightarrow> write_outcome"


subsection \<open>Validation and waiting\<close>

text \<open>\<open>%q\<close> in an error text, without the escapes of special characters.\<close>

definition quoted :: "string \<Rightarrow> string" where
  "quoted s = CHR 0x22 # s @ [CHR 0x22]"

definition validateCollectionRequestedMessage :: "message \<Rightarrow> collection_requested \<Rightarrow> unit result" where
  "validateCollectionRequestedMessage msg ev =
     (if msg_topic msg \<noteq> '''' \<and> msg_topic msg \<noteq> TopicCollectionRequested then
        Inl (sentinel_with ErrInvalidMessage (''unexpected topic '' @ quoted (msg_topic msg)))
      else if trim_space (cr_task_id ev) = '''' then Inl (sentinel_with ErrInvalidMessage ''missing task_id'')
      else if cr_user_id ev \<le> 0 then Inl (sentinel_with ErrInvalidMessage ''invalid user_id'')
      else if cr_source_id ev \<le> 0 then Inl (sentinel_with ErrInvalidMessage ''invalid source_id'')
      else if trim_space (cr_idempotency_key ev) = '''' then
        Inl (sentinel_with ErrInvalidMessage ''missing idempotency_key'')
      else if cr_attempt ev < 0 then Inl (sentinel_with ErrInvalidMessage ''invalid attempt'')
      else if is_zero_time (cr_requested_at ev) then
        Inl (sentinel_with ErrInvalidMessage ''missing requested_at'')
      else if length (msg_key msg) > 0 \<and> msg_key msg \<noteq> cr_idempotency_key ev then
        Inl (sentinel_with ErrInvalidMessage ''message key does not match idempotency_key'')
      else Inr ())"

definition waitUntilNextAttempt :: "worker_env \<Rightarrow> collection_requested \<Rightarrow> unit result" where
  "waitUntilNextAttempt env ev =
     (if is_zero_time (cr_next_attempt_at ev) then Inr ()
      else let delay = time_sub (cr_next_attempt_at ev) (we_now env AtWait) in
        if delay \<le> 0 then Inr ()
        else case we_sleep env delay of
          Some e \<Rightarrow> Inl (Wrapf ''wait for next collection attempt: '' e '''')
        | None \<Rightarrow> Inr ())"


subsection \<open>Events and execution records\<close>

definition worker_observeJob :: "worker \<Rightarrow> string \<Rightarrow> string \<Rightarrow> 'svc worker_world \<Rightarrow> 'svc worker_world" where
  "worker_observeJob w topic status s =
     (if wk_observed w then s\<lparr>ww_seen := ww_seen s @ [(topic, status)]\<rparr> else s)"

definition writeJSON ::
  "worker \<Rightarrow> worker_env \<Rightarrow> string \<Rightarrow> string \<Rightarrow> payload option \<Rightarrow> 'svc worker_world \<Rightarrow>
     'svc worker_world \<times> unit result" where
  "writeJSON w env topic key marshalled s =
     (case marshalled of
        None \<Rightarrow> (s, Inl (Wrapf (''marshal '' @ topic @ '' event: '') marshal_time_error ''''))
      | Some data \<Rightarrow>
        (case event_write (we_write env topic) \<lparr>ev_topic = topic, ev_key = key, ev_value = data\<rparr> (ww_log s) of
           (log, Inl e) \<Rightarrow>
             (worker_observeJob w topic ''failed'' (s\<lparr>ww_log := log\<rparr>),
              Inl (Wrapf (''write '' @ topic @ '' event: '') e ''''))
         | (log, Inr _) \<Rightarrow> (worker_observeJob w topic ''success'' (s\<lparr>ww_log := log\<rparr>), Inr ())))"

definition claimExecution ::
  "worker \<Rightarrow> worker_env \<Rightarrow> collection_requested \<Rightarrow> 'svc worker_world \<Rightarrow>
     'svc worker_world \<times> (string \<times> bool) result" where
  "claimExecution w env ev s =
     (if \<not> wk_has_execs w then (s, Inr ('''', True))
      else let now = we_now env AtClaim in
        case JobExecution_Claim (we_claim env) ev (we_claim_id env) now (time_add now (wk_claim_ttl w)) (ww_execs s) of
          (t, Inl e) \<Rightarrow> (s\<lparr>ww_execs := t\<rparr>, Inl (Wrapf ''claim collection job execution: '' e ''''))
        | (t, Inr (_, shouldProcess)) \<Rightarrow> (s\<lparr>ww_execs := t\<rparr>, Inr (we_claim_id env, shouldProcess)))"

definition markExecution ::
  "worker \<Rightarrow> string \<Rightarrow> (exec_table \<Rightarrow> exec_table \<times> job_execution result) \<Rightarrow> 'svc worker_world \<Rightarrow>
     'svc worker_world \<times> unit result" where
  "markExecution w what mark s =
     (if \<not> wk_has_execs w then (s, Inr ())
      else case mark (ww_execs s) of
        (t, Inl e) \<Rightarrow> (s\<lparr>ww_execs := t\<rparr>, Inl (Wrapf (''mark collection job execution '' @ what @ '': '') e ''''))
      | (t, Inr _) \<Rightarrow> (s\<lparr>ww_execs := t\<rparr>, Inr ()))"

definition markExecutionSucceeded ::
  "worker \<Rightarrow> worker_env \<Rightarrow> string \<Rightarrow> string \<Rightarrow> int \<Rightarrow> 'svc worker_world \<Rightarrow> 'svc worker_world \<times> unit result" where
  "markExecutionSucceeded w env task_id claim_id rid s =
     markExecution w ''succeeded'' (JobExecution_MarkSucceeded (we_mark env) task_id claim_id rid (we_now env AtMark)) s"

definition markExecutionFailed ::
  "worker \<Rightarrow> worker_env \<Rightarrow> string \<Rightarrow> string \<Rightarrow> int \<Rightarrow> go_error \<Rightarrow> 'svc worker_world \<Rightarrow>
     'svc worker_world \<times> unit result" where
  "markExecutionFailed w env task_id claim_id attempt cause s =
     markExecution w ''failed''
       (JobExecution_MarkFailed (we_mark env) task_id claim_id attempt (error_text cause) (we_now env AtMark)) s"

definition markExecutionDLQ ::
  "worker \<Rightarrow> worker_env \<Rightarrow> string \<Rightarrow> string \<Rightarrow> go_error \<Rightarrow> 'svc worker_world \<Rightarrow>
     'svc worker_world \<times> unit result" where
  "markExecutionDLQ w env task_id claim_id cause s =
     markExecution w ''dlq''
       (JobExecution_MarkDLQ (we_mark env) task_id claim_id (error_text cause) (we_now env AtMark)) s"

definition writeDLQ ::
  "worker \<Rightarrow> worker_env \<Rightarrow> collection_requested \<Rightarrow> go_error \<Rightarrow> 'svc worker_world \<Rightarrow>
     'svc worker_world \<times> unit result" where
  "writeDLQ w env ev cause s =
     (if wk_has_dlq w then
        case DLQ_Create (we_dlq env) (we_now env AtDLQ)
               \<lparr>cd_event = ev, cd_error_message = error_text cause, cd_created_at = we_now env AtDLQ\<rparr> (ww_dlq s) of
          (t, Inl e) \<Rightarrow> (s\<lparr>ww_dlq := t\<rparr>, Inl (Wrapf ''create dlq item: '' e ''''))
        | (t, Inr _) \<Rightarrow>
            writeJSON w env TopicCollectionDLQ (cr_idempotency_key ev) (marshal_requested ev) (s\<lparr>ww_dlq := t\<rparr>)
      else writeJSON w env TopicCollectionDLQ (cr_idempotency_key ev) (marshal_requested ev) s)"


subsection \<open>Handling a message\<close>

definition failed_event :: "worker_env \<Rightarrow> collection_requested \<Rightarrow> go_error \<Rightarrow> collection_failed" where
  "failed_event env ev cause =
     \<lparr>cf_task_id = cr_task_id ev, cf_source_id = cr_source_id ev, cf_attempt = cr_attempt ev,
      cf_error_message = error_text cause, cf_failed_at = we_now env AtFailed,
      cf_idempotency_key = cr_idempotency_key ev, cf_original_requested = cr_requested_at ev\<rparr>"

definition completed_event ::
  "worker_env \<Rightarrow> collection_requested \<Rightarrow> collect_source_response \<Rightarrow> collection_completed" where
  "completed_event env ev resp =
     \<lparr>cc_task_id = cr_task_id ev, cc_source_id = cr_source_id ev, cc_run_id = resp_run_id resp,
      cc_fetched_count = resp_fetched_count resp, cc_inserted_count = resp_inserted_count resp,
      cc_duplicated_count = resp_duplicated_count resp, cc_completed_at = we_now env AtCompleted,
      cc_idempotency_key = cr_idempotency_key ev, cc_original_requested = cr_requested_at ev\<rparr>"

definition next_try :: "worker \<Rightarrow> worker_env \<Rightarrow> collection_requested \<Rightarrow> collection_requested" where
  "next_try w env ev =
     (let nextAttempt = wrap64 (cr_attempt ev + 1) in
      ev\<lparr>cr_attempt := nextAttempt,
         cr_next_attempt_at := time_add (we_now env AtRetry) (retryBackoff (wk_backoff w) nextAttempt)\<rparr>)"

definition handleFailed ::
  "worker \<Rightarrow> worker_env \<Rightarrow> collection_requested \<Rightarrow> string \<Rightarrow> go_error \<Rightarrow> 'svc worker_world \<Rightarrow>
     'svc worker_world \<times> unit result" where
  "handleFailed w env ev claim_id cause s =
     bind_st (writeJSON w env TopicCollectionFailed (cr_idempotency_key ev)
                (marshal_failed (failed_event env ev cause)) s)
       (\<lambda>s _.
          let nextAttempt = wrap64 (cr_attempt ev + 1) in
          if IsPermanentError cause \<or> nextAttempt \<ge> wk_max_attempts w then
            bind_st (writeDLQ w env ev cause s)
              (\<lambda>s _. markExecutionDLQ w env (cr_task_id ev) claim_id cause s)
          else
            (let ev' = next_try w env ev in
             bind_st (writeJSON w env TopicCollectionRequested (cr_idempotency_key ev') (marshal_requested ev') s)
               (\<lambda>s _. markExecutionFailed w env (cr_task_id ev') claim_id (wrap64 (cr_attempt ev' - 1)) cause s)))"

definition HandleMessage ::
  "worker \<Rightarrow> 'svc collect_fn \<Rightarrow> worker_env \<Rightarrow> message \<Rightarrow> 'svc worker_world \<Rightarrow>
     'svc worker_world \<times> unit result" where
  "HandleMessage w collect env msg s =
     (case unmarshal_requested (msg_value msg) of
        None \<Rightarrow> (s, Inl (sentinel_with ErrInvalidMessage ''json''))
      | Some ev \<Rightarrow>
        (case validateCollectionRequestedMessage msg ev of
           Inl e \<Rightarrow> (s, Inl e)
         | Inr _ \<Rightarrow>
           (case waitUntilNextAttempt env ev of
              Inl e \<Rightarrow> (s, Inl e)
            | Inr _ \<Rightarrow>
                bind_st (claimExecution w env ev s)
                  (\<lambda>s (claim_id, shouldProcess).
                     if \<not> shouldProcess then (s, Inr ())
                     else
                       (case collect \<lparr>req_user_id = cr_user_id ev, req_source_id = cr_source_id ev\<rparr> (ww_svc s) of
                          (svc, Inl cause) \<Rightarrow> handleFailed w env ev claim_id cause (s\<lparr>ww_svc := svc\<rparr>)
                        | (svc, Inr None) \<Rightarrow>
                            markExecutionSucceeded w env (cr_task_id ev) claim_id 0 (s\<lparr>ww_svc := svc\<rparr>)
                        | (svc, Inr (Some resp)) \<Rightarrow>
                            bind_st (writeJSON w env TopicCollectionCompleted (cr_idempotency_key ev)
                                       (marshal_completed (completed_event env ev resp)) (s\<lparr>ww_svc := svc\<rparr>))
                              (\<lambda>s _. markExecutionSucceeded w env (cr_task_id ev) claim_id (resp_run_id resp) s))))))"


subsection \<open>The consuming loop\<close>

text \<open>
  What the reader yields, in order: messages with their offsets, what happens while they
  are handled, and whether a commit is accepted; or an error. The loop returns the offsets
  it has committed; when the list ends the worker is still waiting for a message.
\<close>

datatype read_event =
    ReadMessage int message worker_env "go_error option"
  | ReadError go_error

fun Worker_Run ::
  "worker \<Rightarrow> 'svc collect_fn \<Rightarrow> read_event list \<Rightarrow> 'svc worker_world \<Rightarrow>
     ('svc worker_world \<times> int list) \<times> unit result" where
  "Worker_Run w collect [] s = ((s, []), Inr ())"
| "Worker_Run w collect (ReadError e # rs) s =
     ((s, []), if errors_is e ContextCanceled then Inr () else Inl (Wrapf ''read collection job: '' e ''''))"
| "Worker_Run w collect (ReadMessage off msg env commit # rs) s =
     (let (s1, r) = HandleMessage w collect env msg s;
          committing = (case r of Inr _ \<Rightarrow> True | Inl e \<Rightarrow> errors_is e ErrInvalidMessage) in
      if \<not> committing then Worker_Run w collect rs s1
      else case commit of
        Some e \<Rightarrow> ((s1, []), Inl (Wrapf ''commit collection job: '' e ''''))
      | None \<Rightarrow> (let ((s2, offs), r2) = Worker_Run w collect rs s1 in ((s2, off # offs), r2)))"

subsection \<open>Claims and marks without faults\<close>

lemma claim_ok:
  fixes now l :: time
  assumes "exec_inv t" "cr_task_id ev \<noteq> []" "c \<noteq> []" "job_free (cr_attempt ev) now (abs_jobs t (cr_task_id ev))"
  obtains t1 x where "JobExecution_Claim no_faults ev c now l t = (t1, Inr (x, True))" "exec_inv t1"
    "abs_jobs t1 = (abs_jobs t)(cr_task_id ev := Working (cr_attempt ev) c l)"
proof -
  obtain x where x: "snd (JobExecution_Claim no_faults ev c now l t) = Inr (x, True)"
    using claim_refines(2) [OF assms(1-3), of now l] assms(4) by blast
  show thesis
  proof (rule that)
    show "JobExecution_Claim no_faults ev c now l t = (fst (JobExecution_Claim no_faults ev c now l t), Inr (x, True))"
      using x by (metis prod.collapse)
    show "exec_inv (fst (JobExecution_Claim no_faults ev c now l t))" by (rule JobExecution_Claim_inv [OF assms(1)])
    show "abs_jobs (fst (JobExecution_Claim no_faults ev c now l t)) =
        (abs_jobs t)(cr_task_id ev := Working (cr_attempt ev) c l)"
      using claim_refines(1) [OF assms(1-3), of now l] assms(4) by simp
  qed
qed

lemma claim_refused:
  assumes "exec_inv t" "cr_task_id ev \<noteq> []" "c \<noteq> []" "\<not> job_free (cr_attempt ev) now (abs_jobs t (cr_task_id ev))"
  obtains x where "JobExecution_Claim no_faults ev c now l t = (burn_seq t, Inr (x, False))"
proof (cases "exec_lookup t (cr_task_id ev)")
  case None
  with assms(4) show thesis by (simp add: abs_jobs_def job_free_def)
next
  case (Some m)
  then have "\<not> jobExecutionShouldProcess m ev now"
    using assms(1,4) should_process_abs exec_lookup_in exec_row_okD by (fastforce simp: abs_jobs_def)
  with Some assms show thesis by (intro that) (simp add: claim_existing)
qed

lemma updateClaimed_ok:
  assumes "exec_inv t" "job_held c (abs_jobs t k)" "finishing f" "\<And>m. abs_job (f m) = j"
  obtains t1 x where "exec_updateClaimed no_faults k c f t = (t1, Inr x)" "exec_inv t1"
    "abs_jobs t1 = (abs_jobs t)(k := j)"
proof -
  obtain m where m: "exec_lookup t k = Some m" "exec_held m c"
    using assms(1,2) exec_held_abs exec_lookup_in exec_row_okD
    by (cases "exec_lookup t k") (fastforce simp: abs_jobs_def job_held_def)+
  show thesis
  proof (rule that)
    show "exec_updateClaimed no_faults k c f t =
      (update_rows (\<lambda>m. je_task_id m = k \<and> je_status m = ''processing'' \<and> je_claim_id m = c) f t,
       Inr (jobExecutionModelToExecution (f m)))"
      by (rule exec_updateClaimed_held(1) [OF assms(1,3) m])
    then show "exec_inv (update_rows (\<lambda>m. je_task_id m = k \<and> je_status m = ''processing'' \<and> je_claim_id m = c) f t)"
      "abs_jobs (update_rows (\<lambda>m. je_task_id m = k \<and> je_status m = ''processing'' \<and> je_claim_id m = c) f t) =
        (abs_jobs t)(k := j)"
      using exec_updateClaimed_inv [OF assms(1,3), of no_faults k c]
        updateClaimed_refines [OF assms(1,3,4), of k j c] assms(2) by simp_all
  qed
qed

text \<open>Each of the three marks, for the holder of a claim.\<close>

lemma marks_ok:
  assumes "exec_inv t" "job_held c (abs_jobs t k)"
  shows "\<exists>t1 x. JobExecution_MarkSucceeded no_faults k c rid n t = (t1, Inr x) \<and> exec_inv t1 \<and>
           abs_jobs t1 = (abs_jobs t)(k := Done (if 0 < rid then Some rid else None))"
    and "\<exists>t1 x. JobExecution_MarkFailed no_faults k c a e n t = (t1, Inr x) \<and> exec_inv t1 \<and>
           abs_jobs t1 = (abs_jobs t)(k := Waiting a)"
    and "\<exists>t1 x. JobExecution_MarkDLQ no_faults k c e n t = (t1, Inr x) \<and> exec_inv t1 \<and>
           abs_jobs t1 = (abs_jobs t)(k := Dead)"
  unfolding mark_defs
  by (rule updateClaimed_ok [OF assms finishing_updates(1), of rid n "Done (if 0 < rid then Some rid else None)"],
      simp add: succeeded_updates_def abs_job_def, blast)
    (rule updateClaimed_ok [OF assms finishing_updates(2), of a e n "Waiting a"],
      simp add: failed_updates_def abs_job_def, blast,
     rule updateClaimed_ok [OF assms finishing_updates(3), of e n Dead],
      simp add: dlq_updates_def abs_job_def, blast)


subsection \<open>Handling without faults\<close>

definition calm :: "worker_env \<Rightarrow> bool" where
  "calm env \<longleftrightarrow>
     we_sleep env = (\<lambda>_. None) \<and> we_claim env = no_faults \<and> we_mark env = no_faults \<and>
     we_dlq env = no_faults \<and> we_write env = (\<lambda>_. Acked) \<and> we_claim_id env \<noteq> [] \<and>
     (\<forall>site. time_marshalable (we_now env site) \<and> we_now env site \<noteq> zero_time)"

definition full_worker :: "worker \<Rightarrow> bool" where
  "full_worker w \<longleftrightarrow> wk_has_execs w \<and> wk_has_dlq w"

definition request_in :: "message \<Rightarrow> collection_requested \<Rightarrow> bool" where
  "request_in msg ev \<longleftrightarrow>
     unmarshal_requested (msg_value msg) = Some ev \<and> validateCollectionRequestedMessage msg ev = Inr () \<and>
     requested_wf ev"

definition worker_good :: "'svc worker_world \<Rightarrow> bool" where
  "worker_good s \<longleftrightarrow> exec_inv (ww_execs s) \<and> dlq_inv (ww_dlq s)"

lemma request_in_facts:
  assumes "request_in msg ev"
  shows "cr_task_id ev \<noteq> []" "0 < cr_user_id ev" "0 < cr_source_id ev" "0 \<le> cr_attempt ev"
    "cr_requested_at ev \<noteq> 0" "in_int64 (cr_attempt ev)" "requested_wf ev"
  using assms
  by (auto simp: request_in_def validateCollectionRequestedMessage_def is_zero_time_def requested_wf_def
      split: if_splits)

lemma calm_wait: "calm env \<Longrightarrow> waitUntilNextAttempt env ev = Inr ()"
  by (simp add: calm_def waitUntilNextAttempt_def Let_def)

lemma worker_observeJob_parts [simp]:
  "ww_execs (worker_observeJob w topic st s) = ww_execs s"
  "ww_dlq (worker_observeJob w topic st s) = ww_dlq s"
  "ww_log (worker_observeJob w topic st s) = ww_log s"
  "ww_svc (worker_observeJob w topic st s) = ww_svc s"
  by (simp_all add: worker_observeJob_def)

lemma writeJSON_calm:
  assumes "calm env" "p = Some data"
  obtains s1 where "writeJSON w env topic key p s = (s1, Inr ())"
    "ww_log s1 = ww_log s @ [\<lparr>ev_topic = topic, ev_key = key, ev_value = data\<rparr>]"
    "ww_execs s1 = ww_execs s" "ww_dlq s1 = ww_dlq s" "ww_svc s1 = ww_svc s"
proof -
  let ?s1 = "worker_observeJob w topic ''success''
      (s\<lparr>ww_log := ww_log s @ [\<lparr>ev_topic = topic, ev_key = key, ev_value = data\<rparr>]\<rparr>)"
  show thesis by (rule that [of ?s1]) (use assms in \<open>simp_all add: writeJSON_def calm_def\<close>)
qed

lemma claimExecution_calm:
  assumes "calm env" "full_worker w" "exec_inv (ww_execs s)" "cr_task_id ev \<noteq> []"
    and "job_free (cr_attempt ev) (we_now env AtClaim) (abs_jobs (ww_execs s) (cr_task_id ev))"
  obtains t1 where "claimExecution w env ev s = (s\<lparr>ww_execs := t1\<rparr>, Inr (we_claim_id env, True))" "exec_inv t1"
    "abs_jobs t1 = (abs_jobs (ww_execs s))(cr_task_id ev :=
       Working (cr_attempt ev) (we_claim_id env) (we_now env AtClaim + wk_claim_ttl w))"
proof -
  have c: "we_claim_id env \<noteq> []" "we_claim env = no_faults" using assms(1) by (simp_all add: calm_def)
  obtain t1 x where t1: "JobExecution_Claim no_faults ev (we_claim_id env) (we_now env AtClaim)
      (we_now env AtClaim + wk_claim_ttl w) (ww_execs s) = (t1, Inr (x, True))" "exec_inv t1"
    "abs_jobs t1 = (abs_jobs (ww_execs s))(cr_task_id ev :=
       Working (cr_attempt ev) (we_claim_id env) (we_now env AtClaim + wk_claim_ttl w))"
    by (rule claim_ok [OF assms(3,4) c(1) assms(5)])
  then show thesis
    using assms(2) c by (intro that [of t1]) (simp_all add: claimExecution_def full_worker_def Let_def time_add_def)
qed

lemma HandleMessage_claimed:
  assumes "calm env" "full_worker w" "exec_inv (ww_execs s)" "request_in msg ev"
    and "job_free (cr_attempt ev) (we_now env AtClaim) (abs_jobs (ww_execs s) (cr_task_id ev))"
  obtains t1 where "exec_inv t1"
    "abs_jobs t1 = (abs_jobs (ww_execs s))(cr_task_id ev :=
       Working (cr_attempt ev) (we_claim_id env) (we_now env AtClaim + wk_claim_ttl w))"
    "HandleMessage w collect env msg s =
       (case collect \<lparr>req_user_id = cr_user_id ev, req_source_id = cr_source_id ev\<rparr> (ww_svc s) of
          (svc, Inl cause) \<Rightarrow> handleFailed w env ev (we_claim_id env) cause (s\<lparr>ww_execs := t1, ww_svc := svc\<rparr>)
        | (svc, Inr None) \<Rightarrow>
            markExecutionSucceeded w env (cr_task_id ev) (we_claim_id env) 0 (s\<lparr>ww_execs := t1, ww_svc := svc\<rparr>)
        | (svc, Inr (Some resp)) \<Rightarrow>
            bind_st (writeJSON w env TopicCollectionCompleted (cr_idempotency_key ev)
                       (marshal_completed (completed_event env ev resp)) (s\<lparr>ww_execs := t1, ww_svc := svc\<rparr>))
              (\<lambda>s _. markExecutionSucceeded w env (cr_task_id ev) (we_claim_id env) (resp_run_id resp) s))"
proof -
  obtain t1 where t1: "claimExecution w env ev s = (s\<lparr>ww_execs := t1\<rparr>, Inr (we_claim_id env, True))" "exec_inv t1"
    "abs_jobs t1 = (abs_jobs (ww_execs s))(cr_task_id ev :=
       Working (cr_attempt ev) (we_claim_id env) (we_now env AtClaim + wk_claim_ttl w))"
    using claimExecution_calm [OF assms(1-3) request_in_facts(1) [OF assms(4)] assms(5)] by blast
  show thesis
    by (rule that [OF t1(2,3)])
      (use assms(4) t1(1) calm_wait [OF assms(1)] in
        \<open>simp add: HandleMessage_def request_in_def split: prod.split sum.split option.split\<close>)
qed

lemma markExecution_ok:
  assumes "full_worker w" "mark (ww_execs s) = (t1, Inr x)"
  shows "markExecution w what mark s = (s\<lparr>ww_execs := t1\<rparr>, Inr ())"
  using assms by (simp add: markExecution_def full_worker_def)

lemma handle_succeeded:
  assumes "calm env" "full_worker w" "exec_inv (ww_execs s)" "request_in msg ev"
    and "job_free (cr_attempt ev) (we_now env AtClaim) (abs_jobs (ww_execs s) (cr_task_id ev))"
    and "collect \<lparr>req_user_id = cr_user_id ev, req_source_id = cr_source_id ev\<rparr> (ww_svc s) = (svc, Inr (Some resp))"
  shows "\<exists>s' p. HandleMessage w collect env msg s = (s', Inr ()) \<and>
           marshal_completed (completed_event env ev resp) = Some p \<and>
           ww_log s' = ww_log s @ [\<lparr>ev_topic = TopicCollectionCompleted, ev_key = cr_idempotency_key ev, ev_value = p\<rparr>] \<and>
           exec_inv (ww_execs s') \<and>
           abs_jobs (ww_execs s') = (abs_jobs (ww_execs s))(cr_task_id ev :=
             Done (if 0 < resp_run_id resp then Some (resp_run_id resp) else None)) \<and>
           ww_dlq s' = ww_dlq s \<and> ww_svc s' = svc"
proof -
  let ?k = "cr_task_id ev"
  obtain t1 where t1: "exec_inv t1"
    "abs_jobs t1 = (abs_jobs (ww_execs s))(?k :=
       Working (cr_attempt ev) (we_claim_id env) (we_now env AtClaim + wk_claim_ttl w))"
    "HandleMessage w collect env msg s =
       bind_st (writeJSON w env TopicCollectionCompleted (cr_idempotency_key ev)
                  (marshal_completed (completed_event env ev resp)) (s\<lparr>ww_execs := t1, ww_svc := svc\<rparr>))
         (\<lambda>s _. markExecutionSucceeded w env ?k (we_claim_id env) (resp_run_id resp) s)"
    using HandleMessage_claimed [OF assms(1-5), of collect thesis] assms(6) by simp
  have "time_marshalable (cr_requested_at ev)" "time_marshalable (we_now env AtCompleted)"
    using request_in_facts(7) [OF assms(4)] assms(1) by (simp_all add: requested_wf_def calm_def)
  then obtain p where p: "marshal_completed (completed_event env ev resp) = Some p"
    by (simp add: marshal_completed_def marshal_fields_def completed_event_def)
  obtain s1 where s1: "writeJSON w env TopicCollectionCompleted (cr_idempotency_key ev) (Some p)
      (s\<lparr>ww_execs := t1, ww_svc := svc\<rparr>) = (s1, Inr ())"
    "ww_log s1 = ww_log s @ [\<lparr>ev_topic = TopicCollectionCompleted, ev_key = cr_idempotency_key ev, ev_value = p\<rparr>]"
    "ww_execs s1 = t1" "ww_dlq s1 = ww_dlq s" "ww_svc s1 = svc"
    by (rule writeJSON_calm [OF assms(1) refl, of w TopicCollectionCompleted "cr_idempotency_key ev" p
        "s\<lparr>ww_execs := t1, ww_svc := svc\<rparr>"]) simp
  have "job_held (we_claim_id env) (abs_jobs t1 ?k)" by (simp add: t1(2) job_held_def)
  then obtain t2 x where t2: "JobExecution_MarkSucceeded no_faults ?k (we_claim_id env) (resp_run_id resp)
      (we_now env AtMark) t1 = (t2, Inr x)" "exec_inv t2"
    "abs_jobs t2 = (abs_jobs t1)(?k := Done (if 0 < resp_run_id resp then Some (resp_run_id resp) else None))"
    using marks_ok(1) [OF t1(1)] by blast
  have "markExecutionSucceeded w env ?k (we_claim_id env) (resp_run_id resp) s1 = (s1\<lparr>ww_execs := t2\<rparr>, Inr ())"
    unfolding markExecutionSucceeded_def
    by (rule markExecution_ok [OF assms(2)]) (use assms(1) s1(3) t2(1) in \<open>simp add: calm_def\<close>)
  with t1(2,3) p s1 t2 show ?thesis by simp
qed

lemma handle_nothing:
  assumes "calm env" "full_worker w" "exec_inv (ww_execs s)" "request_in msg ev"
    and "job_free (cr_attempt ev) (we_now env AtClaim) (abs_jobs (ww_execs s) (cr_task_id ev))"
    and "collect \<lparr>req_user_id = cr_user_id ev, req_source_id = cr_source_id ev\<rparr> (ww_svc s) = (svc, Inr None)"
  shows "\<exists>s'. HandleMessage w collect env msg s = (s', Inr ()) \<and> ww_log s' = ww_log s \<and>
           exec_inv (ww_execs s') \<and>
           abs_jobs (ww_execs s') = (abs_jobs (ww_execs s))(cr_task_id ev := Done None) \<and>
           ww_dlq s' = ww_dlq s \<and> ww_svc s' = svc"
proof -
  let ?k = "cr_task_id ev"
  obtain t1 where t1: "exec_inv t1"
    "abs_jobs t1 = (abs_jobs (ww_execs s))(?k :=
       Working (cr_attempt ev) (we_claim_id env) (we_now env AtClaim + wk_claim_ttl w))"
    "HandleMessage w collect env msg s =
       markExecutionSucceeded w env ?k (we_claim_id env) 0 (s\<lparr>ww_execs := t1, ww_svc := svc\<rparr>)"
    using HandleMessage_claimed [OF assms(1-5), of collect thesis] assms(6) by simp
  have "job_held (we_claim_id env) (abs_jobs t1 ?k)" by (simp add: t1(2) job_held_def)
  then obtain t2 x where t2: "JobExecution_MarkSucceeded no_faults ?k (we_claim_id env) 0
      (we_now env AtMark) t1 = (t2, Inr x)" "exec_inv t2" "abs_jobs t2 = (abs_jobs t1)(?k := Done None)"
    using marks_ok(1) [OF t1(1), of "we_claim_id env" ?k 0 "we_now env AtMark"] by auto
  have "markExecutionSucceeded w env ?k (we_claim_id env) 0 (s\<lparr>ww_execs := t1, ww_svc := svc\<rparr>) =
      (s\<lparr>ww_execs := t1, ww_svc := svc\<rparr>\<lparr>ww_execs := t2\<rparr>, Inr ())"
    unfolding markExecutionSucceeded_def
    by (rule markExecution_ok [OF assms(2)]) (use assms(1) t2(1) in \<open>simp add: calm_def\<close>)
  with t1(2,3) t2 show ?thesis by simp
qed

text \<open>The failed attempt is announced; what follows depends on the error and the attempt.\<close>

lemma handleFailed_announced:
  assumes "calm env" "requested_wf ev"
  obtains p s1 where "marshal_failed (failed_event env ev cause) = Some p"
    "ww_log s1 = ww_log s @ [\<lparr>ev_topic = TopicCollectionFailed, ev_key = cr_idempotency_key ev, ev_value = p\<rparr>]"
    "ww_execs s1 = ww_execs s" "ww_dlq s1 = ww_dlq s" "ww_svc s1 = ww_svc s"
    "handleFailed w env ev c cause s =
       (if IsPermanentError cause \<or> wrap64 (cr_attempt ev + 1) \<ge> wk_max_attempts w then
          bind_st (writeDLQ w env ev cause s1) (\<lambda>s _. markExecutionDLQ w env (cr_task_id ev) c cause s)
        else
          bind_st (writeJSON w env TopicCollectionRequested (cr_idempotency_key ev)
                     (marshal_requested (next_try w env ev)) s1)
            (\<lambda>s _. markExecutionFailed w env (cr_task_id ev) c (wrap64 (wrap64 (cr_attempt ev + 1) - 1)) cause s))"
proof -
  have "time_marshalable (cr_requested_at ev)" "time_marshalable (we_now env AtFailed)"
    using assms by (simp_all add: requested_wf_def calm_def)
  then obtain p where p: "marshal_failed (failed_event env ev cause) = Some p"
    by (simp add: marshal_failed_def marshal_fields_def failed_event_def)
  obtain s1 where s1: "writeJSON w env TopicCollectionFailed (cr_idempotency_key ev) (Some p) s = (s1, Inr ())"
    "ww_log s1 = ww_log s @ [\<lparr>ev_topic = TopicCollectionFailed, ev_key = cr_idempotency_key ev, ev_value = p\<rparr>]"
    "ww_execs s1 = ww_execs s" "ww_dlq s1 = ww_dlq s" "ww_svc s1 = ww_svc s"
    by (rule writeJSON_calm [OF assms(1) refl])
  show thesis
    by (rule that [OF p s1(2-5)]) (use s1(1) p in \<open>simp add: handleFailed_def Let_def next_try_def\<close>)
qed

lemma handleFailed_dlq:
  assumes "calm env" "full_worker w" "exec_inv (ww_execs s)" "dlq_inv (ww_dlq s)" "requested_wf ev"
    and "job_held c (abs_jobs (ww_execs s) (cr_task_id ev))"
    and "IsPermanentError cause \<or> wrap64 (cr_attempt ev + 1) \<ge> wk_max_attempts w"
  shows "\<exists>s' p q. handleFailed w env ev c cause s = (s', Inr ()) \<and>
           marshal_failed (failed_event env ev cause) = Some p \<and> unmarshal_requested q = Some ev \<and>
           ww_log s' = ww_log s @
             [\<lparr>ev_topic = TopicCollectionFailed, ev_key = cr_idempotency_key ev, ev_value = p\<rparr>,
              \<lparr>ev_topic = TopicCollectionDLQ, ev_key = cr_idempotency_key ev, ev_value = q\<rparr>] \<and>
           exec_inv (ww_execs s') \<and> dlq_inv (ww_dlq s') \<and>
           abs_jobs (ww_execs s') = (abs_jobs (ww_execs s))(cr_task_id ev := Dead) \<and>
           ww_dlq s' = insert_row (new_dlq_item \<lparr>cd_event = ev, cd_error_message = error_text cause,
                         cd_created_at = we_now env AtDLQ\<rparr> q (we_now env AtDLQ)) (ww_dlq s) \<and>
           ww_svc s' = ww_svc s"
proof -
  let ?k = "cr_task_id ev"
  let ?params = "\<lparr>cd_event = ev, cd_error_message = error_text cause, cd_created_at = we_now env AtDLQ\<rparr>"
  obtain p s1 where p: "marshal_failed (failed_event env ev cause) = Some p"
    and s1: "ww_log s1 = ww_log s @ [\<lparr>ev_topic = TopicCollectionFailed, ev_key = cr_idempotency_key ev, ev_value = p\<rparr>]"
    "ww_execs s1 = ww_execs s" "ww_dlq s1 = ww_dlq s" "ww_svc s1 = ww_svc s"
    and h: "handleFailed w env ev c cause s =
      bind_st (writeDLQ w env ev cause s1) (\<lambda>s _. markExecutionDLQ w env ?k c cause s)"
    using handleFailed_announced [OF assms(1,5), of cause s w c thesis] assms(7) by simp
  obtain q where q: "marshal_requested ev = Some q" using marshal_requested_Some [OF assms(5)] by blast
  note uq = unmarshal_marshal_requested [OF assms(5) q]
  define t where "t = insert_row (new_dlq_item ?params q (we_now env AtDLQ)) (ww_dlq s)"
  have ok: "\<exists>item. dlqModelToItem (new_dlq_item ?params q (we_now env AtDLQ) i) = Inr item" for i
    using dlqModelToItem_ok [OF new_dlq_item_ok(1) [of ?params q "we_now env AtDLQ" i]] q assms(5) by auto
  then obtain item where c: "DLQ_Create no_faults (we_now env AtDLQ) ?params (ww_dlq s) = (t, Inr item)"
    using q by (fastforce simp: DLQ_Create_def Let_def t_def)
  obtain s2 where s2: "writeJSON w env TopicCollectionDLQ (cr_idempotency_key ev) (Some q) (s1\<lparr>ww_dlq := t\<rparr>) = (s2, Inr ())"
    "ww_log s2 = ww_log s1 @ [\<lparr>ev_topic = TopicCollectionDLQ, ev_key = cr_idempotency_key ev, ev_value = q\<rparr>]"
    "ww_execs s2 = ww_execs s" "ww_dlq s2 = t" "ww_svc s2 = ww_svc s"
    using writeJSON_calm [OF assms(1) refl, of w TopicCollectionDLQ "cr_idempotency_key ev" q "s1\<lparr>ww_dlq := t\<rparr>" thesis]
      s1 by simp
  have wd: "writeDLQ w env ev cause s1 = (s2, Inr ())"
    using assms(1,2) c q s2(1) s1(3) by (simp add: writeDLQ_def full_worker_def calm_def)
  obtain t2 x where t2: "JobExecution_MarkDLQ no_faults ?k c (error_text cause) (we_now env AtMark) (ww_execs s) = (t2, Inr x)"
    "exec_inv t2" "abs_jobs t2 = (abs_jobs (ww_execs s))(?k := Dead)"
    using marks_ok(3) [OF assms(3,6)] by blast
  have "markExecutionDLQ w env ?k c cause s2 = (s2\<lparr>ww_execs := t2\<rparr>, Inr ())"
    unfolding markExecutionDLQ_def
    by (rule markExecution_ok [OF assms(2)]) (use assms(1) s2(3) t2(1) in \<open>simp add: calm_def\<close>)
  moreover have "dlq_inv t"
    using DLQ_Create_inv [OF assms(4), of ?params no_faults "we_now env AtDLQ"] assms(5) c by simp
  ultimately show ?thesis
    using h wd p uq s1 s2 t2 by (simp add: t_def)
qed

lemma next_try_attempt:
  assumes "0 \<le> cr_attempt ev" "cr_attempt ev + 1 < m" "in_int64 m"
  shows "wrap64 (cr_attempt ev + 1) = cr_attempt ev + 1" "wrap64 (wrap64 (cr_attempt ev + 1) - 1) = cr_attempt ev"
    "in_int64 (cr_attempt ev + 1)"
  using assms by (auto simp: in_int64_def)

lemma handleFailed_retry:
  assumes "calm env" "full_worker w" "exec_inv (ww_execs s)" "requested_wf ev"
    and "job_held c (abs_jobs (ww_execs s) (cr_task_id ev))" "\<not> IsPermanentError cause"
    and "0 \<le> cr_attempt ev" "cr_attempt ev + 1 < wk_max_attempts w" "in_int64 (wk_max_attempts w)"
    and "time_marshalable (we_now env AtRetry + retryBackoff (wk_backoff w) (cr_attempt ev + 1))"
  shows "\<exists>s' p q. handleFailed w env ev c cause s = (s', Inr ()) \<and>
           marshal_failed (failed_event env ev cause) = Some p \<and>
           unmarshal_requested q = Some (ev\<lparr>cr_attempt := cr_attempt ev + 1,
             cr_next_attempt_at := we_now env AtRetry + retryBackoff (wk_backoff w) (cr_attempt ev + 1)\<rparr>) \<and>
           ww_log s' = ww_log s @
             [\<lparr>ev_topic = TopicCollectionFailed, ev_key = cr_idempotency_key ev, ev_value = p\<rparr>,
              \<lparr>ev_topic = TopicCollectionRequested, ev_key = cr_idempotency_key ev, ev_value = q\<rparr>] \<and>
           exec_inv (ww_execs s') \<and>
           abs_jobs (ww_execs s') = (abs_jobs (ww_execs s))(cr_task_id ev := Waiting (cr_attempt ev)) \<and>
           ww_dlq s' = ww_dlq s \<and> ww_svc s' = ww_svc s"
proof -
  let ?k = "cr_task_id ev"
  let ?ev' = "ev\<lparr>cr_attempt := cr_attempt ev + 1,
      cr_next_attempt_at := we_now env AtRetry + retryBackoff (wk_backoff w) (cr_attempt ev + 1)\<rparr>"
  note att = next_try_attempt [OF assms(7,8,9)]
  have nt: "next_try w env ev = ?ev'" by (simp add: next_try_def att(1) time_add_def Let_def)
  obtain p s1 where p: "marshal_failed (failed_event env ev cause) = Some p"
    and s1: "ww_log s1 = ww_log s @ [\<lparr>ev_topic = TopicCollectionFailed, ev_key = cr_idempotency_key ev, ev_value = p\<rparr>]"
    "ww_execs s1 = ww_execs s" "ww_dlq s1 = ww_dlq s" "ww_svc s1 = ww_svc s"
    and h: "handleFailed w env ev c cause s =
          bind_st (writeJSON w env TopicCollectionRequested (cr_idempotency_key ev) (marshal_requested ?ev') s1)
            (\<lambda>s _. markExecutionFailed w env ?k c (cr_attempt ev) cause s)"
    using handleFailed_announced [OF assms(1,4), of cause s w c thesis] assms(6,8)
    unfolding att(2) nt by (simp add: att(1))
  have wf: "requested_wf ?ev'" using assms(4,10) att(3) by (simp add: requested_wf_def)
  obtain q where q: "marshal_requested ?ev' = Some q" using marshal_requested_Some [OF wf] by blast
  obtain s2 where s2: "writeJSON w env TopicCollectionRequested (cr_idempotency_key ev) (Some q) s1 = (s2, Inr ())"
    "ww_log s2 = ww_log s1 @ [\<lparr>ev_topic = TopicCollectionRequested, ev_key = cr_idempotency_key ev, ev_value = q\<rparr>]"
    "ww_execs s2 = ww_execs s1" "ww_dlq s2 = ww_dlq s1" "ww_svc s2 = ww_svc s1"
    by (rule writeJSON_calm [OF assms(1) refl])
  obtain t2 x where t2: "JobExecution_MarkFailed no_faults ?k c (cr_attempt ev) (error_text cause)
      (we_now env AtMark) (ww_execs s) = (t2, Inr x)" "exec_inv t2"
    "abs_jobs t2 = (abs_jobs (ww_execs s))(?k := Waiting (cr_attempt ev))"
    using marks_ok(2) [OF assms(3,5)] by blast
  have "markExecutionFailed w env ?k c (cr_attempt ev) cause s2 = (s2\<lparr>ww_execs := t2\<rparr>, Inr ())"
    unfolding markExecutionFailed_def
    by (rule markExecution_ok [OF assms(2)]) (use assms(1) s1 s2 t2(1) in \<open>simp add: calm_def\<close>)
  with h q p unmarshal_marshal_requested [OF wf q] s1 s2 t2 show ?thesis by simp
qed

subsection \<open>Following a request to its end\<close>

text \<open>
  \<open>deliveries\<close> handles a message and then, when that published another request, the message
  of the new request, at most \<open>n\<close> times.
\<close>

definition message_of :: "event \<Rightarrow> message" where
  "message_of e = \<lparr>msg_topic = ev_topic e, msg_key = ev_key e, msg_value = ev_value e\<rparr>"

primrec deliveries ::
  "worker \<Rightarrow> 'svc collect_fn \<Rightarrow> (nat \<Rightarrow> worker_env) \<Rightarrow> nat \<Rightarrow> message \<Rightarrow> 'svc worker_world \<Rightarrow> 'svc worker_world" where
  "deliveries w collect envs 0 msg s = s"
| "deliveries w collect envs (Suc n) msg s =
     (let s1 = fst (HandleMessage w collect (envs n) msg s) in
      case filter (\<lambda>e. ev_topic e = TopicCollectionRequested) (drop (length (ww_log s)) (ww_log s1)) of
        [] \<Rightarrow> s1
      | e # _ \<Rightarrow> deliveries w collect envs n (message_of e) s1)"

definition job_ended :: "job_state \<Rightarrow> bool" where
  "job_ended j \<longleftrightarrow> j = Dead \<or> (\<exists>r. j = Done r)"

lemma next_request_in:
  assumes "request_in msg ev" "unmarshal_requested q = Some (ev\<lparr>cr_attempt := a, cr_next_attempt_at := n\<rparr>)"
    and "0 \<le> a" "requested_wf (ev\<lparr>cr_attempt := a, cr_next_attempt_at := n\<rparr>)"
  shows "request_in (message_of \<lparr>ev_topic = TopicCollectionRequested, ev_key = cr_idempotency_key ev, ev_value = q\<rparr>)
           (ev\<lparr>cr_attempt := a, cr_next_attempt_at := n\<rparr>)"
  using assms
  by (auto simp: request_in_def message_of_def validateCollectionRequestedMessage_def split: if_splits)

lemma deliveries_end:
  fixes collect :: "'svc collect_fn"
  assumes w: "full_worker w" "in_int64 (wk_max_attempts w)"
    and still: "\<And>n. calm (envs n)"
    and times: "\<And>n a. 0 < a \<Longrightarrow> a < wk_max_attempts w \<Longrightarrow>
        time_marshalable (we_now (envs n) AtRetry + retryBackoff (wk_backoff w) a)"
    and s: "worker_good s" "request_in msg ev" "cr_attempt ev < wk_max_attempts w"
      "wk_max_attempts w - cr_attempt ev \<le> int n"
      "abs_jobs (ww_execs s) (cr_task_id ev) = Absent \<or>
       (\<exists>a < cr_attempt ev. abs_jobs (ww_execs s) (cr_task_id ev) = Waiting a)"
  shows "job_ended (abs_jobs (ww_execs (deliveries w collect envs n msg s)) (cr_task_id ev)) \<and>
         (\<forall>k. k \<noteq> cr_task_id ev \<longrightarrow>
            abs_jobs (ww_execs (deliveries w collect envs n msg s)) k = abs_jobs (ww_execs s) k)"
  using s
proof (induction n arbitrary: msg ev s)
  case 0
  then show ?case by simp
next
  case (Suc n)
  let ?k = "cr_task_id ev" and ?env = "envs n"
  note facts = request_in_facts [OF Suc.prems(2)]
  have inv: "exec_inv (ww_execs s)" "dlq_inv (ww_dlq s)" using Suc.prems(1) by (simp_all add: worker_good_def)
  have free: "job_free (cr_attempt ev) (we_now ?env AtClaim) (abs_jobs (ww_execs s) ?k)"
    using Suc.prems(5) by (auto simp: job_free_def)
  note given = still [of n] w(1) inv(1) Suc.prems(2) free
  obtain svc res where c: "collect \<lparr>req_user_id = cr_user_id ev, req_source_id = cr_source_id ev\<rparr> (ww_svc s) = (svc, res)"
    by fastforce
  show ?case
  proof (cases res)
    case (Inr answer)
    show ?thesis
    proof (cases answer)
      case None
      with c Inr have c': "collect \<lparr>req_user_id = cr_user_id ev, req_source_id = cr_source_id ev\<rparr> (ww_svc s) =
          (svc, Inr None)" by simp
      obtain s' where "HandleMessage w collect ?env msg s = (s', Inr ())" "ww_log s' = ww_log s"
        "abs_jobs (ww_execs s') = (abs_jobs (ww_execs s))(?k := Done None)"
        using handle_nothing [OF given, of collect, OF c'] by blast
      then show ?thesis by (simp add: job_ended_def)
    next
      case (Some resp)
      with c Inr have c': "collect \<lparr>req_user_id = cr_user_id ev, req_source_id = cr_source_id ev\<rparr> (ww_svc s) =
          (svc, Inr (Some resp))" by simp
      obtain s' p where "HandleMessage w collect ?env msg s = (s', Inr ())"
        "ww_log s' = ww_log s @ [\<lparr>ev_topic = TopicCollectionCompleted, ev_key = cr_idempotency_key ev, ev_value = p\<rparr>]"
        "abs_jobs (ww_execs s') = (abs_jobs (ww_execs s))(?k :=
             Done (if 0 < resp_run_id resp then Some (resp_run_id resp) else None))"
        using handle_succeeded [OF given, of collect, OF c'] by blast
      then show ?thesis by (simp add: job_ended_def)
    qed
  next
    case (Inl cause)
    obtain t1 where t1: "exec_inv t1"
      "abs_jobs t1 = (abs_jobs (ww_execs s))(?k :=
         Working (cr_attempt ev) (we_claim_id ?env) (we_now ?env AtClaim + wk_claim_ttl w))"
      "HandleMessage w collect ?env msg s =
         handleFailed w ?env ev (we_claim_id ?env) cause (s\<lparr>ww_execs := t1, ww_svc := svc\<rparr>)"
      using HandleMessage_claimed [OF given, of collect thesis] c Inl by simp
    let ?s0 = "s\<lparr>ww_execs := t1, ww_svc := svc\<rparr>"
    have s0: "exec_inv (ww_execs ?s0)" "dlq_inv (ww_dlq ?s0)"
      "job_held (we_claim_id ?env) (abs_jobs (ww_execs ?s0) ?k)"
      using t1(1,2) inv(2) by (simp_all add: job_held_def)
    show ?thesis
    proof (cases "IsPermanentError cause \<or> wrap64 (cr_attempt ev + 1) \<ge> wk_max_attempts w")
      case True
      obtain s' p q where "HandleMessage w collect ?env msg s = (s', Inr ())"
        "ww_log s' = ww_log s @
             [\<lparr>ev_topic = TopicCollectionFailed, ev_key = cr_idempotency_key ev, ev_value = p\<rparr>,
              \<lparr>ev_topic = TopicCollectionDLQ, ev_key = cr_idempotency_key ev, ev_value = q\<rparr>]"
        "abs_jobs (ww_execs s') = (abs_jobs (ww_execs s))(?k := Dead)"
        using handleFailed_dlq [OF still [of n] w(1) s0(1,2) facts(7) s0(3) True] t1(2,3) by auto
      then show ?thesis by (simp add: job_ended_def)
    next
      case False
      have le: "cr_attempt ev + 1 < wk_max_attempts w"
        using False facts(4,6) Suc.prems(3) w(2) by (auto simp: in_int64_def)
      let ?next = "we_now ?env AtRetry + retryBackoff (wk_backoff w) (cr_attempt ev + 1)"
      let ?ev = "ev\<lparr>cr_attempt := cr_attempt ev + 1, cr_next_attempt_at := ?next\<rparr>"
      have tm: "time_marshalable ?next" using times [of "cr_attempt ev + 1" n] le facts(4) by simp
      obtain s' p q where h: "HandleMessage w collect ?env msg s = (s', Inr ())"
        and q: "unmarshal_requested q = Some ?ev"
        and l: "ww_log s' = ww_log s @
             [\<lparr>ev_topic = TopicCollectionFailed, ev_key = cr_idempotency_key ev, ev_value = p\<rparr>,
              \<lparr>ev_topic = TopicCollectionRequested, ev_key = cr_idempotency_key ev, ev_value = q\<rparr>]"
        and s': "exec_inv (ww_execs s')" "ww_dlq s' = ww_dlq s"
        "abs_jobs (ww_execs s') = (abs_jobs (ww_execs s))(?k := Waiting (cr_attempt ev))"
        using handleFailed_retry [OF still [of n] w(1) s0(1) facts(7) s0(3) _ facts(4) le w(2) tm, of cause] False t1(2,3)
        by auto
      let ?msg = "message_of \<lparr>ev_topic = TopicCollectionRequested, ev_key = cr_idempotency_key ev, ev_value = q\<rparr>"
      have "requested_wf ?ev"
        using facts(7) tm next_try_attempt(3) [OF facts(4) le w(2)] by (simp add: requested_wf_def)
      then have req: "request_in ?msg ?ev" using next_request_in [OF Suc.prems(2) q] facts(4) by simp
      have "deliveries w collect envs (Suc n) msg s = deliveries w collect envs n ?msg s'"
        using h l by simp
      moreover have "job_ended (abs_jobs (ww_execs (deliveries w collect envs n ?msg s')) (cr_task_id ?ev)) \<and>
          (\<forall>k. k \<noteq> cr_task_id ?ev \<longrightarrow>
             abs_jobs (ww_execs (deliveries w collect envs n ?msg s')) k = abs_jobs (ww_execs s') k)"
        by (rule Suc.IH [OF _ req]) (use s' inv(2) le Suc.prems(4) in \<open>simp_all add: worker_good_def\<close>)
      ultimately show ?thesis using s'(3) by simp
    qed
  qed
qed

subsection \<open>Properties of the worker\<close>

definition sample_worker :: worker where
  "sample_worker = NewWorker [WithDLQRepository True, WithJobExecutionRepository True]"

definition sample_worker_env :: "time \<Rightarrow> worker_env" where
  "sample_worker_env now =
     \<lparr>we_now = (\<lambda>_. now), we_sleep = (\<lambda>_. None), we_claim_id = ''c1'', we_claim = no_faults,
      we_mark = no_faults, we_dlq = no_faults, we_write = (\<lambda>_. Acked)\<rparr>"

definition sample_message :: message where
  "sample_message = \<lparr>msg_topic = TopicCollectionRequested, msg_key = cr_idempotency_key sample_request,
     msg_value = the (marshal_requested sample_request)\<rparr>"

definition sample_worker_world :: "int worker_world" where
  "sample_worker_world =
     \<lparr>ww_execs = empty_table, ww_dlq = empty_table, ww_log = [], ww_seen = [], ww_svc = 0\<rparr>"

definition counting_collect :: "(int \<Rightarrow> collect_source_response option result) \<Rightarrow> int collect_fn" where
  "counting_collect answer req n = (n + 1, answer n)"

definition sample_response :: collect_source_response where
  "sample_response = \<lparr>resp_run_id = 12, resp_source_id = 3, resp_status = ''success'', resp_fetched_count = 2,
     resp_inserted_count = 1, resp_duplicated_count = 1, resp_error_message = []\<rparr>"

lemma sample_worker_facts [simp]:
  "full_worker sample_worker" "wk_max_attempts sample_worker = 3" "wk_backoff sample_worker = minute"
  "worker_good sample_worker_world" "ww_svc sample_worker_world = 0"
  "ww_log sample_worker_world = []" "abs_jobs (ww_execs sample_worker_world) k = Absent"
  by (simp_all add: sample_worker_def full_worker_def NewWorker_def WithDLQRepository_def
      WithJobExecutionRepository_def worker_good_def sample_worker_world_def abs_jobs_def exec_lookup_def
      find_row_def)

lemma sample_env_calm: "0 < now \<Longrightarrow> now < 1000 * second \<Longrightarrow> calm (sample_worker_env now)"
  by (simp add: calm_def sample_worker_env_def time_marshalable_def)

lemma sample_request_wf: "requested_wf sample_request"
  by (simp add: sample_request_def requested_wf_def in_int64_def time_marshalable_def)

lemma sample_message_in: "request_in sample_message sample_request"
proof -
  obtain p where p: "marshal_requested sample_request = Some p"
    using marshal_requested_Some [OF sample_request_wf] by blast
  have "trim_space ''t1'' = ''t1''" "trim_space ''collection:source:3'' = ''collection:source:3''"
    by (simp_all add: trim_space_visible visible_def)
  then show ?thesis
    using unmarshal_marshal_requested [OF sample_request_wf p] p sample_request_wf
    by (simp add: request_in_def sample_message_def validateCollectionRequestedMessage_def is_zero_time_def)
      (simp add: sample_request_def)
qed

text \<open>
  When the collection of a request succeeds, and the broker and the database answer, the
  worker publishes exactly one event, \<open>collection.completed\<close> with the counts of the run,
  marks the task as done with that run, leaves every other task and the dead letters alone,
  and reports success, so that the message is committed.
\<close>

theorem worker_success_effect:
  assumes "calm env" "full_worker w" "exec_inv (ww_execs s)" "request_in msg ev"
    and "job_free (cr_attempt ev) (we_now env AtClaim) (abs_jobs (ww_execs s) (cr_task_id ev))"
    and "collect \<lparr>req_user_id = cr_user_id ev, req_source_id = cr_source_id ev\<rparr> (ww_svc s) = (svc, Inr (Some resp))"
  shows "\<exists>s' p. HandleMessage w collect env msg s = (s', Inr ()) \<and>
           marshal_completed (completed_event env ev resp) = Some p \<and>
           ww_log s' = ww_log s @ [\<lparr>ev_topic = TopicCollectionCompleted, ev_key = cr_idempotency_key ev, ev_value = p\<rparr>] \<and>
           exec_inv (ww_execs s') \<and>
           abs_jobs (ww_execs s') = (abs_jobs (ww_execs s))(cr_task_id ev :=
             Done (if 0 < resp_run_id resp then Some (resp_run_id resp) else None)) \<and>
           ww_dlq s' = ww_dlq s \<and> ww_svc s' = svc"
  by (rule handle_succeeded [OF assms(1-5), of collect, OF assms(6)])

theorem worker_success_effect_witness:
  "\<exists>s'. HandleMessage sample_worker (counting_collect (\<lambda>_. Inr (Some sample_response))) (sample_worker_env 2000)
          sample_message sample_worker_world = (s', Inr ()) \<and>
        abs_jobs (ww_execs s') ''t1'' = Done (Some 12) \<and> length (ww_log s') = 1 \<and> ww_svc s' = 1"
proof -
  have t: "cr_task_id sample_request = ''t1''" by (simp add: sample_request_def)
  have "counting_collect (\<lambda>_. Inr (Some sample_response))
      \<lparr>req_user_id = cr_user_id sample_request, req_source_id = cr_source_id sample_request\<rparr>
      (ww_svc sample_worker_world) = (1, Inr (Some sample_response))"
    by (simp add: counting_collect_def)
  moreover have "exec_inv (ww_execs sample_worker_world)"
    "job_free (cr_attempt sample_request) (we_now (sample_worker_env 2000) AtClaim)
       (abs_jobs (ww_execs sample_worker_world) (cr_task_id sample_request))"
    using sample_worker_facts(4) by (simp_all add: worker_good_def job_free_def)
  ultimately show ?thesis
    using worker_success_effect [OF sample_env_calm sample_worker_facts(1) _ sample_message_in, of 2000
        sample_worker_world "counting_collect (\<lambda>_. Inr (Some sample_response))" 1 sample_response] t
    by (auto simp: sample_response_def)
qed

text \<open>
  C6. When the collection fails with an error that is not permanent and attempts are left,
  the worker announces the failure and publishes the request again as the next attempt,
  under the same task id and key; the task waits at the failed attempt, and no dead letter
  is written. The new request is due after the backoff doubled once for every earlier
  failure: the base itself after the first one, twice the base after the second, and so on
  (in 64 bits; below \<open>2 ^ 63\<close> nanoseconds the product is exact).
\<close>

theorem worker_retry_effect:
  assumes "calm env" "full_worker w" "exec_inv (ww_execs s)" "request_in msg ev"
    and "job_free (cr_attempt ev) (we_now env AtClaim) (abs_jobs (ww_execs s) (cr_task_id ev))"
    and "collect \<lparr>req_user_id = cr_user_id ev, req_source_id = cr_source_id ev\<rparr> (ww_svc s) = (svc, Inl cause)"
    and "\<not> IsPermanentError cause" "cr_attempt ev + 1 < wk_max_attempts w" "in_int64 (wk_max_attempts w)"
    and "in_int64 (wk_backoff w)"
    and "time_marshalable (we_now env AtRetry + wrap64 (wk_backoff w * 2 ^ nat (cr_attempt ev)))"
  shows "(\<exists>s' p q. HandleMessage w collect env msg s = (s', Inr ()) \<and>
           marshal_failed (failed_event env ev cause) = Some p \<and>
           unmarshal_requested q = Some (ev\<lparr>cr_attempt := cr_attempt ev + 1,
             cr_next_attempt_at := we_now env AtRetry + wrap64 (wk_backoff w * 2 ^ nat (cr_attempt ev))\<rparr>) \<and>
           ww_log s' = ww_log s @
             [\<lparr>ev_topic = TopicCollectionFailed, ev_key = cr_idempotency_key ev, ev_value = p\<rparr>,
              \<lparr>ev_topic = TopicCollectionRequested, ev_key = cr_idempotency_key ev, ev_value = q\<rparr>] \<and>
           abs_jobs (ww_execs s') = (abs_jobs (ww_execs s))(cr_task_id ev := Waiting (cr_attempt ev)) \<and>
           ww_dlq s' = ww_dlq s \<and> ww_svc s' = svc) \<and>
         (0 \<le> wk_backoff w \<and> wk_backoff w * 2 ^ nat (cr_attempt ev) < 2 ^ 63 \<longrightarrow>
           wrap64 (wk_backoff w * 2 ^ nat (cr_attempt ev)) = wk_backoff w * 2 ^ nat (cr_attempt ev))"
proof -
  have a: "0 \<le> cr_attempt ev" by (rule request_in_facts(4) [OF assms(4)])
  have d: "retryBackoff (wk_backoff w) (cr_attempt ev + 1) = wrap64 (wk_backoff w * 2 ^ nat (cr_attempt ev))"
    by (rule retryBackoff_explicit [OF assms(10) a])
  obtain t1 where t1: "exec_inv t1"
    "abs_jobs t1 = (abs_jobs (ww_execs s))(cr_task_id ev :=
       Working (cr_attempt ev) (we_claim_id env) (we_now env AtClaim + wk_claim_ttl w))"
    "HandleMessage w collect env msg s =
       handleFailed w env ev (we_claim_id env) cause (s\<lparr>ww_execs := t1, ww_svc := svc\<rparr>)"
    using HandleMessage_claimed [OF assms(1-5), of collect thesis] assms(6) by simp
  have "job_held (we_claim_id env) (abs_jobs (ww_execs (s\<lparr>ww_execs := t1, ww_svc := svc\<rparr>)) (cr_task_id ev))"
    by (simp add: t1(2) job_held_def)
  note r = handleFailed_retry [OF assms(1,2) _ request_in_facts(7) [OF assms(4)] this assms(7) a assms(8,9),
      unfolded d, OF _ assms(11)]
  have "wrap64 (wk_backoff w * 2 ^ nat (cr_attempt ev)) = wk_backoff w * 2 ^ nat (cr_attempt ev)"
    if "0 \<le> wk_backoff w" "wk_backoff w * 2 ^ nat (cr_attempt ev) < 2 ^ 63"
    using backoff_loop_exact [OF that] backoff_loop_wrap [OF assms(10)] by simp
  with r t1 show ?thesis by auto
qed

theorem worker_retry_effect_witness:
  "\<exists>s'. HandleMessage sample_worker (counting_collect (\<lambda>_. Inl (Plain ''down''))) (sample_worker_env 2000)
          sample_message sample_worker_world = (s', Inr ()) \<and>
        abs_jobs (ww_execs s') ''t1'' = Waiting 0 \<and> map ev_topic (ww_log s') = [''collection.failed'', ''collection.requested'']"
proof -
  have t: "cr_task_id sample_request = ''t1''" "cr_attempt sample_request = 0" by (simp_all add: sample_request_def)
  have "counting_collect (\<lambda>_. Inl (Plain ''down''))
      \<lparr>req_user_id = cr_user_id sample_request, req_source_id = cr_source_id sample_request\<rparr>
      (ww_svc sample_worker_world) = (1, Inl (Plain ''down''))"
    by (simp add: counting_collect_def)
  moreover have "in_int64 (wk_backoff sample_worker)"
    "time_marshalable (we_now (sample_worker_env 2000) AtRetry +
      wrap64 (wk_backoff sample_worker * 2 ^ nat (cr_attempt sample_request)))"
    by (simp_all add: t sample_worker_facts sample_worker_env_def time_marshalable_def wrap64_def in_int64_def)
  moreover have "exec_inv (ww_execs sample_worker_world)"
    "job_free (cr_attempt sample_request) (we_now (sample_worker_env 2000) AtClaim)
       (abs_jobs (ww_execs sample_worker_world) (cr_task_id sample_request))"
    using sample_worker_facts(4) by (simp_all add: worker_good_def job_free_def)
  ultimately show ?thesis
    using worker_retry_effect [OF sample_env_calm sample_worker_facts(1) _ sample_message_in, of 2000
        sample_worker_world "counting_collect (\<lambda>_. Inl (Plain ''down''))" 1 "Plain ''down''"] t
    by (auto simp: in_int64_def)
qed

text \<open>
  C7. When the collection fails for good, by a permanent error or because the attempts are
  used up, the request is parked: one dead letter with the request and the error's text is
  stored, the failure and the dead letter are published, the task is dead, and the request
  is not published again.
\<close>

theorem worker_dlq_effect:
  assumes "calm env" "full_worker w" "worker_good s" "request_in msg ev"
    and "job_free (cr_attempt ev) (we_now env AtClaim) (abs_jobs (ww_execs s) (cr_task_id ev))"
    and "collect \<lparr>req_user_id = cr_user_id ev, req_source_id = cr_source_id ev\<rparr> (ww_svc s) = (svc, Inl cause)"
    and "as_permanent cause \<or> errors_is cause ErrSourceNotAccessible \<or> errors_is cause ErrCollectorNotFound \<or>
         wk_max_attempts w \<le> wrap64 (cr_attempt ev + 1)"
  shows "\<exists>s' p q. HandleMessage w collect env msg s = (s', Inr ()) \<and>
           marshal_failed (failed_event env ev cause) = Some p \<and> unmarshal_requested q = Some ev \<and>
           ww_log s' = ww_log s @
             [\<lparr>ev_topic = TopicCollectionFailed, ev_key = cr_idempotency_key ev, ev_value = p\<rparr>,
              \<lparr>ev_topic = TopicCollectionDLQ, ev_key = cr_idempotency_key ev, ev_value = q\<rparr>] \<and>
           abs_jobs (ww_execs s') = (abs_jobs (ww_execs s))(cr_task_id ev := Dead) \<and>
           ww_dlq s' = insert_row (new_dlq_item \<lparr>cd_event = ev, cd_error_message = error_text cause,
                         cd_created_at = we_now env AtDLQ\<rparr> q (we_now env AtDLQ)) (ww_dlq s) \<and>
           ww_svc s' = svc"
proof -
  have good: "exec_inv (ww_execs s)" "dlq_inv (ww_dlq s)" using assms(3) by (simp_all add: worker_good_def)
  obtain t1 where t1: "exec_inv t1"
    "abs_jobs t1 = (abs_jobs (ww_execs s))(cr_task_id ev :=
       Working (cr_attempt ev) (we_claim_id env) (we_now env AtClaim + wk_claim_ttl w))"
    "HandleMessage w collect env msg s =
       handleFailed w env ev (we_claim_id env) cause (s\<lparr>ww_execs := t1, ww_svc := svc\<rparr>)"
    using HandleMessage_claimed [OF assms(1,2) good(1) assms(4,5), of collect thesis] assms(6) by simp
  have "job_held (we_claim_id env) (abs_jobs (ww_execs (s\<lparr>ww_execs := t1, ww_svc := svc\<rparr>)) (cr_task_id ev))"
    by (simp add: t1(2) job_held_def)
  moreover have "IsPermanentError cause \<or> wrap64 (cr_attempt ev + 1) \<ge> wk_max_attempts w"
    using assms(7) by (auto simp: IsPermanentError_def)
  ultimately show ?thesis
    using handleFailed_dlq [OF assms(1,2) _ _ request_in_facts(7) [OF assms(4)],
        of "s\<lparr>ww_execs := t1, ww_svc := svc\<rparr>" "we_claim_id env" cause] t1 good(2)
    by auto
qed

theorem worker_dlq_effect_witness:
  "\<exists>s'. HandleMessage sample_worker (counting_collect (\<lambda>_. Inl (Sentinel ErrCollectorNotFound)))
          (sample_worker_env 2000) sample_message sample_worker_world = (s', Inr ()) \<and>
        abs_jobs (ww_execs s') ''t1'' = Dead \<and> length (rows (ww_dlq s')) = 1"
proof -
  have t: "cr_task_id sample_request = ''t1''" by (simp add: sample_request_def)
  have "counting_collect (\<lambda>_. Inl (Sentinel ErrCollectorNotFound))
      \<lparr>req_user_id = cr_user_id sample_request, req_source_id = cr_source_id sample_request\<rparr>
      (ww_svc sample_worker_world) = (1, Inl (Sentinel ErrCollectorNotFound))"
    by (simp add: counting_collect_def)
  moreover have "job_free (cr_attempt sample_request) (we_now (sample_worker_env 2000) AtClaim)
       (abs_jobs (ww_execs sample_worker_world) (cr_task_id sample_request))"
    by (simp add: job_free_def)
  moreover have "rows (ww_dlq sample_worker_world) = []" by (simp add: sample_worker_world_def)
  ultimately show ?thesis
    using worker_dlq_effect [OF sample_env_calm sample_worker_facts(1,4) sample_message_in, of 2000
        "counting_collect (\<lambda>_. Inl (Sentinel ErrCollectorNotFound))" 1 "Sentinel ErrCollectorNotFound"] t
    by auto
qed

text \<open>
  C5. A request runs to its end when nothing around the worker fails: let every delivery of
  it be calm (database, broker and sleep answer, each write is acknowledged) and every retry
  time be one JSON can encode. Then, whatever the collection service answers each time, after
  at most \<open>maxAttempts\<close> deliveries the task of a new request has succeeded or is a dead
  letter, and the tasks of other requests are as before. Without these conditions a request
  can be lost: \<open>worker_drops_leased_request\<close> and \<open>worker_failed_message_passed_over\<close>.
\<close>

theorem worker_request_ends:
  fixes collect :: "'svc collect_fn"
  assumes "full_worker w" "in_int64 (wk_max_attempts w)" "\<And>n. calm (envs n)"
    and "\<And>n a. 0 < a \<Longrightarrow> a < wk_max_attempts w \<Longrightarrow>
        time_marshalable (we_now (envs n) AtRetry + retryBackoff (wk_backoff w) a)"
    and "worker_good s" "request_in msg ev" "cr_attempt ev = 0" "0 < wk_max_attempts w"
    and "abs_jobs (ww_execs s) (cr_task_id ev) = Absent"
  defines "s' \<equiv> deliveries w collect envs (nat (wk_max_attempts w)) msg s"
  shows "job_ended (abs_jobs (ww_execs s') (cr_task_id ev)) \<and>
         (\<forall>k. k = cr_task_id ev \<or> abs_jobs (ww_execs s') k = abs_jobs (ww_execs s) k)"
proof -
  have "job_ended (abs_jobs (ww_execs s') (cr_task_id ev)) \<and>
      (\<forall>k. k \<noteq> cr_task_id ev \<longrightarrow> abs_jobs (ww_execs s') k = abs_jobs (ww_execs s) k)"
    unfolding s'_def by (rule deliveries_end [OF assms(1-6)]) (use assms(7-9) in simp_all)
  then show ?thesis by blast
qed

theorem worker_request_ends_witness:
  "job_ended (abs_jobs (ww_execs (deliveries sample_worker (counting_collect (\<lambda>n. if n < 2 then Inl (Plain ''down'') else Inr None))
      (\<lambda>n. sample_worker_env 2000) 3 sample_message sample_worker_world)) ''t1'')"
proof -
  have t: "cr_task_id sample_request = ''t1''" "cr_attempt sample_request = 0" by (simp_all add: sample_request_def)
  have "time_marshalable (we_now (sample_worker_env 2000) AtRetry + retryBackoff minute a)" if "0 < a" "a < 3" for a
  proof -
    have "a = 1 \<or> a = 2" using that by auto
    moreover have "backoff_loop minute 1 = 2 * minute" using backoff_loop_exact [of minute 1] by simp
    ultimately show ?thesis by (auto simp: retryBackoff_def sample_worker_env_def time_marshalable_def)
  qed
  then show ?thesis
    using worker_request_ends [OF sample_worker_facts(1) _ sample_env_calm _ sample_worker_facts(4) sample_message_in,
        of "\<lambda>n. 2000"] t
    by (simp add: in_int64_def)
qed

text \<open>
  C2. A request that has succeeded or is a dead letter is not collected again: any later
  delivery of it, with any attempt number and whatever the database answers, leaves the
  collection service, the dead letters, the event log and the rows of the executions as they
  are. Unless the wait or a statement of the claim fails, the delivery is answered with
  success and the loop commits its offset, so that it is not delivered once more.
\<close>

theorem worker_redelivery_idempotent:
  fixes collect :: "'svc collect_fn" and env :: worker_env
  assumes "full_worker w" "request_in msg ev" "exec_lookup (ww_execs s) (cr_task_id ev) = Some m" "exec_terminal m"
  defines "s' \<equiv> fst (HandleMessage w collect env msg s)"
  shows "(ww_svc s' = ww_svc s \<and> ww_dlq s' = ww_dlq s \<and> ww_log s' = ww_log s \<and>
          rows (ww_execs s') = rows (ww_execs s)) \<and>
         (we_sleep env = (\<lambda>_. None) \<and> we_claim env = no_faults \<and> we_claim_id env \<noteq> [] \<longrightarrow>
            snd (HandleMessage w collect env msg s) = Inr () \<and>
            Worker_Run w collect [ReadMessage off msg env None] s = ((s', [off]), Inr ()))"
proof -
  obtain t r where c: "JobExecution_Claim (we_claim env) ev (we_claim_id env) (we_now env AtClaim)
      (time_add (we_now env AtClaim) (wk_claim_ttl w)) (ww_execs s) = (t, r)" by fastforce
  have n: "\<not> jobExecutionShouldProcess m ev (we_now env AtClaim)"
    using assms(4) should_process_not_terminal by blast
  have t: "rows t = rows (ww_execs s) \<and> \<not> (\<exists>x. r = Inr (x, True))"
    using c n assms(3)
    by (auto simp: JobExecution_Claim_def exec_lookup_def Let_def split: if_splits option.splits)
  have same: "ww_svc s' = ww_svc s \<and> ww_dlq s' = ww_dlq s \<and> ww_log s' = ww_log s \<and>
      rows (ww_execs s') = rows (ww_execs s)"
    using assms(1,2) c t
    by (auto simp: s'_def HandleMessage_def request_in_def claimExecution_def full_worker_def Let_def
        split: sum.split)
  have ok: "snd (HandleMessage w collect env msg s) = Inr ()"
    if q: "we_sleep env = (\<lambda>_. None)" "we_claim env = no_faults" "we_claim_id env \<noteq> []"
  proof -
    have "r = Inr (jobExecutionModelToExecution m, False)"
      using c n q(2) claim_existing [OF assms(3) request_in_facts(1) [OF assms(2)] q(3)] by simp
    then show ?thesis
      using assms(1,2) c q(1)
      by (simp add: HandleMessage_def request_in_def claimExecution_def full_worker_def Let_def
          waitUntilNextAttempt_def)
  qed
  have "Worker_Run w collect [ReadMessage off msg env None] s = ((s', [off]), Inr ())"
    if "snd (HandleMessage w collect env msg s) = Inr ()"
    using that by (cases "HandleMessage w collect env msg s") (simp add: s'_def)
  with same ok show ?thesis by blast
qed

theorem worker_redelivery_idempotent_witness:
  "ww_svc (fst (HandleMessage sample_worker (counting_collect (\<lambda>_. Inr None)) (sample_worker_env 3000) sample_message
     (sample_worker_world\<lparr>ww_execs := done_table\<rparr>))) = 0 \<and>
   snd (HandleMessage sample_worker (counting_collect (\<lambda>_. Inr None)) (sample_worker_env 3000) sample_message
     (sample_worker_world\<lparr>ww_execs := done_table\<rparr>)) = Inr ()"
proof -
  obtain m where "exec_lookup done_table ''t1'' = Some m" "exec_terminal m" using done_table_lookup by blast
  moreover have "calm (sample_worker_env 3000)" by (rule sample_env_calm) simp_all
  ultimately show ?thesis
    using worker_redelivery_idempotent [OF sample_worker_facts(1) sample_message_in,
        of "sample_worker_world\<lparr>ww_execs := done_table\<rparr>" m "counting_collect (\<lambda>_. Inr None)" "sample_worker_env 3000" 7]
    by (simp add: sample_request_def calm_def)
qed

text \<open>
  A message that is no valid request (not JSON, a missing or non-positive field, a wrong
  topic or key) changes nothing, and the loop commits it, so that it does not block the
  partition.
\<close>

theorem worker_invalid_committed:
  assumes "unmarshal_requested (msg_value msg) = None \<or>
      (\<exists>ev e. unmarshal_requested (msg_value msg) = Some ev \<and> validateCollectionRequestedMessage msg ev = Inl e)"
  shows "fst (HandleMessage w collect env msg s) = s \<and>
         Worker_Run w collect (ReadMessage off msg env None # rs) s =
           (let ((s2, offs), r) = Worker_Run w collect rs s in ((s2, off # offs), r))"
proof -
  have "errors_is e ErrInvalidMessage" if "validateCollectionRequestedMessage msg ev = Inl e" for ev e
    using that by (auto simp: validateCollectionRequestedMessage_def split: if_splits)
  with assms have "\<exists>e. HandleMessage w collect env msg s = (s, Inl e) \<and> errors_is e ErrInvalidMessage"
    by (auto simp: HandleMessage_def)
  then show ?thesis by (auto simp: Let_def)
qed

theorem worker_invalid_committed_witness:
  "Worker_Run sample_worker (counting_collect (\<lambda>_. Inr None))
     [ReadMessage 4 \<lparr>msg_topic = [], msg_key = [], msg_value = NotJson ''x''\<rparr> (sample_worker_env 2000) None]
     sample_worker_world = ((sample_worker_world, [4]), Inr ())"
  using worker_invalid_committed [of "\<lparr>msg_topic = [], msg_key = [], msg_value = NotJson ''x''\<rparr>" sample_worker
      "counting_collect (\<lambda>_. Inr None)" "sample_worker_env 2000" sample_worker_world 4 "[]"]
  by (simp add: unmarshal_requested_def)

text \<open>
  A task can be lost: when a request is delivered again while the lease of a worker that
  died is still running, the worker answers success without collecting and the loop commits
  the message. The row stays "processing", nothing is published, and no message is left to
  pick the task up when the lease has ended.
\<close>

theorem worker_drops_leased_request:
  assumes "full_worker w" "calm env" "exec_inv (ww_execs s)" "request_in msg ev"
    and "abs_jobs (ww_execs s) (cr_task_id ev) = Working (cr_attempt ev) c l" "we_now env AtClaim < l"
  shows "\<exists>s'. HandleMessage w collect env msg s = (s', Inr ()) \<and>
           Worker_Run w collect [ReadMessage off msg env None] s = ((s', [off]), Inr ()) \<and>
           abs_jobs (ww_execs s') = abs_jobs (ww_execs s) \<and>
           ww_svc s' = ww_svc s \<and> ww_log s' = ww_log s \<and> ww_dlq s' = ww_dlq s"
proof -
  have "\<not> job_free (cr_attempt ev) (we_now env AtClaim) (abs_jobs (ww_execs s) (cr_task_id ev))"
    using assms(5,6) by (simp add: job_free_def)
  moreover have "we_claim_id env \<noteq> []" "we_claim env = no_faults" using assms(2) by (simp_all add: calm_def)
  ultimately obtain x where x: "JobExecution_Claim no_faults ev (we_claim_id env) (we_now env AtClaim)
      (we_now env AtClaim + wk_claim_ttl w) (ww_execs s) = (burn_seq (ww_execs s), Inr (x, False))"
    using claim_refused [OF assms(3) request_in_facts(1) [OF assms(4)]] by metis
  have h: "HandleMessage w collect env msg s = (s\<lparr>ww_execs := burn_seq (ww_execs s)\<rparr>, Inr ())"
    using assms(1,4) x calm_wait [OF assms(2)] \<open>we_claim env = no_faults\<close>
    by (simp add: HandleMessage_def request_in_def claimExecution_def full_worker_def time_add_def Let_def)
  then show ?thesis by (simp add: abs_jobs_def fun_eq_iff)
qed

theorem worker_drops_leased_request_witness:
  "\<exists>s'. Worker_Run sample_worker (counting_collect (\<lambda>_. Inr None)) [ReadMessage 4 sample_message (sample_worker_env 7) None]
     (sample_worker_world\<lparr>ww_execs := claimed_table\<rparr>) = ((s', [4]), Inr ()) \<and>
     abs_jobs (ww_execs s') ''t1'' = Working 0 ''c1'' 10 \<and> ww_svc s' = 0"
proof -
  have t: "cr_task_id sample_request = ''t1''" "cr_attempt sample_request = 0" by (simp_all add: sample_request_def)
  have inv: "exec_inv claimed_table" unfolding claimed_table_def by (rule JobExecution_Claim_inv) simp
  have "abs_jobs claimed_table ''t1'' = Working 0 ''c1'' 10"
    using claim_refines(1) [OF exec_inv_empty, of sample_request "''c1''" 5 10] t
    by (simp add: claimed_table_def abs_jobs_def exec_lookup_def find_row_def job_free_def)
  then show ?thesis
    using worker_drops_leased_request [OF sample_worker_facts(1) sample_env_calm _ sample_message_in, of 7
        "sample_worker_world\<lparr>ww_execs := claimed_table\<rparr>" "''c1''" 10 "counting_collect (\<lambda>_. Inr None)" 4] inv t
    by (auto simp: sample_worker_env_def simp del: Worker_Run.simps)
qed

text \<open>
  A message whose handling failed (other than as invalid) is skipped, not retried: the
  loop goes on without committing it, and the next message that is handled commits a later
  offset of the partition, past which a restarted consumer resumes.
\<close>

theorem worker_failed_message_passed_over:
  assumes "HandleMessage w collect env msg s = (s1, Inl e)" "\<not> errors_is e ErrInvalidMessage"
    and "HandleMessage w collect env' msg' s1 = (s2, Inr ())" "off < off'"
  shows "Worker_Run w collect [ReadMessage off msg env None, ReadMessage off' msg' env' None] s =
           ((s2, [off']), Inr ())"
  using assms by simp

theorem worker_failed_message_passed_over_witness:
  "\<exists>s2. Worker_Run sample_worker (counting_collect (\<lambda>_. Inr None))
     [ReadMessage 4 sample_message ((sample_worker_env 2000)\<lparr>we_claim := (\<lambda>_. Some (Plain ''db''))\<rparr>) None,
      ReadMessage 5 sample_message (sample_worker_env 2000) None]
     sample_worker_world = ((s2, [5]), Inr ())"
proof -
  let ?env = "(sample_worker_env 2000)\<lparr>we_claim := (\<lambda>_. Some (Plain ''db''))\<rparr>"
  have c: "calm (sample_worker_env 2000)" by (simp add: sample_env_calm)
  have "HandleMessage sample_worker (counting_collect (\<lambda>_. Inr None)) ?env sample_message sample_worker_world =
      (sample_worker_world, Inl (Wrapf ''claim collection job execution: ''
         (Wrapf ''create job execution claim: '' (Plain ''db'') []) []))"
    using sample_message_in request_in_facts(1) [OF sample_message_in]
    by (simp add: HandleMessage_def request_in_def waitUntilNextAttempt_def sample_request_def is_zero_time_def
        claimExecution_def JobExecution_Claim_def sample_worker_env_def Let_def sample_worker_def NewWorker_def
        WithDLQRepository_def WithJobExecutionRepository_def)
  moreover have "exec_inv (ww_execs sample_worker_world)"
    "job_free (cr_attempt sample_request) (we_now (sample_worker_env 2000) AtClaim)
       (abs_jobs (ww_execs sample_worker_world) (cr_task_id sample_request))"
    using sample_worker_facts(4) by (simp_all add: worker_good_def job_free_def)
  then obtain s2 where "HandleMessage sample_worker (counting_collect (\<lambda>_. Inr None)) (sample_worker_env 2000)
      sample_message sample_worker_world = (s2, Inr ())"
    using handle_nothing [OF c sample_worker_facts(1) _ sample_message_in, of sample_worker_world
        "counting_collect (\<lambda>_. Inr None)" 1] by (auto simp: counting_collect_def)
  ultimately show ?thesis
    using worker_failed_message_passed_over [of sample_worker "counting_collect (\<lambda>_. Inr None)" ?env sample_message
        sample_worker_world] by fastforce
qed

end
