(* ===== verification/Netguard.thy ===== *)
theory Netguard
  imports Go_Errors "HOL-Library.Word"
begin

section \<open>Outbound addresses\<close>

text \<open>
  The guard against requests into private networks (\<open>internal/netguard/netguard.go\<close>). Of the
  Go library, the parsers of URLs, addresses and host-port pairs and the Unicode case tables
  are the fields of a record \<open>go_lib\<close>; the predicates of \<open>net/netip\<close> on addresses are
  defined on words.
\<close>

unbundle bit_operations_syntax

datatype ip_addr = IPv4 "32 word" | IPv6 "128 word" string

record parsed_url =
  pu_scheme :: string
  pu_has_user :: bool
  pu_hostname :: string

record go_lib =
  gl_lower :: "string \<Rightarrow> string"
  gl_parse_uri :: "string \<Rightarrow> parsed_url option"
  gl_parse_addr :: "string \<Rightarrow> ip_addr option"
  gl_split_host_port :: "string \<Rightarrow> (string \<times> string) option"
  gl_number :: "json \<Rightarrow> json option"


subsection \<open>Package netip\<close>

fun Addr_Unmap :: "ip_addr \<Rightarrow> ip_addr" where
  "Addr_Unmap (IPv6 a z) = (if drop_bit 32 a = 0xFFFF then IPv4 (ucast a) else IPv6 a z)"
| "Addr_Unmap (IPv4 a) = IPv4 a"

fun Addr_Is4 :: "ip_addr \<Rightarrow> bool" where
  "Addr_Is4 (IPv4 _) = True"
| "Addr_Is4 (IPv6 _ _) = False"

fun IsLoopback :: "ip_addr \<Rightarrow> bool" where
  "IsLoopback (IPv4 a) \<longleftrightarrow> drop_bit 24 a = 127"
| "IsLoopback (IPv6 a _) \<longleftrightarrow> a = 1"

fun IsPrivate :: "ip_addr \<Rightarrow> bool" where
  "IsPrivate (IPv4 a) \<longleftrightarrow> drop_bit 24 a = 10 \<or> drop_bit 20 a = 0xAC1 \<or> drop_bit 16 a = 0xC0A8"
| "IsPrivate (IPv6 a _) \<longleftrightarrow> drop_bit 121 a = 0x7E"

fun IsLinkLocalUnicast :: "ip_addr \<Rightarrow> bool" where
  "IsLinkLocalUnicast (IPv4 a) \<longleftrightarrow> drop_bit 16 a = 0xA9FE"
| "IsLinkLocalUnicast (IPv6 a _) \<longleftrightarrow> drop_bit 118 a = 0x3FA"

fun IsLinkLocalMulticast :: "ip_addr \<Rightarrow> bool" where
  "IsLinkLocalMulticast (IPv4 a) \<longleftrightarrow> drop_bit 8 a = 0xE00000"
| "IsLinkLocalMulticast (IPv6 a _) \<longleftrightarrow> drop_bit 112 a AND 0xFF0F = 0xFF02"

fun IsInterfaceLocalMulticast :: "ip_addr \<Rightarrow> bool" where
  "IsInterfaceLocalMulticast (IPv4 _) \<longleftrightarrow> False"
| "IsInterfaceLocalMulticast (IPv6 a _) \<longleftrightarrow> drop_bit 112 a AND 0xFF0F = 0xFF01"

fun IsMulticast :: "ip_addr \<Rightarrow> bool" where
  "IsMulticast (IPv4 a) \<longleftrightarrow> drop_bit 28 a = 0xE"
| "IsMulticast (IPv6 a _) \<longleftrightarrow> drop_bit 120 a = 0xFF"

definition IsUnspecified :: "ip_addr \<Rightarrow> bool" where
  "IsUnspecified addr \<longleftrightarrow> addr = IPv4 0 \<or> addr = IPv6 0 ''''"


subsection \<open>Hosts and URLs\<close>

text \<open>\<open>addr_text\<close> is what \<open>addr.String()\<close> prints into the error.\<close>

definition validateAddr :: "(ip_addr \<Rightarrow> string) \<Rightarrow> ip_addr \<Rightarrow> unit result" where
  "validateAddr addr_text addr0 =
     (let addr = Addr_Unmap addr0 in
      if IsLoopback addr \<or> IsPrivate addr \<or> IsLinkLocalUnicast addr \<or> IsLinkLocalMulticast addr \<or>
         IsInterfaceLocalMulticast addr \<or> IsMulticast addr \<or> IsUnspecified addr
      then Inl (sentinel_with ErrUnsafeAddress (addr_text addr)) else Inr ())"

definition trim_suffix :: "string \<Rightarrow> string \<Rightarrow> string" where
  "trim_suffix s suf = (if has_suffix s suf then take (length s - length suf) s else s)"

definition trim_set :: "string \<Rightarrow> string \<Rightarrow> string" where
  "trim_set cs s = rev (dropWhile (\<lambda>c. c \<in> set cs) (rev (dropWhile (\<lambda>c. c \<in> set cs) s)))"

definition normalizeHost :: "go_lib \<Rightarrow> string \<Rightarrow> string" where
  "normalizeHost lib host = to_lower (gl_lower lib) (trim_set ''[]'' (trim_space (trim_suffix host ''.'')))"

definition ValidateHost :: "go_lib \<Rightarrow> (ip_addr \<Rightarrow> string) \<Rightarrow> string \<Rightarrow> unit result" where
  "ValidateHost lib addr_text host0 =
     (let host = normalizeHost lib host0 in
      if host = '''' then Inl (sentinel_with ErrUnsafeAddress ''empty host'')
      else if host = ''localhost'' \<or> has_suffix host ''.localhost'' \<or> has_suffix host ''.local'' then
        Inl (sentinel_with ErrUnsafeAddress ''local host is not allowed'')
      else case gl_parse_addr lib host of
        Some addr \<Rightarrow> validateAddr addr_text addr
      | None \<Rightarrow> Inr ())"

definition ValidateHTTPURL :: "go_lib \<Rightarrow> (ip_addr \<Rightarrow> string) \<Rightarrow> string \<Rightarrow> unit result" where
  "ValidateHTTPURL lib addr_text raw =
     (case gl_parse_uri lib (trim_space raw) of
        None \<Rightarrow> Inl (Plain ''parse'')
      | Some parsed \<Rightarrow>
          if pu_scheme parsed \<noteq> ''http'' \<and> pu_scheme parsed \<noteq> ''https'' then
            Inl (sentinel_with ErrUnsafeAddress ''unsupported scheme'')
          else if pu_has_user parsed then
            Inl (sentinel_with ErrUnsafeAddress ''userinfo is not allowed'')
          else ValidateHost lib addr_text (pu_hostname parsed))"


subsection \<open>Dialing\<close>

text \<open>
  The resolver and the network are outside: \<open>resolve\<close> gives the addresses of a name,
  \<open>connect\<close> the outcome of a connection attempt. The result comes with the list of the
  attempts made.
\<close>

record dialer =
  dl_timeout :: duration

definition Dialer_lookup ::
  "go_lib \<Rightarrow> (string \<Rightarrow> ip_addr list result) \<Rightarrow> string \<Rightarrow> ip_addr list result" where
  "Dialer_lookup lib resolve host =
     (case gl_parse_addr lib (normalizeHost lib host) of
        Some addr \<Rightarrow> Inr [addr]
      | None \<Rightarrow>
        (case resolve host of
           Inl e \<Rightarrow> Inl (Wrapf ''resolve outbound host: '' e '''')
         | Inr addrs \<Rightarrow> Inr addrs))"

type_synonym 'conn connect_fn = "duration \<Rightarrow> string \<Rightarrow> ip_addr \<Rightarrow> string \<Rightarrow> 'conn result"

fun dial_addrs ::
  "(ip_addr \<Rightarrow> string) \<Rightarrow> 'conn connect_fn \<Rightarrow> duration \<Rightarrow> string \<Rightarrow> string \<Rightarrow> go_error \<Rightarrow> ip_addr list \<Rightarrow>
     ip_addr list \<times> 'conn result" where
  "dial_addrs addr_text connect timeout network port lastErr [] = ([], Inl lastErr)"
| "dial_addrs addr_text connect timeout network port lastErr (addr # addrs) =
     (case validateAddr addr_text addr of
        Inl e \<Rightarrow> ([], Inl e)
      | Inr _ \<Rightarrow>
          if network = ''tcp4'' \<and> \<not> Addr_Is4 addr then
            dial_addrs addr_text connect timeout network port lastErr addrs
          else if network = ''tcp6'' \<and> Addr_Is4 addr then
            dial_addrs addr_text connect timeout network port lastErr addrs
          else (case connect timeout network addr port of
              Inr conn \<Rightarrow> ([addr], Inr conn)
            | Inl e \<Rightarrow>
                (case dial_addrs addr_text connect timeout network port e addrs of
                   (tried, r) \<Rightarrow> (addr # tried, r))))"

definition Dialer_DialContext ::
  "go_lib \<Rightarrow> (ip_addr \<Rightarrow> string) \<Rightarrow> (string \<Rightarrow> ip_addr list result) \<Rightarrow> 'conn connect_fn \<Rightarrow> dialer \<Rightarrow>
     string \<Rightarrow> string \<Rightarrow> ip_addr list \<times> 'conn result" where
  "Dialer_DialContext lib addr_text resolve connect d network address =
     (if network \<noteq> ''tcp'' \<and> network \<noteq> ''tcp4'' \<and> network \<noteq> ''tcp6'' then
        ([], Inl (sentinel_with ErrUnsafeAddress (''unsupported network '' @ network)))
      else case gl_split_host_port lib address of
        None \<Rightarrow> ([], Inl (Wrapf ''split outbound address: '' (Plain ''address'') ''''))
      | Some (host, port) \<Rightarrow>
        (case ValidateHost lib addr_text host of
           Inl e \<Rightarrow> ([], Inl e)
         | Inr _ \<Rightarrow>
           (case Dialer_lookup lib resolve host of
              Inl e \<Rightarrow> ([], Inl e)
            | Inr addrs \<Rightarrow>
                if addrs = [] then ([], Inl (Plain (''resolve outbound host: no addresses for '' @ host)))
                else dial_addrs addr_text connect
                       (if dl_timeout d \<le> 0 then 10 * second else dl_timeout d) network port
                       (Plain (''resolve outbound host: no '' @ network @ '' address for '' @ host)) addrs)))"

definition netguard_DialContext ::
  "go_lib \<Rightarrow> (ip_addr \<Rightarrow> string) \<Rightarrow> (string \<Rightarrow> ip_addr list result) \<Rightarrow> 'conn connect_fn \<Rightarrow>
     string \<Rightarrow> string \<Rightarrow> ip_addr list \<times> 'conn result" where
  "netguard_DialContext lib addr_text resolve connect network address =
     Dialer_DialContext lib addr_text resolve connect \<lparr>dl_timeout = 10 * second\<rparr> network address"


subsection \<open>Address ranges\<close>

text \<open>The prefix tests are intervals of addresses.\<close>

lemma drop_bit_interval:
  fixes a :: "'l::len word"
  shows "uint (drop_bit n a) = p \<longleftrightarrow> p * 2 ^ n \<le> uint a \<and> uint a < (p + 1) * 2 ^ n"
proof -
  have u: "uint (drop_bit n a) = uint a div 2 ^ n"
    by (simp add: unsigned_drop_bit_eq bintr_uint) (simp add: drop_bit_eq_div)
  have "uint a div 2 ^ n = p" if "p * 2 ^ n \<le> uint a" "uint a < (p + 1) * 2 ^ n"
    using that by (intro int_div_pos_eq [where r = "uint a - p * 2 ^ n"]) (simp_all add: algebra_simps)
  moreover have "p * 2 ^ n \<le> uint a \<and> uint a < (p + 1) * 2 ^ n" if "uint a div 2 ^ n = p"
  proof -
    have "uint a = p * 2 ^ n + uint a mod 2 ^ n" using that div_mult_mod_eq [of "uint a" "2 ^ n"] by simp
    moreover have "0 \<le> uint a mod 2 ^ n" "uint a mod 2 ^ n < 2 ^ n" by simp_all
    ultimately show ?thesis by (simp only: distrib_right mult_1) linarith
  qed
  ultimately show ?thesis unfolding u by blast
qed

definition ip4 :: "int \<Rightarrow> int \<Rightarrow> int \<Rightarrow> int \<Rightarrow> int" where
  "ip4 a b c d = ((a * 256 + b) * 256 + c) * 256 + d"

definition blocked_ranges :: "(int \<times> int) list" where
  "blocked_ranges =
     [(ip4 0 0 0 0, ip4 0 0 0 0), (ip4 10 0 0 0, ip4 10 255 255 255),
      (ip4 127 0 0 0, ip4 127 255 255 255), (ip4 169 254 0 0, ip4 169 254 255 255),
      (ip4 172 16 0 0, ip4 172 31 255 255), (ip4 192 168 0 0, ip4 192 168 255 255),
      (ip4 224 0 0 0, ip4 239 255 255 255)]"

lemma prefix_word:
  "drop_bit n a = w \<longleftrightarrow> uint w * 2 ^ n \<le> uint a \<and> uint a \<le> (uint w + 1) * 2 ^ n - 1"
  using drop_bit_interval [of n a "uint w"] by (simp add: word_uint_eq_iff)

lemma prefix_interval:
  fixes a :: "32 word"
  shows "drop_bit 24 a = 127 \<longleftrightarrow> ip4 127 0 0 0 \<le> uint a \<and> uint a \<le> ip4 127 255 255 255"
    and "drop_bit 24 a = 10 \<longleftrightarrow> ip4 10 0 0 0 \<le> uint a \<and> uint a \<le> ip4 10 255 255 255"
    and "drop_bit 20 a = 0xAC1 \<longleftrightarrow> ip4 172 16 0 0 \<le> uint a \<and> uint a \<le> ip4 172 31 255 255"
    and "drop_bit 16 a = 0xC0A8 \<longleftrightarrow> ip4 192 168 0 0 \<le> uint a \<and> uint a \<le> ip4 192 168 255 255"
    and "drop_bit 16 a = 0xA9FE \<longleftrightarrow> ip4 169 254 0 0 \<le> uint a \<and> uint a \<le> ip4 169 254 255 255"
    and "drop_bit 8 a = 0xE00000 \<longleftrightarrow> ip4 224 0 0 0 \<le> uint a \<and> uint a \<le> ip4 224 0 0 255"
    and "drop_bit 28 a = 0xE \<longleftrightarrow> ip4 224 0 0 0 \<le> uint a \<and> uint a \<le> ip4 239 255 255 255"
  by (simp_all add: prefix_word ip4_def)

lemma mapped_unmap:
  fixes a :: "32 word"
  shows "Addr_Unmap (IPv6 (push_bit 32 0xFFFF OR ucast a) z) = IPv4 a"
proof -
  have "drop_bit 32 (ucast a :: 128 word) = 0"
    by (rule bit_word_eqI) (auto simp: bit_simps dest: bit_imp_le_length)
  moreover have "drop_bit 32 (push_bit 32 0xFFFF :: 128 word) = 0xFFFF" by simp
  ultimately have "drop_bit 32 (push_bit 32 0xFFFF OR ucast a :: 128 word) = 0xFFFF" by simp
  moreover have "ucast (push_bit 32 0xFFFF OR ucast a :: 128 word) = a"
  proof -
    have "ucast (ucast a :: 128 word) = a"
      by (rule bit_word_eqI) (auto simp: bit_simps)
    moreover have "ucast (push_bit 32 0xFFFF :: 128 word) = (0 :: 32 word)" by simp
    ultimately show ?thesis by (simp only: unsigned_or_eq) simp
  qed
  ultimately show ?thesis by simp
qed

lemma dial_addrs_safe:
  "dial_addrs f connect timeout network port err addrs = (tried, r) \<Longrightarrow>
     set tried \<subseteq> {a \<in> set addrs. validateAddr f a = Inr () \<and>
       (network = ''tcp4'' \<longrightarrow> Addr_Is4 a) \<and> (network = ''tcp6'' \<longrightarrow> \<not> Addr_Is4 a)} \<and>
     (\<forall>conn. r = Inr conn \<longrightarrow> tried \<noteq> [] \<and> connect timeout network (last tried) port = Inr conn)"
proof (induction addrs arbitrary: err tried r)
  case Nil
  then show ?case by auto
next
  case (Cons a addrs)
  show ?case
  proof (cases "validateAddr f a")
    case (Inl e)
    with Cons.prems show ?thesis by auto
  next
    case (Inr u)
    consider (skip) "network = ''tcp4'' \<and> \<not> Addr_Is4 a \<or> network = ''tcp6'' \<and> Addr_Is4 a"
      | (fit) "\<not> (network = ''tcp4'' \<and> \<not> Addr_Is4 a \<or> network = ''tcp6'' \<and> Addr_Is4 a)" by blast
    then show ?thesis
    proof cases
      case skip
      then have "dial_addrs f connect timeout network port err addrs = (tried, r)"
        using Cons.prems Inr by (auto split: if_splits)
      from Cons.IH [OF this] show ?thesis by auto
    next
      case fit
      show ?thesis
      proof (cases "connect timeout network a port")
        case (Inl e)
        obtain tr r' where rec: "dial_addrs f connect timeout network port e addrs = (tr, r')" by fastforce
        then have "tried = a # tr" "r = r'" using Cons.prems Inr Inl fit by (auto split: if_splits)
        then show ?thesis using Cons.IH [OF rec] Inr fit by auto
      next
        case Inr': (Inr conn)
        then have "tried = [a]" "r = Inr conn" using Cons.prems Inr fit by (auto split: if_splits)
        then show ?thesis using Inr Inr' fit by auto
      qed
    qed
  qed
qed


lemma dialer_cases:
  assumes "Dialer_DialContext lib f resolve connect d network address = (tried, r)"
  obtains "tried = []" "isl r"
    | timeout port err addrs where "dial_addrs f connect timeout network port err addrs = (tried, r)" "0 < timeout"
proof (cases "network \<noteq> ''tcp'' \<and> network \<noteq> ''tcp4'' \<and> network \<noteq> ''tcp6''")
  case True
  then have "tried = [] \<and> isl r" using assms by (auto simp: Dialer_DialContext_def)
  then show thesis using that(1) by blast
next
  case net: False
  show thesis
  proof (cases "gl_split_host_port lib address")
    case None
    then have "tried = [] \<and> isl r" using assms net by (auto simp: Dialer_DialContext_def)
    then show thesis using that(1) by blast
  next
    case (Some hp)
    obtain host port where hp: "hp = (host, port)" by fastforce
    show thesis
    proof (cases "isl (ValidateHost lib f host)")
      case True
      then obtain e where "ValidateHost lib f host = Inl e" by (auto simp: isl_def)
      then have "tried = [] \<and> isl r" using assms net Some hp by (auto simp: Dialer_DialContext_def)
      then show thesis using that(1) by blast
    next
      case False
      then obtain u where v: "ValidateHost lib f host = Inr u" by (cases "ValidateHost lib f host") auto
      show thesis
      proof (cases "Dialer_lookup lib resolve host")
        case (Inl e)
        then have "tried = [] \<and> isl r" using assms net Some hp v by (auto simp: Dialer_DialContext_def)
        then show thesis using that(1) by blast
      next
        case (Inr addrs)
        show thesis
        proof (cases "addrs = []")
          case True
          then have "tried = [] \<and> isl r" using assms net Some hp v Inr by (auto simp: Dialer_DialContext_def)
          then show thesis using that(1) by blast
        next
          case False
          let ?t = "if dl_timeout d \<le> 0 then 10 * second else dl_timeout d"
          have "dial_addrs f connect ?t network port
              (Plain (''resolve outbound host: no '' @ network @ '' address for '' @ host)) addrs = (tried, r)"
            using assms False net Some hp v Inr by (simp add: Dialer_DialContext_def)
          then show thesis by (rule that(2)) simp
        qed
      qed
    qed
  qed
qed


subsection \<open>Properties of the guard\<close>

text \<open>
  The guard accepts an IPv4 address exactly when it lies outside seven intervals: the
  unspecified address, 10/8, 127/8, 169.254/16, 172.16/12, 192.168/16 and 224/4; and an
  IPv4-mapped IPv6 address exactly when it accepts the IPv4 address inside.
\<close>

theorem netguard_v4_ranges:
  "(validateAddr f (IPv4 a) = Inr () \<longleftrightarrow>
      list_all (\<lambda>(lo, hi). uint a < lo \<or> hi < uint a) blocked_ranges) \<and>
   (validateAddr f (IPv6 (push_bit 32 0xFFFF OR ucast a) z) = Inr () \<longleftrightarrow> validateAddr f (IPv4 a) = Inr ())"
proof -
  have v: "validateAddr f (IPv4 a) = Inr () \<longleftrightarrow>
      list_all (\<lambda>(lo, hi). uint a < lo \<or> hi < uint a) blocked_ranges"
  proof -
    have "IsLinkLocalMulticast (IPv4 a) \<Longrightarrow> IsMulticast (IPv4 a)"
      by (simp add: prefix_interval) (simp add: ip4_def)
    then have "validateAddr f (IPv4 a) = Inr () \<longleftrightarrow>
        \<not> (IsUnspecified (IPv4 a) \<or> IsPrivate (IPv4 a) \<or> IsLoopback (IPv4 a) \<or> IsLinkLocalUnicast (IPv4 a) \<or>
           IsMulticast (IPv4 a))"
      by (auto simp: validateAddr_def Let_def)
    moreover have "IsUnspecified (IPv4 a) \<longleftrightarrow> ip4 0 0 0 0 \<le> uint a \<and> uint a \<le> ip4 0 0 0 0"
      by (auto simp: IsUnspecified_def ip4_def word_uint_eq_iff)
    ultimately show ?thesis
      by (simp only: prefix_interval IsLoopback.simps IsPrivate.simps IsLinkLocalUnicast.simps IsMulticast.simps
          blocked_ranges_def list.pred_inject prod.case not_le [symmetric]) blast
  qed
  have "validateAddr f (IPv6 (push_bit 32 0xFFFF OR ucast a) z) = validateAddr f (IPv4 a)"
    unfolding validateAddr_def mapped_unmap by simp
  with v show ?thesis by simp
qed

text \<open>
  Whatever the resolver and the network answer, the dialer tries to connect only to
  addresses that the guard accepts, of the family asked for: the address a name resolves to
  is checked itself, so a name that resolves differently the second time gains nothing. A
  connection it returns is that of the last attempt.
\<close>

theorem dialer_connects_to_safe_only:
  assumes "Dialer_DialContext lib f resolve connect d network address = (tried, r)"
  shows "set tried \<subseteq> {a. validateAddr f a = Inr () \<and>
           (network \<noteq> ''tcp4'' \<or> Addr_Is4 a) \<and> (network \<noteq> ''tcp6'' \<or> \<not> Addr_Is4 a)} \<and>
         (isl r \<or> (\<exists>timeout port. 0 < timeout \<and> tried \<noteq> [] \<and> r = connect timeout network (last tried) port))"
proof -
  consider "tried = []" "isl r"
    | timeout port err addrs where "dial_addrs f connect timeout network port err addrs = (tried, r)" "0 < timeout"
    by (rule dialer_cases [OF assms])
  then show ?thesis
  proof cases
    case 2
    note safe = dial_addrs_safe [OF 2(1)]
    show ?thesis
    proof (cases r)
      case (Inr conn)
      then have "tried \<noteq> [] \<and> r = connect timeout network (last tried) port" using safe by simp
      with safe 2(2) show ?thesis by blast
    qed (use safe in auto)
  qed simp
qed

definition sample_lib :: go_lib where
  "sample_lib = \<lparr>gl_lower = id, gl_parse_uri = (\<lambda>s. Some \<lparr>pu_scheme = ''https'', pu_has_user = False, pu_hostname = s\<rparr>),
     gl_parse_addr = (\<lambda>_. None), gl_split_host_port = (\<lambda>s. Some (s, ''443'')), gl_number = Some\<rparr>"

theorem dialer_connects_to_safe_only_witness:
  "validateAddr (\<lambda>_. []) (IPv4 0x08080808) = Inr ()"
proof -
  have h: "normalizeHost sample_lib ''a.example'' = ''a.example''"
    by (simp add: normalizeHost_def sample_lib_def trim_suffix_def has_suffix_def has_prefix_def trim_space_visible
        visible_def trim_set_def to_lower_def ascii_only_def lower_byte_def)
  have p: "gl_split_host_port sample_lib ''a.example'' = Some (''a.example'', ''443'')"
    "gl_parse_addr sample_lib ''a.example'' = None"
    by (simp_all add: sample_lib_def)
  have v: "ValidateHost sample_lib (\<lambda>_. []) ''a.example'' = Inr ()"
    by (simp add: ValidateHost_def h p has_suffix_def has_prefix_def)
  have "Dialer_DialContext sample_lib (\<lambda>_. []) (\<lambda>_. Inr [IPv4 0x08080808]) (\<lambda>_ _ a _. Inr a)
      \<lparr>dl_timeout = 0\<rparr> ''tcp'' ''a.example'' = ([IPv4 0x08080808], Inr (IPv4 0x08080808))"
    by (simp add: Dialer_DialContext_def Dialer_lookup_def h v p)
      (simp add: validateAddr_def IsUnspecified_def)
  from dialer_connects_to_safe_only [OF this] show ?thesis by simp
qed

text \<open>
  Not every address that leads into a private network is refused: the NAT64 form
  64:ff9b::7f00:1 of the loopback address and the shared address space 100.64/10 of
  carrier-grade NAT pass the guard.
\<close>

theorem netguard_accepts_nat64_and_cgnat:
  "validateAddr f (IPv6 0x0064FF9B00000000000000007F000001 []) = Inr () \<and>
   validateAddr f (IPv4 0x64400001) = Inr ()"
  by (simp add: validateAddr_def Let_def IsUnspecified_def)

end
