(* ===== verification/Redis_Store.thy ===== *)
theory Redis_Store
  imports Http_Layer
begin

section \<open>Redis\<close>

text \<open>
  The part of Redis the program uses: string values with an optional time of expiry, the
  commands \<open>GET\<close>, \<open>SET\<close>, \<open>SET NX\<close>, \<open>DEL\<close>, \<open>SCAN MATCH\<close>, \<open>INCR\<close>, \<open>PEXPIRE\<close> and \<open>PTTL\<close>.
  A key whose time has come is gone for every command. The values the program stores are
  the token of a lock, a counter, or a JSON text.

  The list caches of the packages \<open>source\<close> and \<open>article\<close>, the collection lock and the rate
  limiter work on one such store; their keys start with different words.
\<close>

datatype redis_value = RText string | RCount int | RJson payload

type_synonym redis = "string \<Rightarrow> (redis_value \<times> time option) option"

definition redis_get :: "time \<Rightarrow> string \<Rightarrow> redis \<Rightarrow> redis_value option" where
  "redis_get now k r =
     (case r k of
        None \<Rightarrow> None
      | Some (v, None) \<Rightarrow> Some v
      | Some (v, Some ex) \<Rightarrow> if now < ex then Some v else None)"

definition redis_set :: "string \<Rightarrow> redis_value \<Rightarrow> time option \<Rightarrow> redis \<Rightarrow> redis" where
  "redis_set k v ex r = r(k \<mapsto> (v, ex))"

definition redis_setnx :: "time \<Rightarrow> string \<Rightarrow> redis_value \<Rightarrow> duration \<Rightarrow> redis \<Rightarrow> redis \<times> bool" where
  "redis_setnx now k v ttl r =
     (if redis_get now k r = None then (redis_set k v (Some (now + ttl)) r, True) else (r, False))"

definition redis_del :: "string \<Rightarrow> redis \<Rightarrow> redis" where
  "redis_del k r = r(k := None)"

text \<open>\<open>INCR\<close>: an absent key counts as 0; the expiry of a present one stays.\<close>

definition redis_incr :: "time \<Rightarrow> string \<Rightarrow> redis \<Rightarrow> redis \<times> int result" where
  "redis_incr now k r =
     (case redis_get now k r of
        None \<Rightarrow> (r(k \<mapsto> (RCount 1, None)), Inr 1)
      | Some (RCount n) \<Rightarrow>
          if n = 2 ^ 63 - 1 then (r, Inl (Plain ''ERR increment or decrement would overflow''))
          else (r(k \<mapsto> (RCount (n + 1), snd (the (r k)))), Inr (n + 1))
      | Some _ \<Rightarrow> (r, Inl (Plain ''ERR value is not an integer or out of range'')))"

definition redis_pexpire :: "time \<Rightarrow> string \<Rightarrow> duration \<Rightarrow> redis \<Rightarrow> redis" where
  "redis_pexpire now k ttl r =
     (case redis_get now k r of
        None \<Rightarrow> r
      | Some v \<Rightarrow> r(k \<mapsto> (v, Some (now + ttl))))"

text \<open>\<open>PTTL\<close>: -2 for an absent key, -1 for one without expiry, else milliseconds.\<close>

definition redis_pttl :: "time \<Rightarrow> string \<Rightarrow> redis \<Rightarrow> int" where
  "redis_pttl now k r =
     (if redis_get now k r = None then -2
      else case snd (the (r k)) of None \<Rightarrow> -1 | Some ex \<Rightarrow> (ex - now) div millisecond)"


subsection \<open>Glob patterns\<close>

text \<open>
  The patterns of \<open>SCAN MATCH\<close>: a star for any run of characters, a question mark for one,
  a bracketed class (with ranges, or negated by a caret), and a backslash before a literal.
\<close>

definition in_glob_range :: "char \<Rightarrow> char \<Rightarrow> char \<Rightarrow> bool" where
  "in_glob_range a b c \<longleftrightarrow>
     (let lo = (of_char a :: nat); hi = of_char b; x = of_char c in min lo hi \<le> x \<and> x \<le> max lo hi)"

fun glob_class :: "string \<Rightarrow> char \<Rightarrow> bool \<Rightarrow> bool \<times> string" where
  "glob_class [] c m = (m, [])"
| "glob_class (p # ps) c m =
     (if p = CHR '']'' then (m, ps)
      else if p = CHR 0x5C \<and> ps \<noteq> [] then glob_class (tl ps) c (m \<or> hd ps = c)
      else if length ps \<ge> 2 \<and> hd ps = CHR ''-'' then
        glob_class (drop 2 ps) c (m \<or> in_glob_range p (ps ! 1) c)
      else glob_class ps c (m \<or> p = c))"

lemma glob_class_shorter: "length (snd (glob_class ps c m)) \<le> length ps"
  by (induction ps c m rule: glob_class.induct) auto

function glob :: "string \<Rightarrow> string \<Rightarrow> bool" where
  "glob [] s \<longleftrightarrow> s = []"
| "glob (p # ps) [] \<longleftrightarrow> p = CHR ''*'' \<and> glob ps []"
| "glob (p # ps) (c # s) \<longleftrightarrow>
     (if p = CHR ''*'' then glob ps (c # s) \<or> glob (p # ps) s
      else if p = CHR ''?'' then glob ps s
      else if p = CHR 0x5C \<and> ps \<noteq> [] then hd ps = c \<and> glob (tl ps) s
      else if p = CHR ''['' then
        (let neg = (ps \<noteq> [] \<and> hd ps = CHR ''^''); cl = (if neg then tl ps else ps);
             res = glob_class cl c False in
         fst res \<noteq> neg \<and> glob (snd res) s)
      else p = c \<and> glob ps s)"
  by pat_completeness auto

termination
proof (relation "measure (\<lambda>(ps, s). length ps + length s)", goal_cases)
  case (7 p ps c s x xa xb)
  have "length (snd xb) \<le> length xa" unfolding 7 by (rule glob_class_shorter)
  also have "\<dots> \<le> length ps" unfolding 7 by simp
  finally show ?case by simp
qed auto

definition plain_text :: "string \<Rightarrow> bool" where
  "plain_text p \<longleftrightarrow> list_all (\<lambda>c. c \<notin> {CHR ''*'', CHR ''?'', CHR ''['', CHR 0x5C}) p"

lemma plain_text_append [simp]: "plain_text (p @ q) \<longleftrightarrow> plain_text p \<and> plain_text q"
  by (simp add: plain_text_def)

lemma glob_star: "glob ''*'' s"
  by (induction s) auto

text \<open>A pattern that is a plain text followed by a star matches the strings it begins.\<close>

lemma glob_plain_star: "plain_text p \<Longrightarrow> glob (p @ ''*'') s \<longleftrightarrow> has_prefix s p"
proof (induction p arbitrary: s)
  case Nil
  then show ?case using glob_star by (simp add: has_prefix_def)
next
  case (Cons a p)
  then show ?case by (cases s) (auto simp: plain_text_def has_prefix_def)
qed


subsection \<open>Keys made of parts\<close>

text \<open>Numbers in keys are delimited: their texts hold digits and a sign only.\<close>

lemma set_fmt_int: "set (fmt_int n) \<subseteq> {c. is_digit c} \<union> {CHR ''-''}"
  using fmt_nat_facts [of "nat n"] fmt_nat_facts [of "nat (- n)"] by (auto simp: fmt_int_def list_all_iff)

lemma fmt_int_no_char:
  assumes "\<not> is_digit c" "c \<noteq> CHR ''-''"
  shows "c \<notin> set (fmt_int n)"
  using set_fmt_int [of n] assms by auto

lemma fmt_int_no_colon [simp]: "CHR '':'' \<notin> set (fmt_int n)"
  by (rule fmt_int_no_char) (simp_all add: is_digit_def)

lemma plain_fmt_int [simp]: "plain_text (fmt_int n)"
  unfolding plain_text_def list_all_iff using set_fmt_int [of n] by (auto simp: is_digit_def)

lemma split_first:
  assumes "xs @ c # ys = xs' @ c # ys'" "c \<notin> set xs" "c \<notin> set xs'"
  shows "xs = xs' \<and> ys = ys'"
  using assms
proof (induction xs arbitrary: xs')
  case Nil
  then show ?case by (cases xs') auto
next
  case (Cons x xs)
  then show ?case by (cases xs') auto
qed

lemma split_last:
  assumes "xs @ c # ys = xs' @ c # ys'" "c \<notin> set ys" "c \<notin> set ys'"
  shows "xs = xs' \<and> ys = ys'"
proof -
  from assms(1) have "rev (xs @ c # ys) = rev (xs' @ c # ys')" by (rule arg_cong)
  then have "rev ys @ c # rev xs = rev ys' @ c # rev xs'" by simp
  then have "rev ys = rev ys' \<and> rev xs = rev xs'" by (rule split_first) (use assms in auto)
  then show ?thesis by simp
qed


subsection \<open>The commands of a client\<close>

text \<open>
  What the client sees of a command: it succeeds, or fails with an error, and then the
  server may have carried it out all the same (a lost answer).
\<close>

datatype redis_outcome = RDone | RFailed go_error bool

datatype redis_stmt = RsGet | RsSet | RsScan | RsDel string

type_synonym redis_faults = "redis_stmt \<Rightarrow> redis_outcome"

abbreviation redis_ok :: redis_faults where
  "redis_ok \<equiv> \<lambda>_. RDone"

definition redis_write :: "redis_outcome \<Rightarrow> (redis \<Rightarrow> redis) \<Rightarrow> redis \<Rightarrow> redis \<times> go_error option" where
  "redis_write out f r =
     (case out of
        RDone \<Rightarrow> (f r, None)
      | RFailed e applied \<Rightarrow> (if applied then f r else r, Some e))"

text \<open>
  The loop over a \<open>SCAN\<close> iterator with one \<open>DEL\<close> per key: \<open>visited\<close> are the keys the server
  yields, of which it returns those that match. A full scan yields every key that is there
  from its start to its end, in any order and possibly more than once.
\<close>

fun delete_keys :: "redis_faults \<Rightarrow> string list \<Rightarrow> redis \<Rightarrow> redis \<times> go_error option" where
  "delete_keys fault [] r = (r, None)"
| "delete_keys fault (k # ks) r =
     (case redis_write (fault (RsDel k)) (redis_del k) r of
        (r', Some e) \<Rightarrow> (r', Some e)
      | (r', None) \<Rightarrow> delete_keys fault ks r')"

definition full_scan :: "redis \<Rightarrow> string list \<Rightarrow> bool" where
  "full_scan r visited \<longleftrightarrow> (\<forall>k. r k \<noteq> None \<longrightarrow> k \<in> set visited)"

lemma redis_get_set: "redis_get now k' (redis_set k v ex r) =
    (if k' = k then (case ex of None \<Rightarrow> Some v | Some t \<Rightarrow> if now < t then Some v else None)
     else redis_get now k' r)"
  by (simp add: redis_get_def redis_set_def split: option.split)

lemma redis_get_del: "redis_get now k' (redis_del k r) = (if k' = k then None else redis_get now k' r)"
  by (simp add: redis_get_def redis_del_def)

lemma delete_keys_ok: "delete_keys redis_ok ks r = ((\<lambda>k. if k \<in> set ks then None else r k), None)"
  by (induction ks arbitrary: r) (auto simp: redis_write_def redis_del_def fun_eq_iff)

lemma delete_keys_frame: "k \<notin> set ks \<Longrightarrow> fst (delete_keys fault ks r) k = r k"
proof (induction ks arbitrary: r)
  case (Cons k' ks)
  then show ?case
    by (cases "fault (RsDel k')") (auto simp: redis_write_def redis_del_def)
qed simp

text \<open>Deleting never brings a key back.\<close>

lemma delete_keys_shrinks: "fst (delete_keys fault ks r) k = None \<or> fst (delete_keys fault ks r) k = r k"
proof (induction ks arbitrary: r)
  case (Cons k' ks)
  have "redis_del k' r k = None \<or> redis_del k' r k = r k" by (simp add: redis_del_def)
  then show ?case using Cons [of "redis_del k' r"] Cons [of r]
    by (cases "fault (RsDel k')") (auto simp: redis_write_def)
qed simp


subsection \<open>List caches\<close>

text \<open>
  The contract of the two list caches. \<open>get_list\<close>, \<open>set_list\<close> and \<open>delete_user\<close> are the
  operations; \<open>user_of\<close> is the user a request is for; \<open>ok_req\<close> and \<open>ok_resp\<close> are the
  requests and answers the services put in.
\<close>

locale list_cache =
  fixes get_list :: "redis_faults \<Rightarrow> time \<Rightarrow> 'req \<Rightarrow> redis \<Rightarrow> 'resp option result"
    and set_list :: "redis_faults \<Rightarrow> time \<Rightarrow> 'req \<Rightarrow> 'resp \<Rightarrow> duration \<Rightarrow> redis \<Rightarrow> redis \<times> unit result"
    and delete_user :: "redis_faults \<Rightarrow> string list \<Rightarrow> int \<Rightarrow> redis \<Rightarrow> redis \<times> unit result"
    and user_of :: "'req \<Rightarrow> int"
    and ok_req :: "'req \<Rightarrow> bool"
    and ok_resp :: "'resp \<Rightarrow> bool"
  assumes get_fault: "get_list fault now q r = Inr (Some resp) \<Longrightarrow> get_list redis_ok now q r = Inr (Some resp)"
    and get_set_same:
      "ok_req q \<Longrightarrow> ok_resp resp \<Longrightarrow> now' < now + ttl \<Longrightarrow>
         get_list redis_ok now' q (fst (set_list redis_ok now q resp ttl r)) = Inr (Some resp)"
    and get_set_any:
      "ok_req q \<Longrightarrow> ok_req q' \<Longrightarrow> ok_resp resp \<Longrightarrow>
         get_list redis_ok now' q' (fst (set_list fault now q resp ttl r)) = Inr (Some resp') \<Longrightarrow>
         q' = q \<and> resp' = resp \<or> get_list redis_ok now' q' r = Inr (Some resp')"
    and get_deleted:
      "ok_req q \<Longrightarrow> full_scan r visited \<Longrightarrow>
         get_list redis_ok now q (fst (delete_user redis_ok visited (user_of q) r)) = Inr None"
    and get_delete_any:
      "ok_req q \<Longrightarrow> get_list redis_ok now q (fst (delete_user fault visited u r)) = Inr (Some resp) \<Longrightarrow>
         get_list redis_ok now q r = Inr (Some resp)"
    and get_delete_other:
      "ok_req q \<Longrightarrow> user_of q \<noteq> u \<Longrightarrow>
         get_list redis_ok now q (fst (delete_user fault visited u r)) = get_list redis_ok now q r"
begin

text \<open>Every answer in the cache is the one the database would give.\<close>

definition coherent :: "('req \<Rightarrow> 'resp) \<Rightarrow> redis \<Rightarrow> bool" where
  "coherent ans r \<longleftrightarrow>
     (\<forall>now q resp. ok_req q \<longrightarrow> get_list redis_ok now q r = Inr (Some resp) \<longrightarrow> resp = ans q)"

lemma coherentD: "coherent ans r \<Longrightarrow> ok_req q \<Longrightarrow> get_list fault now q r = Inr (Some resp) \<Longrightarrow> resp = ans q"
  unfolding coherent_def using get_fault by blast

lemma coherent_set:
  assumes "coherent ans r" "ok_req q" "ok_resp (ans q)"
  shows "coherent ans (fst (set_list fault now q (ans q) ttl r))"
  unfolding coherent_def
proof (intro allI impI)
  fix now' q' resp'
  assume q': "ok_req q'"
    and h: "get_list redis_ok now' q' (fst (set_list fault now q (ans q) ttl r)) = Inr (Some resp')"
  from get_set_any [OF assms(2) q' assms(3) h]
  show "resp' = ans q'" using coherentD [OF assms(1) q'] by blast
qed

text \<open>
  A change that concerns the answers of one user only, followed by a complete deletion of
  that user's entries, leaves the cache coherent with the new state.
\<close>

lemma coherent_invalidate:
  assumes "coherent ans r" "\<And>q. ok_req q \<Longrightarrow> user_of q \<noteq> u \<Longrightarrow> ans' q = ans q" "full_scan r visited"
  shows "coherent ans' (fst (delete_user redis_ok visited u r))"
  unfolding coherent_def
proof (intro allI impI)
  fix now q resp
  assume q: "ok_req q" and h: "get_list redis_ok now q (fst (delete_user redis_ok visited u r)) = Inr (Some resp)"
  show "resp = ans' q"
  proof (cases "user_of q = u")
    case True
    then show ?thesis using h get_deleted [OF q assms(3), of now] by simp
  next
    case False
    then have "get_list redis_ok now q r = Inr (Some resp)" using h get_delete_other [OF q] by simp
    then show ?thesis using coherentD [OF assms(1) q] assms(2) [OF q False] by simp
  qed
qed

text \<open>Without a change, deleting entries, completely or not, does no harm.\<close>

lemma coherent_delete:
  assumes "coherent ans r"
  shows "coherent ans (fst (delete_user fault visited u r))"
  using assms get_delete_any unfolding coherent_def by blast

end

subsection \<open>Caches of JSON texts\<close>

text \<open>The bytes of a stored value: under the keys of a list cache the program stores JSON texts only.\<close>

definition redis_bytes :: "redis_value \<Rightarrow> payload" where
  "redis_bytes v = (case v of RJson p \<Rightarrow> p | RText s \<Rightarrow> NotJson s | RCount n \<Rightarrow> JsonText (JNum n))"

text \<open>Both packages delete the entries of a user by the pattern \<open>prefix:user:id:*\<close>.\<close>

definition user_pattern :: "string \<Rightarrow> int \<Rightarrow> string" where
  "user_pattern pfx uid = pfx @ '':user:'' @ fmt_int uid @ '':*''"

lemma user_pattern_prefix: "plain_text pfx \<Longrightarrow>
    glob (user_pattern pfx uid) k \<longleftrightarrow> has_prefix k (pfx @ '':user:'' @ fmt_int uid @ '':'')"
proof -
  assume "plain_text pfx"
  moreover have "plain_text '':user:''" "plain_text '':''" by (simp_all add: plain_text_def)
  ultimately have "plain_text (pfx @ '':user:'' @ fmt_int uid @ '':'')"
    by (simp only: plain_text_append plain_fmt_int simp_thms)
  from glob_plain_star [OF this] show ?thesis by (simp add: user_pattern_def)
qed

lemma has_prefix_append: "has_prefix s p \<longleftrightarrow> (\<exists>t. s = p @ t)"
  by (metis append_eq_conv_conj append_take_drop_id has_prefix_def)

lemma user_pattern_key:
  assumes "plain_text pfx"
  shows "glob (user_pattern pfx uid) (pfx @ '':user:'' @ fmt_int u @ CHR '':'' # rest) \<longleftrightarrow> u = uid"
proof -
  have "glob (user_pattern pfx uid) (pfx @ '':user:'' @ fmt_int u @ CHR '':'' # rest) \<longleftrightarrow>
      (\<exists>t. fmt_int u @ CHR '':'' # rest = fmt_int uid @ CHR '':'' # t)"
    by (simp add: user_pattern_prefix [OF assms] has_prefix_append)
  also have "\<dots> \<longleftrightarrow> u = uid"
    using split_first [of "fmt_int u" "CHR '':''" rest "fmt_int uid"] by fastforce
  finally show ?thesis .
qed

text \<open>
  How both caches work: a key per request, a JSON text per answer. \<open>json_list_cache\<close> states
  this as laws of the operations and of their parts, and gives the contract above.
\<close>

locale json_list_cache =
  fixes get_list :: "redis_faults \<Rightarrow> time \<Rightarrow> 'req \<Rightarrow> redis \<Rightarrow> 'resp option result"
    and set_list :: "redis_faults \<Rightarrow> time \<Rightarrow> 'req \<Rightarrow> 'resp \<Rightarrow> duration \<Rightarrow> redis \<Rightarrow> redis \<times> unit result"
    and delete_user :: "redis_faults \<Rightarrow> string list \<Rightarrow> int \<Rightarrow> redis \<Rightarrow> redis \<times> unit result"
    and user_of :: "'req \<Rightarrow> int"
    and ok_req :: "'req \<Rightarrow> bool"
    and ok_resp :: "'resp \<Rightarrow> bool"
    and key :: "'req \<Rightarrow> string"
    and pattern :: "int \<Rightarrow> string"
    and encode :: "'resp \<Rightarrow> payload option"
    and decode :: "payload \<Rightarrow> 'resp option"
    and bad_entry :: go_error
  assumes json_get_fault: "get_list fault now q r = Inr (Some resp) \<Longrightarrow> get_list redis_ok now q r = Inr (Some resp)"
    and get_eq: "get_list redis_ok now q r =
        (case redis_get now (key q) r of None \<Rightarrow> Inr None
         | Some v \<Rightarrow> (case decode (redis_bytes v) of None \<Rightarrow> Inl bad_entry | Some resp \<Rightarrow> Inr (Some resp)))"
    and set_eq: "encode resp = Some p \<Longrightarrow>
        fst (set_list fault now q resp ttl r) =
        fst (redis_write (fault RsSet) (redis_set (key q) (RJson p) (Some (now + ttl))) r)"
    and delete_eq: "fst (delete_user fault visited u r) = fst (delete_keys fault (filter (glob (pattern u)) visited) r)"
    and roundtrip: "ok_resp resp \<Longrightarrow> \<exists>p. encode resp = Some p \<and> decode p = Some resp"
    and key_inject: "ok_req q \<Longrightarrow> ok_req q' \<Longrightarrow> key q = key q' \<Longrightarrow> q = q'"
    and pattern_key: "ok_req q \<Longrightarrow> glob (pattern u) (key q) \<longleftrightarrow> user_of q = u"
begin

lemma get_cong: "r (key q) = r' (key q) \<Longrightarrow> get_list redis_ok now q r = get_list redis_ok now q r'"
  by (simp add: get_eq redis_get_def)

lemma set_cases:
  assumes "ok_resp resp"
  obtains p where "decode p = Some resp"
    "fst (set_list redis_ok now q resp ttl r) = redis_set (key q) (RJson p) (Some (now + ttl)) r"
    "\<And>fault. fst (set_list fault now q resp ttl r) = r \<or>
       fst (set_list fault now q resp ttl r) = redis_set (key q) (RJson p) (Some (now + ttl)) r"
proof -
  obtain p where p: "encode resp = Some p" "decode p = Some resp" using roundtrip [OF assms] by blast
  have "fst (set_list fault now q resp ttl r) = r \<or>
       fst (set_list fault now q resp ttl r) = redis_set (key q) (RJson p) (Some (now + ttl)) r" for fault
    by (cases "fault RsSet") (auto simp: set_eq [OF p(1)] redis_write_def)
  moreover have "fst (set_list redis_ok now q resp ttl r) = redis_set (key q) (RJson p) (Some (now + ttl)) r"
    by (simp add: set_eq [OF p(1)] redis_write_def)
  ultimately show thesis using that p(2) by blast
qed

end

sublocale json_list_cache \<subseteq> list_cache get_list set_list delete_user user_of ok_req ok_resp
proof
  fix fault now q r resp
  show "get_list fault now q r = Inr (Some resp) \<Longrightarrow> get_list redis_ok now q r = Inr (Some resp)"
    by (rule json_get_fault)
next
  fix q resp r and now' now ttl :: int
  assume h: "ok_resp resp" "now' < now + ttl"
  show "get_list redis_ok now' q (fst (set_list redis_ok now q resp ttl r)) = Inr (Some resp)"
    by (rule set_cases [OF h(1), of now q ttl r]) (simp add: get_eq redis_get_set h(2) redis_bytes_def)
next
  fix q q' resp r resp' fault and now' now ttl :: int
  assume h: "ok_req q" "ok_req q'" "ok_resp resp"
    "get_list redis_ok now' q' (fst (set_list fault now q resp ttl r)) = Inr (Some resp')"
  obtain p where p: "decode p = Some resp"
    "fst (set_list fault now q resp ttl r) = r \<or>
     fst (set_list fault now q resp ttl r) = redis_set (key q) (RJson p) (Some (now + ttl)) r"
    using set_cases [OF h(3), of now q ttl r] by metis
  show "q' = q \<and> resp' = resp \<or> get_list redis_ok now' q' r = Inr (Some resp')"
  proof (cases "key q' = key q")
    case True
    then have "q' = q" using key_inject [OF h(2,1)] by blast
    then show ?thesis using h(4) p by (auto simp: get_eq redis_get_set redis_bytes_def split: if_splits)
  next
    case False
    then show ?thesis using h(4) p(2) by (auto simp: get_eq redis_get_set)
  qed
next
  fix q r visited now
  assume h: "ok_req q" "full_scan r visited"
  have "fst (delete_user redis_ok visited (user_of q) r) (key q) = None"
    using h unfolding full_scan_def delete_eq delete_keys_ok fst_conv
    by (simp add: pattern_key del: not_None_eq) blast
  then show "get_list redis_ok now q (fst (delete_user redis_ok visited (user_of q) r)) = Inr None"
    by (simp add: get_eq redis_get_def)
next
  fix q now fault visited u r resp
  let ?r = "fst (delete_user fault visited u r)"
  assume h: "get_list redis_ok now q ?r = Inr (Some resp)"
  have "?r (key q) = None \<or> ?r (key q) = r (key q)" unfolding delete_eq by (rule delete_keys_shrinks)
  then show "get_list redis_ok now q r = Inr (Some resp)"
    using h by (auto simp: get_eq redis_get_def)
next
  fix q u now fault visited r
  assume "ok_req q" "user_of q \<noteq> u"
  then have "fst (delete_user fault visited u r) (key q) = r (key q)"
    unfolding delete_eq by (intro delete_keys_frame) (simp add: pattern_key)
  then show "get_list redis_ok now q (fst (delete_user fault visited u r)) = get_list redis_ok now q r"
    by (rule get_cong)
qed

text \<open>Deletions for several users one after the other.\<close>

context json_list_cache
begin

lemma full_scan_delete:
  assumes "full_scan r visited"
  shows "full_scan (fst (delete_user fault visited' u r)) visited"
  unfolding full_scan_def
proof (intro allI impI)
  fix k assume "fst (delete_user fault visited' u r) k \<noteq> None"
  then have "r k \<noteq> None"
    using delete_keys_shrinks [of fault "filter (glob (pattern u)) visited'" r k] unfolding delete_eq by metis
  then show "k \<in> set visited" using assms unfolding full_scan_def by blast
qed

lemma coherent_invalidate_many:
  assumes "coherent ans r" "\<And>u. u \<in> set us \<Longrightarrow> full_scan r (visited u)"
    "\<And>q. ok_req q \<Longrightarrow> user_of q \<notin> set us \<Longrightarrow> ans' q = ans q"
  shows "coherent ans' (fold (\<lambda>u r. fst (delete_user redis_ok (visited u) u r)) us r)"
  using assms
proof (induction us arbitrary: ans r)
  case Nil
  then have "ans' q = ans q" if "ok_req q" for q using that by simp
  with Nil.prems(1) show ?case by (simp add: coherent_def)
next
  case (Cons u us)
  let ?ans = "\<lambda>q. if user_of q = u then ans' q else ans q"
  have "coherent ?ans (fst (delete_user redis_ok (visited u) u r))"
    by (rule coherent_invalidate [OF Cons.prems(1)]) (use Cons.prems(2) in auto)
  moreover have "full_scan (fst (delete_user redis_ok (visited u) u r)) (visited v)" if "v \<in> set us" for v
    by (rule full_scan_delete) (use Cons.prems(2) that in simp)
  moreover have "ans' q = ?ans q" if "ok_req q" "user_of q \<notin> set us" for q
    using Cons.prems(3) [of q] that by simp
  ultimately show ?case using Cons.IH [of ?ans "fst (delete_user redis_ok (visited u) u r)"] by simp
qed

end

end
