(* ===== verification/Sources.thy ===== *)
theory Sources
  imports Netguard Redis_Store "HOL-Library.Product_Lexorder" "HOL-Library.List_Lexorder" "HOL-Library.Char_ord"
begin

section \<open>Sources\<close>

text \<open>
  The feeds and mailboxes a user has registered: \<open>type.go\<close>, \<open>model.go\<close>, \<open>repository.go\<close>,
  \<open>service.go\<close>, \<open>cache.go\<close> and \<open>handler.go\<close> of \<open>internal/module/source\<close>. Rows are never
  removed: a deleted source keeps its row with the time of deletion.
\<close>

definition TypeRSS :: string where [simp]: "TypeRSS = ''rss''"
definition TypeEmail :: string where [simp]: "TypeEmail = ''email''"

definition IsValidType :: "string \<Rightarrow> bool" where
  "IsValidType t \<longleftrightarrow> t = TypeRSS \<or> t = TypeEmail"

record source =
  so_id :: int
  so_user_id :: int
  so_name :: string
  so_type :: string
  so_url :: "string option"
  so_config_json :: payload
  so_is_active :: bool
  so_last_fetched_at :: "time option"
  so_last_fetch_status :: string
  so_last_fetch_message :: string
  so_created_at :: time
  so_updated_at :: time
  so_deleted_at :: "time option"

record source_list_params =
  sl_user_id :: int
  sl_type :: string
  sl_limit :: int
  sl_offset :: int

record active_source =
  as_id :: int
  as_user_id :: int
  as_type :: string
  as_last_fetched_at :: "time option"

type_synonym source_table = "source table"


subsection \<open>The repository\<close>

text \<open>
  The unique index \<open>idx_sources_user_url_active\<close>: no two sources of a user that are not
  deleted have the same url. A row keeps its configuration as the JSON value it was given; the
  column is of type \<open>jsonb\<close>, which reads back an equal object with its keys in an order of its own
  and the last of repeated keys.
\<close>

definition source_clash :: "source_table \<Rightarrow> source \<Rightarrow> bool" where
  "source_clash t s \<longleftrightarrow>
     so_url s \<noteq> None \<and>
     find_row (\<lambda>r. so_user_id r = so_user_id s \<and> so_url r = so_url s \<and> so_deleted_at r = None \<and>
                   so_id r \<noteq> so_id s) t \<noteq> None"

definition Source_Create :: "go_error option \<Rightarrow> source \<Rightarrow> source_table \<Rightarrow> source_table \<times> source result" where
  "Source_Create fault s t =
     (let new = s\<lparr>so_id := seq t + 1\<rparr>;
          err = (case fault of Some e \<Rightarrow> Some e
                 | None \<Rightarrow> if source_clash t new then Some (Sentinel GormErrDuplicatedKey) else None) in
      case err of
        Some e \<Rightarrow>
          (burn_seq t,
           Inl (if errors_is e GormErrDuplicatedKey then Sentinel ErrSourceURLDuplicated
                else Wrapf ''create source: '' e ''''))
      | None \<Rightarrow> (insert_row (\<lambda>i. s\<lparr>so_id := i\<rparr>) t, Inr new))"

definition source_visible :: "int \<Rightarrow> int \<Rightarrow> source \<Rightarrow> bool" where
  "source_visible uid i s \<longleftrightarrow> so_user_id s = uid \<and> so_id s = i \<and> so_deleted_at s = None"

definition Source_FindByUserIDAndID ::
  "go_error option \<Rightarrow> int \<Rightarrow> int \<Rightarrow> source_table \<Rightarrow> source result" where
  "Source_FindByUserIDAndID fault uid i t =
     (case fault of
        Some e \<Rightarrow> Inl (if errors_is e GormErrRecordNotFound then Sentinel ErrSourceNotFound
                       else Wrapf ''find source by user id and id: '' e '''')
      | None \<Rightarrow>
        (case find_row (source_visible uid i) t of
           None \<Rightarrow> Inl (Sentinel ErrSourceNotFound)
         | Some s \<Rightarrow> Inr s))"

datatype source_list_stmt = SourceCount | SourceSelect

definition source_selected :: "source_list_params \<Rightarrow> source \<Rightarrow> bool" where
  "source_selected p s \<longleftrightarrow>
     so_user_id s = sl_user_id p \<and> so_deleted_at s = None \<and> (sl_type p \<noteq> '''' \<longrightarrow> so_type s = sl_type p)"

definition Source_ListByUserID ::
  "source_list_stmt faults \<Rightarrow> source_list_params \<Rightarrow> source_table \<Rightarrow> (source list \<times> int) result" where
  "Source_ListByUserID fault p t =
     (case fault SourceCount of
        Some e \<Rightarrow> Inl (Wrapf ''count sources by user id: '' e '''')
      | None \<Rightarrow>
        (let limit = (if sl_limit p \<le> 0 then 20 else sl_limit p);
             limit = (if limit > 100 then 100 else limit);
             offset = (if sl_offset p < 0 then 0 else sl_offset p) in
         case fault SourceSelect of
           Some e \<Rightarrow> Inl (Wrapf ''list sources by user id: '' e '''')
         | None \<Rightarrow>
             Inr (page limit offset (sort_key (\<lambda>s. - so_created_at s) (select_rows (source_selected p) t)),
                  count_rows (source_selected p) t)))"

definition fetch_order :: "source \<Rightarrow> int \<times> int \<times> int" where
  "fetch_order s =
     (case so_last_fetched_at s of None \<Rightarrow> (0, 0, so_created_at s) | Some l \<Rightarrow> (1, l, so_created_at s))"

definition to_active_source :: "source \<Rightarrow> active_source" where
  "to_active_source s =
     \<lparr>as_id = so_id s, as_user_id = so_user_id s, as_type = so_type s, as_last_fetched_at = so_last_fetched_at s\<rparr>"

definition Source_ListActiveForCollection ::
  "go_error option \<Rightarrow> int \<Rightarrow> source_table \<Rightarrow> active_source list result" where
  "Source_ListActiveForCollection fault limit0 t =
     (let limit = (if limit0 \<le> 0 then 100 else limit0) in
      case fault of
        Some e \<Rightarrow> Inl (Wrapf ''list active sources for collection: '' e '''')
      | None \<Rightarrow>
          Inr (map to_active_source
                 (take (nat limit)
                    (sort_key fetch_order (select_rows (\<lambda>s. so_is_active s \<and> so_deleted_at s = None) t)))))"

definition source_assign :: "source \<Rightarrow> source \<Rightarrow> source" where
  "source_assign s r =
     r\<lparr>so_name := so_name s, so_url := so_url s, so_config_json := so_config_json s,
       so_is_active := so_is_active s, so_last_fetched_at := so_last_fetched_at s,
       so_last_fetch_status := so_last_fetch_status s,
       so_last_fetch_message := so_last_fetch_message s, so_updated_at := so_updated_at s\<rparr>"

definition Source_Update :: "go_error option \<Rightarrow> source \<Rightarrow> source_table \<Rightarrow> source_table \<times> unit result" where
  "Source_Update fault s t =
     (let P = source_visible (so_user_id s) (so_id s);
          err = (case fault of Some e \<Rightarrow> Some e
                 | None \<Rightarrow> if find_row P t \<noteq> None \<and> source_clash t s
                           then Some (Sentinel GormErrDuplicatedKey) else None) in
      case err of
        Some e \<Rightarrow>
          (t, Inl (if errors_is e GormErrDuplicatedKey then Sentinel ErrSourceURLDuplicated
                   else Wrapf ''update source: '' e ''''))
      | None \<Rightarrow>
          if count_rows P t = 0 then (t, Inl (Sentinel ErrSourceNotFound))
          else (update_rows P (source_assign s) t, Inr ()))"

definition Source_SoftDelete ::
  "go_error option \<Rightarrow> int \<Rightarrow> int \<Rightarrow> time \<Rightarrow> source_table \<Rightarrow> source_table \<times> unit result" where
  "Source_SoftDelete fault uid i deletedAt t =
     (case fault of
        Some e \<Rightarrow> (t, Inl (Wrapf ''soft delete source: '' e ''''))
      | None \<Rightarrow>
        (let P = source_visible uid i in
         if count_rows P t = 0 then (t, Inl (Sentinel ErrSourceNotFound))
         else (update_rows P (\<lambda>r. r\<lparr>so_deleted_at := Some deletedAt, so_updated_at := deletedAt,
                                    so_is_active := False\<rparr>) t, Inr ())))"


subsection \<open>Configurations: validation and redaction\<close>

text \<open>
  Decoding a text into Go's \<open>any\<close>: objects become maps (the last of equal keys wins, and
  the marshaller writes them in the order of the keys), numbers go through \<open>float64\<close>, which
  is the field \<open>gl_number\<close> of the library record (no value for a number out of range).
\<close>

definition map_of_object :: "(string \<times> 'a) list \<Rightarrow> (string \<times> 'a) list" where
  "map_of_object kvs =
     map (\<lambda>k. (k, the (map_of (rev kvs) k))) (sorted_list_of_set (fst ` set kvs))"

fun decode_any :: "(json \<Rightarrow> json option) \<Rightarrow> json \<Rightarrow> json option" where
  "decode_any num (JNum n) = num (JNum n)"
| "decode_any num (JFrac s) = num (JFrac s)"
| "decode_any num (JArr xs) = map_option JArr (those (map (decode_any num) xs))"
| "decode_any num (JObj kvs) =
     map_option (\<lambda>vs. JObj (map_of_object (zip (map fst kvs) vs))) (those (map (\<lambda>kv. decode_any num (snd kv)) kvs))"
| "decode_any num JNull = Some JNull"
| "decode_any num (JBool b) = Some (JBool b)"
| "decode_any num (JStr s) = Some (JStr s)"
| "decode_any num (JTime t) = Some (JTime t)"

definition isSensitiveConfigKey :: "(string \<Rightarrow> string) \<Rightarrow> string \<Rightarrow> bool" where
  "isSensitiveConfigKey uni key \<longleftrightarrow>
     to_lower uni (trim_space key) \<in>
       {''password'', ''passwd'', ''secret'', ''token'', ''access_token'', ''refresh_token'', ''api_key'',
        ''apikey'', ''client_secret'', ''private_key'', ''authorization'', ''bearer_token''}"

fun redactConfigValue :: "(string \<Rightarrow> string) \<Rightarrow> json \<Rightarrow> json" where
  "redactConfigValue uni (JObj kvs) =
     JObj (map (\<lambda>kv. (fst kv, if isSensitiveConfigKey uni (fst kv) then JStr ''[REDACTED]''
                              else redactConfigValue uni (snd kv))) kvs)"
| "redactConfigValue uni (JArr xs) = JArr (map (redactConfigValue uni) xs)"
| "redactConfigValue uni v = v"

definition empty_object :: payload where
  "empty_object = JsonText (JObj [])"

definition redactConfig :: "go_lib \<Rightarrow> payload \<Rightarrow> payload" where
  "redactConfig lib config =
     (case config of
        NotJson _ \<Rightarrow> empty_object
      | JsonText j \<Rightarrow>
        (case decode_any (gl_number lib) j of
           None \<Rightarrow> empty_object
         | Some v \<Rightarrow> JsonText (redactConfigValue (gl_lower lib) v)))"

definition emailConfigHasPlaintextPassword :: "go_lib \<Rightarrow> payload \<Rightarrow> bool" where
  "emailConfigHasPlaintextPassword lib config =
     (case config of
        NotJson _ \<Rightarrow> False
      | JsonText j \<Rightarrow>
        (case decode_any (gl_number lib) j of
           Some (JObj kvs) \<Rightarrow>
             (case map_of kvs ''password'' of
                None \<Rightarrow> False
              | Some JNull \<Rightarrow> False
              | Some (JStr s) \<Rightarrow> trim_space s \<noteq> ''''
              | Some _ \<Rightarrow> True)
         | _ \<Rightarrow> False))"

definition normalizeConfig :: "payload option \<Rightarrow> payload result" where
  "normalizeConfig config =
     (case config of
        None \<Rightarrow> Inr empty_object
      | Some (NotJson b) \<Rightarrow> if b = '''' then Inr empty_object else Inl (Sentinel ErrInvalidSourceConfig)
      | Some (JsonText j) \<Rightarrow> Inr (JsonText j))"

definition normalizeSourceConfig :: "go_lib \<Rightarrow> string \<Rightarrow> payload option \<Rightarrow> payload result" where
  "normalizeSourceConfig lib sourceType config =
     (case normalizeConfig config of
        Inl e \<Rightarrow> Inl e
      | Inr configJSON \<Rightarrow>
          if sourceType = TypeEmail \<and> emailConfigHasPlaintextPassword lib configJSON
          then Inl (Sentinel ErrInvalidSourceConfig) else Inr configJSON)"

definition normalizeName :: "string \<Rightarrow> string result" where
  "normalizeName name0 =
     (let name = trim_space name0 in
      if name = '''' then Inl (Sentinel ErrInvalidSourceName)
      else if length name > 200 then Inl (Sentinel ErrInvalidSourceName) else Inr name)"

definition normalizeURL :: "go_lib \<Rightarrow> (ip_addr \<Rightarrow> string) \<Rightarrow> string option \<Rightarrow> string option result" where
  "normalizeURL lib addr_text raw =
     (case raw of
        None \<Rightarrow> Inr None
      | Some r \<Rightarrow>
        (let value = trim_space r in
         if value = '''' then Inr None
         else case gl_parse_uri lib value of
           None \<Rightarrow> Inl (Sentinel ErrInvalidSourceURL)
         | Some parsed \<Rightarrow>
             if pu_scheme parsed \<noteq> ''http'' \<and> pu_scheme parsed \<noteq> ''https'' then Inl (Sentinel ErrInvalidSourceURL)
             else case ValidateHTTPURL lib addr_text value of
               Inl _ \<Rightarrow> Inl (Sentinel ErrInvalidSourceURL)
             | Inr _ \<Rightarrow> Inr (Some value)))"

definition source_normalizeLimit :: "int \<Rightarrow> int" where
  "source_normalizeLimit limit = (if limit \<le> 0 then 20 else if limit > 100 then 100 else limit)"

definition source_normalizeOffset :: "int \<Rightarrow> int" where
  "source_normalizeOffset offset = (if offset < 0 then 0 else offset)"

interpretation source_page: page_params source_normalizeLimit source_normalizeOffset 20 100
  by unfold_locales (auto simp: source_normalizeLimit_def source_normalizeOffset_def)

subsection \<open>Requests and answers\<close>

record source_dto =
  sd_id :: int
  sd_name :: string
  sd_type :: string
  sd_url :: "string option"
  sd_config :: payload
  sd_is_active :: bool
  sd_last_fetched_at :: "time option"
  sd_last_fetch_status :: string
  sd_last_fetch_message :: string
  sd_created_at :: time
  sd_updated_at :: time

record create_source_request =
  cs_user_id :: int
  cs_name :: string
  cs_type :: string
  cs_url :: "string option"
  cs_config :: "payload option"

record list_sources_request =
  lr_user_id :: int
  lr_type :: string
  lr_limit :: int
  lr_offset :: int

record list_sources_response =
  lx_sources :: "source_dto list"
  lx_total :: int
  lx_limit :: int
  lx_offset :: int

record update_source_request =
  us_user_id :: int
  us_source_id :: int
  us_name :: "string option"
  us_url :: "string option"
  us_is_active :: "bool option"
  us_config :: "payload option"

definition source_toDTO :: "go_lib \<Rightarrow> source \<Rightarrow> source_dto" where
  "source_toDTO lib s =
     \<lparr>sd_id = so_id s, sd_name = so_name s, sd_type = so_type s, sd_url = so_url s,
      sd_config = redactConfig lib (so_config_json s), sd_is_active = so_is_active s,
      sd_last_fetched_at = so_last_fetched_at s, sd_last_fetch_status = so_last_fetch_status s,
      sd_last_fetch_message = so_last_fetch_message s, sd_created_at = so_created_at s,
      sd_updated_at = so_updated_at s\<rparr>"

definition redactSourceListResponse :: "go_lib \<Rightarrow> list_sources_response \<Rightarrow> list_sources_response" where
  "redactSourceListResponse lib resp =
     resp\<lparr>lx_sources := map (\<lambda>d. d\<lparr>sd_config := redactConfig lib (sd_config d)\<rparr>) (lx_sources resp)\<rparr>"


subsection \<open>The list cache\<close>

text \<open>
  The answers are kept as JSON objects with the names of Go's fields; absent values are
  \<open>null\<close>. Marshalling fails on a configuration that is no JSON text or a time out of range.
\<close>

definition json_opt :: "('a \<Rightarrow> json) \<Rightarrow> 'a option \<Rightarrow> json" where
  "json_opt f x = (case x of None \<Rightarrow> JNull | Some a \<Rightarrow> f a)"

definition marshalable_opt :: "time option \<Rightarrow> bool" where
  "marshalable_opt t = (case t of None \<Rightarrow> True | Some x \<Rightarrow> time_marshalable x)"

definition source_dto_json :: "source_dto \<Rightarrow> json option" where
  "source_dto_json d =
     (case sd_config d of
        NotJson _ \<Rightarrow> None
      | JsonText j \<Rightarrow>
          if marshalable_opt (sd_last_fetched_at d) \<and> time_marshalable (sd_created_at d) \<and>
             time_marshalable (sd_updated_at d)
          then Some (JObj
            [(''ID'', JNum (sd_id d)), (''Name'', JStr (sd_name d)), (''Type'', JStr (sd_type d)),
             (''URL'', json_opt JStr (sd_url d)), (''Config'', j), (''IsActive'', JBool (sd_is_active d)),
             (''LastFetchedAt'', json_opt JTime (sd_last_fetched_at d)),
             (''LastFetchStatus'', JStr (sd_last_fetch_status d)),
             (''LastFetchMessage'', JStr (sd_last_fetch_message d)),
             (''CreatedAt'', JTime (sd_created_at d)), (''UpdatedAt'', JTime (sd_updated_at d))])
          else None)"

definition marshal_source_list :: "list_sources_response \<Rightarrow> payload option" where
  "marshal_source_list resp =
     (case those (map source_dto_json (lx_sources resp)) of
        None \<Rightarrow> None
      | Some js \<Rightarrow> Some (JsonText (JObj
          [(''Sources'', JArr js), (''Total'', JNum (lx_total resp)), (''Limit'', JNum (lx_limit resp)),
           (''Offset'', JNum (lx_offset resp))])))"

fun dec_bool :: "json \<Rightarrow> bool \<Rightarrow> bool option" where
  "dec_bool JNull old = Some old"
| "dec_bool (JBool b) old = Some b"
| "dec_bool _ old = None"

text \<open>Decoding through a pointer: \<open>null\<close> makes it nil.\<close>

definition dec_ptr :: "(json \<Rightarrow> 'a \<Rightarrow> 'a option) \<Rightarrow> 'a \<Rightarrow> json \<Rightarrow> 'a option option" where
  "dec_ptr dec zero v = (if v = JNull then Some None else map_option Some (dec v zero))"

definition set_source_field :: "string \<Rightarrow> json \<Rightarrow> source_dto \<Rightarrow> source_dto option" where
  "set_source_field k v d =
     (if k = ''id'' then map_option (\<lambda>x. d\<lparr>sd_id := x\<rparr>) (dec_int v (sd_id d))
      else if k = ''name'' then map_option (\<lambda>x. d\<lparr>sd_name := x\<rparr>) (dec_str v (sd_name d))
      else if k = ''type'' then map_option (\<lambda>x. d\<lparr>sd_type := x\<rparr>) (dec_str v (sd_type d))
      else if k = ''url'' then map_option (\<lambda>x. d\<lparr>sd_url := x\<rparr>) (dec_ptr dec_str [] v)
      else if k = ''config'' then Some (d\<lparr>sd_config := JsonText v\<rparr>)
      else if k = ''isactive'' then map_option (\<lambda>x. d\<lparr>sd_is_active := x\<rparr>) (dec_bool v (sd_is_active d))
      else if k = ''lastfetchedat'' then
        map_option (\<lambda>x. d\<lparr>sd_last_fetched_at := x\<rparr>) (dec_ptr dec_time 0 v)
      else if k = ''lastfetchstatus'' then
        map_option (\<lambda>x. d\<lparr>sd_last_fetch_status := x\<rparr>) (dec_str v (sd_last_fetch_status d))
      else if k = ''lastfetchmessage'' then
        map_option (\<lambda>x. d\<lparr>sd_last_fetch_message := x\<rparr>) (dec_str v (sd_last_fetch_message d))
      else if k = ''createdat'' then map_option (\<lambda>x. d\<lparr>sd_created_at := x\<rparr>) (dec_time v (sd_created_at d))
      else if k = ''updatedat'' then map_option (\<lambda>x. d\<lparr>sd_updated_at := x\<rparr>) (dec_time v (sd_updated_at d))
      else Some d)"

definition zero_source_dto :: source_dto where
  "zero_source_dto =
     \<lparr>sd_id = 0, sd_name = [], sd_type = [], sd_url = None, sd_config = NotJson [], sd_is_active = False,
      sd_last_fetched_at = None, sd_last_fetch_status = [], sd_last_fetch_message = [], sd_created_at = 0,
      sd_updated_at = 0\<rparr>"

definition dec_list :: "('a \<Rightarrow> payload \<Rightarrow> 'a option) \<Rightarrow> 'a \<Rightarrow> json \<Rightarrow> 'a list \<Rightarrow> 'a list option" where
  "dec_list dec zero v old =
     (case v of JNull \<Rightarrow> Some [] | JArr js \<Rightarrow> those (map (\<lambda>j. dec zero (JsonText j)) js) | _ \<Rightarrow> None)"

definition set_source_list_field :: "string \<Rightarrow> json \<Rightarrow> list_sources_response \<Rightarrow> list_sources_response option" where
  "set_source_list_field k v r =
     (if k = ''sources'' then
        map_option (\<lambda>x. r\<lparr>lx_sources := x\<rparr>)
          (dec_list (unmarshal_struct set_source_field) zero_source_dto v (lx_sources r))
      else if k = ''total'' then map_option (\<lambda>x. r\<lparr>lx_total := x\<rparr>) (dec_int v (lx_total r))
      else if k = ''limit'' then map_option (\<lambda>x. r\<lparr>lx_limit := x\<rparr>) (dec_int v (lx_limit r))
      else if k = ''offset'' then map_option (\<lambda>x. r\<lparr>lx_offset := x\<rparr>) (dec_int v (lx_offset r))
      else Some r)"

definition unmarshal_source_list :: "payload \<Rightarrow> list_sources_response option" where
  "unmarshal_source_list =
     unmarshal_struct set_source_list_field \<lparr>lx_sources = [], lx_total = 0, lx_limit = 0, lx_offset = 0\<rparr>"

definition NewSourceListCache :: "string \<Rightarrow> string" where
  "NewSourceListCache pfx = (if pfx = '''' then ''cache:sources'' else pfx)"

definition source_listKey :: "string \<Rightarrow> list_sources_request \<Rightarrow> string" where
  "source_listKey pfx q =
     pfx @ '':user:'' @ fmt_int (lr_user_id q) @ '':type:'' @ lr_type q @ '':limit:'' @ fmt_int (lr_limit q) @
     '':offset:'' @ fmt_int (lr_offset q)"

definition SourceCache_GetList ::
  "string \<Rightarrow> redis_faults \<Rightarrow> time \<Rightarrow> list_sources_request \<Rightarrow> redis \<Rightarrow> list_sources_response option result" where
  "SourceCache_GetList pfx fault now q r =
     (case fault RsGet of
        RFailed e _ \<Rightarrow> Inl (Wrapf ''get source list cache: '' e '''')
      | RDone \<Rightarrow>
        (case redis_get now (source_listKey pfx q) r of
           None \<Rightarrow> Inr None
         | Some v \<Rightarrow>
           (case unmarshal_source_list (redis_bytes v) of
              None \<Rightarrow> Inl (Wrapf ''unmarshal source list cache: '' (Plain ''json: cannot unmarshal'') '''')
            | Some resp \<Rightarrow> Inr (Some resp))))"

definition SourceCache_SetList ::
  "string \<Rightarrow> redis_faults \<Rightarrow> time \<Rightarrow> list_sources_request \<Rightarrow> list_sources_response \<Rightarrow> duration \<Rightarrow> redis \<Rightarrow>
   redis \<times> unit result" where
  "SourceCache_SetList pfx fault now q resp ttl r =
     (case marshal_source_list resp of
        None \<Rightarrow> (r, Inl (Wrapf ''marshal source list cache: '' marshal_time_error ''''))
      | Some data \<Rightarrow>
        (case redis_write (fault RsSet) (redis_set (source_listKey pfx q) (RJson data) (Some (now + ttl))) r of
           (r', Some e) \<Rightarrow> (r', Inl (Wrapf ''set source list cache: '' e ''''))
         | (r', None) \<Rightarrow> (r', Inr ())))"

definition SourceCache_DeleteUser ::
  "string \<Rightarrow> redis_faults \<Rightarrow> string list \<Rightarrow> int \<Rightarrow> redis \<Rightarrow> redis \<times> unit result" where
  "SourceCache_DeleteUser pfx fault visited uid r =
     (case delete_keys fault (filter (glob (user_pattern pfx uid)) visited) r of
        (r', Some e) \<Rightarrow> (r', Inl (Wrapf ''delete source list cache: '' e ''''))
      | (r', None) \<Rightarrow>
        (case fault RsScan of
           RFailed e _ \<Rightarrow> (r', Inl (Wrapf ''scan source list cache: '' e ''''))
         | RDone \<Rightarrow> (r', Inr ())))"

subsection \<open>The service\<close>

text \<open>
  The state the service works on, and its options: the prefix and lifetime of the list
  cache, if there is one.
\<close>

record source_world =
  sw_sources :: source_table
  sw_redis :: redis

type_synonym cache_option = "(string \<times> duration) option"

definition WithListCache :: "string option \<Rightarrow> duration \<Rightarrow> cache_option \<Rightarrow> cache_option" where
  "WithListCache cache ttl old =
     (case cache of Some pfx \<Rightarrow> if ttl > 0 then Some (pfx, ttl) else old | None \<Rightarrow> old)"

definition source_deleteUserListCache ::
  "cache_option \<Rightarrow> redis_faults \<Rightarrow> string list \<Rightarrow> int \<Rightarrow> redis \<Rightarrow> redis" where
  "source_deleteUserListCache cache rf visited uid r =
     (case cache of None \<Rightarrow> r | Some (pfx, ttl) \<Rightarrow> fst (SourceCache_DeleteUser pfx rf visited uid r))"

definition new_source ::
  "go_lib \<Rightarrow> (ip_addr \<Rightarrow> string) \<Rightarrow> time \<Rightarrow> create_source_request \<Rightarrow> source result" where
  "new_source lib addr_text now req =
     (case normalizeName (cs_name req) of
        Inl e \<Rightarrow> Inl e
      | Inr name \<Rightarrow>
        (let sourceType = trim_space (to_lower (gl_lower lib) (cs_type req)) in
         if \<not> IsValidType sourceType then Inl (Sentinel ErrInvalidSourceType)
         else case normalizeURL lib addr_text (cs_url req) of
           Inl e \<Rightarrow> Inl e
         | Inr url \<Rightarrow>
             if sourceType = TypeRSS \<and> url = None then Inl (Sentinel ErrInvalidSourceURL)
             else case normalizeSourceConfig lib sourceType (cs_config req) of
               Inl e \<Rightarrow> Inl e
             | Inr configJSON \<Rightarrow>
                 Inr \<lparr>so_id = 0, so_user_id = cs_user_id req, so_name = name, so_type = sourceType,
                      so_url = url, so_config_json = configJSON, so_is_active = True,
                      so_last_fetched_at = None, so_last_fetch_status = '''', so_last_fetch_message = '''',
                      so_created_at = now, so_updated_at = now, so_deleted_at = None\<rparr>))"

definition SourceService_CreateSource ::
  "go_lib \<Rightarrow> (ip_addr \<Rightarrow> string) \<Rightarrow> cache_option \<Rightarrow> go_error option \<Rightarrow> redis_faults \<Rightarrow> string list \<Rightarrow> time \<Rightarrow>
   create_source_request \<Rightarrow> source_world \<Rightarrow> source_world \<times> source_dto result" where
  "SourceService_CreateSource lib addr_text cache fault rf visited now req w =
     (case new_source lib addr_text now req of
        Inl e \<Rightarrow> (w, Inl e)
      | Inr src \<Rightarrow>
        (case Source_Create fault src (sw_sources w) of
           (t, Inl e) \<Rightarrow>
             (w\<lparr>sw_sources := t\<rparr>,
              Inl (if errors_is e ErrSourceURLDuplicated then Sentinel ErrSourceAlreadyExists
                   else Wrapf ''create source: '' e ''''))
         | (t, Inr created) \<Rightarrow>
             (\<lparr>sw_sources = t,
               sw_redis = source_deleteUserListCache cache rf visited (cs_user_id req) (sw_redis w)\<rparr>,
              Inr (source_toDTO lib created))))"

text \<open>
  The listing without the cache is \<open>fresh_source_list\<close>; \<open>ListSources\<close> asks the cache first
  and leaves its answer there.
\<close>

definition normalized_list_request :: "go_lib \<Rightarrow> list_sources_request \<Rightarrow> list_sources_request" where
  "normalized_list_request lib req =
     req\<lparr>lr_type := trim_space (to_lower (gl_lower lib) (lr_type req)),
         lr_limit := source_normalizeLimit (lr_limit req), lr_offset := source_normalizeOffset (lr_offset req)\<rparr>"

definition fresh_source_list ::
  "go_lib \<Rightarrow> source_list_stmt faults \<Rightarrow> list_sources_request \<Rightarrow> source_table \<Rightarrow> list_sources_response result" where
  "fresh_source_list lib fault q t =
     (case Source_ListByUserID fault \<lparr>sl_user_id = lr_user_id q, sl_type = lr_type q, sl_limit = lr_limit q,
             sl_offset = lr_offset q\<rparr> t of
        Inl e \<Rightarrow> Inl (Wrapf ''list sources: '' e '''')
      | Inr (sources, cnt) \<Rightarrow>
          Inr \<lparr>lx_sources = map (source_toDTO lib) sources, lx_total = cnt, lx_limit = lr_limit q,
               lx_offset = lr_offset q\<rparr>)"

definition cached_source_list ::
  "cache_option \<Rightarrow> redis_faults \<Rightarrow> time \<Rightarrow> list_sources_request \<Rightarrow> redis \<Rightarrow> list_sources_response option" where
  "cached_source_list cache rf now q r =
     (case cache of
        None \<Rightarrow> None
      | Some (pfx, ttl) \<Rightarrow>
        (case SourceCache_GetList pfx rf now q r of Inr (Some resp) \<Rightarrow> Some resp | _ \<Rightarrow> None))"

definition SourceService_ListSources ::
  "go_lib \<Rightarrow> cache_option \<Rightarrow> source_list_stmt faults \<Rightarrow> redis_faults \<Rightarrow> time \<Rightarrow> list_sources_request \<Rightarrow>
   source_world \<Rightarrow> source_world \<times> list_sources_response result" where
  "SourceService_ListSources lib cache fault rf now req w =
     (let q = normalized_list_request lib req in
      if lr_type q \<noteq> '''' \<and> \<not> IsValidType (lr_type q) then (w, Inl (Sentinel ErrInvalidSourceType))
      else case cached_source_list cache rf now q (sw_redis w) of
        Some cached \<Rightarrow> (w, Inr (redactSourceListResponse lib cached))
      | None \<Rightarrow>
        (case fresh_source_list lib fault q (sw_sources w) of
           Inl e \<Rightarrow> (w, Inl e)
         | Inr resp \<Rightarrow>
             (w\<lparr>sw_redis := (case cache of None \<Rightarrow> sw_redis w
                | Some (pfx, ttl) \<Rightarrow> fst (SourceCache_SetList pfx rf now q resp ttl (sw_redis w)))\<rparr>,
              Inr resp)))"

definition SourceService_GetSource ::
  "go_lib \<Rightarrow> go_error option \<Rightarrow> int \<Rightarrow> int \<Rightarrow> source_world \<Rightarrow> source_dto result" where
  "SourceService_GetSource lib fault uid i w =
     (case Source_FindByUserIDAndID fault uid i (sw_sources w) of
        Inl e \<Rightarrow> Inl (if errors_is e ErrSourceNotFound then Sentinel ErrSourceNotAccessible
                      else Wrapf ''get source: '' e '''')
      | Inr src \<Rightarrow> Inr (source_toDTO lib src))"

text \<open>What an update request makes of the row that was read.\<close>

definition updated_source ::
  "go_lib \<Rightarrow> (ip_addr \<Rightarrow> string) \<Rightarrow> time \<Rightarrow> update_source_request \<Rightarrow> source \<Rightarrow> source result" where
  "updated_source lib addr_text now req src0 =
     (case (case us_name req of None \<Rightarrow> Inr src0
            | Some raw \<Rightarrow> map_sum id (\<lambda>name. src0\<lparr>so_name := name\<rparr>) (normalizeName raw)) of
        Inl e \<Rightarrow> Inl e
      | Inr src1 \<Rightarrow>
        (case (case us_url req of None \<Rightarrow> Inr src1
               | Some raw \<Rightarrow>
                 (case normalizeURL lib addr_text (Some raw) of
                    Inl e \<Rightarrow> Inl e
                  | Inr url \<Rightarrow>
                      if so_type src1 = TypeRSS \<and> url = None then Inl (Sentinel ErrInvalidSourceURL)
                      else Inr (src1\<lparr>so_url := url\<rparr>))) of
           Inl e \<Rightarrow> Inl e
         | Inr src2 \<Rightarrow>
           (case (case us_config req of None \<Rightarrow> Inr src2
                  | Some config \<Rightarrow>
                      map_sum id (\<lambda>configJSON. src2\<lparr>so_config_json := configJSON\<rparr>)
                        (normalizeSourceConfig lib (so_type src2) (Some config))) of
              Inl e \<Rightarrow> Inl e
            | Inr src3 \<Rightarrow>
                Inr (src3\<lparr>so_is_active := (case us_is_active req of None \<Rightarrow> so_is_active src3 | Some b \<Rightarrow> b),
                          so_updated_at := now\<rparr>))))"

text \<open>
  The update reads the row, computes, and writes all columns back; \<open>others\<close> is what other
  processes (the collector, another request) do to the table in between.
\<close>

definition SourceService_UpdateSource ::
  "go_lib \<Rightarrow> (ip_addr \<Rightarrow> string) \<Rightarrow> cache_option \<Rightarrow> go_error option \<Rightarrow> (source_table \<Rightarrow> source_table) \<Rightarrow>
   go_error option \<Rightarrow> redis_faults \<Rightarrow> string list \<Rightarrow> time \<Rightarrow> update_source_request \<Rightarrow> source_world \<Rightarrow>
   source_world \<times> source_dto result" where
  "SourceService_UpdateSource lib addr_text cache findFault others updFault rf visited now req w =
     (case Source_FindByUserIDAndID findFault (us_user_id req) (us_source_id req) (sw_sources w) of
        Inl e \<Rightarrow> (w, Inl (if errors_is e ErrSourceNotFound then Sentinel ErrSourceNotAccessible
                          else Wrapf ''find source before update: '' e ''''))
      | Inr src0 \<Rightarrow>
        (case updated_source lib addr_text now req src0 of
           Inl e \<Rightarrow> (w, Inl e)
         | Inr src \<Rightarrow>
           (case Source_Update updFault src (others (sw_sources w)) of
              (t, Inl e) \<Rightarrow>
                (w\<lparr>sw_sources := t\<rparr>,
                 Inl (if errors_is e ErrSourceNotFound then Sentinel ErrSourceNotAccessible
                      else if errors_is e ErrSourceURLDuplicated then Sentinel ErrSourceAlreadyExists
                      else Wrapf ''update source: '' e ''''))
            | (t, Inr _) \<Rightarrow>
                (\<lparr>sw_sources = t,
                  sw_redis = source_deleteUserListCache cache rf visited (us_user_id req) (sw_redis w)\<rparr>,
                 Inr (source_toDTO lib src)))))"

definition SourceService_DeleteSource ::
  "cache_option \<Rightarrow> go_error option \<Rightarrow> redis_faults \<Rightarrow> string list \<Rightarrow> time \<Rightarrow> int \<Rightarrow> int \<Rightarrow> source_world \<Rightarrow>
   source_world \<times> unit result" where
  "SourceService_DeleteSource cache fault rf visited now uid i w =
     (case Source_SoftDelete fault uid i now (sw_sources w) of
        (t, Inl e) \<Rightarrow>
          (w\<lparr>sw_sources := t\<rparr>,
           Inl (if errors_is e ErrSourceNotFound then Sentinel ErrSourceNotAccessible
                else Wrapf ''delete source: '' e ''''))
      | (t, Inr _) \<Rightarrow>
          (\<lparr>sw_sources = t, sw_redis = source_deleteUserListCache cache rf visited uid (sw_redis w)\<rparr>, Inr ()))"


subsection \<open>The handlers\<close>

definition source_handleError :: "go_error \<Rightarrow> 'a http_response" where
  "source_handleError e =
     (if errors_is e ErrInvalidSourceName then response_Error 400 ''invalid_source_name'' ''invalid source name''
      else if errors_is e ErrInvalidSourceType then response_Error 400 ''invalid_source_type'' ''invalid source type''
      else if errors_is e ErrInvalidSourceURL then response_Error 400 ''invalid_source_url'' ''invalid source url''
      else if errors_is e ErrInvalidSourceConfig then
        response_Error 400 ''invalid_source_config'' ''invalid source config''
      else if errors_is e ErrSourceAlreadyExists then
        response_Error 409 ''source_already_exists'' ''source already exists''
      else if errors_is e ErrSourceNotAccessible then response_Error 404 ''source_not_found'' ''source not found''
      else response_Error 500 ''internal_error'' ''internal server error'')"

text \<open>
  The bodies of the requests: unknown fields are ignored, a required text must be there and
  not be empty, and a configuration is taken over as it is.
\<close>

record create_source_http_req =
  ch_name :: string
  ch_type :: string
  ch_url :: "string option"
  ch_config :: "payload option"

definition set_create_field :: "string \<Rightarrow> json \<Rightarrow> create_source_http_req \<Rightarrow> create_source_http_req option" where
  "set_create_field k v r =
     (if k = ''name'' then map_option (\<lambda>x. r\<lparr>ch_name := x\<rparr>) (dec_str v (ch_name r))
      else if k = ''type'' then map_option (\<lambda>x. r\<lparr>ch_type := x\<rparr>) (dec_str v (ch_type r))
      else if k = ''url'' then map_option (\<lambda>x. r\<lparr>ch_url := x\<rparr>) (dec_ptr dec_str [] v)
      else if k = ''config'' then Some (r\<lparr>ch_config := Some (JsonText v)\<rparr>)
      else Some r)"

definition bind_create_source :: "payload \<Rightarrow> create_source_http_req option" where
  "bind_create_source body =
     (case unmarshal_struct set_create_field \<lparr>ch_name = [], ch_type = [], ch_url = None, ch_config = None\<rparr> body of
        None \<Rightarrow> None
      | Some r \<Rightarrow> if ch_name r = [] \<or> ch_type r = [] then None else Some r)"

definition set_update_field :: "string \<Rightarrow> json \<Rightarrow> update_source_request \<Rightarrow> update_source_request option" where
  "set_update_field k v r =
     (if k = ''name'' then map_option (\<lambda>x. r\<lparr>us_name := x\<rparr>) (dec_ptr dec_str [] v)
      else if k = ''url'' then map_option (\<lambda>x. r\<lparr>us_url := x\<rparr>) (dec_ptr dec_str [] v)
      else if k = ''is_active'' then map_option (\<lambda>x. r\<lparr>us_is_active := x\<rparr>) (dec_ptr dec_bool False v)
      else if k = ''config'' then Some (r\<lparr>us_config := Some (JsonText v)\<rparr>)
      else Some r)"

definition bind_update_source :: "int \<Rightarrow> int \<Rightarrow> payload \<Rightarrow> update_source_request option" where
  "bind_update_source uid i body =
     unmarshal_struct set_update_field
       \<lparr>us_user_id = uid, us_source_id = i, us_name = None, us_url = None, us_is_active = None, us_config = None\<rparr>
       body"

definition SourceHandler_Create ::
  "go_lib \<Rightarrow> (ip_addr \<Rightarrow> string) \<Rightarrow> cache_option \<Rightarrow> go_error option \<Rightarrow> redis_faults \<Rightarrow> string list \<Rightarrow> time \<Rightarrow>
   payload \<Rightarrow> (source_world, source_dto) handler" where
  "SourceHandler_Create lib addr_text cache fault rf visited now body req w =
     (case requestctx_UserID req of
        (uid, False) \<Rightarrow> (w, response_Error 401 ''unauthorized'' ''missing user information'')
      | (uid, True) \<Rightarrow>
        (case bind_create_source body of
           None \<Rightarrow> (w, response_Error 400 ''invalid request'' ''invalid create source request'')
         | Some b \<Rightarrow>
           (case SourceService_CreateSource lib addr_text cache fault rf visited now
                   \<lparr>cs_user_id = uid, cs_name = ch_name b, cs_type = ch_type b, cs_url = ch_url b,
                    cs_config = ch_config b\<rparr> w of
              (w', Inl e) \<Rightarrow> (w', source_handleError e)
            | (w', Inr dto) \<Rightarrow> (w', response_OK dto))))"

definition SourceHandler_List ::
  "go_lib \<Rightarrow> cache_option \<Rightarrow> source_list_stmt faults \<Rightarrow> redis_faults \<Rightarrow> time \<Rightarrow>
   (source_world, list_sources_response) handler" where
  "SourceHandler_List lib cache fault rf now req w =
     (case requestctx_UserID req of
        (uid, False) \<Rightarrow> (w, response_Error 401 ''unauthorized'' ''missing user information'')
      | (uid, True) \<Rightarrow>
        (case parseIntQuery (hr_query req ''limit'') 20 of
           Inl e \<Rightarrow> (w, response_Error 400 ''invalid request'' ''invalid limit query parameter'')
         | Inr limit \<Rightarrow>
           (case parseIntQuery (hr_query req ''offset'') 0 of
              Inl e \<Rightarrow> (w, response_Error 400 ''invalid request'' ''invalid offset query parameter'')
            | Inr offset \<Rightarrow>
              (case SourceService_ListSources lib cache fault rf now
                      \<lparr>lr_user_id = uid, lr_type = hr_query req ''type'', lr_limit = limit, lr_offset = offset\<rparr> w of
                 (w', Inl e) \<Rightarrow> (w', source_handleError e)
               | (w', Inr result) \<Rightarrow> (w', response_OK result)))))"

definition SourceHandler_Get :: "go_lib \<Rightarrow> go_error option \<Rightarrow> (source_world, source_dto) handler" where
  "SourceHandler_Get lib fault req w =
     (case requestctx_UserID req of
        (uid, False) \<Rightarrow> (w, response_Error 401 ''unauthorized'' ''missing user information'')
      | (uid, True) \<Rightarrow>
        (case parseIDParam (hr_param req ''id'') of
           (_, Some e) \<Rightarrow> (w, response_Error 400 ''invalid source id'' ''invalid source id'')
         | (i, None) \<Rightarrow>
           (case SourceService_GetSource lib fault uid i w of
              Inl e \<Rightarrow> (w, source_handleError e)
            | Inr dto \<Rightarrow> (w, response_OK dto))))"

definition SourceHandler_Update ::
  "go_lib \<Rightarrow> (ip_addr \<Rightarrow> string) \<Rightarrow> cache_option \<Rightarrow> go_error option \<Rightarrow> (source_table \<Rightarrow> source_table) \<Rightarrow>
   go_error option \<Rightarrow> redis_faults \<Rightarrow> string list \<Rightarrow> time \<Rightarrow> payload \<Rightarrow> (source_world, source_dto) handler" where
  "SourceHandler_Update lib addr_text cache findFault others updFault rf visited now body req w =
     (case requestctx_UserID req of
        (uid, False) \<Rightarrow> (w, response_Error 401 ''unauthorized'' ''missing user context'')
      | (uid, True) \<Rightarrow>
        (case parseIDParam (hr_param req ''id'') of
           (_, Some e) \<Rightarrow> (w, response_Error 400 ''invalid_source_id'' ''invalid source id'')
         | (i, None) \<Rightarrow>
           (case bind_update_source uid i body of
              None \<Rightarrow> (w, response_Error 400 ''invalid_request'' ''invalid update source request'')
            | Some b \<Rightarrow>
              (case SourceService_UpdateSource lib addr_text cache findFault others updFault rf visited now b w of
                 (w', Inl e) \<Rightarrow> (w', source_handleError e)
               | (w', Inr dto) \<Rightarrow> (w', response_OK dto)))))"

definition SourceHandler_Delete ::
  "cache_option \<Rightarrow> go_error option \<Rightarrow> redis_faults \<Rightarrow> string list \<Rightarrow> time \<Rightarrow> (source_world, string) handler" where
  "SourceHandler_Delete cache fault rf visited now req w =
     (case requestctx_UserID req of
        (uid, False) \<Rightarrow> (w, response_Error 401 ''unauthorized'' ''missing user context'')
      | (uid, True) \<Rightarrow>
        (case parseIDParam (hr_param req ''id'') of
           (_, Some e) \<Rightarrow> (w, response_Error 400 ''invalid_source_id'' ''invalid source id'')
         | (i, None) \<Rightarrow>
           (case SourceService_DeleteSource cache fault rf visited now uid i w of
              (w', Inl e) \<Rightarrow> (w', source_handleError e)
            | (w', Inr _) \<Rightarrow> (w', response_OK ''source deleted''))))"

subsection \<open>The invariant of the table\<close>

definition source_row_ok :: "source \<Rightarrow> bool" where
  "source_row_ok s \<longleftrightarrow>
     IsValidType (so_type s) \<and> (so_type s = TypeRSS \<longrightarrow> so_url s \<noteq> None) \<and>
     so_name s \<noteq> [] \<and> trim_space (so_name s) = so_name s \<and> length (so_name s) \<le> 200 \<and>
     (\<exists>j. so_config_json s = JsonText j)"

definition same_active_url :: "source \<Rightarrow> source \<Rightarrow> bool" where
  "same_active_url r r' \<longleftrightarrow>
     so_deleted_at r = None \<and> so_deleted_at r' = None \<and> so_user_id r = so_user_id r' \<and>
     so_url r = so_url r' \<and> so_url r' \<noteq> None"

lemma same_active_url_sym: "same_active_url r r' \<Longrightarrow> same_active_url r' r"
  by (simp add: same_active_url_def)

definition source_urls_unique :: "source_table \<Rightarrow> bool" where
  "source_urls_unique t \<longleftrightarrow>
     (\<forall>r \<in> set (rows t). \<forall>r' \<in> set (rows t). same_active_url r r' \<longrightarrow> r = r')"

definition source_inv :: "source_table \<Rightarrow> bool" where
  "source_inv t \<longleftrightarrow> wf_table so_id t \<and> (\<forall>r \<in> set (rows t). source_row_ok r) \<and> source_urls_unique t"

definition source_type_of :: "source_table \<Rightarrow> int \<Rightarrow> string option" where
  "source_type_of t i = map_option so_type (find_row (\<lambda>r. so_id r = i) t)"

lemma source_clash_None:
  assumes "\<not> source_clash t s" "so_url s \<noteq> None" "r \<in> set (rows t)" "so_deleted_at r = None"
    "so_user_id r = so_user_id s" "so_url r = so_url s"
  shows "so_id r = so_id s"
  using assms by (auto simp: source_clash_def find_row_None)

lemma Source_Create_cases:
  obtains e where "Source_Create f s t = (burn_seq t, Inl e)"
  | "\<not> source_clash t (s\<lparr>so_id := seq t + 1\<rparr>)"
    "Source_Create f s t = (insert_row (\<lambda>i. s\<lparr>so_id := i\<rparr>) t, Inr (s\<lparr>so_id := seq t + 1\<rparr>))"
  by (cases f; cases "source_clash t (s\<lparr>so_id := seq t + 1\<rparr>)") (auto simp: Source_Create_def Let_def)

lemma Source_Update_cases:
  obtains e where "Source_Update f s t = (t, Inl e)"
  | "\<not> source_clash t s" "find_row (source_visible (so_user_id s) (so_id s)) t \<noteq> None"
    "Source_Update f s t = (update_rows (source_visible (so_user_id s) (so_id s)) (source_assign s) t, Inr ())"
  by (cases f; cases "source_clash t s"; cases "find_row (source_visible (so_user_id s) (so_id s)) t")
    (auto simp: Source_Update_def Let_def count_rows_0)

definition mark_deleted :: "time \<Rightarrow> source \<Rightarrow> source" where
  "mark_deleted now r = r\<lparr>so_deleted_at := Some now, so_updated_at := now, so_is_active := False\<rparr>"

lemma Source_SoftDelete_cases:
  obtains e where "Source_SoftDelete f uid i now t = (t, Inl e)"
  | "Source_SoftDelete f uid i now t = (update_rows (source_visible uid i) (mark_deleted now) t, Inr ())"
  by (cases f; cases "find_row (source_visible uid i) t")
    (auto simp: Source_SoftDelete_def Let_def count_rows_0 mark_deleted_def [abs_def])

lemma source_keep_simps [simp]:
  "so_id (source_assign s r) = so_id r" "so_type (source_assign s r) = so_type r"
  "so_user_id (source_assign s r) = so_user_id r" "so_deleted_at (source_assign s r) = so_deleted_at r"
  "so_url (source_assign s r) = so_url s"
  "so_id (mark_deleted now r) = so_id r" "so_type (mark_deleted now r) = so_type r"
  "so_deleted_at (mark_deleted now r) = Some now" "so_user_id (mark_deleted now r) = so_user_id r"
  "so_url (mark_deleted now r) = so_url r"
  by (simp_all add: source_assign_def mark_deleted_def)

lemma source_row_ok_assign:
  "source_row_ok s \<Longrightarrow> so_type r = so_type s \<Longrightarrow> source_row_ok (source_assign s r)"
  by (simp add: source_row_ok_def source_assign_def)

lemma source_row_ok_deleted: "source_row_ok r \<Longrightarrow> source_row_ok (mark_deleted now r)"
  by (simp add: source_row_ok_def mark_deleted_def)

lemma source_inv_create:
  assumes "source_inv t" "source_row_ok s"
  shows "source_inv (fst (Source_Create f s t))"
proof (rule Source_Create_cases [of f s t])
  fix e assume "Source_Create f s t = (burn_seq t, Inl e)"
  then show ?thesis using assms by (simp add: source_inv_def source_urls_unique_def)
next
  assume c: "\<not> source_clash t (s\<lparr>so_id := seq t + 1\<rparr>)"
    and e: "Source_Create f s t = (insert_row (\<lambda>i. s\<lparr>so_id := i\<rparr>) t, Inr (s\<lparr>so_id := seq t + 1\<rparr>))"
  let ?n = "s\<lparr>so_id := seq t + 1\<rparr>"
  have wf: "wf_table so_id t" using assms by (simp add: source_inv_def)
  have no: "\<not> same_active_url ?n r" if "r \<in> set (rows t)" for r
  proof
    assume "same_active_url ?n r"
    then have "so_id r = so_id ?n" by (intro source_clash_None [OF c _ that]) (simp_all add: same_active_url_def)
    then show False using that wf by (fastforce simp: wf_table_def)
  qed
  have "source_urls_unique (insert_row (\<lambda>i. s\<lparr>so_id := i\<rparr>) t)"
    unfolding source_urls_unique_def
  proof (intro ballI impI)
    fix r r'
    assume rr: "r \<in> set (rows (insert_row (\<lambda>i. s\<lparr>so_id := i\<rparr>) t))" "r' \<in> set (rows (insert_row (\<lambda>i. s\<lparr>so_id := i\<rparr>) t))"
      and h: "same_active_url r r'"
    consider "r \<in> set (rows t)" "r' \<in> set (rows t)" | "r = ?n" "r' = ?n" | "r = ?n" "r' \<in> set (rows t)"
      | "r \<in> set (rows t)" "r' = ?n" using rr by auto
    then show "r = r'"
    proof cases
      case 1
      then show ?thesis using assms h by (simp add: source_inv_def source_urls_unique_def)
    next
      case 3
      then show ?thesis using no [of r'] h by simp
    next
      case 4
      then show ?thesis using no [of r] same_active_url_sym [OF h] by simp
    qed simp
  qed
  moreover have "source_row_ok ?n" using assms(2) by (simp add: source_row_ok_def)
  ultimately show ?thesis using assms wf e by (simp add: source_inv_def wf_insert_row)
qed

lemma source_inv_update:
  assumes inv: "source_inv t" and ok: "source_row_ok s"
    and ty: "\<And>ty. source_type_of t (so_id s) = Some ty \<Longrightarrow> ty = so_type s"
  shows "source_inv (fst (Source_Update f s t))"
proof (rule Source_Update_cases [of f s t])
  let ?P = "source_visible (so_user_id s) (so_id s)"
  let ?t = "update_rows ?P (source_assign s) t"
  have wf: "wf_table so_id t" using inv by (simp add: source_inv_def)
  assume c: "\<not> source_clash t s" and e: "Source_Update f s t = (?t, Inr ())"
  have tr: "so_type r = so_type s" if "r \<in> set (rows t)" "?P r" for r
  proof -
    have "find_row (\<lambda>r. so_id r = so_id s) t = Some r"
      using that wf by (intro find_row_key) (auto simp: source_visible_def wf_distinct)
    then show ?thesis using ty by (simp add: source_type_of_def)
  qed
  have rok: "source_row_ok r" if "r \<in> set (rows ?t)" for r
    using that inv ok tr by (auto simp: set_rows_update source_inv_def intro!: source_row_ok_assign)
  have "source_urls_unique ?t"
    unfolding source_urls_unique_def
  proof (intro ballI impI)
    fix r r' assume "r \<in> set (rows ?t)" "r' \<in> set (rows ?t)"
    then obtain q q' where q: "q \<in> set (rows t)" "r = (if ?P q then source_assign s q else q)"
      "q' \<in> set (rows t)" "r' = (if ?P q' then source_assign s q' else q')"
      by (auto simp: set_rows_update)
    assume h: "same_active_url r r'"
    have other: "so_id p = so_id s"
      if "p \<in> set (rows t)" "?P p'" "same_active_url (source_assign s p') p" for p p'
      using that(2,3) by (intro source_clash_None [OF c _ that(1)]) (simp_all add: same_active_url_def source_visible_def)
    have vis: "?P p" if "so_id p = so_id s" "same_active_url (source_assign s p') p" "?P p'" for p p'
      using that by (auto simp: same_active_url_def source_visible_def)
    consider "?P q" "?P q'" | "?P q" "\<not> ?P q'" | "\<not> ?P q" "?P q'" | "\<not> ?P q" "\<not> ?P q'" by blast
    then have "q = q'"
    proof cases
      case 1
      then show ?thesis using wf_unique [OF wf q(1,3)] by (simp add: source_visible_def)
    next
      case 2
      then have "same_active_url (source_assign s q) q'" using h q(2,4) by simp
      then show ?thesis using other [OF q(3) 2(1)] vis 2 by blast
    next
      case 3
      then have "same_active_url (source_assign s q') q" using same_active_url_sym [OF h] q(2,4) by simp
      then show ?thesis using other [OF q(1) 3(2)] vis 3 by blast
    next
      case 4
      then show ?thesis using inv q h by (simp add: source_inv_def source_urls_unique_def)
    qed
    then show "r = r'" using q by simp
  qed
  moreover have "wf_table so_id ?t" using wf by (rule wf_update_rows) simp
  ultimately show ?thesis using rok e by (simp add: source_inv_def)
next
  fix e assume "Source_Update f s t = (t, Inl e)"
  then show ?thesis using inv by simp
qed

lemma source_inv_delete:
  assumes "source_inv t"
  shows "source_inv (fst (Source_SoftDelete f uid i now t))"
proof (rule Source_SoftDelete_cases [of f uid i now t])
  let ?t = "update_rows (source_visible uid i) (mark_deleted now) t"
  assume e: "Source_SoftDelete f uid i now t = (?t, Inr ())"
  have "wf_table so_id ?t" using assms by (intro wf_update_rows) (auto simp: source_inv_def)
  moreover have "\<forall>r \<in> set (rows ?t). source_row_ok r"
    using assms by (auto simp: set_rows_update source_inv_def intro!: source_row_ok_deleted)
  moreover have "source_urls_unique ?t"
    unfolding source_urls_unique_def
  proof (intro ballI impI)
    fix r r' assume "r \<in> set (rows ?t)" "r' \<in> set (rows ?t)" and h: "same_active_url r r'"
    moreover have "r \<in> set (rows t)" if "r \<in> set (rows ?t)" "so_deleted_at r = None" for r
      using that by (auto simp: set_rows_update split: if_splits)
    ultimately have "r \<in> set (rows t)" "r' \<in> set (rows t)" by (simp_all add: same_active_url_def)
    then show "r = r'" using assms h by (simp add: source_inv_def source_urls_unique_def)
  qed
  ultimately show ?thesis using e by (simp add: source_inv_def)
next
  fix e assume "Source_SoftDelete f uid i now t = (t, Inl e)"
  then show ?thesis using assms by simp
qed

subsection \<open>What the service writes\<close>

lemma normalizeName_ok:
  "normalizeName raw = Inr name \<Longrightarrow> name \<noteq> [] \<and> trim_space name = name \<and> length name \<le> 200"
  by (auto simp: normalizeName_def Let_def split: if_splits)

lemma normalizeSourceConfig_ok:
  "normalizeSourceConfig lib ty config = Inr c \<Longrightarrow>
     (\<exists>j. c = JsonText j) \<and> (ty = TypeEmail \<longrightarrow> \<not> emailConfigHasPlaintextPassword lib c)"
  by (auto simp: normalizeSourceConfig_def normalizeConfig_def empty_object_def
      split: option.splits payload.splits sum.splits if_splits)

lemma new_source_ok:
  assumes "new_source lib f now req = Inr s"
  shows "source_row_ok s" "so_user_id s = cs_user_id req" "so_deleted_at s = None"
    "so_type s = TypeEmail \<longrightarrow> \<not> emailConfigHasPlaintextPassword lib (so_config_json s)"
proof -
  let ?ty = "trim_space (to_lower (gl_lower lib) (cs_type req))"
  from assms obtain name url c where n: "normalizeName (cs_name req) = Inr name" "IsValidType ?ty"
    "normalizeURL lib f (cs_url req) = Inr url" "\<not> (?ty = TypeRSS \<and> url = None)"
    "normalizeSourceConfig lib ?ty (cs_config req) = Inr c"
    and s: "s = \<lparr>so_id = 0, so_user_id = cs_user_id req, so_name = name, so_type = ?ty,
                      so_url = url, so_config_json = c, so_is_active = True,
                      so_last_fetched_at = None, so_last_fetch_status = '''', so_last_fetch_message = '''',
                      so_created_at = now, so_updated_at = now, so_deleted_at = None\<rparr>"
    by (auto simp: new_source_def Let_def simp del: TypeRSS_def split: sum.splits if_splits)
  show "source_row_ok s" using normalizeName_ok [OF n(1)] normalizeSourceConfig_ok [OF n(5)] n(2,4)
    by (auto simp: s source_row_ok_def)
  show "so_user_id s = cs_user_id req" "so_deleted_at s = None"
    "so_type s = TypeEmail \<longrightarrow> \<not> emailConfigHasPlaintextPassword lib (so_config_json s)"
    using normalizeSourceConfig_ok [OF n(5)] by (simp_all add: s)
qed

text \<open>An update goes through three stages, each of which keeps what makes a row well formed.\<close>

lemma updated_source_stages:
  assumes "updated_source lib f now req src0 = Inr s"
  obtains src1 src2 src3 where
    "src1 = src0 \<or> (\<exists>raw name. us_name req = Some raw \<and> normalizeName raw = Inr name \<and> src1 = src0\<lparr>so_name := name\<rparr>)"
    "src2 = src1 \<or> (\<exists>url. \<not> (so_type src1 = TypeRSS \<and> url = None) \<and> src2 = src1\<lparr>so_url := url\<rparr>)"
    "src3 = src2 \<or> (\<exists>config c. us_config req \<noteq> None \<and> normalizeSourceConfig lib (so_type src2) config = Inr c \<and>
        src3 = src2\<lparr>so_config_json := c\<rparr>)"
    "s = src3\<lparr>so_is_active := (case us_is_active req of None \<Rightarrow> so_is_active src3 | Some b \<Rightarrow> b), so_updated_at := now\<rparr>"
proof -
  let ?a = "case us_name req of None \<Rightarrow> Inr src0
            | Some raw \<Rightarrow> map_sum id (\<lambda>name. src0\<lparr>so_name := name\<rparr>) (normalizeName raw)"
  from assms obtain src1 where 1: "?a = Inr src1"
    unfolding updated_source_def by (cases ?a) auto
  let ?b = "case us_url req of None \<Rightarrow> Inr src1
               | Some raw \<Rightarrow>
                 (case normalizeURL lib f (Some raw) of
                    Inl e \<Rightarrow> Inl e
                  | Inr url \<Rightarrow>
                      if so_type src1 = TypeRSS \<and> url = None then Inl (Sentinel ErrInvalidSourceURL)
                      else Inr (src1\<lparr>so_url := url\<rparr>))"
  from assms 1 obtain src2 where 2: "?b = Inr src2"
    unfolding updated_source_def by (cases ?b) auto
  let ?c = "case us_config req of None \<Rightarrow> Inr src2
                  | Some config \<Rightarrow>
                      map_sum id (\<lambda>configJSON. src2\<lparr>so_config_json := configJSON\<rparr>)
                        (normalizeSourceConfig lib (so_type src2) (Some config))"
  from assms 1 2 obtain src3 where 3: "?c = Inr src3"
    unfolding updated_source_def by (cases ?c) auto
  show thesis
  proof (rule that [of src1 src2 src3])
    show "src1 = src0 \<or> (\<exists>raw name. us_name req = Some raw \<and> normalizeName raw = Inr name \<and> src1 = src0\<lparr>so_name := name\<rparr>)"
    proof (cases "us_name req")
      case (Some raw)
      then show ?thesis using 1 by (cases "normalizeName raw") auto
    qed (use 1 in simp)
    show "src2 = src1 \<or> (\<exists>url. \<not> (so_type src1 = TypeRSS \<and> url = None) \<and> src2 = src1\<lparr>so_url := url\<rparr>)"
      using 2 by (auto split: option.splits sum.splits if_splits simp del: TypeRSS_def)
    show "src3 = src2 \<or> (\<exists>config c. us_config req \<noteq> None \<and> normalizeSourceConfig lib (so_type src2) config = Inr c \<and>
        src3 = src2\<lparr>so_config_json := c\<rparr>)"
    proof (cases "us_config req")
      case (Some config)
      then show ?thesis using 3 by (cases "normalizeSourceConfig lib (so_type src2) (Some config)") auto
    qed (use 3 in simp)
    show "s = src3\<lparr>so_is_active := (case us_is_active req of None \<Rightarrow> so_is_active src3 | Some b \<Rightarrow> b), so_updated_at := now\<rparr>"
      using assms 1 2 3 by (simp add: updated_source_def)
  qed
qed

definition source_identity :: "source \<Rightarrow> int \<times> int \<times> string \<times> time option" where
  "source_identity s = (so_id s, so_user_id s, so_type s, so_deleted_at s)"

lemma updated_source_ok:
  assumes "updated_source lib f now req src0 = Inr s" "source_row_ok src0"
  shows "source_row_ok s" "source_identity s = source_identity src0"
proof -
  from assms(1) obtain src1 src2 src3 where
    1: "src1 = src0 \<or> (\<exists>raw name. us_name req = Some raw \<and> normalizeName raw = Inr name \<and> src1 = src0\<lparr>so_name := name\<rparr>)"
    and 2: "src2 = src1 \<or> (\<exists>url. \<not> (so_type src1 = TypeRSS \<and> url = None) \<and> src2 = src1\<lparr>so_url := url\<rparr>)"
    and 3: "src3 = src2 \<or> (\<exists>config c. us_config req \<noteq> None \<and> normalizeSourceConfig lib (so_type src2) config = Inr c \<and>
        src3 = src2\<lparr>so_config_json := c\<rparr>)"
    and s: "s = src3\<lparr>so_is_active := (case us_is_active req of None \<Rightarrow> so_is_active src3 | Some b \<Rightarrow> b), so_updated_at := now\<rparr>"
    by (rule updated_source_stages)
  have "source_row_ok src1 \<and> source_identity src1 = source_identity src0"
    using 1 assms(2) normalizeName_ok by (auto simp: source_row_ok_def source_identity_def)
  then have "source_row_ok src2 \<and> source_identity src2 = source_identity src0"
    using 2 by (auto simp: source_row_ok_def source_identity_def)
  then have "source_row_ok src3 \<and> source_identity src3 = source_identity src0"
    using 3 normalizeSourceConfig_ok by (fastforce simp: source_row_ok_def source_identity_def)
  then show "source_row_ok s" "source_identity s = source_identity src0"
    by (auto simp: s source_row_ok_def source_identity_def)
qed

text \<open>
  The statements that reach the table: an insert of a well-formed source, an update with a
  well-formed source of the type the row has, a deletion; each may fail.
\<close>

inductive source_step :: "source_table \<Rightarrow> source_table \<Rightarrow> bool" where
  st_create: "source_row_ok s \<Longrightarrow> source_step t (fst (Source_Create f s t))"
| st_update: "source_row_ok s \<Longrightarrow> (\<And>ty. source_type_of t (so_id s) = Some ty \<Longrightarrow> ty = so_type s) \<Longrightarrow>
    source_step t (fst (Source_Update f s t))"
| st_delete: "source_step t (fst (Source_SoftDelete f uid i now t))"

lemma source_step_inv: "source_step t t' \<Longrightarrow> source_inv t \<Longrightarrow> source_inv t'"
  by (induction rule: source_step.induct) (auto intro: source_inv_create source_inv_update source_inv_delete)

lemma source_steps_inv: "source_step\<^sup>*\<^sup>* t t' \<Longrightarrow> source_inv t \<Longrightarrow> source_inv t'"
  by (induction rule: rtranclp_induct) (auto intro: source_step_inv)

lemma source_type_of_update:
  "(\<And>r. so_id (g r) = so_id r \<and> so_type (g r) = so_type r) \<Longrightarrow>
     source_type_of (update_rows P g t) i = source_type_of t i"
  by (simp add: source_type_of_def find_row_update_key option.map_comp comp_def if_distrib cong: if_cong)

text \<open>A source keeps its type.\<close>

lemma source_step_type:
  assumes "source_step t t'" "source_type_of t i = Some ty"
  shows "source_type_of t' i = Some ty"
  using assms(1)
proof cases
  case (st_create s f)
  show ?thesis
  proof (rule Source_Create_cases [of f s t])
    fix e assume "Source_Create f s t = (burn_seq t, Inl e)"
    then show ?thesis using assms(2) st_create by (simp add: source_type_of_def)
  next
    assume "Source_Create f s t = (insert_row (\<lambda>i. s\<lparr>so_id := i\<rparr>) t, Inr (s\<lparr>so_id := seq t + 1\<rparr>))"
    then show ?thesis using assms(2) st_create by (auto simp: source_type_of_def find_row_insert)
  qed
next
  case (st_update s f)
  show ?thesis
  proof (rule Source_Update_cases [of f s t])
    assume e: "Source_Update f s t =
      (update_rows (source_visible (so_user_id s) (so_id s)) (source_assign s) t, Inr ())"
    have "source_type_of t' i = source_type_of t i"
      unfolding st_update(1) e fst_conv by (rule source_type_of_update) simp
    with assms(2) show ?thesis by simp
  qed (use assms(2) st_update in simp)
next
  case (st_delete f uid j now)
  show ?thesis
  proof (rule Source_SoftDelete_cases [of f uid j now t])
    assume e: "Source_SoftDelete f uid j now t = (update_rows (source_visible uid j) (mark_deleted now) t, Inr ())"
    have "source_type_of t' i = source_type_of t i"
      unfolding st_delete(1) e fst_conv by (rule source_type_of_update) simp
    with assms(2) show ?thesis by simp
  qed (use assms(2) st_delete in simp)
qed

lemma source_steps_type: "source_step\<^sup>*\<^sup>* t t' \<Longrightarrow> source_type_of t i = Some ty \<Longrightarrow> source_type_of t' i = Some ty"
  by (induction rule: rtranclp_induct) (auto intro: source_step_type)

lemma Source_FindByUserIDAndID_Inr:
  "Source_FindByUserIDAndID f uid i t = Inr s \<Longrightarrow> s \<in> set (rows t) \<and> source_visible uid i s"
  by (auto simp: Source_FindByUserIDAndID_def dest!: find_row_SomeD split: option.splits if_splits)

lemma source_type_of_row: "source_inv t \<Longrightarrow> s \<in> set (rows t) \<Longrightarrow> source_type_of t (so_id s) = Some (so_type s)"
  by (auto simp: source_type_of_def source_inv_def wf_distinct find_row_key)

text \<open>A row that was read and changed within its type can be written at any later time.\<close>

lemma source_read_write:
  assumes "source_inv t" "s0 \<in> set (rows t)" "source_row_ok s" "source_identity s = source_identity s0"
    "source_step\<^sup>*\<^sup>* t t'"
  shows "source_step t' (fst (Source_Update f s t'))"
proof (rule st_update)
  fix ty assume ty: "source_type_of t' (so_id s) = Some ty"
  have "source_type_of t (so_id s) = Some (so_type s)"
    using source_type_of_row [OF assms(1,2)] assms(4) by (simp add: source_identity_def)
  then show "ty = so_type s" using source_steps_type [OF assms(5)] ty by fastforce
qed (rule assms)

inductive source_service_step :: "source_world \<Rightarrow> source_world \<Rightarrow> bool" where
  ss_create: "source_service_step w (fst (SourceService_CreateSource lib f cache fault rf visited now req w))"
| ss_list: "source_service_step w (fst (SourceService_ListSources lib cache lfault rf now q w))"
| ss_update: "source_step\<^sup>*\<^sup>* (sw_sources w) (others (sw_sources w)) \<Longrightarrow>
    source_service_step w
      (fst (SourceService_UpdateSource lib f cache ff others uf rf visited now ureq w))"
| ss_delete: "source_service_step w (fst (SourceService_DeleteSource cache fault rf visited now uid i w))"
| ss_other: "source_step (sw_sources w) t \<Longrightarrow> source_service_step w \<lparr>sw_sources = t, sw_redis = r\<rparr>"

lemma sw_create:
  "sw_sources (fst (SourceService_CreateSource lib f cache fault rf visited now req w)) =
     (case new_source lib f now req of Inl e \<Rightarrow> sw_sources w | Inr s \<Rightarrow> fst (Source_Create fault s (sw_sources w)))"
  by (auto simp: SourceService_CreateSource_def split: sum.split prod.split)

lemma sw_list: "sw_sources (fst (SourceService_ListSources lib cache fault rf now q w)) = sw_sources w"
  by (auto simp: SourceService_ListSources_def Let_def split: sum.split option.split)

lemma sw_delete:
  "sw_sources (fst (SourceService_DeleteSource cache fault rf visited now uid i w)) =
     fst (Source_SoftDelete fault uid i now (sw_sources w))"
  by (auto simp: SourceService_DeleteSource_def split: sum.split prod.split)

lemma sw_update_cases:
  assumes "SourceService_UpdateSource lib f cache ff others uf rf visited now req w = (w', r)"
  obtains e where "w' = w" "r = Inl e"
  | src0 src where "Source_FindByUserIDAndID ff (us_user_id req) (us_source_id req) (sw_sources w) = Inr src0"
      "updated_source lib f now req src0 = Inr src"
      "sw_sources w' = fst (Source_Update uf src (others (sw_sources w)))"
proof (cases "Source_FindByUserIDAndID ff (us_user_id req) (us_source_id req) (sw_sources w)")
  case (Inl e)
  then show thesis using assms that(1) by (auto simp: SourceService_UpdateSource_def)
next
  case (Inr src0)
  show thesis
  proof (cases "updated_source lib f now req src0")
    case (Inl e)
    then show thesis using assms Inr that(1) by (auto simp: SourceService_UpdateSource_def)
  next
    case (Inr src)
    with \<open>_ = Inr src0\<close> assms have "sw_sources w' = fst (Source_Update uf src (others (sw_sources w)))"
      by (auto simp: SourceService_UpdateSource_def split: prod.splits sum.splits)
    with Inr \<open>_ = Inr src0\<close> that(2) show thesis by blast
  qed
qed

lemma source_service_step_steps:
  assumes "source_service_step w w'" "source_inv (sw_sources w)"
  shows "source_step\<^sup>*\<^sup>* (sw_sources w) (sw_sources w') \<or> sw_sources w' = sw_sources w"
  using assms(1)
proof cases
  case (ss_create lib f cache fault rf visited now req)
  then show ?thesis
    by (cases "new_source lib f now req")
      (auto simp: sw_create intro!: r_into_rtranclp st_create dest: new_source_ok(1))
next
  case (ss_update others lib f cache ff uf rf visited now req)
  from ss_update(1) have "SourceService_UpdateSource lib f cache ff others uf rf visited now req w =
      (w', snd (SourceService_UpdateSource lib f cache ff others uf rf visited now req w))"
    by simp
  then show ?thesis
  proof (cases rule: sw_update_cases)
    case (2 src0 src)
    note src0 = Source_FindByUserIDAndID_Inr [OF 2(1)]
    then have "source_row_ok src0" using assms(2) by (simp add: source_inv_def)
    from updated_source_ok [OF 2(2) this] src0 ss_update(2) 2(3) show ?thesis
      by (metis assms(2) rtranclp.rtrancl_into_rtrancl source_read_write)
  qed simp
qed (auto simp: sw_list sw_delete intro: source_step.intros r_into_rtranclp)

text \<open>
  C35. Whatever requests are served, in whatever order, with database faults anywhere and
  other writers between the read and the write of an update: every stored source has a valid
  type, a trimmed non-empty name of at most 200 bytes and a JSON configuration, an RSS source
  has a url, and no two sources of one user that are not deleted have the same url.
\<close>

theorem source_reachable_inv:
  "source_service_step\<^sup>*\<^sup>* \<lparr>sw_sources = empty_table, sw_redis = Map.empty\<rparr> w \<Longrightarrow> source_inv (sw_sources w)"
proof (induction rule: rtranclp_induct)
  case base
  show ?case by (simp add: source_inv_def source_urls_unique_def)
next
  case (step w w')
  then show ?case using source_service_step_steps source_steps_inv by metis
qed

definition sample_create_request :: create_source_request where
  "sample_create_request =
     \<lparr>cs_user_id = 7, cs_name = ''inbox'', cs_type = ''email'', cs_url = None, cs_config = None\<rparr>"

definition sample_source :: source where
  "sample_source =
     \<lparr>so_id = 1, so_user_id = 7, so_name = ''inbox'', so_type = ''email'', so_url = None,
      so_config_json = JsonText (JObj []), so_is_active = True, so_last_fetched_at = None,
      so_last_fetch_status = [], so_last_fetch_message = [], so_created_at = 5, so_updated_at = 5,
      so_deleted_at = None\<rparr>"

definition empty_source_world :: source_world where
  "empty_source_world = \<lparr>sw_sources = empty_table, sw_redis = Map.empty\<rparr>"

definition sample_source_world :: source_world where
  "sample_source_world = \<lparr>sw_sources = \<lparr>rows = [sample_source], seq = 1\<rparr>, sw_redis = Map.empty\<rparr>"

lemma sample_new_source: "new_source sample_lib f 5 sample_create_request = Inr (sample_source\<lparr>so_id := 0\<rparr>)"
proof -
  have t: "to_lower (gl_lower sample_lib) ''email'' = ''email''"
    by (simp add: to_lower_def ascii_only_def lower_byte_def)
  have n: "trim_space ''inbox'' = ''inbox''" "trim_space ''email'' = ''email''"
    by (simp_all add: trim_space_visible visible_def)
  have c: "normalizeSourceConfig sample_lib ''email'' None = Inr (JsonText (JObj []))"
    by (simp add: normalizeSourceConfig_def normalizeConfig_def empty_object_def emailConfigHasPlaintextPassword_def
        map_of_object_def)
  show ?thesis
    by (simp add: new_source_def sample_create_request_def t n c normalizeName_def normalizeURL_def IsValidType_def
        sample_source_def)
qed

lemma sample_create:
  "SourceService_CreateSource sample_lib f None None redis_ok [] 5 sample_create_request empty_source_world =
     (sample_source_world, Inr (source_toDTO sample_lib sample_source))"
  by (simp add: SourceService_CreateSource_def sample_new_source Source_Create_def empty_source_world_def
      source_clash_def source_deleteUserListCache_def sample_source_world_def insert_row_def empty_table_def
      sample_source_def Let_def)

theorem source_reachable_inv_witness: "source_inv (sw_sources sample_source_world)"
proof -
  have "source_service_step empty_source_world sample_source_world"
    using ss_create [of empty_source_world sample_lib "\<lambda>_. []" None None redis_ok "[]" 5 sample_create_request]
    by (simp add: sample_create)
  then show ?thesis by (intro source_reachable_inv) (auto simp: empty_source_world_def)
qed

end
