(* ===== verification/Email_Message.thy ===== *)
theory Email_Message
  imports Sources
begin

section \<open>Mail messages: reading and decoding\<close>

text \<open>
  The configuration and message types of package \<open>email\<close> and the reading of a mail from its
  bytes (\<open>internal/module/collector/email/directory_reader.go\<close>): the body out of a plain or
  multipart message, its transfer encoding, the text of an HTML page, the headers.

  The parsers of the Go library (\<open>net/mail\<close>, \<open>mime\<close>, \<open>mime/multipart\<close>,
  \<open>mime/quotedprintable\<close>, \<open>encoding/base64\<close>) and of \<open>golang.org/x/net/html\<close> are the fields
  of the record \<open>mail_lib\<close>. A reader is what it yields until it ends, and the error it ends
  with, if any.
\<close>

subsection \<open>Byte strings\<close>

fun strings_join :: "string \<Rightarrow> string list \<Rightarrow> string" where
  "strings_join sep [] = ''''"
| "strings_join sep [s] = s"
| "strings_join sep (s # t # ss) = s @ sep @ strings_join sep (t # ss)"

fun str_contains :: "string \<Rightarrow> string \<Rightarrow> bool" where
  "str_contains [] sub \<longleftrightarrow> sub = []"
| "str_contains (c # s) sub \<longleftrightarrow> has_prefix (c # s) sub \<or> str_contains s sub"

lemma str_contains_iff: "str_contains s sub \<longleftrightarrow> (\<exists>pre post. s = pre @ sub @ post)"
proof (induction s)
  case Nil
  then show ?case by auto
next
  case (Cons c s)
  show ?case
  proof
    assume "str_contains (c # s) sub"
    then consider "has_prefix (c # s) sub" | "str_contains s sub" by auto
    then show "\<exists>pre post. c # s = pre @ sub @ post"
    proof cases
      case 1
      then have "c # s = [] @ sub @ drop (length sub) (c # s)"
        by (metis append_Nil append_take_drop_id has_prefix_def)
      then show ?thesis by blast
    next
      case 2
      then obtain pre post where "s = pre @ sub @ post" using Cons.IH by blast
      then have "c # s = (c # pre) @ sub @ post" by simp
      then show ?thesis by blast
    qed
  next
    assume "\<exists>pre post. c # s = pre @ sub @ post"
    then obtain pre post where e: "c # s = pre @ sub @ post" by blast
    show "str_contains (c # s) sub"
    proof (cases pre)
      case Nil
      then have "has_prefix (c # s) sub" using e by (simp add: has_prefix_def)
      then show ?thesis by simp
    next
      case (Cons d pre')
      then have "s = pre' @ sub @ post" using e by simp
      then show ?thesis using Cons.IH by auto
    qed
  qed
qed

definition normalizeText :: "string \<Rightarrow> string" where
  "normalizeText value = strings_join '' '' (strings_fields value)"


subsection \<open>Configuration and messages\<close>

record email_config =
  ec_provider :: string
  ec_mailbox :: string
  ec_host :: string
  ec_port :: int
  ec_username :: string
  ec_password :: string
  ec_password_env :: string
  ec_use_tls :: "bool option"
  ec_from_filter :: string
  ec_recipient_alias :: string
  ec_seen_message_ids :: "string list"
  ec_last_seen_uid :: int

record email_message =
  em_uid :: int
  em_message_id :: string
  em_subject :: string
  em_from :: string
  em_to :: "string list"
  em_body :: string
  em_date :: "time option"

text \<open>
  A mailbox reader may also panic, the value \<^const>\<open>None\<close>.
\<close>

type_synonym mailbox_reader = "email_config \<Rightarrow> email_message list result option"


subsection \<open>The parsers of the library\<close>

datatype html_node = HtmlNode (node_is_text: bool) (node_data: string) (node_children: "html_node list")

type_synonym reader = "string \<times> go_error option"
type_synonym mail_header = "(string \<times> string) list"

record mail_lib =
  ml_read_message :: "reader \<Rightarrow> (mail_header \<times> reader) result"
  ml_parse_date :: "string \<Rightarrow> time option"
  ml_media_type :: "string \<Rightarrow> string \<times> (string \<Rightarrow> string option) \<times> bool"
  ml_parts :: "string \<Rightarrow> reader \<Rightarrow> (mail_header \<times> reader) list \<times> go_error option"
  ml_quoted_printable :: "reader \<Rightarrow> reader"
  ml_base64 :: "reader \<Rightarrow> reader"
  ml_word_decode :: "string \<Rightarrow> string option"
  ml_parse_addresses :: "string \<Rightarrow> string list option"
  ml_parse_html :: "string \<Rightarrow> html_node option"

text \<open>
  \<open>Header.Get\<close>: the first value under the canonical form of a key. The keys of a parsed header
  are canonical, and so are the constants the models below look up.
\<close>

definition header_get :: "mail_header \<Rightarrow> string \<Rightarrow> string" where
  "header_get h key = (case map_of h key of None \<Rightarrow> '''' | Some v \<Rightarrow> v)"

text \<open>\<open>io.ReadAll\<close>.\<close>

fun read_all :: "reader \<Rightarrow> string result" where
  "read_all (data, None) = Inr data"
| "read_all (data, Some e) = Inl e"

text \<open>
  \<open>ml_parts boundary body\<close> are the parts that \<open>NextPart\<close> returns one after the other, and the
  error it ends with, \<^const>\<open>None\<close> for \<open>io.EOF\<close>.
\<close>


subsection \<open>Bodies\<close>

definition readDecodedBody :: "go_lib \<Rightarrow> mail_lib \<Rightarrow> reader \<Rightarrow> string \<Rightarrow> string result" where
  "readDecodedBody lib ml body transferEncoding =
     (let enc = to_lower (gl_lower lib) (trim_space transferEncoding) in
      if enc = ''quoted-printable'' then
        (case read_all (ml_quoted_printable ml body) of
           Inl e \<Rightarrow> Inl (Wrapf ''decode quoted-printable email body: '' e '''')
         | Inr data \<Rightarrow> Inr data)
      else if enc = ''base64'' then
        (case read_all (ml_base64 ml body) of
           Inl e \<Rightarrow> Inl (Wrapf ''decode base64 email body: '' e '''')
         | Inr data \<Rightarrow> Inr data)
      else
        (case read_all body of
           Inl e \<Rightarrow> Inl (Wrapf ''read email body: '' e '''')
         | Inr data \<Rightarrow> Inr data))"

definition decodeHeader :: "mail_lib \<Rightarrow> string \<Rightarrow> string" where
  "decodeHeader ml value = (case ml_word_decode ml value of None \<Rightarrow> value | Some decoded \<Rightarrow> decoded)"

text \<open>The closure \<open>walk\<close>, with the string builder as its state.\<close>

fun html_walk :: "html_node \<Rightarrow> string \<Rightarrow> string" where
  "html_walk (HtmlNode isText data children) b =
     fold html_walk children
       (if isText then
          (let text = trim_space data in
           if text \<noteq> '''' then (if length b > 0 then b @ '' '' @ text else b @ text) else b)
        else b)"

definition htmlToText :: "mail_lib \<Rightarrow> string \<Rightarrow> string" where
  "htmlToText ml value =
     (case ml_parse_html ml value of
        None \<Rightarrow> normalizeText value
      | Some doc \<Rightarrow> normalizeText (html_walk doc ''''))"

definition parseAddressList :: "mail_lib \<Rightarrow> string \<Rightarrow> string list" where
  "parseAddressList ml value =
     (case ml_parse_addresses ml value of
        None \<Rightarrow> (let v = trim_space value in if v = '''' then [] else [v])
      | Some addresses \<Rightarrow> addresses)"

fun read_parts ::
  "go_lib \<Rightarrow> mail_lib \<Rightarrow> string \<Rightarrow> (mail_header \<times> reader) list \<times> go_error option \<Rightarrow> string result" where
  "read_parts lib ml firstText ([], None) = Inr firstText"
| "read_parts lib ml firstText ([], Some e) = Inl (Wrapf ''read multipart email: '' e '''')"
| "read_parts lib ml firstText ((header, part) # parts, end_error) =
     (case readDecodedBody lib ml part (header_get header ''Content-Transfer-Encoding'') of
        Inl e \<Rightarrow> Inl e
      | Inr content \<Rightarrow>
        (let partMediaType =
           to_lower (gl_lower lib) (trim_space (fst (ml_media_type ml (header_get header ''Content-Type'')))) in
         if partMediaType = ''text/plain'' then Inr content
         else read_parts lib ml
           (if firstText = '''' \<and> partMediaType = ''text/html'' then htmlToText ml content
            else if firstText = '''' \<and> has_prefix partMediaType ''text/'' then content
            else firstText) (parts, end_error)))"

definition readMessageBody :: "go_lib \<Rightarrow> mail_lib \<Rightarrow> mail_header \<Rightarrow> reader \<Rightarrow> string result" where
  "readMessageBody lib ml header body =
     (case ml_media_type ml (header_get header ''Content-Type'') of
        (mediaType, params, ok) \<Rightarrow>
          if \<not> ok \<or> \<not> has_prefix (to_lower (gl_lower lib) mediaType) ''multipart/'' then
            (case readDecodedBody lib ml body (header_get header ''Content-Transfer-Encoding'') of
               Inl readErr \<Rightarrow> Inl readErr
             | Inr content \<Rightarrow>
                 if map lower_byte mediaType = ''text/html'' then Inr (htmlToText ml content) else Inr content)
          else
            (let boundary = (case params ''boundary'' of None \<Rightarrow> '''' | Some b \<Rightarrow> b) in
             if boundary = '''' then Inl (Sentinel ErrInvalidEmailConfig)
             else read_parts lib ml '''' (ml_parts ml boundary body)))"

definition header_date :: "mail_lib \<Rightarrow> mail_header \<Rightarrow> time option" where
  "header_date ml h =
     (let hdr = header_get h ''Date'' in if hdr = '''' then None else ml_parse_date ml hdr)"

definition readEmail :: "go_lib \<Rightarrow> mail_lib \<Rightarrow> reader \<Rightarrow> email_message result" where
  "readEmail lib ml r =
     (case ml_read_message ml r of
        Inl e \<Rightarrow> Inl (Wrapf ''parse email message: '' e '''')
      | Inr (header, msg_body) \<Rightarrow>
        (case readMessageBody lib ml header msg_body of
           Inl e \<Rightarrow> Inl e
         | Inr body \<Rightarrow>
             Inr \<lparr>em_uid = 0,
                  em_message_id = trim_space (header_get header ''Message-Id''),
                  em_subject = trim_space (decodeHeader ml (header_get header ''Subject'')),
                  em_from = trim_space (header_get header ''From''),
                  em_to = parseAddressList ml (header_get header ''To''),
                  em_body = trim_space body,
                  em_date = header_date ml header\<rparr>))"


subsection \<open>The directory mailbox\<close>

text \<open>
  The file system: \<open>fs_read_dir\<close> lists the names in a directory with a flag for directories,
  \<open>fs_open dir name\<close> opens the file \<open>filepath.Join(dir, name)\<close>. \<open>done k\<close> is the error of the
  context when the k-th file is about to be read.
\<close>

record file_system =
  fs_read_dir :: "string \<Rightarrow> (string \<times> bool) list result"
  fs_open :: "string \<Rightarrow> string \<Rightarrow> reader result"

definition readEmailFile :: "go_lib \<Rightarrow> mail_lib \<Rightarrow> file_system \<Rightarrow> string \<Rightarrow> string \<Rightarrow> email_message result" where
  "readEmailFile lib ml fs dir name =
     (case fs_open fs dir name of
        Inl e \<Rightarrow> Inl (Wrapf ''open email file: '' e '''')
      | Inr file \<Rightarrow> readEmail lib ml file)"

fun read_files ::
  "go_lib \<Rightarrow> mail_lib \<Rightarrow> file_system \<Rightarrow> string \<Rightarrow> (nat \<Rightarrow> go_error option) \<Rightarrow> nat \<Rightarrow> string list \<Rightarrow>
     email_message list result" where
  "read_files lib ml fs dir done k [] = Inr []"
| "read_files lib ml fs dir done k (name # names) =
     (case done k of
        Some e \<Rightarrow> Inl e
      | None \<Rightarrow>
        (case readEmailFile lib ml fs dir name of
           Inl e \<Rightarrow> Inl e
         | Inr msg \<Rightarrow>
           (case read_files lib ml fs dir done (Suc k) names of
              Inl e \<Rightarrow> Inl e
            | Inr messages \<Rightarrow> Inr (msg # messages))))"

definition directory_Read ::
  "go_lib \<Rightarrow> mail_lib \<Rightarrow> file_system \<Rightarrow> (nat \<Rightarrow> go_error option) \<Rightarrow> email_config \<Rightarrow> email_message list result" where
  "directory_Read lib ml fs done cfg =
     (let mailbox = trim_space (ec_mailbox cfg) in
      if mailbox = '''' then Inl (Sentinel ErrInvalidEmailConfig)
      else case fs_read_dir fs mailbox of
        Inl e \<Rightarrow> Inl (Wrapf ''read mailbox directory: '' e '''')
      | Inr entries \<Rightarrow>
          read_files lib ml fs mailbox done 0 (sort (map fst (filter (\<lambda>entry. \<not> snd entry) entries))))"

end
