(* ===== verification/Imap_Client.thy ===== *)
theory Imap_Client
  imports Email_Message
begin

section \<open>The IMAP client\<close>

text \<open>
  \<open>internal/module/collector/email/imap_reader.go\<close>. A connection is the bytes the server
  will still send, the error reading ends with after them, the lines written so far and the
  outcome of each write. The server is arbitrary: whatever it sends, and in answer to
  whatever, some byte string is what the client reads.

  An operation may panic (\<open>make\<close> with a negative length): its value is then \<^const>\<open>None\<close>.
\<close>

record imap_client =
  ic_input :: string
  ic_read_error :: go_error
  ic_written :: "string list"
  ic_write_fault :: "nat \<Rightarrow> go_error option"
  ic_nextID :: int

text \<open>A connection before a client is made for it.\<close>

record imap_conn =
  cn_input :: string
  cn_read_error :: go_error
  cn_write_fault :: "nat \<Rightarrow> go_error option"

definition newIMAPClient :: "imap_conn \<Rightarrow> imap_client" where
  "newIMAPClient conn =
     \<lparr>ic_input = cn_input conn, ic_read_error = cn_read_error conn, ic_written = [],
      ic_write_fault = cn_write_fault conn, ic_nextID = 1\<rparr>"

abbreviation cr :: char where "cr \<equiv> CHR 0x0D"
abbreviation lf :: char where "lf \<equiv> CHR 0x0A"

definition defaultMaxMessageSize :: int where "defaultMaxMessageSize = 10 * 2 ^ 20"


subsection \<open>Lines\<close>

definition trim_right :: "char list \<Rightarrow> string \<Rightarrow> string" where
  "trim_right cs s = rev (dropWhile (\<lambda>c. c \<in> set cs) (rev s))"

definition imap_readLine :: "imap_client \<Rightarrow> imap_client \<times> string result" where
  "imap_readLine c =
     (case dropWhile (\<lambda>b. b \<noteq> lf) (ic_input c) of
        [] \<Rightarrow> (c\<lparr>ic_input := []\<rparr>, Inl (Wrapf ''read imap response: '' (ic_read_error c) ''''))
      | _ # rest \<Rightarrow>
          (c\<lparr>ic_input := rest\<rparr>,
           Inr (trim_right [cr, lf] (takeWhile (\<lambda>b. b \<noteq> lf) (ic_input c)))))"

text \<open>
  \<open>io.ReadFull\<close> of \<open>n\<close> bytes: an \<open>EOF\<close> after some of them is \<open>unexpected EOF\<close>.
\<close>

definition read_full :: "nat \<Rightarrow> imap_client \<Rightarrow> imap_client \<times> string result" where
  "read_full n c =
     (if n \<le> length (ic_input c)
      then (c\<lparr>ic_input := drop n (ic_input c)\<rparr>, Inr (take n (ic_input c)))
      else (c\<lparr>ic_input := []\<rparr>,
            Inl (if ic_input c \<noteq> [] \<and> ic_read_error c = Plain ''EOF'' then Plain ''unexpected EOF''
                 else ic_read_error c)))"

definition imap_nextTag :: "imap_client \<Rightarrow> imap_client \<times> string" where
  "imap_nextTag c = (c\<lparr>ic_nextID := wrap64 (ic_nextID c + 1)\<rparr>, ''A'' @ fmt_width 3 (ic_nextID c))"

definition imap_writeCommand :: "string \<Rightarrow> string \<Rightarrow> imap_client \<Rightarrow> imap_client \<times> unit result" where
  "imap_writeCommand tag command c =
     (let line = tag @ '' '' @ command @ [cr, lf] in
      case ic_write_fault c (length (ic_written c)) of
        Some e \<Rightarrow> (c, Inl (Wrapf ''write imap command: '' e ''''))
      | None \<Rightarrow> (c\<lparr>ic_written := ic_written c @ [line]\<rparr>, Inr ()))"

definition quoteIMAPString :: "string \<Rightarrow> string" where
  "quoteIMAPString value0 =
     (let value1 = concat (map (\<lambda>b. if b = CHR 0x5C then [CHR 0x5C, CHR 0x5C] else [b]) value0);
          value2 = concat (map (\<lambda>b. if b = CHR 0x22 then [CHR 0x5C, CHR 0x22] else [b]) value1)
      in CHR 0x22 # value2 @ [CHR 0x22])"

text \<open>\<open>strings.LastIndex\<close> of a one-byte string.\<close>

definition last_index :: "char \<Rightarrow> string \<Rightarrow> int" where
  "last_index b s =
     (if b \<in> set s then int (length s) - 1 - int (length (takeWhile (\<lambda>x. x \<noteq> b) (rev s))) else - 1)"

definition literalSize :: "string \<Rightarrow> int result" where
  "literalSize line =
     (let start = last_index (CHR ''{'') line; stop = last_index (CHR ''}'') line in
      if start < 0 \<or> stop \<le> start then Inl (Plain (''imap literal size missing: '' @ line))
      else case parse_int64 (take (nat (stop - (start + 1))) (drop (nat (start + 1)) line)) of
        Inl _ \<Rightarrow> Inl (Wrapf ''parse imap literal size: '' (Plain ''strconv.Atoi'') '''')
      | Inr sz \<Rightarrow> Inr sz)"


subsection \<open>Reading consumes the connection\<close>

lemma length_after_newline:
  "dropWhile P s = b # rest \<Longrightarrow> length rest < length s"
  by (metis Suc_le_lessD length_Cons length_dropWhile_le)

lemma imap_readLine_length:
  "length (ic_input (fst (imap_readLine c))) \<le> length (ic_input c) \<and>
   (snd (imap_readLine c) = Inr line \<longrightarrow> length (ic_input (fst (imap_readLine c))) < length (ic_input c))"
proof (cases "dropWhile (\<lambda>b. b \<noteq> lf) (ic_input c)")
  case Nil
  show ?thesis unfolding imap_readLine_def Nil by simp
next
  case (Cons b rest)
  then have "length rest < length (ic_input c)" by (rule length_after_newline)
  then show ?thesis by (simp add: imap_readLine_def Cons)
qed

lemma imap_readLine_consumes:
  "imap_readLine c = (c', Inr line) \<Longrightarrow> length (ic_input c') < length (ic_input c)"
  using imap_readLine_length [of c line] by simp

lemma imap_readLine_le: "imap_readLine c = (c', r) \<Longrightarrow> length (ic_input c') \<le> length (ic_input c)"
  using imap_readLine_length [of c] by simp

lemma read_full_le: "read_full n c = (c', r) \<Longrightarrow> length (ic_input c') \<le> length (ic_input c)"
  by (auto simp: read_full_def split: if_splits)


text \<open>The form in which the termination goals of the reading loops ask for it.\<close>

lemma imap_readLine_decreases:
  "(c', r) = imap_readLine c \<Longrightarrow> r = Inr line \<Longrightarrow> length (ic_input c') < length (ic_input c)"
  using imap_readLine_consumes [of c c' line] by simp

lemma read_full_decreases:
  assumes "(c', r) = imap_readLine c" "r = Inr line" "(c'', r') = read_full n c'"
  shows "length (ic_input c'') < length (ic_input c)"
  using imap_readLine_decreases [OF assms(1,2)] read_full_le [OF assms(3) [symmetric]] by simp


subsection \<open>Commands\<close>

definition readGreeting :: "imap_client \<Rightarrow> imap_client \<times> unit result" where
  "readGreeting c =
     bind_st (imap_readLine c) (\<lambda>c line.
       if \<not> has_prefix line ''* OK'' then (c, Inl (Plain (''imap greeting failed: '' @ line)))
       else (c, Inr ()))"

function command_answer :: "string \<Rightarrow> imap_client \<Rightarrow> imap_client \<times> unit result" where
  "command_answer tag c =
     (case imap_readLine c of
        (c', Inl e) \<Rightarrow> (c', Inl e)
      | (c', Inr line) \<Rightarrow>
          if has_prefix line (tag @ '' OK'') then (c', Inr ())
          else if has_prefix line (tag @ '' NO'') \<or> has_prefix line (tag @ '' BAD'') then
            (c', Inl (Plain (''imap command failed: '' @ line)))
          else command_answer tag c')"
  by pat_completeness auto
termination by (relation "measure (\<lambda>(_, c). length (ic_input c))")
    (simp_all only: wf_measure in_measure prod.case imap_readLine_decreases)

definition commandOK :: "string \<Rightarrow> imap_client \<Rightarrow> imap_client \<times> unit result" where
  "commandOK command c0 =
     (case imap_nextTag c0 of
        (c1, tag) \<Rightarrow> bind_st (imap_writeCommand tag command c1) (\<lambda>c2 _. command_answer tag c2))"

function search_answer :: "string \<Rightarrow> string list \<Rightarrow> imap_client \<Rightarrow> imap_client \<times> string list result" where
  "search_answer tag ids c =
     (case imap_readLine c of
        (c', Inl e) \<Rightarrow> (c', Inl e)
      | (c', Inr line) \<Rightarrow>
          if has_prefix line ''* SEARCH'' then search_answer tag (ids @ drop 2 (strings_fields line)) c'
          else if has_prefix line (tag @ '' OK'') then (c', Inr ids)
          else if has_prefix line (tag @ '' NO'') \<or> has_prefix line (tag @ '' BAD'') then
            (c', Inl (Plain (''imap search failed: '' @ line)))
          else search_answer tag ids c')"
  by pat_completeness auto
termination by (relation "measure (\<lambda>(_, _, c). length (ic_input c))")
    (simp_all only: wf_measure in_measure prod.case imap_readLine_decreases)

definition searchUIDs :: "int \<Rightarrow> imap_client \<Rightarrow> imap_client \<times> string list result" where
  "searchUIDs lastSeenUID c0 =
     (case imap_nextTag c0 of
        (c1, tag) \<Rightarrow>
          (let startUID = (let u = wrap64 (lastSeenUID + 1) in if u \<le> 0 then 1 else u) in
           bind_st (imap_writeCommand tag (''UID SEARCH UID '' @ fmt_int startUID @ '':*'') c1)
             (\<lambda>c2 _. search_answer tag [] c2)))"

text \<open>
  The loop of \<open>fetchUIDRFC822\<close>: \<open>raw\<close> is the last literal read, \<open>parse\<close> the reading of a mail
  from its bytes.
\<close>

function fetch_answer ::
  "(string \<Rightarrow> email_message result) \<Rightarrow> string \<Rightarrow> int \<Rightarrow> string \<Rightarrow> imap_client \<Rightarrow>
     (imap_client \<times> email_message result) option" where
  "fetch_answer parse tag uid raw c =
     (case imap_readLine c of
        (c', Inl e) \<Rightarrow> Some (c', Inl e)
      | (c', Inr line) \<Rightarrow>
          if has_prefix line ''* '' \<and> str_contains line ''RFC822 {'' then
            (case literalSize line of
               Inl e \<Rightarrow> Some (c', Inl e)
             | Inr sz \<Rightarrow>
                 if sz > defaultMaxMessageSize then
                   Some (c', Inl (Plain (''imap literal too large: '' @ fmt_int sz)))
                 else if sz < 0 then None
                 else (case read_full (nat sz) c' of
                     (c'', Inl e) \<Rightarrow> Some (c'', Inl (Wrapf ''read imap literal: '' e ''''))
                   | (c'', Inr raw') \<Rightarrow> fetch_answer parse tag uid raw' c''))
          else if has_prefix line (tag @ '' OK'') then
            (if length raw = 0 then Some (c', Inl (Plain ''imap fetch returned empty message''))
             else case parse raw of
               Inl e \<Rightarrow> Some (c', Inl e)
             | Inr msg \<Rightarrow> Some (c', Inr (msg\<lparr>em_uid := uid\<rparr>)))
          else if has_prefix line (tag @ '' NO'') \<or> has_prefix line (tag @ '' BAD'') then
            Some (c', Inl (Plain (''imap fetch failed: '' @ line)))
          else fetch_answer parse tag uid raw c')"
  by pat_completeness auto
termination
  by (relation "measure (\<lambda>(_, _, _, _, c). length (ic_input c))")
    (simp_all only: wf_measure in_measure prod.case imap_readLine_decreases, erule read_full_decreases [OF _ refl], assumption)

definition fetchUIDRFC822 ::
  "(string \<Rightarrow> email_message result) \<Rightarrow> string \<Rightarrow> imap_client \<Rightarrow> (imap_client \<times> email_message result) option" where
  "fetchUIDRFC822 parse i c0 =
     (case imap_nextTag c0 of
        (c1, tag) \<Rightarrow>
          (case imap_writeCommand tag (''UID FETCH '' @ i @ '' RFC822'') c1 of
             (c2, Inl e) \<Rightarrow> Some (c2, Inl e)
           | (c2, Inr _) \<Rightarrow>
             (case parse_int64 i of
                Inl _ \<Rightarrow> Some (c2, Inl (Wrapf ''parse imap uid: '' (Plain ''strconv.Atoi'') ''''))
              | Inr uid \<Rightarrow> fetch_answer parse tag uid '''' c2)))"


declare command_answer.simps [simp del] search_answer.simps [simp del] fetch_answer.simps [simp del]

subsection \<open>Reading a mailbox\<close>

text \<open>
  What a reading uses of the outside: the resolver and the network behind \<open>netguard\<close> (or the
  dialer a caller supplies), the TLS handshake for a server name (\<open>ie_handshake\<close> gives the
  connection as the client sees it behind the encryption), the environment variables, the
  context (\<open>ie_done k\<close> is its error before the k-th fetch) and the parsers of mails.
\<close>

type_synonym imap_dialer = "string \<Rightarrow> string \<Rightarrow> imap_conn result"

record imap_env =
  ie_lib :: go_lib
  ie_addr_text :: "ip_addr \<Rightarrow> string"
  ie_handshake :: "string \<Rightarrow> imap_conn \<Rightarrow> imap_conn result"
  ie_getenv :: "string \<Rightarrow> string"
  ie_done :: "nat \<Rightarrow> go_error option"
  ie_mail :: mail_lib

record imap_mailbox_reader =
  im_dialer :: imap_dialer

type_synonym imap_option = "imap_mailbox_reader \<Rightarrow> imap_mailbox_reader"

definition WithIMAPDialer :: "imap_dialer option \<Rightarrow> imap_option" where
  "WithIMAPDialer dialer r = (case dialer of None \<Rightarrow> r | Some d \<Rightarrow> r\<lparr>im_dialer := d\<rparr>)"

definition defaultIMAPDialer ::
  "go_lib \<Rightarrow> (ip_addr \<Rightarrow> string) \<Rightarrow> (string \<Rightarrow> ip_addr list result) \<Rightarrow> imap_conn connect_fn \<Rightarrow> imap_dialer" where
  "defaultIMAPDialer lib addr_text resolve connect network address =
     snd (netguard_DialContext lib addr_text resolve connect network address)"

definition NewIMAPMailboxReader :: "imap_dialer \<Rightarrow> imap_option list \<Rightarrow> imap_mailbox_reader" where
  "NewIMAPMailboxReader default_dialer opts = fold (\<lambda>opt. opt) opts \<lparr>im_dialer = default_dialer\<rparr>"

definition validateIMAPConfig :: "email_config \<Rightarrow> unit result" where
  "validateIMAPConfig cfg =
     (if trim_space (ec_host cfg) = '''' \<or> trim_space (ec_username cfg) = '''' then
        Inl (Sentinel ErrInvalidEmailConfig)
      else if trim_space (ec_password cfg) = '''' \<and> trim_space (ec_password_env cfg) = '''' then
        Inl (Sentinel ErrInvalidEmailConfig)
      else Inr ())"

definition imapPassword :: "(string \<Rightarrow> string) \<Rightarrow> email_config \<Rightarrow> string result" where
  "imapPassword getenv cfg =
     (if trim_space (ec_password cfg) \<noteq> '''' then Inr (ec_password cfg)
      else let envName = trim_space (ec_password_env cfg) in
        if envName = '''' then Inl (Sentinel ErrInvalidEmailConfig)
        else let password = trim_space (getenv envName) in
          if password = '''' then Inl (Sentinel ErrInvalidEmailConfig) else Inr password)"

definition useTLS :: "email_config \<Rightarrow> bool" where
  "useTLS cfg = (case ec_use_tls cfg of Some b \<Rightarrow> b | None \<Rightarrow> True)"

definition JoinHostPort :: "string \<Rightarrow> string \<Rightarrow> string" where
  "JoinHostPort host port =
     (if CHR '':'' \<in> set host then ''['' @ host @ '']:'' @ port else host @ '':'' @ port)"

definition imap_dial :: "imap_env \<Rightarrow> imap_mailbox_reader \<Rightarrow> email_config \<Rightarrow> imap_conn result" where
  "imap_dial env r cfg =
     (let port = (if ec_port cfg \<le> 0 then (if useTLS cfg then 993 else 143) else ec_port cfg);
          address = JoinHostPort (ec_host cfg) (fmt_int port) in
      case ValidateHost (ie_lib env) (ie_addr_text env) (ec_host cfg) of
        Inl e \<Rightarrow> Inl e
      | Inr _ \<Rightarrow>
          if \<not> useTLS cfg then
            (case im_dialer r ''tcp'' address of
               Inl e \<Rightarrow> Inl (Wrapf ''dial imap: '' e '''')
             | Inr conn \<Rightarrow> Inr conn)
          else
            (case im_dialer r ''tcp'' address of
               Inl e \<Rightarrow> Inl (Wrapf ''dial imaps: '' e '''')
             | Inr rawConn \<Rightarrow>
               (case ie_handshake env (ec_host cfg) rawConn of
                  Inl e \<Rightarrow> Inl (Wrapf ''handshake imaps: '' e '''')
                | Inr conn \<Rightarrow> Inr conn)))"

fun fetch_messages ::
  "(string \<Rightarrow> email_message result) \<Rightarrow> (nat \<Rightarrow> go_error option) \<Rightarrow> nat \<Rightarrow> string list \<Rightarrow> imap_client \<Rightarrow>
     (imap_client \<times> email_message list result) option" where
  "fetch_messages parse done k [] c = Some (c, Inr [])"
| "fetch_messages parse done k (i # ids) c =
     (case done k of
        Some e \<Rightarrow> Some (c, Inl e)
      | None \<Rightarrow>
        (case fetchUIDRFC822 parse i c of
           None \<Rightarrow> None
         | Some (c', Inl e) \<Rightarrow> Some (c', Inl e)
         | Some (c', Inr msg) \<Rightarrow>
           (case fetch_messages parse done (Suc k) ids c' of
              None \<Rightarrow> None
            | Some (c'', Inl e) \<Rightarrow> Some (c'', Inl e)
            | Some (c'', Inr messages) \<Rightarrow> Some (c'', Inr (msg # messages)))))"

text \<open>The reading once the connection is there, with the client it leaves.\<close>

definition mailbox_name :: "email_config \<Rightarrow> string" where
  "mailbox_name cfg = (if trim_space (ec_mailbox cfg) = '''' then ''INBOX'' else ec_mailbox cfg)"

definition login_command :: "email_config \<Rightarrow> string \<Rightarrow> string" where
  "login_command cfg password =
     ''LOGIN '' @ quoteIMAPString (ec_username cfg) @ '' '' @ quoteIMAPString password"

definition imap_select :: "imap_env \<Rightarrow> email_config \<Rightarrow> imap_client \<Rightarrow> imap_client \<times> string list result" where
  "imap_select env cfg c0 =
     bind_st (readGreeting c0) (\<lambda>c1 _.
     bind_st (c1, imapPassword (ie_getenv env) cfg) (\<lambda>c1 password.
     bind_st (commandOK (login_command cfg password) c1) (\<lambda>c2 _.
     bind_st (commandOK (''SELECT '' @ quoteIMAPString (mailbox_name cfg)) c2) (\<lambda>c3 _.
     searchUIDs (ec_last_seen_uid cfg) c3))))"

definition imap_session ::
  "imap_env \<Rightarrow> email_config \<Rightarrow> imap_client \<Rightarrow> (imap_client \<times> email_message list result) option" where
  "imap_session env cfg c0 =
     (case imap_select env cfg c0 of
        (c1, Inl e) \<Rightarrow> Some (c1, Inl e)
      | (c1, Inr ids) \<Rightarrow>
        (case fetch_messages (\<lambda>raw. readEmail (ie_lib env) (ie_mail env) (raw, None)) (ie_done env) 0 ids c1 of
           None \<Rightarrow> None
         | Some (c2, Inl e) \<Rightarrow> Some (c2, Inl e)
         | Some (c2, Inr messages) \<Rightarrow> Some (fst (commandOK ''LOGOUT'' c2), Inr messages)))"

definition imap_Read :: "imap_env \<Rightarrow> imap_mailbox_reader \<Rightarrow> mailbox_reader" where
  "imap_Read env r cfg =
     (case validateIMAPConfig cfg of
        Inl e \<Rightarrow> Some (Inl e)
      | Inr _ \<Rightarrow>
        (case imap_dial env r cfg of
           Inl e \<Rightarrow> Some (Inl e)
         | Inr conn \<Rightarrow> map_option snd (imap_session env cfg (newIMAPClient conn))))"

end
