(* ===== verification/Go_Runes.thy ===== *)
theory Go_Runes
  imports Go_Prelude
begin

section \<open>UTF-8 and runes\<close>

text \<open>
  Strings are byte lists; \<open>rune_length\<close> is the length of the UTF-8 encoding a string begins
  with, 0 if it begins with none.
\<close>

definition byte_in :: "nat \<Rightarrow> nat \<Rightarrow> string \<Rightarrow> nat \<Rightarrow> bool" where
  "byte_in lo hi s i \<longleftrightarrow> i < length s \<and> lo \<le> of_char (s ! i) \<and> of_char (s ! i) \<le> hi"

definition rune_length :: "string \<Rightarrow> nat" where
  "rune_length s =
     (if byte_in 0 0x7F s 0 then 1
      else if byte_in 0xC2 0xDF s 0 \<and> byte_in 0x80 0xBF s 1 then 2
      else if byte_in 0xE0 0xE0 s 0 \<and> byte_in 0xA0 0xBF s 1 \<and> byte_in 0x80 0xBF s 2 then 3
      else if (byte_in 0xE1 0xEC s 0 \<or> byte_in 0xEE 0xEF s 0) \<and> byte_in 0x80 0xBF s 1 \<and> byte_in 0x80 0xBF s 2 then 3
      else if byte_in 0xED 0xED s 0 \<and> byte_in 0x80 0x9F s 1 \<and> byte_in 0x80 0xBF s 2 then 3
      else if byte_in 0xF0 0xF0 s 0 \<and> byte_in 0x90 0xBF s 1 \<and> byte_in 0x80 0xBF s 2 \<and> byte_in 0x80 0xBF s 3 then 4
      else if byte_in 0xF1 0xF3 s 0 \<and> byte_in 0x80 0xBF s 1 \<and> byte_in 0x80 0xBF s 2 \<and> byte_in 0x80 0xBF s 3 then 4
      else if byte_in 0xF4 0xF4 s 0 \<and> byte_in 0x80 0x8F s 1 \<and> byte_in 0x80 0xBF s 2 \<and> byte_in 0x80 0xBF s 3 then 4
      else 0)"

text \<open>
  \<open>[]rune(s)\<close>, each rune as its UTF-8 encoding; a byte that begins no valid encoding becomes
  U+FFFD. Converting back concatenates the encodings.
\<close>

definition replacement_rune :: string where
  "replacement_rune = [CHR 0xEF, CHR 0xBF, CHR 0xBD]"

fun runes_from :: "nat \<Rightarrow> string \<Rightarrow> string \<Rightarrow> string list" where
  "runes_from skip acc [] = []"
| "runes_from (Suc 0) acc (b # s) = rev (b # acc) # runes_from 0 [] s"
| "runes_from (Suc (Suc k)) acc (b # s) = runes_from (Suc k) (b # acc) s"
| "runes_from 0 acc (b # s) =
     (case rune_length (b # s) of
        0 \<Rightarrow> replacement_rune # runes_from 0 [] s
      | Suc 0 \<Rightarrow> [b] # runes_from 0 [] s
      | Suc (Suc k) \<Rightarrow> runes_from (Suc k) [b] s)"

definition runes :: "string \<Rightarrow> string list" where
  "runes s = runes_from 0 [] s"

subsection \<open>Facts about runes\<close>

text \<open>An encoding: a non-empty string that is one valid rune.\<close>

definition is_rune :: "string \<Rightarrow> bool" where
  "is_rune r \<longleftrightarrow> r \<noteq> [] \<and> rune_length r = length r"

lemma rune_length_cases:
  "rune_length s = 0 \<or> rune_length s = 1 \<and> byte_in 0 0x7F s 0 \<or>
   rune_length s = 2 \<and> byte_in 0xC2 0xDF s 0 \<and> byte_in 0x80 0xBF s 1 \<or>
   rune_length s = 3 \<and> byte_in 0xE0 0xEF s 0 \<and> byte_in 0x80 0xBF s 1 \<and> byte_in 0x80 0xBF s 2 \<or>
   rune_length s = 4 \<and> byte_in 0xF0 0xF4 s 0 \<and> byte_in 0x80 0xBF s 1 \<and> byte_in 0x80 0xBF s 2 \<and> byte_in 0x80 0xBF s 3"
  (is "?goal")
proof -
  have e: "byte_in 0xE0 0xE0 s 0 \<longrightarrow> byte_in 0xE0 0xEF s 0" "byte_in 0xE1 0xEC s 0 \<longrightarrow> byte_in 0xE0 0xEF s 0"
    "byte_in 0xEE 0xEF s 0 \<longrightarrow> byte_in 0xE0 0xEF s 0" "byte_in 0xED 0xED s 0 \<longrightarrow> byte_in 0xE0 0xEF s 0"
    "byte_in 0xF0 0xF0 s 0 \<longrightarrow> byte_in 0xF0 0xF4 s 0" "byte_in 0xF1 0xF3 s 0 \<longrightarrow> byte_in 0xF0 0xF4 s 0"
    "byte_in 0xF4 0xF4 s 0 \<longrightarrow> byte_in 0xF0 0xF4 s 0"
    "byte_in 0xA0 0xBF s 1 \<longrightarrow> byte_in 0x80 0xBF s 1" "byte_in 0x80 0x9F s 1 \<longrightarrow> byte_in 0x80 0xBF s 1"
    "byte_in 0x90 0xBF s 1 \<longrightarrow> byte_in 0x80 0xBF s 1" "byte_in 0x80 0x8F s 1 \<longrightarrow> byte_in 0x80 0xBF s 1"
    by (auto simp: byte_in_def)
  show ?goal
    unfolding rune_length_def using e by (simp del: One_nat_def split: if_split) satx
qed

lemma byte_in_length: "byte_in lo hi s i \<Longrightarrow> i < length s"
  by (simp add: byte_in_def)

lemma rune_length_le: "rune_length s \<le> length s"
  using rune_length_cases [of s] by (auto dest!: byte_in_length simp: Suc_le_eq)

text \<open>The first bytes of an encoding decide; what follows it does not matter.\<close>

lemma rune_length_prefix:
  assumes "rune_length s = n" "n > 0" "\<And>i. i < n \<Longrightarrow> i < length t \<and> t ! i = s ! i"
  shows "rune_length t = n"
proof -
  have same: "byte_in lo hi t i = byte_in lo hi s i" if "i < n" for lo hi i
    using assms that rune_length_le [of s] by (auto simp: byte_in_def)
  have off: "\<And>lo hi. hi < lo' \<or> hi' < lo \<Longrightarrow> \<not> byte_in lo hi s 0" if "byte_in lo' hi' s 0" for lo' hi'
    using that by (auto simp: byte_in_def)
  from rune_length_cases [of s] assms(1,2) consider
      "n = 1" "byte_in 0 0x7F s 0" | "n = 2" "byte_in 0xC2 0xDF s 0" "byte_in 0x80 0xBF s 1"
    | "n = 3" "byte_in 0xE0 0xEF s 0" | "n = 4" "byte_in 0xF0 0xF4 s 0" by auto
  then show ?thesis
  proof cases
    case 1
    then show ?thesis using same [of 0] by (simp add: rune_length_def)
  next
    case 2
    then show ?thesis using same [of 0] same [of 1] off [OF 2(2)] by (simp add: rune_length_def)
  next
    case 3
    then show ?thesis using assms(1) same [of 0] same [of 1] same [of 2] off [OF 3(2)]
      by (auto simp add: rune_length_def simp del: One_nat_def split: if_splits)
  next
    case 4
    then show ?thesis using assms(1) same [of 0] same [of 1] same [of 2] same [of 3] off [OF 4(2)]
      by (simp add: rune_length_def del: One_nat_def split: if_splits)
  qed
qed

lemma rune_length_take: "rune_length s = Suc k \<Longrightarrow> is_rune (take (Suc k) s)"
  using rune_length_prefix [of s "Suc k" "take (Suc k) s"] rune_length_le [of s] by (auto simp: is_rune_def)

lemma rune_length_append: "is_rune r \<Longrightarrow> rune_length (r @ t) = length r"
  using rune_length_prefix [of r "length r" "r @ t"] by (simp add: is_rune_def nth_append)

lemma is_rune_replacement: "is_rune replacement_rune"
  by (simp add: is_rune_def replacement_rune_def rune_length_def byte_in_def)

text \<open>Reading on within an encoding.\<close>

lemma runes_from_rest:
  "length s \<ge> Suc k \<Longrightarrow> runes_from (Suc k) acc s = (rev acc @ take (Suc k) s) # runes_from 0 [] (drop (Suc k) s)"
proof (induction k arbitrary: acc s)
  case 0
  then show ?case by (cases s) auto
next
  case (Suc k)
  then obtain b s' where "s = b # s'" by (cases s) auto
  then show ?case using Suc.IH [of s' "b # acc"] Suc.prems by auto
qed

lemma runes_Nil [simp]: "runes [] = []"
  by (simp add: runes_def)

lemma runes_invalid: "rune_length (b # s) = 0 \<Longrightarrow> runes (b # s) = replacement_rune # runes s"
  by (simp add: runes_def)

lemma runes_valid:
  assumes "rune_length s = Suc k"
  shows "runes s = take (Suc k) s # runes (drop (Suc k) s)"
proof -
  obtain b s' where s: "s = b # s'" using assms rune_length_le [of s] by (cases s) auto
  show ?thesis
  proof (cases k)
    case 0
    then show ?thesis using assms s by (simp add: runes_def)
  next
    case (Suc k')
    then have "length s' \<ge> Suc k'" using rune_length_le [of s] assms s by simp
    then show ?thesis using runes_from_rest [of k' s' "[b]"] assms s Suc by (simp add: runes_def)
  qed
qed

lemma runes_append_rune: "is_rune r \<Longrightarrow> runes (r @ t) = r # runes t"
  using runes_valid [of "r @ t" "length r - 1"] rune_length_append [of r t]
  by (cases r) (auto simp: is_rune_def)

lemma runes_concat: "list_all is_rune rs \<Longrightarrow> runes (concat rs) = rs"
  by (induction rs) (auto simp: runes_append_rune)

text \<open>An induction that reads a string rune by rune.\<close>

lemma runes_induct [case_names Nil Invalid Valid]:
  assumes "P []" "\<And>b s. rune_length (b # s) = 0 \<Longrightarrow> P s \<Longrightarrow> P (b # s)"
    and "\<And>s k. rune_length s = Suc k \<Longrightarrow> P (drop (Suc k) s) \<Longrightarrow> P s"
  shows "P s"
proof (induction "length s" arbitrary: s rule: less_induct)
  case less
  show ?case
  proof (cases "rune_length s")
    case 0
    show ?thesis
    proof (cases s)
      case (Cons b s')
      then show ?thesis using assms(2) [of b s'] 0 less [of s'] by simp
    qed (simp add: assms(1))
  next
    case (Suc k)
    then have "s \<noteq> []" using rune_length_le [of s] by auto
    then show ?thesis using assms(3) [OF Suc] less [of "drop (Suc k) s"] by simp
  qed
qed

lemma runes_are_runes: "list_all is_rune (runes s)"
  by (induction s rule: runes_induct)
    (simp_all add: runes_invalid runes_valid is_rune_replacement rune_length_take)

lemma runes_idem [simp]: "runes (concat (runes s)) = runes s"
  by (rule runes_concat [OF runes_are_runes])

lemma runes_empty: "runes s = [] \<longleftrightarrow> s = []"
proof (induction s rule: runes_induct)
  case (Valid s k)
  then show ?case using rune_length_le [of s] by (auto simp: runes_valid)
qed (simp_all add: runes_invalid)

lemma runes_length_le: "length (runes s) \<le> length s"
proof (induction s rule: runes_induct)
  case (Valid s k)
  then show ?case using rune_length_le [of s] by (auto simp: runes_valid)
qed (simp_all add: runes_invalid)


text \<open>A string of valid encodings alone.\<close>

definition valid_utf8 :: "string \<Rightarrow> bool" where
  "valid_utf8 s \<longleftrightarrow> concat (runes s) = s"

lemma valid_utf8_ascii: "list_all (\<lambda>c. (of_char c :: nat) < 128) s \<Longrightarrow> valid_utf8 s"
proof (induction s)
  case (Cons c s)
  then have "rune_length (c # s) = Suc 0" by (simp add: rune_length_def byte_in_def)
  then show ?case using Cons runes_valid [of "c # s" 0] by (simp add: valid_utf8_def)
qed (simp add: valid_utf8_def)

end
