(* ===== verification/Email_Collector.thy ===== *)
theory Email_Collector
  imports Imap_Client Go_Runes
begin

section \<open>Collecting mails\<close>

text \<open>
  \<open>internal/module/collector/email/collector.go\<close>: the configuration of an email source, the
  filters, the items made of messages, and the two cursors (the seen message ids and the last
  seen UID) that a collection writes back into the configuration of the source it was handed.

  A collection may panic, the value \<^const>\<open>None\<close>: when its reader does, and when it writes a
  cursor into a configuration whose JSON text is \<open>null\<close> (an assignment to a nil map).
\<close>

subsection \<open>Configuration\<close>

definition zero_email_config :: email_config where
  "zero_email_config =
     \<lparr>ec_provider = '''', ec_mailbox = '''', ec_host = '''', ec_port = 0, ec_username = '''',
      ec_password = '''', ec_password_env = '''', ec_use_tls = None, ec_from_filter = '''',
      ec_recipient_alias = '''', ec_seen_message_ids = [], ec_last_seen_uid = 0\<rparr>"

fun dec_bool_ptr :: "json \<Rightarrow> bool option \<Rightarrow> bool option option" where
  "dec_bool_ptr JNull old = Some None"
| "dec_bool_ptr (JBool b) old = Some (Some b)"
| "dec_bool_ptr _ old = None"

text \<open>The elements of an array are decoded over those the slice already has.\<close>

fun dec_str_elems :: "json list \<Rightarrow> string list \<Rightarrow> string list option" where
  "dec_str_elems [] old = Some []"
| "dec_str_elems (j # js) old =
     (case dec_str j (case old of [] \<Rightarrow> '''' | s # _ \<Rightarrow> s) of
        None \<Rightarrow> None
      | Some s \<Rightarrow> map_option ((#) s) (dec_str_elems js (tl old)))"

fun dec_str_list :: "json \<Rightarrow> string list \<Rightarrow> string list option" where
  "dec_str_list JNull old = Some []"
| "dec_str_list (JArr js) old = dec_str_elems js old"
| "dec_str_list _ old = None"

definition set_email_field :: "string \<Rightarrow> json \<Rightarrow> email_config \<Rightarrow> email_config option" where
  "set_email_field k v c =
     (if k = ''provider'' then map_option (\<lambda>x. c\<lparr>ec_provider := x\<rparr>) (dec_str v (ec_provider c))
      else if k = ''mailbox'' then map_option (\<lambda>x. c\<lparr>ec_mailbox := x\<rparr>) (dec_str v (ec_mailbox c))
      else if k = ''host'' then map_option (\<lambda>x. c\<lparr>ec_host := x\<rparr>) (dec_str v (ec_host c))
      else if k = ''port'' then map_option (\<lambda>x. c\<lparr>ec_port := x\<rparr>) (dec_int v (ec_port c))
      else if k = ''username'' then map_option (\<lambda>x. c\<lparr>ec_username := x\<rparr>) (dec_str v (ec_username c))
      else if k = ''password'' then map_option (\<lambda>x. c\<lparr>ec_password := x\<rparr>) (dec_str v (ec_password c))
      else if k = ''password_env'' then map_option (\<lambda>x. c\<lparr>ec_password_env := x\<rparr>) (dec_str v (ec_password_env c))
      else if k = ''use_tls'' then map_option (\<lambda>x. c\<lparr>ec_use_tls := x\<rparr>) (dec_bool_ptr v (ec_use_tls c))
      else if k = ''from_filter'' then map_option (\<lambda>x. c\<lparr>ec_from_filter := x\<rparr>) (dec_str v (ec_from_filter c))
      else if k = ''recipient_alias'' then
        map_option (\<lambda>x. c\<lparr>ec_recipient_alias := x\<rparr>) (dec_str v (ec_recipient_alias c))
      else if k = ''seen_message_ids'' then
        map_option (\<lambda>x. c\<lparr>ec_seen_message_ids := x\<rparr>) (dec_str_list v (ec_seen_message_ids c))
      else if k = ''last_seen_uid'' then map_option (\<lambda>x. c\<lparr>ec_last_seen_uid := x\<rparr>) (dec_int v (ec_last_seen_uid c))
      else Some c)"

fun normalize_ids :: "string list \<Rightarrow> string list \<Rightarrow> string list \<Rightarrow> string list" where
  "normalize_ids [] seen normalized = normalized"
| "normalize_ids (raw # ids) seen normalized =
     (let i = trim_space raw in
      if i = '''' \<or> i \<in> set seen then normalize_ids ids seen normalized
      else normalize_ids ids (i # seen) (normalized @ [i]))"

definition normalizeSeenMessageIDs :: "string list \<Rightarrow> string list" where
  "normalizeSeenMessageIDs ids = normalize_ids ids [] []"

definition invalid_config_error :: go_error where
  "invalid_config_error = sentinel_with ErrInvalidEmailConfig ''json: cannot unmarshal''"

definition email_parseConfig :: "go_lib \<Rightarrow> source \<Rightarrow> email_config result" where
  "email_parseConfig lib src =
     (if so_config_json src = NotJson '''' then Inr zero_email_config
      else case unmarshal_struct set_email_field zero_email_config (so_config_json src) of
        None \<Rightarrow> Inl invalid_config_error
      | Some cfg \<Rightarrow>
          if trim_space (ec_password cfg) \<noteq> '''' then Inl (Sentinel ErrInvalidEmailConfig)
          else Inr (cfg\<lparr>ec_provider := trim_space (to_lower (gl_lower lib) (ec_provider cfg)),
                       ec_mailbox := trim_space (ec_mailbox cfg),
                       ec_host := trim_space (ec_host cfg),
                       ec_username := trim_space (ec_username cfg),
                       ec_password := trim_space (ec_password cfg),
                       ec_password_env := trim_space (ec_password_env cfg),
                       ec_from_filter := trim_space (ec_from_filter cfg),
                       ec_recipient_alias := trim_space (ec_recipient_alias cfg),
                       ec_seen_message_ids := normalizeSeenMessageIDs (ec_seen_message_ids cfg),
                       ec_last_seen_uid := (if ec_last_seen_uid cfg < 0 then 0 else ec_last_seen_uid cfg)\<rparr>))"

definition seenMessageIDSet :: "string list \<Rightarrow> string set" where
  "seenMessageIDSet ids = set (filter (\<lambda>i. i \<noteq> '''') (map trim_space ids))"


subsection \<open>The cursors\<close>

text \<open>
  \<open>json.Marshal\<close> replaces every byte of a string that is not part of a valid UTF-8 encoding by
  the encoding of U+FFFD.
\<close>

fun valid_utf8_from :: "nat \<Rightarrow> string \<Rightarrow> string" where
  "valid_utf8_from skip [] = []"
| "valid_utf8_from (Suc k) (b # s) = b # valid_utf8_from k s"
| "valid_utf8_from 0 (b # s) =
     (case rune_length (b # s) of
        0 \<Rightarrow> [CHR 0xEF, CHR 0xBF, CHR 0xBD] @ valid_utf8_from 0 s
      | Suc k \<Rightarrow> b # valid_utf8_from k s)"

definition marshal_string :: "string \<Rightarrow> json" where
  "marshal_string s = JStr (valid_utf8_from 0 s)"

text \<open>
  The configuration as a Go map: an empty one where there is none, \<^const>\<open>None\<close> for the nil map
  that the text \<open>null\<close> gives.
\<close>

definition config_map :: "go_lib \<Rightarrow> payload \<Rightarrow> (string \<times> json) list option result" where
  "config_map lib config =
     (case config of
        NotJson b \<Rightarrow> if b = '''' then Inr (Some []) else Inl invalid_config_error
      | JsonText j \<Rightarrow>
        (case decode_any (gl_number lib) j of
           Some (JObj kvs) \<Rightarrow> Inr (Some kvs)
         | Some JNull \<Rightarrow> Inr None
         | _ \<Rightarrow> Inl invalid_config_error))"

definition map_put :: "string \<Rightarrow> json \<Rightarrow> (string \<times> json) list \<Rightarrow> payload" where
  "map_put k v kvs = JsonText (JObj (map_of_object (kvs @ [(k, v)])))"

definition updateSeenMessageIDs :: "go_lib \<Rightarrow> source \<Rightarrow> string list \<Rightarrow> string list \<Rightarrow> source result option" where
  "updateSeenMessageIDs lib src existing newIDs =
     (case config_map lib (so_config_json src) of
        Inl e \<Rightarrow> Some (Inl e)
      | Inr None \<Rightarrow> None
      | Inr (Some config) \<Rightarrow>
          Some (Inr (src\<lparr>so_config_json := map_put ''seen_message_ids''
            (JArr (map marshal_string (normalizeSeenMessageIDs (existing @ newIDs)))) config\<rparr>)))"

definition updateLastSeenUID :: "go_lib \<Rightarrow> source \<Rightarrow> int \<Rightarrow> source result option" where
  "updateLastSeenUID lib src uid =
     (if uid \<le> 0 then Some (Inr src)
      else case config_map lib (so_config_json src) of
        Inl e \<Rightarrow> Some (Inl e)
      | Inr None \<Rightarrow> None
      | Inr (Some config) \<Rightarrow> Some (Inr (src\<lparr>so_config_json := map_put ''last_seen_uid'' (JNum uid) config\<rparr>)))"


subsection \<open>Items\<close>

definition containsFold :: "go_lib \<Rightarrow> string \<Rightarrow> string \<Rightarrow> bool" where
  "containsFold lib value substr = str_contains (to_lower (gl_lower lib) value) (to_lower (gl_lower lib) substr)"

definition matchesFilters :: "go_lib \<Rightarrow> email_message \<Rightarrow> email_config \<Rightarrow> bool" where
  "matchesFilters lib msg cfg \<longleftrightarrow>
     (if ec_from_filter cfg \<noteq> '''' \<and> \<not> containsFold lib (em_from msg) (ec_from_filter cfg) then False
      else if ec_recipient_alias cfg \<noteq> '''' then
        list_ex (\<lambda>recipient. containsFold lib recipient (ec_recipient_alias cfg)) (em_to msg)
      else True)"

definition email_normalizeOptionalString :: "string \<Rightarrow> string option" where
  "email_normalizeOptionalString value = (let v = trim_space value in if v = '''' then None else Some v)"

text \<open>\<open>crypto/sha256\<close> is the parameter \<open>sha256\<close>.\<close>

definition email_hash_text :: "int \<Rightarrow> string option \<Rightarrow> string \<Rightarrow> string \<Rightarrow> string \<Rightarrow> string" where
  "email_hash_text sourceID externalID title author content =
     ''source:'' @ fmt_int sourceID @ [lf] @
     (case externalID of None \<Rightarrow> '''' | Some i \<Rightarrow> ''external_id:'' @ trim_space i @ [lf]) @
     ''title:'' @ trim_space title @ [lf] @
     ''author:'' @ trim_space author @ [lf] @
     ''content:'' @ normalizeText content @ [lf]"

definition email_computeContentHash ::
  "(string \<Rightarrow> string) \<Rightarrow> int \<Rightarrow> string option \<Rightarrow> string \<Rightarrow> string \<Rightarrow> string \<Rightarrow> string" where
  "email_computeContentHash sha256 sourceID externalID title author content =
     hex_encode (sha256 (email_hash_text sourceID externalID title author content))"

definition email_toCollectedItem :: "(string \<Rightarrow> string) \<Rightarrow> source \<Rightarrow> email_message \<Rightarrow> collected_item option" where
  "email_toCollectedItem sha256 src msg =
     (let title = trim_space (em_subject msg) in
      if title = '''' then None
      else
        (let externalID = email_normalizeOptionalString (em_message_id msg);
             content = trim_space (em_body msg);
             author = trim_space (em_from msg)
         in Some \<lparr>item_user_id = so_user_id src, item_source_id = so_id src, item_source_type = so_type src,
              item_external_id = externalID, item_title = title, item_url = None, item_original_url = None,
              item_author = author, item_summary = '''', item_content = content,
              item_content_hash = email_computeContentHash sha256 (so_id src) externalID title author content,
              item_published_at = em_date msg\<rparr>))"


subsection \<open>A collection\<close>

fun collect_messages ::
  "go_lib \<Rightarrow> (string \<Rightarrow> string) \<Rightarrow> source \<Rightarrow> email_config \<Rightarrow> string set \<Rightarrow> email_message list \<Rightarrow>
     collected_item list \<Rightarrow> string list \<Rightarrow> int \<Rightarrow> collected_item list \<times> string list \<times> int" where
  "collect_messages lib sha256 src cfg seen [] items newIDs lastUID = (items, newIDs, lastUID)"
| "collect_messages lib sha256 src cfg seen (msg # msgs) items newIDs lastUID =
     (let messageID = trim_space (em_message_id msg) in
      if messageID \<noteq> '''' \<and> messageID \<in> seen then
        collect_messages lib sha256 src cfg seen msgs items newIDs lastUID
      else if \<not> matchesFilters lib msg cfg then
        collect_messages lib sha256 src cfg seen msgs items newIDs lastUID
      else case email_toCollectedItem sha256 src msg of
        None \<Rightarrow> collect_messages lib sha256 src cfg seen msgs items newIDs lastUID
      | Some item \<Rightarrow>
          collect_messages lib sha256 src cfg seen msgs (items @ [item])
            (if messageID \<noteq> '''' then newIDs @ [messageID] else newIDs)
            (if em_uid msg > lastUID then em_uid msg else lastUID))"

definition store_seen_ids ::
  "go_lib \<Rightarrow> email_config \<Rightarrow> string list \<Rightarrow> source \<Rightarrow> (source \<times> unit result) option" where
  "store_seen_ids lib cfg newIDs src =
     (if length newIDs > 0 then
        (case updateSeenMessageIDs lib src (ec_seen_message_ids cfg) newIDs of
           None \<Rightarrow> None
         | Some (Inl e) \<Rightarrow> Some (src, Inl e)
         | Some (Inr src') \<Rightarrow> Some (src', Inr ()))
      else Some (src, Inr ()))"

definition store_last_uid :: "go_lib \<Rightarrow> email_config \<Rightarrow> int \<Rightarrow> source \<Rightarrow> (source \<times> unit result) option" where
  "store_last_uid lib cfg lastUID src =
     (if lastUID > ec_last_seen_uid cfg then
        (case updateLastSeenUID lib src lastUID of
           None \<Rightarrow> None
         | Some (Inl e) \<Rightarrow> Some (src, Inl e)
         | Some (Inr src') \<Rightarrow> Some (src', Inr ()))
      else Some (src, Inr ()))"

definition email_Collect ::
  "go_lib \<Rightarrow> (string \<Rightarrow> string) \<Rightarrow> mailbox_reader \<Rightarrow> source \<Rightarrow> (source \<times> collected_item list result) option" where
  "email_Collect lib sha256 reader src =
     (case email_parseConfig lib src of
        Inl e \<Rightarrow> Some (src, Inl e)
      | Inr cfg \<Rightarrow>
        (case reader cfg of
           None \<Rightarrow> None
         | Some (Inl e) \<Rightarrow> Some (src, Inl (sentinel_with ErrMailboxReadFailed (error_text e)))
         | Some (Inr messages) \<Rightarrow>
           (case collect_messages lib sha256 src cfg (seenMessageIDSet (ec_seen_message_ids cfg)) messages [] []
                   (ec_last_seen_uid cfg) of
              (items, newIDs, lastUID) \<Rightarrow>
                (case store_seen_ids lib cfg newIDs src of
                   None \<Rightarrow> None
                 | Some (src1, Inl e) \<Rightarrow> Some (src1, Inl e)
                 | Some (src1, Inr _) \<Rightarrow>
                   (case store_last_uid lib cfg lastUID src1 of
                      None \<Rightarrow> None
                    | Some (src2, Inl e) \<Rightarrow> Some (src2, Inl e)
                    | Some (src2, Inr _) \<Rightarrow> Some (src2, Inr items))))))"

definition email_Type :: string where "email_Type = TypeEmail"


subsection \<open>The configured reader\<close>

definition emptyMailbox_Read :: mailbox_reader where
  "emptyMailbox_Read cfg = Some (Inr [])"

record configured_mailbox_reader =
  cm_directory :: mailbox_reader
  cm_imap :: mailbox_reader
  cm_empty :: mailbox_reader

definition NewConfiguredMailboxReader :: "mailbox_reader \<Rightarrow> mailbox_reader \<Rightarrow> configured_mailbox_reader" where
  "NewConfiguredMailboxReader directory imap =
     \<lparr>cm_directory = directory, cm_imap = imap, cm_empty = emptyMailbox_Read\<rparr>"

definition ConfiguredMailbox_Read :: "configured_mailbox_reader \<Rightarrow> mailbox_reader" where
  "ConfiguredMailbox_Read r cfg =
     (if ec_provider cfg = '''' \<or> ec_provider cfg = ''empty'' then cm_empty r cfg
      else if ec_provider cfg = ''directory'' then cm_directory r cfg
      else if ec_provider cfg = ''imap'' then cm_imap r cfg
      else Some (Inl (Sentinel ErrInvalidEmailConfig)))"

text \<open>The collector is its reader.\<close>

definition WithMailboxReader :: "mailbox_reader option \<Rightarrow> mailbox_reader \<Rightarrow> mailbox_reader" where
  "WithMailboxReader reader c = (case reader of None \<Rightarrow> c | Some r \<Rightarrow> r)"

definition email_NewCollector ::
  "mailbox_reader \<Rightarrow> mailbox_reader \<Rightarrow> (mailbox_reader \<Rightarrow> mailbox_reader) list \<Rightarrow> mailbox_reader" where
  "email_NewCollector directory imap opts =
     fold (\<lambda>opt. opt) opts (ConfiguredMailbox_Read (NewConfiguredMailboxReader directory imap))"

end
