(* ===== verification/Rss_Collector.thy ===== *)
theory Rss_Collector
  imports Email_Collector
begin

section \<open>Collecting feeds\<close>

text \<open>
  \<open>internal/module/collector/rss/collector.go\<close>: the guarded fetching of a feed over HTTP with its
  redirects, the limit on its size, and the items made of its entries. The feed parser
  (\<open>gofeed\<close>), the transport and the resolution of a \<open>Location\<close> against a URL are outside.
\<close>

subsection \<open>Fetching\<close>

record feed_response =
  hr_status :: int
  hr_location :: string
  hr_body :: reader

text \<open>
  The world a fetch runs in: \<open>he_new_request\<close> is the error of \<open>http.NewRequest\<close> on a URL,
  \<open>he_round_trip k url\<close> the outcome of the k-th request of the fetch over the guarded transport,
  \<open>he_resolve base loc\<close> the URL a \<open>Location\<close> names, if it parses.
\<close>

record http_env =
  he_lib :: go_lib
  he_addr_text :: "ip_addr \<Rightarrow> string"
  he_new_request :: "string \<Rightarrow> go_error option"
  he_round_trip :: "nat \<Rightarrow> string \<Rightarrow> feed_response result"
  he_resolve :: "string \<Rightarrow> string \<Rightarrow> string option"

text \<open>The answers of a redirect policy: follow, stop at the last response, or fail.\<close>

datatype redirect_decision = FollowRedirect | UseLastResponse | RefuseRedirect go_error

definition safeFeedRedirect :: "http_env \<Rightarrow> string \<Rightarrow> nat \<Rightarrow> redirect_decision" where
  "safeFeedRedirect env url via =
     (case ValidateHTTPURL (he_lib env) (he_addr_text env) url of
        Inl e \<Rightarrow> RefuseRedirect e
      | Inr _ \<Rightarrow> if via \<ge> 10 then UseLastResponse else FollowRedirect)"

definition is_redirect :: "feed_response \<Rightarrow> bool" where
  "is_redirect resp \<longleftrightarrow> hr_status resp \<in> {301, 302, 303, 307, 308} \<and> hr_location resp \<noteq> ''''"

text \<open>
  \<open>http.Client.Do\<close> with this policy: the URLs requested and the outcome. \<open>via\<close> is the number of
  requests made before.
\<close>

function client_Do :: "http_env \<Rightarrow> nat \<Rightarrow> string \<Rightarrow> string list \<times> feed_response result" where
  "client_Do env via url =
     (case he_round_trip env via url of
        Inl e \<Rightarrow> ([url], Inl e)
      | Inr resp \<Rightarrow>
          if \<not> is_redirect resp then ([url], Inr resp)
          else case he_resolve env url (hr_location resp) of
            None \<Rightarrow> ([url], Inl (Plain ''failed to parse Location header''))
          | Some next_url \<Rightarrow>
              (case safeFeedRedirect env next_url (Suc via) of
                 RefuseRedirect e \<Rightarrow> ([url], Inl e)
               | UseLastResponse \<Rightarrow> ([url], Inr resp)
               | FollowRedirect \<Rightarrow>
                   (case client_Do env (Suc via) next_url of (urls, r) \<Rightarrow> (url # urls, r))))"
  by pat_completeness auto
termination
  by (relation "measure (\<lambda>(_, via, _). 10 - via)")
    (auto simp: safeFeedRedirect_def split: sum.splits if_splits)

declare client_Do.simps [simp del]

type_synonym fetcher = "string \<Rightarrow> string list \<times> reader result"

definition HTTPFetcher_Fetch :: "http_env \<Rightarrow> fetcher" where
  "HTTPFetcher_Fetch env feedURL =
     (case ValidateHTTPURL (he_lib env) (he_addr_text env) feedURL of
        Inl e \<Rightarrow> ([], Inl (Wrapf ''unsafe feed url: '' e ''''))
      | Inr _ \<Rightarrow>
        (case he_new_request env feedURL of
           Some e \<Rightarrow> ([], Inl (Wrapf ''create feed request: '' e ''''))
         | None \<Rightarrow>
           (case client_Do env 0 feedURL of
              (urls, Inl e) \<Rightarrow> (urls, Inl (Wrapf ''fetch feed: '' e ''''))
            | (urls, Inr resp) \<Rightarrow>
                if hr_status resp < 200 \<or> hr_status resp \<ge> 300 then
                  (urls, Inl (Plain (''unexpected status code: '' @ fmt_int (hr_status resp))))
                else (urls, Inr (hr_body resp)))))"


subsection \<open>Feeds\<close>

record feed_item =
  fi_title :: string
  fi_link :: string
  fi_guid :: string
  fi_content :: string
  fi_description :: string
  fi_author :: "string option"
  fi_published :: "time option"

text \<open>A feed is its list of entries, which may hold nil pointers.\<close>

type_synonym feed_parser = "reader \<Rightarrow> feed_item option list result"

definition defaultMaxFeedSize :: int where "defaultMaxFeedSize = 10 * 2 ^ 20"

record rss_collector =
  rc_parser :: feed_parser
  rc_fetcher :: fetcher
  rc_maxFeedSize :: int

type_synonym rss_option = "rss_collector \<Rightarrow> rss_collector"

definition WithFetcher :: "fetcher option \<Rightarrow> rss_option" where
  "WithFetcher fetcher c = (case fetcher of None \<Rightarrow> c | Some f \<Rightarrow> c\<lparr>rc_fetcher := f\<rparr>)"

definition WithParser :: "feed_parser option \<Rightarrow> rss_option" where
  "WithParser parser c = (case parser of None \<Rightarrow> c | Some p \<Rightarrow> c\<lparr>rc_parser := p\<rparr>)"

definition WithMaxFeedSize :: "int \<Rightarrow> rss_option" where
  "WithMaxFeedSize maxFeedSize c = (if maxFeedSize > 0 then c\<lparr>rc_maxFeedSize := maxFeedSize\<rparr> else c)"

definition rss_NewCollector :: "http_env \<Rightarrow> feed_parser \<Rightarrow> rss_option list \<Rightarrow> rss_collector" where
  "rss_NewCollector env gofeed opts =
     fold (\<lambda>opt. opt) opts
       \<lparr>rc_parser = gofeed, rc_fetcher = HTTPFetcher_Fetch env, rc_maxFeedSize = defaultMaxFeedSize\<rparr>"

definition rss_Type :: string where "rss_Type = TypeRSS"

text \<open>\<open>io.LimitReader\<close>: after \<open>n\<close> bytes the end, without a look at the reader below.\<close>

definition limit_reader :: "int \<Rightarrow> reader \<Rightarrow> reader" where
  "limit_reader n r =
     (if int (length (fst r)) \<ge> n then (take (nat n) (fst r), None) else r)"

fun firstNonEmpty :: "string list \<Rightarrow> string" where
  "firstNonEmpty [] = ''''"
| "firstNonEmpty (v # vs) = (let value = trim_space v in if value \<noteq> '''' then value else firstNonEmpty vs)"

definition normalizeExternalID :: "feed_item \<Rightarrow> string option" where
  "normalizeExternalID item =
     find (\<lambda>value. value \<noteq> '''') (map trim_space [fi_guid item, fi_link item])"

definition authorName :: "feed_item \<Rightarrow> string" where
  "authorName item = (case fi_author item of None \<Rightarrow> '''' | Some name \<Rightarrow> trim_space name)"

definition rss_hash_text :: "int \<Rightarrow> string option \<Rightarrow> string \<Rightarrow> string option \<Rightarrow> string \<Rightarrow> string" where
  "rss_hash_text sourceID externalID title url content =
     ''source:'' @ fmt_int sourceID @ [lf] @
     (case externalID of None \<Rightarrow> '''' | Some i \<Rightarrow> ''external_id:'' @ trim_space i @ [lf]) @
     (case url of None \<Rightarrow> '''' | Some u \<Rightarrow> ''url:'' @ trim_space u @ [lf]) @
     ''title:'' @ trim_space title @ [lf] @
     ''content:'' @ normalizeText content @ [lf]"

definition rss_computeContentHash ::
  "(string \<Rightarrow> string) \<Rightarrow> int \<Rightarrow> string option \<Rightarrow> string \<Rightarrow> string option \<Rightarrow> string \<Rightarrow> string" where
  "rss_computeContentHash sha256 sourceID externalID title url content =
     hex_encode (sha256 (rss_hash_text sourceID externalID title url content))"

definition rss_toCollectedItem ::
  "(string \<Rightarrow> string) \<Rightarrow> source \<Rightarrow> feed_item option \<Rightarrow> collected_item option" where
  "rss_toCollectedItem sha256 src entry =
     (case entry of
        None \<Rightarrow> None
      | Some item \<Rightarrow>
        (let title = trim_space (fi_title item) in
         if title = '''' then None
         else
           (let link = email_normalizeOptionalString (fi_link item);
                content = firstNonEmpty [fi_content item, fi_description item];
                summary = trim_space (fi_description item);
                externalID = normalizeExternalID item
            in Some \<lparr>item_user_id = so_user_id src, item_source_id = so_id src, item_source_type = so_type src,
                 item_external_id = externalID, item_title = title, item_url = link, item_original_url = link,
                 item_author = authorName item, item_summary = summary, item_content = trim_space content,
                 item_content_hash = rss_computeContentHash sha256 (so_id src) externalID title link content,
                 item_published_at = fi_published item\<rparr>)))"

fun collect_entries :: "(string \<Rightarrow> string) \<Rightarrow> source \<Rightarrow> feed_item option list \<Rightarrow> collected_item list" where
  "collect_entries sha256 src [] = []"
| "collect_entries sha256 src (entry # entries) =
     (case rss_toCollectedItem sha256 src entry of
        None \<Rightarrow> collect_entries sha256 src entries
      | Some item \<Rightarrow> item # collect_entries sha256 src entries)"

definition rss_Collect ::
  "(string \<Rightarrow> string) \<Rightarrow> rss_collector \<Rightarrow> source \<Rightarrow> string list \<times> collected_item list result" where
  "rss_Collect sha256 c src =
     (case so_url src of
        None \<Rightarrow> ([], Inl (Sentinel ErrSourceURLRequired))
      | Some raw \<Rightarrow>
        (let feedURL = trim_space raw in
         if feedURL = '''' then ([], Inl (Sentinel ErrSourceURLRequired))
         else case rc_fetcher c feedURL of
           (urls, Inl e) \<Rightarrow> (urls, Inl (sentinel_with ErrFeedFetchFailed (error_text e)))
         | (urls, Inr body) \<Rightarrow>
             (urls, case rc_parser c (limit_reader (rc_maxFeedSize c) body) of
                      Inl e \<Rightarrow> Inl (sentinel_with ErrFeedParseFailed (error_text e))
                    | Inr entries \<Rightarrow> Inr (collect_entries sha256 src entries))))"

subsection \<open>Properties\<close>

definition url_ok :: "http_env \<Rightarrow> string \<Rightarrow> bool" where
  "url_ok env url \<longleftrightarrow> ValidateHTTPURL (he_lib env) (he_addr_text env) url = Inr ()"

lemma client_Do_guarded:
  "client_Do env via url = (urls, r) \<Longrightarrow> url_ok env url \<Longrightarrow> via < 10 \<Longrightarrow>
     list_all (url_ok env) urls \<and> length urls + via \<le> 10 \<and>
     (\<forall>resp. r = Inr resp \<longrightarrow> (\<exists>k u. k < 10 \<and> u \<in> set urls \<and> he_round_trip env k u = Inr resp))"
proof (induction env via url arbitrary: urls r rule: client_Do.induct)
  case (1 env via url)
  show ?case
  proof (cases "\<exists>resp next_url. he_round_trip env via url = Inr resp \<and> is_redirect resp \<and>
      he_resolve env url (hr_location resp) = Some next_url \<and> safeFeedRedirect env next_url (Suc via) = FollowRedirect")
    case False
    then have "urls = [url]" "\<forall>resp. r = Inr resp \<longrightarrow> he_round_trip env via url = Inr resp"
      using 1(2) by (auto simp: client_Do.simps [of env via url] split: sum.splits option.splits redirect_decision.splits if_splits)
    then show ?thesis using 1(3,4) by auto
  next
    case True
    then obtain resp next_url where h: "he_round_trip env via url = Inr resp" "is_redirect resp"
      "he_resolve env url (hr_location resp) = Some next_url" "safeFeedRedirect env next_url (Suc via) = FollowRedirect"
      by blast
    obtain us r' where rec: "client_Do env (Suc via) next_url = (us, r')" by fastforce
    then have out: "urls = url # us" "r = r'" using 1(2) h by (simp_all add: client_Do.simps [of env via url])
    have ok: "url_ok env next_url" "Suc via < 10"
      using h(4) by (auto simp: safeFeedRedirect_def url_ok_def split: sum.splits if_splits)
    have "list_all (url_ok env) us \<and> length us + Suc via \<le> 10 \<and>
        (\<forall>resp. r' = Inr resp \<longrightarrow> (\<exists>k u. k < 10 \<and> u \<in> set us \<and> he_round_trip env k u = Inr resp))"
      using 1(1) [OF h(1) _ h(3,4) rec ok] h(2) by simp
    then show ?thesis using out 1(3) by auto blast
  qed
qed

text \<open>
  C26. A fetch of a feed ends after at most ten requests, whatever the servers answer, and every URL
  it requests, the redirected ones too, is one the outbound guard accepts.
\<close>

theorem rss_fetch_ends_and_is_guarded:
  assumes "HTTPFetcher_Fetch env feedURL = (urls, r)"
  shows "length urls \<le> 10 \<and> list_all (url_ok env) urls \<and>
    (\<forall>body. r = Inr body \<longrightarrow> (\<exists>k u resp. u \<in> set urls \<and> he_round_trip env k u = Inr resp \<and>
       hr_body resp = body \<and> 200 \<le> hr_status resp \<and> hr_status resp < 300))"
proof (cases "url_ok env feedURL \<and> he_new_request env feedURL = None")
  case False
  then have "urls = []" "isl r"
    using assms by (auto simp: HTTPFetcher_Fetch_def url_ok_def split: sum.splits option.splits)
  then show ?thesis by auto
next
  case True
  obtain us r' where run: "client_Do env 0 feedURL = (us, r')" by fastforce
  have safe: "list_all (url_ok env) us \<and> length us + 0 \<le> 10 \<and>
     (\<forall>resp. r' = Inr resp \<longrightarrow> (\<exists>k u. k < 10 \<and> u \<in> set us \<and> he_round_trip env k u = Inr resp))"
    using client_Do_guarded [OF run] True by simp
  have "urls = us" using assms True run
    by (auto simp: HTTPFetcher_Fetch_def url_ok_def split: sum.splits if_splits)
  moreover have "\<exists>resp. r' = Inr resp \<and> hr_body resp = body \<and> 200 \<le> hr_status resp \<and> hr_status resp < 300"
    if "r = Inr body" for body
    using assms True run that by (auto simp: HTTPFetcher_Fetch_def url_ok_def split: sum.splits if_splits)
  ultimately show ?thesis using safe by fastforce
qed

definition sample_http_env :: http_env where
  "sample_http_env =
     \<lparr>he_lib = sample_lib\<lparr>gl_parse_uri := \<lambda>s. Some \<lparr>pu_scheme = ''https'', pu_has_user = False, pu_hostname = ''a.example''\<rparr>\<rparr>,
      he_addr_text = (\<lambda>_. ''''), he_new_request = (\<lambda>_. None),
      he_round_trip = (\<lambda>k url. Inr (if k = 0 then \<lparr>hr_status = 302, hr_location = ''b'', hr_body = ('''', None)\<rparr>
                                    else \<lparr>hr_status = 200, hr_location = '''', hr_body = (''feed'', None)\<rparr>)),
      he_resolve = (\<lambda>base loc. Some loc)\<rparr>"

lemma sample_url_ok: "url_ok sample_http_env url"
  by (simp add: url_ok_def sample_http_env_def ValidateHTTPURL_def ValidateHost_def normalizeHost_def trim_suffix_def
      has_suffix_def has_prefix_def trim_space_visible visible_def trim_set_def to_lower_def ascii_only_def
      lower_byte_def sample_lib_def)

lemma sample_fetch: "HTTPFetcher_Fetch sample_http_env ''a'' = ([''a'', ''b''], Inr (''feed'', None))"
proof -
  have guard: "ValidateHTTPURL (he_lib sample_http_env) (he_addr_text sample_http_env) url = Inr ()" for url
    using sample_url_ok by (simp add: url_ok_def)
  let ?last = "\<lparr>hr_status = 200, hr_location = '''', hr_body = (''feed'', None)\<rparr>"
  have env: "he_round_trip sample_http_env 0 url = Inr \<lparr>hr_status = 302, hr_location = ''b'', hr_body = ('''', None)\<rparr>"
    "he_round_trip sample_http_env (Suc 0) url = Inr ?last" "he_resolve sample_http_env base loc = Some loc" for url base loc
    by (simp_all add: sample_http_env_def)
  have "client_Do sample_http_env (Suc 0) ''b'' = ([''b''], Inr ?last)"
    by (subst client_Do.simps) (simp add: env is_redirect_def)
  then have "client_Do sample_http_env 0 ''a'' = ([''a'', ''b''], Inr ?last)"
    by (subst client_Do.simps) (simp add: env is_redirect_def safeFeedRedirect_def guard)
  then show ?thesis by (simp add: HTTPFetcher_Fetch_def guard) (simp add: sample_http_env_def)
qed

theorem rss_fetch_ends_and_is_guarded_witness:
  "\<exists>urls. HTTPFetcher_Fetch sample_http_env ''a'' = (urls, Inr (''feed'', None)) \<and> length urls \<le> 10 \<and> length urls = 2"
  using rss_fetch_ends_and_is_guarded [OF sample_fetch] sample_fetch by auto

lemma collect_entries_reference:
  "collect_entries sha256 src entries = List.map_filter (rss_toCollectedItem sha256 src) entries"
  by (induction entries) (auto simp: List.map_filter_def split: option.split)

lemma length_limit_reader: "length (fst (limit_reader n r)) \<le> nat n"
  by (auto simp: limit_reader_def)

text \<open>
  A successful collection of a feed yields one item for every entry that has a title, in the order of
  the feed, each belonging to the source and its user, identified by its GUID or else its link;
  the parser was given at most the configured number of bytes of the answer. The source is not
  changed.
\<close>

theorem rss_collects_titled_entries:
  assumes "rss_Collect sha256 c src = (urls, Inr items)"
  shows "\<exists>raw body entries. so_url src = Some raw \<and> rc_fetcher c (trim_space raw) = (urls, Inr body) \<and>
    rc_parser c (limit_reader (rc_maxFeedSize c) body) = Inr entries \<and>
    length (fst (limit_reader (rc_maxFeedSize c) body)) \<le> nat (rc_maxFeedSize c) \<and>
    items = List.map_filter (rss_toCollectedItem sha256 src) entries \<and>
    length items = length (filter (\<lambda>e. e \<noteq> None \<and> trim_space (fi_title (the e)) \<noteq> '''') entries) \<and>
    list_all (\<lambda>item. item_user_id item = so_user_id src \<and> item_source_id item = so_id src \<and>
      item_source_type item = so_type src \<and> item_title item \<noteq> '''' \<and>
      (item_external_id item = None \<longrightarrow> item_url item = None)) items"
proof -
  obtain raw where raw: "so_url src = Some raw" using assms by (cases "so_url src") (auto simp: rss_Collect_def)
  obtain us r where f: "rc_fetcher c (trim_space raw) = (us, r)" by fastforce
  obtain body where body: "us = urls" "r = Inr body"
    using assms raw f by (cases r) (auto simp: rss_Collect_def Let_def split: if_splits)
  obtain entries where e: "rc_parser c (limit_reader (rc_maxFeedSize c) body) = Inr entries"
    "items = collect_entries sha256 src entries"
    using assms raw f body by (auto simp: rss_Collect_def Let_def split: if_splits sum.splits)
  have "length (collect_entries sha256 src es) =
      length (filter (\<lambda>e. e \<noteq> None \<and> trim_space (fi_title (the e)) \<noteq> '''') es)" for es
    by (induction es) (auto simp: rss_toCollectedItem_def Let_def split: option.splits)
  moreover have "list_all (\<lambda>item. item_user_id item = so_user_id src \<and> item_source_id item = so_id src \<and>
      item_source_type item = so_type src \<and> item_title item \<noteq> '''' \<and>
      (item_external_id item = None \<longrightarrow> item_url item = None)) (collect_entries sha256 src es)" for es
    by (induction es) (auto simp: rss_toCollectedItem_def Let_def normalizeExternalID_def email_normalizeOptionalString_def
        split: option.splits if_splits)
  ultimately show ?thesis
    using raw f body e by (intro exI conjI) (simp_all add: collect_entries_reference length_limit_reader)
qed

definition sample_feed_source :: source where
  "sample_feed_source =
     \<lparr>so_id = 11, so_user_id = 1, so_name = ''feed'', so_type = TypeRSS, so_url = Some ''a'',
      so_config_json = JsonText (JObj []), so_is_active = True, so_last_fetched_at = None, so_last_fetch_status = '''',
      so_last_fetch_message = '''', so_created_at = 0, so_updated_at = 0, so_deleted_at = None\<rparr>"

definition sample_entry :: feed_item where
  "sample_entry =
     \<lparr>fi_title = ''T'', fi_link = ''l'', fi_guid = '''', fi_content = '''', fi_description = ''d'', fi_author = None,
      fi_published = None\<rparr>"

definition sample_rss_collector :: rss_collector where
  "sample_rss_collector = rss_NewCollector sample_http_env (\<lambda>_. Inr [None, Some sample_entry]) [WithMaxFeedSize 3]"

theorem rss_collects_titled_entries_witness:
  "\<exists>urls items. rss_Collect id sample_rss_collector sample_feed_source = (urls, Inr items) \<and>
     map item_title items = [''T''] \<and> map item_external_id items = [Some ''l''] \<and>
     list_all (\<lambda>item. item_source_id item = 11) items"
proof -
  have t: "trim_space ''a'' = ''a''" "trim_space ''T'' = ''T''" "trim_space ''l'' = ''l''" "trim_space ''d'' = ''d''"
    by (simp_all add: trim_space_visible visible_def)
  have c: "rc_fetcher sample_rss_collector = HTTPFetcher_Fetch sample_http_env"
    "rc_parser sample_rss_collector r = Inr [None, Some sample_entry]" for r
    by (simp_all add: sample_rss_collector_def rss_NewCollector_def WithMaxFeedSize_def)
  obtain items where run: "rss_Collect id sample_rss_collector sample_feed_source = ([''a'', ''b''], Inr items)"
    by (simp add: rss_Collect_def c sample_feed_source_def t sample_fetch Let_def del: collect_entries.simps)
  from rss_collects_titled_entries [OF run] have items:
    "items = List.map_filter (rss_toCollectedItem id sample_feed_source) [None, Some sample_entry]"
    "list_all (\<lambda>item. item_source_id item = so_id sample_feed_source) items"
    by (auto simp: c list_all_iff)
  have "map item_title items = [''T'']" "map item_external_id items = [Some ''l'']"
    unfolding items(1)
    by (simp_all add: List.map_filter_def rss_toCollectedItem_def sample_entry_def t Let_def normalizeExternalID_def)
  with run items(2) show ?thesis by (auto simp: sample_feed_source_def)
qed

end
