(* ===== verification/Source_Redaction.thy ===== *)
theory Source_Redaction
  imports Sources
begin

section \<open>What the answers about sources show\<close>

text \<open>
  Redaction of configurations (\<open>redactConfig\<close> and \<open>redactConfigValue\<close> of
  \<open>internal/module/source/service.go\<close>): no answer shows the value under a sensitive key,
  everything else stays, and redacting twice is redacting once.
\<close>

subsection \<open>Redaction\<close>

text \<open>Positions in a JSON value: steps into objects and arrays.\<close>

datatype json_step = Key string | Idx nat

fun json_at :: "json_step list \<Rightarrow> json \<Rightarrow> json option" where
  "json_at [] v = Some v"
| "json_at (Key k # p) (JObj kvs) = (case map_of kvs k of None \<Rightarrow> None | Some v \<Rightarrow> json_at p v)"
| "json_at (Idx i # p) (JArr xs) = (if i < length xs then json_at p (xs ! i) else None)"
| "json_at (s # p) v = None"

fun plain_step :: "(string \<Rightarrow> string) \<Rightarrow> json_step \<Rightarrow> bool" where
  "plain_step uni (Key k) \<longleftrightarrow> \<not> isSensitiveConfigKey uni k"
| "plain_step uni (Idx i) \<longleftrightarrow> True"

definition hides_secrets :: "(string \<Rightarrow> string) \<Rightarrow> json \<Rightarrow> bool" where
  "hides_secrets uni v \<longleftrightarrow>
     (\<forall>p k x. isSensitiveConfigKey uni k \<and> json_at (p @ [Key k]) v = Some x \<longrightarrow> x = JStr ''[REDACTED]'')"

lemma map_of_map_key: "map_of (map (\<lambda>kv. (fst kv, f (fst kv) (snd kv))) kvs) k = map_option (f k) (map_of kvs k)"
  by (induction kvs) auto

lemma redact_object:
  "map_of (map (\<lambda>kv. (fst kv, if isSensitiveConfigKey uni (fst kv) then JStr ''[REDACTED]''
                              else redactConfigValue uni (snd kv))) kvs) k =
   map_option (\<lambda>v. if isSensitiveConfigKey uni k then JStr ''[REDACTED]'' else redactConfigValue uni v) (map_of kvs k)"
  by (rule map_of_map_key [where f = "\<lambda>k v. if isSensitiveConfigKey uni k then JStr ''[REDACTED]'' else redactConfigValue uni v"])

text \<open>Away from sensitive keys the structure stays what it was.\<close>

lemma redact_keeps:
  "list_all (plain_step uni) p \<Longrightarrow>
     json_at p (redactConfigValue uni v) = map_option (redactConfigValue uni) (json_at p v)"
proof (induction p arbitrary: v)
  case (Cons s p)
  show ?case
  proof (cases s)
    case (Key k)
    then show ?thesis
      using Cons by (cases v) (auto simp: redact_object split: option.split)
  next
    case (Idx i)
    then show ?thesis using Cons by (cases v) auto
  qed
qed simp

lemma json_at_string: "json_at (p @ [s]) (JStr x) = None"
  by (cases "p @ [s]") auto

lemma json_at_snoc:
  "json_at (p @ [Key k]) v = Some x \<Longrightarrow> v = JStr s \<Longrightarrow> False"
  by (simp add: json_at_string)

lemma redact_hides: "hides_secrets uni (redactConfigValue uni v)"
proof -
  have "x = JStr ''[REDACTED]''"
    if "json_at (p @ [Key k]) (redactConfigValue uni v) = Some x" "isSensitiveConfigKey uni k" for p k x v
    using that(1)
  proof (induction p arbitrary: v)
    case Nil
    then show ?case using that(2) by (cases v) (auto simp: redact_object split: option.splits)
  next
    case (Cons s p)
    show ?case
    proof (cases s)
      case (Key k')
      then obtain kvs v' where v: "v = JObj kvs" "map_of kvs k' = Some v'"
        using Cons.prems by (cases v) (auto simp: redact_object split: option.splits)
      show ?thesis
      proof (cases "isSensitiveConfigKey uni k'")
        case True
        then show ?thesis using Cons.prems Key v by (simp add: redact_object json_at_string)
      next
        case False
        then show ?thesis using Cons Key v by (simp add: redact_object)
      qed
    next
      case (Idx i)
      then obtain xs where "v = JArr xs" "i < length xs"
        using Cons.prems by (cases v) (auto split: if_splits)
      then show ?thesis using Cons Idx by simp
    qed
  qed
  then show ?thesis by (auto simp: hides_secrets_def)
qed

lemma hides_empty: "hides_secrets uni (JObj [])"
proof -
  have "json_at (p @ [Key k]) (JObj []) = None" for p k
  proof (cases p)
    case (Cons s p')
    then show ?thesis by (cases s) auto
  qed simp
  then show ?thesis by (simp add: hides_secrets_def)
qed

lemma redactConfig_hides: "\<exists>v. redactConfig lib config = JsonText v \<and> hides_secrets (gl_lower lib) v"
proof (cases "\<exists>v. redactConfig lib config = JsonText (redactConfigValue (gl_lower lib) v)")
  case True
  then show ?thesis using redact_hides by blast
next
  case False
  then have "redactConfig lib config = JsonText (JObj [])"
    by (auto simp: redactConfig_def empty_object_def split: payload.splits option.splits)
  then show ?thesis using hides_empty by simp
qed

definition dto_hides :: "go_lib \<Rightarrow> source_dto \<Rightarrow> bool" where
  "dto_hides lib d \<longleftrightarrow> (\<exists>v. sd_config d = JsonText v \<and> hides_secrets (gl_lower lib) v)"

lemma toDTO_hides: "dto_hides lib (source_toDTO lib s)"
  using redactConfig_hides by (simp add: dto_hides_def source_toDTO_def)

lemma redact_list_hides: "list_all (dto_hides lib) (lx_sources (redactSourceListResponse lib resp))"
  using redactConfig_hides by (simp add: redactSourceListResponse_def list_all_iff dto_hides_def)

lemma fresh_list_dtos:
  "fresh_source_list lib fault q t = Inr resp \<Longrightarrow> list_all (dto_hides lib) (lx_sources resp)"
  by (auto simp: fresh_source_list_def list_all_iff toDTO_hides split: sum.splits)

text \<open>
  C34. No answer of the source service shows a secret: whatever the table and the cache hold
  and whichever statements fail, at every position of every configuration in an answer of
  create, get, update or list (fresh or cached) the value under a sensitive key is the text
  "[REDACTED]".
\<close>

theorem source_answers_hide_secrets:
  "pred_sum (\<lambda>_. True) (dto_hides lib) (snd (SourceService_CreateSource lib f cache fault rf visited now req w)) \<and>
   pred_sum (\<lambda>_. True) (dto_hides lib) (SourceService_GetSource lib fault uid i w) \<and>
   pred_sum (\<lambda>_. True) (dto_hides lib)
     (snd (SourceService_UpdateSource lib f cache ff others uf rf visited now ureq w)) \<and>
   pred_sum (\<lambda>_. True) (\<lambda>resp. list_all (dto_hides lib) (lx_sources resp))
     (snd (SourceService_ListSources lib cache lf rf now q w))"
proof (intro conjI)
  show "pred_sum (\<lambda>_. True) (dto_hides lib) (snd (SourceService_CreateSource lib f cache fault rf visited now req w))"
    by (simp add: SourceService_CreateSource_def toDTO_hides split: sum.split prod.split)
  show "pred_sum (\<lambda>_. True) (dto_hides lib) (SourceService_GetSource lib fault uid i w)"
    by (simp add: SourceService_GetSource_def toDTO_hides split: sum.split)
  show "pred_sum (\<lambda>_. True) (dto_hides lib)
     (snd (SourceService_UpdateSource lib f cache ff others uf rf visited now ureq w))"
    by (simp add: SourceService_UpdateSource_def toDTO_hides split: sum.split prod.split)
  show "pred_sum (\<lambda>_. True) (\<lambda>resp. list_all (dto_hides lib) (lx_sources resp))
     (snd (SourceService_ListSources lib cache lf rf now q w))"
    by (auto simp: SourceService_ListSources_def Let_def redact_list_hides fresh_list_dtos
        split: sum.split option.split)
qed

text \<open>
  The hypothesis on the numbers: what \<open>float64\<close> makes of a number is a number, and reading
  that again changes nothing.
\<close>

definition stable_numbers :: "(json \<Rightarrow> json option) \<Rightarrow> bool" where
  "stable_numbers num \<longleftrightarrow>
     (\<forall>j j'. num j = Some j' \<longrightarrow> ((\<exists>n. j' = JNum n) \<or> (\<exists>s. j' = JFrac s)) \<and> num j' = Some j')"

fun canonical :: "(json \<Rightarrow> json option) \<Rightarrow> json \<Rightarrow> bool" where
  "canonical num (JObj kvs) \<longleftrightarrow> sorted_wrt (<) (map fst kvs) \<and> (\<forall>kv \<in> set kvs. canonical num (snd kv))"
| "canonical num (JArr xs) \<longleftrightarrow> (\<forall>x \<in> set xs. canonical num x)"
| "canonical num (JNum n) \<longleftrightarrow> num (JNum n) = Some (JNum n)"
| "canonical num (JFrac s) \<longleftrightarrow> num (JFrac s) = Some (JFrac s)"
| "canonical num v \<longleftrightarrow> True"

lemma those_map_Some: "those (map f xs) = Some ys \<Longrightarrow> length ys = length xs \<and> (\<forall>i < length xs. f (xs ! i) = Some (ys ! i))"
proof (induction xs arbitrary: ys)
  case (Cons x xs)
  then obtain y zs where y: "f x = Some y" "those (map f xs) = Some zs" "ys = y # zs"
    by (auto split: option.splits)
  then show ?case using Cons.IH [OF y(2)] by (auto simp: nth_Cons split: nat.split)
qed simp

lemma those_map_SomeI: "(\<And>x. x \<in> set xs \<Longrightarrow> f x = Some (g x)) \<Longrightarrow> those (map f xs) = Some (map g xs)"
  by (induction xs) auto

lemma those_set: "those (map f xs) = Some ys \<Longrightarrow> y \<in> set ys \<Longrightarrow> \<exists>x \<in> set xs. f x = Some y"
  by (metis in_set_conv_nth those_map_Some)

lemma map_of_object_sorted: "sorted_wrt (<) (map fst (map_of_object kvs))"
  by (simp add: map_of_object_def comp_def)

lemma map_of_object_values: "kv \<in> set (map_of_object kvs) \<Longrightarrow> kv \<in> set kvs"
proof -
  assume "kv \<in> set (map_of_object kvs)"
  then obtain k where k: "k \<in> fst ` set kvs" "kv = (k, the (map_of (rev kvs) k))"
    by (auto simp: map_of_object_def)
  then have "map_of (rev kvs) k \<noteq> None" by (simp add: map_of_eq_None_iff)
  then obtain v where "map_of (rev kvs) k = Some v" by auto
  then show ?thesis using k(2) map_of_SomeD [of "rev kvs" k v] by simp
qed

lemma map_of_object_id: "sorted_wrt (<) (map fst kvs) \<Longrightarrow> map_of_object kvs = kvs"
proof -
  assume s: "sorted_wrt (<) (map fst kvs)"
  then have d: "distinct (map fst kvs)" by (simp add: strict_sorted_iff)
  have "sorted_list_of_set (fst ` set kvs) = map fst kvs"
    using s by (metis list.set_map sorted_list_of_set.idem_if_sorted_distinct strict_sorted_iff)
  then have "map_of_object kvs = map (\<lambda>k. (k, the (map_of (rev kvs) k))) (map fst kvs)"
    by (simp add: map_of_object_def)
  also have "\<dots> = kvs"
  proof (rule nth_equalityI)
    fix i assume "i < length (map (\<lambda>k. (k, the (map_of (rev kvs) k))) (map fst kvs))"
    then have i: "i < length kvs" by simp
    have "map_of (rev kvs) (fst (kvs ! i)) = Some (snd (kvs ! i))"
      by (rule map_of_is_SomeI) (use d i in \<open>simp_all add: rev_map [symmetric]\<close>)
    with i show "map (\<lambda>k. (k, the (map_of (rev kvs) k))) (map fst kvs) ! i = kvs ! i" by simp
  qed simp
  finally show ?thesis .
qed

lemma stable_number_canonical: "stable_numbers num \<Longrightarrow> num j = Some v \<Longrightarrow> canonical num v"
  unfolding stable_numbers_def by (cases v) fastforce+

lemma decode_any_canonical: "stable_numbers num \<Longrightarrow> decode_any num j = Some v \<Longrightarrow> canonical num v"
proof (induction num j arbitrary: v rule: decode_any.induct)
  case (1 num n)
  then show ?case by (simp add: stable_number_canonical)
next
  case (2 num s)
  then show ?case by (simp add: stable_number_canonical)
next
  case (3 num xs)
  then obtain ys where ys: "those (map (decode_any num) xs) = Some ys" "v = JArr ys" by auto
  then show ?case using 3(1) [OF _ \<open>stable_numbers num\<close>] those_set [OF ys(1)] by fastforce
next
  case (4 num kvs)
  then obtain vs where vs: "those (map (\<lambda>kv. decode_any num (snd kv)) kvs) = Some vs"
    "v = JObj (map_of_object (zip (map fst kvs) vs))" by auto
  have "canonical num (snd kv)" if "kv \<in> set (map_of_object (zip (map fst kvs) vs))" for kv
  proof -
    have "(fst kv, snd kv) \<in> set (zip (map fst kvs) vs)" using map_of_object_values [OF that] by simp
    then have "snd kv \<in> set vs" by (rule set_zip_rightD)
    then show ?thesis using 4(1) [OF _ \<open>stable_numbers num\<close>] those_set [OF vs(1)] by blast
  qed
  then show ?case using vs(2) map_of_object_sorted by simp
qed auto

lemma decode_canonical: "canonical num v \<Longrightarrow> decode_any num v = Some v"
proof (induction num v rule: canonical.induct)
  case (1 num kvs)
  have "those (map (\<lambda>kv. decode_any num (snd kv)) kvs) = Some (map snd kvs)"
    using 1 by (intro those_map_SomeI) auto
  then show ?case using 1 by (simp add: zip_map_fst_snd map_of_object_id)
next
  case (2 num xs)
  have "those (map (decode_any num) xs) = Some (map id xs)"
    using 2 by (intro those_map_SomeI) auto
  then show ?case by simp
qed auto

lemma canonical_redact: "canonical num v \<Longrightarrow> canonical num (redactConfigValue uni v)"
  by (induction num v rule: canonical.induct) (auto simp: comp_def)

lemma redact_redact: "redactConfigValue uni (redactConfigValue uni v) = redactConfigValue uni v"
  by (induction uni v rule: redactConfigValue.induct) auto

lemma redactConfig_idem:
  assumes "stable_numbers (gl_number lib)"
  shows "redactConfig lib (redactConfig lib config) = redactConfig lib config"
proof (cases "\<exists>j v. config = JsonText j \<and> decode_any (gl_number lib) j = Some v")
  case True
  then obtain j v where v: "config = JsonText j" "decode_any (gl_number lib) j = Some v" by blast
  have "decode_any (gl_number lib) (redactConfigValue (gl_lower lib) v) = Some (redactConfigValue (gl_lower lib) v)"
    using decode_any_canonical [OF assms v(2)] by (intro decode_canonical canonical_redact)
  then show ?thesis using v by (simp add: redactConfig_def redact_redact)
next
  case False
  then have "redactConfig lib config = empty_object"
    by (cases config) (auto simp: redactConfig_def split: option.split)
  then show ?thesis by (simp add: redactConfig_def empty_object_def map_of_object_def)
qed

end
