(* ===== verification/Email_Cursor.thy ===== *)
theory Email_Cursor
  imports Email_Collector Source_Redaction
begin

section \<open>What the mail collector yields and remembers\<close>

text \<open>
  The loop of \<open>Collect\<close> agrees with a filter and a map; the cursors it writes into the
  configuration are what the next collection reads, so no mail is collected twice.
\<close>

subsection \<open>The loop and its reference\<close>

definition fresh_message :: "go_lib \<Rightarrow> email_config \<Rightarrow> email_message \<Rightarrow> bool" where
  "fresh_message lib cfg msg \<longleftrightarrow>
     (trim_space (em_message_id msg) = '''' \<or>
        trim_space (em_message_id msg) \<notin> seenMessageIDSet (ec_seen_message_ids cfg)) \<and>
     matchesFilters lib msg cfg \<and> trim_space (em_subject msg) \<noteq> ''''"

definition message_ids :: "email_message list \<Rightarrow> string list" where
  "message_ids msgs = filter (\<lambda>i. i \<noteq> '''') (map (\<lambda>msg. trim_space (em_message_id msg)) msgs)"

lemma toCollectedItem_some:
  "trim_space (em_subject msg) \<noteq> '''' \<Longrightarrow> \<exists>item. email_toCollectedItem sha256 src msg = Some item"
  by (simp add: email_toCollectedItem_def Let_def)

lemma collect_messages_reference:
  "collect_messages lib sha256 src cfg (seenMessageIDSet (ec_seen_message_ids cfg)) msgs items newIDs lastUID =
     (items @ map (the \<circ> email_toCollectedItem sha256 src) (filter (fresh_message lib cfg) msgs),
      newIDs @ message_ids (filter (fresh_message lib cfg) msgs),
      fold max (map em_uid (filter (fresh_message lib cfg) msgs)) lastUID)"
proof (induction msgs arbitrary: items newIDs lastUID)
  case Nil
  then show ?case by (simp add: message_ids_def)
next
  case (Cons msg msgs)
  show ?case
  proof (cases "fresh_message lib cfg msg")
    case True
    then obtain item where "email_toCollectedItem sha256 src msg = Some item"
      using toCollectedItem_some [of msg sha256 src] by (auto simp: fresh_message_def)
    with True Cons.IH show ?thesis
      by (auto simp: fresh_message_def Let_def message_ids_def max_def)
  next
    case False
    then have "email_toCollectedItem sha256 src msg = None \<or> \<not> matchesFilters lib msg cfg \<or>
        trim_space (em_message_id msg) \<noteq> '''' \<and>
        trim_space (em_message_id msg) \<in> seenMessageIDSet (ec_seen_message_ids cfg)"
      by (auto simp: fresh_message_def email_toCollectedItem_def)
    with False Cons.IH show ?thesis by (auto simp: Let_def)
  qed
qed

lemma item_of_message:
  "email_toCollectedItem sha256 src msg = Some item \<Longrightarrow>
     item_external_id item = (let i = trim_space (em_message_id msg) in if i = '''' then None else Some i)"
  by (auto simp: email_toCollectedItem_def Let_def email_normalizeOptionalString_def split: if_splits)

lemma email_Collect_cases:
  assumes "email_Collect lib sha256 reader src = Some (src', Inr items)"
  obtains cfg msgs src1 where "email_parseConfig lib src = Inr cfg" "reader cfg = Some (Inr msgs)"
    "items = map (the \<circ> email_toCollectedItem sha256 src) (filter (fresh_message lib cfg) msgs)"
    "store_seen_ids lib cfg (message_ids (filter (fresh_message lib cfg) msgs)) src = Some (src1, Inr ())"
    "store_last_uid lib cfg (fold max (map em_uid (filter (fresh_message lib cfg) msgs)) (ec_last_seen_uid cfg))
       src1 = Some (src', Inr ())"
proof -
  obtain cfg where cfg: "email_parseConfig lib src = Inr cfg"
    using assms by (cases "email_parseConfig lib src") (auto simp: email_Collect_def)
  obtain msgs where msgs: "reader cfg = Some (Inr msgs)"
    using assms cfg by (auto simp: email_Collect_def split: option.splits sum.splits)
  let ?fresh = "filter (fresh_message lib cfg) msgs"
  obtain src1 where s1: "store_seen_ids lib cfg (message_ids ?fresh) src = Some (src1, Inr ())"
    using assms cfg msgs
    by (auto simp: email_Collect_def collect_messages_reference split: option.splits sum.splits)
  then have "store_last_uid lib cfg (fold max (map em_uid ?fresh) (ec_last_seen_uid cfg)) src1 = Some (src', Inr ())
      \<and> items = map (the \<circ> email_toCollectedItem sha256 src) ?fresh"
    using assms cfg msgs
    by (auto simp: email_Collect_def collect_messages_reference split: option.splits sum.splits)
  with cfg msgs s1 show thesis using that by blast
qed

lemma store_changes_config_only:
  "store_seen_ids lib cfg ids src = Some (src', r) \<Longrightarrow> src' = src\<lparr>so_config_json := so_config_json src'\<rparr>"
  "store_last_uid lib cfg uid src = Some (src', r) \<Longrightarrow> src' = src\<lparr>so_config_json := so_config_json src'\<rparr>"
  by (auto simp: store_seen_ids_def store_last_uid_def updateSeenMessageIDs_def updateLastSeenUID_def
      split: option.splits sum.splits if_splits)


subsection \<open>The configuration as a store of cursors\<close>

text \<open>
  A configuration column is a JSON object with distinct keys (a JSONB column keeps one value per
  key), and no other of its keys is read as \<open>seen_message_ids\<close> by the case-insensitive decoder.
\<close>

definition plain_config :: "payload \<Rightarrow> bool" where
  "plain_config p \<longleftrightarrow>
     (case p of
        NotJson b \<Rightarrow> b = ''''
      | JsonText (JObj kvs) \<Rightarrow> distinct (map fst kvs) \<and>
          (\<forall>k \<in> fst ` set kvs. fold_key k = ''seen_message_ids'' \<longrightarrow> k = ''seen_message_ids'')
      | JsonText _ \<Rightarrow> False)"

definition seen_cursor :: "payload \<Rightarrow> string list option" where
  "seen_cursor p =
     (case p of
        JsonText (JObj kvs) \<Rightarrow>
          (case map_of kvs ''seen_message_ids'' of None \<Rightarrow> Some [] | Some v \<Rightarrow> dec_str_list v [])
      | _ \<Rightarrow> Some [])"

lemma fold_seen_key: "fold_key ''seen_message_ids'' = ''seen_message_ids''"
  by (simp add: lower_byte_def)

lemma set_email_keeps_seen:
  "k \<noteq> ''seen_message_ids'' \<Longrightarrow> set_email_field k v c = Some c' \<Longrightarrow>
     ec_seen_message_ids c' = ec_seen_message_ids c"
  unfolding set_email_field_def by (auto split: if_splits)

lemma set_email_seen:
  "set_email_field ''seen_message_ids'' v c = Some c' \<Longrightarrow>
     dec_str_list v (ec_seen_message_ids c) = Some (ec_seen_message_ids c')"
  unfolding set_email_field_def by auto

lemma dec_fields_seen:
  assumes "distinct (map fst kvs)"
    "\<forall>k \<in> fst ` set kvs. fold_key k = ''seen_message_ids'' \<longrightarrow> k = ''seen_message_ids''"
    "dec_fields set_email_field kvs c = Some c'"
  shows "Some (ec_seen_message_ids c') =
     (case map_of kvs ''seen_message_ids'' of
        None \<Rightarrow> Some (ec_seen_message_ids c) | Some v \<Rightarrow> dec_str_list v (ec_seen_message_ids c))"
  using assms
proof (induction kvs arbitrary: c)
  case (Cons kv kvs)
  obtain k v where kv: "kv = (k, v)" by fastforce
  obtain c1 where c1: "set_email_field (fold_key k) v c = Some c1" "dec_fields set_email_field kvs c1 = Some c'"
    using Cons.prems(3) kv by (auto split: option.splits)
  have rest: "Some (ec_seen_message_ids c') =
     (case map_of kvs ''seen_message_ids'' of
        None \<Rightarrow> Some (ec_seen_message_ids c1) | Some v \<Rightarrow> dec_str_list v (ec_seen_message_ids c1))"
    using Cons.prems c1(2) kv by (intro Cons.IH) auto
  show ?case
  proof (cases "k = ''seen_message_ids''")
    case True
    then have "map_of kvs ''seen_message_ids'' = None" using Cons.prems(1) kv by (auto simp: map_of_eq_None_iff)
    then show ?thesis using rest set_email_seen [of v c c1] c1(1) kv True unfolding True fold_seen_key by simp
  next
    case False
    then have "fold_key k \<noteq> ''seen_message_ids''" using Cons.prems(2) kv by auto
    note same = set_email_keeps_seen [OF this c1(1)]
    show ?thesis using rest kv False unfolding same by simp
  qed
qed simp

lemma parseConfig_seen:
  assumes "plain_config (so_config_json src)" "email_parseConfig lib src = Inr cfg"
  shows "\<exists>ids. seen_cursor (so_config_json src) = Some ids \<and>
           ec_seen_message_ids cfg = normalizeSeenMessageIDs ids"
proof (cases "so_config_json src = NotJson ''''")
  case True
  then show ?thesis using assms(2)
    by (auto simp: email_parseConfig_def zero_email_config_def seen_cursor_def normalizeSeenMessageIDs_def)
next
  case False
  then obtain kvs where kvs: "so_config_json src = JsonText (JObj kvs)"
    using assms(1) by (auto simp: plain_config_def split: payload.splits json.splits)
  then obtain c where c: "dec_fields set_email_field kvs zero_email_config = Some c"
    and cfg: "ec_seen_message_ids cfg = normalizeSeenMessageIDs (ec_seen_message_ids c)"
    using assms(2) by (auto simp: email_parseConfig_def split: option.splits if_splits)
  have "Some (ec_seen_message_ids c) = seen_cursor (so_config_json src)"
    using dec_fields_seen [OF _ _ c] assms(1) kvs
    by (auto simp: plain_config_def seen_cursor_def zero_email_config_def split: option.splits)
  with cfg show ?thesis by metis
qed


subsection \<open>Normalised ids\<close>

lemma normalize_ids_set:
  "set (normalize_ids ids seen acc) = set acc \<union> (seenMessageIDSet ids - set seen)"
proof (induction ids arbitrary: seen acc)
  case Nil
  then show ?case by (simp add: seenMessageIDSet_def)
next
  case (Cons raw ids)
  then show ?case by (auto simp: seenMessageIDSet_def Let_def)
qed

lemma normalize_ids_distinct:
  "distinct acc \<Longrightarrow> set acc \<subseteq> set seen \<Longrightarrow> distinct (normalize_ids ids seen acc)"
proof (induction ids arbitrary: seen acc)
  case (Cons raw ids)
  show ?case using Cons.prems by (auto simp: Let_def intro!: Cons.IH)
qed simp

lemma set_normalize [simp]: "set (normalizeSeenMessageIDs ids) = seenMessageIDSet ids"
  by (simp add: normalizeSeenMessageIDs_def normalize_ids_set)

lemma seenMessageIDSet_normalize [simp]: "seenMessageIDSet (normalizeSeenMessageIDs ids) = seenMessageIDSet ids"
proof -
  have "seenMessageIDSet ids' = trim_space ` set ids' - {''''}" for ids'
    by (auto simp: seenMessageIDSet_def)
  then have "seenMessageIDSet (normalizeSeenMessageIDs ids) = trim_space ` (trim_space ` set ids - {''''}) - {''''}"
    by simp
  also have "\<dots> = trim_space ` set ids - {''''}"
  proof -
    have "trim_space ` (trim_space ` set ids - {''''}) = trim_space ` set ids - {''''}"
    proof (intro equalityI subsetI)
      fix x assume "x \<in> trim_space ` set ids - {''''}"
      then obtain s where s: "s \<in> set ids" "x = trim_space s" "x \<noteq> ''''" by auto
      then have "x = trim_space x" by simp
      then show "x \<in> trim_space ` (trim_space ` set ids - {''''})" using s by blast
    qed (auto simp: image_iff)
    then show ?thesis by blast
  qed
  finally show ?thesis by (auto simp: seenMessageIDSet_def)
qed


subsection \<open>Writing a cursor\<close>

lemma keys_map_of_object [simp]: "fst ` set (map_of_object kvs) = fst ` set kvs"
  by (force simp: map_of_object_def)

lemma map_of_map_of_object: "map_of (map_of_object kvs) k = map_of (rev kvs) k"
proof (cases "k \<in> fst ` set kvs")
  case True
  have "map_of (map (\<lambda>k. (k, f k)) ks) k = (if k \<in> set ks then Some (f k) else None)" for ks and f :: "string \<Rightarrow> 'a"
    by (induction ks) auto
  then have "map_of (map_of_object kvs) k = Some (the (map_of (rev kvs) k))"
    using True by (simp add: map_of_object_def)
  moreover have "map_of (rev kvs) k \<noteq> None" using True by (simp add: map_of_eq_None_iff)
  ultimately show ?thesis by simp
next
  case False
  then have "map_of (map_of_object kvs) k = None" "map_of (rev kvs) k = None"
    by (simp_all add: map_of_eq_None_iff)
  then show ?thesis by simp
qed

lemma map_of_rev_distinct: "distinct (map fst kvs) \<Longrightarrow> map_of (rev kvs) = map_of kvs"
  by (rule map_of_inject_set [THEN iffD2]) (simp_all add: rev_map [symmetric])

lemma distinct_map_of_object [simp]: "distinct (map fst (map_of_object kvs))"
  by (simp add: map_of_object_def comp_def)

lemma map_of_zip_those:
  "those (map (\<lambda>kv. f (snd kv)) kvs) = Some vs \<Longrightarrow>
     map_of (zip (map fst kvs) vs) k = (case map_of kvs k of None \<Rightarrow> None | Some v \<Rightarrow> f v)"
  by (induction kvs arbitrary: vs) (auto split: option.splits)

lemma dec_str_list_decode:
  "dec_str_list v [] = Some ids \<Longrightarrow> decode_any num v = Some v' \<Longrightarrow> dec_str_list v' [] = Some ids"
proof (cases v)
  case (JArr js)
  assume a: "dec_str_list v [] = Some ids" "decode_any num v = Some v'"
  have "dec_str_elems js [] = Some ids \<Longrightarrow> those (map (decode_any num) js) = Some js" for js ids
  proof (induction js arbitrary: ids)
    case (Cons j js)
    then show ?case by (cases j) (auto split: option.splits)
  qed simp
  with a JArr show ?thesis by auto
qed auto

lemma dec_str_elems_JStr: "dec_str_elems (map JStr ids) old = Some ids"
  by (induction ids arbitrary: old) auto

lemma config_map_plain:
  assumes "plain_config p" "config_map lib p = Inr (Some m)"
  shows "plain_config (JsonText (JObj m))"
    and "seen_cursor p = Some ids \<Longrightarrow> seen_cursor (JsonText (JObj m)) = Some ids"
proof -
  have "plain_config (JsonText (JObj m)) \<and>
      (seen_cursor p = Some ids \<longrightarrow> seen_cursor (JsonText (JObj m)) = Some ids)"
  proof (cases p)
    case (NotJson b)
    then have "m = []" using assms by (auto simp: config_map_def split: if_splits)
    then show ?thesis using NotJson by (simp add: plain_config_def seen_cursor_def)
  next
    case (JsonText j)
    then obtain kvs where p: "p = JsonText (JObj kvs)"
      using assms(1) by (auto simp: plain_config_def split: json.splits)
    then obtain vs where vs: "those (map (\<lambda>kv. decode_any (gl_number lib) (snd kv)) kvs) = Some vs"
      and m: "m = map_of_object (zip (map fst kvs) vs)"
      using assms(2) by (auto simp: config_map_def split: option.splits)
    have len: "length vs = length kvs" using those_map_Some [OF vs] by auto
    have keys: "map fst (zip (map fst kvs) vs) = map fst kvs" using len by simp
    then have set_keys: "fst ` set (zip (map fst kvs) vs) = fst ` set kvs" by (metis list.set_map)
    have at: "map_of m k = (case map_of kvs k of None \<Rightarrow> None | Some v \<Rightarrow> decode_any (gl_number lib) v)" for k
    proof -
      have "distinct (map fst (zip (map fst kvs) vs))"
        using assms(1) p keys by (simp add: plain_config_def)
      then show ?thesis using vs m by (simp add: map_of_map_of_object map_of_rev_distinct map_of_zip_those)
    qed
    have "plain_config (JsonText (JObj m))"
      using assms(1) p m set_keys by (simp add: plain_config_def)
    moreover have "seen_cursor (JsonText (JObj m)) = Some ids" if s: "seen_cursor p = Some ids"
    proof (cases "map_of kvs ''seen_message_ids''")
      case None
      then show ?thesis using s p at [of "''seen_message_ids''"] by (simp add: seen_cursor_def)
    next
      case (Some v)
      then have v: "dec_str_list v [] = Some ids" using s p by (simp add: seen_cursor_def)
      have "map_of m ''seen_message_ids'' = decode_any (gl_number lib) v"
        using at [of "''seen_message_ids''"] Some by simp
      moreover have "decode_any (gl_number lib) v \<noteq> None"
      proof -
        have "(''seen_message_ids'', v) \<in> set kvs" using Some by (rule map_of_SomeD)
        then have "decode_any (gl_number lib) v \<in> set (map (\<lambda>kv. decode_any (gl_number lib) (snd kv)) kvs)" by force
        moreover have "None \<notin> set (map (\<lambda>kv. decode_any (gl_number lib) (snd kv)) kvs)"
          using those_map_Some [OF vs] by (fastforce simp: in_set_conv_nth)
        ultimately show ?thesis by metis
      qed
      ultimately show ?thesis using dec_str_list_decode [OF v] by (auto simp: seen_cursor_def)
    qed
    ultimately show ?thesis by blast
  qed
  then show "plain_config (JsonText (JObj m))"
    and "seen_cursor p = Some ids \<Longrightarrow> seen_cursor (JsonText (JObj m)) = Some ids" by blast+
qed

lemma map_put_plain:
  assumes "plain_config (JsonText (JObj m))" "fold_key k = ''seen_message_ids'' \<Longrightarrow> k = ''seen_message_ids''"
  shows "plain_config (map_put k v m)"
  using assms by (auto simp: plain_config_def map_put_def)

lemma map_put_cursor:
  assumes "distinct (map fst m)"
  shows "seen_cursor (map_put k v m) =
    (if k = ''seen_message_ids'' then dec_str_list v [] else seen_cursor (JsonText (JObj m)))"
  using assms by (simp add: map_put_def seen_cursor_def map_of_map_of_object map_of_rev_distinct)


subsection \<open>Collections one after the other\<close>

definition seen_ids :: "payload \<Rightarrow> string set" where
  "seen_ids p = (case seen_cursor p of None \<Rightarrow> {} | Some ids \<Rightarrow> seenMessageIDSet ids)"

definition utf8_valid :: "string \<Rightarrow> bool" where
  "utf8_valid s \<longleftrightarrow> valid_utf8_from 0 s = s"

definition cursor_ok :: "payload \<Rightarrow> bool" where
  "cursor_ok p \<longleftrightarrow> plain_config p \<and> seen_cursor p \<noteq> None \<and> list_all utf8_valid (filter (\<lambda>i. i \<noteq> '''') (map trim_space (the (seen_cursor p))))"

lemma cursor_ok_iff:
  "cursor_ok p \<longleftrightarrow> plain_config p \<and> (\<exists>ids. seen_cursor p = Some ids \<and> (\<forall>i \<in> seenMessageIDSet ids. utf8_valid i))"
  by (auto simp: cursor_ok_def seenMessageIDSet_def list_all_iff)

lemma message_ids_trimmed: "set (message_ids msgs) = seenMessageIDSet (map em_message_id msgs)"
  by (auto simp: message_ids_def seenMessageIDSet_def)

lemma seenMessageIDSet_append: "seenMessageIDSet (xs @ ys) = seenMessageIDSet xs \<union> seenMessageIDSet ys"
  by (auto simp: seenMessageIDSet_def)

lemma seenMessageIDSet_message_ids: "seenMessageIDSet (message_ids msgs) = set (message_ids msgs)"
proof -
  have "map trim_space (message_ids msgs) = message_ids msgs"
    by (intro map_idI) (auto simp: message_ids_def)
  then show ?thesis by (auto simp: seenMessageIDSet_def message_ids_def)
qed

lemma plain_distinct: "plain_config (JsonText (JObj m)) \<Longrightarrow> distinct (map fst m)"
  by (simp add: plain_config_def)

lemma store_seen_ids_step:
  assumes "cursor_ok (so_config_json src)" "email_parseConfig lib src = Inr cfg"
    "store_seen_ids lib cfg new src = Some (src', r)"
    "seenMessageIDSet new = set new" "\<forall>i \<in> set new. utf8_valid i"
  shows "cursor_ok (so_config_json src') \<and> seen_ids (so_config_json src) \<subseteq> seen_ids (so_config_json src') \<and>
         (isl r \<or> set new \<subseteq> seen_ids (so_config_json src'))"
proof (cases "isl r \<or> new = []")
  case True
  then have "so_config_json src' = so_config_json src"
    using assms(3) by (auto simp: store_seen_ids_def split: option.splits sum.splits if_splits)
  then show ?thesis using assms True by (auto simp: seenMessageIDSet_def)
next
  case False
  obtain ids where ids: "seen_cursor (so_config_json src) = Some ids"
    "ec_seen_message_ids cfg = normalizeSeenMessageIDs ids"
    using parseConfig_seen [OF _ assms(2)] assms(1) by (auto simp: cursor_ok_iff)
  have plain: "plain_config (so_config_json src)" and valid: "\<forall>i \<in> seenMessageIDSet ids. utf8_valid i"
    using assms(1) ids(1) by (auto simp: cursor_ok_iff)
  define all where "all = normalizeSeenMessageIDs (ec_seen_message_ids cfg @ new)"
  have all: "set all = seenMessageIDSet ids \<union> set new" "seenMessageIDSet all = set all"
    unfolding all_def using ids(2) assms(4) by (simp_all add: seenMessageIDSet_append)
  have same: "map (valid_utf8_from 0) all = all"
    using valid assms(5) all(1) by (intro map_idI) (auto simp: utf8_valid_def)
  obtain m where m: "config_map lib (so_config_json src) = Inr (Some m)"
    and src': "so_config_json src' = map_put ''seen_message_ids'' (JArr (map marshal_string all)) m"
    using assms(3) False
    by (auto simp: store_seen_ids_def updateSeenMessageIDs_def all_def split: option.splits sum.splits if_splits)
  have "dec_str_list (JArr (map marshal_string all)) [] = Some all"
  proof -
    have "map marshal_string all = map JStr (map (valid_utf8_from 0) all)" by (simp add: marshal_string_def)
    then show ?thesis by (simp only: same dec_str_list.simps dec_str_elems_JStr)
  qed
  then have cursor: "seen_cursor (so_config_json src') = Some all"
    unfolding src' by (simp add: map_put_cursor [OF plain_distinct [OF config_map_plain(1) [OF plain m]]])
  have "plain_config (so_config_json src')"
    unfolding src' by (rule map_put_plain [OF config_map_plain(1) [OF plain m]]) simp
  then show ?thesis
    using cursor ids(1) all valid assms(5) by (auto simp: cursor_ok_iff seen_ids_def)
qed

lemma store_last_uid_step:
  assumes "cursor_ok (so_config_json src)" "store_last_uid lib cfg uid src = Some (src', r)"
  shows "cursor_ok (so_config_json src') \<and> seen_ids (so_config_json src') = seen_ids (so_config_json src)"
proof (cases "so_config_json src' = so_config_json src")
  case False
  obtain ids where ids: "seen_cursor (so_config_json src) = Some ids" using assms(1) by (auto simp: cursor_ok_iff)
  have plain: "plain_config (so_config_json src)" using assms(1) by (simp add: cursor_ok_def)
  obtain m where m: "config_map lib (so_config_json src) = Inr (Some m)"
    and src': "so_config_json src' = map_put ''last_seen_uid'' (JNum uid) m"
    using assms(2) False
    by (auto simp: store_last_uid_def updateLastSeenUID_def split: option.splits sum.splits if_splits)
  have "seen_cursor (so_config_json src') = Some ids"
    unfolding src' using config_map_plain(2) [OF plain m ids] by (simp add: map_put_cursor [OF plain_distinct [OF config_map_plain(1) [OF plain m]]])
  moreover have "plain_config (so_config_json src')"
    unfolding src' by (rule map_put_plain [OF config_map_plain(1) [OF plain m]]) (simp add: lower_byte_def)
  ultimately show ?thesis using assms(1) ids by (simp add: cursor_ok_def seen_ids_def)
qed (use assms in simp)


text \<open>
  A source collected again and again: the batch of a failed collection is empty, and what it
  left in the source stays (the collection service stores the source on both paths).
\<close>

fun collect_chain ::
  "go_lib \<Rightarrow> (string \<Rightarrow> string) \<Rightarrow> mailbox_reader list \<Rightarrow> source \<Rightarrow> (source \<times> collected_item list list) option" where
  "collect_chain lib sha256 [] src = Some (src, [])"
| "collect_chain lib sha256 (reader # readers) src =
     (case email_Collect lib sha256 reader src of
        None \<Rightarrow> None
      | Some (src', r) \<Rightarrow>
        (case collect_chain lib sha256 readers src' of
           None \<Rightarrow> None
         | Some (src'', batches) \<Rightarrow> Some (src'', (case r of Inl _ \<Rightarrow> [] | Inr items \<Rightarrow> items) # batches)))"

definition external_ids :: "collected_item list \<Rightarrow> string set" where
  "external_ids items = {i. Some i \<in> item_external_id ` set items}"

definition valid_reader :: "mailbox_reader \<Rightarrow> bool" where
  "valid_reader reader \<longleftrightarrow>
     (\<forall>cfg msgs. reader cfg = Some (Inr msgs) \<longrightarrow> (\<forall>msg \<in> set msgs. utf8_valid (trim_space (em_message_id msg))))"

lemma external_ids_fresh:
  "external_ids (map (the \<circ> email_toCollectedItem sha256 src) (filter (fresh_message lib cfg) msgs)) =
     set (message_ids (filter (fresh_message lib cfg) msgs))"
proof -
  have "item_external_id (the (email_toCollectedItem sha256 src msg)) =
      (let i = trim_space (em_message_id msg) in if i = '''' then None else Some i)"
    if fresh: "fresh_message lib cfg msg" for msg
  proof -
    obtain item where "email_toCollectedItem sha256 src msg = Some item"
      using fresh toCollectedItem_some [of msg sha256 src] by (auto simp: fresh_message_def)
    then show ?thesis using item_of_message by fastforce
  qed
  then show ?thesis
    by (auto simp: external_ids_def message_ids_def Let_def image_iff split: if_splits)
qed

lemma email_Collect_failed:
  assumes "email_Collect lib sha256 reader src = Some (src', Inl e)"
  shows "src' = src \<or>
    (\<exists>cfg msgs src1 r1. email_parseConfig lib src = Inr cfg \<and> reader cfg = Some (Inr msgs) \<and>
       store_seen_ids lib cfg (message_ids (filter (fresh_message lib cfg) msgs)) src = Some (src1, r1) \<and>
       (src' = src1 \<or> (\<exists>uid r2. store_last_uid lib cfg uid src1 = Some (src', r2))))"
proof (cases "\<exists>cfg msgs. email_parseConfig lib src = Inr cfg \<and> reader cfg = Some (Inr msgs)")
  case True
  then obtain cfg msgs where h: "email_parseConfig lib src = Inr cfg" "reader cfg = Some (Inr msgs)" by blast
  let ?fresh = "filter (fresh_message lib cfg) msgs"
  let ?uid = "fold max (map em_uid ?fresh) (ec_last_seen_uid cfg)"
  obtain src1 r1 where s1: "store_seen_ids lib cfg (message_ids ?fresh) src = Some (src1, r1)"
    using assms h by (auto simp: email_Collect_def collect_messages_reference split: option.splits)
  have "src' = src1 \<or> (\<exists>r2. store_last_uid lib cfg ?uid src1 = Some (src', r2))"
    using assms h s1
    by (auto simp: email_Collect_def collect_messages_reference split: option.splits sum.splits)
  with h s1 show ?thesis by blast
next
  case False
  then have "src' = src"
    using assms by (auto simp: email_Collect_def split: option.splits sum.splits)
  then show ?thesis by blast
qed

lemma email_Collect_step:
  assumes "cursor_ok (so_config_json src)" "valid_reader reader"
    "email_Collect lib sha256 reader src = Some (src', r)"
  shows "cursor_ok (so_config_json src') \<and> seen_ids (so_config_json src) \<subseteq> seen_ids (so_config_json src') \<and>
    (\<forall>items. r = Inr items \<longrightarrow>
       external_ids items \<inter> seen_ids (so_config_json src) = {} \<and>
       external_ids items \<subseteq> seen_ids (so_config_json src'))"
proof -
  have store: "cursor_ok (so_config_json src1) \<and> seen_ids (so_config_json src) \<subseteq> seen_ids (so_config_json src1) \<and>
         (isl r1 \<or> set (message_ids (filter (fresh_message lib cfg) msgs)) \<subseteq> seen_ids (so_config_json src1))"
    if "email_parseConfig lib src = Inr cfg" "reader cfg = Some (Inr msgs)"
      "store_seen_ids lib cfg (message_ids (filter (fresh_message lib cfg) msgs)) src = Some (src1, r1)"
    for cfg msgs src1 r1
  proof (rule store_seen_ids_step [OF assms(1) that(1) that(3) seenMessageIDSet_message_ids])
    show "\<forall>i \<in> set (message_ids (filter (fresh_message lib cfg) msgs)). utf8_valid i"
      using assms(2) that(2) by (auto simp: valid_reader_def message_ids_def)
  qed
  show ?thesis
  proof (cases r)
    case (Inl e)
    then consider "src' = src"
      | cfg msgs src1 r1 where "email_parseConfig lib src = Inr cfg" "reader cfg = Some (Inr msgs)"
          "store_seen_ids lib cfg (message_ids (filter (fresh_message lib cfg) msgs)) src = Some (src1, r1)"
          "src' = src1 \<or> (\<exists>uid r2. store_last_uid lib cfg uid src1 = Some (src', r2))"
      using email_Collect_failed assms(3) by blast
    then show ?thesis
    proof cases
      case 1
      then show ?thesis using assms(1) Inl by simp
    next
      case 2
      show ?thesis using 2(4) store [OF 2(1-3)] store_last_uid_step [of src1 lib cfg _ src'] Inl by auto
    qed
  next
    case (Inr items)
    from assms(3) Inr have ok: "email_Collect lib sha256 reader src = Some (src', Inr items)" by simp
    obtain cfg msgs src1 where c: "email_parseConfig lib src = Inr cfg" "reader cfg = Some (Inr msgs)"
      "items = map (the \<circ> email_toCollectedItem sha256 src) (filter (fresh_message lib cfg) msgs)"
      "store_seen_ids lib cfg (message_ids (filter (fresh_message lib cfg) msgs)) src = Some (src1, Inr ())"
      "store_last_uid lib cfg (fold max (map em_uid (filter (fresh_message lib cfg) msgs)) (ec_last_seen_uid cfg))
         src1 = Some (src', Inr ())"
      by (rule email_Collect_cases [OF ok])
    have ext: "external_ids items = set (message_ids (filter (fresh_message lib cfg) msgs))"
      unfolding c(3) by (rule external_ids_fresh)
    obtain ids where ids: "seen_cursor (so_config_json src) = Some ids"
      "ec_seen_message_ids cfg = normalizeSeenMessageIDs ids"
      using parseConfig_seen [OF _ c(1)] assms(1) by (auto simp: cursor_ok_iff)
    have "set (message_ids (filter (fresh_message lib cfg) msgs)) \<inter> seenMessageIDSet ids = {}"
      using ids(2) by (auto simp: message_ids_def fresh_message_def)
    then show ?thesis
      using store [OF c(1,2,4)] store_last_uid_step [OF _ c(5)] ext ids(1) Inr by (auto simp: seen_ids_def)
  qed
qed

lemma collect_chain_fresh:
  assumes "cursor_ok (so_config_json src)" "\<forall>reader \<in> set readers. valid_reader reader"
    "collect_chain lib sha256 readers src = Some (src', batches)"
  shows "(\<forall>b \<in> set batches. external_ids b \<inter> seen_ids (so_config_json src) = {}) \<and>
         sorted_wrt (\<lambda>b b'. external_ids b \<inter> external_ids b' = {}) batches"
  using assms
proof (induction readers arbitrary: src batches)
  case (Cons reader readers)
  obtain src1 r where step: "email_Collect lib sha256 reader src = Some (src1, r)"
    using Cons.prems(3) by (auto split: option.splits)
  obtain rest where rest: "collect_chain lib sha256 readers src1 = Some (src', rest)"
    and batches: "batches = (case r of Inl _ \<Rightarrow> [] | Inr items \<Rightarrow> items) # rest"
    using Cons.prems(3) step by (auto split: option.splits)
  note s = email_Collect_step [OF Cons.prems(1) _ step]
  have v: "valid_reader reader" using Cons.prems(2) by simp
  have ih: "(\<forall>b \<in> set rest. external_ids b \<inter> seen_ids (so_config_json src1) = {}) \<and>
         sorted_wrt (\<lambda>b b'. external_ids b \<inter> external_ids b' = {}) rest"
    using s [OF v] Cons.prems(2) rest by (intro Cons.IH) auto
  have first: "external_ids (case r of Inl _ \<Rightarrow> [] | Inr items \<Rightarrow> items) \<subseteq> seen_ids (so_config_json src1) -
      seen_ids (so_config_json src)"
    using s [OF v] by (cases r) (auto simp: external_ids_def)
  have mono: "seen_ids (so_config_json src) \<subseteq> seen_ids (so_config_json src1)" using s [OF v] by blast
  show ?case using ih first mono unfolding batches by (auto simp: disjoint_iff)
qed simp


subsection \<open>Properties\<close>

lemma decode_any_total: "\<forall>j. num j \<noteq> None \<Longrightarrow> decode_any num j \<noteq> None"
proof (induction num j rule: decode_any.induct)
  case (3 num xs)
  then have "those (map (decode_any num) xs) = Some (map (the \<circ> decode_any num) xs)"
    by (intro those_map_SomeI) auto
  then show ?case by simp
next
  case (4 num kvs)
  then have "those (map (\<lambda>kv. decode_any num (snd kv)) kvs) = Some (map (\<lambda>kv. the (decode_any num (snd kv))) kvs)"
    by (intro those_map_SomeI) auto
  then show ?case by simp
qed auto

lemma config_map_total:
  assumes "\<forall>j. gl_number lib j \<noteq> None" "plain_config p"
  shows "\<exists>m. config_map lib p = Inr (Some m)"
proof (cases p)
  case (NotJson b)
  then show ?thesis using assms(2) by (simp add: config_map_def plain_config_def)
next
  case (JsonText j)
  then obtain kvs where j: "j = JObj kvs" using assms(2) by (auto simp: plain_config_def split: json.splits)
  obtain v where v: "decode_any (gl_number lib) j = Some v" using decode_any_total [OF assms(1)] by blast
  then obtain m where "v = JObj m" using j by auto
  then show ?thesis using v JsonText by (simp add: config_map_def)
qed

lemma store_total:
  assumes "\<forall>j. gl_number lib j \<noteq> None" "plain_config (so_config_json src)"
  shows "\<exists>src'. store_seen_ids lib cfg new src = Some (src', Inr ()) \<and> plain_config (so_config_json src')"
    and "\<exists>src'. store_last_uid lib cfg uid src = Some (src', Inr ())"
proof -
  obtain m where m: "config_map lib (so_config_json src) = Inr (Some m)"
    using config_map_total [OF assms] by blast
  note plain = config_map_plain(1) [OF assms(2) m]
  show "\<exists>src'. store_seen_ids lib cfg new src = Some (src', Inr ()) \<and> plain_config (so_config_json src')"
    using m assms(2) map_put_plain [OF plain] by (auto simp: store_seen_ids_def updateSeenMessageIDs_def)
  show "\<exists>src'. store_last_uid lib cfg uid src = Some (src', Inr ())"
    using m by (auto simp: store_last_uid_def updateLastSeenUID_def)
qed

text \<open>
  A collection of an email source whose mailbox could be read succeeds, and yields one item for
  every message that has a subject, passes the filters and is not among the seen ids, in the
  order of the mailbox; each belongs to the source and its user. Of the source only the
  configuration may have changed.
\<close>

theorem email_collects_fresh_mail:
  assumes "plain_config (so_config_json src)" "email_parseConfig lib src = Inr cfg"
    "reader cfg = Some (Inr msgs)" "\<forall>j. gl_number lib j \<noteq> None"
  shows "\<exists>src' items. email_Collect lib sha256 reader src = Some (src', Inr items) \<and>
    map Some items = map (email_toCollectedItem sha256 src) (filter (fresh_message lib cfg) msgs) \<and>
    list_all (\<lambda>item. item_user_id item = so_user_id src \<and> item_source_id item = so_id src \<and>
      item_source_type item = so_type src \<and> item_title item \<noteq> '''' \<and>
      item_title item = trim_space (item_title item)) items \<and>
    src' = src\<lparr>so_config_json := so_config_json src'\<rparr>"
proof -
  let ?fresh = "filter (fresh_message lib cfg) msgs"
  obtain src1 where s1: "store_seen_ids lib cfg (message_ids ?fresh) src = Some (src1, Inr ())"
    "plain_config (so_config_json src1)"
    using store_total(1) [OF assms(4,1)] by blast
  obtain src2 where s2:
    "store_last_uid lib cfg (fold max (map em_uid ?fresh) (ec_last_seen_uid cfg)) src1 = Some (src2, Inr ())"
    using store_total(2) [OF assms(4) s1(2)] by blast
  let ?items = "map (the \<circ> email_toCollectedItem sha256 src) ?fresh"
  have run: "email_Collect lib sha256 reader src = Some (src2, Inr ?items)"
    using assms s1(1) s2 by (simp add: email_Collect_def collect_messages_reference)
  have some: "email_toCollectedItem sha256 src msg = Some (the (email_toCollectedItem sha256 src msg))"
    if "msg \<in> set ?fresh" for msg
    using that toCollectedItem_some [of msg sha256 src] by (auto simp: fresh_message_def)
  then have "map Some ?items = map (email_toCollectedItem sha256 src) ?fresh" by simp
  moreover have "list_all (\<lambda>item. item_user_id item = so_user_id src \<and> item_source_id item = so_id src \<and>
      item_source_type item = so_type src \<and> item_title item \<noteq> '''' \<and>
      item_title item = trim_space (item_title item)) ?items"
    by (auto simp: list_all_iff email_toCollectedItem_def fresh_message_def Let_def)
  moreover have "src2 = src\<lparr>so_config_json := so_config_json src2\<rparr>"
    using store_changes_config_only(1) [OF s1(1)] store_changes_config_only(2) [OF s2]
    by (metis (no_types, lifting) source.update_convs(6) source.surjective source.select_convs)
  ultimately show ?thesis using run by blast
qed

definition sample_mail_source :: source where
  "sample_mail_source =
     \<lparr>so_id = 10, so_user_id = 1, so_name = ''mail'', so_type = TypeEmail, so_url = None,
      so_config_json = JsonText (JObj [(''mailbox'', JStr ''news'')]), so_is_active = True,
      so_last_fetched_at = None, so_last_fetch_status = '''', so_last_fetch_message = '''',
      so_created_at = 0, so_updated_at = 0, so_deleted_at = None\<rparr>"

definition sample_mail :: "string \<Rightarrow> email_message" where
  "sample_mail i =
     \<lparr>em_uid = 0, em_message_id = i, em_subject = ''News'', em_from = ''a@b'', em_to = [], em_body = ''text'',
      em_date = None\<rparr>"

definition sample_mail_reader :: mailbox_reader where
  "sample_mail_reader cfg = Some (Inr [sample_mail ''m1'', sample_mail ''m2''])"

lemma sample_trims [simp]:
  "trim_space ''m1'' = ''m1''" "trim_space ''m2'' = ''m2''" "trim_space ''news'' = ''news''"
  "trim_space ''News'' = ''News''" "trim_space ''a@b'' = ''a@b''" "trim_space ''text'' = ''text''"
  by (simp_all add: trim_space_visible visible_def)

lemma sample_email_config:
  "email_parseConfig sample_lib sample_mail_source = Inr (zero_email_config\<lparr>ec_mailbox := ''news''\<rparr>)"
  by (simp add: email_parseConfig_def sample_mail_source_def set_email_field_def lower_byte_def zero_email_config_def
      to_lower_def ascii_only_def normalizeSeenMessageIDs_def)

lemma sample_plain: "plain_config (so_config_json sample_mail_source)"
  by (simp add: sample_mail_source_def plain_config_def lower_byte_def)

lemma sample_fresh: "fresh_message sample_lib (zero_email_config\<lparr>ec_mailbox := ''news''\<rparr>) (sample_mail i)"
  by (simp add: fresh_message_def sample_mail_def matchesFilters_def zero_email_config_def seenMessageIDSet_def)

theorem email_collects_fresh_mail_witness:
  "\<exists>src' items. email_Collect sample_lib id sample_mail_reader sample_mail_source = Some (src', Inr items) \<and>
    map item_external_id items = [Some ''m1'', Some ''m2'']"
proof -
  obtain src' items where run: "email_Collect sample_lib id sample_mail_reader sample_mail_source = Some (src', Inr items)"
    and items: "map Some items = map (email_toCollectedItem id sample_mail_source)
      (filter (fresh_message sample_lib (zero_email_config\<lparr>ec_mailbox := ''news''\<rparr>)) [sample_mail ''m1'', sample_mail ''m2''])"
    using email_collects_fresh_mail [OF sample_plain sample_email_config, of sample_mail_reader
      "[sample_mail ''m1'', sample_mail ''m2'']" id]
    by (auto simp: sample_mail_reader_def sample_lib_def)
  have "map (\<lambda>x. item_external_id (the x)) (map Some items) = [Some ''m1'', Some ''m2'']"
    unfolding items by (simp add: sample_fresh)
      (simp add: email_toCollectedItem_def Let_def sample_mail_def email_normalizeOptionalString_def)
  then show ?thesis using run by (auto simp: comp_def)
qed

text \<open>
  C24. No mail is collected twice, as long as each collection starts from the configuration the last
  one has left (its cursor was stored): however often a source is collected, whichever message
  ids of valid UTF-8 its mailbox shows each time and whichever collections fail in between, the
  message ids of the items of two different collections are disjoint, and disjoint from the ids
  the configuration held before. The configuration is one where the cursor is written under one
  key (\<open>cursor_ok\<close>). An id with bytes that are no UTF-8 is stored with U+FFFD in their place and is
  not found again: such a mail is collected each time the mailbox shows it.
\<close>

theorem email_never_collected_twice:
  assumes "cursor_ok (so_config_json src)" "\<forall>reader \<in> set readers. valid_reader reader"
    "collect_chain lib sha256 readers src = Some (src', batches)" "i < j" "j < length batches"
  shows "external_ids (batches ! i) \<inter> external_ids (batches ! j) = {} \<and>
         external_ids (batches ! i) \<inter> seen_ids (so_config_json src) = {}"
proof -
  note fresh = collect_chain_fresh [OF assms(1-3)]
  have "external_ids (batches ! i) \<inter> external_ids (batches ! j) = {}"
    using fresh assms(4,5) sorted_wrt_nth_less [of "\<lambda>b b'. external_ids b \<inter> external_ids b' = {}"] by blast
  moreover have "batches ! i \<in> set batches" using assms(4,5) by simp
  ultimately show ?thesis using fresh by blast
qed

lemma sample_utf8: "utf8_valid ''m1''" "utf8_valid ''m2''"
  by (simp_all add: utf8_valid_def rune_length_def byte_in_def)

lemma sample_valid_reader: "valid_reader sample_mail_reader"
  by (auto simp: valid_reader_def sample_mail_reader_def sample_mail_def sample_utf8)

lemma sample_first_collection:
  "\<exists>src1. email_Collect sample_lib id sample_mail_reader sample_mail_source =
     Some (src1, Inr (map (the \<circ> email_toCollectedItem id sample_mail_source)
       [sample_mail ''m1'', sample_mail ''m2''])) \<and> plain_config (so_config_json src1)"
proof -
  let ?cfg = "zero_email_config\<lparr>ec_mailbox := ''news''\<rparr>"
  obtain src1 where s: "store_seen_ids sample_lib ?cfg [''m1'', ''m2''] sample_mail_source = Some (src1, Inr ())"
    "plain_config (so_config_json src1)"
    using store_total(1) [of sample_lib, OF _ sample_plain, of ?cfg "[''m1'', ''m2'']"] by (auto simp: sample_lib_def)
  let ?items = "map (the \<circ> email_toCollectedItem id sample_mail_source) [sample_mail ''m1'', sample_mail ''m2'']"
  have loop: "collect_messages sample_lib id sample_mail_source ?cfg (seenMessageIDSet (ec_seen_message_ids ?cfg))
      [sample_mail ''m1'', sample_mail ''m2''] [] [] (ec_last_seen_uid ?cfg) = (?items, [''m1'', ''m2''], 0)"
    unfolding collect_messages_reference
    by (simp add: sample_fresh message_ids_def) (simp add: sample_mail_def zero_email_config_def)
  have "store_last_uid sample_lib ?cfg 0 src1 = Some (src1, Inr ())"
    by (simp add: store_last_uid_def zero_email_config_def)
  then have "email_Collect sample_lib id sample_mail_reader sample_mail_source = Some (src1, Inr ?items)"
    unfolding email_Collect_def sample_email_config sum.case sample_mail_reader_def option.case loop prod.case s(1)
    by simp
  with s(2) show ?thesis by blast
qed

lemma email_Collect_no_panic:
  assumes "\<forall>j. gl_number lib j \<noteq> None" "plain_config (so_config_json src)" "\<forall>cfg. reader cfg \<noteq> None"
  shows "email_Collect lib sha256 reader src \<noteq> None"
proof (cases "email_parseConfig lib src")
  case (Inr cfg)
  obtain r where r: "reader cfg = Some r" using assms(3) by blast
  show ?thesis
  proof (cases r)
    case (Inr msgs)
    let ?new = "message_ids (filter (fresh_message lib cfg) msgs)"
    let ?uid = "fold max (map em_uid (filter (fresh_message lib cfg) msgs)) (ec_last_seen_uid cfg)"
    obtain src1 where s1: "store_seen_ids lib cfg ?new src = Some (src1, Inr ())" "plain_config (so_config_json src1)"
      using store_total(1) [OF assms(1,2)] by blast
    then obtain src2 where "store_last_uid lib cfg ?uid src1 = Some (src2, Inr ())"
      using store_total(2) [OF assms(1)] by blast
    then show ?thesis
      using \<open>email_parseConfig lib src = Inr cfg\<close> r Inr s1(1)
      by (simp add: email_Collect_def collect_messages_reference)
  qed (use r \<open>email_parseConfig lib src = Inr cfg\<close> in \<open>simp add: email_Collect_def\<close>)
qed (simp add: email_Collect_def)

theorem email_never_collected_twice_witness:
  "\<exists>src' b1 b2. collect_chain sample_lib id [sample_mail_reader, sample_mail_reader] sample_mail_source = Some (src', [b1, b2]) \<and>
     external_ids b1 = {''m1'', ''m2''} \<and> external_ids b1 \<inter> external_ids b2 = {}"
proof -
  let ?b1 = "map (the \<circ> email_toCollectedItem id sample_mail_source) [sample_mail ''m1'', sample_mail ''m2'']"
  obtain src1 where s1: "email_Collect sample_lib id sample_mail_reader sample_mail_source = Some (src1, Inr ?b1)"
    "plain_config (so_config_json src1)"
    using sample_first_collection by blast
  obtain src2 r where s2: "email_Collect sample_lib id sample_mail_reader src1 = Some (src2, r)"
    using email_Collect_no_panic [of sample_lib, OF _ s1(2), of sample_mail_reader id]
    by (auto simp: sample_lib_def sample_mail_reader_def)
  let ?b2 = "case r of Inl _ \<Rightarrow> [] | Inr items \<Rightarrow> items"
  have chain: "collect_chain sample_lib id [sample_mail_reader, sample_mail_reader] sample_mail_source =
      Some (src2, [?b1, ?b2])"
    by (simp add: s1(1) s2)
  have "cursor_ok (so_config_json sample_mail_source)"
    using sample_plain by (simp add: cursor_ok_def) (simp add: sample_mail_source_def seen_cursor_def)
  from email_never_collected_twice [OF this _ chain, of 0 1] sample_valid_reader
  have "external_ids ?b1 \<inter> external_ids ?b2 = {}" by simp
  moreover have "external_ids ?b1 = {''m1'', ''m2''}"
    by (auto simp: external_ids_def email_toCollectedItem_def sample_mail_def Let_def email_normalizeOptionalString_def)
  ultimately show ?thesis using chain by blast
qed

end
