(* ===== verification/Imap_Session.thy ===== *)
theory Imap_Session
  imports Imap_Client
begin

section \<open>Properties of the IMAP client\<close>

text \<open>
  Quoting against a reader of quoted strings, the bounds the client keeps whatever a server
  sends, the reading of a mailbox from a server that answers as the protocol asks, and the
  answer that makes the client panic.
\<close>

subsection \<open>Quoted strings\<close>

text \<open>The reading of a quoted string, as a server does it: the value and what follows it.\<close>

fun read_quoted_rest :: "string \<Rightarrow> (string \<times> string) option" where
  "read_quoted_rest [] = None"
| "read_quoted_rest (b # s) =
     (if b = CHR 0x22 then Some ([], s)
      else if b = CHR 0x5C then
        (case s of
           [] \<Rightarrow> None
         | b' # s' \<Rightarrow>
             if b' = CHR 0x22 \<or> b' = CHR 0x5C then map_option (map_prod ((#) b') id) (read_quoted_rest s')
             else None)
      else map_option (map_prod ((#) b) id) (read_quoted_rest s))"

fun read_quoted :: "string \<Rightarrow> (string \<times> string) option" where
  "read_quoted [] = None"
| "read_quoted (b # s) = (if b = CHR 0x22 then read_quoted_rest s else None)"

definition quote_byte :: "char \<Rightarrow> string" where
  "quote_byte b = (if b = CHR 0x5C \<or> b = CHR 0x22 then [CHR 0x5C, b] else [b])"

lemma quoteIMAPString_bytes: "quoteIMAPString v = CHR 0x22 # concat (map quote_byte v) @ [CHR 0x22]"
proof -
  have "concat (map (\<lambda>b. if b = CHR 0x22 then [CHR 0x5C, CHR 0x22] else [b])
      (concat (map (\<lambda>b. if b = CHR 0x5C then [CHR 0x5C, CHR 0x5C] else [b]) v))) = concat (map quote_byte v)"
    by (induction v) (auto simp: quote_byte_def)
  then show ?thesis by (simp add: quoteIMAPString_def Let_def)
qed

lemma read_quoted_rest_quote:
  "read_quoted_rest (concat (map quote_byte v) @ CHR 0x22 # rest) = Some (v, rest)"
  by (induction v) (auto simp: quote_byte_def)

text \<open>
  A server that reads the quoted string gets back the value, whatever bytes it has, and
  exactly the rest of the line after it: no user name, password or mailbox name ends its quotes
  early. Line breaks, which the protocol does not allow inside quotes, are let through as they
  are.
\<close>

theorem imap_quote_roundtrip:
  "read_quoted (quoteIMAPString v @ rest) = Some (v, rest) \<and>
   filter (\<lambda>b. b = cr \<or> b = lf) (quoteIMAPString v) = filter (\<lambda>b. b = cr \<or> b = lf) v"
proof -
  have "read_quoted (quoteIMAPString v @ rest) = Some (v, rest)"
    by (simp add: quoteIMAPString_bytes read_quoted_rest_quote)
  moreover have "filter (\<lambda>b. b = cr \<or> b = lf) (concat (map quote_byte v)) = filter (\<lambda>b. b = cr \<or> b = lf) v"
    by (induction v) (auto simp: quote_byte_def)
  ultimately show ?thesis by (simp add: quoteIMAPString_bytes)
qed


subsection \<open>Bounds\<close>

lemma fetch_answer_bounded:
  assumes "\<And>raw. raw \<noteq> [] \<Longrightarrow> int (length raw) \<le> defaultMaxMessageSize \<Longrightarrow> parse raw = parse' raw"
    "int (length raw) \<le> defaultMaxMessageSize"
  shows "fetch_answer parse tag uid raw c = fetch_answer parse' tag uid raw c"
  using assms
proof (induction parse tag uid raw c rule: fetch_answer.induct)
  case (1 parse tag uid raw c)
  obtain c1 r where line: "imap_readLine c = (c1, r)" by fastforce
  note unfold = fetch_answer.simps [of _ tag uid raw c] line prod.case
  show ?case
  proof (cases r)
    case (Inl e)
    then show ?thesis by (simp add: unfold)
  next
    case (Inr ln)
    show ?thesis
    proof (cases "has_prefix ln ''* '' \<and> str_contains ln ''RFC822 {''")
      case lit: True
      show ?thesis
      proof (cases "literalSize ln")
        case sz: (Inr n)
        show ?thesis
        proof (cases "n \<le> defaultMaxMessageSize \<and> 0 \<le> n")
          case True
          obtain c2 r2 where full: "read_full (nat n) c1 = (c2, r2)" by fastforce
          show ?thesis
          proof (cases r2)
            case raw': (Inr raw')
            have "length raw' = nat n" using full raw' by (auto simp: read_full_def split: if_splits)
            then have "int (length raw') \<le> defaultMaxMessageSize" using True by simp
            then have "fetch_answer parse tag uid raw' c2 = fetch_answer parse' tag uid raw' c2"
              using 1(1) [OF line [symmetric] Inr lit sz _ _ full [symmetric] raw' 1(3)] True by simp
            then show ?thesis using True lit sz full raw' Inr by (simp add: unfold)
          qed (use True lit sz full Inr in \<open>simp add: unfold\<close>)
        qed (use lit sz Inr in \<open>auto simp: unfold\<close>)
      qed (use lit Inr in \<open>simp add: unfold\<close>)
    next
      case nolit: False
      show ?thesis
      proof (cases "has_prefix ln (tag @ '' OK'') \<or> has_prefix ln (tag @ '' NO'') \<or> has_prefix ln (tag @ '' BAD'')")
        case True
        have "raw \<noteq> [] \<Longrightarrow> parse raw = parse' raw" using 1(3,4) by blast
        then show ?thesis using True nolit Inr by (auto simp: unfold)
      next
        case False
        then have "fetch_answer parse tag uid raw c1 = fetch_answer parse' tag uid raw c1"
          using 1(2) [OF line [symmetric] Inr nolit _ _ 1(3) 1(4)] by simp
        then show ?thesis using False nolit Inr by (auto simp: unfold)
      qed
    qed
  qed
qed

text \<open>
  C27. Whatever a server sends, the client parses a message of at most 10 MiB, and never an empty
  one: two parsers that agree on those make no difference to a fetch. And a fetch, whatever its
  outcome, only ever moves forward in what the server sends.
\<close>

theorem imap_fetch_bounded:
  assumes "\<And>raw. raw \<noteq> [] \<Longrightarrow> length raw \<le> 10485760 \<Longrightarrow> parse raw = parse' raw"
  shows "fetchUIDRFC822 parse i c = fetchUIDRFC822 parse' i c"
proof -
  have "fetch_answer parse tag uid [] c' = fetch_answer parse' tag uid [] c'" for tag uid c'
  proof (rule fetch_answer_bounded)
    show "parse raw = parse' raw" if "raw \<noteq> []" "int (length raw) \<le> defaultMaxMessageSize" for raw
      using that by (intro assms) (simp_all add: defaultMaxMessageSize_def)
  qed (simp add: defaultMaxMessageSize_def)
  then show ?thesis by (simp add: fetchUIDRFC822_def split: prod.split sum.split)
qed

definition sample_client :: "string \<Rightarrow> imap_client" where
  "sample_client input =
     \<lparr>ic_input = input, ic_read_error = Plain ''EOF'', ic_written = [], ic_write_fault = (\<lambda>_. None), ic_nextID = 1\<rparr>"

theorem imap_fetch_bounded_witness:
  "fetchUIDRFC822 (\<lambda>raw. if length raw \<le> 10485760 \<and> raw \<noteq> [] then Inl (Plain raw) else Inl (Plain ''never''))
     ''7'' (sample_client ''* 1 FETCH'') =
   fetchUIDRFC822 (\<lambda>raw. Inl (Plain raw)) ''7'' (sample_client ''* 1 FETCH'')"
  by (rule imap_fetch_bounded) simp


subsection \<open>Lines and literals\<close>

lemma has_prefix_self [simp]: "has_prefix (p @ s) p"
  by (simp add: has_prefix_def)

lemma imap_readLine_split:
  assumes "imap_readLine c = (c', Inr ln)"
  shows "\<exists>raw. ic_input c = raw @ lf # ic_input c' \<and> lf \<notin> set raw \<and> ln = trim_right [cr, lf] raw"
proof -
  let ?raw = "takeWhile (\<lambda>b. b \<noteq> lf) (ic_input c)"
  obtain b rest where d: "dropWhile (\<lambda>b. b \<noteq> lf) (ic_input c) = b # rest"
    using assms by (cases "dropWhile (\<lambda>b. b \<noteq> lf) (ic_input c)") (simp_all add: imap_readLine_def del: dropWhile_eq_Nil_conv)
  then have "b = lf" using hd_dropWhile [of "\<lambda>b. b \<noteq> lf" "ic_input c"] by simp
  then have "ic_input c = ?raw @ lf # rest" using d takeWhile_dropWhile_id [of "\<lambda>b. b \<noteq> lf" "ic_input c"] by simp
  moreover have "ic_input c' = rest" "ln = trim_right [cr, lf] ?raw"
    using assms d by (auto simp: imap_readLine_def)
  moreover have "lf \<notin> set ?raw" by (auto dest: set_takeWhileD)
  ultimately show ?thesis by blast
qed

lemma last_index_append:
  assumes "b \<notin> set post"
  shows "last_index b (pre @ b # post) = int (length pre)"
proof -
  have "takeWhile (\<lambda>x. x \<noteq> b) (rev post @ b # rev pre) = rev post"
    by (subst takeWhile_append2) (use assms in auto)
  then show ?thesis by (simp add: last_index_def)
qed

lemma literalSize_eq:
  assumes "CHR ''{'' \<notin> set ds" "CHR ''}'' \<notin> set ds"
  shows "literalSize (pre @ CHR ''{'' # ds @ [CHR ''}'']) =
    (case parse_int64 ds of
       Inl _ \<Rightarrow> Inl (Wrapf ''parse imap literal size: '' (Plain ''strconv.Atoi'') '''')
     | Inr n \<Rightarrow> Inr n)"
proof -
  have "last_index (CHR ''{'') (pre @ CHR ''{'' # ds @ [CHR ''}'']) = int (length pre)"
    using assms(1) by (intro last_index_append) auto
  moreover have "last_index (CHR ''}'') ((pre @ CHR ''{'' # ds) @ CHR ''}'' # []) = int (length (pre @ CHR ''{'' # ds))"
    by (rule last_index_append) simp
  ultimately show ?thesis by (simp add: literalSize_def Let_def nat_add_distrib)
qed

lemma fmt_nat_digits: "c \<in> set (fmt_nat n) \<Longrightarrow> is_digit c"
  using fmt_nat_facts [of n] by (auto simp: list_all_iff)

lemma digit_not [simp]: "is_digit c \<Longrightarrow> c \<noteq> CHR ''{''" "is_digit c \<Longrightarrow> c \<noteq> CHR ''}''" "is_digit c \<Longrightarrow> c \<noteq> cr"
  "is_digit c \<Longrightarrow> c \<noteq> lf" "is_digit c \<Longrightarrow> c \<noteq> CHR '' ''" "is_digit c \<Longrightarrow> visible c"
  by (auto simp: is_digit_def visible_def)

lemma digits_not_in [simp]:
  "CHR ''{'' \<notin> set (fmt_nat n)" "CHR ''}'' \<notin> set (fmt_nat n)" "cr \<notin> set (fmt_nat n)" "lf \<notin> set (fmt_nat n)"
  using digit_not fmt_nat_digits by metis+

lemma literalSize_int:
  assumes "in_int64 k"
  shows "literalSize (pre @ CHR ''{'' # fmt_int k @ [CHR ''}'']) = Inr k"
proof -
  have "CHR ''{'' \<notin> set (fmt_int k)" "CHR ''}'' \<notin> set (fmt_int k)" by (auto simp: fmt_int_def)
  then show ?thesis using assms by (simp add: literalSize_eq parse_fmt_int)
qed


subsection \<open>Panics\<close>

lemma fetch_answer_panic:
  "fetch_answer parse tag uid raw c = None \<Longrightarrow>
     \<exists>pre ln post k. ic_input c = pre @ ln @ lf # post \<and> literalSize (trim_right [cr, lf] ln) = Inr k \<and> k < 0"
proof (induction parse tag uid raw c rule: fetch_answer.induct)
  case (1 parse tag uid raw c)
  obtain c1 r where line: "imap_readLine c = (c1, r)" by fastforce
  note unfold = fetch_answer.simps [of _ tag uid raw c] line prod.case
  obtain ln where r: "r = Inr ln" using 1(3) by (cases r) (simp_all add: unfold)
  obtain bytes where split: "ic_input c = bytes @ lf # ic_input c1" "ln = trim_right [cr, lf] bytes"
    using imap_readLine_split line r by blast
  have goal: ?case if "ic_input c1 = skip @ pre @ ln' @ lf # post" "literalSize (trim_right [cr, lf] ln') = Inr k" "k < 0"
    for skip pre ln' post k
  proof -
    have "ic_input c = (bytes @ lf # skip @ pre) @ ln' @ lf # post" using split(1) that(1) by simp
    then show ?thesis using that(2,3) by blast
  qed
  show ?case
  proof (cases "has_prefix ln ''* '' \<and> str_contains ln ''RFC822 {''")
    case lit: True
    obtain k where k: "literalSize ln = Inr k" "k \<le> defaultMaxMessageSize"
      using 1(3) lit r by (cases "literalSize ln") (auto simp: unfold split: if_splits)
    show ?thesis
    proof (cases "k < 0")
      case True
      have "ic_input c = [] @ bytes @ lf # ic_input c1" using split(1) by simp
      then show ?thesis using k(1) split(2) True by blast
    next
      case False
      obtain c2 r2 where full: "read_full (nat k) c1 = (c2, r2)" by fastforce
      obtain raw' where r2: "r2 = Inr raw'" using 1(3) lit r k False full by (cases r2) (simp_all add: unfold)
      have "fetch_answer parse tag uid raw' c2 = None" using 1(3) lit r k False full r2 by (simp add: unfold)
      then obtain pre ln' post k' where h: "ic_input c2 = pre @ ln' @ lf # post"
        "literalSize (trim_right [cr, lf] ln') = Inr k'" "k' < 0"
        using 1(1) [OF line [symmetric] r lit k(1) _ False full [symmetric] r2] k(2) by auto
      have "ic_input c1 = raw' @ ic_input c2" using full r2 by (auto simp: read_full_def split: if_splits)
      then show ?thesis using goal [of raw' pre ln' post k'] h by simp
    qed
  next
    case nolit: False
    have "\<not> has_prefix ln (tag @ '' OK'')" "\<not> (has_prefix ln (tag @ '' NO'') \<or> has_prefix ln (tag @ '' BAD''))"
      using 1(3) nolit r by (auto simp: unfold split: if_splits sum.splits)
    moreover from this have "fetch_answer parse tag uid raw c1 = None" using 1(3) nolit r by (auto simp: unfold)
    ultimately obtain pre ln' post k' where h: "ic_input c1 = pre @ ln' @ lf # post"
        "literalSize (trim_right [cr, lf] ln') = Inr k'" "k' < 0"
      using 1(2) [OF line [symmetric] r nolit] by blast
    then show ?thesis using goal [of "[]"] by simp
  qed
qed

lemma trim_right_crlf: "ln = [] \<or> last ln \<noteq> cr \<and> last ln \<noteq> lf \<Longrightarrow> trim_right [cr, lf] (ln @ [cr]) = ln"
proof (cases ln rule: rev_cases)
  case (snoc s b)
  assume "ln = [] \<or> last ln \<noteq> cr \<and> last ln \<noteq> lf"
  then show ?thesis using snoc by (simp add: trim_right_def)
qed (simp add: trim_right_def)

lemma imap_readLine_crlf:
  assumes "ic_input c = ln @ cr # lf # rest" "lf \<notin> set ln" "ln = [] \<or> last ln \<noteq> cr \<and> last ln \<noteq> lf"
  shows "imap_readLine c = (c\<lparr>ic_input := rest\<rparr>, Inr ln)"
proof -
  have "dropWhile (\<lambda>b. b \<noteq> lf) ((ln @ [cr]) @ lf # rest) = lf # rest"
    "takeWhile (\<lambda>b. b \<noteq> lf) ((ln @ [cr]) @ lf # rest) = ln @ [cr]"
    using assms(2) by (subst dropWhile_append2 takeWhile_append2; auto)+
  then show ?thesis using trim_right_crlf [OF assms(3)] by (simp add: imap_readLine_def assms(1))
qed

text \<open>
  A fetch panics only on a line of the server that announces a literal of negative size; and on
  such a line it does: the server behind an email source can stop the process that collects it.
\<close>

theorem imap_negative_literal_panics:
  "(fetchUIDRFC822 parse i c = None \<longrightarrow>
     (\<exists>pre ln post k. ic_input c = pre @ ln @ lf # post \<and> literalSize (trim_right [cr, lf] ln) = Inr k \<and> k < 0)) \<and>
   fetchUIDRFC822 parse ''7'' (sample_client (''* 1 FETCH (RFC822 {-1}'' @ [cr, lf])) = None"
proof (intro conjI impI)
  assume "fetchUIDRFC822 parse i c = None"
  then obtain tag uid c' where none: "fetch_answer parse tag uid [] c' = None" and c': "ic_input c' = ic_input c"
    by (auto simp: fetchUIDRFC822_def imap_nextTag_def imap_writeCommand_def Let_def split: sum.splits option.splits)
  show "\<exists>pre ln post k. ic_input c = pre @ ln @ lf # post \<and> literalSize (trim_right [cr, lf] ln) = Inr k \<and> k < 0"
    using fetch_answer_panic [OF none] c' by simp
next
  let ?ln = "''* 1 FETCH (RFC822 '' @ CHR ''{'' # fmt_int (- 1) @ [CHR ''}'']"
  have one: "fmt_int (- 1) = ''-1''" by code_simp
  have size: "literalSize ?ln = Inr (- 1)" by (rule literalSize_int) (simp add: in_int64_def)
  have "str_contains ?ln ''RFC822 {''"
  proof -
    have "?ln = ''* 1 FETCH ('' @ ''RFC822 {'' @ ''-1}''" by (simp add: one)
    then show ?thesis unfolding str_contains_iff by blast
  qed
  moreover have "has_prefix ?ln ''* ''" by (simp add: has_prefix_def)
  moreover have "imap_readLine (c\<lparr>ic_input := ?ln @ [cr, lf]\<rparr>) = (c\<lparr>ic_input := []\<rparr>, Inr ?ln)" for c
    by (subst imap_readLine_crlf) (auto simp: one)
  ultimately have "fetch_answer parse tag uid [] (c\<lparr>ic_input := ?ln @ [cr, lf]\<rparr>) = None" for tag uid c
    using size by (simp add: fetch_answer.simps defaultMaxMessageSize_def)
  from this [of _ _ "sample_client [] \<lparr>ic_written := _, ic_nextID := _\<rparr>"]
  show "fetchUIDRFC822 parse ''7'' (sample_client (''* 1 FETCH (RFC822 {-1}'' @ [cr, lf])) = None"
    by (simp add: fetchUIDRFC822_def imap_nextTag_def imap_writeCommand_def sample_client_def one
        parse_int64_def is_digit_def Let_def in_int64_def read_nat_def digit_val_def)
qed

theorem imap_negative_literal_panics_witness:
  "\<exists>pre ln post k. ''* 1 FETCH (RFC822 {-1}'' @ [cr, lf] = pre @ ln @ lf # post \<and>
     literalSize (trim_right [cr, lf] ln) = Inr k \<and> k < 0"
proof -
  have input: "ic_input (sample_client s) = s" for s by (simp add: sample_client_def)
  show ?thesis
    using imap_negative_literal_panics [of "\<lambda>_. Inl (Plain [])" "''7''" "sample_client (''* 1 FETCH (RFC822 {-1}'' @ [cr, lf])"]
      imap_negative_literal_panics [of "\<lambda>_. Inl (Plain [])"] unfolding input by blast
qed


subsection \<open>A mailbox read from a server that answers\<close>

text \<open>
  What a server sends that has the messages \<open>ms\<close>, with their UIDs: a greeting and an answer to
  each command. An answer is its data (the found UIDs in one line, a message as a literal) and
  the line under the command's tag, with any untagged lines (\<open>* 2 EXISTS\<close>, \<open>* BYE\<close>, capabilities)
  before either; the texts of the lines and the sequence numbers are the server's.
\<close>

record imap_server =
  sv_greeting :: string
  sv_before :: "nat \<Rightarrow> string list"
  sv_after :: "nat \<Rightarrow> string list"
  sv_text :: "nat \<Rightarrow> string"
  sv_number :: "nat \<Rightarrow> int"

definition tag_of :: "nat \<Rightarrow> string" where
  "tag_of k = ''A'' @ fmt_width 3 (int k)"

definition crlf :: "string \<Rightarrow> string" where
  "crlf ln = ln @ [cr, lf]"

definition one_line :: "string \<Rightarrow> bool" where
  "one_line ln \<longleftrightarrow> lf \<notin> set ln \<and> (ln = [] \<or> last ln \<noteq> cr)"

text \<open>An untagged line that carries neither found UIDs nor a message.\<close>

definition untagged :: "string \<Rightarrow> bool" where
  "untagged ln \<longleftrightarrow>
     one_line ln \<and> has_prefix ln ''* '' \<and> \<not> has_prefix ln ''* SEARCH'' \<and> \<not> str_contains ln ''RFC822 {''"

definition orderly :: "imap_server \<Rightarrow> bool" where
  "orderly sv \<longleftrightarrow>
     one_line (sv_greeting sv) \<and> (\<forall>k. one_line (sv_text sv k)) \<and>
     (\<forall>k. \<forall>ln \<in> set (sv_before sv k) \<union> set (sv_after sv k). untagged ln)"

abbreviation crlfs :: "string list \<Rightarrow> string" where
  "crlfs lns \<equiv> concat (map crlf lns)"

definition tagged_ok :: "imap_server \<Rightarrow> nat \<Rightarrow> string" where
  "tagged_ok sv k = crlfs (sv_after sv k) @ crlf (tag_of k @ '' OK'' @ sv_text sv k)"

definition answer_of :: "imap_server \<Rightarrow> nat \<Rightarrow> string \<Rightarrow> string" where
  "answer_of sv k data = crlfs (sv_before sv k) @ data @ tagged_ok sv k"

definition search_line :: "int list \<Rightarrow> string" where
  "search_line uids = ''* SEARCH'' @ concat (map (\<lambda>uid. '' '' @ fmt_int uid) uids)"

definition literal_line :: "int \<Rightarrow> int \<times> string \<Rightarrow> string" where
  "literal_line n m =
     ''* '' @ fmt_int n @ '' FETCH (UID '' @ fmt_int (fst m) @ '' RFC822 '' @ CHR ''{'' # fmt_int (int (length (snd m))) @ [CHR ''}'']"

fun fetch_replies :: "imap_server \<Rightarrow> nat \<Rightarrow> (int \<times> string) list \<Rightarrow> string" where
  "fetch_replies sv k [] = []"
| "fetch_replies sv k (m # ms) =
     answer_of sv k (crlf (literal_line (sv_number sv k) m) @ snd m @ crlf '')'') @ fetch_replies sv (Suc k) ms"

definition server_script :: "imap_server \<Rightarrow> (int \<times> string) list \<Rightarrow> string" where
  "server_script sv ms =
     crlf (''* OK'' @ sv_greeting sv) @ answer_of sv 1 [] @ answer_of sv 2 [] @
     answer_of sv 3 (crlf (search_line (map fst ms))) @ fetch_replies sv 4 ms @ answer_of sv (4 + length ms) []"

definition client_at :: "go_error \<Rightarrow> string \<Rightarrow> string list \<Rightarrow> nat \<Rightarrow> imap_client" where
  "client_at e input written k =
     \<lparr>ic_input = input, ic_read_error = e, ic_written = written, ic_write_fault = (\<lambda>_. None), ic_nextID = int k\<rparr>"

lemma fmt_int_bytes: "c \<in> set (fmt_int k) \<Longrightarrow> is_digit c \<or> c = CHR ''-''"
  by (auto simp: fmt_int_def split: if_splits dest: fmt_nat_digits)

lemma tag_bytes: "c \<in> set (tag_of k) \<Longrightarrow> is_digit c \<or> c = CHR ''A''"
  by (auto simp: tag_of_def fmt_width_def pad_left_def is_digit_def dest: fmt_nat_digits)

lemma lf_not_in_texts [simp]: "lf \<notin> set (tag_of k)" "lf \<notin> set (fmt_int n)"
  using tag_bytes [of lf k] fmt_int_bytes [of lf n] by (auto simp: is_digit_def)

lemma one_line_last: "one_line ln \<Longrightarrow> ln = [] \<or> last ln \<noteq> cr \<and> last ln \<noteq> lf"
  unfolding one_line_def using last_in_set by metis

lemma readLine_client_at:
  assumes "one_line ln"
  shows "imap_readLine (client_at e (crlf ln @ rest) w k) = (client_at e rest w k, Inr ln)"
  using assms imap_readLine_crlf [OF _ _ one_line_last [OF assms], of "client_at e (crlf ln @ rest) w k" rest]
  by (simp add: client_at_def crlf_def one_line_def)

lemma nextTag_client_at:
  "int k + 1 < 2 ^ 63 \<Longrightarrow> imap_nextTag (client_at e input w k) = (client_at e input w (Suc k), tag_of k)"
  by (simp add: imap_nextTag_def client_at_def tag_of_def in_int64_def add.commute)

lemma write_client_at:
  "imap_writeCommand tag cmd (client_at e input w k) =
     (client_at e input (w @ [crlf (tag @ '' '' @ cmd)]) k, Inr ())"
  by (simp add: imap_writeCommand_def client_at_def crlf_def)

lemma has_prefix_append2 [simp]: "has_prefix (p @ s) (p @ q) \<longleftrightarrow> has_prefix s q"
  by (simp add: has_prefix_def)

lemma tag_of_Cons: "tag_of k = CHR ''A'' # fmt_width 3 (int k)"
  by (simp add: tag_of_def)

text \<open>Every loop of the client passes over the untagged lines that are not for it.\<close>

lemma untagged_facts:
  assumes "untagged ln"
  shows "one_line ln" "\<not> has_prefix ln (tag_of k @ s)" "\<not> has_prefix ln ''* SEARCH''"
    "\<not> (has_prefix ln ''* '' \<and> str_contains ln ''RFC822 {'')"
proof -
  have "take 2 ln = ''* ''" using assms by (simp add: untagged_def has_prefix_def numeral_2_eq_2)
  then obtain xs where "ln = CHR ''*'' # xs" by (cases ln) (simp_all add: numeral_2_eq_2)
  then show "\<not> has_prefix ln (tag_of k @ s)" by (simp add: has_prefix_def tag_of_Cons)
qed (use assms in \<open>simp_all add: untagged_def\<close>)

lemma untagged_skipped:
  assumes "\<forall>ln \<in> set lns. untagged ln"
  shows "command_answer (tag_of k) (client_at e (crlfs lns @ rest) w j) = command_answer (tag_of k) (client_at e rest w j)"
    and "search_answer (tag_of k) ids (client_at e (crlfs lns @ rest) w j) = search_answer (tag_of k) ids (client_at e rest w j)"
    and "fetch_answer parse (tag_of k) uid raw (client_at e (crlfs lns @ rest) w j) =
           fetch_answer parse (tag_of k) uid raw (client_at e rest w j)"
proof -
  have line: "imap_readLine (client_at e (crlfs (ln # lns) @ rest) w j) = (client_at e (crlfs lns @ rest) w j, Inr ln)"
    if "untagged ln" for ln lns using readLine_client_at [OF untagged_facts(1) [OF that]] by simp
  show "command_answer (tag_of k) (client_at e (crlfs lns @ rest) w j) = command_answer (tag_of k) (client_at e rest w j)"
    using assms
  proof (induction lns)
    case (Cons ln lns)
    then have u: "untagged ln" by simp
    show ?case
      unfolding command_answer.simps [of _ "client_at e (crlfs (ln # lns) @ rest) w j"] line [OF u] prod.case sum.case
      using Cons untagged_facts(2) [OF u] by simp
  qed simp
  show "search_answer (tag_of k) ids (client_at e (crlfs lns @ rest) w j) = search_answer (tag_of k) ids (client_at e rest w j)"
    using assms
  proof (induction lns)
    case (Cons ln lns)
    then have u: "untagged ln" by simp
    show ?case
      unfolding search_answer.simps [of _ _ "client_at e (crlfs (ln # lns) @ rest) w j"] line [OF u] prod.case sum.case
      using Cons untagged_facts(2,3) [OF u] by simp
  qed simp
  show "fetch_answer parse (tag_of k) uid raw (client_at e (crlfs lns @ rest) w j) =
      fetch_answer parse (tag_of k) uid raw (client_at e rest w j)"
    using assms
  proof (induction lns)
    case (Cons ln lns)
    then have u: "untagged ln" by simp
    show ?case
      unfolding fetch_answer.simps [of _ _ _ _ "client_at e (crlfs (ln # lns) @ rest) w j"] line [OF u] prod.case sum.case
        if_not_P [OF untagged_facts(4) [OF u]]
      using Cons untagged_facts(2) [OF u] by simp
  qed simp
qed

lemma tagged_line:
  assumes "orderly sv"
  shows "imap_readLine (client_at e (crlf (tag_of k @ '' OK'' @ sv_text sv k) @ rest) w j) =
    (client_at e rest w j, Inr (tag_of k @ '' OK'' @ sv_text sv k))"
  using assms by (intro readLine_client_at) (auto simp: orderly_def one_line_def)

lemma orderly_lines:
  assumes "orderly sv"
  shows "\<forall>ln \<in> set (sv_before sv k). untagged ln" "\<forall>ln \<in> set (sv_after sv k). untagged ln"
  using assms by (auto simp: orderly_def)

lemma commandOK_client_at:
  assumes "orderly sv" "int k + 1 < 2 ^ 63"
  shows "commandOK cmd (client_at e (answer_of sv k [] @ rest) w k) =
           (client_at e rest (w @ [crlf (tag_of k @ '' '' @ cmd)]) (Suc k), Inr ())"
proof -
  have "command_answer (tag_of k) (client_at e (crlf (tag_of k @ '' OK'' @ sv_text sv k) @ rest) w' k') =
      (client_at e rest w' k', Inr ())" for w' k'
    unfolding command_answer.simps [of _ "client_at _ _ _ _"] tagged_line [OF assms(1)] prod.case sum.case
    by (simp add: has_prefix_def)
  then have "command_answer (tag_of k) (client_at e (answer_of sv k [] @ rest) w' k') = (client_at e rest w' k', Inr ())" for w' k'
    by (simp add: answer_of_def tagged_ok_def untagged_skipped(1) [OF orderly_lines(1) [OF assms(1)]]
        untagged_skipped(1) [OF orderly_lines(2) [OF assms(1)]])
  then show ?thesis by (simp add: commandOK_def nextTag_client_at [OF assms(2)] write_client_at)
qed

lemma literal_line_facts:
  assumes "length raw \<le> 10485760"
  shows "one_line (literal_line n (uid, raw))" "literalSize (literal_line n (uid, raw)) = Inr (int (length raw))"
    "has_prefix (literal_line n (uid, raw)) ''* ''" "str_contains (literal_line n (uid, raw)) ''RFC822 {''"
proof -
  show "one_line (literal_line n (uid, raw))" by (simp add: one_line_def literal_line_def)
  show "literalSize (literal_line n (uid, raw)) = Inr (int (length raw))"
    using literalSize_int [of "int (length raw)" "''* '' @ fmt_int n @ '' FETCH (UID '' @ fmt_int uid @ '' RFC822 ''"] assms
    by (simp add: in_int64_def literal_line_def)
  show "has_prefix (literal_line n (uid, raw)) ''* ''" by (simp add: has_prefix_def literal_line_def)
  have "literal_line n (uid, raw) = (''* '' @ fmt_int n @ '' FETCH (UID '' @ fmt_int uid @ '' '') @ ''RFC822 {'' @
      fmt_int (int (length raw)) @ [CHR ''}'']" by (simp add: literal_line_def)
  then show "str_contains (literal_line n (uid, raw)) ''RFC822 {''" unfolding str_contains_iff by blast
qed

lemma fetch_client_at:
  assumes "orderly sv" "int k + 1 < 2 ^ 63" "in_int64 uid" "raw \<noteq> []" "length raw \<le> 10485760" "parse raw = Inr msg"
  shows "fetchUIDRFC822 parse (fmt_int uid)
      (client_at e (answer_of sv k (crlf (literal_line n (uid, raw)) @ raw @ crlf '')'') @ rest) w k) =
    Some (client_at e rest (w @ [crlf (tag_of k @ '' UID FETCH '' @ fmt_int uid @ '' RFC822'')]) (Suc k),
          Inr (msg\<lparr>em_uid := uid\<rparr>))"
proof -
  let ?tail = "crlf '')'' @ tagged_ok sv k @ rest"
  note lit = literal_line_facts [OF assms(5), of n uid]
  have full: "read_full (length raw) (client_at e (raw @ ?tail) w' k') = (client_at e ?tail w' k', Inr raw)" for w' k'
    by (simp add: read_full_def client_at_def)
  have line2: "imap_readLine (client_at e ?tail w' k') = (client_at e (tagged_ok sv k @ rest) w' k', Inr '')'')" for w' k'
    by (intro readLine_client_at) (simp add: one_line_def)
  have "fetch_answer parse (tag_of k) uid raw (client_at e (crlf (tag_of k @ '' OK'' @ sv_text sv k) @ rest) w' k') =
      Some (client_at e rest w' k', Inr (msg\<lparr>em_uid := uid\<rparr>))" for w' k'
    unfolding fetch_answer.simps [of _ _ _ _ "client_at _ _ _ _"] tagged_line [OF assms(1)] prod.case sum.case
    using assms(4,6) by (simp add: has_prefix_def tag_of_Cons)
  then have last_line: "fetch_answer parse (tag_of k) uid raw (client_at e (tagged_ok sv k @ rest) w' k') =
      Some (client_at e rest w' k', Inr (msg\<lparr>em_uid := uid\<rparr>))" for w' k'
    by (simp add: tagged_ok_def untagged_skipped(3) [OF orderly_lines(2) [OF assms(1)]])
  have "fetch_answer parse (tag_of k) uid raw (client_at e ?tail w' k') =
      Some (client_at e rest w' k', Inr (msg\<lparr>em_uid := uid\<rparr>))" for w' k'
    unfolding fetch_answer.simps [of _ _ _ _ "client_at _ ?tail _ _"] line2 prod.case sum.case last_line
    by (simp add: has_prefix_def tag_of_Cons)
  then have "fetch_answer parse (tag_of k) uid [] (client_at e (crlf (literal_line n (uid, raw)) @ raw @ ?tail) w' k') =
      Some (client_at e rest w' k', Inr (msg\<lparr>em_uid := uid\<rparr>))" for w' k'
    unfolding fetch_answer.simps [of _ _ _ _ "client_at _ (crlf _ @ raw @ ?tail) _ _"] readLine_client_at [OF lit(1)]
      prod.case sum.case
    using lit assms(5) full by (simp add: defaultMaxMessageSize_def)
  then have "fetch_answer parse (tag_of k) uid []
      (client_at e (answer_of sv k (crlf (literal_line n (uid, raw)) @ raw @ crlf '')'') @ rest) w' k') =
      Some (client_at e rest w' k', Inr (msg\<lparr>em_uid := uid\<rparr>))" for w' k'
    by (simp add: answer_of_def untagged_skipped(3) [OF orderly_lines(1) [OF assms(1)]])
  then show ?thesis
    by (simp add: fetchUIDRFC822_def nextTag_client_at [OF assms(2)] write_client_at parse_fmt_int [OF assms(3)])
qed

lemma strings_fields_words:
  assumes "list_all visible w" "w \<noteq> []" "list_all (\<lambda>v. list_all visible v \<and> v \<noteq> []) ws"
  shows "strings_fields (w @ concat (map (\<lambda>v. '' '' @ v) ws)) = w # ws"
  using assms unfolding strings_fields_def
proof (induction ws arbitrary: w)
  case Nil
  then show ?case using fields_from_visible [of w "[]" "[]"] by simp
next
  case (Cons v ws)
  then show ?case by (simp add: fields_from_visible fields_from_space del: strings_fields_from.simps(3))
qed

lemma visible_chars [simp]:
  "visible (CHR ''*'')" "visible (CHR ''S'')" "visible (CHR ''E'')" "visible (CHR ''A'')" "visible (CHR ''R'')"
  "visible (CHR ''C'')" "visible (CHR ''H'')" "visible (CHR ''-'')" "\<not> visible cr" "\<not> visible lf"
  by (simp_all add: visible_def)

lemma visible_fmt_int_char: "c \<in> set (fmt_int n) \<Longrightarrow> visible c"
  using fmt_int_bytes digit_not(6) visible_chars(8) by metis

lemma visible_fmt_int: "list_all visible (fmt_int n)" "fmt_int n \<noteq> []"
  using visible_fmt_int_char fmt_nat_facts by (auto simp: list_all_iff fmt_int_def)

lemma search_fields: "drop 2 (strings_fields (search_line uids)) = map fmt_int uids"
proof -
  have "search_line uids = ''*'' @ concat (map (\<lambda>v. '' '' @ v) (''SEARCH'' # map fmt_int uids))"
    by (simp add: search_line_def comp_def)
  moreover have "strings_fields (''*'' @ concat (map (\<lambda>v. '' '' @ v) (''SEARCH'' # map fmt_int uids))) =
      ''*'' # ''SEARCH'' # map fmt_int uids"
    by (rule strings_fields_words) (auto simp: list_all_iff visible_fmt_int visible_fmt_int_char)
  ultimately show ?thesis by simp
qed

lemma search_line_bytes: "one_line (search_line uids)"
proof -
  have b: "c = CHR '' '' \<or> visible c" if "c \<in> set (search_line uids)" for c
    using that visible_fmt_int_char by (auto simp: search_line_def split: if_splits)
  have "last (search_line uids) \<in> set (search_line uids)" by (rule last_in_set) (simp add: search_line_def)
  from b [OF this] have "last (search_line uids) \<noteq> cr" by auto
  moreover have "lf \<notin> set (search_line uids)" using b [of lf] by auto
  ultimately show ?thesis by (simp add: one_line_def)
qed

definition search_command :: "int \<Rightarrow> string" where
  "search_command lastSeenUID =
     ''UID SEARCH UID '' @ fmt_int (let u = wrap64 (lastSeenUID + 1) in if u \<le> 0 then 1 else u) @ '':*''"

lemma search_client_at:
  assumes "orderly sv" "int k + 1 < 2 ^ 63"
  shows "searchUIDs lastSeenUID (client_at e (answer_of sv k (crlf (search_line uids)) @ rest) w k) =
    (client_at e rest (w @ [crlf (tag_of k @ '' '' @ search_command lastSeenUID)]) (Suc k), Inr (map fmt_int uids))"
proof -
  have "search_answer (tag_of k) ids (client_at e (crlf (tag_of k @ '' OK'' @ sv_text sv k) @ rest) w' k') =
      (client_at e rest w' k', Inr ids)" for ids w' k'
    unfolding search_answer.simps [of _ _ "client_at _ _ _ _"] tagged_line [OF assms(1)] prod.case sum.case
    by (simp add: has_prefix_def tag_of_Cons)
  then have "search_answer (tag_of k) ids (client_at e (tagged_ok sv k @ rest) w' k') = (client_at e rest w' k', Inr ids)"
    for ids w' k' by (simp add: tagged_ok_def untagged_skipped(2) [OF orderly_lines(2) [OF assms(1)]])
  moreover have "has_prefix (search_line uids) ''* SEARCH''" by (simp add: search_line_def has_prefix_def)
  ultimately have "search_answer (tag_of k) [] (client_at e (crlf (search_line uids) @ tagged_ok sv k @ rest) w' k') =
      (client_at e rest w' k', Inr (map fmt_int uids))" for w' k'
    unfolding search_answer.simps [of _ _ "client_at _ (crlf (search_line uids) @ _) _ _"]
      readLine_client_at [OF search_line_bytes] prod.case sum.case
    by (simp add: search_fields)
  then have "search_answer (tag_of k) [] (client_at e (answer_of sv k (crlf (search_line uids)) @ rest) w' k') =
      (client_at e rest w' k', Inr (map fmt_int uids))" for w' k'
    by (simp add: answer_of_def untagged_skipped(2) [OF orderly_lines(1) [OF assms(1)]])
  then show ?thesis
    by (simp add: searchUIDs_def nextTag_client_at [OF assms(2)] write_client_at search_command_def Let_def)
qed

definition fetch_commands :: "nat \<Rightarrow> (int \<times> string) list \<Rightarrow> string list" where
  "fetch_commands k ms =
     map (\<lambda>(i, m). crlf (tag_of (k + i) @ '' UID FETCH '' @ fmt_int (fst m) @ '' RFC822'')) (enumerate 0 ms)"

lemma fetch_commands_Cons:
  "fetch_commands k (m # ms) = crlf (tag_of k @ '' UID FETCH '' @ fmt_int (fst m) @ '' RFC822'') # fetch_commands (Suc k) ms"
proof -
  have "enumerate (Suc 0) ms = map (\<lambda>(i, m). (Suc i, m)) (enumerate 0 ms)"
    by (simp add: enumerate_eq_zip zip_map1 map_Suc_upt [symmetric] del: upt_Suc)
  then show ?thesis by (simp add: fetch_commands_def split_def)
qed

definition fetchable :: "(string \<Rightarrow> email_message result) \<Rightarrow> int \<times> string \<Rightarrow> bool" where
  "fetchable parse m \<longleftrightarrow> in_int64 (fst m) \<and> snd m \<noteq> [] \<and> length (snd m) \<le> 10485760 \<and> \<not> isl (parse (snd m))"

definition fetched :: "(string \<Rightarrow> email_message result) \<Rightarrow> int \<times> string \<Rightarrow> email_message" where
  "fetched parse m = (projr (parse (snd m)))\<lparr>em_uid := fst m\<rparr>"

lemma fetch_messages_client_at:
  assumes "list_all (fetchable parse) ms" "int k + int (length ms) + 1 < 2 ^ 63" "\<And>i. done i = None" "orderly sv"
  shows "fetch_messages parse done i (map (\<lambda>m. fmt_int (fst m)) ms) (client_at e (fetch_replies sv k ms @ rest) w k) =
    Some (client_at e rest (w @ fetch_commands k ms) (k + length ms), Inr (map (fetched parse) ms))"
  using assms(1,2)
proof (induction ms arbitrary: k i w)
  case Nil
  then show ?case by (simp add: fetch_commands_def)
next
  case (Cons m ms)
  obtain uid raw where m: "m = (uid, raw)" by fastforce
  obtain msg where msg: "parse raw = Inr msg" using Cons.prems(1) m by (cases "parse raw") (auto simp: fetchable_def)
  have "fetchUIDRFC822 parse (fmt_int uid) (client_at e (answer_of sv k (crlf (literal_line (sv_number sv k) (uid, raw)) @ raw @ crlf '')'') @
      fetch_replies sv (Suc k) ms @ rest) w k) =
    Some (client_at e (fetch_replies sv (Suc k) ms @ rest) (w @ [crlf (tag_of k @ '' UID FETCH '' @ fmt_int uid @ '' RFC822'')]) (Suc k),
          Inr (msg\<lparr>em_uid := uid\<rparr>))"
    using Cons.prems m msg by (intro fetch_client_at [OF assms(4)]) (auto simp: fetchable_def)
  then show ?case
    using Cons.IH [of "Suc k"] Cons.prems m msg
    by (simp add: assms(3) fetch_commands_Cons fetched_def)
qed

definition session_commands :: "email_config \<Rightarrow> string \<Rightarrow> (int \<times> string) list \<Rightarrow> string list" where
  "session_commands cfg password ms =
     [crlf (tag_of 1 @ '' '' @ login_command cfg password),
      crlf (tag_of 2 @ '' SELECT '' @ quoteIMAPString (mailbox_name cfg)),
      crlf (tag_of 3 @ '' '' @ search_command (ec_last_seen_uid cfg))] @
     fetch_commands 4 ms @ [crlf (tag_of (4 + length ms) @ '' LOGOUT'')]"

text \<open>
  C25. From a server that has the messages \<open>ms\<close> and answers as the protocol asks, with any untagged
  lines between (the sizes and flags of a selected mailbox, new mail arriving, the goodbye), the
  client reads exactly these messages, in order and with their UIDs, if each is one that it
  takes: not empty, at most 10 MiB and a mail it can parse. It sends the login, the selection, the
  search from the UID after the last seen one, one fetch per message and the logout, under fresh
  tags, and leaves nothing of the answers unread. (The writes succeed, the context is not ended.)
\<close>

theorem imap_reads_mailbox:
  fixes env :: imap_env
  defines "parse \<equiv> \<lambda>raw. readEmail (ie_lib env) (ie_mail env) (raw, None)"
  assumes "imapPassword (ie_getenv env) cfg = Inr password" "list_all (fetchable parse) ms"
    "int (length ms) + 5 < 2 ^ 63" "\<And>i. ie_done env i = None" "orderly sv"
  shows "\<exists>c. imap_session env cfg (newIMAPClient \<lparr>cn_input = server_script sv ms, cn_read_error = e, cn_write_fault = \<lambda>_. None\<rparr>) =
      Some (c, Inr (map (fetched parse) ms)) \<and>
    ic_written c = session_commands cfg password ms \<and> ic_input c = []"
proof -
  let ?cl = "client_at e" and ?hello = "crlf (''* OK'' @ sv_greeting sv)"
  let ?w1 = "[crlf (tag_of 1 @ '' '' @ login_command cfg password)]"
  let ?w2 = "?w1 @ [crlf (tag_of 2 @ '' '' @ ''SELECT '' @ quoteIMAPString (mailbox_name cfg))]"
  let ?w3 = "?w2 @ [crlf (tag_of 3 @ '' '' @ search_command (ec_last_seen_uid cfg))]"
  let ?logout = "answer_of sv (4 + length ms) [] @ []"
  let ?fetch = "fetch_replies sv 4 ms @ ?logout"
  let ?search = "answer_of sv 3 (crlf (search_line (map fst ms))) @ ?fetch"
  let ?select = "answer_of sv 2 [] @ ?search"
  let ?login = "answer_of sv 1 [] @ ?select"
  have start: "newIMAPClient \<lparr>cn_input = server_script sv ms, cn_read_error = e, cn_write_fault = \<lambda>_. None\<rparr> =
      ?cl (?hello @ ?login) [] 1"
    by (simp add: newIMAPClient_def client_at_def server_script_def)
  have "one_line (''* OK'' @ sv_greeting sv)" using assms(6) by (auto simp: orderly_def one_line_def)
  then have greet: "readGreeting (?cl (?hello @ ?login) [] 1) = (?cl ?login [] 1, Inr ())"
    unfolding readGreeting_def by (subst readLine_client_at) (simp_all add: has_prefix_def)
  have c1: "commandOK cmd (?cl ?login [] 1) = (?cl ?select [crlf (tag_of 1 @ '' '' @ cmd)] 2, Inr ())" for cmd
    using commandOK_client_at [OF assms(6), of 1 cmd e ?select "[]"] by (simp add: numeral_2_eq_2)
  have c2: "commandOK cmd (?cl ?select ?w1 2) = (?cl ?search (?w1 @ [crlf (tag_of 2 @ '' '' @ cmd)]) 3, Inr ())" for cmd
    using commandOK_client_at [OF assms(6), of 2 cmd e ?search ?w1] by simp
  have c3: "searchUIDs n (?cl ?search w 3) = (?cl ?fetch (w @ [crlf (tag_of 3 @ '' '' @ search_command n)]) 4, Inr (map fmt_int (map fst ms)))"
    for n w using search_client_at [OF assms(6), of 3 n e "map fst ms" ?fetch w] by simp
  have sel: "imap_select env cfg (?cl (?hello @ ?login) [] 1) = (?cl ?fetch ?w3 4, Inr (map (\<lambda>m. fmt_int (fst m)) ms))"
    unfolding imap_select_def greet bind_st.simps assms(2) c1 c2 c3 by (simp add: comp_def)
  have fetch: "fetch_messages parse (ie_done env) 0 (map (\<lambda>m. fmt_int (fst m)) ms) (?cl ?fetch ?w3 4) =
      Some (?cl ?logout (?w3 @ fetch_commands 4 ms) (4 + length ms), Inr (map (fetched parse) ms))"
    using assms(3,4) by (intro fetch_messages_client_at assms(5,6)) auto
  have out: "commandOK ''LOGOUT'' (?cl ?logout (?w3 @ fetch_commands 4 ms) (4 + length ms)) =
      (?cl [] ((?w3 @ fetch_commands 4 ms) @ [crlf (tag_of (4 + length ms) @ '' '' @ ''LOGOUT'')]) (Suc (4 + length ms)), Inr ())"
    using assms(4) by (intro commandOK_client_at [OF assms(6)]) auto
  have "imap_session env cfg (newIMAPClient \<lparr>cn_input = server_script sv ms, cn_read_error = e, cn_write_fault = \<lambda>_. None\<rparr>) =
      Some (?cl [] ((?w3 @ fetch_commands 4 ms) @ [crlf (tag_of (4 + length ms) @ '' '' @ ''LOGOUT'')]) (Suc (4 + length ms)),
        Inr (map (fetched parse) ms))"
    unfolding start imap_session_def sel prod.case sum.case fetch [unfolded parse_def] option.case out
    by (simp add: parse_def)
  then show ?thesis by (intro exI conjI) (assumption, simp_all add: client_at_def session_commands_def)
qed

text \<open>A server that reports the size of the mailbox when it is selected, new mail, and says goodbye.\<close>

definition sample_server :: imap_server where
  "sample_server =
     \<lparr>sv_greeting = '' ready'',
      sv_before = (\<lambda>k. if k = 2 then [''* 2 EXISTS'', ''* FLAGS (Seen)''] else []),
      sv_after = (\<lambda>k. if k = 3 then [''* 3 EXISTS''] else if k = 5 then [''* BYE''] else []),
      sv_text = (\<lambda>_. '' completed''), sv_number = (\<lambda>_. 2)\<rparr>"

lemma sample_server_orderly: "orderly sample_server"
proof -
  have n: "\<not> str_contains ln ''RFC822 {''" if "CHR ''{'' \<notin> set ln" for ln
    using that unfolding str_contains_iff by auto
  show ?thesis
    by (auto simp: orderly_def sample_server_def one_line_def untagged_def has_prefix_def n)
qed

definition sample_mail_lib :: mail_lib where
  "sample_mail_lib =
     \<lparr>ml_read_message = (\<lambda>r. Inr ([(''Subject'', ''News''), (''Message-Id'', ''m1'')], r)),
      ml_parse_date = (\<lambda>_. None), ml_media_type = (\<lambda>_. ('''', \<lambda>_. None, False)), ml_parts = (\<lambda>_ _. ([], None)),
      ml_quoted_printable = id, ml_base64 = id, ml_word_decode = Some, ml_parse_addresses = (\<lambda>_. Some []),
      ml_parse_html = (\<lambda>_. None)\<rparr>"

definition sample_imap_env :: imap_env where
  "sample_imap_env =
     \<lparr>ie_lib = sample_lib, ie_addr_text = (\<lambda>_. ''''), ie_handshake = (\<lambda>_ c. Inr c), ie_getenv = (\<lambda>_. ''pw''),
      ie_done = (\<lambda>_. None), ie_mail = sample_mail_lib\<rparr>"

definition sample_imap_config :: email_config where
  "sample_imap_config =
     \<lparr>ec_provider = ''imap'', ec_mailbox = '''', ec_host = ''mail.example'', ec_port = 0, ec_username = ''me'',
      ec_password = '''', ec_password_env = ''MAIL_PW'', ec_use_tls = None, ec_from_filter = '''',
      ec_recipient_alias = '''', ec_seen_message_ids = [], ec_last_seen_uid = 6\<rparr>"

lemma sample_mail_trims [simp]:
  "trim_space ''MAIL_PW'' = ''MAIL_PW''" "trim_space ''pw'' = ''pw''" "trim_space ''hello'' = ''hello''"
  "trim_space ''News'' = ''News''" "trim_space ''m1'' = ''m1''"
  by (simp_all add: trim_space_visible visible_def)

lemma sample_readEmail:
  "\<exists>msg. readEmail sample_lib sample_mail_lib (''hello'', None) = Inr msg \<and> em_subject msg = ''News'' \<and> em_body msg = ''hello''"
  by (simp add: readEmail_def sample_mail_lib_def readMessageBody_def readDecodedBody_def header_get_def to_lower_def
      ascii_only_def decodeHeader_def)

theorem imap_reads_mailbox_witness:
  "\<exists>c msg. imap_session sample_imap_env sample_imap_config
       (newIMAPClient \<lparr>cn_input = server_script sample_server [(7, ''hello'')], cn_read_error = Plain ''EOF'', cn_write_fault = \<lambda>_. None\<rparr>) =
     Some (c, Inr [msg]) \<and> em_uid msg = 7 \<and> em_subject msg = ''News'' \<and> length (ic_written c) = 5"
proof -
  obtain msg where msg: "readEmail sample_lib sample_mail_lib (''hello'', None) = Inr msg" "em_subject msg = ''News''"
    using sample_readEmail by blast
  have env: "ie_lib sample_imap_env = sample_lib" "ie_mail sample_imap_env = sample_mail_lib" "ie_done sample_imap_env i = None"
    for i by (simp_all add: sample_imap_env_def)
  have pw: "imapPassword (ie_getenv sample_imap_env) sample_imap_config = Inr ''pw''"
    by (simp add: imapPassword_def sample_imap_config_def sample_imap_env_def)
  have ok: "list_all (fetchable (\<lambda>raw. readEmail (ie_lib sample_imap_env) (ie_mail sample_imap_env) (raw, None))) [(7, ''hello'')]"
    by (simp add: fetchable_def env msg in_int64_def)
  obtain c where c: "imap_session sample_imap_env sample_imap_config
       (newIMAPClient \<lparr>cn_input = server_script sample_server [(7, ''hello'')], cn_read_error = Plain ''EOF'', cn_write_fault = \<lambda>_. None\<rparr>) =
     Some (c, Inr (map (fetched (\<lambda>raw. readEmail (ie_lib sample_imap_env) (ie_mail sample_imap_env) (raw, None))) [(7, ''hello'')]))"
    "ic_written c = session_commands sample_imap_config ''pw'' [(7, ''hello'')]"
    using imap_reads_mailbox [OF pw ok _ env(3) sample_server_orderly, of "Plain ''EOF''"] by auto
  have len: "length (ic_written c) = 5" unfolding c(2) by (simp add: session_commands_def fetch_commands_def)
  show ?thesis using c(1) len by (intro exI conjI) (auto simp: fetched_def env msg)
qed

end
