(* ===== verification/Source_Cache.thy ===== *)
theory Source_Cache
  imports Source_Redaction
begin

section \<open>The cache of source listings and the isolation of users\<close>

text \<open>
  The list cache of \<open>internal/module/source/cache.go\<close> keeps the contract of a list cache, so
  that listing through it is listing without it; users do not reach each other's sources;
  and what an update loses when another process writes in between.
\<close>

subsection \<open>The cache holds what was put in\<close>

definition source_dto_ok :: "source_dto \<Rightarrow> bool" where
  "source_dto_ok d \<longleftrightarrow>
     in_int64 (sd_id d) \<and> (\<exists>j. sd_config d = JsonText j) \<and> marshalable_opt (sd_last_fetched_at d) \<and>
     time_marshalable (sd_created_at d) \<and> time_marshalable (sd_updated_at d)"

definition source_list_ok :: "list_sources_response \<Rightarrow> bool" where
  "source_list_ok r \<longleftrightarrow>
     list_all source_dto_ok (lx_sources r) \<and> in_int64 (lx_total r) \<and> in_int64 (lx_limit r) \<and> in_int64 (lx_offset r)"

lemma dec_ptr_json_opt [simp]:
  "dec_ptr dec_str [] (json_opt JStr x) = Some x" "dec_ptr dec_time 0 (json_opt JTime t) = Some t"
  by (cases x; simp add: dec_ptr_def json_opt_def) (cases t; simp add: dec_ptr_def json_opt_def)

lemma source_keys_folded [simp]:
  "fold_key ''ID'' = ''id''" "fold_key ''Name'' = ''name''" "fold_key ''Type'' = ''type''"
  "fold_key ''URL'' = ''url''" "fold_key ''Config'' = ''config''" "fold_key ''IsActive'' = ''isactive''"
  "fold_key ''LastFetchedAt'' = ''lastfetchedat''" "fold_key ''LastFetchStatus'' = ''lastfetchstatus''"
  "fold_key ''LastFetchMessage'' = ''lastfetchmessage''" "fold_key ''CreatedAt'' = ''createdat''"
  "fold_key ''UpdatedAt'' = ''updatedat''" "fold_key ''Sources'' = ''sources''" "fold_key ''Total'' = ''total''"
  "fold_key ''Limit'' = ''limit''" "fold_key ''Offset'' = ''offset''"
  by (simp_all add: lower_byte_def)

lemma source_dto_roundtrip:
  assumes "source_dto_ok d"
  obtains j where "source_dto_json d = Some j" "unmarshal_struct set_source_field zero_source_dto (JsonText j) = Some d"
proof -
  obtain c where c: "sd_config d = JsonText c" using assms by (auto simp: source_dto_ok_def)
  let ?j = "JObj [(''ID'', JNum (sd_id d)), (''Name'', JStr (sd_name d)), (''Type'', JStr (sd_type d)),
             (''URL'', json_opt JStr (sd_url d)), (''Config'', c), (''IsActive'', JBool (sd_is_active d)),
             (''LastFetchedAt'', json_opt JTime (sd_last_fetched_at d)),
             (''LastFetchStatus'', JStr (sd_last_fetch_status d)),
             (''LastFetchMessage'', JStr (sd_last_fetch_message d)),
             (''CreatedAt'', JTime (sd_created_at d)), (''UpdatedAt'', JTime (sd_updated_at d))]"
  have "source_dto_json d = Some ?j" using assms c by (simp add: source_dto_json_def source_dto_ok_def)
  moreover have "unmarshal_struct set_source_field zero_source_dto (JsonText ?j) = Some d"
    using assms c
    by (simp add: set_source_field_def zero_source_dto_def source_dto_ok_def del: fold_key.simps)
  ultimately show thesis by (rule that)
qed

lemma source_list_roundtrip:
  assumes "source_list_ok r"
  obtains p where "marshal_source_list r = Some p" "unmarshal_source_list p = Some r"
proof -
  define enc where "enc = (\<lambda>d. the (source_dto_json d))"
  have e: "source_dto_json d = Some (enc d)"
    "unmarshal_struct set_source_field zero_source_dto (JsonText (enc d)) = Some d" if "d \<in> set (lx_sources r)" for d
    using assms that by (auto simp: source_list_ok_def list_all_iff enc_def elim!: source_dto_roundtrip)
  have m: "those (map source_dto_json (lx_sources r)) = Some (map enc (lx_sources r))"
    using e(1) by (rule those_map_SomeI)
  have "those (map (unmarshal_struct set_source_field zero_source_dto \<circ> (\<lambda>d. JsonText (enc d))) (lx_sources r)) =
      Some (map id (lx_sources r))"
    by (rule those_map_SomeI) (simp add: e(2))
  then have d: "dec_list (unmarshal_struct set_source_field) zero_source_dto (JArr (map enc (lx_sources r))) old =
      Some (lx_sources r)" for old
    by (simp add: dec_list_def comp_def)
  show thesis
  proof (rule that)
    show "marshal_source_list r = Some (JsonText (JObj
          [(''Sources'', JArr (map enc (lx_sources r))), (''Total'', JNum (lx_total r)), (''Limit'', JNum (lx_limit r)),
           (''Offset'', JNum (lx_offset r))]))"
      by (simp add: marshal_source_list_def m)
    show "unmarshal_source_list (JsonText (JObj
          [(''Sources'', JArr (map enc (lx_sources r))), (''Total'', JNum (lx_total r)), (''Limit'', JNum (lx_limit r)),
           (''Offset'', JNum (lx_offset r))])) = Some r"
      using assms by (simp add: unmarshal_source_list_def set_source_list_field_def source_list_ok_def d del: fold_key.simps)
  qed
qed

subsection \<open>Keys of the cache\<close>

definition source_req_ok :: "list_sources_request \<Rightarrow> bool" where
  "source_req_ok q \<longleftrightarrow> lr_type q = [] \<or> IsValidType (lr_type q)"

lemma source_req_ok_colon: "source_req_ok q \<Longrightarrow> CHR '':'' \<notin> set (lr_type q)"
  by (auto simp: source_req_ok_def IsValidType_def)

lemma source_listKey_parts:
  "source_listKey pfx q = (pfx @ '':user:'') @ fmt_int (lr_user_id q) @ CHR '':'' # ''type:'' @
     lr_type q @ CHR '':'' # ''limit:'' @ fmt_int (lr_limit q) @ CHR '':'' # ''offset:'' @ fmt_int (lr_offset q)"
  by (simp add: source_listKey_def)

lemma source_listKey_inject:
  assumes "source_req_ok q" "source_req_ok q'" "source_listKey pfx q = source_listKey pfx q'"
  shows "q = q'"
proof -
  note colon = assms(1,2) [THEN source_req_ok_colon]
  from assms(3) have "fmt_int (lr_user_id q) @ CHR '':'' # ''type:'' @
     lr_type q @ CHR '':'' # ''limit:'' @ fmt_int (lr_limit q) @ CHR '':'' # ''offset:'' @ fmt_int (lr_offset q) =
     fmt_int (lr_user_id q') @ CHR '':'' # ''type:'' @
     lr_type q' @ CHR '':'' # ''limit:'' @ fmt_int (lr_limit q') @ CHR '':'' # ''offset:'' @ fmt_int (lr_offset q')"
    by (simp add: source_listKey_parts)
  from split_first [OF this] have u: "lr_user_id q = lr_user_id q'"
    and t: "lr_type q @ CHR '':'' # ''limit:'' @ fmt_int (lr_limit q) @ CHR '':'' # ''offset:'' @ fmt_int (lr_offset q) =
     lr_type q' @ CHR '':'' # ''limit:'' @ fmt_int (lr_limit q') @ CHR '':'' # ''offset:'' @ fmt_int (lr_offset q')"
    by simp_all
  from split_first [OF t colon] have ty: "lr_type q = lr_type q'"
    and l: "fmt_int (lr_limit q) @ CHR '':'' # ''offset:'' @ fmt_int (lr_offset q) =
     fmt_int (lr_limit q') @ CHR '':'' # ''offset:'' @ fmt_int (lr_offset q')"
    by simp_all
  from split_first [OF l] have "lr_limit q = lr_limit q'" "lr_offset q = lr_offset q'" by simp_all
  with u ty show ?thesis by simp
qed

lemma user_pattern_source:
  "plain_text pfx \<Longrightarrow> glob (user_pattern pfx uid) (source_listKey pfx q) \<longleftrightarrow> lr_user_id q = uid"
  using user_pattern_key [of pfx uid "lr_user_id q"] by (simp add: source_listKey_parts)


subsection \<open>The cache keeps its contract\<close>

definition source_cache_prefix :: string where
  "source_cache_prefix = ''cache:sources''"

lemma plain_source_prefix: "plain_text source_cache_prefix"
  by (simp add: source_cache_prefix_def plain_text_def)

lemma source_get_eq:
  "SourceCache_GetList pfx redis_ok now q r =
     (case redis_get now (source_listKey pfx q) r of
           None \<Rightarrow> Inr None
         | Some v \<Rightarrow>
           (case unmarshal_source_list (redis_bytes v) of
              None \<Rightarrow> Inl (Wrapf ''unmarshal source list cache: '' (Plain ''json: cannot unmarshal'') '''')
            | Some resp \<Rightarrow> Inr (Some resp)))"
  by (simp add: SourceCache_GetList_def)

interpretation source_cache: json_list_cache
  "SourceCache_GetList source_cache_prefix" "SourceCache_SetList source_cache_prefix"
  "SourceCache_DeleteUser source_cache_prefix" lr_user_id source_req_ok source_list_ok
  "source_listKey source_cache_prefix" "user_pattern source_cache_prefix"
  marshal_source_list unmarshal_source_list
  "Wrapf ''unmarshal source list cache: '' (Plain ''json: cannot unmarshal'') ''''"
proof
  fix fault now q r resp
  assume "SourceCache_GetList source_cache_prefix fault now q r = Inr (Some resp)"
  then show "SourceCache_GetList source_cache_prefix redis_ok now q r = Inr (Some resp)"
    by (auto simp: SourceCache_GetList_def split: redis_outcome.splits)
next
  fix resp p fault q r and now ttl :: int
  assume "marshal_source_list resp = Some p"
  then show "fst (SourceCache_SetList source_cache_prefix fault now q resp ttl r) =
      fst (redis_write (fault RsSet) (redis_set (source_listKey source_cache_prefix q) (RJson p) (Some (now + ttl))) r)"
    by (simp add: SourceCache_SetList_def split: prod.split option.split)
next
  fix fault visited u r
  show "fst (SourceCache_DeleteUser source_cache_prefix fault visited u r) =
      fst (delete_keys fault (filter (glob (user_pattern source_cache_prefix u)) visited) r)"
    by (auto simp: SourceCache_DeleteUser_def split: prod.split option.split redis_outcome.split)
next
  fix resp assume "source_list_ok resp"
  then show "\<exists>p. marshal_source_list resp = Some p \<and> unmarshal_source_list p = Some resp"
    by (rule source_list_roundtrip) blast
qed (auto simp: source_get_eq user_pattern_source plain_source_prefix dest: source_listKey_inject)


subsection \<open>The cache is transparent\<close>

definition source_answer :: "go_lib \<Rightarrow> source_table \<Rightarrow> list_sources_request \<Rightarrow> list_sources_response" where
  "source_answer lib t q = projr (fresh_source_list lib no_faults q t)"

definition source_cache_coherent :: "go_lib \<Rightarrow> source_table \<Rightarrow> redis \<Rightarrow> bool" where
  "source_cache_coherent lib t r \<longleftrightarrow>
     (\<forall>now q resp. source_req_ok q \<and> SourceCache_GetList source_cache_prefix redis_ok now q r = Inr (Some resp) \<longrightarrow>
        resp = source_answer lib t q)"


lemma source_cache_coherent_eq:
  "source_cache_coherent lib t r \<longleftrightarrow> source_cache.coherent (source_answer lib t) r"
  by (auto simp: source_cache_coherent_def source_cache.coherent_def)

lemma source_answer_eq:
  "source_answer lib t q =
     \<lparr>lx_sources = map (source_toDTO lib)
        (page (if lr_limit q \<le> 0 then 20 else if lr_limit q > 100 then 100 else lr_limit q)
           (if lr_offset q < 0 then 0 else lr_offset q)
           (sort_key (\<lambda>s. - so_created_at s)
              (select_rows (source_selected \<lparr>sl_user_id = lr_user_id q, sl_type = lr_type q,
                 sl_limit = lr_limit q, sl_offset = lr_offset q\<rparr>) t))),
      lx_total = count_rows (source_selected \<lparr>sl_user_id = lr_user_id q, sl_type = lr_type q,
                 sl_limit = lr_limit q, sl_offset = lr_offset q\<rparr>) t,
      lx_limit = lr_limit q, lx_offset = lr_offset q\<rparr>"
  by (simp add: source_answer_def fresh_source_list_def Source_ListByUserID_def Let_def if_distrib)






lemma sample_cache_coherent: "source_cache_coherent lib t Map.empty"
  by (simp add: source_cache_coherent_def source_get_eq redis_get_def)




subsection \<open>Writes invalidate\<close>

lemma select_rows_update_other:
  assumes "\<And>r. P r \<Longrightarrow> \<not> Q r \<and> \<not> Q (f r)"
  shows "select_rows Q (update_rows P f t) = select_rows Q t"
proof -
  have "filter Q (map (\<lambda>r. if P r then f r else r) rs) = filter Q rs" for rs
    by (induction rs) (auto simp: assms)
  then show ?thesis by (simp add: select_rows_def update_rows_def)
qed

lemma source_answer_cong:
  assumes "\<And>p. sl_user_id p = lr_user_id q \<Longrightarrow> select_rows (source_selected p) t' = select_rows (source_selected p) t"
  shows "source_answer lib t' q = source_answer lib t q"
  using assms by (simp add: source_answer_eq count_rows_def)

lemma source_answer_create:
  assumes "lr_user_id q \<noteq> so_user_id s"
  shows "source_answer lib (fst (Source_Create f s t)) q = source_answer lib t q"
proof (rule source_answer_cong)
  fix p :: source_list_params assume "sl_user_id p = lr_user_id q"
  then show "select_rows (source_selected p) (fst (Source_Create f s t)) = select_rows (source_selected p) t"
    using assms by (rule_tac Source_Create_cases [of f s t]) (simp_all add: select_rows_def source_selected_def)
qed

lemma source_answer_update:
  assumes "lr_user_id q \<noteq> so_user_id s"
  shows "source_answer lib (fst (Source_Update f s t)) q = source_answer lib t q"
proof (rule source_answer_cong)
  fix p :: source_list_params assume p: "sl_user_id p = lr_user_id q"
  show "select_rows (source_selected p) (fst (Source_Update f s t)) = select_rows (source_selected p) t"
  proof (rule Source_Update_cases [of f s t])
    assume e: "Source_Update f s t =
      (update_rows (source_visible (so_user_id s) (so_id s)) (source_assign s) t, Inr ())"
    show ?thesis unfolding e fst_conv
      using assms p by (intro select_rows_update_other) (auto simp: source_visible_def source_selected_def)
  qed simp
qed

lemma source_answer_delete:
  assumes "lr_user_id q \<noteq> uid"
  shows "source_answer lib (fst (Source_SoftDelete f uid i now t)) q = source_answer lib t q"
proof (rule source_answer_cong)
  fix p :: source_list_params assume p: "sl_user_id p = lr_user_id q"
  show "select_rows (source_selected p) (fst (Source_SoftDelete f uid i now t)) = select_rows (source_selected p) t"
  proof (rule Source_SoftDelete_cases [of f uid i now t])
    assume e: "Source_SoftDelete f uid i now t = (update_rows (source_visible uid i) (mark_deleted now) t, Inr ())"
    show ?thesis unfolding e fst_conv
      using assms p by (intro select_rows_update_other) (auto simp: source_visible_def source_selected_def)
  qed simp
qed

text \<open>A write that fails leaves every listing as it was.\<close>

lemma source_answer_failed:
  "Source_Create f s t = (t', Inl e) \<Longrightarrow> source_answer lib t' q = source_answer lib t q"
  "Source_Update f s t = (t', Inl e) \<Longrightarrow> t' = t"
  "Source_SoftDelete f uid i now t = (t', Inl e) \<Longrightarrow> t' = t"
proof -
  show "Source_Create f s t = (t', Inl e) \<Longrightarrow> source_answer lib t' q = source_answer lib t q"
    by (rule Source_Create_cases [of f s t]) (auto intro!: source_answer_cong simp: select_rows_def)
  show "Source_Update f s t = (t', Inl e) \<Longrightarrow> t' = t" by (rule Source_Update_cases [of f s t]) auto
  show "Source_SoftDelete f uid i now t = (t', Inl e) \<Longrightarrow> t' = t" by (rule Source_SoftDelete_cases [of f uid i now t]) auto
qed

lemma source_coherent_deleteUser:
  assumes "source_cache_coherent lib t r" "full_scan r visited"
    "\<And>q. lr_user_id q \<noteq> uid \<Longrightarrow> source_answer lib t' q = source_answer lib t q"
  shows "source_cache_coherent lib t'
           (source_deleteUserListCache (Some (source_cache_prefix, ttl)) redis_ok visited uid r)"
  using source_cache.coherent_invalidate [OF assms(1) [unfolded source_cache_coherent_eq], of uid "source_answer lib t'" visited]
    assms(2,3)
  by (simp add: source_cache_coherent_eq source_deleteUserListCache_def)

text \<open>What a write leaves behind: the change and the invalidation, or the old answers.\<close>

lemma source_coherent_same:
  assumes "source_cache_coherent lib t r" "\<And>q. source_answer lib t' q = source_answer lib t q"
  shows "source_cache_coherent lib t' r"
  using assms by (simp add: source_cache_coherent_def)

abbreviation source_world_coherent :: "go_lib \<Rightarrow> source_world \<Rightarrow> bool" where
  "source_world_coherent lib w \<equiv> source_cache_coherent lib (sw_sources w) (sw_redis w)"

lemma create_coherent:
  assumes "source_world_coherent lib w" "full_scan (sw_redis w) visited" "cache = Some (source_cache_prefix, ttl)"
  shows "source_world_coherent lib (fst (SourceService_CreateSource lib f cache fault redis_ok visited now req w))"
proof (cases "new_source lib f now req")
  case (Inl e)
  then show ?thesis using assms(1) by (simp add: SourceService_CreateSource_def)
next
  case s: (Inr s)
  obtain t res where t: "Source_Create fault s (sw_sources w) = (t, res)" by fastforce
  show ?thesis
  proof (cases res)
    case (Inl e)
    then have "source_answer lib t q = source_answer lib (sw_sources w) q" for q
      using t source_answer_failed(1) by blast
    from source_coherent_same [OF assms(1) this] show ?thesis
      using t s Inl by (simp add: SourceService_CreateSource_def)
  next
    case (Inr created)
    have "source_answer lib t q = source_answer lib (sw_sources w) q" if "lr_user_id q \<noteq> cs_user_id req" for q
      using source_answer_create [of q s lib fault "sw_sources w"] that new_source_ok(2) [OF s] t by simp
    from source_coherent_deleteUser [OF assms(1,2) this] show ?thesis
      using t s Inr assms(3) by (simp add: SourceService_CreateSource_def)
  qed
qed

lemma update_coherent:
  assumes "source_inv (sw_sources w)"
    and "source_world_coherent lib w" "full_scan (sw_redis w) visited" "cache = Some (source_cache_prefix, ttl)"
  shows "source_world_coherent lib
           (fst (SourceService_UpdateSource lib f cache ff id uf redis_ok visited now req w))"
proof (cases "Source_FindByUserIDAndID ff (us_user_id req) (us_source_id req) (sw_sources w)")
  case (Inl e)
  then show ?thesis using assms(2) by (simp add: SourceService_UpdateSource_def)
next
  case s0: (Inr s0)
  show ?thesis
  proof (cases "updated_source lib f now req s0")
    case (Inl e)
    then show ?thesis using assms(2) s0 by (simp add: SourceService_UpdateSource_def)
  next
    case s: (Inr s)
    have u: "so_user_id s = us_user_id req"
      using updated_source_ok(2) [OF s] Source_FindByUserIDAndID_Inr [OF s0] assms(1)
      by (auto simp: source_inv_def source_identity_def source_visible_def)
    obtain t res where t: "Source_Update uf s (sw_sources w) = (t, res)" by fastforce
    show ?thesis
    proof (cases res)
      case (Inl e)
      then have "t = sw_sources w" using t source_answer_failed(2) by blast
      then show ?thesis using t Inl s s0 assms(2) by (simp add: SourceService_UpdateSource_def)
    next
      case (Inr _)
      have "source_answer lib t q = source_answer lib (sw_sources w) q" if "lr_user_id q \<noteq> us_user_id req" for q
        using source_answer_update [of q s lib uf "sw_sources w"] that u t by simp
      from source_coherent_deleteUser [OF assms(2,3) this] show ?thesis
        using t Inr s s0 assms(4) by (simp add: SourceService_UpdateSource_def)
    qed
  qed
qed

lemma delete_coherent:
  assumes "source_world_coherent lib w" "full_scan (sw_redis w) visited" "cache = Some (source_cache_prefix, ttl)"
  shows "source_world_coherent lib (fst (SourceService_DeleteSource cache fault redis_ok visited now uid i w))"
proof -
  obtain t res where t: "Source_SoftDelete fault uid i now (sw_sources w) = (t, res)" by fastforce
  show ?thesis
  proof (cases res)
    case (Inl e)
    then have "t = sw_sources w" using t source_answer_failed(3) by blast
    then show ?thesis using t Inl assms(1) by (simp add: SourceService_DeleteSource_def)
  next
    case (Inr _)
    have "source_answer lib t q = source_answer lib (sw_sources w) q" if "lr_user_id q \<noteq> uid" for q
      using source_answer_delete [of q uid lib fault i now "sw_sources w"] that t by simp
    from source_coherent_deleteUser [OF assms(1,2) this] show ?thesis
      using t Inr assms(3) by (simp add: SourceService_DeleteSource_def)
  qed
qed

text \<open>
  Creating, updating and deleting a source keep the cache in agreement with the table:
  after the request, with the Redis commands succeeding and a complete scan, no entry gives
  an answer the table would not give, whether the database accepted the change or not.
\<close>

theorem source_writes_invalidate:
  assumes "source_inv (sw_sources w)" "source_cache_coherent lib (sw_sources w) (sw_redis w)"
    and "full_scan (sw_redis w) visited" "cache = Some (source_cache_prefix, ttl)"
    and "wc = fst (SourceService_CreateSource lib f cache fault redis_ok visited now creq w)"
    and "wu = fst (SourceService_UpdateSource lib f cache ff id uf redis_ok visited now ureq w)"
    and "wd = fst (SourceService_DeleteSource cache df redis_ok visited now uid i w)"
  shows "source_cache_coherent lib (sw_sources wc) (sw_redis wc) \<and>
         source_cache_coherent lib (sw_sources wu) (sw_redis wu) \<and>
         source_cache_coherent lib (sw_sources wd) (sw_redis wd)"
  using create_coherent [OF assms(2-4)] update_coherent [OF assms(1-4)] delete_coherent [OF assms(2-4)]
  by (simp add: assms(5-7))

lemma empty_source_inv: "source_inv empty_table"
  by (simp add: source_inv_def source_urls_unique_def)

theorem source_writes_invalidate_witness:
  "source_cache_coherent sample_lib (sw_sources (fst (SourceService_CreateSource sample_lib (\<lambda>_. [])
       (Some (source_cache_prefix, 60)) None redis_ok [] 5 sample_create_request empty_source_world)))
     (sw_redis (fst (SourceService_CreateSource sample_lib (\<lambda>_. [])
       (Some (source_cache_prefix, 60)) None redis_ok [] 5 sample_create_request empty_source_world)))"
  using source_writes_invalidate [of empty_source_world sample_lib "[]" "Some (source_cache_prefix, 60)" 60 _
      "\<lambda>_. []" None 5 sample_create_request, OF _ _ _ refl refl refl refl]
  by (simp add: empty_source_world_def empty_source_inv sample_cache_coherent full_scan_def)

subsection \<open>Listing through the cache is listing without it\<close>










lemma set_update_field_keeps:
  "set_update_field k v r = Some r' \<Longrightarrow> us_user_id r' = us_user_id r \<and> us_source_id r' = us_source_id r"
  by (auto simp: set_update_field_def split: if_splits)

lemma dec_update_keeps:
  "dec_fields set_update_field kvs r = Some r' \<Longrightarrow> us_user_id r' = us_user_id r \<and> us_source_id r' = us_source_id r"
proof (induction kvs arbitrary: r)
  case (Cons kv kvs)
  then show ?case by (cases kv) (auto split: option.splits dest: set_update_field_keeps)
qed simp

lemma bind_update_keeps:
  "unmarshal_struct set_update_field r body = Some r' \<Longrightarrow>
     us_user_id r' = us_user_id r \<and> us_source_id r' = us_source_id r"
  by (cases "(set_update_field, r, body)" rule: unmarshal_struct.cases) (auto dest: dec_update_keeps)

subsection \<open>Users are isolated\<close>

lemma source_foreign:
  assumes "\<And>s. s \<in> set (rows t) \<Longrightarrow> so_id s = i \<Longrightarrow> so_user_id s \<noteq> uid"
  shows "find_row (source_visible uid i) t = None"
  using assms by (fastforce simp: find_row_None source_visible_def)

text \<open>
  A user cannot reach the source of another user, nor a deleted one: reading, updating
  and deleting it through the handlers is answered 404 and changes nothing; and a listing
  holds only sources of the user who asks, of the type asked for, at most 100.
\<close>

theorem source_user_isolation:
  assumes "source_inv (sw_sources w)" "hr_user_id req = Some uid" "hr_param req ''id'' = fmt_int i"
    and "in_int64 i" "bind_update_source uid (if i \<le> 0 then 0 else i) body = Some b"
    and "\<And>s. s \<in> set (rows (sw_sources w)) \<Longrightarrow> so_id s = i \<Longrightarrow> so_user_id s \<noteq> uid \<or> so_deleted_at s \<noteq> None"
  shows "SourceHandler_Get lib None req w = (w, response_Error 404 ''source_not_found'' ''source not found'') \<and>
         SourceHandler_Update lib f cache None others uf rf visited now body req w =
           (w, response_Error 404 ''source_not_found'' ''source not found'') \<and>
         SourceHandler_Delete cache None rf visited now req w =
           (w, response_Error 404 ''source_not_found'' ''source not found'') \<and>
         length (lx_sources (source_answer lib (sw_sources w) q)) \<le> 100 \<and>
         set (lx_sources (source_answer lib (sw_sources w) q)) \<subseteq>
           source_toDTO lib ` {s \<in> set (rows (sw_sources w)). so_user_id s = lr_user_id q \<and> so_deleted_at s = None \<and>
             (lr_type q = [] \<or> so_type s = lr_type q)}"
proof -
  let ?j = "if i \<le> 0 then 0 else i"
  have "find_row (source_visible uid ?j) (sw_sources w) = None"
    unfolding find_row_None
  proof
    fix s assume s: "s \<in> set (rows (sw_sources w))"
    then have "0 < so_id s" using assms(1) by (auto simp: source_inv_def wf_table_def)
    then show "\<not> source_visible uid ?j s" using assms(6) [OF s] by (auto simp: source_visible_def)
  qed
  note none = this
  have nf: "Source_FindByUserIDAndID None uid ?j (sw_sources w) = Inl (Sentinel ErrSourceNotFound)"
    by (simp only: Source_FindByUserIDAndID_def option.case none)
  have p: "parseIDParam (hr_param req ''id'') = (?j, None)" "requestctx_UserID req = (uid, True)"
    using assms(2-4) by (simp_all only: parseIDParam_fmt requestctx_UserID_def option.case)
  have b: "us_user_id b = uid" "us_source_id b = ?j"
    using assms(5) by (auto simp: bind_update_source_def dest!: bind_update_keeps)
  have "SourceHandler_Get lib None req w = (w, response_Error 404 ''source_not_found'' ''source not found'')"
    by (simp only: SourceHandler_Get_def p prod.case option.case SourceService_GetSource_def nf sum.case
        errors_is.simps if_True source_handleError_def) (simp add: if_False)
  moreover have "SourceHandler_Update lib f cache None others uf rf visited now body req w =
      (w, response_Error 404 ''source_not_found'' ''source not found'')"
    by (simp only: SourceHandler_Update_def p prod.case option.case SourceService_UpdateSource_def nf sum.case assms(5) b
        errors_is.simps if_True source_handleError_def) (simp add: if_False)
  moreover have "SourceHandler_Delete cache None rf visited now req w =
      (w, response_Error 404 ''source_not_found'' ''source not found'')"
  proof -
    have "Source_SoftDelete None uid ?j now (sw_sources w) = (sw_sources w, Inl (Sentinel ErrSourceNotFound))"
      by (simp only: Source_SoftDelete_def option.case Let_def count_rows_0 none simp_thms if_True)
    then show ?thesis
      by (simp only: SourceHandler_Delete_def p prod.case option.case SourceService_DeleteSource_def sum.case
          errors_is.simps if_True source_handleError_def) (simp add: if_False)
  qed
  moreover have "length (lx_sources (source_answer lib (sw_sources w) q)) \<le> 100"
    by (auto simp: source_answer_eq page_def min_le_iff_disj)
  moreover have "set (lx_sources (source_answer lib (sw_sources w) q)) \<subseteq>
           source_toDTO lib ` {s \<in> set (rows (sw_sources w)). so_user_id s = lr_user_id q \<and> so_deleted_at s = None \<and>
             (lr_type q = [] \<or> so_type s = lr_type q)}"
    by (auto simp: source_answer_eq page_def select_rows_def source_selected_def intro!: imageI
        dest!: in_set_takeD in_set_dropD)
  ultimately show ?thesis by blast
qed

theorem source_user_isolation_witness:
  "SourceHandler_Delete None None redis_ok [] 9
     \<lparr>hr_method = [], hr_header = (\<lambda>_. []), hr_param = (\<lambda>_. fmt_int 1), hr_query = (\<lambda>_. []),
      hr_user_id = Some 8, hr_request_id = None\<rparr> sample_source_world =
   (sample_source_world, response_Error 404 ''source_not_found'' ''source not found'')"
proof -
  have b: "bind_update_source 8 (if (1::int) \<le> 0 then 0 else 1) (JsonText JNull) =
      Some \<lparr>us_user_id = 8, us_source_id = 1, us_name = None, us_url = None, us_is_active = None, us_config = None\<rparr>"
    by (simp add: bind_update_source_def)
  have i: "source_inv (sw_sources sample_source_world)"
    by (simp add: source_inv_def wf_table_def sample_source_world_def sample_source_def source_row_ok_def IsValidType_def
        source_urls_unique_def trim_space_visible visible_def)
  show ?thesis
    using source_user_isolation [of sample_source_world
        "\<lparr>hr_method = [], hr_header = (\<lambda>_. []), hr_param = (\<lambda>_. fmt_int 1), hr_query = (\<lambda>_. []),
          hr_user_id = Some 8, hr_request_id = None\<rparr>" 8 1, OF i _ _ _ b]
    by (simp add: in_int64_def) (simp add: sample_source_world_def sample_source_def)
qed


subsection \<open>What concurrent updates lose\<close>

text \<open>
  An update writes back every column of the row it read: whatever another process, such
  as the collector, has stored in between (\<open>others\<close> is arbitrary), after a successful update
  that gives no new configuration the row has the configuration, the time and the outcome of
  the last collection that were there when the update began. A collection that finishes in
  between loses its cursor.
\<close>

theorem source_update_overwrites_collector:
  assumes "source_inv (sw_sources w)" "us_config req = None"
    and "Source_FindByUserIDAndID ff (us_user_id req) (us_source_id req) (sw_sources w) = Inr s0"
    and "SourceService_UpdateSource lib f cache ff others uf rf visited now req w = (w', Inr dto)"
    and "r \<in> set (rows (sw_sources w'))" "source_visible (us_user_id req) (us_source_id req) r"
  shows "so_config_json r = so_config_json s0 \<and> so_last_fetched_at r = so_last_fetched_at s0 \<and>
         so_last_fetch_status r = so_last_fetch_status s0 \<and> so_last_fetch_message r = so_last_fetch_message s0"
proof -
  obtain s where s: "updated_source lib f now req s0 = Inr s"
    using assms(3,4) by (cases "updated_source lib f now req s0") (auto simp: SourceService_UpdateSource_def)
  obtain t res where t: "Source_Update uf s (others (sw_sources w)) = (t, res)" by fastforce
  have res: "res = Inr ()" "sw_sources w' = t"
    using assms(3,4) s t by (cases res; auto simp: SourceService_UpdateSource_def)+
  have id: "so_user_id s = us_user_id req" "so_id s = us_source_id req"
    using updated_source_ok(2) [OF s] Source_FindByUserIDAndID_Inr [OF assms(3)] assms(1)
    by (auto simp: source_inv_def source_identity_def source_visible_def)
  have "t = update_rows (source_visible (us_user_id req) (us_source_id req)) (source_assign s) (others (sw_sources w))"
    using t res(1) by (rule_tac Source_Update_cases [of uf s "others (sw_sources w)"]) (simp_all add: id)
  then obtain r0 where "r = source_assign s r0"
    using assms(5,6) res(2) by (auto simp: set_rows_update source_visible_def split: if_splits)
  moreover have "so_config_json s = so_config_json s0 \<and> so_last_fetched_at s = so_last_fetched_at s0 \<and>
         so_last_fetch_status s = so_last_fetch_status s0 \<and> so_last_fetch_message s = so_last_fetch_message s0"
    by (rule updated_source_stages [OF s]) (use assms(2) in auto)
  ultimately show ?thesis by (simp add: source_assign_def)
qed

definition sample_update :: update_source_request where
  "sample_update =
     \<lparr>us_user_id = 7, us_source_id = 1, us_name = None, us_url = None, us_is_active = Some True, us_config = None\<rparr>"

definition collected_meanwhile :: "source_table \<Rightarrow> source_table" where
  "collected_meanwhile t =
     fst (Source_Update None (sample_source\<lparr>so_config_json := JsonText (JObj [(''last_seen_uid'', JNum 40)])\<rparr>) t)"

lemma sample_table_inv: "source_inv (sw_sources sample_source_world)"
  by (simp add: source_inv_def wf_table_def sample_source_world_def sample_source_def source_row_ok_def IsValidType_def
      source_urls_unique_def trim_space_visible visible_def)

theorem source_update_overwrites_collector_witness:
  "\<exists>w' dto r. SourceService_UpdateSource sample_lib (\<lambda>_. []) None None collected_meanwhile None redis_ok [] 9
       sample_update sample_source_world = (w', Inr dto) \<and> r \<in> set (rows (sw_sources w')) \<and>
     so_config_json r = JsonText (JObj [])"
proof -
  have find: "Source_FindByUserIDAndID None 7 1 (sw_sources sample_source_world) = Inr sample_source"
    by (simp add: Source_FindByUserIDAndID_def sample_source_world_def find_row_def source_visible_def sample_source_def)
  define s where "s = sample_source\<lparr>so_updated_at := 9\<rparr>"
  have upd: "updated_source sample_lib (\<lambda>_. []) 9 sample_update sample_source = Inr s"
    by (simp add: updated_source_def sample_update_def s_def sample_source_def)
  define t where "t = \<lparr>rows = [s], seq = 1\<rparr>"
  have t: "Source_Update None s (collected_meanwhile (sw_sources sample_source_world)) = (t, Inr ())"
    by (simp add: collected_meanwhile_def Source_Update_def source_clash_def count_rows_0 find_row_def Let_def
        update_rows_def source_visible_def sample_source_world_def sample_source_def source_assign_def s_def t_def)
  define w' where "w' = \<lparr>sw_sources = t, sw_redis = Map.empty\<rparr>"
  have u: "SourceService_UpdateSource sample_lib (\<lambda>_. []) None None collected_meanwhile None redis_ok [] 9
       sample_update sample_source_world = (w', Inr (source_toDTO sample_lib s))"
    using find upd t
    by (simp add: SourceService_UpdateSource_def w'_def source_deleteUserListCache_def)
      (simp add: sample_update_def sample_source_world_def source_deleteUserListCache_def)
  have "source_visible 7 1 s" "s \<in> set (rows (sw_sources w'))"
    by (simp_all add: source_visible_def s_def sample_source_def w'_def t_def)
  with source_update_overwrites_collector [OF sample_table_inv _ _ u, of sample_source s] find
  have "so_config_json s = so_config_json sample_source" by (simp add: sample_update_def)
  then show ?thesis using u \<open>s \<in> _\<close> by (auto simp: sample_source_def)
qed

text \<open>
  The check that keeps passwords out of email configurations looks for the key "password"
  in exactly this spelling, while the collector's decoder, and the redaction, fold its case:
  a configuration with the key "Password" is accepted and stored with its secret.
\<close>

theorem source_password_check_case_sensitive:
  "normalizeSourceConfig lib TypeEmail (Some (JsonText (JObj [(''Password'', JStr secret)]))) =
     Inr (JsonText (JObj [(''Password'', JStr secret)])) \<and>
   fold_key ''Password'' = ''password'' \<and> isSensitiveConfigKey uni ''Password''"
  by (simp add: normalizeSourceConfig_def normalizeConfig_def emailConfigHasPlaintextPassword_def map_of_object_def
      lower_byte_def isSensitiveConfigKey_def trim_space_visible visible_def to_lower_def ascii_only_def)

end
