(* ===== verification/Articles.thy ===== *)
theory Articles
  imports Source_Cache
begin

section \<open>Articles\<close>

text \<open>
  The collected articles and what users have read and saved of them: \<open>model.go\<close>,
  \<open>repository.go\<close>, \<open>service.go\<close>, \<open>cache.go\<close>, \<open>dto.go\<close> and \<open>handler.go\<close> of
  \<open>internal/module/article\<close>. An article belongs to a source; a source gives it its user. Full
  text search is PostgreSQL's: the parameter \<open>found\<close> says whether a query finds an article.
\<close>

record article =
  ar_id :: int
  ar_source_id :: int
  ar_source_type :: string
  ar_external_id :: "string option"
  ar_title :: string
  ar_url :: "string option"
  ar_original_url :: "string option"
  ar_author :: string
  ar_summary :: string
  ar_content :: string
  ar_content_hash :: string
  ar_published_at :: "time option"
  ar_created_at :: time
  ar_updated_at :: time

record article_state =
  ats_id :: int
  ats_user_id :: int
  ats_article_id :: int
  ats_is_read :: bool
  ats_is_saved :: bool
  ats_read_at :: "time option"
  ats_saved_at :: "time option"
  ats_created_at :: time
  ats_updated_at :: time

text \<open>A row of the join of an article with the state a user has of it; the services hand it on as their DTO.\<close>

record article_with_state =
  aw_id :: int
  aw_source_id :: int
  aw_source_type :: string
  aw_external_id :: "string option"
  aw_title :: string
  aw_url :: "string option"
  aw_original_url :: "string option"
  aw_author :: string
  aw_summary :: string
  aw_content :: string
  aw_published_at :: "time option"
  aw_created_at :: time
  aw_updated_at :: time
  aw_is_read :: bool
  aw_is_saved :: bool
  aw_read_at :: "time option"
  aw_saved_at :: "time option"

record list_articles_request =
  la_user_id :: int
  la_source_id :: int
  la_query :: string
  la_is_read :: "bool option"
  la_is_saved :: "bool option"
  la_limit :: int
  la_offset :: int

record list_articles_response =
  lz_articles :: "article_with_state list"
  lz_total :: int
  lz_limit :: int
  lz_offset :: int

record upsert_article_state_params =
  up_user_id :: int
  up_article_id :: int
  up_is_read :: "bool option"
  up_is_saved :: "bool option"
  up_now :: time

type_synonym article_table = "article table"
type_synonym article_state_table = "article_state table"

text \<open>The tables the package reads and writes.\<close>

record article_db =
  ad_sources :: source_table
  ad_articles :: article_table
  ad_states :: article_state_table


subsection \<open>The repository\<close>

text \<open>
  The unique indexes \<open>idx_articles_source_external_id\<close> (for articles that have an external
  id) and \<open>idx_articles_source_content_hash\<close>: an insert that meets one of them does nothing.
\<close>

definition same_article :: "article \<Rightarrow> article \<Rightarrow> bool" where
  "same_article a b \<longleftrightarrow>
     ar_source_id a = ar_source_id b \<and>
     (ar_external_id a \<noteq> None \<and> ar_external_id a = ar_external_id b \<or> ar_content_hash a = ar_content_hash b)"

definition Article_CreateIfNotExists ::
  "go_error option \<Rightarrow> article \<Rightarrow> article_table \<Rightarrow> article_table \<times> bool result" where
  "Article_CreateIfNotExists fault a t =
     (case fault of
        Some e \<Rightarrow> (t, Inl (Wrapf ''create article if not exists: '' e ''''))
      | None \<Rightarrow>
          if find_row (same_article a) t \<noteq> None then (burn_seq t, Inr False)
          else (insert_row (\<lambda>i. a\<lparr>ar_id := i\<rparr>) t, Inr True))"

definition article_state_for :: "int \<Rightarrow> int \<Rightarrow> article_state \<Rightarrow> bool" where
  "article_state_for uid aid st \<longleftrightarrow> ats_user_id st = uid \<and> ats_article_id st = aid"

definition article_row :: "bool \<Rightarrow> article \<Rightarrow> article_state option \<Rightarrow> article_with_state" where
  "article_row includeContent a st =
     \<lparr>aw_id = ar_id a, aw_source_id = ar_source_id a, aw_source_type = ar_source_type a,
      aw_external_id = ar_external_id a, aw_title = ar_title a, aw_url = ar_url a,
      aw_original_url = ar_original_url a, aw_author = ar_author a, aw_summary = ar_summary a,
      aw_content = (if includeContent then ar_content a else ''''),
      aw_published_at = ar_published_at a, aw_created_at = ar_created_at a, aw_updated_at = ar_updated_at a,
      aw_is_read = (case st of None \<Rightarrow> False | Some s \<Rightarrow> ats_is_read s),
      aw_is_saved = (case st of None \<Rightarrow> False | Some s \<Rightarrow> ats_is_saved s),
      aw_read_at = (case st of None \<Rightarrow> None | Some s \<Rightarrow> ats_read_at s),
      aw_saved_at = (case st of None \<Rightarrow> None | Some s \<Rightarrow> ats_saved_at s)\<rparr>"

text \<open>The join of an article with a source of the user, and the condition of both callers that it is not deleted.\<close>

definition article_owned :: "source_table \<Rightarrow> int \<Rightarrow> article \<Rightarrow> bool" where
  "article_owned sources uid a \<longleftrightarrow>
     find_row (\<lambda>s. so_id s = ar_source_id a \<and> so_user_id s = uid \<and> so_deleted_at s = None) sources \<noteq> None"

definition articleQuery :: "int \<Rightarrow> bool \<Rightarrow> article_db \<Rightarrow> (article \<times> article_with_state) list" where
  "articleQuery uid includeContent db =
     map (\<lambda>a. (a, article_row includeContent a (find_row (article_state_for uid (ar_id a)) (ad_states db))))
       (select_rows (article_owned (ad_sources db) uid) (ad_articles db))"

definition applyArticleFilters ::
  "(string \<Rightarrow> article \<Rightarrow> bool) \<Rightarrow> list_articles_request \<Rightarrow> article \<times> article_with_state \<Rightarrow> bool" where
  "applyArticleFilters found p = (\<lambda>(a, row).
     (la_source_id p > 0 \<longrightarrow> ar_source_id a = la_source_id p) \<and>
     (la_query p \<noteq> '''' \<longrightarrow> found (trim_space (la_query p)) a) \<and>
     (case la_is_read p of None \<Rightarrow> True | Some b \<Rightarrow> aw_is_read row = b) \<and>
     (case la_is_saved p of None \<Rightarrow> True | Some b \<Rightarrow> aw_is_saved row = b))"

definition article_order :: "article_with_state \<Rightarrow> int \<times> int \<times> int" where
  "article_order r =
     (case aw_published_at r of
        Some t \<Rightarrow> (0, - t, - aw_created_at r)
      | None \<Rightarrow> (1, 0, - aw_created_at r))"

datatype article_list_stmt = ArticleCount | ArticleScan

definition Article_ListByUser ::
  "(string \<Rightarrow> article \<Rightarrow> bool) \<Rightarrow> article_list_stmt faults \<Rightarrow> list_articles_request \<Rightarrow> article_db \<Rightarrow>
     (article_with_state list \<times> int) result" where
  "Article_ListByUser found fault p db =
     (let sel = map snd (filter (applyArticleFilters found p) (articleQuery (la_user_id p) False db)) in
      case fault ArticleCount of
        Some e \<Rightarrow> Inl (Wrapf ''count articles by user: '' e '''')
      | None \<Rightarrow>
        (case fault ArticleScan of
           Some e \<Rightarrow> Inl (Wrapf ''list articles by user: '' e '''')
         | None \<Rightarrow> Inr (page (la_limit p) (la_offset p) (sort_key article_order sel), int (length sel))))"

definition Article_FindByUserAndID ::
  "go_error option \<Rightarrow> int \<Rightarrow> int \<Rightarrow> article_db \<Rightarrow> article_with_state result" where
  "Article_FindByUserAndID fault uid aid db =
     (case fault of
        Some e \<Rightarrow> Inl (if errors_is e GormErrRecordNotFound then Sentinel ErrArticleNotFound
                       else Wrapf ''find article by user and id: '' e '''')
      | None \<Rightarrow>
        (case find (\<lambda>(a, row). ar_id a = aid) (articleQuery uid True db) of
           None \<Rightarrow> Inl (Sentinel ErrArticleNotFound)
         | Some (a, row) \<Rightarrow> Inr row))"

text \<open>
  The upsert of a state: the row to insert, and the assignments when there is one already.
  Only the marks that are given are touched.
\<close>

definition mark_time :: "bool \<Rightarrow> time \<Rightarrow> time option" where
  "mark_time b now = (if b then Some now else None)"

definition new_article_state :: "upsert_article_state_params \<Rightarrow> int \<Rightarrow> article_state" where
  "new_article_state p i =
     \<lparr>ats_id = i, ats_user_id = up_user_id p, ats_article_id = up_article_id p,
      ats_is_read = (case up_is_read p of None \<Rightarrow> False | Some b \<Rightarrow> b),
      ats_is_saved = (case up_is_saved p of None \<Rightarrow> False | Some b \<Rightarrow> b),
      ats_read_at = (case up_is_read p of None \<Rightarrow> None | Some b \<Rightarrow> mark_time b (up_now p)),
      ats_saved_at = (case up_is_saved p of None \<Rightarrow> None | Some b \<Rightarrow> mark_time b (up_now p)),
      ats_created_at = up_now p, ats_updated_at = up_now p\<rparr>"

definition state_assignments :: "upsert_article_state_params \<Rightarrow> article_state \<Rightarrow> article_state" where
  "state_assignments p st =
     (let st1 = st\<lparr>ats_updated_at := up_now p\<rparr>;
          st2 = (case up_is_read p of None \<Rightarrow> st1
                 | Some b \<Rightarrow> st1\<lparr>ats_is_read := b, ats_read_at := mark_time b (up_now p)\<rparr>)
      in case up_is_saved p of None \<Rightarrow> st2
         | Some b \<Rightarrow> st2\<lparr>ats_is_saved := b, ats_saved_at := mark_time b (up_now p)\<rparr>)"

definition upsert_state_row :: "upsert_article_state_params \<Rightarrow> article_state_table \<Rightarrow> article_state_table" where
  "upsert_state_row p t =
     (let P = article_state_for (up_user_id p) (up_article_id p) in
      if find_row P t = None then insert_row (new_article_state p) t
      else burn_seq (update_rows P (state_assignments p) t))"

text \<open>
  \<open>UpsertState\<close> checks, writes and reads again, each in a statement of its own: \<open>env1\<close> and
  \<open>env2\<close> are what other processes commit in between.
\<close>

datatype upsert_stmt = UpsertCheck | UpsertWrite | UpsertReload

definition Article_UpsertState ::
  "upsert_stmt faults \<Rightarrow> (article_db \<Rightarrow> article_db) \<Rightarrow> (article_db \<Rightarrow> article_db) \<Rightarrow>
   upsert_article_state_params \<Rightarrow> article_db \<Rightarrow> article_db \<times> article_with_state result" where
  "Article_UpsertState fault env1 env2 p db =
     (case Article_FindByUserAndID (fault UpsertCheck) (up_user_id p) (up_article_id p) db of
        Inl e \<Rightarrow> (db, Inl e)
      | Inr _ \<Rightarrow>
        (let db1 = env1 db in
         case fault UpsertWrite of
           Some e \<Rightarrow> (db1, Inl (Wrapf ''upsert article state: '' e ''''))
         | None \<Rightarrow>
           (let db2 = env2 (db1\<lparr>ad_states := upsert_state_row p (ad_states db1)\<rparr>) in
            (db2, Article_FindByUserAndID (fault UpsertReload) (up_user_id p) (up_article_id p) db2))))"


subsection \<open>The list cache\<close>

definition article_dto_ok_json :: "article_with_state \<Rightarrow> bool" where
  "article_dto_ok_json d \<longleftrightarrow>
     marshalable_opt (aw_published_at d) \<and> time_marshalable (aw_created_at d) \<and> time_marshalable (aw_updated_at d) \<and>
     marshalable_opt (aw_read_at d) \<and> marshalable_opt (aw_saved_at d)"

definition article_dto_json :: "article_with_state \<Rightarrow> json option" where
  "article_dto_json d =
     (if article_dto_ok_json d
      then Some (JObj
        [(''ID'', JNum (aw_id d)), (''SourceID'', JNum (aw_source_id d)), (''SourceType'', JStr (aw_source_type d)),
         (''ExternalID'', json_opt JStr (aw_external_id d)), (''Title'', JStr (aw_title d)),
         (''URL'', json_opt JStr (aw_url d)), (''OriginalURL'', json_opt JStr (aw_original_url d)),
         (''Author'', JStr (aw_author d)), (''Summary'', JStr (aw_summary d)), (''Content'', JStr (aw_content d)),
         (''PublishedAt'', json_opt JTime (aw_published_at d)), (''CreatedAt'', JTime (aw_created_at d)),
         (''UpdatedAt'', JTime (aw_updated_at d)), (''IsRead'', JBool (aw_is_read d)),
         (''IsSaved'', JBool (aw_is_saved d)), (''ReadAt'', json_opt JTime (aw_read_at d)),
         (''SavedAt'', json_opt JTime (aw_saved_at d))])
      else None)"

definition marshal_article_list :: "list_articles_response \<Rightarrow> payload option" where
  "marshal_article_list resp =
     (case those (map article_dto_json (lz_articles resp)) of
        None \<Rightarrow> None
      | Some js \<Rightarrow> Some (JsonText (JObj
          [(''Articles'', JArr js), (''Total'', JNum (lz_total resp)), (''Limit'', JNum (lz_limit resp)),
           (''Offset'', JNum (lz_offset resp))])))"

definition set_article_field :: "string \<Rightarrow> json \<Rightarrow> article_with_state \<Rightarrow> article_with_state option" where
  "set_article_field k v d =
     (if k = ''id'' then map_option (\<lambda>x. d\<lparr>aw_id := x\<rparr>) (dec_int v (aw_id d))
      else if k = ''sourceid'' then map_option (\<lambda>x. d\<lparr>aw_source_id := x\<rparr>) (dec_int v (aw_source_id d))
      else if k = ''sourcetype'' then map_option (\<lambda>x. d\<lparr>aw_source_type := x\<rparr>) (dec_str v (aw_source_type d))
      else if k = ''externalid'' then map_option (\<lambda>x. d\<lparr>aw_external_id := x\<rparr>) (dec_ptr dec_str [] v)
      else if k = ''title'' then map_option (\<lambda>x. d\<lparr>aw_title := x\<rparr>) (dec_str v (aw_title d))
      else if k = ''url'' then map_option (\<lambda>x. d\<lparr>aw_url := x\<rparr>) (dec_ptr dec_str [] v)
      else if k = ''originalurl'' then map_option (\<lambda>x. d\<lparr>aw_original_url := x\<rparr>) (dec_ptr dec_str [] v)
      else if k = ''author'' then map_option (\<lambda>x. d\<lparr>aw_author := x\<rparr>) (dec_str v (aw_author d))
      else if k = ''summary'' then map_option (\<lambda>x. d\<lparr>aw_summary := x\<rparr>) (dec_str v (aw_summary d))
      else if k = ''content'' then map_option (\<lambda>x. d\<lparr>aw_content := x\<rparr>) (dec_str v (aw_content d))
      else if k = ''publishedat'' then map_option (\<lambda>x. d\<lparr>aw_published_at := x\<rparr>) (dec_ptr dec_time 0 v)
      else if k = ''createdat'' then map_option (\<lambda>x. d\<lparr>aw_created_at := x\<rparr>) (dec_time v (aw_created_at d))
      else if k = ''updatedat'' then map_option (\<lambda>x. d\<lparr>aw_updated_at := x\<rparr>) (dec_time v (aw_updated_at d))
      else if k = ''isread'' then map_option (\<lambda>x. d\<lparr>aw_is_read := x\<rparr>) (dec_bool v (aw_is_read d))
      else if k = ''issaved'' then map_option (\<lambda>x. d\<lparr>aw_is_saved := x\<rparr>) (dec_bool v (aw_is_saved d))
      else if k = ''readat'' then map_option (\<lambda>x. d\<lparr>aw_read_at := x\<rparr>) (dec_ptr dec_time 0 v)
      else if k = ''savedat'' then map_option (\<lambda>x. d\<lparr>aw_saved_at := x\<rparr>) (dec_ptr dec_time 0 v)
      else Some d)"

definition zero_article_dto :: article_with_state where
  "zero_article_dto =
     \<lparr>aw_id = 0, aw_source_id = 0, aw_source_type = [], aw_external_id = None, aw_title = [], aw_url = None,
      aw_original_url = None, aw_author = [], aw_summary = [], aw_content = [], aw_published_at = None,
      aw_created_at = 0, aw_updated_at = 0, aw_is_read = False, aw_is_saved = False, aw_read_at = None,
      aw_saved_at = None\<rparr>"

definition set_article_list_field :: "string \<Rightarrow> json \<Rightarrow> list_articles_response \<Rightarrow> list_articles_response option" where
  "set_article_list_field k v r =
     (if k = ''articles'' then
        map_option (\<lambda>x. r\<lparr>lz_articles := x\<rparr>)
          (dec_list (unmarshal_struct set_article_field) zero_article_dto v (lz_articles r))
      else if k = ''total'' then map_option (\<lambda>x. r\<lparr>lz_total := x\<rparr>) (dec_int v (lz_total r))
      else if k = ''limit'' then map_option (\<lambda>x. r\<lparr>lz_limit := x\<rparr>) (dec_int v (lz_limit r))
      else if k = ''offset'' then map_option (\<lambda>x. r\<lparr>lz_offset := x\<rparr>) (dec_int v (lz_offset r))
      else Some r)"

definition unmarshal_article_list :: "payload \<Rightarrow> list_articles_response option" where
  "unmarshal_article_list =
     unmarshal_struct set_article_list_field \<lparr>lz_articles = [], lz_total = 0, lz_limit = 0, lz_offset = 0\<rparr>"

definition NewArticleListCache :: "string \<Rightarrow> string" where
  "NewArticleListCache pfx = (if pfx = '''' then ''cache:articles'' else pfx)"

definition boolKey :: "bool option \<Rightarrow> string" where
  "boolKey v = (case v of None \<Rightarrow> ''any'' | Some b \<Rightarrow> if b then ''true'' else ''false'')"

definition article_listKey :: "string \<Rightarrow> list_articles_request \<Rightarrow> string" where
  "article_listKey pfx q =
     pfx @ '':user:'' @ fmt_int (la_user_id q) @ '':source:'' @ fmt_int (la_source_id q) @ '':q:'' @ la_query q @
     '':read:'' @ boolKey (la_is_read q) @ '':saved:'' @ boolKey (la_is_saved q) @ '':limit:'' @ fmt_int (la_limit q) @
     '':offset:'' @ fmt_int (la_offset q)"

definition ArticleCache_GetList ::
  "string \<Rightarrow> redis_faults \<Rightarrow> time \<Rightarrow> list_articles_request \<Rightarrow> redis \<Rightarrow> list_articles_response option result" where
  "ArticleCache_GetList pfx fault now q r =
     (case fault RsGet of
        RFailed e _ \<Rightarrow> Inl (Wrapf ''get article list cache: '' e '''')
      | RDone \<Rightarrow>
        (case redis_get now (article_listKey pfx q) r of
           None \<Rightarrow> Inr None
         | Some v \<Rightarrow>
           (case unmarshal_article_list (redis_bytes v) of
              None \<Rightarrow> Inl (Wrapf ''unmarshal article list cache: '' (Plain ''json: cannot unmarshal'') '''')
            | Some resp \<Rightarrow> Inr (Some resp))))"

definition ArticleCache_SetList ::
  "string \<Rightarrow> redis_faults \<Rightarrow> time \<Rightarrow> list_articles_request \<Rightarrow> list_articles_response \<Rightarrow> duration \<Rightarrow> redis \<Rightarrow>
   redis \<times> unit result" where
  "ArticleCache_SetList pfx fault now q resp ttl r =
     (case marshal_article_list resp of
        None \<Rightarrow> (r, Inl (Wrapf ''marshal article list cache: '' marshal_time_error ''''))
      | Some data \<Rightarrow>
        (case redis_write (fault RsSet) (redis_set (article_listKey pfx q) (RJson data) (Some (now + ttl))) r of
           (r', Some e) \<Rightarrow> (r', Inl (Wrapf ''set article list cache: '' e ''''))
         | (r', None) \<Rightarrow> (r', Inr ())))"

definition ArticleCache_DeleteUser ::
  "string \<Rightarrow> redis_faults \<Rightarrow> string list \<Rightarrow> int \<Rightarrow> redis \<Rightarrow> redis \<times> unit result" where
  "ArticleCache_DeleteUser pfx fault visited uid r =
     (case delete_keys fault (filter (glob (user_pattern pfx uid)) visited) r of
        (r', Some e) \<Rightarrow> (r', Inl (Wrapf ''delete article list cache: '' e ''''))
      | (r', None) \<Rightarrow>
        (case fault RsScan of
           RFailed e _ \<Rightarrow> (r', Inl (Wrapf ''scan article list cache: '' e ''''))
         | RDone \<Rightarrow> (r', Inr ())))"

subsection \<open>The service\<close>

record article_world =
  xw_db :: article_db
  xw_redis :: redis

definition article_deleteUserListCache ::
  "cache_option \<Rightarrow> redis_faults \<Rightarrow> string list \<Rightarrow> int \<Rightarrow> redis \<Rightarrow> redis" where
  "article_deleteUserListCache cache rf visited uid r =
     (case cache of None \<Rightarrow> r | Some (pfx, ttl) \<Rightarrow> fst (ArticleCache_DeleteUser pfx rf visited uid r))"

definition normalizeOptionalString :: "string option \<Rightarrow> string option" where
  "normalizeOptionalString v =
     (case v of None \<Rightarrow> None | Some s \<Rightarrow> let trimmed = trim_space s in if trimmed = '''' then None else Some trimmed)"

definition toArticle :: "time \<Rightarrow> collected_item \<Rightarrow> article result" where
  "toArticle now item =
     (if item_source_id item \<le> 0 then Inl (Sentinel ErrInvalidCollectedItem)
      else let sourceType = trim_space (item_source_type item) in
      if sourceType = '''' then Inl (Sentinel ErrInvalidCollectedItem)
      else let title = trim_space (item_title item) in
      if title = '''' then Inl (Sentinel ErrInvalidCollectedItem)
      else let contentHash = trim_space (item_content_hash item) in
      if contentHash = '''' then Inl (Sentinel ErrInvalidCollectedItem)
      else Inr
        \<lparr>ar_id = 0, ar_source_id = item_source_id item, ar_source_type = sourceType,
         ar_external_id = normalizeOptionalString (item_external_id item), ar_title = title,
         ar_url = normalizeOptionalString (item_url item),
         ar_original_url = normalizeOptionalString (item_original_url item),
         ar_author = trim_space (item_author item), ar_summary = trim_space (item_summary item),
         ar_content = trim_space (item_content item), ar_content_hash = contentHash,
         ar_published_at = item_published_at item, ar_created_at = now, ar_updated_at = now\<rparr>)"

text \<open>
  The loop over the items: \<open>i\<close> is the position of the next item, \<open>clock i\<close> and \<open>fault i\<close> the
  time and the outcome of its statement; the users with a new article are collected.
\<close>

fun save_loop ::
  "(nat \<Rightarrow> go_error option) \<Rightarrow> (nat \<Rightarrow> time) \<Rightarrow> nat \<Rightarrow> collected_item list \<Rightarrow> article_write_result \<Rightarrow> int list \<Rightarrow>
   article_table \<Rightarrow> article_table \<times> (article_write_result \<times> int list) result" where
  "save_loop fault clock i [] acc changedUsers t = (t, Inr (acc, changedUsers))"
| "save_loop fault clock i (item # items) acc changedUsers t =
     (case toArticle (clock i) item of
        Inl e \<Rightarrow> (t, Inl e)
      | Inr a \<Rightarrow>
        (case Article_CreateIfNotExists (fault i) a t of
           (t', Inl e) \<Rightarrow> (t', Inl (Wrapf ''save collected item: '' e ''''))
         | (t', Inr True) \<Rightarrow>
             save_loop fault clock (Suc i) items (acc\<lparr>inserted_count := inserted_count acc + 1\<rparr>)
               (if item_user_id item > 0 then List.insert (item_user_id item) changedUsers else changedUsers) t'
         | (t', Inr False) \<Rightarrow>
             save_loop fault clock (Suc i) items (acc\<lparr>duplicated_count := duplicated_count acc + 1\<rparr>) changedUsers t'))"

text \<open>
  \<open>iter\<close> is the order in which the map of changed users is iterated; the cache entries of
  every one of them are deleted, with the faults and the scan of that deletion.
\<close>

definition ArticleService_SaveCollectedItems ::
  "cache_option \<Rightarrow> (nat \<Rightarrow> go_error option) \<Rightarrow> (nat \<Rightarrow> time) \<Rightarrow> (int list \<Rightarrow> int list) \<Rightarrow> (int \<Rightarrow> redis_faults) \<Rightarrow>
   (int \<Rightarrow> string list) \<Rightarrow> collected_item list \<Rightarrow> article_world \<Rightarrow> article_world \<times> article_write_result result" where
  "ArticleService_SaveCollectedItems cache fault clock iter rf visited items w =
     (case save_loop fault clock 0 items \<lparr>inserted_count = 0, duplicated_count = 0\<rparr> [] (ad_articles (xw_db w)) of
        (t, Inl e) \<Rightarrow> (w\<lparr>xw_db := (xw_db w)\<lparr>ad_articles := t\<rparr>\<rparr>, Inl e)
      | (t, Inr (acc, changedUsers)) \<Rightarrow>
          (\<lparr>xw_db = (xw_db w)\<lparr>ad_articles := t\<rparr>,
            xw_redis = fold (\<lambda>u. article_deleteUserListCache cache (rf u) (visited u) u) (iter changedUsers) (xw_redis w)\<rparr>,
           Inr acc))"

definition article_normalizeLimit :: "int \<Rightarrow> int" where
  "article_normalizeLimit limit = (if limit \<le> 0 then 20 else if limit > 100 then 100 else limit)"

definition article_normalizeOffset :: "int \<Rightarrow> int" where
  "article_normalizeOffset offset = (if offset < 0 then 0 else offset)"

interpretation article_page: page_params article_normalizeLimit article_normalizeOffset 20 100
  by unfold_locales (auto simp: article_normalizeLimit_def article_normalizeOffset_def)

definition normalized_article_request :: "list_articles_request \<Rightarrow> list_articles_request" where
  "normalized_article_request req =
     req\<lparr>la_query := trim_space (la_query req), la_limit := article_normalizeLimit (la_limit req),
         la_offset := article_normalizeOffset (la_offset req)\<rparr>"

definition toArticleListDTO :: "article_with_state \<Rightarrow> article_with_state" where
  "toArticleListDTO row = row\<lparr>aw_content := ''''\<rparr>"

definition stripArticleListContent :: "list_articles_response \<Rightarrow> list_articles_response" where
  "stripArticleListContent resp = resp\<lparr>lz_articles := map (\<lambda>d. d\<lparr>aw_content := ''''\<rparr>) (lz_articles resp)\<rparr>"

definition fresh_article_list ::
  "(string \<Rightarrow> article \<Rightarrow> bool) \<Rightarrow> article_list_stmt faults \<Rightarrow> list_articles_request \<Rightarrow> article_db \<Rightarrow>
   list_articles_response result" where
  "fresh_article_list found fault q db =
     (case Article_ListByUser found fault q db of
        Inl e \<Rightarrow> Inl (Wrapf ''list articles: '' e '''')
      | Inr (rs, n) \<Rightarrow>
          Inr \<lparr>lz_articles = map toArticleListDTO rs, lz_total = n, lz_limit = la_limit q, lz_offset = la_offset q\<rparr>)"

definition cached_article_list ::
  "cache_option \<Rightarrow> redis_faults \<Rightarrow> time \<Rightarrow> list_articles_request \<Rightarrow> redis \<Rightarrow> list_articles_response option" where
  "cached_article_list cache rf now q r =
     (case cache of
        None \<Rightarrow> None
      | Some (pfx, ttl) \<Rightarrow>
        (case ArticleCache_GetList pfx rf now q r of Inr (Some resp) \<Rightarrow> Some resp | _ \<Rightarrow> None))"

definition ArticleService_ListArticles ::
  "(string \<Rightarrow> article \<Rightarrow> bool) \<Rightarrow> cache_option \<Rightarrow> article_list_stmt faults \<Rightarrow> redis_faults \<Rightarrow> time \<Rightarrow>
   list_articles_request \<Rightarrow> article_world \<Rightarrow> article_world \<times> list_articles_response result" where
  "ArticleService_ListArticles found cache fault rf now req w =
     (let q = normalized_article_request req in
      case cached_article_list cache rf now q (xw_redis w) of
        Some cached \<Rightarrow> (w, Inr (stripArticleListContent cached))
      | None \<Rightarrow>
        (case fresh_article_list found fault q (xw_db w) of
           Inl e \<Rightarrow> (w, Inl e)
         | Inr resp \<Rightarrow>
             (w\<lparr>xw_redis := (case cache of None \<Rightarrow> xw_redis w
                | Some (pfx, ttl) \<Rightarrow> fst (ArticleCache_SetList pfx rf now q resp ttl (xw_redis w)))\<rparr>,
              Inr resp)))"

definition ArticleService_GetArticle ::
  "go_error option \<Rightarrow> int \<Rightarrow> int \<Rightarrow> article_world \<Rightarrow> article_with_state result" where
  "ArticleService_GetArticle fault uid aid w = Article_FindByUserAndID fault uid aid (xw_db w)"

definition ArticleService_UpdateState ::
  "cache_option \<Rightarrow> upsert_stmt faults \<Rightarrow> (article_db \<Rightarrow> article_db) \<Rightarrow> (article_db \<Rightarrow> article_db) \<Rightarrow> redis_faults \<Rightarrow>
   string list \<Rightarrow> time \<Rightarrow> int \<Rightarrow> int \<Rightarrow> bool option \<Rightarrow> bool option \<Rightarrow> article_world \<Rightarrow>
   article_world \<times> article_with_state result" where
  "ArticleService_UpdateState cache fault env1 env2 rf visited now uid aid isRead isSaved w =
     (case Article_UpsertState fault env1 env2
             \<lparr>up_user_id = uid, up_article_id = aid, up_is_read = isRead, up_is_saved = isSaved, up_now = now\<rparr> (xw_db w) of
        (db, Inl e) \<Rightarrow> (w\<lparr>xw_db := db\<rparr>, Inl e)
      | (db, Inr row) \<Rightarrow>
          (\<lparr>xw_db = db, xw_redis = article_deleteUserListCache cache rf visited uid (xw_redis w)\<rparr>, Inr row))"


subsection \<open>The handlers\<close>

definition article_handleError :: "go_error \<Rightarrow> 'a http_response" where
  "article_handleError e =
     (if errors_is e ErrArticleNotFound then response_Error 404 ''article_not_found'' ''article not found''
      else response_Error 500 ''internal_error'' ''internal server error'')"

definition ArticleHandler_List ::
  "(string \<Rightarrow> article \<Rightarrow> bool) \<Rightarrow> cache_option \<Rightarrow> article_list_stmt faults \<Rightarrow> redis_faults \<Rightarrow> time \<Rightarrow>
   (article_world, list_articles_response) handler" where
  "ArticleHandler_List found cache fault rf now req w =
     (case requestctx_UserID req of
        (uid, False) \<Rightarrow> (w, response_Error 401 ''unauthorized'' ''missing user context'')
      | (uid, True) \<Rightarrow>
        (case parseOptionalInt64Query (hr_query req ''source_id'') of
           (_, Some e) \<Rightarrow> (w, response_Error 400 ''invalid_source_id'' ''invalid source id'')
         | (sourceID, None) \<Rightarrow>
           (case parseOptionalBoolQuery (hr_query req ''is_read'') of
              Inl e \<Rightarrow> (w, response_Error 400 ''invalid_is_read'' ''invalid is_read'')
            | Inr isRead \<Rightarrow>
              (case parseOptionalBoolQuery (hr_query req ''is_saved'') of
                 Inl e \<Rightarrow> (w, response_Error 400 ''invalid_is_saved'' ''invalid is_saved'')
               | Inr isSaved \<Rightarrow>
                 (case parseIntQuery (hr_query req ''limit'') 20 of
                    Inl e \<Rightarrow> (w, response_Error 400 ''invalid_limit'' ''invalid limit'')
                  | Inr limit \<Rightarrow>
                    (case parseIntQuery (hr_query req ''offset'') 0 of
                       Inl e \<Rightarrow> (w, response_Error 400 ''invalid_offset'' ''invalid offset'')
                     | Inr offset \<Rightarrow>
                       (case ArticleService_ListArticles found cache fault rf now
                               \<lparr>la_user_id = uid, la_source_id = sourceID, la_query = hr_query req ''q'',
                                la_is_read = isRead, la_is_saved = isSaved, la_limit = limit, la_offset = offset\<rparr> w of
                          (w', Inl e) \<Rightarrow> (w', article_handleError e)
                        | (w', Inr result) \<Rightarrow> (w', response_OK result))))))))"

definition userAndArticleID :: "http_request \<Rightarrow> 'a http_response + int \<times> int" where
  "userAndArticleID req =
     (case requestctx_UserID req of
        (uid, False) \<Rightarrow> Inl (response_Error 401 ''unauthorized'' ''missing user context'')
      | (uid, True) \<Rightarrow>
        (case parseIDParam (hr_param req ''id'') of
           (_, Some e) \<Rightarrow> Inl (response_Error 400 ''invalid_article_id'' ''invalid article id'')
         | (aid, None) \<Rightarrow> Inr (uid, aid)))"

definition ArticleHandler_Get :: "go_error option \<Rightarrow> (article_world, article_with_state) handler" where
  "ArticleHandler_Get fault req w =
     (case userAndArticleID req of
        Inl resp \<Rightarrow> (w, resp)
      | Inr (uid, aid) \<Rightarrow>
        (case ArticleService_GetArticle fault uid aid w of
           Inl e \<Rightarrow> (w, article_handleError e)
         | Inr row \<Rightarrow> (w, response_OK row)))"

definition set_bool_field :: "string \<Rightarrow> string \<Rightarrow> json \<Rightarrow> bool option \<Rightarrow> bool option option" where
  "set_bool_field name k v b = (if k = name then dec_ptr dec_bool False v else Some b)"

definition bind_mark :: "string \<Rightarrow> payload \<Rightarrow> bool option" where
  "bind_mark name body =
     (case unmarshal_struct (set_bool_field name) None body of Some (Some b) \<Rightarrow> Some b | _ \<Rightarrow> None)"

definition ArticleHandler_MarkRead ::
  "cache_option \<Rightarrow> upsert_stmt faults \<Rightarrow> (article_db \<Rightarrow> article_db) \<Rightarrow> (article_db \<Rightarrow> article_db) \<Rightarrow> redis_faults \<Rightarrow>
   string list \<Rightarrow> time \<Rightarrow> payload \<Rightarrow> (article_world, article_with_state) handler" where
  "ArticleHandler_MarkRead cache fault env1 env2 rf visited now body req w =
     (case userAndArticleID req of
        Inl resp \<Rightarrow> (w, resp)
      | Inr (uid, aid) \<Rightarrow>
        (case bind_mark ''is_read'' body of
           None \<Rightarrow> (w, response_Error 400 ''invalid_request'' ''invalid read request'')
         | Some isRead \<Rightarrow>
           (case ArticleService_UpdateState cache fault env1 env2 rf visited now uid aid (Some isRead) None w of
              (w', Inl e) \<Rightarrow> (w', article_handleError e)
            | (w', Inr row) \<Rightarrow> (w', response_OK row))))"

definition ArticleHandler_Save ::
  "cache_option \<Rightarrow> upsert_stmt faults \<Rightarrow> (article_db \<Rightarrow> article_db) \<Rightarrow> (article_db \<Rightarrow> article_db) \<Rightarrow> redis_faults \<Rightarrow>
   string list \<Rightarrow> time \<Rightarrow> payload \<Rightarrow> (article_world, article_with_state) handler" where
  "ArticleHandler_Save cache fault env1 env2 rf visited now body req w =
     (case userAndArticleID req of
        Inl resp \<Rightarrow> (w, resp)
      | Inr (uid, aid) \<Rightarrow>
        (case bind_mark ''is_saved'' body of
           None \<Rightarrow> (w, response_Error 400 ''invalid_request'' ''invalid save request'')
         | Some isSaved \<Rightarrow>
           (case ArticleService_UpdateState cache fault env1 env2 rf visited now uid aid None (Some isSaved) w of
              (w', Inl e) \<Rightarrow> (w', article_handleError e)
            | (w', Inr row) \<Rightarrow> (w', response_OK row))))"

end
