(* ===== verification/Article_Store.thy ===== *)
theory Article_Store
  imports Articles
begin

section \<open>What the article tables hold\<close>

text \<open>
  The invariants of the article and state tables under every operation of the package, what
  saving collected items does and does not do, and what marking an article changes.
\<close>

subsection \<open>Saving collected items\<close>

lemma Article_CreateIfNotExists_cases:
  obtains e where "Article_CreateIfNotExists f a t = (t, Inl e)"
  | "find_row (same_article a) t \<noteq> None" "Article_CreateIfNotExists f a t = (burn_seq t, Inr False)"
  | "find_row (same_article a) t = None"
    "Article_CreateIfNotExists f a t = (insert_row (\<lambda>i. a\<lparr>ar_id := i\<rparr>) t, Inr True)"
  using that by (cases f; cases "find_row (same_article a) t"; simp add: Article_CreateIfNotExists_def)

lemma same_article_refl: "same_article a a"
  by (simp add: same_article_def)

lemma same_article_sym: "same_article a b \<Longrightarrow> same_article b a"
  unfolding same_article_def by metis

lemma same_article_id [simp]:
  "same_article (a\<lparr>ar_id := i\<rparr>) b = same_article a b" "same_article a (b\<lparr>ar_id := i\<rparr>) = same_article a b"
  by (simp_all add: same_article_def)

text \<open>The times of an item's article do not matter for what it clashes with.\<close>

lemma toArticle_clock:
  "toArticle c item = Inr a \<Longrightarrow> toArticle c' item = Inr (a\<lparr>ar_created_at := c', ar_updated_at := c'\<rparr>)"
  by (auto simp: toArticle_def Let_def split: if_splits)

lemma toArticle_same:
  assumes "toArticle c item = Inr a" "toArticle c' item = Inr b"
  shows "same_article a = same_article b"
proof -
  have "b = a\<lparr>ar_created_at := c', ar_updated_at := c'\<rparr>" using toArticle_clock [OF assms(1), of c'] assms(2) by simp
  then show ?thesis by (simp add: same_article_def fun_eq_iff)
qed

text \<open>Rows are appended only.\<close>

lemma save_loop_appends:
  "save_loop fault clock i items acc users t = (t', r) \<Longrightarrow> \<exists>new. rows t' = rows t @ new"
proof (induction items arbitrary: i acc users t)
  case (Cons item items)
  show ?case
  proof (cases "toArticle (clock i) item")
    case (Inl e)
    then show ?thesis using Cons.prems by auto
  next
    case a: (Inr a)
    show ?thesis
    proof (rule Article_CreateIfNotExists_cases [of "fault i" a t])
      fix e assume "Article_CreateIfNotExists (fault i) a t = (t, Inl e)"
      then show ?thesis using Cons.prems a by auto
    next
      assume "Article_CreateIfNotExists (fault i) a t = (burn_seq t, Inr False)"
      then show ?thesis using Cons.prems a Cons.IH [of "Suc i" _ _ "burn_seq t"] by auto
    next
      assume "Article_CreateIfNotExists (fault i) a t = (insert_row (\<lambda>i. a\<lparr>ar_id := i\<rparr>) t, Inr True)"
      then show ?thesis using Cons.prems a Cons.IH [of "Suc i" _ _ "insert_row (\<lambda>i. a\<lparr>ar_id := i\<rparr>) t"] by fastforce
    qed
  qed
qed auto

lemma save_loop_keeps_found:
  "save_loop fault clock i items acc users t = (t', r) \<Longrightarrow> find_row P t \<noteq> None \<Longrightarrow> find_row P t' \<noteq> None"
  by (drule save_loop_appends) (auto simp: find_row_None simp del: not_None_eq)

text \<open>One step of a loop that succeeds.\<close>

lemma save_loop_Cons:
  assumes "save_loop fault clock i (item # items) acc users t = (t', Inr (acc', users'))"
  obtains a t1 created where "toArticle (clock i) item = Inr a" "fault i = None"
    "Article_CreateIfNotExists (fault i) a t = (t1, Inr created)"
    "find_row (same_article a) t1 \<noteq> None"
    "created \<longleftrightarrow> find_row (same_article a) t = None"
    "save_loop fault clock (Suc i) items
       (if created then acc\<lparr>inserted_count := inserted_count acc + 1\<rparr> else acc\<lparr>duplicated_count := duplicated_count acc + 1\<rparr>)
       (if created \<and> item_user_id item > 0 then List.insert (item_user_id item) users else users) t1 =
     (t', Inr (acc', users'))"
proof (cases "toArticle (clock i) item")
  case (Inl e)
  then show thesis using assms by simp
next
  case a: (Inr a)
  show thesis
  proof (rule Article_CreateIfNotExists_cases [of "fault i" a t])
    fix e assume "Article_CreateIfNotExists (fault i) a t = (t, Inl e)"
    then show thesis using assms a by simp
  next
    assume h: "find_row (same_article a) t \<noteq> None"
      "Article_CreateIfNotExists (fault i) a t = (burn_seq t, Inr False)"
    then have f: "fault i = None" by (cases "fault i") (auto simp: Article_CreateIfNotExists_def)
    show thesis using assms by (intro that [OF a f h(2)]) (use a h in \<open>simp_all del: not_None_eq\<close>)
  next
    assume h: "find_row (same_article a) t = None"
      "Article_CreateIfNotExists (fault i) a t = (insert_row (\<lambda>i. a\<lparr>ar_id := i\<rparr>) t, Inr True)"
    then have f: "fault i = None" by (cases "fault i") (auto simp: Article_CreateIfNotExists_def)
    show thesis using assms
      by (intro that [OF a f h(2)]) (use a h in \<open>simp_all add: find_row_insert same_article_refl\<close>)
  qed
qed

lemma save_loop_counts:
  "save_loop fault clock i items acc users t = (t', Inr (acc', users')) \<Longrightarrow>
     inserted_count acc' + duplicated_count acc' = inserted_count acc + duplicated_count acc + int (length items) \<and>
     inserted_count acc' = inserted_count acc + int (length (rows t')) - int (length (rows t))"
proof (induction items arbitrary: i acc users t)
  case (Cons item items)
  from Cons.prems show ?case
  proof (rule save_loop_Cons)
    fix a t1 created
    assume c: "Article_CreateIfNotExists (fault i) a t = (t1, Inr created)"
      and l: "save_loop fault clock (Suc i) items
       (if created then acc\<lparr>inserted_count := inserted_count acc + 1\<rparr> else acc\<lparr>duplicated_count := duplicated_count acc + 1\<rparr>)
       (if created \<and> item_user_id item > 0 then List.insert (item_user_id item) users else users) t1 =
       (t', Inr (acc', users'))"
    have "length (rows t1) = length (rows t) + (if created then 1 else 0)"
      using c by (rule_tac Article_CreateIfNotExists_cases [of "fault i" a t]) auto
    with Cons.IH [OF l] show ?case by (cases created) auto
  qed
qed simp

lemma save_loop_present:
  "save_loop fault clock i items acc users t = (t', Inr (acc', users')) \<Longrightarrow> item \<in> set items \<Longrightarrow>
     \<exists>a. toArticle c item = Inr a \<and> find_row (same_article a) t' \<noteq> None"
proof (induction items arbitrary: i acc users t)
  case (Cons it items)
  from Cons.prems(1) show ?case
  proof (rule save_loop_Cons)
    fix a t1 created
    assume a: "toArticle (clock i) it = Inr a" and f: "find_row (same_article a) t1 \<noteq> None"
      and l: "save_loop fault clock (Suc i) items
       (if created then acc\<lparr>inserted_count := inserted_count acc + 1\<rparr> else acc\<lparr>duplicated_count := duplicated_count acc + 1\<rparr>)
       (if created \<and> item_user_id it > 0 then List.insert (item_user_id it) users else users) t1 =
       (t', Inr (acc', users'))"
    show ?case
    proof (cases "item = it")
      case True
      from save_loop_keeps_found [OF l f] toArticle_clock [OF a, of c] toArticle_same [OF a, of c]
      show ?thesis unfolding True by metis
    next
      case False
      then show ?thesis using Cons.IH [OF l] Cons.prems(2) by simp
    qed
  qed
qed simp

text \<open>
  A row stands for a collected item if it is an article of the item's source with the item's
  content hash or its external id; what is new in the table is made of the items.
\<close>

definition stored_as :: "collected_item \<Rightarrow> article \<Rightarrow> bool" where
  "stored_as item a \<longleftrightarrow>
     ar_source_id a = item_source_id item \<and>
     (ar_content_hash a = trim_space (item_content_hash item) \<or>
      ar_external_id a \<noteq> None \<and> ar_external_id a = normalizeOptionalString (item_external_id item))"

lemma save_loop_stored:
  assumes "save_loop fault clock i items acc users t = (t', Inr (acc', users'))" "item \<in> set items"
  shows "\<exists>a \<in> set (rows t'). stored_as item a"
proof -
  obtain a where a: "toArticle 0 item = Inr a" "find_row (same_article a) t' \<noteq> None"
    using save_loop_present [OF assms, of 0] by blast
  then obtain b where b: "b \<in> set (rows t')" "same_article a b" using find_row_SomeD by fastforce
  have "ar_source_id a = item_source_id item" "ar_content_hash a = trim_space (item_content_hash item)"
    "ar_external_id a = normalizeOptionalString (item_external_id item)"
    using a(1) by (auto simp: toArticle_def Let_def split: if_splits)
  with b show ?thesis unfolding stored_as_def same_article_def by metis
qed

lemma save_loop_new:
  "save_loop fault clock i items acc users t = (t', Inr (acc', users')) \<Longrightarrow>
     \<exists>new. rows t' = rows t @ new \<and>
       (\<forall>a \<in> set new. \<exists>item \<in> set items. \<exists>c. toArticle c item = Inr (a\<lparr>ar_id := 0\<rparr>))"
proof (induction items arbitrary: i acc users t)
  case (Cons item items)
  from Cons.prems show ?case
  proof (rule save_loop_Cons)
    fix a t1 created
    assume a: "toArticle (clock i) item = Inr a"
      and c: "Article_CreateIfNotExists (fault i) a t = (t1, Inr created)"
      and l: "save_loop fault clock (Suc i) items
       (if created then acc\<lparr>inserted_count := inserted_count acc + 1\<rparr> else acc\<lparr>duplicated_count := duplicated_count acc + 1\<rparr>)
       (if created \<and> item_user_id item > 0 then List.insert (item_user_id item) users else users) t1 =
       (t', Inr (acc', users'))"
    have "ar_id a = 0" using a by (auto simp: toArticle_def Let_def split: if_splits)
    then obtain first where first: "rows t1 = rows t @ first" "\<forall>x \<in> set first. x\<lparr>ar_id := 0\<rparr> = a"
      using c by (rule_tac Article_CreateIfNotExists_cases [of "fault i" a t]) auto
    obtain rest where rest: "rows t' = rows t1 @ rest"
      "\<forall>a \<in> set rest. \<exists>item \<in> set items. \<exists>c. toArticle c item = Inr (a\<lparr>ar_id := 0\<rparr>)"
      using Cons.IH [OF l] by blast
    show ?case
    proof (intro exI [of _ "first @ rest"] conjI ballI)
      show "rows t' = rows t @ first @ rest" using first rest by simp
    next
      fix x assume "x \<in> set (first @ rest)"
      then consider "x \<in> set first" | "x \<in> set rest" by auto
      then show "\<exists>it \<in> set (item # items). \<exists>c. toArticle c it = Inr (x\<lparr>ar_id := 0\<rparr>)"
      proof cases
        case 1
        then show ?thesis using first(2) a by auto
      next
        case 2
        then show ?thesis using rest(2) by auto
      qed
    qed
  qed
qed simp

lemma save_loop_duplicates:
  "(\<And>item c. item \<in> set items \<Longrightarrow> \<exists>a. toArticle c item = Inr a \<and> find_row (same_article a) t \<noteq> None) \<Longrightarrow>
   \<exists>t'. save_loop (\<lambda>_. None) clock i items acc users t =
     (t', Inr (acc\<lparr>duplicated_count := duplicated_count acc + int (length items)\<rparr>, users)) \<and> rows t' = rows t"
proof (induction items arbitrary: i acc t)
  case (Cons item items)
  obtain a where a: "toArticle (clock i) item = Inr a" "find_row (same_article a) t \<noteq> None"
    using Cons.prems [of item "clock i"] by auto
  then have "Article_CreateIfNotExists None a t = (burn_seq t, Inr False)"
    by (simp add: Article_CreateIfNotExists_def del: not_None_eq)
  moreover have "\<exists>t'. save_loop (\<lambda>_. None) clock (Suc i) items (acc\<lparr>duplicated_count := duplicated_count acc + 1\<rparr>) users (burn_seq t) =
      (t', Inr (acc\<lparr>duplicated_count := duplicated_count acc + 1 + int (length items)\<rparr>, users)) \<and> rows t' = rows t"
    using Cons.IH [of "burn_seq t" "Suc i" "acc\<lparr>duplicated_count := duplicated_count acc + 1\<rparr>"] Cons.prems
    by (simp del: not_None_eq)
  ultimately show ?case using a(1) by (simp add: algebra_simps)
qed simp

text \<open>
  C23. Saving items is idempotent: when a batch has been saved, saving it again, later or by a
  redelivered job, inserts nothing, counts every item as a duplicate and deletes no cache
  entry. The two counts of a result add up to the number of items, and the inserted count is
  the number of new rows; no row that was there is changed.
\<close>

theorem article_save_idempotent:
  assumes "ArticleService_SaveCollectedItems cache fault clock iter rf visited items w = (w1, Inr res)"
    and "ArticleService_SaveCollectedItems cache2 (\<lambda>_. None) clock2 iter2 rf2 visited2 items w1 = (w2, res2)"
    and "iter2 [] = []"
  shows "inserted_count res + duplicated_count res = int (length items) \<and>
         (\<exists>new. rows (ad_articles (xw_db w1)) = rows (ad_articles (xw_db w)) @ new \<and> int (length new) = inserted_count res) \<and>
         res2 = Inr \<lparr>inserted_count = 0, duplicated_count = int (length items)\<rparr> \<and>
         rows (ad_articles (xw_db w2)) = rows (ad_articles (xw_db w1)) \<and> xw_redis w2 = xw_redis w1"
proof -
  let ?z = "\<lparr>inserted_count = 0, duplicated_count = 0\<rparr>"
  obtain t users where l: "save_loop fault clock 0 items ?z [] (ad_articles (xw_db w)) = (t, Inr (res, users))"
    and t: "ad_articles (xw_db w1) = t"
    using assms(1) by (auto simp: ArticleService_SaveCollectedItems_def split: prod.splits sum.splits)
  obtain new where new: "rows t = rows (ad_articles (xw_db w)) @ new" using save_loop_appends [OF l] by blast
  obtain t' where t': "save_loop (\<lambda>_. None) clock2 0 items ?z [] t =
      (t', Inr (?z\<lparr>duplicated_count := int (length items)\<rparr>, []))" "rows t' = rows t"
    using save_loop_duplicates [of items t clock2 0 ?z "[]"] save_loop_present [OF l] by auto
  then have "res2 = Inr \<lparr>inserted_count = 0, duplicated_count = int (length items)\<rparr>"
    "ad_articles (xw_db w2) = t'" "xw_redis w2 = xw_redis w1"
    using assms(2,3) t by (auto simp: ArticleService_SaveCollectedItems_def)
  then show ?thesis using save_loop_counts [OF l] new t t'(2) by auto
qed
definition sample_item :: collected_item where
  "sample_item =
     \<lparr>item_user_id = 7, item_source_id = 1, item_source_type = ''email'', item_external_id = Some ''m1'',
      item_title = ''hello'', item_url = None, item_original_url = None, item_author = [], item_summary = [],
      item_content = ''text'', item_content_hash = ''h1'', item_published_at = None\<rparr>"

definition sample_article :: article where
  "sample_article =
     \<lparr>ar_id = 1, ar_source_id = 1, ar_source_type = ''email'', ar_external_id = Some ''m1'', ar_title = ''hello'',
      ar_url = None, ar_original_url = None, ar_author = [], ar_summary = [], ar_content = ''text'',
      ar_content_hash = ''h1'', ar_published_at = None, ar_created_at = 5, ar_updated_at = 5\<rparr>"

definition sample_db :: article_db where
  "sample_db =
     \<lparr>ad_sources = sw_sources sample_source_world, ad_articles = \<lparr>rows = [sample_article], seq = 1\<rparr>,
      ad_states = empty_table\<rparr>"

definition before_saving :: article_world where
  "before_saving =
     \<lparr>xw_db = \<lparr>ad_sources = sw_sources sample_source_world, ad_articles = empty_table, ad_states = empty_table\<rparr>,
      xw_redis = Map.empty\<rparr>"

definition after_saving :: article_world where
  "after_saving = \<lparr>xw_db = sample_db, xw_redis = Map.empty\<rparr>"

lemma sample_toArticle: "toArticle 5 sample_item = Inr (sample_article\<lparr>ar_id := 0\<rparr>)"
  by (simp add: toArticle_def sample_item_def sample_article_def Let_def trim_space_visible visible_def
      normalizeOptionalString_def)

lemma sample_create_article:
  "Article_CreateIfNotExists None (sample_article\<lparr>ar_id := 0\<rparr>) empty_table = (\<lparr>rows = [sample_article], seq = 1\<rparr>, Inr True)"
  by (simp add: Article_CreateIfNotExists_def find_row_def insert_row_def empty_table_def sample_article_def)

lemma sample_save:
  "ArticleService_SaveCollectedItems None (\<lambda>_. None) (\<lambda>_. 5) id (\<lambda>_. redis_ok) (\<lambda>_. []) [sample_item] before_saving =
     (after_saving, Inr \<lparr>inserted_count = 1, duplicated_count = 0\<rparr>)"
  by (simp add: ArticleService_SaveCollectedItems_def before_saving_def sample_toArticle sample_create_article
      after_saving_def sample_db_def article_deleteUserListCache_def)

theorem article_save_idempotent_witness:
  "snd (ArticleService_SaveCollectedItems None (\<lambda>_. None) (\<lambda>_. 9) id (\<lambda>_. redis_ok) (\<lambda>_. []) [sample_item] after_saving) =
     Inr \<lparr>inserted_count = 0, duplicated_count = 1\<rparr>"
proof -
  obtain w2 res2 where r: "ArticleService_SaveCollectedItems None (\<lambda>_. None) (\<lambda>_. 9) id (\<lambda>_. redis_ok) (\<lambda>_. [])
      [sample_item] after_saving = (w2, res2)" by fastforce
  from article_save_idempotent [OF sample_save r] show ?thesis by (simp add: r)
qed


subsection \<open>The invariant of the tables\<close>

definition article_row_ok :: "article \<Rightarrow> bool" where
  "article_row_ok a \<longleftrightarrow>
     0 < ar_source_id a \<and> ar_source_type a \<noteq> [] \<and> trim_space (ar_source_type a) = ar_source_type a \<and>
     ar_title a \<noteq> [] \<and> trim_space (ar_title a) = ar_title a \<and>
     ar_content_hash a \<noteq> [] \<and> trim_space (ar_content_hash a) = ar_content_hash a \<and> ar_external_id a \<noteq> Some []"

definition article_inv :: "article_table \<Rightarrow> bool" where
  "article_inv t \<longleftrightarrow>
     wf_table ar_id t \<and> (\<forall>a \<in> set (rows t). article_row_ok a) \<and>
     (\<forall>a \<in> set (rows t). \<forall>b \<in> set (rows t). same_article a b \<longrightarrow> a = b)"

definition state_row_ok :: "article_state \<Rightarrow> bool" where
  "state_row_ok s \<longleftrightarrow>
     (ats_is_read s \<longleftrightarrow> ats_read_at s \<noteq> None) \<and> (ats_is_saved s \<longleftrightarrow> ats_saved_at s \<noteq> None)"

definition state_key :: "article_state \<Rightarrow> int \<times> int" where
  "state_key s = (ats_user_id s, ats_article_id s)"

definition state_inv :: "article_state_table \<Rightarrow> bool" where
  "state_inv t \<longleftrightarrow>
     wf_table ats_id t \<and> (\<forall>s \<in> set (rows t). state_row_ok s) \<and> distinct (map state_key (rows t))"

lemma article_row_ok_id [simp]: "article_row_ok (a\<lparr>ar_id := i\<rparr>) = article_row_ok a"
  by (simp add: article_row_ok_def)

lemma toArticle_row_ok: "toArticle c item = Inr a \<Longrightarrow> article_row_ok a"
  by (auto simp: toArticle_def article_row_ok_def normalizeOptionalString_def Let_def split: if_splits option.splits)

lemma article_inv_create:
  assumes "article_inv t" "article_row_ok a"
  shows "article_inv (fst (Article_CreateIfNotExists f a t))"
proof (rule Article_CreateIfNotExists_cases [of f a t])
  assume n: "find_row (same_article a) t = None"
    and e: "Article_CreateIfNotExists f a t = (insert_row (\<lambda>i. a\<lparr>ar_id := i\<rparr>) t, Inr True)"
  have "\<not> same_article a b \<and> \<not> same_article b a" if "b \<in> set (rows t)" for b
    using n that by (auto simp: find_row_None dest: same_article_sym)
  with assms show ?thesis unfolding e fst_conv article_inv_def
    by (intro conjI wf_insert_row) auto
qed (use assms in \<open>simp_all add: article_inv_def\<close>)

lemma article_state_for_key: "article_state_for u a = (\<lambda>s. state_key s = (u, a))"
  by (simp add: fun_eq_iff article_state_for_def state_key_def)

lemma state_assignments_keeps [simp]:
  "state_key (state_assignments p s) = state_key s" "ats_id (state_assignments p s) = ats_id s"
  by (simp_all add: state_assignments_def state_key_def Let_def split: option.split)

lemma new_article_state_key [simp]:
  "state_key (new_article_state p i) = (up_user_id p, up_article_id p)" "ats_id (new_article_state p i) = i"
  by (simp_all add: new_article_state_def state_key_def)

lemma state_row_ok_new: "state_row_ok (new_article_state p i)"
  by (simp add: state_row_ok_def new_article_state_def mark_time_def split: option.split)

lemma state_row_ok_assign: "state_row_ok s \<Longrightarrow> state_row_ok (state_assignments p s)"
  by (simp add: state_row_ok_def state_assignments_def mark_time_def Let_def split: option.split)

lemma state_inv_upsert:
  assumes "state_inv t"
  shows "state_inv (upsert_state_row p t)"
proof (cases "find_row (article_state_for (up_user_id p) (up_article_id p)) t")
  case None
  then have "(up_user_id p, up_article_id p) \<notin> state_key ` set (rows t)"
    by (auto simp: find_row_None article_state_for_key)
  with None assms show ?thesis
    by (auto simp: upsert_state_row_def state_inv_def state_row_ok_new intro: wf_insert_row)
next
  case (Some s)
  let ?P = "article_state_for (up_user_id p) (up_article_id p)"
  have "map state_key (rows (update_rows ?P (state_assignments p) t)) = map state_key (rows t)"
    by (rule map_ident_update_rows) simp
  then show ?thesis using Some assms
    by (auto simp: upsert_state_row_def state_inv_def state_row_ok_assign set_rows_update intro!: wf_update_rows wf_burn_seq)
qed

text \<open>
  The statements that reach the tables: an insert of the article of an item, an upsert of a
  state, any change of the sources, and the end of a transaction that is rolled back.
\<close>

definition article_db_inv :: "article_db \<Rightarrow> bool" where
  "article_db_inv db \<longleftrightarrow> article_inv (ad_articles db) \<and> state_inv (ad_states db)"

inductive article_step :: "article_db \<Rightarrow> article_db \<Rightarrow> bool" where
  ast_insert: "toArticle c item = Inr a \<Longrightarrow>
    article_step db (db\<lparr>ad_articles := fst (Article_CreateIfNotExists f a (ad_articles db))\<rparr>)"
| ast_upsert: "article_step db (db\<lparr>ad_states := upsert_state_row p (ad_states db)\<rparr>)"
| ast_sources: "article_step db (db\<lparr>ad_sources := t\<rparr>)"

lemma article_step_inv: "article_step db db' \<Longrightarrow> article_db_inv db \<Longrightarrow> article_db_inv db'"
  by (induction rule: article_step.induct)
    (auto simp: article_db_inv_def intro: article_inv_create state_inv_upsert toArticle_row_ok)

lemma article_steps_inv: "article_step\<^sup>*\<^sup>* db db' \<Longrightarrow> article_db_inv db \<Longrightarrow> article_db_inv db'"
  by (induction rule: rtranclp_induct) (auto intro: article_step_inv)

lemma save_loop_steps:
  "article_step\<^sup>*\<^sup>* db (db\<lparr>ad_articles := fst (save_loop fault clock i items acc users (ad_articles db))\<rparr>)"
proof (induction items arbitrary: i acc users db)
  case (Cons item items)
  show ?case
  proof (cases "toArticle (clock i) item")
    case (Inl e)
    then show ?thesis by simp
  next
    case a: (Inr a)
    obtain t1 r where t1: "Article_CreateIfNotExists (fault i) a (ad_articles db) = (t1, r)" by fastforce
    have "article_step db (db\<lparr>ad_articles := t1\<rparr>)"
      using ast_insert [OF a, of db "fault i"] t1 by simp
    then have step: "article_step\<^sup>*\<^sup>* db (db\<lparr>ad_articles := t1\<rparr>)" by blast
    have IH: "article_step\<^sup>*\<^sup>* (db\<lparr>ad_articles := t1\<rparr>)
        (db\<lparr>ad_articles := fst (save_loop fault clock (Suc i) items acc' users' t1)\<rparr>)" for acc' users'
      using Cons.IH [of "db\<lparr>ad_articles := t1\<rparr>"] by simp
    show ?thesis
    proof (cases r)
      case (Inl e)
      then show ?thesis using step a t1 by simp
    next
      case (Inr created)
      then show ?thesis using rtranclp_trans [OF step IH] a t1 by (cases created) simp_all
    qed
  qed
qed simp

lemma sw_save: "xw_db (fst (ArticleService_SaveCollectedItems cache fault clock iter rf visited items w)) =
    (xw_db w)\<lparr>ad_articles := fst (save_loop fault clock 0 items \<lparr>inserted_count = 0, duplicated_count = 0\<rparr> []
       (ad_articles (xw_db w)))\<rparr>"
  by (auto simp: ArticleService_SaveCollectedItems_def split: prod.split sum.split)

lemma Article_UpsertState_db:
  "fst (Article_UpsertState fault env1 env2 p db) =
     (if \<exists>e. Article_FindByUserAndID (fault UpsertCheck) (up_user_id p) (up_article_id p) db = Inl e then db
      else if fault UpsertWrite \<noteq> None then env1 db
      else env2 ((env1 db)\<lparr>ad_states := upsert_state_row p (ad_states (env1 db))\<rparr>))"
  by (auto simp: Article_UpsertState_def Let_def split: sum.split option.split)

lemma sw_state: "xw_db (fst (ArticleService_UpdateState cache fault env1 env2 rf visited now uid aid isRead isSaved w)) =
    fst (Article_UpsertState fault env1 env2
      \<lparr>up_user_id = uid, up_article_id = aid, up_is_read = isRead, up_is_saved = isSaved, up_now = now\<rparr> (xw_db w))"
  by (auto simp: ArticleService_UpdateState_def split: prod.split sum.split)

lemma sw_articles: "xw_db (fst (ArticleService_ListArticles found cache fault rf now req w)) = xw_db w"
  by (auto simp: ArticleService_ListArticles_def Let_def split: option.split sum.split)

inductive article_service_step :: "article_world \<Rightarrow> article_world \<Rightarrow> bool" where
  xs_save: "article_service_step w (fst (ArticleService_SaveCollectedItems cache fault clock iter rf visited items w))"
| xs_list: "article_service_step w (fst (ArticleService_ListArticles found cache lfault lrf now req w))"
| xs_state: "(\<And>db. article_step\<^sup>*\<^sup>* db (env1 db)) \<Longrightarrow> (\<And>db. article_step\<^sup>*\<^sup>* db (env2 db)) \<Longrightarrow>
    article_service_step w
      (fst (ArticleService_UpdateState cache ufault env1 env2 urf uvisited now uid aid isRead isSaved w))"
| xs_other: "article_step\<^sup>*\<^sup>* (xw_db w) db \<Longrightarrow> article_service_step w \<lparr>xw_db = db, xw_redis = r\<rparr>"
| xs_rollback: "seq (ad_articles (xw_db w)) \<le> seq cur \<Longrightarrow>
    article_service_step w (w\<lparr>xw_db := (xw_db w)\<lparr>ad_articles := rollback (ad_articles (xw_db w)) cur\<rparr>\<rparr>)"

lemma article_service_step_inv:
  assumes "article_service_step w w'" "article_db_inv (xw_db w)"
  shows "article_db_inv (xw_db w')"
  using assms(1)
proof cases
  case (xs_save cache fault clock iter rf visited items)
  then show ?thesis using save_loop_steps assms(2) by (simp add: sw_save) (rule article_steps_inv)
next
  case (xs_state env1 env2 cache ufault urf uvisited now uid aid isRead isSaved)
  show ?thesis unfolding xs_state(1) sw_state Article_UpsertState_db
    by (simp add: assms(2) article_steps_inv [OF xs_state(2)] article_steps_inv [OF xs_state(3)]
        article_step_inv [OF ast_upsert])
next
  case (xs_rollback cur)
  then show ?thesis using assms(2) by (auto simp: article_db_inv_def article_inv_def intro: wf_rollback)
qed (use assms(2) in \<open>auto simp: sw_articles intro: article_steps_inv\<close>)

text \<open>
  C36. Whatever items are saved and articles marked, with database faults anywhere, rolled back
  transactions and other writers in between: no two articles of a source share their external
  id or their content hash, every article has a trimmed non-empty title, type and hash, a user
  has at most one state per article, and an article is read (saved) exactly when the state has
  the time it was read (saved).
\<close>

theorem article_reachable_inv:
  "article_service_step\<^sup>*\<^sup>*
     \<lparr>xw_db = \<lparr>ad_sources = empty_table, ad_articles = empty_table, ad_states = empty_table\<rparr>, xw_redis = Map.empty\<rparr> w \<Longrightarrow>
   article_inv (ad_articles (xw_db w)) \<and> state_inv (ad_states (xw_db w))"
proof (induction rule: rtranclp_induct)
  case base
  show ?case by (simp add: article_inv_def state_inv_def)
next
  case (step w w')
  then show ?case using article_service_step_inv by (metis article_db_inv_def)
qed

theorem article_reachable_inv_witness: "article_inv (ad_articles sample_db)"
proof -
  let ?w0 = "\<lparr>xw_db = \<lparr>ad_sources = empty_table, ad_articles = empty_table, ad_states = empty_table\<rparr>, xw_redis = Map.empty\<rparr>"
  have "article_step (xw_db ?w0) (xw_db before_saving)"
    using ast_sources [of "xw_db ?w0" "sw_sources sample_source_world"] by (simp add: before_saving_def)
  then have 1: "article_service_step ?w0 before_saving"
    using xs_other [of ?w0 "xw_db before_saving" Map.empty] by (simp add: before_saving_def r_into_rtranclp)
  have "article_service_step before_saving after_saving"
    using xs_save [of before_saving None "\<lambda>_. None" "\<lambda>_. 5" id "\<lambda>_. redis_ok" "\<lambda>_. []" "[sample_item]"] by (simp add: sample_save)
  with 1 have "article_service_step\<^sup>*\<^sup>* ?w0 after_saving" by simp
  from article_reachable_inv [OF this] show ?thesis by (simp add: after_saving_def)
qed


subsection \<open>Marking an article\<close>

lemma find_row_upsert:
  "find_row (article_state_for u a) (upsert_state_row p t) =
     (if (u, a) = (up_user_id p, up_article_id p)
      then Some (case find_row (article_state_for u a) t of
                   None \<Rightarrow> new_article_state p (seq t + 1) | Some s \<Rightarrow> state_assignments p s)
      else find_row (article_state_for u a) t)"
proof (cases "find_row (article_state_for (up_user_id p) (up_article_id p)) t")
  case None
  then show ?thesis
    by (auto simp: upsert_state_row_def find_row_insert article_state_for_key split: option.split)
next
  case (Some s)
  have "find_row (\<lambda>s. state_key s = (u, a)) (update_rows (\<lambda>s. state_key s = (up_user_id p, up_article_id p)) (state_assignments p) t) =
      map_option (\<lambda>s. if state_key s = (up_user_id p, up_article_id p) then state_assignments p s else s)
        (find_row (\<lambda>s. state_key s = (u, a)) t)"
    by (rule find_row_update_key) simp
  moreover have "map_option (\<lambda>s. if state_key s = (up_user_id p, up_article_id p) then state_assignments p s else s)
        (find_row (\<lambda>s. state_key s = (u, a)) t) =
      (if (u, a) = (up_user_id p, up_article_id p) then map_option (state_assignments p) (find_row (\<lambda>s. state_key s = (u, a)) t)
       else find_row (\<lambda>s. state_key s = (u, a)) t)"
  proof (cases "find_row (\<lambda>s. state_key s = (u, a)) t")
    case (Some s')
    then have "state_key s' = (u, a)" using find_row_SomeD by fast
    then show ?thesis using Some by (cases "(u, a) = (up_user_id p, up_article_id p)") auto
  qed auto
  ultimately show ?thesis using Some by (auto simp: upsert_state_row_def article_state_for_key Let_def)
qed

text \<open>Finding an article: the row of the article, owned, with the state of the user.\<close>

lemma find_map_pair:
  "find (\<lambda>(a, row). P a) (map (\<lambda>a. (a, g a)) xs) = map_option (\<lambda>a. (a, g a)) (find P xs)"
  by (induction xs) auto

lemma find_filter: "find P (filter Q xs) = find (\<lambda>x. Q x \<and> P x) xs"
  by (induction xs) auto

lemma Article_Find_eq:
  "Article_FindByUserAndID None u i db =
     (case find_row (\<lambda>a. article_owned (ad_sources db) u a \<and> ar_id a = i) (ad_articles db) of
        None \<Rightarrow> Inl (Sentinel ErrArticleNotFound)
      | Some a \<Rightarrow> Inr (article_row True a (find_row (article_state_for u (ar_id a)) (ad_states db))))"
  by (simp add: Article_FindByUserAndID_def articleQuery_def find_map_pair find_filter select_rows_def find_row_def
      split: option.split)

definition with_marks :: "time \<Rightarrow> bool option \<Rightarrow> bool option \<Rightarrow> article_with_state \<Rightarrow> article_with_state" where
  "with_marks now isRead isSaved row =
     (let row1 = (case isRead of None \<Rightarrow> row
                  | Some b \<Rightarrow> row\<lparr>aw_is_read := b, aw_read_at := if b then Some now else None\<rparr>)
      in case isSaved of None \<Rightarrow> row1
         | Some b \<Rightarrow> row1\<lparr>aw_is_saved := b, aw_saved_at := if b then Some now else None\<rparr>)"

lemma article_row_marked:
  "article_row c a (Some (case st of None \<Rightarrow> new_article_state p i | Some s \<Rightarrow> state_assignments p s)) =
     with_marks (up_now p) (up_is_read p) (up_is_saved p) (article_row c a st)"
  by (simp add: article_row_def with_marks_def new_article_state_def state_assignments_def mark_time_def Let_def
      split: option.split)

lemma Article_Find_upsert:
  "Article_FindByUserAndID None u i (db\<lparr>ad_states := upsert_state_row p (ad_states db)\<rparr>) =
     (if (u, i) = (up_user_id p, up_article_id p)
      then map_sum id (with_marks (up_now p) (up_is_read p) (up_is_saved p)) (Article_FindByUserAndID None u i db)
      else Article_FindByUserAndID None u i db)"
  by (auto simp: Article_Find_eq find_row_upsert article_row_marked dest!: find_row_SomeD split: option.split)

text \<open>
  Marking an article read or saved sets exactly the marks of the request, with the time of
  the request or none, for the article of the user: the answer and a later read show the
  article as it was with these marks, the other mark as it was; every other article, and this
  article for any other user, reads as before.
\<close>

theorem article_mark_effect:
  assumes "ArticleService_GetArticle None uid aid w = Inr old"
    and "ArticleService_UpdateState cache no_faults id id rf visited now uid aid isRead isSaved w = (w', res)"
  shows "res = Inr (with_marks now isRead isSaved old) \<and> ArticleService_GetArticle None uid aid w' = res \<and>
         (\<forall>u i. (u, i) \<noteq> (uid, aid) \<longrightarrow>
            ArticleService_GetArticle None u i w' = ArticleService_GetArticle None u i w)"
proof -
  let ?p = "\<lparr>up_user_id = uid, up_article_id = aid, up_is_read = isRead, up_is_saved = isSaved, up_now = now\<rparr>"
  let ?db = "(xw_db w)\<lparr>ad_states := upsert_state_row ?p (ad_states (xw_db w))\<rparr>"
  have old: "Article_FindByUserAndID None uid aid (xw_db w) = Inr old"
    using assms(1) by (simp add: ArticleService_GetArticle_def)
  then have new: "Article_FindByUserAndID None uid aid ?db = Inr (with_marks now isRead isSaved old)"
    by (simp add: Article_Find_upsert)
  have "Article_UpsertState no_faults id id ?p (xw_db w) = (?db, Inr (with_marks now isRead isSaved old))"
    using old new by (simp add: Article_UpsertState_def Let_def)
  then have "xw_db w' = ?db" "res = Inr (with_marks now isRead isSaved old)"
    using assms(2) by (auto simp: ArticleService_UpdateState_def)
  then show ?thesis using new by (simp add: ArticleService_GetArticle_def Article_Find_upsert)
qed

lemma sample_get:
  "ArticleService_GetArticle None 7 1 after_saving = Inr (article_row True sample_article None)"
  by (simp add: ArticleService_GetArticle_def Article_Find_eq after_saving_def sample_db_def find_row_def article_owned_def
      sample_source_world_def sample_source_def sample_article_def empty_table_def)

theorem article_mark_effect_witness:
  "snd (ArticleService_UpdateState None no_faults id id redis_ok [] 9 7 1 (Some True) None after_saving) =
     Inr ((article_row True sample_article None)\<lparr>aw_is_read := True, aw_read_at := Some 9\<rparr>)"
proof -
  obtain w' res where r: "ArticleService_UpdateState None no_faults id id redis_ok [] 9 7 1 (Some True) None after_saving = (w', res)"
    by fastforce
  from article_mark_effect [OF sample_get r] show ?thesis by (simp add: r with_marks_def)
qed


subsection \<open>Users are isolated\<close>

definition article_selection ::
  "(string \<Rightarrow> article \<Rightarrow> bool) \<Rightarrow> list_articles_request \<Rightarrow> article_db \<Rightarrow> article_with_state list" where
  "article_selection found q db = map snd (filter (applyArticleFilters found q) (articleQuery (la_user_id q) False db))"

lemma fresh_article_list_eq:
  "fresh_article_list found no_faults q db =
     Inr \<lparr>lz_articles = map toArticleListDTO (page (la_limit q) (la_offset q)
            (sort_key article_order (article_selection found q db))),
          lz_total = int (length (article_selection found q db)), lz_limit = la_limit q, lz_offset = la_offset q\<rparr>"
  by (simp add: fresh_article_list_def Article_ListByUser_def article_selection_def Let_def)

lemma article_selection_owned:
  "d \<in> set (article_selection found q db) \<Longrightarrow>
     \<exists>a \<in> set (rows (ad_articles db)). article_owned (ad_sources db) (la_user_id q) a \<and>
       d = article_row False a (find_row (article_state_for (la_user_id q) (ar_id a)) (ad_states db))"
  by (auto simp: article_selection_def articleQuery_def select_rows_def)

lemma set_page: "set (page l n xs) \<subseteq> set xs"
  by (auto simp: page_def dest!: in_set_takeD in_set_dropD)

text \<open>
  A user cannot read or mark an article of a source that is not theirs or is deleted: the
  handlers answer 404 and nothing changes, not even the cache. A listing, whatever its filters,
  holds only articles of sources of the user who asks that are not deleted, at most 100, and
  never their content.
\<close>

theorem article_user_isolation:
  assumes "hr_user_id req = Some uid" "hr_param req ''id'' = fmt_int i" "in_int64 i"
    and "\<And>a. a \<in> set (rows (ad_articles (xw_db w))) \<Longrightarrow> ar_id a = (if i \<le> 0 then 0 else i) \<Longrightarrow>
            \<not> article_owned (ad_sources (xw_db w)) uid a"
    and "bind_mark ''is_read'' body = Some b" "bind_mark ''is_saved'' body' = Some b'"
    and "la_limit q \<le> 100"
  shows "ArticleHandler_Get None req w = (w, response_Error 404 ''article_not_found'' ''article not found'') \<and>
         ArticleHandler_MarkRead cache no_faults env1 env2 rf visited now body req w =
           (w, response_Error 404 ''article_not_found'' ''article not found'') \<and>
         ArticleHandler_Save cache no_faults env1 env2 rf visited now body' req w =
           (w, response_Error 404 ''article_not_found'' ''article not found'') \<and>
         (\<forall>resp. fresh_article_list found no_faults q (xw_db w) = Inr resp \<longrightarrow> length (lz_articles resp) \<le> 100 \<and>
            (\<forall>d \<in> set (lz_articles resp). aw_content d = [] \<and>
               (\<exists>a \<in> set (rows (ad_articles (xw_db w))). ar_id a = aw_id d \<and>
                  article_owned (ad_sources (xw_db w)) (la_user_id q) a)))"
proof -
  let ?j = "if i \<le> 0 then 0 else i"
  have "find_row (\<lambda>a. article_owned (ad_sources (xw_db w)) uid a \<and> ar_id a = ?j) (ad_articles (xw_db w)) = None"
    using assms(4) unfolding find_row_None by blast
  then have nf: "Article_FindByUserAndID None uid ?j (xw_db w) = Inl (Sentinel ErrArticleNotFound)"
    by (simp only: Article_Find_eq option.case)
  have p: "userAndArticleID req = Inr (uid, ?j)"
    using assms(1-3) by (simp add: userAndArticleID_def requestctx_UserID_def parseIDParam_fmt)
  have up: "ArticleService_UpdateState cache no_faults env1 env2 rf visited now uid ?j r s w =
      (w, Inl (Sentinel ErrArticleNotFound))" for r s
    using nf by (simp add: ArticleService_UpdateState_def Article_UpsertState_def del: if_split)
  have "ArticleHandler_Get None req w = (w, response_Error 404 ''article_not_found'' ''article not found'')"
    using nf by (simp add: ArticleHandler_Get_def p ArticleService_GetArticle_def article_handleError_def)
  moreover have "ArticleHandler_MarkRead cache no_faults env1 env2 rf visited now body req w =
      (w, response_Error 404 ''article_not_found'' ''article not found'')"
    "ArticleHandler_Save cache no_faults env1 env2 rf visited now body' req w =
      (w, response_Error 404 ''article_not_found'' ''article not found'')"
    by (simp_all only: ArticleHandler_MarkRead_def ArticleHandler_Save_def p sum.case prod.case assms(5,6) option.case up)
      (simp_all add: article_handleError_def)
  moreover have "length (lz_articles resp) \<le> 100 \<and>
            (\<forall>d \<in> set (lz_articles resp). aw_content d = [] \<and>
               (\<exists>a \<in> set (rows (ad_articles (xw_db w))). ar_id a = aw_id d \<and>
                  article_owned (ad_sources (xw_db w)) (la_user_id q) a))"
    if resp: "fresh_article_list found no_faults q (xw_db w) = Inr resp" for resp
  proof (intro conjI ballI)
    show "length (lz_articles resp) \<le> 100"
      using resp assms(7) by (auto simp: fresh_article_list_eq page_def min_le_iff_disj)
  next
    fix d assume "d \<in> set (lz_articles resp)"
    then obtain row where r: "row \<in> set (page (la_limit q) (la_offset q) (sort_key article_order
        (article_selection found q (xw_db w))))" and d: "d = toArticleListDTO row"
      using resp by (auto simp: fresh_article_list_eq)
    from set_page [THEN subsetD, OF r] have "row \<in> set (article_selection found q (xw_db w))" by simp
    then obtain a where "a \<in> set (rows (ad_articles (xw_db w)))"
      "article_owned (ad_sources (xw_db w)) (la_user_id q) a" "aw_id row = ar_id a"
      using article_selection_owned by (fastforce simp: article_row_def)
    with d show "aw_content d = []" "\<exists>a \<in> set (rows (ad_articles (xw_db w))). ar_id a = aw_id d \<and>
          article_owned (ad_sources (xw_db w)) (la_user_id q) a"
      by (auto simp: toArticleListDTO_def)
  qed
  ultimately show ?thesis by blast
qed

theorem article_user_isolation_witness:
  "ArticleHandler_Get None
     \<lparr>hr_method = [], hr_header = (\<lambda>_. []), hr_param = (\<lambda>_. fmt_int 1), hr_query = (\<lambda>_. []),
      hr_user_id = Some 8, hr_request_id = None\<rparr> after_saving =
   (after_saving, response_Error 404 ''article_not_found'' ''article not found'')"
proof -
  let ?req = "\<lparr>hr_method = [], hr_header = (\<lambda>_. []), hr_param = (\<lambda>_. fmt_int 1), hr_query = (\<lambda>_. []),
      hr_user_id = Some 8, hr_request_id = None\<rparr>"
  have o: "\<not> article_owned (ad_sources (xw_db after_saving)) 8 a" for a
    by (simp add: article_owned_def after_saving_def sample_db_def sample_source_world_def sample_source_def find_row_def)
  have b: "bind_mark ''is_read'' (JsonText (JObj [(''is_read'', JBool True)])) = Some True"
    "bind_mark ''is_saved'' (JsonText (JObj [(''is_saved'', JBool True)])) = Some True"
    by (simp_all add: bind_mark_def set_bool_field_def dec_ptr_def lower_byte_def)
  show ?thesis
    using article_user_isolation [of ?req 8 1 after_saving, OF _ _ _ o b,
        of "\<lparr>la_user_id = 8, la_source_id = 0, la_query = [], la_is_read = None, la_is_saved = None, la_limit = 20, la_offset = 0\<rparr>"]
    by (simp add: in_int64_def)
qed

end
