(* ===== verification/Article_Cache.thy ===== *)
theory Article_Cache
  imports Article_Store
begin

section \<open>The cache of article listings\<close>

text \<open>
  The list cache of \<open>internal/module/article/cache.go\<close> keeps the contract of a list cache:
  listing through it is listing without it, saving items and marking articles delete what
  they make wrong. Deleting a source does not: its articles are listed until they expire.
\<close>

subsection \<open>The cache holds what was put in\<close>

definition article_dto_ok :: "article_with_state \<Rightarrow> bool" where
  "article_dto_ok d \<longleftrightarrow> in_int64 (aw_id d) \<and> in_int64 (aw_source_id d) \<and> article_dto_ok_json d"

definition article_list_ok :: "list_articles_response \<Rightarrow> bool" where
  "article_list_ok r \<longleftrightarrow>
     list_all article_dto_ok (lz_articles r) \<and> in_int64 (lz_total r) \<and> in_int64 (lz_limit r) \<and> in_int64 (lz_offset r)"

lemma article_keys_folded [simp]:
  "fold_key ''SourceID'' = ''sourceid''" "fold_key ''SourceType'' = ''sourcetype''"
  "fold_key ''ExternalID'' = ''externalid''" "fold_key ''Title'' = ''title''"
  "fold_key ''OriginalURL'' = ''originalurl''" "fold_key ''Author'' = ''author''" "fold_key ''Summary'' = ''summary''"
  "fold_key ''Content'' = ''content''" "fold_key ''PublishedAt'' = ''publishedat''" "fold_key ''IsRead'' = ''isread''"
  "fold_key ''IsSaved'' = ''issaved''" "fold_key ''ReadAt'' = ''readat''" "fold_key ''SavedAt'' = ''savedat''"
  "fold_key ''Articles'' = ''articles''"
  by (simp_all add: lower_byte_def)

lemma article_dto_roundtrip:
  assumes "article_dto_ok d"
  obtains j where "article_dto_json d = Some j"
    "unmarshal_struct set_article_field zero_article_dto (JsonText j) = Some d"
proof -
  let ?j = "JObj
        [(''ID'', JNum (aw_id d)), (''SourceID'', JNum (aw_source_id d)), (''SourceType'', JStr (aw_source_type d)),
         (''ExternalID'', json_opt JStr (aw_external_id d)), (''Title'', JStr (aw_title d)),
         (''URL'', json_opt JStr (aw_url d)), (''OriginalURL'', json_opt JStr (aw_original_url d)),
         (''Author'', JStr (aw_author d)), (''Summary'', JStr (aw_summary d)), (''Content'', JStr (aw_content d)),
         (''PublishedAt'', json_opt JTime (aw_published_at d)), (''CreatedAt'', JTime (aw_created_at d)),
         (''UpdatedAt'', JTime (aw_updated_at d)), (''IsRead'', JBool (aw_is_read d)),
         (''IsSaved'', JBool (aw_is_saved d)), (''ReadAt'', json_opt JTime (aw_read_at d)),
         (''SavedAt'', json_opt JTime (aw_saved_at d))]"
  have "article_dto_json d = Some ?j" using assms by (simp add: article_dto_json_def article_dto_ok_def)
  moreover have "unmarshal_struct set_article_field zero_article_dto (JsonText ?j) = Some d"
    using assms
    by (simp add: set_article_field_def zero_article_dto_def article_dto_ok_def del: fold_key.simps)
  ultimately show thesis by (rule that)
qed

lemma article_list_roundtrip:
  assumes "article_list_ok r"
  obtains p where "marshal_article_list r = Some p" "unmarshal_article_list p = Some r"
proof -
  define enc where "enc = (\<lambda>d. the (article_dto_json d))"
  have e: "article_dto_json d = Some (enc d)"
    "unmarshal_struct set_article_field zero_article_dto (JsonText (enc d)) = Some d" if "d \<in> set (lz_articles r)" for d
    using assms that by (auto simp: article_list_ok_def list_all_iff enc_def elim!: article_dto_roundtrip)
  have m: "those (map article_dto_json (lz_articles r)) = Some (map enc (lz_articles r))"
    using e(1) by (rule those_map_SomeI)
  have "those (map (unmarshal_struct set_article_field zero_article_dto \<circ> (\<lambda>d. JsonText (enc d))) (lz_articles r)) =
      Some (map id (lz_articles r))"
    by (rule those_map_SomeI) (simp add: e(2))
  then have d: "dec_list (unmarshal_struct set_article_field) zero_article_dto (JArr (map enc (lz_articles r))) old =
      Some (lz_articles r)" for old
    by (simp add: dec_list_def comp_def)
  show thesis
  proof (rule that)
    show "marshal_article_list r = Some (JsonText (JObj
          [(''Articles'', JArr (map enc (lz_articles r))), (''Total'', JNum (lz_total r)), (''Limit'', JNum (lz_limit r)),
           (''Offset'', JNum (lz_offset r))]))"
      by (simp add: marshal_article_list_def m)
    show "unmarshal_article_list (JsonText (JObj
          [(''Articles'', JArr (map enc (lz_articles r))), (''Total'', JNum (lz_total r)), (''Limit'', JNum (lz_limit r)),
           (''Offset'', JNum (lz_offset r))])) = Some r"
      using assms by (simp add: unmarshal_article_list_def set_article_list_field_def article_list_ok_def d del: fold_key.simps)
  qed
qed


subsection \<open>Keys of the cache\<close>

lemma boolKey_no_colon [simp]: "CHR '':'' \<notin> set (boolKey b)"
  by (simp add: boolKey_def split: option.split)

lemma boolKey_inject [simp]: "boolKey b = boolKey b' \<longleftrightarrow> b = b'"
  by (auto simp: boolKey_def split: option.splits if_splits)

text \<open>
  The query is the only part of a key that can hold a colon: what stands before it is cut
  from the left, what stands behind it from the right.
\<close>

definition key_tail :: "list_articles_request \<Rightarrow> string \<Rightarrow> string" where
  "key_tail q s = s @ CHR '':'' # ''read'' @ CHR '':'' # boolKey (la_is_read q) @ CHR '':'' # ''saved'' @
     CHR '':'' # boolKey (la_is_saved q) @ CHR '':'' # ''limit'' @ CHR '':'' # fmt_int (la_limit q) @
     CHR '':'' # ''offset'' @ CHR '':'' # fmt_int (la_offset q)"

lemma article_listKey_parts:
  "article_listKey pfx q = (pfx @ '':user:'') @ fmt_int (la_user_id q) @ CHR '':'' # ''source:'' @
     fmt_int (la_source_id q) @ CHR '':'' # ''q:'' @ key_tail q (la_query q)"
  by (simp add: article_listKey_def key_tail_def)

lemma key_tail_inject:
  assumes "key_tail q s = key_tail q' s'"
  shows "s = s' \<and> la_is_read q = la_is_read q' \<and> la_is_saved q = la_is_saved q' \<and> la_limit q = la_limit q' \<and>
         la_offset q = la_offset q'"
proof -
  let ?a = "\<lambda>q s. s @ CHR '':'' # ''read''"
  let ?b = "\<lambda>q s. ?a q s @ CHR '':'' # boolKey (la_is_read q)"
  let ?c = "\<lambda>q s. (?b q s @ CHR '':'' # ''saved'') @ CHR '':'' # boolKey (la_is_saved q)"
  let ?d = "\<lambda>q s. (?c q s @ CHR '':'' # ''limit'') @ CHR '':'' # fmt_int (la_limit q)"
  let ?e = "\<lambda>q s. (?d q s @ CHR '':'' # ''offset'')"
  have "?e q s @ CHR '':'' # fmt_int (la_offset q) = ?e q' s' @ CHR '':'' # fmt_int (la_offset q')"
    using assms by (simp add: key_tail_def)
  from split_last [OF this] have n: "la_offset q = la_offset q'" and e: "?e q s = ?e q' s'" by simp_all
  from split_last [OF e] have d: "?d q s = ?d q' s'" by simp
  from split_last [OF d] have l: "la_limit q = la_limit q'"
    and c: "?c q s @ CHR '':'' # ''limit'' = ?c q' s' @ CHR '':'' # ''limit''" by simp_all
  from split_last [OF c] have c: "?c q s = ?c q' s'" by simp
  from split_last [OF c] have sv: "la_is_saved q = la_is_saved q'"
    and b: "?b q s @ CHR '':'' # ''saved'' = ?b q' s' @ CHR '':'' # ''saved''" by simp_all
  from split_last [OF b] have b: "?b q s = ?b q' s'" by simp
  from split_last [OF b] have rd: "la_is_read q = la_is_read q'" and a: "?a q s = ?a q' s'" by simp_all
  from split_last [OF a] have "s = s'" by simp
  with n l sv rd show ?thesis by simp
qed

lemma article_listKey_inject:
  assumes "article_listKey pfx q = article_listKey pfx q'"
  shows "q = q'"
proof -
  from assms have "fmt_int (la_user_id q) @ CHR '':'' # ''source:'' @ fmt_int (la_source_id q) @ CHR '':'' # ''q:'' @
      key_tail q (la_query q) =
     fmt_int (la_user_id q') @ CHR '':'' # ''source:'' @ fmt_int (la_source_id q') @ CHR '':'' # ''q:'' @
      key_tail q' (la_query q')"
    by (simp add: article_listKey_parts)
  from split_first [OF this] have u: "la_user_id q = la_user_id q'"
    and t: "fmt_int (la_source_id q) @ CHR '':'' # ''q:'' @ key_tail q (la_query q) =
      fmt_int (la_source_id q') @ CHR '':'' # ''q:'' @ key_tail q' (la_query q')"
    by simp_all
  from split_first [OF t] have "la_source_id q = la_source_id q'" "key_tail q (la_query q) = key_tail q' (la_query q')"
    by simp_all
  with u key_tail_inject show ?thesis by (metis list_articles_request.equality unit.exhaust)
qed

lemma user_pattern_article:
  "plain_text pfx \<Longrightarrow> glob (user_pattern pfx uid) (article_listKey pfx q) \<longleftrightarrow> la_user_id q = uid"
  using user_pattern_key [of pfx uid "la_user_id q"] by (simp add: article_listKey_parts)


subsection \<open>The cache keeps its contract\<close>

definition article_cache_prefix :: string where
  "article_cache_prefix = ''cache:articles''"

lemma plain_article_prefix: "plain_text article_cache_prefix"
  by (simp add: article_cache_prefix_def plain_text_def)

lemma article_get_eq:
  "ArticleCache_GetList pfx redis_ok now q r =
     (case redis_get now (article_listKey pfx q) r of
           None \<Rightarrow> Inr None
         | Some v \<Rightarrow>
           (case unmarshal_article_list (redis_bytes v) of
              None \<Rightarrow> Inl (Wrapf ''unmarshal article list cache: '' (Plain ''json: cannot unmarshal'') '''')
            | Some resp \<Rightarrow> Inr (Some resp)))"
  by (simp add: ArticleCache_GetList_def)

interpretation article_cache: json_list_cache
  "ArticleCache_GetList article_cache_prefix" "ArticleCache_SetList article_cache_prefix"
  "ArticleCache_DeleteUser article_cache_prefix" la_user_id "\<lambda>q. True" article_list_ok
  "article_listKey article_cache_prefix" "user_pattern article_cache_prefix"
  marshal_article_list unmarshal_article_list
  "Wrapf ''unmarshal article list cache: '' (Plain ''json: cannot unmarshal'') ''''"
proof
  fix fault now q r resp
  assume "ArticleCache_GetList article_cache_prefix fault now q r = Inr (Some resp)"
  then show "ArticleCache_GetList article_cache_prefix redis_ok now q r = Inr (Some resp)"
    by (auto simp: ArticleCache_GetList_def split: redis_outcome.splits)
next
  fix resp p fault q r and now ttl :: int
  assume "marshal_article_list resp = Some p"
  then show "fst (ArticleCache_SetList article_cache_prefix fault now q resp ttl r) =
      fst (redis_write (fault RsSet) (redis_set (article_listKey article_cache_prefix q) (RJson p) (Some (now + ttl))) r)"
    by (simp add: ArticleCache_SetList_def split: prod.split option.split)
next
  fix fault visited u r
  show "fst (ArticleCache_DeleteUser article_cache_prefix fault visited u r) =
      fst (delete_keys fault (filter (glob (user_pattern article_cache_prefix u)) visited) r)"
    by (auto simp: ArticleCache_DeleteUser_def split: prod.split option.split redis_outcome.split)
next
  fix resp assume "article_list_ok resp"
  then show "\<exists>p. marshal_article_list resp = Some p \<and> unmarshal_article_list p = Some resp"
    by (rule article_list_roundtrip) blast
qed (auto simp: article_get_eq user_pattern_article plain_article_prefix dest: article_listKey_inject)

subsection \<open>The cache is transparent\<close>

definition article_answer ::
  "(string \<Rightarrow> article \<Rightarrow> bool) \<Rightarrow> article_db \<Rightarrow> list_articles_request \<Rightarrow> list_articles_response" where
  "article_answer found db q = projr (fresh_article_list found no_faults q db)"

definition article_cache_coherent :: "(string \<Rightarrow> article \<Rightarrow> bool) \<Rightarrow> article_db \<Rightarrow> redis \<Rightarrow> bool" where
  "article_cache_coherent found db r \<longleftrightarrow>
     (\<forall>now q resp. ArticleCache_GetList article_cache_prefix redis_ok now q r = Inr (Some resp) \<longrightarrow>
        resp = article_answer found db q)"

text \<open>The rows a JSON encoder can write: times in its range, numbers of 64 bits.\<close>

definition article_rows_storable :: "article_db \<Rightarrow> bool" where
  "article_rows_storable db \<longleftrightarrow>
     (\<forall>a \<in> set (rows (ad_articles db)). in_int64 (ar_id a) \<and> in_int64 (ar_source_id a) \<and>
        marshalable_opt (ar_published_at a) \<and> time_marshalable (ar_created_at a) \<and> time_marshalable (ar_updated_at a)) \<and>
     (\<forall>s \<in> set (rows (ad_states db)). marshalable_opt (ats_read_at s) \<and> marshalable_opt (ats_saved_at s)) \<and>
     in_int64 (int (length (rows (ad_articles db))))"

lemma article_cache_coherent_eq:
  "article_cache_coherent found db r \<longleftrightarrow> article_cache.coherent (article_answer found db) r"
  by (simp add: article_cache_coherent_def article_cache.coherent_def)

lemma article_answer_eq:
  "article_answer found db q =
     \<lparr>lz_articles = map toArticleListDTO (page (la_limit q) (la_offset q)
            (sort_key article_order (article_selection found q db))),
      lz_total = int (length (article_selection found q db)), lz_limit = la_limit q, lz_offset = la_offset q\<rparr>"
  by (simp add: article_answer_def fresh_article_list_eq)

lemma fresh_article_no_faults: "fresh_article_list found no_faults q db = Inr (article_answer found db q)"
  by (simp add: article_answer_eq fresh_article_list_eq)

lemma article_answer_stripped: "stripArticleListContent (article_answer found db q) = article_answer found db q"
  by (simp add: stripArticleListContent_def article_answer_eq toArticleListDTO_def comp_def)

lemma article_row_storable:
  assumes "article_rows_storable db" "a \<in> set (rows (ad_articles db))"
  shows "article_dto_ok (toArticleListDTO (article_row c a (find_row P (ad_states db))))"
proof (cases "find_row P (ad_states db)")
  case None
  then show ?thesis using assms
    by (auto simp: article_rows_storable_def article_dto_ok_def article_dto_ok_json_def toArticleListDTO_def
        article_row_def marshalable_opt_def)
next
  case (Some s)
  then have "s \<in> set (rows (ad_states db))" using find_row_SomeD by fast
  then show ?thesis using assms Some
    by (auto simp: article_rows_storable_def article_dto_ok_def article_dto_ok_json_def toArticleListDTO_def article_row_def)
qed

lemma article_answer_ok:
  assumes "article_rows_storable db" "in_int64 (la_limit q)" "in_int64 (la_offset q)"
  shows "article_list_ok (article_answer found db q)"
proof -
  have d: "article_dto_ok (toArticleListDTO d)" if "d \<in> set (article_selection found q db)" for d
    using article_selection_owned [OF that] article_row_storable [OF assms(1)] by blast
  have "length (article_selection found q db) \<le> length (rows (ad_articles db))"
    by (simp add: article_selection_def articleQuery_def select_rows_def)
  then have "in_int64 (int (length (article_selection found q db)))"
    using assms(1) unfolding article_rows_storable_def in_int64_def by linarith
  then show ?thesis using assms(2,3) d set_page
    by (fastforce simp: article_list_ok_def article_answer_eq list_all_iff dest!: subsetD [OF set_page])
qed

lemma article_limit_int64: "in_int64 (article_normalizeLimit l)"
  using article_page.limit_bounds [of l] by (simp add: in_int64_def)

text \<open>
  Listing articles with the cache gives the answer listing without it would give: if every
  entry in the cache agrees with the tables, so does the answer, whichever Redis commands
  fail, and the entries left behind agree again.
\<close>

theorem article_cache_transparent:
  assumes "article_cache_coherent found (xw_db w) (xw_redis w)"
    and "article_rows_storable (xw_db w)" "in_int64 (la_offset req)"
    and "ArticleService_ListArticles found (Some (article_cache_prefix, ttl)) no_faults rf now req w = (w', r)"
  shows "r = snd (ArticleService_ListArticles found None no_faults rf now req w) \<and>
         xw_db w' = xw_db w \<and> article_cache_coherent found (xw_db w') (xw_redis w')"
proof -
  let ?q = "normalized_article_request req"
  let ?ans = "article_answer found (xw_db w) ?q"
  have ok: "article_list_ok ?ans"
    using assms(3) article_limit_int64
    by (intro article_answer_ok [OF assms(2)])
      (auto simp: normalized_article_request_def article_normalizeOffset_def in_int64_def)
  have un: "snd (ArticleService_ListArticles found None no_faults rf now req w) = Inr ?ans"
    by (simp add: ArticleService_ListArticles_def Let_def cached_article_list_def fresh_article_no_faults)
  show ?thesis
  proof (cases "cached_article_list (Some (article_cache_prefix, ttl)) rf now ?q (xw_redis w)")
    case None
    then have "w' = w\<lparr>xw_redis := fst (ArticleCache_SetList article_cache_prefix rf now ?q ?ans ttl (xw_redis w))\<rparr>"
      "r = Inr ?ans"
      using assms(4) by (auto simp: ArticleService_ListArticles_def Let_def fresh_article_no_faults)
    then show ?thesis
      using un article_cache.coherent_set [OF assms(1) [unfolded article_cache_coherent_eq] TrueI ok]
      by (simp add: article_cache_coherent_eq)
  next
    case (Some cached)
    then have "ArticleCache_GetList article_cache_prefix rf now ?q (xw_redis w) = Inr (Some cached)"
      by (auto simp: cached_article_list_def split: sum.splits option.splits)
    then have "cached = ?ans"
      using article_cache.coherentD [OF assms(1) [unfolded article_cache_coherent_eq] TrueI] by blast
    moreover have "w' = w" "r = Inr (stripArticleListContent cached)"
      using assms(4) Some by (auto simp: ArticleService_ListArticles_def Let_def)
    ultimately show ?thesis using un assms(1) by (simp add: article_answer_stripped)
  qed
qed

definition sample_list_request :: list_articles_request where
  "sample_list_request =
     \<lparr>la_user_id = 7, la_source_id = 0, la_query = [], la_is_read = None, la_is_saved = None, la_limit = 0, la_offset = 0\<rparr>"

lemma sample_article_cache: "article_cache_coherent found db Map.empty"
  by (simp add: article_cache_coherent_def article_get_eq redis_get_def)

lemma sample_rows_storable: "article_rows_storable sample_db"
  by (simp add: article_rows_storable_def sample_db_def sample_article_def in_int64_def marshalable_opt_def
      time_marshalable_def)

theorem article_cache_transparent_witness:
  "snd (ArticleService_ListArticles (\<lambda>_ _. True) (Some (article_cache_prefix, 60)) no_faults redis_ok 9 sample_list_request after_saving) =
   snd (ArticleService_ListArticles (\<lambda>_ _. True) None no_faults redis_ok 9 sample_list_request after_saving)"
proof -
  obtain w' r where r: "ArticleService_ListArticles (\<lambda>_ _. True) (Some (article_cache_prefix, 60)) no_faults redis_ok 9
      sample_list_request after_saving = (w', r)" by fastforce
  from article_cache_transparent [OF _ _ _ r] r show ?thesis
    by (simp add: after_saving_def sample_article_cache sample_rows_storable sample_list_request_def in_int64_def)
qed


subsection \<open>Writes invalidate\<close>

lemma save_loop_users:
  "save_loop fault clock i items acc users t = (t', Inr (acc', users')) \<Longrightarrow>
     set users \<subseteq> set users' \<and>
     (\<exists>new. rows t' = rows t @ new \<and>
        (\<forall>a \<in> set new. \<exists>item \<in> set items. ar_source_id a = item_source_id item \<and>
           (0 < item_user_id item \<longrightarrow> item_user_id item \<in> set users')))"
proof (induction items arbitrary: i acc users t)
  case (Cons item items)
  from Cons.prems show ?case
  proof (rule save_loop_Cons)
    fix a t1 created
    assume a: "toArticle (clock i) item = Inr a"
      and c: "Article_CreateIfNotExists (fault i) a t = (t1, Inr created)"
      and l: "save_loop fault clock (Suc i) items
       (if created then acc\<lparr>inserted_count := inserted_count acc + 1\<rparr> else acc\<lparr>duplicated_count := duplicated_count acc + 1\<rparr>)
       (if created \<and> item_user_id item > 0 then List.insert (item_user_id item) users else users) t1 =
       (t', Inr (acc', users'))"
    let ?new1 = "if created then [a\<lparr>ar_id := seq t + 1\<rparr>] else []"
    have t1: "rows t1 = rows t @ ?new1"
      using c by (rule_tac Article_CreateIfNotExists_cases [of "fault i" a t]) auto
    have src: "ar_source_id a = item_source_id item" using a by (auto simp: toArticle_def Let_def split: if_splits)
    from Cons.IH [OF l] obtain new where
      u: "set (if created \<and> item_user_id item > 0 then List.insert (item_user_id item) users else users) \<subseteq> set users'"
      and new: "rows t' = rows t1 @ new"
        "\<forall>a \<in> set new. \<exists>item \<in> set items. ar_source_id a = item_source_id item \<and>
           (0 < item_user_id item \<longrightarrow> item_user_id item \<in> set users')"
      by blast
    from u have "set users \<subseteq> set users'" by (auto split: if_splits)
    moreover have "rows t' = rows t @ (?new1 @ new)" using new(1) t1 by simp
    moreover have "\<forall>b \<in> set (?new1 @ new). \<exists>it \<in> set (item # items). ar_source_id b = item_source_id it \<and>
           (0 < item_user_id it \<longrightarrow> item_user_id it \<in> set users')"
      using new(2) u src by (auto split: if_splits)
    ultimately show ?case by blast
  qed
qed auto

lemma article_selection_cong:
  assumes "ad_sources db' = ad_sources db" "rows (ad_articles db') = rows (ad_articles db) @ new"
    "\<And>a. a \<in> set new \<Longrightarrow> \<not> article_owned (ad_sources db) (la_user_id q) a"
    "\<And>i. find_row (article_state_for (la_user_id q) i) (ad_states db') = find_row (article_state_for (la_user_id q) i) (ad_states db)"
  shows "article_selection found q db' = article_selection found q db"
proof -
  have "filter (article_owned (ad_sources db) (la_user_id q)) new = []"
    using assms(3) by (simp add: filter_empty_conv)
  then show ?thesis
    by (simp add: article_selection_def articleQuery_def select_rows_def assms(1,2,4))
qed

lemma article_answer_cong:
  "article_selection found q db' = article_selection found q db \<Longrightarrow> article_answer found db' q = article_answer found db q"
  by (simp add: article_answer_eq)

text \<open>Every item is for the user its source belongs to.\<close>

definition items_for_owner :: "source_table \<Rightarrow> collected_item list \<Rightarrow> bool" where
  "items_for_owner sources items \<longleftrightarrow>
     (\<forall>item \<in> set items. 0 < item_user_id item \<and>
        (\<forall>s \<in> set (rows sources). so_id s = item_source_id item \<longrightarrow> so_user_id s = item_user_id item))"

lemma not_owned:
  assumes "\<forall>s \<in> set (rows sources). so_id s = ar_source_id a \<longrightarrow> so_user_id s = u" "uid \<noteq> u"
  shows "\<not> article_owned sources uid a"
  using assms by (auto simp: article_owned_def find_row_None simp del: not_None_eq)

lemma article_delete_cached:
  "article_deleteUserListCache (Some (pfx, ttl)) rf visited u = (\<lambda>r. fst (ArticleCache_DeleteUser pfx rf visited u r))"
  by (simp add: fun_eq_iff article_deleteUserListCache_def)

lemma save_coherent:
  assumes "article_cache_coherent found (xw_db w) (xw_redis w)" "\<And>u. full_scan (xw_redis w) (visited u)"
    and "items_for_owner (ad_sources (xw_db w)) items" "\<And>us. set (iter us) = set us"
    and "ArticleService_SaveCollectedItems (Some (article_cache_prefix, ttl)) fault clock iter (\<lambda>_. redis_ok) visited items w =
           (w', Inr res)"
  shows "article_cache_coherent found (xw_db w') (xw_redis w')"
proof -
  let ?z = "\<lparr>inserted_count = 0, duplicated_count = 0\<rparr>"
  obtain t users where l: "save_loop fault clock 0 items ?z [] (ad_articles (xw_db w)) = (t, Inr (res, users))"
    and w': "w' = \<lparr>xw_db = (xw_db w)\<lparr>ad_articles := t\<rparr>,
      xw_redis = fold (\<lambda>u r. fst (ArticleCache_DeleteUser article_cache_prefix redis_ok (visited u) u r)) (iter users) (xw_redis w)\<rparr>"
    using assms(5) by (auto simp: ArticleService_SaveCollectedItems_def article_delete_cached
        split: prod.splits sum.splits)
  from save_loop_users [OF l] obtain new where
    new: "rows t = rows (ad_articles (xw_db w)) @ new"
      "\<forall>a \<in> set new. \<exists>item \<in> set items. ar_source_id a = item_source_id item \<and>
         (0 < item_user_id item \<longrightarrow> item_user_id item \<in> set users)"
    by blast
  have "article_answer found (xw_db w') q = article_answer found (xw_db w) q" if "la_user_id q \<notin> set (iter users)" for q
  proof (rule article_answer_cong, rule article_selection_cong)
    fix a assume "a \<in> set new"
    then obtain item where i: "item \<in> set items" "ar_source_id a = item_source_id item"
      "0 < item_user_id item \<longrightarrow> item_user_id item \<in> set users" using new(2) by blast
    then have "la_user_id q \<noteq> item_user_id item"
      using that assms(3,4) by (auto simp: items_for_owner_def)
    then show "\<not> article_owned (ad_sources (xw_db w)) (la_user_id q) a"
      using assms(3) i by (intro not_owned [of _ _ "item_user_id item"]) (auto simp: items_for_owner_def)
  qed (simp_all add: w' new(1))
  then show ?thesis
    using article_cache.coherent_invalidate_many [OF assms(1) [unfolded article_cache_coherent_eq], of "iter users" visited
        "article_answer found (xw_db w')"] assms(2)
    by (simp add: article_cache_coherent_eq w')
qed

lemma state_coherent:
  assumes "article_cache_coherent found (xw_db w) (xw_redis w)" "full_scan (xw_redis w) visited" "fault UpsertReload = None"
    and "ArticleService_UpdateState (Some (article_cache_prefix, ttl)) fault id id redis_ok visited now uid aid isRead isSaved w = (w', r)"
  shows "article_cache_coherent found (xw_db w') (xw_redis w')"
proof -
  let ?p = "\<lparr>up_user_id = uid, up_article_id = aid, up_is_read = isRead, up_is_saved = isSaved, up_now = now\<rparr>"
  let ?db = "(xw_db w)\<lparr>ad_states := upsert_state_row ?p (ad_states (xw_db w))\<rparr>"
  consider (fails) e where "Article_UpsertState fault id id ?p (xw_db w) = (xw_db w, Inl e)"
    | (marks) row where "Article_UpsertState fault id id ?p (xw_db w) = (?db, Inr row)"
  proof (cases "Article_FindByUserAndID (fault UpsertCheck) uid aid (xw_db w)")
    case (Inl e)
    then show thesis using fails by (simp add: Article_UpsertState_def)
  next
    case (Inr row)
    have "fault UpsertCheck = None" using Inr by (cases "fault UpsertCheck") (auto simp: Article_FindByUserAndID_def)
    then have "Article_FindByUserAndID None uid aid ?db = Inr (with_marks now isRead isSaved row)"
      using Inr by (simp add: Article_Find_upsert)
    then show thesis using Inr assms(3) fails marks
      by (cases "fault UpsertWrite") (auto simp: Article_UpsertState_def Let_def)
  qed
  then show ?thesis
  proof cases
    case fails
    then show ?thesis using assms(1,4) by (auto simp: ArticleService_UpdateState_def)
  next
    case marks
    then have w': "w' = \<lparr>xw_db = ?db, xw_redis = fst (ArticleCache_DeleteUser article_cache_prefix redis_ok visited uid (xw_redis w))\<rparr>"
      using assms(4) by (auto simp: ArticleService_UpdateState_def article_deleteUserListCache_def)
    have "article_answer found ?db q = article_answer found (xw_db w) q" if "la_user_id q \<noteq> uid" for q
      by (rule article_answer_cong, rule article_selection_cong [where new = "[]"]) (use that in \<open>auto simp: find_row_upsert\<close>)
    from article_cache.coherent_invalidate [OF assms(1) [unfolded article_cache_coherent_eq] this assms(2)]
    show ?thesis by (simp add: w' article_cache_coherent_eq)
  qed
qed

text \<open>
  Saving items and marking articles keep the cache in agreement with the tables, provided
  the Redis commands succeed, the scan is complete, and every item is for the user its source
  belongs to: saving deletes the entries of every user with a new article, marking those of
  the user. The database may refuse the mark at its check or its write.
\<close>

theorem article_writes_invalidate:
  assumes "article_cache_coherent found (xw_db w) (xw_redis w)" "\<And>u. full_scan (xw_redis w) (visited u)"
    and "items_for_owner (ad_sources (xw_db w)) items" "\<And>us. set (iter us) = set us" "ufault UpsertReload = None"
    and "ArticleService_SaveCollectedItems (Some (article_cache_prefix, ttl)) fault clock iter (\<lambda>_. redis_ok) visited items w =
           (ws, Inr res)"
    and "ArticleService_UpdateState (Some (article_cache_prefix, ttl)) ufault id id redis_ok (visited uid) now uid aid isRead isSaved w =
           (wu, r)"
  shows "article_cache_coherent found (xw_db ws) (xw_redis ws) \<and> article_cache_coherent found (xw_db wu) (xw_redis wu)"
  using save_coherent [OF assms(1-4,6)] state_coherent [OF assms(1,2,5,7)] by blast

theorem article_writes_invalidate_witness:
  "article_cache_coherent (\<lambda>_ _. True) (xw_db (fst (ArticleService_UpdateState (Some (article_cache_prefix, 60)) no_faults id id
     redis_ok [] 9 7 1 (Some True) None before_saving)))
     (xw_redis (fst (ArticleService_UpdateState (Some (article_cache_prefix, 60)) no_faults id id
     redis_ok [] 9 7 1 (Some True) None before_saving)))"
proof -
  obtain wu r where u: "ArticleService_UpdateState (Some (article_cache_prefix, 60)) no_faults id id redis_ok [] 9 7 1
      (Some True) None before_saving = (wu, r)" by fastforce
  have "\<exists>ws. ArticleService_SaveCollectedItems (Some (article_cache_prefix, 60)) (\<lambda>_. None) (\<lambda>_. 5) id (\<lambda>_. redis_ok)
      (\<lambda>_. []) [sample_item] before_saving = (ws, Inr \<lparr>inserted_count = 1, duplicated_count = 0\<rparr>)"
    by (simp add: ArticleService_SaveCollectedItems_def before_saving_def sample_toArticle sample_create_article)
  then obtain ws where s: "ArticleService_SaveCollectedItems (Some (article_cache_prefix, 60)) (\<lambda>_. None) (\<lambda>_. 5) id
      (\<lambda>_. redis_ok) (\<lambda>_. []) [sample_item] before_saving = (ws, Inr \<lparr>inserted_count = 1, duplicated_count = 0\<rparr>)" by blast
  have i: "items_for_owner (ad_sources (xw_db before_saving)) [sample_item]"
    by (simp add: items_for_owner_def before_saving_def sample_item_def sample_source_world_def sample_source_def)
  have "article_cache_coherent (\<lambda>_ _. True) (xw_db before_saving) (xw_redis before_saving)"
    "\<And>u. full_scan (xw_redis before_saving) ((\<lambda>_. []) u)"
    by (simp_all add: before_saving_def sample_article_cache full_scan_def)
  from article_writes_invalidate [OF this i _ _ s u] show ?thesis by (simp add: u)
qed


subsection \<open>Deleted sources\<close>

lemma source_pattern_article_key: "\<not> glob (user_pattern source_cache_prefix uid) (article_listKey article_cache_prefix q)"
  by (simp only: user_pattern_prefix [OF plain_source_prefix] has_prefix_append)
    (simp add: source_cache_prefix_def article_cache_prefix_def article_listKey_def)

text \<open>
  Deleting a source hides its articles from the database's listings, but not from the
  cache: the deletion removes the cached listings of sources, and leaves every cached listing
  of articles as it is, so that the articles of the deleted source are listed until the entry
  expires.
\<close>

theorem article_cache_keeps_deleted_source:
  assumes "source_inv (sw_sources w)"
    and "SourceService_DeleteSource (Some (source_cache_prefix, ttl)) df rf visited now uid i w = (w', Inr ())"
  shows "cached_article_list (Some (article_cache_prefix, attl)) arf later q (sw_redis w') =
           cached_article_list (Some (article_cache_prefix, attl)) arf later q (sw_redis w) \<and>
         (\<forall>resp. fresh_article_list found no_faults q \<lparr>ad_sources = sw_sources w', ad_articles = t, ad_states = st\<rparr> = Inr resp \<longrightarrow>
            i \<notin> aw_source_id ` set (lz_articles resp))"
proof -
  obtain tab where d: "Source_SoftDelete df uid i now (sw_sources w) = (tab, Inr ())"
    and w': "w' = \<lparr>sw_sources = tab, sw_redis = fst (SourceCache_DeleteUser source_cache_prefix rf visited uid (sw_redis w))\<rparr>"
    using assms(2) by (auto simp: SourceService_DeleteSource_def source_deleteUserListCache_def split: prod.splits sum.splits)
  have "sw_redis w' (article_listKey article_cache_prefix q) = sw_redis w (article_listKey article_cache_prefix q)"
    by (simp add: w' source_cache.delete_eq delete_keys_frame source_pattern_article_key)
  then have "redis_get later (article_listKey article_cache_prefix q) (sw_redis w') =
      redis_get later (article_listKey article_cache_prefix q) (sw_redis w)"
    by (simp add: redis_get_def)
  then have "ArticleCache_GetList article_cache_prefix arf later q (sw_redis w') =
      ArticleCache_GetList article_cache_prefix arf later q (sw_redis w)"
    by (simp only: ArticleCache_GetList_def)
  moreover have deleted: "so_deleted_at s \<noteq> None" if "s \<in> set (rows tab)" "so_id s = i" for s
  proof (rule Source_SoftDelete_cases [of df uid i now "sw_sources w"])
    assume e: "Source_SoftDelete df uid i now (sw_sources w) =
      (update_rows (source_visible uid i) (mark_deleted now) (sw_sources w), Inr ())"
    then have tab: "tab = update_rows (source_visible uid i) (mark_deleted now) (sw_sources w)" using d by simp
    from that(1) obtain r where r: "r \<in> set (rows (sw_sources w))"
      and s: "s = (if source_visible uid i r then mark_deleted now r else r)"
      unfolding tab by (auto simp: set_rows_update)
    have "find_row (source_visible uid i) (sw_sources w) \<noteq> None"
      using d by (auto simp: Source_SoftDelete_def count_rows_0 Let_def split: option.splits if_splits)
    then obtain r' where r': "r' \<in> set (rows (sw_sources w))" "source_visible uid i r'"
      by (auto simp: find_row_None simp del: not_None_eq)
    have "so_id r = i" using that(2) s by (auto split: if_splits)
    then have "r = r'" using wf_unique [of so_id "sw_sources w" r r'] r r' assms(1)
      by (auto simp: source_inv_def source_visible_def)
    then show ?thesis using s r'(2) by simp
  qed (use d in simp_all)
  have "\<not> article_owned tab u a" if "ar_source_id a = i" for u a
    using deleted that by (auto simp: article_owned_def find_row_None simp del: not_None_eq)
  then have "i \<notin> aw_source_id ` set (lz_articles resp)"
    if "fresh_article_list found no_faults q \<lparr>ad_sources = sw_sources w', ad_articles = t, ad_states = st\<rparr> = Inr resp" for resp
    using that by (auto simp: fresh_article_list_eq w' toArticleListDTO_def dest!: subsetD [OF set_page] article_selection_owned)
      (auto simp: article_row_def)
  ultimately show ?thesis by (simp add: cached_article_list_def)
qed

theorem article_cache_keeps_deleted_source_witness:
  "\<exists>w'. SourceService_DeleteSource (Some (source_cache_prefix, 60)) None redis_ok [] 9 7 1 sample_source_world = (w', Inr ()) \<and>
     1 \<notin> aw_source_id ` set (lz_articles (article_answer (\<lambda>_ _. True)
       \<lparr>ad_sources = sw_sources w', ad_articles = ad_articles sample_db, ad_states = empty_table\<rparr> sample_list_request))"
proof -
  define w' where "w' = fst (SourceService_DeleteSource (Some (source_cache_prefix, 60)) None redis_ok [] 9 7 1 sample_source_world)"
  have d: "SourceService_DeleteSource (Some (source_cache_prefix, 60)) None redis_ok [] 9 7 1 sample_source_world = (w', Inr ())"
    by (simp add: w'_def SourceService_DeleteSource_def Source_SoftDelete_def sample_source_world_def Let_def count_rows_0
        find_row_def source_visible_def sample_source_def)
  from article_cache_keeps_deleted_source [OF sample_table_inv d] d show ?thesis
    by (auto simp: fresh_article_no_faults)
qed

end
