(* ===== verification/Collector_Service.thy ===== *)
theory Collector_Service
  imports Article_Cache
begin

section \<open>Collecting a source\<close>

text \<open>
  One collection of one source: \<open>run_repository.go\<close>, \<open>registry.go\<close>, \<open>lock.go\<close>,
  \<open>transaction.go\<close>, \<open>service.go\<close>, \<open>handler.go\<close>, \<open>async_handler.go\<close> and
  \<open>async_requester.go\<close> of \<open>internal/module/collector\<close>. The source is read, stale runs are
  failed, the lock is taken, a run is recorded, the collector fetches, and the articles, the
  outcome of the run and the state of the source are written in one transaction.
\<close>

type_synonym run_table = "collection_run table"

subsection \<open>The runs\<close>

record finish_run_params =
  fr_run_id :: int
  fr_status :: string
  fr_finished_at :: time
  fr_fetched_count :: int
  fr_inserted_count :: int
  fr_duplicated_count :: int
  fr_error_message :: string

record mark_stale_params =
  ms_source_id :: int
  ms_started_before :: time
  ms_finished_at :: time
  ms_error_message :: string

record list_runs_params =
  lrp_source_id :: int
  lrp_status :: string
  lrp_limit :: int
  lrp_offset :: int

definition Run_Create :: "go_error option \<Rightarrow> collection_run \<Rightarrow> run_table \<Rightarrow> run_table \<times> collection_run result" where
  "Run_Create fault run t =
     (case fault of
        Some e \<Rightarrow> (t, Inl (Wrapf ''create collection run: '' e ''''))
      | None \<Rightarrow> (insert_row (\<lambda>i. run\<lparr>run_id := i\<rparr>) t, Inr (run\<lparr>run_id := seq t + 1\<rparr>)))"

definition run_finished :: "finish_run_params \<Rightarrow> collection_run \<Rightarrow> collection_run" where
  "run_finished p r =
     r\<lparr>run_status := fr_status p, run_finished_at := Some (fr_finished_at p),
       run_fetched_count := fr_fetched_count p, run_inserted_count := fr_inserted_count p,
       run_duplicated_count := fr_duplicated_count p, run_error_message := fr_error_message p\<rparr>"

definition Run_Finish :: "go_error option \<Rightarrow> finish_run_params \<Rightarrow> run_table \<Rightarrow> run_table \<times> unit result" where
  "Run_Finish fault p t =
     (case fault of
        Some e \<Rightarrow> (t, Inl (Wrapf ''finish collection run: '' e ''''))
      | None \<Rightarrow>
        (let P = (\<lambda>r. run_id r = fr_run_id p) in
         if count_rows P t = 0 then (t, Inl (Sentinel ErrCollectionRunNotFound))
         else (update_rows P (run_finished p) t, Inr ())))"

definition run_stale :: "mark_stale_params \<Rightarrow> collection_run \<Rightarrow> bool" where
  "run_stale p r \<longleftrightarrow>
     run_source_id r = ms_source_id p \<and> run_status r = RunStatusRunning \<and> run_started_at r < ms_started_before p"

definition run_timed_out :: "mark_stale_params \<Rightarrow> collection_run \<Rightarrow> collection_run" where
  "run_timed_out p r =
     r\<lparr>run_status := RunStatusFailed, run_finished_at := Some (ms_finished_at p),
       run_error_message := ms_error_message p\<rparr>"

definition Run_MarkStaleRunningFailed ::
  "go_error option \<Rightarrow> mark_stale_params \<Rightarrow> run_table \<Rightarrow> run_table \<times> int result" where
  "Run_MarkStaleRunningFailed fault p t =
     (case fault of
        Some e \<Rightarrow> (t, Inl (Wrapf ''mark stale running collection runs failed: '' e ''''))
      | None \<Rightarrow> (update_rows (run_stale p) (run_timed_out p) t, Inr (count_rows (run_stale p) t)))"

datatype run_list_stmt = RunCount | RunSelect

definition run_order :: "collection_run \<Rightarrow> int \<times> int" where
  "run_order r = (- run_started_at r, - run_id r)"

definition Run_ListBySourceID ::
  "run_list_stmt faults \<Rightarrow> list_runs_params \<Rightarrow> run_table \<Rightarrow> (collection_run list \<times> int) result" where
  "Run_ListBySourceID fault p t =
     (let limit = (if lrp_limit p \<le> 0 then 20 else lrp_limit p);
          limit = (if limit > 100 then 100 else limit);
          offset = (if lrp_offset p < 0 then 0 else lrp_offset p);
          P = (\<lambda>r. run_source_id r = lrp_source_id p \<and> (lrp_status p \<noteq> '''' \<longrightarrow> run_status r = lrp_status p)) in
      case fault RunCount of
        Some e \<Rightarrow> Inl (Wrapf ''count collection runs: '' e '''')
      | None \<Rightarrow>
        (case fault RunSelect of
           Some e \<Rightarrow> Inl (Wrapf ''list collection runs: '' e '''')
         | None \<Rightarrow> Inr (page limit offset (sort_key run_order (select_rows P t)), count_rows P t)))"

definition Run_FindByUserIDAndID ::
  "go_error option \<Rightarrow> int \<Rightarrow> int \<Rightarrow> source_table \<Rightarrow> run_table \<Rightarrow> collection_run result" where
  "Run_FindByUserIDAndID fault uid i sources t =
     (case fault of
        Some e \<Rightarrow> Inl (if errors_is e GormErrRecordNotFound then Sentinel ErrCollectionRunNotFound
                       else Wrapf ''find collection run: '' e '''')
      | None \<Rightarrow>
        (case find_row (\<lambda>r. run_id r = i \<and> find_row (source_visible uid (run_source_id r)) sources \<noteq> None) t of
           None \<Rightarrow> Inl (Sentinel ErrCollectionRunNotFound)
         | Some r \<Rightarrow> Inr r))"


subsection \<open>The registry of collectors\<close>

text \<open>
  A collector is its fetching function: what it gives for a source, and what it leaves in the
  source it was handed (the email collector stores its cursor there).
\<close>

type_synonym collector = "source \<Rightarrow> source \<times> collected_item list result"

fun NewRegistry_from ::
  "(string \<times> collector) option list \<Rightarrow> (string \<rightharpoonup> collector) \<Rightarrow> (string \<rightharpoonup> collector) result" where
  "NewRegistry_from [] r = Inr r"
| "NewRegistry_from (None # cs) r = NewRegistry_from cs r"
| "NewRegistry_from (Some (sourceType, c) # cs) r =
     (if sourceType = '''' then Inl (Plain ''collector type is empty'')
      else if r sourceType \<noteq> None then Inl (Plain (''collector duplicated: '' @ sourceType))
      else NewRegistry_from cs (r(sourceType \<mapsto> c)))"

definition NewRegistry :: "(string \<times> collector) option list \<Rightarrow> (string \<rightharpoonup> collector) result" where
  "NewRegistry cs = NewRegistry_from cs Map.empty"


subsection \<open>The collection lock\<close>

text \<open>
  A key per source with a random token. The release script deletes the key only if it still
  holds the token.
\<close>

definition defaultCollectionLockTTL :: duration where "defaultCollectionLockTTL = 10 * minute"
definition defaultStaleRunTimeout :: duration where "defaultStaleRunTimeout = 30 * minute"

definition lock_key :: "int \<Rightarrow> string" where
  "lock_key sid = ''collection:lock:source'' @ '':'' @ fmt_int sid"

definition Lock_Acquire ::
  "redis_outcome \<Rightarrow> time \<Rightarrow> string \<Rightarrow> int \<Rightarrow> duration \<Rightarrow> redis \<Rightarrow> redis \<times> string option result" where
  "Lock_Acquire out now token sid ttl0 r =
     (let ttl = (if ttl0 \<le> 0 then defaultCollectionLockTTL else ttl0);
          (r', acquired) = redis_setnx now (lock_key sid) (RText token) ttl r in
      case out of
        RFailed e applied \<Rightarrow> (if applied then r' else r, Inl e)
      | RDone \<Rightarrow> (r', Inr (if acquired then Some token else None)))"

definition Lock_Release :: "redis_outcome \<Rightarrow> time \<Rightarrow> string \<Rightarrow> int \<Rightarrow> redis \<Rightarrow> redis" where
  "Lock_Release out now token sid r =
     fst (redis_write out
       (\<lambda>r. if redis_get now (lock_key sid) r = Some (RText token) then redis_del (lock_key sid) r else r) r)"


subsection \<open>The service and its world\<close>

record collection_observation =
  ob_run_id :: int
  ob_source_id :: int
  ob_source_type :: string
  ob_status :: string
  ob_fetched_count :: int
  ob_inserted_count :: int
  ob_duplicated_count :: int
  ob_duration :: duration
  ob_error_message :: string

record collect_world =
  cw_articles :: article_world
  cw_runs :: run_table
  cw_seen :: "collection_observation list"

abbreviation cw_sources :: "collect_world \<Rightarrow> source_table" where
  "cw_sources w \<equiv> ad_sources (xw_db (cw_articles w))"

abbreviation cw_redis :: "collect_world \<Rightarrow> redis" where
  "cw_redis w \<equiv> xw_redis (cw_articles w)"

definition set_sources :: "source_table \<Rightarrow> collect_world \<Rightarrow> collect_world" where
  "set_sources t w = w\<lparr>cw_articles := (cw_articles w)\<lparr>xw_db := (xw_db (cw_articles w))\<lparr>ad_sources := t\<rparr>\<rparr>\<rparr>"

definition set_redis :: "redis \<Rightarrow> collect_world \<Rightarrow> collect_world" where
  "set_redis r w = w\<lparr>cw_articles := (cw_articles w)\<lparr>xw_redis := r\<rparr>\<rparr>"

record collection_service =
  cs_registry :: "string \<rightharpoonup> collector"
  cs_observed :: bool
  cs_has_lock :: bool
  cs_source_cache :: "string option"
  cs_has_tx :: bool
  cs_lock_ttl :: duration
  cs_stale_timeout :: duration
  cs_article_cache :: cache_option

definition WithObserver :: "bool \<Rightarrow> collection_service \<Rightarrow> collection_service" where
  "WithObserver b cs = cs\<lparr>cs_observed := b\<rparr>"

definition WithCollectionLock :: "bool \<Rightarrow> collection_service \<Rightarrow> collection_service" where
  "WithCollectionLock b cs = cs\<lparr>cs_has_lock := b\<rparr>"

definition WithCollectionLockTTL :: "duration \<Rightarrow> collection_service \<Rightarrow> collection_service" where
  "WithCollectionLockTTL ttl cs = (if ttl > 0 then cs\<lparr>cs_lock_ttl := ttl\<rparr> else cs)"

definition WithStaleRunTimeout :: "duration \<Rightarrow> collection_service \<Rightarrow> collection_service" where
  "WithStaleRunTimeout d cs = (if d \<ge> 0 then cs\<lparr>cs_stale_timeout := d\<rparr> else cs)"

definition WithSourceListCacheInvalidator :: "string option \<Rightarrow> collection_service \<Rightarrow> collection_service" where
  "WithSourceListCacheInvalidator c cs = cs\<lparr>cs_source_cache := c\<rparr>"

definition WithTransactionRunner :: "bool \<Rightarrow> collection_service \<Rightarrow> collection_service" where
  "WithTransactionRunner b cs = cs\<lparr>cs_has_tx := b\<rparr>"

definition NewCollectionService ::
  "(string \<rightharpoonup> collector) \<Rightarrow> cache_option \<Rightarrow> (collection_service \<Rightarrow> collection_service) list \<Rightarrow> collection_service" where
  "NewCollectionService registry articleCache opts =
     fold (\<lambda>opt cs. opt cs) opts
       \<lparr>cs_registry = registry, cs_observed = False, cs_has_lock = False, cs_source_cache = None, cs_has_tx = False,
        cs_lock_ttl = defaultCollectionLockTTL, cs_stale_timeout = defaultStaleRunTimeout,
        cs_article_cache = articleCache\<rparr>"

text \<open>
  What the outside decides during one collection: the clocks, the random token, the outcome
  of every statement, transaction and Redis command, the keys the scans yield, and what other
  processes do between reading the source and taking the lock (\<open>ce_before\<close>) and while the
  collector fetches (\<open>ce_during\<close>).
\<close>

datatype collect_site = AtStale | AtLock | AtStart | AtSuccess | AtFailure | AtRelease

datatype collect_stmt =
    CsFind | CsStale | CsStaleSource | CsCreate | CsSave nat | CsFinish | CsSource | CsFailFinish | CsFailSource

datatype tx_outcome = TxCommits | TxNotBegun go_error | TxCommitFails go_error bool

record collect_env =
  ce_now :: "collect_site \<Rightarrow> time"
  ce_item_now :: "nat \<Rightarrow> time"
  ce_token :: string
  ce_fault :: "collect_stmt faults"
  ce_tx :: "collect_site \<Rightarrow> tx_outcome"
  ce_lock_out :: "collect_site \<Rightarrow> redis_outcome"
  ce_source_rf :: "collect_site \<Rightarrow> redis_faults"
  ce_source_scan :: "collect_site \<Rightarrow> string list"
  ce_article_rf :: "int \<Rightarrow> redis_faults"
  ce_article_scan :: "int \<Rightarrow> string list"
  ce_iter :: "int list \<Rightarrow> int list"
  ce_before :: "collect_world \<Rightarrow> collect_world"
  ce_during :: "collect_world \<Rightarrow> collect_world"


subsection \<open>Transactions\<close>

text \<open>
  A transaction that does not commit puts the rows of the tables back. What the closure has
  done to Redis, and the variables \<open>x\<close> of the caller it has assigned, stay.
\<close>

definition undo_tables :: "collect_world \<Rightarrow> collect_world \<Rightarrow> collect_world" where
  "undo_tables old cur =
     (let odb = xw_db (cw_articles old); cdb = xw_db (cw_articles cur) in
      cur\<lparr>cw_articles := (cw_articles cur)\<lparr>xw_db :=
            \<lparr>ad_sources = rollback (ad_sources odb) (ad_sources cdb),
             ad_articles = rollback (ad_articles odb) (ad_articles cdb),
             ad_states = rollback (ad_states odb) (ad_states cdb)\<rparr>\<rparr>,
          cw_runs := rollback (cw_runs old) (cw_runs cur)\<rparr>)"

definition RunInTransaction ::
  "bool \<Rightarrow> tx_outcome \<Rightarrow> 'x \<Rightarrow> (collect_world \<Rightarrow> collect_world \<times> 'x \<times> 'a result) \<Rightarrow> collect_world \<Rightarrow>
     collect_world \<times> 'x \<times> 'a result" where
  "RunInTransaction has_tx out ini body w =
     (if \<not> has_tx then body w
      else case out of
        TxNotBegun e \<Rightarrow> (w, ini, Inl (Wrapf ''run transaction: '' e ''''))
      | _ \<Rightarrow>
        (case body w of
           (w', x, Inl e) \<Rightarrow> (undo_tables w w', x, Inl (Wrapf ''run transaction: '' e ''''))
         | (w', x, Inr a) \<Rightarrow>
           (case out of
              TxCommitFails e applied \<Rightarrow>
                (if applied then w' else undo_tables w w', x, Inl (Wrapf ''run transaction: '' e ''''))
            | _ \<Rightarrow> (w', x, Inr a))))"

definition invalidateSourceListCache ::
  "collection_service \<Rightarrow> collect_env \<Rightarrow> collect_site \<Rightarrow> int \<Rightarrow> collect_world \<Rightarrow> collect_world" where
  "invalidateSourceListCache cs env site uid w =
     (case cs_source_cache cs of
        None \<Rightarrow> w
      | Some pfx \<Rightarrow>
          set_redis (fst (SourceCache_DeleteUser pfx (ce_source_rf env site) (ce_source_scan env site) uid (cw_redis w))) w)"

definition collection_observe :: "collection_service \<Rightarrow> collection_observation \<Rightarrow> collect_world \<Rightarrow> collect_world" where
  "collection_observe cs ob w = (if cs_observed cs then w\<lparr>cw_seen := cw_seen w @ [ob]\<rparr> else w)"

definition set_fetched :: "time \<Rightarrow> string \<Rightarrow> string \<Rightarrow> source \<Rightarrow> source" where
  "set_fetched at status message src =
     src\<lparr>so_last_fetched_at := Some at, so_last_fetch_status := status, so_last_fetch_message := message,
         so_updated_at := at\<rparr>"

text \<open>\<open>time.Duration.String\<close>.\<close>

definition fraction_of :: "nat \<Rightarrow> int \<Rightarrow> string" where
  "fraction_of width v =
     (if v = 0 then '''' else CHR ''.'' # rev (dropWhile (\<lambda>c. c = CHR ''0'') (rev (fmt_width width v))))"

definition duration_text :: "duration \<Rightarrow> string" where
  "duration_text d =
     (let u = \<bar>d\<bar>; sign = (if d < 0 then ''-'' else ''''); secs = u div second; mins = secs div 60 in
      sign @
      (if u = 0 then ''0s''
       else if u < 1000 then fmt_int u @ ''ns''
       else if u < millisecond then fmt_int (u div 1000) @ fraction_of 3 (u mod 1000) @ [CHR 0xC2, CHR 0xB5, CHR ''s'']
       else if u < second then fmt_int (u div millisecond) @ fraction_of 6 (u mod millisecond) @ ''ms''
       else (if mins \<ge> 60 then fmt_int (mins div 60) @ ''h'' else '''') @
            (if mins \<ge> 1 then fmt_int (mins mod 60) @ ''m'' else '''') @
            fmt_int (secs mod 60) @ fraction_of 9 (u mod second) @ ''s''))"

subsection \<open>Failing stale runs\<close>

definition stale_body ::
  "collection_service \<Rightarrow> collect_env \<Rightarrow> source \<Rightarrow> collect_world \<Rightarrow> collect_world \<times> unit \<times> (int \<times> source) result" where
  "stale_body cs env src w =
     (let now = ce_now env AtStale;
          msg = ''collection run timed out after '' @ duration_text (cs_stale_timeout cs) in
      case Run_MarkStaleRunningFailed (ce_fault env CsStale)
             \<lparr>ms_source_id = so_id src, ms_started_before = time_add now (- cs_stale_timeout cs),
              ms_finished_at = now, ms_error_message = msg\<rparr> (cw_runs w) of
        (t, Inl e) \<Rightarrow> (w\<lparr>cw_runs := t\<rparr>, (), Inl e)
      | (t, Inr marked) \<Rightarrow>
          if marked = 0 then (w\<lparr>cw_runs := t\<rparr>, (), Inr (0, src))
          else
            (let src' = set_fetched now RunStatusFailed msg src in
             case Source_Update (ce_fault env CsStaleSource) src' (cw_sources w) of
               (t2, Inl e) \<Rightarrow>
                 (set_sources t2 (w\<lparr>cw_runs := t\<rparr>), (), Inl (Wrapf ''update source stale run status: '' e ''''))
             | (t2, Inr _) \<Rightarrow> (set_sources t2 (w\<lparr>cw_runs := t\<rparr>), (), Inr (marked, src'))))"

definition markStaleRunningRunsFailed ::
  "collection_service \<Rightarrow> collect_env \<Rightarrow> source \<Rightarrow> collect_world \<Rightarrow> collect_world \<times> source result" where
  "markStaleRunningRunsFailed cs env src w =
     (if cs_stale_timeout cs \<le> 0 then (w, Inr src)
      else case RunInTransaction (cs_has_tx cs) (ce_tx env AtStale) () (stale_body cs env src) w of
        (w', _, Inl e) \<Rightarrow> (w', Inl (Wrapf ''mark stale collection runs failed: '' e ''''))
      | (w', _, Inr (marked, src')) \<Rightarrow>
          (if marked > 0 then invalidateSourceListCache cs env AtStale (so_user_id src') w' else w', Inr src'))"


subsection \<open>The lock\<close>

definition acquireLock ::
  "collection_service \<Rightarrow> collect_env \<Rightarrow> int \<Rightarrow> collect_world \<Rightarrow> collect_world \<times> (string option \<times> bool) result" where
  "acquireLock cs env sid w =
     (if \<not> cs_has_lock cs then (w, Inr (None, True))
      else case Lock_Acquire (ce_lock_out env AtLock) (ce_now env AtLock) (ce_token env) sid (cs_lock_ttl cs) (cw_redis w) of
        (r, Inl e) \<Rightarrow> (set_redis r w, Inl (Wrapf ''acquire collection lock: '' e ''''))
      | (r, Inr None) \<Rightarrow> (set_redis r w, Inr (None, False))
      | (r, Inr (Some token)) \<Rightarrow> (set_redis r w, Inr (Some token, True)))"

definition release_lock :: "collect_env \<Rightarrow> int \<Rightarrow> string option \<Rightarrow> collect_world \<Rightarrow> collect_world" where
  "release_lock env sid token w =
     (case token of
        None \<Rightarrow> w
      | Some tk \<Rightarrow> set_redis (Lock_Release (ce_lock_out env AtRelease) (ce_now env AtRelease) tk sid (cw_redis w)) w)"


subsection \<open>Finishing a run\<close>

type_synonym collect_answer = "collect_source_response option \<times> go_error option"

definition failed_body ::
  "collect_env \<Rightarrow> int \<Rightarrow> source \<Rightarrow> int \<Rightarrow> go_error \<Rightarrow> collect_world \<Rightarrow> collect_world \<times> unit \<times> unit result" where
  "failed_body env rid src fetched cause w =
     (let finishedAt = ce_now env AtFailure; msg = error_text cause in
      case Run_Finish (ce_fault env CsFailFinish)
             \<lparr>fr_run_id = rid, fr_status = RunStatusFailed, fr_finished_at = finishedAt, fr_fetched_count = fetched,
              fr_inserted_count = 0, fr_duplicated_count = 0, fr_error_message = msg\<rparr> (cw_runs w) of
        (t, Inl e) \<Rightarrow> (w\<lparr>cw_runs := t\<rparr>, (), Inl (Wrapf ''finish collection run failed: '' e ''''))
      | (t, Inr _) \<Rightarrow>
        (case Source_Update (ce_fault env CsFailSource) (set_fetched finishedAt RunStatusFailed msg src) (cw_sources w) of
           (t2, Inl e) \<Rightarrow> (set_sources t2 (w\<lparr>cw_runs := t\<rparr>), (), Inl (Wrapf ''update source failed status: '' e ''''))
         | (t2, Inr _) \<Rightarrow> (set_sources t2 (w\<lparr>cw_runs := t\<rparr>), (), Inr ())))"

definition finishFailed ::
  "collection_service \<Rightarrow> collect_env \<Rightarrow> int \<Rightarrow> source \<Rightarrow> int \<Rightarrow> go_error \<Rightarrow> collect_world \<Rightarrow>
     collect_world \<times> collect_answer" where
  "finishFailed cs env rid src fetched cause w =
     (case RunInTransaction (cs_has_tx cs) (ce_tx env AtFailure) () (failed_body env rid src fetched cause) w of
        (w', _, Inl e) \<Rightarrow> (w', None, Some e)
      | (w', _, Inr _) \<Rightarrow>
          (collection_observe cs
             \<lparr>ob_run_id = rid, ob_source_id = so_id src, ob_source_type = so_type src, ob_status = RunStatusFailed,
              ob_fetched_count = fetched, ob_inserted_count = 0, ob_duplicated_count = 0,
              ob_duration = time_sub (ce_now env AtFailure) (ce_now env AtStart), ob_error_message = error_text cause\<rparr>
             (invalidateSourceListCache cs env AtFailure (so_user_id src) w'),
           Some \<lparr>resp_run_id = rid, resp_source_id = so_id src, resp_status = RunStatusFailed,
                 resp_fetched_count = fetched, resp_inserted_count = 0, resp_duplicated_count = 0,
                 resp_error_message = error_text cause\<rparr>,
           Some (Wrapf '''' (Sentinel ErrCollectionFailed) ('': '' @ error_text cause))))"

text \<open>The variable of the closure that tells a refused article from other failures is its second result.\<close>

definition success_body ::
  "collection_service \<Rightarrow> collect_env \<Rightarrow> int \<Rightarrow> source \<Rightarrow> collected_item list \<Rightarrow> collect_world \<Rightarrow>
     collect_world \<times> go_error option \<times> article_write_result result" where
  "success_body cs env rid src items w =
     (case ArticleService_SaveCollectedItems (cs_article_cache cs) (\<lambda>i. ce_fault env (CsSave i)) (ce_item_now env)
             (ce_iter env) (ce_article_rf env) (ce_article_scan env) items (cw_articles w) of
        (xw, Inl e) \<Rightarrow> (w\<lparr>cw_articles := xw\<rparr>, Some e, Inl e)
      | (xw, Inr writeResult) \<Rightarrow>
        (let w1 = w\<lparr>cw_articles := xw\<rparr>; finishedAt = ce_now env AtSuccess in
         case Run_Finish (ce_fault env CsFinish)
                \<lparr>fr_run_id = rid, fr_status = RunStatusSuccess, fr_finished_at = finishedAt,
                 fr_fetched_count = int (length items), fr_inserted_count = inserted_count writeResult,
                 fr_duplicated_count = duplicated_count writeResult, fr_error_message = ''''\<rparr> (cw_runs w1) of
           (t, Inl e) \<Rightarrow> (w1\<lparr>cw_runs := t\<rparr>, None, Inl (Wrapf ''finish collection run success: '' e ''''))
         | (t, Inr _) \<Rightarrow>
           (case Source_Update (ce_fault env CsSource) (set_fetched finishedAt RunStatusSuccess '''' src) (cw_sources w1) of
              (t2, Inl e) \<Rightarrow>
                (set_sources t2 (w1\<lparr>cw_runs := t\<rparr>), None, Inl (Wrapf ''update source fetch status: '' e ''''))
            | (t2, Inr _) \<Rightarrow> (set_sources t2 (w1\<lparr>cw_runs := t\<rparr>), None, Inr writeResult))))"

definition finishSuccess ::
  "collection_service \<Rightarrow> collect_env \<Rightarrow> int \<Rightarrow> source \<Rightarrow> collected_item list \<Rightarrow> collect_world \<Rightarrow>
     collect_world \<times> article_write_result option \<times> collect_answer" where
  "finishSuccess cs env rid src items w =
     (case RunInTransaction (cs_has_tx cs) (ce_tx env AtSuccess) None (success_body cs env rid src items) w of
        (w', Some articleWriteErr, _) \<Rightarrow>
          (case finishFailed cs env rid src (int (length items)) articleWriteErr w' of (w'', answer) \<Rightarrow> (w'', None, answer))
      | (w', None, Inl e) \<Rightarrow> (w', None, None, Some e)
      | (w', None, Inr writeResult) \<Rightarrow> (w', Some writeResult, None, None))"


subsection \<open>A collection\<close>

text \<open>What follows once the lock is held; its release is deferred to the end.\<close>

definition new_run :: "source \<Rightarrow> time \<Rightarrow> collection_run" where
  "new_run src now =
     \<lparr>run_id = 0, run_source_id = so_id src, run_status = RunStatusRunning, run_started_at = now,
      run_finished_at = None, run_fetched_count = 0, run_inserted_count = 0, run_duplicated_count = 0,
      run_error_message = '''', run_created_at = now\<rparr>"

definition collect_locked ::
  "collection_service \<Rightarrow> collect_env \<Rightarrow> collector \<Rightarrow> source \<Rightarrow> collect_world \<Rightarrow> collect_world \<times> collect_answer" where
  "collect_locked cs env collect src0 w =
     (case Run_Create (ce_fault env CsCreate) (new_run src0 (ce_now env AtStart)) (cw_runs w) of
        (t, Inl e) \<Rightarrow> (w\<lparr>cw_runs := t\<rparr>, None, Some (Wrapf ''create collection run: '' e ''''))
      | (t, Inr run) \<Rightarrow>
        (let w1 = ce_during env (w\<lparr>cw_runs := t\<rparr>) in
         case collect src0 of
           (src, Inl e) \<Rightarrow> finishFailed cs env (run_id run) src 0 e w1
         | (src, Inr items) \<Rightarrow>
           (case finishSuccess cs env (run_id run) src items w1 of
              (w2, None, answer) \<Rightarrow> (w2, answer)
            | (w2, Some writeResult, _) \<Rightarrow>
                (collection_observe cs
                   \<lparr>ob_run_id = run_id run, ob_source_id = so_id src, ob_source_type = so_type src,
                    ob_status = RunStatusSuccess, ob_fetched_count = int (length items),
                    ob_inserted_count = inserted_count writeResult,
                    ob_duplicated_count = duplicated_count writeResult,
                    ob_duration = time_sub (ce_now env AtSuccess) (ce_now env AtStart), ob_error_message = ''''\<rparr>
                   (invalidateSourceListCache cs env AtSuccess (so_user_id src) w2),
                 Some \<lparr>resp_run_id = run_id run, resp_source_id = so_id src, resp_status = RunStatusSuccess,
                       resp_fetched_count = int (length items), resp_inserted_count = inserted_count writeResult,
                       resp_duplicated_count = duplicated_count writeResult, resp_error_message = ''''\<rparr>,
                 None))))"

definition CollectSource ::
  "collection_service \<Rightarrow> collect_env \<Rightarrow> collect_source_request \<Rightarrow> collect_world \<Rightarrow> collect_world \<times> collect_answer" where
  "CollectSource cs env req w =
     (case Source_FindByUserIDAndID (ce_fault env CsFind) (req_user_id req) (req_source_id req) (cw_sources w) of
        Inl e \<Rightarrow> (w, None, Some (if errors_is e ErrSourceNotFound then Sentinel ErrSourceNotAccessible
                                else Wrapf ''find source: '' e ''''))
      | Inr src0 \<Rightarrow>
        (case markStaleRunningRunsFailed cs env src0 (ce_before env w) of
           (w1, Inl e) \<Rightarrow> (w1, None, Some e)
         | (w1, Inr src) \<Rightarrow>
           (case cs_registry cs (so_type src) of
              None \<Rightarrow> (w1, None, Some (Sentinel ErrCollectorNotFound))
            | Some collect \<Rightarrow>
              (case acquireLock cs env (so_id src) w1 of
                 (w2, Inl e) \<Rightarrow> (w2, None, Some e)
               | (w2, Inr (_, False)) \<Rightarrow> (w2, None, Some (Sentinel ErrCollectionInProgress))
               | (w2, Inr (token, True)) \<Rightarrow>
                 (case collect_locked cs env collect src w2 of
                    (w3, answer) \<Rightarrow> (release_lock env (so_id src) token w3, answer))))))"

text \<open>What the worker of the job queue makes of it: it looks at the response only without an error.\<close>

definition collect_for_worker ::
  "collection_service \<Rightarrow> collect_env \<Rightarrow> collect_source_request \<Rightarrow> collect_world \<Rightarrow>
     collect_world \<times> collect_source_response option result" where
  "collect_for_worker cs env req w =
     (case CollectSource cs env req w of
        (w', resp, None) \<Rightarrow> (w', Inr resp)
      | (w', _, Some e) \<Rightarrow> (w', Inl e))"


subsection \<open>Reading runs\<close>

record collection_run_dto =
  rd_id :: int
  rd_source_id :: int
  rd_status :: string
  rd_started_at :: string
  rd_finished_at :: "string option"
  rd_fetched_count :: int
  rd_inserted_count :: int
  rd_duplicated_count :: int
  rd_error_message :: string

record list_runs_response =
  rl_runs :: "collection_run_dto list"
  rl_total :: int
  rl_limit :: int
  rl_offset :: int

definition toCollectionRunDTO :: "collection_run \<Rightarrow> collection_run_dto" where
  "toCollectionRunDTO r =
     \<lparr>rd_id = run_id r, rd_source_id = run_source_id r, rd_status = run_status r,
      rd_started_at = rfc3339_nano (run_started_at r), rd_finished_at = map_option rfc3339_nano (run_finished_at r),
      rd_fetched_count = run_fetched_count r, rd_inserted_count = run_inserted_count r,
      rd_duplicated_count = run_duplicated_count r, rd_error_message = run_error_message r\<rparr>"

definition normalizeCollectionRunLimit :: "int \<Rightarrow> int" where
  "normalizeCollectionRunLimit limit = (if limit \<le> 0 then 20 else if limit > 100 then 100 else limit)"

definition normalizeCollectionRunOffset :: "int \<Rightarrow> int" where
  "normalizeCollectionRunOffset offset = (if offset < 0 then 0 else offset)"

interpretation run_page: page_params normalizeCollectionRunLimit normalizeCollectionRunOffset 20 100
  by unfold_locales (auto simp: normalizeCollectionRunLimit_def normalizeCollectionRunOffset_def)

definition ListCollectionRuns ::
  "go_error option \<Rightarrow> run_list_stmt faults \<Rightarrow> int \<Rightarrow> int \<Rightarrow> string \<Rightarrow> int \<Rightarrow> int \<Rightarrow> collect_world \<Rightarrow> list_runs_response result" where
  "ListCollectionRuns ff lf uid sid status limit0 offset0 w =
     (case Source_FindByUserIDAndID ff uid sid (cw_sources w) of
        Inl e \<Rightarrow> Inl (if errors_is e ErrSourceNotFound then Sentinel ErrSourceNotAccessible
                      else Wrapf ''find source: '' e '''')
      | Inr src \<Rightarrow>
        (let limit = normalizeCollectionRunLimit limit0; offset = normalizeCollectionRunOffset offset0 in
         case Run_ListBySourceID lf \<lparr>lrp_source_id = so_id src, lrp_status = status, lrp_limit = limit,
                lrp_offset = offset\<rparr> (cw_runs w) of
           Inl e \<Rightarrow> Inl (Wrapf ''list collection runs: '' e '''')
         | Inr (rs, n) \<Rightarrow>
             Inr \<lparr>rl_runs = map toCollectionRunDTO rs, rl_total = n, rl_limit = limit, rl_offset = offset\<rparr>))"

definition GetCollectionRun ::
  "go_error option \<Rightarrow> int \<Rightarrow> int \<Rightarrow> collect_world \<Rightarrow> collection_run_dto result" where
  "GetCollectionRun fault uid i w =
     (case Run_FindByUserIDAndID fault uid i (cw_sources w) (cw_runs w) of
        Inl e \<Rightarrow> Inl (if errors_is e ErrCollectionRunNotFound then Sentinel ErrCollectionRunNotFound
                      else Wrapf ''find collection run: '' e '''')
      | Inr run \<Rightarrow> Inr (toCollectionRunDTO run))"


subsection \<open>The handlers\<close>

definition handleCollectionError :: "go_error \<Rightarrow> 'a http_response" where
  "handleCollectionError e =
     (if errors_is e ErrSourceNotAccessible then response_Error 404 ''source_not_found'' ''source not found''
      else if errors_is e ErrCollectionRunNotFound then
        response_Error 404 ''collection_run_not_found'' ''collection run not found''
      else if errors_is e ErrCollectorNotFound then response_Error 400 ''collector_not_found'' ''collector not found''
      else if errors_is e ErrCollectionInProgress then
        response_Error 409 ''collection_in_progress'' ''collection already in progress''
      else response_Error 500 ''internal_error'' ''internal server error'')"

text \<open>A collection that failed is answered with its recorded run, not with an error.\<close>

definition CollectionHandler_CollectSource ::
  "collection_service \<Rightarrow> collect_env \<Rightarrow> (collect_world, collect_source_response) handler" where
  "CollectionHandler_CollectSource cs env req w =
     (case requestctx_UserID req of
        (uid, False) \<Rightarrow> (w, response_Error 401 ''unauthorized'' ''missing user context'')
      | (uid, True) \<Rightarrow>
        (case parseIDParam (hr_param req ''id'') of
           (_, Some e) \<Rightarrow> (w, response_Error 400 ''invalid_source_id'' ''invalid source id'')
         | (sid, None) \<Rightarrow>
           (case CollectSource cs env \<lparr>req_user_id = uid, req_source_id = sid\<rparr> w of
              (w', Some resp, Some e) \<Rightarrow>
                (w', if errors_is e ErrCollectionFailed then response_OK resp else handleCollectionError e)
            | (w', None, Some e) \<Rightarrow> (w', handleCollectionError e)
            | (w', resp, None) \<Rightarrow> (w', response_OK (the resp)))))"

definition CollectionHandler_ListCollectionRuns ::
  "go_error option \<Rightarrow> run_list_stmt faults \<Rightarrow> (collect_world, list_runs_response) handler" where
  "CollectionHandler_ListCollectionRuns ff lf req w =
     (case requestctx_UserID req of
        (uid, False) \<Rightarrow> (w, response_Error 401 ''unauthorized'' ''missing user context'')
      | (uid, True) \<Rightarrow>
        (case parseIDParam (hr_param req ''id'') of
           (_, Some e) \<Rightarrow> (w, response_Error 400 ''invalid_source_id'' ''invalid source id'')
         | (sid, None) \<Rightarrow>
           (case parseIntQuery (hr_query req ''limit'') 20 of
              Inl e \<Rightarrow> (w, response_Error 400 ''invalid_query'' ''invalid limit query parameter'')
            | Inr limit \<Rightarrow>
              (case parseIntQuery (hr_query req ''offset'') 0 of
                 Inl e \<Rightarrow> (w, response_Error 400 ''invalid_query'' ''invalid offset query parameter'')
               | Inr offset \<Rightarrow>
                 (case ListCollectionRuns ff lf uid sid (hr_query req ''status'') limit offset w of
                    Inl e \<Rightarrow> (w, handleCollectionError e)
                  | Inr result \<Rightarrow> (w, response_OK result))))))"

definition CollectionHandler_GetCollectionRun ::
  "go_error option \<Rightarrow> (collect_world, collection_run_dto) handler" where
  "CollectionHandler_GetCollectionRun fault req w =
     (case requestctx_UserID req of
        (uid, False) \<Rightarrow> (w, response_Error 401 ''unauthorized'' ''missing user context'')
      | (uid, True) \<Rightarrow>
        (case parseIDParam (hr_param req ''id'') of
           (_, Some e) \<Rightarrow> (w, response_Error 400 ''invalid_collection_run_id'' ''invalid collection run id'')
         | (i, None) \<Rightarrow>
           (case GetCollectionRun fault uid i w of
              Inl e \<Rightarrow> (w, handleCollectionError e)
            | Inr run \<Rightarrow> (w, response_OK run))))"

text \<open>
  The asynchronous endpoint: the source is checked, then the request goes to the job queue,
  the parameter \<open>delegate\<close> (the outbox or Kafka producer).
\<close>

definition SourceValidatingRequester_RequestCollection ::
  "go_error option \<Rightarrow> source_table \<Rightarrow> (collect_source_request \<Rightarrow> 's \<Rightarrow> 's \<times> request_collection_response result) \<Rightarrow>
   collect_source_request \<Rightarrow> 's \<Rightarrow> 's \<times> request_collection_response result" where
  "SourceValidatingRequester_RequestCollection fault sources delegate req s =
     (case Source_FindByUserIDAndID fault (req_user_id req) (req_source_id req) sources of
        Inl e \<Rightarrow> (s, Inl (if errors_is e ErrSourceNotFound then Sentinel ErrSourceNotAccessible
                          else Wrapf ''validate source before queueing collection: '' e ''''))
      | Inr _ \<Rightarrow> delegate req s)"

definition AsyncHandler_RequestCollection ::
  "(collect_source_request \<Rightarrow> 's \<Rightarrow> 's \<times> request_collection_response result) \<Rightarrow> ('s, request_collection_response) handler" where
  "AsyncHandler_RequestCollection requester req s =
     (case requestctx_UserID req of
        (uid, False) \<Rightarrow> (s, response_Error 401 ''unauthorized'' ''missing user context'')
      | (uid, True) \<Rightarrow>
        (case parseIDParam (hr_param req ''id'') of
           (_, Some e) \<Rightarrow> (s, response_Error 400 ''invalid_source_id'' ''invalid source id'')
         | (sid, None) \<Rightarrow>
           (case requester \<lparr>req_user_id = uid, req_source_id = sid\<rparr> s of
              (s', Inl e) \<Rightarrow>
                (s', if errors_is e ErrSourceNotAccessible then
                       response_Error 404 ''source_not_found'' ''source not found''
                     else response_Error 500 ''internal_error'' ''internal server error'')
            | (s', Inr result) \<Rightarrow>
                (s', \<lparr>rs_status = 202, rs_headers = [], rs_body = JsonData result\<rparr>))))"

end
