(* ===== verification/Collection_Runs.thy ===== *)
theory Collection_Runs
  imports Collector_Service
begin

section \<open>What a collection leaves behind\<close>

text \<open>
  A collection writes everything or nothing and its answer agrees with the recorded run; the
  lock excludes concurrent collections of a source while it lasts; stale runs are failed; and
  what a collection does to edits and deletions that happen while it runs.
\<close>

subsection \<open>Steps that leave the tables alone\<close>

lemma set_redis_simps [simp]:
  "cw_runs (set_redis r w) = cw_runs w" "xw_db (cw_articles (set_redis r w)) = xw_db (cw_articles w)"
  "cw_redis (set_redis r w) = r" "cw_seen (set_redis r w) = cw_seen w"
  by (simp_all add: set_redis_def)

lemma set_sources_simps [simp]:
  "cw_runs (set_sources t w) = cw_runs w" "cw_sources (set_sources t w) = t"
  "ad_articles (xw_db (cw_articles (set_sources t w))) = ad_articles (xw_db (cw_articles w))"
  "ad_states (xw_db (cw_articles (set_sources t w))) = ad_states (xw_db (cw_articles w))"
  "cw_redis (set_sources t w) = cw_redis w" "cw_seen (set_sources t w) = cw_seen w"
  by (simp_all add: set_sources_def)

definition same_db :: "collect_world \<Rightarrow> collect_world \<Rightarrow> bool" where
  "same_db w' w \<longleftrightarrow> cw_runs w' = cw_runs w \<and> xw_db (cw_articles w') = xw_db (cw_articles w)"

lemma same_db_refl [simp]: "same_db w w"
  by (simp add: same_db_def)

lemma same_db_steps [simp]:
  "same_db (invalidateSourceListCache cs env site uid w) w" "same_db (collection_observe cs ob w) w"
  "same_db (release_lock env sid token w) w"
  by (simp_all add: same_db_def invalidateSourceListCache_def collection_observe_def release_lock_def split: option.split)

lemmas same_db_eqs [simp] = same_db_steps [unfolded same_db_def, THEN conjunct1] same_db_steps [unfolded same_db_def, THEN conjunct2]

lemma acquireLock_db: "acquireLock cs env sid w = (w', r) \<Longrightarrow> same_db w' w"
  by (auto simp: acquireLock_def same_db_def split: if_splits prod.splits sum.splits option.splits)


subsection \<open>Transactions\<close>

definition same_rows :: "collect_world \<Rightarrow> collect_world \<Rightarrow> bool" where
  "same_rows w' w \<longleftrightarrow>
     rows (cw_sources w') = rows (cw_sources w) \<and> rows (cw_runs w') = rows (cw_runs w) \<and>
     rows (ad_articles (xw_db (cw_articles w'))) = rows (ad_articles (xw_db (cw_articles w))) \<and>
     rows (ad_states (xw_db (cw_articles w'))) = rows (ad_states (xw_db (cw_articles w)))"

lemma same_rows_undo [simp]: "same_rows (undo_tables w w') w"
  by (simp add: same_rows_def undo_tables_def Let_def)

lemma same_rows_refl [simp]: "same_rows w w"
  by (simp add: same_rows_def)

lemma same_rows_trans: "same_rows w3 w2 \<Longrightarrow> same_rows w2 w1 \<Longrightarrow> same_rows w3 w1"
  by (simp add: same_rows_def)

lemma same_db_rows: "same_db w' w \<Longrightarrow> same_rows w' w"
  by (simp add: same_db_def same_rows_def)

text \<open>A transaction whose commit is not lost in doubt.\<close>

definition tx_definite :: "tx_outcome \<Rightarrow> bool" where
  "tx_definite out \<longleftrightarrow> (\<forall>e. out \<noteq> TxCommitFails e True)"

lemma RunInTransaction_cases:
  assumes "has_tx" "tx_definite out"
  obtains (commits) w' x a where "body w = (w', x, Inr a)" "RunInTransaction has_tx out ini body w = (w', x, Inr a)"
  | (aborts) w' x e where "RunInTransaction has_tx out ini body w = (w', x, Inl e)" "same_rows w' w"
      "x = ini \<or> (\<exists>w'' r. body w = (w'', x, r))"
proof (cases out)
  case (TxNotBegun e)
  then show thesis using assms aborts by (simp add: RunInTransaction_def)
next
  case TxCommits
  obtain w' x r where b: "body w = (w', x, r)" by (metis prod_cases3)
  then show thesis using TxCommits assms commits aborts by (cases r) (simp_all add: RunInTransaction_def)
next
  case (TxCommitFails e applied)
  obtain w' x r where b: "body w = (w', x, r)" by (metis prod_cases3)
  then show thesis using TxCommitFails assms aborts by (cases r) (simp_all add: RunInTransaction_def tx_definite_def)
qed


subsection \<open>The bodies of the finishing transactions\<close>

text \<open>The row of a run after it has been finished as a response says.\<close>

definition run_recorded :: "collect_source_response \<Rightarrow> collect_world \<Rightarrow> bool" where
  "run_recorded resp w \<longleftrightarrow>
     (\<exists>r. find_row (\<lambda>r. run_id r = resp_run_id resp) (cw_runs w) = Some r \<and> run_finished_at r \<noteq> None \<and>
        run_status r = resp_status resp \<and> run_fetched_count r = resp_fetched_count resp \<and>
        run_inserted_count r = resp_inserted_count resp \<and> run_duplicated_count r = resp_duplicated_count resp \<and>
        run_error_message r = resp_error_message resp)"

lemma Run_Finish_ok:
  assumes "Run_Finish f p t = (t', Inr u)"
  obtains r where "f = None" "find_row (\<lambda>r. run_id r = fr_run_id p) t' = Some (run_finished p r)"
    "find_row (\<lambda>r. run_id r = fr_run_id p) t = Some r" "length (rows t') = length (rows t)"
proof -
  have f: "f = None" and t': "t' = update_rows (\<lambda>r. run_id r = fr_run_id p) (run_finished p) t"
    and n: "find_row (\<lambda>r. run_id r = fr_run_id p) t \<noteq> None"
    using assms by (auto simp: Run_Finish_def Let_def count_rows_0 split: option.splits if_splits)
  then obtain r where r: "find_row (\<lambda>r. run_id r = fr_run_id p) t = Some r" by blast
  then have "run_id r = fr_run_id p" using find_row_SomeD by fast
  moreover have "find_row (\<lambda>r. run_id r = fr_run_id p) t' =
      map_option (\<lambda>r. if run_id r = fr_run_id p then run_finished p r else r) (find_row (\<lambda>r. run_id r = fr_run_id p) t)"
    unfolding t' by (rule find_row_update_key) (simp add: run_finished_def)
  ultimately show thesis using that f r by (simp add: t' update_rows_def)
qed

lemma failed_body_ok:
  assumes "failed_body env rid src fetched cause w = (w', x, Inr u)"
  shows "run_recorded \<lparr>resp_run_id = rid, resp_source_id = so_id src, resp_status = RunStatusFailed,
           resp_fetched_count = fetched, resp_inserted_count = 0, resp_duplicated_count = 0,
           resp_error_message = error_text cause\<rparr> w'"
    and "ad_articles (xw_db (cw_articles w')) = ad_articles (xw_db (cw_articles w))"
    and "Source_Update (ce_fault env CsFailSource)
           (set_fetched (ce_now env AtFailure) RunStatusFailed (error_text cause) src) (cw_sources w) = (cw_sources w', Inr ())"
proof -
  let ?p = "\<lparr>fr_run_id = rid, fr_status = RunStatusFailed, fr_finished_at = ce_now env AtFailure,
      fr_fetched_count = fetched, fr_inserted_count = 0, fr_duplicated_count = 0, fr_error_message = error_text cause\<rparr>"
  obtain t t2 where f: "Run_Finish (ce_fault env CsFailFinish) ?p (cw_runs w) = (t, Inr ())"
    and s: "Source_Update (ce_fault env CsFailSource)
        (set_fetched (ce_now env AtFailure) RunStatusFailed (error_text cause) src) (cw_sources w) = (t2, Inr ())"
    and w': "w' = set_sources t2 (w\<lparr>cw_runs := t\<rparr>)"
    using assms by (auto simp: failed_body_def Let_def split: prod.splits sum.splits)
  show "run_recorded \<lparr>resp_run_id = rid, resp_source_id = so_id src, resp_status = RunStatusFailed,
           resp_fetched_count = fetched, resp_inserted_count = 0, resp_duplicated_count = 0,
           resp_error_message = error_text cause\<rparr> w'"
    by (rule Run_Finish_ok [OF f]) (simp add: run_recorded_def w' run_finished_def)
  show "ad_articles (xw_db (cw_articles w')) = ad_articles (xw_db (cw_articles w))" by (simp add: w')
  show "Source_Update (ce_fault env CsFailSource)
           (set_fetched (ce_now env AtFailure) RunStatusFailed (error_text cause) src) (cw_sources w) = (cw_sources w', Inr ())"
    using s by (simp add: w')
qed

text \<open>
  All items of a batch have their article among the rows, and the new rows are made of them.
\<close>

definition items_stored :: "collected_item list \<Rightarrow> article list \<Rightarrow> article list \<Rightarrow> bool" where
  "items_stored items new all \<longleftrightarrow>
     (\<forall>item \<in> set items. \<exists>a \<in> set all. stored_as item a) \<and>
     (\<forall>a \<in> set new. \<exists>item \<in> set items. \<exists>c. toArticle c item = Inr (a\<lparr>ar_id := 0\<rparr>))"

lemma save_sources:
  "ArticleService_SaveCollectedItems cache fault clock iter rf visited items w = (w', r) \<Longrightarrow>
     ad_sources (xw_db w') = ad_sources (xw_db w)"
  by (auto simp: ArticleService_SaveCollectedItems_def split: prod.splits sum.splits)

lemma save_rows:
  assumes "ArticleService_SaveCollectedItems cache fault clock iter rf visited items w = (w', Inr res)"
  obtains new where "rows (ad_articles (xw_db w')) = rows (ad_articles (xw_db w)) @ new"
    "int (length new) = inserted_count res" "inserted_count res + duplicated_count res = int (length items)"
    "items_stored items new (rows (ad_articles (xw_db w')))"
proof -
  let ?z = "\<lparr>inserted_count = 0, duplicated_count = 0\<rparr>"
  obtain t users where l: "save_loop fault clock 0 items ?z [] (ad_articles (xw_db w)) = (t, Inr (res, users))"
    and t: "ad_articles (xw_db w') = t"
    using assms by (auto simp: ArticleService_SaveCollectedItems_def split: prod.splits sum.splits)
  obtain new where "rows t = rows (ad_articles (xw_db w)) @ new"
    "\<forall>a \<in> set new. \<exists>item \<in> set items. \<exists>c. toArticle c item = Inr (a\<lparr>ar_id := 0\<rparr>)"
    using save_loop_new [OF l] by blast
  with save_loop_counts [OF l] save_loop_stored [OF l] t show thesis
    by (intro that [of new]) (auto simp: items_stored_def)
qed

lemma success_body_ok:
  assumes "success_body cs env rid src items w = (w', x, Inr res)"
  obtains new where "x = None"
    "run_recorded \<lparr>resp_run_id = rid, resp_source_id = so_id src, resp_status = RunStatusSuccess,
       resp_fetched_count = int (length items), resp_inserted_count = inserted_count res,
       resp_duplicated_count = duplicated_count res, resp_error_message = ''''\<rparr> w'"
    "rows (ad_articles (xw_db (cw_articles w'))) = rows (ad_articles (xw_db (cw_articles w))) @ new"
    "int (length new) = inserted_count res" "inserted_count res + duplicated_count res = int (length items)"
    "items_stored items new (rows (ad_articles (xw_db (cw_articles w'))))"
    "Source_Update (ce_fault env CsSource)
           (set_fetched (ce_now env AtSuccess) RunStatusSuccess '''' src) (cw_sources w) = (cw_sources w', Inr ())"
proof -
  let ?p = "\<lparr>fr_run_id = rid, fr_status = RunStatusSuccess, fr_finished_at = ce_now env AtSuccess,
      fr_fetched_count = int (length items), fr_inserted_count = inserted_count res,
      fr_duplicated_count = duplicated_count res, fr_error_message = ''''\<rparr>"
  obtain xw t t2 where
    a: "ArticleService_SaveCollectedItems (cs_article_cache cs) (\<lambda>i. ce_fault env (CsSave i)) (ce_item_now env)
          (ce_iter env) (ce_article_rf env) (ce_article_scan env) items (cw_articles w) = (xw, Inr res)"
    and f: "Run_Finish (ce_fault env CsFinish) ?p (cw_runs w) = (t, Inr ())"
    and s: "Source_Update (ce_fault env CsSource)
        (set_fetched (ce_now env AtSuccess) RunStatusSuccess '''' src) (ad_sources (xw_db xw)) = (t2, Inr ())"
    and w': "w' = set_sources t2 (w\<lparr>cw_articles := xw, cw_runs := t\<rparr>)" and x: "x = None"
    using assms by (auto simp: success_body_def Let_def split: prod.splits sum.splits)
  from save_rows [OF a] obtain new where
    "rows (ad_articles (xw_db xw)) = rows (ad_articles (xw_db (cw_articles w))) @ new"
    "int (length new) = inserted_count res" "inserted_count res + duplicated_count res = int (length items)"
    "items_stored items new (rows (ad_articles (xw_db xw)))" .
  moreover have "run_recorded \<lparr>resp_run_id = rid, resp_source_id = so_id src, resp_status = RunStatusSuccess,
       resp_fetched_count = int (length items), resp_inserted_count = inserted_count res,
       resp_duplicated_count = duplicated_count res, resp_error_message = ''''\<rparr> w'"
    by (rule Run_Finish_ok [OF f]) (simp add: run_recorded_def w' run_finished_def)
  ultimately show thesis using that x s save_sources [OF a] by (simp add: w')
qed

subsection \<open>Everything or nothing\<close>

lemma run_recorded_db: "cw_runs w' = cw_runs w \<Longrightarrow> run_recorded resp w' = run_recorded resp w"
  by (simp add: run_recorded_def)

lemma finishFailed_cases:
  assumes "cs_has_tx cs" "tx_definite (ce_tx env AtFailure)" "finishFailed cs env rid src fetched cause w = (w', resp, err)"
  obtains (recorded) r where "resp = Some r" "err = Some (Wrapf '''' (Sentinel ErrCollectionFailed) ('': '' @ error_text cause))"
      "resp_run_id r = rid" "resp_status r = RunStatusFailed" "run_recorded r w'"
      "rows (ad_articles (xw_db (cw_articles w'))) = rows (ad_articles (xw_db (cw_articles w)))"
      "Source_Update (ce_fault env CsFailSource)
         (set_fetched (ce_now env AtFailure) RunStatusFailed (error_text cause) src) (cw_sources w) = (cw_sources w', Inr ())"
  | (nothing) e where "resp = None" "err = Some e" "same_rows w' w"
  using assms(1,2)
proof (cases rule: RunInTransaction_cases [where ini = "()" and body = "failed_body env rid src fetched cause" and w = w])
  case (commits w1 x a)
  let ?r = "\<lparr>resp_run_id = rid, resp_source_id = so_id src, resp_status = RunStatusFailed, resp_fetched_count = fetched,
      resp_inserted_count = 0, resp_duplicated_count = 0, resp_error_message = error_text cause\<rparr>"
  have "failed_body env rid src fetched cause w = (w1, x, Inr ())" using commits(1) by simp
  note b = failed_body_ok [OF this]
  have f: "resp = Some ?r" "err = Some (Wrapf '''' (Sentinel ErrCollectionFailed) ('': '' @ error_text cause))"
    "same_db w' w1"
    using assms(3) commits(2) by (auto simp: finishFailed_def same_db_def)
  then have "run_recorded ?r w'" using b(1) run_recorded_db [of w' w1] unfolding same_db_def by metis
  with f b(2,3) show thesis by (intro recorded [of ?r]) (simp_all add: same_db_def)
next
  case (aborts w1 x e)
  then have "resp = None" "err = Some e" "same_rows w' w" using assms(3) by (auto simp: finishFailed_def)
  then show thesis by (rule nothing)
qed

text \<open>The source row is written back with the outcome, over what was there when the fetching ended.\<close>

definition source_written :: "collect_world \<Rightarrow> source \<Rightarrow> string \<Rightarrow> collect_world \<Rightarrow> bool" where
  "source_written w1 src st w' \<longleftrightarrow>
     (\<exists>f at msg t0. rows t0 = rows (cw_sources w1) \<and>
        Source_Update f (set_fetched at st msg src) t0 = (cw_sources w', Inr ()))"

lemma collect_locked_outcomes:
  assumes "cs_has_tx cs" "tx_definite (ce_tx env AtSuccess)" "tx_definite (ce_tx env AtFailure)"
    and "Run_Create (ce_fault env CsCreate) (new_run src (ce_now env AtStart)) (cw_runs w) = (t, Inr run)"
    and "w1 = ce_during env (w\<lparr>cw_runs := t\<rparr>)"
    and "collect_locked cs env collect src w = (w', resp, err)"
  shows "(\<exists>r items new. resp = Some r \<and> err = None \<and> snd (collect src) = Inr items \<and>
            resp_run_id r = run_id run \<and> resp_status r = RunStatusSuccess \<and> run_recorded r w' \<and> source_written w1 (fst (collect src)) (resp_status r) w' \<and>
            resp_fetched_count r = int (length items) \<and>
            rows (ad_articles (xw_db (cw_articles w'))) = rows (ad_articles (xw_db (cw_articles w1))) @ new \<and>
            int (length new) = resp_inserted_count r \<and> items_stored items new (rows (ad_articles (xw_db (cw_articles w')))) \<and>
            resp_inserted_count r + resp_duplicated_count r = resp_fetched_count r) \<or>
         (\<exists>r e. resp = Some r \<and> err = Some e \<and> errors_is e ErrCollectionFailed \<and>
            resp_run_id r = run_id run \<and> resp_status r = RunStatusFailed \<and> run_recorded r w' \<and> source_written w1 (fst (collect src)) (resp_status r) w' \<and>
            rows (ad_articles (xw_db (cw_articles w'))) = rows (ad_articles (xw_db (cw_articles w1)))) \<or>
         (\<exists>e. resp = None \<and> err = Some e \<and> same_rows w' w1)"
proof (cases "collect src")
  case (Pair src' res)
  show ?thesis
  proof (cases res)
    case (Inl cause)
    then have "finishFailed cs env (run_id run) src' 0 cause w1 = (w', resp, err)"
      using assms(4-6) Pair by (simp add: collect_locked_def Let_def)
    with assms(1,3) show ?thesis
    proof (cases rule: finishFailed_cases)
      case (recorded r)
      have "source_written w1 src' RunStatusFailed w'" unfolding source_written_def using recorded(7) by blast
      with recorded show ?thesis using Pair by auto
    qed blast
  next
    case items: (Inr items)
    obtain w2 wr ans where fs: "finishSuccess cs env (run_id run) src' items w1 = (w2, wr, ans)" by (metis prod_cases3)
    from assms(1,2) show ?thesis
    proof (cases rule: RunInTransaction_cases [where ini = None and body = "success_body cs env (run_id run) src' items" and w = w1])
      case (commits w3 x a)
      from commits(1) show ?thesis
      proof (rule success_body_ok)
        fix new
        assume x: "x = None"
          and b: "run_recorded \<lparr>resp_run_id = run_id run, resp_source_id = so_id src', resp_status = RunStatusSuccess,
             resp_fetched_count = int (length items), resp_inserted_count = inserted_count a,
             resp_duplicated_count = duplicated_count a, resp_error_message = ''''\<rparr> w3"
          and sw: "Source_Update (ce_fault env CsSource)
             (set_fetched (ce_now env AtSuccess) RunStatusSuccess '''' src') (cw_sources w1) = (cw_sources w3, Inr ())"
          and n: "rows (ad_articles (xw_db (cw_articles w3))) = rows (ad_articles (xw_db (cw_articles w1))) @ new"
            "int (length new) = inserted_count a" "inserted_count a + duplicated_count a = int (length items)"
            "items_stored items new (rows (ad_articles (xw_db (cw_articles w3))))"
        have "finishSuccess cs env (run_id run) src' items w1 = (w3, Some a, None, None)"
          using commits(2) x by (simp add: finishSuccess_def)
        then have "resp = Some \<lparr>resp_run_id = run_id run, resp_source_id = so_id src', resp_status = RunStatusSuccess,
             resp_fetched_count = int (length items), resp_inserted_count = inserted_count a,
             resp_duplicated_count = duplicated_count a, resp_error_message = ''''\<rparr>" "err = None" "same_db w' w3"
          using assms(4-6) Pair items by (auto simp: collect_locked_def Let_def same_db_def)
        moreover from this have "source_written w1 src' RunStatusSuccess w'" unfolding source_written_def same_db_def using sw by metis
        ultimately show ?thesis using b n Pair items by (auto simp: same_db_def run_recorded_def)
      qed
    next
      case (aborts w3 x e)
      show ?thesis
      proof (cases x)
        case None
        then have "finishSuccess cs env (run_id run) src' items w1 = (w3, None, None, Some e)"
          using aborts(1) by (simp add: finishSuccess_def)
        then have "w' = w3" "resp = None" "err = Some e"
          using assms(4-6) Pair items by (auto simp: collect_locked_def Let_def)
        then show ?thesis using aborts(2) by blast
      next
        case (Some articleErr)
        then have "finishFailed cs env (run_id run) src' (int (length items)) articleErr w3 = (w', resp, err)"
          using assms(4-6) Pair items aborts(1)
          by (auto simp: collect_locked_def Let_def finishSuccess_def split: prod.splits)
        with assms(1,3) show ?thesis
        proof (cases rule: finishFailed_cases)
          case (nothing e')
          then show ?thesis using aborts(2) same_rows_trans by blast
        next
          case (recorded r)
          have "rows (cw_sources w3) = rows (cw_sources w1)" using aborts(2) by (simp add: same_rows_def)
          then have "source_written w1 src' RunStatusFailed w'" unfolding source_written_def using recorded(7) by blast
          with recorded aborts(2) show ?thesis using Pair by (auto simp: same_rows_def)
        qed
      qed
    qed
  qed
qed


text \<open>
  C22. With the transaction runner, and no commit in doubt (a commit that fails has stored
  nothing, \<open>tx_definite\<close>), what a collection that holds the lock leaves behind is one of three
  things, and its answer tells which: the run is finished as a success and its articles are all
  there, every collected item has an article of its source with its content hash or external id
  in the table, the new articles are made of collected items, their number is the one in the
  answer and every other item is counted as a duplicate; the run is finished as failed, with the
  failure in the answer, and no article is stored; or nothing is stored at all beyond the run as
  it was created.
\<close>

theorem collection_all_or_nothing:
  assumes "cs_has_tx cs" "tx_definite (ce_tx env AtSuccess)" "tx_definite (ce_tx env AtFailure)"
    and "Run_Create (ce_fault env CsCreate) (new_run src (ce_now env AtStart)) (cw_runs w) = (t, Inr run)"
    and "w1 = ce_during env (w\<lparr>cw_runs := t\<rparr>)"
    and "collect_locked cs env collect src w = (w', resp, err)"
  shows "(\<exists>r items new. resp = Some r \<and> err = None \<and> snd (collect src) = Inr items \<and>
            resp_run_id r = run_id run \<and> resp_status r = RunStatusSuccess \<and> run_recorded r w' \<and>
            resp_fetched_count r = int (length items) \<and>
            rows (ad_articles (xw_db (cw_articles w'))) = rows (ad_articles (xw_db (cw_articles w1))) @ new \<and>
            int (length new) = resp_inserted_count r \<and>
            resp_inserted_count r + resp_duplicated_count r = resp_fetched_count r \<and>
            (\<forall>item \<in> set items. \<exists>a \<in> set (rows (ad_articles (xw_db (cw_articles w')))). stored_as item a) \<and>
            (\<forall>a \<in> set new. \<exists>item \<in> set items. \<exists>c. toArticle c item = Inr (a\<lparr>ar_id := 0\<rparr>))) \<or>
         (\<exists>r e. resp = Some r \<and> err = Some e \<and> errors_is e ErrCollectionFailed \<and>
            resp_run_id r = run_id run \<and> resp_status r = RunStatusFailed \<and> run_recorded r w' \<and>
            rows (ad_articles (xw_db (cw_articles w'))) = rows (ad_articles (xw_db (cw_articles w1)))) \<or>
         (\<exists>e. resp = None \<and> err = Some e \<and> same_rows w' w1)"
  using collect_locked_outcomes [OF assms] unfolding items_stored_def by blast

subsection \<open>Edits and deletions during a collection\<close>

lemma source_assign_written:
  assumes "Source_Update f s t = (t', Inr ())" "r \<in> set (rows t')" "source_visible (so_user_id s) (so_id s) r"
  shows "so_name r = so_name s \<and> so_url r = so_url s \<and> so_config_json r = so_config_json s \<and>
         so_is_active r = so_is_active s \<and> so_last_fetch_status r = so_last_fetch_status s"
  using assms
proof (rule_tac Source_Update_cases [of f s t])
  assume e: "Source_Update f s t = (update_rows (source_visible (so_user_id s) (so_id s)) (source_assign s) t, Inr ())"
  then have "t' = update_rows (source_visible (so_user_id s) (so_id s)) (source_assign s) t" using assms(1) by simp
  then obtain r0 where "r = source_assign s r0"
    using assms(2,3) by (auto simp: set_rows_update source_visible_def split: if_splits)
  then show ?thesis by (simp add: source_assign_def)
qed (use assms in auto)

lemma Source_Update_invisible:
  "find_row (source_visible (so_user_id s) (so_id s)) t = None \<Longrightarrow> \<exists>e. Source_Update f s t = (t, Inl e)"
  by (cases f) (auto simp: Source_Update_def Let_def count_rows_0)

lemma set_fetched_simps [simp]:
  "so_user_id (set_fetched at st msg s) = so_user_id s" "so_id (set_fetched at st msg s) = so_id s"
  "so_name (set_fetched at st msg s) = so_name s" "so_url (set_fetched at st msg s) = so_url s"
  "so_config_json (set_fetched at st msg s) = so_config_json s" "so_is_active (set_fetched at st msg s) = so_is_active s"
  "so_last_fetch_status (set_fetched at st msg s) = st"
  by (simp_all add: set_fetched_def)

lemma source_written_row:
  assumes "source_written w1 src st w'" "r \<in> set (rows (cw_sources w'))" "source_visible (so_user_id src) (so_id src) r"
  shows "so_name r = so_name src \<and> so_url r = so_url src \<and> so_config_json r = so_config_json src \<and>
         so_is_active r = so_is_active src \<and> so_last_fetch_status r = st"
proof -
  obtain f at msg t0 where "Source_Update f (set_fetched at st msg src) t0 = (cw_sources w', Inr ())"
    using assms(1) unfolding source_written_def by blast
  from source_assign_written [OF this assms(2)] assms(3) show ?thesis by simp
qed

lemma source_written_visible:
  "source_written w1 src st w' \<Longrightarrow> find_row (source_visible (so_user_id src) (so_id src)) (cw_sources w1) \<noteq> None"
proof
  assume h: "source_written w1 src st w'" "find_row (source_visible (so_user_id src) (so_id src)) (cw_sources w1) = None"
  then obtain f at msg t0 where t0: "rows t0 = rows (cw_sources w1)"
    "Source_Update f (set_fetched at st msg src) t0 = (cw_sources w', Inr ())"
    unfolding source_written_def by blast
  then have "find_row (source_visible (so_user_id src) (so_id src)) t0 = None" using h(2) by (simp add: find_row_def)
  then show False using Source_Update_invisible [of "set_fetched at st msg src" t0 f] t0(2) by auto
qed

text \<open>
  A collection writes back the source it has read: whatever others did to the source while
  it was fetching (\<open>ce_during\<close> is arbitrary), once the collection is recorded, as a success
  or a failure, the name, the url and the activity of the row are those that were read at the
  start, and its configuration is the one the collector left. A rename, a change of
  configuration or a deactivation made meanwhile is lost; and the cursor an email collector
  puts into the configuration is stored even if its articles were refused.
\<close>

theorem collection_writes_back_what_it_read:
  assumes "cs_has_tx cs" "tx_definite (ce_tx env AtSuccess)" "tx_definite (ce_tx env AtFailure)"
    and "Run_Create (ce_fault env CsCreate) (new_run src (ce_now env AtStart)) (cw_runs w) = (t, Inr run)"
    and "collect_locked cs env collect src w = (w', Some resp, err)"
    and "fst (collect src) = src\<lparr>so_config_json := c\<rparr>"
    and "r \<in> set (rows (cw_sources w'))" "source_visible (so_user_id src) (so_id src) r"
  shows "so_name r = so_name src \<and> so_url r = so_url src \<and> so_is_active r = so_is_active src \<and>
         so_config_json r = c \<and> so_last_fetch_status r = resp_status resp"
proof -
  have "source_written (ce_during env (w\<lparr>cw_runs := t\<rparr>)) (fst (collect src)) (resp_status resp) w'"
    using collect_locked_outcomes [OF assms(1-4) refl assms(5)] by auto
  from source_written_row [OF this assms(7)] assms(8) show ?thesis by (simp add: assms(6))
qed

text \<open>
  If the source is deleted while it is being fetched, nothing of the collection is stored,
  and its run is not finished either: it stays in the state running. As the source can no
  longer be collected, no later collection fails it as stale.
\<close>

theorem collection_of_deleted_source_stays_running:
  assumes "cs_has_tx cs" "tx_definite (ce_tx env AtSuccess)" "tx_definite (ce_tx env AtFailure)"
    and "Run_Create (ce_fault env CsCreate) (new_run src (ce_now env AtStart)) (cw_runs w) = (t, Inr run)"
    and "ce_during env (w\<lparr>cw_runs := t\<rparr>) = set_sources ts (w\<lparr>cw_runs := t\<rparr>)" "wf_table run_id (cw_runs w)"
    and "find_row (source_visible (so_user_id src) (so_id src)) ts = None"
    and "fst (collect src) = src\<lparr>so_config_json := c\<rparr>"
    and "collect_locked cs env collect src w = (w', resp, err)"
  shows "resp = None \<and> err \<noteq> None \<and>
         rows (ad_articles (xw_db (cw_articles w'))) = rows (ad_articles (xw_db (cw_articles w))) \<and>
         find_row (\<lambda>r. run_id r = run_id run) (cw_runs w') = Some run \<and> run_status run = RunStatusRunning"
proof -
  let ?w1 = "set_sources ts (w\<lparr>cw_runs := t\<rparr>)"
  have "\<not> source_written ?w1 (fst (collect src)) st w'" for st
    using source_written_visible [of ?w1 "fst (collect src)" st w'] assms(7,8) by auto
  then have out: "resp = None" "err \<noteq> None" "same_rows w' ?w1"
    using collect_locked_outcomes [OF assms(1-4) refl assms(9), unfolded assms(5)] by blast+
  have t: "t = insert_row (\<lambda>i. (new_run src (ce_now env AtStart))\<lparr>run_id := i\<rparr>) (cw_runs w)"
    and run: "run = (new_run src (ce_now env AtStart))\<lparr>run_id := seq (cw_runs w) + 1\<rparr>"
    using assms(4) by (auto simp: Run_Create_def split: option.splits)
  have "find_row (\<lambda>r. run_id r = run_id run) (cw_runs w) = None"
    using assms(6) unfolding find_row_None wf_table_def run by fastforce
  then have "find_row (\<lambda>r. run_id r = run_id run) t = Some run"
    unfolding t by (simp add: find_row_insert run)
  with out run show ?thesis by (simp add: same_rows_def find_row_def new_run_def)
qed


subsection \<open>Stale runs\<close>

text \<open>
  When failing the stale runs of a source goes through, exactly the running runs of this
  source that started before the timeout are failed, at that moment and with the timeout in
  their message; no running run that old is left, and every other run is as it was. The source
  is marked failed if there was one, and left alone otherwise.
\<close>

theorem stale_runs_failed:
  assumes "0 < cs_stale_timeout cs" "markStaleRunningRunsFailed cs env src w = (w', Inr src')"
    and "p = \<lparr>ms_source_id = so_id src, ms_started_before = ce_now env AtStale - cs_stale_timeout cs,
              ms_finished_at = ce_now env AtStale,
              ms_error_message = ''collection run timed out after '' @ duration_text (cs_stale_timeout cs)\<rparr>"
  shows "rows (cw_runs w') = map (\<lambda>r. if run_stale p r then run_timed_out p r else r) (rows (cw_runs w)) \<and>
         (\<forall>r \<in> set (rows (cw_runs w')). \<not> run_stale p r) \<and>
         ((\<exists>r \<in> set (rows (cw_runs w)). run_stale p r) \<longrightarrow> so_last_fetch_status src' = RunStatusFailed \<and>
            (\<forall>s \<in> set (rows (cw_sources w')). source_visible (so_user_id src) (so_id src) s \<longrightarrow>
               so_last_fetch_status s = RunStatusFailed)) \<and>
         ((\<forall>r \<in> set (rows (cw_runs w)). \<not> run_stale p r) \<longrightarrow> src' = src \<and> cw_sources w' = cw_sources w)"
proof -
  obtain w1 n where body: "stale_body cs env src w = (w1, (), Inr (n, src'))" and db: "same_db w' w1"
  proof (cases "RunInTransaction (cs_has_tx cs) (ce_tx env AtStale) () (stale_body cs env src) w")
    case (fields w1 u res)
    with assms(1,2) obtain n where r: "res = Inr (n, src')" and db: "same_db w' w1"
      by (auto simp: markStaleRunningRunsFailed_def same_db_def split: sum.splits if_splits)
    with fields have "stale_body cs env src w = (w1, (), Inr (n, src'))"
      by (auto simp: RunInTransaction_def split: if_splits tx_outcome.splits prod.splits sum.splits)
    then show thesis using db by (rule that)
  qed
  have runs: "cw_runs w1 = update_rows (run_stale p) (run_timed_out p) (cw_runs w)"
    using body by (auto simp: stale_body_def Let_def Run_MarkStaleRunningFailed_def assms(3) time_add_def
        split: option.splits if_splits prod.splits sum.splits)
  have n: "n = count_rows (run_stale p) (cw_runs w)"
    and some: "n \<noteq> 0 \<Longrightarrow> src' = set_fetched (ce_now env AtStale) RunStatusFailed (ms_error_message p) src \<and>
      Source_Update (ce_fault env CsStaleSource) src' (cw_sources w) = (cw_sources w1, Inr ())"
    and none: "n = 0 \<Longrightarrow> src' = src \<and> cw_sources w1 = cw_sources w"
    using body by (auto simp: stale_body_def Let_def Run_MarkStaleRunningFailed_def assms(3) time_add_def
        split: option.splits if_splits prod.splits sum.splits)
  have clean: "\<not> run_stale p r" if row: "r \<in> set (rows (cw_runs w1))" for r
  proof -
    have "\<not> run_stale p (run_timed_out p r)" for r by (simp add: run_stale_def run_timed_out_def)
    moreover obtain r0 where "r = (if run_stale p r0 then run_timed_out p r0 else r0)"
      using row unfolding runs set_rows_update by blast
    ultimately show ?thesis by (cases "run_stale p r0") simp_all
  qed
  have n0: "n = 0 \<longleftrightarrow> (\<forall>r \<in> set (rows (cw_runs w)). \<not> run_stale p r)"
    unfolding n count_rows_0 find_row_None by simp
  have updated: "so_last_fetch_status s = RunStatusFailed"
    if "n \<noteq> 0" "s \<in> set (rows (cw_sources w1))" "source_visible (so_user_id src) (so_id src) s" for s
    using some [OF that(1)] source_assign_written [of _ src' _ "cw_sources w1" s] that(2,3) by fastforce
  have w1: "cw_runs w' = cw_runs w1" "cw_sources w' = cw_sources w1" using db by (simp_all add: same_db_def)
  show ?thesis unfolding w1
  proof (intro conjI impI)
    show "rows (cw_runs w1) = map (\<lambda>r. if run_stale p r then run_timed_out p r else r) (rows (cw_runs w))"
      by (simp add: runs update_rows_def)
    show "\<forall>r \<in> set (rows (cw_runs w1)). \<not> run_stale p r" using clean by blast
  next
    assume "\<exists>r \<in> set (rows (cw_runs w)). run_stale p r"
    then have "n \<noteq> 0" using n0 by blast
    then show "so_last_fetch_status src' = RunStatusFailed"
      "\<forall>s \<in> set (rows (cw_sources w1)). source_visible (so_user_id src) (so_id src) s \<longrightarrow> so_last_fetch_status s = RunStatusFailed"
      using some updated by (simp_all del: RunStatusFailed_def)
  next
    assume "\<forall>r \<in> set (rows (cw_runs w)). \<not> run_stale p r"
    then have "n = 0" using n0 by blast
    then show "src' = src" "cw_sources w1 = cw_sources w" using none by blast+
  qed
qed


subsection \<open>The lock excludes\<close>

text \<open>
  All that happens to the locks of sources: time passes; a process tries to acquire a lock with
  a token of its own, and holds it or not, or sees an error though the command may have been
  carried out; a holder releases; other commands touch other keys. \<open>lk_holders\<close> are those who
  hold a lock, with the source and the time their lock expires.
\<close>

record lock_state =
  lk_redis :: redis
  lk_now :: time
  lk_used :: "string list"
  lk_holders :: "(string \<times> int \<times> time) list"

inductive lock_step :: "lock_state \<Rightarrow> lock_state \<Rightarrow> bool" where
  lk_tick: "0 \<le> d \<Longrightarrow> lock_step s (s\<lparr>lk_now := lk_now s + d\<rparr>)"
| lk_acquire: "token \<notin> set (lk_used s) \<Longrightarrow> ttl > 0 \<Longrightarrow>
    Lock_Acquire out (lk_now s) token sid ttl (lk_redis s) = (r, Inr (Some token)) \<Longrightarrow>
    lock_step s (s\<lparr>lk_redis := r, lk_used := token # lk_used s,
                   lk_holders := (token, sid, lk_now s + ttl) # lk_holders s\<rparr>)"
| lk_refused: "token \<notin> set (lk_used s) \<Longrightarrow> ttl > 0 \<Longrightarrow>
    Lock_Acquire out (lk_now s) token sid ttl (lk_redis s) = (r, res) \<Longrightarrow> res \<noteq> Inr (Some token) \<Longrightarrow>
    lock_step s (s\<lparr>lk_redis := r, lk_used := token # lk_used s\<rparr>)"
| lk_release: "(token, sid, ex) \<in> set (lk_holders s) \<Longrightarrow>
    lock_step s (s\<lparr>lk_redis := Lock_Release out (lk_now s) token sid (lk_redis s),
                   lk_holders := filter (\<lambda>h. fst h \<noteq> token) (lk_holders s)\<rparr>)"
| lk_other: "(\<And>sid. r (lock_key sid) = lk_redis s (lock_key sid)) \<Longrightarrow> lock_step s (s\<lparr>lk_redis := r\<rparr>)"

lemma lock_key_inject [simp]: "lock_key a = lock_key b \<longleftrightarrow> a = b"
  by (simp add: lock_key_def)

definition lock_inv :: "lock_state \<Rightarrow> bool" where
  "lock_inv s \<longleftrightarrow>
     distinct (map fst (lk_holders s)) \<and> fst ` set (lk_holders s) \<subseteq> set (lk_used s) \<and>
     (\<forall>(token, sid, ex) \<in> set (lk_holders s). lk_now s < ex \<longrightarrow> lk_redis s (lock_key sid) = Some (RText token, Some ex))"

lemma lock_held_get: "lk_redis s (lock_key sid) = Some (RText token, Some ex) \<Longrightarrow> lk_now s < ex \<Longrightarrow>
    redis_get (lk_now s) (lock_key sid) (lk_redis s) = Some (RText token)"
  by (simp add: redis_get_def)

text \<open>What an attempt does to the keys: it leaves them, or sets the free one.\<close>

lemma Lock_Acquire_redis:
  assumes "Lock_Acquire out now token sid ttl r = (r', res)" "0 < ttl"
  shows "r' = r \<or> redis_get now (lock_key sid) r = None \<and> r' = r(lock_key sid \<mapsto> (RText token, Some (now + ttl)))"
    and "res = Inr (Some token) \<Longrightarrow>
      redis_get now (lock_key sid) r = None \<and> r' = r(lock_key sid \<mapsto> (RText token, Some (now + ttl)))"
  using assms by (auto simp: Lock_Acquire_def redis_setnx_def redis_set_def Let_def split: redis_outcome.splits if_splits)

lemma Lock_Release_redis:
  "Lock_Release out now token sid r = r \<or>
   redis_get now (lock_key sid) r = Some (RText token) \<and> Lock_Release out now token sid r = r(lock_key sid := None)"
  by (auto simp: Lock_Release_def redis_write_def redis_del_def split: redis_outcome.splits)

lemma lock_inv_set:
  assumes "lock_inv s" "redis_get (lk_now s) (lock_key sid) (lk_redis s) = None" "(tk, sd, ex) \<in> set (lk_holders s)" "lk_now s < ex"
  shows "((lk_redis s)(lock_key sid \<mapsto> v)) (lock_key sd) = Some (RText tk, Some ex)"
proof -
  have h: "lk_redis s (lock_key sd) = Some (RText tk, Some ex)" using assms(1,3,4) by (auto simp: lock_inv_def)
  then have "sd \<noteq> sid" using lock_held_get [OF h assms(4)] assms(2) by auto
  with h show ?thesis by simp
qed

lemma lock_step_inv:
  assumes "lock_step s s'" "lock_inv s"
  shows "lock_inv s'"
  using assms(1)
proof cases
  case (lk_tick d)
  then show ?thesis using assms(2) by (auto simp: lock_inv_def)
next
  case (lk_acquire token ttl out sid r)
  from Lock_Acquire_redis(2) [OF lk_acquire(4,3) refl]
  have free: "redis_get (lk_now s) (lock_key sid) (lk_redis s) = None"
    and r: "r = (lk_redis s)(lock_key sid \<mapsto> (RText token, Some (lk_now s + ttl)))" by simp_all
  have "r (lock_key sd) = Some (RText tk, Some ex)" if "(tk, sd, ex) \<in> set (lk_holders s)" "lk_now s < ex" for tk sd ex
    unfolding r by (rule lock_inv_set [OF assms(2) free that])
  moreover have "r (lock_key sid) = Some (RText token, Some (lk_now s + ttl))" by (simp add: r)
  ultimately show ?thesis using assms(2) lk_acquire(1,2) by (auto simp: lock_inv_def)
next
  case (lk_refused token ttl out sid r res)
  have "r (lock_key sd) = Some (RText tk, Some ex)" if "(tk, sd, ex) \<in> set (lk_holders s)" "lk_now s < ex" for tk sd ex
    using Lock_Acquire_redis(1) [OF lk_refused(4,3)] lock_inv_set [OF assms(2) _ that] that assms(2)
    by (auto simp: lock_inv_def)
  then show ?thesis using assms(2) lk_refused(1) by (auto simp: lock_inv_def)
next
  case (lk_release token sid ex out)
  have "Lock_Release out (lk_now s) token sid (lk_redis s) (lock_key sd) = Some (RText tk, Some e)"
    if "(tk, sd, e) \<in> set (lk_holders s)" "lk_now s < e" "tk \<noteq> token" for tk sd e
  proof -
    have h: "lk_redis s (lock_key sd) = Some (RText tk, Some e)" using assms(2) that by (auto simp: lock_inv_def)
    then have "redis_get (lk_now s) (lock_key sid) (lk_redis s) \<noteq> Some (RText token) \<or> sd \<noteq> sid"
      using lock_held_get [OF h that(2)] that(3) by auto
    then show ?thesis using Lock_Release_redis [of out "lk_now s" token sid "lk_redis s"] h by auto
  qed
  then show ?thesis using assms(2) lk_release(1) by (auto simp: lock_inv_def distinct_map_filter)
next
  case (lk_other r)
  then show ?thesis using assms(2) by (auto simp: lock_inv_def)
qed

text \<open>
  C37. The collection lock excludes: as long as every process uses a token of its own, no two
  processes hold the lock of one source at the same time before it expires, whatever commands
  fail or are carried out without an answer, and whenever holders release. A holder whose lock
  has expired can release without taking the lock from its successor.
\<close>

theorem collection_lock_excludes:
  assumes "lock_step\<^sup>*\<^sup>* \<lparr>lk_redis = Map.empty, lk_now = start, lk_used = [], lk_holders = []\<rparr> s"
    and "(tk1, sid, ex1) \<in> set (lk_holders s)" "(tk2, sid, ex2) \<in> set (lk_holders s)"
    and "lk_now s < ex1" "lk_now s < ex2"
  shows "tk1 = tk2 \<and> ex1 = ex2"
proof -
  from assms(1) have "lock_inv s"
  proof (induction rule: rtranclp_induct)
    case base
    show ?case by (simp add: lock_inv_def)
  qed (rule lock_step_inv)
  then have "lk_redis s (lock_key sid) = Some (RText tk1, Some ex1)" "lk_redis s (lock_key sid) = Some (RText tk2, Some ex2)"
    using assms(2-5) by (auto simp: lock_inv_def)
  then show ?thesis by simp
qed
theorem collection_lock_excludes_witness:
  "\<exists>s. lock_step\<^sup>*\<^sup>* \<lparr>lk_redis = Map.empty, lk_now = 3, lk_used = [], lk_holders = []\<rparr> s \<and>
     (''a'', 1, 13) \<in> set (lk_holders s) \<and> (\<forall>tk ex. (tk, 1, ex) \<in> set (lk_holders s) \<and> 3 < ex \<longrightarrow> tk = ''a'')"
proof -
  let ?s0 = "\<lparr>lk_redis = Map.empty, lk_now = 3, lk_used = [], lk_holders = []\<rparr>"
  define r where "r = fst (Lock_Acquire RDone 3 ''a'' 1 10 Map.empty)"
  have a: "Lock_Acquire RDone (lk_now ?s0) ''a'' 1 10 (lk_redis ?s0) = (r, Inr (Some ''a''))"
    by (simp add: r_def Lock_Acquire_def redis_setnx_def redis_get_def Let_def)
  let ?s1 = "\<lparr>lk_redis = r, lk_now = 3, lk_used = [''a''], lk_holders = [(''a'', 1, 13)]\<rparr>"
  have "lock_step ?s0 ?s1" using lk_acquire [OF _ _ a] by simp
  then have steps: "lock_step\<^sup>*\<^sup>* ?s0 ?s1" by (rule r_into_rtranclp)
  have "tk = ''a''" if "(tk, 1, ex) \<in> set (lk_holders ?s1)" "3 < ex" for tk ex
    using collection_lock_excludes [OF steps that(1), of "''a''" 13] that(2) by simp
  then show ?thesis using steps by (intro exI [of _ ?s1]) auto
qed


subsection \<open>A collection of one mail\<close>

definition sample_collector :: collector where
  "sample_collector src = (src\<lparr>so_config_json := JsonText (JObj [(''last_seen_uid'', JNum 4)])\<rparr>, Inr [sample_item])"

definition sample_service :: collection_service where
  "sample_service =
     NewCollectionService [''email'' \<mapsto> sample_collector] None [WithTransactionRunner True, WithCollectionLock True]"

definition sample_collect_env :: collect_env where
  "sample_collect_env =
     \<lparr>ce_now = (\<lambda>_. 5), ce_item_now = (\<lambda>_. 5), ce_token = ''tk'', ce_fault = no_faults, ce_tx = (\<lambda>_. TxCommits),
      ce_lock_out = (\<lambda>_. RDone), ce_source_rf = (\<lambda>_. redis_ok), ce_source_scan = (\<lambda>_. []),
      ce_article_rf = (\<lambda>_. redis_ok), ce_article_scan = (\<lambda>_. []), ce_iter = id, ce_before = id, ce_during = id\<rparr>"

definition sample_collect_world :: collect_world where
  "sample_collect_world = \<lparr>cw_articles = before_saving, cw_runs = empty_table, cw_seen = []\<rparr>"

definition sample_run :: collection_run where
  "sample_run = (new_run sample_source 5)\<lparr>run_id := 1\<rparr>"

definition collected_source :: source where
  "collected_source = set_fetched 5 RunStatusSuccess [] (fst (sample_collector sample_source))"

lemma sample_run_created:
  "Run_Create (ce_fault sample_collect_env CsCreate) (new_run sample_source (ce_now sample_collect_env AtStart))
     (cw_runs sample_collect_world) = (\<lparr>rows = [sample_run], seq = 1\<rparr>, Inr sample_run)"
  by (simp add: Run_Create_def sample_collect_env_def sample_collect_world_def insert_row_def empty_table_def
      sample_run_def)

lemma sample_source_update:
  "Source_Update None (set_fetched 5 RunStatusSuccess [] (fst (sample_collector sample_source))) (sw_sources sample_source_world) =
     (\<lparr>rows = [collected_source], seq = 1\<rparr>, Inr ())"
  by (simp add: Source_Update_def Let_def source_clash_def sample_source_world_def find_row_def count_rows_0
      source_visible_def sample_source_def sample_collector_def collected_source_def update_rows_def source_assign_def
      set_fetched_def)

lemma sample_success:
  "\<exists>w'. success_body sample_service sample_collect_env 1 (fst (sample_collector sample_source)) [sample_item]
     (sample_collect_world\<lparr>cw_runs := \<lparr>rows = [sample_run], seq = 1\<rparr>\<rparr>) =
     (w', None, Inr \<lparr>inserted_count = 1, duplicated_count = 0\<rparr>) \<and> rows (cw_sources w') = [collected_source]"
proof -
  have u: "Source_Update None (set_fetched 5 ''success'' [] (fst (sample_collector sample_source)))
      (ad_sources (xw_db after_saving)) = (\<lparr>rows = [collected_source], seq = 1\<rparr>, Inr ())"
    using sample_source_update by (simp add: after_saving_def sample_db_def)
  show ?thesis
    by (simp add: success_body_def sample_collect_env_def sample_service_def NewCollectionService_def WithTransactionRunner_def
        WithCollectionLock_def sample_collect_world_def sample_save Run_Finish_def count_rows_0 find_row_def sample_run_def
        Let_def u)
qed

lemma sample_collected:
  "\<exists>w' r. collect_locked sample_service sample_collect_env sample_collector sample_source sample_collect_world =
     (w', Some r, None) \<and> resp_inserted_count r = 1 \<and> rows (cw_sources w') = [collected_source]"
proof -
  let ?w = "sample_collect_world\<lparr>cw_runs := \<lparr>rows = [sample_run], seq = 1\<rparr>\<rparr>"
  obtain w' where b: "success_body sample_service sample_collect_env 1 (fst (sample_collector sample_source)) [sample_item] ?w =
     (w', None, Inr \<lparr>inserted_count = 1, duplicated_count = 0\<rparr>)" "rows (cw_sources w') = [collected_source]"
    using sample_success by blast
  have tx: "cs_has_tx sample_service" "ce_tx sample_collect_env AtSuccess = TxCommits" "run_id sample_run = 1"
    "ce_during sample_collect_env = id" "snd (sample_collector sample_source) = Inr [sample_item]"
    by (simp_all add: sample_service_def NewCollectionService_def WithTransactionRunner_def WithCollectionLock_def
        sample_collect_env_def sample_run_def sample_collector_def)
  have "finishSuccess sample_service sample_collect_env 1 (fst (sample_collector sample_source)) [sample_item] ?w =
      (w', Some \<lparr>inserted_count = 1, duplicated_count = 0\<rparr>, None, None)"
    by (simp add: finishSuccess_def RunInTransaction_def tx b)
  with b(2) show ?thesis
    using tx by (cases "sample_collector sample_source")
      (auto simp: collect_locked_def sample_run_created Let_def)
qed

lemma sample_tx_definite:
  "cs_has_tx sample_service" "tx_definite (ce_tx sample_collect_env site)" "ce_during sample_collect_env = id"
  by (simp_all add: sample_service_def NewCollectionService_def WithTransactionRunner_def WithCollectionLock_def
      sample_collect_env_def tx_definite_def)

theorem collection_all_or_nothing_witness:
  "\<exists>w' r. collect_locked sample_service sample_collect_env sample_collector sample_source sample_collect_world =
     (w', Some r, None) \<and> run_recorded r w' \<and> length (rows (ad_articles (xw_db (cw_articles w')))) = 1"
proof -
  obtain w' r where c: "collect_locked sample_service sample_collect_env sample_collector sample_source sample_collect_world =
     (w', Some r, None)" "resp_inserted_count r = 1"
    using sample_collected by blast
  have "run_recorded r w' \<and> length (rows (ad_articles (xw_db (cw_articles w')))) = 1"
    using collection_all_or_nothing [OF sample_tx_definite(1,2,2) sample_run_created refl c(1)] c(2)
    by (auto simp: sample_tx_definite sample_collect_world_def before_saving_def)
  with c show ?thesis by blast
qed

theorem collection_writes_back_what_it_read_witness:
  "\<exists>w' r. collect_locked sample_service sample_collect_env sample_collector sample_source sample_collect_world =
     (w', Some r, None) \<and> so_config_json (hd (rows (cw_sources w'))) = JsonText (JObj [(''last_seen_uid'', JNum 4)])"
proof -
  obtain w' r where c: "collect_locked sample_service sample_collect_env sample_collector sample_source sample_collect_world =
     (w', Some r, None)" "rows (cw_sources w') = [collected_source]"
    using sample_collected by blast
  have "source_visible (so_user_id sample_source) (so_id sample_source) collected_source"
    by (simp add: source_visible_def collected_source_def set_fetched_def sample_collector_def sample_source_def)
  with collection_writes_back_what_it_read [OF sample_tx_definite(1,2,2) sample_run_created c(1), of
      "JsonText (JObj [(''last_seen_uid'', JNum 4)])" collected_source] c
  show ?thesis by (simp add: sample_collector_def)
qed

text \<open>The same collection, with the source deleted meanwhile.\<close>

definition deleting_env :: collect_env where
  "deleting_env = sample_collect_env\<lparr>ce_during := set_sources \<lparr>rows = [mark_deleted 4 sample_source], seq = 1\<rparr>\<rparr>"

theorem collection_of_deleted_source_stays_running_witness:
  "\<exists>r. find_row (\<lambda>r. run_id r = 1)
     (cw_runs (fst (collect_locked sample_service deleting_env sample_collector sample_source sample_collect_world))) = Some r \<and>
     run_status r = RunStatusRunning"
proof -
  let ?t = "\<lparr>rows = [sample_run], seq = 1\<rparr>"
  obtain w' resp err where c: "collect_locked sample_service deleting_env sample_collector sample_source sample_collect_world =
      (w', resp, err)" by (metis prod_cases3)
  have k: "Run_Create (ce_fault deleting_env CsCreate) (new_run sample_source (ce_now deleting_env AtStart))
     (cw_runs sample_collect_world) = (?t, Inr sample_run)" "tx_definite (ce_tx deleting_env site)" for site
    using sample_run_created sample_tx_definite(2) by (simp_all add: deleting_env_def)
  have d: "ce_during deleting_env (sample_collect_world\<lparr>cw_runs := ?t\<rparr>) =
      set_sources \<lparr>rows = [mark_deleted 4 sample_source], seq = 1\<rparr> (sample_collect_world\<lparr>cw_runs := ?t\<rparr>)"
    by (simp add: deleting_env_def)
  have i: "wf_table run_id (cw_runs sample_collect_world)" by (simp add: sample_collect_world_def)
  have n: "find_row (source_visible (so_user_id sample_source) (so_id sample_source))
      \<lparr>rows = [mark_deleted 4 sample_source], seq = 1\<rparr> = None"
    by (simp add: find_row_def source_visible_def)
  have f: "fst (sample_collector sample_source) = sample_source\<lparr>so_config_json := JsonText (JObj [(''last_seen_uid'', JNum 4)])\<rparr>"
    by (simp add: sample_collector_def)
  from collection_of_deleted_source_stays_running [OF sample_tx_definite(1) k(2) k(2) k(1) d i n f c]
  show ?thesis by (simp add: c sample_run_def)
qed

definition stale_world :: collect_world where
  "stale_world = sample_collect_world\<lparr>cw_runs := \<lparr>rows = [sample_run], seq = 1\<rparr>\<rparr>"

definition later_env :: collect_env where
  "later_env = sample_collect_env\<lparr>ce_now := (\<lambda>_. 31 * minute)\<rparr>"

theorem stale_runs_failed_witness:
  "\<exists>w' src'. markStaleRunningRunsFailed sample_service later_env sample_source stale_world = (w', Inr src') \<and>
     map run_status (rows (cw_runs w')) = [RunStatusFailed]"
proof -
  let ?p = "\<lparr>ms_source_id = 1, ms_started_before = 60000000000, ms_finished_at = 31 * minute,
      ms_error_message = ''collection run timed out after '' @ duration_text (30 * minute)\<rparr>"
  have cs: "cs_stale_timeout sample_service = 30 * minute" "cs_has_tx sample_service" "cs_source_cache sample_service = None"
    by (simp_all add: sample_service_def NewCollectionService_def WithTransactionRunner_def WithCollectionLock_def
        defaultStaleRunTimeout_def)
  have env: "ce_now later_env = (\<lambda>_. 31 * minute)" "ce_fault later_env = no_faults" "ce_tx later_env = (\<lambda>_. TxCommits)"
    by (simp_all add: later_env_def sample_collect_env_def)
  have st: "run_stale ?p sample_run" by (simp add: run_stale_def sample_run_def new_run_def sample_source_def)
  have "\<exists>t. Source_Update None (set_fetched 1860000000000 ''failed'' msg sample_source) (cw_sources stale_world) = (t, Inr ())" for msg
    by (simp add: Source_Update_def Let_def source_clash_def stale_world_def sample_collect_world_def before_saving_def
        sample_source_world_def find_row_def count_rows_0 source_visible_def sample_source_def set_fetched_def)
  then obtain t where u: "Source_Update None (set_fetched 1860000000000 ''failed'' (ms_error_message ?p) sample_source) (cw_sources stale_world) = (t, Inr ())"
    by blast
  have c: "count_rows (run_stale ?p) (cw_runs stale_world) = 1"
    using st by (simp add: count_rows_def select_rows_def stale_world_def)
  have "stale_body sample_service later_env sample_source stale_world =
      (set_sources t (stale_world\<lparr>cw_runs := update_rows (run_stale ?p) (run_timed_out ?p) (cw_runs stale_world)\<rparr>), (),
       Inr (1, set_fetched 1860000000000 ''failed'' (ms_error_message ?p) sample_source))"
    using u c by (simp add: stale_body_def cs env Let_def time_add_def Run_MarkStaleRunningFailed_def)
      (simp add: sample_source_def Let_def)
  then obtain w' src' where m: "markStaleRunningRunsFailed sample_service later_env sample_source stale_world = (w', Inr src')"
    by (simp add: markStaleRunningRunsFailed_def RunInTransaction_def cs env invalidateSourceListCache_def)
  have "0 < cs_stale_timeout sample_service" by (simp add: cs)
  from stale_runs_failed [OF this m refl, THEN conjunct1]
  have "rows (cw_runs w') = map (\<lambda>r. if run_stale ?p r then run_timed_out ?p r else r) [sample_run]"
    by (simp add: cs env stale_world_def) (simp add: sample_source_def)
  with st have "map run_status (rows (cw_runs w')) = [RunStatusFailed]" by (simp add: run_timed_out_def)
  with m show ?thesis by (intro exI conjI)
qed

end
