(* ===== verification/Collectors.thy ===== *)
theory Collectors
  imports Rss_Collector Email_Cursor Imap_Session Collection_Runs
begin

section \<open>The collectors in the collection service\<close>

text \<open>
  The registry of the two collectors as the server builds it (\<open>internal/app/server.go\<close>), and what
  the article service makes of the items they yield.
\<close>

text \<open>
  A collection that panics does not return: it is outside the \<^typ>\<open>collector\<close> of a registry, which
  gives the source and its result.
\<close>

definition rss_collector_of :: "(string \<Rightarrow> string) \<Rightarrow> rss_collector \<Rightarrow> collector" where
  "rss_collector_of sha256 c src = (src, snd (rss_Collect sha256 c src))"

definition email_collector_of :: "go_lib \<Rightarrow> (string \<Rightarrow> string) \<Rightarrow> mailbox_reader \<Rightarrow> collector" where
  "email_collector_of lib sha256 reader src =
     (case email_Collect lib sha256 reader src of
        None \<Rightarrow> (src, Inl (Plain ''panic''))
      | Some r \<Rightarrow> r)"

definition collectorRegistry ::
  "go_lib \<Rightarrow> (string \<Rightarrow> string) \<Rightarrow> rss_collector \<Rightarrow> mailbox_reader \<Rightarrow> (string \<rightharpoonup> collector) result" where
  "collectorRegistry lib sha256 c reader =
     NewRegistry [Some (rss_Type, rss_collector_of sha256 c), Some (email_Type, email_collector_of lib sha256 reader)]"

lemma collectorRegistry_ok:
  "\<exists>r. collectorRegistry lib sha256 c reader = Inr r \<and> r TypeRSS = Some (rss_collector_of sha256 c) \<and>
     r TypeEmail = Some (email_collector_of lib sha256 reader) \<and> dom r = {TypeRSS, TypeEmail}"
  by (auto simp: collectorRegistry_def NewRegistry_def rss_Type_def email_Type_def)

definition storable :: "source \<Rightarrow> collected_item \<Rightarrow> bool" where
  "storable src item \<longleftrightarrow>
     item_user_id item = so_user_id src \<and> item_source_id item = so_id src \<and> item_source_type item = so_type src \<and>
     trim_space (item_title item) \<noteq> '''' \<and> trim_space (item_content_hash item) \<noteq> ''''"

lemma storable_toArticle:
  assumes "storable src item" "0 < so_id src" "trim_space (so_type src) \<noteq> ''''"
  shows "\<exists>a. toArticle now item = Inr a"
  using assms by (auto simp: storable_def toArticle_def Let_def)

lemma rss_item_storable:
  assumes "\<And>s. sha256 s \<noteq> ''''" "rss_toCollectedItem sha256 src entry = Some item"
  shows "storable src item"
  using assms(2) trim_hex_encode [OF assms(1)]
  by (auto simp: storable_def rss_toCollectedItem_def Let_def rss_computeContentHash_def split: option.splits if_splits)

lemma email_item_storable:
  assumes "\<And>s. sha256 s \<noteq> ''''" "email_toCollectedItem sha256 src msg = Some item"
  shows "storable src item"
  using assms(2) trim_hex_encode [OF assms(1)]
  by (auto simp: storable_def email_toCollectedItem_def Let_def email_computeContentHash_def split: if_splits)

lemma registry_items_storable:
  assumes "\<And>s. sha256 s \<noteq> ''''" "collectorRegistry lib sha256 c reader = Inr r" "r ty = Some coll"
    "coll src = (src', Inr items)"
  shows "list_all (storable src) items"
proof -
  have "coll = rss_collector_of sha256 c \<or> coll = email_collector_of lib sha256 reader"
    using assms(2,3) by (auto simp: collectorRegistry_def NewRegistry_def rss_Type_def email_Type_def split: if_splits)
  then show ?thesis
  proof
    assume "coll = rss_collector_of sha256 c"
    then obtain urls where "rss_Collect sha256 c src = (urls, Inr items)"
      using assms(4) by (cases "rss_Collect sha256 c src") (auto simp: rss_collector_of_def)
    then obtain entries where "items = collect_entries sha256 src entries"
      by (auto simp: rss_Collect_def Let_def split: option.splits if_splits sum.splits prod.splits)
    moreover have "list_all (storable src) (collect_entries sha256 src es)" for es
      using rss_item_storable [OF assms(1)] by (induction es) (auto split: option.splits)
    ultimately show ?thesis by simp
  next
    assume "coll = email_collector_of lib sha256 reader"
    then have run: "email_Collect lib sha256 reader src = Some (src', Inr items)"
      using assms(4) by (auto simp: email_collector_of_def split: option.splits)
    obtain cfg msgs where items:
      "items = map (the \<circ> email_toCollectedItem sha256 src) (filter (fresh_message lib cfg) msgs)"
      by (rule email_Collect_cases [OF run])
    have "storable src (the (email_toCollectedItem sha256 src msg))" if fresh: "fresh_message lib cfg msg" for msg
    proof -
      obtain item where "email_toCollectedItem sha256 src msg = Some item"
        using fresh toCollectedItem_some [of msg sha256 src] by (auto simp: fresh_message_def)
      then show ?thesis using email_item_storable [OF assms(1)] by simp
    qed
    then show ?thesis unfolding items by (auto simp: list_all_iff)
  qed
qed

lemma create_no_fault: "\<exists>t' b. Article_CreateIfNotExists None a t = (t', Inr b)"
  by (auto simp: Article_CreateIfNotExists_def Let_def split: option.splits prod.splits)

lemma save_loop_storable:
  assumes "list_all (storable src) items" "0 < so_id src" "trim_space (so_type src) \<noteq> ''''"
  shows "\<exists>t' acc' users'. save_loop (\<lambda>_. None) clock i items acc users t = (t', Inr (acc', users'))"
  using assms(1)
proof (induction items arbitrary: i acc users t)
  case (Cons item items)
  obtain a where a: "toArticle (clock i) item = Inr a"
    using storable_toArticle [OF _ assms(2,3)] Cons.prems by auto
  obtain t' b where b: "Article_CreateIfNotExists None a t = (t', Inr b)" using create_no_fault by blast
  show ?case using a b Cons by (cases b) auto
qed simp

text \<open>
  C28. What the registered collectors yield, the article service stores: no item of a successful
  collection of a feed or a mailbox is refused as invalid, and without a fault of the database
  saving the whole batch succeeds.
\<close>

theorem collected_items_are_stored:
  assumes "\<And>s. sha256 s \<noteq> ''''" "collectorRegistry lib sha256 c reader = Inr r" "r (so_type src) = Some coll"
    "coll src = (src', Inr items)" "0 < so_id src"
  shows "\<exists>w' res. ArticleService_SaveCollectedItems cache (\<lambda>_. None) clock iter rf visited items w = (w', Inr res)"
proof -
  have "so_type src \<in> {TypeRSS, TypeEmail}"
    using assms(2,3) by (auto simp: collectorRegistry_def NewRegistry_def rss_Type_def email_Type_def split: if_splits)
  then have "trim_space (so_type src) \<noteq> ''''" by (auto simp: trim_space_visible visible_def)
  then obtain t' acc' users' where
    "save_loop (\<lambda>_. None) clock 0 items \<lparr>inserted_count = 0, duplicated_count = 0\<rparr> [] (ad_articles (xw_db w)) =
       (t', Inr (acc', users'))"
    using save_loop_storable [OF registry_items_storable [OF assms(1-4)] assms(5)] by blast
  then show ?thesis by (simp add: ArticleService_SaveCollectedItems_def)
qed

theorem collected_items_are_stored_witness:
  "\<exists>items w' res. rss_collector_of (\<lambda>_. ''h'') sample_rss_collector sample_feed_source = (sample_feed_source, Inr items) \<and>
     ArticleService_SaveCollectedItems None (\<lambda>_. None) (\<lambda>_. 5) id (\<lambda>_. redis_ok) (\<lambda>_. []) items before_saving = (w', Inr res)"
proof -
  obtain r where r: "collectorRegistry sample_lib (\<lambda>_. ''h'') sample_rss_collector sample_mail_reader = Inr r"
    "r TypeRSS = Some (rss_collector_of (\<lambda>_. ''h'') sample_rss_collector)"
    using collectorRegistry_ok by blast
  have t: "trim_space ''a'' = ''a''" by (simp add: trim_space_visible visible_def)
  have c: "rc_fetcher sample_rss_collector = HTTPFetcher_Fetch sample_http_env"
    "rc_parser sample_rss_collector b = Inr [None, Some sample_entry]" for b
    by (simp_all add: sample_rss_collector_def rss_NewCollector_def WithMaxFeedSize_def)
  obtain items where run: "rss_collector_of (\<lambda>_. ''h'') sample_rss_collector sample_feed_source = (sample_feed_source, Inr items)"
    by (simp add: rss_collector_of_def rss_Collect_def c t sample_fetch Let_def sample_feed_source_def del: collect_entries.simps)
  have ty: "r (so_type sample_feed_source) = Some (rss_collector_of (\<lambda>_. ''h'') sample_rss_collector)" "0 < so_id sample_feed_source"
    using r(2) by (simp_all add: sample_feed_source_def)
  have "\<exists>w' res. ArticleService_SaveCollectedItems None (\<lambda>_. None) (\<lambda>_. 5) id (\<lambda>_. redis_ok) (\<lambda>_. []) items before_saving = (w', Inr res)"
    by (rule collected_items_are_stored [OF _ r(1) ty(1) run ty(2)]) simp
  with run show ?thesis by blast
qed

end
