(* ===== verification/AI_Store.thy ===== *)
theory AI_Store
  imports Article_Store
begin

section \<open>The tables of the AI features\<close>

text \<open>
  \<open>model.go\<close> and \<open>repository.go\<close> of \<open>internal/module/ai\<close>: the queue of article summaries, the
  embeddings of articles, the daily digests and the users' AI settings, each with its upsert.
  An upsert and the read that follows it are two statements: \<open>env\<close> is what other processes
  commit in between. A row that breaks a column's width or a foreign key makes its statement
  fail, which is one of the outcomes a \<open>faults\<close> argument can give.
\<close>

definition StatusPending :: string where "StatusPending = ''pending''"
definition StatusProcessing :: string where "StatusProcessing = ''processing''"
definition StatusSucceeded :: string where "StatusSucceeded = ''succeeded''"
definition StatusFailed :: string where "StatusFailed = ''failed''"

lemmas ai_status_defs = StatusPending_def StatusProcessing_def StatusSucceeded_def StatusFailed_def

definition DefaultSummaryModel :: string where "DefaultSummaryModel = ''contentflow-extractive-v1''"
definition DefaultSummaryPrompt :: string where "DefaultSummaryPrompt = ''summary-v1''"
definition DefaultEmbeddingModel :: string where "DefaultEmbeddingModel = ''contentflow-hash-embedding-v1''"
definition DefaultEmbeddingVersion :: string where "DefaultEmbeddingVersion = ''embedding-v1''"
definition DefaultEmbeddingDimension :: int where "DefaultEmbeddingDimension = 16"
definition DefaultDigestPrompt :: string where "DefaultDigestPrompt = ''digest-v1''"
definition DefaultRAGPrompt :: string where "DefaultRAGPrompt = ''rag-v1''"

record article_summary =
  sm_id :: int
  sm_user_id :: int
  sm_article_id :: int
  sm_model :: string
  sm_prompt_version :: string
  sm_summary :: string
  sm_status :: string
  sm_attempts :: int
  sm_next_attempt_at :: time
  sm_error_message :: string
  sm_created_at :: time
  sm_updated_at :: time

record article_embedding =
  ae_id :: int
  ae_user_id :: int
  ae_article_id :: int
  ae_model :: string
  ae_version :: string
  ae_dimensions :: int
  ae_embedding_json :: json
  ae_content_hash :: string
  ae_created_at :: time
  ae_updated_at :: time

record daily_digest =
  dd_id :: int
  dd_user_id :: int
  dd_digest_date :: time
  dd_model :: string
  dd_prompt_version :: string
  dd_summary :: string
  dd_article_ids :: json
  dd_status :: string
  dd_error_message :: string
  dd_created_at :: time
  dd_updated_at :: time

text \<open>
  The ciphertext and the nonce of a key are byte strings; nil and the empty one are not told
  apart by the program.
\<close>

record user_ai_settings =
  ui_id :: int
  ui_user_id :: int
  ui_provider :: string
  ui_base_url :: string
  ui_model :: string
  ui_embedding_model :: string
  ui_api_key_ciphertext :: string
  ui_api_key_nonce :: string
  ui_created_at :: time
  ui_updated_at :: time

record 'f embedding_record =
  er_id :: int
  er_user_id :: int
  er_article_id :: int
  er_model :: string
  er_version :: string
  er_dimensions :: int
  er_embedding :: "'f list"
  er_content_hash :: string
  er_created_at :: time
  er_updated_at :: time

record digest_record =
  dr_id :: int
  dr_user_id :: int
  dr_digest_date :: time
  dr_model :: string
  dr_prompt_version :: string
  dr_summary :: string
  dr_article_ids :: "int list"
  dr_status :: string
  dr_error_message :: string
  dr_created_at :: time
  dr_updated_at :: time

record ai_db =
  ai_articles :: article_db
  ai_summaries :: "article_summary table"
  ai_embeddings :: "article_embedding table"
  ai_digests :: "daily_digest table"
  ai_settings :: "user_ai_settings table"

text \<open>
  Floating point is outside the model: \<open>float64\<close> values are of a type \<open>'f\<close> with the operations
  the package uses on them and their JSON form (\<open>None\<close> for the values that \<open>json.Marshal\<close>
  refuses).
\<close>

record 'f float_ops =
  fo_of_nat :: "nat \<Rightarrow> 'f"
  fo_add :: "'f \<Rightarrow> 'f \<Rightarrow> 'f"
  fo_mul :: "'f \<Rightarrow> 'f \<Rightarrow> 'f"
  fo_div :: "'f \<Rightarrow> 'f \<Rightarrow> 'f"
  fo_sqrt :: "'f \<Rightarrow> 'f"
  fo_less :: "'f \<Rightarrow> 'f \<Rightarrow> bool"
  fo_eq :: "'f \<Rightarrow> 'f \<Rightarrow> bool"
  fo_to_json :: "'f \<Rightarrow> json option"
  fo_of_json :: "json \<Rightarrow> 'f option"

abbreviation fo_zero :: "'f float_ops \<Rightarrow> 'f" where "fo_zero ops \<equiv> fo_of_nat ops 0"

datatype ai_stmt = AiWrite | AiReload

text \<open>The error of a \<open>First\<close>: no row is a sentinel of the package, any other error is wrapped.\<close>

definition first_error :: "sentinel \<Rightarrow> string \<Rightarrow> go_error \<Rightarrow> go_error" where
  "first_error s msg e = (if errors_is e GormErrRecordNotFound then Sentinel s else Wrapf msg e '''')"

text \<open>
  The join of a row with its article and the article's source, and the condition that the
  source is the user's and not deleted.
\<close>

definition article_reachable :: "article_db \<Rightarrow> int \<Rightarrow> int \<Rightarrow> bool" where
  "article_reachable db uid aid \<longleftrightarrow>
     find_row (\<lambda>a. ar_id a = aid \<and> article_owned (ad_sources db) uid a) (ad_articles db) \<noteq> None"


subsection \<open>The queue of summaries\<close>

record enqueue_summary_params =
  en_user_id :: int
  en_article_id :: int
  en_model :: string
  en_prompt_version :: string
  en_now :: time
  en_regenerate :: bool

definition summary_selected :: "article_db \<Rightarrow> int \<Rightarrow> int \<Rightarrow> string \<Rightarrow> article_summary \<Rightarrow> bool" where
  "summary_selected db uid aid prompt s \<longleftrightarrow>
     sm_user_id s = uid \<and> sm_article_id s = aid \<and> sm_prompt_version s = prompt \<and>
     article_reachable db uid (sm_article_id s)"

definition FindSummary ::
  "go_error option \<Rightarrow> int \<Rightarrow> int \<Rightarrow> string \<Rightarrow> ai_db \<Rightarrow> article_summary result" where
  "FindSummary fault uid aid prompt db =
     (case fault of
        Some e \<Rightarrow> Inl (first_error ErrSummaryNotFound ''find article summary: '' e)
      | None \<Rightarrow>
        (case find_row (summary_selected (ai_articles db) uid aid prompt) (ai_summaries db) of
           None \<Rightarrow> Inl (Sentinel ErrSummaryNotFound)
         | Some s \<Rightarrow> Inr s))"

definition new_summary :: "enqueue_summary_params \<Rightarrow> int \<Rightarrow> article_summary" where
  "new_summary p i =
     \<lparr>sm_id = i, sm_user_id = en_user_id p, sm_article_id = en_article_id p, sm_model = en_model p,
      sm_prompt_version = en_prompt_version p, sm_summary = '''', sm_status = StatusPending, sm_attempts = 0,
      sm_next_attempt_at = en_now p, sm_error_message = '''', sm_created_at = en_now p,
      sm_updated_at = en_now p\<rparr>"

definition summary_assignments :: "enqueue_summary_params \<Rightarrow> article_summary \<Rightarrow> article_summary" where
  "summary_assignments p s =
     (let s1 = s\<lparr>sm_model := en_model p, sm_status := StatusPending, sm_next_attempt_at := en_now p,
                 sm_error_message := '''', sm_updated_at := en_now p\<rparr>
      in if en_regenerate p then s1\<lparr>sm_summary := '''', sm_attempts := 0\<rparr> else s1)"

definition same_summary :: "int \<Rightarrow> string \<Rightarrow> article_summary \<Rightarrow> bool" where
  "same_summary aid prompt s \<longleftrightarrow> sm_article_id s = aid \<and> sm_prompt_version s = prompt"

definition upsert_summary :: "enqueue_summary_params \<Rightarrow> article_summary table \<Rightarrow> article_summary table" where
  "upsert_summary p t =
     (let P = same_summary (en_article_id p) (en_prompt_version p) in
      if find_row P t = None then insert_row (new_summary p) t
      else burn_seq (update_rows P (summary_assignments p) t))"

definition EnqueueSummary ::
  "ai_stmt faults \<Rightarrow> (ai_db \<Rightarrow> ai_db) \<Rightarrow> enqueue_summary_params \<Rightarrow> ai_db \<Rightarrow> ai_db \<times> article_summary result" where
  "EnqueueSummary fault env p db =
     (case fault AiWrite of
        Some e \<Rightarrow> (db, Inl (Wrapf ''enqueue article summary: '' e ''''))
      | None \<Rightarrow>
        (let db' = env (db\<lparr>ai_summaries := upsert_summary p (ai_summaries db)\<rparr>) in
         (db', FindSummary (fault AiReload) (en_user_id p) (en_article_id p) (en_prompt_version p) db')))"

text \<open>
  The claim is a transaction. \<open>busy\<close> are the ids of the rows that other transactions hold locks
  on (\<open>SKIP LOCKED\<close>). The row is read again after the commit.
\<close>

datatype claim_summary_stmt = SumSelect | SumUpdate | SumCommit | SumReload

definition summary_claimable :: "time \<Rightarrow> int \<Rightarrow> article_summary \<Rightarrow> bool" where
  "summary_claimable now maxAttempts s \<longleftrightarrow>
     sm_status s \<in> {StatusPending, StatusFailed} \<and> sm_next_attempt_at s \<le> now \<and> sm_attempts s < maxAttempts"

definition summary_claimed :: "time \<Rightarrow> article_summary \<Rightarrow> article_summary" where
  "summary_claimed now s = s\<lparr>sm_status := StatusProcessing, sm_attempts := sm_attempts s + 1, sm_updated_at := now\<rparr>"

definition next_summary :: "(int \<Rightarrow> bool) \<Rightarrow> time \<Rightarrow> int \<Rightarrow> article_summary table \<Rightarrow> article_summary option" where
  "next_summary busy now maxAttempts t =
     (case sort_key (\<lambda>s. (sm_next_attempt_at s, sm_id s))
             (select_rows (\<lambda>s. summary_claimable now maxAttempts s \<and> \<not> busy (sm_id s)) t) of
        [] \<Rightarrow> None | s # _ \<Rightarrow> Some s)"

text \<open>The error of the transaction: the sentinel if it is that one, else as it is.\<close>

definition claim_error :: "go_error \<Rightarrow> go_error" where
  "claim_error e = (if errors_is e ErrNoSummaryJob then Sentinel ErrNoSummaryJob else e)"

definition ClaimNextSummary ::
  "claim_summary_stmt faults \<Rightarrow> (int \<Rightarrow> bool) \<Rightarrow> (ai_db \<Rightarrow> ai_db) \<Rightarrow> time \<Rightarrow> int \<Rightarrow> ai_db \<Rightarrow>
   ai_db \<times> article_summary result" where
  "ClaimNextSummary fault busy env now maxAttempts db =
     (case fault SumSelect of
        Some e \<Rightarrow> (db, Inl (claim_error (first_error ErrNoSummaryJob ''claim article summary: '' e)))
      | None \<Rightarrow>
        (case next_summary busy now maxAttempts (ai_summaries db) of
           None \<Rightarrow> (db, Inl (Sentinel ErrNoSummaryJob))
         | Some s \<Rightarrow>
           (case fault SumUpdate of
              Some e \<Rightarrow> (db, Inl (claim_error e))
            | None \<Rightarrow>
              (case fault SumCommit of
                 Some e \<Rightarrow> (db, Inl (claim_error e))
               | None \<Rightarrow>
                 (let db' = env (db\<lparr>ai_summaries :=
                        update_rows (\<lambda>r. sm_id r = sm_id s) (summary_claimed now) (ai_summaries db)\<rparr>) in
                  (db', FindSummary (fault SumReload) (sm_user_id s) (sm_article_id s) (sm_prompt_version s) db'))))))"

definition summary_by_id :: "string \<Rightarrow> go_error option \<Rightarrow> int \<Rightarrow> ai_db \<Rightarrow> article_summary result" where
  "summary_by_id msg fault i db =
     (case fault of
        Some e \<Rightarrow> Inl (Wrapf msg e '''')
      | None \<Rightarrow>
        (case find_row (\<lambda>s. sm_id s = i) (ai_summaries db) of
           None \<Rightarrow> Inl (Wrapf msg (Sentinel GormErrRecordNotFound) '''')
         | Some s \<Rightarrow> Inr s))"

definition summary_completed :: "string \<Rightarrow> time \<Rightarrow> article_summary \<Rightarrow> article_summary" where
  "summary_completed summaryText now s =
     s\<lparr>sm_summary := summaryText, sm_status := StatusSucceeded, sm_error_message := '''', sm_updated_at := now\<rparr>"

definition CompleteSummary ::
  "ai_stmt faults \<Rightarrow> (ai_db \<Rightarrow> ai_db) \<Rightarrow> int \<Rightarrow> string \<Rightarrow> time \<Rightarrow> ai_db \<Rightarrow> ai_db \<times> article_summary result" where
  "CompleteSummary fault env i summaryText now db =
     (case fault AiWrite of
        Some e \<Rightarrow> (db, Inl (Wrapf ''complete article summary: '' e ''''))
      | None \<Rightarrow>
        (let db' = env (db\<lparr>ai_summaries :=
               update_rows (\<lambda>s. sm_id s = i) (summary_completed summaryText now) (ai_summaries db)\<rparr>) in
         (db', summary_by_id ''reload article summary: '' (fault AiReload) i db')))"

definition summary_failed :: "string \<Rightarrow> time \<Rightarrow> time \<Rightarrow> article_summary \<Rightarrow> article_summary" where
  "summary_failed errMessage nextAttemptAt now s =
     s\<lparr>sm_status := StatusFailed, sm_error_message := errMessage, sm_next_attempt_at := nextAttemptAt,
       sm_updated_at := now\<rparr>"

definition FailSummary ::
  "ai_stmt faults \<Rightarrow> (ai_db \<Rightarrow> ai_db) \<Rightarrow> int \<Rightarrow> string \<Rightarrow> time \<Rightarrow> time \<Rightarrow> ai_db \<Rightarrow>
   ai_db \<times> article_summary result" where
  "FailSummary fault env i errMessage nextAttemptAt now db =
     (case fault AiWrite of
        Some e \<Rightarrow> (db, Inl (Wrapf ''fail article summary: '' e ''''))
      | None \<Rightarrow>
        (let db' = env (db\<lparr>ai_summaries :=
               update_rows (\<lambda>s. sm_id s = i) (summary_failed errMessage nextAttemptAt now) (ai_summaries db)\<rparr>) in
         (db', summary_by_id ''reload failed article summary: '' (fault AiReload) i db')))"

subsection \<open>Embeddings\<close>

record 'f upsert_embedding_params =
  ue_user_id :: int
  ue_article_id :: int
  ue_model :: string
  ue_version :: string
  ue_dimensions :: int
  ue_embedding :: "'f list"
  ue_content_hash :: string
  ue_now :: time

definition marshal_vector :: "'f float_ops \<Rightarrow> 'f list \<Rightarrow> json option" where
  "marshal_vector ops v = map_option JArr (those (map (fo_to_json ops) v))"

definition dec_float :: "'f float_ops \<Rightarrow> json \<Rightarrow> 'f option" where
  "dec_float ops j = (if j = JNull then Some (fo_zero ops) else fo_of_json ops j)"

fun unmarshal_vector :: "'f float_ops \<Rightarrow> json \<Rightarrow> 'f list option" where
  "unmarshal_vector ops (JArr js) = those (map (dec_float ops) js)"
| "unmarshal_vector ops JNull = Some []"
| "unmarshal_vector ops _ = None"

definition embeddingModelToRecord :: "'f float_ops \<Rightarrow> article_embedding \<Rightarrow> 'f embedding_record result" where
  "embeddingModelToRecord ops m =
     (case unmarshal_vector ops (ae_embedding_json m) of
        None \<Rightarrow> Inl (Wrapf ''unmarshal embedding: '' (Plain ''json: cannot unmarshal'') '''')
      | Some vector \<Rightarrow> Inr
          \<lparr>er_id = ae_id m, er_user_id = ae_user_id m, er_article_id = ae_article_id m, er_model = ae_model m,
           er_version = ae_version m, er_dimensions = ae_dimensions m, er_embedding = vector,
           er_content_hash = ae_content_hash m, er_created_at = ae_created_at m, er_updated_at = ae_updated_at m\<rparr>)"

definition FindEmbedding ::
  "'f float_ops \<Rightarrow> go_error option \<Rightarrow> int \<Rightarrow> int \<Rightarrow> string \<Rightarrow> string \<Rightarrow> ai_db \<Rightarrow> 'f embedding_record result" where
  "FindEmbedding ops fault uid aid modelName version db =
     (case fault of
        Some e \<Rightarrow> Inl (first_error ErrEmbeddingNotFound ''find article embedding: '' e)
      | None \<Rightarrow>
        (case find_row (\<lambda>m. ae_user_id m = uid \<and> ae_article_id m = aid \<and> ae_model m = modelName \<and>
                 ae_version m = version \<and> article_reachable (ai_articles db) uid (ae_article_id m))
               (ai_embeddings db) of
           None \<Rightarrow> Inl (Sentinel ErrEmbeddingNotFound)
         | Some m \<Rightarrow> embeddingModelToRecord ops m))"

definition new_embedding :: "'f upsert_embedding_params \<Rightarrow> json \<Rightarrow> int \<Rightarrow> article_embedding" where
  "new_embedding p vec i =
     \<lparr>ae_id = i, ae_user_id = ue_user_id p, ae_article_id = ue_article_id p, ae_model = ue_model p,
      ae_version = ue_version p, ae_dimensions = ue_dimensions p, ae_embedding_json = vec,
      ae_content_hash = ue_content_hash p, ae_created_at = ue_now p, ae_updated_at = ue_now p\<rparr>"

definition embedding_assignments :: "'f upsert_embedding_params \<Rightarrow> json \<Rightarrow> article_embedding \<Rightarrow> article_embedding" where
  "embedding_assignments p vec m =
     m\<lparr>ae_dimensions := ue_dimensions p, ae_embedding_json := vec, ae_content_hash := ue_content_hash p,
       ae_updated_at := ue_now p\<rparr>"

definition upsert_embedding_row ::
  "'f upsert_embedding_params \<Rightarrow> json \<Rightarrow> article_embedding table \<Rightarrow> article_embedding table" where
  "upsert_embedding_row p vec t =
     (let P = (\<lambda>m. ae_article_id m = ue_article_id p \<and> ae_model m = ue_model p \<and> ae_version m = ue_version p) in
      if find_row P t = None then insert_row (new_embedding p vec) t
      else burn_seq (update_rows P (embedding_assignments p vec) t))"

definition UpsertEmbedding ::
  "'f float_ops \<Rightarrow> ai_stmt faults \<Rightarrow> (ai_db \<Rightarrow> ai_db) \<Rightarrow> 'f upsert_embedding_params \<Rightarrow> ai_db \<Rightarrow>
   ai_db \<times> 'f embedding_record result" where
  "UpsertEmbedding ops fault env p db =
     (case marshal_vector ops (ue_embedding p) of
        None \<Rightarrow> (db, Inl (Wrapf ''marshal embedding: '' (Plain ''json: unsupported value'') ''''))
      | Some vec \<Rightarrow>
        (case fault AiWrite of
           Some e \<Rightarrow> (db, Inl (Wrapf ''upsert article embedding: '' e ''''))
         | None \<Rightarrow>
           (let db' = env (db\<lparr>ai_embeddings := upsert_embedding_row p vec (ai_embeddings db)\<rparr>) in
            (db', FindEmbedding ops (fault AiReload) (ue_user_id p) (ue_article_id p) (ue_model p) (ue_version p) db'))))"

fun embedding_records :: "'f float_ops \<Rightarrow> article_embedding list \<Rightarrow> 'f embedding_record list result" where
  "embedding_records ops [] = Inr []"
| "embedding_records ops (m # ms) =
     (case embeddingModelToRecord ops m of
        Inl e \<Rightarrow> Inl e
      | Inr r \<Rightarrow> (case embedding_records ops ms of Inl e \<Rightarrow> Inl e | Inr rs \<Rightarrow> Inr (r # rs)))"

definition ListEmbeddingsByUser ::
  "'f float_ops \<Rightarrow> go_error option \<Rightarrow> int \<Rightarrow> string \<Rightarrow> string \<Rightarrow> int \<Rightarrow> ai_db \<Rightarrow> 'f embedding_record list result" where
  "ListEmbeddingsByUser ops fault uid modelName version limit db =
     (let models = sort_key (\<lambda>m. - ae_updated_at m)
            (select_rows (\<lambda>m. ae_user_id m = uid \<and> ae_model m = modelName \<and> ae_version m = version \<and>
                article_reachable (ai_articles db) uid (ae_article_id m)) (ai_embeddings db));
          limited = (if limit > 0 then take (nat limit) models else models) in
      case fault of
        Some e \<Rightarrow> Inl (Wrapf ''list article embeddings: '' e '''')
      | None \<Rightarrow> embedding_records ops limited)"


subsection \<open>Digests\<close>

record upsert_digest_params =
  ud_user_id :: int
  ud_digest_date :: time
  ud_model :: string
  ud_prompt_version :: string
  ud_summary :: string
  ud_article_ids :: "int list"
  ud_now :: time

text \<open>\<open>normalizeDate\<close> of a time in UTC; the days are counted from 1 January of year 1.\<close>

definition normalizeDate :: "time \<Rightarrow> time" where
  "normalizeDate t = t - t mod (86400 * second)"

fun dec_ids :: "json \<Rightarrow> int list option" where
  "dec_ids (JArr js) = those (map (\<lambda>j. dec_int j 0) js)"
| "dec_ids JNull = Some []"
| "dec_ids _ = None"

definition digestModelToRecord :: "daily_digest \<Rightarrow> digest_record result" where
  "digestModelToRecord m =
     (case dec_ids (dd_article_ids m) of
        None \<Rightarrow> Inl (Wrapf ''unmarshal digest article ids: '' (Plain ''json: cannot unmarshal'') '''')
      | Some ids \<Rightarrow> Inr
          \<lparr>dr_id = dd_id m, dr_user_id = dd_user_id m, dr_digest_date = dd_digest_date m, dr_model = dd_model m,
           dr_prompt_version = dd_prompt_version m, dr_summary = dd_summary m, dr_article_ids = ids,
           dr_status = dd_status m, dr_error_message = dd_error_message m, dr_created_at = dd_created_at m,
           dr_updated_at = dd_updated_at m\<rparr>)"

definition same_digest :: "int \<Rightarrow> time \<Rightarrow> string \<Rightarrow> daily_digest \<Rightarrow> bool" where
  "same_digest uid date prompt m \<longleftrightarrow>
     dd_user_id m = uid \<and> dd_digest_date m = normalizeDate date \<and> dd_prompt_version m = prompt"

definition FindDigest :: "go_error option \<Rightarrow> int \<Rightarrow> time \<Rightarrow> string \<Rightarrow> ai_db \<Rightarrow> digest_record result" where
  "FindDigest fault uid digestDate prompt db =
     (case fault of
        Some e \<Rightarrow> Inl (first_error ErrDigestNotFound ''find daily digest: '' e)
      | None \<Rightarrow>
        (case find_row (same_digest uid digestDate prompt) (ai_digests db) of
           None \<Rightarrow> Inl (Sentinel ErrDigestNotFound)
         | Some m \<Rightarrow> digestModelToRecord m))"

definition new_digest :: "upsert_digest_params \<Rightarrow> int \<Rightarrow> daily_digest" where
  "new_digest p i =
     \<lparr>dd_id = i, dd_user_id = ud_user_id p, dd_digest_date = normalizeDate (ud_digest_date p), dd_model = ud_model p,
      dd_prompt_version = ud_prompt_version p, dd_summary = ud_summary p,
      dd_article_ids = JArr (map JNum (ud_article_ids p)), dd_status = StatusSucceeded, dd_error_message = '''',
      dd_created_at = ud_now p, dd_updated_at = ud_now p\<rparr>"

definition digest_assignments :: "upsert_digest_params \<Rightarrow> daily_digest \<Rightarrow> daily_digest" where
  "digest_assignments p m =
     m\<lparr>dd_model := ud_model p, dd_summary := ud_summary p, dd_article_ids := JArr (map JNum (ud_article_ids p)),
       dd_status := StatusSucceeded, dd_error_message := '''', dd_updated_at := ud_now p\<rparr>"

definition upsert_digest_row :: "upsert_digest_params \<Rightarrow> daily_digest table \<Rightarrow> daily_digest table" where
  "upsert_digest_row p t =
     (let P = same_digest (ud_user_id p) (ud_digest_date p) (ud_prompt_version p) in
      if find_row P t = None then insert_row (new_digest p) t
      else burn_seq (update_rows P (digest_assignments p) t))"

definition UpsertDigest ::
  "ai_stmt faults \<Rightarrow> (ai_db \<Rightarrow> ai_db) \<Rightarrow> upsert_digest_params \<Rightarrow> ai_db \<Rightarrow> ai_db \<times> digest_record result" where
  "UpsertDigest fault env p db =
     (case fault AiWrite of
        Some e \<Rightarrow> (db, Inl (Wrapf ''upsert daily digest: '' e ''''))
      | None \<Rightarrow>
        (let db' = env (db\<lparr>ai_digests := upsert_digest_row p (ai_digests db)\<rparr>) in
         (db', FindDigest (fault AiReload) (ud_user_id p) (ud_digest_date p) (ud_prompt_version p) db')))"


subsection \<open>Settings\<close>

record upsert_ai_settings_params =
  us_settings_user_id :: int
  us_settings_provider :: string
  us_settings_base_url :: string
  us_settings_model :: string
  us_settings_embedding_model :: string
  us_settings_ciphertext :: string
  us_settings_nonce :: string
  us_settings_now :: time

text \<open>\<open>aiSettingsModelToRecord\<close> copies the row field by field: the record is the row.\<close>

definition aiSettingsModelToRecord :: "user_ai_settings \<Rightarrow> user_ai_settings" where
  "aiSettingsModelToRecord m =
     \<lparr>ui_id = ui_id m, ui_user_id = ui_user_id m, ui_provider = ui_provider m, ui_base_url = ui_base_url m,
      ui_model = ui_model m, ui_embedding_model = ui_embedding_model m,
      ui_api_key_ciphertext = ui_api_key_ciphertext m, ui_api_key_nonce = ui_api_key_nonce m,
      ui_created_at = ui_created_at m, ui_updated_at = ui_updated_at m\<rparr>"

definition FindAISettings :: "go_error option \<Rightarrow> int \<Rightarrow> ai_db \<Rightarrow> user_ai_settings result" where
  "FindAISettings fault uid db =
     (case fault of
        Some e \<Rightarrow> Inl (first_error ErrAISettingsNotFound ''find ai settings: '' e)
      | None \<Rightarrow>
        (case find_row (\<lambda>m. ui_user_id m = uid) (ai_settings db) of
           None \<Rightarrow> Inl (Sentinel ErrAISettingsNotFound)
         | Some m \<Rightarrow> Inr (aiSettingsModelToRecord m)))"

definition new_ai_settings :: "upsert_ai_settings_params \<Rightarrow> int \<Rightarrow> user_ai_settings" where
  "new_ai_settings p i =
     \<lparr>ui_id = i, ui_user_id = us_settings_user_id p, ui_provider = us_settings_provider p,
      ui_base_url = us_settings_base_url p, ui_model = us_settings_model p,
      ui_embedding_model = us_settings_embedding_model p, ui_api_key_ciphertext = us_settings_ciphertext p,
      ui_api_key_nonce = us_settings_nonce p, ui_created_at = us_settings_now p, ui_updated_at = us_settings_now p\<rparr>"

definition ai_settings_assignments :: "upsert_ai_settings_params \<Rightarrow> user_ai_settings \<Rightarrow> user_ai_settings" where
  "ai_settings_assignments p m =
     m\<lparr>ui_provider := us_settings_provider p, ui_base_url := us_settings_base_url p, ui_model := us_settings_model p,
       ui_embedding_model := us_settings_embedding_model p, ui_api_key_ciphertext := us_settings_ciphertext p,
       ui_api_key_nonce := us_settings_nonce p, ui_updated_at := us_settings_now p\<rparr>"

definition upsert_ai_settings_row ::
  "upsert_ai_settings_params \<Rightarrow> user_ai_settings table \<Rightarrow> user_ai_settings table" where
  "upsert_ai_settings_row p t =
     (let P = (\<lambda>m. ui_user_id m = us_settings_user_id p) in
      if find_row P t = None then insert_row (new_ai_settings p) t
      else burn_seq (update_rows P (ai_settings_assignments p) t))"

definition UpsertAISettings ::
  "ai_stmt faults \<Rightarrow> (ai_db \<Rightarrow> ai_db) \<Rightarrow> upsert_ai_settings_params \<Rightarrow> ai_db \<Rightarrow> ai_db \<times> user_ai_settings result" where
  "UpsertAISettings fault env p db =
     (case fault AiWrite of
        Some e \<Rightarrow> (db, Inl (Wrapf ''upsert ai settings: '' e ''''))
      | None \<Rightarrow>
        (let db' = env (db\<lparr>ai_settings := upsert_ai_settings_row p (ai_settings db)\<rparr>) in
         (db', FindAISettings (fault AiReload) (us_settings_user_id p) db')))"

end
