(* ===== verification/AI_Queue.thy ===== *)
theory AI_Queue
  imports AI_Store
begin

section \<open>The summary queue and the keyed tables\<close>

text \<open>
  What the tables of the AI features hold under every operation, and the life of a row of the
  summary queue: how often it can be claimed, by how many workers at a time, and when never again.
\<close>

subsection \<open>One row for each key\<close>

definition summary_key :: "article_summary \<Rightarrow> int \<times> string" where
  "summary_key s = (sm_article_id s, sm_prompt_version s)"

definition embedding_key :: "article_embedding \<Rightarrow> int \<times> string \<times> string" where
  "embedding_key m = (ae_article_id m, ae_model m, ae_version m)"

definition digest_key :: "daily_digest \<Rightarrow> int \<times> time \<times> string" where
  "digest_key m = (dd_user_id m, dd_digest_date m, dd_prompt_version m)"

lemma same_summary_key: "same_summary aid prompt = (\<lambda>s. summary_key s = (aid, prompt))"
  by (simp add: fun_eq_iff same_summary_def summary_key_def)

lemma same_digest_key: "same_digest uid date prompt = (\<lambda>m. digest_key m = (uid, normalizeDate date, prompt))"
  by (simp add: fun_eq_iff same_digest_def digest_key_def)

lemma summary_row_simps [simp]:
  "sm_id (new_summary p i) = i" "summary_key (new_summary p i) = (en_article_id p, en_prompt_version p)"
  "sm_id (summary_assignments p s) = sm_id s" "summary_key (summary_assignments p s) = summary_key s"
  "sm_id (summary_claimed now s) = sm_id s" "summary_key (summary_claimed now s) = summary_key s"
  "sm_id (summary_completed txt' now s) = sm_id s" "summary_key (summary_completed txt' now s) = summary_key s"
  "sm_id (summary_failed msg nxt now s) = sm_id s" "summary_key (summary_failed msg nxt now s) = summary_key s"
  by (simp_all add: summary_key_def new_summary_def summary_assignments_def summary_claimed_def
      summary_completed_def summary_failed_def Let_def)

interpretation sq: upserts sm_id summary_key "\<lambda>p. (en_article_id p, en_prompt_version p)" new_summary
  summary_assignments upsert_summary
  by unfold_locales (simp_all add: upsert_summary_def same_summary_key Let_def)

interpretation ems: upserts ae_id embedding_key "\<lambda>(p, vec). (ue_article_id p, ue_model p, ue_version p)"
  "\<lambda>(p, vec). new_embedding p vec" "\<lambda>(p, vec). embedding_assignments p vec" "\<lambda>(p, vec). upsert_embedding_row p vec"
  by unfold_locales
    (auto simp: upsert_embedding_row_def embedding_key_def new_embedding_def embedding_assignments_def Let_def
      intro!: arg_cong [where f = "\<lambda>P. find_row P _"])

interpretation dgs: upserts dd_id digest_key "\<lambda>p. (ud_user_id p, normalizeDate (ud_digest_date p), ud_prompt_version p)"
  new_digest digest_assignments upsert_digest_row
  by unfold_locales
    (simp_all add: upsert_digest_row_def same_digest_key digest_key_def new_digest_def digest_assignments_def Let_def)

interpretation ais: upserts ui_id ui_user_id us_settings_user_id new_ai_settings ai_settings_assignments
  upsert_ai_settings_row
  by unfold_locales
    (simp_all add: upsert_ai_settings_row_def new_ai_settings_def ai_settings_assignments_def Let_def)

lemma find_row_cong: "(\<And>r. r \<in> set (rows t) \<Longrightarrow> P r = Q r) \<Longrightarrow> find_row P t = find_row Q t"
  unfolding find_row_def by (rule find_cong) auto


subsection \<open>The life of a row\<close>

text \<open>
  The statements and transactions that other processes see, in the order they commit: requests,
  claims, completions and failures of summaries, and what the other modules do to the articles.
  \<open>M\<close> is the bound on the attempts that all workers are configured with.
\<close>

datatype queue_event =
    QEnqueue "ai_stmt faults" enqueue_summary_params
  | QClaim "claim_summary_stmt faults" "int \<Rightarrow> bool" time
  | QComplete "ai_stmt faults" int string time
  | QFail "ai_stmt faults" int string time time
  | QArticles article_db

fun queue_step :: "int \<Rightarrow> queue_event \<Rightarrow> ai_db \<Rightarrow> ai_db" where
  "queue_step M (QEnqueue f p) db = fst (EnqueueSummary f (\<lambda>d. d) p db)"
| "queue_step M (QClaim f busy now) db = fst (ClaimNextSummary f busy (\<lambda>d. d) now M db)"
| "queue_step M (QComplete f i s now) db = fst (CompleteSummary f (\<lambda>d. d) i s now db)"
| "queue_step M (QFail f i msg nxt now) db = fst (FailSummary f (\<lambda>d. d) i msg nxt now db)"
| "queue_step M (QArticles a) db = db\<lparr>ai_articles := a\<rparr>"

fun queue_run :: "int \<Rightarrow> queue_event list \<Rightarrow> ai_db \<Rightarrow> ai_db" where
  "queue_run M [] db = db"
| "queue_run M (ev # evs) db = queue_run M evs (queue_step M ev db)"

text \<open>The row a claim takes, if its transaction commits.\<close>

definition claim_takes :: "int \<Rightarrow> queue_event \<Rightarrow> ai_db \<Rightarrow> article_summary option" where
  "claim_takes M ev db =
     (case ev of
        QClaim f busy now \<Rightarrow>
          if f SumSelect = None \<and> f SumUpdate = None \<and> f SumCommit = None
          then next_summary busy now M (ai_summaries db) else None
      | _ \<Rightarrow> None)"

text \<open>The keys of the rows claimed in a run, in order.\<close>

fun claimed_keys :: "int \<Rightarrow> queue_event list \<Rightarrow> ai_db \<Rightarrow> (int \<times> string) list" where
  "claimed_keys M [] db = []"
| "claimed_keys M (ev # evs) db =
     (case claim_takes M ev db of None \<Rightarrow> [] | Some s \<Rightarrow> [summary_key s]) @
     claimed_keys M evs (queue_step M ev db)"

definition summary_row :: "int \<times> string \<Rightarrow> ai_db \<Rightarrow> article_summary option" where
  "summary_row k db = find_row (\<lambda>s. summary_key s = k) (ai_summaries db)"

lemma next_summary_SomeD:
  "next_summary busy now M t = Some s \<Longrightarrow> s \<in> set (rows t) \<and> summary_claimable now M s \<and> \<not> busy (sm_id s)"
proof -
  assume h: "next_summary busy now M t = Some s"
  let ?sel = "select_rows (\<lambda>s. summary_claimable now M s \<and> \<not> busy (sm_id s)) t"
  obtain ss where ss: "sort_key (\<lambda>s. (sm_next_attempt_at s, sm_id s)) ?sel = s # ss"
    using h by (auto simp: next_summary_def split: list.splits)
  have "set ?sel = set (s # ss)" by (metis set_sort ss)
  then have "s \<in> set ?sel" by simp
  then show ?thesis by (simp add: select_rows_def)
qed

lemma next_summary_None: "next_summary busy now M t = None \<longleftrightarrow>
    (\<forall>s \<in> set (rows t). summary_claimable now M s \<longrightarrow> busy (sm_id s))"
proof -
  let ?sel = "select_rows (\<lambda>s. summary_claimable now M s \<and> \<not> busy (sm_id s)) t"
  have "next_summary busy now M t = None \<longleftrightarrow> sort_key (\<lambda>s. (sm_next_attempt_at s, sm_id s)) ?sel = []"
    unfolding next_summary_def by (cases "sort_key (\<lambda>s. (sm_next_attempt_at s, sm_id s)) ?sel") simp_all
  also have "\<dots> \<longleftrightarrow> set ?sel = {}" by (simp flip: set_empty)
  also have "\<dots> \<longleftrightarrow> (\<forall>s \<in> set (rows t). summary_claimable now M s \<longrightarrow> busy (sm_id s))"
    by (auto simp: select_rows_def)
  finally show ?thesis .
qed

text \<open>The first of the rows in the order of the claims.\<close>

lemma next_summary_least:
  assumes "next_summary busy now M t = Some s" "r \<in> set (rows t)" "summary_claimable now M r" "\<not> busy (sm_id r)"
  shows "(sm_next_attempt_at s, sm_id s) \<le> (sm_next_attempt_at r, sm_id r)"
proof -
  let ?key = "\<lambda>s. (sm_next_attempt_at s, sm_id s)"
  let ?sel = "select_rows (\<lambda>s. summary_claimable now M s \<and> \<not> busy (sm_id s)) t"
  obtain ss where ss: "sort_key ?key ?sel = s # ss"
    using assms(1) by (auto simp: next_summary_def split: list.splits)
  have "r \<in> set (sort_key ?key ?sel)" using assms by (simp add: select_rows_def)
  moreover have "sorted (map ?key (s # ss))" using sorted_sort_key [of ?key ?sel] ss by simp
  ultimately show ?thesis using ss by auto
qed

lemma claim_step:
  "ai_summaries (queue_step M (QClaim f busy now) db) =
     (case claim_takes M (QClaim f busy now) db of
        None \<Rightarrow> ai_summaries db
      | Some s \<Rightarrow> update_rows (\<lambda>r. sm_id r = sm_id s) (summary_claimed now) (ai_summaries db))"
  by (auto simp: ClaimNextSummary_def claim_takes_def Let_def split: option.split)

lemma enqueue_step:
  "ai_summaries (queue_step M (QEnqueue f p) db) =
     (if f AiWrite = None then upsert_summary p (ai_summaries db) else ai_summaries db)"
  by (auto simp: EnqueueSummary_def Let_def split: option.split)

lemma complete_step:
  "ai_summaries (queue_step M (QComplete f i s now) db) =
     (if f AiWrite = None then update_rows (\<lambda>r. sm_id r = i) (summary_completed s now) (ai_summaries db)
      else ai_summaries db)"
  by (auto simp: CompleteSummary_def Let_def split: option.split)

lemma fail_step:
  "ai_summaries (queue_step M (QFail f i msg nxt now) db) =
     (if f AiWrite = None then update_rows (\<lambda>r. sm_id r = i) (summary_failed msg nxt now) (ai_summaries db)
      else ai_summaries db)"
  by (auto simp: FailSummary_def Let_def split: option.split)

lemmas queue_steps = claim_step enqueue_step complete_step fail_step

text \<open>The invariant of the queue.\<close>

definition summary_ok :: "int \<Rightarrow> article_summary \<Rightarrow> bool" where
  "summary_ok M s \<longleftrightarrow>
     sm_status s \<in> {StatusPending, StatusProcessing, StatusSucceeded, StatusFailed} \<and>
     0 \<le> sm_attempts s \<and> sm_attempts s \<le> max 0 M"

definition queue_inv :: "int \<Rightarrow> ai_db \<Rightarrow> bool" where
  "queue_inv M db \<longleftrightarrow>
     keyed_table sm_id summary_key (ai_summaries db) \<and> (\<forall>s \<in> set (rows (ai_summaries db)). summary_ok M s)"

lemma summary_ok_simps:
  "summary_ok M (new_summary p i)"
  "summary_ok M s \<Longrightarrow> summary_ok M (summary_assignments p s)"
  "summary_ok M s \<Longrightarrow> summary_ok M (summary_completed txt' now s)"
  "summary_ok M s \<Longrightarrow> summary_ok M (summary_failed msg nxt now s)"
  "summary_ok M s \<Longrightarrow> summary_claimable now' M s \<Longrightarrow> summary_ok M (summary_claimed now s)"
  by (auto simp: summary_ok_def new_summary_def summary_assignments_def summary_completed_def summary_failed_def
      summary_claimed_def summary_claimable_def Let_def)

lemma queue_inv_update:
  assumes "queue_inv M db" "\<And>r. P r \<Longrightarrow> sm_id (f r) = sm_id r \<and> summary_key (f r) = summary_key r"
    and "\<And>r. r \<in> set (rows (ai_summaries db)) \<Longrightarrow> P r \<Longrightarrow> summary_ok M (f r)"
    and "ai_summaries db' = update_rows P f (ai_summaries db)"
  shows "queue_inv M db'"
  using assms by (auto simp: queue_inv_def set_rows_update intro!: keyed_table_update)

lemma queue_inv_step: "queue_inv M db \<Longrightarrow> queue_inv M (queue_step M ev db)"
proof (cases ev)
  case (QEnqueue f p)
  assume "queue_inv M db"
  then show ?thesis unfolding QEnqueue
    by (auto simp: queue_inv_def enqueue_step sq.ups_keyed summary_ok_simps simp del: queue_step.simps
        intro: sq.ups_all [rule_format])
next
  case (QClaim f busy now)
  assume inv: "queue_inv M db"
  show ?thesis
  proof (cases "claim_takes M (QClaim f busy now) db")
    case None
    then show ?thesis using inv unfolding QClaim by (simp add: queue_inv_def claim_step del: queue_step.simps)
  next
    case (Some s)
    then have s: "s \<in> set (rows (ai_summaries db))" "summary_claimable now M s"
      by (auto simp: claim_takes_def split: if_splits dest: next_summary_SomeD)
    show ?thesis unfolding QClaim
    proof (rule queue_inv_update [OF inv])
      show "ai_summaries (queue_step M (QClaim f busy now) db) =
          update_rows (\<lambda>r. sm_id r = sm_id s) (summary_claimed now) (ai_summaries db)"
        using Some by (simp add: claim_step del: queue_step.simps)
      fix r assume "r \<in> set (rows (ai_summaries db))" "sm_id r = sm_id s"
      then have "r = s" using inv s(1) unfolding queue_inv_def by (metis keyed_table_ident)
      then show "summary_ok M (summary_claimed now r)"
        using inv s by (auto simp: queue_inv_def intro: summary_ok_simps)
    qed simp
  qed
next
  case (QComplete f i txt' now)
  assume inv: "queue_inv M db"
  show ?thesis
  proof (cases "f AiWrite")
    case None
    show ?thesis unfolding QComplete
      by (rule queue_inv_update [OF inv, where P = "\<lambda>r. sm_id r = i" and f = "summary_completed txt' now"])
        (use inv None in \<open>auto simp: complete_step queue_inv_def summary_ok_simps simp del: queue_step.simps\<close>)
  qed (use inv QComplete in \<open>simp add: queue_inv_def complete_step del: queue_step.simps\<close>)
next
  case (QFail f i msg nxt now)
  assume inv: "queue_inv M db"
  show ?thesis
  proof (cases "f AiWrite")
    case None
    show ?thesis unfolding QFail
      by (rule queue_inv_update [OF inv, where P = "\<lambda>r. sm_id r = i" and f = "summary_failed msg nxt now"])
        (use inv None in \<open>auto simp: fail_step queue_inv_def summary_ok_simps simp del: queue_step.simps\<close>)
  qed (use inv QFail in \<open>simp add: queue_inv_def fail_step del: queue_step.simps\<close>)
qed (simp add: queue_inv_def)

lemma queue_inv_run: "queue_inv M db \<Longrightarrow> queue_inv M (queue_run M evs db)"
  by (induction evs arbitrary: db) (simp_all add: queue_inv_step del: queue_step.simps)

subsection \<open>What events do to one row\<close>

fun summary_request :: "int \<times> string \<Rightarrow> queue_event \<Rightarrow> bool" where
  "summary_request k (QEnqueue f p) \<longleftrightarrow> f AiWrite = None \<and> (en_article_id p, en_prompt_version p) = k"
| "summary_request k _ \<longleftrightarrow> False"

fun summary_regenerate :: "int \<times> string \<Rightarrow> queue_event \<Rightarrow> bool" where
  "summary_regenerate k (QEnqueue f p) \<longleftrightarrow> summary_request k (QEnqueue f p) \<and> en_regenerate p"
| "summary_regenerate k _ \<longleftrightarrow> False"

fun summary_fail :: "int \<Rightarrow> queue_event \<Rightarrow> bool" where
  "summary_fail i (QFail f j msg nxt now) \<longleftrightarrow> i = j"
| "summary_fail i _ \<longleftrightarrow> False"

fun summary_complete :: "int \<Rightarrow> queue_event \<Rightarrow> bool" where
  "summary_complete i (QComplete f j s now) \<longleftrightarrow> i = j"
| "summary_complete i _ \<longleftrightarrow> False"

definition summary_attempts :: "int \<times> string \<Rightarrow> ai_db \<Rightarrow> int" where
  "summary_attempts k db = (case summary_row k db of None \<Rightarrow> 0 | Some r \<Rightarrow> sm_attempts r)"

lemma claim_takes_row:
  assumes "queue_inv M db" "claim_takes M ev db = Some s"
  shows "summary_row (summary_key s) db = Some s \<and> sm_status s \<in> {StatusPending, StatusFailed} \<and> sm_attempts s < M"
proof -
  have s: "s \<in> set (rows (ai_summaries db))" "sm_status s \<in> {StatusPending, StatusFailed} \<and> sm_attempts s < M"
    using assms(2) by (auto simp: claim_takes_def summary_claimable_def split: queue_event.splits if_splits dest: next_summary_SomeD)
  moreover have "distinct (map summary_key (rows (ai_summaries db)))" using assms(1) by (simp add: queue_inv_def keyed_table_def)
  ultimately show ?thesis by (simp add: summary_row_def find_row_key)
qed

lemma summary_row_SomeD:
  "summary_row k db = Some r \<Longrightarrow> r \<in> set (rows (ai_summaries db)) \<and> summary_key r = k"
  unfolding summary_row_def by (drule find_row_SomeD) simp

text \<open>The row of a key after one event, case by case.\<close>

lemma summary_row_claim:
  assumes "queue_inv M db" "ev = QClaim f busy now"
  shows "summary_row k (queue_step M ev db) =
    (case claim_takes M ev db of
       None \<Rightarrow> summary_row k db
     | Some s \<Rightarrow> if summary_key s = k then Some (summary_claimed now s) else summary_row k db)"
proof (cases "claim_takes M ev db")
  case None
  then show ?thesis using assms(2) by (simp add: summary_row_def claim_step del: queue_step.simps)
next
  case (Some s)
  have upd: "summary_row k (queue_step M ev db) =
      map_option (\<lambda>r. if sm_id r = sm_id s then summary_claimed now r else r) (summary_row k db)"
    using Some assms(2) by (simp add: summary_row_def claim_step find_row_update_key del: queue_step.simps)
  have row: "summary_row (summary_key s) db = Some s" using claim_takes_row [OF assms(1) Some] by simp
  show ?thesis
  proof (cases "summary_row k db")
    case None
    then show ?thesis using upd Some row by auto
  next
    case (Some r)
    have "sm_id r = sm_id s \<longleftrightarrow> summary_key s = k"
      using summary_row_SomeD [OF Some] summary_row_SomeD [OF row] assms(1)
      by (metis keyed_table_ident keyed_table_unique queue_inv_def)
    moreover have "r = s" if "summary_key s = k" using that Some row by simp
    ultimately show ?thesis using upd Some \<open>claim_takes M ev db = Some s\<close> by auto
  qed
qed

lemma summary_row_enqueue:
  "summary_row k (queue_step M (QEnqueue f p) db) =
     (if summary_request k (QEnqueue f p)
      then Some (case summary_row k db of None \<Rightarrow> new_summary p (seq (ai_summaries db) + 1)
                                        | Some r \<Rightarrow> summary_assignments p r)
      else summary_row k db)"
  by (auto simp: summary_row_def enqueue_step sq.ups_finds sq.ups_other simp del: queue_step.simps)

lemma summary_row_complete:
  "summary_row k (queue_step M (QComplete f i s now) db) =
     map_option (\<lambda>r. if f AiWrite = None \<and> sm_id r = i then summary_completed s now r else r) (summary_row k db)"
  by (auto simp: summary_row_def complete_step find_row_update_key option.map_ident simp del: queue_step.simps)

lemma summary_row_fail:
  "summary_row k (queue_step M (QFail f i msg nxt now) db) =
     map_option (\<lambda>r. if f AiWrite = None \<and> sm_id r = i then summary_failed msg nxt now r else r) (summary_row k db)"
  by (auto simp: summary_row_def fail_step find_row_update_key option.map_ident simp del: queue_step.simps)

lemma summary_row_articles: "summary_row k (queue_step M (QArticles a) db) = summary_row k db"
  by (simp add: summary_row_def)

lemmas summary_row_steps = summary_row_enqueue summary_row_complete summary_row_fail summary_row_articles

lemma claim_takes_other [simp]:
  "claim_takes M (QEnqueue f p) db = None" "claim_takes M (QComplete f i s now) db = None"
  "claim_takes M (QFail f i msg nxt now) db = None" "claim_takes M (QArticles a) db = None"
  by (simp_all add: claim_takes_def)

lemma summary_attempts_simps [simp]:
  "sm_attempts (new_summary p i) = 0" "sm_attempts (summary_claimed now s) = sm_attempts s + 1"
  "sm_attempts (summary_completed txt' now s) = sm_attempts s" "sm_attempts (summary_failed msg nxt now s) = sm_attempts s"
  "\<not> en_regenerate p \<Longrightarrow> sm_attempts (summary_assignments p s) = sm_attempts s"
  by (simp_all add: new_summary_def summary_claimed_def summary_completed_def summary_failed_def summary_assignments_def)

lemma summary_attempts_step:
  assumes "queue_inv M db" "\<not> summary_regenerate k ev"
  shows "summary_attempts k (queue_step M ev db) =
    summary_attempts k db + (case claim_takes M ev db of None \<Rightarrow> 0 | Some s \<Rightarrow> if summary_key s = k then 1 else 0)"
proof (cases ev)
  case (QClaim f busy now)
  have "summary_row (summary_key s) db = Some s" if "claim_takes M ev db = Some s" for s
    using claim_takes_row [OF assms(1) that] by simp
  then show ?thesis using summary_row_claim [OF assms(1) QClaim, of k]
    by (auto simp: summary_attempts_def split: option.split)
qed (use assms(2) in \<open>auto simp: summary_attempts_def summary_row_steps simp del: queue_step.simps split: option.split\<close>)

lemma summary_attempts_run:
  "queue_inv M db \<Longrightarrow> list_all (\<lambda>ev. \<not> summary_regenerate k ev) evs \<Longrightarrow>
     summary_attempts k (queue_run M evs db) = summary_attempts k db + int (count_list (claimed_keys M evs db) k)"
proof (induction evs arbitrary: db)
  case (Cons ev evs)
  then show ?case
    using summary_attempts_step [of M db k ev] queue_inv_step [of M db ev]
    by (auto simp del: queue_step.simps split: option.split)
qed simp

lemma summary_attempts_bound: "queue_inv M db \<Longrightarrow> 0 \<le> summary_attempts k db \<and> summary_attempts k db \<le> max 0 M"
proof (cases "summary_row k db")
  case (Some r)
  assume "queue_inv M db"
  then show ?thesis using summary_row_SomeD [OF Some] Some
    by (auto simp: queue_inv_def summary_ok_def summary_attempts_def)
qed (simp add: summary_attempts_def)

text \<open>
  C29. The attempts of a summary count its claims: in every interleaving of requests, claims,
  completions and failures that holds no regenerating request for it, they grow by one for each
  claim and never pass the configured maximum, so a summary is worked on at most that often.
\<close>

theorem summary_claims_counted:
  assumes "queue_inv M db" "list_all (\<lambda>ev. \<not> summary_regenerate k ev) evs"
  shows "summary_attempts k (queue_run M evs db) =
           summary_attempts k db + int (count_list (claimed_keys M evs db) k) \<and>
         int (count_list (claimed_keys M evs db) k) \<le> max 0 M \<and> queue_inv M (queue_run M evs db)"
  using summary_attempts_run [OF assms] summary_attempts_bound [OF assms(1), of k]
    summary_attempts_bound [OF queue_inv_run [OF assms(1)], of k evs] queue_inv_run [OF assms(1), of evs]
  by linarith

text \<open>A run that keeps a row out of reach: an invariant of the row under every event of the run.\<close>

lemma summary_row_invariant:
  assumes "queue_inv M db" "summary_row k db = Some r" "J r"
    and step: "\<And>db r ev. queue_inv M db \<Longrightarrow> summary_row k db = Some r \<Longrightarrow> J r \<Longrightarrow> sm_id r = i \<Longrightarrow> ev \<in> set evs \<Longrightarrow>
       (\<forall>s. claim_takes M ev db = Some s \<longrightarrow> summary_key s \<noteq> k) \<and>
       (\<exists>r'. summary_row k (queue_step M ev db) = Some r' \<and> J r' \<and> sm_id r' = sm_id r)"
    and "sm_id r = i"
  shows "k \<notin> set (claimed_keys M evs db) \<and> (\<exists>r'. summary_row k (queue_run M evs db) = Some r' \<and> J r')"
  using assms
proof (induction evs arbitrary: db r)
  case (Cons ev evs)
  obtain r' where r': "summary_row k (queue_step M ev db) = Some r'" "J r'" "sm_id r' = sm_id r"
    and no: "\<forall>s. claim_takes M ev db = Some s \<longrightarrow> summary_key s \<noteq> k"
    using Cons.prems(4) [OF Cons.prems(1,2,3,5), of ev] by auto
  have "k \<notin> set (claimed_keys M evs (queue_step M ev db)) \<and>
      (\<exists>r'. summary_row k (queue_run M evs (queue_step M ev db)) = Some r' \<and> J r')"
    by (rule Cons.IH [OF queue_inv_step [OF Cons.prems(1)] r'(1,2)])
      (use Cons.prems(4,5) r'(3) in \<open>auto simp del: queue_step.simps\<close>)
  then show ?case using no by (cases "claim_takes M ev db") (auto simp del: queue_step.simps)
qed auto

lemma claim_takes_keeps:
  assumes "queue_inv M db" "summary_row k db = Some r" "claim_takes M ev db = Some s" "summary_key s = k"
  shows "sm_status r \<in> {StatusPending, StatusFailed} \<and> sm_attempts r < M"
  using claim_takes_row [OF assms(1,3)] assms(2,4) by simp

text \<open>
  A summary whose attempts are used up is never claimed again, not by any worker and not after
  any number of requests for it, unless a request asks for regeneration: a plain request for it
  is answered with the status "pending" all the same.
\<close>

theorem exhausted_summary_stays_pending:
  assumes "queue_inv M db" "summary_row k db = Some r" "M \<le> sm_attempts r"
    and "list_all (\<lambda>ev. \<not> summary_regenerate k ev) evs"
    and "(en_article_id p, en_prompt_version p) = k" "\<not> en_regenerate p"
  shows "k \<notin> set (claimed_keys M evs db) \<and>
    (\<forall>s. snd (EnqueueSummary no_faults (\<lambda>d. d) p (queue_run M evs db)) = Inr s \<longrightarrow>
       sm_status s = StatusPending \<and> M \<le> sm_attempts s)"
proof -
  have "k \<notin> set (claimed_keys M evs db) \<and> (\<exists>r'. summary_row k (queue_run M evs db) = Some r' \<and> M \<le> sm_attempts r')"
  proof (rule summary_row_invariant [where J = "\<lambda>r. M \<le> sm_attempts r", OF assms(1-3) _ refl])
    fix db r0 ev
    assume h: "queue_inv M db" "summary_row k db = Some r0" "M \<le> sm_attempts r0" "ev \<in> set evs"
    then have no: "\<forall>s. claim_takes M ev db = Some s \<longrightarrow> summary_key s \<noteq> k" using claim_takes_keeps by fastforce
    have "\<not> summary_regenerate k ev" using assms(4) h(4) by (simp add: list_all_iff)
    then have "\<exists>r'. summary_row k (queue_step M ev db) = Some r' \<and> M \<le> sm_attempts r' \<and> sm_id r' = sm_id r0"
      using h(2,3) no summary_row_claim [OF h(1)]
      by (cases ev) (auto simp: summary_row_steps simp del: queue_step.simps split: option.split)
    with no show "(\<forall>s. claim_takes M ev db = Some s \<longrightarrow> summary_key s \<noteq> k) \<and>
        (\<exists>r'. summary_row k (queue_step M ev db) = Some r' \<and> M \<le> sm_attempts r' \<and> sm_id r' = sm_id r0)" by blast
  qed
  then obtain r' where r': "k \<notin> set (claimed_keys M evs db)" "summary_row k (queue_run M evs db) = Some r'" "M \<le> sm_attempts r'"
    by blast
  let ?db = "queue_run M evs db"
  have q: "queue_inv M (queue_step M (QEnqueue no_faults p) ?db)"
    by (intro queue_inv_step queue_inv_run assms(1))
  have row: "summary_row k (queue_step M (QEnqueue no_faults p) ?db) = Some (summary_assignments p r')"
    using r'(2) assms(5) by (simp add: summary_row_enqueue del: queue_step.simps)
  have "sm_status s = StatusPending \<and> M \<le> sm_attempts s"
    if s: "snd (EnqueueSummary no_faults (\<lambda>d. d) p ?db) = Inr s" for s
  proof -
    have "s \<in> set (rows (ai_summaries (queue_step M (QEnqueue no_faults p) ?db)))" "summary_key s = k"
      using s assms(5) by (auto simp: EnqueueSummary_def FindSummary_def Let_def summary_selected_def summary_key_def
          split: option.splits dest!: find_row_SomeD)
    then have "s = summary_assignments p r'"
      using summary_row_SomeD [OF row] q by (metis keyed_table_unique queue_inv_def)
    then show ?thesis using r'(3) assms(6) by (simp add: summary_assignments_def)
  qed
  with r'(1) show ?thesis by blast
qed

text \<open>
  A worker that stops between its claim and its result leaves the summary "processing" for
  good: as long as nobody asks for it again, no event changes its row and no worker claims it,
  whatever happens to the other summaries and however much time passes.
\<close>

theorem abandoned_summary_stays_processing:
  assumes "queue_inv M db" "summary_row k db = Some r" "sm_status r = StatusProcessing"
    and "list_all (\<lambda>ev. \<not> summary_request k ev \<and> \<not> summary_complete (sm_id r) ev \<and> \<not> summary_fail (sm_id r) ev) evs"
  shows "k \<notin> set (claimed_keys M evs db) \<and> summary_row k (queue_run M evs db) = Some r"
proof -
  have "k \<notin> set (claimed_keys M evs db) \<and> (\<exists>r'. summary_row k (queue_run M evs db) = Some r' \<and> r' = r)"
  proof (rule summary_row_invariant [where J = "\<lambda>r'. r' = r", OF assms(1,2) refl _ refl])
    fix db r0 ev
    assume h: "queue_inv M db" "summary_row k db = Some r0" "r0 = r" "ev \<in> set evs"
    then have no: "\<forall>s. claim_takes M ev db = Some s \<longrightarrow> summary_key s \<noteq> k"
      using claim_takes_keeps assms(3) by (fastforce simp: ai_status_defs)
    have "\<not> summary_request k ev" "\<not> summary_complete (sm_id r) ev" "\<not> summary_fail (sm_id r) ev"
      using assms(4) h(4) by (simp_all add: list_all_iff)
    then have "\<exists>r'. summary_row k (queue_step M ev db) = Some r' \<and> r' = r \<and> sm_id r' = sm_id r0"
      using h(2,3) no summary_row_claim [OF h(1)]
      by (cases ev) (auto simp: summary_row_steps simp del: queue_step.simps split: option.split)
    with no show "(\<forall>s. claim_takes M ev db = Some s \<longrightarrow> summary_key s \<noteq> k) \<and>
        (\<exists>r'. summary_row k (queue_step M ev db) = Some r' \<and> r' = r \<and> sm_id r' = sm_id r0)" by blast
  qed
  then show ?thesis by blast
qed

text \<open>
  A claimed summary belongs to one worker until it fails or is asked for again: after a claim
  no other claim takes it. A request for it while it is processed, with or without
  regeneration, makes it claimable at once, if it has attempts left.
\<close>

theorem summary_claim_exclusive:
  assumes "queue_inv M db" "claim_takes M ev db = Some s"
    and "list_all (\<lambda>ev. \<not> summary_request (summary_key s) ev \<and> \<not> summary_fail (sm_id s) ev) evs"
  shows "summary_key s \<notin> set (claimed_keys M evs (queue_step M ev db)) \<and>
    (\<forall>p now. (en_article_id p, en_prompt_version p) = summary_key s \<and> en_now p \<le> now \<and>
       (if en_regenerate p then 0 < M else sm_attempts s + 1 < M) \<longrightarrow>
       (\<exists>r. summary_row (summary_key s) (queue_run M [ev, QEnqueue no_faults p] db) = Some r \<and> summary_claimable now M r))"
proof -
  obtain f busy now where ev: "ev = QClaim f busy now"
    using assms(2) by (auto simp: claim_takes_def split: queue_event.splits)
  have row: "summary_row (summary_key s) (queue_step M ev db) = Some (summary_claimed now s)"
    using summary_row_claim [OF assms(1) ev, of "summary_key s"] assms(2) by simp
  let ?J = "\<lambda>r. sm_status r \<in> {StatusProcessing, StatusSucceeded}"
  have "summary_key s \<notin> set (claimed_keys M evs (queue_step M ev db)) \<and>
      (\<exists>r'. summary_row (summary_key s) (queue_run M evs (queue_step M ev db)) = Some r' \<and> ?J r')"
  proof (rule summary_row_invariant [where J = ?J, OF queue_inv_step [OF assms(1)] row, where i = "sm_id s"])
    show "?J (summary_claimed now s)" "sm_id (summary_claimed now s) = sm_id s" by (simp_all add: summary_claimed_def)
    fix db r0 ev
    assume h: "queue_inv M db" "summary_row (summary_key s) db = Some r0" "?J r0" "sm_id r0 = sm_id s" "ev \<in> set evs"
    then have no: "\<forall>s'. claim_takes M ev db = Some s' \<longrightarrow> summary_key s' \<noteq> summary_key s"
      using claim_takes_keeps [OF h(1,2)] by (fastforce simp: ai_status_defs)
    have "\<not> summary_request (summary_key s) ev" "\<not> summary_fail (sm_id s) ev"
      using assms(3) h(5) by (simp_all add: list_all_iff)
    then have "\<exists>r'. summary_row (summary_key s) (queue_step M ev db) = Some r' \<and> ?J r' \<and> sm_id r' = sm_id r0"
      using h(2-4) no summary_row_claim [OF h(1)]
      by (cases ev) (auto simp: summary_row_steps summary_completed_def simp del: queue_step.simps split: option.split)
    with no show "(\<forall>s'. claim_takes M ev db = Some s' \<longrightarrow> summary_key s' \<noteq> summary_key s) \<and>
        (\<exists>r'. summary_row (summary_key s) (queue_step M ev db) = Some r' \<and> ?J r' \<and> sm_id r' = sm_id r0)" by blast
  qed
  moreover have "\<exists>r. summary_row (summary_key s) (queue_run M [ev, QEnqueue no_faults p] db) = Some r \<and> summary_claimable n M r"
    if "(en_article_id p, en_prompt_version p) = summary_key s" "en_now p \<le> n"
      "if en_regenerate p then 0 < M else sm_attempts s + 1 < M" for p n
    using that row
    by (auto simp: summary_row_enqueue summary_claimable_def summary_assignments_def Let_def simp del: queue_step.simps split: if_splits)
  ultimately show ?thesis by blast
qed

subsection \<open>An example run\<close>

definition sample_ai_db :: ai_db where
  "sample_ai_db =
     \<lparr>ai_articles = \<lparr>ad_sources = empty_table, ad_articles = empty_table, ad_states = empty_table\<rparr>,
      ai_summaries = empty_table, ai_embeddings = empty_table, ai_digests = empty_table, ai_settings = empty_table\<rparr>"

definition sample_enqueue :: "bool \<Rightarrow> enqueue_summary_params" where
  "sample_enqueue regenerate =
     \<lparr>en_user_id = 1, en_article_id = 7, en_model = DefaultSummaryModel, en_prompt_version = DefaultSummaryPrompt,
      en_now = 50, en_regenerate = regenerate\<rparr>"

definition sample_summary_claim :: queue_event where
  "sample_summary_claim = QClaim no_faults (\<lambda>_. False) 100"

abbreviation sample_summary :: article_summary where
  "sample_summary \<equiv> new_summary (sample_enqueue False) 1"

abbreviation queued_ai_db :: ai_db where
  "queued_ai_db \<equiv> queue_step 1 (QEnqueue no_faults (sample_enqueue False)) sample_ai_db"

abbreviation sample_summary_key :: "int \<times> string" where
  "sample_summary_key \<equiv> (7, DefaultSummaryPrompt)"

lemma sample_ai_db_inv: "queue_inv M sample_ai_db"
  by (simp add: queue_inv_def sample_ai_db_def)

lemma queued_ai_db_summaries: "ai_summaries queued_ai_db = \<lparr>rows = [sample_summary], seq = 1\<rparr>"
  unfolding enqueue_step
  by (simp add: sample_ai_db_def upsert_summary_def find_row_def insert_row_def empty_table_def)

lemma sample_summary_claimable: "summary_claimable 100 1 sample_summary"
  by (simp add: summary_claimable_def new_summary_def sample_enqueue_def)

lemma sample_claim_takes: "claim_takes 1 sample_summary_claim queued_ai_db = Some sample_summary"
  using sample_summary_claimable
  by (simp add: claim_takes_def sample_summary_claim_def queued_ai_db_summaries next_summary_def select_rows_def
      del: queue_step.simps)

lemma queued_ai_db_inv: "queue_inv 1 queued_ai_db"
  by (intro queue_inv_step sample_ai_db_inv)

lemma sample_summary_key_eq: "summary_key sample_summary = sample_summary_key"
  by (simp add: sample_enqueue_def)

abbreviation claimed_ai_db :: ai_db where
  "claimed_ai_db \<equiv> queue_step 1 sample_summary_claim queued_ai_db"

lemma claimed_ai_db_row:
  "queue_inv 1 claimed_ai_db"
  "summary_row sample_summary_key claimed_ai_db = Some (summary_claimed 100 sample_summary)"
proof -
  show "queue_inv 1 claimed_ai_db" by (intro queue_inv_step queued_ai_db_inv)
  have "sample_summary_claim = QClaim no_faults (\<lambda>_. False) 100" by (simp add: sample_summary_claim_def)
  from summary_row_claim [OF queued_ai_db_inv this, of sample_summary_key] sample_claim_takes sample_summary_key_eq
  show "summary_row sample_summary_key claimed_ai_db = Some (summary_claimed 100 sample_summary)"
    by (simp del: queue_step.simps)
qed

theorem summary_claims_counted_witness:
  "summary_attempts sample_summary_key (queue_run 1 [sample_summary_claim, sample_summary_claim] queued_ai_db) =
     summary_attempts sample_summary_key queued_ai_db +
     int (count_list (claimed_keys 1 [sample_summary_claim, sample_summary_claim] queued_ai_db) sample_summary_key)"
  using summary_claims_counted [OF queued_ai_db_inv, of sample_summary_key "[sample_summary_claim, sample_summary_claim]"]
  by (simp add: sample_summary_claim_def del: queue_step.simps queue_run.simps claimed_keys.simps)

theorem exhausted_summary_stays_pending_witness:
  "sample_summary_key \<notin> set (claimed_keys 1 [QEnqueue no_faults (sample_enqueue False), sample_summary_claim] claimed_ai_db)"
  using exhausted_summary_stays_pending [OF claimed_ai_db_row, where p = "sample_enqueue False"
      and evs = "[QEnqueue no_faults (sample_enqueue False), sample_summary_claim]"]
  by (simp add: sample_enqueue_def sample_summary_claim_def del: queue_step.simps claimed_keys.simps)

theorem abandoned_summary_stays_processing_witness:
  "summary_row sample_summary_key (queue_run 1 [sample_summary_claim, sample_summary_claim] claimed_ai_db) =
     Some (summary_claimed 100 sample_summary)"
  using abandoned_summary_stays_processing [OF claimed_ai_db_row,
      where evs = "[sample_summary_claim, sample_summary_claim]"]
  by (simp add: sample_summary_claim_def summary_claimed_def del: queue_step.simps queue_run.simps claimed_keys.simps)

theorem summary_claim_exclusive_witness:
  "sample_summary_key \<notin> set (claimed_keys 1 [sample_summary_claim] claimed_ai_db) \<and>
   (\<exists>r. summary_row sample_summary_key
      (queue_run 1 [sample_summary_claim, QEnqueue no_faults (sample_enqueue True)] queued_ai_db) = Some r \<and>
      summary_claimable 60 1 r)"
proof -
  have h: "sample_summary_key \<notin> set (claimed_keys 1 [sample_summary_claim] claimed_ai_db) \<and>
    (\<forall>p now. (en_article_id p, en_prompt_version p) = sample_summary_key \<and> en_now p \<le> now \<and>
       (if en_regenerate p then 0 < (1::int) else sm_attempts sample_summary + 1 < 1) \<longrightarrow>
       (\<exists>r. summary_row sample_summary_key (queue_run 1 [sample_summary_claim, QEnqueue no_faults p] queued_ai_db) = Some r \<and>
          summary_claimable now 1 r))"
    using summary_claim_exclusive [OF queued_ai_db_inv sample_claim_takes, where evs = "[sample_summary_claim]"]
    unfolding sample_summary_key_eq
    by (simp add: sample_summary_claim_def del: queue_step.simps queue_run.simps claimed_keys.simps)
  have "\<exists>r. summary_row sample_summary_key
      (queue_run 1 [sample_summary_claim, QEnqueue no_faults (sample_enqueue True)] queued_ai_db) = Some r \<and>
      summary_claimable 60 1 r"
    by (rule h [THEN conjunct2, rule_format]) (simp add: sample_enqueue_def)
  with h show ?thesis by blast
qed

end
