(* ===== verification/AI_Assistant.thy ===== *)
theory AI_Assistant
  imports AI_Store Rss_Collector Go_Runes "HOL-Library.Multiset"
begin

section \<open>The assistants\<close>

text \<open>
  \<open>assistant.go\<close> and \<open>openai.go\<close> of \<open>internal/module/ai\<close>: the extractive assistant, which works on
  the text alone, and the client of an OpenAI compatible API. Unicode's classes and case tables,
  SHA-256, floating point and the HTTP world are parameters.
\<close>

subsection \<open>Texts and parameters\<close>

definition bytes_of :: "nat list \<Rightarrow> string" where
  "bytes_of bs = map char_of bs"

text \<open>The texts in Chinese that the package writes, as bytes.\<close>

definition full_stop :: string where "full_stop = bytes_of [0xE3, 0x80, 0x82]"

record ai_lib =
  al_go :: go_lib
  al_word_rune :: "string \<Rightarrow> bool"
  al_sha256 :: "string \<Rightarrow> string"


subsection \<open>Inputs and results\<close>

record article_input =
  ai_id :: int
  ai_title :: string
  ai_summary :: string
  ai_content :: string
  ai_url :: "string option"
  ai_content_hash :: string

record summary_result =
  sr_model :: string
  sr_prompt_version :: string
  sr_summary :: string

record 'f embedding_result =
  eb_model :: string
  eb_version :: string
  eb_dimensions :: int
  eb_vector :: "'f list"

record digest_result =
  gr_model :: string
  gr_prompt_version :: string
  gr_summary :: string
  gr_article_ids :: "int list"

record citation =
  ci_article_id :: int
  ci_title :: string
  ci_url :: "string option"
  ci_snippet :: string

record rag_result =
  rg_model :: string
  rg_prompt_version :: string
  rg_answer :: string
  rg_citations :: "citation list"

text \<open>The interface \<open>Assistant\<close>: what its four methods return.\<close>

record 'f assistant =
  as_summarize :: "article_input \<Rightarrow> summary_result result"
  as_embed :: "string \<Rightarrow> 'f embedding_result result"
  as_digest :: "article_input list \<Rightarrow> digest_result result"
  as_answer :: "string \<Rightarrow> article_input list \<Rightarrow> rag_result result"


subsection \<open>Text\<close>

fun ai_firstNonEmpty :: "string list \<Rightarrow> string" where
  "ai_firstNonEmpty [] = ''''"
| "ai_firstNonEmpty (value # values) =
     (let trimmed = trim_space value in if trimmed \<noteq> '''' then trimmed else ai_firstNonEmpty values)"

definition truncateText :: "string \<Rightarrow> nat \<Rightarrow> string" where
  "truncateText s maxRunes =
     (let rs = runes (trim_space s) in
      if length rs \<le> maxRunes then concat rs else concat (take maxRunes rs))"

text \<open>
  The regular expression of \<open>splitSentences\<close>: one of six full stops and question and exclamation marks, then any
  number of (ASCII) white-space characters. \<open>skip\<close> counts the bytes of a mark still to be
  passed, \<open>after\<close> tells that a mark has just ended, \<open>acc\<close> is the piece so far, reversed.
\<close>

definition sentence_ends :: "string list" where
  "sentence_ends =
     [full_stop, bytes_of [0xEF, 0xBC, 0x81], bytes_of [0xEF, 0xBC, 0x9F], ''.'', ''!'', ''?'']"

definition regexp_space :: "char \<Rightarrow> bool" where
  "regexp_space c \<longleftrightarrow> c \<in> {CHR 0x09, CHR 0x0A, CHR 0x0C, CHR 0x0D, CHR 0x20}"

fun sentence_pieces :: "nat \<Rightarrow> bool \<Rightarrow> string \<Rightarrow> string \<Rightarrow> string list" where
  "sentence_pieces skip after acc [] = [rev acc]"
| "sentence_pieces (Suc n) after acc (c # s) = sentence_pieces n after acc s"
| "sentence_pieces 0 after acc (c # s) =
     (if after \<and> regexp_space c then sentence_pieces 0 True acc s
      else case leading_space sentence_ends (c # s) of
        None \<Rightarrow> sentence_pieces 0 False (c # acc) s
      | Some w \<Rightarrow> rev acc # sentence_pieces (length w - 1) True [] s)"

definition splitSentences :: "string \<Rightarrow> string list" where
  "splitSentences s =
     map (\<lambda>trimmed. trimmed @ full_stop)
       (filter (\<lambda>trimmed. trimmed \<noteq> '''') (map trim_space (sentence_pieces 0 False [] s)))"

text \<open>\<open>strings.FieldsFunc\<close>: the maximal runs of runes in a class.\<close>

fun word_runs :: "(string \<Rightarrow> bool) \<Rightarrow> string list \<Rightarrow> string list \<Rightarrow> string list list" where
  "word_runs P acc [] = (if acc = [] then [] else [rev acc])"
| "word_runs P acc (r # rs) =
     (if P r then word_runs P (r # acc) rs
      else (if acc = [] then [] else [rev acc]) @ word_runs P [] rs)"

definition tokenize :: "ai_lib \<Rightarrow> string \<Rightarrow> string list" where
  "tokenize lib s =
     map concat (filter (\<lambda>part. length part \<ge> 2)
       (word_runs (al_word_rune lib) [] (runes (to_lower (gl_lower (al_go lib)) s))))"

definition tokenSet :: "ai_lib \<Rightarrow> string \<Rightarrow> string list" where
  "tokenSet lib s = remdups (tokenize lib s)"

definition overlapScore :: "ai_lib \<Rightarrow> string list \<Rightarrow> article_input \<Rightarrow> int" where
  "overlapScore lib tokens a =
     (let s = to_lower (gl_lower (al_go lib)) (ai_title a @ '' '' @ ai_summary a @ '' '' @ ai_content a)
      in int (length (filter (str_contains s) tokens)))"


subsection \<open>The extractive assistant\<close>

definition extractive_Summarize :: "article_input \<Rightarrow> summary_result result" where
  "extractive_Summarize a =
     (let s = trim_space (ai_firstNonEmpty [ai_content a, ai_summary a, ai_title a]);
          sentences = splitSentences s;
          sentences = (if length sentences > 3 then take 3 sentences else sentences);
          summary = trim_space (strings_join '' '' sentences);
          summary = (if summary = '''' then trim_space (ai_title a) else summary)
      in Inr \<lparr>sr_model = DefaultSummaryModel, sr_prompt_version = DefaultSummaryPrompt,
              sr_summary = truncateText summary 900\<rparr>)"

definition sum_squares :: "'f float_ops \<Rightarrow> 'f list \<Rightarrow> 'f" where
  "sum_squares ops v = foldl (\<lambda>s x. fo_add ops s (fo_mul ops x x)) (fo_zero ops) v"

definition ai_normalize :: "'f float_ops \<Rightarrow> 'f list \<Rightarrow> 'f list" where
  "ai_normalize ops v =
     (let total = sum_squares ops v in
      if fo_eq ops total (fo_zero ops) then v
      else let len = fo_sqrt ops total in map (\<lambda>x. fo_div ops x len) v)"

definition first_byte :: "string \<Rightarrow> nat" where
  "first_byte hash = (case hash of [] \<Rightarrow> 0 | b # _ \<Rightarrow> of_char b)"

definition add_token :: "ai_lib \<Rightarrow> 'f float_ops \<Rightarrow> nat \<Rightarrow> 'f list \<Rightarrow> string \<Rightarrow> 'f list" where
  "add_token lib ops dims vec token =
     (let idx = first_byte (al_sha256 lib token) mod dims;
          weight = fo_add ops (fo_of_nat ops 1) (fo_div ops (fo_of_nat ops (length token mod 7)) (fo_of_nat ops 10))
      in vec[idx := fo_add ops (vec ! idx) weight])"

definition extractive_Embed :: "ai_lib \<Rightarrow> 'f float_ops \<Rightarrow> int \<Rightarrow> string \<Rightarrow> 'f embedding_result result" where
  "extractive_Embed lib ops dimensions s =
     (let dims = (if dimensions \<le> 0 then DefaultEmbeddingDimension else dimensions);
          vec = foldl (add_token lib ops (nat dims)) (replicate (nat dims) (fo_zero ops)) (tokenize lib s)
      in Inr \<lparr>eb_model = DefaultEmbeddingModel, eb_version = DefaultEmbeddingVersion, eb_dimensions = dims,
              eb_vector = ai_normalize ops vec\<rparr>)"

definition no_digest_text :: string where
  "no_digest_text = bytes_of
     [0xE4, 0xBB, 0x8A, 0xE5, 0xA4, 0xA9, 0xE6, 0xB2, 0xA1, 0xE6, 0x9C, 0x89, 0xE5, 0x8F, 0xAF,
      0xE6, 0xB1, 0x87, 0xE6, 0x80, 0xBB, 0xE7, 0x9A, 0x84, 0xE6, 0x96, 0x87, 0xE7, 0xAB, 0xA0,
      0xE3, 0x80, 0x82]"

definition no_articles_text :: string where
  "no_articles_text = bytes_of
     [0xE6, 0xB2, 0xA1, 0xE6, 0x9C, 0x89, 0xE6, 0x89, 0xBE, 0xE5, 0x88, 0xB0, 0xE5, 0x8F, 0xAF,
      0xE5, 0xBC, 0x95, 0xE7, 0x94, 0xA8, 0xE7, 0x9A, 0x84, 0xE7, 0x9B, 0xB8, 0xE5, 0x85, 0xB3,
      0xE6, 0x96, 0x87, 0xE7, 0xAB, 0xA0, 0xE3, 0x80, 0x82]"

definition extractive_Digest :: "article_input list \<Rightarrow> digest_result result" where
  "extractive_Digest articles =
     (if articles = [] then
        Inr \<lparr>gr_model = DefaultSummaryModel, gr_prompt_version = DefaultDigestPrompt,
             gr_summary = no_digest_text, gr_article_ids = []\<rparr>
      else
        (let limit = (if length articles > 5 then 5 else length articles);
             picked = take limit articles
         in Inr \<lparr>gr_model = DefaultSummaryModel, gr_prompt_version = DefaultDigestPrompt,
                 gr_summary = strings_join [lf]
                   (map (\<lambda>a. ''- '' @ truncateText (trim_space (ai_title a)) 120) picked),
                 gr_article_ids = map ai_id picked\<rparr>))"

definition extractive_citation :: "article_input \<Rightarrow> citation" where
  "extractive_citation a =
     \<lparr>ci_article_id = ai_id a, ci_title = ai_title a, ci_url = ai_url a,
      ci_snippet = truncateText (ai_firstNonEmpty [ai_summary a, ai_content a, ai_title a]) 220\<rparr>"

definition extractive_Answer :: "ai_lib \<Rightarrow> string \<Rightarrow> article_input list \<Rightarrow> rag_result result" where
  "extractive_Answer lib query articles =
     (if articles = [] then
        Inr \<lparr>rg_model = DefaultSummaryModel, rg_prompt_version = DefaultRAGPrompt,
             rg_answer = no_articles_text, rg_citations = []\<rparr>
      else
        (let queryTokens = tokenSet lib query;
             sorted_articles = sort_key (\<lambda>a. - overlapScore lib queryTokens a) articles;
             limit = (if length sorted_articles > 3 then 3 else length sorted_articles);
             citations = map extractive_citation (take limit sorted_articles)
         in Inr \<lparr>rg_model = DefaultSummaryModel, rg_prompt_version = DefaultRAGPrompt,
                 rg_answer = strings_join [lf, lf] (map ci_snippet citations), rg_citations = citations\<rparr>))"

text \<open>\<open>NewExtractiveAssistant\<close>.\<close>

definition extractive_assistant :: "ai_lib \<Rightarrow> 'f float_ops \<Rightarrow> 'f assistant" where
  "extractive_assistant lib ops =
     \<lparr>as_summarize = extractive_Summarize, as_embed = extractive_Embed lib ops DefaultEmbeddingDimension,
      as_digest = extractive_Digest, as_answer = extractive_Answer lib\<rparr>"

subsection \<open>Facts about cut texts\<close>

lemma runes_truncateText: "runes (truncateText s n) = take n (runes (trim_space s))"
proof -
  have "list_all is_rune (take n (runes (trim_space s)))"
    using runes_are_runes [of "trim_space s"] by (auto simp: list_all_iff dest: in_set_takeD)
  then show ?thesis by (simp add: truncateText_def Let_def runes_concat)
qed

subsection \<open>Properties of the extractive assistant\<close>

lemma truncateText_empty: "0 < n \<Longrightarrow> truncateText s n = [] \<longleftrightarrow> trim_space s = []"
  using runes_truncateText [of s n] by (metis runes_empty take_eq_Nil neq0_conv)

lemma truncateText_facts:
  "length (runes (truncateText s n)) \<le> n" "concat (runes (truncateText s n)) = truncateText s n"
  "list_all is_rune (runes (truncateText s n))"
proof -
  show "length (runes (truncateText s n)) \<le> n" unfolding runes_truncateText by simp
  show "concat (runes (truncateText s n)) = truncateText s n"
    unfolding runes_truncateText by (simp add: truncateText_def Let_def)
  show "list_all is_rune (runes (truncateText s n))" by (rule runes_are_runes)
qed

lemma extractive_Summarize_result:
  "\<exists>r x. extractive_Summarize a = Inr r \<and> sr_summary r = truncateText x 900 \<and> trim_space x = x \<and>
     (trim_space (ai_title a) \<noteq> '''' \<longrightarrow> x \<noteq> '''')"
proof -
  have "\<exists>y. extractive_Summarize a = Inr \<lparr>sr_model = DefaultSummaryModel, sr_prompt_version = DefaultSummaryPrompt,
      sr_summary = truncateText (if trim_space y = '''' then trim_space (ai_title a) else trim_space y) 900\<rparr>"
    unfolding extractive_Summarize_def Let_def by (rule exI, rule refl)
  then obtain y where y: "extractive_Summarize a = Inr \<lparr>sr_model = DefaultSummaryModel, sr_prompt_version = DefaultSummaryPrompt,
      sr_summary = truncateText (if trim_space y = '''' then trim_space (ai_title a) else trim_space y) 900\<rparr>" ..
  show ?thesis
    by (rule exI, rule exI [of _ "if trim_space y = '''' then trim_space (ai_title a) else trim_space y"],
        rule conjI [OF y]) simp
qed

text \<open>
  The extractive summary of an article always succeeds, is at most 900 characters (runes) of
  valid UTF-8, and is not empty if the article has a title that is not blank, whatever bytes its
  texts hold.
\<close>

theorem extractive_summary_bounded:
  "\<exists>r. extractive_Summarize a = Inr r \<and> length (runes (sr_summary r)) \<le> 900 \<and>
     list_all is_rune (runes (sr_summary r)) \<and> concat (runes (sr_summary r)) = sr_summary r \<and>
     (trim_space (ai_title a) \<noteq> '''' \<longrightarrow> sr_summary r \<noteq> '''')"
proof -
  obtain r x where r: "extractive_Summarize a = Inr r" "sr_summary r = truncateText x 900" "trim_space x = x"
    "trim_space (ai_title a) \<noteq> '''' \<longrightarrow> x \<noteq> ''''"
    using extractive_Summarize_result [of a] by blast
  have "trim_space (ai_title a) \<noteq> '''' \<longrightarrow> sr_summary r \<noteq> ''''"
    unfolding r(2) using truncateText_empty [of 900 x] r(3,4) by simp
  then show ?thesis using r(1,2) truncateText_facts [of x 900] by (intro exI [of _ r]) simp
qed

text \<open>
  The extractive answer cites the articles that share most words with the question: the cited
  ones are three of the given articles, or all when there are fewer, none of the others shares
  more words than a cited one, the cited are in falling order, and the answer is their snippets.
\<close>

theorem extractive_answer_cites_best:
  assumes "extractive_Answer lib query articles = Inr r" "articles \<noteq> []"
  shows "\<exists>picked rest. mset articles = mset picked + mset rest \<and> length picked = min 3 (length articles) \<and>
    rg_citations r = map extractive_citation picked \<and>
    rg_answer r = strings_join [lf, lf] (map ci_snippet (rg_citations r)) \<and>
    sorted_wrt (\<lambda>a b. overlapScore lib (tokenSet lib query) b \<le> overlapScore lib (tokenSet lib query) a) picked \<and>
    (\<forall>a \<in> set picked. \<forall>b \<in> set rest.
       overlapScore lib (tokenSet lib query) b \<le> overlapScore lib (tokenSet lib query) a)"
proof -
  let ?key = "\<lambda>a. - overlapScore lib (tokenSet lib query) a"
  let ?sorted = "sort_key ?key articles"
  let ?picked = "take 3 ?sorted" and ?rest = "drop 3 ?sorted"
  have "sorted (map ?key ?sorted)" by simp
  then have "sorted_wrt (\<lambda>a b. ?key a \<le> ?key b) (?picked @ ?rest)" by (simp add: sorted_map)
  then have ord: "sorted_wrt (\<lambda>a b. ?key a \<le> ?key b) ?picked" "\<forall>a \<in> set ?picked. \<forall>b \<in> set ?rest. ?key a \<le> ?key b"
    unfolding sorted_wrt_append by simp_all
  have cut: "take (if length xs > 3 then 3 else length xs) xs = take 3 xs" for xs :: "article_input list" by simp
  have r: "rg_citations r = map extractive_citation ?picked"
    "rg_answer r = strings_join [lf, lf] (map ci_snippet (rg_citations r))"
    using assms unfolding extractive_Answer_def Let_def cut by auto
  have "mset ?picked + mset ?rest = mset articles" by (metis append_take_drop_id mset_append mset_sort)
  then have "mset articles = mset ?picked + mset ?rest" by simp
  moreover have "length ?picked = min 3 (length articles)" by (simp add: min.commute)
  moreover have "sorted_wrt (\<lambda>a b. overlapScore lib (tokenSet lib query) b \<le> overlapScore lib (tokenSet lib query) a) ?picked"
    using ord(1) by simp
  moreover have "\<forall>a \<in> set ?picked. \<forall>b \<in> set ?rest.
      overlapScore lib (tokenSet lib query) b \<le> overlapScore lib (tokenSet lib query) a"
    using ord(2) by simp
  ultimately show ?thesis using r by blast
qed

lemma extractive_Answer_total: "\<exists>r. extractive_Answer lib query articles = Inr r"
  by (simp add: extractive_Answer_def Let_def)

definition sample_ai_lib :: ai_lib where
  "sample_ai_lib = \<lparr>al_go = sample_lib, al_word_rune = list_all (\<lambda>c. CHR ''a'' \<le> c \<and> c \<le> CHR ''z''), al_sha256 = (\<lambda>s. s)\<rparr>"

definition sample_article_input :: "int \<Rightarrow> string \<Rightarrow> article_input" where
  "sample_article_input i title =
     \<lparr>ai_id = i, ai_title = title, ai_summary = '''', ai_content = '''', ai_url = None, ai_content_hash = ''''\<rparr>"

theorem extractive_answer_cites_best_witness:
  "\<exists>picked r. extractive_Answer sample_ai_lib ''go'' [sample_article_input 1 ''rust'', sample_article_input 2 ''go''] = Inr r \<and>
     rg_citations r = map extractive_citation picked \<and> length picked = 2"
proof -
  obtain r where r: "extractive_Answer sample_ai_lib ''go'' [sample_article_input 1 ''rust'', sample_article_input 2 ''go''] = Inr r"
    using extractive_Answer_total by blast
  from extractive_answer_cites_best [OF this]
  obtain picked where "rg_citations r = map extractive_citation picked" "length picked = 2" by auto
  with r show ?thesis by blast
qed

end
