(* ===== verification/AI_OpenAI.thy ===== *)
theory AI_OpenAI
  imports AI_Assistant
begin

section \<open>The client of an OpenAI compatible API\<close>

text \<open>
  \<open>openai.go\<close>: the configuration of the client, its requests and its four methods. Every request
  goes through the redirect policy of the package; \<open>http.Client.Do\<close> is the one of the feed
  fetcher, whose policy is the same function. The results come with the URLs requested.
\<close>

definition DefaultOpenAIBaseURL :: string where "DefaultOpenAIBaseURL = ''https://api.openai.com/v1''"
definition DefaultOpenAIEmbeddingModel :: string where "DefaultOpenAIEmbeddingModel = ''text-embedding-3-small''"

text \<open>
  The world of the client: the HTTP world that a request with a given path and body meets, and
  the JSON decoder of a response (the first value of the stream, or the decoder's error).
\<close>

record openai_env =
  oe_http :: "string \<Rightarrow> json \<Rightarrow> http_env"
  oe_decode :: "reader \<Rightarrow> json result"

record openai_config =
  oc_base_url :: string
  oc_api_key :: string
  oc_chat_model :: string
  oc_embedding_model :: string
  oc_timeout :: duration

record openai_assistant =
  oa_base_url :: string
  oa_api_key :: string
  oa_chat_model :: string
  oa_embedding_model :: string
  oa_timeout :: duration

definition NewOpenAICompatibleAssistant ::
  "go_lib \<Rightarrow> (ip_addr \<Rightarrow> string) \<Rightarrow> openai_config \<Rightarrow> openai_assistant result" where
  "NewOpenAICompatibleAssistant lib addr_text cfg =
     (let apiKey = trim_space (oc_api_key cfg) in
      if apiKey = '''' then Inl (Plain ''openai api key is required'')
      else let chatModel = trim_space (oc_chat_model cfg) in
      if chatModel = '''' then Inl (Plain ''openai chat model is required'')
      else
        (let embeddingModel = trim_space (oc_embedding_model cfg);
             embeddingModel = (if embeddingModel = '''' then DefaultOpenAIEmbeddingModel else embeddingModel);
             baseURL = trim_right ''/'' (trim_space (oc_base_url cfg));
             baseURL = (if baseURL = '''' then DefaultOpenAIBaseURL else baseURL)
         in case ValidateHTTPURL lib addr_text baseURL of
              Inl e \<Rightarrow> Inl (Wrapf ''invalid openai base url: '' e '''')
            | Inr _ \<Rightarrow> Inr
                \<lparr>oa_base_url = baseURL, oa_api_key = apiKey, oa_chat_model = chatModel,
                 oa_embedding_model = embeddingModel,
                 oa_timeout = (if oc_timeout cfg \<le> 0 then 30 * second else oc_timeout cfg)\<rparr>))"

definition safeOpenAIRedirect :: "http_env \<Rightarrow> string \<Rightarrow> nat \<Rightarrow> redirect_decision" where
  "safeOpenAIRedirect env url via =
     (case ValidateHTTPURL (he_lib env) (he_addr_text env) url of
        Inl e \<Rightarrow> RefuseRedirect e
      | Inr _ \<Rightarrow> if via \<ge> 10 then UseLastResponse else FollowRedirect)"

lemma safeOpenAIRedirect_eq: "safeOpenAIRedirect = safeFeedRedirect"
  by (simp add: fun_eq_iff safeOpenAIRedirect_def safeFeedRedirect_def)


subsection \<open>Requests\<close>

text \<open>A struct that a response is decoded into; the error of a decoder is wrapped by the caller.\<close>

definition set_message_field :: "string \<Rightarrow> json \<Rightarrow> string \<Rightarrow> string option" where
  "set_message_field k v msg = (if k = ''message'' then dec_str v msg else Some msg)"

definition set_error_field :: "string \<Rightarrow> json \<Rightarrow> string \<Rightarrow> string option" where
  "set_error_field k v msg =
     (if k = ''error'' then unmarshal_struct set_message_field msg (JsonText v) else Some msg)"

definition post_headers :: "openai_assistant \<Rightarrow> (string \<times> string) list" where
  "post_headers a =
     [(''Authorization'', ''Bearer '' @ oa_api_key a), (''Content-Type'', ''application/json''),
      (''Accept'', ''application/json'')]"

definition openai_error_message :: "openai_env \<Rightarrow> reader \<Rightarrow> string" where
  "openai_error_message env body =
     (case oe_decode env body of
        Inl _ \<Rightarrow> ''''
      | Inr j \<Rightarrow> (case unmarshal_struct set_error_field '''' (JsonText j) of None \<Rightarrow> '''' | Some msg \<Rightarrow> msg))"

definition openai_post ::
  "openai_env \<Rightarrow> (payload \<Rightarrow> 'r option) \<Rightarrow> openai_assistant \<Rightarrow> string \<Rightarrow> json \<Rightarrow> string list \<times> 'r result" where
  "openai_post env decode a path body =
     (let http = oe_http env path body; url = oa_base_url a @ path in
      case he_new_request http url of
        Some e \<Rightarrow> ([], Inl (Wrapf ''build openai request: '' e ''''))
      | None \<Rightarrow>
        (case client_Do http 0 url of
           (urls, Inl e) \<Rightarrow> (urls, Inl (Wrapf ''call openai api: '' e ''''))
         | (urls, Inr resp) \<Rightarrow>
             if hr_status resp < 200 \<or> hr_status resp \<ge> 300 then
               (let msg = openai_error_message env (hr_body resp) in
                (urls, Inl (Plain (''openai api status '' @ fmt_int (hr_status resp) @
                               (if msg \<noteq> '''' then '': '' @ msg else '''')))))
             else
               (urls, case oe_decode env (hr_body resp) of
                  Inl e \<Rightarrow> Inl (Wrapf ''decode openai response: '' e '''')
                | Inr j \<Rightarrow>
                  (case decode (JsonText j) of
                     None \<Rightarrow> Inl (Wrapf ''decode openai response: '' (Plain ''json: cannot unmarshal'') '''')
                   | Some r \<Rightarrow> Inr r))))"

text \<open>\<open>chatCompletionResponse\<close>: the contents of the messages of its choices.\<close>

definition set_content_field :: "string \<Rightarrow> json \<Rightarrow> string \<Rightarrow> string option" where
  "set_content_field k v content =
     (if k = ''role'' then map_option (\<lambda>_. content) (dec_str v '''')
      else if k = ''content'' then dec_str v content
      else Some content)"

definition set_choice_field :: "string \<Rightarrow> json \<Rightarrow> string \<Rightarrow> string option" where
  "set_choice_field k v content =
     (if k = ''message'' then unmarshal_struct set_content_field content (JsonText v) else Some content)"

definition set_chat_field :: "string \<Rightarrow> json \<Rightarrow> string list \<Rightarrow> string list option" where
  "set_chat_field k v choices =
     (if k = ''model'' then map_option (\<lambda>_. choices) (dec_str v '''')
      else if k = ''choices'' then dec_list (unmarshal_struct set_choice_field) '''' v choices
      else Some choices)"

definition chat_request :: "openai_assistant \<Rightarrow> string \<Rightarrow> string \<Rightarrow> json" where
  "chat_request a system user =
     JObj [(''model'', marshal_string (oa_chat_model a)),
           (''messages'', JArr
              [JObj [(''role'', JStr ''system''), (''content'', marshal_string system)],
               JObj [(''role'', JStr ''user''), (''content'', marshal_string user)]]),
           (''temperature'', JFrac ''0.2'')]"

definition openai_chat ::
  "openai_env \<Rightarrow> openai_assistant \<Rightarrow> string \<Rightarrow> string \<Rightarrow> string list \<times> string result" where
  "openai_chat env a system user =
     (case openai_post env (unmarshal_struct set_chat_field []) a ''/chat/completions'' (chat_request a system user) of
        (urls, Inl e) \<Rightarrow> (urls, Inl e)
      | (urls, Inr choices) \<Rightarrow>
          (urls,
           case choices of
             [] \<Rightarrow> Inl (Plain ''openai chat completion response is empty'')
           | choice # _ \<Rightarrow>
             (let content = trim_space choice in
              if content = '''' then Inl (Plain ''openai chat completion content is empty'') else Inr content)))"


subsection \<open>The methods\<close>

definition summary_system :: string where
  "summary_system = bytes_of
     [0xE4, 0xBD, 0xA0, 0xE6, 0x98, 0xAF, 0xE5, 0x86, 0x85, 0xE5, 0xAE, 0xB9, 0xE8, 0x81, 0x9A, 0xE5,
      0x90, 0x88, 0xE7, 0xB3, 0xBB, 0xE7, 0xBB, 0x9F, 0xE7, 0x9A, 0x84, 0xE6, 0x96, 0x87, 0xE7, 0xAB,
      0xA0, 0xE6, 0x91, 0x98, 0xE8, 0xA6, 0x81, 0xE5, 0x8A, 0xA9, 0xE6, 0x89, 0x8B, 0xE3, 0x80, 0x82]"

definition summary_prompt_head :: string where
  "summary_prompt_head = bytes_of
     [0xE8, 0xAF, 0xB7, 0xE7, 0x94, 0xA8, 0xE4, 0xB8, 0xAD, 0xE6, 0x96, 0x87, 0xE6, 0x80, 0xBB, 0xE7,
      0xBB, 0x93, 0xE4, 0xB8, 0x8B, 0xE9, 0x9D, 0xA2, 0xE8, 0xBF, 0x99, 0xE7, 0xAF, 0x87, 0xE6, 0x96,
      0x87, 0xE7, 0xAB, 0xA0, 0xEF, 0xBC, 0x8C, 0xE4, 0xBF, 0x9D, 0xE7, 0x95, 0x99, 0xE5, 0x85, 0xB3,
      0xE9, 0x94, 0xAE, 0xE4, 0xBA, 0x8B, 0xE5, 0xAE, 0x9E, 0xEF, 0xBC, 0x8C, 0xE6, 0x8E, 0xA7, 0xE5,
      0x88, 0xB6, 0xE5, 0x9C, 0xA8, 0x20, 0x33, 0x20, 0xE5, 0x8F, 0xA5, 0xE8, 0xAF, 0x9D, 0xE4, 0xBB,
      0xA5, 0xE5, 0x86, 0x85, 0xE3, 0x80, 0x82, 0x0A, 0x0A, 0xE6, 0xA0, 0x87, 0xE9, 0xA2, 0x98, 0xEF,
      0xBC, 0x9A]"

definition summary_prompt_mid :: string where
  "summary_prompt_mid = bytes_of
     [0x0A, 0x0A, 0xE5, 0x86, 0x85, 0xE5, 0xAE, 0xB9, 0xEF, 0xBC, 0x9A]"

definition digest_system :: string where
  "digest_system = bytes_of
     [0xE4, 0xBD, 0xA0, 0xE6, 0x98, 0xAF, 0xE5, 0x86, 0x85, 0xE5, 0xAE, 0xB9, 0xE8, 0x81, 0x9A, 0xE5,
      0x90, 0x88, 0xE7, 0xB3, 0xBB, 0xE7, 0xBB, 0x9F, 0xE7, 0x9A, 0x84, 0xE6, 0xAF, 0x8F, 0xE6, 0x97,
      0xA5, 0xE6, 0x91, 0x98, 0xE8, 0xA6, 0x81, 0xE5, 0x8A, 0xA9, 0xE6, 0x89, 0x8B, 0xE3, 0x80, 0x82]"

definition digest_prompt_head :: string where
  "digest_prompt_head = bytes_of
     [0xE8, 0xAF, 0xB7, 0xE6, 0xA0, 0xB9, 0xE6, 0x8D, 0xAE, 0xE4, 0xB8, 0x8B, 0xE9, 0x9D, 0xA2, 0xE7,
      0x9A, 0x84, 0xE6, 0x96, 0x87, 0xE7, 0xAB, 0xA0, 0xE5, 0x88, 0x97, 0xE8, 0xA1, 0xA8, 0xE7, 0x94,
      0x9F, 0xE6, 0x88, 0x90, 0xE4, 0xB8, 0xAD, 0xE6, 0x96, 0x87, 0x20, 0x44, 0x61, 0x69, 0x6C, 0x79,
      0x20, 0x44, 0x69, 0x67, 0x65, 0x73, 0x74, 0xEF, 0xBC, 0x8C, 0xE7, 0xAA, 0x81, 0xE5, 0x87, 0xBA,
      0xE4, 0xB8, 0xBB, 0xE9, 0xA2, 0x98, 0xE3, 0x80, 0x81, 0xE9, 0x87, 0x8D, 0xE8, 0xA6, 0x81, 0xE5,
      0x8F, 0x98, 0xE5, 0x8C, 0x96, 0xE5, 0x92, 0x8C, 0xE5, 0x8F, 0xAF, 0xE8, 0xA1, 0x8C, 0xE5, 0x8A,
      0xA8, 0xE4, 0xBF, 0xA1, 0xE6, 0x81, 0xAF, 0xE3, 0x80, 0x82, 0x0A, 0x0A]"

definition rag_system :: string where
  "rag_system = bytes_of
     [0xE4, 0xBD, 0xA0, 0xE6, 0x98, 0xAF, 0xE5, 0x86, 0x85, 0xE5, 0xAE, 0xB9, 0xE8, 0x81, 0x9A, 0xE5,
      0x90, 0x88, 0xE7, 0xB3, 0xBB, 0xE7, 0xBB, 0x9F, 0xE7, 0x9A, 0x84, 0x20, 0x52, 0x41, 0x47, 0x20,
      0xE9, 0x97, 0xAE, 0xE7, 0xAD, 0x94, 0xE5, 0x8A, 0xA9, 0xE6, 0x89, 0x8B, 0xE3, 0x80, 0x82, 0xE5,
      0x9B, 0x9E, 0xE7, 0xAD, 0x94, 0xE5, 0xBF, 0x85, 0xE9, 0xA1, 0xBB, 0xE5, 0x9F, 0xBA, 0xE4, 0xBA,
      0x8E, 0xE7, 0xBB, 0x99, 0xE5, 0xAE, 0x9A, 0xE6, 0x96, 0x87, 0xE7, 0xAB, 0xA0, 0xE3, 0x80, 0x82]"

definition rag_prompt_head :: string where
  "rag_prompt_head = bytes_of
     [0xE9, 0x97, 0xAE, 0xE9, 0xA2, 0x98, 0xEF, 0xBC, 0x9A]"

definition rag_prompt_mid :: string where
  "rag_prompt_mid = bytes_of
     [0x0A, 0x0A, 0xE5, 0x8F, 0xAF, 0xE5, 0xBC, 0x95, 0xE7, 0x94, 0xA8, 0xE6, 0x96, 0x87, 0xE7, 0xAB,
      0xA0, 0xEF, 0xBC, 0x9A, 0x0A]"

definition rag_prompt_tail :: string where
  "rag_prompt_tail = bytes_of
     [0x0A, 0xE8, 0xAF, 0xB7, 0xE5, 0x8F, 0xAA, 0xE6, 0xA0, 0xB9, 0xE6, 0x8D, 0xAE, 0xE4, 0xB8, 0x8A,
      0xE9, 0x9D, 0xA2, 0xE7, 0x9A, 0x84, 0xE6, 0x96, 0x87, 0xE7, 0xAB, 0xA0, 0xE5, 0x9B, 0x9E, 0xE7,
      0xAD, 0x94, 0xEF, 0xBC, 0x8C, 0xE4, 0xBD, 0xBF, 0xE7, 0x94, 0xA8, 0xE4, 0xB8, 0xAD, 0xE6, 0x96,
      0x87, 0xEF, 0xBC, 0x8C, 0xE6, 0x97, 0xA0, 0xE6, 0xB3, 0x95, 0xE4, 0xBB, 0x8E, 0xE6, 0x96, 0x87,
      0xE7, 0xAB, 0xA0, 0xE5, 0xBE, 0x97, 0xE5, 0x87, 0xBA, 0xE6, 0x97, 0xB6, 0xE6, 0x98, 0x8E, 0xE7,
      0xA1, 0xAE, 0xE8, 0xAF, 0xB4, 0xE6, 0x98, 0x8E, 0xE3, 0x80, 0x82]"

definition openai_Summarize ::
  "openai_env \<Rightarrow> openai_assistant \<Rightarrow> article_input \<Rightarrow> string list \<times> summary_result result" where
  "openai_Summarize env a art =
     (let content = trim_space (ai_firstNonEmpty [ai_content art, ai_summary art, ai_title art]);
          prompt = summary_prompt_head @ ai_title art @ summary_prompt_mid @ truncateText content 6000
      in case openai_chat env a summary_system prompt of
           (urls, Inl e) \<Rightarrow> (urls, Inl e)
         | (urls, Inr answer) \<Rightarrow>
             (urls, Inr \<lparr>sr_model = oa_chat_model a, sr_prompt_version = DefaultSummaryPrompt, sr_summary = answer\<rparr>))"

text \<open>\<open>embeddingResponse\<close>: its model and the vectors of its data.\<close>

definition dec_vector :: "'f float_ops \<Rightarrow> json \<Rightarrow> 'f list \<Rightarrow> 'f list option" where
  "dec_vector ops v old = unmarshal_vector ops v"

definition set_data_field :: "'f float_ops \<Rightarrow> string \<Rightarrow> json \<Rightarrow> 'f list \<Rightarrow> 'f list option" where
  "set_data_field ops k v vec = (if k = ''embedding'' then dec_vector ops v vec else Some vec)"

definition set_embedding_field ::
  "'f float_ops \<Rightarrow> string \<Rightarrow> json \<Rightarrow> string \<times> 'f list list \<Rightarrow> (string \<times> 'f list list) option" where
  "set_embedding_field ops k v r =
     (if k = ''model'' then map_option (\<lambda>x. (x, snd r)) (dec_str v (fst r))
      else if k = ''data'' then
        map_option (\<lambda>x. (fst r, x)) (dec_list (unmarshal_struct (set_data_field ops)) [] v (snd r))
      else Some r)"

definition embedding_request :: "openai_assistant \<Rightarrow> string \<Rightarrow> json" where
  "embedding_request a s =
     JObj [(''model'', marshal_string (oa_embedding_model a)), (''input'', marshal_string (trim_space s))]"

definition openai_Embed ::
  "'f float_ops \<Rightarrow> openai_env \<Rightarrow> openai_assistant \<Rightarrow> string \<Rightarrow> string list \<times> 'f embedding_result result" where
  "openai_Embed ops env a s =
     (case openai_post env (unmarshal_struct (set_embedding_field ops) ('''', [])) a ''/embeddings'' (embedding_request a s) of
        (urls, Inl e) \<Rightarrow> (urls, Inl e)
      | (urls, Inr (model, vectors)) \<Rightarrow>
          (urls,
           if vectors = [] \<or> hd vectors = [] then Inl (Plain ''openai embedding response is empty'')
           else Inr \<lparr>eb_model = ai_firstNonEmpty [model, oa_embedding_model a], eb_version = DefaultEmbeddingVersion,
                     eb_dimensions = int (length (hd vectors)), eb_vector = hd vectors\<rparr>))"

text \<open>\<open>fmt.Fprintf(&builder, "[%d] %s\n%s\n\n", ...)\<close>.\<close>

definition listed_article :: "article_input \<Rightarrow> string \<Rightarrow> string" where
  "listed_article art snippet =
     ''['' @ fmt_int (ai_id art) @ ''] '' @ ai_title art @ [lf] @ snippet @ [lf, lf]"

definition openai_Digest ::
  "openai_env \<Rightarrow> openai_assistant \<Rightarrow> article_input list \<Rightarrow> string list \<times> digest_result result" where
  "openai_Digest env a articles =
     (if articles = [] then
        ([], Inr \<lparr>gr_model = oa_chat_model a, gr_prompt_version = DefaultDigestPrompt,
                  gr_summary = no_digest_text, gr_article_ids = []\<rparr>)
      else
        (let picked = take 10 articles;
             listing = concat (map (\<lambda>art. listed_article art
                         (truncateText (ai_firstNonEmpty [ai_summary art, ai_content art]) 800)) picked)
         in case openai_chat env a digest_system (digest_prompt_head @ listing) of
              (urls, Inl e) \<Rightarrow> (urls, Inl e)
            | (urls, Inr answer) \<Rightarrow>
                (urls, Inr \<lparr>gr_model = oa_chat_model a, gr_prompt_version = DefaultDigestPrompt,
                            gr_summary = answer, gr_article_ids = map ai_id picked\<rparr>)))"

definition openai_citation :: "article_input \<Rightarrow> citation" where
  "openai_citation art =
     \<lparr>ci_article_id = ai_id art, ci_title = ai_title art, ci_url = ai_url art,
      ci_snippet = truncateText (ai_firstNonEmpty [ai_summary art, ai_content art, ai_title art]) 500\<rparr>"

definition openai_Answer ::
  "openai_env \<Rightarrow> openai_assistant \<Rightarrow> string \<Rightarrow> article_input list \<Rightarrow> string list \<times> rag_result result" where
  "openai_Answer env a query articles =
     (let citations = map openai_citation articles;
          listing = concat (map (\<lambda>art. listed_article art (ci_snippet (openai_citation art))) articles)
      in if citations = [] then
           ([], Inr \<lparr>rg_model = oa_chat_model a, rg_prompt_version = DefaultRAGPrompt,
                     rg_answer = no_articles_text, rg_citations = citations\<rparr>)
         else
           (case openai_chat env a rag_system
                   (rag_prompt_head @ trim_space query @ rag_prompt_mid @ listing @ rag_prompt_tail) of
              (urls, Inl e) \<Rightarrow> (urls, Inl e)
            | (urls, Inr answer) \<Rightarrow>
                (urls, Inr \<lparr>rg_model = oa_chat_model a, rg_prompt_version = DefaultRAGPrompt,
                            rg_answer = answer, rg_citations = citations\<rparr>)))"

definition openai_compatible :: "'f float_ops \<Rightarrow> openai_env \<Rightarrow> openai_assistant \<Rightarrow> 'f assistant" where
  "openai_compatible ops env a =
     \<lparr>as_summarize = (\<lambda>art. snd (openai_Summarize env a art)), as_embed = (\<lambda>s. snd (openai_Embed ops env a s)),
      as_digest = (\<lambda>arts. snd (openai_Digest env a arts)), as_answer = (\<lambda>q arts. snd (openai_Answer env a q arts))\<rparr>"

subsection \<open>Properties of the client\<close>

lemma client_Do_redirects_guarded:
  assumes "client_Do env via url = (urls, r)" "via < 10"
  shows "\<exists>us. urls = url # us \<and> list_all (url_ok env) us \<and> length urls + via \<le> 10"
proof (cases "\<exists>resp next_url. he_round_trip env via url = Inr resp \<and> is_redirect resp \<and>
      he_resolve env url (hr_location resp) = Some next_url \<and> safeFeedRedirect env next_url (Suc via) = FollowRedirect")
  case False
  then have "urls = [url]"
    using assms(1) by (auto simp: client_Do.simps [of env via url]
        split: sum.splits option.splits redirect_decision.splits if_splits)
  then show ?thesis using assms(2) by simp
next
  case True
  then obtain resp next_url where h: "he_round_trip env via url = Inr resp" "is_redirect resp"
    "he_resolve env url (hr_location resp) = Some next_url" "safeFeedRedirect env next_url (Suc via) = FollowRedirect"
    by blast
  obtain us r' where rec: "client_Do env (Suc via) next_url = (us, r')" by fastforce
  then have "urls = url # us" using assms(1) h by (simp add: client_Do.simps [of env via url])
  moreover have "url_ok env next_url" "Suc via < 10"
    using h(4) by (auto simp: safeFeedRedirect_def url_ok_def split: sum.splits if_splits)
  ultimately show ?thesis using client_Do_guarded [OF rec] by simp
qed

text \<open>
  The client is made for a base URL that the outbound guard accepts and a key that is not
  blank. A request of it ends after at most ten URLs: the first is the base URL with the path of the
  request, and every URL it is redirected to is one the guard accepts, too.
\<close>

theorem openai_requests_guarded:
  assumes "NewOpenAICompatibleAssistant lib addr_text cfg = Inr a"
    and "openai_post env decode a path body = (urls, r)"
  shows "ValidateHTTPURL lib addr_text (oa_base_url a) = Inr () \<and> oa_api_key a \<noteq> '''' \<and> oa_chat_model a \<noteq> '''' \<and>
    length urls \<le> 10 \<and> (urls \<noteq> [] \<longrightarrow> hd urls = oa_base_url a @ path) \<and>
    list_all (url_ok (oe_http env path body)) (tl urls) \<and> (urls = [] \<longrightarrow> isl r)"
proof -
  have a: "ValidateHTTPURL lib addr_text (oa_base_url a) = Inr ()" "oa_api_key a \<noteq> ''''" "oa_chat_model a \<noteq> ''''"
    using assms(1) by (auto simp: NewOpenAICompatibleAssistant_def Let_def split: if_splits sum.splits)
  show ?thesis
  proof (cases "he_new_request (oe_http env path body) (oa_base_url a @ path)")
    case (Some e)
    then have "urls = []" "isl r" using assms(2) by (auto simp: openai_post_def Let_def)
    then show ?thesis using a by simp
  next
    case None
    obtain us r' where run: "client_Do (oe_http env path body) 0 (oa_base_url a @ path) = (us, r')" by fastforce
    then have "urls = us" using assms(2) None
      by (auto simp: openai_post_def Let_def split: sum.splits if_splits)
    then show ?thesis using a client_Do_redirects_guarded [OF run] by auto
  qed
qed

definition sample_openai_env :: openai_env where
  "sample_openai_env =
     \<lparr>oe_http = (\<lambda>path body. sample_http_env),
      oe_decode = (\<lambda>body. Inr (JObj [(''choices'', JArr [JObj [(''message'', JObj [(''content'', JStr ''ok'')])]])]))\<rparr>"

definition sample_openai_config :: openai_config where
  "sample_openai_config =
     \<lparr>oc_base_url = ''https://a.example/v1'', oc_api_key = ''key'', oc_chat_model = ''m'', oc_embedding_model = '''',
      oc_timeout = 0\<rparr>"

lemma sample_openai_assistant:
  "\<exists>a. NewOpenAICompatibleAssistant (he_lib sample_http_env) (he_addr_text sample_http_env) sample_openai_config = Inr a \<and>
     oa_base_url a = ''https://a.example/v1''"
proof -
  have guard: "ValidateHTTPURL (he_lib sample_http_env) (he_addr_text sample_http_env) url = Inr ()" for url
    using sample_url_ok [of url] by (simp add: url_ok_def)
  have "trim_space ''https://a.example/v1'' = ''https://a.example/v1''" "trim_space ''key'' = ''key''"
    "trim_space ''m'' = ''m''"
    by (rule trim_space_visible; simp add: visible_def)+
  then show ?thesis
    by (simp add: NewOpenAICompatibleAssistant_def sample_openai_config_def guard trim_right_def Let_def)
qed

theorem openai_requests_guarded_witness:
  "\<exists>a urls r. NewOpenAICompatibleAssistant (he_lib sample_http_env) (he_addr_text sample_http_env) sample_openai_config = Inr a \<and>
     openai_chat sample_openai_env a ''s'' ''q'' = (urls, r) \<and> length urls \<le> 10"
proof -
  obtain a where a: "NewOpenAICompatibleAssistant (he_lib sample_http_env) (he_addr_text sample_http_env) sample_openai_config = Inr a"
    using sample_openai_assistant by blast
  obtain urls r where p: "openai_post sample_openai_env (unmarshal_struct set_chat_field []) a ''/chat/completions''
      (chat_request a ''s'' ''q'') = (urls, r)" by fastforce
  have "length urls \<le> 10" using openai_requests_guarded [OF a p] by simp
  moreover obtain r' where "openai_chat sample_openai_env a ''s'' ''q'' = (urls, r')"
    using p by (cases r) (simp_all add: openai_chat_def)
  ultimately show ?thesis using a by blast
qed

end
