(* ===== verification/AI_Service.thy ===== *)
theory AI_Service
  imports AI_Queue AI_OpenAI
begin

section \<open>The AI service\<close>

text \<open>
  \<open>service.go\<close> and \<open>dto.go\<close> of \<open>internal/module/ai\<close>. An operation is a sequence of statements on the
  database: a value of its \<open>stmt\<close> type names each of them, \<open>fault\<close> gives their outcomes and
  \<open>env\<close> what other processes commit before each of them. \<open>clock\<close> gives the times the operation
  reads, in order.
\<close>

text \<open>The interface \<open>SecretBox\<close>; the random nonce of an encryption is part of the box.\<close>

record secret_box =
  sb_encrypt :: "string \<Rightarrow> (string \<times> string) result"
  sb_decrypt :: "string \<Rightarrow> string \<Rightarrow> string result"

record 'f ai_service =
  sv_lib :: ai_lib
  sv_addr_text :: "ip_addr \<Rightarrow> string"
  sv_ops :: "'f float_ops"
  sv_assistant :: "'f assistant"
  sv_assistant_factory :: "openai_config \<Rightarrow> 'f assistant result"
  sv_secret_box :: "secret_box option"
  sv_max_attempts :: int
  sv_retry_backoff :: duration

type_synonym 'f ai_option = "'f ai_service \<Rightarrow> 'f ai_service"

definition WithRetry :: "int \<Rightarrow> duration \<Rightarrow> 'f ai_option" where
  "WithRetry maxAttempts backoff s =
     (let s1 = (if maxAttempts > 0 then s\<lparr>sv_max_attempts := maxAttempts\<rparr> else s)
      in if backoff > 0 then s1\<lparr>sv_retry_backoff := backoff\<rparr> else s1)"

definition WithSecretBox :: "secret_box option \<Rightarrow> 'f ai_option" where
  "WithSecretBox box s = s\<lparr>sv_secret_box := box\<rparr>"

definition WithAssistantFactory :: "(openai_config \<Rightarrow> 'f assistant result) option \<Rightarrow> 'f ai_option" where
  "WithAssistantFactory factory s = (case factory of None \<Rightarrow> s | Some f \<Rightarrow> s\<lparr>sv_assistant_factory := f\<rparr>)"

definition defaultAssistantFactory ::
  "ai_lib \<Rightarrow> (ip_addr \<Rightarrow> string) \<Rightarrow> 'f float_ops \<Rightarrow> openai_env \<Rightarrow> openai_config \<Rightarrow> 'f assistant result" where
  "defaultAssistantFactory lib addr_text ops net cfg =
     (case NewOpenAICompatibleAssistant (al_go lib) addr_text cfg of
        Inl e \<Rightarrow> Inl e | Inr a \<Rightarrow> Inr (openai_compatible ops net a))"

definition ai_NewService ::
  "ai_lib \<Rightarrow> (ip_addr \<Rightarrow> string) \<Rightarrow> 'f float_ops \<Rightarrow> openai_env \<Rightarrow> 'f assistant option \<Rightarrow> 'f ai_option list \<Rightarrow> 'f ai_service" where
  "ai_NewService lib addr_text ops net assistant opts =
     fold (\<lambda>opt. opt) opts
       \<lparr>sv_lib = lib, sv_addr_text = addr_text, sv_ops = ops,
        sv_assistant = (case assistant of None \<Rightarrow> extractive_assistant lib ops | Some a \<Rightarrow> a),
        sv_assistant_factory = defaultAssistantFactory lib addr_text ops net, sv_secret_box = None,
        sv_max_attempts = 3, sv_retry_backoff = minute\<rparr>"


subsection \<open>Answers\<close>

record summary_dto =
  sd2_id :: int
  sd2_article_id :: int
  sd2_model :: string
  sd2_prompt_version :: string
  sd2_summary :: string
  sd2_status :: string
  sd2_attempts :: int
  sd2_error_message :: string
  sd2_created_at :: time
  sd2_updated_at :: time

record embedding_dto =
  ed_id :: int
  ed_article_id :: int
  ed_model :: string
  ed_version :: string
  ed_dimensions :: int
  ed_content_hash :: string
  ed_created_at :: time
  ed_updated_at :: time

record 'f similar_article =
  sa_article_id :: int
  sa_title :: string
  sa_summary :: string
  sa_url :: "string option"
  sa_score :: 'f

record digest_dto =
  gd_id :: int
  gd_digest_date :: string
  gd_model :: string
  gd_prompt_version :: string
  gd_summary :: string
  gd_article_ids :: "int list"
  gd_status :: string
  gd_error_message :: string
  gd_created_at :: time
  gd_updated_at :: time

record ai_settings_dto =
  st_provider :: string
  st_base_url :: string
  st_model :: string
  st_embedding_model :: string
  st_has_api_key :: bool
  st_updated_at :: time

definition summaryToDTO :: "article_summary \<Rightarrow> summary_dto" where
  "summaryToDTO s =
     \<lparr>sd2_id = sm_id s, sd2_article_id = sm_article_id s, sd2_model = sm_model s,
      sd2_prompt_version = sm_prompt_version s, sd2_summary = sm_summary s, sd2_status = sm_status s,
      sd2_attempts = sm_attempts s, sd2_error_message = sm_error_message s, sd2_created_at = sm_created_at s,
      sd2_updated_at = sm_updated_at s\<rparr>"

definition embeddingToDTO :: "'f embedding_record \<Rightarrow> embedding_dto" where
  "embeddingToDTO r =
     \<lparr>ed_id = er_id r, ed_article_id = er_article_id r, ed_model = er_model r, ed_version = er_version r,
      ed_dimensions = er_dimensions r, ed_content_hash = er_content_hash r, ed_created_at = er_created_at r,
      ed_updated_at = er_updated_at r\<rparr>"

text \<open>\<open>Format(time.DateOnly)\<close> of a time in UTC.\<close>

definition date_only :: "time \<Rightarrow> string" where
  "date_only t =
     (let (y, m, d) = civil_from_days (t div second div 86400)
      in fmt_width 4 y @ ''-'' @ fmt_width 2 m @ ''-'' @ fmt_width 2 d)"

definition digestToDTO :: "digest_record \<Rightarrow> digest_dto" where
  "digestToDTO r =
     \<lparr>gd_id = dr_id r, gd_digest_date = date_only (dr_digest_date r), gd_model = dr_model r,
      gd_prompt_version = dr_prompt_version r, gd_summary = dr_summary r, gd_article_ids = dr_article_ids r,
      gd_status = dr_status r, gd_error_message = dr_error_message r, gd_created_at = dr_created_at r,
      gd_updated_at = dr_updated_at r\<rparr>"

definition normalizeAIProvider :: "ai_lib \<Rightarrow> string \<Rightarrow> string result" where
  "normalizeAIProvider lib provider =
     (let p = to_lower (gl_lower (al_go lib)) (trim_space provider) in
      if p \<in> {'''', ''local'', ''extractive''} then Inr ''local''
      else if p \<in> {''openai'', ''openai-compatible''} then Inr ''openai-compatible''
      else Inl (Sentinel ErrInvalidAIProvider))"

definition normalizeAIBaseURL :: "ai_lib \<Rightarrow> (ip_addr \<Rightarrow> string) \<Rightarrow> string \<Rightarrow> string result" where
  "normalizeAIBaseURL lib addr_text raw =
     (let baseURL = trim_right ''/'' (trim_space raw);
          baseURL = (if baseURL = '''' then DefaultOpenAIBaseURL else baseURL)
      in case ValidateHTTPURL (al_go lib) addr_text baseURL of
           Inl e \<Rightarrow> Inl (sentinel_with ErrInvalidAIBaseURL (error_text e))
         | Inr _ \<Rightarrow> Inr baseURL)"

definition aiSettingsToDTO :: "ai_lib \<Rightarrow> user_ai_settings \<Rightarrow> ai_settings_dto" where
  "aiSettingsToDTO lib r =
     \<lparr>st_provider = (case normalizeAIProvider lib (ui_provider r) of Inl _ \<Rightarrow> ''local'' | Inr p \<Rightarrow> p),
      st_base_url = ui_base_url r, st_model = ui_model r, st_embedding_model = ui_embedding_model r,
      st_has_api_key = (ui_api_key_ciphertext r \<noteq> '''' \<and> ui_api_key_nonce r \<noteq> ''''),
      st_updated_at = ui_updated_at r\<rparr>"

definition defaultAISettingsDTO :: ai_settings_dto where
  "defaultAISettingsDTO =
     \<lparr>st_provider = ''local'', st_base_url = DefaultOpenAIBaseURL, st_model = '''',
      st_embedding_model = DefaultOpenAIEmbeddingModel, st_has_api_key = False, st_updated_at = zero_time\<rparr>"


subsection \<open>Helpers\<close>

definition embeddingText :: "article_with_state \<Rightarrow> string" where
  "embeddingText row = strings_join [lf] [aw_title row, aw_summary row, aw_content row]"

definition contentHash :: "ai_lib \<Rightarrow> article_with_state \<Rightarrow> string" where
  "contentHash lib row = hex_encode (al_sha256 lib (embeddingText row))"

definition articleInput :: "ai_lib \<Rightarrow> article_with_state \<Rightarrow> article_input" where
  "articleInput lib row =
     \<lparr>ai_id = aw_id row, ai_title = aw_title row, ai_summary = aw_summary row, ai_content = aw_content row,
      ai_url = aw_url row, ai_content_hash = contentHash lib row\<rparr>"

definition cosineSimilarity :: "'f float_ops \<Rightarrow> 'f list \<Rightarrow> 'f list \<Rightarrow> 'f" where
  "cosineSimilarity ops a b =
     (if a = [] \<or> length a \<noteq> length b then fo_zero ops
      else
        (let dot = foldl (\<lambda>s (x, y). fo_add ops s (fo_mul ops x y)) (fo_zero ops) (zip a b);
             normA = sum_squares ops a; normB = sum_squares ops b
         in if fo_eq ops normA (fo_zero ops) \<or> fo_eq ops normB (fo_zero ops) then fo_zero ops
            else fo_div ops dot (fo_mul ops (fo_sqrt ops normA) (fo_sqrt ops normB))))"

definition ai_normalizeLimit :: "int \<Rightarrow> int \<Rightarrow> int \<Rightarrow> int" where
  "ai_normalizeLimit value defaultValue maxValue =
     (if value \<le> 0 then defaultValue else if value > maxValue then maxValue else value)"

text \<open>
  \<open>sort.SliceStable\<close> with \<open>gt\<close> as its order, by insertion; on a strict weak order every stable
  sort gives the same list.
\<close>

fun insert_stable :: "('a \<Rightarrow> 'a \<Rightarrow> bool) \<Rightarrow> 'a \<Rightarrow> 'a list \<Rightarrow> 'a list" where
  "insert_stable gt x [] = [x]"
| "insert_stable gt x (y # ys) = (if gt y x then y # insert_stable gt x ys else x # y # ys)"

definition sort_stable :: "('a \<Rightarrow> 'a \<Rightarrow> bool) \<Rightarrow> 'a list \<Rightarrow> 'a list" where
  "sort_stable gt xs = foldr (insert_stable gt) xs []"

type_synonym 'f similar_score = "int \<times> 'f"

text \<open>The scores of the records above zero, best first, cut at the limit.\<close>

definition scored_records ::
  "'f float_ops \<Rightarrow> 'f list \<Rightarrow> 'f embedding_record list \<Rightarrow> int \<Rightarrow> 'f similar_score list" where
  "scored_records ops vec records limit =
     take (nat limit)
       (sort_stable (\<lambda>a b. fo_less ops (snd b) (snd a))
         (filter (\<lambda>s. fo_less ops (fo_zero ops) (snd s))
           (map (\<lambda>r. (er_article_id r, cosineSimilarity ops vec (er_embedding r))) records)))"

definition nextAttempt :: "'f ai_service \<Rightarrow> time \<Rightarrow> int \<Rightarrow> time" where
  "nextAttempt s now attempts = time_add now (wrap64 (wrap64 (attempts + 1) * sv_retry_backoff s))"

definition assistantForUser ::
  "'f ai_service \<Rightarrow> go_error option \<Rightarrow> int \<Rightarrow> ai_db \<Rightarrow> 'f assistant result" where
  "assistantForUser s fault uid db =
     (case FindAISettings fault uid db of
        Inl e \<Rightarrow> if errors_is e ErrAISettingsNotFound then Inr (sv_assistant s) else Inl e
      | Inr r \<Rightarrow>
        (case normalizeAIProvider (sv_lib s) (ui_provider r) of
           Inl e \<Rightarrow> Inl e
         | Inr provider \<Rightarrow>
             if provider = ''local'' then Inr (sv_assistant s)
             else if ui_api_key_ciphertext r = '''' \<or> ui_api_key_nonce r = '''' then
               Inl (Sentinel ErrAISettingsEncryptionKeyRequired)
             else (case sv_secret_box s of
                None \<Rightarrow> Inl (Sentinel ErrAISettingsEncryptionKeyRequired)
              | Some box \<Rightarrow>
                (case sb_decrypt box (ui_api_key_ciphertext r) (ui_api_key_nonce r) of
                   Inl e \<Rightarrow> Inl (Wrapf ''decrypt ai api key: '' e '''')
                 | Inr apiKey \<Rightarrow>
                   (case normalizeAIBaseURL (sv_lib s) (sv_addr_text s) (ui_base_url r) of
                      Inl e \<Rightarrow> Inl e
                    | Inr baseURL \<Rightarrow> sv_assistant_factory s
                        \<lparr>oc_base_url = baseURL, oc_api_key = apiKey, oc_chat_model = ui_model r,
                         oc_embedding_model = ai_firstNonEmpty [ui_embedding_model r, DefaultOpenAIEmbeddingModel],
                         oc_timeout = 0\<rparr>)))))"

subsection \<open>Summaries\<close>

datatype request_summary_stmt = RqArticle | RqFind | RqEnqueue ai_stmt

definition enqueue_requested ::
  "request_summary_stmt faults \<Rightarrow> (request_summary_stmt \<Rightarrow> ai_db \<Rightarrow> ai_db) \<Rightarrow> time \<Rightarrow> int \<Rightarrow> int \<Rightarrow> bool \<Rightarrow> ai_db \<Rightarrow>
   ai_db \<times> summary_dto result" where
  "enqueue_requested fault env now uid aid regenerate db =
     (case EnqueueSummary (\<lambda>st. fault (RqEnqueue st)) (env (RqEnqueue AiReload))
             \<lparr>en_user_id = uid, en_article_id = aid, en_model = DefaultSummaryModel,
              en_prompt_version = DefaultSummaryPrompt, en_now = now, en_regenerate = regenerate\<rparr>
             (env (RqEnqueue AiWrite) db) of
        (db', Inl e) \<Rightarrow> (db', Inl (Wrapf ''request article summary: '' e ''''))
      | (db', Inr s) \<Rightarrow> (db', Inr (summaryToDTO s)))"

definition RequestSummary ::
  "request_summary_stmt faults \<Rightarrow> (request_summary_stmt \<Rightarrow> ai_db \<Rightarrow> ai_db) \<Rightarrow> time \<Rightarrow> int \<Rightarrow> int \<Rightarrow> bool \<Rightarrow> ai_db \<Rightarrow>
   ai_db \<times> summary_dto result" where
  "RequestSummary fault env now uid aid regenerate db =
     (if uid \<le> 0 \<or> aid \<le> 0 then (db, Inl (Sentinel ErrArticleNotFound))
      else
        (let db1 = env RqArticle db in
         case Article_FindByUserAndID (fault RqArticle) uid aid (ai_articles db1) of
           Inl e \<Rightarrow> (db1, Inl e)
         | Inr _ \<Rightarrow>
             if regenerate then enqueue_requested fault env now uid aid True db1
             else
               (let db2 = env RqFind db1 in
                case FindSummary (fault RqFind) uid aid DefaultSummaryPrompt db2 of
                  Inr existing \<Rightarrow>
                    if sm_status existing = StatusSucceeded then (db2, Inr (summaryToDTO existing))
                    else enqueue_requested fault env now uid aid False db2
                | Inl e \<Rightarrow>
                    if errors_is e ErrSummaryNotFound then enqueue_requested fault env now uid aid False db2
                    else (db2, Inl e))))"

definition GetSummary :: "go_error option \<Rightarrow> int \<Rightarrow> int \<Rightarrow> ai_db \<Rightarrow> summary_dto result" where
  "GetSummary fault uid aid db =
     (case FindSummary fault uid aid DefaultSummaryPrompt db of
        Inl e \<Rightarrow> Inl e | Inr s \<Rightarrow> Inr (summaryToDTO s))"

text \<open>
  One turn of the summary worker: whether a job was processed and the error, if any. The clock
  is read for the claim (0), for the next attempt (1) and for the result (2). The assistant
  works between the reading of the settings and the write of the result.
\<close>

datatype process_stmt = PrClaim claim_summary_stmt | PrArticle | PrSettings | PrResult ai_stmt

definition fail_job ::
  "'f ai_service \<Rightarrow> process_stmt faults \<Rightarrow> (process_stmt \<Rightarrow> ai_db \<Rightarrow> ai_db) \<Rightarrow> (nat \<Rightarrow> time) \<Rightarrow> article_summary \<Rightarrow>
   go_error \<Rightarrow> ai_db \<Rightarrow> ai_db \<times> bool \<times> go_error option" where
  "fail_job s fault env clock job e db =
     (case FailSummary (\<lambda>st. fault (PrResult st)) (env (PrResult AiReload)) (sm_id job) (error_text e)
             (nextAttempt s (clock 1) (sm_attempts job)) (clock 2) (env (PrResult AiWrite) db) of
        (db', Inl failErr) \<Rightarrow> (db', True, Some failErr)
      | (db', Inr _) \<Rightarrow> (db', True, Some e))"

definition ProcessNextSummary ::
  "'f ai_service \<Rightarrow> process_stmt faults \<Rightarrow> (int \<Rightarrow> bool) \<Rightarrow> (process_stmt \<Rightarrow> ai_db \<Rightarrow> ai_db) \<Rightarrow> (nat \<Rightarrow> time) \<Rightarrow> ai_db \<Rightarrow>
   ai_db \<times> bool \<times> go_error option" where
  "ProcessNextSummary s fault busy env clock db =
     (case ClaimNextSummary (\<lambda>st. fault (PrClaim st)) busy (env (PrClaim SumReload)) (clock 0) (sv_max_attempts s)
             (env (PrClaim SumSelect) db) of
        (db1, Inl e) \<Rightarrow> if errors_is e ErrNoSummaryJob then (db1, False, None) else (db1, False, Some e)
      | (db1, Inr job) \<Rightarrow>
        (let db2 = env PrArticle db1 in
         case Article_FindByUserAndID (fault PrArticle) (sm_user_id job) (sm_article_id job) (ai_articles db2) of
           Inl e \<Rightarrow> fail_job s fault env clock job e db2
         | Inr row \<Rightarrow>
           (let db3 = env PrSettings db2 in
            case assistantForUser s (fault PrSettings) (sm_user_id job) db3 of
              Inl e \<Rightarrow> fail_job s fault env clock job e db3
            | Inr assistant \<Rightarrow>
              (case as_summarize assistant (articleInput (sv_lib s) row) of
                 Inl e \<Rightarrow> fail_job s fault env clock job e db3
               | Inr res \<Rightarrow>
                 (case CompleteSummary (\<lambda>st. fault (PrResult st)) (env (PrResult AiReload)) (sm_id job)
                         (sr_summary res) (clock 2) (env (PrResult AiWrite) db3) of
                    (db4, Inl e) \<Rightarrow> (db4, True, Some e)
                  | (db4, Inr _) \<Rightarrow> (db4, True, None))))))"


subsection \<open>Settings\<close>

definition GetAISettings :: "'f ai_service \<Rightarrow> go_error option \<Rightarrow> int \<Rightarrow> ai_db \<Rightarrow> ai_settings_dto result" where
  "GetAISettings s fault uid db =
     (case FindAISettings fault uid db of
        Inl e \<Rightarrow> if errors_is e ErrAISettingsNotFound then Inr defaultAISettingsDTO else Inl e
      | Inr r \<Rightarrow> Inr (aiSettingsToDTO (sv_lib s) r))"

record update_ai_settings_request =
  ur_user_id :: int
  ur_provider :: string
  ur_base_url :: string
  ur_model :: string
  ur_embedding_model :: string
  ur_api_key :: "string option"

datatype update_settings_stmt = UsFind | UsUpsert ai_stmt

text \<open>The key to store: the old one, none, or the encryption of the new one.\<close>

definition new_api_key ::
  "'f ai_service \<Rightarrow> string option \<Rightarrow> user_ai_settings option \<Rightarrow> (string \<times> string) result" where
  "new_api_key s key current =
     (case key of
        None \<Rightarrow> Inr (case current of None \<Rightarrow> ('''', '''')
                                | Some r \<Rightarrow> (ui_api_key_ciphertext r, ui_api_key_nonce r))
      | Some k \<Rightarrow>
        (let apiKey = trim_space k in
         if apiKey = '''' then Inr ('''', '''')
         else (case sv_secret_box s of
            None \<Rightarrow> Inl (Sentinel ErrAISettingsEncryptionKeyRequired)
          | Some box \<Rightarrow>
            (case sb_encrypt box apiKey of
               Inl e \<Rightarrow> Inl (Wrapf ''encrypt ai api key: '' e '''')
             | Inr cn \<Rightarrow> Inr cn))))"

definition store_ai_settings ::
  "'f ai_service \<Rightarrow> update_settings_stmt faults \<Rightarrow> (update_settings_stmt \<Rightarrow> ai_db \<Rightarrow> ai_db) \<Rightarrow> time \<Rightarrow>
   update_ai_settings_request \<Rightarrow> string \<Rightarrow> string \<Rightarrow> string \<Rightarrow> user_ai_settings option \<Rightarrow> ai_db \<Rightarrow>
   ai_db \<times> ai_settings_dto result" where
  "store_ai_settings s fault env now req provider baseURL model current db =
     (case new_api_key s (ur_api_key req) current of
        Inl e \<Rightarrow> (db, Inl e)
      | Inr (ciphertext, nonce) \<Rightarrow>
        (case UpsertAISettings (\<lambda>st. fault (UsUpsert st)) (env (UsUpsert AiReload))
                \<lparr>us_settings_user_id = ur_user_id req, us_settings_provider = provider, us_settings_base_url = baseURL,
                 us_settings_model = model,
                 us_settings_embedding_model = ai_firstNonEmpty [ur_embedding_model req, DefaultOpenAIEmbeddingModel],
                 us_settings_ciphertext = ciphertext, us_settings_nonce = nonce, us_settings_now = now\<rparr>
                (env (UsUpsert AiWrite) db) of
           (db', Inl e) \<Rightarrow> (db', Inl e)
         | (db', Inr r) \<Rightarrow> (db', Inr (aiSettingsToDTO (sv_lib s) r))))"

definition UpdateAISettings ::
  "'f ai_service \<Rightarrow> update_settings_stmt faults \<Rightarrow> (update_settings_stmt \<Rightarrow> ai_db \<Rightarrow> ai_db) \<Rightarrow> time \<Rightarrow>
   update_ai_settings_request \<Rightarrow> ai_db \<Rightarrow> ai_db \<times> ai_settings_dto result" where
  "UpdateAISettings s fault env now req db =
     (case normalizeAIProvider (sv_lib s) (ur_provider req) of
        Inl e \<Rightarrow> (db, Inl e)
      | Inr provider \<Rightarrow>
        (case normalizeAIBaseURL (sv_lib s) (sv_addr_text s) (ur_base_url req) of
           Inl e \<Rightarrow> (db, Inl e)
         | Inr baseURL \<Rightarrow>
           (let model = trim_space (ur_model req) in
            if provider = ''openai-compatible'' \<and> model = '''' then (db, Inl (Sentinel ErrInvalidAIModel))
            else
              (let db1 = env UsFind db in
               case FindAISettings (fault UsFind) (ur_user_id req) db1 of
                 Inl e \<Rightarrow>
                   if errors_is e ErrAISettingsNotFound
                   then store_ai_settings s fault env now req provider baseURL model None db1
                   else (db1, Inl e)
               | Inr current \<Rightarrow> store_ai_settings s fault env now req provider baseURL model (Some current) db1))))"

subsection \<open>Embeddings and similar articles\<close>

datatype embedding_stmt = GeArticle | GeSettings | GeUpsert ai_stmt

definition GenerateEmbedding ::
  "'f ai_service \<Rightarrow> embedding_stmt faults \<Rightarrow> (embedding_stmt \<Rightarrow> ai_db \<Rightarrow> ai_db) \<Rightarrow> time \<Rightarrow> int \<Rightarrow> int \<Rightarrow> ai_db \<Rightarrow>
   ai_db \<times> embedding_dto result" where
  "GenerateEmbedding s fault env now uid aid db =
     (let db1 = env GeArticle db in
      case Article_FindByUserAndID (fault GeArticle) uid aid (ai_articles db1) of
        Inl e \<Rightarrow> (db1, Inl e)
      | Inr row \<Rightarrow>
        (let db2 = env GeSettings db1 in
         case assistantForUser s (fault GeSettings) uid db2 of
           Inl e \<Rightarrow> (db2, Inl e)
         | Inr assistant \<Rightarrow>
           (case as_embed assistant (embeddingText row) of
              Inl e \<Rightarrow> (db2, Inl (Wrapf ''generate embedding: '' e ''''))
            | Inr res \<Rightarrow>
              (case UpsertEmbedding (sv_ops s) (\<lambda>st. fault (GeUpsert st)) (env (GeUpsert AiReload))
                      \<lparr>ue_user_id = uid, ue_article_id = aid, ue_model = eb_model res, ue_version = eb_version res,
                       ue_dimensions = eb_dimensions res, ue_embedding = eb_vector res,
                       ue_content_hash = contentHash (sv_lib s) row, ue_now = now\<rparr>
                      (env (GeUpsert AiWrite) db2) of
                 (db3, Inl e) \<Rightarrow> (db3, Inl e)
               | (db3, Inr r) \<Rightarrow> (db3, Inr (embeddingToDTO r))))))"

datatype similar_stmt = SiFind | SiGenerate embedding_stmt | SiRefind | SiList | SiArticle nat

text \<open>The articles of the scores, in their order; one that is not found any more is left out.\<close>

fun similar_rows ::
  "(nat \<Rightarrow> go_error option) \<Rightarrow> (nat \<Rightarrow> ai_db \<Rightarrow> ai_db) \<Rightarrow> int \<Rightarrow> nat \<Rightarrow> 'f similar_score list \<Rightarrow> ai_db \<Rightarrow>
   ai_db \<times> (article_with_state \<times> 'f) list" where
  "similar_rows fault env uid i [] db = (db, [])"
| "similar_rows fault env uid i ((aid, score) # scores) db =
     (let db1 = env i db; (db2, rest) = similar_rows fault env uid (Suc i) scores db1
      in (db2, case Article_FindByUserAndID (fault i) uid aid (ai_articles db1) of
                 Inl e \<Rightarrow> rest | Inr row \<Rightarrow> (row, score) # rest))"

definition similar_dto :: "article_with_state \<times> 'f \<Rightarrow> 'f similar_article" where
  "similar_dto = (\<lambda>(row, score).
     \<lparr>sa_article_id = aw_id row, sa_title = aw_title row,
      sa_summary = ai_firstNonEmpty [aw_summary row, truncateText (aw_content row) 220],
      sa_url = aw_url row, sa_score = score\<rparr>)"

definition rank_similar ::
  "'f ai_service \<Rightarrow> similar_stmt faults \<Rightarrow> (similar_stmt \<Rightarrow> ai_db \<Rightarrow> ai_db) \<Rightarrow> int \<Rightarrow> int \<Rightarrow> int \<Rightarrow>
   'f embedding_record \<Rightarrow> ai_db \<Rightarrow> ai_db \<times> 'f similar_article list result" where
  "rank_similar s fault env uid aid limit target db =
     (let db1 = env SiList db in
      case ListEmbeddingsByUser (sv_ops s) (fault SiList) uid (er_model target) (er_version target) 500 db1 of
        Inl e \<Rightarrow> (db1, Inl e)
      | Inr records \<Rightarrow>
        (let scored = scored_records (sv_ops s) (er_embedding target) (filter (\<lambda>r. er_article_id r \<noteq> aid) records) limit;
             (db2, found_rows) = similar_rows (\<lambda>i. fault (SiArticle i)) (\<lambda>i. env (SiArticle i)) uid 0 scored db1
         in (db2, Inr (map similar_dto found_rows))))"

definition SimilarArticles ::
  "'f ai_service \<Rightarrow> similar_stmt faults \<Rightarrow> (similar_stmt \<Rightarrow> ai_db \<Rightarrow> ai_db) \<Rightarrow> time \<Rightarrow> int \<Rightarrow> int \<Rightarrow> int \<Rightarrow> ai_db \<Rightarrow>
   ai_db \<times> 'f similar_article list result" where
  "SimilarArticles s fault env now uid aid lim db =
     (let limit = ai_normalizeLimit lim 5 20; db1 = env SiFind db in
      case FindEmbedding (sv_ops s) (fault SiFind) uid aid DefaultEmbeddingModel DefaultEmbeddingVersion db1 of
        Inr target \<Rightarrow> rank_similar s fault env uid aid limit target db1
      | Inl e \<Rightarrow>
          if \<not> errors_is e ErrEmbeddingNotFound then (db1, Inl e)
          else
            (case GenerateEmbedding s (\<lambda>st. fault (SiGenerate st)) (\<lambda>st. env (SiGenerate st)) now uid aid db1 of
               (db2, Inl genErr) \<Rightarrow> (db2, Inl genErr)
             | (db2, Inr generated) \<Rightarrow>
               (let db3 = env SiRefind db2 in
                case FindEmbedding (sv_ops s) (fault SiRefind) uid aid (ed_model generated) (ed_version generated) db3 of
                  Inl e' \<Rightarrow> (db3, Inl e')
                | Inr target \<Rightarrow> rank_similar s fault env uid aid limit target db3)))"


subsection \<open>Digests\<close>

datatype digest_stmt = DgList article_list_stmt | DgSettings | DgUpsert ai_stmt

definition recent_articles_request :: "int \<Rightarrow> string \<Rightarrow> int \<Rightarrow> list_articles_request" where
  "recent_articles_request uid query limit =
     \<lparr>la_user_id = uid, la_source_id = 0, la_query = query, la_is_read = None, la_is_saved = None,
      la_limit = limit, la_offset = 0\<rparr>"

definition GenerateDigest ::
  "'f ai_service \<Rightarrow> (string \<Rightarrow> article \<Rightarrow> bool) \<Rightarrow> digest_stmt faults \<Rightarrow> (digest_stmt \<Rightarrow> ai_db \<Rightarrow> ai_db) \<Rightarrow> time \<Rightarrow>
   int \<Rightarrow> time \<Rightarrow> ai_db \<Rightarrow> ai_db \<times> digest_dto result" where
  "GenerateDigest s found fault env now uid date db =
     (let db1 = env (DgList ArticleCount) db in
      case Article_ListByUser found (\<lambda>st. fault (DgList st)) (recent_articles_request uid '''' 20) (ai_articles db1) of
        Inl e \<Rightarrow> (db1, Inl (Wrapf ''list digest articles: '' e ''''))
      | Inr (articles, _) \<Rightarrow>
        (let inputs = map (articleInput (sv_lib s)) articles; db2 = env DgSettings db1 in
         case assistantForUser s (fault DgSettings) uid db2 of
           Inl e \<Rightarrow> (db2, Inl e)
         | Inr assistant \<Rightarrow>
           (case as_digest assistant inputs of
              Inl e \<Rightarrow> (db2, Inl (Wrapf ''generate digest: '' e ''''))
            | Inr generated \<Rightarrow>
              (case UpsertDigest (\<lambda>st. fault (DgUpsert st)) (env (DgUpsert AiReload))
                      \<lparr>ud_user_id = uid, ud_digest_date = date, ud_model = gr_model generated,
                       ud_prompt_version = gr_prompt_version generated, ud_summary = gr_summary generated,
                       ud_article_ids = gr_article_ids generated, ud_now = now\<rparr>
                      (env (DgUpsert AiWrite) db2) of
                 (db3, Inl e) \<Rightarrow> (db3, Inl e)
               | (db3, Inr r) \<Rightarrow> (db3, Inr (digestToDTO r))))))"

definition GetDigest :: "go_error option \<Rightarrow> int \<Rightarrow> time \<Rightarrow> ai_db \<Rightarrow> digest_dto result" where
  "GetDigest fault uid date db =
     (case FindDigest fault uid date DefaultDigestPrompt db of
        Inl e \<Rightarrow> Inl e | Inr r \<Rightarrow> Inr (digestToDTO r))"


subsection \<open>Answers from articles\<close>

datatype rag_stmt = RgSettings | RgEmbeddings | RgArticle nat | RgList article_list_stmt

definition embeddingRAGInputs ::
  "'f ai_service \<Rightarrow> rag_stmt faults \<Rightarrow> (rag_stmt \<Rightarrow> ai_db \<Rightarrow> ai_db) \<Rightarrow> 'f assistant \<Rightarrow> int \<Rightarrow> string \<Rightarrow> int \<Rightarrow> ai_db \<Rightarrow>
   ai_db \<times> article_input list result" where
  "embeddingRAGInputs s fault env assistant uid query limit db =
     (case as_embed assistant query of
        Inl _ \<Rightarrow> (db, Inr [])
      | Inr q \<Rightarrow>
        (let db1 = env RgEmbeddings db in
         case ListEmbeddingsByUser (sv_ops s) (fault RgEmbeddings) uid (eb_model q) (eb_version q) 500 db1 of
           Inl e \<Rightarrow> (db1, Inl (Wrapf ''list rag embeddings: '' e ''''))
         | Inr records \<Rightarrow>
           (let scored = scored_records (sv_ops s) (eb_vector q) records limit;
                (db2, found_rows) = similar_rows (\<lambda>i. fault (RgArticle i)) (\<lambda>i. env (RgArticle i)) uid 0 scored db1
            in (db2, Inr (map (\<lambda>(row, score). articleInput (sv_lib s) row) found_rows)))))"

definition rag_answer :: "'f assistant \<Rightarrow> string \<Rightarrow> article_input list \<Rightarrow> rag_result result" where
  "rag_answer assistant query inputs =
     (case as_answer assistant query inputs of
        Inl e \<Rightarrow> Inl (Wrapf ''generate rag answer: '' e '''')
      | Inr r \<Rightarrow> Inr r)"

definition RAGSearch ::
  "'f ai_service \<Rightarrow> (string \<Rightarrow> article \<Rightarrow> bool) \<Rightarrow> rag_stmt faults \<Rightarrow> (rag_stmt \<Rightarrow> ai_db \<Rightarrow> ai_db) \<Rightarrow>
   int \<Rightarrow> string \<Rightarrow> int \<Rightarrow> ai_db \<Rightarrow> ai_db \<times> rag_result result" where
  "RAGSearch s found fault env uid rawQuery lim db =
     (let query = trim_space rawQuery in
      if query = '''' then (db, Inl (Sentinel ErrEmptyQuery))
      else
        (let limit = ai_normalizeLimit lim 5 12; db1 = env RgSettings db in
         case assistantForUser s (fault RgSettings) uid db1 of
           Inl e \<Rightarrow> (db1, Inl e)
         | Inr assistant \<Rightarrow>
           (case embeddingRAGInputs s fault env assistant uid query limit db1 of
              (db2, Inl e) \<Rightarrow> (db2, Inl e)
            | (db2, Inr inputs) \<Rightarrow>
                if inputs \<noteq> [] then (db2, rag_answer assistant query inputs)
                else
                  (let db3 = env (RgList ArticleCount) db2 in
                   case Article_ListByUser found (\<lambda>st. fault (RgList st)) (recent_articles_request uid query limit)
                          (ai_articles db3) of
                     Inl e \<Rightarrow> (db3, Inl (Wrapf ''list rag articles: '' e ''''))
                   | Inr (articles, _) \<Rightarrow>
                       (db3, rag_answer assistant query (map (articleInput (sv_lib s)) articles))))))"


subsection \<open>The summary worker\<close>

text \<open>
  \<open>SummaryWorker.Run\<close> as the list of its turns: \<open>turns\<close> gives the outcome of each call of
  \<open>ProcessNextSummary\<close> on the state it finds, \<open>canceled i\<close> whether the context is done when the
  worker, idle after turn \<open>i\<close>, waits for its ticker. The worker only stops when it is idle; \<open>fuel\<close>
  bounds the turns looked at.
\<close>

datatype worker_outcome = WorkerStopped | WorkerRunning

fun SummaryWorker_Run ::
  "nat \<Rightarrow> (nat \<Rightarrow> ai_db \<Rightarrow> ai_db \<times> bool \<times> go_error option) \<Rightarrow> (nat \<Rightarrow> bool) \<Rightarrow> nat \<Rightarrow> ai_db \<Rightarrow>
   ai_db \<times> go_error list \<times> worker_outcome" where
  "SummaryWorker_Run 0 turns canceled i db = (db, [], WorkerRunning)"
| "SummaryWorker_Run (Suc fuel) turns canceled i db =
     (case turns i db of
        (db', processed, err) \<Rightarrow>
          (let warned = (case err of None \<Rightarrow> [] | Some e \<Rightarrow> [e]) in
           if \<not> processed \<and> canceled i then (db', warned, WorkerStopped)
           else (case SummaryWorker_Run fuel turns canceled (Suc i) db' of
             (db'', ws, res) \<Rightarrow> (db'', warned @ ws, res))))"

end
