(* ===== verification/AI_Behaviour.thy ===== *)
theory AI_Behaviour
  imports AI_Service
begin

section \<open>What the AI service does\<close>

text \<open>
  The settings with the encrypted key, the ranking of similar articles, what answers cite, and
  the progress of the summary worker.
\<close>

subsection \<open>Articles and settings found\<close>

lemma articleQuery_rows:
  "(a, row) \<in> set (articleQuery uid b db) \<Longrightarrow>
     a \<in> set (rows (ad_articles db)) \<and> article_owned (ad_sources db) uid a \<and> aw_id row = ar_id a"
  by (auto simp: articleQuery_def select_rows_def article_row_def)

lemma article_reachable_row:
  "a \<in> set (rows (ad_articles db)) \<Longrightarrow> article_owned (ad_sources db) uid a \<Longrightarrow> article_reachable db uid (ar_id a)"
  by (auto simp: article_reachable_def find_row_None simp del: not_None_eq)

lemma Article_FindByUserAndID_Inr:
  "Article_FindByUserAndID f uid aid db = Inr row \<Longrightarrow> article_reachable db uid aid \<and> aw_id row = aid"
  by (auto simp: Article_FindByUserAndID_def find_Some_iff split: option.splits
      dest!: nth_mem articleQuery_rows dest: article_reachable_row)

lemma Article_FindByUserAndID_reachable:
  assumes "article_reachable db uid aid"
  shows "\<exists>row. Article_FindByUserAndID None uid aid db = Inr row"
proof -
  obtain a where a: "a \<in> set (rows (ad_articles db))" "ar_id a = aid" "article_owned (ad_sources db) uid a"
    using assms by (auto simp: article_reachable_def dest: find_row_SomeD)
  have "find (\<lambda>(a, row). ar_id a = aid) (articleQuery uid True db) \<noteq> None"
    using a by (auto simp: find_None_iff articleQuery_def select_rows_def)
  then show ?thesis by (auto simp: Article_FindByUserAndID_def)
qed

lemma Article_FindByUserAndID_unreachable:
  assumes "\<not> article_reachable db uid aid"
  shows "Article_FindByUserAndID None uid aid db = Inl (Sentinel ErrArticleNotFound)"
proof (cases "Article_FindByUserAndID None uid aid db")
  case (Inl e)
  then show ?thesis by (auto simp: Article_FindByUserAndID_def split: option.splits)
next
  case (Inr row)
  then show ?thesis using Article_FindByUserAndID_Inr assms by blast
qed

lemma Article_ListByUser_rows:
  assumes "Article_ListByUser found f p db = Inr (arts, n)" "row \<in> set arts"
  shows "article_reachable db (la_user_id p) (aw_id row)"
proof -
  have "row \<in> set (sort_key article_order (map snd (filter (applyArticleFilters found p) (articleQuery (la_user_id p) False db))))"
    using assms by (auto simp: Article_ListByUser_def Let_def page_def split: option.splits dest!: in_set_takeD in_set_dropD)
  then obtain a where "(a, row) \<in> set (articleQuery (la_user_id p) False db)" by auto
  from articleQuery_rows [OF this] show ?thesis by (metis article_reachable_row)
qed

lemma aiSettingsModelToRecord_id [simp]: "aiSettingsModelToRecord m = m"
  by (simp add: aiSettingsModelToRecord_def)

lemma FindAISettings_None:
  "FindAISettings None uid db =
     (case find_row (\<lambda>m. ui_user_id m = uid) (ai_settings db) of
        None \<Rightarrow> Inl (Sentinel ErrAISettingsNotFound) | Some r \<Rightarrow> Inr r)"
  by (simp add: FindAISettings_def split: option.split)

declare ai_firstNonEmpty.simps [simp del]


subsection \<open>Storing settings\<close>

abbreviation settings_row :: "int \<Rightarrow> ai_db \<Rightarrow> user_ai_settings option" where
  "settings_row uid db \<equiv> find_row (\<lambda>m. ui_user_id m = uid) (ai_settings db)"

definition settings_params ::
  "time \<Rightarrow> update_ai_settings_request \<Rightarrow> string \<Rightarrow> string \<Rightarrow> string \<times> string \<Rightarrow> upsert_ai_settings_params" where
  "settings_params now req provider baseURL cn =
     \<lparr>us_settings_user_id = ur_user_id req, us_settings_provider = provider, us_settings_base_url = baseURL,
      us_settings_model = trim_space (ur_model req),
      us_settings_embedding_model = ai_firstNonEmpty [ur_embedding_model req, DefaultOpenAIEmbeddingModel],
      us_settings_ciphertext = fst cn, us_settings_nonce = snd cn, us_settings_now = now\<rparr>"

text \<open>An update that succeeds, taken apart.\<close>

lemma UpdateAISettings_success:
  assumes "UpdateAISettings s no_faults no_env now req db = (db', Inr dto)"
  obtains provider baseURL cn r where
    "normalizeAIProvider (sv_lib s) (ur_provider req) = Inr provider"
    "normalizeAIBaseURL (sv_lib s) (sv_addr_text s) (ur_base_url req) = Inr baseURL"
    "provider = ''openai-compatible'' \<Longrightarrow> trim_space (ur_model req) \<noteq> ''''"
    "new_api_key s (ur_api_key req) (settings_row (ur_user_id req) db) = Inr cn"
    "db' = db\<lparr>ai_settings := upsert_ai_settings_row (settings_params now req provider baseURL cn) (ai_settings db)\<rparr>"
    "settings_row (ur_user_id req) db' = Some r" "dto = aiSettingsToDTO (sv_lib s) r"
proof -
  obtain provider where p: "normalizeAIProvider (sv_lib s) (ur_provider req) = Inr provider"
    using assms by (cases "normalizeAIProvider (sv_lib s) (ur_provider req)") (auto simp: UpdateAISettings_def)
  obtain baseURL where b: "normalizeAIBaseURL (sv_lib s) (sv_addr_text s) (ur_base_url req) = Inr baseURL"
    using assms p by (cases "normalizeAIBaseURL (sv_lib s) (sv_addr_text s) (ur_base_url req)") (auto simp: UpdateAISettings_def)
  have m: "provider = ''openai-compatible'' \<Longrightarrow> trim_space (ur_model req) \<noteq> ''''"
    using assms p b by (auto simp: UpdateAISettings_def)
  have st: "store_ai_settings s no_faults no_env now req provider baseURL (trim_space (ur_model req))
      (settings_row (ur_user_id req) db) db = (db', Inr dto)"
    using assms p b by (auto simp: UpdateAISettings_def Let_def FindAISettings_None split: if_splits option.splits)
  obtain cn where cn: "new_api_key s (ur_api_key req) (settings_row (ur_user_id req) db) = Inr cn"
    using st by (cases "new_api_key s (ur_api_key req) (settings_row (ur_user_id req) db)") (auto simp: store_ai_settings_def)
  let ?p = "settings_params now req provider baseURL cn"
  have up: "UpsertAISettings no_faults (\<lambda>d. d) ?p db =
      (db', case settings_row (ur_user_id req) db' of None \<Rightarrow> Inl (Sentinel ErrAISettingsNotFound) | Some r \<Rightarrow> Inr r) \<and>
      db' = db\<lparr>ai_settings := upsert_ai_settings_row ?p (ai_settings db)\<rparr> \<and>
      (\<exists>r. settings_row (ur_user_id req) db' = Some r \<and> dto = aiSettingsToDTO (sv_lib s) r)"
    using st cn by (cases cn) (auto simp: store_ai_settings_def UpsertAISettings_def FindAISettings_None
        settings_params_def split: sum.splits option.splits)
  then obtain r where "settings_row (ur_user_id req) db' = Some r" "dto = aiSettingsToDTO (sv_lib s) r"
    "db' = db\<lparr>ai_settings := upsert_ai_settings_row ?p (ai_settings db)\<rparr>" by blast
  then show thesis using that [OF p b m cn] by blast
qed

text \<open>The row that such an update leaves.\<close>

lemma settings_row_after:
  assumes "db' = db\<lparr>ai_settings := upsert_ai_settings_row p (ai_settings db)\<rparr>"
  shows "\<exists>r. settings_row (us_settings_user_id p) db' = Some r \<and> ui_provider r = us_settings_provider p \<and>
      ui_base_url r = us_settings_base_url p \<and> ui_model r = us_settings_model p \<and>
      ui_embedding_model r = us_settings_embedding_model p \<and>
      ui_api_key_ciphertext r = us_settings_ciphertext p \<and> ui_api_key_nonce r = us_settings_nonce p"
    and "uid \<noteq> us_settings_user_id p \<Longrightarrow> settings_row uid db' = settings_row uid db"
proof -
  show "\<exists>r. settings_row (us_settings_user_id p) db' = Some r \<and> ui_provider r = us_settings_provider p \<and>
      ui_base_url r = us_settings_base_url p \<and> ui_model r = us_settings_model p \<and>
      ui_embedding_model r = us_settings_embedding_model p \<and>
      ui_api_key_ciphertext r = us_settings_ciphertext p \<and> ui_api_key_nonce r = us_settings_nonce p"
    using assms ais.ups_finds [of p "ai_settings db"]
    by (cases "settings_row (us_settings_user_id p) db") (simp_all add: new_ai_settings_def ai_settings_assignments_def)
  show "uid \<noteq> us_settings_user_id p \<Longrightarrow> settings_row uid db' = settings_row uid db"
    using assms ais.ups_other [of uid p "ai_settings db"] by simp
qed

text \<open>
  An update of the AI settings without a key keeps the stored key, one with a blank key erases
  it, and one with a key replaces it by its encryption; the stored URL is one the outbound guard
  accepts, the answer tells only whether there is a key, and no other user's settings change.
\<close>

theorem ai_settings_update_effect:
  assumes "UpdateAISettings s no_faults no_env now req db = (db', Inr dto)"
  shows "\<exists>r. settings_row (ur_user_id req) db' = Some r \<and> dto = aiSettingsToDTO (sv_lib s) r \<and>
    ValidateHTTPURL (al_go (sv_lib s)) (sv_addr_text s) (ui_base_url r) = Inr () \<and>
    (case ur_api_key req of
       None \<Rightarrow> (ui_api_key_ciphertext r, ui_api_key_nonce r) =
         (case settings_row (ur_user_id req) db of None \<Rightarrow> ('''', '''')
          | Some old \<Rightarrow> (ui_api_key_ciphertext old, ui_api_key_nonce old))
     | Some k \<Rightarrow>
         if trim_space k = '''' then ui_api_key_ciphertext r = '''' \<and> ui_api_key_nonce r = '''' \<and> \<not> st_has_api_key dto
         else \<exists>box. sv_secret_box s = Some box \<and>
           sb_encrypt box (trim_space k) = Inr (ui_api_key_ciphertext r, ui_api_key_nonce r)) \<and>
    (\<forall>uid. uid \<noteq> ur_user_id req \<longrightarrow> settings_row uid db' = settings_row uid db)"
  using assms
proof (rule UpdateAISettings_success)
  fix provider baseURL cn r
  assume h: "normalizeAIBaseURL (sv_lib s) (sv_addr_text s) (ur_base_url req) = Inr baseURL"
    "new_api_key s (ur_api_key req) (settings_row (ur_user_id req) db) = Inr cn"
    "db' = db\<lparr>ai_settings := upsert_ai_settings_row (settings_params now req provider baseURL cn) (ai_settings db)\<rparr>"
    "settings_row (ur_user_id req) db' = Some r" "dto = aiSettingsToDTO (sv_lib s) r"
  let ?p = "settings_params now req provider baseURL cn"
  have uid: "us_settings_user_id ?p = ur_user_id req" by (simp add: settings_params_def)
  have r: "ui_base_url r = baseURL" "ui_api_key_ciphertext r = fst cn" "ui_api_key_nonce r = snd cn"
    using settings_row_after(1) [OF h(3)] h(4) unfolding uid by (auto simp: settings_params_def)
  have "ValidateHTTPURL (al_go (sv_lib s)) (sv_addr_text s) baseURL = Inr ()"
    using h(1) by (auto simp: normalizeAIBaseURL_def Let_def split: sum.splits)
  moreover have "\<forall>uid. uid \<noteq> ur_user_id req \<longrightarrow> settings_row uid db' = settings_row uid db"
    using settings_row_after(2) [OF h(3)] unfolding uid by blast
  ultimately show ?thesis using h(2,4,5) r
    by (auto simp: new_api_key_def Let_def aiSettingsToDTO_def split: option.splits if_splits sum.splits)
qed

text \<open>The stored values are read back as they were written.\<close>

lemma ai_firstNonEmpty_trimmed: "trim_space (ai_firstNonEmpty vs) = ai_firstNonEmpty vs"
  by (induction vs) (auto simp: ai_firstNonEmpty.simps Let_def)

lemma ai_firstNonEmpty_idem:
  "ai_firstNonEmpty vs \<noteq> '''' \<Longrightarrow> ai_firstNonEmpty (ai_firstNonEmpty vs # ws) = ai_firstNonEmpty vs"
  by (simp add: ai_firstNonEmpty.simps ai_firstNonEmpty_trimmed Let_def)

lemma trim_space_provider: "trim_space ''openai-compatible'' = ''openai-compatible''" "trim_space ''local'' = ''local''"
  by (rule trim_space_visible; simp add: visible_def)+

lemma to_lower_provider:
  "to_lower uni ''openai-compatible'' = ''openai-compatible''" "to_lower uni ''local'' = ''local''"
  by (simp_all add: to_lower_def ascii_only_def lower_byte_def)

lemma normalizeAIProvider_fixed:
  "normalizeAIProvider lib ''openai-compatible'' = Inr ''openai-compatible''" "normalizeAIProvider lib ''local'' = Inr ''local''"
  by (simp_all add: normalizeAIProvider_def trim_space_provider to_lower_provider)

lemma trim_right_idem: "trim_right cs (trim_right cs x) = trim_right cs x"
  by (simp add: trim_right_def dropWhile_idem)

lemma normalizeAIBaseURL_stored:
  assumes "normalizeAIBaseURL lib addr raw = Inr baseURL" "trim_space baseURL = baseURL"
  shows "normalizeAIBaseURL lib addr baseURL = Inr baseURL"
proof -
  have b: "baseURL = (if trim_right ''/'' (trim_space raw) = '''' then DefaultOpenAIBaseURL else trim_right ''/'' (trim_space raw))"
    and ok: "ValidateHTTPURL (al_go lib) addr baseURL = Inr ()"
    using assms(1) by (auto simp: normalizeAIBaseURL_def Let_def split: sum.splits if_splits)
  have "baseURL \<noteq> ''''" using b by (auto simp: DefaultOpenAIBaseURL_def split: if_splits)
  moreover have "trim_right ''/'' baseURL = baseURL"
    using b by (auto simp: DefaultOpenAIBaseURL_def trim_right_def dropWhile_idem split: if_splits)
  ultimately show ?thesis using ok assms(2) by (simp add: normalizeAIBaseURL_def Let_def)
qed

text \<open>
  C31. What a user stores is what the assistant works with. After an update that is accepted, to a
  provider that is read as \<open>local\<close>, the user has the service's own assistant. After one to an
  OpenAI compatible provider with a key, the answer says that there is a key and the user's
  assistant is the one made for exactly that key, model, embedding model and base URL (without
  spaces around and slashes after it; when slashes hid a space at the end the URL is trimmed and
  checked once more), if the secret box decrypts what it has encrypted; with a blank key the
  user's assistant is refused for want of a key.
\<close>

theorem ai_settings_round_trip:
  assumes "UpdateAISettings s no_faults no_env now req db = (db', Inr dto)"
    and "\<And>box p c n. sv_secret_box s = Some box \<Longrightarrow> sb_encrypt box p = Inr (c, n) \<Longrightarrow>
      c \<noteq> '''' \<and> n \<noteq> '''' \<and> sb_decrypt box c n = Inr p"
  shows "normalizeAIProvider (sv_lib s) (ur_provider req) = Inr ''local'' \<and>
      assistantForUser s None (ur_user_id req) db' = Inr (sv_assistant s) \<or>
    normalizeAIProvider (sv_lib s) (ur_provider req) = Inr ''openai-compatible'' \<and>
      (\<exists>baseURL. normalizeAIBaseURL (sv_lib s) (sv_addr_text s) (ur_base_url req) = Inr baseURL \<and>
         (trim_space baseURL = baseURL \<longrightarrow> normalizeAIBaseURL (sv_lib s) (sv_addr_text s) baseURL = Inr baseURL) \<and>
         (\<forall>k. ur_api_key req = Some k \<longrightarrow> trim_space k \<noteq> '''' \<longrightarrow>
            st_has_api_key dto \<and> assistantForUser s None (ur_user_id req) db' =
              (case normalizeAIBaseURL (sv_lib s) (sv_addr_text s) baseURL of
                 Inl e \<Rightarrow> Inl e
               | Inr url \<Rightarrow> sv_assistant_factory s
                   \<lparr>oc_base_url = url, oc_api_key = trim_space k, oc_chat_model = trim_space (ur_model req),
                    oc_embedding_model = ai_firstNonEmpty [ur_embedding_model req, DefaultOpenAIEmbeddingModel],
                    oc_timeout = 0\<rparr>)) \<and>
         (\<forall>k. ur_api_key req = Some k \<longrightarrow> trim_space k = '''' \<longrightarrow>
            assistantForUser s None (ur_user_id req) db' = Inl (Sentinel ErrAISettingsEncryptionKeyRequired)))"
  using assms(1)
proof (rule UpdateAISettings_success)
  fix provider url cn r
  assume h: "normalizeAIProvider (sv_lib s) (ur_provider req) = Inr provider"
    "normalizeAIBaseURL (sv_lib s) (sv_addr_text s) (ur_base_url req) = Inr url"
    "new_api_key s (ur_api_key req) (settings_row (ur_user_id req) db) = Inr cn"
    "db' = db\<lparr>ai_settings := upsert_ai_settings_row (settings_params now req provider url cn) (ai_settings db)\<rparr>"
    "settings_row (ur_user_id req) db' = Some r" "dto = aiSettingsToDTO (sv_lib s) r"
  let ?p = "settings_params now req provider url cn" and ?em = "ai_firstNonEmpty [ur_embedding_model req, DefaultOpenAIEmbeddingModel]"
  have uid: "us_settings_user_id ?p = ur_user_id req" by (simp add: settings_params_def)
  obtain c n where cn: "cn = (c, n)" by (cases cn)
  have r: "ui_provider r = provider" "ui_base_url r = url" "ui_model r = trim_space (ur_model req)"
    "ui_embedding_model r = ?em" "ui_api_key_ciphertext r = c" "ui_api_key_nonce r = n"
    using settings_row_after(1) [OF h(4)] h(5) cn unfolding uid by (auto simp: settings_params_def)
  have "?em \<noteq> ''''"
    by (simp add: ai_firstNonEmpty.simps Let_def DefaultOpenAIEmbeddingModel_def trim_space_visible visible_def)
  then have em: "ai_firstNonEmpty [?em, DefaultOpenAIEmbeddingModel] = ?em" by (rule ai_firstNonEmpty_idem)
  note find = h(6) assistantForUser_def FindAISettings_None h(5) and prov = normalizeAIProvider_fixed
  consider "provider = ''local''" | "provider = ''openai-compatible''"
    using h(1) by (auto simp: normalizeAIProvider_def Let_def split: if_splits)
  then show ?thesis
  proof cases
    case 1
    then show ?thesis using h(1) r(1) prov unfolding find by simp
  next
    case 2
    have key: "st_has_api_key dto \<and> assistantForUser s None (ur_user_id req) db' =
          (case normalizeAIBaseURL (sv_lib s) (sv_addr_text s) url of
             Inl e \<Rightarrow> Inl e
           | Inr u \<Rightarrow> sv_assistant_factory s
               \<lparr>oc_base_url = u, oc_api_key = trim_space k, oc_chat_model = trim_space (ur_model req),
                oc_embedding_model = ?em, oc_timeout = 0\<rparr>)"
      if k: "ur_api_key req = Some k" "trim_space k \<noteq> ''''" for k
    proof -
      obtain box where box: "sv_secret_box s = Some box" "sb_encrypt box (trim_space k) = Inr (c, n)"
        using h(3) k cn by (auto simp: new_api_key_def Let_def split: sum.splits option.splits)
      from assms(2) [OF this] show ?thesis
        unfolding find using r box(1) em prov 2 by (simp add: aiSettingsToDTO_def split: sum.split)
    qed
    have blank: "assistantForUser s None (ur_user_id req) db' = Inl (Sentinel ErrAISettingsEncryptionKeyRequired)"
      if "ur_api_key req = Some k" "trim_space k = ''''" for k
      unfolding find using h(3) that cn r prov 2 by (simp add: new_api_key_def)
    show ?thesis using h(1,2) 2 key blank normalizeAIBaseURL_stored [OF h(2)] by blast
  qed
qed


subsection \<open>The summary worker\<close>

text \<open>A user without settings of their own gets the service's assistant.\<close>

lemma assistantForUser_default:
  "settings_row uid db = None \<Longrightarrow> assistantForUser s None uid db = Inr (sv_assistant s)"
  by (simp add: assistantForUser_def FindAISettings_None)

lemma FindSummary_key:
  assumes "queue_inv M db" "summary_row k db = Some r" "article_reachable (ai_articles db) (sm_user_id r) (sm_article_id r)"
  shows "FindSummary None (sm_user_id r) (sm_article_id r) (sm_prompt_version r) db = Inr r"
proof -
  have k: "k = (sm_article_id r, sm_prompt_version r)" using summary_row_SomeD [OF assms(2)] by (simp add: summary_key_def)
  have "find_row (summary_selected (ai_articles db) (sm_user_id r) (sm_article_id r) (sm_prompt_version r)) (ai_summaries db) =
      find_row (\<lambda>s. summary_key s = k) (ai_summaries db)"
  proof (rule find_row_cong)
    fix x assume x: "x \<in> set (rows (ai_summaries db))"
    have "x = r" if "summary_key x = k"
      using that x summary_row_SomeD [OF assms(2)] assms(1) by (metis keyed_table_unique queue_inv_def)
    then show "summary_selected (ai_articles db) (sm_user_id r) (sm_article_id r) (sm_prompt_version r) x = (summary_key x = k)"
      using assms(3) k by (auto simp: summary_selected_def summary_key_def)
  qed
  then show ?thesis using assms(2) by (simp add: FindSummary_def summary_row_def)
qed

lemma update_rows_twice:
  assumes "\<And>r. P r \<Longrightarrow> Q (f r)" "\<And>r. Q r \<Longrightarrow> P r"
  shows "update_rows Q g (update_rows P f t) = update_rows P (\<lambda>r. g (f r)) t"
  using assms by (auto simp: update_rows_def)

lemma update_rows_cong:
  "(\<And>r. r \<in> set (rows t) \<Longrightarrow> P r \<Longrightarrow> f r = g r) \<Longrightarrow> update_rows P f t = update_rows P g t"
  by (simp add: update_rows_def cong: map_cong)

text \<open>One turn of the worker on the next summary.\<close>

definition summarized :: "article_db \<Rightarrow> ai_lib \<Rightarrow> time \<Rightarrow> article_summary \<Rightarrow> article_summary" where
  "summarized adb lib now r =
     (case Article_FindByUserAndID None (sm_user_id r) (sm_article_id r) adb of
        Inl _ \<Rightarrow> r
      | Inr row \<Rightarrow> (case extractive_Summarize (articleInput lib row) of
          Inl _ \<Rightarrow> r
        | Inr res \<Rightarrow> summary_completed (sr_summary res) now (summary_claimed now r)))"

lemma turn_completes:
  assumes "queue_inv (sv_max_attempts s) db"
    and "next_summary (\<lambda>_. False) now (sv_max_attempts s) (ai_summaries db) = Some r"
    and "article_reachable (ai_articles db) (sm_user_id r) (sm_article_id r)"
    and "assistantForUser s None (sm_user_id r) db = Inr A" "as_summarize A = extractive_Summarize"
  shows "\<exists>db'. ProcessNextSummary s no_faults (\<lambda>_. False) no_env (\<lambda>_. now) db = (db', True, None) \<and>
    db' = db\<lparr>ai_summaries := update_rows (\<lambda>x. sm_id x = sm_id r)
        (\<lambda>_. summarized (ai_articles db) (sv_lib s) now r) (ai_summaries db)\<rparr> \<and>
    queue_inv (sv_max_attempts s) db' \<and> sm_status (summarized (ai_articles db) (sv_lib s) now r) = StatusSucceeded"
proof -
  let ?M = "sv_max_attempts s"
  let ?ev = "QClaim no_faults (\<lambda>_. False) now"
  let ?db1 = "db\<lparr>ai_summaries := update_rows (\<lambda>x. sm_id x = sm_id r) (summary_claimed now) (ai_summaries db)\<rparr>"
  have takes: "claim_takes ?M ?ev db = Some r" using assms(2) by (simp add: claim_takes_def)
  have db1: "queue_step ?M ?ev db = ?db1" using assms(2) by (simp add: ClaimNextSummary_def Let_def)
  have q1: "queue_inv ?M ?db1" using queue_inv_step [OF assms(1), of ?ev] unfolding db1 .
  have row: "summary_row (summary_key r) ?db1 = Some (summary_claimed now r)"
    using summary_row_claim [OF assms(1) refl, where f = no_faults and busy = "\<lambda>_. False" and now = now and k = "summary_key r"]
      takes db1 by (simp del: queue_step.simps)
  have claimed: "sm_user_id (summary_claimed now r) = sm_user_id r" "sm_article_id (summary_claimed now r) = sm_article_id r"
    "sm_prompt_version (summary_claimed now r) = sm_prompt_version r" by (simp_all add: summary_claimed_def)
  have find1: "FindSummary None (sm_user_id r) (sm_article_id r) (sm_prompt_version r) ?db1 = Inr (summary_claimed now r)"
    using FindSummary_key [OF q1 row] assms(3) unfolding claimed by simp
  have claim: "ClaimNextSummary no_faults (\<lambda>_. False) (\<lambda>d. d) now ?M db = (?db1, Inr (summary_claimed now r))"
    using assms(2) find1 by (simp add: ClaimNextSummary_def Let_def)
  obtain a where a: "Article_FindByUserAndID None (sm_user_id r) (sm_article_id r) (ai_articles db) = Inr a"
    using Article_FindByUserAndID_reachable [OF assms(3)] by blast
  obtain res where res: "extractive_Summarize (articleInput (sv_lib s) a) = Inr res"
    using extractive_Summarize_result by blast
  have as: "assistantForUser s None (sm_user_id r) ?db1 = Inr A"
    using assms(4) by (simp add: assistantForUser_def FindAISettings_def)
  let ?done = "summary_completed (sr_summary res) now (summary_claimed now r)"
  have r: "r \<in> set (rows (ai_summaries db))" using next_summary_SomeD [OF assms(2)] by simp
  have "update_rows (\<lambda>x. sm_id x = sm_id r) (summary_completed (sr_summary res) now) (ai_summaries ?db1) =
      update_rows (\<lambda>x. sm_id x = sm_id r) (\<lambda>_. ?done) (ai_summaries db)" (is "?two = _")
  proof -
    have same: "x = r" if "x \<in> set (rows (ai_summaries db))" "sm_id x = sm_id r" for x
      using that r assms(1) by (metis keyed_table_ident queue_inv_def)
    have "update_rows (\<lambda>x. sm_id x = sm_id r) (summary_completed (sr_summary res) now) (ai_summaries ?db1) =
        update_rows (\<lambda>x. sm_id x = sm_id r) (\<lambda>x. summary_completed (sr_summary res) now (summary_claimed now x)) (ai_summaries db)"
      by (simp add: update_rows_twice)
    also have "\<dots> = update_rows (\<lambda>x. sm_id x = sm_id r) (\<lambda>_. ?done) (ai_summaries db)"
      by (rule update_rows_cong) (use same in blast)
    finally show ?thesis .
  qed
  moreover have "find_row (\<lambda>x. sm_id x = sm_id r) (update_rows (\<lambda>x. sm_id x = sm_id r) (\<lambda>_. ?done) (ai_summaries db)) \<noteq> None"
    using r by (auto simp: find_row_None set_rows_update simp del: not_None_eq)
  moreover have "queue_inv ?M (db\<lparr>ai_summaries := ?two\<rparr>)"
    using queue_inv_step [OF q1, of "QComplete no_faults (sm_id r) (sr_summary res) now"]
    by (simp add: CompleteSummary_def Let_def)
  moreover have "summarized (ai_articles db) (sv_lib s) now r = ?done" "sm_status ?done = StatusSucceeded"
    using a res by (simp_all add: summarized_def summary_completed_def)
  ultimately show ?thesis using a res as claim claimed assms(5)
    by (auto simp: ProcessNextSummary_def CompleteSummary_def summary_by_id_def Let_def split: option.split)
qed

lemma turn_idle:
  "next_summary (\<lambda>_. False) now (sv_max_attempts s) (ai_summaries db) = None \<Longrightarrow>
     ProcessNextSummary s no_faults (\<lambda>_. False) no_env (\<lambda>_. now) db = (db, False, None)"
  by (simp add: ProcessNextSummary_def ClaimNextSummary_def)

text \<open>Working off one element of those that satisfy \<open>P\<close>, told by its key.\<close>

lemma work_off_one:
  fixes g :: "'a \<Rightarrow> 'a"
  assumes "r \<in> set xs" "P r" "\<And>x. x \<in> set xs \<Longrightarrow> key x = key r \<Longrightarrow> x = r" "\<not> P (g r)"
  defines "ys \<equiv> map (\<lambda>x. if key x = key r then g r else x) xs"
  shows "length (filter P ys) < length (filter P xs)"
    and "map (\<lambda>x. if P x then g x else x) ys = map (\<lambda>x. if P x then g x else x) xs"
    and "x \<in> set xs \<Longrightarrow> P x \<Longrightarrow> x = r \<or> x \<in> set ys"
    and "x \<in> set ys \<Longrightarrow> P x \<Longrightarrow> x \<in> set xs"
proof -
  have "filter P ys = filter (\<lambda>x. key x \<noteq> key r) (filter P xs)"
    unfolding ys_def using assms(4) by (induction xs) auto
  moreover have "length (filter (\<lambda>x. key x \<noteq> key r) (filter P xs)) < length (filter P xs)"
    using assms(1,2) by (intro length_filter_less [of r]) auto
  ultimately show "length (filter P ys) < length (filter P xs)" by simp
  show "map (\<lambda>x. if P x then g x else x) ys = map (\<lambda>x. if P x then g x else x) xs"
    unfolding ys_def using assms(2-4) by (auto intro!: map_cong)
  show "x \<in> set xs \<Longrightarrow> P x \<Longrightarrow> x = r \<or> x \<in> set ys" unfolding ys_def using assms(3) [of x] by force
  show "x \<in> set ys \<Longrightarrow> P x \<Longrightarrow> x \<in> set xs" unfolding ys_def using assms(4) by (auto split: if_splits)
qed

abbreviation due_summaries :: "int \<Rightarrow> time \<Rightarrow> ai_db \<Rightarrow> article_summary list" where
  "due_summaries M now db \<equiv> filter (summary_claimable now M) (rows (ai_summaries db))"

text \<open>
  C30. The summary worker drains its queue. Let every due summary's article still be reachable for
  its user and the user's assistant be an extractive one (the user has no settings, or those of
  the provider \<open>local\<close>, in a service that uses the built-in assistant), let no statement fail, the
  clock stand and nobody else write to the tables meanwhile. Then after as many turns as there are
  due summaries every one of them has succeeded with the extractive summary of its article, all
  other rows are as they were, and nothing was logged, whatever the context says while there is
  work. (A summary whose article is gone when it is claimed stays processing.)
\<close>

theorem summary_worker_drains:
  assumes "queue_inv (sv_max_attempts s) db"
    and "\<forall>r \<in> set (due_summaries (sv_max_attempts s) now db).
      \<exists>A. assistantForUser s None (sm_user_id r) db = Inr A \<and> as_summarize A = extractive_Summarize"
    and "\<forall>r \<in> set (due_summaries (sv_max_attempts s) now db). article_reachable (ai_articles db) (sm_user_id r) (sm_article_id r)"
    and "length (due_summaries (sv_max_attempts s) now db) \<le> fuel"
    and "SummaryWorker_Run fuel (\<lambda>_. ProcessNextSummary s no_faults (\<lambda>_. False) no_env (\<lambda>_. now)) canceled i db =
           (db', warned, res)"
  shows "warned = [] \<and>
    rows (ai_summaries db') = map (\<lambda>r. if summary_claimable now (sv_max_attempts s) r
        then summarized (ai_articles db) (sv_lib s) now r else r) (rows (ai_summaries db)) \<and>
    (\<forall>r \<in> set (due_summaries (sv_max_attempts s) now db).
       sm_status (summarized (ai_articles db) (sv_lib s) now r) = StatusSucceeded)"
  using assms
proof (induction fuel arbitrary: i db warned res)
  case 0
  then have "\<forall>r \<in> set (rows (ai_summaries db)). \<not> summary_claimable now (sv_max_attempts s) r"
    by (simp add: filter_empty_conv)
  then show ?case using 0 by (auto intro!: map_idI [symmetric])
next
  case (Suc fuel)
  let ?M = "sv_max_attempts s" and ?turn = "ProcessNextSummary s no_faults (\<lambda>_. False) no_env (\<lambda>_. now)"
  show ?case
  proof (cases "next_summary (\<lambda>_. False) now ?M (ai_summaries db)")
    case None
    then have none: "\<forall>r \<in> set (rows (ai_summaries db)). \<not> summary_claimable now ?M r" by (simp add: next_summary_None)
    then have empty: "due_summaries ?M now db = []" by (simp add: filter_empty_conv)
    have keep: "map (\<lambda>r. if summary_claimable now ?M r then summarized (ai_articles db) (sv_lib s) now r else r)
        (rows (ai_summaries db)) = rows (ai_summaries db)"
      using none by (intro map_idI) auto
    show ?thesis
    proof (cases "canceled i")
      case True
      then show ?thesis using Suc.prems(5) turn_idle [OF None] keep empty by auto
    next
      case False
      then obtain ws where run: "SummaryWorker_Run fuel (\<lambda>_. ?turn) canceled (Suc i) db = (db', ws, res)" "warned = ws"
        using Suc.prems(5) turn_idle [OF None] by (auto split: prod.splits)
      show ?thesis using Suc.IH [OF Suc.prems(1-3) _ run(1)] empty run(2) by simp
    qed
  next
    case (Some r)
    have r: "r \<in> set (rows (ai_summaries db))" "summary_claimable now ?M r" using next_summary_SomeD [OF Some] by auto
    let ?done = "summarized (ai_articles db) (sv_lib s) now r"
    let ?db1 = "db\<lparr>ai_summaries := update_rows (\<lambda>x. sm_id x = sm_id r) (\<lambda>_. ?done) (ai_summaries db)\<rparr>"
    have t: "?turn db = (?db1, True, None)" and q: "queue_inv ?M ?db1" and ok: "sm_status ?done = StatusSucceeded"
    proof -
      obtain A where "assistantForUser s None (sm_user_id r) db = Inr A" "as_summarize A = extractive_Summarize"
        using Suc.prems(2) r by auto
      from turn_completes [OF Suc.prems(1) Some _ this] r Suc.prems(3)
      show "?turn db = (?db1, True, None)" "queue_inv ?M ?db1" "sm_status ?done = StatusSucceeded" by auto
    qed
    have nc: "\<not> summary_claimable now ?M ?done" using ok by (simp add: summary_claimable_def ai_status_defs)
    have rows1: "rows (ai_summaries ?db1) = map (\<lambda>x. if sm_id x = sm_id r then ?done else x) (rows (ai_summaries db))"
      by (simp add: update_rows_def)
    have same: "x = r" if "x \<in> set (rows (ai_summaries db))" "sm_id x = sm_id r" for x
      using that r(1) Suc.prems(1) by (metis keyed_table_ident queue_inv_def)
    have adb: "ai_articles ?db1 = ai_articles db" "assistantForUser s None uid ?db1 = assistantForUser s None uid db" for uid
      by (simp_all add: assistantForUser_def FindAISettings_def)
    note off = work_off_one [where key = sm_id and P = "summary_claimable now ?M" and
        g = "summarized (ai_articles db) (sv_lib s) now", OF r same nc, folded rows1]
    obtain ws where run: "SummaryWorker_Run fuel (\<lambda>_. ?turn) canceled (Suc i) ?db1 = (db', ws, res)" "warned = ws"
      using Suc.prems(5) t by (auto split: prod.splits)
    have rest: "warned = [] \<and>
        rows (ai_summaries db') = map (\<lambda>r. if summary_claimable now ?M r
          then summarized (ai_articles db) (sv_lib s) now r else r) (rows (ai_summaries ?db1)) \<and>
        (\<forall>r \<in> set (due_summaries ?M now ?db1). sm_status (summarized (ai_articles db) (sv_lib s) now r) = StatusSucceeded)"
      unfolding run(2)
      by (rule Suc.IH [OF q _ _ _ run(1), unfolded adb]) (use Suc.prems(2-4) off(1,4) in auto)
    then show ?thesis using off(2,3) ok by auto
  qed
qed

subsection \<open>Similar articles\<close>

lemma insert_stable_mset: "mset (insert_stable gt x ys) = add_mset x (mset ys)"
  by (induction ys) auto

lemma sort_stable_mset: "mset (sort_stable gt xs) = mset xs"
  by (induction xs) (simp_all add: sort_stable_def insert_stable_mset)

lemma set_sort_stable [simp]: "set (sort_stable gt xs) = set xs"
  by (metis set_mset_mset sort_stable_mset)

text \<open>On elements that \<open>gt\<close> orders weakly the result is in falling order.\<close>

lemma sort_stable_sorted:
  assumes asym: "\<And>x y. x \<in> S \<Longrightarrow> y \<in> S \<Longrightarrow> gt x y \<Longrightarrow> \<not> gt y x"
    and ntrans: "\<And>x y z. x \<in> S \<Longrightarrow> y \<in> S \<Longrightarrow> z \<in> S \<Longrightarrow> \<not> gt x y \<Longrightarrow> \<not> gt y z \<Longrightarrow> \<not> gt x z"
    and "set xs \<subseteq> S"
  shows "sorted_wrt (\<lambda>a b. \<not> gt b a) (sort_stable gt xs)"
proof -
  have ins: "sorted_wrt (\<lambda>a b. \<not> gt b a) (insert_stable gt x ys)"
    if "sorted_wrt (\<lambda>a b. \<not> gt b a) ys" "x \<in> S" "set ys \<subseteq> S" for x ys
    using that
  proof (induction ys)
    case (Cons y ys)
    show ?case
    proof (cases "gt y x")
      case True
      have "set (insert_stable gt x ys) = insert x (set ys)" by (metis insert_stable_mset set_mset_add_mset_insert set_mset_mset)
      then show ?thesis using True Cons asym [of y x] by auto
    next
      case False
      then show ?thesis using Cons ntrans [of _ y x] by auto
    qed
  qed simp
  show ?thesis using assms(3)
  proof (induction xs)
    case (Cons x xs)
    have "set (foldr (insert_stable gt) xs []) = set xs" using set_sort_stable [of gt xs] by (simp add: sort_stable_def)
    then show ?case using Cons ins [of "foldr (insert_stable gt) xs []" x] by (simp add: sort_stable_def)
  qed (simp add: sort_stable_def)
qed

lemma subseq_facts:
  "subseq xs ys \<Longrightarrow> set xs \<subseteq> set ys \<and> (distinct ys \<longrightarrow> distinct xs) \<and> (sorted_wrt P ys \<longrightarrow> sorted_wrt P xs)"
  by (induction rule: list_emb.induct) auto

text \<open>The rows found for the scores: a part of the scores, in their order, all of them the user's.\<close>

lemma similar_rows_found:
  "similar_rows fault no_env uid i scores db = (db', found_rows) \<Longrightarrow>
     db' = db \<and> subseq (map (\<lambda>(row, score). (aw_id row, score)) found_rows) scores \<and>
     (\<forall>(row, score) \<in> set found_rows. article_reachable (ai_articles db) uid (aw_id row))"
proof (induction scores arbitrary: i db' found_rows)
  case (Cons s scores)
  obtain aid score where s: "s = (aid, score)" by (cases s)
  obtain d rest where rec: "similar_rows fault no_env uid (Suc i) scores db = (d, rest)" by fastforce
  show ?case
  proof (cases "Article_FindByUserAndID (fault i) uid aid (ai_articles db)")
    case (Inl e)
    then show ?thesis using Cons.prems Cons.IH [OF rec] rec s by (auto intro: list_emb_Cons)
  next
    case (Inr row)
    then show ?thesis using Cons.prems Cons.IH [OF rec] rec s Article_FindByUserAndID_Inr [OF Inr] by auto
  qed
qed auto

definition positive_weak_order :: "'f float_ops \<Rightarrow> bool" where
  "positive_weak_order ops \<longleftrightarrow>
     (\<forall>x y z. fo_less ops (fo_zero ops) x \<and> fo_less ops (fo_zero ops) y \<and> fo_less ops (fo_zero ops) z \<longrightarrow>
        (fo_less ops x y \<longrightarrow> \<not> fo_less ops y x) \<and>
        (\<not> fo_less ops x y \<and> \<not> fo_less ops y z \<longrightarrow> \<not> fo_less ops x z))"

lemma scored_records_facts:
  shows "(aid, score) \<in> set (scored_records ops vec records limit) \<Longrightarrow>
      fo_less ops (fo_zero ops) score \<and> aid \<in> er_article_id ` set records"
    and "length (scored_records ops vec records limit) \<le> nat limit"
    and "distinct (map er_article_id records) \<Longrightarrow> distinct (map fst (scored_records ops vec records limit))"
    and "positive_weak_order ops \<Longrightarrow>
      sorted_wrt (\<lambda>a b. \<not> fo_less ops (snd a) (snd b)) (scored_records ops vec records limit)"
proof -
  let ?scores = "map (\<lambda>r. (er_article_id r, cosineSimilarity ops vec (er_embedding r))) records"
  let ?pos = "filter (\<lambda>s. fo_less ops (fo_zero ops) (snd s)) ?scores"
  let ?gt = "\<lambda>a b. fo_less ops (snd b) (snd a)"
  have eq: "scored_records ops vec records limit = take (nat limit) (sort_stable ?gt ?pos)" by (simp add: scored_records_def)
  show "(aid, score) \<in> set (scored_records ops vec records limit) \<Longrightarrow>
      fo_less ops (fo_zero ops) score \<and> aid \<in> er_article_id ` set records"
  proof -
    assume "(aid, score) \<in> set (scored_records ops vec records limit)"
    then have "(aid, score) \<in> set (sort_stable ?gt ?pos)" unfolding eq by (rule in_set_takeD)
    then show ?thesis by auto
  qed
  show "length (scored_records ops vec records limit) \<le> nat limit" unfolding eq by simp
  show "distinct (map fst (scored_records ops vec records limit))" if "distinct (map er_article_id records)"
  proof -
    have ids: "map fst ?scores = map er_article_id records" by (simp add: comp_def)
    have "distinct (map fst ?scores)" unfolding ids by (rule that)
    then have "distinct (map fst ?pos)" by (rule distinct_map_filter)
    moreover have "mset (map fst (sort_stable ?gt ?pos)) = mset (map fst ?pos)" by (simp add: sort_stable_mset)
    ultimately have "distinct (map fst (sort_stable ?gt ?pos))" using mset_eq_imp_distinct_iff by blast
    then show ?thesis unfolding eq by (simp flip: take_map)
  qed
  show "sorted_wrt (\<lambda>a b. \<not> fo_less ops (snd a) (snd b)) (scored_records ops vec records limit)"
    if "positive_weak_order ops"
  proof -
    let ?S = "{s :: int \<times> 'a. fo_less ops (fo_zero ops) (snd s)}"
    have "?gt x y \<Longrightarrow> \<not> ?gt y x" if "x \<in> ?S" "y \<in> ?S" for x y
      using \<open>positive_weak_order ops\<close> that unfolding positive_weak_order_def mem_Collect_eq by blast
    moreover have "\<not> ?gt x y \<Longrightarrow> \<not> ?gt y z \<Longrightarrow> \<not> ?gt x z" if "x \<in> ?S" "y \<in> ?S" "z \<in> ?S" for x y z
      using \<open>positive_weak_order ops\<close> that unfolding positive_weak_order_def mem_Collect_eq by blast
    moreover have "set ?pos \<subseteq> ?S" by auto
    ultimately have "sorted_wrt (\<lambda>a b. \<not> ?gt b a) (sort_stable ?gt ?pos)"
      by (rule sort_stable_sorted)
    then show ?thesis unfolding eq by (rule sorted_wrt_take)
  qed
qed

lemma embedding_records_ids: "embedding_records ops ms = Inr rs \<Longrightarrow> map er_article_id rs = map ae_article_id ms"
  by (induction ms arbitrary: rs) (auto simp: embeddingModelToRecord_def split: sum.splits option.splits)

lemma ListEmbeddingsByUser_distinct:
  assumes "ListEmbeddingsByUser ops f uid m v limit db = Inr rs" "keyed_table ae_id embedding_key (ai_embeddings db)"
  shows "distinct (map er_article_id rs)"
proof -
  let ?sel = "select_rows (\<lambda>e. ae_user_id e = uid \<and> ae_model e = m \<and> ae_version e = v \<and>
      article_reachable (ai_articles db) uid (ae_article_id e)) (ai_embeddings db)"
  let ?sorted = "sort_key (\<lambda>m. - ae_updated_at m) ?sel"
  have d: "distinct (map embedding_key (rows (ai_embeddings db)))" using assms(2) by (simp add: keyed_table_def)
  then have "distinct ?sel" by (simp add: select_rows_def distinct_map)
  moreover have "inj_on ae_article_id (set ?sel)"
    using keyed_table_unique [OF assms(2)] by (auto simp: inj_on_def select_rows_def embedding_key_def)
  ultimately have "distinct (map ae_article_id ?sorted)" by (simp add: distinct_map)
  moreover have "map er_article_id rs = map ae_article_id (if limit > 0 then take (nat limit) ?sorted else ?sorted)"
    using assms(1) by (auto simp: ListEmbeddingsByUser_def Let_def split: option.splits if_splits dest!: embedding_records_ids)
  ultimately show ?thesis by (auto simp flip: take_map)
qed

lemma rank_similar_result:
  assumes "rank_similar s fault no_env uid aid limit target db = (db', Inr res)"
    and "keyed_table ae_id embedding_key (ai_embeddings db)" "positive_weak_order (sv_ops s)"
  shows "db' = db \<and> length res \<le> nat limit \<and> distinct (map sa_article_id res) \<and>
    sorted_wrt (\<lambda>a b. \<not> fo_less (sv_ops s) (sa_score a) (sa_score b)) res \<and>
    (\<forall>a \<in> set res. sa_article_id a \<noteq> aid \<and> article_reachable (ai_articles db) uid (sa_article_id a) \<and>
       fo_less (sv_ops s) (fo_zero (sv_ops s)) (sa_score a))"
proof -
  obtain records where rec: "ListEmbeddingsByUser (sv_ops s) (fault SiList) uid (er_model target) (er_version target) 500 db = Inr records"
    using assms(1) by (auto simp: rank_similar_def Let_def split: sum.splits)
  let ?others = "filter (\<lambda>r. er_article_id r \<noteq> aid) records"
  let ?scored = "scored_records (sv_ops s) (er_embedding target) ?others limit"
  obtain d found_rows where rows: "similar_rows (\<lambda>i. fault (SiArticle i)) (\<lambda>i. no_env (SiArticle i)) uid 0 ?scored db = (d, found_rows)"
    by fastforce
  have res: "db' = d" "res = map similar_dto found_rows"
    using assms(1) rec rows by (auto simp: rank_similar_def Let_def)
  have found: "d = db" "subseq (map (\<lambda>(row, score). (aw_id row, score)) found_rows) ?scored"
    "\<forall>(row, score) \<in> set found_rows. article_reachable (ai_articles db) uid (aw_id row)"
    using similar_rows_found [OF rows] by auto
  have pairs: "map (\<lambda>a. (sa_article_id a, sa_score a)) res = map (\<lambda>(row, score). (aw_id row, score)) found_rows"
    unfolding res by (simp add: similar_dto_def case_prod_beta comp_def)
  then have sub: "subseq (map (\<lambda>a. (sa_article_id a, sa_score a)) res) ?scored" using found(2) by simp
  have "distinct (map er_article_id ?others)" using ListEmbeddingsByUser_distinct [OF rec assms(2)] by (rule distinct_map_filter)
  then have "distinct (map fst ?scored)" by (rule scored_records_facts(3))
  moreover have "subseq (map fst (map (\<lambda>a. (sa_article_id a, sa_score a)) res)) (map fst ?scored)" using sub by (rule subseq_map)
  ultimately have dist: "distinct (map sa_article_id res)" using subseq_facts by (fastforce simp: comp_def)
  have "sorted_wrt (\<lambda>a b. \<not> fo_less (sv_ops s) (snd a) (snd b)) (map (\<lambda>a. (sa_article_id a, sa_score a)) res)"
    using subseq_facts [OF sub] scored_records_facts(4) [OF assms(3)] by blast
  then have sorted: "sorted_wrt (\<lambda>a b. \<not> fo_less (sv_ops s) (sa_score a) (sa_score b)) res" by (simp add: sorted_wrt_map)
  have "length res \<le> length ?scored" using list_emb_length [OF sub] by simp
  then have len: "length res \<le> nat limit"
    using scored_records_facts(2) [of "sv_ops s" "er_embedding target" ?others limit] by linarith
  have "sa_article_id a \<noteq> aid \<and> article_reachable (ai_articles db) uid (sa_article_id a) \<and>
       fo_less (sv_ops s) (fo_zero (sv_ops s)) (sa_score a)" if "a \<in> set res" for a
  proof -
    have "(sa_article_id a, sa_score a) \<in> set ?scored" using subseq_facts [OF sub] that by auto
    then show ?thesis using scored_records_facts(1) [of "sa_article_id a" "sa_score a"] that found(3)
      unfolding res by (fastforce simp: similar_dto_def)
  qed
  with res found(1) len dist sorted show ?thesis by blast
qed

lemma ai_normalizeLimit_bounds:
  "0 < d \<Longrightarrow> d \<le> m \<Longrightarrow> 1 \<le> ai_normalizeLimit v d m \<and> ai_normalizeLimit v d m \<le> m"
  by (simp add: ai_normalizeLimit_def)

lemma UpsertEmbedding_keeps:
  assumes "UpsertEmbedding ops f (\<lambda>d. d) p db = (db', r)" "keyed_table ae_id embedding_key (ai_embeddings db)"
  shows "ai_articles db' = ai_articles db \<and> keyed_table ae_id embedding_key (ai_embeddings db')"
proof (cases "marshal_vector ops (ue_embedding p)")
  case None
  then show ?thesis using assms by (auto simp: UpsertEmbedding_def)
next
  case (Some vec)
  then show ?thesis using assms ems.ups_keyed [OF assms(2), of "(p, vec)"]
    by (auto simp: UpsertEmbedding_def Let_def split: option.splits)
qed

lemma GenerateEmbedding_keeps:
  assumes "GenerateEmbedding s fault no_env now uid aid db = (db', r)" "keyed_table ae_id embedding_key (ai_embeddings db)"
  shows "ai_articles db' = ai_articles db \<and> keyed_table ae_id embedding_key (ai_embeddings db')"
proof -
  have "db' = db \<or> (\<exists>p r'. UpsertEmbedding (sv_ops s) (\<lambda>st. fault (GeUpsert st)) (\<lambda>d. d) p db = (db', r'))"
    using assms(1) by (auto simp: GenerateEmbedding_def Let_def split: sum.splits prod.splits)
  then show ?thesis using UpsertEmbedding_keeps assms(2) by blast
qed

text \<open>
  C32. The similar articles of an article are at most as many as asked for (5 by default, never
  more than 20), all different from it and from each other, all of sources of the user that are
  not deleted, all with a positive score, the best first, on floating point numbers whose positive
  values are weakly ordered.
\<close>

theorem similar_articles_ranked:
  assumes "SimilarArticles s fault no_env now uid aid lim db = (db', Inr res)"
    and "keyed_table ae_id embedding_key (ai_embeddings db)" "positive_weak_order (sv_ops s)"
  shows "int (length res) \<le> ai_normalizeLimit lim 5 20 \<and> length res \<le> 20 \<and> distinct (map sa_article_id res) \<and>
    sorted_wrt (\<lambda>a b. \<not> fo_less (sv_ops s) (sa_score a) (sa_score b)) res \<and>
    (\<forall>a \<in> set res. sa_article_id a \<noteq> aid \<and> article_reachable (ai_articles db) uid (sa_article_id a) \<and>
       fo_less (sv_ops s) (fo_zero (sv_ops s)) (sa_score a))"
proof -
  let ?limit = "ai_normalizeLimit lim 5 20"
  have "\<exists>target d. rank_similar s fault no_env uid aid ?limit target d = (db', Inr res) \<and>
      ai_articles d = ai_articles db \<and> keyed_table ae_id embedding_key (ai_embeddings d)"
  proof (cases "FindEmbedding (sv_ops s) (fault SiFind) uid aid DefaultEmbeddingModel DefaultEmbeddingVersion db")
    case (Inr target)
    then show ?thesis using assms by (auto simp: SimilarArticles_def Let_def)
  next
    case (Inl e)
    then obtain d generated where gen: "GenerateEmbedding s (\<lambda>st. fault (SiGenerate st)) no_env now uid aid db = (d, Inr generated)"
      and rest: "\<exists>target. rank_similar s fault no_env uid aid ?limit target d = (db', Inr res)"
      using assms(1) by (auto simp: SimilarArticles_def Let_def split: if_splits prod.splits sum.splits)
    then show ?thesis using GenerateEmbedding_keeps [OF gen assms(2)] by blast
  qed
  then obtain target d where rank: "rank_similar s fault no_env uid aid ?limit target d = (db', Inr res)"
    "ai_articles d = ai_articles db" "keyed_table ae_id embedding_key (ai_embeddings d)" by blast
  have "1 \<le> ?limit \<and> ?limit \<le> 20" by (rule ai_normalizeLimit_bounds) simp_all
  moreover have "length res \<le> nat ?limit" using rank_similar_result [OF rank(1,3) assms(3)] by simp
  ultimately have len: "int (length res) \<le> ?limit" "length res \<le> 20" by linarith+
  from rank_similar_result [OF rank(1,3) assms(3)] len rank(2) show ?thesis by simp
qed


subsection \<open>Answers from articles\<close>

text \<open>An assistant that cites only what it is given, and not more.\<close>

definition cites_inputs :: "'f assistant \<Rightarrow> bool" where
  "cites_inputs a \<longleftrightarrow> (\<forall>q inputs r. as_answer a q inputs = Inr r \<longrightarrow>
     ci_article_id ` set (rg_citations r) \<subseteq> ai_id ` set inputs \<and> length (rg_citations r) \<le> length inputs)"

lemma extractive_cites: "cites_inputs (extractive_assistant lib ops)"
  unfolding cites_inputs_def
proof (intro allI impI)
  fix q inputs r
  assume "as_answer (extractive_assistant lib ops) q inputs = Inr r"
  then have r: "extractive_Answer lib q inputs = Inr r" by (simp add: extractive_assistant_def)
  let ?sorted = "sort_key (\<lambda>a. - overlapScore lib (tokenSet lib q) a) inputs"
  have cut: "take (if length xs > 3 then 3 else length xs) xs = take 3 xs" for xs :: "article_input list" by simp
  have "rg_citations r = [] \<or> rg_citations r = map extractive_citation (take 3 ?sorted)"
    using r unfolding extractive_Answer_def Let_def cut by (auto split: if_splits)
  then show "ci_article_id ` set (rg_citations r) \<subseteq> ai_id ` set inputs \<and> length (rg_citations r) \<le> length inputs"
    by (auto simp: extractive_citation_def dest!: in_set_takeD)
qed

lemma openai_cites: "cites_inputs (openai_compatible ops net a)"
proof -
  have "rg_citations r = map openai_citation inputs" if "snd (openai_Answer net a q inputs) = Inr r" for q inputs r
    using that by (auto simp: openai_Answer_def Let_def split: if_splits prod.splits sum.splits)
  then show ?thesis by (fastforce simp: cites_inputs_def openai_compatible_def openai_citation_def)
qed

lemma rag_inputs:
  assumes "embeddingRAGInputs s fault no_env A uid query limit db = (db', Inr inputs)"
  shows "db' = db \<and> (\<forall>x \<in> set inputs. article_reachable (ai_articles db) uid (ai_id x)) \<and> length inputs \<le> nat limit"
proof (cases "as_embed A query")
  case (Inl e)
  then show ?thesis using assms by (simp add: embeddingRAGInputs_def)
next
  case (Inr q)
  then obtain records where rec: "ListEmbeddingsByUser (sv_ops s) (fault RgEmbeddings) uid (eb_model q) (eb_version q) 500 db = Inr records"
    using assms by (auto simp: embeddingRAGInputs_def Let_def split: sum.splits)
  let ?scored = "scored_records (sv_ops s) (eb_vector q) records limit"
  obtain d found_rows where rows: "similar_rows (\<lambda>i. fault (RgArticle i)) (\<lambda>i. no_env (RgArticle i)) uid 0 ?scored db = (d, found_rows)"
    by fastforce
  have out: "db' = d" "inputs = map (\<lambda>(row, score). articleInput (sv_lib s) row) found_rows"
    using assms Inr rec rows by (auto simp: embeddingRAGInputs_def Let_def)
  from similar_rows_found [OF rows] have found: "d = db"
    "subseq (map (\<lambda>(row, score). (aw_id row, score)) found_rows) ?scored"
    "\<forall>(row, score) \<in> set found_rows. article_reachable (ai_articles db) uid (aw_id row)" by auto
  have "length found_rows \<le> nat limit"
    using list_emb_length [OF found(2)] scored_records_facts(2) [of "sv_ops s" "eb_vector q" records limit] by simp
  then show ?thesis using out found(1,3) by (auto simp: articleInput_def)
qed

text \<open>
  C33. An answer to a question cites only articles of the user who asks, from sources that are not
  deleted, and not more of them than the limit (5 by default, never more than 12), with the
  extractive assistant and with the OpenAI compatible one, and asking changes nothing. A blank
  question is refused.
\<close>

theorem rag_cites_own_articles:
  assumes "RAGSearch s found fault no_env uid rawQuery lim db = (db', Inr r)"
    and "\<And>A. assistantForUser s (fault RgSettings) uid db = Inr A \<Longrightarrow>
      A = extractive_assistant lib ops \<or> A = openai_compatible ops net oa"
  shows "db' = db \<and> trim_space rawQuery \<noteq> '''' \<and>
    (\<forall>c \<in> set (rg_citations r). article_reachable (ai_articles db) uid (ci_article_id c)) \<and>
    int (length (rg_citations r)) \<le> ai_normalizeLimit lim 5 12 \<and> length (rg_citations r) \<le> 12"
proof -
  let ?q = "trim_space rawQuery" and ?limit = "ai_normalizeLimit lim 5 12"
  have q: "?q \<noteq> ''''" using assms(1) by (auto simp: RAGSearch_def Let_def split: if_splits)
  obtain A where A: "assistantForUser s (fault RgSettings) uid db = Inr A"
    using assms(1) q by (auto simp: RAGSearch_def Let_def split: sum.splits)
  have cites: "cites_inputs A" using assms(2) [OF A] extractive_cites openai_cites by metis
  obtain d inputs where emb: "embeddingRAGInputs s fault no_env A uid ?q ?limit db = (d, Inr inputs)"
    using assms(1) q A by (auto simp: RAGSearch_def Let_def split: prod.splits sum.splits)
  note in1 = rag_inputs [OF emb]
  have lim: "1 \<le> ?limit \<and> ?limit \<le> 12" by (rule ai_normalizeLimit_bounds) simp_all
  have "\<exists>given. as_answer A ?q given = Inr r \<and> db' = db \<and> length given \<le> nat ?limit \<and>
      (\<forall>x \<in> set given. article_reachable (ai_articles db) uid (ai_id x))"
  proof (cases "inputs = []")
    case False
    then have "as_answer A ?q inputs = Inr r" "db' = d"
      using assms(1) q A emb by (auto simp: RAGSearch_def rag_answer_def Let_def split: sum.splits)
    then show ?thesis using in1 by blast
  next
    case True
    then obtain arts n where arts: "Article_ListByUser found (\<lambda>st. fault (RgList st)) (recent_articles_request uid ?q ?limit)
        (ai_articles db) = Inr (arts, n)" and r: "as_answer A ?q (map (articleInput (sv_lib s)) arts) = Inr r" "db' = db"
      using assms(1) q A emb in1 by (auto simp: RAGSearch_def rag_answer_def Let_def split: sum.splits)
    have "length arts \<le> nat ?limit"
      using arts by (auto simp: Article_ListByUser_def Let_def page_def recent_articles_request_def split: option.splits)
    moreover have "article_reachable (ai_articles db) uid (aw_id row)" if "row \<in> set arts" for row
      using Article_ListByUser_rows [OF arts that] by (simp add: recent_articles_request_def)
    ultimately show ?thesis using r by (intro exI [of _ "map (articleInput (sv_lib s)) arts"]) (auto simp: articleInput_def)
  qed
  then obtain given where given: "as_answer A ?q given = Inr r" "db' = db" "length given \<le> nat ?limit"
    "\<forall>x \<in> set given. article_reachable (ai_articles db) uid (ai_id x)" by blast
  have "ci_article_id ` set (rg_citations r) \<subseteq> ai_id ` set given" "length (rg_citations r) \<le> length given"
    using cites given(1) unfolding cites_inputs_def by blast+
  then show ?thesis using given lim q by fastforce
qed

subsection \<open>Example values\<close>

lemma empty_table_simps [simp]:
  "find_row P empty_table = None" "select_rows P empty_table = []" "seq empty_table = 0"
  by (simp_all add: find_row_def select_rows_def empty_table_def)

definition sample_floats :: "int float_ops" where
  "sample_floats =
     \<lparr>fo_of_nat = int, fo_add = (+), fo_mul = (*), fo_div = (\<lambda>x y. x), fo_sqrt = (\<lambda>x. x), fo_less = (<),
      fo_eq = (=), fo_to_json = (\<lambda>x. Some (JNum x)), fo_of_json = (\<lambda>j. case j of JNum n \<Rightarrow> Some n | _ \<Rightarrow> None)\<rparr>"

definition sample_secret_box :: secret_box where
  "sample_secret_box =
     \<lparr>sb_encrypt = (\<lambda>p. Inr (CHR ''c'' # p, ''nonce'')), sb_decrypt = (\<lambda>c n. Inr (tl c))\<rparr>"

definition sample_ai_service :: "int ai_service" where
  "sample_ai_service =
     ai_NewService (sample_ai_lib\<lparr>al_go := he_lib sample_http_env\<rparr>) (he_addr_text sample_http_env) sample_floats
       sample_openai_env None [WithSecretBox (Some sample_secret_box), WithRetry 1 minute]"

lemma sample_ai_service_simps:
  "sv_lib sample_ai_service = sample_ai_lib\<lparr>al_go := he_lib sample_http_env\<rparr>"
  "sv_addr_text sample_ai_service = he_addr_text sample_http_env" "sv_ops sample_ai_service = sample_floats"
  "sv_assistant sample_ai_service = extractive_assistant (sample_ai_lib\<lparr>al_go := he_lib sample_http_env\<rparr>) sample_floats"
  "sv_secret_box sample_ai_service = Some sample_secret_box" "sv_max_attempts sample_ai_service = 1"
  by (simp_all add: sample_ai_service_def ai_NewService_def WithSecretBox_def WithRetry_def)

lemma sample_positive_order: "positive_weak_order sample_floats"
  by (auto simp: positive_weak_order_def sample_floats_def)

definition sample_settings_request :: "string option \<Rightarrow> update_ai_settings_request" where
  "sample_settings_request key =
     \<lparr>ur_user_id = 1, ur_provider = ''openai-compatible'', ur_base_url = ''a'', ur_model = ''m'',
      ur_embedding_model = '''', ur_api_key = key\<rparr>"

lemma sample_url: "normalizeAIBaseURL (sv_lib sample_ai_service) (sv_addr_text sample_ai_service) ''a'' = Inr ''a''"
  using sample_url_ok [of "''a''"] trim_space_visible [of "''a''"]
  by (simp add: sample_ai_service_simps normalizeAIBaseURL_def url_ok_def trim_right_def visible_def)

lemma sample_update:
  "\<exists>db' dto. UpdateAISettings sample_ai_service no_faults no_env 5 (sample_settings_request (Some ''k'')) sample_ai_db =
     (db', Inr dto)"
proof -
  have t: "trim_space ''m'' = ''m''" "trim_space ''k'' = ''k''" by (rule trim_space_visible; simp add: visible_def)+
  show ?thesis
    using t sample_url by (simp add: UpdateAISettings_def sample_settings_request_def normalizeAIProvider_fixed FindAISettings_None
        sample_ai_db_def find_row_None store_ai_settings_def new_api_key_def sample_ai_service_simps(5) sample_secret_box_def
        UpsertAISettings_def upsert_ai_settings_row_def find_row_insert new_ai_settings_def Let_def)
qed

theorem ai_settings_update_effect_witness:
  "\<exists>db' dto r. UpdateAISettings sample_ai_service no_faults no_env 5 (sample_settings_request (Some ''k'')) sample_ai_db =
     (db', Inr dto) \<and> settings_row 1 db' = Some r \<and> ui_api_key_ciphertext r = ''ck''"
proof -
  obtain db' dto where u: "UpdateAISettings sample_ai_service no_faults no_env 5 (sample_settings_request (Some ''k'')) sample_ai_db =
     (db', Inr dto)" using sample_update by blast
  have "trim_space ''k'' = ''k''" by (rule trim_space_visible; simp add: visible_def)
  then show ?thesis
    using ai_settings_update_effect [OF u] u
    by (auto simp: sample_settings_request_def sample_ai_service_simps sample_secret_box_def)
qed

theorem ai_settings_round_trip_witness:
  "\<exists>db' dto. UpdateAISettings sample_ai_service no_faults no_env 5 (sample_settings_request (Some ''k'')) sample_ai_db =
     (db', Inr dto) \<and> st_has_api_key dto \<and>
     assistantForUser sample_ai_service None 1 db' = sv_assistant_factory sample_ai_service
       \<lparr>oc_base_url = ''a'', oc_api_key = ''k'', oc_chat_model = ''m'',
        oc_embedding_model = ai_firstNonEmpty ['''', DefaultOpenAIEmbeddingModel], oc_timeout = 0\<rparr>"
proof -
  obtain db' dto where u: "UpdateAISettings sample_ai_service no_faults no_env 5 (sample_settings_request (Some ''k'')) sample_ai_db =
     (db', Inr dto)" using sample_update by blast
  have t: "trim_space ''m'' = ''m''" "trim_space ''k'' = ''k''" "trim_space ''a'' = ''a''"
    by (rule trim_space_visible; simp add: visible_def)+
  have law: "c \<noteq> '''' \<and> n \<noteq> '''' \<and> sb_decrypt box c n = Inr p"
    if "sv_secret_box sample_ai_service = Some box" "sb_encrypt box p = Inr (c, n)" for box p c n
    using that by (auto simp: sample_ai_service_simps(5) sample_secret_box_def)
  have trim_k: "trim_space ''k'' \<noteq> ''''" using t by simp
  have "normalizeAIProvider (sv_lib sample_ai_service) (ur_provider (sample_settings_request (Some ''k''))) = Inr ''openai-compatible''"
    "normalizeAIBaseURL (sv_lib sample_ai_service) (sv_addr_text sample_ai_service) (ur_base_url (sample_settings_request (Some ''k''))) = Inr ''a''"
    "ur_api_key (sample_settings_request (Some ''k'')) = Some ''k''"
    using sample_url by (simp_all add: sample_settings_request_def normalizeAIProvider_fixed)
  then have "st_has_api_key dto \<and> assistantForUser sample_ai_service None (ur_user_id (sample_settings_request (Some ''k''))) db' =
      sv_assistant_factory sample_ai_service
       \<lparr>oc_base_url = ''a'', oc_api_key = trim_space ''k'', oc_chat_model = trim_space (ur_model (sample_settings_request (Some ''k''))),
        oc_embedding_model = ai_firstNonEmpty [ur_embedding_model (sample_settings_request (Some ''k'')), DefaultOpenAIEmbeddingModel],
        oc_timeout = 0\<rparr>"
    using ai_settings_round_trip [OF u law] t(3) trim_k sample_url by auto
  then show ?thesis using u t by (simp add: sample_settings_request_def)
qed

text \<open>A user with a source and two articles.\<close>

definition sample_ai_articles :: article_db where
  "sample_ai_articles =
     \<lparr>ad_sources = \<lparr>rows = [sample_feed_source], seq = 11\<rparr>,
      ad_articles = \<lparr>rows = [sample_article\<lparr>ar_id := 7, ar_source_id := 11\<rparr>, sample_article\<lparr>ar_id := 8, ar_source_id := 11\<rparr>], seq = 8\<rparr>,
      ad_states = empty_table\<rparr>"

definition reading_ai_db :: ai_db where
  "reading_ai_db = queued_ai_db\<lparr>ai_articles := sample_ai_articles\<rparr>"

lemma sample_reachable: "article_reachable sample_ai_articles 1 7" "article_reachable sample_ai_articles 1 8"
  by (simp_all add: article_reachable_def sample_ai_articles_def find_row_def article_owned_def sample_feed_source_def)

lemma reading_ai_db_facts:
  "queue_inv 1 reading_ai_db" "rows (ai_summaries reading_ai_db) = [sample_summary]" "rows (ai_settings reading_ai_db) = []"
  "ai_articles reading_ai_db = sample_ai_articles" "ai_embeddings reading_ai_db = empty_table"
proof -
  show "queue_inv 1 reading_ai_db" using queued_ai_db_inv by (simp add: reading_ai_db_def queue_inv_def)
  show "rows (ai_summaries reading_ai_db) = [sample_summary]" unfolding reading_ai_db_def by (simp add: queued_ai_db_summaries del: queue_step.simps)
  show "rows (ai_settings reading_ai_db) = []" "ai_articles reading_ai_db = sample_ai_articles"
    "ai_embeddings reading_ai_db = empty_table"
    by (simp_all add: reading_ai_db_def EnqueueSummary_def sample_ai_db_def Let_def)
qed

lemma assistant_of_reader: "assistantForUser sample_ai_service None 1 reading_ai_db = Inr (sv_assistant sample_ai_service)"
  by (rule assistantForUser_default) (simp add: find_row_None reading_ai_db_facts)

theorem summary_worker_drains_witness:
  "\<exists>db' res. SummaryWorker_Run 1 (\<lambda>_. ProcessNextSummary sample_ai_service no_faults (\<lambda>_. False) no_env (\<lambda>_. 100)) (\<lambda>_. True) 0
       reading_ai_db = (db', [], res) \<and>
     rows (ai_summaries db') = [summarized sample_ai_articles (sv_lib sample_ai_service) 100 sample_summary] \<and>
     sm_status (summarized sample_ai_articles (sv_lib sample_ai_service) 100 sample_summary) = StatusSucceeded"
proof -
  let ?run = "SummaryWorker_Run 1 (\<lambda>_. ProcessNextSummary sample_ai_service no_faults (\<lambda>_. False) no_env (\<lambda>_. 100)) (\<lambda>_. True) 0 reading_ai_db"
  obtain db' w res where run: "?run = (db', w, res)" by (cases ?run) auto
  have due: "due_summaries (sv_max_attempts sample_ai_service) 100 reading_ai_db = [sample_summary]"
    using sample_summary_claimable by (simp add: reading_ai_db_facts sample_ai_service_simps)
  have "w = [] \<and> rows (ai_summaries db') = map (\<lambda>r. if summary_claimable 100 (sv_max_attempts sample_ai_service) r
        then summarized (ai_articles reading_ai_db) (sv_lib sample_ai_service) 100 r else r) (rows (ai_summaries reading_ai_db)) \<and>
      (\<forall>r \<in> set (due_summaries (sv_max_attempts sample_ai_service) 100 reading_ai_db).
         sm_status (summarized (ai_articles reading_ai_db) (sv_lib sample_ai_service) 100 r) = StatusSucceeded)"
    by (rule summary_worker_drains [OF _ _ _ _ run])
      (use reading_ai_db_facts sample_reachable in
        \<open>simp_all add: due assistant_of_reader sample_ai_service_simps extractive_assistant_def new_summary_def sample_enqueue_def\<close>)
  then have "w = []" "rows (ai_summaries db') = [summarized sample_ai_articles (sv_lib sample_ai_service) 100 sample_summary]"
    "sm_status (summarized sample_ai_articles (sv_lib sample_ai_service) 100 sample_summary) = StatusSucceeded"
    using sample_summary_claimable due by (simp_all add: reading_ai_db_facts sample_ai_service_simps(6))
  then show ?thesis using run by blast
qed

theorem rag_cites_own_articles_witness:
  "\<exists>r. RAGSearch sample_ai_service (\<lambda>_ _. True) no_faults no_env 1 ''hello'' 5 reading_ai_db = (reading_ai_db, Inr r) \<and>
     (\<forall>c \<in> set (rg_citations r). article_reachable sample_ai_articles 1 (ci_article_id c))"
proof -
  have t: "trim_space ''hello'' = ''hello''" by (rule trim_space_visible; simp add: visible_def)
  have "\<exists>db' r. RAGSearch sample_ai_service (\<lambda>_ _. True) no_faults no_env 1 ''hello'' 5 reading_ai_db = (db', Inr r)"
    by (simp add: RAGSearch_def t assistant_of_reader sample_ai_service_simps extractive_assistant_def extractive_Embed_def
        embeddingRAGInputs_def ListEmbeddingsByUser_def reading_ai_db_facts select_rows_def scored_records_def sort_stable_def
        Article_ListByUser_def rag_answer_def extractive_Answer_def Let_def)
  then obtain db' r where run: "RAGSearch sample_ai_service (\<lambda>_ _. True) no_faults no_env 1 ''hello'' 5 reading_ai_db = (db', Inr r)"
    by blast
  have "A = extractive_assistant (sample_ai_lib\<lparr>al_go := he_lib sample_http_env\<rparr>) sample_floats \<or> A = openai_compatible sample_floats sample_openai_env undefined"
    if "assistantForUser sample_ai_service (no_faults RgSettings) 1 reading_ai_db = Inr A" for A
    using that assistant_of_reader by (simp add: sample_ai_service_simps)
  from rag_cites_own_articles [OF run this] run show ?thesis by (auto simp: reading_ai_db_facts)
qed

theorem similar_articles_ranked_witness:
  "\<exists>db' res. SimilarArticles sample_ai_service no_faults no_env 5 1 7 0 reading_ai_db = (db', Inr res) \<and> length res \<le> 5"
proof -
  obtain a where a: "Article_FindByUserAndID None 1 7 sample_ai_articles = Inr a"
    using Article_FindByUserAndID_reachable [OF sample_reachable(1)] by blast
  have vec: "those (map (fo_to_json sample_floats) v) = Some (map JNum v)" "those (map (dec_float sample_floats) (map JNum v)) = Some v" for v
    by (induction v) (simp_all add: sample_floats_def dec_float_def)
  have "\<exists>db' res. SimilarArticles sample_ai_service no_faults no_env 5 1 7 0 reading_ai_db = (db', Inr res)"
    using a sample_reachable(1) assistant_of_reader vec
    by (simp add: SimilarArticles_def FindEmbedding_def reading_ai_db_facts find_row_None GenerateEmbedding_def
        sample_ai_service_simps extractive_assistant_def extractive_Embed_def UpsertEmbedding_def marshal_vector_def
        upsert_embedding_row_def find_row_insert new_embedding_def embeddingModelToRecord_def embeddingToDTO_def rank_similar_def
        ListEmbeddingsByUser_def select_rows_def Let_def case_prod_beta)
  then obtain db' res where run: "SimilarArticles sample_ai_service no_faults no_env 5 1 7 0 reading_ai_db = (db', Inr res)" by blast
  have "int (length res) \<le> ai_normalizeLimit 0 5 20"
    using similar_articles_ranked [OF run] reading_ai_db_facts(5) sample_positive_order by (simp add: sample_ai_service_simps)
  then show ?thesis using run by (auto simp: ai_normalizeLimit_def)
qed

end
