(* ===== verification/AI_Handlers.thy ===== *)
theory AI_Handlers
  imports AI_Behaviour
begin

section \<open>The handlers of the AI features\<close>

text \<open>
  \<open>handler.go\<close> of \<open>internal/module/ai\<close>: the parameters and bodies of the requests, the calls of the
  service, and the answers its errors are turned into. A body is a \<^typ>\<open>payload\<close>; binding it fails
  if it is no JSON text or a field has another kind than the struct's.
\<close>

definition ai_handleError :: "go_error \<Rightarrow> 'a http_response" where
  "ai_handleError e =
     (if errors_is e ErrArticleNotFound then response_Error 404 ''article_not_found'' ''article not found''
      else if errors_is e ErrSummaryNotFound then response_Error 404 ''summary_not_found'' ''summary not found''
      else if errors_is e ErrEmbeddingNotFound then response_Error 404 ''embedding_not_found'' ''embedding not found''
      else if errors_is e ErrDigestNotFound then response_Error 404 ''digest_not_found'' ''digest not found''
      else if errors_is e ErrEmptyQuery then response_Error 400 ''empty_query'' ''query is required''
      else if errors_is e ErrAISettingsEncryptionKeyRequired then
        response_Error 400 ''ai_settings_encryption_key_required'' ''ai settings encryption key is required''
      else if errors_is e ErrInvalidAIProvider then response_Error 400 ''invalid_ai_provider'' ''invalid ai provider''
      else if errors_is e ErrInvalidAIBaseURL then response_Error 400 ''invalid_ai_base_url'' ''invalid ai base url''
      else if errors_is e ErrInvalidAIModel then response_Error 400 ''invalid_ai_model'' ''invalid ai model''
      else response_Error 500 ''internal_error'' ''internal server error'')"

definition ai_respond :: "'s \<times> 'a result \<Rightarrow> 's \<times> 'a http_response" where
  "ai_respond = (\<lambda>(s, r). (s, case r of Inl e \<Rightarrow> ai_handleError e | Inr d \<Rightarrow> response_OK d))"

definition ai_userID :: "http_request \<Rightarrow> 'a http_response + int" where
  "ai_userID req =
     (case requestctx_UserID req of
        (uid, False) \<Rightarrow> Inl (response_Error 401 ''unauthorized'' ''missing user context'')
      | (uid, True) \<Rightarrow> Inr uid)"

text \<open>\<open>time.Parse(time.DateOnly, s)\<close>: four, two and two digits, a month and a day of the calendar.\<close>

definition days_from_civil :: "int \<Rightarrow> int \<Rightarrow> int \<Rightarrow> int" where
  "days_from_civil y m d =
     (let y' = (if m \<le> 2 then y - 1 else y); era = y' div 400; yoe = y' mod 400;
          mp = (if m > 2 then m - 3 else m + 9); doy = (153 * mp + 2) div 5 + d - 1;
          doe = yoe * 365 + yoe div 4 - yoe div 100 + doy
      in era * 146097 + doe - 306)"

definition days_in_month :: "int \<Rightarrow> int \<Rightarrow> int" where
  "days_in_month y m =
     (if m = 2 then (if y mod 4 = 0 \<and> (y mod 100 \<noteq> 0 \<or> y mod 400 = 0) then 29 else 28)
      else if m \<in> {4, 6, 9, 11} then 30 else 31)"

definition parse_date_only :: "string \<Rightarrow> time option" where
  "parse_date_only s =
     (if length s = 10 \<and> s ! 4 = CHR ''-'' \<and> s ! 7 = CHR ''-'' \<and>
         list_all is_digit (take 4 s @ take 2 (drop 5 s) @ drop 8 s) then
        (let y = int (read_nat (take 4 s)); m = int (read_nat (take 2 (drop 5 s))); d = int (read_nat (drop 8 s)) in
         if 1 \<le> m \<and> m \<le> 12 \<and> 1 \<le> d \<and> d \<le> days_in_month y m
         then Some (days_from_civil y m d * 86400 * second) else None)
      else None)"

definition parseDateParam :: "http_request \<Rightarrow> 'a http_response + time" where
  "parseDateParam req =
     (case parse_date_only (hr_param req ''date'') of
        None \<Rightarrow> Inl (response_Error 400 ''invalid_date'' ''invalid date'')
      | Some date \<Rightarrow> Inr date)"


subsection \<open>Articles\<close>

text \<open>
  The error of this binding is ignored: the decoder skips a field it cannot decode and goes on,
  so the last value that is a boolean counts.
\<close>

definition bind_regenerate :: "payload \<Rightarrow> bool" where
  "bind_regenerate body =
     (case body of
        JsonText (JObj kvs) \<Rightarrow>
          foldl (\<lambda>b (k, v). if fold_key k = ''regenerate'' then (case dec_bool v b of None \<Rightarrow> b | Some b' \<Rightarrow> b') else b)
            False kvs
      | _ \<Rightarrow> False)"

definition AIHandler_RequestSummary ::
  "request_summary_stmt faults \<Rightarrow> (request_summary_stmt \<Rightarrow> ai_db \<Rightarrow> ai_db) \<Rightarrow> time \<Rightarrow> payload \<Rightarrow>
   (ai_db, summary_dto) handler" where
  "AIHandler_RequestSummary fault env now body req db =
     (case userAndArticleID req of
        Inl resp \<Rightarrow> (db, resp)
      | Inr (uid, aid) \<Rightarrow> ai_respond (RequestSummary fault env now uid aid (bind_regenerate body) db))"

definition AIHandler_GetSummary :: "go_error option \<Rightarrow> (ai_db, summary_dto) handler" where
  "AIHandler_GetSummary fault req db =
     (case userAndArticleID req of
        Inl resp \<Rightarrow> (db, resp)
      | Inr (uid, aid) \<Rightarrow> ai_respond (db, GetSummary fault uid aid db))"

definition AIHandler_GenerateEmbedding ::
  "'f ai_service \<Rightarrow> embedding_stmt faults \<Rightarrow> (embedding_stmt \<Rightarrow> ai_db \<Rightarrow> ai_db) \<Rightarrow> time \<Rightarrow> (ai_db, embedding_dto) handler" where
  "AIHandler_GenerateEmbedding s fault env now req db =
     (case userAndArticleID req of
        Inl resp \<Rightarrow> (db, resp)
      | Inr (uid, aid) \<Rightarrow> ai_respond (GenerateEmbedding s fault env now uid aid db))"

definition AIHandler_SimilarArticles ::
  "'f ai_service \<Rightarrow> similar_stmt faults \<Rightarrow> (similar_stmt \<Rightarrow> ai_db \<Rightarrow> ai_db) \<Rightarrow> time \<Rightarrow>
   (ai_db, 'f similar_article list) handler" where
  "AIHandler_SimilarArticles s fault env now req db =
     (case userAndArticleID req of
        Inl resp \<Rightarrow> (db, resp)
      | Inr (uid, aid) \<Rightarrow>
        (case parseIntQuery (hr_query req ''limit'') 5 of
           Inl _ \<Rightarrow> (db, response_Error 400 ''invalid_limit'' ''invalid limit'')
         | Inr limit \<Rightarrow> ai_respond (SimilarArticles s fault env now uid aid limit db)))"


subsection \<open>Digests, answers and settings\<close>

definition AIHandler_GenerateDigest ::
  "'f ai_service \<Rightarrow> (string \<Rightarrow> article \<Rightarrow> bool) \<Rightarrow> digest_stmt faults \<Rightarrow> (digest_stmt \<Rightarrow> ai_db \<Rightarrow> ai_db) \<Rightarrow> time \<Rightarrow>
   (ai_db, digest_dto) handler" where
  "AIHandler_GenerateDigest s found fault env now req db =
     (case ai_userID req of
        Inl resp \<Rightarrow> (db, resp)
      | Inr uid \<Rightarrow>
        (case parseDateParam req of
           Inl resp \<Rightarrow> (db, resp)
         | Inr date \<Rightarrow> ai_respond (GenerateDigest s found fault env now uid date db)))"

definition AIHandler_GetDigest :: "go_error option \<Rightarrow> (ai_db, digest_dto) handler" where
  "AIHandler_GetDigest fault req db =
     (case ai_userID req of
        Inl resp \<Rightarrow> (db, resp)
      | Inr uid \<Rightarrow>
        (case parseDateParam req of
           Inl resp \<Rightarrow> (db, resp)
         | Inr date \<Rightarrow> ai_respond (db, GetDigest fault uid date db)))"

definition set_rag_field :: "string \<Rightarrow> json \<Rightarrow> string \<times> int \<Rightarrow> (string \<times> int) option" where
  "set_rag_field k v r =
     (if k = ''query'' then map_option (\<lambda>x. (x, snd r)) (dec_str v (fst r))
      else if k = ''limit'' then map_option (\<lambda>x. (fst r, x)) (dec_int v (snd r))
      else Some r)"

definition AIHandler_RAGSearch ::
  "'f ai_service \<Rightarrow> (string \<Rightarrow> article \<Rightarrow> bool) \<Rightarrow> rag_stmt faults \<Rightarrow> (rag_stmt \<Rightarrow> ai_db \<Rightarrow> ai_db) \<Rightarrow> payload \<Rightarrow>
   (ai_db, rag_result) handler" where
  "AIHandler_RAGSearch s found fault env body req db =
     (case ai_userID req of
        Inl resp \<Rightarrow> (db, resp)
      | Inr uid \<Rightarrow>
        (case unmarshal_struct set_rag_field ('''', 0) body of
           None \<Rightarrow> (db, response_Error 400 ''invalid_request'' ''invalid rag search request'')
         | Some (query, limit) \<Rightarrow> ai_respond (RAGSearch s found fault env uid query limit db)))"

definition AIHandler_GetAISettings :: "'f ai_service \<Rightarrow> go_error option \<Rightarrow> (ai_db, ai_settings_dto) handler" where
  "AIHandler_GetAISettings s fault req db =
     (case ai_userID req of
        Inl resp \<Rightarrow> (db, resp)
      | Inr uid \<Rightarrow> ai_respond (db, GetAISettings s fault uid db))"

definition set_settings_field ::
  "string \<Rightarrow> json \<Rightarrow> update_ai_settings_request \<Rightarrow> update_ai_settings_request option" where
  "set_settings_field k v r =
     (if k = ''provider'' then map_option (\<lambda>x. r\<lparr>ur_provider := x\<rparr>) (dec_str v (ur_provider r))
      else if k = ''base_url'' then map_option (\<lambda>x. r\<lparr>ur_base_url := x\<rparr>) (dec_str v (ur_base_url r))
      else if k = ''model'' then map_option (\<lambda>x. r\<lparr>ur_model := x\<rparr>) (dec_str v (ur_model r))
      else if k = ''embedding_model'' then map_option (\<lambda>x. r\<lparr>ur_embedding_model := x\<rparr>) (dec_str v (ur_embedding_model r))
      else if k = ''api_key'' then map_option (\<lambda>x. r\<lparr>ur_api_key := x\<rparr>) (dec_ptr dec_str '''' v)
      else Some r)"

definition AIHandler_UpdateAISettings ::
  "'f ai_service \<Rightarrow> update_settings_stmt faults \<Rightarrow> (update_settings_stmt \<Rightarrow> ai_db \<Rightarrow> ai_db) \<Rightarrow> time \<Rightarrow> payload \<Rightarrow>
   (ai_db, ai_settings_dto) handler" where
  "AIHandler_UpdateAISettings s fault env now body req db =
     (case ai_userID req of
        Inl resp \<Rightarrow> (db, resp)
      | Inr uid \<Rightarrow>
        (case unmarshal_struct set_settings_field
                \<lparr>ur_user_id = uid, ur_provider = '''', ur_base_url = '''', ur_model = '''', ur_embedding_model = '''',
                 ur_api_key = None\<rparr> body of
           None \<Rightarrow> (db, response_Error 400 ''invalid_request'' ''invalid ai settings request'')
         | Some r \<Rightarrow> ai_respond (UpdateAISettings s fault env now r db)))"

subsection \<open>Other users' articles\<close>

lemma FindSummary_unreachable:
  "\<not> article_reachable (ai_articles db) uid aid \<Longrightarrow> FindSummary None uid aid prompt db = Inl (Sentinel ErrSummaryNotFound)"
  by (cases "find_row (summary_selected (ai_articles db) uid aid prompt) (ai_summaries db)")
    (auto simp: FindSummary_def summary_selected_def dest: find_row_SomeD)

lemma FindEmbedding_unreachable:
  "\<not> article_reachable (ai_articles db) uid aid \<Longrightarrow> FindEmbedding ops None uid aid m v db = Inl (Sentinel ErrEmbeddingNotFound)"
  by (simp add: FindEmbedding_def find_row_None split: option.split) (auto dest: find_row_SomeD)

lemma userAndArticleID_any:
  "userAndArticleID req = (Inr p :: unit http_response + int \<times> int) \<Longrightarrow>
     userAndArticleID req = (Inr p :: 'a http_response + int \<times> int)"
  by (auto simp: userAndArticleID_def split: prod.splits bool.splits option.splits)

text \<open>
  An article of another user, of a deleted source or that does not exist gets the same answer
  from the four article operations: not found, and nothing is written.
\<close>

theorem ai_foreign_article_hidden:
  assumes "userAndArticleID req = (Inr (uid, aid) :: unit http_response + int \<times> int)"
    and "\<not> article_reachable (ai_articles db) uid aid" "parseIntQuery (hr_query req ''limit'') 5 = Inr lim"
  shows "AIHandler_RequestSummary no_faults no_env now body req db =
      (db, response_Error 404 ''article_not_found'' ''article not found'') \<and>
    AIHandler_GetSummary None req db = (db, response_Error 404 ''summary_not_found'' ''summary not found'') \<and>
    AIHandler_GenerateEmbedding s no_faults no_env now req db =
      (db, response_Error 404 ''article_not_found'' ''article not found'') \<and>
    AIHandler_SimilarArticles s no_faults no_env now req db =
      (db, response_Error 404 ''article_not_found'' ''article not found'')"
proof -

  note find = Article_FindByUserAndID_unreachable [OF assms(2)] FindSummary_unreachable [OF assms(2)]
    FindEmbedding_unreachable [OF assms(2)]
  have request: "RequestSummary no_faults no_env now uid aid regenerate db = (db, Inl (Sentinel ErrArticleNotFound))" for regenerate
    using find by (simp add: RequestSummary_def)
  have embed: "GenerateEmbedding s f no_env now uid aid db = (db, Inl (Sentinel ErrArticleNotFound))" if "f GeArticle = None" for f
    using find that by (simp add: GenerateEmbedding_def)
  have "SimilarArticles s no_faults no_env now uid aid lim db = (db, Inl (Sentinel ErrArticleNotFound))"
    using embed by (simp add: SimilarArticles_def FindEmbedding_unreachable [OF assms(2)] Let_def)
  moreover have "GetSummary None uid aid db = Inl (Sentinel ErrSummaryNotFound)" using find by (simp add: GetSummary_def)
  ultimately show ?thesis using request embed assms(3)
    by (simp add: userAndArticleID_any [OF assms(1)] AIHandler_RequestSummary_def AIHandler_GetSummary_def AIHandler_GenerateEmbedding_def
        AIHandler_SimilarArticles_def ai_respond_def ai_handleError_def)
qed

definition sample_article_request :: "int \<Rightarrow> string \<Rightarrow> http_request" where
  "sample_article_request uid i =
     \<lparr>hr_method = ''GET'', hr_header = (\<lambda>_. []), hr_param = (\<lambda>_. i), hr_query = (\<lambda>_. []), hr_user_id = Some uid,
      hr_request_id = None\<rparr>"

theorem ai_foreign_article_hidden_witness:
  "AIHandler_GenerateEmbedding sample_ai_service no_faults no_env 5 (sample_article_request 2 ''7'') reading_ai_db =
     (reading_ai_db, response_Error 404 ''article_not_found'' ''article not found'')"
proof -
  have p: "parse_int64 ''7'' = Inr 7" by code_simp
  have "userAndArticleID (sample_article_request 2 ''7'') = (Inr (2, 7) :: unit http_response + int \<times> int)"
    by (simp add: userAndArticleID_def sample_article_request_def requestctx_UserID_def parseIDParam_def p)
  moreover have "\<not> article_reachable (ai_articles reading_ai_db) 2 7"
    by (simp add: reading_ai_db_facts article_reachable_def sample_ai_articles_def find_row_def article_owned_def
        sample_feed_source_def)
  moreover have "parseIntQuery (hr_query (sample_article_request 2 ''7'') ''limit'') 5 = Inr 5"
    by (simp add: parseIntQuery_def sample_article_request_def)
  ultimately show ?thesis using ai_foreign_article_hidden by blast
qed

end
