(* ===== verification/Auth_Store.thy ===== *)
theory Auth_Store
  imports Sql_Table
begin

section \<open>Users and refresh tokens in the database\<close>

text \<open>
  \<open>internal/module/user\<close> and the refresh token repository of \<open>internal/module/auth\<close>
  (\<open>model.go\<close>, \<open>repository.go\<close>, \<open>refresh_token_repository.go\<close>). The emails of users and the hashes
  of tokens are unique, a token references its user; the connection is opened with GORM's
  translated errors, so a violated unique index is \<^const>\<open>GormErrDuplicatedKey\<close>.
\<close>

record user =
  us_id :: int
  us_email :: string
  us_password_hash :: string
  us_display_name :: string
  us_created_at :: time
  us_updated_at :: time

record refresh_token =
  rt_id :: int
  rt_user_id :: int
  rt_token_hash :: string
  rt_expires_at :: time
  rt_revoked_at :: "time option"
  rt_created_at :: time

record auth_db =
  au_users :: "user table"
  au_tokens :: "refresh_token table"


subsection \<open>The user repository\<close>

definition User_Create :: "go_error option \<Rightarrow> time \<Rightarrow> user \<Rightarrow> auth_db \<Rightarrow> auth_db \<times> user result" where
  "User_Create fault now u db =
     (let t = au_users db;
          new = (\<lambda>i. u\<lparr>us_id := i, us_created_at := now, us_updated_at := now\<rparr>);
          err = (case fault of Some e \<Rightarrow> Some e
                 | None \<Rightarrow> if find_row (\<lambda>r. us_email r = us_email u) t \<noteq> None
                          then Some (Sentinel GormErrDuplicatedKey) else None) in
      case err of
        Some e \<Rightarrow>
          (db\<lparr>au_users := burn_seq t\<rparr>,
           Inl (if errors_is e GormErrDuplicatedKey then Sentinel UserErrEmailAlreadyExists
                else Wrapf ''create user: '' e ''''))
      | None \<Rightarrow> (db\<lparr>au_users := insert_row new t\<rparr>, Inr (new (seq t + 1))))"

definition User_FindByID :: "go_error option \<Rightarrow> int \<Rightarrow> auth_db \<Rightarrow> user result" where
  "User_FindByID fault i db =
     (case fault of
        Some e \<Rightarrow> Inl (if errors_is e GormErrRecordNotFound then Sentinel UserErrUserNotFound
                       else Wrapf ''find user by id: '' e '''')
      | None \<Rightarrow>
        (case find_row (\<lambda>r. us_id r = i) (au_users db) of
           None \<Rightarrow> Inl (Sentinel UserErrUserNotFound)
         | Some u \<Rightarrow> Inr u))"

definition User_FindByEmail :: "go_error option \<Rightarrow> string \<Rightarrow> auth_db \<Rightarrow> user result" where
  "User_FindByEmail fault email db =
     (case fault of
        Some e \<Rightarrow> Inl (if errors_is e GormErrRecordNotFound then Sentinel UserErrUserNotFound
                       else Wrapf ''find user by email: '' e '''')
      | None \<Rightarrow>
        (case find_row (\<lambda>r. us_email r = email) (au_users db) of
           None \<Rightarrow> Inl (Sentinel UserErrUserNotFound)
         | Some u \<Rightarrow> Inr u))"


subsection \<open>The refresh token repository\<close>

definition Token_Create :: "go_error option \<Rightarrow> time \<Rightarrow> refresh_token \<Rightarrow> auth_db \<Rightarrow> auth_db \<times> refresh_token result" where
  "Token_Create fault now r db =
     (let t = au_tokens db;
          new = (\<lambda>i. r\<lparr>rt_id := i, rt_created_at := now\<rparr>);
          err = (case fault of Some e \<Rightarrow> Some e
                 | None \<Rightarrow>
                   if find_row (\<lambda>x. rt_token_hash x = rt_token_hash r) t \<noteq> None
                   then Some (Sentinel GormErrDuplicatedKey)
                   else if find_row (\<lambda>u. us_id u = rt_user_id r) (au_users db) = None
                   then Some (Plain ''violates foreign key constraint'') else None) in
      case err of
        Some e \<Rightarrow> (db\<lparr>au_tokens := burn_seq t\<rparr>, Inl (Wrapf ''create refresh token: '' e ''''))
      | None \<Rightarrow> (db\<lparr>au_tokens := insert_row new t\<rparr>, Inr (new (seq t + 1))))"

definition Token_FindValidByHash :: "go_error option \<Rightarrow> string \<Rightarrow> time \<Rightarrow> auth_db \<Rightarrow> refresh_token result" where
  "Token_FindValidByHash fault h now db =
     (case fault of
        Some e \<Rightarrow> Inl (if errors_is e GormErrRecordNotFound then Sentinel ErrRefreshTokenNotFound
                       else Wrapf ''find valid refresh token by hash: '' e '''')
      | None \<Rightarrow>
        (case find_row (\<lambda>r. rt_token_hash r = h \<and> rt_revoked_at r = None \<and> now < rt_expires_at r) (au_tokens db) of
           None \<Rightarrow> Inl (Sentinel ErrRefreshTokenNotFound)
         | Some r \<Rightarrow> Inr r))"

definition Token_RevokeByHash :: "go_error option \<Rightarrow> string \<Rightarrow> time \<Rightarrow> auth_db \<Rightarrow> auth_db \<times> unit result" where
  "Token_RevokeByHash fault h at db =
     (let live = (\<lambda>r. rt_token_hash r = h \<and> rt_revoked_at r = None) in
      case fault of
        Some e \<Rightarrow> (db, Inl (Wrapf ''revoke refresh token by hash: '' e ''''))
      | None \<Rightarrow>
        (db\<lparr>au_tokens := update_rows live (\<lambda>r. r\<lparr>rt_revoked_at := Some at\<rparr>) (au_tokens db)\<rparr>,
         if count_rows live (au_tokens db) = 0 then Inl (Sentinel ErrRefreshTokenNotFound) else Inr ()))"

definition Token_RevokeAllByUserID :: "go_error option \<Rightarrow> int \<Rightarrow> time \<Rightarrow> auth_db \<Rightarrow> auth_db \<times> unit result" where
  "Token_RevokeAllByUserID fault uid at db =
     (case fault of
        Some e \<Rightarrow> (db, Inl (Wrapf ''revoke all refresh tokens by user id: '' e ''''))
      | None \<Rightarrow>
        (db\<lparr>au_tokens := update_rows (\<lambda>r. rt_user_id r = uid) (\<lambda>r. r\<lparr>rt_revoked_at := Some at\<rparr>) (au_tokens db)\<rparr>,
         Inr ()))"


subsection \<open>What any process does to the tables\<close>

inductive auth_step :: "auth_db \<Rightarrow> auth_db \<Rightarrow> bool" where
  step_user: "auth_step db (fst (User_Create f now u db))"
| step_token: "auth_step db (fst (Token_Create f now r db))"
| step_revoke: "auth_step db (fst (Token_RevokeByHash f h at db))"
| step_revoke_all: "auth_step db (fst (Token_RevokeAllByUserID f uid at db))"

abbreviation auth_steps :: "auth_db \<Rightarrow> auth_db \<Rightarrow> bool" where
  "auth_steps \<equiv> auth_step\<^sup>*\<^sup>*"

text \<open>
  The invariant of the tables: ids, emails and hashes are keys, and tokens belong to users.
\<close>

definition auth_inv :: "auth_db \<Rightarrow> bool" where
  "auth_inv db \<longleftrightarrow> keyed_table us_id us_email (au_users db) \<and> keyed_table rt_id rt_token_hash (au_tokens db) \<and>
     (\<forall>r \<in> set (rows (au_tokens db)). \<exists>u \<in> set (rows (au_users db)). us_id u = rt_user_id r)"

definition auth_empty :: auth_db where
  "auth_empty = \<lparr>au_users = empty_table, au_tokens = empty_table\<rparr>"

lemma auth_inv_empty [simp]: "auth_inv auth_empty"
  by (simp add: auth_inv_def auth_empty_def)

definition token_row :: "string \<Rightarrow> auth_db \<Rightarrow> refresh_token option" where
  "token_row h db = find_row (\<lambda>r. rt_token_hash r = h) (au_tokens db)"

definition token_spent :: "string \<Rightarrow> auth_db \<Rightarrow> bool" where
  "token_spent h db \<longleftrightarrow> (\<exists>r. token_row h db = Some r \<and> rt_revoked_at r \<noteq> None)"


subsection \<open>What the steps keep\<close>

lemmas auth_ops_defs = User_Create_def Token_Create_def Token_RevokeByHash_def Token_RevokeAllByUserID_def Let_def

lemma auth_step_users:
  "auth_step db db' \<Longrightarrow> find_row P (au_users db) = Some u \<Longrightarrow> find_row P (au_users db') = Some u"
  by (induction rule: auth_step.induct) (auto simp: auth_ops_defs find_row_insert split: option.splits)

text \<open>A token keeps its user, its hash and its end, and once revoked it stays revoked.\<close>

lemma auth_step_token:
  assumes "auth_step db db'" "token_row h db = Some r"
  shows "\<exists>r'. token_row h db' = Some r' \<and> rt_user_id r' = rt_user_id r \<and> rt_expires_at r' = rt_expires_at r \<and>
           (rt_revoked_at r \<noteq> None \<longrightarrow> rt_revoked_at r' \<noteq> None)"
  using assms
  by (induction rule: auth_step.induct)
    (auto simp: auth_ops_defs token_row_def find_row_insert find_row_update_key [where key = rt_token_hash] split: option.splits)

lemma auth_step_spent: "auth_step db db' \<Longrightarrow> token_spent h db \<Longrightarrow> token_spent h db'"
  unfolding token_spent_def using auth_step_token by blast

lemma auth_inv_step:
  assumes "auth_step db db'" "auth_inv db"
  shows "auth_inv db'"
  using assms
proof (induction rule: auth_step.induct)
  case (step_user db f now u)
  then show ?case
    by (auto simp: auth_inv_def auth_ops_defs split: option.split intro!: keyed_table_insert)
next
  case (step_token db f now r)
  have "find_row (\<lambda>u. us_id u = rt_user_id r) (au_users db) \<noteq> None \<Longrightarrow>
      \<exists>u \<in> set (rows (au_users db)). us_id u = rt_user_id r"
    using find_row_SomeD by fastforce
  with step_token show ?case
    by (auto simp: auth_inv_def auth_ops_defs split: option.split intro!: keyed_table_insert)
next
  case (step_revoke db f h at)
  then show ?case
    by (auto simp: auth_inv_def auth_ops_defs set_rows_update split: option.split intro!: keyed_table_update)
next
  case (step_revoke_all db f uid at)
  then show ?case
    by (auto simp: auth_inv_def auth_ops_defs set_rows_update split: option.split intro!: keyed_table_update)
qed

lemma auth_inv_steps: "auth_steps db db' \<Longrightarrow> auth_inv db \<Longrightarrow> auth_inv db'"
  by (induction rule: rtranclp_induct) (auto intro: auth_inv_step)

lemma auth_steps_users:
  "auth_steps db db' \<Longrightarrow> find_row P (au_users db) = Some u \<Longrightarrow> find_row P (au_users db') = Some u"
  by (induction rule: rtranclp_induct) (auto dest: auth_step_users)

lemma auth_steps_spent: "auth_steps db db' \<Longrightarrow> token_spent h db \<Longrightarrow> token_spent h db'"
  by (induction rule: rtranclp_induct) (auto dest: auth_step_spent)

lemma Token_RevokeByHash_result:
  "Token_RevokeByHash f h at db = (db', Inr x) \<longleftrightarrow>
     f = None \<and> token_row h db \<noteq> None \<and>
     count_rows (\<lambda>r. rt_token_hash r = h \<and> rt_revoked_at r = None) (au_tokens db) \<noteq> 0 \<and>
     db' = db\<lparr>au_tokens := update_rows (\<lambda>r. rt_token_hash r = h \<and> rt_revoked_at r = None)
                 (\<lambda>r. r\<lparr>rt_revoked_at := Some at\<rparr>) (au_tokens db)\<rparr>"
  by (auto simp: auth_ops_defs count_rows_0 token_row_def find_row_None split: option.split)

lemma live_token:
  assumes "auth_inv db"
  shows "count_rows (\<lambda>r. rt_token_hash r = h \<and> rt_revoked_at r = None) (au_tokens db) \<noteq> 0 \<longleftrightarrow>
         (\<exists>r. token_row h db = Some r \<and> rt_revoked_at r = None)"
proof
  assume "count_rows (\<lambda>r. rt_token_hash r = h \<and> rt_revoked_at r = None) (au_tokens db) \<noteq> 0"
  then obtain r where "r \<in> set (rows (au_tokens db))" "rt_token_hash r = h" "rt_revoked_at r = None"
    by (auto simp: count_rows_0 find_row_None)
  then show "\<exists>r. token_row h db = Some r \<and> rt_revoked_at r = None"
    using assms find_row_key [of rt_token_hash "au_tokens db" r h]
    by (auto simp: auth_inv_def keyed_table_def token_row_def)
next
  assume "\<exists>r. token_row h db = Some r \<and> rt_revoked_at r = None"
  then show "count_rows (\<lambda>r. rt_token_hash r = h \<and> rt_revoked_at r = None) (au_tokens db) \<noteq> 0"
    by (auto simp: count_rows_0 find_row_None token_row_def dest!: find_row_SomeD)
qed

lemma Token_RevokeByHash_iff:
  assumes "auth_inv db"
  shows "(\<exists>db' x. Token_RevokeByHash f h at db = (db', Inr x)) \<longleftrightarrow>
         f = None \<and> (\<exists>r. token_row h db = Some r \<and> rt_revoked_at r = None)"
  using Token_RevokeByHash_result [of f h at db] live_token [OF assms, of h] by auto

lemma Token_RevokeByHash_spends:
  assumes "auth_inv db" "Token_RevokeByHash f h at db = (db', Inr x)"
  shows "\<not> token_spent h db \<and> token_spent h db'"
proof -
  obtain r where r: "token_row h db = Some r" "rt_revoked_at r = None"
    using Token_RevokeByHash_iff [OF assms(1), of f h at] assms(2) by blast
  then have "rt_token_hash r = h" by (auto simp: token_row_def dest: find_row_SomeD)
  with r assms(2) show ?thesis
    by (auto simp: token_spent_def Token_RevokeByHash_result token_row_def find_row_update_key [where key = rt_token_hash])
qed

lemma Token_FindValidByHash_row:
  "Token_FindValidByHash f h now db = Inr r \<Longrightarrow> auth_inv db \<Longrightarrow>
     token_row h db = Some r \<and> rt_revoked_at r = None \<and> now < rt_expires_at r"
  using find_row_key [of rt_token_hash "au_tokens db" r h]
  by (auto simp: Token_FindValidByHash_def token_row_def auth_inv_def keyed_table_def
      dest!: find_row_SomeD split: option.splits)

lemma Token_FindValidByHash_spent:
  assumes "auth_inv db" "token_spent h db"
  shows "Token_FindValidByHash None h now db = Inl (Sentinel ErrRefreshTokenNotFound)"
proof (cases "Token_FindValidByHash None h now db")
  case (Inr r)
  then show ?thesis using Token_FindValidByHash_row [OF Inr assms(1)] assms(2) by (simp add: token_spent_def)
qed (simp add: Token_FindValidByHash_def split: option.splits)


subsection \<open>Single use\<close>

text \<open>
  What the service relies on for the rotation of tokens: \<open>consume\<close> succeeds only on what is not
  spent and spends it, and what is spent stays so whatever other processes do.
\<close>

locale single_use =
  fixes inv :: "'db \<Rightarrow> bool" and step :: "'db \<Rightarrow> 'db \<Rightarrow> bool"
    and consume :: "'x \<Rightarrow> 'k \<Rightarrow> 'db \<Rightarrow> 'db \<times> 'a result" and spent :: "'k \<Rightarrow> 'db \<Rightarrow> bool"
  assumes consume_step: "step db (fst (consume x k db))"
    and step_inv: "step db db' \<Longrightarrow> inv db \<Longrightarrow> inv db'"
    and step_spent: "step db db' \<Longrightarrow> spent k db \<Longrightarrow> spent k db'"
    and consume_spends: "inv db \<Longrightarrow> consume x k db = (db', Inr a) \<Longrightarrow> \<not> spent k db \<and> spent k db'"
begin

lemma steps_spent: "step\<^sup>*\<^sup>* db db' \<Longrightarrow> spent k db \<Longrightarrow> spent k db'"
  by (induction rule: rtranclp_induct) (auto dest: step_spent)

lemma steps_inv: "step\<^sup>*\<^sup>* db db' \<Longrightarrow> inv db \<Longrightarrow> inv db'"
  by (induction rule: rtranclp_induct) (auto dest: step_inv)

lemma consume_inv: "inv db \<Longrightarrow> consume x k db = (db', r) \<Longrightarrow> inv db'"
  using consume_step [of db x k] step_inv by fastforce

text \<open>Of two uses the later one fails, whatever happens in between.\<close>

lemma consumed_once:
  assumes "inv db" "consume x k db = (db1, Inr a)" "step\<^sup>*\<^sup>* db1 db2"
  shows "isl (snd (consume y k db2))"
proof (cases "snd (consume y k db2)")
  case (Inr b)
  have "inv db2" using consume_inv [OF assms(1,2)] assms(3) steps_inv by blast
  then have "\<not> spent k db2" using consume_spends [of db2 y k "fst (consume y k db2)" b] Inr by (simp add: prod_eq_iff)
  then show ?thesis using consume_spends [OF assms(1,2)] steps_spent [OF assms(3)] by blast
qed simp

end

interpretation rt: single_use auth_inv auth_step "\<lambda>x h. Token_RevokeByHash (fst x) h (snd x)" token_spent
  by unfold_locales (auto intro: step_revoke auth_inv_step auth_step_spent dest: Token_RevokeByHash_spends)

end
