(* ===== verification/Go_Base64.thy ===== *)
theory Go_Base64
  imports Go_Prelude
begin

section \<open>Base64 and hexadecimal texts\<close>

text \<open>
  The encodings of \<open>encoding/base64\<close> and \<open>encoding/hex\<close> that the program uses: three bytes are four
  characters. The decoders skip line breaks and do not ask that the unused bits of the last
  character are zero.
\<close>

text \<open>\<open>base64.RawURLEncoding\<close>: three bytes are four characters, without padding.\<close>

definition url_alphabet :: string where
  "url_alphabet = ''ABCDEFGHIJKLMNOPQRSTUVWXYZabcdefghijklmnopqrstuvwxyz0123456789-_''"

definition url_char :: "nat \<Rightarrow> char" where
  "url_char n = url_alphabet ! n"

definition url_quad :: "nat \<Rightarrow> string" where
  "url_quad n = map url_char [n div 262144, n div 4096 mod 64, n div 64 mod 64, n mod 64]"

fun raw_url_encode :: "string \<Rightarrow> string" where
  "raw_url_encode [] = []"
| "raw_url_encode [a] = take 2 (url_quad (65536 * of_char a))"
| "raw_url_encode [a, b] = take 3 (url_quad (65536 * of_char a + 256 * of_char b))"
| "raw_url_encode (a # b # c # s) = url_quad (65536 * of_char a + 256 * of_char b + of_char c) @ raw_url_encode s"


subsection \<open>Facts about the encoding\<close>

lemma url_alphabet_facts: "distinct url_alphabet" "length url_alphabet = 64" "list_all visible url_alphabet"
  by (simp_all add: url_alphabet_def visible_def)

lemma url_char_inject: "m < 64 \<Longrightarrow> n < 64 \<Longrightarrow> url_char m = url_char n \<longleftrightarrow> m = n"
  using url_alphabet_facts by (simp add: url_char_def nth_eq_iff_index_eq)

lemma url_char_visible: "n < 64 \<Longrightarrow> visible (url_char n)"
  using url_alphabet_facts by (simp add: url_char_def list_all_length)

lemma length_url_quad [simp]: "length (url_quad n) = 4"
  by (simp add: url_quad_def)

lemma url_quad_digits: "n < 16777216 \<Longrightarrow> (n div 262144) < 64 \<and> n div 4096 mod 64 < 64 \<and> n div 64 mod 64 < 64 \<and> n mod 64 < (64::nat)"
  by (simp add: less_mult_imp_div_less)

lemma url_quad_visible: "n < 16777216 \<Longrightarrow> list_all visible (url_quad n)"
  using url_quad_digits [of n] by (simp add: url_quad_def url_char_visible)

lemma sextets_value: "(k::nat) = 64 * (64 * (64 * (k div 262144) + k div 4096 mod 64) + k div 64 mod 64) + k mod 64"
proof -
  have "k div 262144 = k div 4096 div 64" "k div 4096 = k div 64 div 64" by (simp_all flip: div_mult2_eq)
  then show ?thesis by simp
qed

lemma url_quad_inject:
  assumes "m < 16777216" "n < 16777216" "url_quad m = url_quad n"
  shows "m = n"
proof -
  have d: "m div 262144 = n div 262144" "m div 4096 mod 64 = n div 4096 mod 64" "m div 64 mod 64 = n div 64 mod 64"
    "m mod 64 = n mod 64"
    using assms url_quad_digits [of m] url_quad_digits [of n] by (simp_all add: url_quad_def url_char_inject)
  show ?thesis using sextets_value [of m] sextets_value [of n] unfolding d by simp
qed

text \<open>The bytes of one group.\<close>

lemma byte_less: "(of_char c :: nat) < 256"
  by (rule nat_of_char_less_256)

lemma byte_eq: "(of_char c :: nat) = of_char d \<longleftrightarrow> c = d"
  by (simp add: of_char_eq_iff)

lemma raw_url_group:
  "65536 * (of_char a :: nat) + 256 * of_char b + of_char c < 16777216"
  using byte_less [of a] byte_less [of b] byte_less [of c] by linarith

lemma raw_url_encode_visible: "list_all visible (raw_url_encode s)"
proof (induction s rule: raw_url_encode.induct)
  case (2 a)
  then show ?case using url_quad_visible [of "65536 * of_char a"] byte_less [of a]
    by (simp add: list_all_iff) (meson in_set_takeD)
next
  case (3 a b)
  then show ?case using url_quad_visible [of "65536 * of_char a + 256 * of_char b"] byte_less [of a] byte_less [of b]
    by (simp add: list_all_iff) (meson in_set_takeD)
next
  case (4 a b c s)
  then show ?case using url_quad_visible [OF raw_url_group] by simp
qed simp

lemma length_raw_url_encode: "length (raw_url_encode s) = (4 * length s + 2) div 3"
  by (induction s rule: raw_url_encode.induct) simp_all


lemma url_quad_tail: "drop 2 (url_quad (65536 * n)) = map url_char [0, 0]" "drop 3 (url_quad (256 * n)) = [url_char 0]"
proof -
  have "65536 * n div 64 = 1024 * n" "256 * n mod 64 = 0" "1024 * n mod 64 = 0" "65536 * n mod 64 = 0"
    using div_mult_self1_is_m [of 64 "1024 * n"] mod_mult_self1_is_0 [of 64 "4 * n"]
      mod_mult_self1_is_0 [of 64 "16 * n"] mod_mult_self1_is_0 [of 64 "1024 * n"] by simp_all
  then show "drop 2 (url_quad (65536 * n)) = map url_char [0, 0]" "drop 3 (url_quad (256 * n)) = [url_char 0]"
    by (simp_all add: url_quad_def)
qed

lemma group_bytes:
  assumes "y < 256" "z < 256"
  shows "(65536 * x + 256 * y + z) mod 256 = (z::nat)" "(65536 * x + 256 * y + z) div 256 mod 256 = y"
    "(65536 * x + 256 * y + z) div 256 div 256 = x"
proof -
  have n: "65536 * x + 256 * y + z = z + (y + x * 256) * 256" by simp
  have d: "(z + (y + x * 256) * 256) div 256 = y + x * 256" using assms(2) by (simp only: div_mult_self1)
  show "(65536 * x + 256 * y + z) mod 256 = z" unfolding n by (simp only: mod_mult_self1 mod_less assms)
  show "(65536 * x + 256 * y + z) div 256 mod 256 = y" unfolding n d using assms(1) by simp
  show "(65536 * x + 256 * y + z) div 256 div 256 = x" unfolding n d using assms(1) by simp
qed

lemma url_group_inject:
  assumes "65536 * (of_char a :: nat) + 256 * of_char b + of_char c = 65536 * of_char a' + 256 * of_char b' + of_char c'"
  shows "a = a' \<and> b = b' \<and> c = c'"
proof -
  have "(of_char a :: nat) = of_char a'" "(of_char b :: nat) = of_char b'" "(of_char c :: nat) = of_char c'"
    using group_bytes [where x = "of_char a" and y = "of_char b" and z = "of_char c", OF byte_less byte_less]
      group_bytes [where x = "of_char a'" and y = "of_char b'" and z = "of_char c'", OF byte_less byte_less] assms by simp_all
  then show ?thesis by (simp add: byte_eq)
qed

lemma raw_url_encode_inject: "raw_url_encode s = raw_url_encode t \<Longrightarrow> s = t"
proof (induction s arbitrary: t rule: raw_url_encode.induct)
  case 1
  then have "length (raw_url_encode t) = 0" by simp
  then show ?case by (cases t) (simp_all add: length_raw_url_encode)
next
  case (2 a)
  then have "length (raw_url_encode t) = length (raw_url_encode [a])" by (simp only:)
  then have "length t = 1" by (simp add: length_raw_url_encode)
  then obtain b where t: "t = [b]" by (auto simp: length_Suc_conv)
  let ?q = "\<lambda>x. url_quad (65536 * of_char x)"
  have "take 2 (?q a) = take 2 (?q b)" using 2 t by simp
  then have "?q a = ?q b" using url_quad_tail(1) append_take_drop_id by metis
  then show ?case
    using url_quad_inject [of "65536 * of_char a" "65536 * of_char b"] byte_less [of a] byte_less [of b] t by (simp add: byte_eq)
next
  case (3 a b)
  have "length (raw_url_encode t) = 3" using 3 [symmetric] by simp
  then have "length t = 2" by (simp add: length_raw_url_encode)
  then obtain c d where t: "t = [c, d]" by (auto simp: numeral_2_eq_2 length_Suc_conv)
  let ?n = "\<lambda>x y. 65536 * (of_char x :: nat) + 256 * of_char y"
  have n: "?n x y = 256 * (256 * of_char x + of_char y)" for x y by simp
  have "take 3 (url_quad (?n a b)) = take 3 (url_quad (?n c d))" using 3 t by simp
  then have "url_quad (?n a b) = url_quad (?n c d)" unfolding n using url_quad_tail(2) append_take_drop_id by metis
  then have "?n a b = ?n c d"
    using url_quad_inject [of "?n a b" "?n c d"] raw_url_group [of a b "CHR 0x00"] raw_url_group [of c d "CHR 0x00"]
    by simp
  then show ?case using url_group_inject [of a b "CHR 0x00" c d "CHR 0x00"] t by simp
next
  case (4 a b c s)
  have "length (raw_url_encode t) \<ge> 4" using 4(2) [symmetric] by simp
  then have "length t \<ge> 3" by (simp add: length_raw_url_encode)
  then obtain a' b' c' t' where t: "t = a' # b' # c' # t'" by (auto simp: numeral_3_eq_3 Suc_le_length_iff)
  have "url_quad (65536 * of_char a + 256 * of_char b + of_char c) = url_quad (65536 * of_char a' + 256 * of_char b' + of_char c')"
    and "raw_url_encode s = raw_url_encode t'" using 4(2) t by simp_all
  then show ?case using url_quad_inject raw_url_group url_group_inject 4(1) t by metis
qed


subsection \<open>Decoding\<close>

definition std_alphabet :: string where
  "std_alphabet = ''ABCDEFGHIJKLMNOPQRSTUVWXYZabcdefghijklmnopqrstuvwxyz0123456789+/''"

definition b64_index :: "string \<Rightarrow> char \<Rightarrow> nat option" where
  "b64_index alphabet c = map_of (zip alphabet [0..<64]) c"

definition b64_bytes :: "nat \<Rightarrow> nat \<Rightarrow> nat \<Rightarrow> nat \<Rightarrow> string" where
  "b64_bytes m n k l =
     (let v = 262144 * m + 4096 * n + 64 * k + l in map char_of [v div 65536, v div 256 mod 256, v mod 256])"

fun b64_groups :: "(char \<Rightarrow> nat option) \<Rightarrow> bool \<Rightarrow> string \<Rightarrow> string option" where
  "b64_groups ix padded [] = Some []"
| "b64_groups ix padded [a] = None"
| "b64_groups ix padded [a, b] =
     (case (ix a, ix b) of (Some m, Some n) \<Rightarrow> if padded then None else Some (take 1 (b64_bytes m n 0 0)) | _ \<Rightarrow> None)"
| "b64_groups ix padded [a, b, c] =
     (case (ix a, ix b, ix c) of
        (Some m, Some n, Some k) \<Rightarrow> if padded then None else Some (take 2 (b64_bytes m n k 0)) | _ \<Rightarrow> None)"
| "b64_groups ix padded (a # b # c # d # s) =
     (case (ix a, ix b) of
        (Some m, Some n) \<Rightarrow>
          (case ix c of
             None \<Rightarrow> if padded \<and> c = CHR ''='' \<and> d = CHR ''='' \<and> s = [] then Some (take 1 (b64_bytes m n 0 0)) else None
           | Some k \<Rightarrow>
             (case ix d of
                None \<Rightarrow> if padded \<and> d = CHR ''='' \<and> s = [] then Some (take 2 (b64_bytes m n k 0)) else None
              | Some l \<Rightarrow> map_option (\<lambda>r. b64_bytes m n k l @ r) (b64_groups ix padded s)))
      | _ \<Rightarrow> None)"

definition b64_decode :: "string \<Rightarrow> bool \<Rightarrow> string \<Rightarrow> string option" where
  "b64_decode alphabet padded s =
     b64_groups (b64_index alphabet) padded (filter (\<lambda>c. c \<noteq> CHR 0x0A \<and> c \<noteq> CHR 0x0D) s)"

definition hex_value :: "char \<Rightarrow> nat option" where
  "hex_value c =
     (let n = of_char c in
      if 48 \<le> n \<and> n \<le> 57 then Some (n - 48)
      else if 97 \<le> n \<and> n \<le> 102 then Some (n - 87)
      else if 65 \<le> n \<and> n \<le> 70 then Some (n - 55) else None)"

fun hex_decode :: "string \<Rightarrow> string option" where
  "hex_decode [] = Some []"
| "hex_decode [a] = None"
| "hex_decode (a # b # s) =
     (case (hex_value a, hex_value b) of
        (Some m, Some n) \<Rightarrow> map_option (\<lambda>r. char_of (16 * m + n) # r) (hex_decode s) | _ \<Rightarrow> None)"

text \<open>The standard alphabet without and with padding.\<close>

definition std_char :: "char \<Rightarrow> char" where
  "std_char c = (if c = CHR ''-'' then CHR ''+'' else if c = CHR ''_'' then CHR ''/'' else c)"

definition raw_std_encode :: "string \<Rightarrow> string" where
  "raw_std_encode s = map std_char (raw_url_encode s)"

definition std_encode :: "string \<Rightarrow> string" where
  "std_encode s = raw_std_encode s @ replicate ((3 - length s mod 3) mod 3) (CHR ''='')"


subsection \<open>Round trips\<close>

lemma std_alphabet_facts: "distinct std_alphabet" "length std_alphabet = 64" "std_alphabet = map std_char url_alphabet"
  by (simp_all add: std_alphabet_def url_alphabet_def std_char_def)

lemma b64_index_nth: "distinct al \<Longrightarrow> length al = 64 \<Longrightarrow> n < 64 \<Longrightarrow> b64_index al (al ! n) = Some n"
  by (simp add: b64_index_def map_of_zip_nth)

lemma b64_index_SomeD:
  assumes "length al = 64" "b64_index al c = Some n"
  shows "n < 64" "c = al ! n"
  using assms map_of_SomeD [of "zip al [0..<64]" c n] by (auto simp: b64_index_def in_set_zip)

lemma b64_index_alphabets:
  assumes "n < 64"
  shows "b64_index url_alphabet (url_char n) = Some n" "b64_index std_alphabet (std_char (url_char n)) = Some n"
  using b64_index_nth [OF std_alphabet_facts(1,2) assms] b64_index_nth [OF url_alphabet_facts(1,2) assms] assms
  by (simp_all add: url_char_def std_alphabet_facts(3) url_alphabet_facts(2))

text \<open>A character in both alphabets has the same value in both.\<close>

lemma b64_index_agree:
  assumes "b64_index std_alphabet c = Some m" "b64_index url_alphabet c = Some n"
  shows "m = n"
proof -
  note a = b64_index_SomeD [OF std_alphabet_facts(2) assms(1)] b64_index_SomeD [OF url_alphabet_facts(2) assms(2)]
  have "CHR ''+'' \<notin> set url_alphabet" "CHR ''/'' \<notin> set url_alphabet" by (simp_all add: url_alphabet_def)
  moreover have "c \<in> set url_alphabet" using a(3,4) url_alphabet_facts(2) by simp
  moreover have "c = std_char (url_alphabet ! m)" using a(1,2) url_alphabet_facts(2) by (simp add: std_alphabet_facts(3))
  ultimately have "c = url_alphabet ! m" by (auto simp: std_char_def split: if_splits)
  then show ?thesis using a url_alphabet_facts by (simp add: nth_eq_iff_index_eq)
qed

text \<open>The bytes of a group come back from its four digits.\<close>

lemma b64_bytes_group:
  "b64_bytes (n div 262144) (n div 4096 mod 64) (n div 64 mod 64) (n mod 64) = map char_of [n div 65536, n div 256 mod 256, n mod 256]"
proof -
  have "262144 * (n div 262144) + 4096 * (n div 4096 mod 64) + 64 * (n div 64 mod 64) + n mod 64 = n"
    using sextets_value [of n] by simp
  then show ?thesis by (simp add: b64_bytes_def)
qed

lemma b64_group_chars:
  fixes a b c :: char
  defines "n \<equiv> 65536 * (of_char a :: nat) + 256 * of_char b + of_char c"
  shows "b64_bytes (n div 262144) (n div 4096 mod 64) (n div 64 mod 64) (n mod 64) = [a, b, c]"
proof -
  have "n div 65536 = of_char a" "n div 256 mod 256 = of_char b" "n mod 256 = of_char c"
    using group_bytes [where x = "of_char a" and y = "of_char b" and z = "of_char c", OF byte_less byte_less]
    by (simp_all add: n_def flip: div_mult2_eq)
  then show ?thesis by (simp add: b64_bytes_group)
qed

text \<open>The last group of one or two bytes: its last digits are zero.\<close>

lemma b64_tail_chars:
  "b64_bytes (65536 * of_char a div 262144) (65536 * of_char a div 4096 mod 64) 0 0 = [a, CHR 0x00, CHR 0x00]"
  "b64_bytes ((65536 * of_char a + 256 * of_char b) div 262144) ((65536 * of_char a + 256 * of_char b) div 4096 mod 64)
     ((65536 * of_char a + 256 * of_char b) div 64 mod 64) 0 = [a, b, CHR 0x00]"
proof -
  have "65536 * (of_char a :: nat) div 64 mod 64 = 0" "65536 * (of_char a :: nat) mod 64 = 0"
    using url_quad_tail(1) [of "of_char a"] url_char_inject [of "65536 * of_char a div 64 mod 64" 0]
      url_char_inject [of "65536 * of_char a mod 64" 0] by (simp_all add: url_quad_def)
  then show "b64_bytes (65536 * of_char a div 262144) (65536 * of_char a div 4096 mod 64) 0 0 = [a, CHR 0x00, CHR 0x00]"
    using b64_group_chars [of a "CHR 0x00" "CHR 0x00"] by simp
  have "(65536 * (of_char a :: nat) + 256 * of_char b) mod 64 = 0"
    using url_quad_tail(2) [of "256 * of_char a + of_char b"] url_char_inject [of "(65536 * of_char a + 256 * of_char b) mod 64" 0]
    by (simp add: url_quad_def)
  then show "b64_bytes ((65536 * of_char a + 256 * of_char b) div 262144) ((65536 * of_char a + 256 * of_char b) div 4096 mod 64)
     ((65536 * of_char a + 256 * of_char b) div 64 mod 64) 0 = [a, b, CHR 0x00]"
    using b64_group_chars [of a b "CHR 0x00"] by simp
qed

lemma url_quad_index:
  assumes "\<And>n. n < 64 \<Longrightarrow> ix (f (url_char n)) = Some n" "n < 16777216"
  shows "map f (url_quad n) = [f (url_char (n div 262144)), f (url_char (n div 4096 mod 64)), f (url_char (n div 64 mod 64)), f (url_char (n mod 64))] \<and>
    ix (f (url_char (n div 262144))) = Some (n div 262144) \<and> ix (f (url_char (n div 4096 mod 64))) = Some (n div 4096 mod 64) \<and>
    ix (f (url_char (n div 64 mod 64))) = Some (n div 64 mod 64) \<and> ix (f (url_char (n mod 64))) = Some (n mod 64)"
  using assms url_quad_digits [OF assms(2)] by (simp add: url_quad_def)

lemma b64_groups_encode:
  assumes ix: "\<And>n. n < 64 \<Longrightarrow> ix (f (url_char n)) = Some n" and pad: "padded \<Longrightarrow> ix (CHR ''='') = None"
  shows "b64_groups ix padded (map f (raw_url_encode s) @ (if padded then replicate ((3 - length s mod 3) mod 3) (CHR ''='') else [])) = Some s"
proof (induction s rule: raw_url_encode.induct)
  case (2 a)
  define n where "n = 65536 * (of_char a :: nat)"
  have "n < 16777216" using byte_less [of a] by (simp add: n_def)
  note q = url_quad_index [of ix f, OF ix this]
  have "map f (raw_url_encode [a]) = take 2 (map f (url_quad n))" by (simp add: n_def take_map)
  then have "map f (raw_url_encode [a]) = [f (url_char (n div 262144)), f (url_char (n div 4096 mod 64))]"
    using q by (simp add: numeral_2_eq_2)
  moreover have "b64_bytes (n div 262144) (n div 4096 mod 64) 0 0 = [a, CHR 0x00, CHR 0x00]"
    using b64_tail_chars(1) [of a] by (simp only: n_def)
  ultimately show ?case using q pad by (simp add: numeral_2_eq_2)
next
  case (3 a b)
  define n where "n = 65536 * (of_char a :: nat) + 256 * of_char b"
  have "n < 16777216" using raw_url_group [of a b "CHR 0x00"] by (simp add: n_def)
  note q = url_quad_index [of ix f, OF ix this]
  have "map f (raw_url_encode [a, b]) = take 3 (map f (url_quad n))" by (simp add: n_def take_map)
  then have "map f (raw_url_encode [a, b]) =
      [f (url_char (n div 262144)), f (url_char (n div 4096 mod 64)), f (url_char (n div 64 mod 64))]"
    using q by (simp add: numeral_3_eq_3)
  moreover have "b64_bytes (n div 262144) (n div 4096 mod 64) (n div 64 mod 64) 0 = [a, b, CHR 0x00]"
    using b64_tail_chars(2) [of a b] by (simp only: n_def)
  ultimately show ?case using q pad by (simp add: numeral_2_eq_2)
next
  case (4 a b c s)
  define n where "n = 65536 * (of_char a :: nat) + 256 * of_char b + of_char c"
  have "n < 16777216" using raw_url_group [of a b c] by (simp only: n_def)
  note q = url_quad_index [of ix f, OF ix this]
  have "map f (raw_url_encode (a # b # c # s)) = map f (url_quad n) @ map f (raw_url_encode s)" by (simp add: n_def)
  moreover have "b64_bytes (n div 262144) (n div 4096 mod 64) (n div 64 mod 64) (n mod 64) = [a, b, c]"
    using b64_group_chars [of a b c] by (simp only: n_def)
  moreover have "length (a # b # c # s) mod 3 = length s mod 3" by (simp add: mod_simps)
  ultimately show ?case using q 4 by (cases padded) simp_all
qed simp

lemma std_char_visible: "visible c \<Longrightarrow> visible (std_char c)"
  by (simp add: std_char_def visible_def)

lemma no_line_breaks: "list_all visible s \<Longrightarrow> filter (\<lambda>c. c \<noteq> CHR 0x0A \<and> c \<noteq> CHR 0x0D) s = s"
  by (induction s) (auto simp: visible_def)

lemma raw_std_encode_visible: "list_all visible (raw_std_encode s)"
  using raw_url_encode_visible [of s] by (auto simp: raw_std_encode_def list_all_iff intro: std_char_visible)

lemma std_encode_visible: "list_all visible (std_encode s)"
  using raw_std_encode_visible [of s] by (auto simp: std_encode_def list_all_iff visible_def)

lemma b64_round_trips:
  "b64_decode url_alphabet False (raw_url_encode s) = Some s"
  "b64_decode std_alphabet False (raw_std_encode s) = Some s"
  "b64_decode std_alphabet True (std_encode s) = Some s"
proof -
  have "CHR ''='' \<notin> set std_alphabet" by (simp add: std_alphabet_def)
  then have eq: "b64_index std_alphabet (CHR ''='') = None"
    using b64_index_SomeD [OF std_alphabet_facts(2), of "CHR ''=''"] std_alphabet_facts(2)
    by (cases "b64_index std_alphabet (CHR ''='')") auto
  show "b64_decode url_alphabet False (raw_url_encode s) = Some s"
    using b64_groups_encode [of "b64_index url_alphabet" id False s] b64_index_alphabets(1)
    by (simp add: b64_decode_def no_line_breaks raw_url_encode_visible)
  show "b64_decode std_alphabet False (raw_std_encode s) = Some s"
    using b64_groups_encode [of "b64_index std_alphabet" std_char False s] b64_index_alphabets(2)
    by (simp add: b64_decode_def no_line_breaks raw_std_encode_visible) (simp add: raw_std_encode_def)
  show "b64_decode std_alphabet True (std_encode s) = Some s"
    using b64_groups_encode [of "b64_index std_alphabet" std_char True s] b64_index_alphabets(2) eq
    by (simp add: b64_decode_def no_line_breaks std_encode_visible) (simp add: std_encode_def raw_std_encode_def)
qed

lemma hex_value_digit: "d < 16 \<Longrightarrow> hex_value (hex_digit d) = Some d"
  by (simp add: hex_value_def of_char_hex_digit Let_def)

lemma hex_decode_encode: "hex_decode (hex_encode s) = Some s"
proof (induction s)
  case (Cons c s)
  have "(of_char c :: nat) div 16 < 16" by (rule less_mult_imp_div_less) (use byte_less [of c] in linarith)
  then show ?case using Cons by (simp add: hex_encode_def hex_value_digit)
qed (simp add: hex_encode_def)

lemma length_raw_std_encode: "length (raw_std_encode s) = (4 * length s + 2) div 3"
  by (simp add: raw_std_encode_def length_raw_url_encode)

end
