(* ===== verification/Auth_Tokens.thy ===== *)
theory Auth_Tokens
  imports Go_Base64 Go_Runes Go_Errors
begin

section \<open>Access tokens and refresh tokens\<close>

text \<open>
  \<open>internal/module/auth/token.go\<close>. The JWT library is a parameter: \<open>jw_sign\<close> is \<open>SignedString\<close>
  with an algorithm and a key, \<open>jw_parse\<close> is \<open>ParseWithClaims\<close> with the key function, the required
  issuer and the time of the library's clock, \<open>jw_verify\<close> the verification of a signature by an
  algorithm and a key, \<open>jw_numeric_date\<close> the rounding of \<open>NewNumericDate\<close>.
\<close>

record claims =
  cl_user_id :: int
  cl_email :: string
  cl_subject :: string
  cl_issuer :: string
  cl_expires_at :: "time option"
  cl_issued_at :: "time option"

record jwt_lib =
  jw_numeric_date :: "time \<Rightarrow> time"
  jw_sign :: "string \<Rightarrow> string \<Rightarrow> claims \<Rightarrow> string result"
  jw_parse :: "string \<Rightarrow> (string \<Rightarrow> string result) \<Rightarrow> string \<Rightarrow> time \<Rightarrow> (claims \<times> bool) result"
  jw_verify :: "string \<Rightarrow> string \<Rightarrow> string \<Rightarrow> bool"

record token_config =
  tc_secret :: string
  tc_issuer :: string
  tc_access_ttl :: duration
  tc_refresh_ttl :: duration

record token_manager =
  tm_secret :: string
  tm_issuer :: string
  tm_access_ttl :: duration
  tm_refresh_ttl :: duration

definition NewJWTTokenManager :: "token_config \<Rightarrow> token_manager result" where
  "NewJWTTokenManager cfg =
     (if tc_secret cfg = '''' then Inl (Plain ''jwt secret is required'')
      else if tc_access_ttl cfg \<le> 0 then Inl (Plain ''access token ttl must be positive'')
      else if tc_refresh_ttl cfg \<le> 0 then Inl (Plain ''refresh token ttl must be positive'')
      else Inr \<lparr>tm_secret = tc_secret cfg,
                tm_issuer = (if tc_issuer cfg = '''' then ''contentflow'' else tc_issuer cfg),
                tm_access_ttl = tc_access_ttl cfg, tm_refresh_ttl = tc_refresh_ttl cfg\<rparr>)"


subsection \<open>Access tokens\<close>

definition access_claims :: "jwt_lib \<Rightarrow> token_manager \<Rightarrow> time \<Rightarrow> int \<Rightarrow> string \<Rightarrow> claims" where
  "access_claims jw m now uid email =
     \<lparr>cl_user_id = uid, cl_email = email, cl_subject = fmt_int uid, cl_issuer = tm_issuer m,
      cl_expires_at = Some (jw_numeric_date jw (time_add now (tm_access_ttl m))),
      cl_issued_at = Some (jw_numeric_date jw now)\<rparr>"

definition GenerateAccessToken ::
  "jwt_lib \<Rightarrow> token_manager \<Rightarrow> time \<Rightarrow> int \<Rightarrow> string \<Rightarrow> (string \<times> time) result" where
  "GenerateAccessToken jw m now uid email =
     (case jw_sign jw ''HS256'' (tm_secret m) (access_claims jw m now uid email) of
        Inl e \<Rightarrow> Inl (Wrapf ''sign access token: '' e '''')
      | Inr signed \<Rightarrow> Inr (signed, time_add now (tm_access_ttl m)))"

definition access_key :: "token_manager \<Rightarrow> string \<Rightarrow> string result" where
  "access_key m alg =
     (if alg \<noteq> ''HS256'' then Inl (Plain (''unsupported signing method: '' @ alg)) else Inr (tm_secret m))"

definition ParseAccessToken :: "jwt_lib \<Rightarrow> token_manager \<Rightarrow> time \<Rightarrow> string \<Rightarrow> claims result" where
  "ParseAccessToken jw m now tok =
     (case jw_parse jw tok (access_key m) (tm_issuer m) now of
        Inl e \<Rightarrow> Inl (Wrapf ''parse access token: '' e '''')
      | Inr (c, valid) \<Rightarrow> if \<not> valid then Inl (Plain ''invalid token claims'') else Inr c)"


subsection \<open>Refresh tokens\<close>

definition HashRefreshToken :: "(string \<Rightarrow> string) \<Rightarrow> string \<Rightarrow> string" where
  "HashRefreshToken sha token = hex_encode (sha token)"

definition GenerateRefreshToken :: "(string \<Rightarrow> string) \<Rightarrow> string result \<Rightarrow> (string \<times> string) result" where
  "GenerateRefreshToken sha raw =
     (case raw of
        Inl e \<Rightarrow> Inl (Wrapf ''generate refresh token: '' e '''')
      | Inr bytes \<Rightarrow> (let token = raw_url_encode bytes in Inr (token, HashRefreshToken sha token)))"


subsection \<open>The JWT library\<close>

text \<open>
  What the program relies on, as the library documents it: a signed token is parsed back to its
  claims by a key function that gives its key, under its issuer and before its end
  (\<open>jwt_round_trip\<close>; JSON keeps texts of valid UTF-8, and a date that is a numeric date of the
  library, which drops what is below its precision), and nothing is parsed unless the key function
  gives a key for the token's algorithm under which its signature verifies, the issuer is the
  required one and the end, if there is one, lies ahead (\<open>jwt_checks\<close>; a required issuer is there,
  as \<open>NewJWTTokenManager\<close> puts \<open>contentflow\<close> for an empty one: \<open>NewJWTTokenManager_issuer\<close>).
  A compact token consists of visible characters (\<open>jwt_compact\<close>).
\<close>

lemma NewJWTTokenManager_issuer: "NewJWTTokenManager cfg = Inr m \<Longrightarrow> tm_issuer m \<noteq> ''''"
  by (auto simp: NewJWTTokenManager_def split: if_splits)

definition claims_dated :: "jwt_lib \<Rightarrow> claims \<Rightarrow> bool" where
  "claims_dated jw c \<longleftrightarrow>
     (\<forall>t. cl_expires_at c = Some t \<or> cl_issued_at c = Some t \<longrightarrow> (\<exists>t0. t = jw_numeric_date jw t0))"

definition claims_utf8 :: "claims \<Rightarrow> bool" where
  "claims_utf8 c \<longleftrightarrow> valid_utf8 (cl_email c) \<and> valid_utf8 (cl_subject c) \<and> valid_utf8 (cl_issuer c)"

definition jwt_round_trip :: "jwt_lib \<Rightarrow> bool" where
  "jwt_round_trip jw \<longleftrightarrow>
     (\<forall>alg key c tok kf now. jw_sign jw alg key c = Inr tok \<longrightarrow> claims_utf8 c \<longrightarrow> claims_dated jw c \<longrightarrow> kf alg = Inr key \<longrightarrow>
        (\<forall>t. cl_expires_at c = Some t \<longrightarrow> now < t) \<longrightarrow> jw_parse jw tok kf (cl_issuer c) now = Inr (c, True))"

definition jwt_checks :: "jwt_lib \<Rightarrow> bool" where
  "jwt_checks jw \<longleftrightarrow>
     (\<forall>tok kf iss now c v. jw_parse jw tok kf iss now = Inr (c, v) \<longrightarrow>
        cl_issuer c = iss \<and> (\<forall>t. cl_expires_at c = Some t \<longrightarrow> now < t) \<and>
        (\<exists>alg key. kf alg = Inr key \<and> jw_verify jw alg key tok))"

definition jwt_compact :: "jwt_lib \<Rightarrow> bool" where
  "jwt_compact jw \<longleftrightarrow> (\<forall>alg key c tok. jw_sign jw alg key c = Inr tok \<longrightarrow> tok \<noteq> '''' \<and> list_all visible tok)"

text \<open>A library that signs one set of claims under one key: it keeps all three.\<close>

definition sample_jwt :: "string \<Rightarrow> claims \<Rightarrow> jwt_lib" where
  "sample_jwt k c0 =
     \<lparr>jw_numeric_date = (\<lambda>t. t - t mod second),
      jw_sign = (\<lambda>alg key c. if alg = ''HS256'' \<and> key = k \<and> c = c0 then Inr ''a.b.c'' else Inl (Plain ''unknown claims'')),
      jw_parse = (\<lambda>tok kf iss now.
        if tok \<noteq> ''a.b.c'' then Inl (Plain ''token is malformed'')
        else (case kf ''HS256'' of
          Inl e \<Rightarrow> Inl e
        | Inr key \<Rightarrow>
          if key \<noteq> k then Inl (Plain ''signature is invalid'')
          else if iss \<noteq> cl_issuer c0 then Inl (Plain ''token has invalid issuer'')
          else if (case cl_expires_at c0 of None \<Rightarrow> False | Some t \<Rightarrow> t \<le> now) then Inl (Plain ''token is expired'')
          else Inr (c0, True))),
      jw_verify = (\<lambda>alg key tok. alg = ''HS256'' \<and> key = k \<and> tok = ''a.b.c'')\<rparr>"

lemma sample_jwt_laws:
  "jwt_round_trip (sample_jwt k c0)" "jwt_checks (sample_jwt k c0)" "jwt_compact (sample_jwt k c0)"
  by (auto simp: jwt_round_trip_def jwt_checks_def jwt_compact_def sample_jwt_def visible_def
      split: if_splits sum.splits option.splits)


subsection \<open>Properties of the tokens\<close>

lemma fmt_int_ascii: "list_all (\<lambda>c. (of_char c :: nat) < 128) (fmt_int i)"
proof -
  have "(of_char c :: nat) < 128" if "c \<in> set (fmt_nat n)" for c n
  proof -
    have "is_digit c" using fmt_nat_facts [of n] that by (simp add: list_all_iff)
    then show ?thesis by (simp add: is_digit_def)
  qed
  then show ?thesis by (auto simp: fmt_int_def list_all_iff)
qed

lemma ParseAccessToken_checked:
  assumes "jwt_checks jw" "ParseAccessToken jw m now tok = Inr c"
  shows "jw_verify jw ''HS256'' (tm_secret m) tok \<and> cl_issuer c = tm_issuer m \<and>
    (\<forall>t. cl_expires_at c = Some t \<longrightarrow> now < t)"
proof -
  obtain v where "jw_parse jw tok (access_key m) (tm_issuer m) now = Inr (c, v)"
    using assms(2) by (auto simp: ParseAccessToken_def split: sum.splits if_splits)
  then obtain alg key where "cl_issuer c = tm_issuer m" "\<forall>t. cl_expires_at c = Some t \<longrightarrow> now < t"
    "access_key m alg = Inr key" "jw_verify jw alg key tok" using assms(1) unfolding jwt_checks_def by metis
  then show ?thesis by (auto simp: access_key_def split: if_splits)
qed

lemma GenerateAccessToken_parses:
  assumes "jwt_round_trip jw" "valid_utf8 email" "valid_utf8 (tm_issuer m)"
    and "GenerateAccessToken jw m t0 uid email = Inr (tok, expires)" "now < jw_numeric_date jw expires"
  shows "ParseAccessToken jw m now tok = Inr (access_claims jw m t0 uid email)"
proof -
  let ?c = "access_claims jw m t0 uid email"
  have gen: "jw_sign jw ''HS256'' (tm_secret m) ?c = Inr tok" "expires = time_add t0 (tm_access_ttl m)"
    using assms(4) by (auto simp: GenerateAccessToken_def split: sum.splits)
  have "claims_utf8 ?c" using assms(2,3) fmt_int_ascii valid_utf8_ascii by (simp add: claims_utf8_def access_claims_def)
  moreover have "cl_issuer ?c = tm_issuer m" "\<forall>t. cl_expires_at ?c = Some t \<longrightarrow> now < t" "claims_dated jw ?c"
    using assms(5) gen(2) by (auto simp: access_claims_def claims_dated_def)
  moreover have "access_key m ''HS256'' = Inr (tm_secret m)" by (simp add: access_key_def)
  ultimately have "jw_parse jw tok (access_key m) (tm_issuer m) now = Inr (?c, True)"
    using assms(1) gen(1) unfolding jwt_round_trip_def by metis
  then show ?thesis by (simp add: ParseAccessToken_def)
qed

text \<open>
  C12. An access token that the manager makes for a user is read back by the same manager, until the
  end of its lifetime, as the user's id and email; and whatever text is read as a token carries a
  signature with HMAC-SHA256 under the manager's secret, its issuer, and an end that is not past.
\<close>

theorem access_token_round_trip:
  assumes "jwt_round_trip jw" "jwt_checks jw" "valid_utf8 email" "valid_utf8 (tm_issuer m)"
    and "GenerateAccessToken jw m t0 uid email = Inr (tok, expires)"
  shows "expires = time_add t0 (tm_access_ttl m) \<and>
    (now < jw_numeric_date jw expires \<longrightarrow>
       (\<exists>c. ParseAccessToken jw m now tok = Inr c \<and> cl_user_id c = uid \<and> cl_email c = email \<and> cl_subject c = fmt_int uid)) \<and>
    (\<forall>tok' c. ParseAccessToken jw m now tok' = Inr c \<longrightarrow>
       jw_verify jw ''HS256'' (tm_secret m) tok' \<and> cl_issuer c = tm_issuer m \<and>
       (\<forall>t. cl_expires_at c = Some t \<longrightarrow> now < t))"
proof -
  have "expires = time_add t0 (tm_access_ttl m)"
    using assms(5) by (auto simp: GenerateAccessToken_def split: sum.splits)
  then show ?thesis
    using GenerateAccessToken_parses [OF assms(1,3,4,5)] ParseAccessToken_checked [OF assms(2)]
    by (auto simp: access_claims_def)
qed

definition sample_manager :: token_manager where
  "sample_manager = \<lparr>tm_secret = ''key'', tm_issuer = ''contentflow'', tm_access_ttl = 15 * minute, tm_refresh_ttl = 10080 * minute\<rparr>"

definition sample_claims :: claims where
  "sample_claims = \<lparr>cl_user_id = 7, cl_email = ''a@b.c'', cl_subject = ''7'', cl_issuer = ''contentflow'',
     cl_expires_at = Some (900 * second), cl_issued_at = Some 0\<rparr>"

abbreviation sample_jw :: jwt_lib where "sample_jw \<equiv> sample_jwt ''key'' sample_claims"

lemma sample_access: "GenerateAccessToken sample_jw sample_manager 0 7 ''a@b.c'' = Inr (''a.b.c'', 900 * second)"
proof -
  have "fmt_int 7 = ''7''" by code_simp
  then show ?thesis
    by (simp add: GenerateAccessToken_def sample_jwt_def access_claims_def sample_manager_def sample_claims_def time_add_def)
qed

lemma sample_claims_utf8 [simp]: "valid_utf8 ''a@b.c''" "valid_utf8 (tm_issuer sample_manager)"
  by (simp_all add: valid_utf8_ascii sample_manager_def)

theorem access_token_round_trip_witness:
  "\<exists>c. ParseAccessToken sample_jw sample_manager (60 * second) ''a.b.c'' = Inr c \<and> cl_user_id c = 7"
proof -
  have "60 * second < jw_numeric_date sample_jw (900 * second)" by (simp add: sample_jwt_def)
  then show ?thesis
    using access_token_round_trip [OF sample_jwt_laws(1,2) sample_claims_utf8 sample_access, of "60 * second"] by blast
qed

end
