(* ===== verification/Auth_Service.thy ===== *)
theory Auth_Service
  imports Auth_Store Auth_Tokens
begin

section \<open>Registration, login and the rotation of refresh tokens\<close>

text \<open>
  \<open>internal/module/auth/service.go\<close>. The password hash (bcrypt), the parser of mail addresses, the
  Unicode case tables and SHA-256 are parameters with the token library. An operation takes the
  faults its statements meet, what other processes do before each of them (\<open>env\<close>), the clock, and
  the random bytes it draws.
\<close>

record auth_lib =
  ab_jwt :: jwt_lib
  ab_sha256 :: "string \<Rightarrow> string"
  ab_lower :: "string \<Rightarrow> string"
  ab_parse_address :: "string \<Rightarrow> bool"
  ab_bcrypt_generate :: "string \<Rightarrow> string \<Rightarrow> string result"
  ab_bcrypt_compare :: "string \<Rightarrow> string \<Rightarrow> go_error option"

record register_request =
  rr_email :: string
  rr_password :: string
  rr_display_name :: string

record login_request =
  lq_email :: string
  lq_password :: string

record auth_user =
  av_id :: int
  av_email :: string
  av_display_name :: string

record login_response =
  lr_user :: auth_user
  lr_access_token :: string
  lr_refresh_token :: string
  lr_token_type :: string
  lr_expires_in :: int

text \<open>A refresh answers with the same fields.\<close>

type_synonym refresh_response = login_response

definition auth_user_of :: "user \<Rightarrow> auth_user" where
  "auth_user_of u = \<lparr>av_id = us_id u, av_email = us_email u, av_display_name = us_display_name u\<rparr>"


subsection \<open>Emails and passwords\<close>

definition normalizeEmail :: "auth_lib \<Rightarrow> string \<Rightarrow> string result" where
  "normalizeEmail lib email0 =
     (let email = trim_space (to_lower (ab_lower lib) email0) in
      if email = '''' then Inl (Sentinel ErrInvalidEmail)
      else if \<not> ab_parse_address lib email then Inl (Sentinel ErrInvalidEmail)
      else Inr email)"

definition validatePassword :: "string \<Rightarrow> unit result" where
  "validatePassword password =
     (if length password < 8 \<or> password = '''' then Inl (Sentinel ErrWeakPassword) else Inr ())"

definition hashPassword :: "auth_lib \<Rightarrow> string \<Rightarrow> string \<Rightarrow> string result" where
  "hashPassword lib salt password =
     (case ab_bcrypt_generate lib salt password of
        Inl e \<Rightarrow> Inl (Wrapf ''hash password: '' e '''')
      | Inr h \<Rightarrow> Inr h)"

definition verifyPassword :: "auth_lib \<Rightarrow> string \<Rightarrow> string \<Rightarrow> unit result" where
  "verifyPassword lib h password =
     (case ab_bcrypt_compare lib h password of
        Some e \<Rightarrow> Inl (Wrapf ''verify password: '' e '''')
      | None \<Rightarrow> Inr ())"


subsection \<open>Registration\<close>

datatype register_stmt = RgFind | RgCreate

definition new_user :: "string \<Rightarrow> string \<Rightarrow> string \<Rightarrow> user" where
  "new_user email h name =
     \<lparr>us_id = 0, us_email = email, us_password_hash = h, us_display_name = name, us_created_at = zero_time, us_updated_at = zero_time\<rparr>"

definition Register ::
  "auth_lib \<Rightarrow> register_stmt faults \<Rightarrow> (register_stmt \<Rightarrow> auth_db \<Rightarrow> auth_db) \<Rightarrow> time \<Rightarrow> string \<Rightarrow> register_request \<Rightarrow> auth_db \<Rightarrow>
   auth_db \<times> auth_user result" where
  "Register lib fault env now salt req db =
     (case normalizeEmail lib (rr_email req) of
        Inl e \<Rightarrow> (db, Inl e)
      | Inr email \<Rightarrow>
        (case validatePassword (rr_password req) of
           Inl e \<Rightarrow> (db, Inl e)
         | Inr _ \<Rightarrow>
           (let db1 = env RgFind db; existing = User_FindByEmail (fault RgFind) email db1 in
            case existing of
              Inr _ \<Rightarrow> (db1, Inl (Sentinel ErrEmailAlreadyExists))
            | Inl e0 \<Rightarrow>
              if \<not> errors_is e0 UserErrUserNotFound then (db1, Inl (Wrapf ''check existing user: '' e0 ''''))
              else
                (case hashPassword lib salt (rr_password req) of
                   Inl e \<Rightarrow> (db1, Inl (Wrapf ''hash password: '' e ''''))
                 | Inr h \<Rightarrow>
                   (case User_Create (fault RgCreate) now (new_user email h (trim_space (rr_display_name req)))
                           (env RgCreate db1) of
                      (db2, Inl e) \<Rightarrow>
                        (db2, Inl (if errors_is e UserErrEmailAlreadyExists then Sentinel ErrEmailAlreadyExists
                                   else Wrapf ''create user: '' e ''''))
                    | (db2, Inr u) \<Rightarrow> (db2, Inr (auth_user_of u)))))))"


subsection \<open>Issuing tokens\<close>

text \<open>
  The clocks and random bytes of one issue: the clock of the token manager, the random bytes (or
  the failure of their source), the clock of the database layer, and the clock at the answer.
\<close>

record issue_env =
  ie_access_now :: time
  ie_random :: "string result"
  ie_created :: time
  ie_until :: time

text \<open>
  \<open>int64(time.Until(t).Seconds())\<close> drops the fraction of a second; the floating point sum in
  \<open>Seconds\<close> stays below the next integer for the durations of access tokens (less than 97 days).
\<close>

definition seconds_until :: "time \<Rightarrow> time \<Rightarrow> int" where
  "seconds_until t now = (let d = time_sub t now in if d < 0 then - (- d div second) else d div second)"

definition new_token :: "token_manager \<Rightarrow> time \<Rightarrow> int \<Rightarrow> string \<Rightarrow> refresh_token" where
  "new_token m now uid h =
     \<lparr>rt_id = 0, rt_user_id = uid, rt_token_hash = h, rt_expires_at = time_add now (tm_refresh_ttl m),
      rt_revoked_at = None, rt_created_at = zero_time\<rparr>"

datatype login_stmt = LiFind | LiCreate

definition Login ::
  "auth_lib \<Rightarrow> token_manager \<Rightarrow> login_stmt faults \<Rightarrow> (login_stmt \<Rightarrow> auth_db \<Rightarrow> auth_db) \<Rightarrow> time \<Rightarrow> issue_env \<Rightarrow> login_request \<Rightarrow>
   auth_db \<Rightarrow> auth_db \<times> login_response result" where
  "Login lib m fault env now ie req db =
     (case normalizeEmail lib (lq_email req) of
        Inl _ \<Rightarrow> (db, Inl (Sentinel ErrInvalidCredentials))
      | Inr email \<Rightarrow>
        (let db1 = env LiFind db in
         case User_FindByEmail (fault LiFind) email db1 of
           Inl e \<Rightarrow>
             (db1, Inl (if errors_is e UserErrUserNotFound then Sentinel ErrInvalidCredentials
                        else Wrapf ''find user by email: '' e ''''))
         | Inr u \<Rightarrow>
           (case verifyPassword lib (us_password_hash u) (lq_password req) of
              Inl _ \<Rightarrow> (db1, Inl (Sentinel ErrInvalidCredentials))
            | Inr _ \<Rightarrow>
              (case GenerateAccessToken (ab_jwt lib) m (ie_access_now ie) (us_id u) email of
                 Inl e \<Rightarrow> (db1, Inl (Wrapf ''generate token: '' e ''''))
               | Inr (access, expires) \<Rightarrow>
                 (case GenerateRefreshToken (ab_sha256 lib) (ie_random ie) of
                    Inl e \<Rightarrow> (db1, Inl (Wrapf ''generate refresh token: '' e ''''))
                  | Inr (refresh, h) \<Rightarrow>
                    (case Token_Create (fault LiCreate) (ie_created ie) (new_token m now (us_id u) h) (env LiCreate db1) of
                       (db2, Inl e) \<Rightarrow> (db2, Inl (Wrapf ''create refresh token: '' e ''''))
                     | (db2, Inr _) \<Rightarrow>
                       (db2, Inr \<lparr>lr_user = auth_user_of u, lr_access_token = access, lr_refresh_token = refresh,
                                  lr_token_type = ''Bearer'', lr_expires_in = seconds_until expires (ie_until ie)\<rparr>)))))))"


subsection \<open>Refresh\<close>

text \<open>
  The four statements of a refresh with what the code makes of their results: finding the token,
  finding its user, revoking the token, and issuing new ones.
\<close>

definition refresh_lookup :: "go_error option \<Rightarrow> string \<Rightarrow> time \<Rightarrow> auth_db \<Rightarrow> refresh_token result" where
  "refresh_lookup fault h now db =
     (case Token_FindValidByHash fault h now db of
        Inl e \<Rightarrow> Inl (if errors_is e ErrRefreshTokenNotFound then Sentinel ErrInvalidRefreshToken
                      else Wrapf ''find refresh token: '' e '''')
      | Inr r \<Rightarrow> Inr r)"

definition refresh_user :: "go_error option \<Rightarrow> refresh_token \<Rightarrow> auth_db \<Rightarrow> user result" where
  "refresh_user fault r db =
     (case User_FindByID fault (rt_user_id r) db of
        Inl e \<Rightarrow> Inl (if errors_is e UserErrUserNotFound then Sentinel ErrInvalidRefreshToken
                      else Wrapf ''find user by id: '' e '''')
      | Inr u \<Rightarrow> Inr u)"

definition refresh_revoke :: "go_error option \<Rightarrow> string \<Rightarrow> time \<Rightarrow> auth_db \<Rightarrow> auth_db \<times> unit result" where
  "refresh_revoke fault h now db =
     (case Token_RevokeByHash fault h now db of
        (db', Inl e) \<Rightarrow>
          (db', Inl (if errors_is e ErrRefreshTokenNotFound then Sentinel ErrInvalidRefreshToken
                     else Wrapf ''revoke refresh token: '' e ''''))
      | (db', Inr _) \<Rightarrow> (db', Inr ()))"

definition refresh_issue ::
  "auth_lib \<Rightarrow> token_manager \<Rightarrow> go_error option \<Rightarrow> time \<Rightarrow> issue_env \<Rightarrow> user \<Rightarrow> auth_db \<Rightarrow> auth_db \<times> refresh_response result" where
  "refresh_issue lib m fault now ie u db =
     (case GenerateAccessToken (ab_jwt lib) m (ie_access_now ie) (us_id u) (us_email u) of
        Inl e \<Rightarrow> (db, Inl (Wrapf ''generate access token: '' e ''''))
      | Inr (access, expires) \<Rightarrow>
        (case GenerateRefreshToken (ab_sha256 lib) (ie_random ie) of
           Inl e \<Rightarrow> (db, Inl (Wrapf ''generate refresh token: '' e ''''))
         | Inr (refresh, h) \<Rightarrow>
           (case Token_Create fault (ie_created ie) (new_token m now (us_id u) h) db of
              (db', Inl e) \<Rightarrow> (db', Inl (Wrapf ''create refresh token: '' e ''''))
            | (db', Inr _) \<Rightarrow>
              (db', Inr \<lparr>lr_user = auth_user_of u, lr_access_token = access, lr_refresh_token = refresh,
                         lr_token_type = ''Bearer'', lr_expires_in = seconds_until expires (ie_until ie)\<rparr>))))"

datatype refresh_stmt = RfFind | RfUser | RfRevoke | RfCreate

definition Refresh ::
  "auth_lib \<Rightarrow> token_manager \<Rightarrow> refresh_stmt faults \<Rightarrow> (refresh_stmt \<Rightarrow> auth_db \<Rightarrow> auth_db) \<Rightarrow> time \<Rightarrow> issue_env \<Rightarrow> string \<Rightarrow>
   auth_db \<Rightarrow> auth_db \<times> refresh_response result" where
  "Refresh lib m fault env now ie raw db =
     (let token = trim_space raw in
      if token = '''' then (db, Inl (Sentinel ErrInvalidRefreshToken))
      else
        (let h = HashRefreshToken (ab_sha256 lib) token; db1 = env RfFind db in
         case refresh_lookup (fault RfFind) h now db1 of
           Inl e \<Rightarrow> (db1, Inl e)
         | Inr r \<Rightarrow>
           (let db2 = env RfUser db1 in
            case refresh_user (fault RfUser) r db2 of
              Inl e \<Rightarrow> (db2, Inl e)
            | Inr u \<Rightarrow>
              (case refresh_revoke (fault RfRevoke) h now (env RfRevoke db2) of
                 (db3, Inl e) \<Rightarrow> (db3, Inl e)
               | (db3, Inr _) \<Rightarrow> refresh_issue lib m (fault RfCreate) now ie u (env RfCreate db3)))))"

definition Logout ::
  "auth_lib \<Rightarrow> go_error option \<Rightarrow> time \<Rightarrow> string \<Rightarrow> auth_db \<Rightarrow> auth_db \<times> unit result" where
  "Logout lib fault now raw db =
     (let token = trim_space raw in
      if token = '''' then (db, Inl (Sentinel ErrInvalidRefreshToken))
      else (case Token_RevokeByHash fault (HashRefreshToken (ab_sha256 lib) token) now db of
              (db', Inl e) \<Rightarrow>
                (db', Inl (if errors_is e ErrRefreshTokenNotFound then Sentinel ErrInvalidRefreshToken
                           else Wrapf ''logout: '' e ''''))
            | (db', Inr _) \<Rightarrow> (db', Inr ())))"

definition Me :: "go_error option \<Rightarrow> int \<Rightarrow> auth_db \<Rightarrow> auth_user result" where
  "Me fault uid db =
     (case User_FindByID fault uid db of
        Inl e \<Rightarrow> Inl (if errors_is e UserErrUserNotFound then Sentinel ErrUserNotFound
                      else Wrapf ''find current user: '' e '''')
      | Inr u \<Rightarrow> Inr (auth_user_of u))"

end
