(* ===== verification/Auth_Rotation.thy ===== *)
theory Auth_Rotation
  imports Auth_Service
begin

section \<open>Concurrent refreshes\<close>

text \<open>
  Any number of refreshes as threads over the tables, one statement at a time, between the
  statements of any other process (logins, logouts, registrations). A thread is the hash of its
  token and the place where it stands; \<open>Refresh\<close> is a run of one thread.
\<close>

datatype refresh_pc =
    AtLookup | AtUser refresh_token | AtRevoke user | AtIssue user | Finished "refresh_response result"

type_synonym refresh_thread = "string \<times> refresh_pc"

fun thread_stmt ::
  "auth_lib \<Rightarrow> token_manager \<Rightarrow> go_error option \<Rightarrow> time \<Rightarrow> issue_env \<Rightarrow> string \<Rightarrow> refresh_pc \<Rightarrow> auth_db \<Rightarrow> auth_db \<times> refresh_pc" where
  "thread_stmt lib m fault now ie h AtLookup db =
     (db, case refresh_lookup fault h now db of Inl e \<Rightarrow> Finished (Inl e) | Inr r \<Rightarrow> AtUser r)"
| "thread_stmt lib m fault now ie h (AtUser r) db =
     (db, case refresh_user fault r db of Inl e \<Rightarrow> Finished (Inl e) | Inr u \<Rightarrow> AtRevoke u)"
| "thread_stmt lib m fault now ie h (AtRevoke u) db =
     (case refresh_revoke fault h now db of
        (db', Inl e) \<Rightarrow> (db', Finished (Inl e))
      | (db', Inr _) \<Rightarrow> (db', AtIssue u))"
| "thread_stmt lib m fault now ie h (AtIssue u) db =
     (case refresh_issue lib m fault now ie u db of (db', r) \<Rightarrow> (db', Finished r))"
| "thread_stmt lib m fault now ie h (Finished r) db = (db, Finished r)"

inductive refresh_step ::
  "auth_lib \<Rightarrow> token_manager \<Rightarrow> auth_db \<times> refresh_thread list \<Rightarrow> auth_db \<times> refresh_thread list \<Rightarrow> bool" for lib m where
  thread: "i < length ts \<Longrightarrow> ts ! i = (h, pc) \<Longrightarrow> thread_stmt lib m fault now ie h pc db = (db', pc') \<Longrightarrow>
             refresh_step lib m (db, ts) (db', ts[i := (h, pc')])"
| other: "auth_step db db' \<Longrightarrow> refresh_step lib m (db, ts) (db', ts)"

inductive_cases refresh_stepE: "refresh_step lib m (db, ts) s'"

text \<open>Every statement of a thread is one that any process may execute, or reads only.\<close>

lemma refresh_revoke_db: "fst (refresh_revoke fault h now db) = fst (Token_RevokeByHash fault h now db)"
  by (simp add: refresh_revoke_def split: prod.split sum.split)

lemma refresh_issue_db:
  "refresh_issue lib m fault now ie u db = (db', r) \<Longrightarrow> db' = db \<or> auth_step db db'"
  using step_token [of db fault "ie_created ie"]
  by (auto simp: refresh_issue_def split: sum.splits prod.splits) (metis fst_conv)+

lemma thread_stmt_db: "thread_stmt lib m fault now ie h pc db = (db', pc') \<Longrightarrow> db' = db \<or> auth_step db db'"
proof (cases pc)
  case (AtRevoke u)
  assume "thread_stmt lib m fault now ie h pc db = (db', pc')"
  then have "db' = fst (Token_RevokeByHash fault h now db)"
    using AtRevoke refresh_revoke_db [of fault h now db] by (auto split: prod.splits sum.splits)
  then show ?thesis using step_revoke [of db fault h now] by simp
qed (auto split: prod.splits dest: refresh_issue_db)

text \<open>A thread that has redeemed its token: past the revocation and not refused.\<close>

definition redeemed :: "refresh_pc \<Rightarrow> bool" where
  "redeemed pc \<longleftrightarrow> (\<exists>u. pc = AtIssue u) \<or> (\<exists>a. pc = Finished (Inr a))"

lemma redeemed_simps [simp]:
  "\<not> redeemed AtLookup" "\<not> redeemed (AtUser r)" "\<not> redeemed (AtRevoke u)" "redeemed (AtIssue u)"
  "\<not> redeemed (Finished (Inl e))" "redeemed (Finished (Inr a))"
  by (simp_all add: redeemed_def)

text \<open>Only the revocation makes a thread redeemed, and it spends the token.\<close>

lemma thread_stmt_redeems:
  assumes "thread_stmt lib m fault now ie h pc db = (db', pc')" "auth_inv db" "redeemed pc'"
  shows "redeemed pc \<or> \<not> token_spent h db \<and> token_spent h db'"
proof (cases pc)
  case (AtRevoke u)
  then have "\<exists>x. Token_RevokeByHash fault h now db = (db', Inr x)"
    using assms(1,3) by (auto simp: refresh_revoke_def split: prod.splits sum.splits)
  then show ?thesis using Token_RevokeByHash_spends [OF assms(2)] by blast
next
  case AtLookup
  then show ?thesis using assms by (auto split: sum.splits)
next
  case (AtUser r)
  then show ?thesis using assms by (auto split: sum.splits)
next
  case (Finished r)
  then show ?thesis using assms by auto
qed simp

definition rotation_inv :: "auth_db \<times> refresh_thread list \<Rightarrow> bool" where
  "rotation_inv s \<longleftrightarrow> auth_inv (fst s) \<and>
     (\<forall>i j h. i < length (snd s) \<longrightarrow> j < length (snd s) \<longrightarrow> fst (snd s ! i) = h \<longrightarrow> fst (snd s ! j) = h \<longrightarrow>
        redeemed (snd (snd s ! i)) \<longrightarrow> redeemed (snd (snd s ! j)) \<longrightarrow> i = j) \<and>
     (\<forall>i < length (snd s). redeemed (snd (snd s ! i)) \<longrightarrow> token_spent (fst (snd s ! i)) (fst s))"

lemma rotation_inv_other:
  assumes "rotation_inv (db, ts)" "db' = db \<or> auth_step db db'"
  shows "rotation_inv (db', ts)"
  using assms auth_inv_step auth_step_spent unfolding rotation_inv_def by fastforce

lemma rotation_inv_mono:
  assumes "rotation_inv (db, ts)" "length ts' = length ts"
    and "\<And>k. k < length ts \<Longrightarrow> fst (ts' ! k) = fst (ts ! k) \<and> (redeemed (snd (ts' ! k)) \<longrightarrow> redeemed (snd (ts ! k)))"
  shows "rotation_inv (db, ts')"
  using assms unfolding rotation_inv_def by simp

lemma rotation_inv_thread:
  assumes inv: "rotation_inv (db, ts)" and i: "i < length ts" "ts ! i = (h, pc)"
    and st: "thread_stmt lib m fault now ie h pc db = (db', pc')"
  shows "rotation_inv (db', ts[i := (h, pc')])"
proof (cases "redeemed pc' \<longrightarrow> redeemed pc")
  case True
  then show ?thesis
    using i by (intro rotation_inv_mono [OF rotation_inv_other [OF inv thread_stmt_db [OF st]]])
      (auto simp: nth_list_update)
next
  case False
  have a: "auth_inv db" using inv by (simp add: rotation_inv_def)
  then have spend: "\<not> token_spent h db" "token_spent h db'" using thread_stmt_redeems [OF st] False by auto
  have "rotation_inv (db', ts)" using rotation_inv_other [OF inv thread_stmt_db [OF st]] .
  moreover have "\<not> (fst (ts ! k) = h \<and> redeemed (snd (ts ! k)))" if "k < length ts" for k
    using inv spend(1) that unfolding rotation_inv_def by auto
  moreover have "ts[i := (h, pc')] ! k = (if k = i then (h, pc') else ts ! k)" if "k < length ts" for k using that by simp
  ultimately show ?thesis using spend(2) unfolding rotation_inv_def by auto
qed

lemma rotation_inv_step: "refresh_step lib m s s' \<Longrightarrow> rotation_inv s \<Longrightarrow> rotation_inv s'"
  by (induction rule: refresh_step.induct) (auto intro: rotation_inv_thread rotation_inv_other)

lemma rotation_inv_steps: "(refresh_step lib m)\<^sup>*\<^sup>* s s' \<Longrightarrow> rotation_inv s \<Longrightarrow> rotation_inv s'"
  by (induction rule: rtranclp_induct) (auto intro: rotation_inv_step)

text \<open>
  C8. A refresh token is redeemed once: however the statements of any number of refreshes
  interleave with each other and with other processes, and whatever faults they meet, at most one
  refresh with a given token answers with new tokens, and then the token is revoked.
\<close>

theorem refresh_token_single_use:
  assumes "auth_inv db0" "list_all (\<lambda>t. snd t = AtLookup) ts0" "(refresh_step lib m)\<^sup>*\<^sup>* (db0, ts0) (db, ts)"
    and "i < length ts" "ts ! i = (h, Finished (Inr a))" "j < length ts" "ts ! j = (h, Finished (Inr b))"
  shows "i = j \<and> token_spent h db"
proof -
  have "\<not> redeemed (snd (ts0 ! k))" if "k < length ts0" for k using assms(2) that by (simp add: list_all_length)
  then have "rotation_inv (db0, ts0)" using assms(1) by (simp add: rotation_inv_def)
  then have "rotation_inv (db, ts)" using rotation_inv_steps [OF assms(3)] by simp
  then show ?thesis using assms(4-7) unfolding rotation_inv_def by (metis fst_conv snd_conv redeemed_simps(6))
qed

subsection \<open>A refresh is a run of a thread\<close>

lemma refresh_step_at:
  assumes "i < length ts" "thread_stmt lib m fault now ie h pc db = (db', pc')"
  shows "refresh_step lib m (db, ts[i := (h, pc)]) (db', ts[i := (h, pc')])"
  using thread [of i "ts[i := (h, pc)]" h pc] assms by simp

lemma other_steps: "auth_steps db db' \<Longrightarrow> (refresh_step lib m)\<^sup>*\<^sup>* (db, ts) (db', ts)"
  by (induction rule: rtranclp_induct) (auto intro: rtranclp.rtrancl_into_rtrancl other)

text \<open>One statement of the thread after what other processes do before it.\<close>

lemma refresh_env_step:
  assumes "auth_steps db d" "i < length ts" "thread_stmt lib m fault now ie h pc d = (db', pc')"
  shows "(refresh_step lib m)\<^sup>*\<^sup>* (db, ts[i := (h, pc)]) (db', ts[i := (h, pc')])"
  using other_steps [OF assms(1)] refresh_step_at [OF assms(2,3)] by (rule rtranclp.rtrancl_into_rtrancl)

lemma Refresh_thread_run:
  fixes lib h raw
  defines "h \<equiv> HashRefreshToken (ab_sha256 lib) (trim_space raw)"
  assumes env: "\<And>s d. auth_steps d (env s d)"
    and run: "Refresh lib m fault env now ie raw db = (db', r)" "trim_space raw \<noteq> ''''" and i: "i < length ts"
  shows "(refresh_step lib m)\<^sup>*\<^sup>* (db, ts[i := (h, AtLookup)]) (db', ts[i := (h, Finished r)])"
proof -
  let ?to = "\<lambda>pc d pc' d'. (refresh_step lib m)\<^sup>*\<^sup>* (d, ts[i := (h, pc)]) (d', ts[i := (h, pc')])"
  let ?d1 = "env RfFind db" let ?d2 = "env RfUser ?d1" let ?d3 = "env RfRevoke ?d2"
  have go: "thread_stmt lib m f now ie h pc (env s d) = (e, pc') \<Longrightarrow> ?to pc d pc' e" for f s d pc e pc'
    using refresh_env_step [OF env i] .
  note R = run(1) [unfolded Refresh_def Let_def if_not_P [OF run(2)] h_def [symmetric]]
  show ?thesis
  proof (cases "refresh_lookup (fault RfFind) h now ?d1")
    case (Inl e)
    then show ?thesis using go [of "fault RfFind" AtLookup RfFind db] R by simp
  next
    case lookup: (Inr rec)
    have s1: "?to AtLookup db (AtUser rec) ?d1"
      using go [of "fault RfFind" AtLookup RfFind db] lookup by simp
    show ?thesis
    proof (cases "refresh_user (fault RfUser) rec ?d2")
      case (Inl e)
      then show ?thesis
        using s1 go [of "fault RfUser" "AtUser rec" RfUser ?d1] R lookup by fastforce
    next
      case usr: (Inr u)
      have s2: "?to AtLookup db (AtRevoke u) ?d2"
        using s1 go [of "fault RfUser" "AtUser rec" RfUser ?d1] usr by fastforce
      obtain d4 res where rev: "refresh_revoke (fault RfRevoke) h now ?d3 = (d4, res)" by fastforce
      show ?thesis
      proof (cases res)
        case (Inl e)
        then show ?thesis
          using s2 go [of "fault RfRevoke" "AtRevoke u" RfRevoke ?d2] R lookup usr rev
          by fastforce
      next
        case (Inr x)
        have s3: "?to AtLookup db (AtIssue u) d4"
          using s2 go [of "fault RfRevoke" "AtRevoke u" RfRevoke ?d2] rev Inr by fastforce
        have "refresh_issue lib m (fault RfCreate) now ie u (env RfCreate d4) = (db', r)"
          using R lookup usr rev Inr by simp
        then show ?thesis
          using s3 go [of "fault RfCreate" "AtIssue u" RfCreate d4] by fastforce
      qed
    qed
  qed
qed

text \<open>
  A refresh implements the rotation: with any faults and any statements of other processes in
  between it is a run of one thread that ends with its answer, it keeps the invariant of the
  tables, and if it answers with new tokens then the old one is revoked.
\<close>

theorem refresh_implements_rotation:
  assumes "auth_inv db" "\<And>s d. auth_steps d (env s d)" "trim_space raw \<noteq> ''''"
    and "Refresh lib m fault env now ie raw db = (db', r)" "h = HashRefreshToken (ab_sha256 lib) (trim_space raw)"
    and "i < length ts" "ts ! i = (h, AtLookup)"
  shows "(refresh_step lib m)\<^sup>*\<^sup>* (db, ts) (db', ts[i := (h, Finished r)]) \<and> auth_inv db' \<and>
    (\<forall>a. r = Inr a \<longrightarrow> token_spent h db')"
proof -
  have at: "ts[i := (h, AtLookup)] = ts" using assms(7) by (metis list_update_id)
  then have run: "(refresh_step lib m)\<^sup>*\<^sup>* (db, ts) (db', ts[i := (h, Finished r)])"
    using Refresh_thread_run [OF assms(2,4,3,6)] assms(5) by simp
  have "(refresh_step lib m)\<^sup>*\<^sup>* (db, [(h, AtLookup)]) (db', [(h, Finished r)])"
    using Refresh_thread_run [OF assms(2,4,3), where i = 0 and ts = "[(h, AtLookup)]"] assms(5) by simp
  moreover have "rotation_inv (db, [(h, AtLookup)])" using assms(1) by (simp add: rotation_inv_def)
  ultimately have "rotation_inv (db', [(h, Finished r)])" by (rule rotation_inv_steps)
  then have "auth_inv db' \<and> (\<forall>a. r = Inr a \<longrightarrow> token_spent h db')" by (auto simp: rotation_inv_def)
  with run show ?thesis by blast
qed

end
