(* ===== verification/Auth_Session.thy ===== *)
theory Auth_Session
  imports Auth_Rotation
begin

section \<open>Accounts and sessions\<close>

text \<open>
  What a user of \<open>service.go\<close> sees over several calls: registration, login, the rotation of the
  refresh token and logout, and what stays refused.
\<close>

subsection \<open>Single calls\<close>

lemma Token_Create_result:
  "Token_Create f now r db = (db', Inr x) \<longleftrightarrow>
     f = None \<and> token_row (rt_token_hash r) db = None \<and> find_row (\<lambda>u. us_id u = rt_user_id r) (au_users db) \<noteq> None \<and>
     x = r\<lparr>rt_id := seq (au_tokens db) + 1, rt_created_at := now\<rparr> \<and>
     db' = db\<lparr>au_tokens := insert_row (\<lambda>i. r\<lparr>rt_id := i, rt_created_at := now\<rparr>) (au_tokens db)\<rparr>"
  by (auto simp: Token_Create_def Let_def token_row_def split: option.splits if_splits)

lemma token_row_users [simp]: "token_row h (db\<lparr>au_users := t\<rparr>) = token_row h db"
  by (simp add: token_row_def)

lemma token_row_insert:
  "token_row h (db\<lparr>au_tokens := insert_row (\<lambda>i. r\<lparr>rt_id := i, rt_created_at := now\<rparr>) (au_tokens db)\<rparr>) =
     (case token_row h db of Some x \<Rightarrow> Some x
      | None \<Rightarrow> if rt_token_hash r = h then Some (r\<lparr>rt_id := seq (au_tokens db) + 1, rt_created_at := now\<rparr>) else None)"
  by (simp add: token_row_def find_row_insert)

lemma Token_Create_row:
  assumes "Token_Create f now r db = (db', Inr x)"
  shows "token_row (rt_token_hash r) db' = Some (r\<lparr>rt_id := seq (au_tokens db) + 1, rt_created_at := now\<rparr>)"
proof -
  have h: "token_row (rt_token_hash r) db = None"
    "db' = db\<lparr>au_tokens := insert_row (\<lambda>i. r\<lparr>rt_id := i, rt_created_at := now\<rparr>) (au_tokens db)\<rparr>"
    using assms by (simp_all add: Token_Create_result)
  show ?thesis unfolding h(2) token_row_insert by (simp add: h(1))
qed

lemma GenerateRefreshToken_result:
  "GenerateRefreshToken sha raw = Inr (token, h) \<longleftrightarrow>
     (\<exists>bytes. raw = Inr bytes \<and> token = raw_url_encode bytes \<and> h = HashRefreshToken sha token)"
  by (auto simp: GenerateRefreshToken_def Let_def split: sum.splits)

lemma refresh_token_trims: "trim_space (raw_url_encode bytes) = raw_url_encode bytes"
  by (rule trim_all_visible [OF raw_url_encode_visible])

lemma refresh_token_nonempty: "bytes \<noteq> '''' \<Longrightarrow> raw_url_encode bytes \<noteq> ''''"
  using length_raw_url_encode [of bytes] by (cases bytes) auto

lemma Login_success:
  assumes "Login lib m no_faults no_env now ie req db = (db', Inr resp)"
  obtains email u expires bytes where
    "normalizeEmail lib (lq_email req) = Inr email" "find_row (\<lambda>r. us_email r = email) (au_users db) = Some u"
    "ab_bcrypt_compare lib (us_password_hash u) (lq_password req) = None"
    "GenerateAccessToken (ab_jwt lib) m (ie_access_now ie) (us_id u) email = Inr (lr_access_token resp, expires)"
    "ie_random ie = Inr bytes" "lr_refresh_token resp = raw_url_encode bytes"
    "Token_Create None (ie_created ie) (new_token m now (us_id u) (HashRefreshToken (ab_sha256 lib) (lr_refresh_token resp))) db =
       (db', Inr ((new_token m now (us_id u) (HashRefreshToken (ab_sha256 lib) (lr_refresh_token resp)))
               \<lparr>rt_id := seq (au_tokens db) + 1, rt_created_at := ie_created ie\<rparr>))"
    "resp = \<lparr>lr_user = auth_user_of u, lr_access_token = lr_access_token resp, lr_refresh_token = lr_refresh_token resp,
       lr_token_type = ''Bearer'', lr_expires_in = seconds_until expires (ie_until ie)\<rparr>"
proof -
  from assms obtain email where e: "normalizeEmail lib (lq_email req) = Inr email"
    by (auto simp: Login_def split: sum.splits)
  from assms e obtain u where u: "User_FindByEmail None email db = Inr u"
    by (auto simp: Login_def Let_def split: sum.splits)
  have v: "verifyPassword lib (us_password_hash u) (lq_password req) = Inr ()"
    using assms e u by (auto simp: Login_def Let_def split: sum.splits)
  obtain access expires where a:
      "GenerateAccessToken (ab_jwt lib) m (ie_access_now ie) (us_id u) email = Inr (access, expires)"
    using assms e u v by (auto simp: Login_def Let_def split: sum.splits)
  obtain refresh h where g: "GenerateRefreshToken (ab_sha256 lib) (ie_random ie) = Inr (refresh, h)"
    using assms e u v a by (auto simp: Login_def Let_def split: sum.splits)
  obtain x where c: "Token_Create None (ie_created ie) (new_token m now (us_id u) h) db = (db', Inr x)"
    using assms e u v a g by (auto simp: Login_def Let_def split: sum.splits prod.splits)
  have resp: "resp = \<lparr>lr_user = auth_user_of u, lr_access_token = access, lr_refresh_token = refresh,
       lr_token_type = ''Bearer'', lr_expires_in = seconds_until expires (ie_until ie)\<rparr>"
    using assms e u v a g c by (simp add: Login_def Let_def)
  obtain bytes where b: "ie_random ie = Inr bytes" "refresh = raw_url_encode bytes" "h = HashRefreshToken (ab_sha256 lib) refresh"
    using g by (auto simp: GenerateRefreshToken_result)
  show thesis
    by (rule that [of email u expires bytes])
      (use e u v a b c resp in \<open>auto simp: User_FindByEmail_def verifyPassword_def Token_Create_result
         split: option.splits sum.splits\<close>)
qed

lemma Login_succeeds:
  assumes "normalizeEmail lib (lq_email req) = Inr email" "find_row (\<lambda>r. us_email r = email) (au_users db) = Some u"
    "ab_bcrypt_compare lib (us_password_hash u) (lq_password req) = None"
    "GenerateAccessToken (ab_jwt lib) m (ie_access_now ie) (us_id u) email = Inr (access, expires)"
    "ie_random ie = Inr bytes" "token_row (HashRefreshToken (ab_sha256 lib) (raw_url_encode bytes)) db = None"
    "find_row (\<lambda>r. us_id r = us_id u) (au_users db) \<noteq> None"
  shows "\<exists>db' resp. Login lib m no_faults no_env now ie req db = (db', Inr resp) \<and> lr_user resp = auth_user_of u"
  using assms
  by (simp add: Login_def User_FindByEmail_def verifyPassword_def GenerateRefreshToken_def Token_Create_def
      new_token_def token_row_def Let_def)

abbreviation refresh_hash :: "auth_lib \<Rightarrow> string \<Rightarrow> string" where
  "refresh_hash lib raw \<equiv> HashRefreshToken (ab_sha256 lib) (trim_space raw)"

text \<open>The state and the answer of a refresh that nothing disturbs.\<close>

lemma Refresh_succeeds:
  assumes "auth_inv db" "trim_space raw \<noteq> ''''" "token_row (refresh_hash lib raw) db = Some r" "rt_revoked_at r = None"
    "now < rt_expires_at r" "find_row (\<lambda>u. us_id u = rt_user_id r) (au_users db) = Some u"
    "GenerateAccessToken (ab_jwt lib) m (ie_access_now ie) (us_id u) (us_email u) = Inr (access, expires)"
    "ie_random ie = Inr bytes" "token_row (HashRefreshToken (ab_sha256 lib) (raw_url_encode bytes)) db = None"
  shows "\<exists>db1 db' x. Token_RevokeByHash None (refresh_hash lib raw) now db = (db1, Inr ()) \<and>
     Token_Create None (ie_created ie) (new_token m now (us_id u) (HashRefreshToken (ab_sha256 lib) (raw_url_encode bytes))) db1 =
       (db', Inr x) \<and>
     Refresh lib m no_faults no_env now ie raw db =
       (db', Inr \<lparr>lr_user = auth_user_of u, lr_access_token = access, lr_refresh_token = raw_url_encode bytes,
                 lr_token_type = ''Bearer'', lr_expires_in = seconds_until expires (ie_until ie)\<rparr>)"
proof -
  let ?h = "refresh_hash lib raw" and ?h' = "HashRefreshToken (ab_sha256 lib) (raw_url_encode bytes)"
  obtain db1 where rev: "Token_RevokeByHash None ?h now db = (db1, Inr ())"
    using Token_RevokeByHash_iff [OF assms(1), of None ?h now] assms(3,4) by auto
  have users: "au_users db1 = au_users db" using rev by (auto simp: Token_RevokeByHash_result)
  have "token_row ?h' db1 = None"
    using rev assms(9)
    by (auto simp: Token_RevokeByHash_result token_row_def find_row_update_key [where key = rt_token_hash])
  moreover have "us_id u = rt_user_id r" using find_row_SomeD [OF assms(6)] by simp
  ultimately obtain db' x where create: "Token_Create None (ie_created ie) (new_token m now (us_id u) ?h') db1 = (db', Inr x)"
    using assms(6) users by (fastforce simp: Token_Create_result new_token_def)
  have "Token_FindValidByHash None ?h now db = Inr r"
  proof -
    have "find_row (\<lambda>x. rt_token_hash x = ?h \<and> rt_revoked_at x = None \<and> now < rt_expires_at x) (au_tokens db) = Some r"
    proof (cases "find_row (\<lambda>x. rt_token_hash x = ?h \<and> rt_revoked_at x = None \<and> now < rt_expires_at x) (au_tokens db)")
      case None
      then show ?thesis using assms(3,4,5) by (auto simp: find_row_None token_row_def dest!: find_row_SomeD)
    next
      case (Some r')
      then have "Token_FindValidByHash None ?h now db = Inr r'" by (simp add: Token_FindValidByHash_def)
      then show ?thesis using Token_FindValidByHash_row [OF _ assms(1)] assms(3) Some by fastforce
    qed
    then show ?thesis by (simp add: Token_FindValidByHash_def)
  qed
  then have "Refresh lib m no_faults no_env now ie raw db =
       (db', Inr \<lparr>lr_user = auth_user_of u, lr_access_token = access, lr_refresh_token = raw_url_encode bytes,
                 lr_token_type = ''Bearer'', lr_expires_in = seconds_until expires (ie_until ie)\<rparr>)"
    using assms rev create
    by (simp add: Refresh_def Let_def refresh_lookup_def refresh_user_def User_FindByID_def refresh_revoke_def
        refresh_issue_def GenerateRefreshToken_def)
  then show ?thesis using rev create by blast
qed

text \<open>A spent token is refused, by a refresh with any faults and interference and by a logout.\<close>

lemma Refresh_spent:
  assumes "auth_inv db" "token_spent (refresh_hash lib raw) db" "\<And>s d. auth_steps d (env s d)"
  shows "isl (snd (Refresh lib m fault env now ie raw db))"
proof (cases "trim_space raw = ''''")
  case False
  let ?h = "refresh_hash lib raw"
  have keep: "auth_inv (env s d)" "token_spent ?h (env s d)" if "auth_inv d" "token_spent ?h d" for s d
    using that auth_inv_steps [OF assms(3)] auth_steps_spent [OF assms(3)] by auto
  note d = keep [OF keep [OF keep [OF assms(1,2)]], of RfRevoke RfUser RfFind]
  have "isl (snd (refresh_revoke (fault RfRevoke) ?h now (env RfRevoke (env RfUser (env RfFind db)))))"
    using Token_RevokeByHash_spends [OF d(1)] d(2)
    by (auto simp: refresh_revoke_def split: prod.split sum.split)
  with False show ?thesis
    by (auto simp: Refresh_def Let_def split: sum.split prod.split)
qed (simp add: Refresh_def)

lemma Logout_spent:
  assumes "auth_inv db" "token_spent (refresh_hash lib raw) db"
  shows "isl (snd (Logout lib fault now raw db))"
  using Token_RevokeByHash_spends [OF assms(1)] assms(2)
  by (auto simp: Logout_def Let_def split: prod.split sum.split)

subsection \<open>Login\<close>

text \<open>
  C10. A login succeeds only with the password of the account of its email, compared with the hash
  that is stored, and then the answer names that account, and exactly one row is new: the hash of
  the refresh token of the answer, for that account, not revoked, with the configured lifetime. Without an
  account of that email whose hash the password matches the answer is the same in all cases,
  ErrInvalidCredentials, and nothing is written.
\<close>

theorem login_checks_password:
  assumes "auth_inv db" "Login lib m no_faults no_env now ie req db = (db', res)"
  shows "(\<forall>resp. res = Inr resp \<longrightarrow>
      (\<exists>email u r. normalizeEmail lib (lq_email req) = Inr email \<and> u \<in> set (rows (au_users db)) \<and> us_email u = email \<and>
         ab_bcrypt_compare lib (us_password_hash u) (lq_password req) = None \<and> lr_user resp = auth_user_of u \<and>
         au_users db' = au_users db \<and> rows (au_tokens db') = rows (au_tokens db) @ [r] \<and>
         rt_token_hash r = HashRefreshToken (ab_sha256 lib) (lr_refresh_token resp) \<and> rt_user_id r = us_id u \<and>
         rt_revoked_at r = None \<and> rt_expires_at r = now + tm_refresh_ttl m \<and> auth_inv db')) \<and>
    ((\<nexists>u. u \<in> set (rows (au_users db)) \<and> normalizeEmail lib (lq_email req) = Inr (us_email u) \<and>
        ab_bcrypt_compare lib (us_password_hash u) (lq_password req) = None) \<longrightarrow>
     db' = db \<and> res = Inl (Sentinel ErrInvalidCredentials))"
proof (intro conjI impI allI)
  fix resp
  assume "res = Inr resp"
  then have "Login lib m no_faults no_env now ie req db = (db', Inr resp)" using assms(2) by simp
  then show "\<exists>email u r. normalizeEmail lib (lq_email req) = Inr email \<and> u \<in> set (rows (au_users db)) \<and> us_email u = email \<and>
         ab_bcrypt_compare lib (us_password_hash u) (lq_password req) = None \<and> lr_user resp = auth_user_of u \<and>
         au_users db' = au_users db \<and> rows (au_tokens db') = rows (au_tokens db) @ [r] \<and>
         rt_token_hash r = HashRefreshToken (ab_sha256 lib) (lr_refresh_token resp) \<and> rt_user_id r = us_id u \<and>
         rt_revoked_at r = None \<and> rt_expires_at r = now + tm_refresh_ttl m \<and> auth_inv db'"
  proof (rule Login_success)
    fix email expires bytes and u :: user
    let ?r = "new_token m now (us_id u) (HashRefreshToken (ab_sha256 lib) (lr_refresh_token resp))"
    let ?x = "?r\<lparr>rt_id := seq (au_tokens db) + 1, rt_created_at := ie_created ie\<rparr>"
    assume h: "normalizeEmail lib (lq_email req) = Inr email" "find_row (\<lambda>r. us_email r = email) (au_users db) = Some u"
      "ab_bcrypt_compare lib (us_password_hash u) (lq_password req) = None"
      "Token_Create None (ie_created ie) ?r db = (db', Inr ?x)"
      "resp = \<lparr>lr_user = auth_user_of u, lr_access_token = lr_access_token resp, lr_refresh_token = lr_refresh_token resp,
       lr_token_type = ''Bearer'', lr_expires_in = seconds_until expires (ie_until ie)\<rparr>"
    have "auth_step db db'" using step_token [of db None "ie_created ie" ?r] h(4) by simp
    then have "auth_inv db'" using auth_inv_step assms(1) by blast
    moreover have "au_users db' = au_users db" "rows (au_tokens db') = rows (au_tokens db) @ [?x]"
      using h(4) by (auto simp: Token_Create_result)
    moreover have "lr_user resp = auth_user_of u" by (subst h(5)) simp
    moreover have "rt_token_hash ?x = HashRefreshToken (ab_sha256 lib) (lr_refresh_token resp)" "rt_user_id ?x = us_id u"
      "rt_revoked_at ?x = None" "rt_expires_at ?x = now + tm_refresh_ttl m" by (simp_all add: new_token_def time_add_def)
    ultimately show ?thesis using h(1-3) find_row_SomeD [OF h(2)] by blast
  qed
next
  assume none: "\<nexists>u. u \<in> set (rows (au_users db)) \<and> normalizeEmail lib (lq_email req) = Inr (us_email u) \<and>
        ab_bcrypt_compare lib (us_password_hash u) (lq_password req) = None"
  have "Login lib m no_faults no_env now ie req db = (db, Inl (Sentinel ErrInvalidCredentials))"
  proof (cases "normalizeEmail lib (lq_email req)")
    case (Inr email)
    show ?thesis
    proof (cases "find_row (\<lambda>r. us_email r = email) (au_users db)")
      case (Some u)
      then have "ab_bcrypt_compare lib (us_password_hash u) (lq_password req) \<noteq> None"
        using none Inr find_row_SomeD [OF Some] by auto
      then show ?thesis using Inr Some by (auto simp: Login_def User_FindByEmail_def verifyPassword_def)
    qed (simp add: Login_def User_FindByEmail_def Inr)
  qed (simp add: Login_def)
  then show "db' = db" "res = Inl (Sentinel ErrInvalidCredentials)" using assms(2) by simp_all
qed


subsection \<open>A session\<close>

text \<open>A token that opens a session of a user until its end.\<close>

definition session :: "auth_lib \<Rightarrow> auth_db \<Rightarrow> string \<Rightarrow> user \<Rightarrow> time \<Rightarrow> bool" where
  "session lib db raw u ends \<longleftrightarrow> auth_inv db \<and> trim_space raw = raw \<and> raw \<noteq> [] \<and>
     find_row (\<lambda>x. us_id x = us_id u) (au_users db) = Some u \<and>
     (\<exists>r. token_row (HashRefreshToken (ab_sha256 lib) raw) db = Some r \<and> rt_revoked_at r = None \<and>
        rt_user_id r = us_id u \<and> rt_expires_at r = ends)"

lemma user_by_id:
  assumes "auth_inv db" "find_row P (au_users db) = Some u"
  shows "find_row (\<lambda>x. us_id x = us_id u) (au_users db) = Some u"
  using find_row_SomeD [OF assms(2)] assms(1) wf_distinct [of us_id "au_users db"]
  by (intro find_row_key) (auto simp: auth_inv_def keyed_table_def)

text \<open>Storing a new token opens a session.\<close>

lemma Token_Create_session:
  assumes "auth_inv db" "find_row (\<lambda>x. us_id x = us_id u) (au_users db) = Some u" "bytes \<noteq> []"
    and "Token_Create None created (new_token m now (us_id u) (HashRefreshToken (ab_sha256 lib) (raw_url_encode bytes))) db = (db', Inr x)"
  shows "session lib db' (raw_url_encode bytes) u (now + tm_refresh_ttl m) \<and> auth_step db db'"
proof -
  let ?r = "new_token m now (us_id u) (HashRefreshToken (ab_sha256 lib) (raw_url_encode bytes))"
  have step: "auth_step db db'" using step_token [of db None created ?r] assms(4) by simp
  have "\<exists>r. token_row (HashRefreshToken (ab_sha256 lib) (raw_url_encode bytes)) db' = Some r \<and> rt_revoked_at r = None \<and>
        rt_user_id r = us_id u \<and> rt_expires_at r = now + tm_refresh_ttl m"
    using Token_Create_row [OF assms(4)] by (auto simp: new_token_def time_add_def)
  then show ?thesis
    using auth_inv_step [OF step assms(1)] auth_step_users [OF step assms(2)] step refresh_token_trims
      refresh_token_nonempty [OF assms(3)] by (simp add: session_def)
qed

lemma Login_session:
  assumes "auth_inv db" "Login lib m no_faults no_env now ie req db = (db', Inr resp)" "ie_random ie \<noteq> Inr []"
  shows "\<exists>u. session lib db' (lr_refresh_token resp) u (now + tm_refresh_ttl m) \<and> lr_user resp = auth_user_of u"
  using assms(2)
proof (rule Login_success)
  fix email expires bytes and u :: user
  assume h: "find_row (\<lambda>r. us_email r = email) (au_users db) = Some u" "ie_random ie = Inr bytes"
    "lr_refresh_token resp = raw_url_encode bytes"
    "Token_Create None (ie_created ie) (new_token m now (us_id u) (HashRefreshToken (ab_sha256 lib) (lr_refresh_token resp))) db =
       (db', Inr ((new_token m now (us_id u) (HashRefreshToken (ab_sha256 lib) (lr_refresh_token resp)))
               \<lparr>rt_id := seq (au_tokens db) + 1, rt_created_at := ie_created ie\<rparr>))"
    "resp = \<lparr>lr_user = auth_user_of u, lr_access_token = lr_access_token resp, lr_refresh_token = lr_refresh_token resp,
       lr_token_type = ''Bearer'', lr_expires_in = seconds_until expires (ie_until ie)\<rparr>"
  have "lr_user resp = auth_user_of u" by (subst h(5)) simp
  then show ?thesis
    using Token_Create_session [OF assms(1) user_by_id [OF assms(1) h(1)] _ h(4) [unfolded h(3)]] h(2,3) assms(3) by auto
qed

lemma Refresh_session:
  assumes "session lib db raw u ends" "now < ends"
    and "GenerateAccessToken (ab_jwt lib) m (ie_access_now ie) (us_id u) (us_email u) = Inr (access, expires)"
    and "ie_random ie = Inr bytes" "bytes \<noteq> []" "token_row (HashRefreshToken (ab_sha256 lib) (raw_url_encode bytes)) db = None"
  shows "\<exists>db' resp. Refresh lib m no_faults no_env now ie raw db = (db', Inr resp) \<and> lr_user resp = auth_user_of u \<and>
     lr_refresh_token resp = raw_url_encode bytes \<and> session lib db' (raw_url_encode bytes) u (now + tm_refresh_ttl m) \<and>
     token_spent (refresh_hash lib raw) db'"
proof -
  obtain r where r: "token_row (refresh_hash lib raw) db = Some r" "rt_revoked_at r = None" "rt_user_id r = us_id u" "rt_expires_at r = ends"
    and inv: "auth_inv db" "trim_space raw \<noteq> []" and usr: "find_row (\<lambda>x. us_id x = rt_user_id r) (au_users db) = Some u"
    using assms(1) by (auto simp: session_def)
  obtain d db' x where d: "Token_RevokeByHash None (refresh_hash lib raw) now db = (d, Inr ())"
      "Token_Create None (ie_created ie) (new_token m now (us_id u) (HashRefreshToken (ab_sha256 lib) (raw_url_encode bytes))) d = (db', Inr x)"
      "Refresh lib m no_faults no_env now ie raw db =
       (db', Inr \<lparr>lr_user = auth_user_of u, lr_access_token = access, lr_refresh_token = raw_url_encode bytes,
                 lr_token_type = ''Bearer'', lr_expires_in = seconds_until expires (ie_until ie)\<rparr>)"
    using Refresh_succeeds [OF inv r(1,2) _ usr assms(3,4,6), of now] assms(2) r(4) by blast
  have step: "auth_step db d" using step_revoke [of db None "refresh_hash lib raw" now] d(1) by simp
  have "auth_inv d" "token_spent (refresh_hash lib raw) d" "find_row (\<lambda>x. us_id x = us_id u) (au_users d) = Some u"
    using auth_inv_step [OF step inv(1)] Token_RevokeByHash_spends [OF inv(1) d(1)] auth_step_users [OF step usr] r(3) by auto
  then show ?thesis using Token_Create_session [OF _ _ assms(5) d(2)] auth_step_spent d(3) by auto
qed

lemma Logout_session:
  assumes "session lib db raw u ends"
  shows "\<exists>db'. Logout lib None now raw db = (db', Inr ()) \<and> auth_inv db' \<and> token_spent (refresh_hash lib raw) db'"
proof -
  have inv: "auth_inv db" and raw: "trim_space raw = raw" "raw \<noteq> []" using assms by (simp_all add: session_def)
  obtain db' where d: "Token_RevokeByHash None (refresh_hash lib raw) now db = (db', Inr ())"
    using assms Token_RevokeByHash_iff [OF inv, of None "refresh_hash lib raw" now] by (auto simp: session_def)
  have "auth_step db db'" using step_revoke [of db None "refresh_hash lib raw" now] d by simp
  then show ?thesis using auth_inv_step inv Token_RevokeByHash_spends [OF inv d] d raw by (auto simp: Logout_def Let_def)
qed

text \<open>
  C9. A session: with the refresh token of a login, before its end, the user gets new tokens for
  the same account; the old token is refused from then on, by refreshes and logouts, whatever
  happens in between and whatever faults they meet; the new one can be revoked by a logout, after
  which it is refused as well.
\<close>

theorem session_life_cycle:
  assumes "auth_inv db" "Login lib m no_faults no_env now ie req db = (db1, Inr resp)"
    and "ie_random ie \<noteq> Inr ''''" "now1 < now + tm_refresh_ttl m"
    and "GenerateAccessToken (ab_jwt lib) m (ie_access_now ie1) (av_id (lr_user resp)) (av_email (lr_user resp)) = Inr (access, expires)"
    and "ie_random ie1 = Inr bytes" "bytes \<noteq> ''''" "token_row (HashRefreshToken (ab_sha256 lib) (raw_url_encode bytes)) db1 = None"
  shows "\<exists>db2 resp2. Refresh lib m no_faults no_env now1 ie1 (lr_refresh_token resp) db1 = (db2, Inr resp2) \<and>
     lr_user resp2 = lr_user resp \<and> lr_refresh_token resp2 = raw_url_encode bytes \<and> auth_inv db2 \<and>
     (\<forall>db3 fault env now3 ie3. auth_steps db2 db3 \<longrightarrow> (\<forall>s d. auth_steps d (env s d)) \<longrightarrow>
        isl (snd (Refresh lib m fault env now3 ie3 (lr_refresh_token resp) db3)) \<and>
        isl (snd (Logout lib (fault RfRevoke) now3 (lr_refresh_token resp) db3))) \<and>
     (\<exists>db4. Logout lib None now4 (lr_refresh_token resp2) db2 = (db4, Inr ()) \<and>
        isl (snd (Refresh lib m no_faults no_env now5 ie5 (lr_refresh_token resp2) db4)))"
proof -
  obtain u where ses: "session lib db1 (lr_refresh_token resp) u (now + tm_refresh_ttl m)" and u: "lr_user resp = auth_user_of u"
    using Login_session [OF assms(1-3)] by blast
  have acc: "GenerateAccessToken (ab_jwt lib) m (ie_access_now ie1) (us_id u) (us_email u) = Inr (access, expires)"
    using assms(5) u by (simp add: auth_user_of_def)
  obtain db2 resp2 where ref: "Refresh lib m no_faults no_env now1 ie1 (lr_refresh_token resp) db1 = (db2, Inr resp2)"
      "lr_user resp2 = auth_user_of u" "lr_refresh_token resp2 = raw_url_encode bytes"
      "session lib db2 (raw_url_encode bytes) u (now1 + tm_refresh_ttl m)" "token_spent (refresh_hash lib (lr_refresh_token resp)) db2"
    using Refresh_session [OF ses assms(4) acc assms(6-8)] by blast
  have inv: "auth_inv db2" using ref(4) by (simp add: session_def)
  obtain db4 where out: "Logout lib None now4 (raw_url_encode bytes) db2 = (db4, Inr ())" "auth_inv db4"
      "token_spent (refresh_hash lib (raw_url_encode bytes)) db4"
    using Logout_session [OF ref(4)] by blast
  have "isl (snd (Refresh lib m fault env now3 ie3 (lr_refresh_token resp) db3)) \<and>
        isl (snd (Logout lib (fault RfRevoke) now3 (lr_refresh_token resp) db3))"
    if "auth_steps db2 db3" "\<forall>s d. auth_steps d (env s d)" for db3 fault env now3 ie3
    using that auth_inv_steps [OF that(1) inv] auth_steps_spent [OF that(1) ref(5)]
    by (intro conjI Refresh_spent Logout_spent) simp_all
  then show ?thesis
    using ref(1-3) u inv out(1) Refresh_spent [OF out(2,3), of no_env, simplified] by fastforce
qed

subsection \<open>Registration\<close>

lemma Register_success:
  assumes "Register lib no_faults no_env now salt req db = (db1, Inr a)"
  obtains email h u where
    "normalizeEmail lib (rr_email req) = Inr email" "8 \<le> length (rr_password req)"
    "ab_bcrypt_generate lib salt (rr_password req) = Inr h" "a = auth_user_of u"
    "us_email u = email" "us_password_hash u = h" "find_row (\<lambda>r. us_email r = email) (au_users db1) = Some u"
    "auth_step db db1"
proof -
  obtain email where e: "normalizeEmail lib (rr_email req) = Inr email"
    using assms by (auto simp: Register_def split: sum.splits)
  have v: "validatePassword (rr_password req) = Inr ()"
    using assms e by (auto simp: Register_def split: sum.splits)
  have n: "find_row (\<lambda>r. us_email r = email) (au_users db) = None"
    using assms e v by (auto simp: Register_def User_FindByEmail_def Let_def split: option.splits)
  obtain h where h: "ab_bcrypt_generate lib salt (rr_password req) = Inr h"
    using assms e v n by (auto simp: Register_def User_FindByEmail_def hashPassword_def Let_def split: sum.splits)
  let ?new = "new_user email h (trim_space (rr_display_name req))"
  obtain u where u: "User_Create None now ?new db = (db1, Inr u)" "a = auth_user_of u"
    using assms e v n h
    by (auto simp: Register_def User_FindByEmail_def hashPassword_def Let_def split: sum.splits prod.splits)
  have "db1 = fst (User_Create None now ?new db)" using u(1) by simp
  then have step: "auth_step db db1" using step_user by simp
  have row: "find_row (\<lambda>r. us_email r = email) (au_users db1) = Some u" "us_email u = email" "us_password_hash u = h"
    using u(1) n by (auto simp: User_Create_def Let_def new_user_def find_row_insert)
  have "8 \<le> length (rr_password req)" using v by (simp add: validatePassword_def split: if_splits)
  then show thesis using that e h u(2) row step by blast
qed

text \<open>
  C11. Whoever has registered can log in: at any later time, with any spelling of the email that
  is normalized alike and the same password, a login answers with the account that was
  registered, and no second account for the email can be registered; emails are unique in
  every later state.
\<close>

theorem register_then_login:
  assumes "auth_inv db" "\<And>s p h. ab_bcrypt_generate lib s p = Inr h \<Longrightarrow> ab_bcrypt_compare lib h p = None"
    and "Register lib no_faults no_env now salt req db = (db1, Inr a)" "auth_steps db1 db2"
    and "normalizeEmail lib email2 = normalizeEmail lib (rr_email req)"
    and "GenerateAccessToken (ab_jwt lib) m (ie_access_now ie) (av_id a) (av_email a) = Inr (access, expires)"
    and "ie_random ie = Inr bytes" "token_row (HashRefreshToken (ab_sha256 lib) (raw_url_encode bytes)) db2 = None"
  shows "(\<exists>db3 resp. Login lib m no_faults no_env now2 ie \<lparr>lq_email = email2, lq_password = rr_password req\<rparr> db2 = (db3, Inr resp) \<and>
            lr_user resp = a) \<and>
    (\<forall>req2 salt2 now3. rr_email req2 = email2 \<longrightarrow> 8 \<le> length (rr_password req2) \<longrightarrow>
       Register lib no_faults no_env now3 salt2 req2 db2 = (db2, Inl (Sentinel ErrEmailAlreadyExists))) \<and>
    distinct (map us_email (rows (au_users db2)))"
  using assms(3)
proof (rule Register_success)
  fix email h and u :: user
  assume r: "normalizeEmail lib (rr_email req) = Inr email" "ab_bcrypt_generate lib salt (rr_password req) = Inr h"
    "a = auth_user_of u" "us_email u = email" "us_password_hash u = h"
    "find_row (\<lambda>r. us_email r = email) (au_users db1) = Some u" "auth_step db db1"
  have inv: "auth_inv db2" using auth_inv_steps [OF assms(4)] auth_inv_step [OF r(7) assms(1)] by simp
  have row: "find_row (\<lambda>r. us_email r = email) (au_users db2) = Some u" by (rule auth_steps_users [OF assms(4) r(6)])
  have "\<exists>db3 resp. Login lib m no_faults no_env now2 ie \<lparr>lq_email = email2, lq_password = rr_password req\<rparr> db2 = (db3, Inr resp) \<and>
            lr_user resp = auth_user_of u"
    using r assms(2,5-8) row user_by_id [OF inv row]
    by (intro Login_succeeds) (simp_all add: auth_user_of_def)
  moreover have "Register lib no_faults no_env now3 salt2 req2 db2 = (db2, Inl (Sentinel ErrEmailAlreadyExists))"
    if "rr_email req2 = email2" "8 \<le> length (rr_password req2)" for req2 salt2 now3
  proof -
    have "rr_password req2 \<noteq> ''''" using that(2) by auto
    then show ?thesis
      using that r(1) assms(5) row by (simp add: Register_def validatePassword_def User_FindByEmail_def Let_def)
  qed
  moreover have "distinct (map us_email (rows (au_users db2)))" using inv by (simp add: auth_inv_def keyed_table_def)
  ultimately show ?thesis using r(3) by blast
qed

subsection \<open>An account at work\<close>

declare raw_url_encode.simps [simp del]

definition sample_auth_lib :: auth_lib where
  "sample_auth_lib =
     \<lparr>ab_jwt = sample_jw, ab_sha256 = (\<lambda>s. s), ab_lower = (\<lambda>s. s), ab_parse_address = (\<lambda>s. CHR ''@'' \<in> set s),
      ab_bcrypt_generate = (\<lambda>salt p. Inr (CHR ''$'' # p)),
      ab_bcrypt_compare = (\<lambda>h p. if h = CHR ''$'' # p then None else Some (Plain ''mismatch''))\<rparr>"

definition sample_user :: user where
  "sample_user = \<lparr>us_id = 7, us_email = ''a@b.c'', us_password_hash = ''$password'', us_display_name = ''A'',
     us_created_at = 0, us_updated_at = 0\<rparr>"

definition sample_auth_db :: auth_db where
  "sample_auth_db = \<lparr>au_users = \<lparr>rows = [sample_user], seq = 7\<rparr>, au_tokens = empty_table\<rparr>"

definition sample_issue :: "string \<Rightarrow> issue_env" where
  "sample_issue bytes = \<lparr>ie_access_now = 0, ie_random = Inr bytes, ie_created = 0, ie_until = 0\<rparr>"

definition sample_login :: login_request where
  "sample_login = \<lparr>lq_email = ''a@b.c'', lq_password = ''password''\<rparr>"

lemma sample_auth_inv: "auth_inv sample_auth_db"
  by (simp add: auth_inv_def sample_auth_db_def keyed_table_def wf_table_def empty_table_def sample_user_def)

lemma sample_normalize: "normalizeEmail sample_auth_lib ''a@b.c'' = Inr ''a@b.c''"
  by (simp add: normalizeEmail_def sample_auth_lib_def to_lower_def ascii_only_def lower_byte_def trim_space_visible visible_def)

lemma sample_auth_access:
  "GenerateAccessToken (ab_jwt sample_auth_lib) sample_manager 0 7 ''a@b.c'' = Inr (''a.b.c'', 900 * second)"
  using sample_access by (simp add: sample_auth_lib_def)

lemma sample_user_row:
  "find_row (\<lambda>r. us_email r = ''a@b.c'') (au_users sample_auth_db) = Some sample_user"
  "find_row (\<lambda>r. us_id r = 7) (au_users sample_auth_db) = Some sample_user"
  by (simp_all add: find_row_def sample_auth_db_def sample_user_def)

lemma sample_logs_in:
  "\<exists>db resp. Login sample_auth_lib sample_manager no_faults no_env 0 (sample_issue ''abc'') sample_login sample_auth_db = (db, Inr resp) \<and>
     lr_user resp = auth_user_of sample_user"
  by (rule Login_succeeds [of _ _ "''a@b.c''" _ sample_user _ _ "''a.b.c''" "900 * second" "''abc''"])
    (simp_all add: sample_login_def sample_normalize sample_user_row sample_issue_def sample_auth_access,
     simp_all add: sample_auth_lib_def sample_user_def sample_access [simplified] token_row_def sample_auth_db_def find_row_def)

lemma sample_session:
  "\<exists>db resp. Login sample_auth_lib sample_manager no_faults no_env 0 (sample_issue ''abc'') sample_login sample_auth_db = (db, Inr resp) \<and>
     lr_user resp = auth_user_of sample_user \<and> lr_refresh_token resp = raw_url_encode ''abc'' \<and>
     session sample_auth_lib db (raw_url_encode ''abc'') sample_user (tm_refresh_ttl sample_manager) \<and>
     token_row (HashRefreshToken (ab_sha256 sample_auth_lib) (raw_url_encode ''xyz'')) db = None"
proof -
  obtain db resp where l: "Login sample_auth_lib sample_manager no_faults no_env 0 (sample_issue ''abc'') sample_login sample_auth_db = (db, Inr resp)"
    "lr_user resp = auth_user_of sample_user" using sample_logs_in by blast
  from l(1) show ?thesis
  proof (rule Login_success)
    fix email expires bytes and u :: user
    let ?r = "new_token sample_manager 0 (us_id u) (HashRefreshToken (ab_sha256 sample_auth_lib) (lr_refresh_token resp))"
    assume h: "normalizeEmail sample_auth_lib (lq_email sample_login) = Inr email"
      "find_row (\<lambda>r. us_email r = email) (au_users sample_auth_db) = Some u"
      "ie_random (sample_issue ''abc'') = Inr bytes" "lr_refresh_token resp = raw_url_encode bytes"
      "Token_Create None (ie_created (sample_issue ''abc'')) ?r sample_auth_db =
         (db, Inr (?r\<lparr>rt_id := seq (au_tokens sample_auth_db) + 1, rt_created_at := ie_created (sample_issue ''abc'')\<rparr>))"
    have u: "u = sample_user" using h(1,2) sample_user_row(1) by (simp add: sample_login_def sample_normalize)
    have b: "bytes = ''abc''" using h(3) by (simp add: sample_issue_def)
    have "session sample_auth_lib db (raw_url_encode bytes) u (0 + tm_refresh_ttl sample_manager)"
      using Token_Create_session [OF sample_auth_inv user_by_id [OF sample_auth_inv h(2)] _ h(5) [unfolded h(4)]] b by simp
    moreover have "token_row (HashRefreshToken (ab_sha256 sample_auth_lib) (raw_url_encode ''xyz'')) db = None"
    proof -
      have "''xyz'' \<noteq> bytes" using b by simp
      then have "HashRefreshToken (ab_sha256 sample_auth_lib) (raw_url_encode ''xyz'') \<noteq> rt_token_hash ?r"
        using h(4) raw_url_encode_inject hex_encode_inject
        by (auto simp: new_token_def HashRefreshToken_def sample_auth_lib_def)
      moreover have "token_row x sample_auth_db = None" for x by (simp add: token_row_def find_row_def sample_auth_db_def)
      moreover have "db = sample_auth_db\<lparr>au_tokens := insert_row (\<lambda>i. ?r\<lparr>rt_id := i, rt_created_at := ie_created (sample_issue ''abc'')\<rparr>) (au_tokens sample_auth_db)\<rparr>"
        using h(5) by (simp add: Token_Create_result)
      ultimately show ?thesis by (simp add: token_row_insert)
    qed
    ultimately show ?thesis using l h(4) b u by auto
  qed
qed

text \<open>Two refreshes race for the same token: the first one runs to its end and gets new tokens.\<close>

lemma sample_refreshes:
  "\<exists>db db' resp. auth_inv db \<and>
     Refresh sample_auth_lib sample_manager no_faults no_env 1 (sample_issue ''xyz'') (raw_url_encode ''abc'') db = (db', Inr resp)"
proof -
  obtain db where s: "session sample_auth_lib db (raw_url_encode ''abc'') sample_user (tm_refresh_ttl sample_manager)"
    "token_row (HashRefreshToken (ab_sha256 sample_auth_lib) (raw_url_encode ''xyz'')) db = None" using sample_session by blast
  have "\<exists>db' resp. Refresh sample_auth_lib sample_manager no_faults no_env 1 (sample_issue ''xyz'') (raw_url_encode ''abc'') db = (db', Inr resp)"
    using Refresh_session [OF s(1), of 1 sample_manager "sample_issue ''xyz''" "''a.b.c''" "900 * second" "''xyz''"] s(2) sample_auth_access
    by (auto simp: sample_issue_def sample_manager_def sample_user_def)
  then show ?thesis using s(1) by (auto simp: session_def)
qed

theorem refresh_token_single_use_witness:
  "\<exists>db db' ts a h. (refresh_step sample_auth_lib sample_manager)\<^sup>*\<^sup>* (db, [(h, AtLookup), (h, AtLookup)]) (db', ts) \<and>
     ts ! 0 = (h, Finished (Inr a)) \<and> token_spent h db'"
proof -
  let ?h = "refresh_hash sample_auth_lib (raw_url_encode ''abc'')"
  obtain db db' a where r: "auth_inv db"
      "Refresh sample_auth_lib sample_manager no_faults no_env 1 (sample_issue ''xyz'') (raw_url_encode ''abc'') db = (db', Inr a)"
    using sample_refreshes by blast
  have run: "(refresh_step sample_auth_lib sample_manager)\<^sup>*\<^sup>* (db, [(?h, AtLookup), (?h, AtLookup)])
      (db', [(?h, Finished (Inr a)), (?h, AtLookup)])"
    using Refresh_thread_run [OF _ r(2), where i = 0 and ts = "[(?h, AtLookup), (?h, AtLookup)]"]
      refresh_token_trims [of "''abc''"] refresh_token_nonempty [of "''abc''"] by simp
  have "token_spent ?h db'"
    using refresh_token_single_use [OF r(1) _ run, of 0 ?h a 0 a] by simp
  show ?thesis
  proof (intro exI conjI)
    show "[(?h, Finished (Inr a)), (?h, AtLookup)] ! 0 = (?h, Finished (Inr a))" by simp
  qed (rule run, rule \<open>token_spent ?h db'\<close>)
qed

theorem refresh_implements_rotation_witness:
  "\<exists>db db' a h. auth_inv db' \<and> token_spent h db' \<and>
     (refresh_step sample_auth_lib sample_manager)\<^sup>*\<^sup>* (db, [(h, AtLookup)]) (db', [(h, Finished (Inr a))])"
proof -
  let ?raw = "raw_url_encode ''abc''"
  obtain db db' a where r: "auth_inv db"
      "Refresh sample_auth_lib sample_manager no_faults no_env 1 (sample_issue ''xyz'') ?raw db = (db', Inr a)"
    using sample_refreshes by blast
  have "trim_space ?raw \<noteq> ''''" using refresh_token_trims refresh_token_nonempty by simp
  then show ?thesis
    using refresh_implements_rotation [OF r(1) _ _ r(2) refl, of 0 "[(refresh_hash sample_auth_lib ?raw, AtLookup)]"] by auto
qed

theorem login_checks_password_witness:
  "snd (Login sample_auth_lib sample_manager no_faults no_env 0 (sample_issue ''abc'') (sample_login\<lparr>lq_password := ''guess''\<rparr>) sample_auth_db) =
     Inl (Sentinel ErrInvalidCredentials)"
proof -
  have "\<nexists>u. u \<in> set (rows (au_users sample_auth_db)) \<and>
      normalizeEmail sample_auth_lib (lq_email (sample_login\<lparr>lq_password := ''guess''\<rparr>)) = Inr (us_email u) \<and>
      ab_bcrypt_compare sample_auth_lib (us_password_hash u) (lq_password (sample_login\<lparr>lq_password := ''guess''\<rparr>)) = None"
    by (simp add: sample_auth_db_def sample_auth_lib_def sample_user_def)
  then show ?thesis
    using login_checks_password [OF sample_auth_inv prod.collapse [symmetric], where lib = sample_auth_lib] by blast
qed

theorem session_life_cycle_witness:
  "\<exists>db1 resp db2 resp2. Login sample_auth_lib sample_manager no_faults no_env 0 (sample_issue ''abc'') sample_login sample_auth_db = (db1, Inr resp) \<and>
     Refresh sample_auth_lib sample_manager no_faults no_env 1 (sample_issue ''xyz'') (lr_refresh_token resp) db1 = (db2, Inr resp2) \<and>
     lr_user resp2 = lr_user resp"
proof -
  obtain db1 resp where l: "Login sample_auth_lib sample_manager no_faults no_env 0 (sample_issue ''abc'') sample_login sample_auth_db = (db1, Inr resp)"
    "lr_user resp = auth_user_of sample_user"
    "token_row (HashRefreshToken (ab_sha256 sample_auth_lib) (raw_url_encode ''xyz'')) db1 = None" using sample_session by blast
  have "ie_random (sample_issue ''abc'') \<noteq> Inr ''''" "(1::int) < 0 + tm_refresh_ttl sample_manager"
    "GenerateAccessToken (ab_jwt sample_auth_lib) sample_manager (ie_access_now (sample_issue ''xyz'')) (av_id (lr_user resp))
       (av_email (lr_user resp)) = Inr (''a.b.c'', 900 * second)" "ie_random (sample_issue ''xyz'') = Inr ''xyz''" "''xyz'' \<noteq> ''''"
    using l(2) sample_auth_access by (simp_all add: sample_issue_def sample_manager_def sample_user_def auth_user_of_def)
  then show ?thesis using session_life_cycle [OF sample_auth_inv l(1) _ _ _ _ _ l(3)] l(1) by blast
qed

theorem register_then_login_witness:
  "\<exists>db1 u db3 resp. Register sample_auth_lib no_faults no_env 0 '''' \<lparr>rr_email = ''a@b.c'', rr_password = ''password'', rr_display_name = ''''\<rparr>
       \<lparr>au_users = \<lparr>rows = [], seq = 6\<rparr>, au_tokens = empty_table\<rparr> = (db1, Inr u) \<and>
     Login sample_auth_lib sample_manager no_faults no_env 0 (sample_issue ''abc'') sample_login db1 = (db3, Inr resp) \<and> lr_user resp = u"
proof -
  let ?db = "\<lparr>au_users = \<lparr>rows = [], seq = 6\<rparr>, au_tokens = empty_table\<rparr>"
  let ?req = "\<lparr>rr_email = ''a@b.c'', rr_password = ''password'', rr_display_name = ''''\<rparr>"
  let ?u = "\<lparr>us_id = 7, us_email = ''a@b.c'', us_password_hash = ''$password'', us_display_name = '''', us_created_at = 0, us_updated_at = 0\<rparr>"
  have inv: "auth_inv ?db" by (simp add: auth_inv_def keyed_table_def wf_table_def empty_table_def)
  have law: "\<And>s p h. ab_bcrypt_generate sample_auth_lib s p = Inr h \<Longrightarrow> ab_bcrypt_compare sample_auth_lib h p = None"
    by (auto simp: sample_auth_lib_def)
  have reg: "Register sample_auth_lib no_faults no_env 0 '''' ?req ?db =
      (?db\<lparr>au_users := \<lparr>rows = [?u], seq = 7\<rparr>\<rparr>, Inr (auth_user_of ?u))"
    by (simp add: Register_def sample_normalize validatePassword_def User_FindByEmail_def hashPassword_def
        Let_def find_row_def, simp add: sample_auth_lib_def User_Create_def new_user_def find_row_def insert_row_def)
  have acc: "GenerateAccessToken (ab_jwt sample_auth_lib) sample_manager (ie_access_now (sample_issue ''abc''))
      (av_id (auth_user_of ?u)) (av_email (auth_user_of ?u)) = Inr (''a.b.c'', 900 * second)"
    using sample_auth_access by (simp add: auth_user_of_def sample_issue_def)
  have rnd: "ie_random (sample_issue ''abc'') = Inr ''abc''" by (simp add: sample_issue_def)
  have none: "token_row x (?db\<lparr>au_users := \<lparr>rows = [?u], seq = 7\<rparr>\<rparr>) = None" for x
    by (simp add: token_row_def find_row_def empty_table_def)
  show ?thesis
    using register_then_login [OF inv law reg rtranclp.rtrancl_refl refl acc rnd none] reg by (force simp: sample_login_def)
qed

end
