(* ===== verification/Auth_Handlers.thy ===== *)
theory Auth_Handlers
  imports Auth_Session Http_Layer
begin

section \<open>The handlers of accounts and sessions\<close>

text \<open>
  \<open>internal/module/auth/handler.go\<close>: bodies and cookies in, answers and cookies out, and the access
  token check the server puts before the protected handlers. The validator's test of an email
  address (\<open>binding:"email"\<close>) is a parameter.
\<close>

text \<open>
  A request to these handlers: its body (none if the content length is 0), the value of the
  refresh cookie, and whether the connection is encrypted.
\<close>

record auth_request =
  aq_http :: http_request
  aq_body :: "payload option"
  aq_cookie :: "string option"
  aq_tls :: bool

record login_http_resp =
  lh_access_token :: string
  lh_refresh_token :: string
  lh_token_type :: string
  lh_expires_in :: int
  lh_user :: auth_user


subsection \<open>Bodies\<close>

definition set_register_field :: "string \<Rightarrow> json \<Rightarrow> register_request \<Rightarrow> register_request option" where
  "set_register_field k v r =
     (if k = ''email'' then map_option (\<lambda>s. r\<lparr>rr_email := s\<rparr>) (dec_str v (rr_email r))
      else if k = ''password'' then map_option (\<lambda>s. r\<lparr>rr_password := s\<rparr>) (dec_str v (rr_password r))
      else if k = ''display_name'' then map_option (\<lambda>s. r\<lparr>rr_display_name := s\<rparr>) (dec_str v (rr_display_name r))
      else Some r)"

definition bind_register :: "(string \<Rightarrow> bool) \<Rightarrow> payload option \<Rightarrow> register_request option" where
  "bind_register is_email body =
     (case body of
        None \<Rightarrow> None
      | Some p \<Rightarrow>
        (case unmarshal_struct set_register_field \<lparr>rr_email = '''', rr_password = '''', rr_display_name = ''''\<rparr> p of
           None \<Rightarrow> None
         | Some r \<Rightarrow>
           if rr_email r \<noteq> '''' \<and> is_email (rr_email r) \<and> rr_password r \<noteq> '''' \<and> 6 \<le> length (runes (rr_password r))
           then Some r else None))"

definition set_login_field :: "string \<Rightarrow> json \<Rightarrow> login_request \<Rightarrow> login_request option" where
  "set_login_field k v r =
     (if k = ''email'' then map_option (\<lambda>s. r\<lparr>lq_email := s\<rparr>) (dec_str v (lq_email r))
      else if k = ''password'' then map_option (\<lambda>s. r\<lparr>lq_password := s\<rparr>) (dec_str v (lq_password r))
      else Some r)"

definition bind_login :: "(string \<Rightarrow> bool) \<Rightarrow> payload option \<Rightarrow> login_request option" where
  "bind_login is_email body =
     (case body of
        None \<Rightarrow> None
      | Some p \<Rightarrow>
        (case unmarshal_struct set_login_field \<lparr>lq_email = '''', lq_password = ''''\<rparr> p of
           None \<Rightarrow> None
         | Some r \<Rightarrow> if lq_email r \<noteq> '''' \<and> is_email (lq_email r) \<and> lq_password r \<noteq> '''' then Some r else None))"

definition set_refresh_field :: "string \<Rightarrow> json \<Rightarrow> string \<Rightarrow> string option" where
  "set_refresh_field k v r = (if k = ''refresh_token'' then dec_str v r else Some r)"

definition bind_refresh :: "payload \<Rightarrow> string option" where
  "bind_refresh p =
     (case unmarshal_struct set_refresh_field '''' p of
        None \<Rightarrow> None
      | Some t \<Rightarrow> if t \<noteq> '''' then Some t else None)"

definition refreshTokenFromRequest :: "auth_request \<Rightarrow> string \<times> bool" where
  "refreshTokenFromRequest req =
     (case (case aq_body req of None \<Rightarrow> Some '''' | Some p \<Rightarrow> bind_refresh p) of
        None \<Rightarrow> ('''', False)
      | Some picked \<Rightarrow>
        (let token = trim_space picked;
             token' = (if token = '''' then (case aq_cookie req of None \<Rightarrow> token | Some c \<Rightarrow> trim_space c) else token)
         in (token', token' \<noteq> '''')))"


subsection \<open>Cookies\<close>

definition refreshCookieName :: string where "refreshCookieName = ''contentflow_refresh_token''"
definition refreshCookieMaxAge :: int where "refreshCookieMaxAge = 7 * 24 * 60 * 60"

text \<open>\<open>strings.EqualFold(s, "https")\<close>: the long s folds to s.\<close>

definition requestIsHTTPS :: "auth_request \<Rightarrow> bool" where
  "requestIsHTTPS req \<longleftrightarrow> aq_tls req \<or> fold_key (hr_header (aq_http req) ''X-Forwarded-Proto'') = ''https''"

text \<open>
  The text of a cookie as \<open>http.SetCookie\<close> writes it; values are refresh tokens, whose characters it
  leaves alone. A negative age is written as 0.
\<close>

definition cookie_text :: "string \<Rightarrow> int \<Rightarrow> bool \<Rightarrow> string" where
  "cookie_text value age secure =
     refreshCookieName @ ''='' @ value @ ''; Path=/api/v1/auth; Max-Age='' @ fmt_int (max 0 age) @ ''; HttpOnly'' @
     (if secure then ''; Secure'' else '''') @ ''; SameSite=Lax''"

definition setRefreshCookie :: "auth_request \<Rightarrow> string \<Rightarrow> (string \<times> string) list" where
  "setRefreshCookie req token = [(''Set-Cookie'', cookie_text token refreshCookieMaxAge (requestIsHTTPS req))]"

definition clearRefreshCookie :: "auth_request \<Rightarrow> (string \<times> string) list" where
  "clearRefreshCookie req = [(''Set-Cookie'', cookie_text '''' (-1) (requestIsHTTPS req))]"


subsection \<open>Handlers\<close>

definition handleAuthError :: "go_error \<Rightarrow> 'a http_response" where
  "handleAuthError e =
     (if errors_is e ErrEmailAlreadyExists then response_Error 409 ''email_already_exists'' ''email already exists''
      else if errors_is e ErrInvalidCredentials then response_Error 401 ''invalid_credentials'' ''invalid credentials''
      else if errors_is e ErrInvalidEmail then response_Error 400 ''invalid_email'' ''invalid email''
      else if errors_is e ErrWeakPassword then response_Error 400 ''weak_password'' ''weak password''
      else if errors_is e ErrInvalidRefreshToken then response_Error 401 ''invalid_refresh_token'' ''invalid refresh token''
      else if errors_is e ErrUserNotFound then response_Error 401 ''unauthorized'' ''user not found''
      else response_Error 500 ''internal_server_error'' ''internal server error'')"

definition toLoginHTTPResp :: "login_response \<Rightarrow> login_http_resp" where
  "toLoginHTTPResp r =
     \<lparr>lh_access_token = lr_access_token r, lh_refresh_token = '''', lh_token_type = lr_token_type r,
      lh_expires_in = lr_expires_in r, lh_user = lr_user r\<rparr>"

definition toRefreshTokenHTTPResp :: "refresh_response \<Rightarrow> login_http_resp" where
  "toRefreshTokenHTTPResp r =
     \<lparr>lh_access_token = lr_access_token r, lh_refresh_token = '''', lh_token_type = lr_token_type r,
      lh_expires_in = lr_expires_in r, lh_user = lr_user r\<rparr>"

definition AuthHandler_Register ::
  "auth_lib \<Rightarrow> (string \<Rightarrow> bool) \<Rightarrow> register_stmt faults \<Rightarrow> (register_stmt \<Rightarrow> auth_db \<Rightarrow> auth_db) \<Rightarrow> time \<Rightarrow> string \<Rightarrow>
   auth_request \<Rightarrow> auth_db \<Rightarrow> auth_db \<times> auth_user http_response" where
  "AuthHandler_Register lib is_email fault env now salt req db =
     (case bind_register is_email (aq_body req) of
        None \<Rightarrow> (db, response_Error 400 ''invalid_request'' ''invalid register request'')
      | Some r \<Rightarrow>
        (case Register lib fault env now salt r db of
           (db', Inl e) \<Rightarrow> (db', handleAuthError e)
         | (db', Inr u) \<Rightarrow> (db', response_OK u)))"

definition AuthHandler_Login ::
  "auth_lib \<Rightarrow> token_manager \<Rightarrow> (string \<Rightarrow> bool) \<Rightarrow> login_stmt faults \<Rightarrow> (login_stmt \<Rightarrow> auth_db \<Rightarrow> auth_db) \<Rightarrow> time \<Rightarrow> issue_env \<Rightarrow>
   auth_request \<Rightarrow> auth_db \<Rightarrow> auth_db \<times> login_http_resp http_response" where
  "AuthHandler_Login lib m is_email fault env now ie req db =
     (case bind_login is_email (aq_body req) of
        None \<Rightarrow> (db, response_Error 400 ''invalid_request'' ''invalid login request'')
      | Some r \<Rightarrow>
        (case Login lib m fault env now ie r db of
           (db', Inl e) \<Rightarrow> (db', handleAuthError e)
         | (db', Inr res) \<Rightarrow>
           add_headers (setRefreshCookie req (lr_refresh_token res)) (db', response_OK (toLoginHTTPResp res))))"

definition AuthHandler_Refresh ::
  "auth_lib \<Rightarrow> token_manager \<Rightarrow> refresh_stmt faults \<Rightarrow> (refresh_stmt \<Rightarrow> auth_db \<Rightarrow> auth_db) \<Rightarrow> time \<Rightarrow> issue_env \<Rightarrow>
   auth_request \<Rightarrow> auth_db \<Rightarrow> auth_db \<times> login_http_resp http_response" where
  "AuthHandler_Refresh lib m fault env now ie req db =
     (case refreshTokenFromRequest req of
        (token, False) \<Rightarrow> (db, response_Error 400 ''invalid_request'' ''invalid refresh request'')
      | (token, True) \<Rightarrow>
        (case Refresh lib m fault env now ie token db of
           (db', Inl e) \<Rightarrow> (db', handleAuthError e)
         | (db', Inr res) \<Rightarrow>
           add_headers (setRefreshCookie req (lr_refresh_token res)) (db', response_OK (toRefreshTokenHTTPResp res))))"

definition AuthHandler_Logout ::
  "auth_lib \<Rightarrow> go_error option \<Rightarrow> time \<Rightarrow> auth_request \<Rightarrow> auth_db \<Rightarrow> auth_db \<times> string http_response" where
  "AuthHandler_Logout lib fault now req db =
     (case refreshTokenFromRequest req of
        (token, False) \<Rightarrow> (db, response_Error 400 ''invalid_request'' ''invalid logout request'')
      | (token, True) \<Rightarrow>
        (case Logout lib fault now token db of
           (db', Inl e) \<Rightarrow> (db', handleAuthError e)
         | (db', Inr _) \<Rightarrow> add_headers (clearRefreshCookie req) (db', response_OK ''logged out'')))"

definition AuthHandler_Me :: "go_error option \<Rightarrow> (auth_db, auth_user) handler" where
  "AuthHandler_Me fault req db =
     (case requestctx_UserID req of
        (uid, False) \<Rightarrow> (db, response_Error 401 ''unauthorized'' ''missing user context'')
      | (uid, True) \<Rightarrow>
        (db, case Me fault uid db of Inl e \<Rightarrow> handleAuthError e | Inr u \<Rightarrow> response_OK u))"

text \<open>The check of the server: the user of a token that parses.\<close>

definition access_user :: "auth_lib \<Rightarrow> token_manager \<Rightarrow> time \<Rightarrow> string \<Rightarrow> int result" where
  "access_user lib m now token =
     (case ParseAccessToken (ab_jwt lib) m now token of Inl e \<Rightarrow> Inl e | Inr c \<Rightarrow> Inr (cl_user_id c))"

subsection \<open>Properties of the handlers\<close>

lemma bearer_fields:
  assumes "tok \<noteq> []" "list_all visible tok"
  shows "strings_fields (''Bearer '' @ tok) = [''Bearer'', tok]"
proof -
  have "strings_fields (''Bearer '' @ tok) = strings_fields_from 0 [] (''Bearer'' @ CHR '' '' # tok)"
    by (simp add: strings_fields_def)
  also have "\<dots> = ''Bearer'' # strings_fields_from 0 [] (tok @ [])"
    using fields_from_visible [of "''Bearer''" "[]" "CHR '' '' # tok"] fields_from_space [of "rev ''Bearer''" tok]
    by (simp add: visible_def del: strings_fields_from.simps)
  also have "strings_fields_from 0 [] (tok @ []) = [tok]"
    using assms by (subst fields_from_visible) simp_all
  finally show ?thesis .
qed

lemma cookie_text_inject: "cookie_text a age secure = cookie_text b age secure \<Longrightarrow> a = b"
  by (simp add: cookie_text_def)

lemma AuthHandler_Login_ok:
  assumes "AuthHandler_Login lib m is_email no_faults no_env now ie req db = (db1, resp)" "rs_body resp = JsonData d"
  obtains r res where "Login lib m no_faults no_env now ie r db = (db1, Inr res)" "d = toLoginHTTPResp res"
    "rs_headers resp = setRefreshCookie req (lr_refresh_token res)"
proof -
  obtain r where r: "bind_login is_email (aq_body req) = Some r"
    using assms by (auto simp: AuthHandler_Login_def response_Error_def split: option.splits)
  obtain db' x where x: "Login lib m no_faults no_env now ie r db = (db', x)" by fastforce
  obtain res where res: "x = Inr res"
    using assms r x by (cases x) (auto simp: AuthHandler_Login_def handleAuthError_def response_Error_def split: if_splits)
  show thesis
    using that [of r res] assms r x res by (auto simp: AuthHandler_Login_def add_headers_def response_OK_def)
qed

text \<open>
  C13. From a login to the account page: the access token of a login's answer, sent as a bearer
  token before its end, passes the check of every protected handler as the user who logged in, and
  the account page shows that user, whatever happened to the tables in between.
\<close>

theorem login_then_me:
  assumes "auth_inv db" "jwt_round_trip (ab_jwt lib)" "jwt_compact (ab_jwt lib)" "valid_utf8 (tm_issuer m)"
    and "AuthHandler_Login lib m is_email no_faults no_env now ie req db = (db1, resp)" "rs_body resp = JsonData d"
    and "valid_utf8 (av_email (lh_user d))" "auth_steps db1 db2"
    and "now2 < jw_numeric_date (ab_jwt lib) (time_add (ie_access_now ie) (tm_access_ttl m))"
    and "hr_header req2 ''Authorization'' = ''Bearer '' @ lh_access_token d"
  shows "AuthRequired (access_user lib m now2) (AuthHandler_Me None) req2 db2 = (db2, response_OK (lh_user d))"
proof -
  obtain r res where l: "Login lib m no_faults no_env now ie r db = (db1, Inr res)" and d: "d = toLoginHTTPResp res"
    using AuthHandler_Login_ok [OF assms(5,6)] by metis
  from l show ?thesis
  proof (rule Login_success)
    fix email expires bytes and u :: user
    let ?r = "new_token m now (us_id u) (HashRefreshToken (ab_sha256 lib) (lr_refresh_token res))"
    assume h: "find_row (\<lambda>r. us_email r = email) (au_users db) = Some u"
      "GenerateAccessToken (ab_jwt lib) m (ie_access_now ie) (us_id u) email = Inr (lr_access_token res, expires)"
      "Token_Create None (ie_created ie) ?r db = (db1, Inr (?r\<lparr>rt_id := seq (au_tokens db) + 1, rt_created_at := ie_created ie\<rparr>))"
      "res = \<lparr>lr_user = auth_user_of u, lr_access_token = lr_access_token res, lr_refresh_token = lr_refresh_token res,
         lr_token_type = ''Bearer'', lr_expires_in = seconds_until expires (ie_until ie)\<rparr>"
    have user: "lr_user res = auth_user_of u" by (subst h(4)) simp
    have u: "u \<in> set (rows (au_users db))" "us_email u = email" using find_row_SomeD [OF h(1)] by auto
    have pos: "0 < us_id u" using u(1) assms(1) by (auto simp: auth_inv_def keyed_table_def wf_table_def)
    have "auth_step db db1" using step_token [of db None "ie_created ie" ?r] h(3) by simp
    then have row: "find_row (\<lambda>x. us_id x = us_id u) (au_users db2) = Some u"
      using auth_steps_users [OF assms(8)] auth_step_users user_by_id [OF assms(1) h(1)] by blast
    have tok: "lr_access_token res \<noteq> ''''" "list_all visible (lr_access_token res)"
      using assms(3) h(2) unfolding jwt_compact_def by (auto simp: GenerateAccessToken_def split: sum.splits)
    have "expires = time_add (ie_access_now ie) (tm_access_ttl m)"
      using h(2) by (auto simp: GenerateAccessToken_def split: sum.splits)
    then have "ParseAccessToken (ab_jwt lib) m now2 (lr_access_token res) =
        Inr (access_claims (ab_jwt lib) m (ie_access_now ie) (us_id u) email)"
      using GenerateAccessToken_parses [OF assms(2) _ assms(4) h(2)] assms(7,9) d user u(2)
      by (simp add: toLoginHTTPResp_def auth_user_of_def)
    then have "access_user lib m now2 (lr_access_token res) = Inr (us_id u)" by (simp add: access_user_def access_claims_def)
    moreover have "strings_fields (hr_header req2 ''Authorization'') = [''Bearer'', lr_access_token res]"
      using bearer_fields [OF tok] assms(10) d by (simp add: toLoginHTTPResp_def)
    moreover have "equal_fold_bearer ''Bearer''" by (simp add: equal_fold_bearer_def lower_byte_def)
    ultimately have "AuthRequired (access_user lib m now2) (AuthHandler_Me None) req2 db2 =
        AuthHandler_Me None (requestctx_WithUserID (us_id u) req2) db2"
      using assms(10) pos by (simp add: AuthRequired_def Let_def)
    also have "\<dots> = (db2, response_OK (auth_user_of u))"
      using row by (simp add: AuthHandler_Me_def requestctx_UserID_def requestctx_WithUserID_def Me_def User_FindByID_def)
    finally show ?thesis using d user by (simp add: toLoginHTTPResp_def)
  qed
qed

text \<open>
  The refresh token travels in the cookie alone: the answer to a login sets one cookie and has
  no refresh token in its body, a request with that cookie and no body is answered with new tokens for the same
  user, again with the refresh token in the cookie alone.
\<close>

theorem refresh_cookie_works:
  assumes "auth_inv db" "AuthHandler_Login lib m is_email no_faults no_env now ie req db = (db1, resp)" "rs_body resp = JsonData d"
    and "rs_headers resp = setRefreshCookie req tok" "ie_random ie \<noteq> Inr ''''" "now1 < now + tm_refresh_ttl m"
    and "aq_body req2 = None" "aq_cookie req2 = Some tok"
    and "GenerateAccessToken (ab_jwt lib) m (ie_access_now ie1) (av_id (lh_user d)) (av_email (lh_user d)) = Inr (access, expires)"
    and "ie_random ie1 = Inr bytes" "bytes \<noteq> ''''" "token_row (HashRefreshToken (ab_sha256 lib) (raw_url_encode bytes)) db1 = None"
  shows "\<exists>db2 d2. AuthHandler_Refresh lib m no_faults no_env now1 ie1 req2 db1 =
      (db2, \<lparr>rs_status = 200, rs_headers = setRefreshCookie req2 (raw_url_encode bytes), rs_body = JsonData d2\<rparr>) \<and>
    lh_user d2 = lh_user d \<and> lh_refresh_token d = '''' \<and> lh_refresh_token d2 = ''''"
proof -
  obtain r res where l: "Login lib m no_faults no_env now ie r db = (db1, Inr res)" and d: "d = toLoginHTTPResp res"
    and tok: "tok = lr_refresh_token res"
    using AuthHandler_Login_ok [OF assms(2,3)] assms(4) cookie_text_inject unfolding setRefreshCookie_def
    by (metis list.inject prod.inject)
  obtain u where ses: "session lib db1 tok u (now + tm_refresh_ttl m)" and u: "lr_user res = auth_user_of u"
    using Login_session [OF assms(1) l assms(5)] tok by blast
  have acc: "GenerateAccessToken (ab_jwt lib) m (ie_access_now ie1) (us_id u) (us_email u) = Inr (access, expires)"
    using assms(9) u d by (simp add: auth_user_of_def toLoginHTTPResp_def)
  obtain db2 resp2 where ref: "Refresh lib m no_faults no_env now1 ie1 tok db1 = (db2, Inr resp2)"
      "lr_user resp2 = auth_user_of u" "lr_refresh_token resp2 = raw_url_encode bytes"
    using Refresh_session [OF ses assms(6) acc assms(10-12)] by blast
  have "refreshTokenFromRequest req2 = (tok, True)"
    using ses assms(7,8) by (simp add: refreshTokenFromRequest_def session_def)
  then have "AuthHandler_Refresh lib m no_faults no_env now1 ie1 req2 db1 =
      (db2, \<lparr>rs_status = 200, rs_headers = setRefreshCookie req2 (raw_url_encode bytes), rs_body = JsonData (toRefreshTokenHTTPResp resp2)\<rparr>)"
    using ref(1,3) by (simp add: AuthHandler_Refresh_def add_headers_def response_OK_def setRefreshCookie_def)
  then show ?thesis using ref(2) u d by (auto simp: toRefreshTokenHTTPResp_def toLoginHTTPResp_def)
qed

text \<open>A body without the token is refused before the cookie is looked at.\<close>

lemma empty_body_hides_cookie:
  "aq_body req = Some (JsonText (JObj [])) \<Longrightarrow>
     AuthHandler_Refresh lib m fault env now ie req db = (db, response_Error 400 ''invalid_request'' ''invalid refresh request'')"
  by (simp add: AuthHandler_Refresh_def refreshTokenFromRequest_def bind_refresh_def)

definition sample_auth_request :: auth_request where
  "sample_auth_request =
     \<lparr>aq_http = sample_http_request '''',
      aq_body = Some (JsonText (JObj [(''email'', JStr ''a@b.c''), (''password'', JStr ''password'')])),
      aq_cookie = None, aq_tls = True\<rparr>"

lemma sample_bind_login: "bind_login (\<lambda>_. True) (aq_body sample_auth_request) = Some sample_login"
proof -
  have "fold_key ''email'' = ''email''" "fold_key ''password'' = ''password''" by code_simp+
  then show ?thesis by (simp add: bind_login_def sample_auth_request_def set_login_field_def sample_login_def)
qed

lemma sample_handler_login:
  "\<exists>db d. AuthHandler_Login sample_auth_lib sample_manager (\<lambda>_. True) no_faults no_env 0 (sample_issue ''abc'') sample_auth_request sample_auth_db =
      (db, \<lparr>rs_status = 200, rs_headers = setRefreshCookie sample_auth_request (raw_url_encode ''abc''), rs_body = JsonData d\<rparr>) \<and>
    lh_user d = auth_user_of sample_user \<and>
    token_row (HashRefreshToken (ab_sha256 sample_auth_lib) (raw_url_encode ''xyz'')) db = None"
proof -
  obtain db resp where l: "Login sample_auth_lib sample_manager no_faults no_env 0 (sample_issue ''abc'') sample_login sample_auth_db = (db, Inr resp)"
    "lr_user resp = auth_user_of sample_user" "lr_refresh_token resp = raw_url_encode ''abc''"
    "token_row (HashRefreshToken (ab_sha256 sample_auth_lib) (raw_url_encode ''xyz'')) db = None"
    using sample_session by blast
  then show ?thesis
    by (simp add: AuthHandler_Login_def sample_bind_login add_headers_def response_OK_def setRefreshCookie_def toLoginHTTPResp_def)
qed

theorem refresh_cookie_works_witness:
  "\<exists>db1 resp db2 resp2. AuthHandler_Login sample_auth_lib sample_manager (\<lambda>_. True) no_faults no_env 0 (sample_issue ''abc'')
       sample_auth_request sample_auth_db = (db1, resp) \<and>
     AuthHandler_Refresh sample_auth_lib sample_manager no_faults no_env 1 (sample_issue ''xyz'')
       (sample_auth_request\<lparr>aq_body := None, aq_cookie := Some (raw_url_encode ''abc'')\<rparr>) db1 = (db2, resp2) \<and> rs_status resp2 = 200"
proof -
  let ?resp = "\<lambda>d. \<lparr>rs_status = 200, rs_headers = setRefreshCookie sample_auth_request (raw_url_encode ''abc''), rs_body = JsonData d\<rparr>"
  let ?req2 = "sample_auth_request\<lparr>aq_body := None, aq_cookie := Some (raw_url_encode ''abc'')\<rparr>"
  obtain db1 d where l: "AuthHandler_Login sample_auth_lib sample_manager (\<lambda>_. True) no_faults no_env 0 (sample_issue ''abc'')
       sample_auth_request sample_auth_db = (db1, ?resp d)" "lh_user d = auth_user_of sample_user"
    "token_row (HashRefreshToken (ab_sha256 sample_auth_lib) (raw_url_encode ''xyz'')) db1 = None"
    using sample_handler_login by blast
  have "rs_body (?resp d) = JsonData d" "rs_headers (?resp d) = setRefreshCookie sample_auth_request (raw_url_encode ''abc'')"
    "ie_random (sample_issue ''abc'') \<noteq> Inr ''''" "(1::int) < 0 + tm_refresh_ttl sample_manager"
    "aq_body ?req2 = None" "aq_cookie ?req2 = Some (raw_url_encode ''abc'')"
    "GenerateAccessToken (ab_jwt sample_auth_lib) sample_manager (ie_access_now (sample_issue ''xyz'')) (av_id (lh_user d))
       (av_email (lh_user d)) = Inr (''a.b.c'', 900 * second)" "ie_random (sample_issue ''xyz'') = Inr ''xyz''" "''xyz'' \<noteq> ''''"
    using l(2) sample_auth_access by (simp_all add: sample_issue_def sample_manager_def sample_user_def auth_user_of_def)
  note works = refresh_cookie_works [OF sample_auth_inv l(1) this l(3)]
  obtain db2 d2 where r:
      "AuthHandler_Refresh sample_auth_lib sample_manager no_faults no_env 1 (sample_issue ''xyz'') ?req2 db1 =
        (db2, \<lparr>rs_status = 200, rs_headers = setRefreshCookie ?req2 (raw_url_encode ''xyz''), rs_body = JsonData d2\<rparr>)"
    by (rule exE [OF works], erule exE, erule conjE) (rule that)
  show ?thesis by (rule exI [of _ db1], rule exI, rule exI, rule exI, rule conjI [OF l(1)], rule conjI [OF r]) simp
qed

theorem login_then_me_witness:
  "\<exists>db1 (d :: login_http_resp). AuthRequired (access_user sample_auth_lib sample_manager (60 * second)) (AuthHandler_Me None)
     ((sample_http_request '''')\<lparr>hr_header := (\<lambda>_. ''Bearer '' @ lh_access_token d)\<rparr>) db1 = (db1, response_OK (auth_user_of sample_user))"
proof -
  let ?resp = "\<lambda>d. \<lparr>rs_status = 200, rs_headers = setRefreshCookie sample_auth_request (raw_url_encode ''abc''), rs_body = JsonData d\<rparr>"
  obtain db1 d where l: "AuthHandler_Login sample_auth_lib sample_manager (\<lambda>_. True) no_faults no_env 0 (sample_issue ''abc'')
       sample_auth_request sample_auth_db = (db1, ?resp d)" "lh_user d = auth_user_of sample_user"
    using sample_handler_login by blast
  have laws: "jwt_round_trip (ab_jwt sample_auth_lib)" "jwt_compact (ab_jwt sample_auth_lib)" "valid_utf8 (tm_issuer sample_manager)"
    using sample_jwt_laws by (simp_all add: sample_auth_lib_def)
  have rest: "rs_body (?resp d) = JsonData d" "valid_utf8 (av_email (lh_user d))"
    "60 * second < jw_numeric_date (ab_jwt sample_auth_lib) (time_add (ie_access_now (sample_issue ''abc'')) (tm_access_ttl sample_manager))"
    using l(2) by (simp_all add: auth_user_of_def sample_user_def sample_auth_lib_def sample_jwt_def time_add_def sample_issue_def sample_manager_def)
  let ?req2 = "(sample_http_request '''')\<lparr>hr_header := (\<lambda>_. ''Bearer '' @ lh_access_token d)\<rparr>"
  have "hr_header ?req2 ''Authorization'' = ''Bearer '' @ lh_access_token d" by simp
  then show ?thesis
    using login_then_me [OF sample_auth_inv laws l(1) rest(1,2) rtranclp.rtrancl_refl rest(3)] l(2)
    by (intro exI [of _ db1] exI [of _ d]) (simp only:)
qed

end
