(* ===== verification/Scheduler.thy ===== *)
theory Scheduler
  imports Collector_Service "HOL-Library.Multiset"
begin

section \<open>The collection scheduler\<close>

text \<open>
  \<open>internal/module/scheduler/scheduler.go\<close>: at every tick the sources that are due are listed and
  handed over an unbuffered channel to a few goroutines, which have them collected. A round is a
  step relation on the state of its goroutines, so a theorem about it holds for every schedule;
  what a call of the collection service does is left to that service, here it answers something.
\<close>

record scheduler =
  sc_interval :: duration
  sc_batch_size :: int
  sc_concurrency :: int

definition defaultInterval :: duration where "defaultInterval = 15 * 60 * second"
definition defaultBatchSize :: int where "defaultBatchSize = 100"
definition defaultConcurrency :: int where "defaultConcurrency = 4"

type_synonym scheduler_option = "scheduler \<Rightarrow> scheduler"

definition WithInterval :: "duration \<Rightarrow> scheduler_option" where
  "WithInterval interval s = (if interval > 0 then s\<lparr>sc_interval := interval\<rparr> else s)"

definition WithBatchSize :: "int \<Rightarrow> scheduler_option" where
  "WithBatchSize batchSize s = (if batchSize > 0 then s\<lparr>sc_batch_size := batchSize\<rparr> else s)"

definition WithConcurrency :: "int \<Rightarrow> scheduler_option" where
  "WithConcurrency concurrency s = (if concurrency > 0 then s\<lparr>sc_concurrency := concurrency\<rparr> else s)"

definition NewScheduler :: "scheduler_option list \<Rightarrow> scheduler" where
  "NewScheduler opts =
     fold (\<lambda>opt s. opt s) opts
       \<lparr>sc_interval = defaultInterval, sc_batch_size = defaultBatchSize, sc_concurrency = defaultConcurrency\<rparr>"


subsection \<open>One source\<close>

definition collect_request :: "active_source \<Rightarrow> collect_source_request" where
  "collect_request src = \<lparr>req_user_id = as_user_id src, req_source_id = as_id src\<rparr>"

text \<open>The line \<open>collectOne\<close> writes to the log for an answer of the collection service.\<close>

datatype scheduler_line =
    CollectionFailedLine int int string string
  | CollectionFinishedLine int int string string int int int

definition collectOne :: "active_source \<Rightarrow> collect_answer \<Rightarrow> scheduler_line list" where
  "collectOne src answer =
     (case answer of
        (_, Some err) \<Rightarrow> [CollectionFailedLine (as_id src) (as_user_id src) (as_type src) (error_text err)]
      | (None, None) \<Rightarrow> []
      | (Some resp, None) \<Rightarrow>
          [CollectionFinishedLine (as_id src) (as_user_id src) (as_type src) (resp_status resp) (resp_fetched_count resp)
             (resp_inserted_count resp) (resp_duplicated_count resp)])"


subsection \<open>The goroutines of a round\<close>

text \<open>
  A worker waits at the channel, collects a source, or has left its loop. The round itself hands
  out sources, or has closed the channel and waits for the workers with the result it will return.
\<close>

datatype round_worker = Receiving | Collecting active_source | Exited

datatype round_feed = Feeding | Closed "go_error option"

record round_state =
  po_pending :: "active_source list"
  po_feed :: round_feed
  po_workers :: "round_worker list"
  po_started :: "active_source list"
  po_answers :: "(active_source \<times> collect_answer) list"
  po_canceled :: "go_error option"

definition round_workers :: "scheduler \<Rightarrow> active_source list \<Rightarrow> int" where
  "round_workers s sources =
     (let workers = (if sc_concurrency s \<le> 0 then 1 else sc_concurrency s) in
      if workers > int (length sources) then int (length sources) else workers)"

definition round_start :: "scheduler \<Rightarrow> active_source list \<Rightarrow> go_error option \<Rightarrow> round_state" where
  "round_start s sources canceled =
     \<lparr>po_pending = sources, po_feed = Feeding, po_workers = replicate (nat (round_workers s sources)) Receiving,
      po_started = [], po_answers = [], po_canceled = canceled\<rparr>"

text \<open>
  The steps: a source is handed to a worker that waits; the end of the context is seen (the
  \<open>select\<close> may choose either when both are ready); all sources are handed out; a collection
  answers; a worker finds the channel closed; the context ends.
\<close>

inductive round_step :: "round_state \<Rightarrow> round_state \<Rightarrow> bool" where
  hand: "po_feed p = Feeding \<Longrightarrow> po_pending p = src # rest \<Longrightarrow> i < length (po_workers p) \<Longrightarrow> po_workers p ! i = Receiving \<Longrightarrow>
    round_step p (p\<lparr>po_pending := rest, po_workers := (po_workers p)[i := Collecting src], po_started := po_started p @ [src]\<rparr>)"
| stop: "po_feed p = Feeding \<Longrightarrow> po_pending p \<noteq> [] \<Longrightarrow> po_canceled p = Some e \<Longrightarrow> round_step p (p\<lparr>po_feed := Closed (Some e)\<rparr>)"
| finish: "po_feed p = Feeding \<Longrightarrow> po_pending p = [] \<Longrightarrow> round_step p (p\<lparr>po_feed := Closed None\<rparr>)"
| answer: "i < length (po_workers p) \<Longrightarrow> po_workers p ! i = Collecting src \<Longrightarrow>
    round_step p (p\<lparr>po_workers := (po_workers p)[i := Receiving], po_answers := po_answers p @ [(src, a)]\<rparr>)"
| leave: "po_feed p = Closed r \<Longrightarrow> i < length (po_workers p) \<Longrightarrow> po_workers p ! i = Receiving \<Longrightarrow>
    round_step p (p\<lparr>po_workers := (po_workers p)[i := Exited]\<rparr>)"
| cancel: "po_canceled p = None \<Longrightarrow> round_step p (p\<lparr>po_canceled := Some e\<rparr>)"

inductive_cases round_stepE: "round_step p p'"

text \<open>The round returns when every worker has left.\<close>

definition round_returned :: "round_state \<Rightarrow> go_error option \<Rightarrow> bool" where
  "round_returned p r \<longleftrightarrow> po_feed p = Closed r \<and> list_all (\<lambda>w. w = Exited) (po_workers p)"

inductive RunOnce ::
  "scheduler \<Rightarrow> (int \<Rightarrow> active_source list result) \<Rightarrow> go_error option \<Rightarrow>
   active_source list \<Rightarrow> (active_source \<times> collect_answer) list \<Rightarrow> go_error option \<Rightarrow> bool" for s lister canceled where
  list_error: "lister (sc_batch_size s) = Inl e \<Longrightarrow>
    RunOnce s lister canceled [] [] (Some (Wrapf ''list active sources: '' e ''''))"
| no_sources: "lister (sc_batch_size s) = Inr [] \<Longrightarrow> RunOnce s lister canceled [] [] None"
| sources: "lister (sc_batch_size s) = Inr sources \<Longrightarrow> sources \<noteq> [] \<Longrightarrow>
    round_step\<^sup>*\<^sup>* (round_start s sources canceled) p \<Longrightarrow> round_returned p r \<Longrightarrow>
    RunOnce s lister canceled (po_started p) (po_answers p) r"

inductive_cases RunOnceE: "RunOnce s lister canceled started answers r"


subsection \<open>The loop\<close>

text \<open>
  What the loop of \<open>Run\<close> meets: a tick, with the result of the round it starts, or the end of the
  context. The result is the errors it logs and whether it has returned.
\<close>

datatype scheduler_event = Tick "go_error option" | ContextDone

fun Scheduler_Run :: "scheduler_event list \<Rightarrow> string list \<times> bool" where
  "Scheduler_Run [] = ([], False)"
| "Scheduler_Run (ContextDone # events) = ([], True)"
| "Scheduler_Run (Tick err # events) =
     (let (logged, stopped) = Scheduler_Run events in
      (case err of
         Some e \<Rightarrow> if \<not> errors_is e ContextCanceled then error_text e # logged else logged
       | None \<Rightarrow> logged, stopped))"


subsection \<open>The invariant of a round\<close>

definition busy_sources :: "round_worker list \<Rightarrow> active_source multiset" where
  "busy_sources ws = mset (List.map_filter (\<lambda>w. case w of Collecting src \<Rightarrow> Some src | _ \<Rightarrow> None) ws)"

lemma busy_sources_simps [simp]:
  "busy_sources [] = {#}"
  "busy_sources (Receiving # ws) = busy_sources ws"
  "busy_sources (Exited # ws) = busy_sources ws"
  "busy_sources (Collecting src # ws) = add_mset src (busy_sources ws)"
  by (simp_all add: busy_sources_def map_filter_simps)

lemma busy_sources_append [simp]: "busy_sources (xs @ ys) = busy_sources xs + busy_sources ys"
  by (simp add: busy_sources_def map_filter_def)

lemma busy_sources_replicate [simp]: "busy_sources (replicate n Receiving) = {#}"
  by (induction n) simp_all

lemma busy_sources_size: "size (busy_sources ws) \<le> length ws"
proof (induction ws)
  case (Cons w ws)
  then show ?case by (cases w) simp_all
qed simp

text \<open>A worker moves.\<close>

lemma worker_split:
  assumes "i < length ws" "ws ! i = w"
  obtains xs ys where "ws = xs @ w # ys" "ws[i := v] = xs @ v # ys"
  using assms id_take_nth_drop [of i ws] upd_conv_take_nth_drop [of i ws v] by metis

definition round_inv :: "nat \<Rightarrow> active_source list \<Rightarrow> round_state \<Rightarrow> bool" where
  "round_inv n sources p \<longleftrightarrow>
     length (po_workers p) = n \<and> po_started p @ po_pending p = sources \<and>
     mset (map fst (po_answers p)) + busy_sources (po_workers p) = mset (po_started p) \<and>
     (po_feed p = Feeding \<longrightarrow> Exited \<notin> set (po_workers p)) \<and>
     (po_feed p = Closed None \<longrightarrow> po_pending p = []) \<and>
     (\<forall>e. po_feed p = Closed (Some e) \<longrightarrow> po_canceled p = Some e \<and> po_pending p \<noteq> [])"

lemma round_inv_start:
  "round_inv (nat (round_workers s sources)) sources (round_start s sources canceled)"
  by (simp add: round_inv_def round_start_def)

lemma round_inv_step: "round_step p p' \<Longrightarrow> round_inv n sources p \<Longrightarrow> round_inv n sources p'"
proof (induction rule: round_step.induct)
  case (hand p src rest i)
  obtain xs ys where "po_workers p = xs @ Receiving # ys" "(po_workers p)[i := Collecting src] = xs @ Collecting src # ys"
    using worker_split [OF hand(3,4)] .
  then show ?case using hand by (auto simp: round_inv_def)
next
  case (answer i p src a)
  obtain xs ys where "po_workers p = xs @ Collecting src # ys" "(po_workers p)[i := Receiving] = xs @ Receiving # ys"
    using worker_split [OF answer(1,2)] .
  then show ?case using answer by (auto simp: round_inv_def)
next
  case (leave p r i)
  obtain xs ys where "po_workers p = xs @ Receiving # ys" "(po_workers p)[i := Exited] = xs @ Exited # ys"
    using worker_split [OF leave(2,3)] .
  then show ?case using leave by (auto simp: round_inv_def)
qed (auto simp: round_inv_def)

lemma round_inv_steps: "round_step\<^sup>*\<^sup>* p p' \<Longrightarrow> round_inv n sources p \<Longrightarrow> round_inv n sources p'"
  by (induction rule: rtranclp_induct) (auto intro: round_inv_step)

lemma round_reachable:
  "round_step\<^sup>*\<^sup>* (round_start s sources canceled) p \<Longrightarrow> round_inv (nat (round_workers s sources)) sources p"
  by (rule round_inv_steps [OF _ round_inv_start])

lemma busy_none: "list_all (\<lambda>w. w = Exited) ws \<Longrightarrow> busy_sources ws = {#}"
  by (induction ws) auto

lemma round_result:
  assumes "round_inv n sources p" "round_returned p r"
  shows "mset (map fst (po_answers p)) = mset (po_started p) \<and>
    (r = None \<longrightarrow> po_started p = sources) \<and>
    (\<forall>e. r = Some e \<longrightarrow> (\<exists>k < length sources. po_started p = take k sources))"
proof -
  have "mset (map fst (po_answers p)) = mset (po_started p)"
    using assms busy_none [of "po_workers p"] by (auto simp: round_inv_def round_returned_def)
  moreover have "\<exists>k < length sources. po_started p = take k sources" if "po_pending p \<noteq> []"
    using that assms(1) by (intro exI [of _ "length (po_started p)"]) (auto simp: round_inv_def)
  ultimately show ?thesis using assms by (cases r) (auto simp: round_inv_def round_returned_def)
qed

lemma round_workers_bounds:
  "sources \<noteq> [] \<Longrightarrow> 1 \<le> round_workers s sources \<and> round_workers s sources \<le> max 1 (sc_concurrency s) \<and>
    round_workers s sources \<le> int (length sources)"
  by (cases sources) (auto simp: round_workers_def Let_def)

subsection \<open>A round ends\<close>

fun worker_weight :: "round_worker \<Rightarrow> nat" where
  "worker_weight Exited = 0"
| "worker_weight Receiving = 1"
| "worker_weight (Collecting src) = 2"

definition round_size :: "round_state \<Rightarrow> nat" where
  "round_size p =
     2 * length (po_pending p) + sum_list (map worker_weight (po_workers p)) +
     (if po_feed p = Feeding then 1 else 0) + (if po_canceled p = None then 1 else 0)"

lemma round_step_decreases: "round_step p p' \<Longrightarrow> round_size p' < round_size p"
proof (induction rule: round_step.induct)
  case (hand p src rest i)
  obtain xs ys where "po_workers p = xs @ Receiving # ys" "(po_workers p)[i := Collecting src] = xs @ Collecting src # ys"
    using worker_split [OF hand(3,4)] .
  then show ?case using hand by (auto simp: round_size_def)
next
  case (answer i p src a)
  obtain xs ys where "po_workers p = xs @ Collecting src # ys" "(po_workers p)[i := Receiving] = xs @ Receiving # ys"
    using worker_split [OF answer(1,2)] .
  then show ?case using answer by (auto simp: round_size_def)
next
  case (leave p r i)
  obtain xs ys where "po_workers p = xs @ Receiving # ys" "(po_workers p)[i := Exited] = xs @ Exited # ys"
    using worker_split [OF leave(2,3)] .
  then show ?case using leave by (auto simp: round_size_def)
qed (auto simp: round_size_def)

lemma round_run_bounded: "(round_step ^^ k) p p' \<Longrightarrow> k + round_size p' \<le> round_size p"
proof (induction k arbitrary: p')
  case (Suc k)
  then obtain q where q: "(round_step ^^ k) p q" "round_step q p'" by auto
  show ?case using Suc.IH [OF q(1)] round_step_decreases [OF q(2)] by simp
qed simp

lemma round_size_start:
  assumes "sources \<noteq> []"
  shows "round_size (round_start s sources canceled) \<le> 3 * length sources + 2"
proof -
  have "nat (round_workers s sources) \<le> length sources" using round_workers_bounds [OF assms, of s] by linarith
  then show ?thesis by (simp add: round_size_def round_start_def sum_list_replicate)
qed

text \<open>Without waiting for the end of the context a round that has not returned can go on.\<close>

lemma round_progress:
  assumes "round_inv n sources p" "0 < n" "\<nexists>r. round_returned p r"
  obtains p' where "round_step p p'" "po_canceled p' = po_canceled p"
proof -
  have len: "0 < length (po_workers p)" using assms(1,2) by (simp add: round_inv_def)
  consider (collecting) i src where "i < length (po_workers p)" "po_workers p ! i = Collecting src"
    | (receiving) i where "i < length (po_workers p)" "po_workers p ! i = Receiving"
    | (exited) "list_all (\<lambda>w. w = Exited) (po_workers p)"
    by (auto simp: list_all_length) (metis round_worker.exhaust)
  then show thesis
  proof cases
    case collecting
    show thesis by (rule that [OF round_step.answer [OF collecting]]) simp
  next
    case receiving
    show thesis
    proof (cases "po_feed p")
      case Feeding
      show thesis
      proof (cases "po_pending p")
        case Nil
        show thesis by (rule that [OF round_step.finish [OF Feeding Nil]]) simp
      next
        case (Cons src rest)
        show thesis by (rule that [OF round_step.hand [OF Feeding Cons receiving]]) simp
      qed
    next
      case (Closed r)
      show thesis by (rule that [OF round_step.leave [OF Closed receiving]]) simp
    qed
  next
    case exited
    then have "po_feed p = Feeding" using assms(3) by (cases "po_feed p") (auto simp: round_returned_def)
    then have "Exited \<notin> set (po_workers p)" using assms(1) by (simp add: round_inv_def)
    then show thesis using exited len by (cases "po_workers p") auto
  qed
qed

lemma round_can_return:
  assumes "round_inv n sources p" "0 < n"
  shows "\<exists>p' r. round_step\<^sup>*\<^sup>* p p' \<and> round_returned p' r \<and> po_canceled p' = po_canceled p"
  using assms(1)
proof (induction "round_size p" arbitrary: p rule: less_induct)
  case less
  show ?case
  proof (cases "\<exists>r. round_returned p r")
    case True
    then show ?thesis by blast
  next
    case False
    then obtain p1 where p1: "round_step p p1" "po_canceled p1 = po_canceled p"
      using round_progress [OF less(2) assms(2)] by blast
    then obtain p' r where "round_step\<^sup>*\<^sup>* p1 p' \<and> round_returned p' r \<and> po_canceled p' = po_canceled p1"
      using less(1) [OF round_step_decreases [OF p1(1)] round_inv_step [OF p1(1) less(2)]] by blast
    then show ?thesis using p1 by (metis converse_rtranclp_into_rtranclp)
  qed
qed

text \<open>No schedule has more collections running at once than there are workers.\<close>

lemma round_concurrency:
  assumes "sources \<noteq> []" "round_step\<^sup>*\<^sup>* (round_start s sources canceled) p"
  shows "int (size (busy_sources (po_workers p))) \<le> max 1 (sc_concurrency s)"
proof -
  have "size (busy_sources (po_workers p)) \<le> nat (round_workers s sources)"
    using busy_sources_size [of "po_workers p"] round_reachable [OF assms(2)] by (simp add: round_inv_def)
  then show ?thesis using round_workers_bounds [OF assms(1), of s] by linarith
qed

text \<open>
  C18. A round with sources to collect ends: no schedule of its goroutines has more than three
  steps for each source and two more, and wherever a schedule stands it can go on until the round returns, if every collection
  answers. At no time are more sources collected at once than the configured number of workers.
\<close>

theorem scheduler_round_ends:
  assumes "sources \<noteq> []" "(round_step ^^ k) (round_start s sources canceled) p"
  shows "k \<le> 3 * length sources + 2 \<and>
    (\<exists>p' r. round_step\<^sup>*\<^sup>* p p' \<and> round_returned p' r \<and> po_canceled p' = po_canceled p) \<and>
    int (size (busy_sources (po_workers p))) \<le> max 1 (sc_concurrency s)"
proof -
  have run: "round_step\<^sup>*\<^sup>* (round_start s sources canceled) p" using assms(2) by (rule relpowp_imp_rtranclp)
  have inv: "round_inv (nat (round_workers s sources)) sources p" by (rule round_reachable [OF run])
  have "k \<le> 3 * length sources + 2" using round_run_bounded [OF assms(2)] round_size_start [OF assms(1), of s canceled] by linarith
  moreover have "0 < nat (round_workers s sources)" using round_workers_bounds [OF assms(1), of s] by simp
  moreover note round_concurrency [OF assms(1) run]
  ultimately show ?thesis using round_can_return [OF inv] by blast
qed

subsection \<open>A round over the table of sources\<close>

definition due_source :: "source \<Rightarrow> bool" where
  "due_source s \<longleftrightarrow> so_is_active s \<and> so_deleted_at s = None"

lemma listed_sources:
  assumes "Source_ListActiveForCollection None limit t = Inr sources" "0 < limit"
  shows "sources = map to_active_source (take (nat limit) (sort_key fetch_order (filter due_source (rows t))))"
  using assms by (simp add: Source_ListActiveForCollection_def Let_def select_rows_def due_source_def [abs_def])

lemma sorted_take_drop:
  assumes "sorted (map f xs)" "x \<in> set (take n xs)" "y \<in> set xs" "y \<notin> set (take n xs)"
  shows "f x \<le> f y"
proof -
  have "y \<in> set (drop n xs)" using assms(3,4) by (metis Un_iff append_take_drop_id set_append)
  moreover have "sorted (map f (take n xs) @ map f (drop n xs))" using assms(1) by (metis append_take_drop_id map_append)
  ultimately show ?thesis using assms(2) by (simp add: sorted_append)
qed

text \<open>The first sources of the listing.\<close>

abbreviation first_due :: "nat \<Rightarrow> source_table \<Rightarrow> source list" where
  "first_due n t \<equiv> take n (sort_key fetch_order (filter due_source (rows t)))"

lemma first_due_rows: "row \<in> set (first_due n t) \<Longrightarrow> row \<in> set (rows t) \<and> due_source row"
  by (auto dest: in_set_takeD)

lemma to_active_source_inject:
  "wf_table so_id t \<Longrightarrow> x \<in> set (rows t) \<Longrightarrow> y \<in> set (rows t) \<Longrightarrow> to_active_source x = to_active_source y \<longleftrightarrow> x = y"
  by (auto simp: to_active_source_def dest: wf_unique)

lemma first_due_distinct: "wf_table so_id t \<Longrightarrow> distinct (map (\<lambda>r. as_id (to_active_source r)) (first_due n t))"
proof -
  assume "wf_table so_id t"
  then have "distinct (map so_id (sort_key fetch_order (filter due_source (rows t))))"
    using wf_distinct by (fastforce simp: distinct_map inj_on_def)
  then have "distinct (map so_id (first_due n t))" by (metis distinct_take take_map)
  then show ?thesis by (simp add: to_active_source_def)
qed

lemma first_due_mem:
  assumes "wf_table so_id t" "x \<in> set (rows t)"
  shows "to_active_source x \<in> to_active_source ` set (first_due n t) \<longleftrightarrow> x \<in> set (first_due n t)"
  using to_active_source_inject [OF assms] first_due_rows by blast

lemma first_due_order:
  assumes "wf_table so_id t" "x \<in> set (rows t)" "y \<in> set (rows t)" "due_source y"
    and "to_active_source x \<in> to_active_source ` set (first_due n t)" "to_active_source y \<notin> to_active_source ` set (first_due n t)"
  shows "fetch_order x \<le> fetch_order y"
proof (rule sorted_take_drop [where f = fetch_order and n = n])
  show "sorted (map fetch_order (sort_key fetch_order (filter due_source (rows t))))" by simp
qed (use assms first_due_mem in auto)

lemma first_due_requests:
  assumes "src \<in> to_active_source ` set (first_due n t)"
  shows "\<exists>row \<in> set (rows t). due_source row \<and> src = to_active_source row \<and>
    collect_request src = \<lparr>req_user_id = so_user_id row, req_source_id = so_id row\<rparr>"
proof -
  obtain row where row: "row \<in> set (first_due n t)" "src = to_active_source row" using assms by blast
  show ?thesis using first_due_rows [OF row(1)] unfolding row(2)
    by (intro bexI [of _ row]) (simp_all only: collect_request_def to_active_source_def active_source.simps simp_thms)
qed

lemma RunOnce_started:
  assumes "RunOnce s (\<lambda>limit. Source_ListActiveForCollection None limit t) canceled started answers r" "0 < sc_batch_size s"
  obtains k where "started = map to_active_source (first_due (min k (nat (sc_batch_size s))) t)"
    "r = None \<Longrightarrow> started = map to_active_source (first_due (nat (sc_batch_size s)) t)" "mset (map fst answers) = mset started"
proof -
  let ?n = "nat (sc_batch_size s)"
  let ?sources = "map to_active_source (first_due ?n t)"
  have "\<exists>sources. Source_ListActiveForCollection None (sc_batch_size s) t = Inr sources"
    by (simp add: Source_ListActiveForCollection_def Let_def)
  then have listed: "Source_ListActiveForCollection None (sc_batch_size s) t = Inr ?sources"
    using listed_sources assms(2) by blast
  have run: "mset (map fst answers) = mset started \<and> (r = None \<longrightarrow> started = ?sources) \<and> (\<exists>k. started = take k ?sources)"
    using assms(1)
  proof (rule RunOnceE)
    fix sources p
    assume a: "Source_ListActiveForCollection None (sc_batch_size s) t = Inr sources" "started = po_started p"
      "answers = po_answers p" "round_step\<^sup>*\<^sup>* (round_start s sources canceled) p" "round_returned p r"
    have "sources = ?sources" using a(1) listed by simp
    then show ?thesis using round_result [OF round_reachable [OF a(4)] a(5)] a(2,3)
      by (cases r) (auto intro: exI [of _ "length ?sources"])
  qed (use listed in auto)
  then obtain k where "started = take k ?sources" by blast
  then have "started = map to_active_source (first_due (min k ?n) t)" by (simp add: take_map)
  then show thesis using that run by blast
qed

text \<open>
  C17. A round that returns without an error has had each source of its listing collected exactly
  once, each for its owner: the active sources, the least recently collected first, up to the batch
  size, and all of them if they fit. A round that the end of the context cuts off has collected a
  first part of that list, each source once, and reports it; it leaves no collection behind. At no
  moment of such a round are more collections running than the configured number of workers (one,
  if that number is not positive).
\<close>

theorem scheduler_round_collects:
  assumes "wf_table so_id t" "0 < sc_batch_size s"
    and "RunOnce s (\<lambda>limit. Source_ListActiveForCollection None limit t) canceled started answers r"
  shows "mset (map fst answers) = mset started \<and> distinct (map as_id started) \<and>
    int (length started) \<le> sc_batch_size s \<and>
    (\<forall>src \<in> set started. \<exists>row \<in> set (rows t). due_source row \<and> src = to_active_source row \<and>
        collect_request src = \<lparr>req_user_id = so_user_id row, req_source_id = so_id row\<rparr>) \<and>
    (\<forall>x \<in> set (rows t). \<forall>y \<in> set (rows t). due_source x \<longrightarrow> due_source y \<longrightarrow>
        to_active_source x \<in> set started \<longrightarrow> to_active_source y \<notin> set started \<longrightarrow> fetch_order x \<le> fetch_order y) \<and>
    (r = None \<longrightarrow> length started = min (nat (sc_batch_size s)) (length (filter due_source (rows t)))) \<and>
    (r = None \<longrightarrow> int (length (filter due_source (rows t))) \<le> sc_batch_size s \<longrightarrow>
        (\<forall>row \<in> set (rows t). due_source row \<longrightarrow> to_active_source row \<in> set started)) \<and>
    (\<forall>sources p. Source_ListActiveForCollection None (sc_batch_size s) t = Inr sources \<longrightarrow> sources \<noteq> [] \<longrightarrow>
        round_step\<^sup>*\<^sup>* (round_start s sources canceled) p \<longrightarrow>
        int (size (busy_sources (po_workers p))) \<le> max 1 (sc_concurrency s))"
proof -
  let ?n = "nat (sc_batch_size s)"
  obtain k where st: "started = map to_active_source (first_due (min k ?n) t)"
    "r = None \<Longrightarrow> started = map to_active_source (first_due ?n t)" "mset (map fst answers) = mset started"
    using RunOnce_started [OF assms(3,2)] by blast
  have set_st: "set started = to_active_source ` set (first_due (min k ?n) t)" by (simp add: st(1))
  have order: "fetch_order x \<le> fetch_order y" if "x \<in> set (rows t)" "y \<in> set (rows t)" "due_source y"
      "to_active_source x \<in> set started" "to_active_source y \<notin> set started" for x y
    using first_due_order [OF assms(1) that(1-3)] that(4,5) unfolding set_st by blast
  have all: "to_active_source row \<in> set started"
    if "r = None" "int (length (filter due_source (rows t))) \<le> sc_batch_size s" "row \<in> set (rows t)" "due_source row" for row
  proof -
    have "length (filter due_source (rows t)) \<le> ?n" using that(2) by linarith
    then show ?thesis using st(2) [OF that(1)] that(3,4) by simp
  qed
  show ?thesis
  proof (intro conjI ballI allI impI)
    show "distinct (map as_id started)" using first_due_distinct [OF assms(1)] by (simp add: st(1) comp_def)
    show "int (length started) \<le> sc_batch_size s" using assms(2) by (simp add: st(1))
    show "length started = min ?n (length (filter due_source (rows t)))" if "r = None"
      using st(2) [OF that] by simp
    show "int (size (busy_sources (po_workers p))) \<le> max 1 (sc_concurrency s)"
      if "sources \<noteq> []" "round_step\<^sup>*\<^sup>* (round_start s sources canceled) p" for sources p
      by (rule round_concurrency [OF that])
  qed (use st(3) order all first_due_requests set_st in auto)
qed

subsection \<open>Witnesses\<close>

definition sample_scheduler :: scheduler where
  "sample_scheduler = NewScheduler [WithConcurrency 0, WithBatchSize 2]"

definition due_row :: "int \<Rightarrow> time option \<Rightarrow> source" where
  "due_row i fetched =
     \<lparr>so_id = i, so_user_id = 7, so_name = ''feed'', so_type = TypeRSS, so_url = Some ''https://a.example/'',
      so_config_json = JsonText (JObj []), so_is_active = True, so_last_fetched_at = fetched, so_last_fetch_status = '''',
      so_last_fetch_message = '''', so_created_at = 1, so_updated_at = 1, so_deleted_at = None\<rparr>"

definition due_table :: source_table where
  "due_table = \<lparr>rows = [due_row 1 (Some 50), due_row 2 (Some 10), due_row 3 None], seq = 3\<rparr>"

lemma sample_scheduler_fields: "sc_batch_size sample_scheduler = 2" "sc_concurrency sample_scheduler = 4"
  by (simp_all add: sample_scheduler_def NewScheduler_def WithConcurrency_def WithBatchSize_def defaultConcurrency_def)

lemma due_table_wf: "wf_table so_id due_table"
  by (simp add: wf_table_def due_table_def due_row_def)

lemma due_table_listing:
  "Source_ListActiveForCollection None 2 due_table = Inr [to_active_source (due_row 3 None), to_active_source (due_row 2 (Some 10))]"
  by (simp add: Source_ListActiveForCollection_def select_rows_def due_table_def due_row_def fetch_order_def)

lemma due_table_due: "length (filter due_source (rows due_table)) = 3"
  by (simp add: due_table_def due_source_def due_row_def)

text \<open>Two workers: the second source is answered first, one collection fails.\<close>

lemma sample_round:
  fixes a b :: active_source
  defines "p0 \<equiv> round_start sample_scheduler [a, b] None"
  shows "\<exists>p. round_step\<^sup>*\<^sup>* p0 p \<and> round_returned p None \<and> po_started p = [a, b] \<and>
    po_answers p = [(b, None, None), (a, None, Some (Sentinel ErrCollectionInProgress))]"
proof -
  have p0: "p0 = \<lparr>po_pending = [a, b], po_feed = Feeding, po_workers = [Receiving, Receiving], po_started = [],
      po_answers = [], po_canceled = None\<rparr>"
    by (simp add: p0_def round_start_def round_workers_def sample_scheduler_fields numeral_2_eq_2)
  let ?e = "Some (Sentinel ErrCollectionInProgress)"
  have "round_step p0 (p0\<lparr>po_pending := [b], po_workers := [Collecting a, Receiving], po_started := [a]\<rparr>)" (is "round_step _ ?p1")
    using round_step.hand [of p0 a "[b]" 0] by (simp add: p0)
  moreover have "round_step ?p1 (?p1\<lparr>po_pending := [], po_workers := [Collecting a, Collecting b], po_started := [a, b]\<rparr>)" (is "round_step _ ?p2")
    using round_step.hand [of ?p1 b "[]" 1] by (simp add: p0)
  moreover have "round_step ?p2 (?p2\<lparr>po_workers := [Collecting a, Receiving], po_answers := [(b, None, None)]\<rparr>)" (is "round_step _ ?p3")
    using round_step.answer [of 1 ?p2 b "(None, None)"] by (simp add: p0)
  moreover have "round_step ?p3 (?p3\<lparr>po_feed := Closed None\<rparr>)" (is "round_step _ ?p4")
    using round_step.finish [of ?p3] by (simp add: p0)
  moreover have "round_step ?p4 (?p4\<lparr>po_workers := [Receiving, Receiving], po_answers := [(b, None, None), (a, None, ?e)]\<rparr>)" (is "round_step _ ?p5")
    using round_step.answer [of 0 ?p4 a "(None, ?e)"] by (simp add: p0)
  moreover have "round_step ?p5 (?p5\<lparr>po_workers := [Exited, Receiving]\<rparr>)" (is "round_step _ ?p6")
    using round_step.leave [of ?p5 None 0] by (simp add: p0)
  moreover have "round_step ?p6 (?p6\<lparr>po_workers := [Exited, Exited]\<rparr>)" (is "round_step _ ?p7")
    using round_step.leave [of ?p6 None 1] by (simp add: p0)
  ultimately have "round_step\<^sup>*\<^sup>* p0 ?p7" by (meson rtranclp.rtrancl_into_rtrancl rtranclp.rtrancl_refl)
  moreover have "round_returned ?p7 None" by (simp add: round_returned_def p0)
  ultimately show ?thesis by (intro exI [of _ ?p7] conjI) (simp_all add: p0)
qed

theorem scheduler_round_collects_witness:
  "\<exists>started answers. RunOnce sample_scheduler (\<lambda>limit. Source_ListActiveForCollection None limit due_table) None started answers None \<and>
     mset (map fst answers) = mset started \<and> length started = 2"
proof -
  let ?a = "to_active_source (due_row 3 None)" and ?b = "to_active_source (due_row 2 (Some 10))"
  obtain p where p: "round_step\<^sup>*\<^sup>* (round_start sample_scheduler [?a, ?b] None) p" "round_returned p None"
    using sample_round by blast
  have run: "RunOnce sample_scheduler (\<lambda>limit. Source_ListActiveForCollection None limit due_table) None (po_started p) (po_answers p) None"
    by (rule RunOnce.sources [OF _ _ p]) (simp_all add: sample_scheduler_fields due_table_listing)
  have "0 < sc_batch_size sample_scheduler" by (simp add: sample_scheduler_fields)
  from scheduler_round_collects [OF due_table_wf this run]
  have "mset (map fst (po_answers p)) = mset (po_started p) \<and> length (po_started p) = min (nat 2) 3"
    unfolding due_table_due sample_scheduler_fields by blast
  then show ?thesis using run by (intro exI [of _ "po_started p"] exI [of _ "po_answers p"]) simp
qed

theorem scheduler_round_ends_witness:
  "\<exists>p. (round_step ^^ 1) (round_start sample_scheduler [to_active_source (due_row 3 None)] None) p \<and>
     (\<exists>p' r. round_step\<^sup>*\<^sup>* p p' \<and> round_returned p' r \<and> po_canceled p' = po_canceled p)"
proof -
  let ?src = "to_active_source (due_row 3 None)"
  let ?p0 = "round_start sample_scheduler [?src] None"
  have "\<exists>p. (round_step ^^ 1) ?p0 p"
    using round_step.hand [of ?p0 ?src "[]" 0] by (auto simp: round_start_def round_workers_def sample_scheduler_fields)
  then show ?thesis using scheduler_round_ends [of "[?src]" 1 sample_scheduler None] by blast
qed

end
