(* ===== verification/Configuration.thy ===== *)
theory Configuration
  imports Netguard
begin

section \<open>Configuration\<close>

text \<open>
  \<open>internal/config/config.go\<close>: the structs, the defaults, the \<open>.env\<close> file, the older names of
  environment variables and the check of the signing secret. The library that merges file,
  environment and defaults (viper) is a parameter; the environment of the process is a map.
\<close>

record cors_config =
  kc_allowed_origins :: "string list"

record ai_config =
  ka_provider :: string
  ka_base_url :: string
  ka_api_key :: string
  ka_model :: string
  ka_embedding_model :: string
  ka_timeout :: duration
  ka_settings_encryption_key :: string

record observability_config =
  ko_metrics_enabled :: bool
  ko_tracing_enabled :: bool
  ko_service_name :: string
  ko_otlp_endpoint :: string

record cache_config =
  ke_source_list_ttl :: duration
  ke_article_list_ttl :: duration

record rate_limit_config =
  kl_login_limit :: int
  kl_login_window :: duration
  kl_collect_limit :: int
  kl_collect_window :: duration

record kafka_config =
  kk_enabled :: bool
  kk_brokers :: "string list"
  kk_group_id :: string
  kk_max_attempts :: int
  kk_retry_backoff :: duration
  kk_outbox_batch_size :: int
  kk_outbox_dispatch_interval :: duration

record auth_config =
  ku_access_token_ttl :: duration
  ku_refresh_token_ttl :: duration
  ku_jwt_secret :: string
  ku_jwt_issuer :: string

record app_config =
  kp_name :: string
  kp_env :: string
  kp_mode :: string

record server_config =
  ks_host :: string
  ks_port :: int
  ks_read_timeout :: duration
  ks_write_timeout :: duration
  ks_idle_timeout :: duration

record log_config =
  kg_level :: string
  kg_format :: string
  kg_add_source :: bool

record database_config =
  kd_host :: string
  kd_port :: int
  kd_username :: string
  kd_password :: string
  kd_dbname :: string
  kd_sslmode :: string
  kd_max_open_conns :: int
  kd_max_idle_conns :: int
  kd_conn_max_lifetime :: duration

record redis_config =
  kr_addr :: string
  kr_password :: string
  kr_db :: int
  kr_pool_size :: int

record config =
  cf_app :: app_config
  cf_server :: server_config
  cf_log :: log_config
  cf_database :: database_config
  cf_redis :: redis_config
  cf_kafka :: kafka_config
  cf_auth :: auth_config
  cf_rate_limit :: rate_limit_config
  cf_cache :: cache_config
  cf_cors :: cors_config
  cf_observability :: observability_config
  cf_ai :: ai_config


subsection \<open>The environment\<close>

type_synonym environment = "string \<rightharpoonup> string"

definition Getenv :: "environment \<Rightarrow> string \<Rightarrow> string" where
  "Getenv env k = (case env k of None \<Rightarrow> '''' | Some v \<Rightarrow> v)"

definition EnvConfigPath :: string where "EnvConfigPath = ''CONTENTFLOW_CONFIG''"

definition PathFromEnv :: "environment \<Rightarrow> string \<Rightarrow> string" where
  "PathFromEnv env defaultPath =
     (let path = trim_space (Getenv env EnvConfigPath) in if path = '''' then defaultPath else path)"

text \<open>\<open>os.Setenv\<close> refuses an empty key, one with an equals sign or a zero byte, and a value with one.\<close>

definition Setenv :: "string \<Rightarrow> string \<Rightarrow> environment \<Rightarrow> environment \<times> unit result" where
  "Setenv k v env =
     (if k = '''' \<or> CHR ''='' \<in> set k \<or> CHR 0x00 \<in> set k \<or> CHR 0x00 \<in> set v then
        (env, Inl (Plain ''setenv: invalid argument''))
      else (env(k \<mapsto> v), Inr ()))"


subsection \<open>The .env file\<close>

text \<open>
  \<open>bufio.Scanner\<close> over the lines of a text: a carriage return at the end of a line is dropped, and
  a line that does not fit its buffer of 65536 bytes ends the scan with an error.
\<close>

definition drop_cr :: "string \<Rightarrow> string" where
  "drop_cr s = (if s \<noteq> [] \<and> last s = CHR 0x0D then butlast s else s)"

function scan_lines :: "string \<Rightarrow> string list \<times> go_error option" where
  "scan_lines s =
     (let line = takeWhile (\<lambda>c. c \<noteq> CHR 0x0A) s in
      if s = [] then ([], None)
      else if 65536 \<le> length line then ([], Some (Plain ''bufio.Scanner: token too long''))
      else (case scan_lines (drop (Suc (length line)) s) of (lines, err) \<Rightarrow> (drop_cr line # lines, err)))"
  by pat_completeness auto
termination by (relation "measure length") auto

declare scan_lines.simps [simp del]

text \<open>What a line assigns.\<close>

definition dotenv_assignment :: "string \<Rightarrow> (string \<times> string) option" where
  "dotenv_assignment raw =
     (let line = trim_space raw in
      if line = '''' \<or> has_prefix line ''#'' then None
      else if CHR ''='' \<notin> set line then None
      else
        (let key = trim_space (takeWhile (\<lambda>c. c \<noteq> CHR ''='') line);
             val = trim_set [CHR 0x22, CHR 0x27] (trim_space (tl (dropWhile (\<lambda>c. c \<noteq> CHR ''='') line)))
         in if key = '''' then None else Some (key, val)))"

fun dotenv_lines :: "string list \<Rightarrow> environment \<Rightarrow> environment \<times> unit result" where
  "dotenv_lines [] env = (env, Inr ())"
| "dotenv_lines (line # lines) env =
     (case dotenv_assignment line of
        None \<Rightarrow> dotenv_lines lines env
      | Some (key, val) \<Rightarrow>
        if env key \<noteq> None then dotenv_lines lines env
        else (case Setenv key val env of
           (env', Inl e) \<Rightarrow> (env', Inl (Wrapf (''set .env key '' @ key @ '': '') e ''''))
         | (env', Inr _) \<Rightarrow> dotenv_lines lines env'))"

text \<open>What opening and reading the file gives: it is not there, an error, or its text, perhaps cut off by an error.\<close>

datatype dotenv_file = DotEnvMissing | DotEnvUnopened go_error | DotEnvText string "go_error option"

definition loadDotEnv :: "dotenv_file \<Rightarrow> environment \<Rightarrow> environment \<times> unit result" where
  "loadDotEnv file env =
     (case file of
        DotEnvMissing \<Rightarrow> (env, Inr ())
      | DotEnvUnopened e \<Rightarrow> (env, Inl (Wrapf ''open .env: '' e ''''))
      | DotEnvText content read_error \<Rightarrow>
        (case scan_lines content of
           (lines, scan_error) \<Rightarrow>
             (case dotenv_lines lines env of
                (env', Inl e) \<Rightarrow> (env', Inl e)
              | (env', Inr _) \<Rightarrow>
                (case (scan_error, read_error) of
                   (Some e, _) \<Rightarrow> (env', Inl (Wrapf ''read .env: '' e ''''))
                 | (None, Some e) \<Rightarrow> (env', Inl (Wrapf ''read .env: '' e ''''))
                 | (None, None) \<Rightarrow> (env', Inr ())))))"


subsection \<open>Defaults and loading\<close>

datatype config_value = CvString string | CvInt int | CvBool bool | CvList "string list"

definition config_defaults :: "(string \<times> config_value) list" where
  "config_defaults =
     [(''app.name'', CvString ''contentflow''), (''app.env'', CvString ''dev''), (''app.mode'', CvString ''all''),
      (''server.host'', CvString ''localhost''), (''server.port'', CvInt 8080),
      (''server.read_timeout'', CvString ''10s''), (''server.write_timeout'', CvString ''10s''),
      (''server.idle_timeout'', CvString ''60s''),
      (''log.level'', CvString ''info''), (''log.format'', CvString ''json''), (''log.add_source'', CvBool False),
      (''database.host'', CvString ''localhost''), (''database.port'', CvInt 5432),
      (''database.username'', CvString ''contentflow''), (''database.password'', CvString ''contentflow''),
      (''database.dbname'', CvString ''contentflow''), (''database.sslmode'', CvString ''disable''),
      (''database.max_open_conns'', CvInt 25), (''database.max_idle_conns'', CvInt 5),
      (''database.conn_max_lifetime'', CvString ''30m''),
      (''redis.addr'', CvString ''localhost:6379''), (''redis.password'', CvString ''''), (''redis.db'', CvInt 0),
      (''redis.pool_size'', CvInt 10),
      (''kafka.enabled'', CvBool False), (''kafka.brokers'', CvList [''localhost:9092'']),
      (''kafka.group_id'', CvString ''contentflow-collection-worker''), (''kafka.max_attempts'', CvInt 3),
      (''kafka.retry_backoff'', CvString ''1m''), (''kafka.outbox_batch_size'', CvInt 100),
      (''kafka.outbox_dispatch_interval'', CvString ''1s''),
      (''cache.source_list_ttl'', CvString ''30s''), (''cache.article_list_ttl'', CvString ''30s''),
      (''rate_limit.login_limit'', CvInt 5), (''rate_limit.login_window'', CvString ''1m''),
      (''rate_limit.collect_limit'', CvInt 10), (''rate_limit.collect_window'', CvString ''1m''),
      (''cors.allowed_origins'', CvList [''http://localhost:3000'', ''http://localhost:3001'',
         ''http://127.0.0.1:3000'', ''http://127.0.0.1:3001'']),
      (''observability.metrics_enabled'', CvBool True), (''observability.tracing_enabled'', CvBool False),
      (''observability.service_name'', CvString ''contentflow''),
      (''observability.otlp_endpoint'', CvString ''localhost:4317''),
      (''auth.access_token_ttl'', CvString ''15m''), (''auth.refresh_token_ttl'', CvString ''168h''),
      (''auth.jwt_secret'', CvString ''default secret''), (''auth.jwt_issuer'', CvString ''contentflow''),
      (''ai.provider'', CvString ''local''), (''ai.base_url'', CvString ''https://api.openai.com/v1''),
      (''ai.api_key'', CvString ''''), (''ai.model'', CvString ''''),
      (''ai.embedding_model'', CvString ''text-embedding-3-small''), (''ai.timeout'', CvString ''30s''),
      (''ai.settings_encryption_key'', CvString '''')]"

text \<open>
  The library: a new instance for a YAML file, the variables with the prefix \<open>CONTENTFLOW\<close> and
  underscores for dots; setting defaults and values; reading a value, the file, and the structs.
\<close>

record 'v viper_lib =
  vp_new :: "string \<Rightarrow> environment \<Rightarrow> 'v"
  vp_set_default :: "string \<Rightarrow> config_value \<Rightarrow> 'v \<Rightarrow> 'v"
  vp_set :: "string \<Rightarrow> string \<Rightarrow> 'v \<Rightarrow> 'v"
  vp_get_string :: "'v \<Rightarrow> string \<Rightarrow> string"
  vp_read_in_config :: "'v \<Rightarrow> 'v result"
  vp_unmarshal :: "'v \<Rightarrow> config result"

definition setDefaults :: "'v viper_lib \<Rightarrow> 'v \<Rightarrow> 'v" where
  "setDefaults lib v = fold (\<lambda>(k, x). vp_set_default lib k x) config_defaults v"

definition applyLegacyAIEnv :: "'v viper_lib \<Rightarrow> environment \<Rightarrow> 'v \<Rightarrow> 'v" where
  "applyLegacyAIEnv lib env v =
     (let base_url = trim_space (Getenv env ''base_url'');
          v1 = (if base_url \<noteq> '''' then vp_set lib ''ai.base_url'' base_url v else v);
          api_key = trim_space (Getenv env ''API_KEY'');
          v2 = (if api_key \<noteq> '''' then
                  (let w = vp_set lib ''ai.api_key'' api_key v1 in
                   if trim_space (vp_get_string lib w ''ai.provider'') = ''local''
                   then vp_set lib ''ai.provider'' ''openai'' w else w)
                else v1);
          model = trim_space (Getenv env ''model'')
      in if model \<noteq> '''' then vp_set lib ''ai.model'' model v2 else v2)"

definition isWeakJWTSecret :: "(string \<Rightarrow> string) \<Rightarrow> string \<Rightarrow> bool" where
  "isWeakJWTSecret uni secret \<longleftrightarrow>
     to_lower uni (trim_space secret) \<in>
       {'''', ''default secret'', ''replace-me'', ''change-me'', ''change-me-before-production'',
        ''dev-only-insecure-jwt-secret-change-me''}"

definition validateSecurity :: "(string \<Rightarrow> string) \<Rightarrow> config \<Rightarrow> unit result" where
  "validateSecurity uni cfg =
     (let env = to_lower uni (trim_space (kp_env (cf_app cfg))) in
      if env = '''' \<or> env = ''dev'' \<or> env = ''development'' \<or> env = ''test'' then Inr ()
      else
        (let secret = trim_space (ku_jwt_secret (cf_auth cfg)) in
         if length secret < 32 \<or> isWeakJWTSecret uni secret
         then Inl (Plain ''weak jwt secret is not allowed outside development'') else Inr ()))"

definition LoadConfig ::
  "'v viper_lib \<Rightarrow> (string \<Rightarrow> string) \<Rightarrow> dotenv_file \<Rightarrow> string \<Rightarrow> environment \<Rightarrow> environment \<times> config result" where
  "LoadConfig lib uni file path env =
     (case loadDotEnv file env of
        (env', Inl e) \<Rightarrow> (env', Inl e)
      | (env', Inr _) \<Rightarrow>
        (env',
         case vp_read_in_config lib (applyLegacyAIEnv lib env' (setDefaults lib (vp_new lib path env'))) of
           Inl e \<Rightarrow> Inl (Wrapf ''read config file: '' e '''')
         | Inr v \<Rightarrow>
           (case vp_unmarshal lib v of
              Inl e \<Rightarrow> Inl (Wrapf ''unmarshal config: '' e '''')
            | Inr cfg \<Rightarrow> (case validateSecurity uni cfg of Inl e \<Rightarrow> Inl e | Inr _ \<Rightarrow> Inr cfg))))"

subsection \<open>Properties\<close>

lemma set_trim_space: "set (trim_space s) \<subseteq> set s"
proof -
  have "set (strip_prefixes ps t) \<subseteq> set t" for ps t
    using suffix_strip_prefixes [of ps t] set_mono_suffix by blast
  then show ?thesis unfolding trim_space_def Let_def by (metis set_rev subset_trans)
qed

lemma dotenv_assignment_key: "dotenv_assignment line = Some (k, v) \<Longrightarrow> k \<noteq> '''' \<and> CHR ''='' \<notin> set k"
  using set_trim_space set_takeWhileD by (fastforce simp: dotenv_assignment_def Let_def split: if_splits)

lemma dotenv_lines_keeps: "env k = Some v \<Longrightarrow> fst (dotenv_lines lines env) k = Some v"
proof (induction lines arbitrary: env)
  case (Cons line lines)
  show ?case using Cons.prems
    by (auto simp: Setenv_def intro!: Cons.IH split: option.splits prod.splits sum.splits if_splits)
qed simp

lemma dotenv_lines_result:
  assumes "\<forall>line \<in> set lines. \<forall>k v. dotenv_assignment line = Some (k, v) \<longrightarrow> CHR 0x00 \<notin> set k \<and> CHR 0x00 \<notin> set v"
  shows "dotenv_lines lines env = (\<lambda>k. case env k of Some v \<Rightarrow> Some v | None \<Rightarrow> map_of (List.map_filter dotenv_assignment lines) k, Inr ())"
  using assms
proof (induction lines arbitrary: env)
  case Nil
  then show ?case by (auto simp: map_filter_simps split: option.split)
next
  case (Cons line lines)
  show ?case
  proof (cases "dotenv_assignment line")
    case None
    then show ?thesis using Cons by (auto simp: map_filter_simps fun_eq_iff split: option.split)
  next
    case (Some kv)
    obtain k v where kv: "kv = (k, v)" by fastforce
    have set: "Setenv k v env = (env(k \<mapsto> v), Inr ())"
      using Cons.prems dotenv_assignment_key Some kv by (simp add: Setenv_def)
    show ?thesis
      using Cons Some kv set by (auto simp: map_filter_simps fun_eq_iff split: option.split)
  qed
qed

lemma loadDotEnv_keeps: "env k = Some v \<Longrightarrow> fst (loadDotEnv fl env) k = Some v"
  using dotenv_lines_keeps [of env k v]
  by (auto simp: loadDotEnv_def split: dotenv_file.split prod.split sum.split option.split) (metis fst_conv)+

text \<open>
  C20. Loading \<open>.env\<close> never changes a variable that is set, whatever the file holds and however
  reading it ends. A file whose lines fit the buffer and whose assignments hold no zero bytes is loaded; each
  other variable then has the value of its first assignment in the file, and loading it again changes
  nothing.
\<close>

theorem dotenv_first_assignment_wins:
  "(\<forall>file env k v. env k = Some v \<longrightarrow> fst (loadDotEnv file env) k = Some v) \<and>
   (\<forall>content env lines. scan_lines content = (lines, None) \<longrightarrow>
      (\<forall>line \<in> set lines. \<forall>k v. dotenv_assignment line = Some (k, v) \<longrightarrow> CHR 0x00 \<notin> set k \<and> CHR 0x00 \<notin> set v) \<longrightarrow>
      (\<exists>env'. loadDotEnv (DotEnvText content None) env = (env', Inr ()) \<and>
         (\<forall>k. env' k = (case env k of Some v \<Rightarrow> Some v | None \<Rightarrow> map_of (List.map_filter dotenv_assignment lines) k)) \<and>
         loadDotEnv (DotEnvText content None) env' = (env', Inr ())))"
proof (intro conjI allI impI)
  fix fl k v and env :: environment
  assume "env k = Some v"
  then show "fst (loadDotEnv fl env) k = Some v"
    by (rule loadDotEnv_keeps)
next
  fix content lines and env :: environment
  assume a: "scan_lines content = (lines, None)"
    "\<forall>line \<in> set lines. \<forall>k v. dotenv_assignment line = Some (k, v) \<longrightarrow> CHR 0x00 \<notin> set k \<and> CHR 0x00 \<notin> set v"
  let ?f = "\<lambda>env k. case env k of Some v \<Rightarrow> Some v | None \<Rightarrow> map_of (List.map_filter dotenv_assignment lines) k"
  have load: "loadDotEnv (DotEnvText content None) env = (?f env, Inr ())" for env
    using dotenv_lines_result [OF a(2), of env] a(1) by (simp add: loadDotEnv_def)
  have again: "?f (?f env) = ?f env" by (auto simp: fun_eq_iff split: option.split)
  show "\<exists>env'. loadDotEnv (DotEnvText content None) env = (env', Inr ()) \<and>
      (\<forall>k. env' k = ?f env k) \<and> loadDotEnv (DotEnvText content None) env' = (env', Inr ())"
    using load [of env] load [of "?f env"] unfolding again by (intro exI [of _ "?f env"] conjI allI refl)
qed

text \<open>
  Outside development the program starts only with a signing secret of at least 32 bytes that is
  not one of the known placeholders: whatever the file and the environment hold, a loaded
  configuration has one, or its environment is empty, dev, development or test (in any case and with any spaces).
\<close>

theorem loaded_secret_is_strong:
  assumes "LoadConfig lib uni fl path env = (env', Inr cfg)"
    and "to_lower uni (trim_space (kp_env (cf_app cfg))) \<notin> {'''', ''dev'', ''development'', ''test''}"
  shows "32 \<le> length (trim_space (ku_jwt_secret (cf_auth cfg))) \<and> \<not> isWeakJWTSecret uni (ku_jwt_secret (cf_auth cfg)) \<and>
    (\<exists>v. vp_unmarshal lib v = Inr cfg) \<and> (\<forall>k v. env k = Some v \<longrightarrow> env' k = Some v)"
proof -
  have load: "loadDotEnv fl env = (env', Inr ())" "\<exists>v. vp_unmarshal lib v = Inr cfg" "validateSecurity uni cfg = Inr ()"
    using assms(1) by (auto simp: LoadConfig_def split: prod.splits sum.splits)
  have "env' k = Some v" if "env k = Some v" for k v
    using loadDotEnv_keeps [of env k v fl] that load(1) by simp
  then show ?thesis
    using load(2,3) assms(2) by (simp add: validateSecurity_def Let_def isWeakJWTSecret_def split: if_splits)
qed

text \<open>
  What viper documents of values that are set: they come before the file, the environment and the
  defaults, whether the file is read before or after. \<open>ov\<close> gives the values set in an instance.
\<close>

definition viper_law :: "'v viper_lib \<Rightarrow> ('v \<Rightarrow> string \<rightharpoonup> string) \<Rightarrow> bool" where
  "viper_law lib ov \<longleftrightarrow>
     (\<forall>k s v. ov (vp_set lib k s v) = (ov v)(k \<mapsto> s)) \<and>
     (\<forall>k k' s v. k \<noteq> k' \<longrightarrow> vp_get_string lib (vp_set lib k' s v) k = vp_get_string lib v k) \<and>
     (\<forall>v v'. vp_read_in_config lib v = Inr v' \<longrightarrow> ov v' = ov v) \<and>
     (\<forall>v cfg s. vp_unmarshal lib v = Inr cfg \<longrightarrow> ov v ''ai.provider'' = Some s \<longrightarrow> ka_provider (cf_ai cfg) = s)"

text \<open>
  The older variables are applied before the file is read: with \<open>API_KEY\<close> set, and a provider
  that is \<open>local\<close> by the environment and the defaults, the provider is \<open>openai\<close> whatever the file says.
\<close>

theorem legacy_api_key_overrides_file_provider:
  assumes "viper_law lib ov" "LoadConfig lib uni fl path env = (env', Inr cfg)" "trim_space (Getenv env' ''API_KEY'') \<noteq> ''''"
    and "trim_space (vp_get_string lib (setDefaults lib (vp_new lib path env')) ''ai.provider'') = ''local''"
  shows "ka_provider (cf_ai cfg) = ''openai''"
proof -
  let ?v = "setDefaults lib (vp_new lib path env')"
  obtain v where v: "vp_read_in_config lib (applyLegacyAIEnv lib env' ?v) = Inr v" "vp_unmarshal lib v = Inr cfg"
    using assms(2) by (auto simp: LoadConfig_def split: prod.splits sum.splits)
  have "ov (applyLegacyAIEnv lib env' ?v) ''ai.provider'' = Some ''openai''"
    using assms(1,3,4) by (simp add: viper_law_def applyLegacyAIEnv_def Let_def)
  then show ?thesis using assms(1) v by (simp add: viper_law_def)
qed


subsection \<open>Witnesses\<close>

text \<open>A small stand-in for the library: the values that are set, over a file that names a provider, an environment name and a secret.\<close>

definition sample_config :: "string \<Rightarrow> string \<Rightarrow> string \<Rightarrow> config" where
  "sample_config env_name secret provider =
     \<lparr>cf_app = \<lparr>kp_name = ''contentflow'', kp_env = env_name, kp_mode = ''all''\<rparr>,
      cf_server = \<lparr>ks_host = ''localhost'', ks_port = 8080, ks_read_timeout = 10 * second, ks_write_timeout = 10 * second,
        ks_idle_timeout = 60 * second\<rparr>,
      cf_log = \<lparr>kg_level = ''info'', kg_format = ''json'', kg_add_source = False\<rparr>,
      cf_database = \<lparr>kd_host = ''localhost'', kd_port = 5432, kd_username = ''contentflow'', kd_password = ''contentflow'',
        kd_dbname = ''contentflow'', kd_sslmode = ''disable'', kd_max_open_conns = 25, kd_max_idle_conns = 5,
        kd_conn_max_lifetime = 1800 * second\<rparr>,
      cf_redis = \<lparr>kr_addr = ''localhost:6379'', kr_password = '''', kr_db = 0, kr_pool_size = 10\<rparr>,
      cf_kafka = \<lparr>kk_enabled = False, kk_brokers = [''localhost:9092''], kk_group_id = ''contentflow-collection-worker'',
        kk_max_attempts = 3, kk_retry_backoff = 60 * second, kk_outbox_batch_size = 100, kk_outbox_dispatch_interval = second\<rparr>,
      cf_auth = \<lparr>ku_access_token_ttl = 900 * second, ku_refresh_token_ttl = 604800 * second, ku_jwt_secret = secret,
        ku_jwt_issuer = ''contentflow''\<rparr>,
      cf_rate_limit = \<lparr>kl_login_limit = 5, kl_login_window = 60 * second, kl_collect_limit = 10, kl_collect_window = 60 * second\<rparr>,
      cf_cache = \<lparr>ke_source_list_ttl = 30 * second, ke_article_list_ttl = 30 * second\<rparr>,
      cf_cors = \<lparr>kc_allowed_origins = []\<rparr>,
      cf_observability = \<lparr>ko_metrics_enabled = True, ko_tracing_enabled = False, ko_service_name = ''contentflow'',
        ko_otlp_endpoint = ''localhost:4317''\<rparr>,
      cf_ai = \<lparr>ka_provider = provider, ka_base_url = '''', ka_api_key = '''', ka_model = '''', ka_embedding_model = '''',
        ka_timeout = 30 * second, ka_settings_encryption_key = ''''\<rparr>\<rparr>"

definition sample_viper :: "string \<Rightarrow> string \<Rightarrow> string \<Rightarrow> (string \<rightharpoonup> string) viper_lib" where
  "sample_viper env_name secret provider =
     \<lparr>vp_new = (\<lambda>_ _. Map.empty), vp_set_default = (\<lambda>_ _ v. v), vp_set = (\<lambda>k s v. v(k \<mapsto> s)),
      vp_get_string = (\<lambda>v k. case v k of Some s \<Rightarrow> s | None \<Rightarrow> if k = ''ai.provider'' then ''local'' else ''''),
      vp_read_in_config = Inr,
      vp_unmarshal = (\<lambda>v. Inr (sample_config env_name secret (case v ''ai.provider'' of Some s \<Rightarrow> s | None \<Rightarrow> provider)))\<rparr>"

lemma sample_viper_law: "viper_law (sample_viper env_name secret provider) id"
  by (simp add: viper_law_def sample_viper_def) (simp add: sample_config_def)

lemma sample_setDefaults: "setDefaults (sample_viper e s p) v = v"
  by (simp add: setDefaults_def config_defaults_def sample_viper_def)

theorem legacy_api_key_overrides_file_provider_witness:
  "\<exists>cfg. snd (LoadConfig (sample_viper ''dev'' '''' ''extractive'') id DotEnvMissing ''c.yaml'' [''API_KEY'' \<mapsto> ''k'']) = Inr cfg \<and>
     ka_provider (cf_ai cfg) = ''openai''"
proof -
  let ?lib = "sample_viper ''dev'' '''' ''extractive''" and ?env = "[''API_KEY'' \<mapsto> ''k''] :: environment"
  have t: "trim_space ''k'' = ''k''" "trim_space ''dev'' = ''dev''" "trim_space ''local'' = ''local''"
    by (rule trim_all_visible; simp add: visible_def)+
  have low: "to_lower id ''dev'' = ''dev''" by (simp add: to_lower_def ascii_only_def lower_byte_def)
  have "\<exists>cfg. LoadConfig ?lib id DotEnvMissing ''c.yaml'' ?env = (?env, Inr cfg)"
    using t low by (simp add: LoadConfig_def loadDotEnv_def sample_viper_def validateSecurity_def) (simp add: sample_config_def)
  then obtain cfg where cfg: "LoadConfig ?lib id DotEnvMissing ''c.yaml'' ?env = (?env, Inr cfg)" by blast
  have "trim_space (Getenv ?env ''API_KEY'') \<noteq> ''''" using t by (simp add: Getenv_def)
  moreover have "trim_space (vp_get_string ?lib (setDefaults ?lib (vp_new ?lib ''c.yaml'' ?env)) ''ai.provider'') = ''local''"
    unfolding sample_setDefaults using t by (simp add: sample_viper_def)
  ultimately show ?thesis
    using legacy_api_key_overrides_file_provider [OF sample_viper_law cfg] cfg by (intro exI [of _ cfg]) simp
qed

definition strong_secret :: string where
  "strong_secret = replicate 40 (CHR ''s'')"

theorem loaded_secret_is_strong_witness:
  "\<exists>cfg. snd (LoadConfig (sample_viper ''prod'' strong_secret ''local'') id DotEnvMissing ''c.yaml'' Map.empty) = Inr cfg \<and>
     32 \<le> length (trim_space (ku_jwt_secret (cf_auth cfg)))"
proof -
  let ?lib = "sample_viper ''prod'' strong_secret ''local''"
  have t: "trim_space strong_secret = strong_secret" "trim_space ''prod'' = ''prod''" "trim_space ''local'' = ''local''"
    by (rule trim_all_visible; simp add: visible_def list_all_iff strong_secret_def)+
  have low: "to_lower id ''prod'' = ''prod''" "to_lower id strong_secret = strong_secret"
    by (simp_all add: to_lower_def ascii_only_def lower_byte_def strong_secret_def)
  let ?weak = "{'''', ''default secret'', ''replace-me'', ''change-me'', ''change-me-before-production'', ''dev-only-insecure-jwt-secret-change-me''}"
  have l: "length strong_secret = 40" by (simp add: strong_secret_def)
  have "\<forall>s \<in> ?weak. length s \<noteq> 40" by simp
  with l have "strong_secret \<notin> ?weak" by blast
  then have weak: "\<not> isWeakJWTSecret id strong_secret" unfolding isWeakJWTSecret_def t low .
  have len: "\<not> length strong_secret < 32" by (simp add: strong_secret_def)
  let ?cfg = "sample_config ''prod'' strong_secret ''local''"
  have "validateSecurity id ?cfg = Inr ()"
    using t low weak len by (simp add: validateSecurity_def sample_config_def)
  then have cfg: "LoadConfig ?lib id DotEnvMissing ''c.yaml'' Map.empty = (Map.empty, Inr ?cfg)"
    using t(3) by (simp add: LoadConfig_def loadDotEnv_def sample_viper_def applyLegacyAIEnv_def Getenv_def setDefaults_def
        config_defaults_def)
  have "to_lower id (trim_space (kp_env (cf_app ?cfg))) \<notin> {'''', ''dev'', ''development'', ''test''}"
    by (simp add: sample_config_def t low)
  from loaded_secret_is_strong [OF cfg this] cfg show ?thesis by (intro exI [of _ ?cfg]) simp
qed

definition sample_dotenv :: string where
  "sample_dotenv = ''A=1'' @ [CHR 0x0A] @ ''# note'' @ [CHR 0x0A] @ ''A=2'' @ [CHR 0x0A] @ ''HOME=/x''"

lemma sample_dotenv_lines: "scan_lines sample_dotenv = ([''A=1'', ''# note'', ''A=2'', ''HOME=/x''], None)"
  by (simp add: sample_dotenv_def scan_lines.simps drop_cr_def)

lemma sample_dotenv_assignments:
  "dotenv_assignment ''A=1'' = Some (''A'', ''1'')" "dotenv_assignment ''# note'' = None"
  "dotenv_assignment ''A=2'' = Some (''A'', ''2'')" "dotenv_assignment ''HOME=/x'' = Some (''HOME'', ''/x'')"
  by code_simp+

theorem dotenv_first_assignment_wins_witness:
  "\<exists>env. loadDotEnv (DotEnvText sample_dotenv None) [''HOME'' \<mapsto> ''/root''] = (env, Inr ()) \<and>
     env ''A'' = Some ''1'' \<and> env ''HOME'' = Some ''/root''"
proof -
  have "\<forall>line \<in> set [''A=1'', ''# note'', ''A=2'', ''HOME=/x'']. \<forall>k v. dotenv_assignment line = Some (k, v) \<longrightarrow>
      CHR 0x00 \<notin> set k \<and> CHR 0x00 \<notin> set v"
    by (simp add: sample_dotenv_assignments)
  then obtain env where env: "loadDotEnv (DotEnvText sample_dotenv None) [''HOME'' \<mapsto> ''/root''] = (env, Inr ())"
    "\<forall>k. env k = (case [''HOME'' \<mapsto> ''/root''] k of Some v \<Rightarrow> Some v
       | None \<Rightarrow> map_of (List.map_filter dotenv_assignment [''A=1'', ''# note'', ''A=2'', ''HOME=/x'']) k)"
    using conjunct2 [OF dotenv_first_assignment_wins, rule_format, OF sample_dotenv_lines, of "[''HOME'' \<mapsto> ''/root'']"] by blast
  show ?thesis
    using env by (intro exI [of _ env]) (simp add: map_filter_simps sample_dotenv_assignments)
qed

end
