(* ===== verification/Secret_Box.thy ===== *)
theory Secret_Box
  imports Go_Base64 AI_Service
begin

section \<open>The secret box\<close>

text \<open>
  \<open>internal/secrets/aesgcm.go\<close>: the encryption of the stored keys of AI providers, and
  \<open>newAISecretBox\<close> of \<open>internal/app/ai.go\<close>. AES-GCM is a parameter: \<open>gc_seal\<close> and \<open>gc_open\<close> with a
  key, a nonce and no additional data; \<open>gc_cipher\<close> and \<open>gc_gcm\<close> are the errors of \<open>aes.NewCipher\<close> and
  \<open>cipher.NewGCM\<close>.
\<close>

record gcm_lib =
  gc_cipher :: "string \<Rightarrow> go_error option"
  gc_gcm :: "string \<Rightarrow> go_error option"
  gc_nonce_size :: nat
  gc_seal :: "string \<Rightarrow> string \<Rightarrow> string \<Rightarrow> string"
  gc_open :: "string \<Rightarrow> string \<Rightarrow> string \<Rightarrow> string result"

record aesgcm =
  ag_key :: string

definition decodeKey :: "string \<Rightarrow> string result" where
  "decodeKey encoded =
     (if encoded = '''' then Inl (Plain ''encryption key is required'')
      else
        (case (if length encoded = 64 then hex_decode encoded else None) of
           Some key \<Rightarrow> Inr key
         | None \<Rightarrow>
           (case b64_decode std_alphabet True encoded of
              Some key \<Rightarrow> Inr key
            | None \<Rightarrow>
              (case b64_decode std_alphabet False encoded of
                 Some key \<Rightarrow> Inr key
               | None \<Rightarrow>
                 (case b64_decode url_alphabet False encoded of
                    Some key \<Rightarrow> Inr key
                  | None \<Rightarrow> Inl (Plain ''encryption key must be base64 or hex encoded''))))))"

definition NewAESGCMFromEncodedKey :: "gcm_lib \<Rightarrow> string \<Rightarrow> aesgcm result" where
  "NewAESGCMFromEncodedKey lib encoded =
     (case decodeKey (trim_space encoded) of
        Inl e \<Rightarrow> Inl e
      | Inr key \<Rightarrow>
        if length key \<noteq> 32 then
          Inl (Plain (''encryption key must decode to 32 bytes, got '' @ fmt_int (int (length key))))
        else (case gc_cipher lib key of
           Some e \<Rightarrow> Inl (Wrapf ''create aes cipher: '' e '''')
         | None \<Rightarrow>
           (case gc_gcm lib key of
              Some e \<Rightarrow> Inl (Wrapf ''create gcm cipher: '' e '''')
            | None \<Rightarrow> Inr \<lparr>ag_key = key\<rparr>)))"

text \<open>\<open>random\<close> gives a number of bytes from the system's source, or its error.\<close>

definition EncryptString :: "gcm_lib \<Rightarrow> (nat \<Rightarrow> string result) \<Rightarrow> aesgcm \<Rightarrow> string \<Rightarrow> (string \<times> string) result" where
  "EncryptString lib random b plaintext =
     (case random (gc_nonce_size lib) of
        Inl e \<Rightarrow> Inl (Wrapf ''generate nonce: '' e '''')
      | Inr nonce \<Rightarrow> Inr (gc_seal lib (ag_key b) nonce plaintext, nonce))"

definition DecryptString :: "gcm_lib \<Rightarrow> aesgcm \<Rightarrow> string \<Rightarrow> string \<Rightarrow> string result" where
  "DecryptString lib b ciphertext nonce =
     (if length nonce \<noteq> gc_nonce_size lib then
        Inl (Plain (''invalid nonce size '' @ fmt_int (int (length nonce))))
      else (case gc_open lib (ag_key b) nonce ciphertext of
         Inl e \<Rightarrow> Inl (Wrapf ''decrypt secret: '' e '''')
       | Inr plaintext \<Rightarrow> Inr plaintext))"

text \<open>The box as the AI service uses it.\<close>

definition aes_secret_box :: "gcm_lib \<Rightarrow> (nat \<Rightarrow> string result) \<Rightarrow> aesgcm \<Rightarrow> secret_box" where
  "aes_secret_box lib random b = \<lparr>sb_encrypt = EncryptString lib random b, sb_decrypt = DecryptString lib b\<rparr>"

definition newAISecretBox :: "gcm_lib \<Rightarrow> (nat \<Rightarrow> string result) \<Rightarrow> string \<Rightarrow> secret_box option result" where
  "newAISecretBox lib random encodedKey =
     (if trim_space encodedKey = '''' then Inr None
      else (case NewAESGCMFromEncodedKey lib encodedKey of
         Inl e \<Rightarrow> Inl (Wrapf ''init ai settings encryption: '' e '''')
       | Inr b \<Rightarrow> Inr (Some (aes_secret_box lib random b))))"


subsection \<open>The encodings of a key\<close>

definition key_encodings :: "string \<Rightarrow> string set" where
  "key_encodings key = {hex_encode key, std_encode key, raw_std_encode key, raw_url_encode key}"

text \<open>The decoder for padded texts takes whole groups only; two decoders of one text agree.\<close>

lemma b64_padded_length: "b64_groups ix True s = Some r \<Longrightarrow> length s mod 4 = 0"
proof (induction ix "True" s arbitrary: r rule: b64_groups.induct)
  case (5 ix a b c d s)
  then show ?case by (auto split: option.splits if_splits)
qed (auto split: option.splits)

lemma b64_groups_agree:
  assumes "\<forall>c \<in> set s. \<forall>m n. ix c = Some m \<longrightarrow> jx c = Some n \<longrightarrow> m = n"
  shows "b64_groups ix False s = Some r \<Longrightarrow> b64_groups jx False s = Some q \<Longrightarrow> r = q"
  using assms
proof (induction ix "False" s arbitrary: r q rule: b64_groups.induct)
  case (3 ix a b)
  then show ?case by (fastforce split: option.splits)
next
  case (4 ix a b c)
  then show ?case by (fastforce split: option.splits)
next
  case (5 ix a b c d s)
  obtain m n k l u where x: "ix a = Some m" "ix b = Some n" "ix c = Some k" "ix d = Some l" "b64_groups ix False s = Some u"
    "r = b64_bytes m n k l @ u" using 5(2) by (auto split: option.splits)
  obtain m' n' k' l' u' where y: "jx a = Some m'" "jx b = Some n'" "jx c = Some k'" "jx d = Some l'" "b64_groups jx False s = Some u'"
    "q = b64_bytes m' n' k' l' @ u'" using 5(3) by (auto split: option.splits)
  have "m = m'" "n = n'" "k = k'" "l = l'" using 5(4) x(1-4) y(1-4) by auto
  moreover have "u = u'" using 5(1) [OF refl x(1-5) y(5)] 5(4) by simp
  ultimately show ?case using x(6) y(6) by simp
qed auto

lemma decodeKey_encodings:
  assumes "length key = 32" "enc \<in> key_encodings key"
  shows "decodeKey enc = Inr key \<and> trim_space enc = enc \<and> enc \<noteq> ''''"
proof -
  have len: "length (hex_encode key) = 64" "length (raw_std_encode key) = 43" "length (raw_url_encode key) = 43"
    "length (std_encode key) = 44"
    using assms(1) by (simp_all add: length_raw_std_encode length_raw_url_encode std_encode_def)
  have unpadded: "b64_decode std_alphabet True s = None" if "length s = 43" "list_all visible s" for s
  proof (cases "b64_decode std_alphabet True s")
    case (Some r)
    then have "length s mod 4 = 0" using b64_padded_length no_line_breaks [OF that(2)] by (simp add: b64_decode_def)
    then show ?thesis using that(1) by simp
  qed
  have agree: "r = key" if "b64_decode std_alphabet False (raw_url_encode key) = Some r" for r
    using b64_groups_agree [of "raw_url_encode key" "b64_index std_alphabet" "b64_index url_alphabet" r key] that
      b64_index_agree b64_round_trips(1) [of key] no_line_breaks [OF raw_url_encode_visible]
    by (simp add: b64_decode_def)
  consider "enc = hex_encode key" | "enc = std_encode key" | "enc = raw_std_encode key" | "enc = raw_url_encode key"
    using assms(2) by (auto simp: key_encodings_def)
  then show ?thesis
  proof cases
    case 1
    then show ?thesis using len hex_decode_encode [of key] trim_all_visible [OF hex_encode_visible]
      by (auto simp: decodeKey_def)
  next
    case 2
    then show ?thesis using len b64_round_trips(3) [of key] trim_all_visible [OF std_encode_visible] by (auto simp: decodeKey_def)
  next
    case 3
    then show ?thesis using len b64_round_trips(2) [of key] unpadded [OF _ raw_std_encode_visible]
        trim_all_visible [OF raw_std_encode_visible] by (auto simp: decodeKey_def)
  next
    case 4
    then show ?thesis using len b64_round_trips(1) [of key] unpadded [OF _ raw_url_encode_visible] agree
        trim_all_visible [OF raw_url_encode_visible] by (auto simp: decodeKey_def split: option.splits)
  qed
qed


subsection \<open>Properties\<close>

text \<open>
  What the library documents for keys of 32 bytes: sealing is opened by the same key and nonce,
  nothing else is opened, and a sealed text is longer than its plaintext by the tag.
\<close>

definition gcm_law :: "gcm_lib \<Rightarrow> bool" where
  "gcm_law lib \<longleftrightarrow> 0 < gc_nonce_size lib \<and>
     (\<forall>key. length key = 32 \<longrightarrow> gc_cipher lib key = None \<and> gc_gcm lib key = None \<and>
        (\<forall>n p. length n = gc_nonce_size lib \<longrightarrow> length (gc_seal lib key n p) = length p + 16 \<and>
           (\<forall>c. gc_open lib key n c = Inr p \<longleftrightarrow> c = gc_seal lib key n p)))"

lemma aes_secret_box_law:
  assumes "gcm_law lib" "length (ag_key b) = 32" "\<And>n r. random n = Inr r \<Longrightarrow> length r = n"
    and "sb_encrypt (aes_secret_box lib random b) p = Inr (c, n)"
  shows "c \<noteq> '''' \<and> n \<noteq> '''' \<and> length n = gc_nonce_size lib \<and> sb_decrypt (aes_secret_box lib random b) c n = Inr p"
proof -
  have n: "random (gc_nonce_size lib) = Inr n" "c = gc_seal lib (ag_key b) n p"
    using assms(4) by (auto simp: aes_secret_box_def EncryptString_def split: sum.splits)
  then have l: "length n = gc_nonce_size lib" using assms(3) by blast
  then have "length c = length p + 16" "gc_open lib (ag_key b) n c = Inr p" "0 < length n"
    using assms(1,2) n(2) unfolding gcm_law_def by metis+
  then show ?thesis using l by (auto simp: aes_secret_box_def DecryptString_def)
qed

text \<open>
  C19. A key of 32 bytes can be given in hexadecimal or in any of three forms of base64, with spaces
  around it; the box made from any of them is the one of that key. What the box encrypts it decrypts, under
  a nonce of its size, and it decrypts nothing else: a text it accepts with a nonce is the encryption
  of the answer with that key and nonce.
\<close>

theorem secret_box_round_trip:
  assumes "gcm_law lib" "\<And>n r. random n = Inr r \<Longrightarrow> length r = n" "length key = 32"
    and "trim_space raw \<in> key_encodings key"
  shows "\<exists>box. newAISecretBox lib random raw = Inr (Some box) \<and>
    (\<forall>p c n. sb_encrypt box p = Inr (c, n) \<longrightarrow> sb_decrypt box c n = Inr p \<and> length n = gc_nonce_size lib) \<and>
    (\<forall>p c n. sb_decrypt box c n = Inr p \<longrightarrow> length n = gc_nonce_size lib \<and> c = gc_seal lib key n p)"
proof -
  let ?b = "\<lparr>ag_key = key\<rparr>"
  have "newAISecretBox lib random raw = Inr (Some (aes_secret_box lib random ?b))"
    using assms(1,3) decodeKey_encodings [OF assms(3,4)] by (simp add: newAISecretBox_def NewAESGCMFromEncodedKey_def gcm_law_def)
  moreover have "sb_decrypt (aes_secret_box lib random ?b) c n = Inr p \<and> length n = gc_nonce_size lib"
    if "sb_encrypt (aes_secret_box lib random ?b) p = Inr (c, n)" for p c n
    using aes_secret_box_law [OF assms(1) _ assms(2) that] assms(3) by simp
  moreover have "length n = gc_nonce_size lib \<and> c = gc_seal lib key n p"
    if "sb_decrypt (aes_secret_box lib random ?b) c n = Inr p" for p c n
    using that assms(1,3) by (auto simp: aes_secret_box_def DecryptString_def gcm_law_def split: if_splits sum.splits)
  ultimately show ?thesis by blast
qed

subsection \<open>Witnesses\<close>

definition sample_gcm :: gcm_lib where
  "sample_gcm =
     \<lparr>gc_cipher = (\<lambda>_. None), gc_gcm = (\<lambda>_. None), gc_nonce_size = 12, gc_seal = (\<lambda>k n p. take 16 (k @ n) @ p),
      gc_open = (\<lambda>k n c. if take 16 c = take 16 (k @ n) then Inr (drop 16 c) else Inl (Plain ''cipher: message authentication failed''))\<rparr>"

lemma sample_gcm_law: "gcm_law sample_gcm"
proof -
  have "gc_open sample_gcm key n c = Inr p \<longleftrightarrow> c = gc_seal sample_gcm key n p" if "length key = 32" for key n c p
    using that by (auto simp: sample_gcm_def) (metis append_take_drop_id)
  then show ?thesis by (simp add: gcm_law_def) (simp add: sample_gcm_def)
qed

definition sample_gcm_key :: string where "sample_gcm_key = replicate 32 (CHR ''k'')"

theorem secret_box_round_trip_witness:
  "\<exists>box. newAISecretBox sample_gcm (\<lambda>n. Inr (replicate n (CHR ''n''))) (std_encode sample_gcm_key) = Inr (Some box) \<and>
     (\<exists>c n. sb_encrypt box ''sk-test'' = Inr (c, n) \<and> sb_decrypt box c n = Inr ''sk-test'')"
proof -
  let ?random = "\<lambda>n. Inr (replicate n (CHR ''n'')) :: string result"
  have key: "length sample_gcm_key = 32" by (simp add: sample_gcm_key_def)
  have enc: "trim_space (std_encode sample_gcm_key) \<in> key_encodings sample_gcm_key"
    by (simp add: trim_all_visible std_encode_visible key_encodings_def)
  obtain box where box: "newAISecretBox sample_gcm ?random (std_encode sample_gcm_key) = Inr (Some box)"
    "\<forall>p c n. sb_encrypt box p = Inr (c, n) \<longrightarrow> sb_decrypt box c n = Inr p \<and> length n = gc_nonce_size sample_gcm"
    using secret_box_round_trip [OF sample_gcm_law _ key enc, of ?random] by auto
  have "\<exists>b. box = aes_secret_box sample_gcm ?random b"
    using box(1) by (auto simp: newAISecretBox_def split: if_splits sum.splits)
  then have "\<exists>c n. sb_encrypt box ''sk-test'' = Inr (c, n)" by (auto simp: aes_secret_box_def EncryptString_def)
  then show ?thesis using box by blast
qed

end
