(* ===== verification/App_Startup.thy ===== *)
theory App_Startup
  imports Configuration Secret_Box Auth_Tokens AI_Behaviour "HOL-Library.Multiset"
begin

section \<open>Start-up\<close>

text \<open>
  \<open>internal/app/mode.go\<close>, \<open>internal/app/ai.go\<close>, \<open>internal/logger/logger.go\<close> and the decisions of
  \<open>Run\<close> in \<open>internal/app/server.go\<close>: which parts run in a process, what its start-up refuses, how
  the errors of background tasks are passed on, and the order of the shutdown. The construction of
  repositories, services and handlers is the wiring of what the other theories model.
\<close>

subsection \<open>Modes\<close>

record runtime_plan =
  pl_http :: bool
  pl_scheduler :: bool
  pl_worker :: bool

definition runsOutboxDispatcher :: "runtime_plan \<Rightarrow> bool" where
  "runsOutboxDispatcher p = pl_scheduler p"

text \<open>\<open>quote\<close> is \<open>strconv.Quote\<close>, \<open>uni\<close> the lower case of texts that are not ASCII.\<close>

definition runtimePlanForMode :: "(string \<Rightarrow> string) \<Rightarrow> (string \<Rightarrow> string) \<Rightarrow> string \<Rightarrow> runtime_plan result" where
  "runtimePlanForMode uni quote mode =
     (let m = to_lower uni (trim_space mode) in
      if m = '''' \<or> m = ''all'' then Inr \<lparr>pl_http = True, pl_scheduler = True, pl_worker = True\<rparr>
      else if m = ''api'' then Inr \<lparr>pl_http = True, pl_scheduler = False, pl_worker = False\<rparr>
      else if m = ''scheduler'' then Inr \<lparr>pl_http = False, pl_scheduler = True, pl_worker = False\<rparr>
      else if m = ''worker'' then Inr \<lparr>pl_http = False, pl_scheduler = False, pl_worker = True\<rparr>
      else Inl (Plain (''unsupported app mode '' @ quote mode)))"


subsection \<open>The logger\<close>

datatype log_level = LevelDebug | LevelInfo | LevelWarn | LevelError

definition parseLevel :: "(string \<Rightarrow> string) \<Rightarrow> string \<Rightarrow> log_level result" where
  "parseLevel uni level =
     (let l = to_lower uni level in
      if l = ''debug'' then Inr LevelDebug
      else if l = ''info'' then Inr LevelInfo
      else if l = ''warn'' then Inr LevelWarn
      else if l = ''error'' then Inr LevelError
      else Inl (Plain (''unsupported log level: '' @ level)))"

datatype log_handler = JsonLog log_level bool | TextLog log_level bool

definition NewLogger :: "(string \<Rightarrow> string) \<Rightarrow> log_config \<Rightarrow> log_handler result" where
  "NewLogger uni cfg =
     (case parseLevel uni (kg_level cfg) of
        Inl e \<Rightarrow> Inl e
      | Inr level \<Rightarrow>
        (let f = to_lower uni (kg_format cfg) in
         if f = ''json'' then Inr (JsonLog level (kg_add_source cfg))
         else if f = ''text'' then Inr (TextLog level (kg_add_source cfg))
         else Inl (Plain (''unsupported log format: '' @ kg_format cfg))))"


subsection \<open>The assistant of the process\<close>

definition newConfiguredAssistant ::
  "ai_lib \<Rightarrow> (string \<Rightarrow> string) \<Rightarrow> (ip_addr \<Rightarrow> string) \<Rightarrow> 'f float_ops \<Rightarrow> openai_env \<Rightarrow> ai_config \<Rightarrow> 'f assistant result" where
  "newConfiguredAssistant lib quote addr_text ops net cfg =
     (let provider = to_lower (gl_lower (al_go lib)) (trim_space (ka_provider cfg));
          provider = (if provider = '''' then ''local'' else provider);
          provider = (if trim_space (ka_api_key cfg) \<noteq> '''' \<and> provider = ''local'' then ''openai'' else provider)
      in if provider = ''local'' \<or> provider = ''extractive'' then Inr (extractive_assistant lib ops)
         else if provider = ''openai'' \<or> provider = ''openai-compatible'' then
           (case NewOpenAICompatibleAssistant (al_go lib) addr_text
                   \<lparr>oc_base_url = ka_base_url cfg, oc_api_key = ka_api_key cfg, oc_chat_model = ka_model cfg,
                    oc_embedding_model = ka_embedding_model cfg, oc_timeout = ka_timeout cfg\<rparr> of
              Inl e \<Rightarrow> Inl (Wrapf ''init openai-compatible ai assistant: '' e '''')
            | Inr a \<Rightarrow> Inr (openai_compatible ops net a))
         else Inl (Plain (''unsupported ai provider '' @ quote (ka_provider cfg))))"


subsection \<open>What a process runs\<close>

datatype background_task = SchedulerTask | SummaryWorkerTask | CollectionWorkerTask | OutboxDispatcherTask

text \<open>How a request to collect a source is carried out: in the process itself, or through the outbox.\<close>

datatype collection_route = DirectCollection | OutboxCollection

definition collection_path :: "config \<Rightarrow> collection_route" where
  "collection_path cfg = (if kk_enabled (cf_kafka cfg) then OutboxCollection else DirectCollection)"

definition background_tasks :: "runtime_plan \<Rightarrow> bool \<Rightarrow> background_task list" where
  "background_tasks plan kafka =
     (if pl_scheduler plan then [SchedulerTask] else []) @
     (if pl_scheduler plan \<or> pl_worker plan then [SummaryWorkerTask] else []) @
     (if pl_worker plan \<and> kafka then [CollectionWorkerTask] else []) @
     (if runsOutboxDispatcher plan \<and> kafka then [OutboxDispatcherTask] else [])"

text \<open>
  The steps of the start-up that may refuse it, in their order. The connections, the tracing and
  the metrics are library calls, with the error each may give.
\<close>

datatype startup_call = StTracing | StPostgres | StSqlDB | StMetrics | StDbMetrics | StRedis

record startup =
  su_plan :: runtime_plan
  su_logger :: log_handler
  su_tokens :: token_manager
  su_secret_box :: "secret_box option"
  su_collection :: collection_route
  su_tasks :: "background_task list"

definition auth_token_config :: "auth_config \<Rightarrow> token_config" where
  "auth_token_config a =
     \<lparr>tc_secret = ku_jwt_secret a, tc_issuer = ku_jwt_issuer a, tc_access_ttl = ku_access_token_ttl a,
      tc_refresh_ttl = ku_refresh_token_ttl a\<rparr>"

text \<open>One step after another, the first error ends the start-up.\<close>

fun and_then :: "'a result \<Rightarrow> ('a \<Rightarrow> 'b result) \<Rightarrow> 'b result" where
  "and_then (Inl e) f = Inl e"
| "and_then (Inr x) f = f x"

definition wrapped :: "string \<Rightarrow> 'a result \<Rightarrow> 'a result" where
  "wrapped pre r = (case r of Inl e \<Rightarrow> Inl (Wrapf pre e '''') | Inr x \<Rightarrow> Inr x)"

definition checked :: "startup_call faults \<Rightarrow> bool \<Rightarrow> startup_call \<Rightarrow> string \<Rightarrow> unit result" where
  "checked fault wanted call pre =
     (case (if wanted then fault call else None) of Some e \<Rightarrow> Inl (Wrapf pre e '''') | None \<Rightarrow> Inr ())"

definition start_connections :: "startup_call faults \<Rightarrow> bool \<Rightarrow> unit result" where
  "start_connections fault metrics =
     and_then (checked fault True StTracing ''init tracing: '') (\<lambda>_.
     and_then (checked fault True StPostgres ''init database: '') (\<lambda>_.
     and_then (checked fault True StSqlDB ''get sql db: '') (\<lambda>_.
     and_then (checked fault metrics StMetrics ''init metrics: '') (\<lambda>_.
     and_then (checked fault metrics StDbMetrics ''register database metrics: '') (\<lambda>_.
     checked fault True StRedis ''init redis: '')))))"

definition Run_setup ::
  "ai_lib \<Rightarrow> (string \<Rightarrow> string) \<Rightarrow> (ip_addr \<Rightarrow> string) \<Rightarrow> 'f float_ops \<Rightarrow> openai_env \<Rightarrow> gcm_lib \<Rightarrow> (nat \<Rightarrow> string result) \<Rightarrow>
   startup_call faults \<Rightarrow> config result \<Rightarrow> ('f assistant \<times> startup) result" where
  "Run_setup lib quote addr_text ops net gcm random fault loaded =
     and_then (wrapped ''load config: '' loaded) (\<lambda>cfg.
     and_then (runtimePlanForMode (gl_lower (al_go lib)) quote (kp_mode (cf_app cfg))) (\<lambda>plan.
     and_then (wrapped ''init logger: '' (NewLogger (gl_lower (al_go lib)) (cf_log cfg))) (\<lambda>lg.
     and_then (start_connections fault (ko_metrics_enabled (cf_observability cfg))) (\<lambda>_.
     and_then (wrapped ''init token manager: '' (NewJWTTokenManager (auth_token_config (cf_auth cfg)))) (\<lambda>tokens.
     and_then (newConfiguredAssistant lib quote addr_text ops net (cf_ai cfg)) (\<lambda>assistant.
     and_then (newAISecretBox gcm random (ka_settings_encryption_key (cf_ai cfg))) (\<lambda>box.
       if pl_worker plan \<and> \<not> kk_enabled (cf_kafka cfg) then
         Inl (Plain ''app mode worker requires kafka.enabled=true'')
       else Inr (assistant,
         \<lparr>su_plan = plan, su_logger = lg, su_tokens = tokens, su_secret_box = box, su_collection = collection_path cfg,
          su_tasks = background_tasks plan (kk_enabled (cf_kafka cfg))\<rparr>))))))))"


subsection \<open>Errors of background tasks, and the end\<close>

text \<open>
  A task that ends with an error offers it to a channel with room for one; a full channel drops
  it. The channel is what it holds.
\<close>

definition startBackgroundTask :: "go_error option \<Rightarrow> go_error option \<Rightarrow> go_error option" where
  "startBackgroundTask outcome ch =
     (case outcome of None \<Rightarrow> ch | Some e \<Rightarrow> (case ch of None \<Rightarrow> Some e | Some x \<Rightarrow> Some x))"

datatype shutdown_action = StopBackground | CloseReader | WaitBackground | CloseWriter | ShutdownServer

definition stop_actions :: "bool \<Rightarrow> shutdown_action list" where
  "stop_actions kafka =
     [StopBackground] @ (if kafka then [CloseReader] else []) @ [WaitBackground] @ (if kafka then [CloseWriter] else [])"

text \<open>
  The end of \<open>Run\<close>: by an error from the channel, which is returned, or by a signal, after which
  the server is shut down as well; \<open>shut\<close> is the error of that.
\<close>

definition Run_end :: "runtime_plan \<Rightarrow> bool \<Rightarrow> go_error option \<Rightarrow> go_error option \<Rightarrow> shutdown_action list \<times> go_error option" where
  "Run_end plan kafka ch shut =
     (case ch of
        Some e \<Rightarrow> (stop_actions kafka, Some e)
      | None \<Rightarrow>
        if pl_http plan then
          (stop_actions kafka @ [ShutdownServer],
           case shut of Some e \<Rightarrow> Some (Wrapf ''shutdown server: '' e '''') | None \<Rightarrow> None)
        else (stop_actions kafka, None))"

subsection \<open>Properties\<close>

lemma and_then_Inr [bind_iff]: "and_then r f = Inr y \<longleftrightarrow> (\<exists>x. r = Inr x \<and> f x = Inr y)"
  by (cases r) simp_all

lemma wrapped_Inr [bind_iff]: "wrapped pre r = Inr x \<longleftrightarrow> r = Inr x"
  by (cases r) (simp_all add: wrapped_def)

lemma NewJWTTokenManager_facts:
  "NewJWTTokenManager c = Inr m \<Longrightarrow> tm_secret m \<noteq> '''' \<and> 0 < tm_access_ttl m \<and> 0 < tm_refresh_ttl m \<and> tm_issuer m \<noteq> ''''"
  by (auto simp: NewJWTTokenManager_def split: if_splits)

lemma NewJWTTokenManager_exact:
  "NewJWTTokenManager c = Inr m \<Longrightarrow>
     m = \<lparr>tm_secret = tc_secret c, tm_issuer = (if tc_issuer c = '''' then ''contentflow'' else tc_issuer c),
          tm_access_ttl = tc_access_ttl c, tm_refresh_ttl = tc_refresh_ttl c\<rparr>"
  by (auto simp: NewJWTTokenManager_def split: if_splits)

lemma newAISecretBox_None: "newAISecretBox gcm random key = Inr box \<Longrightarrow> box = None \<longleftrightarrow> trim_space key = ''''"
  by (auto simp: newAISecretBox_def split: if_splits sum.splits)

text \<open>
  C15. A process starts only in one of the five modes, in any case and with spaces; a mode with the
  collection worker needs Kafka, so the mode \<open>all\<close>, the default, is refused without it. It then runs exactly the
  tasks of its mode, each once: the scheduler, with the outbox dispatcher when there is Kafka; the collection worker; the
  summary worker beside either. Its token manager signs with the configured secret, names the
  configured issuer (\<open>contentflow\<close> if there is none) and gives the configured lifetimes, all of
  them checked; its secret box is the one of the configured encryption key, none if there is no
  key; its logger and its way of collecting are those of the configuration too.
\<close>

theorem startup_modes:
  assumes "Run_setup lib quote addr_text ops net gcm random fault (Inr cfg) = Inr (assistant, su)"
    and "m = to_lower (gl_lower (al_go lib)) (trim_space (kp_mode (cf_app cfg)))"
  shows "m \<in> {'''', ''all'', ''api'', ''scheduler'', ''worker''} \<and>
    (kk_enabled (cf_kafka cfg) \<or> m \<in> {''api'', ''scheduler''}) \<and> distinct (su_tasks su) \<and>
    (SchedulerTask \<in> set (su_tasks su) \<longleftrightarrow> m \<in> {'''', ''all'', ''scheduler''}) \<and>
    (OutboxDispatcherTask \<in> set (su_tasks su) \<longleftrightarrow> m \<in> {'''', ''all'', ''scheduler''} \<and> su_collection su = OutboxCollection) \<and>
    (CollectionWorkerTask \<in> set (su_tasks su) \<longleftrightarrow> m \<in> {'''', ''all'', ''worker''}) \<and>
    (SummaryWorkerTask \<in> set (su_tasks su) \<longleftrightarrow> m \<noteq> ''api'') \<and> (pl_http (su_plan su) \<longleftrightarrow> m \<in> {'''', ''all'', ''api''}) \<and>
    tm_secret (su_tokens su) \<noteq> '''' \<and> 0 < tm_access_ttl (su_tokens su) \<and> 0 < tm_refresh_ttl (su_tokens su) \<and>
    (su_secret_box su \<noteq> None \<longleftrightarrow> trim_space (ka_settings_encryption_key (cf_ai cfg)) \<noteq> '''') \<and>
    su_tokens su =
      \<lparr>tm_secret = ku_jwt_secret (cf_auth cfg),
       tm_issuer = (if ku_jwt_issuer (cf_auth cfg) = '''' then ''contentflow'' else ku_jwt_issuer (cf_auth cfg)),
       tm_access_ttl = ku_access_token_ttl (cf_auth cfg), tm_refresh_ttl = ku_refresh_token_ttl (cf_auth cfg)\<rparr> \<and>
    newAISecretBox gcm random (ka_settings_encryption_key (cf_ai cfg)) = Inr (su_secret_box su) \<and>
    NewLogger (gl_lower (al_go lib)) (cf_log cfg) = Inr (su_logger su) \<and>
    newConfiguredAssistant lib quote addr_text ops net (cf_ai cfg) = Inr assistant \<and>
    su_collection su = collection_path cfg"
proof -
  obtain plan lg tokens box where s: "runtimePlanForMode (gl_lower (al_go lib)) quote (kp_mode (cf_app cfg)) = Inr plan"
    "NewJWTTokenManager (auth_token_config (cf_auth cfg)) = Inr tokens"
    "newAISecretBox gcm random (ka_settings_encryption_key (cf_ai cfg)) = Inr box"
    "\<not> (pl_worker plan \<and> \<not> kk_enabled (cf_kafka cfg))"
    "NewLogger (gl_lower (al_go lib)) (cf_log cfg) = Inr lg"
    "newConfiguredAssistant lib quote addr_text ops net (cf_ai cfg) = Inr assistant"
    "su = \<lparr>su_plan = plan, su_logger = lg, su_tokens = tokens, su_secret_box = box, su_collection = collection_path cfg,
           su_tasks = background_tasks plan (kk_enabled (cf_kafka cfg))\<rparr>"
    using assms(1) unfolding Run_setup_def bind_iff by (auto split: if_splits)
  have t: "tm_secret tokens \<noteq> '''' \<and> 0 < tm_access_ttl tokens \<and> 0 < tm_refresh_ttl tokens"
    using NewJWTTokenManager_facts [OF s(2)] by simp
  note tokens = NewJWTTokenManager_exact [OF s(2)]
  have b: "box \<noteq> None \<longleftrightarrow> trim_space (ka_settings_encryption_key (cf_ai cfg)) \<noteq> ''''" using newAISecretBox_None [OF s(3)] by simp
  consider "m = '''' \<or> m = ''all''" "plan = \<lparr>pl_http = True, pl_scheduler = True, pl_worker = True\<rparr>"
    | "m = ''api''" "plan = \<lparr>pl_http = True, pl_scheduler = False, pl_worker = False\<rparr>"
    | "m = ''scheduler''" "plan = \<lparr>pl_http = False, pl_scheduler = True, pl_worker = False\<rparr>"
    | "m = ''worker''" "plan = \<lparr>pl_http = False, pl_scheduler = False, pl_worker = True\<rparr>"
    using s(1) unfolding runtimePlanForMode_def Let_def assms(2) [symmetric] by (auto split: if_splits)
  then show ?thesis
    using t b s(3,4,5,6) tokens by cases (auto simp: s(7) auth_token_config_def background_tasks_def runsOutboxDispatcher_def collection_path_def)
qed

text \<open>
  With Kafka the three single modes together run the tasks of the mode \<open>all\<close>; only the summary
  worker runs in two of them.
\<close>

lemma split_modes_run_all:
  "mset (background_tasks \<lparr>pl_http = True, pl_scheduler = False, pl_worker = False\<rparr> True) +
   mset (background_tasks \<lparr>pl_http = False, pl_scheduler = True, pl_worker = False\<rparr> True) +
   mset (background_tasks \<lparr>pl_http = False, pl_scheduler = False, pl_worker = True\<rparr> True) =
   mset (background_tasks \<lparr>pl_http = True, pl_scheduler = True, pl_worker = True\<rparr> True) + {#SummaryWorkerTask#}"
  by (simp add: background_tasks_def runsOutboxDispatcher_def)

text \<open>The first error of the background tasks is the one that the program returns.\<close>

lemma background_errors:
  "fold startBackgroundTask outcomes ch =
     (case ch of Some e \<Rightarrow> Some e | None \<Rightarrow> (case List.map_filter id outcomes of [] \<Rightarrow> None | e # _ \<Rightarrow> Some e))"
  by (induction outcomes arbitrary: ch) (auto simp: startBackgroundTask_def map_filter_simps split: option.splits list.splits)


subsection \<open>Witnesses\<close>

theorem startup_modes_witness:
  "\<exists>a su. Run_setup sample_ai_lib id (\<lambda>_. '''') sample_floats sample_openai_env sample_gcm (\<lambda>n. Inr (replicate n (CHR ''n''))) no_faults
      (Inr (sample_config ''dev'' strong_secret ''local''\<lparr>cf_kafka := \<lparr>kk_enabled = True, kk_brokers = [], kk_group_id = ''g'', kk_max_attempts = 3,
        kk_retry_backoff = second, kk_outbox_batch_size = 100, kk_outbox_dispatch_interval = second\<rparr>\<rparr>)) = Inr (a, su) \<and>
     set (su_tasks su) = {SchedulerTask, OutboxDispatcherTask, CollectionWorkerTask, SummaryWorkerTask}"
proof -
  let ?cfg = "sample_config ''dev'' strong_secret ''local''\<lparr>cf_kafka := \<lparr>kk_enabled = True, kk_brokers = [], kk_group_id = ''g'', kk_max_attempts = 3,
        kk_retry_backoff = second, kk_outbox_batch_size = 100, kk_outbox_dispatch_interval = second\<rparr>\<rparr>"
  let ?run = "Run_setup sample_ai_lib id (\<lambda>_. '''') sample_floats sample_openai_env sample_gcm (\<lambda>n. Inr (replicate n (CHR ''n''))) no_faults (Inr ?cfg)"
  have t: "trim_space ''all'' = ''all''" "trim_space ''local'' = ''local''" "strong_secret \<noteq> ''''"
    by (rule trim_all_visible; simp add: visible_def)+ (simp add: strong_secret_def)
  have low: "to_lower uni ''all'' = ''all''" "to_lower uni ''local'' = ''local''" "to_lower uni ''info'' = ''info''"
    "to_lower uni ''json'' = ''json''" for uni
    by (simp_all add: to_lower_def ascii_only_def lower_byte_def)
  have "\<exists>a su. ?run = Inr (a, su)"
    using t low by (simp add: Run_setup_def wrapped_def runtimePlanForMode_def NewLogger_def parseLevel_def start_connections_def checked_def
        NewJWTTokenManager_def auth_token_config_def newConfiguredAssistant_def newAISecretBox_def sample_config_def Let_def)
  then obtain a su where run: "?run = Inr (a, su)" by blast
  have m: "''all'' = to_lower (gl_lower (al_go sample_ai_lib)) (trim_space (kp_mode (cf_app ?cfg)))"
    by (simp add: sample_config_def t low)
  from startup_modes [OF run m]
  have "SchedulerTask \<in> set (su_tasks su)" "CollectionWorkerTask \<in> set (su_tasks su)" "SummaryWorkerTask \<in> set (su_tasks su)"
    by simp_all
  moreover have "su_collection su = OutboxCollection"
    using run by (auto simp: Run_setup_def bind_iff collection_path_def split: if_splits)
  then have "OutboxDispatcherTask \<in> set (su_tasks su)" using startup_modes [OF run m] by simp
  moreover have "x = SchedulerTask \<or> x = OutboxDispatcherTask \<or> x = CollectionWorkerTask \<or> x = SummaryWorkerTask" for x
    by (cases x) simp_all
  ultimately show ?thesis using run by (intro exI [of _ a] exI [of _ su]) blast
qed

end
