(* ===== verification/Rate_Limiter.thy ===== *)
theory Rate_Limiter
  imports Redis_Store
begin

section \<open>The rate limiter\<close>

text \<open>
  \<open>internal/ratelimit/limiter.go\<close>: a counter in Redis for each key and window, kept by a script
  that Redis runs as one step, and the middleware in front of the login and the collection
  handlers. The limiter of the model is the one on Redis; the address of the client, which Gin
  works out, is a parameter.
\<close>

record rate_result =
  rl_allowed :: bool
  rl_limit :: int
  rl_remaining :: int
  rl_retry_after :: duration
  rl_reset_after :: duration

text \<open>The values of a script's answer as the client library gives them.\<close>

datatype redis_any = AnyInt64 int | AnyInt int | AnyOther

fun toInt64 :: "redis_any \<Rightarrow> int" where
  "toInt64 (AnyInt64 v) = v"
| "toInt64 (AnyInt v) = v"
| "toInt64 AnyOther = 0"

text \<open>
  The script, with the limit and the window in milliseconds. An answer is an array of integers,
  which the library returns as \<open>int64\<close>.
\<close>

definition rate_script :: "time \<Rightarrow> string \<Rightarrow> int \<Rightarrow> int \<Rightarrow> redis \<Rightarrow> redis \<times> redis_any list result" where
  "rate_script now key limit window_ms r =
     (case redis_incr now key r of
        (r1, Inl e) \<Rightarrow> (r1, Inl e)
      | (r1, Inr current) \<Rightarrow>
        (let r2 = (if current = 1 then redis_pexpire now key (window_ms * millisecond) r1 else r1);
             ttl0 = redis_pttl now key r2;
             (r3, ttl) = (if ttl0 < 0 then (redis_pexpire now key (window_ms * millisecond) r2, window_ms) else (r2, ttl0))
         in if current > limit then (r3, Inr [AnyInt64 0, AnyInt64 current, AnyInt64 ttl])
            else (r3, Inr [AnyInt64 1, AnyInt64 current, AnyInt64 ttl])))"

definition Limiter_Allow :: "redis_outcome \<Rightarrow> time \<Rightarrow> string \<Rightarrow> int \<Rightarrow> duration \<Rightarrow> redis \<Rightarrow> redis \<times> rate_result result" where
  "Limiter_Allow out now key limit window r =
     (let (r', res) = rate_script now key limit (window div millisecond) r in
      case out of
        RFailed e applied \<Rightarrow> (if applied then r' else r, Inl (Wrapf ''run rate limit script: '' e ''''))
      | RDone \<Rightarrow>
        (case res of
           Inl e \<Rightarrow> (r', Inl (Wrapf ''run rate limit script: '' e ''''))
         | Inr values \<Rightarrow>
           (let allowed = (toInt64 (values ! 0) = 1); count = toInt64 (values ! 1);
                ttl = toInt64 (values ! 2) * millisecond; remaining = limit - count
            in (r', Inr \<lparr>rl_allowed = allowed, rl_limit = limit, rl_remaining = (if remaining < 0 then 0 else remaining),
                         rl_retry_after = (if \<not> allowed then ttl else 0), rl_reset_after = ttl\<rparr>))))"


subsection \<open>The middleware\<close>

record rate_config =
  rc_limit :: int
  rc_window :: duration
  rc_key_func :: "(http_request \<Rightarrow> string) option"

definition rate_headers :: "rate_result \<Rightarrow> (string \<times> string) list" where
  "rate_headers res =
     [(''X-RateLimit-Limit'', fmt_int (rl_limit res)), (''X-RateLimit-Remaining'', fmt_int (rl_remaining res))] @
     (if rl_retry_after res > 0 then [(''Retry-After'', fmt_int (rl_retry_after res div second))] else [])"

definition RateLimit_Middleware ::
  "(string \<Rightarrow> int \<Rightarrow> duration \<Rightarrow> redis \<Rightarrow> redis \<times> rate_result result) option \<Rightarrow> rate_config \<Rightarrow>
   (redis \<times> 's, 'a) handler \<Rightarrow> (redis \<times> 's, 'a) handler" where
  "RateLimit_Middleware limiter cfg nxt req st =
     (case (limiter, rc_key_func cfg) of
        (Some allow, Some key_func) \<Rightarrow>
          if rc_limit cfg \<le> 0 \<or> rc_window cfg \<le> 0 then nxt req st
          else if key_func req = '''' then nxt req st
          else (case allow (key_func req) (rc_limit cfg) (rc_window cfg) (fst st) of
                  (r, Inl e) \<Rightarrow> ((r, snd st), response_Error 500 ''rate_limit_error'' ''rate limit error'')
                | (r, Inr res) \<Rightarrow>
                    if \<not> rl_allowed res then
                      add_headers (rate_headers res) ((r, snd st), response_Error 429 ''rate_limited'' ''too many requests'')
                    else add_headers (rate_headers res) (nxt req (r, snd st)))
      | _ \<Rightarrow> nxt req st)"

definition ClientIPKey :: "(http_request \<Rightarrow> string) \<Rightarrow> string \<Rightarrow> http_request \<Rightarrow> string" where
  "ClientIPKey client_ip pfx req = pfx @ '':ip:'' @ client_ip req"

definition UserIDPathKey :: "string \<Rightarrow> string \<Rightarrow> http_request \<Rightarrow> string" where
  "UserIDPathKey pfx paramName req =
     (case requestctx_UserID req of
        (uid, False) \<Rightarrow> ''''
      | (uid, True) \<Rightarrow> pfx @ '':user:'' @ fmt_int uid @ '':id:'' @ hr_param req paramName)"


subsection \<open>One key\<close>

text \<open>
  A counter of a key at a time: how often it was counted in the window that ends at a time.
\<close>

definition window_at :: "time \<Rightarrow> string \<Rightarrow> redis \<Rightarrow> (int \<times> time) option" where
  "window_at now key r =
     (case r key of Some (RCount n, Some ex) \<Rightarrow> if now < ex then Some (n, ex) else None | _ \<Rightarrow> None)"

text \<open>What the limiter leaves in a key: nothing, or a counter with an end.\<close>

definition counter_key :: "string \<Rightarrow> redis \<Rightarrow> bool" where
  "counter_key key r \<longleftrightarrow> (case r key of None \<Rightarrow> True | Some (RCount n, Some ex) \<Rightarrow> 0 < n \<and> n < 2 ^ 63 | _ \<Rightarrow> False)"

lemma redis_get_counter:
  "counter_key key r \<Longrightarrow> redis_get now key r = map_option (\<lambda>(n, ex). RCount n) (window_at now key r)"
  by (auto simp: counter_key_def redis_get_def window_at_def split: option.splits redis_value.splits)

lemma rate_script_other: "k \<noteq> key \<Longrightarrow> fst (rate_script now key limit w r) k = r k"
  by (auto simp: rate_script_def redis_incr_def redis_pexpire_def Let_def
      split: option.splits redis_value.splits prod.splits sum.splits)

text \<open>A run of the script opens a window or counts in the one that is open.\<close>

lemma rate_script_opens:
  assumes "counter_key key r" "window_at now key r = None" "0 < w"
  shows "rate_script now key limit w r =
    (r(key \<mapsto> (RCount 1, Some (now + w * millisecond))), Inr [AnyInt64 (if 1 > limit then 0 else 1), AnyInt64 1, AnyInt64 w])"
  using assms redis_get_counter [OF assms(1), of now]
  by (simp add: rate_script_def redis_incr_def redis_pexpire_def redis_pttl_def redis_get_def Let_def)

lemma rate_script_counts:
  assumes "counter_key key r" "window_at now key r = Some (n, ex)" "n < 2 ^ 63 - 1"
  shows "rate_script now key limit w r =
    (r(key \<mapsto> (RCount (n + 1), Some ex)),
     Inr [AnyInt64 (if n + 1 > limit then 0 else 1), AnyInt64 (n + 1), AnyInt64 ((ex - now) div millisecond)])"
proof -
  have r: "r key = Some (RCount n, Some ex)" "now < ex" "0 < n"
    using assms by (auto simp: counter_key_def window_at_def split: option.splits redis_value.splits if_splits)
  then have "\<not> (ex - now) div 1000000 < 0" by simp
  with r show ?thesis
    using assms(3) redis_get_counter [OF assms(1), of now] assms(2)
    by (simp add: rate_script_def redis_incr_def redis_pexpire_def redis_pttl_def redis_get_def Let_def)
qed

lemma rate_script_full:
  assumes "counter_key key r" "window_at now key r = Some (n, ex)" "\<not> n < 2 ^ 63 - 1"
  shows "rate_script now key limit w r = (r, Inl (Plain ''ERR increment or decrement would overflow''))"
proof -
  have "n < 2 ^ 63"
    using assms by (auto simp: counter_key_def window_at_def split: option.splits redis_value.splits if_splits)
  then show ?thesis
    using assms redis_get_counter [OF assms(1), of now] by (simp add: rate_script_def redis_incr_def)
qed


subsection \<open>How many requests pass\<close>

text \<open>
  Calls of the limiter by any processes, each with its key, its time and the outcome of its
  command: for each call its key, its time and whether it was let through.
\<close>

fun allow_run :: "int \<Rightarrow> duration \<Rightarrow> (string \<times> time \<times> redis_outcome) list \<Rightarrow> redis \<Rightarrow> (string \<times> time \<times> bool) list" where
  "allow_run limit window [] r = []"
| "allow_run limit window ((key, now, out) # calls) r =
     (case Limiter_Allow out now key limit window r of
        (r', res) \<Rightarrow>
          (key, now, (case res of Inl _ \<Rightarrow> False | Inr x \<Rightarrow> rl_allowed x)) # allow_run limit window calls r')"

text \<open>How many calls for a key are let through from a time on and before another.\<close>

definition passed :: "string \<Rightarrow> time \<Rightarrow> time \<Rightarrow> (string \<times> time \<times> bool) list \<Rightarrow> int" where
  "passed key a b xs = int (length (filter (\<lambda>(k, t, ok). k = key \<and> a \<le> t \<and> t < b \<and> ok) xs))"

lemma passed_simps [simp]:
  "passed key a b [] = 0"
  "passed key a b ((k, t, ok) # xs) = (if k = key \<and> a \<le> t \<and> t < b \<and> ok then 1 else 0) + passed key a b xs"
  by (simp_all add: passed_def)

text \<open>
  What can still pass before a time \<open>b\<close> that is at most a window away: the rest of the open
  window and, if it ends before \<open>b\<close>, all of the next one.
\<close>

definition room :: "int \<Rightarrow> time \<Rightarrow> time \<Rightarrow> string \<Rightarrow> redis \<Rightarrow> int" where
  "room limit now b key r =
     (case window_at now key r of
        None \<Rightarrow> limit
      | Some (n, ex) \<Rightarrow> max 0 (limit - n) + (if ex < b then limit else 0))"

lemma counter_key_upd: "counter_key key (r(key \<mapsto> (RCount n, Some ex))) \<longleftrightarrow> 0 < n \<and> n < 2 ^ 63"
  by (simp add: counter_key_def)

lemma window_at_upd: "window_at now key (r(key \<mapsto> (RCount n, Some ex))) = (if now < ex then Some (n, ex) else None)"
  by (simp add: window_at_def)

lemma room_later: "0 < limit \<Longrightarrow> now \<le> t \<Longrightarrow> t < b \<Longrightarrow> room limit t b key r \<le> room limit now b key r"
  by (auto simp: room_def window_at_def split: option.splits redis_value.splits if_splits)

lemma room_bounds:
  "0 < limit \<Longrightarrow> counter_key key r \<Longrightarrow> 0 \<le> room limit now b key r \<and> room limit now b key r \<le> 2 * limit - 1"
  by (auto simp: room_def window_at_def counter_key_def split: option.splits redis_value.splits if_splits)

text \<open>One call: it keeps the counters, and takes its place from the room.\<close>

lemma Limiter_Allow_room:
  assumes call: "Limiter_Allow out t k limit window r = (r', res)" and k: "counter_key key r"
    and pos: "0 < limit" "millisecond \<le> window" and b: "t < b" "b \<le> t + window div millisecond * millisecond"
  shows "counter_key key r' \<and>
    (if k = key \<and> (\<exists>x. res = Inr x \<and> rl_allowed x) then 1 else 0) + room limit t b key r' \<le> room limit t b key r"
proof -
  let ?w = "window div millisecond"
  have w: "0 < ?w" using pos(2) by (simp add: pos_imp_zdiv_pos_iff)
  obtain s v where sc: "rate_script t k limit ?w r = (s, v)" by fastforce
  have cases: "(r' = r \<and> isl res) \<or> (r' = s \<and> (\<forall>x. res = Inr x \<longrightarrow> (\<exists>vs. v = Inr vs \<and> (rl_allowed x \<longleftrightarrow> toInt64 (vs ! 0) = 1))))"
    using call sc by (auto simp: Limiter_Allow_def Let_def split: redis_outcome.splits sum.splits if_splits)
  show ?thesis
  proof (cases "k = key")
    case False
    then have "s key = r key" using rate_script_other [of key k t limit ?w r] sc by simp
    then have "counter_key key r' \<and> room limit t b key r' = room limit t b key r"
      using cases k by (auto simp: counter_key_def room_def window_at_def)
    with False show ?thesis by simp
  next
    case same: True
    show ?thesis
    proof (cases "window_at t key r")
      case None
      have "s = r(key \<mapsto> (RCount 1, Some (t + ?w * millisecond)))" "v = Inr [AnyInt64 (if 1 > limit then 0 else 1), AnyInt64 1, AnyInt64 ?w]"
        using rate_script_opens [OF k None w, of limit] sc same by simp_all
      then show ?thesis using cases k None b pos(1) w same
        by (auto simp: room_def counter_key_upd window_at_upd)
    next
      case (Some x)
      obtain n ex where x: "x = (n, ex)" by fastforce
      have n: "0 < n" "t < ex"
        using k Some x by (auto simp: counter_key_def window_at_def split: option.splits redis_value.splits if_splits)
      show ?thesis
      proof (cases "n < 2 ^ 63 - 1")
        case True
        have "s = r(key \<mapsto> (RCount (n + 1), Some ex))"
          "v = Inr [AnyInt64 (if n + 1 > limit then 0 else 1), AnyInt64 (n + 1), AnyInt64 ((ex - t) div millisecond)]"
          using rate_script_counts [OF k Some [unfolded x] True, of limit ?w] sc same by simp_all
        then show ?thesis using cases k Some x n True same pos(1)
          by (auto simp: room_def counter_key_upd window_at_upd max_def split: if_splits)
      next
        case False
        then have "s = r" "\<exists>e. v = Inl e" using rate_script_full [OF k Some [unfolded x] False, of limit ?w] sc same by auto
        then show ?thesis using cases k by auto
      qed
    qed
  qed
qed

abbreviation call_times :: "('k \<times> time \<times> redis_outcome) list \<Rightarrow> time list" where
  "call_times calls \<equiv> map (\<lambda>x. fst (snd x)) calls"

lemma passed_nonneg: "0 \<le> passed key a b xs"
  by (simp add: passed_def)

lemma passed_late:
  "\<forall>t \<in> set (call_times calls). b \<le> t \<Longrightarrow> passed key a b (allow_run limit window calls r) = 0"
  by (induction calls arbitrary: r) (auto split: prod.splits)

lemma passed_room:
  assumes "0 < limit" "millisecond \<le> window" "counter_key key r" "sorted (call_times calls)"
    and "\<forall>t \<in> set (call_times calls). now \<le> t" "b \<le> now + window div millisecond * millisecond"
  shows "passed key a b (allow_run limit window calls r) \<le> room limit now b key r"
  using assms(3-6)
proof (induction calls arbitrary: r now)
  case Nil
  then show ?case using room_bounds [OF assms(1)] by simp
next
  case (Cons c calls)
  obtain k t out where c: "c = (k, t, out)" by (cases c) auto
  obtain r' res where call: "Limiter_Allow out t k limit window r = (r', res)" by fastforce
  have t: "now \<le> t" "\<forall>u \<in> set (call_times calls). t \<le> u" "sorted (call_times calls)"
    using Cons.prems c by auto
  show ?case
  proof (cases "t < b")
    case False
    then have "\<forall>u \<in> set (call_times (c # calls)). b \<le> u" using t c by force
    then have "passed key a b (allow_run limit window (c # calls) r) = 0" by (rule passed_late)
    then show ?thesis using room_bounds [OF assms(1) Cons.prems(1), of now b] by linarith
  next
    case True
    have b: "b \<le> t + window div millisecond * millisecond" using Cons.prems(4) t(1) by linarith
    note one = Limiter_Allow_room [OF call Cons.prems(1) assms(1,2) True b]
    have "passed key a b (allow_run limit window calls r') \<le> room limit t b key r'"
      using Cons.IH [OF conjunct1 [OF one] t(3,2) b] .
    moreover have "passed key a b (allow_run limit window (c # calls) r) \<le>
        (if k = key \<and> (\<exists>x. res = Inr x \<and> rl_allowed x) then 1 else 0) + passed key a b (allow_run limit window calls r')"
      using c call by (auto split: sum.splits)
    ultimately have "passed key a b (allow_run limit window (c # calls) r) \<le> room limit t b key r" using one by linarith
    also have "\<dots> \<le> room limit now b key r" using room_later [OF assms(1) t(1) True] .
    finally show ?thesis .
  qed
qed

lemma passed_window:
  assumes "0 < limit" "millisecond \<le> window" "counter_key key r" "sorted (call_times calls)"
  shows "passed key a (a + window div millisecond * millisecond) (allow_run limit window calls r) \<le> 2 * limit - 1"
  using assms(3,4)
proof (induction calls arbitrary: r)
  case (Cons c calls)
  obtain k t out where c: "c = (k, t, out)" by (cases c) auto
  show ?case
  proof (cases "t < a")
    case True
    obtain r' res where call: "Limiter_Allow out t k limit window r = (r', res)" by fastforce
    have "t < t + window div millisecond * millisecond" using assms(2) by (simp add: pos_imp_zdiv_pos_iff)
    then have "counter_key key r'"
      using Limiter_Allow_room [OF call Cons.prems(1) assms(1,2), of "t + window div millisecond * millisecond"] by blast
    then show ?thesis using Cons.IH [of r'] Cons.prems(2) c call True by simp
  next
    case False
    then have "\<forall>u \<in> set (call_times (c # calls)). t \<le> u"
      "a + window div millisecond * millisecond \<le> t + window div millisecond * millisecond" using Cons.prems(2) c by auto
    then have "passed key a (a + window div millisecond * millisecond) (allow_run limit window (c # calls) r) \<le>
        room limit t (a + window div millisecond * millisecond) key r"
      by (rule passed_room [OF assms(1,2) Cons.prems])
    also have "\<dots> \<le> 2 * limit - 1" using room_bounds [OF assms(1) Cons.prems(1)] by blast
    finally show ?thesis .
  qed
qed (use assms(1) in simp)


subsection \<open>Properties of the middleware\<close>

text \<open>
  Requests through the middleware, each with its time and the outcome of its command: for each
  its key, its time and whether the handler behind was run.
\<close>

fun served :: "rate_config \<Rightarrow> (http_request \<Rightarrow> string) \<Rightarrow> (http_request \<times> time \<times> redis_outcome) list \<Rightarrow> redis \<Rightarrow>
    (string \<times> time \<times> bool) list" where
  "served cfg kf [] r = []"
| "served cfg kf ((req, now, out) # reqs) r =
     (case RateLimit_Middleware (Some (Limiter_Allow out now)) (cfg\<lparr>rc_key_func := Some kf\<rparr>)
             (\<lambda>q st. ((fst st, True), response_OK ())) req (r, False) of
        ((r', hit), _) \<Rightarrow> (kf req, now, hit) # served cfg kf reqs r')"

lemma passed_served:
  assumes "0 < rc_limit cfg" "0 < rc_window cfg" "key \<noteq> ''''"
  shows "passed key a b (served cfg kf reqs r) =
    passed key a b (allow_run (rc_limit cfg) (rc_window cfg) (map (map_prod kf id) (filter (\<lambda>x. kf (fst x) \<noteq> '''') reqs)) r)"
proof (induction reqs arbitrary: r)
  case (Cons x reqs)
  obtain req now out where x: "x = (req, now, out)" by (cases x) auto
  obtain r' res where "Limiter_Allow out now (kf req) (rc_limit cfg) (rc_window cfg) r = (r', res)" by fastforce
  then show ?case
    using Cons.IH [of r] Cons.IH [of r'] assms x
    by (auto simp: RateLimit_Middleware_def add_headers_def split: sum.splits)
qed simp

text \<open>Requests of one kind, with nothing failing.\<close>

lemma served_allow_run:
  assumes "0 < rc_limit cfg" "0 < rc_window cfg" "kf req \<noteq> ''''"
  shows "served cfg kf (map (\<lambda>t. (req, t, RDone)) ts) r =
    allow_run (rc_limit cfg) (rc_window cfg) (map (\<lambda>t. (kf req, t, RDone)) ts) r"
  using assms
  by (induction ts arbitrary: r)
    (auto simp: RateLimit_Middleware_def add_headers_def split: sum.splits prod.splits)

lemma allow_run_open:
  assumes "0 < n" "n + int (length ts) < 2 ^ 63" "\<forall>t \<in> set ts. t < ex" "r key = Some (RCount n, Some ex)"
  shows "allow_run limit window (map (\<lambda>t. (key, t, RDone)) ts) r =
    map (\<lambda>i. (key, ts ! i, n + int i < limit)) [0..<length ts]"
  using assms
proof (induction ts arbitrary: n r)
  case (Cons t ts)
  let ?r = "r(key \<mapsto> (RCount (n + 1), Some ex))"
  have k: "counter_key key r" "window_at t key r = Some (n, ex)" "n < 2 ^ 63 - 1"
    using Cons.prems by (simp_all add: counter_key_def window_at_def)
  have "allow_run limit window (map (\<lambda>t. (key, t, RDone)) ts) ?r = map (\<lambda>i. (key, ts ! i, n + 1 + int i < limit)) [0..<length ts]"
    using Cons.prems by (intro Cons.IH) simp_all
  then show ?case
    using rate_script_counts [OF k, of limit "window div millisecond"]
    by (simp add: Limiter_Allow_def Let_def map_upt_Suc algebra_simps del: upt_Suc)
qed simp

text \<open>The limiter opens a window, and lets requests of one time in it through up to the limit.\<close>

lemma Limiter_Allow_opens:
  assumes "0 < limit" "millisecond \<le> window" "counter_key key r" "window_at t key r = None"
  shows "Limiter_Allow RDone t key limit window r =
    (r(key \<mapsto> (RCount 1, Some (t + window div millisecond * millisecond))),
     Inr \<lparr>rl_allowed = True, rl_limit = limit, rl_remaining = limit - 1, rl_retry_after = 0,
           rl_reset_after = window div millisecond * millisecond\<rparr>)"
proof -
  have "0 < window div millisecond" using assms(2) by (simp add: pos_imp_zdiv_pos_iff)
  from rate_script_opens [OF assms(3,4) this, of limit] show ?thesis
    using assms(1) by (simp add: Limiter_Allow_def Let_def)
qed

lemma window_positive:
  assumes "millisecond \<le> window"
  shows "1 < window div millisecond * millisecond"
proof -
  have "1 \<le> window div millisecond" using zdiv_mono1 [OF assms, of millisecond] by simp
  then show ?thesis by simp
qed

lemma allow_run_same_time:
  assumes "0 < n" "n + int m \<le> limit" "limit < 2 ^ 63" "u < ex" "r key = Some (RCount n, Some ex)"
  shows "allow_run limit window (replicate m (key, u, RDone) @ calls) r =
    replicate m (key, u, True) @ allow_run limit window calls (r(key \<mapsto> (RCount (n + int m), Some ex)))"
  using assms
proof (induction m arbitrary: n r)
  case (Suc m)
  have k: "counter_key key r" "window_at u key r = Some (n, ex)" "n < 2 ^ 63 - 1"
    using Suc.prems by (simp_all add: counter_key_def window_at_def)
  have "allow_run limit window (replicate m (key, u, RDone) @ calls) (r(key \<mapsto> (RCount (n + 1), Some ex))) =
      replicate m (key, u, True) @ allow_run limit window calls (r(key \<mapsto> (RCount (n + 1 + int m), Some ex)))"
    by (rule trans [OF Suc.IH [of "n + 1" "r(key \<mapsto> (RCount (n + 1), Some ex))"]])
      (use Suc.prems in \<open>simp_all del: fun_upd_apply add: fun_upd_same\<close>)
  then show ?case
    using rate_script_counts [OF k, of limit "window div millisecond"] Suc.prems
    by (simp add: Limiter_Allow_def Let_def add.assoc del: fun_upd_apply)
qed (simp add: fun_upd_idem)

lemma passed_append: "passed key a b (xs @ ys) = passed key a b xs + passed key a b ys"
  by (simp add: passed_def)

lemma passed_replicate:
  "a \<le> u \<Longrightarrow> u < b \<Longrightarrow> passed key a b (replicate m (key, u, True)) = int m"
  by (induction m) simp_all

text \<open>
  One request opens a window, the rest of the limit comes in its last nanosecond and the whole
  limit as soon as it has ended: twice the limit less one within less than a window.
\<close>

lemma passed_reached:
  assumes "0 < limit" "limit < 2 ^ 63" "millisecond \<le> window" "counter_key key r" "window_at t key r = None"
  defines "w \<equiv> window div millisecond * millisecond" and "m \<equiv> nat (limit - 1)"
  shows "passed key (t + w - 1) (t + w - 1 + w)
      (allow_run limit window ((key, t, RDone) # replicate m (key, t + w - 1, RDone) @
         (key, t + w, RDone) # replicate m (key, t + w, RDone)) r) = 2 * limit - 1"
proof -
  have w: "1 < w" unfolding w_def by (rule window_positive [OF assms(3)])
  have m: "1 + int m = limit" using assms(1) by (simp add: m_def)
  let ?r1 = "r(key \<mapsto> (RCount 1, Some (t + w)))" and ?r2 = "r(key \<mapsto> (RCount limit, Some (t + w)))"
  have one: "allow_run limit window ((key, t, RDone) # cs) r = (key, t, True) # allow_run limit window cs ?r1" for cs
    using Limiter_Allow_opens [OF assms(1,3-5)] by (simp add: w_def)
  have two: "allow_run limit window (replicate m (key, t + w - 1, RDone) @ cs) ?r1 =
      replicate m (key, t + w - 1, True) @ allow_run limit window cs ?r2" for cs
    using allow_run_same_time [of 1 m limit "t + w - 1" "t + w" ?r1 key window cs] m assms(2) by simp
  have k: "counter_key key ?r2" "window_at (t + w) key ?r2 = None"
    using assms(1,2) by (simp_all add: counter_key_def window_at_def)
  have three: "allow_run limit window ((key, t + w, RDone) # replicate m (key, t + w, RDone)) ?r2 =
      (key, t + w, True) # replicate m (key, t + w, True)"
    using Limiter_Allow_opens [OF assms(1,3) k] m assms(2) w
      allow_run_same_time [of 1 m limit "t + w" "t + w + w" "r(key \<mapsto> (RCount 1, Some (t + w + w)))" key window "[]"]
    by (simp add: w_def)
  show ?thesis unfolding one two three using w m
    by (simp add: passed_append passed_replicate)
qed

text \<open>
  C21. However many requests for a key come, from whatever processes, and whatever commands fail,
  fewer than twice the limit get through to the handler in any stretch of time as long as the
  window (in whole milliseconds): the window is fixed, not sliding. The bound is reached for every
  limit (that fits 64 bits): whenever no window of the key is open, requests can come so that
  exactly twice the limit less one get through in such a stretch.
\<close>

theorem rate_limit_per_window:
  assumes "0 < rc_limit cfg" "millisecond \<le> rc_window cfg" "key \<noteq> ''''" "counter_key key r" "sorted (call_times reqs)"
  shows "passed key a (a + rc_window cfg div millisecond * millisecond) (served cfg kf reqs r) \<le> 2 * rc_limit cfg - 1 \<and>
    (rc_limit cfg < 2 ^ 63 \<and> kf req = key \<and> window_at t key r = None \<longrightarrow>
      (\<exists>ts. sorted (t # ts) \<and>
         passed key (t + rc_window cfg div millisecond * millisecond - 1)
           (t + rc_window cfg div millisecond * millisecond - 1 + rc_window cfg div millisecond * millisecond)
           (served cfg kf (map (\<lambda>u. (req, u, RDone)) (t # ts)) r) = 2 * rc_limit cfg - 1))"
proof (intro conjI impI, goal_cases)
  case 1
  let ?calls = "map (map_prod kf id) (filter (\<lambda>x. kf (fst x) \<noteq> '''') reqs)"
  have "call_times ?calls = call_times (filter (\<lambda>x. kf (fst x) \<noteq> '''') reqs)" by (simp add: comp_def)
  then have "sorted (call_times ?calls)" using sorted_filter [OF assms(5)] by metis
  then show ?case
    using passed_window [OF assms(1,2,4)] passed_served [of cfg key] assms(1-3) by simp
next
  case 2
  let ?w = "rc_window cfg div millisecond * millisecond" and ?m = "nat (rc_limit cfg - 1)"
  let ?ts = "replicate ?m (t + ?w - 1) @ (t + ?w) # replicate ?m (t + ?w)"
  have w: "0 < rc_window cfg" "1 < ?w" using assms(2) window_positive [OF assms(2)] by simp_all
  have "kf req \<noteq> ''''" using 2 assms(3) by simp
  then have "served cfg kf (map (\<lambda>u. (req, u, RDone)) (t # ?ts)) r =
      allow_run (rc_limit cfg) (rc_window cfg) (map (\<lambda>u. (key, u, RDone)) (t # ?ts)) r"
    using served_allow_run [of cfg kf req "t # ?ts" r] assms(1) w(1) 2 by simp
  moreover have "sorted (t # ?ts)" using w(2) by (auto simp: sorted_append)
  ultimately show ?case
    using passed_reached [OF assms(1) _ assms(2,4), of t] 2 by (intro exI [of _ ?ts]) simp
qed

text \<open>
  On a key whose window is not open, the requests that come within the window of the first
  one are let through up to the limit, in their order, and refused beyond it; the first request
  after the end of a window is such a first request again.
\<close>

theorem rate_limit_first_requests:
  assumes "0 < rc_limit cfg" "millisecond \<le> rc_window cfg" "kf req \<noteq> ''''" "counter_key (kf req) r"
    and "window_at t (kf req) r = None" "\<forall>u \<in> set ts. u < t + rc_window cfg div millisecond * millisecond"
    and "int (length ts) < 2 ^ 63 - 1"
  shows "served cfg kf (map (\<lambda>t. (req, t, RDone)) (t # ts)) r =
      map (\<lambda>i. (kf req, (t # ts) ! i, int i < rc_limit cfg)) [0..<Suc (length ts)] \<and>
    (\<exists>r'. fst (Limiter_Allow RDone t (kf req) (rc_limit cfg) (rc_window cfg) r) = r' \<and>
       window_at (t + rc_window cfg div millisecond * millisecond) (kf req) r' = None)"
proof -
  let ?w = "rc_window cfg div millisecond" and ?key = "kf req"
  let ?r = "r(?key \<mapsto> (RCount 1, Some (t + ?w * millisecond)))"
  have w: "0 < ?w" "0 < rc_window cfg" using assms(2) by (simp_all add: pos_imp_zdiv_pos_iff)
  have "allow_run (rc_limit cfg) (rc_window cfg) (map (\<lambda>t. (?key, t, RDone)) ts) ?r =
      map (\<lambda>i. (?key, ts ! i, 1 + int i < rc_limit cfg)) [0..<length ts]"
    using assms(6,7) by (intro allow_run_open) simp_all
  moreover note call = Limiter_Allow_opens [OF assms(1,2,4,5)]
  ultimately have "served cfg kf (map (\<lambda>t. (req, t, RDone)) (t # ts)) r =
      (?key, t, True) # map (\<lambda>i. (?key, ts ! i, 1 + int i < rc_limit cfg)) [0..<length ts]"
    using served_allow_run [of cfg kf req "t # ts" r] assms(1,3) w(2) by simp
  also have "\<dots> = map (\<lambda>i. (?key, (t # ts) ! i, int i < rc_limit cfg)) [0..<Suc (length ts)]"
    using assms(1) by (simp add: map_upt_Suc del: upt_Suc)
  finally show ?thesis using call by (simp add: window_at_def)
qed


subsection \<open>Witnesses\<close>

definition sample_rate_config :: rate_config where
  "sample_rate_config = \<lparr>rc_limit = 2, rc_window = second, rc_key_func = None\<rparr>"

definition sample_login_request :: http_request where
  "sample_login_request = \<lparr>hr_method = ''POST'', hr_header = (\<lambda>_. ''''), hr_param = (\<lambda>_. ''''), hr_query = (\<lambda>_. ''''),
     hr_user_id = None, hr_request_id = None\<rparr>"

definition sample_key :: "http_request \<Rightarrow> string" where
  "sample_key = ClientIPKey (\<lambda>_. ''10.0.0.9'') ''login''"

lemma sample_key_nonempty: "sample_key req \<noteq> ''''"
  by (simp add: sample_key_def ClientIPKey_def)

text \<open>With a limit of two, three requests get through in one second: the bound is reached.\<close>

definition sample_burst :: "(http_request \<times> time \<times> redis_outcome) list" where
  "sample_burst = map (\<lambda>t. (sample_login_request, t, RDone)) [0, 900000000, 1000000000, 1100000000, 1200000000]"

lemma sample_burst_served:
  "map (\<lambda>(k, t, ok). ok) (served sample_rate_config sample_key sample_burst (\<lambda>_. None)) = [True, True, True, True, False]"
  by (simp add: sample_burst_def sample_rate_config_def sample_key_nonempty RateLimit_Middleware_def add_headers_def
      Limiter_Allow_def rate_script_def redis_incr_def redis_get_def redis_pexpire_def redis_pttl_def Let_def)

theorem rate_limit_per_window_witness:
  "passed (sample_key sample_login_request) 900000000 1900000000
     (served sample_rate_config sample_key sample_burst (\<lambda>_. None)) \<le> 3 \<and>
   (\<exists>ts. passed (sample_key sample_login_request) 999999999 1999999999
     (served sample_rate_config sample_key (map (\<lambda>u. (sample_login_request, u, RDone)) (0 # ts)) (\<lambda>_. None)) = 3)"
proof -
  have "0 < rc_limit sample_rate_config" "millisecond \<le> rc_window sample_rate_config"
    "counter_key (sample_key sample_login_request) (\<lambda>_. None)" "sorted (call_times sample_burst)"
    by (simp_all add: sample_rate_config_def counter_key_def sample_burst_def)
  note rule = rate_limit_per_window [OF this(1,2) sample_key_nonempty this(3,4), of 900000000 sample_key sample_login_request 0]
  have "rc_limit sample_rate_config < 2 ^ 63" "window_at 0 (sample_key sample_login_request) (\<lambda>_. None) = None"
    by (simp_all add: sample_rate_config_def window_at_def)
  with rule show ?thesis by (auto simp: sample_rate_config_def)
qed

theorem rate_limit_first_requests_witness:
  "map (\<lambda>(k, t, ok). ok) (served sample_rate_config sample_key
     (map (\<lambda>t. (sample_login_request, t, RDone)) [5, 6, 7]) (\<lambda>_. None)) = [True, True, False]"
proof -
  have "0 < rc_limit sample_rate_config" "millisecond \<le> rc_window sample_rate_config"
    "counter_key (sample_key sample_login_request) (\<lambda>_. None)"
    "window_at 5 (sample_key sample_login_request) (\<lambda>_. None) = None"
    "\<forall>u \<in> set [6, 7]. u < 5 + rc_window sample_rate_config div millisecond * millisecond"
    by (simp_all add: sample_rate_config_def counter_key_def window_at_def)
  with rate_limit_first_requests [of sample_rate_config sample_key sample_login_request "\<lambda>_. None" 5 "[6, 7]"]
  show ?thesis by (simp add: sample_rate_config_def sample_key_nonempty)
qed

end
