(* ===== verification/Router.thy ===== *)
theory Router
  imports Rate_Limiter
begin

section \<open>Routes and health\<close>

text \<open>
  \<open>internal/http/router.go\<close>, the \<open>route.go\<close> files of the modules, the registration in
  \<open>internal/app/server.go\<close> and \<open>internal/http/handler/health.go\<close>. Which of its routes a request
  meets is decided by Gin; a route is its method, its path, the middleware before it and the
  handler it names. Metrics, tracing, logging and the recovery from panics leave the answers of the
  model alone.
\<close>

subsection \<open>The table of routes\<close>

datatype endpoint =
    EpRegister | EpLogin | EpRefresh | EpLogout | EpMe
  | EpSourceCreate | EpSourceList | EpSourceGet | EpSourceUpdate | EpSourceDelete
  | EpArticleList | EpArticleGet | EpArticleMarkRead | EpArticleSave
  | EpCollectSource | EpRequestCollection | EpListCollectionRuns | EpGetCollectionRun
  | EpDlqList | EpDlqReplay | EpDlqMarkHandled
  | EpRequestSummary | EpGetSummary | EpGenerateEmbedding | EpSimilarArticles | EpGenerateDigest | EpGetDigest
  | EpRAGSearch | EpGetAISettings | EpUpdateAISettings
  | EpLiveness | EpReadiness | EpMetrics | EpOpenAPI | EpRedoc

datatype route_step = StepAuth | StepLoginLimit | StepCollectLimit

record route =
  ro_method :: string
  ro_path :: string
  ro_steps :: "route_step list"
  ro_endpoint :: endpoint

definition mk_route :: "string \<Rightarrow> string \<Rightarrow> route_step list \<Rightarrow> endpoint \<Rightarrow> route" where
  "mk_route m p steps e = \<lparr>ro_method = m, ro_path = p, ro_steps = steps, ro_endpoint = e\<rparr>"

text \<open>A group of routes under a path with its own middleware.\<close>

definition group :: "string \<Rightarrow> route_step list \<Rightarrow> route list \<Rightarrow> route list" where
  "group p steps rs = map (\<lambda>r. r\<lparr>ro_path := p @ ro_path r, ro_steps := steps @ ro_steps r\<rparr>) rs"

definition auth_RegisterRoutes :: "route list" where
  "auth_RegisterRoutes =
     group ''/auth'' []
       [mk_route ''POST'' ''/register'' [] EpRegister, mk_route ''POST'' ''/login'' [StepLoginLimit] EpLogin,
        mk_route ''POST'' ''/refresh'' [] EpRefresh, mk_route ''POST'' ''/logout'' [] EpLogout] @
     group '''' [StepAuth] [mk_route ''GET'' ''/me'' [] EpMe]"

definition source_RegisterRoutes :: "route list" where
  "source_RegisterRoutes =
     group ''/sources'' [StepAuth]
       [mk_route ''POST'' '''' [] EpSourceCreate, mk_route ''GET'' '''' [] EpSourceList, mk_route ''GET'' ''/:id'' [] EpSourceGet,
        mk_route ''PATCH'' ''/:id'' [] EpSourceUpdate, mk_route ''DELETE'' ''/:id'' [] EpSourceDelete]"

definition article_RegisterRoutes :: "route list" where
  "article_RegisterRoutes =
     group ''/articles'' [StepAuth]
       [mk_route ''GET'' '''' [] EpArticleList, mk_route ''GET'' ''/:id'' [] EpArticleGet,
        mk_route ''PATCH'' ''/:id/read'' [] EpArticleMarkRead, mk_route ''PATCH'' ''/:id/save'' [] EpArticleSave]"

definition collector_RegisterCollectionRunRoutes :: "route list" where
  "collector_RegisterCollectionRunRoutes =
     group ''/sources'' [StepAuth] [mk_route ''GET'' ''/:id/collection-runs'' [] EpListCollectionRuns] @
     [mk_route ''GET'' ''/collection-runs/:id'' [StepAuth] EpGetCollectionRun]"

definition collector_RegisterRoutes :: "route list" where
  "collector_RegisterRoutes =
     group ''/sources'' [StepAuth] [mk_route ''POST'' ''/:id/collect'' [StepCollectLimit] EpCollectSource] @
     collector_RegisterCollectionRunRoutes"

definition collector_RegisterAsyncRoutes :: "route list" where
  "collector_RegisterAsyncRoutes =
     group ''/sources'' [StepAuth] [mk_route ''POST'' ''/:id/collect'' [StepCollectLimit] EpRequestCollection]"

definition RegisterDLQRoutes :: "route list" where
  "RegisterDLQRoutes =
     group ''/collection-dlq'' [StepAuth]
       [mk_route ''GET'' '''' [] EpDlqList, mk_route ''POST'' ''/:id/replay'' [] EpDlqReplay,
        mk_route ''POST'' ''/:id/handled'' [] EpDlqMarkHandled]"

definition ai_RegisterRoutes :: "route list" where
  "ai_RegisterRoutes =
     group ''/articles'' [StepAuth]
       [mk_route ''POST'' ''/:id/summary'' [] EpRequestSummary, mk_route ''GET'' ''/:id/summary'' [] EpGetSummary,
        mk_route ''POST'' ''/:id/embedding'' [] EpGenerateEmbedding, mk_route ''GET'' ''/:id/similar'' [] EpSimilarArticles] @
     group ''/ai'' [StepAuth]
       [mk_route ''POST'' ''/digests/:date'' [] EpGenerateDigest, mk_route ''GET'' ''/digests/:date'' [] EpGetDigest,
        mk_route ''POST'' ''/rag-search'' [] EpRAGSearch, mk_route ''GET'' ''/settings'' [] EpGetAISettings,
        mk_route ''PUT'' ''/settings'' [] EpUpdateAISettings]"

text \<open>The registration of the server: with Kafka collections are requested, without it they run at once.\<close>

definition api_routes :: "bool \<Rightarrow> route list" where
  "api_routes kafka =
     auth_RegisterRoutes @ source_RegisterRoutes @ article_RegisterRoutes @ ai_RegisterRoutes @
     (if kafka then collector_RegisterAsyncRoutes @ collector_RegisterCollectionRunRoutes else collector_RegisterRoutes) @
     (if kafka then RegisterDLQRoutes else [])"

record router_options =
  rp_metrics :: bool
  rp_tracing_service_name :: string
  rp_cors_allowed_origins :: "string list"

definition WithMetrics :: "router_options \<Rightarrow> router_options" where
  "WithMetrics opts = opts\<lparr>rp_metrics := True\<rparr>"

definition WithTracing :: "string \<Rightarrow> router_options \<Rightarrow> router_options" where
  "WithTracing serviceName opts = opts\<lparr>rp_tracing_service_name := serviceName\<rparr>"

definition WithCORSAllowedOrigins :: "string list \<Rightarrow> router_options \<Rightarrow> router_options" where
  "WithCORSAllowedOrigins origins opts = opts\<lparr>rp_cors_allowed_origins := origins\<rparr>"

definition new_router_options :: "(router_options \<Rightarrow> router_options) list \<Rightarrow> router_options" where
  "new_router_options opts =
     fold (\<lambda>opt x. opt x) opts \<lparr>rp_metrics = False, rp_tracing_service_name = '''', rp_cors_allowed_origins = []\<rparr>"

definition router_routes :: "router_options \<Rightarrow> bool \<Rightarrow> route list" where
  "router_routes opts kafka =
     group ''/api/v1'' [] (api_routes kafka) @
     [mk_route ''GET'' ''/healthz'' [] EpLiveness, mk_route ''GET'' ''/readyz'' [] EpReadiness] @
     (if rp_metrics opts then [mk_route ''GET'' ''/metrics'' [] EpMetrics] else []) @
     [mk_route ''GET'' ''/openapi.yaml'' [] EpOpenAPI, mk_route ''GET'' ''/docs'' [] EpRedoc]"


subsection \<open>Serving a route\<close>

fun route_chain ::
  "(('s, 'a) handler \<Rightarrow> ('s, 'a) handler) \<Rightarrow> (('s, 'a) handler \<Rightarrow> ('s, 'a) handler) \<Rightarrow> (('s, 'a) handler \<Rightarrow> ('s, 'a) handler) \<Rightarrow>
   route_step list \<Rightarrow> ('s, 'a) handler \<Rightarrow> ('s, 'a) handler" where
  "route_chain auth login collect [] h = h"
| "route_chain auth login collect (StepAuth # steps) h = auth (route_chain auth login collect steps h)"
| "route_chain auth login collect (StepLoginLimit # steps) h = login (route_chain auth login collect steps h)"
| "route_chain auth login collect (StepCollectLimit # steps) h = collect (route_chain auth login collect steps h)"

text \<open>The middleware before every route; \<open>bytes\<close> and \<open>now\<close> are what a new request id is made of.\<close>

definition NewRouter ::
  "router_options \<Rightarrow> string option \<Rightarrow> time \<Rightarrow> ('s, 'a) handler \<Rightarrow> ('s, 'a) handler" where
  "NewRouter opts bytes now h =
     SecurityHeaders
       ((if rp_cors_allowed_origins opts \<noteq> [] then CORS (rp_cors_allowed_origins opts) else (\<lambda>x. x))
          (RequestID bytes now h))"


subsection \<open>Health\<close>

record health_deps =
  hd_postgres :: string
  hd_redis :: string

record health_answer =
  hx_status :: string
  hx_service :: string
  hx_deps :: "health_deps option"

definition Liveness :: "('s, health_answer) handler" where
  "Liveness req s = (s, response_OK \<lparr>hx_status = ''ok'', hx_service = ''contentflow'', hx_deps = None\<rparr>)"

text \<open>\<open>postgres\<close> and \<open>redis\<close> are the errors of the two pings.\<close>

definition Readiness :: "go_error option \<Rightarrow> go_error option \<Rightarrow> ('s, health_answer) handler" where
  "Readiness postgres redis req s =
     (let deps = \<lparr>hd_postgres = (case postgres of None \<Rightarrow> ''ok'' | Some e \<Rightarrow> error_text e),
                  hd_redis = (case redis of None \<Rightarrow> ''ok'' | Some e \<Rightarrow> error_text e)\<rparr>;
          ready = (hd_postgres deps = ''ok'' \<and> hd_redis deps = ''ok'')
      in (s, \<lparr>rs_status = (if ready then 200 else 503), rs_headers = [],
              rs_body = JsonData \<lparr>hx_status = (if ready then ''ready'' else ''not ready''), hx_service = ''contentflow'',
                                  hx_deps = Some deps\<rparr>\<rparr>))"


subsection \<open>Properties\<close>

definition public_endpoints :: "endpoint set" where
  "public_endpoints = {EpRegister, EpLogin, EpRefresh, EpLogout}"

lemmas route_tables =
  auth_RegisterRoutes_def source_RegisterRoutes_def article_RegisterRoutes_def collector_RegisterCollectionRunRoutes_def
  collector_RegisterRoutes_def collector_RegisterAsyncRoutes_def RegisterDLQRoutes_def ai_RegisterRoutes_def group_def mk_route_def

lemma api_routes_protected:
  "list_all (\<lambda>r. ro_endpoint r \<in> public_endpoints \<or> (\<exists>steps. ro_steps r = StepAuth # steps)) (api_routes kafka)"
  by (cases kafka) (simp_all add: api_routes_def route_tables public_endpoints_def)

lemma api_routes_limited:
  "list_all (\<lambda>r. (ro_endpoint r = EpLogin \<longrightarrow> ro_steps r = [StepLoginLimit]) \<and>
     (ro_endpoint r \<in> {EpCollectSource, EpRequestCollection} \<longrightarrow> ro_steps r = [StepAuth, StepCollectLimit])) (api_routes kafka)"
  by (cases kafka) (simp_all add: api_routes_def route_tables)

text \<open>No two routes have the same method and path: Gin panics at the registration of such a pair.\<close>

lemma router_routes_distinct: "distinct (map (\<lambda>r. (ro_method r, ro_path r)) (router_routes opts kafka))"
  by (cases kafka; cases "rp_metrics opts") (simp_all add: router_routes_def api_routes_def route_tables)

text \<open>
  The routes outside \<open>/api/v1\<close> are the five operational ones; all others are routes of the
  interface under its path.
\<close>

lemma router_route_cases:
  assumes "r \<in> set (router_routes opts kafka)"
  shows "(\<exists>x \<in> set (api_routes kafka). ro_steps r = ro_steps x \<and> ro_endpoint r = ro_endpoint x) \<or>
    ro_endpoint r \<in> {EpLiveness, EpReadiness, EpMetrics, EpOpenAPI, EpRedoc} \<and>
    (ro_method r, ro_path r) \<in> {(''GET'', ''/healthz''), (''GET'', ''/readyz''), (''GET'', ''/metrics''),
      (''GET'', ''/openapi.yaml''), (''GET'', ''/docs'')}"
  using assms unfolding router_routes_def set_append Un_iff
  by (elim disjE) (auto simp: group_def mk_route_def split: if_splits)

lemma router_routes_login:
  "\<forall>x \<in> set (router_routes opts kafka). ro_endpoint x = EpLogin \<longrightarrow> ro_steps x = [StepLoginLimit]"
proof (intro ballI impI)
  fix r assume r: "r \<in> set (router_routes opts kafka)" "ro_endpoint r = EpLogin"
  then obtain x where "x \<in> set (api_routes kafka)" "ro_steps r = ro_steps x" "ro_endpoint x = EpLogin"
    using router_route_cases [OF r(1)] by auto
  then show "ro_steps r = [StepLoginLimit]" using api_routes_limited [of kafka] by (auto simp: list_all_iff)
qed

lemma router_routes_open:
  "\<forall>x \<in> set (router_routes opts kafka).
     (\<exists>steps. ro_steps x = StepAuth # steps) \<or> ro_endpoint x \<in> {EpRegister, EpLogin, EpRefresh, EpLogout} \<or>
     (ro_method x, ro_path x) \<in> {(''GET'', ''/healthz''), (''GET'', ''/readyz''), (''GET'', ''/metrics''),
       (''GET'', ''/openapi.yaml''), (''GET'', ''/docs'')}"
proof
  fix r assume "r \<in> set (router_routes opts kafka)"
  from router_route_cases [OF this] api_routes_protected [of kafka]
  show "(\<exists>steps. ro_steps r = StepAuth # steps) \<or> ro_endpoint r \<in> {EpRegister, EpLogin, EpRefresh, EpLogout} \<or>
     (ro_method r, ro_path r) \<in> {(''GET'', ''/healthz''), (''GET'', ''/readyz''), (''GET'', ''/metrics''),
       (''GET'', ''/openapi.yaml''), (''GET'', ''/docs'')}"
    by (auto simp: list_all_iff public_endpoints_def)
qed

definition authorized :: "(string \<Rightarrow> int result) \<Rightarrow> http_request \<Rightarrow> int \<Rightarrow> bool" where
  "authorized parse req uid \<longleftrightarrow>
     (\<exists>b t. strings_fields (hr_header req ''Authorization'') = [b, t] \<and> equal_fold_bearer b \<and> parse t = Inr uid \<and> 0 < uid)"

lemma AuthRequired_refuses:
  "\<nexists>uid. authorized parse req uid \<Longrightarrow> \<exists>resp. AuthRequired parse nxt req s = (s, resp) \<and> rs_status resp = 401"
  using auth_required_gate [of req parse nxt s] unfolding authorized_def equal_fold_bearer_def
  by (metis prod.collapse)

lemma AuthRequired_passes:
  "authorized parse req uid \<Longrightarrow> AuthRequired parse nxt req s = nxt (requestctx_WithUserID uid req) s"
  by (auto simp: AuthRequired_def authorized_def strings_fields_def Let_def)

text \<open>The middleware before the routes leaves state and status alone, and its headers are on every answer.\<close>

lemma add_headers_parts [simp]:
  "fst (add_headers hs x) = fst x" "rs_status (snd (add_headers hs x)) = rs_status (snd x)"
  "rs_body (snd (add_headers hs x)) = rs_body (snd x)" "rs_headers (snd (add_headers hs x)) = hs @ rs_headers (snd x)"
  by (simp_all add: add_headers_def split_beta)

lemma SecurityHeaders_parts:
  "fst (SecurityHeaders nxt req s) = fst (nxt req s)"
  "rs_status (snd (SecurityHeaders nxt req s)) = rs_status (snd (nxt req s))"
  "rs_body (snd (SecurityHeaders nxt req s)) = rs_body (snd (nxt req s))"
  by (simp_all only: SecurityHeaders_def add_headers_parts)

lemma SecurityHeaders_keeps: "set (rs_headers (snd (nxt req s))) \<subseteq> set (rs_headers (snd (SecurityHeaders nxt req s)))"
  by (simp only: SecurityHeaders_def add_headers_parts set_append Un_upper2)

lemma SecurityHeaders_frame: "(''X-Frame-Options'', ''DENY'') \<in> set (rs_headers (snd (SecurityHeaders nxt req s)))"
  by (simp only: SecurityHeaders_def add_headers_parts set_append list.set insert_iff Un_iff simp_thms)

lemma CORS_parts:
  assumes "hr_method req \<noteq> ''OPTIONS''"
  shows "\<exists>hs. CORS origins nxt req s = add_headers hs (nxt req s)"
  using assms by (simp only: CORS_def Let_def if_False) blast

lemma NewRouter_answer:
  assumes "hr_method req \<noteq> ''OPTIONS''"
  obtains i where "fst (NewRouter opts bytes now h req s) = fst (h (requestctx_WithRequestID i req) s)"
    "rs_status (snd (NewRouter opts bytes now h req s)) = rs_status (snd (h (requestctx_WithRequestID i req) s))"
    "rs_body (snd (NewRouter opts bytes now h req s)) = rs_body (snd (h (requestctx_WithRequestID i req) s))"
    "(''X-Request-ID'', i) \<in> set (rs_headers (snd (NewRouter opts bytes now h req s)))"
    "(''X-Frame-Options'', ''DENY'') \<in> set (rs_headers (snd (NewRouter opts bytes now h req s)))"
proof -
  define nxt where "nxt = (if rp_cors_allowed_origins opts \<noteq> [] then CORS (rp_cors_allowed_origins opts) else (\<lambda>x. x)) (RequestID bytes now h)"
  define i where "i = (if hr_header req ''X-Request-ID'' = '''' then newRequestID bytes now else hr_header req ''X-Request-ID'')"
  have router: "NewRouter opts bytes now h = SecurityHeaders nxt" by (simp only: NewRouter_def nxt_def)
  have rid: "RequestID bytes now h req s = add_headers [(''X-Request-ID'', i)] (h (requestctx_WithRequestID i req) s)"
    by (simp only: RequestID_def Let_def i_def)
  have "\<exists>hs. nxt req s = add_headers hs (add_headers [(''X-Request-ID'', i)] (h (requestctx_WithRequestID i req) s))"
  proof (cases "rp_cors_allowed_origins opts = []")
    case True
    then have "nxt req s = add_headers [] (add_headers [(''X-Request-ID'', i)] (h (requestctx_WithRequestID i req) s))"
      by (simp add: nxt_def rid) (simp add: add_headers_def split_beta)
    then show ?thesis by blast
  next
    case False
    then show ?thesis
      using CORS_parts [OF assms, of "rp_cors_allowed_origins opts" "RequestID bytes now h" s] by (simp add: nxt_def rid)
  qed
  then obtain hs where hs: "nxt req s = add_headers hs (add_headers [(''X-Request-ID'', i)] (h (requestctx_WithRequestID i req) s))"
    by blast
  have "(''X-Request-ID'', i) \<in> set (rs_headers (snd (nxt req s)))" by (simp add: hs)
  from subsetD [OF SecurityHeaders_keeps [of nxt req s] this] have "(''X-Request-ID'', i) \<in> set (rs_headers (snd (SecurityHeaders nxt req s)))" .
  then show ?thesis
    by (intro that [of i]; simp only: router SecurityHeaders_parts SecurityHeaders_frame hs add_headers_parts)
qed

lemma authorized_request_id: "authorized parse (requestctx_WithRequestID i req) uid = authorized parse req uid"
  by (simp add: authorized_def requestctx_WithRequestID_def)

text \<open>
  C14. Every registered route is behind the authentication, except registration, login, refresh
  and logout and the operational endpoints outside \<open>/api/v1\<close> (both health probes, the metrics, the
  API description and its page). On every other route, with or without Kafka, a request without a
  token that is accepted is answered with 401 before any handler, with the state untouched, and
  with a request id and the header against framing on the answer; with an accepted token what runs
  behind the authentication sees exactly the user of the token. Login and collections are behind
  their rate limits, and no two routes have the same method and path.
\<close>

theorem router_protects_routes:
  assumes "r \<in> set (router_routes opts kafka)" "ro_endpoint r \<notin> {EpRegister, EpLogin, EpRefresh, EpLogout}"
    and "ro_endpoint r \<notin> {EpLiveness, EpReadiness, EpMetrics, EpOpenAPI, EpRedoc}" "hr_method req \<noteq> ''OPTIONS''"
  shows "(\<exists>steps. ro_steps r = StepAuth # steps \<and>
    (ro_endpoint r \<in> {EpCollectSource, EpRequestCollection} \<longrightarrow> steps = [StepCollectLimit]) \<and>
    ((\<nexists>uid. authorized parse req uid) \<longrightarrow>
       (\<exists>i resp. NewRouter opts bytes now (route_chain (AuthRequired parse) login collect (ro_steps r) h) req s = (s, resp) \<and>
          rs_status resp = 401 \<and> {(''X-Request-ID'', i), (''X-Frame-Options'', ''DENY'')} \<subseteq> set (rs_headers resp))) \<and>
    (\<forall>uid. authorized parse req uid \<longrightarrow>
       (\<exists>req'. hr_user_id req' = Some uid \<and>
          fst (NewRouter opts bytes now (route_chain (AuthRequired parse) login collect (ro_steps r) h) req s) =
            fst (route_chain (AuthRequired parse) login collect steps h req' s)))) \<and>
    (\<forall>x \<in> set (router_routes opts kafka). ro_endpoint x = EpLogin \<longrightarrow> ro_steps x = [StepLoginLimit]) \<and>
    (\<forall>x \<in> set (router_routes opts kafka).
       (\<exists>steps. ro_steps x = StepAuth # steps) \<or> ro_endpoint x \<in> {EpRegister, EpLogin, EpRefresh, EpLogout} \<or>
       (ro_method x, ro_path x) \<in> {(''GET'', ''/healthz''), (''GET'', ''/readyz''), (''GET'', ''/metrics''),
         (''GET'', ''/openapi.yaml''), (''GET'', ''/docs'')}) \<and>
    distinct (map (\<lambda>r. (ro_method r, ro_path r)) (router_routes opts kafka))"
proof -
  obtain x where x: "x \<in> set (api_routes kafka)" "ro_steps r = ro_steps x" "ro_endpoint r = ro_endpoint x"
    using router_route_cases [OF assms(1)] assms(3) by blast
  have login: "\<forall>x \<in> set (router_routes opts kafka). ro_endpoint x = EpLogin \<longrightarrow> ro_steps x = [StepLoginLimit]"
    by (rule router_routes_login)
  obtain steps where steps: "ro_steps r = StepAuth # steps"
    using api_routes_protected [of kafka] assms(2) x by (auto simp: list_all_iff public_endpoints_def)
  have limited: "ro_endpoint r \<in> {EpCollectSource, EpRequestCollection} \<longrightarrow> steps = [StepCollectLimit]"
    using api_routes_limited [of kafka] x steps by (auto simp: list_all_iff)
  let ?nxt = "route_chain (AuthRequired parse) login collect steps h"
  let ?run = "NewRouter opts bytes now (AuthRequired parse ?nxt) req s"
  obtain i where i: "fst ?run = fst (AuthRequired parse ?nxt (requestctx_WithRequestID i req) s)"
    "rs_status (snd ?run) = rs_status (snd (AuthRequired parse ?nxt (requestctx_WithRequestID i req) s))"
    "(''X-Request-ID'', i) \<in> set (rs_headers (snd ?run))" "(''X-Frame-Options'', ''DENY'') \<in> set (rs_headers (snd ?run))"
    using NewRouter_answer [OF assms(4)] by metis
  have refuse: "\<exists>i resp. ?run = (s, resp) \<and> rs_status resp = 401 \<and> {(''X-Request-ID'', i), (''X-Frame-Options'', ''DENY'')} \<subseteq> set (rs_headers resp)"
    if no: "\<nexists>uid. authorized parse req uid"
  proof -
    obtain resp where "AuthRequired parse ?nxt (requestctx_WithRequestID i req) s = (s, resp)" "rs_status resp = 401"
      using AuthRequired_refuses [of parse "requestctx_WithRequestID i req" ?nxt s] no by (auto simp: authorized_request_id)
    then show ?thesis using i by (intro exI [of _ i] exI [of _ "snd ?run"] conjI) (simp_all add: prod_eq_iff)
  qed
  have pass: "\<exists>req'. hr_user_id req' = Some uid \<and> fst ?run = fst (?nxt req' s)" if "authorized parse req uid" for uid
    using i(1) AuthRequired_passes [of parse "requestctx_WithRequestID i req" uid ?nxt s] that
    by (intro exI [of _ "requestctx_WithUserID uid (requestctx_WithRequestID i req)"])
      (simp add: authorized_request_id requestctx_WithUserID_def)
  show ?thesis
    using limited refuse pass login router_routes_open router_routes_distinct
    by (intro conjI exI [of _ steps]) (simp_all add: steps)
qed

text \<open>
  The readiness probe answers 200 exactly if both pings succeed (or their error reads \<open>ok\<close>).
\<close>

lemma readiness_status:
  "rs_status (snd (Readiness postgres redis req s)) = 200 \<longleftrightarrow>
    (\<forall>e. postgres = Some e \<longrightarrow> error_text e = ''ok'') \<and> (\<forall>e. redis = Some e \<longrightarrow> error_text e = ''ok'')"
  by (auto simp: Readiness_def Let_def split: option.splits)


subsection \<open>Witnesses\<close>

theorem router_protects_routes_witness:
  "\<exists>resp. NewRouter \<lparr>rp_metrics = True, rp_tracing_service_name = '''', rp_cors_allowed_origins = []\<rparr> None 0
      (route_chain (AuthRequired (\<lambda>_. Inl (Plain ''no''))) id id [StepAuth] Liveness) sample_login_request () = ((), resp) \<and>
     rs_status resp = 401"
proof -
  let ?r = "\<lparr>ro_method = ''GET'', ro_path = ''/api/v1/articles'', ro_steps = [StepAuth], ro_endpoint = EpArticleList\<rparr>"
  let ?o = "\<lparr>rp_metrics = True, rp_tracing_service_name = '''', rp_cors_allowed_origins = []\<rparr>"
  have r: "?r \<in> set (router_routes ?o True)" by (simp add: router_routes_def api_routes_def route_tables)
  have e: "ro_endpoint ?r \<notin> {EpRegister, EpLogin, EpRefresh, EpLogout}"
    "ro_endpoint ?r \<notin> {EpLiveness, EpReadiness, EpMetrics, EpOpenAPI, EpRedoc}" by simp_all
  have m: "hr_method sample_login_request \<noteq> ''OPTIONS''" by (simp add: sample_login_request_def)
  have no: "\<nexists>uid. authorized (\<lambda>_. Inl (Plain ''no'')) sample_login_request uid" by (simp add: authorized_def)
  show ?thesis
    using router_protects_routes [OF r e m, of "\<lambda>_. Inl (Plain ''no'')" None 0 id id Liveness "()"] no by auto
qed

end
