(* ===== verification/Server_Parts.thy ===== *)
theory Server_Parts
  imports App_Startup Router Auth_Handlers Scheduler Worker Outbox
begin

section \<open>The parts of a server\<close>

text \<open>
  \<open>Run\<close> of \<open>internal/app/server.go\<close>, the parts it builds from the configuration: the two rate
  limits, the collection worker, the outbox dispatcher, the scheduler, the options of the router,
  the HTTP server, and the chain of middleware with the limits in it. The last part shows what the limit
  of collections counts.
\<close>

subsection \<open>From the configuration to the parts\<close>

text \<open>\<open>client_ip\<close> is what Gin takes for the address of the client.\<close>

definition login_rate_config :: "(http_request \<Rightarrow> string) \<Rightarrow> rate_limit_config \<Rightarrow> rate_config" where
  "login_rate_config client_ip cfg =
     \<lparr>rc_limit = kl_login_limit cfg, rc_window = kl_login_window cfg, rc_key_func = Some (ClientIPKey client_ip ''ratelimit:login'')\<rparr>"

definition collect_rate_config :: "rate_limit_config \<Rightarrow> rate_config" where
  "collect_rate_config cfg =
     \<lparr>rc_limit = kl_collect_limit cfg, rc_window = kl_collect_window cfg, rc_key_func = Some (UserIDPathKey ''ratelimit:collect'' ''id'')\<rparr>"

definition server_dispatcher :: "kafka_config \<Rightarrow> bool \<Rightarrow> outbox_dispatcher" where
  "server_dispatcher cfg metrics =
     NewOutboxDispatcher
       ([WithOutboxBatchSize (kk_outbox_batch_size cfg), WithOutboxBackoff (kk_retry_backoff cfg),
         WithOutboxInterval (kk_outbox_dispatch_interval cfg)] @ (if metrics then [WithOutboxObserver True] else []))"

definition server_worker :: "kafka_config \<Rightarrow> bool \<Rightarrow> worker" where
  "server_worker cfg metrics =
     NewWorker
       ([WithMaxAttempts (kk_max_attempts cfg), WithRetryBackoff (kk_retry_backoff cfg), WithDLQRepository True,
         WithJobExecutionRepository True] @ (if metrics then [WithJobObserver True] else []))"

definition server_scheduler :: scheduler where
  "server_scheduler = NewScheduler []"

definition server_router_options :: "config \<Rightarrow> router_options" where
  "server_router_options cfg =
     new_router_options
       ((if ko_metrics_enabled (cf_observability cfg) then [WithMetrics] else []) @
        (if ko_tracing_enabled (cf_observability cfg) then [WithTracing (ko_service_name (cf_observability cfg))] else []) @
        (if kc_allowed_origins (cf_cors cfg) \<noteq> [] then [WithCORSAllowedOrigins (kc_allowed_origins (cf_cors cfg))] else []))"

record http_server =
  hs_addr :: string
  hs_routes :: "route list"
  hs_read_timeout :: duration
  hs_write_timeout :: duration
  hs_idle_timeout :: duration

definition server_http :: "config \<Rightarrow> http_server" where
  "server_http cfg =
     (let s = cf_server cfg in
      \<lparr>hs_addr = ks_host s @ '':'' @ fmt_int (ks_port s),
       hs_routes = router_routes (server_router_options cfg) (kk_enabled (cf_kafka cfg)),
       hs_read_timeout = ks_read_timeout s, hs_write_timeout = ks_write_timeout s, hs_idle_timeout = ks_idle_timeout s\<rparr>)"

record server_parts =
  sv_dispatcher :: "outbox_dispatcher option"
  sv_worker :: "worker option"
  sv_scheduler :: scheduler
  sv_http :: "http_server option"

definition Run_parts :: "config \<Rightarrow> runtime_plan \<Rightarrow> server_parts" where
  "Run_parts cfg plan =
     (let kafka = cf_kafka cfg; metrics = ko_metrics_enabled (cf_observability cfg) in
      \<lparr>sv_dispatcher = (if kk_enabled kafka then Some (server_dispatcher kafka metrics) else None),
       sv_worker = (if kk_enabled kafka then Some (server_worker kafka metrics) else None),
       sv_scheduler = server_scheduler,
       sv_http = (if pl_http plan then Some (server_http cfg) else None)\<rparr>)"

text \<open>
  The middleware of a route as the server installs it; \<open>out\<close> is the outcome of the command of the
  limiter, if it comes to one.
\<close>

definition server_chain ::
  "rate_limit_config \<Rightarrow> (http_request \<Rightarrow> string) \<Rightarrow> (string \<Rightarrow> int result) \<Rightarrow> redis_outcome \<Rightarrow> time \<Rightarrow> route_step list \<Rightarrow>
   (redis \<times> 's, 'a) handler \<Rightarrow> (redis \<times> 's, 'a) handler" where
  "server_chain rl client_ip parse out now =
     route_chain (AuthRequired parse)
       (RateLimit_Middleware (Some (Limiter_Allow out now)) (login_rate_config client_ip rl))
       (RateLimit_Middleware (Some (Limiter_Allow out now)) (collect_rate_config rl))"


subsection \<open>What every configuration gives\<close>

text \<open>
  The worker of a server has its tables, positive attempts and a positive backoff, whatever is
  configured: the theorems on requests apply to it. The dispatcher takes at least one event, and the
  scheduler its defaults.
\<close>

lemmas server_part_defs =
  server_worker_def NewWorker_def WithMaxAttempts_def WithRetryBackoff_def WithDLQRepository_def WithJobExecutionRepository_def
  WithJobObserver_def server_dispatcher_def NewOutboxDispatcher_def WithOutboxBatchSize_def WithOutboxBackoff_def
  WithOutboxInterval_def WithOutboxObserver_def

lemma server_worker_full:
  "full_worker (server_worker cfg metrics) \<and> 0 < wk_max_attempts (server_worker cfg metrics) \<and>
   0 < wk_backoff (server_worker cfg metrics) \<and> wk_claim_ttl (server_worker cfg metrics) = 10 * minute"
  by (simp add: server_part_defs full_worker_def)

lemma server_dispatcher_works:
  "0 < od_batch_size (server_dispatcher cfg metrics) \<and> 0 < od_backoff (server_dispatcher cfg metrics) \<and>
   0 < od_interval (server_dispatcher cfg metrics) \<and> od_claim_ttl (server_dispatcher cfg metrics) = 5 * minute"
  by (simp add: server_part_defs)

text \<open>A started process with the worker's task has the worker.\<close>

lemma started_worker_exists:
  assumes "Run_setup lib quote addr_text ops net gcm random fault (Inr cfg) = Inr (assistant, su)"
    and "CollectionWorkerTask \<in> set (su_tasks su)"
  shows "sv_worker (Run_parts cfg (su_plan su)) = Some (server_worker (cf_kafka cfg) (ko_metrics_enabled (cf_observability cfg)))"
proof -
  have "kk_enabled (cf_kafka cfg)"
    using assms unfolding Run_setup_def bind_iff by (auto simp: background_tasks_def split: if_splits)
  then show ?thesis by (simp add: Run_parts_def Let_def)
qed

subsection \<open>What the limit of collections counts\<close>

lemma collect_key_inject:
  assumes "hr_user_id q1 = Some u1" "hr_user_id q2 = Some u2" "UserIDPathKey pfx p q1 = UserIDPathKey pfx p q2"
  shows "u1 = u2 \<and> hr_param q1 p = hr_param q2 p"
proof -
  have "fmt_int u1 @ CHR '':'' # ''id:'' @ hr_param q1 p = fmt_int u2 @ CHR '':'' # ''id:'' @ hr_param q2 p"
    using assms by (simp add: UserIDPathKey_def requestctx_UserID_def)
  from split_first [OF this] show ?thesis by simp
qed

lemma collect_key_not_login:
  "hr_user_id q1 = Some u1 \<Longrightarrow> UserIDPathKey ''ratelimit:collect'' p q1 \<noteq> ClientIPKey client_ip ''ratelimit:login'' q2"
  by (simp add: UserIDPathKey_def ClientIPKey_def requestctx_UserID_def)

text \<open>Zeros before a number do not change it.\<close>

lemma parse_leading_zeros:
  assumes "0 < i" "in_int64 i"
  shows "parseIDParam (replicate k (CHR ''0'') @ fmt_int i) = (i, None)"
proof -
  have "read_nat (replicate k (CHR ''0'') @ s) = read_nat s" for s
    by (induction k) (simp_all add: read_nat_def digit_val_def)
  moreover have "list_all is_digit (replicate k (CHR ''0'') @ fmt_nat (nat i))"
    using fmt_nat_facts [of "nat i"] by (auto simp: list_all_iff is_digit_def)
  ultimately have "parse_int64 (replicate k (CHR ''0'') @ fmt_int i) = Inr i"
    using parse_fmt_int [OF assms(2)] fmt_nat_facts [of "nat i"] assms
    by (cases k) (simp_all add: parse_int64_def fmt_int_def)
  then show ?thesis using assms(1) by (simp add: parseIDParam_def)
qed

text \<open>A request whose counter is not open passes the authentication and the limit.\<close>

definition collect_key :: "int \<Rightarrow> string \<Rightarrow> string" where
  "collect_key uid raw = ''ratelimit:collect:user:'' @ fmt_int uid @ '':id:'' @ raw"

lemma collect_chain_passes:
  assumes "0 < kl_collect_limit rl" "millisecond \<le> kl_collect_window rl" "authorized parse req uid"
    and "r (collect_key uid (hr_param req ''id'')) = None"
  obtains r' where "fst (server_chain rl client_ip parse RDone now [StepAuth, StepCollectLimit] h req (r, s)) =
      fst (h (requestctx_WithUserID uid req) (r', s))"
    "\<And>k. k \<noteq> collect_key uid (hr_param req ''id'') \<Longrightarrow> r' k = r k"
proof -
  let ?w = "kl_collect_window rl div millisecond" and ?key = "collect_key uid (hr_param req ''id'')"
  let ?q = "requestctx_WithUserID uid req"
  have w: "0 < ?w" "0 < kl_collect_window rl" using assms(2) by (simp_all add: pos_imp_zdiv_pos_iff)
  have key: "UserIDPathKey ''ratelimit:collect'' ''id'' ?q = ?key"
    by (simp add: UserIDPathKey_def requestctx_UserID_def requestctx_WithUserID_def collect_key_def)
  have open_key: "rate_script now ?key (kl_collect_limit rl) ?w r =
      (r(?key \<mapsto> (RCount 1, Some (now + ?w * millisecond))), Inr [AnyInt64 1, AnyInt64 1, AnyInt64 ?w])"
    using rate_script_opens [of ?key r now ?w "kl_collect_limit rl"] assms(1,4) w(1)
    by (simp add: counter_key_def window_at_def)
  have "?key \<noteq> ''''" by (simp add: collect_key_def)
  with w open_key key assms(1)
  have "fst (RateLimit_Middleware (Some (Limiter_Allow RDone now)) (collect_rate_config rl) h ?q (r, s)) =
      fst (h ?q (r(?key \<mapsto> (RCount 1, Some (now + ?w * millisecond))), s))"
    by (simp add: RateLimit_Middleware_def collect_rate_config_def Limiter_Allow_def add_headers_parts Let_def)
  then show ?thesis
    by (intro that [of "r(?key \<mapsto> (RCount 1, Some (now + ?w * millisecond)))"])
      (simp_all add: server_chain_def AuthRequired_passes [OF assms(3)])
qed

text \<open>A requester of collections that keeps what it was asked for.\<close>

definition recording_requester ::
  "collect_source_request \<Rightarrow> redis \<times> collect_source_request list \<Rightarrow> (redis \<times> collect_source_request list) \<times> request_collection_response result" where
  "recording_requester req = (\<lambda>(r, asked). ((r, asked @ [req]), Inl (Plain ''recorded'')))"

definition collect_request_run ::
  "rate_limit_config \<Rightarrow> (http_request \<Rightarrow> string) \<Rightarrow> (string \<Rightarrow> int result) \<Rightarrow> time \<Rightarrow> http_request list \<Rightarrow>
   redis \<times> collect_source_request list \<Rightarrow> redis \<times> collect_source_request list" where
  "collect_request_run rl client_ip parse now =
     fold (\<lambda>req st. fst (server_chain rl client_ip parse RDone now [StepAuth, StepCollectLimit]
       (AsyncHandler_RequestCollection recording_requester) req st))"

lemma collect_run_passes:
  assumes "0 < kl_collect_limit rl" "millisecond \<le> kl_collect_window rl"
    and "\<forall>q \<in> set qs. authorized parse q uid \<and> parseIDParam (hr_param q ''id'') = (sid, None) \<and> r (collect_key uid (hr_param q ''id'')) = None"
    and "distinct (map (\<lambda>q. hr_param q ''id'') qs)"
  shows "snd (collect_request_run rl client_ip parse now qs (r, asked)) =
    asked @ replicate (length qs) \<lparr>req_user_id = uid, req_source_id = sid\<rparr>"
  using assms(3,4)
proof (induction qs arbitrary: r asked)
  case (Cons q qs)
  obtain r' where r': "fst (server_chain rl client_ip parse RDone now [StepAuth, StepCollectLimit]
        (AsyncHandler_RequestCollection recording_requester) q (r, asked)) =
      fst (AsyncHandler_RequestCollection recording_requester (requestctx_WithUserID uid q) (r', asked))"
    "\<And>k. k \<noteq> collect_key uid (hr_param q ''id'') \<Longrightarrow> r' k = r k"
    using collect_chain_passes [of rl parse q uid r client_ip now "AsyncHandler_RequestCollection recording_requester" asked]
      assms(1,2) Cons.prems(1) by auto
  have "fst (AsyncHandler_RequestCollection recording_requester (requestctx_WithUserID uid q) (r', asked)) =
      (r', asked @ [\<lparr>req_user_id = uid, req_source_id = sid\<rparr>])"
    using Cons.prems(1)
    by (simp add: AsyncHandler_RequestCollection_def recording_requester_def requestctx_UserID_def requestctx_WithUserID_def)
  moreover have "r' (collect_key uid (hr_param q' ''id'')) = None" if "q' \<in> set qs" for q'
  proof -
    have "hr_param q ''id'' \<notin> (\<lambda>q. hr_param q ''id'') ` set qs" using Cons.prems(2) by simp
    then have "hr_param q' ''id'' \<noteq> hr_param q ''id''" using that by (metis (mono_tags, lifting) imageI)
    then have "collect_key uid (hr_param q' ''id'') \<noteq> collect_key uid (hr_param q ''id'')" by (simp add: collect_key_def)
    then show ?thesis using r'(2) Cons.prems(1) that by simp
  qed
  ultimately show ?case
    using Cons.IH [of r' "asked @ [\<lparr>req_user_id = uid, req_source_id = sid\<rparr>]"] Cons.prems r'(1)
    by (simp add: collect_request_run_def)
qed (simp add: collect_request_run_def)
text \<open>The request of a user for the source with a number, written with zeros before it.\<close>

definition spelled_request :: "http_request \<Rightarrow> int \<Rightarrow> nat \<Rightarrow> http_request" where
  "spelled_request req sid k = req\<lparr>hr_param := (hr_param req)(''id'' := replicate k (CHR ''0'') @ fmt_int sid)\<rparr>"

text \<open>
  C16. The counters of collections of two users, and of one user for two path parameters, are never
  the same, nor are they those of logins. But the parameter is counted as it is written while the handler takes the number it
  denotes: by writing zeros before the id, a user gets any number of collections of one source
  through at one moment, whatever limit is configured.
\<close>

theorem collect_limit_counts_spellings:
  assumes "0 < kl_collect_limit rl" "millisecond \<le> kl_collect_window rl"
    and "authorized parse req uid" "0 < sid" "in_int64 sid" "\<forall>k. r (collect_key uid (replicate k (CHR ''0'') @ fmt_int sid)) = None"
  shows "snd (collect_request_run rl client_ip parse now (map (spelled_request req sid) [0..<n]) (r, [])) =
      replicate n \<lparr>req_user_id = uid, req_source_id = sid\<rparr> \<and>
    (\<forall>kf q1 q2 u1 u2. rc_key_func (collect_rate_config rl) = Some kf \<and> hr_user_id q1 = Some u1 \<and> hr_user_id q2 = Some u2 \<and> kf q1 = kf q2 \<longrightarrow>
       u1 = u2 \<and> hr_param q1 ''id'' = hr_param q2 ''id'') \<and>
    (\<forall>kf lf q1 q2 u1. rc_key_func (collect_rate_config rl) = Some kf \<and> rc_key_func (login_rate_config client_ip rl) = Some lf \<and>
       hr_user_id q1 = Some u1 \<longrightarrow> kf q1 \<noteq> lf q2)"
proof (intro conjI)
  let ?qs = "map (spelled_request req sid) [0..<n]"
  have "inj_on (\<lambda>k. replicate k (CHR ''0'') @ fmt_int sid) A" for A
    by (auto simp: inj_on_def dest: arg_cong [where f = length])
  then have "distinct (map (\<lambda>q. hr_param q ''id'') ?qs)"
    by (simp add: comp_def spelled_request_def distinct_map)
  moreover have "authorized parse (spelled_request req sid k) uid" for k
    using assms(3) by (simp add: authorized_def spelled_request_def)
  ultimately show "snd (collect_request_run rl client_ip parse now ?qs (r, [])) = replicate n \<lparr>req_user_id = uid, req_source_id = sid\<rparr>"
    using collect_run_passes [OF assms(1,2), of ?qs parse uid sid r client_ip now "[]"] assms(4-6)
    by (simp add: spelled_request_def parse_leading_zeros)
next
  show "\<forall>kf q1 q2 u1 u2. rc_key_func (collect_rate_config rl) = Some kf \<and> hr_user_id q1 = Some u1 \<and> hr_user_id q2 = Some u2 \<and> kf q1 = kf q2 \<longrightarrow>
      u1 = u2 \<and> hr_param q1 ''id'' = hr_param q2 ''id''"
    by (intro allI impI, elim conjE, simp only: collect_rate_config_def rate_config.simps option.inject)
      (drule sym [of "UserIDPathKey _ _"], rule collect_key_inject; simp only:)
next
  show "\<forall>kf lf q1 q2 u1. rc_key_func (collect_rate_config rl) = Some kf \<and> rc_key_func (login_rate_config client_ip rl) = Some lf \<and>
      hr_user_id q1 = Some u1 \<longrightarrow> kf q1 \<noteq> lf q2"
    by (intro allI impI, elim conjE, simp only: collect_rate_config_def login_rate_config_def rate_config.simps option.inject)
      (hypsubst, erule collect_key_not_login)
qed


subsection \<open>Witnesses\<close>

theorem collect_limit_counts_spellings_witness:
  "snd (collect_request_run \<lparr>kl_login_limit = 1, kl_login_window = second, kl_collect_limit = 1, kl_collect_window = second\<rparr>
       (\<lambda>_. '''') (\<lambda>_. Inr 3) 0
       (map (spelled_request (sample_login_request\<lparr>hr_header := (\<lambda>_. ''Bearer t'')\<rparr>) 7) [0..<50]) (\<lambda>_. None, [])) =
     replicate 50 \<lparr>req_user_id = 3, req_source_id = 7\<rparr>"
proof -
  have "authorized (\<lambda>_. Inr 3) (sample_login_request\<lparr>hr_header := (\<lambda>_. ''Bearer t'')\<rparr>) 3"
    by (simp add: authorized_def sample_login_request_def bearer_fields [of "''t''", simplified] equal_fold_bearer_def lower_byte_def visible_def)
  then show ?thesis
    using collect_limit_counts_spellings
      [of "\<lparr>kl_login_limit = 1, kl_login_window = second, kl_collect_limit = 1, kl_collect_window = second\<rparr>" "\<lambda>_. Inr 3"
        "sample_login_request\<lparr>hr_header := (\<lambda>_. ''Bearer t'')\<rparr>" 3 7 "\<lambda>_. None" "\<lambda>_. ''''" 0 50]
    by (simp add: in_int64_def del: upt_Suc)
qed

end
