(* ===== verification/Observability.thy ===== *)
theory Observability
  imports Collector_Service
begin

section \<open>Metrics and the request log\<close>

text \<open>
  \<open>internal/observability/metrics.go\<close> and \<open>internal/http/middleware/request_logger.go\<close>. A metric of
  the client library is a value for each list of label values it was used with; counters are kept
  as whole numbers, histograms as the durations they observed. The library's registries and its text
  format are left out.
\<close>

subsection \<open>The metrics\<close>

datatype metric =
    HttpRequestsTotal | HttpRequestDuration | CollectionRunsTotal | CollectionItemsTotal | KafkaJobsTotal
  | DbQueriesTotal | DbQueryDuration

definition metric_specs :: "(metric \<times> string \<times> string list) list" where
  "metric_specs =
     [(HttpRequestsTotal, ''contentflow_http_requests_total'', [''method'', ''path'', ''status'']),
      (HttpRequestDuration, ''contentflow_http_request_duration_seconds'', [''method'', ''path'', ''status'']),
      (CollectionRunsTotal, ''contentflow_collection_runs_total'', [''source_type'', ''status'']),
      (CollectionItemsTotal, ''contentflow_collection_items_total'', [''source_type'', ''kind'']),
      (KafkaJobsTotal, ''contentflow_kafka_jobs_total'', [''topic'', ''status'']),
      (DbQueriesTotal, ''contentflow_db_queries_total'', [''operation'', ''status'']),
      (DbQueryDuration, ''contentflow_db_query_duration_seconds'', [''operation'', ''status''])]"

record metrics =
  mt_counts :: "metric \<times> string list \<rightharpoonup> int"
  mt_durations :: "metric \<times> string list \<rightharpoonup> duration list"

text \<open>Every metric is registered under its name; the first that the registry refuses ends the start.\<close>

fun register_metrics :: "(string \<Rightarrow> go_error option) \<Rightarrow> (metric \<times> string \<times> string list) list \<Rightarrow> unit result" where
  "register_metrics registry [] = Inr ()"
| "register_metrics registry ((m, name, labels) # specs) =
     (case registry name of
        Some e \<Rightarrow> Inl (Wrapf ''register metric: '' e '''')
      | None \<Rightarrow> register_metrics registry specs)"

definition newMetrics :: "(string \<Rightarrow> go_error option) \<Rightarrow> metrics result" where
  "newMetrics registry =
     (case register_metrics registry metric_specs of
        Inl e \<Rightarrow> Inl e
      | Inr _ \<Rightarrow> Inr \<lparr>mt_counts = (\<lambda>_. None), mt_durations = (\<lambda>_. None)\<rparr>)"

text \<open>\<open>WithLabelValues\<close> makes the series if it is not there.\<close>

definition counter_add :: "metric \<Rightarrow> string list \<Rightarrow> int \<Rightarrow> metrics \<Rightarrow> metrics" where
  "counter_add m labels n mt =
     mt\<lparr>mt_counts := (mt_counts mt)((m, labels) \<mapsto> (case mt_counts mt (m, labels) of None \<Rightarrow> 0 | Some c \<Rightarrow> c) + n)\<rparr>"

definition duration_observe :: "metric \<Rightarrow> string list \<Rightarrow> duration \<Rightarrow> metrics \<Rightarrow> metrics" where
  "duration_observe m labels d mt =
     mt\<lparr>mt_durations := (mt_durations mt)((m, labels) \<mapsto> (case mt_durations mt (m, labels) of None \<Rightarrow> [] | Some ds \<Rightarrow> ds) @ [d])\<rparr>"

definition counter_value :: "metric \<Rightarrow> string list \<Rightarrow> metrics \<Rightarrow> int" where
  "counter_value m labels mt = (case mt_counts mt (m, labels) of None \<Rightarrow> 0 | Some c \<Rightarrow> c)"


subsection \<open>What is observed\<close>

text \<open>
  The middleware: \<open>full_path\<close> is the path of the route a request matched, empty if it matched none,
  \<open>url_path\<close> its own path, \<open>took\<close> how long the handlers behind ran.
\<close>

definition HTTPMiddleware ::
  "(http_request \<Rightarrow> string) \<Rightarrow> (http_request \<Rightarrow> string) \<Rightarrow> duration \<Rightarrow> (metrics \<times> 's, 'a) handler \<Rightarrow> (metrics \<times> 's, 'a) handler" where
  "HTTPMiddleware full_path url_path took nxt req st =
     (case nxt req st of
        ((mt, s), resp) \<Rightarrow>
          (let path = (if full_path req = '''' then url_path req else full_path req);
               labels = [hr_method req, path, fmt_int (rs_status resp)]
           in ((duration_observe HttpRequestDuration labels took (counter_add HttpRequestsTotal labels 1 mt), s), resp)))"

definition ObserveCollection :: "collection_observation \<Rightarrow> metrics \<Rightarrow> metrics" where
  "ObserveCollection ob mt =
     (let sourceType = (if ob_source_type ob = '''' then ''unknown'' else ob_source_type ob) in
      counter_add CollectionItemsTotal [sourceType, ''duplicated''] (ob_duplicated_count ob)
        (counter_add CollectionItemsTotal [sourceType, ''inserted''] (ob_inserted_count ob)
          (counter_add CollectionItemsTotal [sourceType, ''fetched''] (ob_fetched_count ob)
            (counter_add CollectionRunsTotal [sourceType, ob_status ob] 1 mt))))"

definition ObserveKafkaJob :: "string \<Rightarrow> string \<Rightarrow> metrics \<Rightarrow> metrics" where
  "ObserveKafkaJob topic status = counter_add KafkaJobsTotal [topic, status] 1"

text \<open>An observation of a job is the topic and the status the worker and the outbox report.\<close>

definition ObserveJob :: "string \<times> string \<Rightarrow> metrics \<Rightarrow> metrics" where
  "ObserveJob ob = ObserveKafkaJob (fst ob) (snd ob)"


subsection \<open>Database operations\<close>

definition db_operations :: "string list" where
  "db_operations = [''query'', ''create'', ''update'', ''delete'', ''raw'', ''row'']"

text \<open>The callbacks before and after an operation, by the operation and whether it is the one before it.\<close>

fun register_callbacks :: "(string \<times> bool \<Rightarrow> go_error option) \<Rightarrow> string list \<Rightarrow> unit result" where
  "register_callbacks fault [] = Inr ()"
| "register_callbacks fault (op # ops) =
     (case fault (op, True) of
        Some e \<Rightarrow> Inl (Wrapf (''register '' @ op @ '' before callback: '') e '''')
      | None \<Rightarrow>
        (case fault (op, False) of
           Some e \<Rightarrow> Inl (Wrapf (''register '' @ op @ '' after callback: '') e '''')
         | None \<Rightarrow> register_callbacks fault ops))"

definition RegisterGormCallbacks :: "(string \<times> bool \<Rightarrow> go_error option) \<Rightarrow> unit result" where
  "RegisterGormCallbacks fault = register_callbacks fault db_operations"

text \<open>The value an operation carries from one callback to the other: its start.\<close>

definition beforeDB :: "time \<Rightarrow> time option" where
  "beforeDB now = Some now"

definition afterDB :: "string \<Rightarrow> time option \<Rightarrow> go_error option \<Rightarrow> time \<Rightarrow> metrics \<Rightarrow> metrics" where
  "afterDB operation carried err now mt =
     (case carried of
        None \<Rightarrow> mt
      | Some start \<Rightarrow>
        (let status = (if err \<noteq> None then ''error'' else ''success'') in
         duration_observe DbQueryDuration [operation, status] (now - start) (counter_add DbQueriesTotal [operation, status] 1 mt)))"


subsection \<open>The request log\<close>

datatype log_attr = AttrString string string | AttrInt string int | AttrDuration string duration

text \<open>
  The line of a request, from the request as the handlers behind have left it (with what they put in its
  context) and the status of its answer.
\<close>

definition RequestLogger :: "(http_request \<Rightarrow> string) \<Rightarrow> (http_request \<Rightarrow> string) \<Rightarrow> duration \<Rightarrow> http_request \<Rightarrow> int \<Rightarrow> log_attr list" where
  "RequestLogger url_path client_ip took req status =
     [AttrString ''method'' (hr_method req), AttrString ''path'' (url_path req), AttrInt ''status'' status,
      AttrDuration ''duration'' took, AttrString ''client_ip'' (client_ip req),
      AttrString ''user_agent'' (hr_header req ''User-Agent'')] @
     (case requestctx_RequestID req of (i, ok) \<Rightarrow> if ok then [AttrString ''request_id'' i] else []) @
     (case requestctx_UserID req of (u, ok) \<Rightarrow> if ok then [AttrInt ''user_id'' u] else [])"


subsection \<open>Properties\<close>

lemma counter_value_add [simp]:
  "counter_value m labels (counter_add m' labels' n mt) =
     counter_value m labels mt + (if m = m' \<and> labels = labels' then n else 0)"
  by (simp add: counter_value_def counter_add_def)

lemma counter_value_observe [simp]: "counter_value m labels (duration_observe m' labels' d mt) = counter_value m labels mt"
  by (simp add: counter_value_def duration_observe_def)

text \<open>Every series has as many label values as its metric has labels: the client library would panic otherwise.\<close>

definition series_ok :: "metrics \<Rightarrow> bool" where
  "series_ok mt \<longleftrightarrow>
     (\<forall>m labels. (mt_counts mt (m, labels) \<noteq> None \<or> mt_durations mt (m, labels) \<noteq> None) \<longrightarrow>
        (\<exists>name names. (m, name, names) \<in> set metric_specs \<and> length names = length labels))"

lemma series_ok_add:
  "series_ok mt \<Longrightarrow> (m, name, names) \<in> set metric_specs \<Longrightarrow> length names = length labels \<Longrightarrow> series_ok (counter_add m labels n mt)"
  by (auto simp: series_ok_def counter_add_def)

lemma series_ok_observe:
  "series_ok mt \<Longrightarrow> (m, name, names) \<in> set metric_specs \<Longrightarrow> length names = length labels \<Longrightarrow> series_ok (duration_observe m labels d mt)"
  by (auto simp: series_ok_def duration_observe_def)

lemma metric_spec_members:
  "(HttpRequestsTotal, ''contentflow_http_requests_total'', [''method'', ''path'', ''status'']) \<in> set metric_specs"
  "(HttpRequestDuration, ''contentflow_http_request_duration_seconds'', [''method'', ''path'', ''status'']) \<in> set metric_specs"
  "(CollectionRunsTotal, ''contentflow_collection_runs_total'', [''source_type'', ''status'']) \<in> set metric_specs"
  "(CollectionItemsTotal, ''contentflow_collection_items_total'', [''source_type'', ''kind'']) \<in> set metric_specs"
  "(KafkaJobsTotal, ''contentflow_kafka_jobs_total'', [''topic'', ''status'']) \<in> set metric_specs"
  "(DbQueriesTotal, ''contentflow_db_queries_total'', [''operation'', ''status'']) \<in> set metric_specs"
  "(DbQueryDuration, ''contentflow_db_query_duration_seconds'', [''operation'', ''status'']) \<in> set metric_specs"
  by (simp_all add: metric_specs_def)

lemmas series_rules = metric_spec_members [THEN series_ok_add [rotated]] metric_spec_members [THEN series_ok_observe [rotated]]

lemma observers_keep_series:
  assumes "series_ok mt"
  shows "series_ok (ObserveCollection ob mt)" "series_ok (ObserveJob job mt)" "series_ok (afterDB op carried err now mt)"
  using assms
  by (auto simp: ObserveCollection_def ObserveJob_def ObserveKafkaJob_def afterDB_def Let_def intro!: series_rules split: option.split)

text \<open>
  The middleware counts: after any requests, the counter of a method, path and status has grown by
  the requests with that method and path that were answered with that status, provided the handlers do not touch the counter.
  State and answers are those of the handlers.
\<close>

definition metric_path :: "(http_request \<Rightarrow> string) \<Rightarrow> (http_request \<Rightarrow> string) \<Rightarrow> http_request \<Rightarrow> string" where
  "metric_path full_path url_path req = (if full_path req = '''' then url_path req else full_path req)"

fun serve_all :: "(duration \<Rightarrow> ('s, 'a) handler) \<Rightarrow> (http_request \<times> duration) list \<Rightarrow> 's \<Rightarrow> 's \<times> (http_request \<times> 'a http_response) list" where
  "serve_all h [] s = (s, [])"
| "serve_all h ((req, took) # reqs) s =
     (case h took req s of (s1, resp) \<Rightarrow> (case serve_all h reqs s1 of (s2, resps) \<Rightarrow> (s2, (req, resp) # resps)))"

lemma metrics_count_requests:
  assumes "\<And>req mt s mt' s' resp labels. nxt req (mt, s) = ((mt', s'), resp) \<Longrightarrow>
      counter_value HttpRequestsTotal labels mt' = counter_value HttpRequestsTotal labels mt"
    and "serve_all (\<lambda>took. HTTPMiddleware full_path url_path took nxt) reqs (mt, s) = ((mt', s'), answers)"
  shows "counter_value HttpRequestsTotal [m, p, fmt_int code] mt' =
    counter_value HttpRequestsTotal [m, p, fmt_int code] mt +
      int (length (filter (\<lambda>(req, resp). hr_method req = m \<and> metric_path full_path url_path req = p \<and> rs_status resp = code) answers))"
  using assms(2)
proof (induction reqs arbitrary: mt s answers)
  case (Cons x reqs)
  obtain req took where x: "x = (req, took)" by (cases x)
  obtain mt1 s1 resp where n: "nxt req (mt, s) = ((mt1, s1), resp)" by (cases "nxt req (mt, s)") auto
  define labels where "labels = [hr_method req, metric_path full_path url_path req, fmt_int (rs_status resp)]"
  define mt2 where "mt2 = duration_observe HttpRequestDuration labels took (counter_add HttpRequestsTotal labels 1 mt1)"
  have h: "HTTPMiddleware full_path url_path took nxt req (mt, s) = ((mt2, s1), resp)"
    by (simp add: HTTPMiddleware_def n mt2_def labels_def metric_path_def Let_def)
  obtain rest where rest: "serve_all (\<lambda>took. HTTPMiddleware full_path url_path took nxt) reqs (mt2, s1) = ((mt', s'), rest)"
      "answers = (req, resp) # rest"
    using Cons.prems by (auto simp: x h split: prod.splits)
  have "counter_value HttpRequestsTotal [m, p, fmt_int code] mt2 =
      counter_value HttpRequestsTotal [m, p, fmt_int code] mt + (if [m, p, fmt_int code] = labels then 1 else 0)"
    using assms(1) [OF n] by (simp add: mt2_def)
  then show ?case using Cons.IH [OF rest(1)] rest(2) by (auto simp: labels_def)
qed simp

text \<open>
  A request that matches no route is counted under its own path, so requests to different unknown
  paths make as many series as there are paths.
\<close>

lemma unmatched_path_series:
  assumes "full_path req = ''''" "nxt req (mt, s) = ((mt1, s1), resp)"
  shows "mt_counts (fst (fst (HTTPMiddleware full_path url_path took nxt req (mt, s))))
    (HttpRequestsTotal, [hr_method req, url_path req, fmt_int (rs_status resp)]) \<noteq> None"
  using assms by (simp add: HTTPMiddleware_def Let_def duration_observe_def counter_add_def)

end
