(* ===== verification/Connections.thy ===== *)
theory Connections
  imports Job_Events Configuration
begin

section \<open>Connections\<close>

text \<open>
  \<open>internal/module/collectionjob/kafka.go\<close>, \<open>internal/database/postgres.go\<close>,
  \<open>internal/cache/redis.go\<close>, \<open>internal/observability/tracing.go\<close> and
  \<open>internal/storage/dbtx/dbtx.go\<close>: what the program hands to the client libraries and what it makes
  of their answers. The libraries are parameters: the error each call gives.
\<close>

subsection \<open>Kafka\<close>

text \<open>A message of the client library; the broker adds partition and offset to what is written.\<close>

record kafka_message =
  km_topic :: string
  km_partition :: int
  km_offset :: int
  km_key :: string
  km_value :: payload
  km_time :: time

definition KafkaWriter_message :: "time \<Rightarrow> event \<Rightarrow> kafka_message" where
  "KafkaWriter_message now ev =
     \<lparr>km_topic = ev_topic ev, km_partition = 0, km_offset = 0, km_key = ev_key ev, km_value = ev_value ev, km_time = now\<rparr>"

text \<open>A message of the program carries the message it was read from, if it was read.\<close>

record read_message =
  re_message :: message
  re_metadata :: "kafka_message option"

definition KafkaReader_Read :: "kafka_message result \<Rightarrow> read_message result" where
  "KafkaReader_Read fetched =
     (case fetched of
        Inl e \<Rightarrow> Inl e
      | Inr m \<Rightarrow> Inr \<lparr>re_message = \<lparr>msg_topic = km_topic m, msg_key = km_key m, msg_value = km_value m\<rparr>, re_metadata = Some m\<rparr>)"

definition KafkaReader_Commit :: "read_message \<Rightarrow> kafka_message" where
  "KafkaReader_Commit msg =
     (case re_metadata msg of
        Some m \<Rightarrow> m
      | None \<Rightarrow> \<lparr>km_topic = msg_topic (re_message msg), km_partition = 0, km_offset = 0, km_key = msg_key (re_message msg),
                 km_value = msg_value (re_message msg), km_time = zero_time\<rparr>)"

text \<open>The messages are sent one at a time and wait for all replicas; a read takes at most 10 MiB; commits are explicit.\<close>

record kafka_writer_config =
  kx_brokers :: "string list"
  kx_hash_balancer :: bool
  kx_require_all :: bool
  kx_async :: bool

definition NewKafkaWriter :: "string list \<Rightarrow> kafka_writer_config" where
  "NewKafkaWriter brokers = \<lparr>kx_brokers = brokers, kx_hash_balancer = True, kx_require_all = True, kx_async = False\<rparr>"

record kafka_reader_config =
  ky_brokers :: "string list"
  ky_group_id :: string
  ky_topic :: string
  ky_min_bytes :: int
  ky_max_bytes :: int
  ky_commit_interval :: duration

definition NewKafkaReader :: "string list \<Rightarrow> string \<Rightarrow> string \<Rightarrow> kafka_reader_config" where
  "NewKafkaReader brokers groupID topic =
     \<lparr>ky_brokers = brokers, ky_group_id = groupID, ky_topic = topic, ky_min_bytes = 1, ky_max_bytes = 10 * 2 ^ 20, ky_commit_interval = 0\<rparr>"

text \<open>
  What is written is what is read, wherever the broker puts it, and a commit names exactly the message that was
  read.
\<close>

lemma kafka_write_read:
  assumes "m = (KafkaWriter_message now ev)\<lparr>km_partition := p, km_offset := i\<rparr>"
  shows "\<exists>msg. KafkaReader_Read (Inr m) = Inr msg \<and> KafkaReader_Commit msg = m \<and>
    re_message msg = \<lparr>msg_topic = ev_topic ev, msg_key = ev_key ev, msg_value = ev_value ev\<rparr>"
  using assms by (simp add: KafkaReader_Read_def KafkaReader_Commit_def KafkaWriter_message_def)

text \<open>A message that was not read would commit the first place of the first partition.\<close>

lemma kafka_commit_unread:
  "re_metadata msg = None \<Longrightarrow> km_partition (KafkaReader_Commit msg) = 0 \<and> km_offset (KafkaReader_Commit msg) = 0"
  by (simp add: KafkaReader_Commit_def)


subsection \<open>PostgreSQL and Redis\<close>

definition postgres_dsn :: "database_config \<Rightarrow> string" where
  "postgres_dsn cfg =
     ''host='' @ kd_host cfg @ '' port='' @ fmt_int (kd_port cfg) @ '' user='' @ kd_username cfg @ '' password='' @ kd_password cfg @
     '' dbname='' @ kd_dbname cfg @ '' sslmode='' @ kd_sslmode cfg"

datatype postgres_call = PgOpen | PgDB | PgPing

text \<open>The answer: the data source, with the sizes of the pool.\<close>

definition NewPostgres :: "postgres_call faults \<Rightarrow> database_config \<Rightarrow> (string \<times> int \<times> int \<times> duration) result" where
  "NewPostgres fault cfg =
     (case fault PgOpen of
        Some e \<Rightarrow> Inl (Wrapf ''open postgres: '' e '''')
      | None \<Rightarrow>
        (case fault PgDB of
           Some e \<Rightarrow> Inl (Wrapf ''get sql db: '' e '''')
         | None \<Rightarrow>
           (case fault PgPing of
              Some e \<Rightarrow> Inl (Wrapf ''ping postgres: '' e '''')
            | None \<Rightarrow> Inr (postgres_dsn cfg, kd_max_open_conns cfg, kd_max_idle_conns cfg, kd_conn_max_lifetime cfg))))"

definition NewRedis :: "go_error option \<Rightarrow> redis_config \<Rightarrow> redis_config result" where
  "NewRedis ping cfg = (case ping of Some e \<Rightarrow> Inl (Wrapf ''ping redis: '' e '''') | None \<Rightarrow> Inr cfg)"

text \<open>
  The data source is put together without quotes: a password with a space in it reads as further
  settings, so two configurations give the same data source.
\<close>

theorem dsn_password_adds_settings:
  "postgres_dsn \<lparr>kd_host = ''h'', kd_port = 5432, kd_username = ''u'', kd_password = ''p dbname=other'', kd_dbname = ''d'',
      kd_sslmode = ''disable'', kd_max_open_conns = 1, kd_max_idle_conns = 1, kd_conn_max_lifetime = 0\<rparr> =
   postgres_dsn \<lparr>kd_host = ''h'', kd_port = 5432, kd_username = ''u'', kd_password = ''p'', kd_dbname = ''other dbname=d'',
      kd_sslmode = ''disable'', kd_max_open_conns = 1, kd_max_idle_conns = 1, kd_conn_max_lifetime = 0\<rparr>"
  by (simp add: postgres_dsn_def)


subsection \<open>Tracing\<close>

record tracing_config =
  tg_enabled :: bool
  tg_service_name :: string
  tg_endpoint :: string

text \<open>The answer: nothing is exported, or the service name and the endpoint of the exporter.\<close>

definition InitTracing :: "(string \<Rightarrow> go_error option) \<Rightarrow> tracing_config \<Rightarrow> (string \<times> string) option result" where
  "InitTracing exporter cfg =
     (if \<not> tg_enabled cfg then Inr None
      else
        (let serviceName = (if tg_service_name cfg = '''' then ''contentflow'' else tg_service_name cfg);
             endpoint = (if tg_endpoint cfg = '''' then ''localhost:4317'' else tg_endpoint cfg)
         in case exporter endpoint of Some e \<Rightarrow> Inl e | None \<Rightarrow> Inr (Some (serviceName, endpoint))))"

lemma InitTracing_disabled: "\<not> tg_enabled cfg \<Longrightarrow> InitTracing exporter cfg = Inr None"
  by (simp add: InitTracing_def)


subsection \<open>The transaction of a context\<close>

text \<open>A context is what it carries: values under keys, here the handle of a transaction.\<close>

datatype 'tx db_context = DbContext "'tx option"

definition WithTx :: "'tx db_context \<Rightarrow> 'tx option \<Rightarrow> 'tx db_context" where
  "WithTx ctx tx = (case tx of None \<Rightarrow> ctx | Some t \<Rightarrow> DbContext (Some t))"

fun FromContext :: "'tx db_context \<Rightarrow> 'tx \<Rightarrow> 'tx" where
  "FromContext (DbContext (Some t)) fallback = t"
| "FromContext (DbContext None) fallback = fallback"

text \<open>
  Every repository asks for its handle this way, so all of them work in the innermost transaction of
  their context, and outside one in the pool: what \<open>RunInTransaction\<close> relies on.
\<close>

lemma FromContext_WithTx:
  "FromContext (WithTx ctx (Some t)) fallback = t" "WithTx ctx None = ctx"
  "FromContext (WithTx (WithTx ctx (Some t)) tx) fallback = (case tx of Some t' \<Rightarrow> t' | None \<Rightarrow> t)"
  by (simp_all add: WithTx_def split: option.split)

end
