(* ===== verification/Pipeline.thy ===== *)
theory Pipeline
  imports Server_Parts Connections
begin

section \<open>A request from end to end\<close>

text \<open>
  The asynchronous collection across its components: the producer stores the request in the outbox,
  the dispatcher writes it to Kafka, the reader hands it to the worker a server builds, and the worker has it
  collected.
\<close>

lemma select_rows_insert:
  "select_rows P (insert_row mk t) = select_rows P t @ (if P (mk (seq t + 1)) then [mk (seq t + 1)] else [])"
  by (simp add: select_rows_def insert_row_def)

lemma trim_idempotencyKey: "trim_space (idempotencyKey sid) \<noteq> ''''"
proof -
  have "list_all visible (idempotencyKey sid)"
    using set_fmt_int [of sid] by (auto simp: idempotencyKey_def list_all_iff visible_def is_digit_def)
  then show ?thesis by (simp add: trim_all_visible idempotencyKey_def)
qed

text \<open>A new request is ready at once, so a round with room for it takes it.\<close>

lemma new_event_ready:
  assumes "outbox_inv (insert_row (new_outbox_event params p created) t)" "created \<le> now" "\<And>i. \<not> busy i"
    and "int (length (select_rows (outboxReadyForClaimFilter now) t)) < outbox_limit limit"
  shows "new_outbox_event params p created (seq t + 1) \<in>
    set (ready_models busy now limit (insert_row (new_outbox_event params p created) t))"
proof -
  let ?m = "new_outbox_event params p created (seq t + 1)" and ?t = "insert_row (new_outbox_event params p created) t"
  have ready: "outboxReadyForClaimFilter now ?m"
    using assms(2) by (simp add: outboxReadyForClaimFilter_def outbox_due_def new_outbox_event_def)
  let ?s = "select_rows (\<lambda>m. outboxReadyForClaimFilter now m \<and> \<not> busy (om_id m)) ?t"
  have "?s = select_rows (outboxReadyForClaimFilter now) t @ [?m]"
    using assms(3) ready by (simp add: select_rows_insert)
  then have "length ?s \<le> nat (outbox_limit limit)" "?m \<in> set ?s" using assms(4) by simp_all
  then show ?thesis by (simp add: ready_models_def)
qed

lemma requested_message_in:
  assumes "requested_wf (new_requested task_id req now1)" "trim_space task_id \<noteq> ''''" "0 < req_user_id req" "0 < req_source_id req"
    and "now1 \<noteq> zero_time" "unmarshal_requested p = Some (new_requested task_id req now1)"
  shows "request_in \<lparr>msg_topic = TopicCollectionRequested, msg_key = idempotencyKey (req_source_id req), msg_value = p\<rparr>
    (new_requested task_id req now1)"
  using assms trim_idempotencyKey [of "req_source_id req"]
  by (simp add: request_in_def validateCollectionRequestedMessage_def new_requested_def is_zero_time_def)

text \<open>
  C1. A request for the collection of a source runs through: with no request for that source under way, it is answered
  as queued with its task id; the next round of a dispatcher with room for it, over a broker that
  answers, writes it to the log and marks it as sent; the message that is read from the broker
  for it, handled by the worker the server builds from any configuration, runs the collection
  service exactly once, for that user and source, ends its task with that run, and announces
  it as the last event in the log.
\<close>

theorem requested_collection_runs:
  assumes "outbox_inv t" "find_row (active_with TopicCollectionRequested (idempotencyKey (req_source_id req))) t = None"
    and "requested_wf (new_requested task_id req now1)" "trim_space task_id \<noteq> ''''" "0 < req_user_id req" "0 < req_source_id req"
    and "now1 \<noteq> zero_time" "now2 \<le> now" "clock \<le> now"
    and "quiet denv" "de_write denv = (\<lambda>_. Acked)" "claim \<noteq> []" "\<And>i. \<not> busy i"
    and "int (length (select_rows (outboxReadyForClaimFilter now) t)) < outbox_limit (od_batch_size d)"
    and "calm wenv" "exec_inv (ww_execs w)" "abs_jobs (ww_execs w) task_id = Absent"
    and "collect req (ww_svc w) = (svc, Inr (Some resp))"
  shows "\<exists>t1 s2 p msg w2 q.
    OutboxProducer_RequestCollection no_faults (\<lambda>t. t) (\<lambda>t. t) clock task_id now1 now2 req t =
      (t1, Inr \<lparr>rcr_task_id = task_id, rcr_source_id = req_source_id req, rcr_status = RunStatusQueued\<rparr>) \<and>
    DispatchReady d no_faults busy denv claim now \<lparr>ow_table = t1, ow_log = log, ow_seen = seen\<rparr> = (s2, Inr ()) \<and>
    (\<exists>row. outbox_lookup (ow_table s2) (seq t + 1) = Some row \<and> om_status row = OutboxStatusSent) \<and>
    \<lparr>ev_topic = TopicCollectionRequested, ev_key = idempotencyKey (req_source_id req), ev_value = p\<rparr> \<in> set (ow_log s2) \<and>
    KafkaReader_Read (Inr ((KafkaWriter_message at \<lparr>ev_topic = TopicCollectionRequested,
      ev_key = idempotencyKey (req_source_id req), ev_value = p\<rparr>)\<lparr>km_partition := part, km_offset := offset\<rparr>)) = Inr msg \<and>
    HandleMessage (server_worker kafka metrics) collect wenv (re_message msg) (w\<lparr>ww_log := ow_log s2\<rparr>) = (w2, Inr ()) \<and>
    ww_svc w2 = svc \<and> abs_jobs (ww_execs w2) task_id = Done (if 0 < resp_run_id resp then Some (resp_run_id resp) else None) \<and>
    marshal_completed (completed_event wenv (new_requested task_id req now1) resp) = Some q \<and>
    ww_log w2 = ow_log s2 @ [\<lparr>ev_topic = TopicCollectionCompleted, ev_key = idempotencyKey (req_source_id req), ev_value = q\<rparr>]"
proof -
  let ?key = "idempotencyKey (req_source_id req)" and ?ev = "new_requested task_id req now1"
  let ?params = "\<lparr>co_topic = TopicCollectionRequested, co_key = ?key, co_payload = RequestPayload ?ev, co_created_at = now2\<rparr>"
  have ne: "task_id \<noteq> ''''" using assms(4) trim_all_visible [of "''''"] by auto
  define created where "created = (if is_zero_time now2 then clock else now2)"
  obtain p where p: "marshal_requested ?ev = Some p" using marshal_requested_Some [OF assms(3)] by blast
  have u: "unmarshal_requested p = Some ?ev" by (rule unmarshal_marshal_requested [OF assms(3) p])
  let ?m = "new_outbox_event ?params p created (seq t + 1)"
  define t1 where "t1 = insert_row (new_outbox_event ?params p created) t"
  have produced: "OutboxProducer_RequestCollection no_faults (\<lambda>t. t) (\<lambda>t. t) clock task_id now1 now2 req t =
      (t1, Inr \<lparr>rcr_task_id = task_id, rcr_source_id = req_source_id req, rcr_status = RunStatusQueued\<rparr>)"
    using producer_inserts [OF assms(2) ne p u, of clock now2] by (simp add: created_def t1_def)
  have inv: "outbox_inv t1"
    using outbox_insert_inv [OF assms(1), of None ?params p created] assms(2) by (simp add: outbox_insert_def t1_def)
  have "created \<le> now" using assms(8,9) by (simp add: created_def)
  then have m: "?m \<in> set (ready_models busy now (od_batch_size d) t1)"
    using new_event_ready [OF inv [unfolded t1_def] _ assms(13,14)] by (simp add: t1_def)
  have row: "outbox_lookup t1 (seq t + 1) = Some ?m"
    using outbox_lookup_row [OF inv, of ?m] by (simp add: t1_def)
  obtain s2 where s2: "DispatchReady d no_faults busy denv claim now \<lparr>ow_table = t1, ow_log = log, ow_seen = seen\<rparr> = (s2, Inr ())"
    "ow_log s2 = log @ concat (map (\<lambda>m. stored_by (de_write denv (om_id m)) (outbox_content m)) (ready_models busy now (od_batch_size d) t1))"
    "outbox_lookup (ow_table s2) (seq t + 1) = Some (dispatched d denv now ?m)"
    using dispatch_round [OF assms(10) _ assms(12), of "\<lparr>ow_table = t1, ow_log = log, ow_seen = seen\<rparr>" d busy now] inv m row by auto
  let ?e = "\<lparr>ev_topic = TopicCollectionRequested, ev_key = ?key, ev_value = p\<rparr>"
  have "outbox_content ?m = ?e" by (simp add: outbox_content_def new_outbox_event_def)
  then have e: "?e \<in> set (ow_log s2)" using m assms(11) by (force simp: s2(2) stored_by_def)
  have sent: "om_status (dispatched d denv now ?m) = OutboxStatusSent" by (simp add: dispatched_def assms(11) sent_updates_def)
  let ?km = "(KafkaWriter_message at ?e)\<lparr>km_partition := part, km_offset := offset\<rparr>"
  obtain msg where msg: "KafkaReader_Read (Inr ?km) = Inr msg" "re_message msg = \<lparr>msg_topic = TopicCollectionRequested, msg_key = ?key, msg_value = p\<rparr>"
    using kafka_write_read [of ?km offset part at ?e] by auto
  have handled: "request_in (re_message msg) ?ev"
    unfolding msg(2) by (rule requested_message_in [OF assms(3-7) u])
  have ids: "cr_task_id ?ev = task_id" "cr_idempotency_key ?ev = ?key"
    "\<lparr>req_user_id = cr_user_id ?ev, req_source_id = cr_source_id ?ev\<rparr> = req"
    by (simp_all add: new_requested_def)
  have free: "job_free (cr_attempt ?ev) (we_now wenv AtClaim) (abs_jobs (ww_execs (w\<lparr>ww_log := ow_log s2\<rparr>)) (cr_task_id ?ev))"
    using assms(17) ids by (simp add: job_free_def)
  have "\<exists>w2 q. HandleMessage (server_worker kafka metrics) collect wenv (re_message msg) (w\<lparr>ww_log := ow_log s2\<rparr>) = (w2, Inr ()) \<and>
      ww_svc w2 = svc \<and> abs_jobs (ww_execs w2) task_id = Done (if 0 < resp_run_id resp then Some (resp_run_id resp) else None) \<and>
      marshal_completed (completed_event wenv ?ev resp) = Some q \<and>
      ww_log w2 = ow_log s2 @ [\<lparr>ev_topic = TopicCollectionCompleted, ev_key = ?key, ev_value = q\<rparr>]"
    using handle_succeeded [OF assms(15) _ _ handled free, of "server_worker kafka metrics" collect svc resp]
      server_worker_full [of kafka metrics] assms(16,18) ids by fastforce
  with produced s2(1,3) sent e msg(1) show ?thesis by blast
qed


subsection \<open>Witnesses\<close>

definition sample_kafka_config :: kafka_config where
  "sample_kafka_config =
     \<lparr>kk_enabled = True, kk_brokers = [''k:9092''], kk_group_id = ''g'', kk_max_attempts = 0, kk_retry_backoff = 0,
      kk_outbox_batch_size = 0, kk_outbox_dispatch_interval = 0\<rparr>"

theorem requested_collection_runs_witness:
  "\<exists>t1 s2 (msg :: read_message) w2.
     OutboxProducer_RequestCollection no_faults (\<lambda>t. t) (\<lambda>t. t) 5 ''t1'' 50 60 \<lparr>req_user_id = 7, req_source_id = 3\<rparr> empty_table =
       (t1, Inr \<lparr>rcr_task_id = ''t1'', rcr_source_id = 3, rcr_status = RunStatusQueued\<rparr>) \<and>
     DispatchReady (server_dispatcher sample_kafka_config True) no_faults (\<lambda>_. False) (sample_env Acked) ''c1'' 100
       \<lparr>ow_table = t1, ow_log = [], ow_seen = []\<rparr> = (s2, Inr ()) \<and>
     HandleMessage (server_worker sample_kafka_config True) (counting_collect (\<lambda>_. Inr (Some sample_response)))
       (sample_worker_env 2000) (re_message msg) (sample_worker_world\<lparr>ww_log := ow_log s2\<rparr>) = (w2, Inr ()) \<and>
     ww_svc w2 = 1 \<and> abs_jobs (ww_execs w2) ''t1'' = Done (Some 12)"
proof -
  let ?req = "\<lparr>req_user_id = 7, req_source_id = 3\<rparr>"
  have wf: "requested_wf (new_requested ''t1'' ?req 50)"
    by (simp add: requested_wf_def new_requested_def in_int64_def time_marshalable_def)
  have none: "find_row (active_with TopicCollectionRequested (idempotencyKey (req_source_id ?req))) empty_table = None"
    by (simp add: find_row_def)
  have tid: "trim_space ''t1'' \<noteq> ''''" using trim_all_visible [of "''t1''"] by (simp add: visible_def)
  have pos: "0 < req_user_id ?req" "0 < req_source_id ?req" "(50 :: time) \<noteq> zero_time" "(60 :: time) \<le> 100" "(5 :: time) \<le> 100"
    by simp_all
  have env: "de_write (sample_env Acked) = (\<lambda>_. Acked)" "''c1'' \<noteq> ''''" "\<And>i. \<not> (\<lambda>_. False) i"
    by (simp_all add: sample_env_def)
  have room: "int (length (select_rows (outboxReadyForClaimFilter 100) empty_table)) <
      outbox_limit (od_batch_size (server_dispatcher sample_kafka_config True))"
    by (simp add: select_rows_def outbox_limit_def)
  have w: "exec_inv (ww_execs sample_worker_world)" "abs_jobs (ww_execs sample_worker_world) ''t1'' = Absent"
    using sample_worker_facts(4) by (simp_all add: worker_good_def)
  have c: "counting_collect (\<lambda>_. Inr (Some sample_response)) ?req (ww_svc sample_worker_world) = (1, Inr (Some sample_response))"
    by (simp add: counting_collect_def)
  have run: "resp_run_id sample_response = 12" by (simp add: sample_response_def)
  have calm: "calm (sample_worker_env 2000)" by (rule sample_env_calm) simp_all
  from requested_collection_runs [where t = empty_table and req = ?req and task_id = "''t1''" and ?now1.0 = 50 and ?now2.0 = 60 and now = 100
      and clock = 5 and denv = "sample_env Acked" and claim = "''c1''" and busy = "\<lambda>_. False"
      and d = "server_dispatcher sample_kafka_config True" and wenv = "sample_worker_env 2000" and w = sample_worker_world
      and collect = "counting_collect (\<lambda>_. Inr (Some sample_response))" and svc = 1 and resp = sample_response and log = "[]" and seen = "[]"
      and at = 0 and part = 0 and offset = 0 and kafka = sample_kafka_config and metrics = True,
      OF outbox_inv_empty none wf tid pos sample_env_quiet env room calm w c]
  show ?thesis unfolding run collect_source_request.simps
    by (elim exE conjE) (intro exI conjI, assumption+, simp)
qed

end
