(* ===== verification/Spec2Isabelle.thy ===== *)
theory Spec2Isabelle
  imports Worker Outbox Dead_Letters Collectors AI_Handlers Auth_Handlers Scheduler Server_Parts
    Observability Pipeline
begin

text \<open>
  A verification library for contentflow (\<open>src/\<close>), a Go service that collects articles from
  feeds and mailboxes for its users.

  The program. Users register and log in (\<open>internal/module/auth\<close>), with short-lived access tokens and
  refresh tokens that rotate. They register sources over HTTP (\<open>internal/module/source\<close>). A request to collect
  a source, by a user or by the scheduler (\<open>internal/module/scheduler\<close>), becomes an event (\<open>collectionjob/event.go\<close>) that
  a producer writes to Kafka, directly or through a transactional outbox (\<open>outbox.go\<close>, \<open>outbox_repository.go\<close>). A worker
  (\<open>collectionjob/worker.go\<close>) takes the events, claims an execution row with a lease
  (\<open>job_execution.go\<close>), has the collection service (\<open>collector/service.go\<close>) collect the source, and
  ends with an event, a retry or a dead letter (\<open>dlq.go\<close>). The collection service takes a Redis
  lock, runs the collector of the source's type (\<open>collector/rss\<close>, \<open>collector/email\<close>) and stores
  articles, run and source in one transaction. Users list and mark articles
  (\<open>internal/module/article\<close>); lists are cached in Redis. Fetching of URLs and mail goes through
  a guard against private addresses (\<open>internal/netguard\<close>). Package \<open>internal/module/ai\<close>
  summarizes articles through a queue of jobs in the database, embeds them, and answers questions,
  with a built-in assistant or one over HTTP that a user configures. Logins and collections are limited
  by counters in Redis (\<open>internal/ratelimit\<close>). One program (\<open>internal/app\<close>) runs all of this or a part of it,
  by its configuration (\<open>internal/config\<close>).

  Theories, bottom up.
  \<^item> \<open>Go_Prelude\<close>, \<open>Go_Errors\<close>, \<open>Go_Runes\<close>, \<open>Go_Base64\<close>: Go's integers, strings, times, errors, JSON,
    UTF-8 and text encodings; \<open>Sql_Table\<close>: tables with sequences, faults of statements;
    \<open>Redis_Store\<close>: keys with expiry, glob patterns, and the locale of a list cache;
    \<open>Collector_Types\<close>: shared records and the locale of page parameters.
  \<^item> \<open>Http_Layer\<close>: middleware, request context, answers, parameter parsing. \<open>Netguard\<close>: the guard.
  \<^item> \<open>Job_Events\<close>, \<open>Job_Execution\<close>, \<open>Dead_Letters\<close>, \<open>Outbox\<close>, \<open>Worker\<close>: package \<open>collectionjob\<close>.
    Their lemmas show the reachable-state invariants of the tables under interleaved processes and
    faults, the exact effect of every outcome of a request, and that a request ends when nothing
    around the worker fails.
  \<^item> \<open>Sources\<close>, \<open>Source_Redaction\<close>, \<open>Source_Cache\<close>: package \<open>source\<close>; secrets never shown, tables
    well formed, the cache transparent along requests whose invalidations succeed. \<open>Articles\<close>, \<open>Article_Store\<close>, \<open>Article_Cache\<close>: package
    \<open>article\<close>, with the idempotence of saving.
  \<^item> \<open>Collector_Service\<close>, \<open>Collection_Runs\<close>: package \<open>collector\<close>; a collection stores all or
    nothing, and the lock excludes. \<open>Scheduler\<close>: package \<open>scheduler\<close>; a round as the steps of its goroutines,
    what it collects and that it ends.
  \<^item> \<open>Email_Message\<close>, \<open>Imap_Client\<close>, \<open>Imap_Session\<close>, \<open>Email_Collector\<close>, \<open>Email_Cursor\<close>: package
    \<open>email\<close>; the dialogue with an arbitrary server, a mailbox read from an orderly one, bounds, the
    cursors. \<open>Rss_Collector\<close>: package
    \<open>rss\<close>. \<open>Collectors\<close>: both in the registry of the collection service.
  \<^item> \<open>AI_Store\<close>, \<open>AI_Queue\<close>, \<open>AI_Assistant\<close>, \<open>AI_OpenAI\<close>, \<open>AI_Service\<close>, \<open>AI_Behaviour\<close>,
    \<open>AI_Handlers\<close>: package \<open>ai\<close>; the summary queue under interleaved requests, workers and faults,
    both assistants, settings with the encrypted key, similarity and question answering.
  \<^item> \<open>Auth_Store\<close>, \<open>Auth_Tokens\<close>, \<open>Auth_Service\<close>, \<open>Auth_Rotation\<close>, \<open>Auth_Session\<close>, \<open>Auth_Handlers\<close>: packages
    \<open>auth\<close> and \<open>user\<close>; passwords, both tokens, the rotation under interleaved refreshes (with the locale of a
    store of single-use tokens), the life of a session, the cookie. \<open>Rate_Limiter\<close>: package \<open>ratelimit\<close>.
  \<^item> \<open>Configuration\<close>: package \<open>config\<close>; \<open>Secret_Box\<close>: package \<open>secrets\<close>; \<open>Connections\<close>: the Kafka, PostgreSQL, Redis and
    tracing clients and the transaction of a context; \<open>Observability\<close>: metrics and the request log; \<open>Router\<close>: the table
    of routes, the middleware before them, the probes; \<open>App_Startup\<close>, \<open>Server_Parts\<close>: package \<open>app\<close>, what a process
    refuses, runs and builds from its configuration, and how it ends.
  \<^item> \<open>Pipeline\<close>: a request from the producer over outbox, dispatcher and Kafka through the worker.

  How state and operations correspond to the code. A table is its list of rows and its sequence;
  a repository method is a function of the table with the fault its statement meets
  (\<open>no_faults\<close> where none does). Redis is a map of keys to values with an expiry. A handler is a
  function of the request and the world, its clock, random ids and faults arguments. What other
  processes do between two statements is a function argument, so a theorem about it holds for
  every interleaving. Goroutines that share a channel are a step relation. Errors are values of \<open>go_error\<close>;
  where the code may panic the value is an option.

  Abstractions. Strings are byte lists. A JSON text is its value, timestamps in it kept as instants
  (\<open>JTime\<close>). Parsers and tables of the Go library (URLs, addresses, case mapping, mail, MIME) and
  third-party code (gofeed, gorm's SQL, go-redis, kafka-go, the token library, bcrypt, viper, HTML) are parameters; the
  hypotheses on them are named where a theorem needs one. SHA-256, AES-GCM, Unicode classes and the
  floating-point operations are parameters. Counters of metrics are whole numbers.

  Bounds. The loops of the IMAP client end because each step consumes input
  (\<open>termination\<close> by the length of the input), the redirects of a fetch because their number is
  bounded, retries by the attempts of an event, a round of the scheduler after three steps for each source and two
  more. The endless loop of the summary worker takes the
  number of its turns as an argument; \<open>summary_worker_drains\<close> shows how many suffice. The endless
  loops of the worker, the dispatcher and the scheduler take the list of what they meet.

  Not modelled. Log lines of the services, the opening and closing of connections and the signals of the operating
  system are calls of libraries that keep no data of the program; matching a request to its route
  is the framework's. The generated test doubles repeat the interfaces. The main function calls \<open>Run\<close>, and the
  served text of the interface is a constant. The web front end is another language.
\<close>

end
